(* ===== verification/Prelude.thy ===== *)
theory Prelude
  imports Complex_Main "HOL-Library.AList" "HOL-Library.Word" "HOL-Library.Monad_Syntax"
begin

text \<open>
  What every component of the development shares: the reading of Rust's \<^verbatim>\<open>Result\<close>,
  \<^verbatim>\<open>Option\<close>, panics, \<^verbatim>\<open>HashMap\<close>, byte strings and \<^verbatim>\<open>format!\<close> messages, the simp
  collections, and two locales for state machines from which the components take their
  invariant and history lemmas.

  \<^item> \<^verbatim>\<open>Result<T, E>\<close> is the sum \<open>'e + 'a\<close>: \<open>Inl\<close> is \<^verbatim>\<open>Err\<close>, \<open>Inr\<close> is \<^verbatim>\<open>Ok\<close>.
  \<^item> A function that can panic returns an \<open>option\<close>, and \<open>None\<close> is the panic.
  \<^item> A \<^verbatim>\<open>HashMap\<close> is an association list with distinct keys; the order of the list is one
    of the orders in which the map may be iterated. \<open>map_of\<close> looks a key up and
    \<open>AList.update\<close> inserts or overwrites.
  \<^item> A \<^verbatim>\<open>String\<close> is the list of its UTF-8 bytes, so that \<open>length\<close> is Rust's \<^verbatim>\<open>len()\<close>.
  \<^item> A clock that the code reads is an argument; times are numbers of the unit the code uses.
\<close>

subsection \<open>Results\<close>

named_theorems result_simps \<open>the result combinators, unfolded\<close>

text \<open>\<open>and_then\<close> is the \<^verbatim>\<open>?\<close> operator: stop at the first error, go on with the value otherwise.\<close>

definition and_then :: "'e + 'a \<Rightarrow> ('a \<Rightarrow> 'e + 'b) \<Rightarrow> 'e + 'b" where
  "and_then r f = (case r of Inl e \<Rightarrow> Inl e | Inr a \<Rightarrow> f a)"

definition ok_or :: "'e \<Rightarrow> 'a option \<Rightarrow> 'e + 'a" where
  "ok_or e v = (case v of None \<Rightarrow> Inl e | Some a \<Rightarrow> Inr a)"

definition map_err :: "('e \<Rightarrow> 'f) \<Rightarrow> 'e + 'a \<Rightarrow> 'f + 'a" where
  "map_err f r = (case r of Inl e \<Rightarrow> Inl (f e) | Inr a \<Rightarrow> Inr a)"

definition map_ok :: "('a \<Rightarrow> 'b) \<Rightarrow> 'e + 'a \<Rightarrow> 'e + 'b" where
  "map_ok f r = (case r of Inl e \<Rightarrow> Inl e | Inr a \<Rightarrow> Inr (f a))"

lemma and_then_simps [simp, result_simps]:
  "and_then (Inl e) f = Inl e" "and_then (Inr a) f = f a"
  by (simp_all add: and_then_def)

lemma ok_or_simps [simp, result_simps]:
  "ok_or e None = Inl e" "ok_or e (Some a) = Inr a"
  by (simp_all add: ok_or_def)

lemma map_err_simps [simp, result_simps]:
  "map_err f (Inl e) = Inl (f e)" "map_err f (Inr a) = Inr a"
  by (simp_all add: map_err_def)

lemma map_ok_simps [simp, result_simps]:
  "map_ok f (Inl e) = Inl e" "map_ok f (Inr a) = Inr (f a)"
  by (simp_all add: map_ok_def)

lemma and_then_Inr_iff: "and_then r f = Inr b \<longleftrightarrow> (\<exists>a. r = Inr a \<and> f a = Inr b)"
  by (cases r) simp_all

lemma and_then_Inl_iff: "and_then r f = Inl e \<longleftrightarrow> r = Inl e \<or> (\<exists>a. r = Inr a \<and> f a = Inl e)"
  by (cases r) simp_all

lemma ok_or_Inr_iff: "ok_or e v = Inr a \<longleftrightarrow> v = Some a"
  by (cases v) simp_all

lemma map_err_Inr_iff: "map_err f r = Inr a \<longleftrightarrow> r = Inr a"
  by (cases r) simp_all

lemma map_ok_Inr_iff: "map_ok f r = Inr b \<longleftrightarrow> (\<exists>a. r = Inr a \<and> f a = b)"
  by (cases r) simp_all

lemma map_ok_Inl_iff: "map_ok f r = Inl e \<longleftrightarrow> r = Inl e"
  by (cases r) simp_all

lemmas result_iffs = and_then_Inr_iff ok_or_Inr_iff map_err_Inr_iff map_ok_Inr_iff map_ok_Inl_iff

text \<open>Operations on a state that can fail: the error leaves the state as the operation left it,
  and what follows is not run.\<close>

definition then_do :: "('s \<Rightarrow> ('e + 'a) \<times> 's) \<Rightarrow> ('a \<Rightarrow> 's \<Rightarrow> ('e + 'b) \<times> 's) \<Rightarrow> 's \<Rightarrow> ('e + 'b) \<times> 's" where
  "then_do m f s = (case m s of (Inl e, s') \<Rightarrow> (Inl e, s') | (Inr a, s') \<Rightarrow> f a s')"

lemma then_do_simps:
  "m s = (Inl e, s') \<Longrightarrow> then_do m f s = (Inl e, s')"
  "m s = (Inr a, s') \<Longrightarrow> then_do m f s = f a s'"
  by (simp_all add: then_do_def)

lemma then_do_Inr_iff:
  "then_do m f s = (Inr b, s') \<longleftrightarrow> (\<exists>a t. m s = (Inr a, t) \<and> f a t = (Inr b, s'))"
  by (auto simp: then_do_def split: prod.splits sum.splits)

lemma then_do_Inl_iff:
  "then_do m f s = (Inl e, s') \<longleftrightarrow>
     m s = (Inl e, s') \<or> (\<exists>a t. m s = (Inr a, t) \<and> f a t = (Inl e, s'))"
  by (auto simp: then_do_def split: prod.splits sum.splits)

lemma then_doE:
  assumes "then_do m f s = (r, s')"
  obtains (stop) e where "m s = (Inl e, s')" "r = Inl e"
    | (go) a t where "m s = (Inr a, t)" "f a t = (r, s')"
  using assms by (auto simp: then_do_def split: prod.splits sum.splits)

lemma then_do_keeps:
  assumes "then_do m f s = (r, s')"
    and "\<And>v t. m s = (v, t) \<Longrightarrow> g t = g s" and "\<And>a t r s'. f a t = (r, s') \<Longrightarrow> g s' = g t"
  shows "g s' = g s"
  using assms(1)
proof (cases rule: then_doE)
  case stop
  show ?thesis by (rule assms(2) [OF stop(1)])
next
  case go
  show ?thesis using assms(2) [OF go(1)] assms(3) [OF go(2)] by simp
qed

subsection \<open>Panics\<close>

lemma bind_Some_iff: "Option.bind x f = Some b \<longleftrightarrow> (\<exists>a. x = Some a \<and> f a = Some b)"
  by (cases x) simp_all

text \<open>Rust's checked conversion of a computed bound into a machine integer: \<^verbatim>\<open>u64\<close>
  arithmetic that panics (or, for \<^verbatim>\<open>checked_add\<close>, returns \<^verbatim>\<open>None\<close>) on overflow.\<close>

type_synonym u8 = "8 word"
type_synonym u32 = "32 word"
type_synonym u64 = "64 word"

definition checked_add_w :: "'w::len word \<Rightarrow> 'w word \<Rightarrow> 'w word option" where
  "checked_add_w a b = (if unat a + unat b < 2 ^ LENGTH('w) then Some (a + b) else None)"

definition saturating_add_w :: "'w::len word \<Rightarrow> 'w word \<Rightarrow> 'w word" where
  "saturating_add_w a b = (if unat a + unat b < 2 ^ LENGTH('w) then a + b else - 1)"

definition saturating_sub_w :: "'w::len word \<Rightarrow> 'w word \<Rightarrow> 'w word" where
  "saturating_sub_w a b = (if b \<le> a then a - b else 0)"

lemma checked_add_w_unat:
  "checked_add_w a b = Some c \<longleftrightarrow> unat a + unat b < 2 ^ LENGTH('w) \<and> c = a + b"
  for a b c :: "'w::len word"
  by (auto simp: checked_add_w_def)

lemma unat_add_small:
  "unat a + unat b < 2 ^ LENGTH('w) \<Longrightarrow> unat (a + b) = unat a + unat b"
  for a b :: "'w::len word"
  by (simp add: unat_add_lem)

lemma saturating_add_w_unat:
  "unat (saturating_add_w a b) = min (unat a + unat b) (2 ^ LENGTH('w) - 1)"
  for a b :: "'w::len word"
proof (cases "unat a + unat b < 2 ^ LENGTH('w)")
  case True
  then show ?thesis by (simp add: saturating_add_w_def unat_add_small)
next
  case False
  then show ?thesis
    by (simp add: saturating_add_w_def unsigned_minus_1_eq_mask mask_eq_exp_minus_1)
qed

lemma saturating_sub_w_unat: "unat (saturating_sub_w a b) = unat a - unat b"
  for a b :: "'w::len word"
  by (simp add: saturating_sub_w_def unat_sub word_le_nat_alt not_le)

subsection \<open>Hash maps\<close>

type_synonym ('k, 'v) hash_map = "('k \<times> 'v) list"

abbreviation hm_get :: "('k, 'v) hash_map \<Rightarrow> 'k \<Rightarrow> 'v option" where
  "hm_get m k \<equiv> map_of m k"

abbreviation hm_put :: "'k \<Rightarrow> 'v \<Rightarrow> ('k, 'v) hash_map \<Rightarrow> ('k, 'v) hash_map" where
  "hm_put k v m \<equiv> AList.update k v m"

abbreviation hm_wf :: "('k, 'v) hash_map \<Rightarrow> bool" where
  "hm_wf m \<equiv> distinct (map fst m)"

text \<open>\<^verbatim>\<open>get_mut(&k)\<close> followed by an assignment: change the value of a key that is present.\<close>

definition hm_modify :: "'k \<Rightarrow> ('v \<Rightarrow> 'v) \<Rightarrow> ('k, 'v) hash_map \<Rightarrow> ('k, 'v) hash_map" where
  "hm_modify k f m = (case hm_get m k of None \<Rightarrow> m | Some v \<Rightarrow> hm_put k (f v) m)"

lemma hm_get_put: "hm_get (hm_put k v m) k' = (if k' = k then Some v else hm_get m k')"
  by (simp add: update_conv')

lemma hm_get_modify:
  "hm_get (hm_modify k f m) k' = (if k' = k then map_option f (hm_get m k) else hm_get m k')"
  by (simp add: hm_modify_def hm_get_put split: option.split)

lemma hm_wf_put: "hm_wf m \<Longrightarrow> hm_wf (hm_put k v m)"
  by (rule distinct_update)

lemma hm_wf_modify: "hm_wf m \<Longrightarrow> hm_wf (hm_modify k f m)"
  by (simp add: hm_modify_def hm_wf_put split: option.split)

lemma hm_get_in_set: "hm_wf m \<Longrightarrow> hm_get m k = Some v \<longleftrightarrow> (k, v) \<in> set m"
  by (simp add: map_of_eq_Some_iff)

text \<open>The interface of a keyed store, and what follows from it for "insert only when
  absent", the idiom of every idempotent operation of the program.\<close>

locale keyed_store =
  fixes get :: "'s \<Rightarrow> 'k \<Rightarrow> 'v option"
    and put :: "'k \<Rightarrow> 'v \<Rightarrow> 's \<Rightarrow> 's"
  assumes get_put: "get (put k v s) k' = (if k' = k then Some v else get s k')"
begin

lemma get_put_same: "get (put k v s) k = Some v"
  by (simp add: get_put)

lemma get_put_other: "k' \<noteq> k \<Longrightarrow> get (put k v s) k' = get s k'"
  by (simp add: get_put)

lemma insert_absent_keeps:
  "get s k = None \<Longrightarrow> get s k' = Some v' \<Longrightarrow> get (put k v s) k' = Some v'"
  by (cases "k' = k") (simp_all add: get_put)

lemma insert_absent_grows:
  "get s k = None \<Longrightarrow> dom (get (put k v s)) = insert k (dom (get s))"
  by (auto simp: get_put split: if_splits)

lemma put_put_same: "get (put k v (put k w s)) = get (put k v s)"
  by (rule ext) (simp add: get_put)

end

interpretation hm: keyed_store map_of AList.update
  by unfold_locales (rule hm_get_put)

subsection \<open>State machines\<close>

text \<open>A deterministic machine whose single step keeps an invariant keeps it over every
  run; one whose single step moves along a preorder moves along it over every run.\<close>

locale invariant_machine =
  fixes step :: "'e \<Rightarrow> 's \<Rightarrow> 's" and inv :: "'s \<Rightarrow> bool"
  assumes step_inv: "inv s \<Longrightarrow> inv (step e s)"
begin

lemma run_inv: "inv s \<Longrightarrow> inv (fold step es s)"
  by (induction es arbitrary: s) (simp_all add: step_inv)

end

locale history_machine =
  fixes step :: "'e \<Rightarrow> 's \<Rightarrow> 's" and later :: "'s \<Rightarrow> 's \<Rightarrow> bool"
  assumes later_refl: "later s s"
    and later_trans: "later s t \<Longrightarrow> later t u \<Longrightarrow> later s u"
    and step_later: "later s (step e s)"
begin

lemma run_later: "later s (fold step es s)"
proof (induction es arbitrary: s)
  case Nil
  then show ?case by (simp add: later_refl)
next
  case (Cons e es)
  have "later s (step e s)" by (rule step_later)
  moreover have "later (step e s) (fold step es (step e s))" by (rule Cons.IH)
  ultimately have "later s (fold step es (step e s))" by (rule later_trans)
  then show ?case by simp
qed

end

text \<open>An audit sink: a function from a record and the sink's state to a result and the new
  state, whose log grows by the record exactly when it reports success.\<close>

locale append_sink =
  fixes emit :: "'r \<Rightarrow> 's \<Rightarrow> ('e + unit) \<times> 's" and log :: "'s \<Rightarrow> 'r list"
  assumes emit_ok: "emit r s = (Inr u, s') \<Longrightarrow> log s' = log s @ [r]"
    and emit_err: "emit r s = (Inl e, s') \<Longrightarrow> log s' = log s"
begin

lemma emit_grows: "emit r s = (v, s') \<Longrightarrow> \<exists>rs. log s' = log s @ rs \<and> set rs \<subseteq> {r}"
  by (cases v) (auto dest: emit_ok emit_err)

lemma emit_prefix: "take (length (log s)) (log (snd (emit r s))) = log s"
proof -
  obtain v s' where "emit r s = (v, s')" by force
  with emit_grows [OF this] show ?thesis by auto
qed

end

text \<open>The in-memory sinks of the program push to a list behind a \<^verbatim>\<open>Mutex\<close>, which is poisoned
  once a thread has panicked while it held it.\<close>

record 'a mutex =
  mx_poisoned :: bool
  mx_data :: 'a

definition memory_sink_emit :: "'r \<Rightarrow> 'r list mutex \<Rightarrow> (unit + unit) \<times> 'r list mutex" where
  "memory_sink_emit r s =
     (if mx_poisoned s then (Inl (), s) else (Inr (), s\<lparr>mx_data := mx_data s @ [r]\<rparr>))"

definition memory_sink_records :: "'r list mutex \<Rightarrow> 'r list" where
  "memory_sink_records s = (if mx_poisoned s then [] else mx_data s)"

interpretation memory_sink: append_sink memory_sink_emit mx_data
  by unfold_locales (auto simp: memory_sink_emit_def split: if_splits)

subsection \<open>Byte strings and messages\<close>

definition ascii_lower :: "char \<Rightarrow> char" where
  "ascii_lower c =
     (let n = of_char c :: nat in if 65 \<le> n \<and> n \<le> 90 then char_of (n + 32) else c)"

text \<open>\<^verbatim>\<open>to_ascii_lowercase\<close>. The code also calls \<^verbatim>\<open>to_lowercase\<close>, on addresses and
  calldata; the two agree on ASCII bytes, and that is the part modelled.\<close>

definition to_lower :: "string \<Rightarrow> string" where
  "to_lower s = map ascii_lower s"

definition eq_ignore_ascii_case :: "string \<Rightarrow> string \<Rightarrow> bool" where
  "eq_ignore_ascii_case a b \<longleftrightarrow> to_lower a = to_lower b"

definition starts_with :: "string \<Rightarrow> string \<Rightarrow> bool" where
  "starts_with p s \<longleftrightarrow> take (length p) s = p"

definition contains :: "string \<Rightarrow> string \<Rightarrow> bool" where
  "contains p s \<longleftrightarrow> list_ex (\<lambda>i. take (length p) (drop i s) = p) [0..<length s + 1]"

definition strip_prefix :: "string \<Rightarrow> string \<Rightarrow> string option" where
  "strip_prefix p s = (if starts_with p s then Some (drop (length p) s) else None)"

definition is_ascii_digit :: "char \<Rightarrow> bool" where
  "is_ascii_digit c \<longleftrightarrow> (let n = of_char c :: nat in 48 \<le> n \<and> n \<le> 57)"

definition is_ascii_hexdigit :: "char \<Rightarrow> bool" where
  "is_ascii_hexdigit c \<longleftrightarrow> (let n = of_char c :: nat in
     48 \<le> n \<and> n \<le> 57 \<or> 65 \<le> n \<and> n \<le> 70 \<or> 97 \<le> n \<and> n \<le> 102)"

definition is_ascii_lowercase :: "char \<Rightarrow> bool" where
  "is_ascii_lowercase c \<longleftrightarrow> (let n = of_char c :: nat in 97 \<le> n \<and> n \<le> 122)"

text \<open>\<^verbatim>\<open>splitn(n, c)\<close>: at most \<open>n\<close> pieces, the last one holding the rest.\<close>

fun splitn :: "nat \<Rightarrow> char \<Rightarrow> string \<Rightarrow> string list" where
  "splitn 0 c s = []"
| "splitn (Suc 0) c s = [s]"
| "splitn (Suc (Suc n)) c s =
     (if c \<in> set s
      then takeWhile (\<lambda>x. x \<noteq> c) s # splitn (Suc n) c (tl (dropWhile (\<lambda>x. x \<noteq> c) s))
      else [s])"

lemma splitn_prefix:
  "c \<notin> set p \<Longrightarrow> splitn (Suc (Suc n)) c (p @ c # s) = p # splitn (Suc n) c s"
proof -
  assume "c \<notin> set p"
  then have "takeWhile (\<lambda>x. x \<noteq> c) (p @ c # s) = p" "dropWhile (\<lambda>x. x \<noteq> c) (p @ c # s) = c # s"
    by (induction p) auto
  then show ?thesis by simp
qed

text \<open>A message the code renders with \<^verbatim>\<open>format!\<close> is kept as its template and arguments.\<close>

datatype fmt_arg = FNat nat | FDec rat | FStr string

datatype message = Lit string | Fmt string "fmt_arg list"

lemma ascii_lower_idem: "ascii_lower (ascii_lower c) = ascii_lower c"
  by (auto simp: ascii_lower_def Let_def)

lemma to_lower_idem [simp]: "to_lower (to_lower s) = to_lower s"
  by (simp add: to_lower_def ascii_lower_idem)

lemma length_to_lower [simp]: "length (to_lower s) = length s"
  by (simp add: to_lower_def)

lemma eq_ignore_ascii_case_refl [simp]: "eq_ignore_ascii_case a a"
  by (simp add: eq_ignore_ascii_case_def)

subsection \<open>Adjacent elements\<close>

text \<open>\<^verbatim>\<open>windows(2)\<close>: a strict order between neighbours is a strict order throughout.\<close>

lemma successively_strict:
  fixes f :: "'a \<Rightarrow> 'b::linorder"
  shows "successively (\<lambda>a b. f a < f b) xs \<longleftrightarrow> sorted_wrt (<) (map f xs)"
proof -
  have "successively (\<lambda>a b. f a < f b) xs = sorted_wrt (\<lambda>a b. f a < f b) xs"
    by (rule successively_conv_sorted_wrt) (auto intro: transpI)
  then show ?thesis by (simp add: sorted_wrt_map)
qed

subsection \<open>Hexadecimal and decimal text\<close>

text \<open>\<^verbatim>\<open>encode_hex\<close> of \<^verbatim>\<open>authn.rs\<close> and \<^verbatim>\<open>step_up.rs\<close>, and \<^verbatim>\<open>hex::encode\<close>: lower case,
  two digits a byte.\<close>

definition hex_digit :: "u8 \<Rightarrow> char" where
  "hex_digit b = ''0123456789abcdef'' ! unat b"

definition encode_hex :: "u8 list \<Rightarrow> string" where
  "encode_hex bytes = concat (map (\<lambda>b. [hex_digit (drop_bit 4 b), hex_digit (and b 15)]) bytes)"

definition byte_of :: "char \<Rightarrow> u8" where
  "byte_of c = of_nat (of_char c)"

definition digit_char :: "nat \<Rightarrow> char" where
  "digit_char n = char_of (48 + n)"

fun show_nat :: "nat \<Rightarrow> string" where
  "show_nat n = (if n < 10 then [digit_char n] else show_nat (n div 10) @ [digit_char (n mod 10)])"

declare show_nat.simps [simp del]

lemma length_show_nat: "n < 10 ^ Suc k \<Longrightarrow> length (show_nat n) \<le> Suc k"
proof (induction k arbitrary: n)
  case 0
  then show ?case by (simp add: show_nat.simps)
next
  case (Suc k)
  show ?case
  proof (cases "n < 10")
    case True
    then show ?thesis by (simp add: show_nat.simps)
  next
    case False
    have "n div 10 < 10 ^ Suc k" using Suc.prems by (simp add: div_less_iff_less_mult mult.commute)
    from Suc.IH [OF this] False show ?thesis by (subst show_nat.simps) simp
  qed
qed

lemma byte_of_inject: "byte_of a = byte_of b \<longleftrightarrow> a = b"
proof
  assume "byte_of a = byte_of b"
  then have "unat (byte_of a) = unat (byte_of b)" by simp
  then have "(of_char a :: nat) = of_char b" by (simp add: byte_of_def unat_of_nat)
  then show "a = b" by (rule injD [OF inj_of_char])
qed simp

lemma hex_digit_inject:
  "unat a < 16 \<Longrightarrow> unat b < 16 \<Longrightarrow> hex_digit a = hex_digit b \<longleftrightarrow> a = b"
proof -
  assume "unat a < 16" "unat b < 16"
  moreover have "distinct ''0123456789abcdef''" by simp
  ultimately have "hex_digit a = hex_digit b \<longleftrightarrow> unat a = unat b"
    unfolding hex_digit_def by (subst nth_eq_iff_index_eq) simp_all
  then show ?thesis by (simp add: word_unat_eq_iff)
qed

lemma high_nibble: "unat (drop_bit 4 b) = unat b div 16" for b :: u8
  by (simp add: drop_bit_eq_div unat_div)

lemma low_nibble: "unat (and b 15) = unat b mod 16" for b :: u8
proof -
  have "and b 15 = take_bit 4 b" by (simp add: take_bit_eq_mask mask_eq_exp_minus_1)
  then show ?thesis by (simp add: take_bit_eq_mod unat_mod)
qed

lemma encode_hex_simps:
  "encode_hex [] = []"
  "encode_hex (b # bs) = hex_digit (drop_bit 4 b) # hex_digit (and b 15) # encode_hex bs"
  by (simp_all add: encode_hex_def)

lemma nibbles_inject:
  fixes a b :: u8
  assumes "drop_bit 4 a = drop_bit 4 b" "and a 15 = and b 15"
  shows "a = b"
proof -
  have "unat a div 16 = unat b div 16" "unat a mod 16 = unat b mod 16"
    using arg_cong [OF assms(1), of unat] arg_cong [OF assms(2), of unat]
    by (simp_all only: high_nibble low_nibble)
  then have "unat a = unat b" by (metis mult_div_mod_eq)
  then show ?thesis by (rule unsigned_word_eqI)
qed

lemma nibble_bounds: "unat (drop_bit 4 b) < 16" "unat (and b 15) < 16" for b :: u8
  using unsigned_less [of b, where ?'a = nat] by (simp_all only: high_nibble low_nibble) (simp_all add: div_less_iff_less_mult)

lemma encode_hex_inject: "encode_hex xs = encode_hex ys \<longleftrightarrow> xs = ys"
proof (induction xs arbitrary: ys)
  case Nil
  then show ?case by (cases ys) (simp_all add: encode_hex_simps)
next
  case (Cons x xs)
  show ?case
    by (cases ys) (auto simp: encode_hex_simps Cons.IH hex_digit_inject nibble_bounds
        intro: nibbles_inject)
qed

lemma hex_digit_set: "unat b < 16 \<Longrightarrow> hex_digit b \<in> set ''0123456789abcdef''"
  unfolding hex_digit_def by (rule nth_mem) simp

lemma encode_hex_set: "set (encode_hex bs) \<subseteq> set ''0123456789abcdef''"
proof (induction bs)
  case (Cons b bs)
  then show ?case
    using hex_digit_set [OF nibble_bounds(1), of b] hex_digit_set [OF nibble_bounds(2), of b]
    by (simp only: encode_hex_simps list.set insert_subset simp_thms)
qed (simp add: encode_hex_simps)

definition show_int :: "int \<Rightarrow> string" where
  "show_int i = (if i < 0 then CHR ''-'' # show_nat (nat (- i)) else show_nat (nat i))"

definition digits_value :: "string \<Rightarrow> nat" where
  "digits_value = foldl (\<lambda>a c. a * 10 + (of_char c - 48)) 0"

lemma digit_value: "n < 10 \<Longrightarrow> of_char (digit_char n) = 48 + n"
  by (simp add: digit_char_def)

lemma digits_value_show_nat: "digits_value (show_nat n) = n"
proof (induction n rule: show_nat.induct)
  case (1 n)
  show ?case
    by (cases "n < 10"; subst show_nat.simps)
      (simp_all add: digits_value_def digit_value 1 [unfolded digits_value_def])
qed

lemma show_nat_inject: "show_nat m = show_nat n \<longleftrightarrow> m = n"
  by (metis digits_value_show_nat)

lemma show_nat_digits: "c \<in> set (show_nat n) \<Longrightarrow> 48 \<le> (of_char c :: nat) \<and> (of_char c :: nat) \<le> 57"
proof (induction n rule: show_nat.induct)
  case (1 n)
  then show ?case
    by (cases "n < 10") (auto simp: show_nat.simps [of n] digit_value)
qed

lemma show_nat_no: "(of_char c :: nat) < 48 \<or> 57 < (of_char c :: nat) \<Longrightarrow> c \<notin> set (show_nat n)"
  using show_nat_digits by fastforce

lemma show_nat_not_neg: "show_nat n \<noteq> CHR ''-'' # s"
  using show_nat_no [of "CHR ''-''" n] by auto

lemma show_int_inject: "show_int i = show_int j \<longleftrightarrow> i = j"
  using show_nat_not_neg show_nat_not_neg [symmetric]
  by (auto simp: show_int_def show_nat_inject nat_eq_iff)

lemma show_int_no_bar: "CHR ''|'' \<notin> set (show_int i)"
  using show_nat_no [of "CHR ''|''"] by (simp add: show_int_def)

text \<open>A separator that the fields before it do not contain splits in one way only.\<close>

lemma separator_split:
  assumes "c \<notin> set p" "c \<notin> set q"
  shows "p @ c # s = q @ c # t \<longleftrightarrow> p = q \<and> s = t"
  using assms
proof (induction p arbitrary: q)
  case Nil
  then show ?case by (cases q) auto
next
  case (Cons x p)
  then show ?case by (cases q) auto
qed

end
