(* ===== verification/Authz.thy ===== *)
theory Authz
  imports Prelude
begin

text \<open>
  Authorization (\<^verbatim>\<open>crates/aether-authz\<close>): the tier order (\<^verbatim>\<open>tier.rs\<close>), the closed action
  vocabulary (\<^verbatim>\<open>action.rs\<close>), grants and their store (\<^verbatim>\<open>grant.rs\<close>), the decision function
  (\<^verbatim>\<open>policy.rs\<close>) and audited enforcement (\<^verbatim>\<open>enforcement.rs\<close>, \<^verbatim>\<open>audit.rs\<close>). The lemmas
  characterise when an action is allowed, show that the hard denials hold whatever the grant
  says, and that every decision that reaches a caller has been recorded exactly once.
\<close>

subsection \<open>Tiers (tier.rs)\<close>

datatype tier = ReadOnly | DraftOnly | ConfirmEveryAction | BoundedAutopilot | YoloWithinHardCaps

primrec tier_number :: "tier \<Rightarrow> nat" where
  "tier_number ReadOnly = 1"
| "tier_number DraftOnly = 2"
| "tier_number ConfirmEveryAction = 3"
| "tier_number BoundedAutopilot = 4"
| "tier_number YoloWithinHardCaps = 5"

text \<open>The derived \<^verbatim>\<open>Ord\<close> compares the discriminants.\<close>

instantiation tier :: linorder
begin

definition less_eq_tier :: "tier \<Rightarrow> tier \<Rightarrow> bool" where
  "less_eq_tier a b \<longleftrightarrow> tier_number a \<le> tier_number b"

definition less_tier :: "tier \<Rightarrow> tier \<Rightarrow> bool" where
  "less_tier a b \<longleftrightarrow> tier_number a < tier_number b"

lemma tier_number_inj: "tier_number a = tier_number b \<Longrightarrow> a = b"
  by (cases a; cases b) simp_all

instance
  by intro_classes (auto simp: less_eq_tier_def less_tier_def intro: tier_number_inj)

end

definition tier_lower :: "tier \<Rightarrow> tier \<Rightarrow> tier" where
  "tier_lower a b = (if tier_number a \<le> tier_number b then a else b)"

datatype tier_error = TierError

definition tier_try_from :: "nat \<Rightarrow> tier_error + tier" where
  "tier_try_from n =
     (if n = 1 then Inr ReadOnly else if n = 2 then Inr DraftOnly
      else if n = 3 then Inr ConfirmEveryAction else if n = 4 then Inr BoundedAutopilot
      else if n = 5 then Inr YoloWithinHardCaps else Inl TierError)"

lemma tier_lower_min: "tier_lower a b = min a b"
  by (simp add: tier_lower_def min_def less_eq_tier_def)

subsection \<open>Actions (action.rs)\<close>

datatype action =
    Subscribe | Query | Explain | Metrics | Simulate | DraftOrder | ConfigureAlerts
  | RegenerateVault | SubmitPaperOrder | LaunchSwarm | ReprocessInbox | SubmitLiveOrder
  | InstallSignedPlugin | ScheduleAutomation | GuardianApproval | ActivateCaps
  | CreateOrElevateGrant | ApprovePlugin | AddAllowlist | RevokeOtherSession
  | ApplySelfImprovement | ReadSecretMaterial | SetLiveEnabled | RaiseCapsProgrammatically
  | DisableSafetyControl | WalletTransfer

definition all_tier_actions :: "action list" where
  "all_tier_actions =
     [Subscribe, Query, Explain, Metrics, Simulate, DraftOrder, ConfigureAlerts, RegenerateVault,
      SubmitPaperOrder, LaunchSwarm, ReprocessInbox, SubmitLiveOrder, InstallSignedPlugin,
      ScheduleAutomation, GuardianApproval, ActivateCaps, CreateOrElevateGrant, ApprovePlugin,
      AddAllowlist, RevokeOtherSession, ApplySelfImprovement, WalletTransfer]"

fun minimum_tier :: "action \<Rightarrow> tier" where
  "minimum_tier Subscribe = ReadOnly"
| "minimum_tier Query = ReadOnly"
| "minimum_tier Explain = ReadOnly"
| "minimum_tier Metrics = ReadOnly"
| "minimum_tier Simulate = DraftOnly"
| "minimum_tier DraftOrder = DraftOnly"
| "minimum_tier ConfigureAlerts = DraftOnly"
| "minimum_tier RegenerateVault = DraftOnly"
| "minimum_tier SubmitPaperOrder = ConfirmEveryAction"
| "minimum_tier LaunchSwarm = ConfirmEveryAction"
| "minimum_tier ReprocessInbox = ConfirmEveryAction"
| "minimum_tier ReadSecretMaterial = YoloWithinHardCaps"
| "minimum_tier SetLiveEnabled = YoloWithinHardCaps"
| "minimum_tier RaiseCapsProgrammatically = YoloWithinHardCaps"
| "minimum_tier DisableSafetyControl = YoloWithinHardCaps"
| "minimum_tier _ = BoundedAutopilot"

definition is_mutating :: "action \<Rightarrow> bool" where
  "is_mutating a \<longleftrightarrow> \<not> (a = Subscribe \<or> a = Query \<or> a = Explain \<or> a = Metrics)"

definition always_requires_step_up :: "action \<Rightarrow> bool" where
  "always_requires_step_up a \<longleftrightarrow>
     a \<in> {GuardianApproval, ActivateCaps, CreateOrElevateGrant, ApprovePlugin, AddAllowlist,
          RevokeOtherSession, ApplySelfImprovement}"

fun scope :: "action \<Rightarrow> string" where
  "scope Subscribe = ''stream.subscribe''"
| "scope Query = ''data.query''"
| "scope Explain = ''opps.explain''"
| "scope Metrics = ''metrics.snapshot''"
| "scope Simulate = ''sim.run''"
| "scope DraftOrder = ''orders.draft''"
| "scope ConfigureAlerts = ''alerts.configure''"
| "scope RegenerateVault = ''vault.regenerate''"
| "scope SubmitPaperOrder = ''orders.submit_paper''"
| "scope LaunchSwarm = ''swarm.launch''"
| "scope ReprocessInbox = ''inbox.reprocess''"
| "scope SubmitLiveOrder = ''orders.submit''"
| "scope InstallSignedPlugin = ''plugins.install_signed''"
| "scope ScheduleAutomation = ''automation.schedule''"
| "scope GuardianApproval = ''guardian.approve''"
| "scope ActivateCaps = ''caps.activate''"
| "scope CreateOrElevateGrant = ''grants.elevate''"
| "scope ApprovePlugin = ''plugins.approve''"
| "scope AddAllowlist = ''guardian.allowlist_add''"
| "scope RevokeOtherSession = ''sessions.revoke_other''"
| "scope ApplySelfImprovement = ''self_improvement.apply''"
| "scope ReadSecretMaterial = ''secrets.read''"
| "scope SetLiveEnabled = ''execution.set_live_enabled''"
| "scope RaiseCapsProgrammatically = ''caps.raise_programmatically''"
| "scope DisableSafetyControl = ''safety.disable''"
| "scope WalletTransfer = ''guardian.transfer''"

subsection \<open>Grants (grant.rs)\<close>

datatype actor_kind = Human | Agent | Automation

text \<open>Times are \<^verbatim>\<open>u64\<close> seconds since the epoch; no operation here adds to one.\<close>

record grant =
  gr_id :: string
  gr_actor_id :: string
  gr_actor_kind :: actor_kind
  gr_tier :: tier
  gr_scopes :: "string set"
  gr_scope_restricted :: bool
  gr_expires_at :: "nat option"
  gr_revoked_at :: "nat option"

definition default_grant_lifetime_secs :: "actor_kind \<Rightarrow> nat option" where
  "default_grant_lifetime_secs k =
     (case k of Human \<Rightarrow> None | Agent \<Rightarrow> Some (7 * 24 * 60 * 60)
      | Automation \<Rightarrow> Some (30 * 24 * 60 * 60))"

definition grant_is_active :: "grant \<Rightarrow> nat \<Rightarrow> bool" where
  "grant_is_active g now \<longleftrightarrow>
     gr_revoked_at g = None \<and> (case gr_expires_at g of None \<Rightarrow> True | Some e \<Rightarrow> now < e)"

definition permits_scope :: "grant \<Rightarrow> string \<Rightarrow> bool" where
  "permits_scope g s \<longleftrightarrow> \<not> gr_scope_restricted g \<or> s \<in> gr_scopes g"

datatype grant_error = GrantDuplicate | GrantNotFound

type_synonym grant_store = "(string, grant) hash_map"

definition grant_issue :: "grant \<Rightarrow> grant_store \<Rightarrow> grant_error + grant_store" where
  "grant_issue g s =
     (if hm_get s (gr_id g) \<noteq> None then Inl GrantDuplicate else Inr (hm_put (gr_id g) g s))"

definition grant_revoke :: "string \<Rightarrow> nat \<Rightarrow> grant_store \<Rightarrow> grant_error + grant_store" where
  "grant_revoke i now s =
     (case hm_get s i of None \<Rightarrow> Inl GrantNotFound
      | Some g \<Rightarrow> Inr (hm_put i (g\<lparr>gr_revoked_at := Some now\<rparr>) s))"

definition grant_get :: "string \<Rightarrow> grant_store \<Rightarrow> grant option" where
  "grant_get i s = hm_get s i"

subsection \<open>The decision (policy.rs)\<close>

record actor =
  ac_id :: string
  ac_kind :: actor_kind

record evaluation_context =
  ev_now :: nat
  ev_grant :: "grant option"
  ev_session_tier :: "tier option"
  ev_confirmed :: bool
  ev_step_up_satisfied :: bool
  ev_live_history_days :: nat
  ev_wallet_above_threshold :: bool
  ev_fresh_human_wallet_approval :: bool

definition evaluation_context_new :: "nat \<Rightarrow> grant option \<Rightarrow> evaluation_context" where
  "evaluation_context_new now g =
     \<lparr>ev_now = now, ev_grant = g, ev_session_tier = None, ev_confirmed = False,
       ev_step_up_satisfied = False, ev_live_history_days = 0,
       ev_wallet_above_threshold = False, ev_fresh_human_wallet_approval = False\<rparr>"

datatype verdict = VAllow | VDeny | VConfirmRequired | VStepUpRequired

record decision =
  de_verdict :: verdict
  de_rule :: string
  de_effective_tier :: "tier option"
  de_grant_id :: "string option"

definition decision_deny :: "string \<Rightarrow> grant option \<Rightarrow> decision" where
  "decision_deny rule g =
     \<lparr>de_verdict = VDeny, de_rule = rule, de_effective_tier = None,
       de_grant_id = map_option gr_id g\<rparr>"

definition decision_at :: "verdict \<Rightarrow> string \<Rightarrow> tier \<Rightarrow> grant \<Rightarrow> decision" where
  "decision_at v rule t g =
     \<lparr>de_verdict = v, de_rule = rule, de_effective_tier = Some t, de_grant_id = Some (gr_id g)\<rparr>"

text \<open>From the effective tier on: minimum tier, step-up, confirmation.\<close>

definition evaluate_tier ::
  "action \<Rightarrow> evaluation_context \<Rightarrow> grant \<Rightarrow> tier \<Rightarrow> decision" where
  "evaluate_tier a c g t =
     (if t < minimum_tier a then decision_at VDeny ''tier.insufficient'' t g
      else if (always_requires_step_up a \<or> a = SubmitLiveOrder \<and> ev_live_history_days c < 30)
              \<and> \<not> ev_step_up_satisfied c
      then decision_at VStepUpRequired ''step_up.required'' t g
      else if (t = ConfirmEveryAction \<and> is_mutating a
               \<or> t = BoundedAutopilot \<and> a = SubmitLiveOrder) \<and> \<not> ev_confirmed c
      then decision_at VConfirmRequired ''confirmation.required'' t g
      else decision_at VAllow ''tier.allowed'' t g)"

definition evaluate_grant ::
  "actor \<Rightarrow> action \<Rightarrow> evaluation_context \<Rightarrow> grant \<Rightarrow> decision" where
  "evaluate_grant actor a c g =
     (if gr_actor_id g \<noteq> ac_id actor \<or> gr_actor_kind g \<noteq> ac_kind actor
      then decision_deny ''grant.actor_mismatch'' (Some g)
      else if gr_revoked_at g \<noteq> None then decision_deny ''grant.revoked'' (Some g)
      else if (case gr_expires_at g of None \<Rightarrow> False | Some e \<Rightarrow> e \<le> ev_now c)
      then decision_deny ''grant.tier_expired'' (Some g)
      else if \<not> permits_scope g (scope a) then decision_deny ''grant.scope_denied'' (Some g)
      else (case ac_kind actor of
              Human \<Rightarrow> (case ev_session_tier c of
                 None \<Rightarrow> decision_deny ''session.missing'' (Some g)
               | Some st \<Rightarrow> evaluate_tier a c g (tier_lower (gr_tier g) st))
            | _ \<Rightarrow> evaluate_tier a c g (gr_tier g)))"

definition evaluate :: "actor \<Rightarrow> action \<Rightarrow> evaluation_context \<Rightarrow> decision" where
  "evaluate actor a c =
     (if a = ReadSecretMaterial then decision_deny ''hard_deny.secret_material'' (ev_grant c)
      else if a = SetLiveEnabled then decision_deny ''hard_deny.live_enabled'' (ev_grant c)
      else if a = RaiseCapsProgrammatically
      then decision_deny ''hard_deny.programmatic_caps_raise'' (ev_grant c)
      else if a = DisableSafetyControl
      then decision_deny ''hard_deny.disable_safety_control'' (ev_grant c)
      else if a = WalletTransfer \<and> ev_wallet_above_threshold c
              \<and> \<not> (ac_kind actor = Human \<and> ev_fresh_human_wallet_approval c
                   \<and> ev_step_up_satisfied c)
      then decision_deny ''hard_deny.wallet_threshold'' (ev_grant c)
      else if a = ApplySelfImprovement \<and> ac_kind actor \<noteq> Human
      then decision_deny ''self_improvement.human_required'' (ev_grant c)
      else (case ev_grant c of
              None \<Rightarrow> decision_deny ''grant.missing'' None
            | Some g \<Rightarrow> evaluate_grant actor a c g))"

subsection \<open>Audited enforcement (enforcement.rs, audit.rs)\<close>

datatype enforcement_point = Gateway | Router | Mcp | Guardian

record audit_record =
  au_at :: nat
  au_actor_id :: string
  au_actor_kind :: actor_kind
  au_action :: action
  au_point :: enforcement_point
  au_grant_id :: "string option"
  au_effective_tier :: "tier option"
  au_verdict :: verdict
  au_rule :: string

record audited_decision =
  ad_decision :: decision
  ad_audit :: audit_record

text \<open>A sink is a function that takes a record and the sink's state to a result and its new
  state; the code's \<^verbatim>\<open>AuditSink\<close> is a trait, so the sink is an argument.\<close>

definition audit_record_of ::
  "enforcement_point \<Rightarrow> actor \<Rightarrow> action \<Rightarrow> evaluation_context \<Rightarrow> decision \<Rightarrow> audit_record" where
  "audit_record_of p actor a c d =
     \<lparr>au_at = ev_now c, au_actor_id = ac_id actor, au_actor_kind = ac_kind actor, au_action = a,
       au_point = p, au_grant_id = de_grant_id d, au_effective_tier = de_effective_tier d,
       au_verdict = de_verdict d, au_rule = de_rule d\<rparr>"

definition enforce_at ::
  "(audit_record \<Rightarrow> 's \<Rightarrow> ('e + unit) \<times> 's) \<Rightarrow> enforcement_point \<Rightarrow> actor \<Rightarrow> action
     \<Rightarrow> evaluation_context \<Rightarrow> 's \<Rightarrow> ('e + audited_decision) \<times> 's" where
  "enforce_at emit p actor a c s =
     (let d = evaluate actor a c; r = audit_record_of p actor a c d
      in case emit r s of
           (Inl e, s') \<Rightarrow> (Inl e, s')
         | (Inr _, s') \<Rightarrow> (Inr \<lparr>ad_decision = d, ad_audit = r\<rparr>, s'))"

subsection \<open>When an action is allowed\<close>

definition effective_tier :: "actor \<Rightarrow> evaluation_context \<Rightarrow> grant \<Rightarrow> tier option" where
  "effective_tier actor c g =
     (case ac_kind actor of
        Human \<Rightarrow> map_option (tier_lower (gr_tier g)) (ev_session_tier c)
      | _ \<Rightarrow> Some (gr_tier g))"

definition grant_usable :: "actor \<Rightarrow> action \<Rightarrow> evaluation_context \<Rightarrow> grant \<Rightarrow> bool" where
  "grant_usable actor a c g \<longleftrightarrow>
     gr_actor_id g = ac_id actor \<and> gr_actor_kind g = ac_kind actor \<and>
     grant_is_active g (ev_now c) \<and> permits_scope g (scope a)"

definition needs_step_up :: "action \<Rightarrow> evaluation_context \<Rightarrow> bool" where
  "needs_step_up a c \<longleftrightarrow>
     always_requires_step_up a \<or> a = SubmitLiveOrder \<and> ev_live_history_days c < 30"

definition needs_confirmation :: "action \<Rightarrow> tier \<Rightarrow> bool" where
  "needs_confirmation a t \<longleftrightarrow>
     t = ConfirmEveryAction \<and> is_mutating a \<or> t = BoundedAutopilot \<and> a = SubmitLiveOrder"

definition hard_denied :: "actor \<Rightarrow> action \<Rightarrow> evaluation_context \<Rightarrow> bool" where
  "hard_denied actor a c \<longleftrightarrow>
     a \<in> {ReadSecretMaterial, SetLiveEnabled, RaiseCapsProgrammatically, DisableSafetyControl} \<or>
     a = WalletTransfer \<and> ev_wallet_above_threshold c
       \<and> \<not> (ac_kind actor = Human \<and> ev_fresh_human_wallet_approval c \<and> ev_step_up_satisfied c) \<or>
     a = ApplySelfImprovement \<and> ac_kind actor \<noteq> Human"

named_theorems decision_simps

lemma deny_verdict [simp, decision_simps]: "de_verdict (decision_deny r g) = VDeny"
  by (simp add: decision_deny_def)

lemma decision_at_sel [simp, decision_simps]:
  "de_verdict (decision_at v r t g) = v" "de_rule (decision_at v r t g) = r"
  "de_effective_tier (decision_at v r t g) = Some t"
  by (simp_all add: decision_at_def)

lemma evaluate_tier_verdict:
  "de_verdict (evaluate_tier a c g t) =
     (if t < minimum_tier a then VDeny
      else if needs_step_up a c \<and> \<not> ev_step_up_satisfied c then VStepUpRequired
      else if needs_confirmation a t \<and> \<not> ev_confirmed c then VConfirmRequired
      else VAllow)"
proof -
  have "evaluate_tier a c g t =
     (if t < minimum_tier a then decision_at VDeny ''tier.insufficient'' t g
      else if needs_step_up a c \<and> \<not> ev_step_up_satisfied c
      then decision_at VStepUpRequired ''step_up.required'' t g
      else if needs_confirmation a t \<and> \<not> ev_confirmed c
      then decision_at VConfirmRequired ''confirmation.required'' t g
      else decision_at VAllow ''tier.allowed'' t g)"
    by (simp only: evaluate_tier_def needs_step_up_def needs_confirmation_def)
  then show ?thesis by simp
qed

lemma evaluate_tier_effective: "de_effective_tier (evaluate_tier a c g t) = Some t"
  by (simp add: evaluate_tier_def)

lemma not_active_iff:
  "\<not> grant_is_active g now \<longleftrightarrow>
     gr_revoked_at g \<noteq> None \<or> (case gr_expires_at g of None \<Rightarrow> False | Some e \<Rightarrow> e \<le> now)"
  by (auto simp: grant_is_active_def not_less split: option.splits)

lemma evaluate_grant_usable:
  assumes "grant_usable actor a c g" "effective_tier actor c g = Some t"
  shows "evaluate_grant actor a c g = evaluate_tier a c g t"
  using assms
  by (auto simp: evaluate_grant_def grant_usable_def effective_tier_def grant_is_active_def
      split: actor_kind.splits option.splits)

lemma evaluate_grant_unusable:
  assumes "\<not> (grant_usable actor a c g \<and> effective_tier actor c g \<noteq> None)"
  shows "de_verdict (evaluate_grant actor a c g) = VDeny"
  using assms
  by (auto simp: evaluate_grant_def grant_usable_def effective_tier_def grant_is_active_def
      not_less split: actor_kind.splits option.splits)

lemma evaluate_hard_denied: "hard_denied actor a c \<Longrightarrow> de_verdict (evaluate actor a c) = VDeny"
  by (auto simp: hard_denied_def evaluate_def)

lemma evaluate_not_hard_denied:
  "\<not> hard_denied actor a c \<Longrightarrow>
     evaluate actor a c = (case ev_grant c of
        None \<Rightarrow> decision_deny ''grant.missing'' None | Some g \<Rightarrow> evaluate_grant actor a c g)"
  by (auto simp: hard_denied_def evaluate_def)

lemma evaluate_verdict:
  "de_verdict (evaluate actor a c) = v \<and> v \<noteq> VDeny \<longleftrightarrow>
     \<not> hard_denied actor a c \<and>
     (\<exists>g t. ev_grant c = Some g \<and> grant_usable actor a c g \<and> effective_tier actor c g = Some t
        \<and> minimum_tier a \<le> t \<and> v = de_verdict (evaluate_tier a c g t))"
proof (cases "hard_denied actor a c")
  case True
  then show ?thesis by (auto simp: evaluate_hard_denied)
next
  case nd: False
  show ?thesis
  proof (cases "ev_grant c")
    case None
    then show ?thesis using nd by (auto simp: evaluate_not_hard_denied)
  next
    case (Some g)
    show ?thesis
    proof (cases "grant_usable actor a c g \<and> effective_tier actor c g \<noteq> None")
      case False
      then show ?thesis using nd Some evaluate_grant_unusable [OF False]
        by (auto simp: evaluate_not_hard_denied)
    next
      case True
      then obtain t where "effective_tier actor c g = Some t" by blast
      with True nd Some show ?thesis
        by (auto simp: evaluate_not_hard_denied evaluate_grant_usable evaluate_tier_verdict not_le
            split: if_splits)
    qed
  qed
qed

text \<open>
  Property C5. An action is allowed exactly when no hard denial applies, the caller presents a
  grant that is its own, active and scoped for the action, the effective tier (for a human the
  lower of grant and session) reaches the action's minimum, and the step-up and confirmation
  that the action needs at that tier have been given.
\<close>

theorem evaluate_allow_iff:
  "de_verdict (evaluate actor a c) = VAllow \<longleftrightarrow>
     \<not> hard_denied actor a c \<and>
     (\<exists>g t. ev_grant c = Some g \<and> grant_usable actor a c g \<and> effective_tier actor c g = Some t
        \<and> minimum_tier a \<le> t
        \<and> (ev_step_up_satisfied c \<or> \<not> needs_step_up a c)
        \<and> (ev_confirmed c \<or> \<not> needs_confirmation a t))"
proof -
  have "VAllow = de_verdict (evaluate_tier a c g t) \<longleftrightarrow> minimum_tier a \<le> t
      \<and> (ev_step_up_satisfied c \<or> \<not> needs_step_up a c)
      \<and> (ev_confirmed c \<or> \<not> needs_confirmation a t)" for g t
    by (auto simp: evaluate_tier_verdict not_less)
  then show ?thesis
    using evaluate_verdict [of actor a c VAllow] by simp
qed

definition wit_grant :: grant where
  "wit_grant = \<lparr>gr_id = ''g1'', gr_actor_id = ''u1'', gr_actor_kind = Human,
     gr_tier = BoundedAutopilot, gr_scopes = {}, gr_scope_restricted = False,
     gr_expires_at = Some 100, gr_revoked_at = None\<rparr>"

definition wit_actor :: actor where
  "wit_actor = \<lparr>ac_id = ''u1'', ac_kind = Human\<rparr>"

definition wit_context :: evaluation_context where
  "wit_context = (evaluation_context_new 50 (Some wit_grant))
     \<lparr>ev_session_tier := Some ConfirmEveryAction, ev_confirmed := True\<rparr>"

lemmas wit_defs = wit_grant_def wit_actor_def wit_context_def evaluation_context_new_def

lemmas decision_defs = hard_denied_def grant_usable_def effective_tier_def grant_is_active_def
  permits_scope_def tier_lower_def needs_step_up_def needs_confirmation_def
  always_requires_step_up_def is_mutating_def less_eq_tier_def

theorem evaluate_allow_iff_witness:
  "de_verdict (evaluate wit_actor SubmitPaperOrder wit_context) = VAllow"
  unfolding evaluate_allow_iff by (simp add: wit_defs decision_defs)

text \<open>
  Reading secrets, setting the live flag, raising caps programmatically and
  disabling a safety control are denied to every actor under every grant, tier and session; an
  above-threshold wallet transfer is denied without a human's fresh approval and step-up.
\<close>

theorem hard_denials_unconditional:
  assumes "a \<in> {ReadSecretMaterial, SetLiveEnabled, RaiseCapsProgrammatically, DisableSafetyControl}
     \<or> a = WalletTransfer \<and> ev_wallet_above_threshold c
       \<and> (ac_kind actor \<noteq> Human \<or> \<not> ev_fresh_human_wallet_approval c \<or> \<not> ev_step_up_satisfied c)"
  shows "de_verdict (evaluate actor a c) = VDeny"
  by (rule evaluate_hard_denied) (use assms in \<open>auto simp: hard_denied_def\<close>)

theorem hard_denials_unconditional_witness:
  "de_verdict (evaluate wit_actor SetLiveEnabled (wit_context\<lparr>ev_step_up_satisfied := True\<rparr>)) = VDeny"
  by (rule hard_denials_unconditional) simp

text \<open>
  Raising the tier of a grant (everything else unchanged) never turns an allowed
  action into a denied one; it may still ask for a confirmation that a lower tier did not.
\<close>

theorem higher_tier_never_denies:
  assumes "de_verdict (evaluate actor a (c\<lparr>ev_grant := Some g\<rparr>)) = VAllow"
    and "gr_tier g \<le> t"
  shows "de_verdict (evaluate actor a (c\<lparr>ev_grant := Some (g\<lparr>gr_tier := t\<rparr>)\<rparr>)) \<noteq> VDeny"
proof -
  let ?c = "c\<lparr>ev_grant := Some g\<rparr>" and ?g' = "g\<lparr>gr_tier := t\<rparr>"
  let ?c' = "c\<lparr>ev_grant := Some ?g'\<rparr>"
  from assms(1) obtain t0 where nd: "\<not> hard_denied actor a ?c" and u: "grant_usable actor a ?c g"
    and t0: "effective_tier actor ?c g = Some t0" "minimum_tier a \<le> t0"
    by (auto simp: evaluate_allow_iff)
  have nd': "\<not> hard_denied actor a ?c'" using nd by (simp add: hard_denied_def)
  have u': "grant_usable actor a ?c' ?g'"
    using u by (simp add: grant_usable_def grant_is_active_def permits_scope_def)
  have "\<exists>t1. effective_tier actor ?c' ?g' = Some t1 \<and> t0 \<le> t1"
    using t0(1) assms(2)
    by (cases "ac_kind actor") (auto simp: effective_tier_def tier_lower_min intro: min.mono)
  then obtain t1 where t1: "effective_tier actor ?c' ?g' = Some t1" "t0 \<le> t1" by blast
  have "evaluate actor a ?c' = evaluate_tier a ?c' ?g' t1"
    by (simp add: evaluate_not_hard_denied [OF nd'] evaluate_grant_usable [OF u' t1(1)])
  moreover have "\<not> t1 < minimum_tier a" using t0(2) t1(2) by simp
  ultimately show ?thesis by (simp add: evaluate_tier_verdict)
qed

theorem higher_tier_never_denies_witness:
  "de_verdict (evaluate wit_actor Simulate
     (wit_context\<lparr>ev_grant := Some (wit_grant\<lparr>gr_tier := YoloWithinHardCaps\<rparr>)\<rparr>)) \<noteq> VDeny"
  by (rule higher_tier_never_denies)
    (simp_all add: evaluate_allow_iff wit_defs decision_defs)

subsection \<open>Revocation is permanent and immediate\<close>

datatype grant_op = IssueGrant grant | RevokeGrant string nat

text \<open>The store after an operation; a refused operation leaves it as it was.\<close>

fun grant_step :: "grant_op \<Rightarrow> grant_store \<Rightarrow> grant_store" where
  "grant_step (IssueGrant g) s = (case grant_issue g s of Inl _ \<Rightarrow> s | Inr s' \<Rightarrow> s')"
| "grant_step (RevokeGrant i now) s = (case grant_revoke i now s of Inl _ \<Rightarrow> s | Inr s' \<Rightarrow> s')"

definition revoked_in :: "grant_store \<Rightarrow> string \<Rightarrow> bool" where
  "revoked_in s i \<longleftrightarrow> (\<exists>g. grant_get i s = Some g \<and> gr_revoked_at g \<noteq> None)"

lemma grant_get_issue:
  "grant_get i (grant_step (IssueGrant g) s) =
     (if i = gr_id g \<and> grant_get i s = None then Some g else grant_get i s)"
  by (auto simp: grant_get_def grant_issue_def hm_get_put)

lemma grant_get_revoke:
  "grant_get i (grant_step (RevokeGrant j now) s) =
     (if i = j then map_option (\<lambda>g. g\<lparr>gr_revoked_at := Some now\<rparr>) (grant_get i s) else grant_get i s)"
  by (auto simp: grant_get_def grant_revoke_def hm_get_put split: option.splits)

interpretation grants: history_machine grant_step
  "\<lambda>s s'. \<forall>i. revoked_in s i \<longrightarrow> revoked_in s' i"
proof unfold_locales
  fix s e
  show "\<forall>i. revoked_in s i \<longrightarrow> revoked_in (grant_step e s) i"
    by (cases e) (auto simp: revoked_in_def grant_get_issue grant_get_revoke
        simp del: grant_step.simps)
qed auto

lemma revoked_denied:
  assumes "gr_revoked_at g \<noteq> None" "ev_grant c = Some g"
  shows "de_verdict (evaluate actor a c) = VDeny"
proof (cases "hard_denied actor a c")
  case True
  then show ?thesis by (rule evaluate_hard_denied)
next
  case False
  have "\<not> grant_usable actor a c g" using assms(1) by (simp add: grant_usable_def grant_is_active_def)
  with False assms(2) show ?thesis
    by (simp add: evaluate_not_hard_denied evaluate_grant_unusable)
qed

text \<open>
  Once a grant has been revoked, no later sequence of issue and revoke requests
  makes it usable again: whatever the actor, the action and the rest of the context, a decision
  on the stored grant is a denial.
\<close>

theorem revocation_is_permanent:
  assumes "grant_revoke i now s = Inr s1"
    and "grant_get i (fold grant_step ops s1) = Some g"
    and "ev_grant c = Some g"
  shows "de_verdict (evaluate actor a c) = VDeny"
proof -
  from assms(1) have "revoked_in s1 i"
    by (auto simp: revoked_in_def grant_get_def grant_revoke_def hm_get_put split: option.splits)
  then have "revoked_in (fold grant_step ops s1) i" using grants.run_later by blast
  with assms(2) have "gr_revoked_at g \<noteq> None" by (simp add: revoked_in_def)
  then show ?thesis using assms(3) by (rule revoked_denied)
qed

theorem revocation_is_permanent_witness:
  "de_verdict (evaluate wit_actor Query
     (wit_context\<lparr>ev_grant := Some (wit_grant\<lparr>gr_revoked_at := Some 60\<rparr>)\<rparr>)) = VDeny"
  by (rule revocation_is_permanent
      [where i = "''g1''" and now = 60 and s = "[(''g1'', wit_grant)]" and ops = "[IssueGrant wit_grant]"
        and ?s1.0 = "[(''g1'', wit_grant\<lparr>gr_revoked_at := Some 60\<rparr>)]"])
    (simp_all add: grant_revoke_def grant_issue_def grant_get_def wit_grant_def wit_context_def
      map_of.simps)

subsection \<open>Every decision is recorded\<close>

locale audit_sink = append_sink emit log
  for emit :: "audit_record \<Rightarrow> 's \<Rightarrow> ('e + unit) \<times> 's" and log :: "'s \<Rightarrow> audit_record list"
begin

lemma enforce_records:
  "enforce_at emit p actor a c s = (Inr d, s') \<Longrightarrow>
     log s' = log s @ [ad_audit d] \<and> ad_decision d = evaluate actor a c
       \<and> au_verdict (ad_audit d) = de_verdict (ad_decision d)"
  by (auto simp: enforce_at_def Let_def audit_record_of_def dest: emit_ok
      split: prod.splits sum.splits)

lemma enforce_fails_closed:
  "enforce_at emit p actor a c s = (Inl e, s') \<Longrightarrow> log s' = log s"
  by (auto simp: enforce_at_def Let_def dest: emit_err split: prod.splits sum.splits)

end

interpretation authz_sink: audit_sink memory_sink_emit mx_data
  by unfold_locales

lemma memory_sink_error: "memory_sink_emit r s = (Inl e, s') \<Longrightarrow> s' = s \<and> mx_poisoned s"
  by (simp add: memory_sink_emit_def split: if_splits)

lemma enforce_error:
  "enforce_at memory_sink_emit p actor a c s = (Inl e, s') \<Longrightarrow> s' = s \<and> mx_poisoned s"
  by (auto simp: enforce_at_def Let_def split: prod.splits sum.splits dest: memory_sink_error)

text \<open>
  Enforcement over the in-memory sink: a decision reaches the caller only together
  with exactly one new audit record, which carries that decision's verdict, tier and rule; when
  the sink fails, the caller gets an error and no decision, and nothing is recorded.
\<close>

theorem enforcement_is_audited:
  "case enforce_at memory_sink_emit p actor a c s of
     (Inr d, s') \<Rightarrow> mx_data s' = mx_data s @ [ad_audit d]
        \<and> ad_decision d = evaluate actor a c
        \<and> au_verdict (ad_audit d) = de_verdict (ad_decision d)
   | (Inl _, s') \<Rightarrow> s' = s \<and> mx_poisoned s"
  by (auto split: prod.splits sum.splits dest: authz_sink.enforce_records enforce_error)

end
