(* ===== verification/Authz_Stores.thy ===== *)
theory Authz_Stores
  imports Authz
begin

text \<open>
  The stores that authorization depends on: the versioned caps (\<^verbatim>\<open>crates/aether-authz/src/caps.rs\<close>),
  the single-use step-up challenges (\<^verbatim>\<open>step_up.rs\<close>), and authentication: session records,
  the lock-out schedule and TOTP codes (\<^verbatim>\<open>authn.rs\<close>). SHA-256, HMAC-SHA1 and the random
  generator are arguments. The lemmas show that at most one caps version is active whatever the
  history, that a challenge is consumed at most once, what the lock-out delay is after any number
  of failures, and that the constant-time comparison of TOTP codes decides equality.
\<close>

subsection \<open>Caps versions (caps.rs)\<close>

record caps_limits =
  cl_per_order_minor :: u64
  cl_daily_minor :: u64

definition lower_of :: "caps_limits \<Rightarrow> caps_limits \<Rightarrow> caps_limits" where
  "lower_of a b =
     \<lparr>cl_per_order_minor =
        (if cl_per_order_minor a \<le> cl_per_order_minor b then cl_per_order_minor a
         else cl_per_order_minor b),
       cl_daily_minor =
        (if cl_daily_minor a \<le> cl_daily_minor b then cl_daily_minor a else cl_daily_minor b)\<rparr>"

datatype caps_version_state = CapsDraft | CapsActive | CapsSuperseded

record caps_version =
  cp_version :: u64
  cp_limits :: caps_limits
  cp_state :: caps_version_state
  cp_drafted_by :: string
  cp_drafted_by_kind :: actor_kind
  cp_activated_by :: "string option"
  cp_created_at :: u64

record caps_diff =
  cd_from :: "caps_limits option"
  cd_to :: caps_limits

datatype caps_error = CapsNotFound | CapsNotDraft | CapsHumanRequired | CapsStepUpRequired
  | CapsVersionOverflow

record caps_store =
  ct_versions :: "(u64, caps_version) hash_map"
  ct_active_version :: "u64 option"
  ct_next_version :: u64

definition caps_store_default :: caps_store where
  "caps_store_default = \<lparr>ct_versions = [], ct_active_version = None, ct_next_version = 0\<rparr>"

definition caps_draft ::
  "caps_limits \<Rightarrow> string \<Rightarrow> actor_kind \<Rightarrow> u64 \<Rightarrow> caps_store \<Rightarrow> (caps_error + u64) \<times> caps_store" where
  "caps_draft limits actor kind now s =
     (case checked_add_w (ct_next_version s) 1 of
        None \<Rightarrow> (Inl CapsVersionOverflow, s)
      | Some v \<Rightarrow> (Inr v, s\<lparr>ct_next_version := v,
          ct_versions := hm_put v \<lparr>cp_version = v, cp_limits = limits, cp_state = CapsDraft,
            cp_drafted_by = actor, cp_drafted_by_kind = kind, cp_activated_by = None,
            cp_created_at = now\<rparr> (ct_versions s)\<rparr>))"

definition caps_active :: "caps_store \<Rightarrow> caps_version option" where
  "caps_active s = Option.bind (ct_active_version s) (hm_get (ct_versions s))"

definition caps_diff_of :: "u64 \<Rightarrow> caps_store \<Rightarrow> caps_error + caps_diff" where
  "caps_diff_of v s =
     (case hm_get (ct_versions s) v of
        None \<Rightarrow> Inl CapsNotFound
      | Some d \<Rightarrow> Inr \<lparr>cd_from = map_option cp_limits (caps_active s), cd_to = cp_limits d\<rparr>)"

definition supersede_active :: "caps_store \<Rightarrow> (u64, caps_version) hash_map" where
  "supersede_active s =
     (case ct_active_version s of
        None \<Rightarrow> ct_versions s
      | Some p \<Rightarrow> hm_modify p (\<lambda>c. c\<lparr>cp_state := CapsSuperseded\<rparr>) (ct_versions s))"

definition caps_activate ::
  "u64 \<Rightarrow> string \<Rightarrow> actor_kind \<Rightarrow> bool \<Rightarrow> caps_store \<Rightarrow> (caps_error + unit) \<times> caps_store" where
  "caps_activate v actor kind step_up s =
     (if kind \<noteq> Human then (Inl CapsHumanRequired, s)
      else if \<not> step_up then (Inl CapsStepUpRequired, s)
      else (case hm_get (ct_versions s) v of
              None \<Rightarrow> (Inl CapsNotFound, s)
            | Some d \<Rightarrow>
                (if cp_state d \<noteq> CapsDraft then (Inl CapsNotDraft, s)
                 else let vs = supersede_active s in
                      (case hm_get vs v of
                         None \<Rightarrow> (Inl CapsNotFound, s\<lparr>ct_versions := vs\<rparr>)
                       | Some d' \<Rightarrow> (Inr (), s\<lparr>
                           ct_versions := hm_put v
                             (d'\<lparr>cp_state := CapsActive, cp_activated_by := Some actor\<rparr>) vs,
                           ct_active_version := Some v\<rparr>)))))"

definition caps_execution_limits :: "u64 \<Rightarrow> caps_store \<Rightarrow> caps_error + caps_limits" where
  "caps_execution_limits v s =
     (case hm_get (ct_versions s) v of
        None \<Rightarrow> Inl CapsNotFound
      | Some i \<Rightarrow>
          (case caps_active s of
             None \<Rightarrow> Inl CapsNotFound
           | Some a \<Rightarrow> Inr (lower_of (cp_limits i) (cp_limits a))))"

datatype caps_op = DraftCaps caps_limits string actor_kind u64
  | ActivateCapsVersion u64 string actor_kind bool

fun caps_step :: "caps_op \<Rightarrow> caps_store \<Rightarrow> caps_store" where
  "caps_step (DraftCaps l a k now) s = snd (caps_draft l a k now s)"
| "caps_step (ActivateCapsVersion v a k u) s = snd (caps_activate v a k u s)"

definition caps_inv :: "caps_store \<Rightarrow> bool" where
  "caps_inv s \<longleftrightarrow>
     (\<forall>v c. hm_get (ct_versions s) v = Some c \<longrightarrow>
        cp_version c = v \<and> v \<le> ct_next_version s \<and>
        (cp_state c = CapsActive \<longleftrightarrow> ct_active_version s = Some v) \<and>
        (cp_state c = CapsActive \<longrightarrow> cp_activated_by c \<noteq> None)) \<and>
     (\<forall>v. ct_active_version s = Some v \<longrightarrow> hm_get (ct_versions s) v \<noteq> None)"

lemma caps_invD:
  assumes "caps_inv s" "hm_get (ct_versions s) v = Some c"
  shows "cp_version c = v" "v \<le> ct_next_version s"
    "cp_state c = CapsActive \<longleftrightarrow> ct_active_version s = Some v"
    "cp_state c = CapsActive \<Longrightarrow> cp_activated_by c \<noteq> None"
  using assms by (auto simp: caps_inv_def)

lemma checked_succ: "checked_add_w a 1 = Some v \<Longrightarrow> v = a + 1 \<and> a < v" for a v :: u64
  by (auto simp: checked_add_w_unat word_less_nat_alt unat_add_small)

lemma caps_draft_inv:
  assumes inv: "caps_inv s"
  shows "caps_inv (snd (caps_draft l a k now s))"
proof (cases "checked_add_w (ct_next_version s) 1")
  case None
  then show ?thesis using inv by (simp add: caps_draft_def)
next
  case (Some v)
  then have v: "ct_next_version s < v" by (auto dest: checked_succ)
  have "ct_active_version s \<noteq> Some v"
  proof
    assume "ct_active_version s = Some v"
    then obtain c where "hm_get (ct_versions s) v = Some c" using inv by (auto simp: caps_inv_def)
    then have "v \<le> ct_next_version s" using inv by (rule caps_invD(2) [rotated])
    with v show False by simp
  qed
  moreover have "w \<le> v" if "hm_get (ct_versions s) w = Some c" for w c
    using caps_invD(2) [OF inv that] v by simp
  ultimately show ?thesis
    using Some inv by (auto simp: caps_inv_def caps_draft_def hm_get_put)
qed

lemma supersede_get:
  "hm_get (supersede_active s) v =
     (if ct_active_version s = Some v
      then map_option (\<lambda>c. c\<lparr>cp_state := CapsSuperseded\<rparr>) (hm_get (ct_versions s) v)
      else hm_get (ct_versions s) v)"
  by (auto simp: supersede_active_def hm_get_modify split: option.split)

lemma caps_activate_ok:
  assumes inv: "caps_inv s" and ok: "caps_activate v a k u s = (Inr x, s')"
  shows "\<exists>d. hm_get (ct_versions s) v = Some d \<and> cp_state d = CapsDraft \<and> k = Human \<and> u \<and>
     s' = s\<lparr>ct_versions := hm_put v (d\<lparr>cp_state := CapsActive, cp_activated_by := Some a\<rparr>)
              (supersede_active s), ct_active_version := Some v\<rparr>"
proof -
  from ok obtain d where d: "hm_get (ct_versions s) v = Some d" "cp_state d = CapsDraft"
    "k = Human" "u"
    by (auto simp: caps_activate_def split: if_splits option.splits)
  then have "ct_active_version s \<noteq> Some v"
    using inv caps_invD(3) by fastforce
  with d have "hm_get (supersede_active s) v = Some d" by (simp add: supersede_get)
  with d ok show ?thesis by (auto simp: caps_activate_def Let_def)
qed

lemma caps_activate_err:
  assumes inv: "caps_inv s" and err: "caps_activate v a k u s = (Inl e, s')"
  shows "s' = s"
proof (cases "hm_get (ct_versions s) v")
  case None
  with err show ?thesis by (auto simp: caps_activate_def split: if_splits)
next
  case (Some d)
  show ?thesis
  proof (cases "cp_state d = CapsDraft")
    case False
    with Some err show ?thesis by (auto simp: caps_activate_def split: if_splits)
  next
    case True
    then have "hm_get (supersede_active s) v = Some d"
      using Some inv caps_invD(3) [OF inv Some] by (auto simp: supersede_get)
    with Some True err show ?thesis by (auto simp: caps_activate_def split: if_splits)
  qed
qed

lemma caps_activate_inv:
  assumes inv: "caps_inv s"
  shows "caps_inv (snd (caps_activate v a k u s))"
proof (cases "caps_activate v a k u s")
  case (Pair r s')
  show ?thesis
  proof (cases r)
    case (Inl e)
    with Pair have "s' = s" by (simp add: caps_activate_err [OF inv])
    with Pair inv show ?thesis by simp
  next
    case (Inr x)
    with Pair caps_activate_ok [OF inv] obtain d
      where d: "hm_get (ct_versions s) v = Some d" "cp_state d = CapsDraft"
        and s': "s' = s\<lparr>ct_versions := hm_put v
            (d\<lparr>cp_state := CapsActive, cp_activated_by := Some a\<rparr>) (supersede_active s),
            ct_active_version := Some v\<rparr>"
      by blast
    have "cp_version c = w \<and> w \<le> ct_next_version s' \<and>
        (cp_state c = CapsActive \<longleftrightarrow> ct_active_version s' = Some w) \<and>
        (cp_state c = CapsActive \<longrightarrow> cp_activated_by c \<noteq> None)"
      if c: "hm_get (ct_versions s') w = Some c" for w c
    proof (cases "w = v")
      case True
      with c s' caps_invD(1,2) [OF inv d(1)] show ?thesis by (auto simp: hm_get_put)
    next
      case False
      with c s' have sup: "hm_get (supersede_active s) w = Some c" by (simp add: hm_get_put)
      then obtain c0 where c0: "hm_get (ct_versions s) w = Some c0"
        "c = (if ct_active_version s = Some w then c0\<lparr>cp_state := CapsSuperseded\<rparr> else c0)"
        by (auto simp: supersede_get split: if_splits)
      note I = caps_invD [OF inv c0(1)]
      show ?thesis
      proof (cases "ct_active_version s = Some w")
        case True
        then show ?thesis using False I(1,2) by (simp add: s' c0(2))
      next
        case other: False
        then show ?thesis using False I by (simp add: s' c0(2))
      qed
    qed
    moreover have "hm_get (ct_versions s') w \<noteq> None" if "ct_active_version s' = Some w" for w
      using that by (simp add: s' hm_get_put)
    ultimately have "caps_inv s'" unfolding caps_inv_def by blast
    then show ?thesis by (simp add: Pair)
  qed
qed

interpretation caps: invariant_machine caps_step caps_inv
  by unfold_locales (rename_tac s e, case_tac e; simp add: caps_draft_inv caps_activate_inv)

lemma caps_default_inv: "caps_inv caps_store_default"
  by (simp add: caps_inv_def caps_store_default_def)

text \<open>
  Whatever the sequence of drafts and activations, there is at most one active caps
  version: a stored version is in state Active exactly when it is the one that the router reads
  as the active version, and it has been activated by somebody.
\<close>

theorem caps_single_active:
  fixes ops
  defines "s \<equiv> fold caps_step ops caps_store_default"
  shows "hm_get (ct_versions s) v = Some c \<and> cp_state c = CapsActive \<longleftrightarrow>
    caps_active s = Some c \<and> cp_version c = v \<and> cp_activated_by c \<noteq> None"
proof -
  have inv: "caps_inv s" unfolding s_def by (rule caps.run_inv) (rule caps_default_inv)
  show ?thesis
    using caps_invD [OF inv] by (auto simp: caps_active_def bind_Some_iff)
qed

text \<open>The active version changes only by a human's activation with step-up.\<close>

lemma caps_active_changes:
  assumes "caps_inv s" "ct_active_version (caps_step e s) \<noteq> ct_active_version s"
  shows "\<exists>v a. e = ActivateCapsVersion v a Human True"
  using assms
  by (cases e) (auto simp: caps_draft_def caps_activate_def Let_def
      split: option.splits if_splits)

lemma execution_limits_tighten:
  assumes "caps_execution_limits v s = Inr l" "caps_active s = Some a"
  shows "cl_per_order_minor l \<le> cl_per_order_minor (cp_limits a)"
    "cl_daily_minor l \<le> cl_daily_minor (cp_limits a)"
  using assms by (auto simp: caps_execution_limits_def lower_of_def split: option.splits)

text \<open>The limits an intent executes under: the lower of its version's and the active ones.\<close>

lemma execution_limits_lower_bound:
  "map_ok (\<lambda>l. (cl_per_order_minor l, cl_daily_minor l)) (caps_execution_limits v s) =
     (case (hm_get (ct_versions s) v, caps_active s) of
        (Some i, Some a) \<Rightarrow>
          Inr (min (cl_per_order_minor (cp_limits i)) (cl_per_order_minor (cp_limits a)),
               min (cl_daily_minor (cp_limits i)) (cl_daily_minor (cp_limits a)))
      | _ \<Rightarrow> Inl CapsNotFound)"
  by (simp add: caps_execution_limits_def lower_of_def min_def split: option.split)

subsection \<open>Step-up challenges (step_up.rs)\<close>

definition step_up_validity_secs :: u64 where
  "step_up_validity_secs = 5 * 60"

record challenge =
  ch_actor_id :: string
  ch_action :: action
  ch_expires_at :: u64
  ch_consumed_at :: "u64 option"

datatype step_up_error = SuNotFound | SuMismatch | SuStale | SuConsumed | SuInvalidTotp

type_synonym step_up_store = "(string, challenge) hash_map"

definition token_hash :: "(string \<Rightarrow> u8 list) \<Rightarrow> string \<Rightarrow> string" where
  "token_hash sha token = encode_hex (sha token)"

definition step_up_issue ::
  "(string \<Rightarrow> u8 list) \<Rightarrow> u8 list \<Rightarrow> string \<Rightarrow> action \<Rightarrow> u64 \<Rightarrow> step_up_store
     \<Rightarrow> string \<times> step_up_store" where
  "step_up_issue sha random actor a now s =
     (let plaintext = encode_hex random in
      (plaintext, hm_put (token_hash sha plaintext)
         \<lparr>ch_actor_id = actor, ch_action = a,
           ch_expires_at = saturating_add_w now step_up_validity_secs,
           ch_consumed_at = None\<rparr> s))"

definition step_up_consume ::
  "(string \<Rightarrow> u8 list) \<Rightarrow> (string \<Rightarrow> string \<Rightarrow> u64 \<Rightarrow> bool) \<Rightarrow> string \<Rightarrow> string \<Rightarrow> action \<Rightarrow> string
     \<Rightarrow> u64 \<Rightarrow> step_up_store \<Rightarrow> (step_up_error + unit) \<times> step_up_store" where
  "step_up_consume sha verify token actor a code now s =
     (case hm_get s (token_hash sha token) of
        None \<Rightarrow> (Inl SuNotFound, s)
      | Some c \<Rightarrow>
          (if ch_actor_id c \<noteq> actor \<or> ch_action c \<noteq> a then (Inl SuMismatch, s)
           else if ch_consumed_at c \<noteq> None then (Inl SuConsumed, s)
           else if ch_expires_at c \<le> now then (Inl SuStale, s)
           else if \<not> verify actor code now then (Inl SuInvalidTotp, s)
           else (Inr (), hm_put (token_hash sha token) (c\<lparr>ch_consumed_at := Some now\<rparr>) s)))"

datatype step_up_op =
    IssueChallenge "u8 list" string action u64
  | ConsumeChallenge string string action string u64

fun step_up_step ::
  "(string \<Rightarrow> u8 list) \<Rightarrow> (string \<Rightarrow> string \<Rightarrow> u64 \<Rightarrow> bool) \<Rightarrow> step_up_op \<Rightarrow> step_up_store
     \<Rightarrow> step_up_store" where
  "step_up_step sha verify (IssueChallenge r u a now) s = snd (step_up_issue sha r u a now s)"
| "step_up_step sha verify (ConsumeChallenge t u a c now) s =
     snd (step_up_consume sha verify t u a c now s)"

text \<open>The challenges drawn by a sequence of operations, as the keys they are stored under.\<close>

fun issued_key :: "(string \<Rightarrow> u8 list) \<Rightarrow> step_up_op \<Rightarrow> string option" where
  "issued_key sha (IssueChallenge r u a now) = Some (token_hash sha (encode_hex r))"
| "issued_key sha (ConsumeChallenge t u a c now) = None"

definition spent :: "step_up_store \<Rightarrow> string \<Rightarrow> bool" where
  "spent s k \<longleftrightarrow> (\<exists>c. hm_get s k = Some c \<and> ch_consumed_at c \<noteq> None)"

lemma spent_step:
  "spent s k \<Longrightarrow> issued_key sha e \<noteq> Some k \<Longrightarrow> spent (step_up_step sha verify e s) k"
  by (cases e) (auto simp: spent_def step_up_issue_def step_up_consume_def Let_def hm_get_put
      split: option.split)

lemma spent_run:
  "spent s k \<Longrightarrow> \<forall>e \<in> set es. issued_key sha e \<noteq> Some k
     \<Longrightarrow> spent (fold (step_up_step sha verify) es s) k"
  by (induction es arbitrary: s) (simp_all add: spent_step)

lemma consume_spends:
  "step_up_consume sha verify t u a code now s = (Inr x, s') \<Longrightarrow> spent s' (token_hash sha t)"
  by (auto simp: step_up_consume_def spent_def hm_get_put split: option.splits if_splits)

lemma consume_unspent:
  "step_up_consume sha verify t u a code now s = (Inr x, s') \<Longrightarrow> \<not> spent s (token_hash sha t)"
  by (auto simp: step_up_consume_def spent_def split: option.splits if_splits)

text \<open>
  A step-up challenge is spent once: after a token has been consumed, no later
  attempt with it succeeds, whatever other challenges are issued and consumed in between, for
  any actor, action, code and time, as long as the random generator does not draw the token
  again.
\<close>

theorem step_up_single_use:
  assumes "step_up_consume sha verify t u a code now s = (Inr x, s')"
    and "\<forall>e \<in> set es. issued_key sha e \<noteq> Some (token_hash sha t)"
  shows "fst (step_up_consume sha verify t u' a' code' now'
      (fold (step_up_step sha verify) es s')) \<noteq> Inr ()"
proof
  let ?s = "fold (step_up_step sha verify) es s'"
  assume ok: "fst (step_up_consume sha verify t u' a' code' now' ?s) = Inr ()"
  have "spent ?s (token_hash sha t)" by (rule spent_run) (rule consume_spends [OF assms(1)], rule assms(2))
  moreover from ok have "step_up_consume sha verify t u' a' code' now' ?s =
      (Inr (), snd (step_up_consume sha verify t u' a' code' now' ?s))"
    by (metis prod.collapse)
  then have "\<not> spent ?s (token_hash sha t)" by (rule consume_unspent)
  ultimately show False by contradiction
qed

theorem step_up_single_use_witness:
  "fst (step_up_consume (\<lambda>_. [7]) (\<lambda>_ _ _. True) ''t'' ''u'' ActivateCaps ''1'' 20
      (fold (step_up_step (\<lambda>_. [7]) (\<lambda>_ _ _. True)) []
        (snd (step_up_consume (\<lambda>_. [7]) (\<lambda>_ _ _. True) ''t'' ''u'' ActivateCaps ''1'' 10
          (snd (step_up_issue (\<lambda>_. [7]) [1] ''u'' ActivateCaps 5 [])))))) \<noteq> Inr ()"
  by (rule step_up_single_use [where x = "()" and u = "''u''" and a = ActivateCaps
        and code = "''1''" and now = 10 and s = "snd (step_up_issue (\<lambda>_. [7]) [1] ''u'' ActivateCaps 5 [])"])
    (simp_all add: step_up_issue_def step_up_consume_def Let_def token_hash_def
      saturating_add_w_def step_up_validity_secs_def)

subsection \<open>Sessions and lock-out (authn.rs)\<close>

definition session_idle_expiry_secs :: u64 where
  "session_idle_expiry_secs = 30 * 24 * 60 * 60"

definition max_lockout_secs :: u64 where
  "max_lockout_secs = 15 * 60"

datatype authn_error = InvalidPasswordPolicy | PasswordHashFailed | MalformedPasswordHash
  | SessionExpired | SessionRevoked | InvalidTotpSecret

record session_record =
  sr_id :: string
  sr_token_hash :: string
  sr_device_label :: string
  sr_absolute_expires_at :: u64
  sr_last_seen_at :: u64
  sr_revoked_at :: "u64 option"

definition hash_session_token :: "(string \<Rightarrow> u8 list) \<Rightarrow> string \<Rightarrow> string" where
  "hash_session_token sha token = encode_hex (sha token)"

definition validate_and_touch ::
  "(string \<Rightarrow> u8 list) \<Rightarrow> string \<Rightarrow> u64 \<Rightarrow> session_record
     \<Rightarrow> (authn_error + bool) \<times> session_record" where
  "validate_and_touch sha token now r =
     (if sr_revoked_at r \<noteq> None then (Inl SessionRevoked, r)
      else if sr_absolute_expires_at r \<le> now
              \<or> session_idle_expiry_secs \<le> saturating_sub_w now (sr_last_seen_at r)
      then (Inl SessionExpired, r)
      else if sr_token_hash r \<noteq> hash_session_token sha token then (Inr False, r)
      else (Inr True, r\<lparr>sr_last_seen_at := now\<rparr>))"

definition session_revoke :: "u64 \<Rightarrow> session_record \<Rightarrow> session_record" where
  "session_revoke now r = r\<lparr>sr_revoked_at := Some now\<rparr>"

datatype session_op = TouchSession string u64 | RevokeSession u64

fun session_step :: "(string \<Rightarrow> u8 list) \<Rightarrow> session_op \<Rightarrow> session_record \<Rightarrow> session_record" where
  "session_step sha (TouchSession t now) r = snd (validate_and_touch sha t now r)"
| "session_step sha (RevokeSession now) r = session_revoke now r"

lemma session_step_keeps:
  "sr_absolute_expires_at (session_step sha e r) = sr_absolute_expires_at r"
  "sr_token_hash (session_step sha e r) = sr_token_hash r"
  "sr_revoked_at r \<noteq> None \<Longrightarrow> sr_revoked_at (session_step sha e r) \<noteq> None"
  by (cases e; auto simp: validate_and_touch_def session_revoke_def)+

lemma session_run_keeps:
  "sr_absolute_expires_at (fold (session_step sha) es r) = sr_absolute_expires_at r"
  "sr_token_hash (fold (session_step sha) es r) = sr_token_hash r"
  "sr_revoked_at r \<noteq> None \<Longrightarrow> sr_revoked_at (fold (session_step sha) es r) \<noteq> None"
  by (induction es arbitrary: r) (simp_all add: session_step_keeps del: not_None_eq session_step.simps)

text \<open>
  A session is never accepted after its absolute expiry or its revocation: touching
  it as often as one likes in between only moves the idle deadline, and an accepted token is one
  whose hash is the one the session was created with.
\<close>

theorem session_acceptance_bounded:
  assumes "fst (validate_and_touch sha token now (fold (session_step sha) es r)) = Inr True"
  shows "now < sr_absolute_expires_at r \<and> sr_revoked_at r = None
    \<and> hash_session_token sha token = sr_token_hash r"
proof -
  let ?r = "fold (session_step sha) es r"
  from assms have "sr_revoked_at ?r = None" "now < sr_absolute_expires_at ?r"
    "sr_token_hash ?r = hash_session_token sha token"
    by (auto simp: validate_and_touch_def not_le split: if_splits)
  moreover from this(1) have "sr_revoked_at r = None"
    using session_run_keeps(3) [where sha = sha and es = es and r = r] by (cases "sr_revoked_at r") auto
  ultimately show ?thesis by (simp add: session_run_keeps)
qed

definition wit_session :: session_record where
  "wit_session = \<lparr>sr_id = ''s'', sr_token_hash = ''07'', sr_device_label = ''d'',
     sr_absolute_expires_at = 100, sr_last_seen_at = 1, sr_revoked_at = None\<rparr>"

theorem session_acceptance_bounded_witness:
  "(60::u64) < sr_absolute_expires_at wit_session \<and> sr_revoked_at wit_session = None
    \<and> hash_session_token (\<lambda>_. [7]) ''tok'' = sr_token_hash wit_session"
  by (rule session_acceptance_bounded [where es = "[TouchSession ''tok'' 50]"])
    (simp add: validate_and_touch_def wit_session_def hash_session_token_def encode_hex_def
      hex_digit_def session_idle_expiry_secs_def saturating_sub_w_def)

record lockout_state =
  lo_failed_attempts :: u32
  lo_locked_until :: "u64 option"

definition lockout_default :: lockout_state where
  "lockout_default = \<lparr>lo_failed_attempts = 0, lo_locked_until = None\<rparr>"

text \<open>\<^verbatim>\<open>checked_shl\<close> fails only for shifts of 64 and more; the shift here is at most 20.\<close>

definition checked_shl_1 :: "u32 \<Rightarrow> u64 option" where
  "checked_shl_1 n = (if unat n < 64 then Some (push_bit (unat n) 1) else None)"

definition record_failure :: "u64 \<Rightarrow> lockout_state \<Rightarrow> u64 \<times> lockout_state" where
  "record_failure now s =
     (let n = saturating_add_w (lo_failed_attempts s) 1;
          shift = min (saturating_sub_w n 1) 20;
          delay = min (case checked_shl_1 shift of None \<Rightarrow> max_lockout_secs | Some d \<Rightarrow> d)
                    max_lockout_secs
      in (delay, \<lparr>lo_failed_attempts = n, lo_locked_until = Some (saturating_add_w now delay)\<rparr>))"

definition is_locked :: "u64 \<Rightarrow> lockout_state \<Rightarrow> bool" where
  "is_locked now s \<longleftrightarrow> (case lo_locked_until s of None \<Rightarrow> False | Some u \<Rightarrow> now < u)"

definition record_success :: "lockout_state \<Rightarrow> lockout_state" where
  "record_success s = lockout_default"

definition lockout_delay :: "nat \<Rightarrow> nat" where
  "lockout_delay n = min (2 ^ min (n - 1) 20) 900"

lemma unat_min_w: "unat (min a b) = min (unat a) (unat b)"
  for a b :: "'w::len word"
  by (simp add: min_def word_le_nat_alt)

lemma unat_push_bit_1: "n < 64 \<Longrightarrow> unat (push_bit n 1 :: u64) = 2 ^ n"
  by (simp add: unsigned_push_bit_eq take_bit_nat_eq_self del: push_bit_of_1)

lemma record_failure_delay:
  "unat (fst (record_failure now s)) =
     lockout_delay (min (unat (lo_failed_attempts s) + 1) (2 ^ 32 - 1))"
proof -
  let ?n = "saturating_add_w (lo_failed_attempts s) 1"
  let ?shift = "min (saturating_sub_w ?n 1) 20 :: u32"
  have n: "unat ?n = min (unat (lo_failed_attempts s) + 1) (2 ^ 32 - 1)"
    by (simp add: saturating_add_w_unat)
  have sh: "unat ?shift = min (unat ?n - 1) 20"
    by (simp add: unat_min_w saturating_sub_w_unat)
  then have "unat ?shift < 64" by simp
  then have "unat (fst (record_failure now s)) = min (2 ^ unat ?shift) 900"
    by (simp add: record_failure_def Let_def checked_shl_1_def unat_min_w unat_push_bit_1
        max_lockout_secs_def del: push_bit_of_1)
  then show ?thesis by (simp only: sh n lockout_delay_def)
qed

definition after_failures :: "u64 list \<Rightarrow> lockout_state" where
  "after_failures ts = fold (\<lambda>t s. snd (record_failure t s)) ts lockout_default"

lemma after_failures_count:
  "length ts < 2 ^ 32 \<Longrightarrow> unat (lo_failed_attempts (after_failures ts)) = length ts"
proof (induction ts rule: rev_induct)
  case Nil
  then show ?case by (simp add: after_failures_def lockout_default_def)
next
  case (snoc t us)
  then show ?case
    by (simp add: after_failures_def record_failure_def Let_def saturating_add_w_unat)
qed

text \<open>
  The lock-out schedule: after any number of consecutive failures the next failure
  at time \<open>t\<close> locks for twice as long as the one before, from one second up to fifteen minutes,
  and the account is locked exactly until then (the clock saturating at its last second).
\<close>

theorem lockout_schedule:
  assumes "length ts < 2 ^ 32 - 1"
  shows "unat (fst (record_failure t (after_failures ts))) = min (2 ^ min (length ts) 20) 900 \<and>
    (is_locked now (snd (record_failure t (after_failures ts))) \<longleftrightarrow>
      unat now < min (unat t + min (2 ^ min (length ts) 20) 900) (2 ^ 64 - 1))"
proof
  show d: "unat (fst (record_failure t (after_failures ts))) = min (2 ^ min (length ts) 20) 900"
    using assms by (simp add: record_failure_delay after_failures_count lockout_delay_def)
  have "lo_locked_until (snd (record_failure t (after_failures ts))) =
      Some (saturating_add_w t (fst (record_failure t (after_failures ts))))"
    by (simp add: record_failure_def Let_def)
  then show "is_locked now (snd (record_failure t (after_failures ts))) \<longleftrightarrow>
      unat now < min (unat t + min (2 ^ min (length ts) 20) 900) (2 ^ 64 - 1)"
    by (simp add: is_locked_def word_less_nat_alt saturating_add_w_unat d)
qed

theorem lockout_schedule_witness:
  "unat (fst (record_failure 7 (after_failures [1, 2, 3]))) = 8"
  using lockout_schedule [of "[1, 2, 3]" 7] by simp

subsection \<open>TOTP codes (authn.rs)\<close>

text \<open>\<^verbatim>\<open>format!("{:06}", n)\<close>\<close>

definition fmt_06 :: "nat \<Rightarrow> string" where
  "fmt_06 n = replicate (6 - length (show_nat n)) (CHR ''0'') @ show_nat n"

definition be_bytes_u64 :: "u64 \<Rightarrow> u8 list" where
  "be_bytes_u64 n = map (\<lambda>i. ucast (drop_bit (8 * i) n)) [7, 6, 5, 4, 3, 2, 1, 0]"

definition totp_binary :: "u8 list \<Rightarrow> u32" where
  "totp_binary out =
     (let k = unat (and (out ! 19) 15) in
      or (push_bit 24 (ucast (and (out ! k) 127)))
        (or (push_bit 16 (ucast (out ! (k + 1))))
          (or (push_bit 8 (ucast (out ! (k + 2)))) (ucast (out ! (k + 3))))))"

text \<open>\<^verbatim>\<open>hmac\<close> is HMAC-SHA1 of a key and a message; it accepts keys of any length, so its
  \<^verbatim>\<open>new_from_slice\<close> does not fail.\<close>

definition totp_at :: "(u8 list \<Rightarrow> u8 list \<Rightarrow> u8 list) \<Rightarrow> u8 list \<Rightarrow> u64 \<Rightarrow> string" where
  "totp_at hmac secret counter =
     fmt_06 (unat (totp_binary (hmac secret (be_bytes_u64 counter)) mod 1000000))"

definition ct_difference :: "u8 list \<Rightarrow> u8 list \<Rightarrow> u8" where
  "ct_difference xs ys = fold (\<lambda>(l, r) d. or d (xor l r)) (zip xs ys) 0"

definition totp_window :: "u64 \<Rightarrow> u64 list" where
  "totp_window now =
     (let c = now div 30 in [saturating_sub_w c 1, c, saturating_add_w c 1])"

definition verify_totp ::
  "(u8 list \<Rightarrow> u8 list \<Rightarrow> u8 list) \<Rightarrow> u8 list \<Rightarrow> string \<Rightarrow> u64 \<Rightarrow> authn_error + bool" where
  "verify_totp hmac secret code now =
     (if length secret < 16 then Inl InvalidTotpSecret
      else if length code \<noteq> 6 \<or> \<not> list_all is_ascii_digit code then Inr False
      else Inr (list_ex (\<lambda>c.
        ct_difference (map byte_of (totp_at hmac secret c)) (map byte_of code) = 0)
        (totp_window now)))"

lemma length_totp_at: "length (totp_at hmac secret c) = 6"
proof -
  let ?n = "unat (totp_binary (hmac secret (be_bytes_u64 c)) mod 1000000)"
  have "?n < 10 ^ Suc 5" by (simp add: unat_mod)
  then have "length (show_nat ?n) \<le> 6" using length_show_nat [of ?n 5] by simp
  then show ?thesis by (simp add: totp_at_def fmt_06_def)
qed

lemma or_eq_0_w: "or a b = 0 \<longleftrightarrow> a = 0 \<and> b = 0"
  for a b :: "'w::len word"
  by (rule or_eq_0_iff)

lemma xor_eq_0_w: "xor a b = 0 \<longleftrightarrow> a = b"
  for a b :: "'w::len word"
  by (metis xor.assoc xor.comm_neutral xor.left_neutral xor_self_eq)

lemma ct_fold:
  "length xs = length ys \<Longrightarrow>
     fold (\<lambda>(l, r) d. or d (xor l r)) (zip xs ys) d = 0 \<longleftrightarrow> d = (0 :: u8) \<and> xs = ys"
  by (induction xs ys arbitrary: d rule: list_induct2) (auto simp: or_eq_0_w xor_eq_0_w)

lemma ct_difference_eq: "length xs = length ys \<Longrightarrow> ct_difference xs ys = 0 \<longleftrightarrow> xs = ys"
  by (simp add: ct_difference_def ct_fold)

text \<open>The four bytes read are inside the twenty of the digest.\<close>

lemma totp_offset_in_range: "unat (and b (15 :: u8)) + 3 < 20"
proof -
  have "and b 15 \<le> (15 :: u8)" by (rule word_and_le1)
  then show ?thesis by (simp add: word_le_nat_alt)
qed

text \<open>
  The constant-time comparison decides equality: with a secret of at least sixteen
  bytes, a code is accepted exactly when it consists of six digits and is the code that the
  RFC 6238 generator gives for the current thirty-second step, the one before or the one after.
\<close>

theorem verify_totp_accepts_iff:
  "verify_totp hmac secret code now = Inr True \<longleftrightarrow>
     16 \<le> length secret \<and> list_all is_ascii_digit code
     \<and> code \<in> totp_at hmac secret ` set (totp_window now)"
proof -
  have eq: "ct_difference (map byte_of (totp_at hmac secret c)) (map byte_of code) = 0
      \<longleftrightarrow> totp_at hmac secret c = code" if "length code = 6" for c
    using that byte_of_inject
    by (simp add: ct_difference_eq length_totp_at inj_map_eq_map inj_def)
  show ?thesis
  proof (cases "length code = 6")
    case True
    then show ?thesis by (auto simp: verify_totp_def list_ex_iff eq)
  next
    case False
    then have "code \<notin> totp_at hmac secret ` set (totp_window now)"
      using length_totp_at by auto
    with False show ?thesis by (simp add: verify_totp_def)
  qed
qed

end
