(* ===== verification/Rust_Decimal.thy ===== *)
theory Rust_Decimal
  imports Prelude
begin

text \<open>
  The interface of the package \<^verbatim>\<open>rust_decimal\<close>, on which all prices, sizes, fees and limits
  of the program rest. Its source is not part of the repository, so its four arithmetic
  operations are a parameter, the record \<open>dec_ops\<close>, of every definition that uses them,
  and the locale \<open>decimal_arith\<close> states what the package documents of them.

  A \<^verbatim>\<open>Decimal\<close> is its value, a rational number: the package compares and hashes by value
  (\<^verbatim>\<open>1.0 == 1.00\<close>). Its values are \<open>m / 10 ^ e\<close> with \<open>\<bar>m\<bar> < 2 ^ 96\<close> and
  \<open>e \<le> 28\<close> (\<open>is_decimal\<close>). The checked operations return \<open>None\<close> on overflow, and the
  operators \<^verbatim>\<open>+ - * /\<close> panic there, so both are the same function here and the caller
  decides what \<open>None\<close> means. A result that has no exact representation is rounded; all the
  locale says of the rounding is that it never crosses a representable value, so that an
  exactly representable result is exact. Comparison, \<^verbatim>\<open>min\<close>, \<^verbatim>\<open>max\<close>, \<^verbatim>\<open>abs\<close>, \<^verbatim>\<open>signum\<close>
  and negation are exact and are the operations of the rationals.

  The theory \<open>Decimal_Instance\<close> gives an instance, rounding to the nearest value of the largest
  scale that fits, which shows that the laws can hold; the witnesses of the development run on it.
\<close>

type_synonym decimal = rat

definition dec_bound :: int where
  "dec_bound = 79228162514264337593543950336"

text \<open>The scale of \<open>x\<close> is at most \<open>e\<close>, and its coefficient there fits in 96 bits.\<close>

definition fits :: "nat \<Rightarrow> rat \<Rightarrow> bool" where
  "fits e x \<longleftrightarrow> (let y = x * 10 ^ e in of_int \<lfloor>y\<rfloor> = y \<and> \<bar>\<lfloor>y\<rfloor>\<bar> < dec_bound)"

definition is_decimal :: "rat \<Rightarrow> bool" where
  "is_decimal x \<longleftrightarrow> list_ex (\<lambda>e. fits e x) [0..<29]"

definition dec_max :: rat where
  "dec_max = of_int (dec_bound - 1)"

record dec_ops =
  dec_add :: "decimal \<Rightarrow> decimal \<Rightarrow> decimal option"
  dec_sub :: "decimal \<Rightarrow> decimal \<Rightarrow> decimal option"
  dec_mul :: "decimal \<Rightarrow> decimal \<Rightarrow> decimal option"
  dec_div :: "decimal \<Rightarrow> decimal \<Rightarrow> decimal option"

text \<open>\<open>rounds r x\<close>: the result \<open>r\<close> of an operation whose exact result is \<open>x\<close>.\<close>

definition rounds :: "decimal option \<Rightarrow> rat \<Rightarrow> bool" where
  "rounds r x \<longleftrightarrow>
     (case r of
        None \<Rightarrow> dec_max < \<bar>x\<bar>
      | Some c \<Rightarrow> is_decimal c \<and>
          (\<forall>y. is_decimal y \<longrightarrow> (y \<le> x \<longrightarrow> y \<le> c) \<and> (x \<le> y \<longrightarrow> c \<le> y)))"

subsection \<open>Representable values\<close>

lemma scale_eq: "y = x * 10 ^ e \<longleftrightarrow> x = y / 10 ^ e" for x y :: rat
  by (auto simp: field_simps)

lemma fits_iff: "fits e x \<longleftrightarrow> (\<exists>m. \<bar>m\<bar> < dec_bound \<and> x = of_int m / 10 ^ e)"
proof
  assume "fits e x"
  then have "\<bar>\<lfloor>x * 10 ^ e\<rfloor>\<bar> < dec_bound" and "of_int \<lfloor>x * 10 ^ e\<rfloor> = x * 10 ^ e"
    unfolding fits_def Let_def by blast+
  then have "\<bar>\<lfloor>x * 10 ^ e\<rfloor>\<bar> < dec_bound" and "x = of_int \<lfloor>x * 10 ^ e\<rfloor> / 10 ^ e"
    by (metis scale_eq)+
  then show "\<exists>m. \<bar>m\<bar> < dec_bound \<and> x = of_int m / 10 ^ e" by blast
next
  assume "\<exists>m. \<bar>m\<bar> < dec_bound \<and> x = of_int m / 10 ^ e"
  then show "fits e x" by (auto simp: fits_def Let_def)
qed

lemma is_decimal_iff: "is_decimal x \<longleftrightarrow> (\<exists>e \<le> 28. fits e x)"
proof -
  have "e < 29 \<longleftrightarrow> e \<le> 28" for e :: nat by arith
  then show ?thesis
    unfolding is_decimal_def list_ex_iff set_upt Bex_def atLeastLessThan_iff by blast
qed

lemma is_decimalI: "\<bar>m\<bar> < dec_bound \<Longrightarrow> e \<le> 28 \<Longrightarrow> x * 10 ^ e = of_int m \<Longrightarrow> is_decimal x"
  by (auto simp: is_decimal_iff fits_iff field_simps)

lemma fits_is_decimal: "fits e x \<Longrightarrow> e \<le> 28 \<Longrightarrow> is_decimal x"
  by (auto simp: is_decimal_iff)

lemma fits_int: "\<bar>n\<bar> < dec_bound \<Longrightarrow> fits 0 (of_int n)"
  by (auto simp: fits_iff)

lemma is_decimal_int: "\<bar>n\<bar> < dec_bound \<Longrightarrow> is_decimal (of_int n)"
  by (rule fits_is_decimal [OF fits_int]) simp_all

lemma is_decimal_0 [simp]: "is_decimal 0"
  using is_decimal_int [of 0] by (simp add: dec_bound_def)

lemma is_decimal_1 [simp]: "is_decimal 1"
  using is_decimal_int [of 1] by (simp add: dec_bound_def)

lemma is_decimal_numeral: "numeral n < dec_bound \<Longrightarrow> is_decimal (numeral n)"
  using is_decimal_int [of "numeral n"] by simp

lemma fits_uminus: "fits e (- x) \<longleftrightarrow> fits e x"
  unfolding fits_iff by (metis abs_minus_cancel add.inverse_inverse minus_divide_left of_int_minus)

lemma is_decimal_uminus [simp]: "is_decimal (- x) \<longleftrightarrow> is_decimal x"
  by (simp add: is_decimal_iff fits_uminus)

lemma is_decimal_abs [simp]: "is_decimal \<bar>x\<bar> \<longleftrightarrow> is_decimal x"
  by (simp add: abs_if)

lemma is_decimal_min: "is_decimal a \<Longrightarrow> is_decimal b \<Longrightarrow> is_decimal (min a b)"
  by (simp add: min_def)

lemma is_decimal_max: "is_decimal a \<Longrightarrow> is_decimal b \<Longrightarrow> is_decimal (max a b)"
  by (simp add: max_def)

lemma is_decimal_sgn [simp]: "is_decimal (sgn (x :: rat))"
  by (simp add: sgn_if)

lemma is_decimal_bounded: "is_decimal x \<Longrightarrow> \<bar>x\<bar> \<le> dec_max"
proof -
  assume "is_decimal x"
  then obtain e m where m: "\<bar>m\<bar> < dec_bound" and x: "x = of_int m / 10 ^ e"
    by (auto simp: is_decimal_iff fits_iff)
  have "\<bar>x\<bar> = of_int \<bar>m\<bar> / 10 ^ e" by (simp add: x abs_divide)
  also have "\<dots> \<le> of_int \<bar>m\<bar>" by (simp add: divide_le_eq mult_le_cancel_left1)
  also have "\<dots> \<le> dec_max" using m by (simp add: dec_max_def flip: of_int_diff)
  finally show ?thesis .
qed

text \<open>The values of one scale: sums and differences that stay in range are representable.\<close>

lemma fits_diff:
  assumes "fits e a" "fits e b" "0 \<le> b" "b \<le> a"
  shows "fits e (a - b)"
proof -
  from assms(1,2) obtain m n where a: "a = of_int m / 10 ^ e" "\<bar>m\<bar> < dec_bound"
    and b: "b = of_int n / 10 ^ e" by (auto simp: fits_iff)
  from assms(3,4) have "0 \<le> n" "n \<le> m"
    by (simp_all add: a b zero_le_divide_iff divide_le_cancel power_le_zero_eq)
  then have "\<bar>m - n\<bar> < dec_bound" using a(2) by simp
  then show ?thesis unfolding fits_iff
    by (intro exI [of _ "m - n"]) (simp add: a b diff_divide_distrib)
qed

lemma fits_min: "fits e a \<Longrightarrow> fits e b \<Longrightarrow> fits e (min a b)"
  by (simp add: min_def)

lemma fits_sum:
  assumes "fits e a" "fits e b" "\<bar>a + b\<bar> * 10 ^ e < of_int dec_bound"
  shows "fits e (a + b)"
proof -
  from assms(1,2) obtain m n where a: "a = of_int m / 10 ^ e" and b: "b = of_int n / 10 ^ e"
    by (auto simp: fits_iff)
  have eq: "a + b = of_int (m + n) / 10 ^ e" by (simp add: a b add_divide_distrib)
  have "of_int \<bar>m + n\<bar> = \<bar>a + b\<bar> * (10 ^ e :: rat)" by (simp add: eq abs_divide)
  with assms(3) have "\<bar>m + n\<bar> < dec_bound" by (simp flip: of_int_less_iff [where 'a = rat])
  with eq show ?thesis unfolding fits_iff by blast
qed

subsection \<open>What the package promises\<close>

locale decimal_arith =
  fixes D :: dec_ops
  assumes add_rounds: "is_decimal a \<Longrightarrow> is_decimal b \<Longrightarrow> rounds (dec_add D a b) (a + b)"
    and sub_rounds: "is_decimal a \<Longrightarrow> is_decimal b \<Longrightarrow> rounds (dec_sub D a b) (a - b)"
    and mul_rounds: "is_decimal a \<Longrightarrow> is_decimal b \<Longrightarrow> rounds (dec_mul D a b) (a * b)"
    and div_rounds: "is_decimal a \<Longrightarrow> is_decimal b \<Longrightarrow> b \<noteq> 0 \<Longrightarrow> rounds (dec_div D a b) (a / b)"
    and div_zero: "dec_div D a 0 = None"

lemma rounds_exact: "rounds r x \<Longrightarrow> is_decimal x \<Longrightarrow> r = Some x"
proof (cases r)
  case None
  moreover assume "rounds r x" "is_decimal x"
  ultimately show ?thesis using is_decimal_bounded [of x] by (simp add: rounds_def)
next
  case (Some c)
  moreover assume "rounds r x" "is_decimal x"
  ultimately have "x \<le> c" "c \<le> x" by (auto simp: rounds_def)
  with Some show ?thesis by simp
qed

lemma rounds_is_decimal: "rounds (Some c) x \<Longrightarrow> is_decimal c"
  by (simp add: rounds_def)

lemma rounds_ge: "rounds (Some c) x \<Longrightarrow> is_decimal y \<Longrightarrow> y \<le> x \<Longrightarrow> y \<le> c"
  by (simp add: rounds_def)

lemma rounds_le: "rounds (Some c) x \<Longrightarrow> is_decimal y \<Longrightarrow> x \<le> y \<Longrightarrow> c \<le> y"
  by (simp add: rounds_def)

context decimal_arith
begin

lemma add_exact: "is_decimal a \<Longrightarrow> is_decimal b \<Longrightarrow> is_decimal (a + b) \<Longrightarrow> dec_add D a b = Some (a + b)"
  by (rule rounds_exact [OF add_rounds])

lemma sub_exact: "is_decimal a \<Longrightarrow> is_decimal b \<Longrightarrow> is_decimal (a - b) \<Longrightarrow> dec_sub D a b = Some (a - b)"
  by (rule rounds_exact [OF sub_rounds])

lemma mul_exact: "is_decimal a \<Longrightarrow> is_decimal b \<Longrightarrow> is_decimal (a * b) \<Longrightarrow> dec_mul D a b = Some (a * b)"
  by (rule rounds_exact [OF mul_rounds])

lemma div_exact:
  "is_decimal a \<Longrightarrow> is_decimal b \<Longrightarrow> b \<noteq> 0 \<Longrightarrow> is_decimal (a / b) \<Longrightarrow> dec_div D a b = Some (a / b)"
  by (rule rounds_exact [OF div_rounds])

lemmas exact_simps = add_exact sub_exact mul_exact div_exact

lemma add_0: "is_decimal a \<Longrightarrow> dec_add D a 0 = Some a" "is_decimal a \<Longrightarrow> dec_add D 0 a = Some a"
  using add_exact [of a 0] add_exact [of 0 a] by simp_all

lemma mul_0: "is_decimal a \<Longrightarrow> dec_mul D a 0 = Some 0" "is_decimal a \<Longrightarrow> dec_mul D 0 a = Some 0"
  using mul_exact [of a 0] mul_exact [of 0 a] by simp_all

lemma results_decimal:
  assumes "is_decimal a" "is_decimal b"
  shows "dec_add D a b = Some c \<Longrightarrow> is_decimal c"
    and "dec_sub D a b = Some c \<Longrightarrow> is_decimal c"
    and "dec_mul D a b = Some c \<Longrightarrow> is_decimal c"
    and "dec_div D a b = Some c \<Longrightarrow> is_decimal c"
proof -
  show "is_decimal c" if "dec_add D a b = Some c"
    using add_rounds [OF assms] that by (simp add: rounds_is_decimal)
  show "is_decimal c" if "dec_sub D a b = Some c"
    using sub_rounds [OF assms] that by (simp add: rounds_is_decimal)
  show "is_decimal c" if "dec_mul D a b = Some c"
    using mul_rounds [OF assms] that by (simp add: rounds_is_decimal)
  show "is_decimal c" if "dec_div D a b = Some c"
    using div_rounds [OF assms] that div_zero [of a] by (cases "b = 0") (auto simp: rounds_is_decimal)
qed

lemma add_mono_right:
  "is_decimal a \<Longrightarrow> is_decimal b \<Longrightarrow> 0 \<le> b \<Longrightarrow> dec_add D a b = Some c \<Longrightarrow> a \<le> c"
  using add_rounds [of a b] by (auto intro: rounds_ge [of c "a + b"])

lemma sub_nonneg:
  "is_decimal a \<Longrightarrow> is_decimal b \<Longrightarrow> b \<le> a \<Longrightarrow> dec_sub D a b = Some c \<Longrightarrow> 0 \<le> c"
  using sub_rounds [of a b] by (auto intro: rounds_ge [of c "a - b"])

lemma mul_nonneg:
  "is_decimal a \<Longrightarrow> is_decimal b \<Longrightarrow> 0 \<le> a \<Longrightarrow> 0 \<le> b \<Longrightarrow> dec_mul D a b = Some c \<Longrightarrow> 0 \<le> c"
  using mul_rounds [of a b] by (auto intro: rounds_ge [of c "a * b"])

lemma mul_ge_left:
  assumes "is_decimal a" "is_decimal b" "0 \<le> a" "1 \<le> b" "dec_mul D a b = Some c"
  shows "a \<le> c"
proof -
  have "a \<le> a * b" using mult_left_mono [of 1 b a] assms by simp
  then show ?thesis using mul_rounds [of a b] assms by (auto intro: rounds_ge [of c "a * b"])
qed

lemma div_le_left:
  assumes "is_decimal a" "is_decimal b" "0 \<le> a" "1 \<le> b" "dec_div D a b = Some c"
  shows "c \<le> a"
proof -
  have "a / b \<le> a" using assms mult_left_mono [of 1 b a] by (simp add: divide_le_eq)
  then show ?thesis using div_rounds [of a b] assms by (auto intro: rounds_le [of c "a / b"])
qed

lemma div_nonneg:
  "is_decimal a \<Longrightarrow> is_decimal b \<Longrightarrow> 0 \<le> a \<Longrightarrow> 0 \<le> b \<Longrightarrow> dec_div D a b = Some c \<Longrightarrow> 0 \<le> c"
  using div_rounds [of a b] div_zero [of a]
  by (cases "b = 0") (auto intro: rounds_ge [of c "a / b"])

end

end
