(* ===== verification/Core_Types.thy ===== *)
theory Core_Types
  imports Rust_Decimal "HOL-Library.List_Lexorder" "HOL-Library.Char_ord"
begin

text \<open>
  The domain types of \<^verbatim>\<open>crates/aether-core\<close>: identifiers (\<^verbatim>\<open>ids.rs\<close>), JSON objects with
  sorted keys (\<^verbatim>\<open>json.rs\<close>), confidence (\<^verbatim>\<open>decimal.rs\<close>), quotes and order books
  (\<^verbatim>\<open>quote.rs\<close>), markets (\<^verbatim>\<open>market.rs\<close>), orders, verdicts and fills (\<^verbatim>\<open>order.rs\<close>), the edge
  decomposition (\<^verbatim>\<open>opportunity.rs\<close>), error codes (\<^verbatim>\<open>error.rs\<close>) and the backoff policy
  (\<^verbatim>\<open>retry.rs\<close>). Every validating constructor is here with its error branch, and a type
  whose \<^verbatim>\<open>Deserialize\<close> goes through the constructor is deserialized by it, from the record of
  the fields that were parsed.

  A ULID is its 128-bit number and a \<^verbatim>\<open>UtcTime\<close> its milliseconds since the epoch; the text of a
  decimal is parsed by the package, so the parser is a parameter where it is used.
\<close>

type_synonym ulid = "128 word"
type_synonym utc_time = int

subsection \<open>Identifiers (ids.rs)\<close>

datatype venue_id = VenueId string
datatype venue_id_error = VenueIdError string

primrec venue_str :: "venue_id \<Rightarrow> string" where
  "venue_str (VenueId s) = s"

definition venue_id_new :: "string \<Rightarrow> venue_id_error + venue_id" where
  "venue_id_new s =
     (if s = [] \<or> \<not> list_all (\<lambda>c. is_ascii_lowercase c \<or> is_ascii_digit c) s
      then Inl (VenueIdError s) else Inr (VenueId s))"

datatype market_key = MarketKey string
datatype market_key_error = MarketKeyError string

primrec key_str :: "market_key \<Rightarrow> string" where
  "key_str (MarketKey s) = s"

definition market_key_new :: "venue_id \<Rightarrow> string \<Rightarrow> market_key_error + market_key" where
  "market_key_new venue native_id =
     (if native_id = [] then Inl (MarketKeyError (''mkt:'' @ venue_str venue @ '':''))
      else Inr (MarketKey (''mkt:'' @ venue_str venue @ '':'' @ native_id)))"

definition market_key_from_string :: "string \<Rightarrow> market_key_error + market_key" where
  "market_key_from_string s =
     (let parts = splitn 3 (CHR '':'') s
      in if length parts \<noteq> 3 \<or> parts ! 0 \<noteq> ''mkt'' \<or> parts ! 1 = [] \<or> parts ! 2 = []
         then Inl (MarketKeyError s) else Inr (MarketKey s))"

record money =
  amount :: decimal
  currency :: string

definition money_new :: "decimal \<Rightarrow> string \<Rightarrow> money" where
  "money_new a c = \<lparr>amount = a, currency = c\<rparr>"

definition money_zero :: "string \<Rightarrow> money" where
  "money_zero c = \<lparr>amount = 0, currency = c\<rparr>"

subsection \<open>JSON values with sorted keys (json.rs)\<close>

datatype json =
    JNull
  | JBool bool
  | JNumber string
  | JString string
  | JArray "json list"
  | JObject "(string \<times> json) list"

text \<open>\<^verbatim>\<open>Value::get\<close> and \<^verbatim>\<open>Value::as_str\<close>.\<close>

fun json_get :: "string \<Rightarrow> json \<Rightarrow> json option" where
  "json_get k (JObject m) = hm_get m k"
| "json_get k _ = None"

fun json_str :: "json \<Rightarrow> string option" where
  "json_str (JString s) = Some s"
| "json_str _ = None"

text \<open>Entries are collected, their values sorted, the entries sorted by key, and inserted again
  into the cleared map.\<close>

function sort_json_keys :: "json \<Rightarrow> json" where
  "sort_json_keys JNull = JNull"
| "sort_json_keys (JBool b) = JBool b"
| "sort_json_keys (JNumber n) = JNumber n"
| "sort_json_keys (JString s) = JString s"
| "sort_json_keys (JArray vs) = JArray (map sort_json_keys vs)"
| "sort_json_keys (JObject m) =
     JObject (fold (\<lambda>(k, v). hm_put k v)
       (sort_key fst (map (\<lambda>(k, v). (k, sort_json_keys v)) m)) [])"
  by pat_completeness auto
termination
proof (relation "measure size", goal_cases)
  case 1
  then show ?case by simp
next
  case (2 vs v)
  then show ?case by (induction vs) auto
next
  case (3 m e k v)
  then have "(k, v) \<in> set m" by simp
  then show ?case by (induction m) auto
qed

datatype json_object_error = JsonObjectError

definition json_object_new :: "json \<Rightarrow> json_object_error + json" where
  "json_object_new v =
     (case v of JObject m \<Rightarrow> Inr (sort_json_keys (JObject m)) | _ \<Rightarrow> Inl JsonObjectError)"

definition json_object_is_empty :: "json \<Rightarrow> bool" where
  "json_object_is_empty v = (case v of JObject m \<Rightarrow> m = [] | _ \<Rightarrow> True)"

definition json_object_default :: json where
  "json_object_default = JObject []"

subsection \<open>Confidence (decimal.rs)\<close>

datatype confidence = Confidence decimal
datatype confidence_error = ConfidenceError decimal

primrec confidence_value :: "confidence \<Rightarrow> decimal" where
  "confidence_value (Confidence v) = v"

definition confidence_new :: "decimal \<Rightarrow> confidence_error + confidence" where
  "confidence_new v = (if v < 0 \<or> 1 < v then Inl (ConfidenceError v) else Inr (Confidence v))"

subsection \<open>Quotes and order books (quote.rs)\<close>

datatype quote_source = Stream | Poll | Snapshot

record quote =
  q_market :: market_key
  q_bid :: "decimal option"
  q_ask :: "decimal option"
  q_mid :: "decimal option"
  q_last :: "decimal option"
  q_bid_size :: "decimal option"
  q_ask_size :: "decimal option"
  q_ts :: utc_time
  q_source :: quote_source
  q_seq :: "nat option"

record book_level =
  lv_price :: decimal
  lv_size :: decimal

record order_book =
  ob_market :: market_key
  ob_bids :: "book_level list"
  ob_asks :: "book_level list"
  ob_depth :: nat
  ob_ts :: utc_time
  ob_seq :: "nat option"

datatype order_book_error = BidsNotDescending | AsksNotAscending

text \<open>The two loops over \<^verbatim>\<open>windows(2)\<close> return at the first offending pair.\<close>

definition order_book_new ::
  "market_key \<Rightarrow> book_level list \<Rightarrow> book_level list \<Rightarrow> nat \<Rightarrow> utc_time \<Rightarrow> nat option
     \<Rightarrow> order_book_error + order_book" where
  "order_book_new market bids asks depth ts seq =
     (if \<not> successively (\<lambda>a b. \<not> lv_price a \<le> lv_price b) bids then Inl BidsNotDescending
      else if \<not> successively (\<lambda>a b. \<not> lv_price b \<le> lv_price a) asks then Inl AsksNotAscending
      else Inr \<lparr>ob_market = market, ob_bids = bids, ob_asks = asks, ob_depth = depth,
                 ob_ts = ts, ob_seq = seq\<rparr>)"

text \<open>The wire form has the same fields, in public, and comes back through \<^verbatim>\<open>new\<close>.\<close>

definition order_book_deserialize :: "order_book \<Rightarrow> order_book_error + order_book" where
  "order_book_deserialize w =
     order_book_new (ob_market w) (ob_bids w) (ob_asks w) (ob_depth w) (ob_ts w) (ob_seq w)"

subsection \<open>Markets (market.rs)\<close>

datatype instrument_kind =
  BinaryContract | CategoricalContract | ScalarContract | Equity | OptionKind | Perp | Spot

datatype market_status = Open | Halted | Closed | Resolved

datatype decimal_string = DecimalString string

text \<open>\<^verbatim>\<open>Decimal::from_str_exact\<close> is the parameter \<open>parse\<close>.\<close>

definition decimal_string_new ::
  "(string \<Rightarrow> 'e + decimal) \<Rightarrow> string \<Rightarrow> 'e + decimal_string" where
  "decimal_string_new parse s = and_then (parse s) (\<lambda>_. Inr (DecimalString s))"

datatype price_semantics =
    Probability decimal_string
  | Scalar string decimal_string decimal_string
  | Currency

record price_semantics_wire =
  ps_kind :: string
  ps_tick_size :: "decimal_string option"
  ps_unit :: "string option"
  ps_min :: "decimal_string option"
  ps_max :: "decimal_string option"

datatype price_semantics_error = MissingField string | UnknownKind string

definition price_semantics_deserialize ::
  "price_semantics_wire \<Rightarrow> price_semantics_error + price_semantics" where
  "price_semantics_deserialize w =
     (if ps_kind w = ''probability'' then
        and_then (ok_or (MissingField ''tick_size'') (ps_tick_size w)) (\<lambda>t. Inr (Probability t))
      else if ps_kind w = ''scalar'' then
        and_then (ok_or (MissingField ''unit'') (ps_unit w)) (\<lambda>u.
        and_then (ok_or (MissingField ''min'') (ps_min w)) (\<lambda>lo.
        and_then (ok_or (MissingField ''max'') (ps_max w)) (\<lambda>hi. Inr (Scalar u lo hi))))
      else if ps_kind w = ''currency'' then Inr Currency
      else Inl (UnknownKind (ps_kind w)))"

record market =
  m_key :: market_key
  m_venue :: venue_id
  m_kind :: instrument_kind
  m_title :: string
  m_description_ref :: string
  m_status :: market_status
  m_close_ts :: "utc_time option"
  m_resolve_ts :: "utc_time option"
  m_outcome :: "string option"
  m_jurisdiction_flags :: "string list"
  m_venue_ref :: json
  m_meta :: json

end
