(* ===== verification/Audit_Chain.thy ===== *)
theory Audit_Chain
  imports Core_Types
begin

text \<open>
  The hash-linked audit log (\<^verbatim>\<open>crates/aether-audit\<close>): appending and verifying
  (\<^verbatim>\<open>chain.rs\<close>), anchors (\<^verbatim>\<open>anchor.rs\<close>), the full and the incremental verifier
  (\<^verbatim>\<open>verifier.rs\<close>), profit attribution (\<^verbatim>\<open>attribution.rs\<close>) and the emission catalogue
  (\<^verbatim>\<open>emission.rs\<close>). SHA-256 is an argument. The lemmas show that what is appended verifies,
  which fields of an event a verified chain protects against tampering, and which it does not.
\<close>

subsection \<open>Events and chains (chain.rs)\<close>

type_synonym hash = "u8 list"

record audit_event =
  ae_seq :: u64
  ae_prev_hash :: hash
  ae_hash :: hash
  ae_ts :: utc_time
  ae_actor :: string
  ae_action :: string
  ae_subject :: string
  ae_payload_hash :: hash

datatype audit_error = ChainSealed | SeqGap u64 u64 | HashBroken u64 | EmptyChain

record audit_chain =
  lc_events :: "audit_event list"
  lc_next_seq :: u64
  lc_sealed :: bool

definition hash_preimage :: "audit_event \<Rightarrow> string" where
  "hash_preimage e =
     show_nat (unat (ae_seq e)) @ ''|'' @ encode_hex (ae_prev_hash e) @ ''|'' @
     show_int (ae_ts e) @ ''|'' @ ae_actor e @ ''|'' @ ae_action e @ ''|'' @ ae_subject e"

definition compute_hash :: "(string \<Rightarrow> hash) \<Rightarrow> audit_event \<Rightarrow> hash" where
  "compute_hash sha e = sha (hash_preimage e)"

definition zero_hash :: hash where
  "zero_hash = replicate 32 0"

definition audit_chain_new :: "(string \<Rightarrow> hash) \<Rightarrow> utc_time \<Rightarrow> audit_chain" where
  "audit_chain_new sha now =
     (let g = \<lparr>ae_seq = 0, ae_prev_hash = zero_hash, ae_hash = zero_hash, ae_ts = now,
                ae_actor = ''system'', ae_action = ''chain.genesis'', ae_subject = ''audit_chain'',
                ae_payload_hash = zero_hash\<rparr>
      in \<lparr>lc_events = [g\<lparr>ae_hash := compute_hash sha g\<rparr>], lc_next_seq = 1, lc_sealed = False\<rparr>)"

text \<open>\<^verbatim>\<open>next_seq += 1\<close> overflows after \<open>2 ^ 64 - 1\<close> events: the panic of a build with overflow
  checks is \<open>None\<close>.\<close>

definition audit_append ::
  "(string \<Rightarrow> hash) \<Rightarrow> utc_time \<Rightarrow> string \<Rightarrow> string \<Rightarrow> string \<Rightarrow> string \<Rightarrow> audit_chain
     \<Rightarrow> ((audit_error + audit_event) \<times> audit_chain) option" where
  "audit_append sha now actor act subject payload c =
     (if lc_sealed c then Some (Inl ChainSealed, c)
      else if lc_events c = [] then Some (Inl EmptyChain, c)
      else let e = \<lparr>ae_seq = lc_next_seq c, ae_prev_hash = ae_hash (last (lc_events c)),
                     ae_hash = zero_hash, ae_ts = now, ae_actor = actor, ae_action = act,
                     ae_subject = subject, ae_payload_hash = sha payload\<rparr>;
               e' = e\<lparr>ae_hash := compute_hash sha e\<rparr>
           in (case checked_add_w (lc_next_seq c) 1 of
                 None \<Rightarrow> None
               | Some n \<Rightarrow> Some (Inr e', c\<lparr>lc_next_seq := n, lc_events := lc_events c @ [e']\<rparr>)))"

fun verify_from ::
  "(string \<Rightarrow> hash) \<Rightarrow> audit_event \<Rightarrow> audit_event list \<Rightarrow> (audit_error + unit) option" where
  "verify_from sha prev [] = Some (Inr ())"
| "verify_from sha prev (cur # rest) =
     (case checked_add_w (ae_seq prev) 1 of
        None \<Rightarrow> None
      | Some n \<Rightarrow>
          (if ae_seq cur \<noteq> n then Some (Inl (SeqGap n (ae_seq cur)))
           else if ae_prev_hash cur \<noteq> ae_hash prev then Some (Inl (HashBroken (ae_seq cur)))
           else if compute_hash sha cur \<noteq> ae_hash cur then Some (Inl (HashBroken (ae_seq cur)))
           else verify_from sha cur rest))"

definition audit_verify :: "(string \<Rightarrow> hash) \<Rightarrow> audit_chain \<Rightarrow> (audit_error + unit) option" where
  "audit_verify sha c =
     (case lc_events c of [] \<Rightarrow> Some (Inr ()) | g # es \<Rightarrow> verify_from sha g es)"

definition chain_last_seq :: "audit_chain \<Rightarrow> u64" where
  "chain_last_seq c = saturating_sub_w (lc_next_seq c) 1"

subsection \<open>Anchors (anchor.rs) and verifiers (verifier.rs)\<close>

record anchor =
  an_seq :: u64
  an_hash :: hash
  an_anchored_ts :: utc_time

record anchor_store =
  as_anchors :: "anchor list"
  as_max_anchors :: nat

definition anchor_store_new :: "nat \<Rightarrow> anchor_store" where
  "anchor_store_new n = \<lparr>as_anchors = [], as_max_anchors = n\<rparr>"

definition add_anchor :: "utc_time \<Rightarrow> u64 \<Rightarrow> hash \<Rightarrow> anchor_store \<Rightarrow> anchor_store" where
  "add_anchor now seq h s =
     (let kept = (if as_max_anchors s \<le> length (as_anchors s) then tl (as_anchors s)
                  else as_anchors s)
      in s\<lparr>as_anchors := kept @ [\<lparr>an_seq = seq, an_hash = h, an_anchored_ts = now\<rparr>]\<rparr>)"

definition latest_anchor :: "anchor_store \<Rightarrow> anchor option" where
  "latest_anchor s = (if as_anchors s = [] then None else Some (last (as_anchors s)))"

datatype verify_error = VerifyChain audit_error | VerifyAnchor string

record verification_result =
  ve_verified :: bool
  ve_events_checked :: u64
  ve_from_seq :: u64
  ve_to_seq :: u64
  ve_is_incremental :: bool

definition verify_full ::
  "(string \<Rightarrow> hash) \<Rightarrow> audit_chain \<Rightarrow> (verify_error + verification_result) option" where
  "verify_full sha c =
     map_option (\<lambda>r. map_ok (\<lambda>_.
        \<lparr>ve_verified = True, ve_events_checked = of_nat (length (lc_events c)), ve_from_seq = 0,
          ve_to_seq = chain_last_seq c, ve_is_incremental = False\<rparr>) (map_err VerifyChain r))
       (audit_verify sha c)"

fun check_links :: "audit_event \<Rightarrow> audit_event list \<Rightarrow> (audit_error + unit) option" where
  "check_links prev [] = Some (Inr ())"
| "check_links prev (cur # rest) =
     (case checked_add_w (ae_seq prev) 1 of
        None \<Rightarrow> None
      | Some n \<Rightarrow>
          (if ae_seq cur \<noteq> n then Some (Inl (SeqGap n (ae_seq cur)))
           else if ae_prev_hash cur \<noteq> ae_hash prev then Some (Inl (HashBroken (ae_seq cur)))
           else check_links cur rest))"

definition verify_incremental ::
  "audit_chain \<Rightarrow> anchor_store \<Rightarrow> (verify_error + verification_result) option" where
  "verify_incremental c store =
     (case latest_anchor store of
        None \<Rightarrow> Some (Inl (VerifyAnchor ''no anchor found''))
      | Some a \<Rightarrow>
          (case drop (unat (an_seq a)) (lc_events c) of
             [] \<Rightarrow> Some (Inr \<lparr>ve_verified = True, ve_events_checked = 0, ve_from_seq = an_seq a,
                      ve_to_seq = chain_last_seq c, ve_is_incremental = True\<rparr>)
           | prev # rest \<Rightarrow>
               map_option (\<lambda>r. map_ok (\<lambda>_.
                   \<lparr>ve_verified = True,
                     ve_events_checked =
                       saturating_sub_w (of_nat (length (lc_events c))) (an_seq a),
                     ve_from_seq = an_seq a, ve_to_seq = chain_last_seq c,
                     ve_is_incremental = True\<rparr>) (map_err VerifyChain r))
                 (check_links prev rest)))"

subsection \<open>What is appended verifies\<close>

definition linked :: "(string \<Rightarrow> hash) \<Rightarrow> audit_event \<Rightarrow> audit_event \<Rightarrow> bool" where
  "linked sha p e \<longleftrightarrow>
     checked_add_w (ae_seq p) 1 = Some (ae_seq e) \<and> ae_prev_hash e = ae_hash p
       \<and> ae_hash e = compute_hash sha e"

lemma verify_from_ok:
  "verify_from sha p es = Some (Inr ()) \<longleftrightarrow> successively (linked sha) (p # es)"
proof (induction es arbitrary: p)
  case (Cons e es)
  then show ?case
    by (auto simp: linked_def split: option.split)
qed simp

lemma check_links_ok:
  "verify_from sha p es = Some (Inr ()) \<Longrightarrow> check_links p es = Some (Inr ())"
  by (induction es arbitrary: p) (auto split: option.splits if_splits)

lemma audit_verify_ok:
  "audit_verify sha c = Some (Inr ()) \<longleftrightarrow> successively (linked sha) (lc_events c)"
  by (simp add: audit_verify_def verify_from_ok split: list.split)

definition chain_inv :: "(string \<Rightarrow> hash) \<Rightarrow> audit_chain \<Rightarrow> bool" where
  "chain_inv sha c \<longleftrightarrow> lc_events c \<noteq> [] \<and> \<not> lc_sealed c
     \<and> successively (linked sha) (lc_events c)
     \<and> checked_add_w (ae_seq (last (lc_events c))) 1 = Some (lc_next_seq c)"

lemma chain_new_inv: "chain_inv sha (audit_chain_new sha now)"
  by (simp add: chain_inv_def audit_chain_new_def checked_add_w_def Let_def)

lemma append_inv:
  assumes "chain_inv sha c" "audit_append sha now a act sb pl c = Some (r, c')"
  shows "chain_inv sha c' \<and> (\<exists>e. r = Inr e \<and> lc_events c' = lc_events c @ [e])"
proof -
  from assms obtain e where r: "r = Inr e" and ev: "lc_events c' = lc_events c @ [e]"
    and se: "\<not> lc_sealed c'" and nx: "checked_add_w (lc_next_seq c) 1 = Some (lc_next_seq c')"
    and e: "ae_seq e = lc_next_seq c" "ae_prev_hash e = ae_hash (last (lc_events c))"
      "ae_hash e = compute_hash sha e"
    by (auto simp: audit_append_def chain_inv_def Let_def compute_hash_def hash_preimage_def
        split: option.splits)
  with assms(1) have "linked sha (last (lc_events c)) e"
    by (simp add: chain_inv_def linked_def)
  with assms(1) ev se nx e r show ?thesis
    by (auto simp: chain_inv_def successively_append_iff)
qed

text \<open>A history of appends: time, actor, action, subject, payload.\<close>

type_synonym append_args = "utc_time \<times> string \<times> string \<times> string \<times> string"

fun append_all :: "(string \<Rightarrow> hash) \<Rightarrow> append_args list \<Rightarrow> audit_chain \<Rightarrow> audit_chain option" where
  "append_all sha [] c = Some c"
| "append_all sha ((t, a, act, sb, pl) # rest) c =
     Option.bind (audit_append sha t a act sb pl c) (\<lambda>(r, c'). append_all sha rest c')"

lemma append_all_inv:
  "chain_inv sha c \<Longrightarrow> append_all sha hs c = Some c'
     \<Longrightarrow> chain_inv sha c' \<and> length (lc_events c') = length (lc_events c) + length hs
       \<and> take (length (lc_events c)) (lc_events c') = lc_events c"
proof (induction sha hs c rule: append_all.induct)
  case (2 sha t a act sb pl rest c)
  from 2(3) obtain r d where d: "audit_append sha t a act sb pl c = Some (r, d)"
    "append_all sha rest d = Some c'"
    by (auto simp: bind_Some_iff)
  from append_inv [OF 2(2) d(1)] obtain e where
    I: "chain_inv sha d" "lc_events d = lc_events c @ [e]" by blast
  have "chain_inv sha c' \<and> length (lc_events c') = length (lc_events d) + length rest
       \<and> take (length (lc_events d)) (lc_events c') = lc_events d"
    using 2(1) [OF d(1) refl I(1) d(2)] .
  moreover from this I(2) have "take (length (lc_events c)) (lc_events c') = lc_events c"
    by (metis append_eq_conv_conj length_append_singleton le_add1 min.absorb1 take_take
        Suc_eq_plus1)
  ultimately show ?case using I(2) by simp
qed auto

text \<open>
  Every chain that is built by the genesis constructor and appends verifies: it
  has one event more than there were appends, earlier events are never changed, and both the
  full verifier and the incremental one, from any anchor taken inside it, report it verified.
\<close>

theorem appended_chain_verifies:
  assumes "append_all sha hs (audit_chain_new sha now) = Some c"
  shows "audit_verify sha c = Some (Inr ()) \<and> length (lc_events c) = length hs + 1
    \<and> take 1 (lc_events c) = lc_events (audit_chain_new sha now)
    \<and> (\<exists>r. verify_incremental c (add_anchor t seq h (anchor_store_new n)) = Some (Inr r)
         \<and> ve_verified r)"
proof -
  from append_all_inv [OF chain_new_inv assms]
  have I: "chain_inv sha c" "length (lc_events c) = length hs + 1"
    "take 1 (lc_events c) = lc_events (audit_chain_new sha now)"
    by (simp_all add: audit_chain_new_def Let_def)
  then have v: "audit_verify sha c = Some (Inr ())" by (simp add: chain_inv_def audit_verify_ok)
  have "check_links p es = Some (Inr ())" if "drop (unat seq) (lc_events c) = p # es" for p es
  proof (rule check_links_ok [of sha])
    have "successively (linked sha) (drop (unat seq) (lc_events c))"
      using I(1) by (metis append_take_drop_id chain_inv_def successively_append_iff)
    then show "verify_from sha p es = Some (Inr ())" by (simp add: that verify_from_ok)
  qed
  then show ?thesis using v I
    by (auto simp: verify_incremental_def latest_anchor_def add_anchor_def anchor_store_new_def
        Let_def split: list.split)
qed

definition wit_sha :: "string \<Rightarrow> hash" where
  "wit_sha s = map byte_of s"

theorem appended_chain_verifies_witness:
  "\<exists>c. append_all wit_sha [(5, ''a'', ''b'', ''c'', ''d'')] (audit_chain_new wit_sha 1) = Some c
     \<and> audit_verify wit_sha c = Some (Inr ())"
proof -
  obtain c where c: "append_all wit_sha [(5, ''a'', ''b'', ''c'', ''d'')] (audit_chain_new wit_sha 1)
      = Some c"
    by (simp add: audit_chain_new_def audit_append_def Let_def checked_add_w_def)
  from appended_chain_verifies [OF this] c show ?thesis by blast
qed

subsection \<open>What a verified chain protects\<close>

lemma preimage_inject:
  assumes "hash_preimage e = hash_preimage e'"
    and "CHR ''|'' \<notin> set (ae_actor e @ ae_action e)" "CHR ''|'' \<notin> set (ae_actor e' @ ae_action e')"
  shows "ae_seq e = ae_seq e' \<and> ae_prev_hash e = ae_prev_hash e' \<and> ae_ts e = ae_ts e'
    \<and> ae_actor e = ae_actor e' \<and> ae_action e = ae_action e' \<and> ae_subject e = ae_subject e'"
proof -
  have n: "CHR ''|'' \<notin> set (show_nat k)" "CHR ''|'' \<notin> set (encode_hex h)" for k h
    using show_nat_no [of "CHR ''|''"] encode_hex_set [of h] by auto
  from assms show ?thesis
    by (simp add: hash_preimage_def separator_split n show_int_no_bar show_nat_inject
        show_int_inject encode_hex_inject word_unat_eq_iff)
qed

definition same_fields :: "audit_event \<Rightarrow> audit_event \<Rightarrow> bool" where
  "same_fields e e' \<longleftrightarrow> ae_seq e = ae_seq e' \<and> ae_prev_hash e = ae_prev_hash e'
     \<and> ae_ts e = ae_ts e' \<and> ae_actor e = ae_actor e' \<and> ae_action e = ae_action e'
     \<and> ae_subject e = ae_subject e'"

definition bar_free :: "audit_event \<Rightarrow> bool" where
  "bar_free e \<longleftrightarrow> CHR ''|'' \<notin> set (ae_actor e @ ae_action e)"

lemma verified_same_tail:
  assumes "length xs = length ys" "xs \<noteq> []"
    and "successively (linked sha) xs" "successively (linked sha) ys"
    and "ae_hash (last xs) = ae_hash (last ys)"
    and "inj_on sha (hash_preimage ` (set xs \<union> set ys))"
    and "\<forall>e \<in> set xs \<union> set ys. bar_free e"
  shows "list_all2 same_fields (tl xs) (tl ys) \<and> ae_hash (hd xs) = ae_hash (hd ys)"
  using assms
proof (induction xs arbitrary: ys rule: rev_induct)
  case (snoc x xs)
  from snoc.prems(1) obtain y ys' where ys: "ys = ys' @ [y]" "length xs = length ys'"
    by (cases ys rule: rev_cases) auto
  show ?case
  proof (cases "xs = []")
    case True
    with ys snoc.prems(5) show ?thesis by simp
  next
    case False
    with ys have ne: "ys' \<noteq> []" by auto
    from snoc.prems(3) False have lx: "linked sha (last xs) x" "successively (linked sha) xs"
      by (simp_all add: successively_append_iff)
    from snoc.prems(4) ne ys(1) have ly: "linked sha (last ys') y" "successively (linked sha) ys'"
      by (simp_all add: successively_append_iff)
    from lx(1) ly(1) snoc.prems(5) ys(1) have "sha (hash_preimage x) = sha (hash_preimage y)"
      by (simp add: linked_def compute_hash_def)
    then have "hash_preimage x = hash_preimage y"
      by (rule inj_onD [OF snoc.prems(6)]) (simp_all add: ys(1))
    then have same: "same_fields x y"
      using preimage_inject [of x y] snoc.prems(7) ys(1) by (simp add: bar_free_def same_fields_def)
    with lx(1) ly(1) have "ae_hash (last xs) = ae_hash (last ys')"
      by (simp add: linked_def same_fields_def)
    moreover have "inj_on sha (hash_preimage ` (set xs \<union> set ys'))"
      by (rule inj_on_subset [OF snoc.prems(6)]) (auto simp: ys(1))
    moreover have "\<forall>e \<in> set xs \<union> set ys'. bar_free e" using snoc.prems(7) ys(1) by auto
    ultimately have "list_all2 same_fields (tl xs) (tl ys') \<and> ae_hash (hd xs) = ae_hash (hd ys')"
      using snoc.IH [OF ys(2) False lx(2) ly(2)] by blast
    with same False ne ys(1) show ?thesis by (simp add: list_all2_appendI)
  qed
qed simp

text \<open>
  Property C30. Tamper evidence: two chains of the same length that both verify and end in the
  same hash agree on the sequence number, previous hash, time, actor, action and subject of every
  event after the genesis event, if SHA-256 has no collision among their preimages and no actor
  or action contains the separator.
\<close>

theorem verified_chain_tamper_evident:
  assumes "audit_verify sha c = Some (Inr ())" "audit_verify sha d = Some (Inr ())"
    and "length (lc_events c) = length (lc_events d)" "lc_events c \<noteq> []"
    and "ae_hash (last (lc_events c)) = ae_hash (last (lc_events d))"
    and "inj_on sha (hash_preimage ` (set (lc_events c) \<union> set (lc_events d)))"
    and "\<forall>e \<in> set (lc_events c) \<union> set (lc_events d). bar_free e"
  shows "list_all2 same_fields (tl (lc_events c)) (tl (lc_events d))"
  using verified_same_tail [OF assms(3,4) _ _ assms(5,6,7)] assms(1,2)
  by (simp add: audit_verify_ok)

lemma inj_wit_sha: "inj wit_sha"
  by (simp add: inj_def wit_sha_def inj_map_eq_map byte_of_inject)

definition wit_chain :: audit_chain where
  "wit_chain = snd (the (audit_append wit_sha 5 ''a'' ''b'' ''c'' ''d'' (audit_chain_new wit_sha 1)))"

definition forge_payload :: "(audit_event \<Rightarrow> hash) \<Rightarrow> audit_event \<Rightarrow> audit_event" where
  "forge_payload f e = e\<lparr>ae_payload_hash := f e\<rparr>"

definition forge_chain :: "(audit_event \<Rightarrow> hash) \<Rightarrow> audit_chain \<Rightarrow> audit_chain" where
  "forge_chain f c = c\<lparr>lc_events := map (forge_payload f) (lc_events c)\<rparr>"

lemma forge_sel:
  "ae_seq (forge_payload f e) = ae_seq e" "ae_prev_hash (forge_payload f e) = ae_prev_hash e"
  "ae_hash (forge_payload f e) = ae_hash e"
  "compute_hash sha (forge_payload f e) = compute_hash sha e"
  by (simp_all add: forge_payload_def compute_hash_def hash_preimage_def)

lemma verify_from_forge:
  "verify_from sha (forge_payload f p) (map (forge_payload f) es) = verify_from sha p es"
  by (induction es arbitrary: p) (simp_all add: forge_sel split: option.split)

lemma check_links_forge:
  "check_links (forge_payload f p) (map (forge_payload f) es) = check_links p es"
  by (induction es arbitrary: p) (simp_all add: forge_sel split: option.split)

lemma wit_chain_events:
  "lc_events wit_chain \<noteq> []" "audit_verify wit_sha wit_chain = Some (Inr ())"
  "\<forall>e \<in> set (lc_events wit_chain). bar_free e"
proof -
  have i: "chain_inv wit_sha wit_chain"
  proof -
    obtain r d where d: "audit_append wit_sha 5 ''a'' ''b'' ''c'' ''d'' (audit_chain_new wit_sha 1)
        = Some (r, d)"
      by (simp add: audit_chain_new_def audit_append_def Let_def checked_add_w_def)
    with append_inv [OF chain_new_inv d] show ?thesis by (simp add: wit_chain_def)
  qed
  then show "lc_events wit_chain \<noteq> []" "audit_verify wit_sha wit_chain = Some (Inr ())"
    by (simp_all add: chain_inv_def audit_verify_ok)
  show "\<forall>e \<in> set (lc_events wit_chain). bar_free e"
    by (simp add: wit_chain_def audit_chain_new_def audit_append_def Let_def checked_add_w_def
        bar_free_def)
qed

theorem verified_chain_tamper_evident_witness:
  "list_all2 same_fields (tl (lc_events wit_chain))
     (tl (lc_events (forge_chain (\<lambda>_. []) wit_chain)))"
proof (rule verified_chain_tamper_evident [where sha = wit_sha])
  show "audit_verify wit_sha (forge_chain (\<lambda>_. []) wit_chain) = Some (Inr ())"
    using wit_chain_events(1,2)
    by (cases "lc_events wit_chain") (simp_all add: audit_verify_def forge_chain_def verify_from_forge)
  show "ae_hash (last (lc_events wit_chain)) =
      ae_hash (last (lc_events (forge_chain (\<lambda>_. []) wit_chain)))"
    using wit_chain_events(1) by (simp add: forge_chain_def last_map forge_sel)
  show "\<forall>e\<in>set (lc_events wit_chain) \<union> set (lc_events (forge_chain (\<lambda>_. []) wit_chain)). bar_free e"
    using wit_chain_events(3) by (auto simp: forge_chain_def bar_free_def forge_payload_def)
  show "inj_on wit_sha (hash_preimage ` (set (lc_events wit_chain) \<union>
      set (lc_events (forge_chain (\<lambda>_. []) wit_chain))))"
    by (rule inj_on_subset [OF inj_wit_sha]) simp
qed (simp_all add: wit_chain_events forge_chain_def)

text \<open>
  The payload hash is outside the event hash: rewriting the payload hashes of a
  chain in any way changes neither the verdict of the full verifier nor that of the incremental
  one.
\<close>

theorem payload_hash_unprotected:
  "audit_verify sha (forge_chain f c) = audit_verify sha c
    \<and> verify_incremental (forge_chain f c) store = verify_incremental c store"
proof
  show "audit_verify sha (forge_chain f c) = audit_verify sha c"
    by (simp add: audit_verify_def forge_chain_def verify_from_forge split: list.split)
  show "verify_incremental (forge_chain f c) store = verify_incremental c store"
  proof (cases "latest_anchor store")
    case (Some a)
    show ?thesis
      by (cases "drop (unat (an_seq a)) (lc_events c)")
        (simp_all add: Some verify_incremental_def forge_chain_def drop_map check_links_forge
          chain_last_seq_def)
  qed (simp add: verify_incremental_def)
qed

text \<open>The incremental verifier compares stored hashes only: rewriting the actor, action and
  subject of events without recomputing any hash goes unnoticed.\<close>

lemma check_links_ignores_content:
  "check_links p (map (\<lambda>e. e\<lparr>ae_actor := f e, ae_action := g e, ae_subject := h e\<rparr>) es) =
     check_links p es"
proof (induction es arbitrary: p)
  case (Cons e es)
  have "check_links (e\<lparr>ae_actor := f e, ae_action := g e, ae_subject := h e\<rparr>) xs = check_links e xs"
    for xs by (cases xs) simp_all
  with Cons show ?case by (simp split: option.split)
qed simp

subsection \<open>The anchor store is bounded\<close>

lemma add_anchor_bounded:
  "length (as_anchors s) \<le> max 1 (as_max_anchors s) \<Longrightarrow>
     length (as_anchors (add_anchor t seq h s)) \<le> max 1 (as_max_anchors s)"
  by (auto simp: add_anchor_def Let_def)

lemma add_anchor_latest: "latest_anchor (add_anchor t seq h s) =
    Some \<lparr>an_seq = seq, an_hash = h, an_anchored_ts = t\<rparr>"
  by (simp add: latest_anchor_def add_anchor_def Let_def)

subsection \<open>Attribution (attribution.rs)\<close>

record attribution_input =
  at_gross_spread :: decimal
  at_fees :: decimal
  at_slippage :: decimal
  at_funding :: decimal

record attribution =
  ar_opportunity_id :: ulid
  ar_predicted :: attribution_input
  ar_realized :: attribution_input
  ar_net_predicted :: decimal
  ar_net_realized :: decimal
  ar_divergence :: decimal
  ar_closed_ts :: utc_time

definition attribution_net :: "dec_ops \<Rightarrow> attribution_input \<Rightarrow> decimal option" where
  "attribution_net D i = do {
     a \<leftarrow> dec_sub D (at_gross_spread i) (at_fees i);
     b \<leftarrow> dec_sub D a (at_slippage i);
     dec_sub D b (at_funding i)
   }"

text \<open>The code's error type is never returned; a decimal overflow panics.\<close>

definition compute_attribution ::
  "dec_ops \<Rightarrow> utc_time \<Rightarrow> ulid \<Rightarrow> attribution_input \<Rightarrow> attribution_input \<Rightarrow> attribution option" where
  "compute_attribution D now opp predicted realized = do {
     net_pred \<leftarrow> attribution_net D predicted;
     net_real \<leftarrow> attribution_net D realized;
     diff \<leftarrow> dec_sub D net_pred net_real;
     Some \<lparr>ar_opportunity_id = opp, ar_predicted = predicted, ar_realized = realized,
       ar_net_predicted = net_pred, ar_net_realized = net_real, ar_divergence = diff,
       ar_closed_ts = now\<rparr>
   }"

subsection \<open>The emission catalogue (emission.rs)\<close>

type_synonym action_class = "string \<times> string \<times> string"

definition emission_catalog :: "action_class list" where
  "emission_catalog =
     [(''auth'', ''session.login'', ''human''), (''auth'', ''session.logout'', ''human''),
      (''auth'', ''grant.create'', ''admin''), (''auth'', ''grant.revoke'', ''admin''),
      (''auth'', ''caps.update'', ''admin''), (''execution'', ''risk.verdict'', ''system''),
      (''execution'', ''order.submitted'', ''agent''), (''execution'', ''order.filled'', ''system''),
      (''execution'', ''order.cancelled'', ''agent''),
      (''guardian'', ''proposal.created'', ''agent''), (''guardian'', ''proposal.approved'', ''human''),
      (''guardian'', ''proposal.denied'', ''system''), (''guardian'', ''tx.broadcast'', ''system''),
      (''operations'', ''live_enabled.toggled'', ''admin''),
      (''operations'', ''flag.changed'', ''admin''), (''operations'', ''plugin.installed'', ''admin''),
      (''scanner'', ''opportunity.detected'', ''system''),
      (''scanner'', ''opportunity.expired'', ''system'')]"

definition check_coverage :: "action_class list \<Rightarrow> string list" where
  "check_coverage emitted =
     map (\<lambda>(d, a, t). d @ ''.'' @ a @ '' ('' @ t @ '')'')
       (filter (\<lambda>r. \<not> List.member emitted r) emission_catalog)"

lemma check_coverage_complete: "check_coverage emitted = [] \<longleftrightarrow> set emission_catalog \<subseteq> set emitted"
  by (auto simp: check_coverage_def filter_empty_conv)

end
