(* ===== verification/Core_Orders.thy ===== *)
theory Core_Orders
  imports Core_Types
begin

text \<open>
  The second half of \<^verbatim>\<open>crates/aether-core\<close>: orders, verdicts, fills, positions and caps
  (\<^verbatim>\<open>order.rs\<close>), the net-edge decomposition with its sum law (\<^verbatim>\<open>opportunity.rs\<close>), error codes
  (\<^verbatim>\<open>error.rs\<close>) and the exponential backoff (\<^verbatim>\<open>retry.rs\<close>).
\<close>

subsection \<open>Orders, verdicts and fills (order.rs)\<close>

datatype side = Buy | Sell | BuyNo | SellNo
datatype order_type = Limit | Market
datatype size_unit = Contracts | Shares | Base | QuoteUnit
datatype time_in_force = Ioc | Gtc | Day
datatype origin_kind = OriginHuman | OriginAgent | OriginAutomation
datatype risk_verdict_status = Allow | Deny

datatype risk_reason_code =
  Liveness | PriceDrift | Balance | VenueHealth | CapExceeded | Jurisdiction | LiveDisabled

text \<open>The derived \<^verbatim>\<open>Debug\<close> of the enumerations, which messages and tables use.\<close>

primrec debug_order_type :: "order_type \<Rightarrow> string" where
  "debug_order_type Limit = ''Limit''"
| "debug_order_type Market = ''Market''"

primrec debug_side :: "side \<Rightarrow> string" where
  "debug_side Buy = ''Buy''"
| "debug_side Sell = ''Sell''"
| "debug_side BuyNo = ''BuyNo''"
| "debug_side SellNo = ''SellNo''"

primrec debug_size_unit :: "size_unit \<Rightarrow> string" where
  "debug_size_unit Contracts = ''Contracts''"
| "debug_size_unit Shares = ''Shares''"
| "debug_size_unit Base = ''Base''"
| "debug_size_unit QuoteUnit = ''Quote''"

primrec debug_tif :: "time_in_force \<Rightarrow> string" where
  "debug_tif Ioc = ''Ioc''"
| "debug_tif Gtc = ''Gtc''"
| "debug_tif Day = ''Day''"

record risk_reason =
  rr_code :: risk_reason_code
  rr_detail :: message

record origin =
  or_kind :: origin_kind
  or_tier :: nat
  or_actor_id :: ulid

datatype origin_error = InvalidTier nat

definition origin_new :: "origin_kind \<Rightarrow> nat \<Rightarrow> ulid \<Rightarrow> origin_error + origin" where
  "origin_new kind tier actor =
     (if \<not> (1 \<le> tier \<and> tier \<le> 5) then Inl (InvalidTier tier)
      else Inr \<lparr>or_kind = kind, or_tier = tier, or_actor_id = actor\<rparr>)"

definition origin_deserialize :: "origin \<Rightarrow> origin_error + origin" where
  "origin_deserialize w = origin_new (or_kind w) (or_tier w) (or_actor_id w)"

record order_intent =
  oi_id :: ulid
  oi_market :: market_key
  oi_side :: side
  oi_order_type :: order_type
  oi_limit_price :: "decimal option"
  oi_size :: decimal
  oi_size_unit :: size_unit
  oi_tif :: time_in_force
  oi_paper :: bool
  oi_origin :: origin
  oi_quote_snapshot :: quote
  oi_caps_version :: ulid
  oi_created_ts :: utc_time

record risk_verdict =
  rv_intent_id :: ulid
  rv_verdict :: risk_verdict_status
  rv_reasons :: "risk_reason list"
  rv_ts :: utc_time

definition risk_verdict_allow :: "utc_time \<Rightarrow> ulid \<Rightarrow> risk_verdict" where
  "risk_verdict_allow now i = \<lparr>rv_intent_id = i, rv_verdict = Allow, rv_reasons = [], rv_ts = now\<rparr>"

definition risk_verdict_deny :: "utc_time \<Rightarrow> ulid \<Rightarrow> risk_reason list \<Rightarrow> risk_verdict" where
  "risk_verdict_deny now i rs =
     \<lparr>rv_intent_id = i, rv_verdict = Deny, rv_reasons = rs, rv_ts = now\<rparr>"

definition is_allowed :: "risk_verdict \<Rightarrow> bool" where
  "is_allowed v \<longleftrightarrow> rv_verdict v = Allow"

record fill =
  f_order_id :: ulid
  f_market :: market_key
  f_side :: side
  f_price :: decimal
  f_size :: decimal
  f_fee :: money
  f_venue_ref :: json
  f_ts :: utc_time
  f_paper :: bool

record caps_snapshot =
  cs_version :: ulid
  cs_per_order_max :: money
  cs_daily_max :: money
  cs_per_venue :: json
  cs_per_kind :: json

subsection \<open>Net-edge decomposition (opportunity.rs)\<close>

record edge_costs =
  ec_fees :: decimal
  ec_slippage_est :: decimal
  ec_funding_cost :: decimal
  ec_gas_cost :: decimal
  ec_bridge_cost :: decimal
  ec_settlement_mismatch_discount :: decimal
  ec_liquidity_haircut :: decimal
  ec_staleness_penalty :: decimal
  ec_confidence_penalty :: decimal

definition edge_costs_zero :: edge_costs where
  "edge_costs_zero = \<lparr>ec_fees = 0, ec_slippage_est = 0, ec_funding_cost = 0, ec_gas_cost = 0,
     ec_bridge_cost = 0, ec_settlement_mismatch_discount = 0, ec_liquidity_haircut = 0,
     ec_staleness_penalty = 0, ec_confidence_penalty = 0\<rparr>"

text \<open>A chain of \<^verbatim>\<open>+\<close> from the left; \<open>None\<close> is the panic of an overflowing addition.\<close>

primrec dec_add_all :: "dec_ops \<Rightarrow> decimal \<Rightarrow> decimal list \<Rightarrow> decimal option" where
  "dec_add_all D acc [] = Some acc"
| "dec_add_all D acc (x # xs) = Option.bind (dec_add D acc x) (\<lambda>acc'. dec_add_all D acc' xs)"

definition edge_costs_sum :: "dec_ops \<Rightarrow> edge_costs \<Rightarrow> decimal option" where
  "edge_costs_sum D c =
     dec_add_all D (ec_fees c)
       [ec_slippage_est c, ec_funding_cost c, ec_gas_cost c, ec_bridge_cost c,
        ec_settlement_mismatch_discount c, ec_liquidity_haircut c, ec_staleness_penalty c,
        ec_confidence_penalty c]"

record edge_decomposition =
  ed_gross_spread :: decimal
  ed_fees :: decimal
  ed_slippage_est :: decimal
  ed_funding_cost :: decimal
  ed_gas_cost :: decimal
  ed_bridge_cost :: decimal
  ed_settlement_mismatch_discount :: decimal
  ed_liquidity_haircut :: decimal
  ed_staleness_penalty :: decimal
  ed_confidence_penalty :: decimal
  ed_net_edge :: decimal

datatype edge_error = SumLawViolation decimal decimal decimal

definition edge_validate :: "dec_ops \<Rightarrow> edge_decomposition \<Rightarrow> (edge_error + unit) option" where
  "edge_validate D e = do {
     costs_sum \<leftarrow> dec_add_all D (ed_fees e)
       [ed_slippage_est e, ed_funding_cost e, ed_gas_cost e, ed_bridge_cost e,
        ed_settlement_mismatch_discount e, ed_liquidity_haircut e, ed_staleness_penalty e,
        ed_confidence_penalty e];
     expected \<leftarrow> dec_sub D (ed_gross_spread e) costs_sum;
     Some (if ed_net_edge e \<noteq> expected
           then Inl (SumLawViolation (ed_gross_spread e) costs_sum (ed_net_edge e))
           else Inr ())
   }"

definition edge_compute :: "dec_ops \<Rightarrow> decimal \<Rightarrow> edge_costs \<Rightarrow> edge_decomposition option" where
  "edge_compute D gross c = do {
     costs_sum \<leftarrow> edge_costs_sum D c;
     net \<leftarrow> dec_sub D gross costs_sum;
     Some \<lparr>ed_gross_spread = gross, ed_fees = ec_fees c, ed_slippage_est = ec_slippage_est c,
       ed_funding_cost = ec_funding_cost c, ed_gas_cost = ec_gas_cost c,
       ed_bridge_cost = ec_bridge_cost c,
       ed_settlement_mismatch_discount = ec_settlement_mismatch_discount c,
       ed_liquidity_haircut = ec_liquidity_haircut c,
       ed_staleness_penalty = ec_staleness_penalty c,
       ed_confidence_penalty = ec_confidence_penalty c, ed_net_edge = net\<rparr>
   }"

text \<open>The wire form holds the eleven fields, and is rejected when they break the sum law.\<close>

definition edge_deserialize ::
  "dec_ops \<Rightarrow> edge_decomposition \<Rightarrow> (edge_error + edge_decomposition) option" where
  "edge_deserialize D w = map_option (\<lambda>r. and_then r (\<lambda>_. Inr w)) (edge_validate D w)"

subsection \<open>Error codes (error.rs)\<close>

datatype error_code =
    InvalidArgument | Unauthenticated | PermissionDenied | NotFound | FailedPrecondition
  | Unavailable | DeadlineExceeded | Quarantined | Internal

definition error_code_is_retryable :: "error_code \<Rightarrow> bool" where
  "error_code_is_retryable c \<longleftrightarrow> c = Unavailable \<or> c = DeadlineExceeded"

record error_envelope =
  ee_code :: error_code
  ee_message :: string
  ee_retryable :: bool
  ee_trace_id :: ulid
  ee_details :: "string option"

definition error_envelope_new :: "error_code \<Rightarrow> string \<Rightarrow> ulid \<Rightarrow> error_envelope" where
  "error_envelope_new c msg t =
     \<lparr>ee_code = c, ee_message = msg, ee_retryable = error_code_is_retryable c, ee_trace_id = t,
       ee_details = None\<rparr>"

definition error_envelope_with_details :: "error_envelope \<Rightarrow> string \<Rightarrow> error_envelope" where
  "error_envelope_with_details e d = e\<lparr>ee_details := Some d\<rparr>"

datatype envelope_error = RetryableContradicts bool error_code bool

definition error_envelope_deserialize :: "error_envelope \<Rightarrow> envelope_error + error_envelope" where
  "error_envelope_deserialize w =
     (let expected = error_code_is_retryable (ee_code w)
      in if ee_retryable w \<noteq> expected
         then Inl (RetryableContradicts (ee_retryable w) (ee_code w) expected)
         else Inr w)"

subsection \<open>Backoff (retry.rs)\<close>

text \<open>A \<^verbatim>\<open>Duration\<close> in nanoseconds, at most \<open>duration_max\<close>; attempts are \<^verbatim>\<open>u32\<close>. Both
  \<^verbatim>\<open>2u32.pow\<close> and \<^verbatim>\<open>Duration * u32\<close> panic on overflow (\<open>None\<close>; without overflow checks the
  power would wrap to \<open>0\<close> instead).\<close>

definition duration_max :: nat where
  "duration_max = (2 ^ 64 - 1) * 1000000000 + 999999999"

definition duration_millis :: "nat \<Rightarrow> nat" where
  "duration_millis ms = ms * 1000000"

record retry_policy =
  rp_base :: nat
  rp_cap :: nat
  rp_max_attempts :: nat

definition retry_policy_default :: retry_policy where
  "retry_policy_default =
     \<lparr>rp_base = duration_millis 200, rp_cap = duration_millis 30000, rp_max_attempts = 5\<rparr>"

definition backoff_for_attempt :: "retry_policy \<Rightarrow> nat \<Rightarrow> nat option" where
  "backoff_for_attempt p attempt =
     (let factor = 2 ^ (attempt - 1) :: nat
      in if factor \<ge> 2 ^ 32 then None
         else if rp_base p * factor > duration_max then None
         else Some (min (rp_base p * factor) (rp_cap p)))"

definition should_retry :: "retry_policy \<Rightarrow> nat \<Rightarrow> bool" where
  "should_retry p attempt \<longleftrightarrow> attempt \<le> rp_max_attempts p"

end
