(* ===== verification/Decimal_Instance.thy ===== *)
theory Decimal_Instance
  imports Rust_Decimal
begin

text \<open>
  A decimal arithmetic that satisfies the laws of \<open>decimal_arith\<close>: the exact result is rounded,
  half away from zero, at the largest scale (28 at most) at which its coefficient fits in 96
  bits. The interpretation at the end discharges the interface's laws.
\<close>

text \<open>Round to the nearest value of the largest scale at which the coefficient fits.\<close>

definition coeff :: "nat \<Rightarrow> rat \<Rightarrow> int" where
  "coeff e x = round (\<bar>x\<bar> * 10 ^ e)"

fun best_from :: "nat \<Rightarrow> rat \<Rightarrow> nat option" where
  "best_from 0 x = (if coeff 0 x < dec_bound then Some 0 else None)"
| "best_from (Suc e) x = (if coeff (Suc e) x < dec_bound then Some (Suc e) else best_from e x)"

definition dec_round :: "rat \<Rightarrow> decimal option" where
  "dec_round x = map_option (\<lambda>e. sgn x * of_int (coeff e x) / 10 ^ e) (best_from 28 x)"

definition dec_ref :: dec_ops where
  "dec_ref = \<lparr>dec_add = (\<lambda>a b. dec_round (a + b)), dec_sub = (\<lambda>a b. dec_round (a - b)),
     dec_mul = (\<lambda>a b. dec_round (a * b)),
     dec_div = (\<lambda>a b. if b = 0 then None else dec_round (a / b))\<rparr>"

lemma best_from_Some:
  "best_from n x = Some e \<Longrightarrow>
     e \<le> n \<and> coeff e x < dec_bound \<and> (\<forall>k. e < k \<longrightarrow> k \<le> n \<longrightarrow> dec_bound \<le> coeff k x)"
proof (induction n)
  case 0
  then show ?case by (simp split: if_splits)
next
  case (Suc n)
  show ?case
  proof (cases "coeff (Suc n) x < dec_bound")
    case True
    with Suc.prems show ?thesis by simp
  next
    case False
    with Suc.prems have "best_from n x = Some e" by simp
    with Suc.IH False show ?thesis by (metis le_SucE le_SucI not_less)
  qed
qed

lemma best_from_None: "best_from n x = None \<Longrightarrow> dec_bound \<le> coeff 0 x"
  by (induction n) (auto split: if_splits)

lemma round_ge_int: "of_int m \<le> y \<Longrightarrow> m \<le> round y" for y :: rat
  using round_mono [of "of_int m" y] by simp

lemma round_le_int: "y \<le> of_int m \<Longrightarrow> round y \<le> m" for y :: rat
  using round_mono [of y "of_int m"] by simp

text \<open>A value of any scale on one side of \<open>x \<ge> 0\<close> stays on that side of the rounded \<open>x\<close>.\<close>

lemma coarse_scale:
  assumes "\<bar>m\<bar> < dec_bound" "e < k" "dec_bound \<le> coeff (Suc e) x" "0 \<le> x"
  shows "of_int m / 10 ^ k < x" "of_int m / 10 ^ k \<le> of_int (coeff e x) / (10 ^ e :: rat)"
proof -
  have "of_int dec_bound \<le> (of_int (coeff (Suc e) x) :: rat)"
    using assms(3) by (simp only: of_int_le_iff)
  also have "\<dots> \<le> \<bar>x\<bar> * 10 ^ Suc e + 1 / 2"
    unfolding coeff_def by (rule of_int_round_le)
  finally have x: "(of_int dec_bound - 1 / 2) / 10 \<le> x * 10 ^ e"
    using assms(4) by simp
  have "of_int m / 10 ^ k \<le> of_int (dec_bound - 1) / (10 ^ k :: rat)"
    using assms(1) by (intro divide_right_mono) (simp_all flip: of_int_diff)
  also have "\<dots> \<le> of_int (dec_bound - 1) / 10 ^ Suc e"
    using assms(2) by (intro divide_left_mono power_increasing) (simp_all add: dec_bound_def)
  finally have m: "of_int m / 10 ^ k \<le> (of_int dec_bound - 1) / 10 / (10 ^ e :: rat)"
    by (simp add: mult.commute)
  also have "\<dots> < x" using x by (simp add: divide_less_eq dec_bound_def)
  finally show "of_int m / 10 ^ k < x" .
  have "of_int 7922816251426433759354395034 \<le> x * 10 ^ e + 1 / 2"
    using x unfolding dec_bound_def by simp
  then have "7922816251426433759354395034 \<le> \<lfloor>x * 10 ^ e + 1 / 2\<rfloor>"
    by (simp only: le_floor_iff)
  also have "\<dots> = coeff e x" using assms(4) by (simp only: coeff_def round_def abs_of_nonneg)
  finally have "(of_int 7922816251426433759354395034 :: rat) \<le> of_int (coeff e x)"
    by (simp only: of_int_le_iff)
  then have "(of_int dec_bound - 1) / 10 \<le> (of_int (coeff e x) :: rat)"
    unfolding dec_bound_def by simp
  then have "(of_int dec_bound - 1) / 10 / 10 ^ e \<le> of_int (coeff e x) / (10 ^ e :: rat)"
    by (intro divide_right_mono) simp_all
  with m show "of_int m / 10 ^ k \<le> of_int (coeff e x) / (10 ^ e :: rat)" by simp
qed

lemma coarse_scale_cases:
  assumes "best_from 28 x = Some e" "0 \<le> x" "k \<le> 28" "e < k" "\<bar>m\<bar> < dec_bound"
  shows "of_int m / 10 ^ k < x" "of_int m / 10 ^ k \<le> of_int (coeff e x) / (10 ^ e :: rat)"
proof -
  have "dec_bound \<le> coeff (Suc e) x"
    using best_from_Some [OF assms(1)] assms(3,4) by (meson Suc_leI le_trans lessI)
  from coarse_scale [OF assms(5,4) this assms(2)]
  show "of_int m / 10 ^ k < x" "of_int m / 10 ^ k \<le> of_int (coeff e x) / (10 ^ e :: rat)"
    by simp_all
qed

lemma fine_scale:
  assumes "k \<le> e" "0 \<le> x"
  shows "of_int m / 10 ^ k \<le> x \<Longrightarrow> of_int m / 10 ^ k \<le> of_int (coeff e x) / (10 ^ e :: rat)"
    and "x \<le> of_int m / 10 ^ k \<Longrightarrow> of_int (coeff e x) / 10 ^ e \<le> of_int m / (10 ^ k :: rat)"
proof -
  have y: "of_int m / 10 ^ k = of_int (m * 10 ^ (e - k)) / (10 ^ e :: rat)"
    using assms(1) by (simp add: field_simps flip: power_add)
  show "of_int m / 10 ^ k \<le> of_int (coeff e x) / (10 ^ e :: rat)" if "of_int m / 10 ^ k \<le> x"
  proof -
    have "of_int (m * 10 ^ (e - k)) \<le> x * 10 ^ e" using that unfolding y by (simp add: divide_le_eq)
    then have "m * 10 ^ (e - k) \<le> coeff e x" using assms(2) by (simp add: coeff_def round_ge_int)
    then show ?thesis unfolding y by (intro divide_right_mono) (simp_all only: of_int_le_iff, simp)
  qed
  show "of_int (coeff e x) / 10 ^ e \<le> of_int m / (10 ^ k :: rat)" if "x \<le> of_int m / 10 ^ k"
  proof -
    have "x * 10 ^ e \<le> of_int (m * 10 ^ (e - k))" using that unfolding y by (simp add: le_divide_eq)
    then have "coeff e x \<le> m * 10 ^ (e - k)" using assms(2) by (simp add: coeff_def round_le_int)
    then show ?thesis unfolding y by (intro divide_right_mono) (simp_all only: of_int_le_iff, simp)
  qed
qed

lemma coeff_nonneg: "0 \<le> coeff e x"
  using round_mono [of 0 "\<bar>x\<bar> * 10 ^ e"] by (simp add: coeff_def)

lemma sgn_coeff: "0 \<le> x \<Longrightarrow> sgn x * of_int (coeff e x) = (of_int (coeff e x) :: rat)"
  by (cases "x = 0") (simp_all add: coeff_def sgn_if)

lemma dec_round_nonneg:
  assumes "0 \<le> x"
  shows "rounds (dec_round x) x"
proof (cases "best_from 28 x")
  case None
  then have "dec_bound \<le> coeff 0 x" by (rule best_from_None)
  then have "of_int dec_bound \<le> (of_int (coeff 0 x) :: rat)" by (simp only: of_int_le_iff)
  also have "\<dots> \<le> \<bar>x\<bar> * 10 ^ 0 + 1 / 2" unfolding coeff_def by (rule of_int_round_le)
  finally show ?thesis using None by (simp add: dec_round_def rounds_def dec_max_def)
next
  case (Some e)
  define c where "c = of_int (coeff e x) / (10 ^ e :: rat)"
  have r: "dec_round x = Some c"
    using Some assms by (simp add: dec_round_def c_def sgn_coeff)
  have "\<bar>coeff e x\<bar> < dec_bound" using best_from_Some [OF Some] coeff_nonneg [of e x] by simp
  then have "is_decimal c"
    using best_from_Some [OF Some] by (intro fits_is_decimal [of e]) (auto simp: c_def fits_iff)
  moreover have "(y \<le> x \<longrightarrow> y \<le> c) \<and> (x \<le> y \<longrightarrow> c \<le> y)" if y: "is_decimal y" for y
  proof -
    from y obtain k m where k: "k \<le> 28" "\<bar>m\<bar> < dec_bound" "y = of_int m / 10 ^ k"
      by (auto simp: is_decimal_iff fits_iff)
    show ?thesis
    proof (cases "k \<le> e")
      case True
      from fine_scale [OF this assms, of m] show ?thesis by (simp add: c_def k(3))
    next
      case False
      then have "e < k" by simp
      from coarse_scale_cases [OF Some assms k(1) this k(2)] show ?thesis
        by (auto simp: c_def k(3))
    qed
  qed
  ultimately show ?thesis by (simp add: r rounds_def)
qed

lemma rounds_uminus: "rounds r x \<Longrightarrow> rounds (map_option uminus r) (- x)"
proof (cases r)
  case (Some c)
  moreover assume "rounds r x"
  ultimately have c: "is_decimal c"
    and b: "\<And>y. is_decimal y \<Longrightarrow> (y \<le> x \<longrightarrow> y \<le> c) \<and> (x \<le> y \<longrightarrow> c \<le> y)"
    by (auto simp: rounds_def)
  have "(y \<le> - x \<longrightarrow> y \<le> - c) \<and> (- x \<le> y \<longrightarrow> - c \<le> y)" if "is_decimal y" for y
    using b [of "- y"] that by auto
  with c Some show ?thesis by (simp add: rounds_def)
qed (simp add: rounds_def)

lemma best_from_uminus: "best_from n (- x) = best_from n x"
  by (induction n) (simp_all add: coeff_def)

lemma dec_round_uminus: "dec_round (- x) = map_option uminus (dec_round x)"
  by (cases "best_from 28 x") (simp_all add: dec_round_def best_from_uminus coeff_def sgn_minus)

lemma dec_round_rounds: "rounds (dec_round x) x"
proof (cases "0 \<le> x")
  case True
  then show ?thesis by (rule dec_round_nonneg)
next
  case False
  then have "rounds (dec_round (- x)) (- x)" by (intro dec_round_nonneg) simp
  then have "rounds (map_option uminus (dec_round (- x))) (- (- x))" by (rule rounds_uminus)
  then show ?thesis by (simp add: dec_round_uminus [of x] option.map_comp o_def option.map_ident)
qed

interpretation dec_ref: decimal_arith dec_ref
  by unfold_locales (simp_all add: dec_ref_def dec_round_rounds)

text \<open>Evaluation on exactly representable results, for concrete numbers.\<close>

lemma dec_round_exact: "is_decimal x \<Longrightarrow> dec_round x = Some x"
  by (rule rounds_exact [OF dec_round_rounds])

subsection \<open>Exact arithmetic\<close>

text \<open>The arithmetic without bounds or rounding, in which the bookkeeping can be judged.\<close>

definition dec_exact :: dec_ops where
  "dec_exact = \<lparr>dec_add = (\<lambda>a b. Some (a + b)), dec_sub = (\<lambda>a b. Some (a - b)),
     dec_mul = (\<lambda>a b. Some (a * b)), dec_div = (\<lambda>a b. if b = 0 then None else Some (a / b))\<rparr>"

lemma dec_exact_sel [simp]:
  "dec_add dec_exact a b = Some (a + b)" "dec_sub dec_exact a b = Some (a - b)"
  "dec_mul dec_exact a b = Some (a * b)"
  "dec_div dec_exact a b = (if b = 0 then None else Some (a / b))"
  by (simp_all add: dec_exact_def)

end
