(* ===== verification/Fill_Model.thy ===== *)
theory Fill_Model
  imports Core_Orders Decimal_Instance
begin

text \<open>
  The fill model shared by the paper ledger and the simulator (\<^verbatim>\<open>crates/aether-fillmodel\<close>):
  its configuration (\<^verbatim>\<open>config.rs\<close>) and the walk over an order book (\<^verbatim>\<open>walk.rs\<close>). The text of
  times and decimals, which only goes into the venue reference of a fill, is an argument. The
  lemmas show that fills conserve the size asked for, respect the limit, and never improve on
  the best visible price.
\<close>

subsection \<open>Configuration (config.rs)\<close>

datatype aggressiveness = PassiveAtTouch | CrossToDepth

record fill_config =
  fc_aggressiveness :: aggressiveness
  fc_depth_exhaustion_multiplier :: decimal
  fc_fee_rate :: decimal
  fc_fee_currency :: string

definition fill_config_default :: fill_config where
  "fill_config_default =
     \<lparr>fc_aggressiveness = CrossToDepth, fc_depth_exhaustion_multiplier = 105 / 100,
       fc_fee_rate = 1 / 1000, fc_fee_currency = ''USDC''\<rparr>"

definition fill_config_passive :: fill_config where
  "fill_config_passive = fill_config_default\<lparr>fc_aggressiveness := PassiveAtTouch\<rparr>"

text \<open>\<^verbatim>\<open>trim().is_empty()\<close>, for the white space of ASCII.\<close>

definition is_blank :: "string \<Rightarrow> bool" where
  "is_blank s \<longleftrightarrow> list_all (\<lambda>c. let n = of_char c :: nat in n = 32 \<or> 9 \<le> n \<and> n \<le> 13) s"

definition fill_config_validate :: "fill_config \<Rightarrow> string + unit" where
  "fill_config_validate c =
     (if fc_depth_exhaustion_multiplier c < 1
      then Inl ''depth exhaustion multiplier must be at least 1''
      else if fc_fee_rate c < 0 then Inl ''fee rate cannot be negative''
      else if is_blank (fc_fee_currency c) then Inl ''fee currency cannot be empty''
      else Inr ())"

subsection \<open>Walking the book (walk.rs)\<close>

datatype fill_error =
    NoLiquidity string side
  | InsufficientDepth string decimal decimal
  | LimitViolation decimal decimal
  | MarketMismatch string string
  | InvalidInput string
  | ArithmeticOverflow string

record render =
  rn_ts :: "utc_time \<Rightarrow> string"
  rn_dec :: "decimal \<Rightarrow> string"

fun takes_asks :: "side \<Rightarrow> bool" where
  "takes_asks Buy = True"
| "takes_asks BuyNo = True"
| "takes_asks Sell = False"
| "takes_asks SellNo = False"

definition book_side :: "order_book \<Rightarrow> side \<Rightarrow> book_level list" where
  "book_side b s = (if takes_asks s then ob_asks b else ob_bids b)"

text \<open>The limit check of a price: the violation, if there is one.\<close>

definition check_limit ::
  "order_intent \<Rightarrow> decimal \<Rightarrow> fill_error + (decimal \<times> decimal) option" where
  "check_limit it price =
     (if oi_order_type it = Limit
      then (case oi_limit_price it of
              None \<Rightarrow> Inl (InvalidInput ''limit order requires limit_price'')
            | Some limit \<Rightarrow>
                Inr (if (if takes_asks (oi_side it) then price > limit else price < limit)
                     then Some (limit, price) else None))
      else Inr None)"

definition json_or_default :: "json \<Rightarrow> json" where
  "json_or_default v = (case json_object_new v of Inl _ \<Rightarrow> json_object_default | Inr j \<Rightarrow> j)"

definition visible_ref :: "render \<Rightarrow> order_book \<Rightarrow> json" where
  "visible_ref R b = json_or_default (JObject
     [(''market'', JString (key_str (ob_market b))), (''book_ts'', JString (rn_ts R (ob_ts b)))])"

definition exhausted_ref :: "render \<Rightarrow> order_book \<Rightarrow> fill_config \<Rightarrow> json" where
  "exhausted_ref R b cfg = json_or_default (JObject
     [(''market'', JString (key_str (ob_market b))), (''book_ts'', JString (rn_ts R (ob_ts b))),
      (''depth_exhausted'', JBool True),
      (''exhaustion_multiplier'', JString (rn_dec R (fc_depth_exhaustion_multiplier cfg)))])"

definition mk_fill ::
  "order_book \<Rightarrow> order_intent \<Rightarrow> fill_config \<Rightarrow> decimal \<Rightarrow> decimal \<Rightarrow> decimal \<Rightarrow> json \<Rightarrow> fill" where
  "mk_fill b it cfg price sz fee ref =
     \<lparr>f_order_id = oi_id it, f_market = oi_market it, f_side = oi_side it, f_price = price,
       f_size = sz, f_fee = money_new fee (fc_fee_currency cfg), f_venue_ref = ref,
       f_ts = ob_ts b, f_paper = oi_paper it\<rparr>"

text \<open>The loop over the levels: the fills so far, the remaining size, and the first violation of
  the limit, at which it stops.\<close>

fun walk_levels ::
  "dec_ops \<Rightarrow> render \<Rightarrow> order_book \<Rightarrow> order_intent \<Rightarrow> fill_config \<Rightarrow> book_level list \<Rightarrow> fill list
     \<Rightarrow> decimal \<Rightarrow> fill_error + fill list \<times> decimal \<times> (decimal \<times> decimal) option" where
  "walk_levels D R b it cfg [] fills remaining = Inr (fills, remaining, None)"
| "walk_levels D R b it cfg (level # levels) fills remaining =
     (if remaining \<le> 0 then Inr (fills, remaining, None)
      else if fc_aggressiveness cfg = PassiveAtTouch \<and> fills \<noteq> []
      then Inr (fills, remaining, None)
      else if lv_price level \<le> 0 \<or> lv_size level \<le> 0
      then Inl (InvalidInput ''book levels must have positive price and size'')
      else and_then (check_limit it (lv_price level)) (\<lambda>violation.
        case violation of
          Some v \<Rightarrow> Inr (fills, remaining, Some v)
        | None \<Rightarrow>
            (let fill_size = min remaining (lv_size level) in
             if fill_size \<le> 0 then walk_levels D R b it cfg levels fills remaining
             else
               and_then (ok_or (ArithmeticOverflow ''visible fill notional'')
                   (dec_mul D (lv_price level) fill_size)) (\<lambda>notional.
               and_then (ok_or (ArithmeticOverflow ''visible fill fee'')
                   (dec_mul D (fc_fee_rate cfg) notional)) (\<lambda>fee.
               and_then (ok_or (ArithmeticOverflow ''remaining size'')
                   (dec_sub D remaining fill_size)) (\<lambda>rest.
               walk_levels D R b it cfg levels
                 (fills @ [mk_fill b it cfg (lv_price level) fill_size fee (visible_ref R b)])
                 rest))))))"

definition exhaustion_price ::
  "dec_ops \<Rightarrow> order_intent \<Rightarrow> fill_config \<Rightarrow> decimal \<Rightarrow> fill_error + decimal" where
  "exhaustion_price D it cfg base =
     (if takes_asks (oi_side it)
      then ok_or (ArithmeticOverflow ''buy exhaustion price'')
             (dec_mul D base (fc_depth_exhaustion_multiplier cfg))
      else ok_or (ArithmeticOverflow ''sell exhaustion price'')
             (dec_div D base (fc_depth_exhaustion_multiplier cfg)))"

text \<open>The size beyond the visible depth, at a price worse than the last level's.\<close>

definition walk_exhausted ::
  "dec_ops \<Rightarrow> render \<Rightarrow> order_book \<Rightarrow> order_intent \<Rightarrow> fill_config \<Rightarrow> decimal \<Rightarrow> fill list \<Rightarrow> decimal
     \<Rightarrow> fill_error + fill list \<times> (decimal \<times> decimal) option" where
  "walk_exhausted D R b it cfg base fills remaining =
     and_then (exhaustion_price D it cfg base) (\<lambda>price.
     and_then (check_limit it price) (\<lambda>violation.
       case violation of
         Some v \<Rightarrow> Inr (fills, Some v)
       | None \<Rightarrow>
           and_then (ok_or (ArithmeticOverflow ''exhausted fill notional'')
               (dec_mul D price remaining)) (\<lambda>notional.
           and_then (ok_or (ArithmeticOverflow ''exhausted fill fee'')
               (dec_mul D (fc_fee_rate cfg) notional)) (\<lambda>fee.
           Inr (fills @ [mk_fill b it cfg price remaining fee (exhausted_ref R b cfg)], None)))))"

text \<open>A limit violated before anything was filled is an error, as is an empty result.\<close>

definition finish_fills ::
  "order_intent \<Rightarrow> fill list \<times> (decimal \<times> decimal) option \<Rightarrow> fill_error + fill list" where
  "finish_fills it = (\<lambda>(fills, violation).
     if fills = []
     then (case violation of
             Some (limit, price) \<Rightarrow> Inl (LimitViolation limit price)
           | None \<Rightarrow> Inl (InsufficientDepth (key_str (oi_market it)) 0 (oi_size it)))
     else Inr fills)"

definition walk_book ::
  "dec_ops \<Rightarrow> render \<Rightarrow> order_book \<Rightarrow> order_intent \<Rightarrow> fill_config \<Rightarrow> fill_error + fill list" where
  "walk_book D R b it cfg =
     and_then (map_err InvalidInput (fill_config_validate cfg)) (\<lambda>_.
     if ob_market b \<noteq> oi_market it
     then Inl (MarketMismatch (key_str (ob_market b)) (key_str (oi_market it)))
     else if oi_size it \<le> 0 then Inl (InvalidInput ''intent size must be positive'')
     else let levels = book_side b (oi_side it) in
       if levels = [] then Inl (NoLiquidity (key_str (oi_market it)) (oi_side it))
       else
         and_then (walk_levels D R b it cfg levels [] (oi_size it)) (\<lambda>(fills, remaining, violation).
         and_then
           (if 0 < remaining \<and> violation = None \<and> fc_aggressiveness cfg = CrossToDepth
            then walk_exhausted D R b it cfg (lv_price (last levels)) fills remaining
            else Inr (fills, violation))
           (finish_fills it)))"

subsection \<open>Invariants of the walk\<close>

lemma mk_fill_sel [simp]:
  "f_price (mk_fill b it cfg p s fee ref) = p" "f_size (mk_fill b it cfg p s fee ref) = s"
  "f_side (mk_fill b it cfg p s fee ref) = oi_side it"
  "f_market (mk_fill b it cfg p s fee ref) = oi_market it"
  by (simp_all add: mk_fill_def)

definition within_limit :: "order_intent \<Rightarrow> decimal \<Rightarrow> bool" where
  "within_limit it p \<longleftrightarrow> (oi_order_type it = Limit \<longrightarrow>
     (\<exists>l. oi_limit_price it = Some l \<and> (if takes_asks (oi_side it) then p \<le> l else l \<le> p)))"

lemma check_limit_None: "check_limit it p = Inr None \<longleftrightarrow> within_limit it p"
  by (auto simp: check_limit_def within_limit_def split: option.splits)

text \<open>The fills made so far are positive, at the price of a level and within the limit, and with
  the remaining size they make up the size at the start of the loop.\<close>

definition good_fills :: "order_intent \<Rightarrow> book_level list \<Rightarrow> fill list \<Rightarrow> bool" where
  "good_fills it levels fills \<longleftrightarrow>
     (\<forall>f \<in> set fills. 0 < f_size f \<and> 0 < f_price f \<and> within_limit it (f_price f)
        \<and> f_price f \<in> lv_price ` set levels)"

lemma walk_levels_ConsE:
  assumes "walk_levels D R b it cfg (l # ls) fills r = Inr (fills', r', v)"
  obtains (stop) "fills' = fills" "r' = r" "v = None"
      "r \<le> 0 \<or> fc_aggressiveness cfg = PassiveAtTouch \<and> fills \<noteq> []"
    | (limit) w where "fills' = fills" "r' = r" "v = Some w" "0 < r"
      "check_limit it (lv_price l) = Inr (Some w)"
    | (fill) fee rest where "0 < r" "fc_aggressiveness cfg = CrossToDepth \<or> fills = []"
      "0 < lv_price l" "0 < lv_size l" "within_limit it (lv_price l)"
      "dec_sub D r (min r (lv_size l)) = Some rest"
      "walk_levels D R b it cfg ls
         (fills @ [mk_fill b it cfg (lv_price l) (min r (lv_size l)) fee (visible_ref R b)]) rest
         = Inr (fills', r', v)"
proof (cases "r \<le> 0 \<or> fc_aggressiveness cfg = PassiveAtTouch \<and> fills \<noteq> []")
  case True
  with assms show thesis by (intro stop) (auto split: if_splits)
next
  case False
  then have r: "0 < r" "fc_aggressiveness cfg = CrossToDepth \<or> fills = []"
    by (cases "fc_aggressiveness cfg"; auto)+
  from assms False have pos: "0 < lv_price l" "0 < lv_size l" by (auto split: if_splits)
  from assms False pos obtain w where w: "check_limit it (lv_price l) = Inr w"
    by (auto simp: and_then_Inr_iff split: if_splits)
  show thesis
  proof (cases w)
    case (Some x)
    with w assms False pos show thesis by (intro limit [of x]) (auto simp: r)
  next
    case None
    with w have wl: "within_limit it (lv_price l)" by (simp add: check_limit_None)
    have "\<not> min r (lv_size l) \<le> 0" using r pos by simp
    with w None assms False pos obtain fee rest where
      "dec_sub D r (min r (lv_size l)) = Some rest"
      "walk_levels D R b it cfg ls
         (fills @ [mk_fill b it cfg (lv_price l) (min r (lv_size l)) fee (visible_ref R b)]) rest
         = Inr (fills', r', v)"
      by (auto simp: and_then_Inr_iff ok_or_Inr_iff Let_def)
    then show thesis by (rule fill [OF r pos wl])
  qed
qed

lemma walk_levels_good:
  "walk_levels D R b it cfg ls fills r = Inr (fills', r', v) \<Longrightarrow> good_fills it ls0 fills
     \<Longrightarrow> set ls \<subseteq> set ls0 \<Longrightarrow> good_fills it ls0 fills'"
proof (induction ls arbitrary: fills r)
  case (Cons l ls)
  from Cons.prems(1) show ?case
  proof (cases rule: walk_levels_ConsE)
    case (fill fee rest)
    let ?f = "mk_fill b it cfg (lv_price l) (min r (lv_size l)) fee (visible_ref R b)"
    have "good_fills it ls0 (fills @ [?f])"
      using Cons.prems(2,3) fill by (auto simp: good_fills_def)
    with fill(7) Cons.prems(3) show ?thesis by (intro Cons.IH) auto
  qed (use Cons.prems in auto)
qed simp

text \<open>Sizes of one scale: the subtractions are exact, and nothing is lost or made up.\<close>

definition sizes_fit :: "nat \<Rightarrow> order_intent \<Rightarrow> book_level list \<Rightarrow> bool" where
  "sizes_fit e it levels \<longleftrightarrow> e \<le> 28 \<and> fits e (oi_size it) \<and> (\<forall>l \<in> set levels. fits e (lv_size l))"

definition filled :: "fill list \<Rightarrow> decimal" where
  "filled fills = sum_list (map f_size fills)"

lemma filled_simps [simp]: "filled [] = 0" "filled (xs @ [f]) = filled xs + f_size f"
  by (simp_all add: filled_def)

context decimal_arith
begin

lemma walk_levels_conserves:
  "walk_levels D R b it cfg ls fills r = Inr (fills', r', v) \<Longrightarrow> fits e r \<Longrightarrow> 0 \<le> r \<Longrightarrow> e \<le> 28
     \<Longrightarrow> \<forall>l \<in> set ls. fits e (lv_size l)
     \<Longrightarrow> filled fills' + r' = filled fills + r \<and> 0 \<le> r' \<and> fits e r'"
proof (induction ls arbitrary: fills r)
  case (Cons l ls)
  from Cons.prems(1) show ?case
  proof (cases rule: walk_levels_ConsE)
    case (fill fee rest)
    have fm: "fits e (min r (lv_size l))" using Cons.prems(2,5) by (simp add: fits_min)
    then have fd: "fits e (r - min r (lv_size l))"
      using Cons.prems(2) fill(1,4) by (intro fits_diff) auto
    have "dec_sub D r (min r (lv_size l)) = Some (r - min r (lv_size l))"
      using Cons.prems(2,4) fm fd by (intro sub_exact) (auto intro: fits_is_decimal)
    with fill(6) have "rest = r - min r (lv_size l)" by simp
    with Cons.IH [OF fill(7)] fd Cons.prems(4,5) show ?thesis by simp
  qed (use Cons.prems in auto)
qed simp

end

lemma walk_levels_progress:
  "walk_levels D R b it cfg ls fills r = Inr (fills', r', v) \<Longrightarrow> ls \<noteq> [] \<Longrightarrow> 0 < r
     \<Longrightarrow> fills' \<noteq> [] \<or> v \<noteq> None"
proof -
  have keep: "walk_levels D R b it cfg ls fills r = Inr (fills', r', v) \<Longrightarrow> fills \<noteq> [] \<Longrightarrow> fills' \<noteq> []"
    for ls fills r
  proof (induction ls arbitrary: fills r)
    case (Cons l ls)
    from Cons.prems(1) show ?case
      by (cases rule: walk_levels_ConsE) (use Cons in auto)
  qed simp
  assume w: "walk_levels D R b it cfg ls fills r = Inr (fills', r', v)" and "ls \<noteq> []" "0 < r"
  then obtain l ls' where "ls = l # ls'" by (cases ls) auto
  with w have "walk_levels D R b it cfg (l # ls') fills r = Inr (fills', r', v)" by simp
  then show ?thesis
  proof (cases rule: walk_levels_ConsE)
    case (fill fee rest)
    from keep [OF fill(7)] show ?thesis by simp
  qed (use \<open>0 < r\<close> keep [OF w] in auto)
qed

lemma walk_levels_no_violation:
  "oi_order_type it = Market \<Longrightarrow> walk_levels D R b it cfg ls fills r = Inr (fills', r', v) \<Longrightarrow> v = None"
proof (induction ls arbitrary: fills r)
  case (Cons l ls)
  from Cons.prems(2) show ?case
    by (cases rule: walk_levels_ConsE) (use Cons in \<open>auto simp: check_limit_def\<close>)
qed simp

lemma walk_exhausted_Inr:
  assumes "walk_exhausted D R b it cfg base fills r = Inr (fs, v)"
  shows "fs = fills \<and> v \<noteq> None \<or>
    (\<exists>price fee. fs = fills @ [mk_fill b it cfg price r fee (exhausted_ref R b cfg)] \<and> v = None
      \<and> within_limit it price \<and> exhaustion_price D it cfg base = Inr price)"
proof -
  from assms obtain price w where p: "exhaustion_price D it cfg base = Inr price"
    and w: "check_limit it price = Inr w"
    by (auto simp: walk_exhausted_def and_then_Inr_iff)
  show ?thesis
  proof (cases w)
    case None
    then have "within_limit it price" using w by (simp add: check_limit_None)
    with assms p w None show ?thesis
      by (auto simp: walk_exhausted_def and_then_Inr_iff ok_or_Inr_iff)
  next
    case (Some x)
    with assms p w show ?thesis by (auto simp: walk_exhausted_def)
  qed
qed

lemma finish_fills_Inr: "finish_fills it (fs, v) = Inr f \<longleftrightarrow> f = fs \<and> fs \<noteq> []"
  by (auto simp: finish_fills_def split: option.splits)

lemma walk_book_eq:
  assumes "fill_config_validate cfg = Inr ()" "ob_market b = oi_market it" "0 < oi_size it"
    and "book_side b (oi_side it) \<noteq> []"
  shows "walk_book D R b it cfg =
      and_then (walk_levels D R b it cfg (book_side b (oi_side it)) [] (oi_size it)) (\<lambda>(fs, r, x).
        and_then (if 0 < r \<and> x = None \<and> fc_aggressiveness cfg = CrossToDepth
          then walk_exhausted D R b it cfg (lv_price (last (book_side b (oi_side it)))) fs r
          else Inr (fs, x))
        (finish_fills it))"
  using assms by (simp add: walk_book_def Let_def)

text \<open>How a walk succeeds: the loop over the levels, then possibly one extrapolated fill.\<close>

lemma walk_book_InrE:
  assumes "walk_book D R b it cfg = Inr fills"
  obtains (visible) r v where "fill_config_validate cfg = Inr ()" "0 < oi_size it"
      "walk_levels D R b it cfg (book_side b (oi_side it)) [] (oi_size it) = Inr (fills, r, v)"
      "r \<le> 0 \<or> v \<noteq> None \<or> fc_aggressiveness cfg = PassiveAtTouch" "fills \<noteq> []"
    | (exhausted_limit) r where "fill_config_validate cfg = Inr ()" "0 < oi_size it"
      "walk_levels D R b it cfg (book_side b (oi_side it)) [] (oi_size it) = Inr (fills, r, None)"
      "oi_order_type it = Limit" "fills \<noteq> []"
    | (exhausted) fs r price fee where "fill_config_validate cfg = Inr ()" "0 < oi_size it"
      "walk_levels D R b it cfg (book_side b (oi_side it)) [] (oi_size it) = Inr (fs, r, None)"
      "0 < r" "fc_aggressiveness cfg = CrossToDepth"
      "fills = fs @ [mk_fill b it cfg price r fee (exhausted_ref R b cfg)]"
      "within_limit it price"
      "exhaustion_price D it cfg (lv_price (last (book_side b (oi_side it)))) = Inr price"
      "book_side b (oi_side it) \<noteq> []"
proof -
  let ?ls = "book_side b (oi_side it)"
  obtain u where v0: "fill_config_validate cfg = Inr u"
    using assms by (cases "fill_config_validate cfg") (simp_all add: walk_book_def)
  then have v: "fill_config_validate cfg = Inr ()" by simp
  have m: "ob_market b = oi_market it" and s: "0 < oi_size it" and ne: "?ls \<noteq> []"
    using assms v by (auto simp: walk_book_def Let_def split: if_splits)
  have "and_then (walk_levels D R b it cfg ?ls [] (oi_size it)) (\<lambda>(fs, r, x).
      and_then (if 0 < r \<and> x = None \<and> fc_aggressiveness cfg = CrossToDepth
        then walk_exhausted D R b it cfg (lv_price (last ?ls)) fs r else Inr (fs, x))
      (finish_fills it)) = Inr fills"
    using assms unfolding walk_book_eq [OF v m s ne] .
  then obtain y where y: "walk_levels D R b it cfg ?ls [] (oi_size it) = Inr y"
    "(\<lambda>(fs, r, x).
      and_then (if 0 < r \<and> x = None \<and> fc_aggressiveness cfg = CrossToDepth
        then walk_exhausted D R b it cfg (lv_price (last ?ls)) fs r else Inr (fs, x))
      (finish_fills it)) y = Inr fills"
    by (rule and_then_Inr_iff [THEN iffD1, THEN exE]) blast
  obtain fs r x where "y = (fs, r, x)" by (cases y)
  with y have wl: "walk_levels D R b it cfg ?ls [] (oi_size it) = Inr (fs, r, x)"
    and rest: "and_then (if 0 < r \<and> x = None \<and> fc_aggressiveness cfg = CrossToDepth
        then walk_exhausted D R b it cfg (lv_price (last ?ls)) fs r else Inr (fs, x))
      (finish_fills it) = Inr fills"
    by (simp_all only: prod.case)
  show thesis
  proof (cases "0 < r \<and> x = None \<and> fc_aggressiveness cfg = CrossToDepth")
    case False
    with rest have "finish_fills it (fs, x) = Inr fills" by (simp only: if_False and_then_simps)
    then have "fills = fs" "fills \<noteq> []" by (simp_all add: finish_fills_Inr)
    moreover have "r \<le> 0 \<or> x \<noteq> None \<or> fc_aggressiveness cfg = PassiveAtTouch"
      using False by (cases "fc_aggressiveness cfg") auto
    ultimately show thesis using v s wl by (intro visible [of r x]) simp_all
  next
    case True
    with rest obtain fs' v' where ex: "walk_exhausted D R b it cfg (lv_price (last ?ls)) fs r = Inr (fs', v')"
      and f: "fills = fs'" "fs' \<noteq> []"
      by (simp only: if_True simp_thms) (auto simp: and_then_Inr_iff finish_fills_Inr)
    from walk_exhausted_Inr [OF ex] consider
        (lim) "fs' = fs" "v' \<noteq> None"
      | (price) price fee where "fs' = fs @ [mk_fill b it cfg price r fee (exhausted_ref R b cfg)]"
          "within_limit it price" "exhaustion_price D it cfg (lv_price (last ?ls)) = Inr price"
      by auto
    then show thesis
    proof cases
      case lim
      have "oi_order_type it = Limit"
      proof (rule ccontr)
        assume "oi_order_type it \<noteq> Limit"
        then have "check_limit it p = Inr None" for p by (simp add: check_limit_def)
        with ex lim(2) show False by (auto simp: walk_exhausted_def and_then_Inr_iff)
      qed
      with True wl lim f v s show thesis by (intro exhausted_limit) auto
    next
      case price
      with True wl f v s ne show thesis by (intro exhausted) auto
    qed
  qed
qed

text \<open>
  Property C24. Conservation: for sizes of one scale, a successful walk makes at least one fill,
  every fill has a positive size, together they fill no more than the size asked for, and a
  market order that crosses to depth is filled exactly, neither less nor more.
\<close>

theorem walk_book_conserves:
  assumes "decimal_arith D" "sizes_fit e it (book_side b (oi_side it))"
    and "walk_book D R b it cfg = Inr fills"
  shows "fills \<noteq> [] \<and> (\<forall>f \<in> set fills. 0 < f_size f) \<and> filled fills \<le> oi_size it
    \<and> (oi_order_type it = Market \<and> fc_aggressiveness cfg = CrossToDepth \<longrightarrow> filled fills = oi_size it)"
proof -
  note cons = decimal_arith.walk_levels_conserves [OF assms(1), where e = e]
  let ?ls = "book_side b (oi_side it)"
  have fit: "fits e (oi_size it)" "e \<le> 28" "\<forall>l \<in> set ?ls. fits e (lv_size l)"
    using assms(2) by (simp_all add: sizes_fit_def)
  have good: "good_fills it ?ls fs"
    if "walk_levels D R b it cfg ?ls [] (oi_size it) = Inr (fs, r, v)" for fs r v
    using walk_levels_good [OF that, of ?ls] by (simp add: good_fills_def)
  from assms(3) show ?thesis
  proof (cases rule: walk_book_InrE)
    case (visible r v)
    with cons [OF visible(3) fit(1) _ fit(2,3)] good [OF visible(3)]
      walk_levels_no_violation [OF _ visible(3)]
    show ?thesis by (auto simp: good_fills_def)
  next
    case (exhausted_limit r)
    with cons [OF exhausted_limit(3) fit(1) _ fit(2,3)] good [OF exhausted_limit(3)]
    show ?thesis by (auto simp: good_fills_def)
  next
    case (exhausted fs r price fee)
    with cons [OF exhausted(3) fit(1) _ fit(2,3)] good [OF exhausted(3)]
    show ?thesis by (auto simp: good_fills_def)
  qed
qed

definition wit_quote :: quote where
  "wit_quote = \<lparr>q_market = MarketKey ''v:m'', q_bid = Some (48/100), q_ask = Some (1/2),
     q_mid = None, q_last = None, q_bid_size = None, q_ask_size = None, q_ts = 0,
     q_source = Stream, q_seq = None\<rparr>"

definition wit_intent :: order_intent where
  "wit_intent = \<lparr>oi_id = 1, oi_market = MarketKey ''v:m'', oi_side = Buy, oi_order_type = Market,
     oi_limit_price = None, oi_size = 15, oi_size_unit = Contracts, oi_tif = Ioc, oi_paper = True,
     oi_origin = \<lparr>or_kind = OriginHuman, or_tier = 3, or_actor_id = 7\<rparr>,
     oi_quote_snapshot = wit_quote, oi_caps_version = 1, oi_created_ts = 0\<rparr>"

definition wit_book :: order_book where
  "wit_book = \<lparr>ob_market = MarketKey ''v:m'', ob_bids = [],
     ob_asks = [\<lparr>lv_price = 1/2, lv_size = 10\<rparr>, \<lparr>lv_price = 3/5, lv_size = 20\<rparr>],
     ob_depth = 2, ob_ts = 0, ob_seq = None\<rparr>"

definition wit_render :: render where
  "wit_render = \<lparr>rn_ts = (\<lambda>_. []), rn_dec = (\<lambda>_. [])\<rparr>"

lemma wit_is_decimal: "is_decimal (1 / 2)" "is_decimal (3 / 5)" "is_decimal (1 / 1000)"
    "is_decimal (1 / 200)" "is_decimal (3 / 1000)" "is_decimal (21 / 20)"
  by (rule is_decimalI [where e = 1 and m = 5] is_decimalI [where e = 1 and m = 6]
      is_decimalI [where e = 3 and m = 1] is_decimalI [where e = 3 and m = 5]
      is_decimalI [where e = 3 and m = 3] is_decimalI [where e = 2 and m = 105];
      simp add: dec_bound_def)+

lemma wit_walk: "\<exists>fills. walk_book dec_ref wit_render wit_book wit_intent fill_config_default = Inr fills"
proof -
  have d: "is_decimal 5" "is_decimal 10" "is_decimal 15" "is_decimal 3"
    by (simp_all add: is_decimal_numeral dec_bound_def)
  show ?thesis
    by (simp add: walk_book_def fill_config_validate_def fill_config_default_def is_blank_def
        wit_book_def wit_intent_def book_side_def check_limit_def Let_def dec_ref_def
        dec_round_exact d wit_is_decimal finish_fills_def)
qed

theorem walk_book_conserves_witness:
  "\<exists>fills. walk_book dec_ref wit_render wit_book wit_intent fill_config_default = Inr fills
     \<and> filled fills = 15"
proof -
  obtain fills where f: "walk_book dec_ref wit_render wit_book wit_intent fill_config_default = Inr fills"
    using wit_walk by blast
  have "sizes_fit 0 wit_intent (book_side wit_book (oi_side wit_intent))"
    by (simp add: sizes_fit_def wit_intent_def wit_book_def book_side_def fits_def dec_bound_def)
  from walk_book_conserves [OF dec_ref.decimal_arith_axioms this f] f show ?thesis
    by (auto simp: wit_intent_def fill_config_default_def)
qed

subsection \<open>No price improvement\<close>

lemma walk_levels_positive:
  "walk_levels D R b it cfg ls fills r = Inr (fills', r', None) \<Longrightarrow> 0 < r'
     \<Longrightarrow> fc_aggressiveness cfg = CrossToDepth \<Longrightarrow> \<forall>l \<in> set ls. 0 < lv_price l"
proof (induction ls arbitrary: fills r)
  case (Cons l ls)
  from Cons.prems(1) show ?case
    by (cases rule: walk_levels_ConsE) (use Cons in auto)
qed simp

definition no_better :: "side \<Rightarrow> decimal \<Rightarrow> decimal \<Rightarrow> bool" where
  "no_better s best p \<longleftrightarrow> (if takes_asks s then best \<le> p else p \<le> best)"

lemma order_book_new_sorted:
  assumes "order_book_new m bids asks dp ts sq = Inr b" "l \<in> set (book_side b s)"
  shows "no_better s (lv_price (hd (book_side b s))) (lv_price l)"
proof -
  from assms(1) have b: "ob_bids b = bids" "ob_asks b = asks"
    and "successively (\<lambda>a b. lv_price b < lv_price a) bids"
    and asc: "successively (\<lambda>a b. lv_price a < lv_price b) asks"
    by (auto simp: order_book_new_def not_le split: if_splits)
  then have "successively (\<lambda>a b. - lv_price a < - lv_price b) bids" by simp
  then have "sorted_wrt (<) (map (\<lambda>l. - lv_price l) bids)" by (simp only: successively_strict)
  moreover from asc have "sorted_wrt (<) (map lv_price asks)" by (simp only: successively_strict)
  ultimately show ?thesis using assms(2) b
    by (cases bids; cases asks) (auto simp: no_better_def book_side_def less_imp_le split: if_splits)
qed

context decimal_arith
begin

lemma exhaustion_no_better:
  assumes "exhaustion_price D it cfg base = Inr p" "is_decimal base" "0 < base"
    and "is_decimal (fc_depth_exhaustion_multiplier cfg)" "1 \<le> fc_depth_exhaustion_multiplier cfg"
  shows "no_better (oi_side it) base p"
  using assms mul_ge_left [OF assms(2,4)] div_le_left [OF assms(2,4)]
  by (auto simp: exhaustion_price_def ok_or_Inr_iff no_better_def split: if_splits)

end

lemma no_better_trans: "no_better s a b \<Longrightarrow> no_better s b c \<Longrightarrow> no_better s a c"
  by (auto simp: no_better_def split: if_splits)

text \<open>
  The model never improves on the market: on a book that passed validation every
  fill, the extrapolated one included, respects the limit and is no better for the trader than
  the best visible price (at least the best ask for a buy, at most the best bid for a sell).
\<close>

theorem fills_never_improve:
  assumes "decimal_arith D" "order_book_new m bids asks dp ts sq = Inr b"
    and "\<forall>l \<in> set (book_side b (oi_side it)). is_decimal (lv_price l)"
    and "is_decimal (fc_depth_exhaustion_multiplier cfg)"
    and "walk_book D R b it cfg = Inr fills" "f \<in> set fills"
  shows "within_limit it (f_price f)
    \<and> no_better (oi_side it) (lv_price (hd (book_side b (oi_side it)))) (f_price f)"
proof -
  let ?ls = "book_side b (oi_side it)"
  have good: "within_limit it (f_price g) \<and> no_better (oi_side it) (lv_price (hd ?ls)) (f_price g)"
    if "walk_levels D R b it cfg ?ls [] (oi_size it) = Inr (fs, r, v)" "g \<in> set fs" for fs r v g
    using walk_levels_good [OF that(1), of ?ls] that(2) order_book_new_sorted [OF assms(2)]
    by (auto simp: good_fills_def)
  from assms(5) show ?thesis
  proof (cases rule: walk_book_InrE)
    case (exhausted fs r price fee)
    show ?thesis
    proof (cases "f \<in> set fs")
      case False
      with exhausted(6) assms(6) have f: "f_price f = price" by auto
      have l: "last ?ls \<in> set ?ls" using exhausted(9) by simp
      have "1 \<le> fc_depth_exhaustion_multiplier cfg"
        using exhausted(1) by (auto simp: fill_config_validate_def split: if_splits)
      then have "no_better (oi_side it) (lv_price (last ?ls)) price"
        using walk_levels_positive [OF exhausted(3-5)] l assms(3,4) exhausted(8)
        by (intro decimal_arith.exhaustion_no_better [OF assms(1)]) auto
      with order_book_new_sorted [OF assms(2) l] f exhausted(7) show ?thesis
        by (auto intro: no_better_trans)
    qed (rule good [OF exhausted(3)])
  qed (use good assms(6) in blast)+
qed

theorem fills_never_improve_witness:
  "\<exists>fills f. walk_book dec_ref wit_render wit_book wit_intent fill_config_default = Inr fills
     \<and> f \<in> set fills \<and> 1 / 2 \<le> f_price f"
proof -
  obtain fills where f: "walk_book dec_ref wit_render wit_book wit_intent fill_config_default = Inr fills"
    using wit_walk by blast
  then have "fills \<noteq> []" by (elim walk_book_InrE) auto
  then obtain g where g: "g \<in> set fills" by (cases fills) auto
  have b: "order_book_new (MarketKey ''v:m'') [] (ob_asks wit_book) 2 0 None = Inr wit_book"
    by (simp add: order_book_new_def wit_book_def)
  have "within_limit wit_intent (f_price g)
    \<and> no_better (oi_side wit_intent) (lv_price (hd (book_side wit_book (oi_side wit_intent)))) (f_price g)"
    by (rule fills_never_improve [OF dec_ref.decimal_arith_axioms b _ _ f g])
      (simp_all add: wit_book_def wit_intent_def book_side_def fill_config_default_def wit_is_decimal)
  with f g show ?thesis
    by (auto simp: no_better_def wit_intent_def wit_book_def book_side_def)
qed

subsection \<open>When a walk succeeds\<close>

definition overflows :: "fill_error + 'a \<Rightarrow> bool" where
  "overflows r \<longleftrightarrow> (\<exists>s. r = Inl (ArithmeticOverflow s))"

lemma overflows_simps [simp]:
  "overflows (Inl (ArithmeticOverflow s))" "\<not> overflows (Inr x)"
  by (simp_all add: overflows_def)

lemma overflows_ok_or: "overflows (ok_or (ArithmeticOverflow s) v) \<longleftrightarrow> v = None"
  by (cases v) simp_all

lemma overflows_and_then:
  "overflows (and_then r f) \<longleftrightarrow> overflows r \<or> (\<exists>a. r = Inr a \<and> overflows (f a))"
  by (cases r) (auto simp: overflows_def)

lemma walk_levels_total:
  "oi_order_type it = Market \<Longrightarrow> \<forall>l \<in> set ls. 0 < lv_price l \<and> 0 < lv_size l
     \<Longrightarrow> overflows (walk_levels D R b it cfg ls fills r)
       \<or> (\<exists>fills' r'. walk_levels D R b it cfg ls fills r = Inr (fills', r', None))"
proof (induction ls arbitrary: fills r)
  case (Cons l ls)
  show ?case
  proof (cases "r \<le> 0 \<or> fc_aggressiveness cfg = PassiveAtTouch \<and> fills \<noteq> []")
    case True
    then show ?thesis by auto
  next
    case False
    with Cons.prems have pos: "\<not> min r (lv_size l) \<le> 0" "\<not> (lv_price l \<le> 0 \<or> lv_size l \<le> 0)" by auto
    from Cons.prems(1) have c: "check_limit it p = Inr None" for p by (simp add: check_limit_def)
    show ?thesis
      using False pos Cons.prems Cons.IH
      by (cases "dec_mul D (lv_price l) (min r (lv_size l))";
          cases "dec_sub D r (min r (lv_size l))";
          cases "dec_mul D (fc_fee_rate cfg) (the (dec_mul D (lv_price l) (min r (lv_size l))))")
        (auto simp: c Let_def simp del: min_le_iff_disj)
  qed
qed simp

text \<open>
  Totality: on a book whose visible levels are positive, a market order of positive
  size for the book's market, under a valid configuration, is filled; the only way it can fail is
  an overflow of the decimal arithmetic. In particular the insufficient-depth error is never
  returned for it.
\<close>

theorem market_order_always_fills:
  assumes "fill_config_validate cfg = Inr ()" "ob_market b = oi_market it" "0 < oi_size it"
    and "oi_order_type it = Market" "book_side b (oi_side it) \<noteq> []"
    and "\<forall>l \<in> set (book_side b (oi_side it)). 0 < lv_price l \<and> 0 < lv_size l"
  shows "overflows (walk_book D R b it cfg) \<or> (\<exists>fills. walk_book D R b it cfg = Inr fills)"
proof -
  let ?ls = "book_side b (oi_side it)"
  have c: "check_limit it p = Inr None" for p using assms(4) by (simp add: check_limit_def)
  have ex: "overflows (walk_exhausted D R b it cfg base fs r)
      \<or> (\<exists>fs'. walk_exhausted D R b it cfg base fs r = Inr (fs', None) \<and> fs' \<noteq> [])" for base fs r
  proof (cases "exhaustion_price D it cfg base")
    case (Inl e)
    then show ?thesis
      by (auto simp: walk_exhausted_def exhaustion_price_def ok_or_def split: if_splits option.splits)
  next
    case (Inr price)
    then show ?thesis
      by (cases "dec_mul D price r";
          cases "dec_mul D (fc_fee_rate cfg) (the (dec_mul D price r))")
        (auto simp: walk_exhausted_def c)
  qed
  note w = walk_book_eq [OF assms(1,2,3,5)]
  from walk_levels_total [OF assms(4,6)] show ?thesis
  proof
    assume "overflows (walk_levels D R b it cfg ?ls [] (oi_size it))"
    then show ?thesis by (simp add: w overflows_and_then)
  next
    assume "\<exists>fs r. walk_levels D R b it cfg ?ls [] (oi_size it) = Inr (fs, r, None)"
    then obtain fs r where wl: "walk_levels D R b it cfg ?ls [] (oi_size it) = Inr (fs, r, None)"
      by blast
    with walk_levels_progress [OF wl assms(5,3)] have "fs \<noteq> []" by simp
    then have fin: "finish_fills it (fs, None) = Inr fs" by (simp add: finish_fills_def)
    show ?thesis
      using ex [of "lv_price (last ?ls)" fs r] fin
      by (auto simp: w wl overflows_and_then finish_fills_def)
  qed
qed

theorem market_order_always_fills_witness:
  "overflows (walk_book dec_ref wit_render wit_book wit_intent fill_config_default)
     \<or> (\<exists>fills. walk_book dec_ref wit_render wit_book wit_intent fill_config_default = Inr fills)"
  by (rule market_order_always_fills)
    (simp_all add: fill_config_validate_def fill_config_default_def is_blank_def wit_book_def
      wit_intent_def book_side_def)

end
