(* ===== verification/Risk_Engine.thy ===== *)
theory Risk_Engine
  imports Core_Orders Decimal_Instance
begin

text \<open>
  The pre-trade risk engine (\<^verbatim>\<open>connectors/execution/risk-engine\<close>): the side-effect-free checks
  (\<^verbatim>\<open>checks.rs\<close>) and the evaluation of an intent against a snapshot of the world
  (\<^verbatim>\<open>engine.rs\<close>). A decimal operation that overflows panics, so every function that computes
  with prices returns an option whose \<open>None\<close> is that panic. The lemmas give the exact condition
  under which an order is allowed, and its consequences for caps and inventory.
\<close>

subsection \<open>Inputs (engine.rs)\<close>

datatype position_outcome = Yes | No

record balances =
  bl_free :: decimal
  bl_locked :: decimal
  bl_currency :: string

record venue_health_status =
  vh_status :: string
  vh_breaker_open :: bool

record risk_context =
  rc_evaluated_at :: utc_time
  rc_markets :: "(market_key, market) hash_map"
  rc_balances :: "(venue_id, balances) hash_map"
  rc_positions :: "(market_key \<times> position_outcome, decimal) hash_map"
  rc_venue_health :: "(venue_id, venue_health_status) hash_map"
  rc_active_caps :: caps_snapshot
  rc_caps_by_version :: "(ulid, caps_snapshot) hash_map"
  rc_daily_notional :: decimal
  rc_jurisdiction_eligible :: "(venue_id, bool) hash_map"
  rc_live_enabled :: bool

record risk_config =
  rg_max_drift :: decimal
  rg_max_quote_staleness_ms :: int
  rg_max_future_skew_ms :: int
  rg_hard_per_order_max :: decimal

definition risk_config_default :: risk_config where
  "risk_config_default =
     \<lparr>rg_max_drift = 2 / 100, rg_max_quote_staleness_ms = 5000, rg_max_future_skew_ms = 1000,
       rg_hard_per_order_max = 10000\<rparr>"

subsection \<open>The checks (checks.rs)\<close>

definition reason :: "risk_reason_code \<Rightarrow> string \<Rightarrow> risk_reason" where
  "reason code detail = \<lparr>rr_code = code, rr_detail = Lit detail\<rparr>"

definition filter_positive :: "decimal option \<Rightarrow> decimal option" where
  "filter_positive v = (case v of Some p \<Rightarrow> if 0 < p then Some p else None | None \<Rightarrow> None)"

definition one_minus :: "dec_ops \<Rightarrow> decimal option \<Rightarrow> decimal option option" where
  "one_minus D v =
     (case v of None \<Rightarrow> Some None | Some p \<Rightarrow> map_option Some (dec_sub D 1 p))"

definition executable_price :: "dec_ops \<Rightarrow> quote \<Rightarrow> side \<Rightarrow> decimal option option" where
  "executable_price D q s =
     map_option filter_positive
       (case s of
          Buy \<Rightarrow> Some (q_ask q)
        | Sell \<Rightarrow> Some (q_bid q)
        | BuyNo \<Rightarrow> one_minus D (q_bid q)
        | SellNo \<Rightarrow> one_minus D (q_ask q))"

definition check_liveness ::
  "dec_ops \<Rightarrow> order_intent \<Rightarrow> market option \<Rightarrow> utc_time \<Rightarrow> int \<Rightarrow> int \<Rightarrow> risk_reason option option" where
  "check_liveness D it mkt evaluated_at max_stale max_skew =
     (case mkt of
        None \<Rightarrow> Some (Some (reason Liveness ''market metadata is unavailable''))
      | Some m \<Rightarrow>
          if m_key m \<noteq> oi_market it \<or> m_status m \<noteq> Open
          then Some (Some (reason Liveness ''market is unavailable or not open''))
          else if q_market (oi_quote_snapshot it) \<noteq> oi_market it
          then Some (Some (reason Liveness ''quote snapshot market does not match intent''))
          else let age = evaluated_at - q_ts (oi_quote_snapshot it) in
            if age > max_stale then Some (Some (reason Liveness ''quote snapshot is stale''))
            else if age < - max_skew
            then Some (Some (reason Liveness ''quote snapshot timestamp is in the future''))
            else do {
              price \<leftarrow> executable_price D (oi_quote_snapshot it) (oi_side it);
              Some (if price = None
                    then Some (reason Liveness ''quote snapshot has no executable price'') else None)
            })"

fun is_buy :: "side \<Rightarrow> bool" where
  "is_buy Buy = True"
| "is_buy BuyNo = True"
| "is_buy Sell = False"
| "is_buy SellNo = False"

definition check_price_drift ::
  "dec_ops \<Rightarrow> order_intent \<Rightarrow> decimal \<Rightarrow> risk_reason option option" where
  "check_price_drift D it max_drift =
     (case oi_limit_price it of
        None \<Rightarrow> Some None
      | Some limit \<Rightarrow> do {
          price \<leftarrow> executable_price D (oi_quote_snapshot it) (oi_side it);
          (case price of
             None \<Rightarrow> Some (Some (reason PriceDrift ''price reference is unavailable''))
           | Some ref \<Rightarrow> do {
               adverse \<leftarrow> (if is_buy (oi_side it) then dec_sub D limit ref else dec_sub D ref limit);
               if adverse > 0 then do {
                 drift \<leftarrow> dec_div D adverse ref;
                 Some (if drift > max_drift
                       then Some (reason PriceDrift ''limit price exceeds allowed adverse drift'')
                       else None)
               } else Some None
             })
        })"

definition check_balance ::
  "order_intent \<Rightarrow> balances option \<Rightarrow> decimal option \<Rightarrow> decimal \<Rightarrow> risk_reason option" where
  "check_balance it bal position notional =
     (if is_buy (oi_side it)
      then (case bal of
              Some b \<Rightarrow> (if bl_free b \<ge> notional then None
                         else Some (reason Balance ''insufficient free balance''))
            | None \<Rightarrow> Some (reason Balance ''balance data is unavailable''))
      else (case position of
              Some available \<Rightarrow> (if available \<ge> oi_size it then None
                         else Some (reason Balance ''insufficient position inventory''))
            | None \<Rightarrow> Some (reason Balance ''position data is unavailable'')))"

definition check_venue_health :: "venue_health_status option \<Rightarrow> risk_reason option" where
  "check_venue_health health =
     (case health of
        Some v \<Rightarrow> (if \<not> vh_breaker_open v \<and> eq_ignore_ascii_case (vh_status v) ''ok'' then None
                   else Some (reason VenueHealth ''venue is unhealthy or its breaker is open''))
      | None \<Rightarrow> Some (reason VenueHealth ''venue health is unavailable''))"

definition caps_currencies :: "caps_snapshot \<Rightarrow> caps_snapshot \<Rightarrow> string list" where
  "caps_currencies active intent =
     [currency (cs_per_order_max active), currency (cs_daily_max active),
      currency (cs_per_order_max intent), currency (cs_daily_max intent)]"

definition per_order_cap :: "decimal \<Rightarrow> caps_snapshot \<Rightarrow> caps_snapshot \<Rightarrow> decimal" where
  "per_order_cap hard active intent =
     min (min hard (amount (cs_per_order_max active))) (amount (cs_per_order_max intent))"

definition daily_cap :: "caps_snapshot \<Rightarrow> caps_snapshot \<Rightarrow> decimal" where
  "daily_cap active intent = min (amount (cs_daily_max active)) (amount (cs_daily_max intent))"

definition check_caps ::
  "dec_ops \<Rightarrow> caps_snapshot option \<Rightarrow> caps_snapshot \<Rightarrow> string option \<Rightarrow> decimal \<Rightarrow> decimal \<Rightarrow> decimal
     \<Rightarrow> risk_reason option" where
  "check_caps D intent_caps active bal_currency notional daily_notional hard =
     (case intent_caps of
        None \<Rightarrow> Some (reason CapExceeded ''intent caps snapshot is unavailable'')
      | Some ic \<Rightarrow>
     (case bal_currency of
        None \<Rightarrow> Some (reason CapExceeded ''caps currency cannot be established'')
      | Some cur \<Rightarrow>
          if \<not> list_all (\<lambda>c. eq_ignore_ascii_case c cur) (caps_currencies active ic)
          then Some (reason CapExceeded ''caps currency mismatch'')
          else (case dec_add D daily_notional notional of
                  None \<Rightarrow> Some (reason CapExceeded ''daily notional overflow'')
                | Some projected \<Rightarrow>
                    if notional > per_order_cap hard active ic \<or> projected > daily_cap active ic
                    then Some (reason CapExceeded ''order exceeds the lower effective cap'')
                    else None)))"

definition check_jurisdiction :: "order_intent \<Rightarrow> bool option \<Rightarrow> risk_reason option" where
  "check_jurisdiction it eligible =
     (if oi_paper it then None
      else (case eligible of
              Some True \<Rightarrow> None
            | Some False \<Rightarrow> Some (reason Jurisdiction ''venue is not eligible for live execution'')
            | None \<Rightarrow> Some (reason Jurisdiction ''jurisdiction eligibility is unavailable'')))"

subsection \<open>The evaluation (engine.rs)\<close>

definition opt_list :: "'a option \<Rightarrow> 'a list" where
  "opt_list v = (case v of None \<Rightarrow> [] | Some x \<Rightarrow> [x])"

definition valuation_price :: "decimal option \<Rightarrow> decimal option \<Rightarrow> decimal option" where
  "valuation_price exec limit =
     map_option (\<lambda>p. case limit of None \<Rightarrow> p | Some l \<Rightarrow> max p l) exec"

definition risk_notional :: "dec_ops \<Rightarrow> order_intent \<Rightarrow> decimal option \<Rightarrow> decimal option" where
  "risk_notional D it exec =
     (case Option.bind (valuation_price exec (oi_limit_price it)) (\<lambda>p. dec_mul D p (oi_size it)) of
        Some v \<Rightarrow> if 0 \<le> v then Some v else None
      | None \<Rightarrow> None)"

definition sold_outcome :: "side \<Rightarrow> position_outcome option" where
  "sold_outcome s = (case s of Sell \<Rightarrow> Some Yes | SellNo \<Rightarrow> Some No | _ \<Rightarrow> None)"

definition venue_reasons ::
  "dec_ops \<Rightarrow> risk_config \<Rightarrow> order_intent \<Rightarrow> risk_context \<Rightarrow> venue_id \<Rightarrow> decimal \<Rightarrow> risk_reason list" where
  "venue_reasons D cfg it ctx venue notional =
     (let bal = hm_get (rc_balances ctx) venue;
          position = Option.bind (sold_outcome (oi_side it))
            (\<lambda>out. hm_get (rc_positions ctx) (oi_market it, out))
      in opt_list (check_balance it bal position notional)
       @ opt_list (check_venue_health (hm_get (rc_venue_health ctx) venue))
       @ opt_list (check_caps D (hm_get (rc_caps_by_version ctx) (oi_caps_version it))
           (rc_active_caps ctx) (map_option bl_currency bal) notional (rc_daily_notional ctx)
           (rg_hard_per_order_max cfg))
       @ opt_list (check_jurisdiction it (hm_get (rc_jurisdiction_eligible ctx) venue)))"

definition risk_evaluate ::
  "dec_ops \<Rightarrow> risk_config \<Rightarrow> order_intent \<Rightarrow> risk_context \<Rightarrow> risk_verdict option" where
  "risk_evaluate D cfg it ctx = do {
     let live = (if \<not> oi_paper it \<and> \<not> rc_live_enabled ctx
                 then [reason LiveDisabled ''live execution is disabled''] else []);
     let mkt = hm_get (rc_markets ctx) (oi_market it);
     liveness \<leftarrow> check_liveness D it mkt (rc_evaluated_at ctx) (rg_max_quote_staleness_ms cfg)
                   (rg_max_future_skew_ms cfg);
     drift \<leftarrow> check_price_drift D it (rg_max_drift cfg);
     exec \<leftarrow> executable_price D (oi_quote_snapshot it) (oi_side it);
     let rest = (case (map_option m_venue mkt, risk_notional D it exec) of
                   (Some venue, Some notional) \<Rightarrow> venue_reasons D cfg it ctx venue notional
                 | _ \<Rightarrow> [reason Liveness ''risk valuation inputs are unavailable'']);
     let reasons = live @ opt_list liveness @ opt_list drift @ rest;
     Some \<lparr>rv_intent_id = oi_id it, rv_verdict = (if reasons = [] then Allow else Deny),
            rv_reasons = reasons, rv_ts = rc_evaluated_at ctx\<rparr>
   }"

subsection \<open>When an order is allowed\<close>

named_theorems check_None \<open>when a check finds nothing to object to\<close>

definition live_ok :: "order_intent \<Rightarrow> risk_context \<Rightarrow> bool" where
  "live_ok it ctx \<longleftrightarrow> oi_paper it \<or> rc_live_enabled ctx"

definition market_ok :: "risk_config \<Rightarrow> order_intent \<Rightarrow> risk_context \<Rightarrow> market \<Rightarrow> bool" where
  "market_ok cfg it ctx m \<longleftrightarrow>
     hm_get (rc_markets ctx) (oi_market it) = Some m \<and> m_key m = oi_market it \<and> m_status m = Open
     \<and> q_market (oi_quote_snapshot it) = oi_market it
     \<and> (let age = rc_evaluated_at ctx - q_ts (oi_quote_snapshot it)
        in - rg_max_future_skew_ms cfg \<le> age \<and> age \<le> rg_max_quote_staleness_ms cfg)"

definition drift_ok :: "dec_ops \<Rightarrow> risk_config \<Rightarrow> order_intent \<Rightarrow> decimal \<Rightarrow> bool" where
  "drift_ok D cfg it p \<longleftrightarrow>
     (case oi_limit_price it of None \<Rightarrow> True
      | Some l \<Rightarrow> (\<exists>adv. (if is_buy (oi_side it) then dec_sub D l p else dec_sub D p l) = Some adv
          \<and> (adv \<le> 0 \<or> (\<exists>d. dec_div D adv p = Some d \<and> d \<le> rg_max_drift cfg))))"

definition funds_ok :: "order_intent \<Rightarrow> risk_context \<Rightarrow> venue_id \<Rightarrow> decimal \<Rightarrow> bool" where
  "funds_ok it ctx venue notional \<longleftrightarrow>
     (if is_buy (oi_side it)
      then (\<exists>b. hm_get (rc_balances ctx) venue = Some b \<and> notional \<le> bl_free b)
      else (\<exists>out pos. sold_outcome (oi_side it) = Some out
              \<and> hm_get (rc_positions ctx) (oi_market it, out) = Some pos \<and> oi_size it \<le> pos))"

definition health_ok :: "risk_context \<Rightarrow> venue_id \<Rightarrow> bool" where
  "health_ok ctx venue \<longleftrightarrow> (\<exists>h. hm_get (rc_venue_health ctx) venue = Some h
     \<and> \<not> vh_breaker_open h \<and> eq_ignore_ascii_case (vh_status h) ''ok'')"

definition caps_ok ::
  "dec_ops \<Rightarrow> risk_config \<Rightarrow> order_intent \<Rightarrow> risk_context \<Rightarrow> venue_id \<Rightarrow> decimal \<Rightarrow> bool" where
  "caps_ok D cfg it ctx venue notional \<longleftrightarrow>
     (\<exists>b ic proj. hm_get (rc_balances ctx) venue = Some b
        \<and> hm_get (rc_caps_by_version ctx) (oi_caps_version it) = Some ic
        \<and> list_all (\<lambda>c. eq_ignore_ascii_case c (bl_currency b)) (caps_currencies (rc_active_caps ctx) ic)
        \<and> dec_add D (rc_daily_notional ctx) notional = Some proj
        \<and> notional \<le> per_order_cap (rg_hard_per_order_max cfg) (rc_active_caps ctx) ic
        \<and> proj \<le> daily_cap (rc_active_caps ctx) ic)"

definition jurisdiction_ok :: "order_intent \<Rightarrow> risk_context \<Rightarrow> venue_id \<Rightarrow> bool" where
  "jurisdiction_ok it ctx venue \<longleftrightarrow>
     oi_paper it \<or> hm_get (rc_jurisdiction_eligible ctx) venue = Some True"

lemma opt_list_Nil [simp]: "opt_list v = [] \<longleftrightarrow> v = None"
  by (simp add: opt_list_def split: option.split)

lemma check_liveness_None [check_None]:
  assumes "executable_price D (oi_quote_snapshot it) (oi_side it) = Some price"
  shows "check_liveness D it (hm_get (rc_markets ctx) (oi_market it)) (rc_evaluated_at ctx)
      (rg_max_quote_staleness_ms cfg) (rg_max_future_skew_ms cfg) = Some None
    \<longleftrightarrow> (\<exists>m. market_ok cfg it ctx m) \<and> price \<noteq> None"
  using assms by (auto simp: check_liveness_def market_ok_def Let_def split: option.splits)

lemma check_price_drift_None [check_None]:
  assumes "executable_price D (oi_quote_snapshot it) (oi_side it) = Some (Some p)"
  shows "check_price_drift D it (rg_max_drift cfg) = Some None \<longleftrightarrow> drift_ok D cfg it p"
proof (cases "oi_limit_price it")
  case None
  then show ?thesis by (simp add: check_price_drift_def drift_ok_def)
next
  case (Some l)
  show ?thesis
  proof (cases "if is_buy (oi_side it) then dec_sub D l p else dec_sub D p l")
    case None
    with Some assms show ?thesis by (simp add: check_price_drift_def drift_ok_def del: if_split_asm)
  next
    case adv: (Some adv)
    with Some assms show ?thesis
      by (cases "dec_div D adv p") (simp_all add: check_price_drift_def drift_ok_def not_less)
  qed
qed

lemma check_balance_None [check_None]:
  "check_balance it (hm_get (rc_balances ctx) venue)
      (Option.bind (sold_outcome (oi_side it)) (\<lambda>out. hm_get (rc_positions ctx) (oi_market it, out)))
      notional = None
    \<longleftrightarrow> funds_ok it ctx venue notional"
  by (auto simp: check_balance_def funds_ok_def bind_Some_iff split: option.splits)

lemma check_venue_health_None [check_None]:
  "check_venue_health (hm_get (rc_venue_health ctx) venue) = None \<longleftrightarrow> health_ok ctx venue"
  by (auto simp: check_venue_health_def health_ok_def split: option.splits)

lemma check_caps_None [check_None]:
  "check_caps D (hm_get (rc_caps_by_version ctx) (oi_caps_version it)) (rc_active_caps ctx)
      (map_option bl_currency (hm_get (rc_balances ctx) venue)) notional (rc_daily_notional ctx)
      (rg_hard_per_order_max cfg) = None
    \<longleftrightarrow> caps_ok D cfg it ctx venue notional"
  by (auto simp: check_caps_def caps_ok_def not_less split: option.splits)

lemma check_jurisdiction_None [check_None]:
  "check_jurisdiction it (hm_get (rc_jurisdiction_eligible ctx) venue) = None
    \<longleftrightarrow> jurisdiction_ok it ctx venue"
  by (auto simp: check_jurisdiction_def jurisdiction_ok_def split: option.splits bool.splits)

lemma venue_reasons_Nil:
  "venue_reasons D cfg it ctx venue notional = [] \<longleftrightarrow>
     funds_ok it ctx venue notional \<and> health_ok ctx venue \<and> caps_ok D cfg it ctx venue notional
     \<and> jurisdiction_ok it ctx venue"
  by (simp add: venue_reasons_def Let_def check_None)

text \<open>What a finished evaluation computed.\<close>

lemma risk_evaluateE:
  assumes "risk_evaluate D cfg it ctx = Some v"
  obtains liveness drift price where
    "check_liveness D it (hm_get (rc_markets ctx) (oi_market it)) (rc_evaluated_at ctx)
       (rg_max_quote_staleness_ms cfg) (rg_max_future_skew_ms cfg) = Some liveness"
    "check_price_drift D it (rg_max_drift cfg) = Some drift"
    "executable_price D (oi_quote_snapshot it) (oi_side it) = Some price"
    "rv_intent_id v = oi_id it" "is_allowed v \<longleftrightarrow> rv_reasons v = []"
    "rv_reasons v = [] \<longleftrightarrow> live_ok it ctx \<and> liveness = None \<and> drift = None
       \<and> (\<exists>m notional. hm_get (rc_markets ctx) (oi_market it) = Some m
            \<and> risk_notional D it price = Some notional
            \<and> venue_reasons D cfg it ctx (m_venue m) notional = [])"
proof -
  from assms obtain liveness drift price where
    c: "check_liveness D it (hm_get (rc_markets ctx) (oi_market it)) (rc_evaluated_at ctx)
       (rg_max_quote_staleness_ms cfg) (rg_max_future_skew_ms cfg) = Some liveness"
    "check_price_drift D it (rg_max_drift cfg) = Some drift"
    "executable_price D (oi_quote_snapshot it) (oi_side it) = Some price"
    by (auto simp: risk_evaluate_def bind_Some_iff Let_def)
  define rest where "rest = (case (map_option m_venue (hm_get (rc_markets ctx) (oi_market it)),
      risk_notional D it price) of
        (Some venue, Some notional) \<Rightarrow> venue_reasons D cfg it ctx venue notional
      | _ \<Rightarrow> [reason Liveness ''risk valuation inputs are unavailable''])"
  define live where "live = (if \<not> oi_paper it \<and> \<not> rc_live_enabled ctx
      then [reason LiveDisabled ''live execution is disabled''] else [])"
  define R where "R = live @ opt_list liveness @ opt_list drift @ rest"
  have "Some v = Some \<lparr>rv_intent_id = oi_id it, rv_verdict = (if R = [] then Allow else Deny),
      rv_reasons = R, rv_ts = rc_evaluated_at ctx\<rparr>"
    unfolding assms [symmetric] risk_evaluate_def Let_def c bind.bind_lunit R_def live_def rest_def ..
  then have v: "v = \<lparr>rv_intent_id = oi_id it, rv_verdict = (if R = [] then Allow else Deny),
      rv_reasons = R, rv_ts = rc_evaluated_at ctx\<rparr>" by simp
  have "rest = [] \<longleftrightarrow> (\<exists>m notional. hm_get (rc_markets ctx) (oi_market it) = Some m
      \<and> risk_notional D it price = Some notional
      \<and> venue_reasons D cfg it ctx (m_venue m) notional = [])"
    by (auto simp: rest_def split: option.splits)
  moreover have "live = [] \<longleftrightarrow> live_ok it ctx" by (simp add: live_def live_ok_def)
  ultimately have "R = [] \<longleftrightarrow> live_ok it ctx \<and> liveness = None \<and> drift = None
      \<and> (\<exists>m notional. hm_get (rc_markets ctx) (oi_market it) = Some m
           \<and> risk_notional D it price = Some notional
           \<and> venue_reasons D cfg it ctx (m_venue m) notional = [])"
    by (simp only: R_def append_is_Nil_conv opt_list_Nil)
  then show thesis by (intro that [OF c]) (simp_all add: v is_allowed_def)
qed

text \<open>
  The exact condition for an allowed order: live trading is enabled or it is a paper
  order; the market is known, open and the intent's own, and its quote is of that market and
  neither stale nor from the future; there is an executable price and the limit drifts no further
  from it than allowed; the notional at the worse of quote and limit is covered by free balance,
  or the sold inventory by the position in that outcome; the venue is healthy; the caps are known,
  in one currency, and hold for the order and for the day; and a live order's jurisdiction is
  eligible. Anything missing denies.
\<close>

theorem risk_allows_iff:
  assumes "risk_evaluate D cfg it ctx = Some v"
  shows "is_allowed v \<longleftrightarrow> live_ok it ctx \<and>
    (\<exists>m p notional. market_ok cfg it ctx m
       \<and> executable_price D (oi_quote_snapshot it) (oi_side it) = Some (Some p)
       \<and> drift_ok D cfg it p \<and> risk_notional D it (Some p) = Some notional
       \<and> funds_ok it ctx (m_venue m) notional \<and> health_ok ctx (m_venue m)
       \<and> caps_ok D cfg it ctx (m_venue m) notional \<and> jurisdiction_ok it ctx (m_venue m))"
  using assms
proof (cases rule: risk_evaluateE)
  case (1 liveness drift price)
  have m: "market_ok cfg it ctx m \<Longrightarrow> hm_get (rc_markets ctx) (oi_market it) = Some m" for m
    by (simp add: market_ok_def)
  from 1(1,2) have l: "liveness = None \<longleftrightarrow> (\<exists>m. market_ok cfg it ctx m) \<and> price \<noteq> None"
    using check_liveness_None [OF 1(3), of ctx cfg] by simp
  show ?thesis
  proof (cases price)
    case None
    with 1 l show ?thesis by auto
  next
    case (Some p)
    then have d: "drift = None \<longleftrightarrow> drift_ok D cfg it p"
      using check_price_drift_None [of D it p cfg] 1(2,3) by simp
    show ?thesis
      unfolding 1(5,6) l d using Some 1(3) m by (auto simp: venue_reasons_Nil)
  qed
qed

definition wit_key :: market_key where
  "wit_key = MarketKey ''v:m''"

definition wit_market :: market where
  "wit_market = \<lparr>m_key = wit_key, m_venue = VenueId ''v'', m_kind = BinaryContract,
     m_title = [], m_description_ref = [], m_status = Open, m_close_ts = None,
     m_resolve_ts = None, m_outcome = None, m_jurisdiction_flags = [], m_venue_ref = JNull,
     m_meta = JNull\<rparr>"

definition wit_risk_quote :: quote where
  "wit_risk_quote = \<lparr>q_market = wit_key, q_bid = Some (1 / 2), q_ask = Some (1 / 2),
     q_mid = None, q_last = None, q_bid_size = None, q_ask_size = None, q_ts = 0,
     q_source = Stream, q_seq = None\<rparr>"

definition wit_risk_intent :: order_intent where
  "wit_risk_intent = \<lparr>oi_id = 1, oi_market = wit_key, oi_side = Buy, oi_order_type = Limit,
     oi_limit_price = Some (1 / 2), oi_size = 10, oi_size_unit = Contracts, oi_tif = Ioc,
     oi_paper = False, oi_origin = \<lparr>or_kind = OriginHuman, or_tier = 3, or_actor_id = 7\<rparr>,
     oi_quote_snapshot = wit_risk_quote, oi_caps_version = 1, oi_created_ts = 0\<rparr>"

definition wit_caps :: caps_snapshot where
  "wit_caps = \<lparr>cs_version = 1, cs_per_order_max = money_new 100 ''USD'',
     cs_daily_max = money_new 1000 ''usd'', cs_per_venue = JNull, cs_per_kind = JNull\<rparr>"

definition wit_risk_context :: risk_context where
  "wit_risk_context = \<lparr>rc_evaluated_at = 5, rc_markets = [(wit_key, wit_market)],
     rc_balances = [(VenueId ''v'', \<lparr>bl_free = 50, bl_locked = 0, bl_currency = ''USD''\<rparr>)],
     rc_positions = [],
     rc_venue_health = [(VenueId ''v'', \<lparr>vh_status = ''OK'', vh_breaker_open = False\<rparr>)],
     rc_active_caps = wit_caps, rc_caps_by_version = [(1, wit_caps)], rc_daily_notional = 3,
     rc_jurisdiction_eligible = [(VenueId ''v'', True)], rc_live_enabled = True\<rparr>"

lemmas wit_risk_defs = wit_key_def wit_market_def wit_risk_quote_def wit_risk_intent_def
  wit_caps_def wit_risk_context_def money_new_def risk_config_default_def

lemma wit_dec: "is_decimal (1 / 2)" "is_decimal 5" "is_decimal 8"
  by (rule is_decimalI [where e = 1 and m = 5] is_decimalI [where e = 0 and m = 5]
      is_decimalI [where e = 0 and m = 8]; simp add: dec_bound_def)+

lemma wit_price: "executable_price dec_ref (oi_quote_snapshot wit_risk_intent) (oi_side wit_risk_intent)
    = Some (Some (1 / 2))"
  by (simp add: executable_price_def filter_positive_def wit_risk_intent_def wit_risk_quote_def)

lemma wit_notional: "risk_notional dec_ref wit_risk_intent (Some (1 / 2)) = Some 5"
  by (simp add: risk_notional_def valuation_price_def wit_risk_intent_def dec_ref_def
      dec_round_exact wit_dec)

lemma wit_market_ok: "market_ok risk_config_default wit_risk_intent wit_risk_context wit_market"
  by (simp add: market_ok_def wit_risk_defs)

lemma wit_drift_ok: "drift_ok dec_ref risk_config_default wit_risk_intent (1 / 2)"
  by (simp add: drift_ok_def wit_risk_intent_def dec_ref_def dec_round_exact)

lemma wit_lower: "to_lower ''OK'' = ''ok''" "to_lower ''ok'' = ''ok''"
    "to_lower ''USD'' = ''usd''" "to_lower ''usd'' = ''usd''"
  by code_simp+

lemma wit_venue_ok:
  "funds_ok wit_risk_intent wit_risk_context (m_venue wit_market) 5"
  "health_ok wit_risk_context (m_venue wit_market)"
  "jurisdiction_ok wit_risk_intent wit_risk_context (m_venue wit_market)"
  by (simp_all add: funds_ok_def health_ok_def jurisdiction_ok_def wit_risk_defs
      eq_ignore_ascii_case_def wit_lower)

lemma wit_caps_ok:
  "caps_ok dec_ref risk_config_default wit_risk_intent wit_risk_context (m_venue wit_market) 5"
  by (simp add: caps_ok_def wit_risk_defs eq_ignore_ascii_case_def wit_lower caps_currencies_def per_order_cap_def daily_cap_def dec_ref_def dec_round_exact wit_dec)

lemma wit_evaluates: "\<exists>v. risk_evaluate dec_ref risk_config_default wit_risk_intent wit_risk_context = Some v"
proof -
  note p = wit_price
  have l: "check_liveness dec_ref wit_risk_intent
      (hm_get (rc_markets wit_risk_context) (oi_market wit_risk_intent))
      (rc_evaluated_at wit_risk_context) (rg_max_quote_staleness_ms risk_config_default)
      (rg_max_future_skew_ms risk_config_default) = Some None"
    using check_liveness_None [OF p] wit_market_ok by blast
  have d: "check_price_drift dec_ref wit_risk_intent (rg_max_drift risk_config_default) = Some None"
    using check_price_drift_None [OF p] wit_drift_ok by blast
  show ?thesis by (simp add: risk_evaluate_def l d p Let_def)
qed

theorem risk_allows_iff_witness:
  "\<exists>v. risk_evaluate dec_ref risk_config_default wit_risk_intent wit_risk_context = Some v
     \<and> is_allowed v"
proof -
  obtain v where v: "risk_evaluate dec_ref risk_config_default wit_risk_intent wit_risk_context = Some v"
    using wit_evaluates by blast
  have "live_ok wit_risk_intent wit_risk_context" by (simp add: live_ok_def wit_risk_defs)
  with risk_allows_iff [OF v] wit_market_ok wit_price wit_drift_ok wit_notional wit_venue_ok wit_caps_ok
  show ?thesis using v by blast
qed

subsection \<open>Caps and inventory\<close>

lemma wit_allowed:
  assumes "risk_evaluate dec_ref risk_config_default wit_risk_intent wit_risk_context = Some v"
  shows "is_allowed v"
  using assms
proof (cases rule: risk_evaluateE)
  case (1 liveness drift price)
  have p: "price = Some (1 / 2)" using 1(3) wit_price by simp
  have "liveness = None" using check_liveness_None [OF wit_price, of wit_risk_context risk_config_default]
      1(1) wit_market_ok by auto
  moreover have "drift = None" using check_price_drift_None [OF wit_price, of risk_config_default]
      1(2) wit_drift_ok by auto
  moreover have "live_ok wit_risk_intent wit_risk_context" by (simp add: live_ok_def wit_risk_defs)
  ultimately show ?thesis
    using 1(5,6) p wit_notional wit_venue_ok wit_caps_ok wit_market_ok
    by (auto simp: venue_reasons_Nil market_ok_def)
qed

lemma allowedE:
  assumes "risk_evaluate D cfg it ctx = Some v" "is_allowed v"
  obtains m p notional where
    "executable_price D (oi_quote_snapshot it) (oi_side it) = Some (Some p)"
    "risk_notional D it (Some p) = Some notional"
    "funds_ok it ctx (m_venue m) notional" "caps_ok D cfg it ctx (m_venue m) notional"
    "hm_get (rc_markets ctx) (oi_market it) = Some m"
  using assms
proof (cases rule: risk_evaluateE)
  case (1 liveness drift price)
  with assms(2) obtain m notional where
    m: "hm_get (rc_markets ctx) (oi_market it) = Some m"
    and n: "risk_notional D it price = Some notional"
    and r: "venue_reasons D cfg it ctx (m_venue m) notional = []" by auto
  then obtain p where "price = Some p"
    by (cases price) (auto simp: risk_notional_def valuation_price_def)
  with 1(3) n r m show thesis by (intro that [of p notional m]) (simp_all add: venue_reasons_Nil)
qed

context decimal_arith
begin

lemma notional_ge_limit:
  assumes "risk_notional D it (Some p) = Some notional" "oi_limit_price it = Some l"
    and "is_decimal p" "is_decimal l" "is_decimal (oi_size it)" "0 \<le> oi_size it"
    and "is_decimal (l * oi_size it)"
  shows "l * oi_size it \<le> notional \<and> is_decimal notional"
proof -
  from assms(1,2) have n: "dec_mul D (max p l) (oi_size it) = Some notional"
    by (auto simp: risk_notional_def valuation_price_def split: option.splits if_splits)
  have r: "rounds (Some notional) (max p l * oi_size it)"
    using mul_rounds [OF is_decimal_max [OF assms(3,4)] assms(5)] n by simp
  have "l * oi_size it \<le> max p l * oi_size it"
    by (rule mult_right_mono) (simp_all add: assms(6))
  with rounds_ge [OF r assms(7)] rounds_is_decimal [OF r] show ?thesis by simp
qed

lemma executable_price_decimal:
  assumes "executable_price D q s = Some (Some p)"
    and "\<forall>x. q_bid q = Some x \<or> q_ask q = Some x \<longrightarrow> is_decimal x"
  shows "is_decimal p"
  using assms
  by (cases s) (auto simp: executable_price_def filter_positive_def one_minus_def
      intro: results_decimal(2) [OF is_decimal_1] split: option.splits if_splits)

end

text \<open>
  Property C4. What an allowed limit order can cost, limit times size, is within the engine's
  hard maximum, the active per-order cap and the per-order cap of the intent's own version, and
  together with what the day has already spent it is within the active and the intent's daily cap
  (for amounts that the decimal type represents).
\<close>

theorem allowed_order_within_caps:
  assumes "decimal_arith D" "risk_evaluate D cfg it ctx = Some v" "is_allowed v"
    and "oi_limit_price it = Some l" "is_decimal l" "is_decimal (oi_size it)" "0 \<le> oi_size it"
    and "\<forall>x. q_bid (oi_quote_snapshot it) = Some x \<or> q_ask (oi_quote_snapshot it) = Some x
           \<longrightarrow> is_decimal x"
    and "is_decimal (l * oi_size it)" "is_decimal (rc_daily_notional ctx)"
    and "is_decimal (rc_daily_notional ctx + l * oi_size it)"
  shows "\<exists>ic. hm_get (rc_caps_by_version ctx) (oi_caps_version it) = Some ic
    \<and> l * oi_size it \<le> rg_hard_per_order_max cfg
    \<and> l * oi_size it \<le> amount (cs_per_order_max (rc_active_caps ctx))
    \<and> l * oi_size it \<le> amount (cs_per_order_max ic)
    \<and> rc_daily_notional ctx + l * oi_size it \<le> amount (cs_daily_max (rc_active_caps ctx))
    \<and> rc_daily_notional ctx + l * oi_size it \<le> amount (cs_daily_max ic)"
proof -
  from assms(2,3) obtain m :: market and p notional where
    p: "executable_price D (oi_quote_snapshot it) (oi_side it) = Some (Some p)"
    and n: "risk_notional D it (Some p) = Some notional"
    and c: "caps_ok D cfg it ctx (m_venue m) notional"
    by (elim allowedE) blast
  have pd: "is_decimal p" by (rule decimal_arith.executable_price_decimal [OF assms(1) p assms(8)])
  have ge: "l * oi_size it \<le> notional" and nd: "is_decimal notional"
    using decimal_arith.notional_ge_limit [OF assms(1) n assms(4) pd assms(5-7,9)] by simp_all
  from c obtain ic proj where
    ic: "hm_get (rc_caps_by_version ctx) (oi_caps_version it) = Some ic"
    and pr: "dec_add D (rc_daily_notional ctx) notional = Some proj"
    and lim: "notional \<le> per_order_cap (rg_hard_per_order_max cfg) (rc_active_caps ctx) ic"
      "proj \<le> daily_cap (rc_active_caps ctx) ic"
    by (auto simp: caps_ok_def)
  have "rounds (Some proj) (rc_daily_notional ctx + notional)"
    using decimal_arith.add_rounds [OF assms(1,10) nd] pr by simp
  then have "rc_daily_notional ctx + l * oi_size it \<le> proj"
    by (rule rounds_ge) (use assms(11) ge in simp_all)
  with ge lim ic show ?thesis by (auto simp: per_order_cap_def daily_cap_def)
qed

theorem allowed_order_within_caps_witness:
  "(1 / 2 :: decimal) * 10 \<le> rg_hard_per_order_max risk_config_default"
proof -
  obtain v where v: "risk_evaluate dec_ref risk_config_default wit_risk_intent wit_risk_context = Some v"
    using wit_evaluates by blast
  have al: "is_allowed v" using wit_allowed v by simp
  have half: "is_decimal x" if "x * 2 = 1" for x :: decimal
  proof -
    from that have "x = 1 / 2" by linarith
    then show ?thesis using wit_dec(1) by (simp only:)
  qed
  from allowed_order_within_caps [OF dec_ref.decimal_arith_axioms v al, of "1 / 2"]
  show ?thesis
    using wit_dec half by (simp add: wit_risk_intent_def wit_risk_quote_def wit_risk_context_def
        is_decimal_numeral dec_bound_def)
qed

text \<open>
  Inventory of one outcome never authorizes the sale of the other: an allowed sale is
  covered by the position in exactly the outcome sold, and positions under any other key, the
  opposite outcome of the same market included, have no influence on any verdict.
\<close>

theorem inventory_isolated:
  assumes "sold_outcome (oi_side it) = Some out" "k \<noteq> (oi_market it, out)"
  shows "risk_evaluate D cfg it (ctx\<lparr>rc_positions := hm_put k x (rc_positions ctx)\<rparr>) =
      risk_evaluate D cfg it ctx
    \<and> (\<forall>v. risk_evaluate D cfg it ctx = Some v \<and> is_allowed v \<longrightarrow>
         (\<exists>pos. hm_get (rc_positions ctx) (oi_market it, out) = Some pos \<and> oi_size it \<le> pos))"
proof
  let ?ctx = "ctx\<lparr>rc_positions := hm_put k x (rc_positions ctx)\<rparr>"
  have "venue_reasons D cfg it ?ctx = venue_reasons D cfg it ctx"
    using assms by (intro ext) (simp add: venue_reasons_def hm_get_put)
  moreover have "rc_markets ?ctx = rc_markets ctx" "rc_evaluated_at ?ctx = rc_evaluated_at ctx"
    "rc_live_enabled ?ctx = rc_live_enabled ctx" by simp_all
  ultimately show "risk_evaluate D cfg it ?ctx = risk_evaluate D cfg it ctx"
    by (simp only: risk_evaluate_def)
  show "\<forall>v. risk_evaluate D cfg it ctx = Some v \<and> is_allowed v \<longrightarrow>
         (\<exists>pos. hm_get (rc_positions ctx) (oi_market it, out) = Some pos \<and> oi_size it \<le> pos)"
  proof (intro allI impI, elim conjE)
    fix v
    assume "risk_evaluate D cfg it ctx = Some v" "is_allowed v"
    then obtain m :: market and n where "funds_ok it ctx (m_venue m) n" by (elim allowedE) blast
    with assms(1) show "\<exists>pos. hm_get (rc_positions ctx) (oi_market it, out) = Some pos \<and> oi_size it \<le> pos"
      by (cases "oi_side it") (auto simp: funds_ok_def sold_outcome_def)
  qed
qed

theorem inventory_isolated_witness:
  "risk_evaluate dec_ref risk_config_default (wit_risk_intent\<lparr>oi_side := SellNo\<rparr>)
      (wit_risk_context\<lparr>rc_positions := hm_put (wit_key, Yes) 100 (rc_positions wit_risk_context)\<rparr>) =
    risk_evaluate dec_ref risk_config_default (wit_risk_intent\<lparr>oi_side := SellNo\<rparr>) wit_risk_context"
  using inventory_isolated [where it = "wit_risk_intent\<lparr>oi_side := SellNo\<rparr>" and out = No
      and k = "(wit_key, Yes)" and D = dec_ref and cfg = risk_config_default
      and ctx = wit_risk_context and x = 100]
  by (simp add: sold_outcome_def)

end
