(* ===== verification/Paper_Ledger.thy ===== *)
theory Paper_Ledger
  imports Fill_Model
begin

text \<open>
  The paper ledger (\<^verbatim>\<open>connectors/execution/paper-ledger\<close>): position tracking
  (\<^verbatim>\<open>positions.rs\<close>), profit and loss (\<^verbatim>\<open>pnl.rs\<close>) and the idempotent execution of paper orders
  through the fill model (\<^verbatim>\<open>ledger.rs\<close>). The lemmas show that a resubmitted order is replayed
  and never filled twice, that a failed execution changes nothing, and that realized plus
  unrealized profit is the mark-to-market value of every fill, less its fee.
\<close>

subsection \<open>Positions (positions.rs)\<close>

datatype position_error = PositionArithmetic string | InvalidSize

record position =
  po_market :: market_key
  po_net_size :: decimal
  po_avg_entry_price :: decimal
  po_realized_pnl :: decimal
  po_fill_count :: u64
  po_fees_paid :: decimal

type_synonym position_tracker = "(market_key, position) hash_map"

definition position_zero :: "market_key \<Rightarrow> position" where
  "position_zero m = \<lparr>po_market = m, po_net_size = 0, po_avg_entry_price = 0, po_realized_pnl = 0,
     po_fill_count = 0, po_fees_paid = 0\<rparr>"

definition size_delta :: "fill \<Rightarrow> decimal" where
  "size_delta f = (if takes_asks (f_side f) then f_size f else - f_size f)"

text \<open>The three ways a fill meets the position: opening, increasing, and reducing or flipping.\<close>

definition average_in :: "dec_ops \<Rightarrow> fill \<Rightarrow> position \<Rightarrow> position_error + decimal" where
  "average_in D f p =
     and_then (ok_or (PositionArithmetic ''old notional'')
       (dec_mul D (po_avg_entry_price p) \<bar>po_net_size p\<bar>)) (\<lambda>old_notional.
     and_then (ok_or (PositionArithmetic ''fill notional'')
       (dec_mul D (f_price f) \<bar>size_delta f\<bar>)) (\<lambda>fill_notional.
     and_then (ok_or (PositionArithmetic ''total notional'')
       (dec_add D old_notional fill_notional)) (\<lambda>total_notional.
     and_then (ok_or (PositionArithmetic ''total size'')
       (dec_add D \<bar>po_net_size p\<bar> \<bar>size_delta f\<bar>)) (\<lambda>total_size.
     ok_or (PositionArithmetic ''average entry price'') (dec_div D total_notional total_size)))))"

definition realize :: "dec_ops \<Rightarrow> fill \<Rightarrow> position \<Rightarrow> position_error + decimal" where
  "realize D f p =
     and_then (ok_or (PositionArithmetic ''realized P&L'') (do {
         v \<leftarrow> dec_sub D (f_price f) (po_avg_entry_price p);
         w \<leftarrow> dec_mul D v (min \<bar>po_net_size p\<bar> \<bar>size_delta f\<bar>);
         dec_mul D w (sgn (po_net_size p))
       })) (\<lambda>realized.
     ok_or (PositionArithmetic ''cumulative realized P&L'')
       (dec_add D (po_realized_pnl p) realized))"

definition meet_position ::
  "dec_ops \<Rightarrow> fill \<Rightarrow> decimal \<Rightarrow> position \<Rightarrow> position_error + position" where
  "meet_position D f new_size p =
     (if po_net_size p = 0
      then Inr (p\<lparr>po_net_size := new_size, po_avg_entry_price := f_price f\<rparr>)
      else if sgn (po_net_size p) = sgn (size_delta f)
      then and_then (average_in D f p) (\<lambda>avg.
             Inr (p\<lparr>po_net_size := new_size, po_avg_entry_price := avg\<rparr>))
      else and_then (realize D f p) (\<lambda>pnl.
             let q = p\<lparr>po_realized_pnl := pnl, po_net_size := new_size\<rparr>
             in Inr (if new_size = 0 then q\<lparr>po_avg_entry_price := 0\<rparr>
                     else if sgn new_size \<noteq> sgn (po_net_size p)
                     then q\<lparr>po_avg_entry_price := f_price f\<rparr> else q)))"

definition charge_fee :: "dec_ops \<Rightarrow> fill \<Rightarrow> position \<Rightarrow> position_error + position" where
  "charge_fee D f p =
     and_then (ok_or (PositionArithmetic ''fees paid'')
       (dec_add D (po_fees_paid p) (amount (f_fee f)))) (\<lambda>fees.
     and_then (ok_or (PositionArithmetic ''fee-adjusted realized P&L'')
       (dec_sub D (po_realized_pnl p) (amount (f_fee f)))) (\<lambda>pnl.
     Inr (p\<lparr>po_fees_paid := fees, po_realized_pnl := pnl\<rparr>)))"

definition apply_fill ::
  "dec_ops \<Rightarrow> fill \<Rightarrow> position_tracker \<Rightarrow> position_error + position_tracker" where
  "apply_fill D f t =
     (if f_size f \<le> 0 then Inl InvalidSize
      else let p = (case hm_get t (f_market f) of None \<Rightarrow> position_zero (f_market f) | Some p \<Rightarrow> p)
        in and_then (ok_or (PositionArithmetic ''net size'')
             (dec_add D (po_net_size p) (size_delta f))) (\<lambda>new_size.
           and_then (charge_fee D f p) (\<lambda>p1.
           and_then (meet_position D f new_size p1) (\<lambda>p2.
           and_then (ok_or (PositionArithmetic ''fill count'')
             (checked_add_w (po_fill_count p2) 1)) (\<lambda>n.
           Inr (hm_put (f_market f) (p2\<lparr>po_fill_count := n\<rparr>) t))))))"

definition position_restore :: "position \<Rightarrow> position_tracker \<Rightarrow> position_tracker" where
  "position_restore p t = hm_put (po_market p) p t"

primrec apply_fills ::
  "dec_ops \<Rightarrow> fill list \<Rightarrow> position_tracker \<Rightarrow> position_error + position_tracker" where
  "apply_fills D [] t = Inr t"
| "apply_fills D (f # fs) t = and_then (apply_fill D f t) (apply_fills D fs)"

subsection \<open>Profit and loss (pnl.rs)\<close>

datatype pnl_error = PnlArithmetic string

record market_pnl =
  mp_market :: market_key
  mp_realized :: decimal
  mp_unrealized :: decimal
  mp_net_position :: decimal
  mp_avg_entry :: decimal

record pnl_summary =
  su_total_realized :: decimal
  su_total_unrealized :: decimal
  su_total_fees :: decimal
  su_per_market :: "market_pnl list"

record pnl_calculator =
  pc_total_fills :: u64
  pc_total_fees :: decimal
  pc_current_mark_prices :: "(market_key, decimal) hash_map"

definition pnl_new :: pnl_calculator where
  "pnl_new = \<lparr>pc_total_fills = 0, pc_total_fees = 0, pc_current_mark_prices = []\<rparr>"

primrec record_fills :: "dec_ops \<Rightarrow> fill list \<Rightarrow> pnl_calculator \<Rightarrow> pnl_error + pnl_calculator" where
  "record_fills D [] c = Inr c"
| "record_fills D (f # fs) c =
     and_then (ok_or (PnlArithmetic ''fill count'') (checked_add_w (pc_total_fills c) 1)) (\<lambda>n.
     and_then (ok_or (PnlArithmetic ''total fees'') (dec_add D (pc_total_fees c) (amount (f_fee f))))
       (\<lambda>fees.
     record_fills D fs
       (c\<lparr>pc_total_fills := n, pc_total_fees := fees,
          pc_current_mark_prices := hm_put (f_market f) (f_price f) (pc_current_mark_prices c)\<rparr>)))"

definition update_mark :: "market_key \<Rightarrow> decimal \<Rightarrow> pnl_calculator \<Rightarrow> pnl_calculator" where
  "update_mark m price c =
     c\<lparr>pc_current_mark_prices := hm_put m price (pc_current_mark_prices c)\<rparr>"

definition unrealized_of ::
  "dec_ops \<Rightarrow> pnl_calculator \<Rightarrow> market_key \<Rightarrow> position \<Rightarrow> pnl_error + decimal" where
  "unrealized_of D c m p =
     (if po_net_size p \<noteq> 0
      then (case hm_get (pc_current_mark_prices c) m of
              None \<Rightarrow> Inr 0
            | Some mark \<Rightarrow> ok_or (PnlArithmetic ''unrealized P&L'')
                (Option.bind (dec_sub D mark (po_avg_entry_price p))
                   (\<lambda>d. dec_mul D d (po_net_size p))))
      else Inr 0)"

text \<open>The loop over the positions in the order of their keys.\<close>

fun summarize ::
  "dec_ops \<Rightarrow> pnl_calculator \<Rightarrow> (market_key \<times> position) list \<Rightarrow> decimal \<Rightarrow> decimal
     \<Rightarrow> market_pnl list \<Rightarrow> pnl_error + decimal \<times> decimal \<times> market_pnl list" where
  "summarize D c [] realized unrealized rows = Inr (realized, unrealized, rows)"
| "summarize D c ((m, p) # rest) realized unrealized rows =
     and_then (unrealized_of D c m p) (\<lambda>u.
     and_then (ok_or (PnlArithmetic ''total realized P&L'') (dec_add D realized (po_realized_pnl p)))
       (\<lambda>realized'.
     and_then (ok_or (PnlArithmetic ''total unrealized P&L'') (dec_add D unrealized u))
       (\<lambda>unrealized'.
     summarize D c rest realized' unrealized'
       (rows @ [\<lparr>mp_market = m, mp_realized = po_realized_pnl p, mp_unrealized = u,
                 mp_net_position = po_net_size p, mp_avg_entry = po_avg_entry_price p\<rparr>]))))"

definition compute_summary ::
  "dec_ops \<Rightarrow> pnl_calculator \<Rightarrow> position_tracker \<Rightarrow> pnl_error + pnl_summary" where
  "compute_summary D c t =
     map_ok (\<lambda>(realized, unrealized, rows).
         \<lparr>su_total_realized = realized, su_total_unrealized = unrealized,
           su_total_fees = pc_total_fees c, su_per_market = rows\<rparr>)
       (summarize D c (sort_key (\<lambda>(m, _). key_str m) t) 0 0 [])"

subsection \<open>The ledger (ledger.rs)\<close>

datatype ledger_error =
    LedgerFillModel fill_error
  | LedgerRejected message
  | LedgerPosition position_error
  | LedgerPnl pnl_error

datatype order_status = Accepted | PartiallyFilled | Filled | Cancelled | Rejected

primrec order_status_debug :: "order_status \<Rightarrow> string" where
  "order_status_debug Accepted = ''Accepted''"
| "order_status_debug PartiallyFilled = ''PartiallyFilled''"
| "order_status_debug Filled = ''Filled''"
| "order_status_debug Cancelled = ''Cancelled''"
| "order_status_debug Rejected = ''Rejected''"

record ledger_order =
  lo_order_id :: ulid
  lo_intent :: order_intent
  lo_status :: order_status
  lo_created_ts :: utc_time
  lo_updated_ts :: utc_time

record submission =
  sb_fills :: "fill list"
  sb_replayed :: bool

record paper_ledger =
  pl_orders :: "(ulid, ledger_order) hash_map"
  pl_fills :: "fill list"
  pl_positions :: position_tracker
  pl_pnl :: pnl_calculator
  pl_fill_config :: fill_config

definition ledger_with_config :: "fill_config \<Rightarrow> paper_ledger" where
  "ledger_with_config cfg =
     \<lparr>pl_orders = [], pl_fills = [], pl_positions = [], pl_pnl = pnl_new, pl_fill_config = cfg\<rparr>"

definition ledger_new :: paper_ledger where
  "ledger_new = ledger_with_config fill_config_default"

primrec total_filled :: "dec_ops \<Rightarrow> decimal \<Rightarrow> fill list \<Rightarrow> ledger_error + decimal" where
  "total_filled D acc [] = Inr acc"
| "total_filled D acc (f # fs) =
     and_then (ok_or (LedgerRejected (Lit ''filled size overflow'')) (dec_add D acc (f_size f)))
       (\<lambda>acc'. total_filled D acc' fs)"

definition record_order ::
  "utc_time \<Rightarrow> order_intent \<Rightarrow> order_status \<Rightarrow> (ulid, ledger_order) hash_map
     \<Rightarrow> (ulid, ledger_order) hash_map" where
  "record_order now it status orders =
     hm_modify (oi_id it) (\<lambda>o'. o'\<lparr>lo_status := status, lo_updated_ts := now\<rparr>)
       (hm_put (oi_id it) \<lparr>lo_order_id = oi_id it, lo_intent = it, lo_status = Accepted,
          lo_created_ts = now, lo_updated_ts = now\<rparr> orders)"

definition ledger_execute ::
  "dec_ops \<Rightarrow> render \<Rightarrow> utc_time \<Rightarrow> order_intent \<Rightarrow> order_book \<Rightarrow> paper_ledger
     \<Rightarrow> (ledger_error + submission) \<times> paper_ledger" where
  "ledger_execute D R now it book l =
     (if \<not> oi_paper it
      then (Inl (LedgerRejected (Lit ''only paper intents accepted by paper ledger'')), l)
      else (case hm_get (pl_orders l) (oi_id it) of
        Some existing \<Rightarrow>
          if lo_intent existing \<noteq> it
          then (Inl (LedgerRejected (Fmt ''intent id collision with different payload: {}''
                      [FNat (unat (oi_id it))])), l)
          else (Inr \<lparr>sb_fills = filter (\<lambda>f. f_order_id f = oi_id it) (pl_fills l),
                      sb_replayed = True\<rparr>, l)
      | None \<Rightarrow>
          (case and_then (map_err LedgerFillModel (walk_book D R book it (pl_fill_config l))) (\<lambda>fills.
                and_then (map_err LedgerPosition (apply_fills D fills (pl_positions l))) (\<lambda>positions.
                and_then (map_err LedgerPnl (record_fills D fills (pl_pnl l))) (\<lambda>pnl.
                and_then (total_filled D 0 fills) (\<lambda>got.
                Inr (fills, positions, pnl, got)))))
           of Inl e \<Rightarrow> (Inl e, l)
            | Inr (fills, positions, pnl, got) \<Rightarrow>
                (Inr \<lparr>sb_fills = fills, sb_replayed = False\<rparr>,
                 l\<lparr>pl_orders := record_order now it
                      (if oi_size it \<le> got then Filled else PartiallyFilled) (pl_orders l),
                    pl_positions := positions, pl_pnl := pnl,
                    pl_fills := pl_fills l @ fills\<rparr>))))"

definition ledger_submit ::
  "dec_ops \<Rightarrow> render \<Rightarrow> utc_time \<Rightarrow> order_intent \<Rightarrow> order_book \<Rightarrow> paper_ledger
     \<Rightarrow> (ledger_error + fill list) \<times> paper_ledger" where
  "ledger_submit D R now it book l =
     (let (r, l') = ledger_execute D R now it book l in (map_ok sb_fills r, l'))"

definition ledger_cancel ::
  "utc_time \<Rightarrow> ulid \<Rightarrow> paper_ledger \<Rightarrow> (ledger_error + unit) \<times> paper_ledger" where
  "ledger_cancel now i l =
     (case hm_get (pl_orders l) i of
        None \<Rightarrow> (Inl (LedgerRejected (Fmt ''order not found: {}'' [FNat (unat i)])), l)
      | Some ord \<Rightarrow>
          if lo_status ord = Accepted \<or> lo_status ord = PartiallyFilled
          then (Inr (), l\<lparr>pl_orders :=
                  hm_put i (ord\<lparr>lo_status := Cancelled, lo_updated_ts := now\<rparr>) (pl_orders l)\<rparr>)
          else (Inl (LedgerRejected (Fmt ''cannot cancel order in status {:?}''
                       [FStr (order_status_debug (lo_status ord))])), l))"

definition ledger_update_quote ::
  "quote \<Rightarrow> paper_ledger \<Rightarrow> (ledger_error + unit) \<times> paper_ledger" where
  "ledger_update_quote q l =
     (case q_mid q of
        None \<Rightarrow> (Inl (LedgerRejected (Lit ''quote has no midpoint'')), l)
      | Some mid \<Rightarrow>
          if mid \<le> 0 then (Inl (LedgerRejected (Lit ''quote midpoint must be positive'')), l)
          else (Inr (), l\<lparr>pl_pnl := update_mark (q_market q) mid (pl_pnl l)\<rparr>))"

text \<open>The requests the ledger serves, each with the time it is served at.\<close>

datatype ledger_op = LExecute utc_time order_intent order_book | LCancel utc_time ulid | LQuote quote

fun ledger_step :: "dec_ops \<Rightarrow> render \<Rightarrow> ledger_op \<Rightarrow> paper_ledger \<Rightarrow> paper_ledger" where
  "ledger_step D R (LExecute now it book) l = snd (ledger_execute D R now it book l)"
| "ledger_step D R (LCancel now i) l = snd (ledger_cancel now i l)"
| "ledger_step D R (LQuote q) l = snd (ledger_update_quote q l)"

subsection \<open>Exactly once\<close>

lemma execute_cases:
  assumes "ledger_execute D R now it book l = (r, l')"
  obtains (refused) e where "r = Inl e" "l' = l"
    | (replay) ord where "l' = l" "hm_get (pl_orders l) (oi_id it) = Some ord" "lo_intent ord = it"
        "r = Inr \<lparr>sb_fills = filter (\<lambda>f. f_order_id f = oi_id it) (pl_fills l), sb_replayed = True\<rparr>"
        "oi_paper it"
    | (fresh) fills positions pnl got where "oi_paper it"
        "hm_get (pl_orders l) (oi_id it) = None"
        "walk_book D R book it (pl_fill_config l) = Inr fills"
        "apply_fills D fills (pl_positions l) = Inr positions"
        "record_fills D fills (pl_pnl l) = Inr pnl" "total_filled D 0 fills = Inr got"
        "r = Inr \<lparr>sb_fills = fills, sb_replayed = False\<rparr>"
        "l' = l\<lparr>pl_orders := record_order now it
                  (if oi_size it \<le> got then Filled else PartiallyFilled) (pl_orders l),
               pl_positions := positions, pl_pnl := pnl, pl_fills := pl_fills l @ fills\<rparr>"
proof (cases "oi_paper it")
  case False
  with assms show thesis by (intro refused) (auto simp: ledger_execute_def)
next
  case paper: True
  show thesis
  proof (cases "hm_get (pl_orders l) (oi_id it)")
    case (Some ord)
    show thesis
    proof (cases "lo_intent ord = it")
      case True
      with paper Some assms show thesis by (intro replay [of ord]) (auto simp: ledger_execute_def)
    next
      case False
      with paper Some assms show thesis by (intro refused) (auto simp: ledger_execute_def)
    qed
  next
    case None
    let ?c = "and_then (map_err LedgerFillModel (walk_book D R book it (pl_fill_config l))) (\<lambda>fills.
                and_then (map_err LedgerPosition (apply_fills D fills (pl_positions l))) (\<lambda>positions.
                and_then (map_err LedgerPnl (record_fills D fills (pl_pnl l))) (\<lambda>pnl.
                and_then (total_filled D 0 fills) (\<lambda>got.
                Inr (fills, positions, pnl, got)))))"
    show thesis
    proof (cases ?c)
      case (Inl e)
      with paper None assms show thesis by (intro refused) (auto simp: ledger_execute_def)
    next
      case (Inr x)
      then obtain fills positions pnl got where x: "x = (fills, positions, pnl, got)"
        "walk_book D R book it (pl_fill_config l) = Inr fills"
        "apply_fills D fills (pl_positions l) = Inr positions"
        "record_fills D fills (pl_pnl l) = Inr pnl" "total_filled D 0 fills = Inr got"
        by (auto simp: result_iffs)
      with paper None Inr assms show thesis
        by (intro fresh [of fills positions pnl got]) (auto simp: ledger_execute_def)
    qed
  qed
qed

lemma walk_levels_order_id:
  "walk_levels D R b it cfg ls fills r = Inr (fills', r', v)
     \<Longrightarrow> \<forall>f \<in> set fills. f_order_id f = oi_id it \<Longrightarrow> \<forall>f \<in> set fills'. f_order_id f = oi_id it"
proof (induction ls arbitrary: fills r)
  case (Cons l ls)
  from Cons.prems(1) show ?case
  proof (cases rule: walk_levels_ConsE)
    case (fill fee rest)
    show ?thesis
      by (rule Cons.IH [OF fill(7)]) (use Cons.prems(2) in \<open>simp add: mk_fill_def\<close>)
  qed (use Cons.prems(2) in simp_all)
qed simp

lemma walk_book_order_id:
  assumes "walk_book D R b it cfg = Inr fills"
  shows "\<forall>f \<in> set fills. f_order_id f = oi_id it"
  using assms
proof (cases rule: walk_book_InrE)
  case (visible r v)
  from walk_levels_order_id [OF visible(3)] show ?thesis by simp
next
  case (exhausted_limit r)
  from walk_levels_order_id [OF exhausted_limit(3)] show ?thesis by simp
next
  case (exhausted fs r price fee)
  from walk_levels_order_id [OF exhausted(3)] exhausted(6) show ?thesis by (simp add: mk_fill_def)
qed

lemma record_order_get:
  "hm_get (record_order now it st orders) i =
     (if i = oi_id it
      then Some \<lparr>lo_order_id = oi_id it, lo_intent = it, lo_status = st, lo_created_ts = now,
                 lo_updated_ts = now\<rparr>
      else hm_get orders i)"
  by (simp add: record_order_def hm_get_modify hm_get_put)

text \<open>Every recorded fill belongs to a recorded order.\<close>

definition ledger_inv :: "paper_ledger \<Rightarrow> bool" where
  "ledger_inv l \<longleftrightarrow> (\<forall>f \<in> set (pl_fills l). hm_get (pl_orders l) (f_order_id f) \<noteq> None)"

text \<open>The intent has been executed with exactly these fills.\<close>

definition executed_as :: "order_intent \<Rightarrow> fill list \<Rightarrow> paper_ledger \<Rightarrow> bool" where
  "executed_as it fs l \<longleftrightarrow>
     (\<exists>ord. hm_get (pl_orders l) (oi_id it) = Some ord \<and> lo_intent ord = it)
     \<and> filter (\<lambda>f. f_order_id f = oi_id it) (pl_fills l) = fs"

lemma ledger_step_inv: "ledger_inv l \<Longrightarrow> ledger_inv (ledger_step D R e l)"
proof (cases e)
  case (LExecute now it book)
  assume inv: "ledger_inv l"
  obtain r l' where ex: "ledger_execute D R now it book l = (r, l')" by force
  then show ?thesis
  proof (cases rule: execute_cases)
    case (fresh fills positions pnl got)
    from walk_book_order_id [OF fresh(3)] inv LExecute ex fresh(8) show ?thesis
      by (auto simp: ledger_inv_def record_order_get)
  qed (use inv LExecute ex in auto)
next
  case (LCancel now i)
  assume "ledger_inv l"
  with LCancel show ?thesis
    by (auto simp: ledger_inv_def ledger_cancel_def hm_get_put split: option.splits)
next
  case (LQuote q)
  assume "ledger_inv l"
  with LQuote show ?thesis
    by (simp add: ledger_inv_def ledger_update_quote_def split: option.splits)
qed

lemma executed_as_step: "executed_as it fs l \<Longrightarrow> executed_as it fs (ledger_step D R e l)"
proof (cases e)
  case (LExecute now it' book)
  assume a: "executed_as it fs l"
  obtain r l' where ex: "ledger_execute D R now it' book l = (r, l')" by force
  then show ?thesis
  proof (cases rule: execute_cases)
    case (fresh fills positions pnl got)
    with a have ne: "oi_id it' \<noteq> oi_id it" by (auto simp: executed_as_def)
    with walk_book_order_id [OF fresh(3)] have "filter (\<lambda>f. f_order_id f = oi_id it) fills = []"
      by (auto simp: filter_empty_conv)
    with a ne LExecute ex fresh(8) show ?thesis by (auto simp: executed_as_def record_order_get)
  qed (use a LExecute ex in auto)
next
  case (LCancel now i)
  assume "executed_as it fs l"
  with LCancel show ?thesis
    by (auto simp: executed_as_def ledger_cancel_def hm_get_put split: option.splits)
next
  case (LQuote q)
  assume "executed_as it fs l"
  with LQuote show ?thesis
    by (simp add: executed_as_def ledger_update_quote_def split: option.splits)
qed

interpretation ledger: invariant_machine "ledger_step D R" ledger_inv for D R
  by unfold_locales (rule ledger_step_inv)

interpretation executed: invariant_machine "ledger_step D R" "executed_as it fs" for D R it fs
  by unfold_locales (rule executed_as_step)

lemma ledger_new_inv: "ledger_inv (ledger_with_config cfg)"
  by (simp add: ledger_inv_def ledger_with_config_def)

lemma fresh_executed_as:
  assumes "ledger_inv l" "ledger_execute D R now it book l = (Inr sb, l')" "\<not> sb_replayed sb"
  shows "executed_as it (sb_fills sb) l'"
  using assms(2)
proof (cases rule: execute_cases)
  case (fresh fills positions pnl got)
  from walk_book_order_id [OF fresh(3)] have "filter (\<lambda>f. f_order_id f = oi_id it) fills = fills"
    by (simp add: filter_id_conv)
  moreover from assms(1) fresh(2) have "filter (\<lambda>f. f_order_id f = oi_id it) (pl_fills l) = []"
    by (auto simp: ledger_inv_def filter_empty_conv)
  ultimately show ?thesis using fresh by (auto simp: executed_as_def record_order_get)
qed (use assms(3) in auto)

lemma replay:
  assumes "executed_as it fs l" "oi_paper it"
  shows "ledger_execute D R now it book l = (Inr \<lparr>sb_fills = fs, sb_replayed = True\<rparr>, l)"
  using assms by (auto simp: ledger_execute_def executed_as_def)

text \<open>
  Property C15. A paper order is filled exactly once: after it has been executed on a reachable
  ledger, and whatever executions, cancellations and quotes follow, submitting it again, at any
  time and with any book, returns the original fills as a replay and leaves the ledger as it is.
\<close>

theorem execute_exactly_once:
  assumes "l = fold (ledger_step D R) history (ledger_with_config cfg)"
    and "ledger_execute D R now it book l = (Inr sb, l1)" "\<not> sb_replayed sb"
    and "l2 = fold (ledger_step D R) later l1"
  shows "ledger_execute D R now' it book' l2 =
    (Inr \<lparr>sb_fills = sb_fills sb, sb_replayed = True\<rparr>, l2)"
proof (rule replay)
  have "ledger_inv l" unfolding assms(1) by (rule ledger.run_inv) (rule ledger_new_inv)
  from fresh_executed_as [OF this assms(2,3)] show "executed_as it (sb_fills sb) l2"
    unfolding assms(4) by (rule executed.run_inv)
  from assms(2) show "oi_paper it" by (cases rule: execute_cases) auto
qed

text \<open>
  A request that fails leaves the ledger exactly as it was, so that it can be
  retried: an execution that is refused, or fails in the fill model, in the position or profit
  accounting or in the total of the sizes, a refused cancellation, and a rejected quote.
\<close>

theorem failed_requests_change_nothing:
  "(case ledger_execute D R now it book l of (Inl e, l') \<Rightarrow> l' = l | _ \<Rightarrow> True)
    \<and> (case ledger_cancel now i l of (Inl e, l') \<Rightarrow> l' = l | _ \<Rightarrow> True)
    \<and> (case ledger_update_quote q l of (Inl e, l') \<Rightarrow> l' = l | _ \<Rightarrow> True)"
proof (intro conjI)
  obtain r l' where ex: "ledger_execute D R now it book l = (r, l')" by force
  then show "case ledger_execute D R now it book l of (Inl e, l') \<Rightarrow> l' = l | _ \<Rightarrow> True"
    by (cases rule: execute_cases) (simp_all add: ex)
qed (simp_all add: ledger_cancel_def ledger_update_quote_def split: option.splits)

subsection \<open>Profit and loss add up\<close>

text \<open>What a position is worth at a mark price, realized and unrealized.\<close>

definition equity :: "decimal \<Rightarrow> position \<Rightarrow> decimal" where
  "equity mark p = po_realized_pnl p + po_net_size p * (mark - po_avg_entry_price p)"

text \<open>What a fill is worth at a mark price: its signed size times the price move, less its fee.\<close>

definition fill_value :: "decimal \<Rightarrow> fill \<Rightarrow> decimal" where
  "fill_value mark f = size_delta f * (mark - f_price f) - amount (f_fee f)"

definition tracked :: "position_tracker \<Rightarrow> market_key \<Rightarrow> position" where
  "tracked t m = (case hm_get t m of None \<Rightarrow> position_zero m | Some p \<Rightarrow> p)"

lemma same_sign_average:
  fixes n d a f :: rat
  assumes "n \<noteq> 0" "sgn n = sgn d"
  shows "(n + d) * ((a * \<bar>n\<bar> + f * \<bar>d\<bar>) / (\<bar>n\<bar> + \<bar>d\<bar>)) = a * n + f * d"
proof -
  let ?s = "sgn n"
  have s: "\<bar>n\<bar> = ?s * n" "\<bar>d\<bar> = ?s * d" using assms(2) by (simp_all add: abs_sgn)
  have "0 < n \<and> 0 < d \<or> n < 0 \<and> d < 0" using assms by (auto simp: sgn_if split: if_splits)
  then have nd: "n + d \<noteq> 0" by auto
  have "(a * \<bar>n\<bar> + f * \<bar>d\<bar>) / (\<bar>n\<bar> + \<bar>d\<bar>) = (?s * (a * n + f * d)) / (?s * (n + d))"
    by (simp add: s algebra_simps)
  also have "\<dots> = (a * n + f * d) / (n + d)"
    using assms(1) by (intro mult_divide_mult_cancel_left) (simp add: sgn_0_0)
  finally show ?thesis using nd by simp
qed

lemma closed_size:
  fixes n d :: rat
  assumes "n \<noteq> 0" "d \<noteq> 0" "sgn n \<noteq> sgn d"
  shows "min \<bar>n\<bar> \<bar>d\<bar> * sgn n = (if n + d = 0 \<or> sgn (n + d) \<noteq> sgn n then n else - d)"
  using assms by (auto simp: sgn_if min_def abs_if split: if_splits)

lemma meet_position_equity:
  assumes "meet_position dec_exact f (po_net_size p + size_delta f) p = Inr q" "size_delta f \<noteq> 0"
  shows "equity mark q = equity mark p + size_delta f * (mark - f_price f)
    \<and> po_net_size q = po_net_size p + size_delta f"
proof (cases "po_net_size p = 0")
  case True
  with assms(1) have "q = p\<lparr>po_net_size := size_delta f, po_avg_entry_price := f_price f\<rparr>"
    by (simp add: meet_position_def)
  with True show ?thesis by (simp add: equity_def)
next
  case nz: False
  let ?n = "po_net_size p" and ?d = "size_delta f"
  show ?thesis
  proof (cases "sgn ?n = sgn ?d")
    case True
    let ?avg = "(po_avg_entry_price p * \<bar>?n\<bar> + f_price f * \<bar>?d\<bar>) / (\<bar>?n\<bar> + \<bar>?d\<bar>)"
    have "\<bar>?n\<bar> + \<bar>?d\<bar> \<noteq> 0" using nz by simp
    then have "q = p\<lparr>po_net_size := ?n + ?d, po_avg_entry_price := ?avg\<rparr>"
      using assms(1) nz True by (simp add: meet_position_def average_in_def)
    with same_sign_average [OF nz True, of "po_avg_entry_price p" "f_price f"]
    show ?thesis by (simp add: equity_def algebra_simps)
  next
    case False
    let ?flat = "?n + ?d = 0 \<or> sgn (?n + ?d) \<noteq> sgn ?n"
    have "realize dec_exact f p = Inr (po_realized_pnl p
        + (f_price f - po_avg_entry_price p) * (min \<bar>?n\<bar> \<bar>?d\<bar> * sgn ?n))"
      by (simp add: realize_def mult.assoc)
    then have r: "realize dec_exact f p = Inr (po_realized_pnl p
        + (f_price f - po_avg_entry_price p) * (if ?flat then ?n else - ?d))"
      by (simp only: closed_size [OF nz assms(2) False])
    show ?thesis
    proof (cases "?n + ?d = 0")
      case True
      then have "?d = - ?n" by simp
      with assms(1) nz False r show ?thesis
        by (auto simp: meet_position_def equity_def Let_def algebra_simps)
    next
      case open_: False
      then show ?thesis using assms(1) nz False r
        by (auto simp: meet_position_def equity_def Let_def algebra_simps split: if_splits)
    qed
  qed
qed

lemma apply_fill_equity:
  assumes "apply_fill dec_exact f t = Inr t'"
  shows "tracked t' m = tracked t m \<and> m \<noteq> f_market f \<or>
    m = f_market f \<and> equity mark (tracked t' m) = equity mark (tracked t m) + fill_value mark f
      \<and> po_net_size (tracked t' m) = po_net_size (tracked t m) + size_delta f
      \<and> po_fees_paid (tracked t' m) = po_fees_paid (tracked t m) + amount (f_fee f)"
proof -
  let ?p = "tracked t (f_market f)"
  from assms have pos: "0 < f_size f" by (auto simp: apply_fill_def split: if_splits)
  then have nz: "size_delta f \<noteq> 0" by (simp add: size_delta_def)
  let ?p1 = "?p\<lparr>po_fees_paid := po_fees_paid ?p + amount (f_fee f),
      po_realized_pnl := po_realized_pnl ?p - amount (f_fee f)\<rparr>"
  from assms pos obtain p2 n where
    p2: "meet_position dec_exact f (po_net_size ?p1 + size_delta f) ?p1 = Inr p2"
    and t': "t' = hm_put (f_market f) (p2\<lparr>po_fill_count := n\<rparr>) t"
    by (auto simp: apply_fill_def charge_fee_def tracked_def Let_def result_iffs split: if_splits)
  have fees: "po_fees_paid p2 = po_fees_paid ?p1"
    using p2 by (auto simp: meet_position_def Let_def result_iffs split: if_splits)
  have eq: "equity x (q\<lparr>po_fill_count := n\<rparr>) = equity x q" for x q by (simp add: equity_def)
  show ?thesis
  proof (cases "m = f_market f")
    case True
    have tr: "tracked t' (f_market f) = p2\<lparr>po_fill_count := n\<rparr>"
      by (simp add: t' tracked_def hm_get_put)
    from meet_position_equity [OF p2 nz, of mark] show ?thesis
      unfolding True tr by (simp add: eq fees) (simp add: equity_def fill_value_def)
  next
    case False
    then show ?thesis by (simp add: t' tracked_def hm_get_put)
  qed
qed

definition fills_of :: "market_key \<Rightarrow> fill list \<Rightarrow> fill list" where
  "fills_of m fs = filter (\<lambda>f. f_market f = m) fs"

lemma apply_fills_equity:
  "apply_fills dec_exact fs t = Inr t' \<Longrightarrow>
     equity mark (tracked t' m) = equity mark (tracked t m) + sum_list (map (fill_value mark) (fills_of m fs))
     \<and> po_net_size (tracked t' m) = po_net_size (tracked t m) + sum_list (map size_delta (fills_of m fs))
     \<and> po_fees_paid (tracked t' m)
         = po_fees_paid (tracked t m) + sum_list (map (\<lambda>f. amount (f_fee f)) (fills_of m fs))"
proof (induction fs arbitrary: t)
  case (Cons f fs)
  from Cons.prems obtain t1 where t1: "apply_fill dec_exact f t = Inr t1"
    "apply_fills dec_exact fs t1 = Inr t'" by (auto simp: result_iffs)
  from apply_fill_equity [OF t1(1), of m mark] Cons.IH [OF t1(2)] show ?case
    by (auto simp: fills_of_def)
qed (simp add: fills_of_def)

lemma apply_fill_keys:
  "apply_fill D f t = Inr t' \<Longrightarrow> dom (hm_get t') = insert (f_market f) (dom (hm_get t)) \<and> (hm_wf t \<longrightarrow> hm_wf t')"
proof -
  assume "apply_fill D f t = Inr t'"
  then obtain p where "t' = hm_put (f_market f) p t"
    by (auto simp: apply_fill_def Let_def result_iffs split: if_splits)
  then show ?thesis by (auto simp: hm_get_put hm_wf_put split: if_splits)
qed

lemma apply_fills_keys:
  "apply_fills D fs t = Inr t' \<Longrightarrow>
     dom (hm_get t') = f_market ` set fs \<union> dom (hm_get t) \<and> (hm_wf t \<longrightarrow> hm_wf t')"
proof (induction fs arbitrary: t)
  case (Cons f fs)
  from Cons.prems obtain t1 where t1: "apply_fill D f t = Inr t1" "apply_fills D fs t1 = Inr t'"
    by (auto simp: result_iffs)
  from apply_fill_keys [OF t1(1)] Cons.IH [OF t1(2)] show ?case by auto
qed simp

lemma record_fills_sums:
  "record_fills dec_exact fs c = Inr c' \<Longrightarrow>
     dom (hm_get (pc_current_mark_prices c')) = f_market ` set fs \<union> dom (hm_get (pc_current_mark_prices c))
     \<and> pc_total_fees c' = pc_total_fees c + sum_list (map (\<lambda>f. amount (f_fee f)) fs)"
proof (induction fs arbitrary: c)
  case (Cons f fs)
  from Cons.prems obtain n where "record_fills dec_exact fs
      (c\<lparr>pc_total_fills := n, pc_total_fees := pc_total_fees c + amount (f_fee f),
         pc_current_mark_prices := hm_put (f_market f) (f_price f) (pc_current_mark_prices c)\<rparr>) = Inr c'"
    by (auto simp: result_iffs)
  from Cons.IH [OF this] show ?case by (auto simp: hm_get_put split: if_splits)
qed simp

text \<open>The books of a ledger agree with its fills.\<close>

definition books_inv :: "paper_ledger \<Rightarrow> bool" where
  "books_inv l \<longleftrightarrow> hm_wf (pl_positions l)
     \<and> dom (hm_get (pl_positions l)) = f_market ` set (pl_fills l)
     \<and> f_market ` set (pl_fills l) \<subseteq> dom (hm_get (pc_current_mark_prices (pl_pnl l)))
     \<and> pc_total_fees (pl_pnl l) = sum_list (map (\<lambda>f. amount (f_fee f)) (pl_fills l))
     \<and> (\<forall>m mark. equity mark (tracked (pl_positions l) m)
          = sum_list (map (fill_value mark) (fills_of m (pl_fills l))))"

lemma books_new: "books_inv (ledger_with_config cfg)"
  by (simp add: books_inv_def ledger_with_config_def pnl_new_def tracked_def position_zero_def
      equity_def fills_of_def)

lemma books_step: "books_inv l \<Longrightarrow> books_inv (ledger_step dec_exact R e l)"
proof (cases e)
  case (LExecute now it book)
  assume inv: "books_inv l"
  obtain r l' where ex: "ledger_execute dec_exact R now it book l = (r, l')" by force
  then show ?thesis
  proof (cases rule: execute_cases)
    case (fresh fills positions pnl got)
    from apply_fills_keys [OF fresh(4)] record_fills_sums [OF fresh(5)] inv
    have k: "hm_wf positions" "dom (hm_get positions) = f_market ` set (pl_fills l @ fills)"
      "f_market ` set (pl_fills l @ fills) \<subseteq> dom (hm_get (pc_current_mark_prices pnl))"
      "pc_total_fees pnl = sum_list (map (\<lambda>f. amount (f_fee f)) (pl_fills l @ fills))"
      by (auto simp: books_inv_def)
    have "equity mark (tracked positions m)
        = sum_list (map (fill_value mark) (fills_of m (pl_fills l @ fills)))" for m mark
      using apply_fills_equity [OF fresh(4), of mark m] inv by (simp add: books_inv_def fills_of_def)
    with k show ?thesis using LExecute ex fresh(8) by (simp add: books_inv_def)
  qed (use inv LExecute ex in auto)
next
  case (LCancel now i)
  assume "books_inv l"
  with LCancel show ?thesis by (simp add: books_inv_def ledger_cancel_def split: option.split)
next
  case (LQuote q)
  assume "books_inv l"
  with LQuote show ?thesis
    by (auto simp: books_inv_def ledger_update_quote_def update_mark_def hm_get_put split: option.split)
qed

interpretation books: invariant_machine "ledger_step dec_exact R" books_inv for R
  by unfold_locales (rule books_step)

text \<open>The mark price of a market, and what a position contributes to a summary.\<close>

definition mark_of :: "pnl_calculator \<Rightarrow> market_key \<Rightarrow> decimal" where
  "mark_of c m = the (hm_get (pc_current_mark_prices c) m)"

lemma unrealized_exact:
  assumes "m \<in> dom (hm_get (pc_current_mark_prices c))"
  shows "\<exists>u. unrealized_of dec_exact c m p = Inr u \<and> po_realized_pnl p + u = equity (mark_of c m) p"
  using assms by (auto simp: unrealized_of_def equity_def mark_of_def)

lemma summarize_exact:
  "fst ` set ps \<subseteq> dom (hm_get (pc_current_mark_prices c)) \<Longrightarrow>
     \<exists>r' u' rows'. summarize dec_exact c ps r u rows = Inr (r', u', rows')
       \<and> r' + u' = r + u + sum_list (map (\<lambda>(m, p). equity (mark_of c m) p) ps)"
proof (induction dec_exact c ps r u rows rule: summarize.induct)
  case (2 c m p rest r u rows)
  from 2(2) obtain x where x: "unrealized_of dec_exact c m p = Inr x"
    "po_realized_pnl p + x = equity (mark_of c m) p"
    using unrealized_exact [of m c p] by auto
  from 2(1) [of "r + po_realized_pnl p" "u + x" x] 2(2) x show ?case by auto
qed simp

lemma sum_by_market:
  assumes "distinct ms" "f_market ` set fs \<subseteq> set ms"
  shows "sum_list (map (\<lambda>m. sum_list (map (v m) (fills_of m fs))) ms)
    = sum_list (map (\<lambda>f. v (f_market f) f :: rat) fs)"
  using assms(2)
proof (induction fs)
  case (Cons f fs)
  have split: "sum_list (map (v m) (fills_of m (f # fs)))
      = (if f_market f = m then v m f else 0) + sum_list (map (v m) (fills_of m fs))" for m
    by (simp add: fills_of_def)
  have "sum_list (map (\<lambda>m. if f_market f = m then v m f else 0) ms) = v (f_market f) f"
    using assms(1) Cons.prems by (simp add: sum_list_distinct_conv_sum_set)
  with Cons show ?case by (simp add: split sum_list_addf)
qed (simp add: fills_of_def)

text \<open>
  The books add up: in arithmetic without rounding, after any history of executions,
  cancellations and quotes, the profit summary exists, its realized plus unrealized profit is the
  sum over all recorded fills of signed size times the move from fill price to current mark, less
  the fee, whatever order the fills opened, increased, reduced or flipped positions in, and its
  total of fees is the sum of the fills' fees.
\<close>

theorem ledger_profit_is_mark_to_market:
  fixes history R cfg
  defines "l \<equiv> fold (ledger_step dec_exact R) history (ledger_with_config cfg)"
  shows "\<exists>su. compute_summary dec_exact (pl_pnl l) (pl_positions l) = Inr su
    \<and> su_total_realized su + su_total_unrealized su
        = sum_list (map (\<lambda>f. fill_value (mark_of (pl_pnl l) (f_market f)) f) (pl_fills l))
    \<and> su_total_fees su = sum_list (map (\<lambda>f. amount (f_fee f)) (pl_fills l))"
proof -
  let ?c = "pl_pnl l" and ?t = "pl_positions l"
  have inv: "books_inv l" unfolding l_def by (rule books.run_inv) (rule books_new)
  let ?ps = "sort_key (\<lambda>(m, _). key_str m) ?t"
  have keys: "fst ` set ?t = f_market ` set (pl_fills l)"
    using inv by (simp add: books_inv_def dom_map_of_conv_image_fst)
  then have "fst ` set ?ps \<subseteq> dom (hm_get (pc_current_mark_prices ?c))"
    using inv by (auto simp: books_inv_def)
  from summarize_exact [OF this, of 0 0 "[]"] obtain r u rows where
    s: "summarize dec_exact ?c ?ps 0 0 [] = Inr (r, u, rows)"
    "r + u = sum_list (map (\<lambda>(m, p). equity (mark_of ?c m) p) ?ps)" by auto
  have "equity (mark_of ?c m) p = sum_list (map (fill_value (mark_of ?c m)) (fills_of m (pl_fills l)))"
    if "(m, p) \<in> set ?t" for m p
  proof -
    from that inv have "hm_get ?t m = Some p" by (simp add: books_inv_def hm_get_in_set)
    then have "tracked ?t m = p" by (simp add: tracked_def)
    with inv show ?thesis by (auto simp: books_inv_def)
  qed
  then have "map (\<lambda>(m, p). equity (mark_of ?c m) p) ?ps
      = map (\<lambda>m. sum_list (map (fill_value (mark_of ?c m)) (fills_of m (pl_fills l)))) (map fst ?ps)"
    by auto
  with s(2) have "r + u
      = sum_list (map (\<lambda>m. sum_list (map (fill_value (mark_of ?c m)) (fills_of m (pl_fills l)))) (map fst ?ps))"
    by (simp only:)
  also have "\<dots> = sum_list (map (\<lambda>f. fill_value (mark_of ?c (f_market f)) f) (pl_fills l))"
  proof (rule sum_by_market)
    show "distinct (map fst ?ps)"
      using inv by (simp add: books_inv_def distinct_map inj_on_def)
    show "f_market ` set (pl_fills l) \<subseteq> set (map fst ?ps)" by (simp add: keys)
  qed
  finally have "r + u = sum_list (map (\<lambda>f. fill_value (mark_of ?c (f_market f)) f) (pl_fills l))" .
  with s(1) inv show ?thesis by (simp add: compute_summary_def books_inv_def)
qed

lemma wit_execute:
  "\<exists>sb l1. ledger_execute dec_exact wit_render 0 wit_intent wit_book
     (fold (ledger_step dec_exact wit_render) [] (ledger_with_config fill_config_default)) = (Inr sb, l1)
     \<and> \<not> sb_replayed sb"
  by (simp add: ledger_execute_def ledger_with_config_def walk_book_def fill_config_validate_def
      fill_config_default_def is_blank_def wit_book_def wit_intent_def book_side_def check_limit_def
      Let_def finish_fills_def apply_fill_def size_delta_def charge_fee_def meet_position_def
      average_in_def position_zero_def pnl_new_def mk_fill_def money_new_def checked_add_w_def)

theorem execute_exactly_once_witness:
  "\<exists>sb l1. ledger_execute dec_exact wit_render 0 wit_intent wit_book ledger_new = (Inr sb, l1)
     \<and> ledger_execute dec_exact wit_render 9 wit_intent wit_book (snd (ledger_cancel 5 1 l1))
       = (Inr \<lparr>sb_fills = sb_fills sb, sb_replayed = True\<rparr>, snd (ledger_cancel 5 1 l1))"
proof -
  obtain sb l1 where e: "ledger_execute dec_exact wit_render 0 wit_intent wit_book
     (fold (ledger_step dec_exact wit_render) [] (ledger_with_config fill_config_default)) = (Inr sb, l1)"
     "\<not> sb_replayed sb" using wit_execute by blast
  from execute_exactly_once [OF refl e, of _ "[LCancel 5 1]" 9 wit_book] e(1) show ?thesis
    by (auto simp: ledger_new_def)
qed

end
