(* ===== verification/Mismatch.thy ===== *)
theory Mismatch
  imports Decimal_Instance
begin

text \<open>
  Settlement-mismatch discounts. The order router
  (\<^verbatim>\<open>connectors/execution/order-router/src/mismatch.rs\<close>) and the edge decomposition
  (\<^verbatim>\<open>crates/aether-decompose/src/mismatch.rs\<close>) read the same table with two different loaders. The
  TOML and decimal parsers are arguments: the parsed document, and a function from a text to a
  decimal or an error text. The lemmas show that an accepted table is symmetric and in range, and
  that the two loaders give the same discount for every pair of venues.
\<close>

subsection \<open>TOML values and splitting\<close>

text \<open>What the loaders distinguish: strings, tables (with distinct keys, in iteration order) and
  everything else.\<close>

datatype toml = TString string | TTable "(string \<times> toml) list" | TOther

fun toml_get :: "string \<Rightarrow> toml \<Rightarrow> toml option" where
  "toml_get k (TTable t) = map_of t k"
| "toml_get k _ = None"

fun toml_str :: "toml \<Rightarrow> string option" where
  "toml_str (TString s) = Some s"
| "toml_str _ = None"

definition split_once :: "char \<Rightarrow> string \<Rightarrow> (string \<times> string) option" where
  "split_once c s =
     (if c \<in> set s then Some (takeWhile (\<lambda>x. x \<noteq> c) s, tl (dropWhile (\<lambda>x. x \<noteq> c) s)) else None)"

definition joined :: "string \<Rightarrow> char \<Rightarrow> string \<Rightarrow> string" where
  "joined a c b = a @ c # b"

lemma split_once_joined: "c \<notin> set a \<Longrightarrow> split_once c (joined a c b) = Some (a, b)"
proof -
  assume "c \<notin> set a"
  then have "takeWhile (\<lambda>x. x \<noteq> c) (a @ c # b) = a" "dropWhile (\<lambda>x. x \<noteq> c) (a @ c # b) = c # b"
    by (induction a) auto
  then show ?thesis by (simp add: split_once_def joined_def)
qed

lemma split_once_Some: "split_once c s = Some (a, b) \<Longrightarrow> s = joined a c b \<and> c \<notin> set a"
proof -
  assume "split_once c s = Some (a, b)"
  then have "c \<in> set s" "a = takeWhile (\<lambda>x. x \<noteq> c) s" "b = tl (dropWhile (\<lambda>x. x \<noteq> c) s)"
    by (auto simp: split_once_def split: if_splits)
  then show ?thesis
    by (induction s arbitrary: a) (auto simp: joined_def)
qed

lemma joined_inject:
  "c \<notin> set a \<Longrightarrow> c \<notin> set a' \<Longrightarrow> joined a c b = joined a' c b' \<longleftrightarrow> a = a' \<and> b = b'"
  by (simp add: joined_def separator_split)

subsection \<open>The router's table (order-router/src/mismatch.rs)\<close>

record mismatch_entry =
  me_discount :: string
  me_rationale :: string

record mismatch_config =
  mc_entries :: "(string, mismatch_entry) hash_map"
  mc_default_discount :: decimal

datatype mismatch_error =
    MParse string
  | MInvalidDiscount string string
  | MMissingDefault
  | MDiscountOutOfRange string
  | MMalformedEntry string string
  | MMissingReverse string string
  | MAsymmetricPair string string

type_synonym parse_decimal = "string \<Rightarrow> string + decimal"

definition parse_discount :: "parse_decimal \<Rightarrow> string \<Rightarrow> string \<Rightarrow> mismatch_error + decimal" where
  "parse_discount parse key raw =
     and_then (map_err (MInvalidDiscount raw) (parse raw)) (\<lambda>d.
       if \<not> (0 \<le> d \<and> d \<le> 1) then Inl (MDiscountOutOfRange key) else Inr d)"

definition as_entry :: "toml \<Rightarrow> mismatch_entry option" where
  "as_entry v =
     (case (Option.bind (toml_get ''discount'' v) toml_str,
            Option.bind (toml_get ''rationale'' v) toml_str) of
        (Some d, Some r) \<Rightarrow> Some \<lparr>me_discount = d, me_rationale = r\<rparr>
      | _ \<Rightarrow> None)"

fun scan_entries ::
  "parse_decimal \<Rightarrow> (string \<times> toml) list \<Rightarrow> (string, mismatch_entry) hash_map \<Rightarrow> decimal option
     \<Rightarrow> mismatch_error + (string, mismatch_entry) hash_map \<times> decimal option" where
  "scan_entries parse [] entries dflt = Inr (entries, dflt)"
| "scan_entries parse ((key, v) # rest) entries dflt =
     (if key = ''_default''
      then and_then (ok_or (MMalformedEntry key ''missing discount'')
               (Option.bind (toml_get ''discount'' v) toml_str)) (\<lambda>d.
           and_then (parse_discount parse key d) (\<lambda>x. scan_entries parse rest entries (Some x)))
      else (case as_entry v of
              Some e \<Rightarrow> and_then (parse_discount parse key (me_discount e)) (\<lambda>_.
                scan_entries parse rest (hm_put key e entries) dflt)
            | None \<Rightarrow> Inl (MMalformedEntry key ''expected discount and rationale strings'')))"

definition check_pair ::
  "parse_decimal \<Rightarrow> (string, mismatch_entry) hash_map \<Rightarrow> string \<Rightarrow> mismatch_entry
     \<Rightarrow> mismatch_error + unit" where
  "check_pair parse entries key e =
     (case split_once (CHR ''-'') key of
        None \<Rightarrow> Inl (MMalformedEntry key ''venue pair key must be venue-a-venue-b'')
      | Some (left, right) \<Rightarrow>
          if left = right
          then and_then (parse_discount parse key (me_discount e)) (\<lambda>d.
                 if d \<noteq> 0 then Inl (MDiscountOutOfRange key) else Inr ())
          else let reverse = joined right (CHR ''-'') left in
            (case hm_get entries reverse of
               None \<Rightarrow> Inl (MMissingReverse key reverse)
             | Some r \<Rightarrow>
                 and_then (parse_discount parse key (me_discount e)) (\<lambda>d.
                 and_then (parse_discount parse reverse (me_discount r)) (\<lambda>d'.
                   if d \<noteq> d' then Inl (MAsymmetricPair key reverse) else Inr ()))))"

fun check_pairs ::
  "parse_decimal \<Rightarrow> (string, mismatch_entry) hash_map \<Rightarrow> (string \<times> mismatch_entry) list
     \<Rightarrow> mismatch_error + unit" where
  "check_pairs parse entries [] = Inr ()"
| "check_pairs parse entries ((key, e) # rest) =
     and_then (check_pair parse entries key e) (\<lambda>_. check_pairs parse entries rest)"

definition mismatch_load ::
  "parse_decimal \<Rightarrow> string + toml \<Rightarrow> mismatch_error + mismatch_config" where
  "mismatch_load parse parsed =
     and_then (map_err MParse parsed) (\<lambda>raw.
       case raw of
         TTable table \<Rightarrow>
           and_then (scan_entries parse table [] None) (\<lambda>(entries, dflt).
           and_then (check_pairs parse entries entries) (\<lambda>_.
           map_ok (\<lambda>d. \<lparr>mc_entries = entries, mc_default_discount = d\<rparr>)
             (ok_or MMissingDefault dflt)))
       | _ \<Rightarrow> Inl (MParse ''top-level TOML value must be a table''))"

definition discount_for :: "parse_decimal \<Rightarrow> mismatch_config \<Rightarrow> string \<Rightarrow> string \<Rightarrow> decimal" where
  "discount_for parse c a b =
     (if a = b then 0
      else let key = joined a (CHR ''-'') b in
        (case hm_get (mc_entries c) key of
           Some e \<Rightarrow> (case parse_discount parse key (me_discount e) of
                        Inr d \<Rightarrow> d | Inl _ \<Rightarrow> mc_default_discount c)
         | None \<Rightarrow> mc_default_discount c))"

definition settlement_mismatch_cost ::
  "dec_ops \<Rightarrow> parse_decimal \<Rightarrow> mismatch_config \<Rightarrow> string \<Rightarrow> string \<Rightarrow> decimal \<Rightarrow> decimal option" where
  "settlement_mismatch_cost D parse c a b gross =
     (if gross \<le> 0 then Some 0 else dec_mul D gross (discount_for parse c a b))"

text \<open>The two fixed texts hold a dash that is not ASCII; it is written as a hyphen here.\<close>

definition mismatch_rationale :: "mismatch_config \<Rightarrow> string \<Rightarrow> string \<Rightarrow> string" where
  "mismatch_rationale c a b =
     (if a = b then ''same source - no settlement mismatch risk''
      else (case hm_get (mc_entries c) (joined a (CHR ''-'') b) of
              Some e \<Rightarrow> me_rationale e
            | None \<Rightarrow> ''unlisted pair - conservative default applied''))"

subsection \<open>The decomposition's table (aether-decompose/src/mismatch.rs)\<close>

record pair_config =
  pd_pair_discounts :: "(string, decimal) hash_map"
  pd_default_discount :: decimal

definition pair_config_default :: pair_config where
  "pair_config_default = \<lparr>pd_pair_discounts = [], pd_default_discount = 0\<rparr>"

datatype mismatch_load_error =
    LParse string
  | LMissingDiscount string
  | LInvalidDiscount string string
  | LOutOfRange string
  | LInvalidPair string
  | LMissingDefault
  | LSameSourceNonZero string
  | LAsymmetricPair string string

definition pair_discount_for :: "pair_config \<Rightarrow> string \<Rightarrow> string \<Rightarrow> decimal" where
  "pair_discount_for c a b =
     (if a = b then 0
      else (case hm_get (pd_pair_discounts c) (joined a (CHR '':'') b) of
              Some d \<Rightarrow> d
            | None \<Rightarrow> (case hm_get (pd_pair_discounts c) (joined b (CHR '':'') a) of
                         Some d \<Rightarrow> d | None \<Rightarrow> pd_default_discount c)))"

fun scan_pairs ::
  "parse_decimal \<Rightarrow> (string \<times> toml) list \<Rightarrow> (string, decimal) hash_map \<Rightarrow> decimal option
     \<Rightarrow> mismatch_load_error + (string, decimal) hash_map \<times> decimal option" where
  "scan_pairs parse [] discounts dflt = Inr (discounts, dflt)"
| "scan_pairs parse ((key, v) # rest) discounts dflt =
     and_then (ok_or (LMissingDiscount key) (Option.bind (toml_get ''discount'' v) toml_str)) (\<lambda>raw.
     and_then (map_err (LInvalidDiscount key) (parse raw)) (\<lambda>d.
       if \<not> (0 \<le> d \<and> d \<le> 1) then Inl (LOutOfRange key)
       else if key = ''_default'' then scan_pairs parse rest discounts (Some d)
       else and_then (ok_or (LInvalidPair key) (split_once (CHR ''-'') key)) (\<lambda>(left, right).
              scan_pairs parse rest (hm_put (joined left (CHR '':'') right) d discounts) dflt)))"

fun check_symmetric ::
  "(string, decimal) hash_map \<Rightarrow> (string \<times> decimal) list \<Rightarrow> mismatch_load_error + unit" where
  "check_symmetric discounts [] = Inr ()"
| "check_symmetric discounts ((key, d) # rest) =
     and_then (ok_or (LInvalidPair key) (split_once (CHR '':'') key)) (\<lambda>(left, right).
       if left = right
       then (if d \<noteq> 0 then Inl (LSameSourceNonZero key) else check_symmetric discounts rest)
       else let reverse = joined right (CHR '':'') left in
         if hm_get discounts reverse \<noteq> Some d then Inl (LAsymmetricPair key reverse)
         else check_symmetric discounts rest)"

definition pairs_from_toml ::
  "parse_decimal \<Rightarrow> string + toml \<Rightarrow> mismatch_load_error + pair_config" where
  "pairs_from_toml parse parsed =
     and_then (map_err LParse parsed) (\<lambda>raw.
       case raw of
         TTable table \<Rightarrow>
           and_then (scan_pairs parse table [] None) (\<lambda>(discounts, dflt).
           and_then (ok_or LMissingDefault dflt) (\<lambda>d.
           and_then (check_symmetric discounts discounts) (\<lambda>_.
           Inr \<lparr>pd_pair_discounts = discounts, pd_default_discount = d\<rparr>)))
       | _ \<Rightarrow> Inl (LParse ''top level must be a table''))"

subsection \<open>What the scans collect\<close>

definition discount_text :: "toml \<Rightarrow> string option" where
  "discount_text v = Option.bind (toml_get ''discount'' v) toml_str"

lemma as_entry_discount: "as_entry v = Some e \<Longrightarrow> discount_text v = Some (me_discount e)"
  by (auto simp: as_entry_def discount_text_def split: option.splits)

lemma parse_discount_Inr:
  "parse_discount parse key raw = Inr d \<longleftrightarrow> parse raw = Inr d \<and> 0 \<le> d \<and> d \<le> 1"
  by (auto simp: parse_discount_def result_iffs split: if_splits)

text \<open>The discount a table gives to a key: a text that parses to a decimal in range.\<close>

definition table_discount :: "parse_decimal \<Rightarrow> (string \<times> toml) list \<Rightarrow> string \<Rightarrow> decimal option" where
  "table_discount parse table k =
     Option.bind (map_of table k) (\<lambda>v. Option.bind (discount_text v) (\<lambda>s.
       case parse s of Inr d \<Rightarrow> if 0 \<le> d \<and> d \<le> 1 then Some d else None | Inl _ \<Rightarrow> None))"

lemma table_discount_Some:
  "table_discount parse table k = Some d \<longleftrightarrow>
     (\<exists>v s. map_of table k = Some v \<and> discount_text v = Some s \<and> parse s = Inr d \<and> 0 \<le> d \<and> d \<le> 1)"
proof (cases "map_of table k")
  case (Some v)
  show ?thesis
  proof (cases "discount_text v")
    case (Some s)
    with \<open>map_of table k = Some v\<close> show ?thesis
      by (cases "parse s") (auto simp: table_discount_def)
  qed (use Some in \<open>simp add: table_discount_def\<close>)
qed (simp add: table_discount_def)

lemma scan_entries_ConsE:
  assumes "scan_entries parse ((key, v) # rest) entries dflt = Inr r"
  obtains (default_key) s d where "key = ''_default''" "discount_text v = Some s" "parse s = Inr d"
      "0 \<le> d" "d \<le> 1" "scan_entries parse rest entries (Some d) = Inr r"
    | (pair) e d where "key \<noteq> ''_default''" "as_entry v = Some e" "parse (me_discount e) = Inr d"
      "0 \<le> d" "d \<le> 1" "scan_entries parse rest (hm_put key e entries) dflt = Inr r"
proof (cases "key = ''_default''")
  case True
  with assms obtain s d where "discount_text v = Some s" "parse_discount parse key s = Inr d"
    "scan_entries parse rest entries (Some d) = Inr r"
    unfolding discount_text_def by (auto simp: and_then_Inr_iff ok_or_Inr_iff)
  with True show thesis by (intro default_key) (auto simp: parse_discount_Inr)
next
  case False
  with assms obtain e d where "as_entry v = Some e" "parse_discount parse key (me_discount e) = Inr d"
    "scan_entries parse rest (hm_put key e entries) dflt = Inr r"
    by (auto simp: and_then_Inr_iff split: option.splits)
  with False show thesis by (intro pair) (auto simp: parse_discount_Inr)
qed

lemma scan_entries_get:
  "scan_entries parse table entries dflt = Inr (entries', dflt') \<Longrightarrow> distinct (map fst table) \<Longrightarrow>
     k \<noteq> ''_default'' \<Longrightarrow>
     (case map_of table k of
        Some v \<Rightarrow> \<exists>e d. as_entry v = Some e \<and> hm_get entries' k = Some e
          \<and> table_discount parse table k = Some d \<and> parse (me_discount e) = Inr d
      | None \<Rightarrow> hm_get entries' k = hm_get entries k)"
proof (induction table arbitrary: entries dflt)
  case (Cons x rest)
  obtain key v where x: "x = (key, v)" by force
  from Cons.prems(1) have sc: "scan_entries parse ((key, v) # rest) entries dflt = Inr (entries', dflt')"
    by (simp add: x)
  have other: "table_discount parse (x # rest) k = table_discount parse rest k" if "k \<noteq> key"
    using that by (simp add: table_discount_def x)
  from sc show ?case
  proof (cases rule: scan_entries_ConsE)
    case (default_key s d)
    with Cons.IH [OF default_key(6)] Cons.prems(2,3) other show ?thesis
      by (cases "map_of rest k") (simp_all add: x)
  next
    case (pair e d)
    show ?thesis
    proof (cases "k = key")
      case True
      then have "map_of rest k = None" using Cons.prems(2) by (auto simp: x map_of_eq_None_iff)
      with Cons.IH [OF pair(6)] Cons.prems(2,3) True have "hm_get entries' k = Some e"
        by (simp add: hm_get_put)
      moreover have "table_discount parse (x # rest) k = Some d"
        using True pair by (simp add: table_discount_Some x as_entry_discount)
      ultimately show ?thesis using True pair by (simp add: x)
    next
      case False
      with Cons.IH [OF pair(6)] Cons.prems(2,3) other show ?thesis
        by (cases "map_of rest k") (simp_all add: x hm_get_put)
    qed
  qed
qed simp

lemma scan_entries_default:
  "scan_entries parse table entries dflt = Inr (entries', dflt') \<Longrightarrow> distinct (map fst table) \<Longrightarrow>
     dflt' = (case map_of table ''_default'' of
                Some v \<Rightarrow> table_discount parse table ''_default'' | None \<Rightarrow> dflt)"
proof (induction table arbitrary: entries dflt)
  case (Cons x rest)
  obtain key v where x: "x = (key, v)" by force
  from Cons.prems(1) have sc: "scan_entries parse ((key, v) # rest) entries dflt = Inr (entries', dflt')"
    by (simp add: x)
  from sc show ?case
  proof (cases rule: scan_entries_ConsE)
    case (default_key s d)
    then have "map_of rest ''_default'' = None" using Cons.prems(2) by (auto simp: x map_of_eq_None_iff)
    with Cons.IH [OF default_key(6)] Cons.prems(2) have "dflt' = Some d" by (simp add: x)
    moreover have "table_discount parse (x # rest) ''_default'' = Some d"
      using default_key by (simp add: table_discount_Some x)
    ultimately show ?thesis using default_key by (simp add: x)
  next
    case (pair e d)
    have "table_discount parse (x # rest) ''_default'' = table_discount parse rest ''_default''"
      using pair(1) by (simp add: table_discount_def x)
    with Cons.IH [OF pair(6)] Cons.prems(2) pair(1) show ?thesis
      by (cases "map_of rest ''_default''") (simp_all add: x)
  qed
qed simp

lemma check_pairs_all:
  "check_pairs parse entries ps = Inr () \<Longrightarrow> (k, e) \<in> set ps \<Longrightarrow> check_pair parse entries k e = Inr ()"
  by (induction ps) (auto simp: and_then_Inr_iff)

text \<open>What an accepted router table promises of a pair of names without a hyphen.\<close>

lemma check_pair_reverse:
  assumes "check_pair parse entries (joined a (CHR ''-'') b) e = Inr ()" "CHR ''-'' \<notin> set a" "a \<noteq> b"
  obtains r d where "hm_get entries (joined b (CHR ''-'') a) = Some r"
    "parse (me_discount e) = Inr d" "parse (me_discount r) = Inr d" "0 \<le> d" "d \<le> 1"
  using assms
  by (auto simp: check_pair_def split_once_joined Let_def and_then_Inr_iff parse_discount_Inr
      split: option.splits if_splits)

lemma joined_not_default: "joined a (CHR ''-'') b \<noteq> ''_default''"
proof
  assume "joined a (CHR ''-'') b = ''_default''"
  then have "CHR ''-'' \<in> set ''_default''" by (metis in_set_conv_decomp joined_def)
  then show False by simp
qed

lemma mismatch_loadE:
  assumes "mismatch_load parse parsed = Inr c"
  obtains table where "parsed = Inr (TTable table)"
    "scan_entries parse table [] None = Inr (mc_entries c, Some (mc_default_discount c))"
    "check_pairs parse (mc_entries c) (mc_entries c) = Inr ()"
proof -
  from assms obtain raw where raw: "parsed = Inr raw"
    by (auto simp: mismatch_load_def and_then_Inr_iff map_err_Inr_iff)
  with assms obtain table where t: "raw = TTable table"
    by (cases raw) (auto simp: mismatch_load_def)
  with assms raw obtain entries dflt d where "scan_entries parse table [] None = Inr (entries, dflt)"
    "check_pairs parse entries entries = Inr ()" "dflt = Some d"
    "c = \<lparr>mc_entries = entries, mc_default_discount = d\<rparr>"
    by (auto simp: mismatch_load_def result_iffs)
  with raw t show thesis by (intro that) auto
qed

text \<open>The discount of a pair, in terms of the table: its entry's, or the default's.\<close>

definition spec_discount :: "parse_decimal \<Rightarrow> (string \<times> toml) list \<Rightarrow> string \<Rightarrow> string \<Rightarrow> decimal" where
  "spec_discount parse table a b =
     (if a = b then 0
      else (case table_discount parse table (joined a (CHR ''-'') b) of
              Some d \<Rightarrow> d | None \<Rightarrow> the (table_discount parse table ''_default'')))"

definition toml_wf :: "string + toml \<Rightarrow> bool" where
  "toml_wf parsed \<longleftrightarrow> (case parsed of Inr (TTable table) \<Rightarrow> distinct (map fst table) | _ \<Rightarrow> True)"

lemma router_discount_spec:
  assumes "mismatch_load parse parsed = Inr c" "parsed = Inr (TTable table)" "distinct (map fst table)"
  shows "discount_for parse c a b = spec_discount parse table a b
    \<and> table_discount parse table ''_default'' = Some (mc_default_discount c)"
proof -
  let ?k = "joined a (CHR ''-'') b"
  from assms(1,2) have sc: "scan_entries parse table [] None = Inr (mc_entries c, Some (mc_default_discount c))"
    by (auto elim: mismatch_loadE)
  from scan_entries_default [OF sc assms(3)] have d: "table_discount parse table ''_default'' = Some (mc_default_discount c)"
    by (auto split: option.splits)
  from scan_entries_get [OF sc assms(3) joined_not_default, of a b] show ?thesis
  proof (cases "map_of table ?k")
    case None
    with scan_entries_get [OF sc assms(3) joined_not_default, of a b] d show ?thesis
      by (simp add: discount_for_def spec_discount_def table_discount_def)
  next
    case (Some v)
    with scan_entries_get [OF sc assms(3) joined_not_default, of a b] obtain e x where
      e: "hm_get (mc_entries c) ?k = Some e" "table_discount parse table ?k = Some x"
        "parse (me_discount e) = Inr x" by auto
    then have "parse_discount parse ?k (me_discount e) = Inr x"
      by (auto simp: parse_discount_Inr table_discount_Some)
    with e d show ?thesis by (simp add: discount_for_def spec_discount_def)
  qed
qed

text \<open>The same for the decomposition's scan, whose keys are rewritten with a colon.\<close>

lemma scan_pairs_ConsE:
  assumes "scan_pairs parse ((key, v) # rest) discounts dflt = Inr r"
  obtains (default_key) s d where "key = ''_default''" "discount_text v = Some s" "parse s = Inr d"
      "0 \<le> d" "d \<le> 1" "scan_pairs parse rest discounts (Some d) = Inr r"
    | (pair) s d a b where "key \<noteq> ''_default''" "discount_text v = Some s" "parse s = Inr d"
      "0 \<le> d" "d \<le> 1" "key = joined a (CHR ''-'') b" "CHR ''-'' \<notin> set a"
      "scan_pairs parse rest (hm_put (joined a (CHR '':'') b) d discounts) dflt = Inr r"
proof -
  from assms obtain s d where d: "discount_text v = Some s" "parse s = Inr d" "0 \<le> d" "d \<le> 1"
    unfolding discount_text_def by (auto simp: result_iffs split: if_splits)
  show thesis
  proof (cases "key = ''_default''")
    case True
    with d assms show thesis by (intro default_key) (auto simp: discount_text_def)
  next
    case False
    with d assms obtain a b where "split_once (CHR ''-'') key = Some (a, b)"
      "scan_pairs parse rest (hm_put (joined a (CHR '':'') b) d discounts) dflt = Inr r"
      by (auto simp: discount_text_def and_then_Inr_iff ok_or_Inr_iff)
    with d False show thesis by (intro pair) (auto dest: split_once_Some)
  qed
qed

lemma colon_key_inject:
  "CHR '':'' \<notin> set a \<Longrightarrow> CHR '':'' \<notin> set b \<Longrightarrow>
     joined a (CHR '':'') b = joined a' (CHR '':'') b' \<longleftrightarrow> a' = a \<and> b' = b"
proof
  assume c: "CHR '':'' \<notin> set a" "CHR '':'' \<notin> set b" and eq: "joined a (CHR '':'') b = joined a' (CHR '':'') b'"
  from c have "count_list (joined a (CHR '':'') b) (CHR '':'') = 1"
    by (simp add: joined_def count_list_append count_list_0_iff)
  then have "count_list a' (CHR '':'') = 0"
    unfolding eq by (simp add: joined_def count_list_append)
  with c eq show "a' = a \<and> b' = b" by (auto simp: count_list_0_iff joined_inject)
qed simp

lemma scan_pairs_get:
  "scan_pairs parse table discounts dflt = Inr (discounts', dflt') \<Longrightarrow> distinct (map fst table) \<Longrightarrow>
     CHR '':'' \<notin> set a \<Longrightarrow> CHR '':'' \<notin> set b \<Longrightarrow> CHR ''-'' \<notin> set a \<Longrightarrow>
     (case map_of table (joined a (CHR ''-'') b) of
        Some v \<Rightarrow> \<exists>d. table_discount parse table (joined a (CHR ''-'') b) = Some d
          \<and> hm_get discounts' (joined a (CHR '':'') b) = Some d
      | None \<Rightarrow> hm_get discounts' (joined a (CHR '':'') b) = hm_get discounts (joined a (CHR '':'') b))"
proof (induction table arbitrary: discounts dflt)
  case (Cons x rest)
  let ?k = "joined a (CHR ''-'') b" and ?c = "joined a (CHR '':'') b"
  obtain key v where x: "x = (key, v)" by force
  from Cons.prems(1) have sc: "scan_pairs parse ((key, v) # rest) discounts dflt = Inr (discounts', dflt')"
    by (simp add: x)
  have other: "table_discount parse (x # rest) ?k = table_discount parse rest ?k" if "?k \<noteq> key"
    using that by (simp add: table_discount_def x)
  from sc show ?case
  proof (cases rule: scan_pairs_ConsE)
    case (default_key s d)
    with Cons.IH [OF default_key(6)] Cons.prems(2-) other show ?thesis
      by (cases "map_of rest ?k") (simp_all add: x joined_not_default)
  next
    case (pair s d a' b')
    show ?thesis
    proof (cases "?k = key")
      case True
      then have none: "map_of rest ?k = None" using Cons.prems(2) by (auto simp: x map_of_eq_None_iff)
      have same: "a' = a \<and> b' = b" using True pair(6,7) Cons.prems(5) by (auto simp: joined_inject)
      with Cons.IH [OF pair(8)] Cons.prems(2-) none have "hm_get discounts' ?c = Some d"
        by (simp add: x hm_get_put)
      moreover have "table_discount parse (x # rest) ?k = Some d"
        using True pair by (simp add: table_discount_Some x)
      ultimately show ?thesis using True by (simp add: x)
    next
      case False
      with pair(6) have "?c \<noteq> joined a' (CHR '':'') b'"
        using colon_key_inject [OF Cons.prems(3,4)] by auto
      with False Cons.IH [OF pair(8)] Cons.prems(2-) other show ?thesis
        by (cases "map_of rest ?k") (simp_all add: x hm_get_put)
    qed
  qed
qed simp

lemma scan_pairs_default:
  "scan_pairs parse table discounts dflt = Inr (discounts', dflt') \<Longrightarrow> distinct (map fst table) \<Longrightarrow>
     dflt' = (case map_of table ''_default'' of
                Some v \<Rightarrow> table_discount parse table ''_default'' | None \<Rightarrow> dflt)"
proof (induction table arbitrary: discounts dflt)
  case (Cons x rest)
  obtain key v where x: "x = (key, v)" by force
  from Cons.prems(1) have sc: "scan_pairs parse ((key, v) # rest) discounts dflt = Inr (discounts', dflt')"
    by (simp add: x)
  from sc show ?case
  proof (cases rule: scan_pairs_ConsE)
    case (default_key s d)
    then have "map_of rest ''_default'' = None" using Cons.prems(2) by (auto simp: x map_of_eq_None_iff)
    with Cons.IH [OF default_key(6)] Cons.prems(2) have "dflt' = Some d" by (simp add: x)
    moreover have "table_discount parse (x # rest) ''_default'' = Some d"
      using default_key by (simp add: table_discount_Some x)
    ultimately show ?thesis using default_key by (simp add: x)
  next
    case (pair s d a b)
    have "table_discount parse (x # rest) ''_default'' = table_discount parse rest ''_default''"
      using pair(1) by (simp add: table_discount_def x)
    with Cons.IH [OF pair(8)] Cons.prems(2) pair(1) show ?thesis
      by (cases "map_of rest ''_default''") (simp_all add: x)
  qed
qed simp

lemma pairs_from_tomlE:
  assumes "pairs_from_toml parse parsed = Inr c"
  obtains table where "parsed = Inr (TTable table)"
    "scan_pairs parse table [] None = Inr (pd_pair_discounts c, Some (pd_default_discount c))"
    "check_symmetric (pd_pair_discounts c) (pd_pair_discounts c) = Inr ()"
proof -
  from assms obtain raw where raw: "parsed = Inr raw"
    by (auto simp: pairs_from_toml_def and_then_Inr_iff map_err_Inr_iff)
  with assms obtain table where t: "raw = TTable table"
    by (cases raw) (auto simp: pairs_from_toml_def)
  with assms raw obtain ds dflt d where "scan_pairs parse table [] None = Inr (ds, dflt)"
    "check_symmetric ds ds = Inr ()" "dflt = Some d"
    "c = \<lparr>pd_pair_discounts = ds, pd_default_discount = d\<rparr>"
    by (auto simp: pairs_from_toml_def result_iffs)
  with raw t show thesis by (intro that) auto
qed

lemma check_symmetric_all:
  "check_symmetric ds ps = Inr () \<Longrightarrow> (joined a (CHR '':'') b, d) \<in> set ps \<Longrightarrow> CHR '':'' \<notin> set a \<Longrightarrow>
     a \<noteq> b \<Longrightarrow> hm_get ds (joined b (CHR '':'') a) = Some d"
  by (induction ps) (auto simp: and_then_Inr_iff ok_or_Inr_iff split_once_joined Let_def split: if_splits)

text \<open>Venue names as \<^verbatim>\<open>VenueId\<close> admits them hold neither separator.\<close>

definition venue_name :: "string \<Rightarrow> bool" where
  "venue_name a \<longleftrightarrow> CHR ''-'' \<notin> set a \<and> CHR '':'' \<notin> set a"

lemma pairs_discount_spec:
  assumes "pairs_from_toml parse parsed = Inr c" "parsed = Inr (TTable table)" "distinct (map fst table)"
    "venue_name a" "venue_name b"
  shows "pair_discount_for c a b = spec_discount parse table a b
    \<and> table_discount parse table ''_default'' = Some (pd_default_discount c)"
proof -
  let ?d = "pd_pair_discounts c" and ?ab = "joined a (CHR ''-'') b"
  from assms(1,2) have sc: "scan_pairs parse table [] None = Inr (?d, Some (pd_default_discount c))"
    and sym: "check_symmetric ?d ?d = Inr ()"
    by (auto elim: pairs_from_tomlE)
  from scan_pairs_default [OF sc assms(3)] have d: "table_discount parse table ''_default'' = Some (pd_default_discount c)"
    by (auto split: option.splits)
  have get: "hm_get ?d (joined x (CHR '':'') y) = table_discount parse table (joined x (CHR ''-'') y)"
    if "venue_name x" "venue_name y" for x y
    using scan_pairs_get [OF sc assms(3), of x y] that
    by (auto simp: venue_name_def table_discount_def split: option.splits)
  have sym_get: "hm_get ?d (joined b (CHR '':'') a) = Some e \<Longrightarrow> a \<noteq> b \<Longrightarrow> hm_get ?d (joined a (CHR '':'') b) = Some e" for e
    using check_symmetric_all [OF sym map_of_SomeD, of b a e] assms(5) by (auto simp: venue_name_def)
  from d get [OF assms(4,5)] sym_get show ?thesis
    by (auto simp: pair_discount_for_def spec_discount_def split: option.split)
qed

lemma table_discount_range: "table_discount parse table k = Some d \<Longrightarrow> 0 \<le> d \<and> d \<le> 1"
  by (auto simp: table_discount_Some)

text \<open>
  Whatever text the two crates load, if both loaders accept it they charge the same
  discount for every pair of venues, although one keeps texts under hyphenated keys and parses at
  each lookup while the other keeps decimals under colon keys and tries both orders.
\<close>

theorem mismatch_loaders_agree:
  assumes "mismatch_load parse parsed = Inr c" "pairs_from_toml parse parsed = Inr p" "toml_wf parsed"
    "venue_name a" "venue_name b"
  shows "discount_for parse c a b = pair_discount_for p a b"
proof -
  from assms(1) obtain table where t: "parsed = Inr (TTable table)" by (rule mismatch_loadE)
  with assms(3) have dist: "distinct (map fst table)" by (simp add: toml_wf_def)
  show ?thesis
    using router_discount_spec [OF assms(1) t dist, of a b]
      pairs_discount_spec [OF assms(2) t dist assms(4,5)] by simp
qed

text \<open>A lookup of an accepted table in the router: the entry of the pair or the default.\<close>

lemma router_entry_pair:
  assumes "mismatch_load parse parsed = Inr c" "hm_get (mc_entries c) (joined a (CHR ''-'') b) = Some e"
    "venue_name a" "a \<noteq> b"
  obtains r d where "hm_get (mc_entries c) (joined b (CHR ''-'') a) = Some r"
    "parse (me_discount e) = Inr d" "parse (me_discount r) = Inr d" "0 \<le> d" "d \<le> 1"
proof -
  from assms(1) have "check_pairs parse (mc_entries c) (mc_entries c) = Inr ()" by (rule mismatch_loadE)
  from check_pairs_all [OF this map_of_SomeD [OF assms(2)]] assms(3,4) show thesis
    by (auto simp: venue_name_def intro: that elim: check_pair_reverse)
qed

lemma discount_for_le:
  assumes "mismatch_load parse parsed = Inr c" "venue_name a" "venue_name b"
    "hm_get (mc_entries c) (joined a (CHR ''-'') b) = Some e"
  shows "discount_for parse c b a = discount_for parse c a b"
proof (cases "a = b")
  case False
  with router_entry_pair [OF assms(1,4,2)] obtain r d where
    "hm_get (mc_entries c) (joined b (CHR ''-'') a) = Some r" "parse (me_discount e) = Inr d"
    "parse (me_discount r) = Inr d" "0 \<le> d" "d \<le> 1" by metis
  with assms(4) False show ?thesis
    by (simp add: discount_for_def parse_discount_Inr [THEN iffD2])
qed simp

text \<open>
  An accepted table gives every pair of venues a discount between 0 and 1 that does not
  depend on the order of the two, and none to a venue against itself.
\<close>

theorem mismatch_discount_symmetric:
  assumes "mismatch_load parse parsed = Inr c" "toml_wf parsed" "venue_name a" "venue_name b"
  shows "discount_for parse c a b = discount_for parse c b a
    \<and> 0 \<le> discount_for parse c a b \<and> discount_for parse c a b \<le> 1 \<and> discount_for parse c a a = 0"
proof (intro conjI)
  from assms(1) obtain table where t: "parsed = Inr (TTable table)" by (rule mismatch_loadE)
  with assms(2) have "distinct (map fst table)" by (simp add: toml_wf_def)
  note spec = router_discount_spec [OF assms(1) t this]
  have in_unit: "0 \<le> discount_for parse c a b \<and> discount_for parse c a b \<le> 1"
    using spec [of a b] by (auto simp: spec_discount_def split: option.split dest: table_discount_range)
  then show "0 \<le> discount_for parse c a b" "discount_for parse c a b \<le> 1" by simp_all
  show "discount_for parse c a b = discount_for parse c b a"
  proof (cases "hm_get (mc_entries c) (joined a (CHR ''-'') b)")
    case None
    then show ?thesis
      using discount_for_le [OF assms(1,4,3)]
      by (cases "hm_get (mc_entries c) (joined b (CHR ''-'') a)") (auto simp: discount_for_def)
  qed (use discount_for_le [OF assms(1,3,4)] in simp)
qed (simp add: discount_for_def)

subsection \<open>A concrete table\<close>

definition demo_parse :: parse_decimal where
  "demo_parse s = (if s = ''0.25'' then Inr (1 / 4) else if s = ''0.5'' then Inr (1 / 2) else Inl ''bad'')"

definition demo_pair :: "string \<Rightarrow> toml" where
  "demo_pair d = TTable [(''discount'', TString d), (''rationale'', TString ''rules differ'')]"

definition demo_toml :: "string + toml" where
  "demo_toml = Inr (TTable [(''_default'', demo_pair ''0.5''),
     (''kalshi-polymarket'', demo_pair ''0.25''), (''polymarket-kalshi'', demo_pair ''0.25'')])"

definition demo_mismatch :: mismatch_config where
  "demo_mismatch = \<lparr>mc_entries =
     [(''kalshi-polymarket'', \<lparr>me_discount = ''0.25'', me_rationale = ''rules differ''\<rparr>),
      (''polymarket-kalshi'', \<lparr>me_discount = ''0.25'', me_rationale = ''rules differ''\<rparr>)],
     mc_default_discount = 1 / 2\<rparr>"

definition demo_pairs :: pair_config where
  "demo_pairs = \<lparr>pd_pair_discounts = [(''kalshi:polymarket'', 1 / 4), (''polymarket:kalshi'', 1 / 4)],
     pd_default_discount = 1 / 2\<rparr>"

lemma demo_loads: "mismatch_load demo_parse demo_toml = Inr demo_mismatch"
  "pairs_from_toml demo_parse demo_toml = Inr demo_pairs" "toml_wf demo_toml"
  "venue_name ''kalshi''" "venue_name ''polymarket''"
  by code_simp+

theorem mismatch_loaders_agree_witness:
  "discount_for demo_parse demo_mismatch ''kalshi'' ''polymarket''
     = pair_discount_for demo_pairs ''kalshi'' ''polymarket''"
  by (rule mismatch_loaders_agree [OF demo_loads])

theorem mismatch_discount_symmetric_witness:
  "discount_for demo_parse demo_mismatch ''kalshi'' ''polymarket''
     = discount_for demo_parse demo_mismatch ''polymarket'' ''kalshi''"
  using mismatch_discount_symmetric [OF demo_loads(1,3,4,5)] by blast

end
