(* ===== verification/Bus_Retry.thy ===== *)
theory Bus_Retry
  imports Core_Orders
begin

text \<open>
  Sending on the message bus (\<^verbatim>\<open>crates/aether-bus\<close>): the retry policy, the circuit breaker and
  \<^verbatim>\<open>send_with_retry\<close> of \<^verbatim>\<open>retry.rs\<close>, and the partition-key rule and the breaker-wrapped producer
  of \<^verbatim>\<open>producer.rs\<close>. An \<^verbatim>\<open>Instant\<close> is a number of nanoseconds, and one call reads the clock
  once; the inner producer, the error classification of Kafka errors and the jitter are arguments.
  The lemmas show when the breaker trips, that an open breaker lets nothing through until its
  reset and then a single probe, and what the retry loop returns.
\<close>

subsection \<open>Retry policy (retry.rs)\<close>

record bus_retry_policy =
  br_max_attempts :: nat
  br_base_delay :: nat
  br_max_delay :: nat

definition bus_retry_default :: bus_retry_policy where
  "bus_retry_default =
     \<lparr>br_max_attempts = 5, br_base_delay = duration_millis 200, br_max_delay = duration_millis 30000\<rparr>"

text \<open>\<open>jitter n\<close> is the generator's draw from \<open>0..=n\<close>; \<^verbatim>\<open>saturating_mul\<close> stops at the largest
  duration.\<close>

definition capped_delay :: "bus_retry_policy \<Rightarrow> nat \<Rightarrow> nat" where
  "capped_delay p attempt =
     min (min (br_base_delay p * 2 ^ min attempt 31) duration_max) (br_max_delay p)"

definition delay_for_attempt :: "(nat \<Rightarrow> nat) \<Rightarrow> bus_retry_policy \<Rightarrow> nat \<Rightarrow> nat" where
  "delay_for_attempt jitter p attempt =
     (let capped = capped_delay p attempt in
      (if 0 < capped then jitter capped else 0) mod 2 ^ 64)"

definition bus_is_retryable :: "error_code \<Rightarrow> bool \<Rightarrow> bool" where
  "bus_is_retryable code retryable \<longleftrightarrow> retryable \<and> error_code_is_retryable code"

subsection \<open>Circuit breaker (retry.rs)\<close>

datatype breaker_state = BreakerClosed | BreakerOpened | BreakerHalfOpen

text \<open>The failure counter is a \<^verbatim>\<open>u32\<close>: it is reset every thirty seconds, and an overflow would
  need \<open>2 ^ 32\<close> failures in that time.\<close>

record circuit_breaker =
  cb_state :: breaker_state
  cb_consecutive_failures :: nat
  cb_failure_window_start :: "int option"
  cb_opened_at :: "int option"
  cb_half_open_probe_sent :: bool
  cb_recent_outcomes :: "(int \<times> bool) list"

definition spec_default_threshold :: nat where
  "spec_default_threshold = 5"

definition spec_default_reset :: int where
  "spec_default_reset = 15 * 1000000000"

definition spec_error_window :: int where
  "spec_error_window = 30 * 1000000000"

definition breaker_new :: circuit_breaker where
  "breaker_new = \<lparr>cb_state = BreakerClosed, cb_consecutive_failures = 0,
     cb_failure_window_start = None, cb_opened_at = None, cb_half_open_probe_sent = False,
     cb_recent_outcomes = []\<rparr>"

definition push_outcome :: "int \<Rightarrow> bool \<Rightarrow> circuit_breaker \<Rightarrow> circuit_breaker" where
  "push_outcome now err b =
     b\<lparr>cb_recent_outcomes :=
         dropWhile (\<lambda>(t, _). t < now - spec_error_window) (cb_recent_outcomes b) @ [(now, err)]\<rparr>"

definition error_rate_exceeded :: "circuit_breaker \<Rightarrow> bool" where
  "error_rate_exceeded b =
     (let total = length (cb_recent_outcomes b) in
      if total < spec_default_threshold then False
      else length (filter snd (cb_recent_outcomes b)) > total div 2)"

definition breaker_success :: "int \<Rightarrow> circuit_breaker \<Rightarrow> circuit_breaker" where
  "breaker_success now b0 =
     (let b = push_outcome now False b0 in
      case cb_state b of
        BreakerHalfOpen \<Rightarrow> b\<lparr>cb_state := BreakerClosed, cb_consecutive_failures := 0,
          cb_failure_window_start := None, cb_half_open_probe_sent := False\<rparr>
      | BreakerClosed \<Rightarrow> b\<lparr>cb_consecutive_failures := 0, cb_failure_window_start := None\<rparr>
      | BreakerOpened \<Rightarrow> b)"

definition touch_window :: "int \<Rightarrow> circuit_breaker \<Rightarrow> circuit_breaker" where
  "touch_window now b =
     (case cb_failure_window_start b of
        Some start \<Rightarrow> (if now - start \<ge> spec_error_window
                       then b\<lparr>cb_consecutive_failures := 0, cb_failure_window_start := Some now\<rparr>
                       else b)
      | None \<Rightarrow> b\<lparr>cb_failure_window_start := Some now\<rparr>)"

definition breaker_failure :: "int \<Rightarrow> circuit_breaker \<Rightarrow> circuit_breaker" where
  "breaker_failure now b0 =
     (let b = push_outcome now True b0 in
      if cb_state b = BreakerHalfOpen
      then b\<lparr>cb_state := BreakerOpened, cb_opened_at := Some now, cb_consecutive_failures := 0,
             cb_half_open_probe_sent := False\<rparr>
      else let b1 = touch_window now b;
               b2 = b1\<lparr>cb_consecutive_failures := cb_consecutive_failures b1 + 1\<rparr>
           in if cb_state b2 = BreakerClosed
                 \<and> (cb_consecutive_failures b2 \<ge> spec_default_threshold \<or> error_rate_exceeded b2)
              then b2\<lparr>cb_state := BreakerOpened, cb_opened_at := Some now\<rparr>
              else b2)"

definition allow_request :: "int \<Rightarrow> circuit_breaker \<Rightarrow> bool \<times> circuit_breaker" where
  "allow_request now b =
     (case cb_state b of
        BreakerClosed \<Rightarrow> (True, b)
      | BreakerOpened \<Rightarrow>
          (case cb_opened_at b of
             Some opened \<Rightarrow> (if now - opened \<ge> spec_default_reset
                             then (True, b\<lparr>cb_state := BreakerHalfOpen,
                                           cb_half_open_probe_sent := True\<rparr>)
                             else (False, b))
           | None \<Rightarrow> (False, b))
      | BreakerHalfOpen \<Rightarrow>
          (if cb_half_open_probe_sent b then (False, b)
           else (True, b\<lparr>cb_half_open_probe_sent := True\<rparr>)))"

subsection \<open>The breaker as a state machine\<close>

text \<open>Calls from any number of senders, in the order in which they take the lock.\<close>

datatype breaker_event = BreakerAllow int | BreakerSuccess int | BreakerFailure int

primrec event_time :: "breaker_event \<Rightarrow> int" where
  "event_time (BreakerAllow t) = t"
| "event_time (BreakerSuccess t) = t"
| "event_time (BreakerFailure t) = t"

fun breaker_step :: "breaker_event \<Rightarrow> circuit_breaker \<Rightarrow> circuit_breaker" where
  "breaker_step (BreakerAllow t) b = snd (allow_request t b)"
| "breaker_step (BreakerSuccess t) b = breaker_success t b"
| "breaker_step (BreakerFailure t) b = breaker_failure t b"

fun granted :: "breaker_event \<Rightarrow> circuit_breaker \<Rightarrow> bool" where
  "granted (BreakerAllow t) b = fst (allow_request t b)"
| "granted _ b = False"

fun grants :: "breaker_event list \<Rightarrow> circuit_breaker \<Rightarrow> nat" where
  "grants [] b = 0"
| "grants (e # es) b = (if granted e b then 1 else 0) + grants es (breaker_step e b)"

definition breaker_inv :: "circuit_breaker \<Rightarrow> bool" where
  "breaker_inv b \<longleftrightarrow>
     (cb_state b = BreakerHalfOpen \<longrightarrow> cb_half_open_probe_sent b) \<and>
     (cb_state b = BreakerOpened \<longrightarrow> cb_opened_at b \<noteq> None) \<and>
     (cb_state b = BreakerClosed \<longrightarrow> cb_consecutive_failures b < spec_default_threshold)"

lemma push_outcome_sel [simp]:
  "cb_state (push_outcome t x b) = cb_state b"
  "cb_consecutive_failures (push_outcome t x b) = cb_consecutive_failures b"
  "cb_failure_window_start (push_outcome t x b) = cb_failure_window_start b"
  "cb_opened_at (push_outcome t x b) = cb_opened_at b"
  "cb_half_open_probe_sent (push_outcome t x b) = cb_half_open_probe_sent b"
  by (simp_all add: push_outcome_def)

lemma touch_window_sel [simp]:
  "cb_state (touch_window t b) = cb_state b"
  "cb_opened_at (touch_window t b) = cb_opened_at b"
  "cb_half_open_probe_sent (touch_window t b) = cb_half_open_probe_sent b"
  "cb_recent_outcomes (touch_window t b) = cb_recent_outcomes b"
  by (simp_all add: touch_window_def split: option.split)

lemma breaker_new_inv: "breaker_inv breaker_new"
  by (simp add: breaker_inv_def breaker_new_def spec_default_threshold_def)

lemma breaker_success_inv: "breaker_inv b \<Longrightarrow> breaker_inv (breaker_success t b)"
  by (cases "cb_state b")
    (simp_all add: breaker_inv_def breaker_success_def Let_def spec_default_threshold_def)

lemma breaker_failure_inv: "breaker_inv b \<Longrightarrow> breaker_inv (breaker_failure t b)"
  by (cases "cb_state b") (simp_all add: breaker_inv_def breaker_failure_def Let_def)

lemma allow_request_inv: "breaker_inv b \<Longrightarrow> breaker_inv (snd (allow_request t b))"
  by (cases "cb_state b") (auto simp: breaker_inv_def allow_request_def split: option.split)

interpretation breaker: invariant_machine breaker_step breaker_inv
  by unfold_locales
    (rename_tac b e, case_tac e;
      simp add: breaker_success_inv breaker_failure_inv allow_request_inv)

definition is_allow :: "breaker_event \<Rightarrow> bool" where
  "is_allow e \<longleftrightarrow> (\<exists>t. e = BreakerAllow t)"

lemma half_open_grants_nothing:
  "cb_state b = BreakerHalfOpen \<Longrightarrow> cb_half_open_probe_sent b \<Longrightarrow> \<forall>e \<in> set es. is_allow e
     \<Longrightarrow> grants es b = 0"
  by (induction es arbitrary: b) (auto simp: is_allow_def allow_request_def)

lemma not_closed_grants:
  "breaker_inv b \<Longrightarrow> cb_state b \<noteq> BreakerClosed \<Longrightarrow> \<forall>e \<in> set es. is_allow e \<Longrightarrow> grants es b \<le> 1"
proof (induction es arbitrary: b)
  case (Cons e es)
  then obtain t where e: "e = BreakerAllow t" by (auto simp: is_allow_def)
  show ?case
  proof (cases "cb_state b")
    case BreakerClosed
    with Cons.prems(2) show ?thesis by simp
  next
    case BreakerHalfOpen
    with Cons.prems(1) have "grants (e # es) b = 0"
      by (intro half_open_grants_nothing Cons.prems(3)) (auto simp: breaker_inv_def)
    then show ?thesis by simp
  next
    case BreakerOpened
    then obtain o' where o': "cb_opened_at b = Some o'" using Cons.prems(1) by (auto simp: breaker_inv_def)
    show ?thesis
    proof (cases "t - o' \<ge> spec_default_reset")
      case True
      with BreakerOpened o' have "allow_request t b =
          (True, b\<lparr>cb_state := BreakerHalfOpen, cb_half_open_probe_sent := True\<rparr>)"
        by (simp add: allow_request_def)
      with e Cons.prems(3) show ?thesis by (simp add: half_open_grants_nothing)
    next
      case False
      with BreakerOpened o' have "allow_request t b = (False, b)" by (simp add: allow_request_def)
      with e Cons show ?thesis by simp
    qed
  qed
qed simp

text \<open>
  After any history of requests and outcomes, a breaker that is not closed grants at
  most one request (the half-open probe) however many senders ask, until the next outcome is
  recorded.
\<close>

theorem single_probe:
  assumes "cb_state (fold breaker_step history breaker_new) \<noteq> BreakerClosed"
    and "\<forall>e \<in> set es. is_allow e"
  shows "grants es (fold breaker_step history breaker_new) \<le> 1"
  using breaker.run_inv [OF breaker_new_inv] assms by (rule not_closed_grants)

theorem single_probe_witness:
  "grants [BreakerAllow 15000000005, BreakerAllow 15000000006]
     (fold breaker_step (map BreakerFailure [1, 2, 3, 4, 5]) breaker_new) \<le> 1"
  by (rule single_probe)
    (simp_all add: breaker_new_def breaker_failure_def push_outcome_def touch_window_def Let_def
      spec_default_threshold_def spec_error_window_def error_rate_exceeded_def is_allow_def)

lemma opened_step:
  assumes "cb_state b = BreakerOpened" "cb_opened_at b = Some t0"
    and "event_time e < t0 + spec_default_reset"
  shows "cb_state (breaker_step e b) = BreakerOpened" "cb_opened_at (breaker_step e b) = Some t0"
    "\<not> granted e b"
  using assms by (cases e; simp add: breaker_success_def breaker_failure_def allow_request_def Let_def)+

text \<open>
  An open breaker lets nothing through before its reset time: whatever requests,
  successes and failures arrive less than fifteen seconds after it opened, in any order, no
  request is granted and it stays open since the same instant.
\<close>

theorem open_breaker_rejects:
  assumes "cb_state b = BreakerOpened" "cb_opened_at b = Some t0"
    and "\<forall>e \<in> set es. event_time e < t0 + spec_default_reset"
  shows "grants es b = 0 \<and> cb_state (fold breaker_step es b) = BreakerOpened
    \<and> cb_opened_at (fold breaker_step es b) = Some t0"
  using assms
proof (induction es arbitrary: b)
  case (Cons e es)
  from Cons.prems have "event_time e < t0 + spec_default_reset" by simp
  note o = opened_step [OF Cons.prems(1,2) this]
  from Cons.IH [OF o(1,2)] Cons.prems(3) o(3) show ?case by simp
qed simp

theorem open_breaker_rejects_witness:
  "grants [BreakerAllow 7, BreakerSuccess 8, BreakerAllow 9]
     (breaker_new\<lparr>cb_state := BreakerOpened, cb_opened_at := Some 5\<rparr>) = 0"
  using open_breaker_rejects [of "breaker_new\<lparr>cb_state := BreakerOpened, cb_opened_at := Some 5\<rparr>" 5
      "[BreakerAllow 7, BreakerSuccess 8, BreakerAllow 9]"]
  by (simp add: spec_default_reset_def)

subsection \<open>When the breaker trips\<close>

text \<open>The outcomes kept are those of the last thirty seconds, if the clock is monotone.\<close>

definition outcomes_sorted :: "circuit_breaker \<Rightarrow> bool" where
  "outcomes_sorted b \<longleftrightarrow> sorted (map fst (cb_recent_outcomes b))"

lemma dropWhile_sorted_filter:
  "sorted (map fst xs) \<Longrightarrow> dropWhile (\<lambda>(t, _). t < c) xs = filter (\<lambda>(t, _). c \<le> t) xs"
  for c :: int
proof (induction xs)
  case (Cons x xs)
  obtain t e where x: "x = (t, e)" by force
  show ?case
  proof (cases "t < c")
    case True
    with Cons x show ?thesis by simp
  next
    case False
    with Cons.prems x have "\<forall>y \<in> set xs. c \<le> fst y" by force
    then have "filter (\<lambda>(t, _). c \<le> t) xs = xs" by (auto simp: filter_id_conv)
    with False x show ?thesis by simp
  qed
qed simp

lemma push_outcome_window:
  "outcomes_sorted b \<Longrightarrow> cb_recent_outcomes (push_outcome now err b) =
     filter (\<lambda>(t, _). now - spec_error_window \<le> t) (cb_recent_outcomes b) @ [(now, err)]"
  by (simp add: push_outcome_def outcomes_sorted_def dropWhile_sorted_filter)

text \<open>The failures in a row that the window counts after one more at time \<open>now\<close>.\<close>

definition failures_after :: "int \<Rightarrow> circuit_breaker \<Rightarrow> nat" where
  "failures_after now b =
     (case cb_failure_window_start b of
        Some s \<Rightarrow> if now - s \<ge> spec_error_window then 1 else cb_consecutive_failures b + 1
      | None \<Rightarrow> cb_consecutive_failures b + 1)"

text \<open>
  When a closed breaker trips: recording a failure opens it exactly if this is the
  fifth failure in a row counted in the current thirty-second window, or at least five outcomes
  of the last thirty seconds are known and more than half of them (rounded down) are errors.
\<close>

theorem breaker_trips_iff:
  assumes "cb_state b = BreakerClosed" "outcomes_sorted b"
  shows "cb_state (breaker_failure now b) = BreakerOpened \<longleftrightarrow>
    5 \<le> failures_after now b \<or>
    (let recent = filter (\<lambda>(t, _). now - spec_error_window \<le> t) (cb_recent_outcomes b)
     in 5 \<le> length recent + 1 \<and> (length recent + 1) div 2 < length (filter snd recent) + 1)"
proof -
  let ?b = "push_outcome now True b"
  have n: "cb_consecutive_failures (touch_window now ?b) + 1 = failures_after now b"
    by (simp add: touch_window_def failures_after_def split: option.split)
  have "error_rate_exceeded (touch_window now ?b\<lparr>cb_consecutive_failures := k\<rparr>) \<longleftrightarrow>
    (let recent = filter (\<lambda>(t, _). now - spec_error_window \<le> t) (cb_recent_outcomes b)
     in 5 \<le> length recent + 1 \<and> (length recent + 1) div 2 < length (filter snd recent) + 1)" for k
    by (simp add: error_rate_exceeded_def push_outcome_window [OF assms(2)] Let_def
        spec_default_threshold_def not_less del: filter_filter)
  then show ?thesis using assms(1) n
    by (simp add: breaker_failure_def Let_def spec_default_threshold_def)
qed

theorem breaker_trips_iff_witness:
  "cb_state (breaker_failure 9 (breaker_new\<lparr>cb_consecutive_failures := 4,
      cb_failure_window_start := Some 1\<rparr>)) = BreakerOpened"
  by (subst breaker_trips_iff)
    (simp_all add: breaker_new_def outcomes_sorted_def failures_after_def spec_error_window_def)

subsection \<open>Producers (producer.rs)\<close>

datatype 'k producer_error = PeSend string | PeKafka 'k | PeBreakerOpen | PeRetriesExhausted nat
  | PeMissingPartitionKey string

text \<open>\<open>kafka_text\<close> is the text of an error of the Kafka client.\<close>

definition producer_is_retryable :: "('k \<Rightarrow> string) \<Rightarrow> 'k producer_error \<Rightarrow> bool" where
  "producer_is_retryable kafka_text e =
     (case e of
        PeKafka k \<Rightarrow> (let m = to_lower (kafka_text k) in
          contains ''transport'' m \<or> contains ''all broker'' m \<or> contains ''timed out'' m)
      | PeSend s \<Rightarrow> (let m = to_lower s in
          contains ''transport'' m \<or> contains ''all broker'' m \<or> contains ''timed out'' m
            \<or> contains ''unavailable'' m \<or> contains ''temporarily'' m)
      | _ \<Rightarrow> False)"

definition require_partition_key :: "string \<Rightarrow> string option \<Rightarrow> 'k producer_error + unit" where
  "require_partition_key topic key =
     (if (starts_with ''md.'' topic \<or> starts_with ''orders.'' topic) \<and> key = None
      then Inl (PeMissingPartitionKey topic) else Inr ())"

text \<open>A producer takes a topic, a message, a key and its state. \<open>t\<close> and \<open>t'\<close> are the times
  before and after the inner send.\<close>

type_synonym ('k, 'm, 's) producer =
  "string \<Rightarrow> 'm \<Rightarrow> string option \<Rightarrow> 's \<Rightarrow> ('k producer_error + unit) \<times> 's"

definition breaker_send ::
  "('k, 'm, 's) producer \<Rightarrow> int \<Rightarrow> int \<Rightarrow> string \<Rightarrow> 'm \<Rightarrow> string option \<Rightarrow> circuit_breaker \<times> 's
     \<Rightarrow> ('k producer_error + unit) \<times> circuit_breaker \<times> 's" where
  "breaker_send inner t t' topic m key bs =
     (let (b, s) = bs in
      case require_partition_key topic key of
        Inl e \<Rightarrow> (Inl e, b, s)
      | Inr _ \<Rightarrow>
          (case allow_request t b of
             (False, b1) \<Rightarrow> (Inl PeBreakerOpen, b1, s)
           | (True, b1) \<Rightarrow>
               (case inner topic m key s of
                  (Inr u, s') \<Rightarrow> (Inr u, breaker_success t' b1, s')
                | (Inl e, s') \<Rightarrow> (Inl e, breaker_failure t' b1, s'))))"

text \<open>\<open>n\<close> attempts are left of \<open>k\<close>; the sleeps between attempts do not touch the state.\<close>

fun send_attempts ::
  "('k producer_error \<Rightarrow> bool) \<Rightarrow> ('s \<Rightarrow> ('k producer_error + unit) \<times> 's) \<Rightarrow> nat \<Rightarrow> nat \<Rightarrow> 's
     \<Rightarrow> ('k producer_error + unit) \<times> 's" where
  "send_attempts retryable send k 0 s = (Inl (PeRetriesExhausted k), s)"
| "send_attempts retryable send k (Suc n) s =
     (case send s of
        (Inr u, s') \<Rightarrow> (Inr u, s')
      | (Inl e, s') \<Rightarrow>
          (if \<not> retryable e then (Inl e, s')
           else if n = 0 then (Inl (PeRetriesExhausted k), s')
           else send_attempts retryable send k n s'))"

definition send_with_retry ::
  "('k \<Rightarrow> string) \<Rightarrow> ('k, 'm, 's) producer \<Rightarrow> string \<Rightarrow> 'm \<Rightarrow> string option \<Rightarrow> bus_retry_policy \<Rightarrow> 's
     \<Rightarrow> ('k producer_error + unit) \<times> 's" where
  "send_with_retry kafka_text producer topic m key policy s =
     (if br_max_attempts policy = 0
      then (Inl (PeSend ''send_with_retry called with max_attempts=0''), s)
      else send_attempts (producer_is_retryable kafka_text) (producer topic m key)
        (br_max_attempts policy) (br_max_attempts policy) s)"

text \<open>The states a producer passes through when it is called again and again.\<close>

primrec after_sends :: "('s \<Rightarrow> 'r \<times> 's) \<Rightarrow> nat \<Rightarrow> 's \<Rightarrow> 's" where
  "after_sends send 0 s = s"
| "after_sends send (Suc n) s = after_sends send n (snd (send s))"

definition attempt_result :: "('s \<Rightarrow> 'r \<times> 's) \<Rightarrow> 's \<Rightarrow> nat \<Rightarrow> 'r" where
  "attempt_result send s i = fst (send (after_sends send i s))"

definition gives_up :: "('k producer_error \<Rightarrow> bool) \<Rightarrow> ('k producer_error + unit) \<Rightarrow> bool" where
  "gives_up retryable r = (case r of Inr _ \<Rightarrow> True | Inl e \<Rightarrow> \<not> retryable e)"

lemma attempt_result_Suc: "attempt_result send s (Suc i) = attempt_result send (snd (send s)) i"
  by (simp add: attempt_result_def)

lemma send_attempts_result:
  "0 < n \<Longrightarrow> fst (send_attempts retryable send k n s) =
     (case find (\<lambda>i. gives_up retryable (attempt_result send s i)) [0..<n] of
        Some i \<Rightarrow> attempt_result send s i
      | None \<Rightarrow> Inl (PeRetriesExhausted k))"
proof (induction n arbitrary: s)
  case (Suc n)
  obtain r s' where rs: "send s = (r, s')" by force
  then have r0: "attempt_result send s 0 = r" by (simp add: attempt_result_def)
  have up: "[0..<Suc n] = 0 # map Suc [0..<n]" by (simp add: map_Suc_upt upt_conv_Cons del: upt_Suc)
  show ?case
  proof (cases "gives_up retryable r")
    case True
    with rs r0 show ?thesis
      by (simp add: up gives_up_def split: sum.splits del: upt_Suc)
  next
    case False
    then obtain e where e: "r = Inl e" "retryable e" by (auto simp: gives_up_def split: sum.splits)
    have fm: "find (\<lambda>i. gives_up retryable (attempt_result send s i)) (map Suc xs) =
        map_option Suc (find (\<lambda>i. gives_up retryable (attempt_result send s' i)) xs)" for xs
      by (induction xs) (simp_all add: attempt_result_Suc rs)
    have F: "find (\<lambda>i. gives_up retryable (attempt_result send s i)) [0..<Suc n] =
        map_option Suc (find (\<lambda>i. gives_up retryable (attempt_result send s' i)) [0..<n])"
      using False by (simp only: up find.simps r0 fm if_False)
    show ?thesis
    proof (cases "n = 0")
      case True
      with rs e r0 False show ?thesis by simp
    next
      case nz: False
      then have "fst (send_attempts retryable send k n s') =
        (case find (\<lambda>i. gives_up retryable (attempt_result send s' i)) [0..<n] of
           Some i \<Rightarrow> attempt_result send s' i | None \<Rightarrow> Inl (PeRetriesExhausted k))"
        by (intro Suc.IH) simp
      moreover have "send_attempts retryable send k (Suc n) s = send_attempts retryable send k n s'"
        using rs e nz by simp
      ultimately show ?thesis
        by (simp only: F option.case_eq_if map_option_is_None option.map_sel)
          (simp add: attempt_result_Suc rs option.map_sel)
    qed
  qed
qed simp

text \<open>
  Property C31. What the retry loop returns: with \<open>n > 0\<close> attempts it is the result of the first
  attempt that succeeds or fails with an error that is not transient, among the first \<open>n\<close>
  attempts, and the exhaustion error when there is none.
\<close>

theorem send_with_retry_result:
  assumes "0 < br_max_attempts policy"
  shows "fst (send_with_retry kafka_text producer topic m key policy s) =
    (case find (\<lambda>i. gives_up (producer_is_retryable kafka_text)
                     (attempt_result (producer topic m key) s i)) [0..<br_max_attempts policy] of
       Some i \<Rightarrow> attempt_result (producer topic m key) s i
     | None \<Rightarrow> Inl (PeRetriesExhausted (br_max_attempts policy)))"
  using assms by (simp add: send_with_retry_def send_attempts_result)

theorem send_with_retry_result_witness:
  "fst (send_with_retry (\<lambda>_. []) (\<lambda>_ _ _ n. (if n < (2::nat) then Inl (PeSend ''timed out'') else Inr (), n + 1))
     ''t'' () None bus_retry_default 0) = Inr ()"
  by (subst send_with_retry_result)
    (simp_all add: bus_retry_default_def attempt_result_def gives_up_def producer_is_retryable_def
      contains_def upt_rec numeral_eq_Suc to_lower_def ascii_lower_def Let_def)

text \<open>
  The breaker-wrapped producer does not touch the inner producer while the breaker
  refuses or the partition key is missing, and otherwise returns the inner producer's result
  and records it.
\<close>

theorem breaker_send_isolates:
  "breaker_send inner t t' topic m key (b, s) =
     (if (starts_with ''md.'' topic \<or> starts_with ''orders.'' topic) \<and> key = None
      then (Inl (PeMissingPartitionKey topic), b, s)
      else if \<not> granted (BreakerAllow t) b
      then (Inl PeBreakerOpen, breaker_step (BreakerAllow t) b, s)
      else (let (r, s') = inner topic m key s;
                b' = breaker_step (BreakerAllow t) b
            in (r, breaker_step (if r = Inr () then BreakerSuccess t' else BreakerFailure t') b', s')))"
  by (auto simp: breaker_send_def require_partition_key_def Let_def
      split: prod.splits sum.splits bool.splits)

end
