(* ===== verification/Order_Adapters.thy ===== *)
theory Order_Adapters
  imports Core_Orders Bus_Retry
begin

text \<open>
  What the order router (\<^verbatim>\<open>connectors/execution/order-router\<close>) stands on: the interface of a venue
  adapter, the sandbox and read-only adapters and their registry (\<^verbatim>\<open>adapter.rs\<close>), one circuit
  breaker per venue (\<^verbatim>\<open>breaker.rs\<close>), the tracker of submissions whose outcome is unknown
  (\<^verbatim>\<open>reconciler.rs\<close>) and the check that precedes live trading (\<^verbatim>\<open>ceremony.rs\<close>). An adapter acts on
  a world \<open>'w\<close> that holds whatever lies behind it. The text of a ULID is an argument.
\<close>

subsection \<open>Venue adapters (adapter.rs)\<close>

datatype adapter_error =
    AUnavailable string
  | ARejected string
  | ANotFound string
  | ATimeout
  | ACapabilityMissing string

primrec adapter_error_display :: "adapter_error \<Rightarrow> string" where
  "adapter_error_display (AUnavailable s) = ''venue adapter is unavailable: '' @ s"
| "adapter_error_display (ARejected s) = ''venue rejected order: '' @ s"
| "adapter_error_display (ANotFound s) = ''order not found: '' @ s"
| "adapter_error_display ATimeout = ''timeout waiting for venue response''"
| "adapter_error_display (ACapabilityMissing s) = ''venue capability missing: '' @ s"

record venue_order_result =
  vr_venue_ref :: string
  vr_client_order_id :: string
  vr_status :: string
  vr_accepted :: bool

datatype venue_order_observation = VoFilled | VoOpen | VoCancelled | VoRejected

definition order_observation :: "venue_order_result \<Rightarrow> venue_order_observation" where
  "order_observation r =
     (let st = to_lower (vr_status r)
      in if st \<in> {''filled'', ''done''} then VoFilled
         else if st \<in> {''accepted'', ''new'', ''open'', ''partially_filled'', ''pending_new''} then VoOpen
         else if st \<in> {''canceled'', ''cancelled''} then VoCancelled
         else if st \<in> {''rejected'', ''expired''} then VoRejected
         else if vr_accepted r then VoOpen else VoRejected)"

record venue_balances =
  vb_free :: decimal
  vb_locked :: decimal
  vb_currency :: string

record 'w venue_adapter =
  va_submit :: "order_intent \<Rightarrow> 'w \<Rightarrow> (adapter_error + venue_order_result) \<times> 'w"
  va_cancel :: "string \<Rightarrow> 'w \<Rightarrow> (adapter_error + unit) \<times> 'w"
  va_query :: "string \<Rightarrow> 'w \<Rightarrow> (adapter_error + venue_order_result) \<times> 'w"
  va_balances :: "'w \<Rightarrow> adapter_error + venue_balances"
  va_healthy :: "'w \<Rightarrow> bool"

type_synonym ulid_text = "ulid \<Rightarrow> string"

type_synonym sandbox = "(string, venue_order_result) hash_map mutex"

definition sandbox_new :: sandbox where
  "sandbox_new = \<lparr>mx_poisoned = False, mx_data = []\<rparr>"

definition sandbox_set_status :: "string \<Rightarrow> string \<Rightarrow> bool \<Rightarrow> sandbox \<Rightarrow> sandbox" where
  "sandbox_set_status cid status accepted s =
     (if mx_poisoned s then s
      else s\<lparr>mx_data := hm_modify cid (\<lambda>r. r\<lparr>vr_status := status, vr_accepted := accepted\<rparr>) (mx_data s)\<rparr>)"

definition sandbox_order_count :: "sandbox \<Rightarrow> nat" where
  "sandbox_order_count s = (if mx_poisoned s then 0 else length (mx_data s))"

definition sandbox_unavailable :: adapter_error where
  "sandbox_unavailable = AUnavailable ''sandbox adapter state unavailable''"

definition sandbox_submit ::
  "ulid_text \<Rightarrow> order_intent \<Rightarrow> sandbox \<Rightarrow> (adapter_error + venue_order_result) \<times> sandbox" where
  "sandbox_submit us it s =
     (let cid = us (oi_id it)
      in if mx_poisoned s then (Inl sandbox_unavailable, s)
         else (case hm_get (mx_data s) cid of
                 Some existing \<Rightarrow> (Inr existing, s)
               | None \<Rightarrow>
                   let r = \<lparr>vr_venue_ref = ''sandbox:'' @ us (oi_id it), vr_client_order_id = cid,
                            vr_status = ''accepted'', vr_accepted = True\<rparr>
                   in (Inr r, s\<lparr>mx_data := hm_put cid r (mx_data s)\<rparr>)))"

definition sandbox_cancel :: "string \<Rightarrow> sandbox \<Rightarrow> (adapter_error + unit) \<times> sandbox" where
  "sandbox_cancel vref s =
     (if mx_poisoned s then (Inl sandbox_unavailable, s)
      else (case find (\<lambda>(k, r). vr_venue_ref r = vref) (mx_data s) of
              None \<Rightarrow> (Inl (ANotFound vref), s)
            | Some (k, r) \<Rightarrow>
                (Inr (), s\<lparr>mx_data :=
                   hm_put k (r\<lparr>vr_status := ''cancelled'', vr_accepted := False\<rparr>) (mx_data s)\<rparr>)))"

definition sandbox_query ::
  "string \<Rightarrow> sandbox \<Rightarrow> (adapter_error + venue_order_result) \<times> sandbox" where
  "sandbox_query vref s =
     (if mx_poisoned s then (Inl sandbox_unavailable, s)
      else (ok_or (ANotFound vref)
              (case hm_get (mx_data s) vref of
                 Some r \<Rightarrow> Some r
               | None \<Rightarrow> map_option snd (find (\<lambda>(k, r). vr_venue_ref r = vref) (mx_data s))), s))"

definition sandbox_adapter :: "ulid_text \<Rightarrow> sandbox venue_adapter" where
  "sandbox_adapter us = \<lparr>va_submit = sandbox_submit us, va_cancel = sandbox_cancel,
     va_query = sandbox_query,
     va_balances = (\<lambda>_. Inr \<lparr>vb_free = 10000, vb_locked = 0, vb_currency = ''USD''\<rparr>),
     va_healthy = (\<lambda>s. \<not> mx_poisoned s)\<rparr>"

definition read_only_error :: "venue_id \<Rightarrow> adapter_error" where
  "read_only_error v = ACapabilityMissing (venue_str v @ '' is a read-only venue'')"

definition read_only_adapter :: "venue_id \<Rightarrow> 'w venue_adapter" where
  "read_only_adapter v = \<lparr>va_submit = (\<lambda>_ w. (Inl (read_only_error v), w)),
     va_cancel = (\<lambda>_ w. (Inl (read_only_error v), w)),
     va_query = (\<lambda>_ w. (Inl (read_only_error v), w)),
     va_balances = (\<lambda>_. Inl (read_only_error v)),
     va_healthy = (\<lambda>_. True)\<rparr>"

type_synonym 'w adapter_registry = "(venue_id, 'w venue_adapter) hash_map"

definition registry_register ::
  "venue_id \<Rightarrow> 'w venue_adapter \<Rightarrow> 'w adapter_registry \<Rightarrow> 'w adapter_registry" where
  "registry_register v ad reg = hm_put v ad reg"

definition registry_get :: "'w adapter_registry \<Rightarrow> venue_id \<Rightarrow> 'w venue_adapter option" where
  "registry_get reg v = hm_get reg v"

definition registry_venues :: "'w adapter_registry \<Rightarrow> venue_id list" where
  "registry_venues reg = map fst reg"

definition registry_default :: "'w adapter_registry" where
  "registry_default =
     fold (\<lambda>slug reg. case venue_id_new slug of
             Inr v \<Rightarrow> registry_register v (read_only_adapter v) reg | Inl _ \<Rightarrow> reg)
       [''polymarket'', ''hyperliquid'', ''openbb''] []"

subsection \<open>One breaker per venue (breaker.rs)\<close>

datatype router_breaker_state = RbClosed | RbOpen

type_synonym router_breakers = "(venue_id, circuit_breaker) hash_map mutex"

definition breakers_allow :: "int \<Rightarrow> venue_id \<Rightarrow> router_breakers \<Rightarrow> bool \<times> router_breakers" where
  "breakers_allow now v b =
     (if mx_poisoned b then (False, b)
      else (case hm_get (mx_data b) v of
              None \<Rightarrow> (True, b)
            | Some cb \<Rightarrow>
                let (ok, cb') = allow_request now cb in (ok, b\<lparr>mx_data := hm_put v cb' (mx_data b)\<rparr>)))"

definition breakers_update ::
  "(circuit_breaker \<Rightarrow> circuit_breaker) \<Rightarrow> venue_id \<Rightarrow> router_breakers \<Rightarrow> router_breakers" where
  "breakers_update f v b =
     (if mx_poisoned b then b
      else b\<lparr>mx_data := hm_put v
               (f (case hm_get (mx_data b) v of None \<Rightarrow> breaker_new | Some cb \<Rightarrow> cb)) (mx_data b)\<rparr>)"

definition breakers_success :: "int \<Rightarrow> venue_id \<Rightarrow> router_breakers \<Rightarrow> router_breakers" where
  "breakers_success now v b = breakers_update (breaker_success now) v b"

definition breakers_failure :: "int \<Rightarrow> venue_id \<Rightarrow> router_breakers \<Rightarrow> router_breakers" where
  "breakers_failure now v b = breakers_update (breaker_failure now) v b"

definition breakers_state_for :: "venue_id \<Rightarrow> router_breakers \<Rightarrow> router_breaker_state" where
  "breakers_state_for v b =
     (if mx_poisoned b then RbOpen
      else (case hm_get (mx_data b) v of
              Some cb \<Rightarrow> if cb_state cb = BreakerClosed then RbClosed else RbOpen
            | None \<Rightarrow> RbClosed))"

subsection \<open>Submissions whose outcome is unknown (reconciler.rs)\<close>

datatype venue_observation = ObFilled | ObOpen | ObCancelled | ObRejected | ObNotFound

datatype reconciled_status = RsUnknown | RsFilled | RsOpen | RsClosed | RsNotFound

fun is_terminal :: "reconciled_status \<Rightarrow> bool" where
  "is_terminal RsFilled = True"
| "is_terminal RsClosed = True"
| "is_terminal RsNotFound = True"
| "is_terminal RsUnknown = False"
| "is_terminal RsOpen = False"

record reconciliation_target =
  tg_order_id :: ulid
  tg_venue_id :: venue_id
  tg_client_order_id :: string
  tg_attempts :: u32

record reconciliation_entry =
  re_status :: reconciled_status
  re_venue_id :: venue_id
  re_client_order_id :: string
  re_attempts :: u32

record reconciler_config =
  rcf_submit_timeout :: nat
  rcf_max_attempts :: u32

definition reconciler_config_default :: reconciler_config where
  "reconciler_config_default =
     \<lparr>rcf_submit_timeout = duration_millis 30000, rcf_max_attempts = 3\<rparr>"

type_synonym reconciler = "(ulid, reconciliation_entry) hash_map"

definition reconciler_new :: reconciler where
  "reconciler_new = []"

definition begin_unknown ::
  "ulid \<Rightarrow> venue_id \<Rightarrow> string \<Rightarrow> reconciler \<Rightarrow> bool \<times> reconciler" where
  "begin_unknown i v cid s =
     (if hm_get s i \<noteq> None then (False, s)
      else (True, hm_put i \<lparr>re_status = RsUnknown, re_venue_id = v, re_client_order_id = cid,
                            re_attempts = 0\<rparr> s))"

primrec observed_status :: "venue_observation \<Rightarrow> reconciled_status" where
  "observed_status ObFilled = RsFilled"
| "observed_status ObOpen = RsOpen"
| "observed_status ObCancelled = RsClosed"
| "observed_status ObRejected = RsClosed"
| "observed_status ObNotFound = RsNotFound"

definition observe :: "ulid \<Rightarrow> venue_observation \<Rightarrow> reconciler \<Rightarrow> bool \<times> reconciler" where
  "observe i ob s =
     (case hm_get s i of
        None \<Rightarrow> (False, s)
      | Some e \<Rightarrow> if is_terminal (re_status e) then (False, s)
                  else (True, hm_put i (e\<lparr>re_status := observed_status ob\<rparr>) s))"

definition reconciler_status :: "reconciler \<Rightarrow> ulid \<Rightarrow> reconciled_status option" where
  "reconciler_status s i = map_option re_status (hm_get s i)"

definition requires_reconciliation :: "reconciler \<Rightarrow> ulid \<Rightarrow> bool" where
  "requires_reconciliation s i =
     (case reconciler_status s i of None \<Rightarrow> False | Some st \<Rightarrow> \<not> is_terminal st)"

definition pending_count :: "reconciler \<Rightarrow> nat" where
  "pending_count s = length (filter (\<lambda>(_, e). \<not> is_terminal (re_status e)) s)"

definition pending_ids :: "reconciler \<Rightarrow> ulid list" where
  "pending_ids s = map fst (filter (\<lambda>(_, e). re_status e = RsUnknown) s)"

definition pending_targets :: "reconciler \<Rightarrow> reconciliation_target list" where
  "pending_targets s =
     map (\<lambda>(i, e). \<lparr>tg_order_id = i, tg_venue_id = re_venue_id e,
            tg_client_order_id = re_client_order_id e, tg_attempts = re_attempts e\<rparr>)
       (filter (\<lambda>(_, e). \<not> is_terminal (re_status e)) s)"

definition record_attempt :: "ulid \<Rightarrow> reconciler \<Rightarrow> u32 option \<times> reconciler" where
  "record_attempt i s =
     (case hm_get s i of
        None \<Rightarrow> (None, s)
      | Some e \<Rightarrow>
          if is_terminal (re_status e) then (None, s)
          else let e' = e\<lparr>re_attempts := saturating_add_w (re_attempts e) 1\<rparr>
               in (Some (re_attempts e'), hm_put i e' s))"

subsection \<open>The live ceremony (ceremony.rs)\<close>

text \<open>The environment variable is an argument.\<close>

definition is_live_enabled :: "string option \<Rightarrow> bool" where
  "is_live_enabled var =
     (case var of Some v \<Rightarrow> to_lower v = ''true'' \<or> v = ''1'' | None \<Rightarrow> False)"

record live_ceremony =
  lc_risk_passing :: bool
  lc_paper_ledger_validated :: bool
  lc_venue_health_ok :: bool

definition live_ceremony_default :: live_ceremony where
  "live_ceremony_default =
     \<lparr>lc_risk_passing = True, lc_paper_ledger_validated = True, lc_venue_health_ok = True\<rparr>"

definition verify_live_prerequisites ::
  "string option \<Rightarrow> bool \<Rightarrow> bool \<Rightarrow> bool \<Rightarrow> string list + unit" where
  "verify_live_prerequisites var risk ledger health =
     (let failures =
        (if \<not> is_live_enabled var then [''AETHER_EXECUTION__LIVE_ENABLED is not set to true''] else [])
        @ (if \<not> risk then [''risk engine is not passing all tests''] else [])
        @ (if \<not> ledger then [''paper ledger has not been validated (100+ paper orders)''] else [])
        @ (if \<not> health then [''one or more venues are not healthy''] else [])
      in if failures = [] then Inr () else Inl failures)"

definition ceremony_run :: "string option \<Rightarrow> live_ceremony \<Rightarrow> string list + unit" where
  "ceremony_run var c =
     verify_live_prerequisites var (lc_risk_passing c) (lc_paper_ledger_validated c) (lc_venue_health_ok c)"

lemma ceremony_passes_iff:
  "ceremony_run var c = Inr () \<longleftrightarrow>
     is_live_enabled var \<and> lc_risk_passing c \<and> lc_paper_ledger_validated c \<and> lc_venue_health_ok c"
  by (cases "is_live_enabled var"; cases "lc_risk_passing c"; cases "lc_paper_ledger_validated c";
      cases "lc_venue_health_ok c") (simp_all add: ceremony_run_def verify_live_prerequisites_def)

subsection \<open>What venues promise\<close>

text \<open>The venues behind a registry: \<open>placed w c\<close> counts the orders that exist there under the
  client order id \<open>c\<close>. A submission adds at most one, under the intent's own id; a query adds
  none.\<close>

locale venues =
  fixes us :: ulid_text and reg :: "'w adapter_registry" and placed :: "'w \<Rightarrow> string \<Rightarrow> nat"
  assumes submit_places: "registry_get reg v = Some ad \<Longrightarrow> va_submit ad it w = (r, w') \<Longrightarrow>
      placed w' c \<le> placed w c + (if c = us (oi_id it) then 1 else 0)"
    and query_places: "registry_get reg v = Some ad \<Longrightarrow> va_query ad vref w = (q, w') \<Longrightarrow>
      placed w' c = placed w c"
begin

lemma submit_other:
  "registry_get reg v = Some ad \<Longrightarrow> c \<noteq> us (oi_id it) \<Longrightarrow>
     placed (snd (va_submit ad it w)) c \<le> placed w c"
  using submit_places [of v ad it w "fst (va_submit ad it w)" "snd (va_submit ad it w)" c] by simp

end

text \<open>A venue that recognises the client order id: submitting again has no further effect, and
  the order can be found under it.\<close>

locale idempotent_venues = venues +
  assumes submit_again: "registry_get reg v = Some ad \<Longrightarrow> va_submit ad it w = (Inr res, w') \<Longrightarrow>
      va_submit ad it w' = (Inr res, w')"
    and query_finds: "registry_get reg v = Some ad \<Longrightarrow> va_submit ad it w = (Inr res, w') \<Longrightarrow>
      va_query ad (us (oi_id it)) w' = (Inr res, w')"
begin

lemma resubmit_places_nothing:
  "registry_get reg v = Some ad \<Longrightarrow> va_submit ad it w = (Inr res, w') \<Longrightarrow>
     placed (snd (va_submit ad it w')) = placed w'"
  by (simp add: submit_again)

end

definition sandbox_placed :: "sandbox \<Rightarrow> string \<Rightarrow> nat" where
  "sandbox_placed s c = (if hm_get (mx_data s) c = None then 0 else 1)"

definition sandbox_registry :: "ulid_text \<Rightarrow> venue_id \<Rightarrow> sandbox adapter_registry" where
  "sandbox_registry us v = registry_register v (sandbox_adapter us) registry_default"

lemma register_read_only_entries:
  "(\<And>u a. registry_get reg u = Some a \<Longrightarrow> \<exists>v. a = read_only_adapter v) \<Longrightarrow>
     registry_get (fold (\<lambda>slug reg. case venue_id_new slug of
         Inr v \<Rightarrow> registry_register v (read_only_adapter v) reg | Inl _ \<Rightarrow> reg) slugs reg) u = Some ad \<Longrightarrow>
     \<exists>v. ad = read_only_adapter v"
proof (induction slugs arbitrary: reg)
  case (Cons slug slugs)
  let ?reg = "case venue_id_new slug of
    Inr v \<Rightarrow> registry_register v (read_only_adapter v) reg | Inl _ \<Rightarrow> reg"
  have "\<exists>v. a = read_only_adapter v" if "registry_get ?reg u = Some a" for u a
    using that Cons.prems(1)
    by (cases "venue_id_new slug")
      (auto simp: registry_get_def registry_register_def hm_get_put split: if_splits)
  with Cons.IH [of ?reg] Cons.prems(2) show ?case by simp
qed auto

lemma registry_default_entries:
  "registry_get registry_default v = Some ad \<Longrightarrow> \<exists>u. ad = read_only_adapter u"
  using register_read_only_entries [of "[]" "[''polymarket'', ''hyperliquid'', ''openbb'']" v ad]
  unfolding registry_default_def by (simp only: registry_get_def map_of.simps option.distinct simp_thms)

lemma sandbox_registry_entries:
  "registry_get (sandbox_registry us v) u = Some ad \<Longrightarrow>
     ad = sandbox_adapter us \<or> (\<exists>u. ad = read_only_adapter u)"
  using registry_default_entries
  by (auto simp: sandbox_registry_def registry_register_def registry_get_def hm_get_put split: if_splits)

interpretation sandbox: idempotent_venues us "sandbox_registry us v" sandbox_placed for us v
proof unfold_locales
  fix u ad it s r s' c
  assume "registry_get (sandbox_registry us v) u = Some ad" "va_submit ad it s = (r, s')"
  then show "sandbox_placed s' c \<le> sandbox_placed s c + (if c = us (oi_id it) then 1 else 0)"
    by (auto dest!: sandbox_registry_entries simp: sandbox_adapter_def read_only_adapter_def
        sandbox_submit_def sandbox_placed_def Let_def hm_get_put split: if_splits option.splits)
next
  fix u ad vref s r s' c
  assume "registry_get (sandbox_registry us v) u = Some ad" "va_query ad vref s = (r, s')"
  then show "sandbox_placed s' c = sandbox_placed s c"
    by (auto dest!: sandbox_registry_entries simp: sandbox_adapter_def read_only_adapter_def
        sandbox_query_def split: if_splits)
next
  fix u ad it s res s'
  assume "registry_get (sandbox_registry us v) u = Some ad" "va_submit ad it s = (Inr res, s')"
  then show "va_submit ad it s' = (Inr res, s')" "va_query ad (us (oi_id it)) s' = (Inr res, s')"
    by (auto dest!: sandbox_registry_entries simp: sandbox_adapter_def read_only_adapter_def
        sandbox_submit_def sandbox_query_def Let_def hm_get_put split: if_splits option.splits)
qed

subsection \<open>What the reconciler promises\<close>

datatype reconciler_op =
    BeginUnknown ulid venue_id string
  | Observe ulid venue_observation
  | RecordAttempt ulid

fun reconciler_step :: "reconciler_op \<Rightarrow> reconciler \<Rightarrow> reconciler" where
  "reconciler_step (BeginUnknown i v cid) s = snd (begin_unknown i v cid s)"
| "reconciler_step (Observe i ob) s = snd (observe i ob s)"
| "reconciler_step (RecordAttempt i) s = snd (record_attempt i s)"

text \<open>One entry may follow another: the order stays on its venue under its client id, and a
  terminal entry stays as it is.\<close>

definition entry_later :: "reconciliation_entry \<Rightarrow> reconciliation_entry \<Rightarrow> bool" where
  "entry_later e e' \<longleftrightarrow> re_venue_id e' = re_venue_id e \<and> re_client_order_id e' = re_client_order_id e
     \<and> (is_terminal (re_status e) \<longrightarrow> e' = e)"

definition reconciler_later :: "reconciler \<Rightarrow> reconciler \<Rightarrow> bool" where
  "reconciler_later s s' \<longleftrightarrow>
     (\<forall>i e. hm_get s i = Some e \<longrightarrow> (\<exists>e'. hm_get s' i = Some e' \<and> entry_later e e'))"

lemma entry_later_refl [simp]: "entry_later e e"
  by (simp add: entry_later_def)

lemma entry_later_trans: "entry_later a b \<Longrightarrow> entry_later b c \<Longrightarrow> entry_later a c"
  by (auto simp: entry_later_def split: if_splits)

lemma reconciler_later_put:
  "(\<And>e. hm_get s i = Some e \<Longrightarrow> entry_later e e') \<Longrightarrow> reconciler_later s (hm_put i e' s)"
  by (auto simp: reconciler_later_def hm_get_put)

lemma reconciler_later_refl [simp]: "reconciler_later s s"
  by (simp add: reconciler_later_def)

lemma reconciler_later_trans:
  "reconciler_later s t \<Longrightarrow> reconciler_later t u \<Longrightarrow> reconciler_later s u"
  unfolding reconciler_later_def by (meson entry_later_trans)

lemma begin_unknown_later: "reconciler_later s (snd (begin_unknown i v cid s))"
  by (auto simp: begin_unknown_def intro!: reconciler_later_put)

lemma observe_later: "reconciler_later s (snd (observe i ob s))"
  by (auto simp: observe_def entry_later_def intro!: reconciler_later_put split: option.split)

lemma record_attempt_later: "reconciler_later s (snd (record_attempt i s))"
  by (auto simp: record_attempt_def entry_later_def Let_def intro!: reconciler_later_put split: option.split)

interpretation reconciling: history_machine reconciler_step reconciler_later
proof unfold_locales
  fix s e show "reconciler_later s (reconciler_step e s)"
    by (cases e) (simp_all add: begin_unknown_later observe_later record_attempt_later)
qed (auto intro: reconciler_later_trans)

end
