(* ===== verification/Order_Router.thy ===== *)
theory Order_Router
  imports Order_Adapters Authz Risk_Engine Paper_Ledger
begin

text \<open>
  The order router (\<^verbatim>\<open>connectors/execution/order-router/src/router.rs\<close>), the single entry point of
  every order: reservation of the intent's id, authorization, origin binding, risk, then either the
  venue's adapter or the paper ledger, and the reconciliation of submissions whose outcome is not
  known. The audit sink and the venue adapters are arguments, each acting on a state of its own;
  the instants at which the code reads a clock are arguments too. A failing decimal operation in
  the risk engine panics: the call has no outcome, and its reservation stays.

  The lemmas follow one call (what it must have passed before it reaches a venue, what it has
  recorded when it succeeds), and any number of interleaved calls (each intent is executed at most
  once, and later submissions replay its outcome).
\<close>

subsection \<open>Data\<close>

datatype router_error =
    RiskDenied "risk_reason list"
  | Unauthorized string
  | AuditUnavailable
  | StateUnavailable
  | InProgress
  | CapacityExceeded
  | MarketMismatch
  | PaperLedgerError ledger_error
  | VenueNotImplemented
  | SubmitUnknown

record router_result =
  rr_verdict :: risk_verdict
  rr_fills :: "fill list"
  rr_replayed :: bool

type_synonym outcome = "router_error + router_result"

record router_config =
  rf_risk_config :: risk_config
  rf_max_concurrent_orders :: nat
  rf_max_reconciliation_attempts :: u32

definition router_config_default :: router_config where
  "router_config_default = \<lparr>rf_risk_config = risk_config_default, rf_max_concurrent_orders = 100,
     rf_max_reconciliation_attempts = 3\<rparr>"

record router_auth_context =
  ra_actor :: actor
  ra_evaluation :: evaluation_context

record execution_audit_event =
  xe_intent_id :: ulid
  xe_at :: utc_time
  xe_phase :: string
  xe_allowed :: bool

record reconciliation_update =
  ru_intent_id :: ulid
  ru_status :: reconciled_status
  ru_attempts :: u32

record memory_execution_sink =
  ms_authz :: "audit_record list mutex"
  ms_execution :: "execution_audit_event list mutex"

definition memory_emit_authz ::
  "audit_record \<Rightarrow> memory_execution_sink \<Rightarrow> (unit + unit) \<times> memory_execution_sink" where
  "memory_emit_authz r s = (let (v, m) = memory_sink_emit r (ms_authz s) in (v, s\<lparr>ms_authz := m\<rparr>))"

definition memory_emit_execution ::
  "execution_audit_event \<Rightarrow> memory_execution_sink \<Rightarrow> (unit + unit) \<times> memory_execution_sink" where
  "memory_emit_execution e s =
     (let (v, m) = memory_sink_emit e (ms_execution s) in (v, s\<lparr>ms_execution := m\<rparr>))"

definition memory_authz_records :: "memory_execution_sink \<Rightarrow> audit_record list" where
  "memory_authz_records s = memory_sink_records (ms_authz s)"

definition memory_execution_records :: "memory_execution_sink \<Rightarrow> execution_audit_event list" where
  "memory_execution_records s = memory_sink_records (ms_execution s)"

datatype intent_state = Processing | Terminal outcome

text \<open>The router's fixed parts, and the parts behind locks together with the sink and the venues.\<close>

record ('w, 's) router =
  ro_dec :: dec_ops
  ro_render :: render
  ro_ulid :: ulid_text
  ro_config :: router_config
  ro_registry :: "'w adapter_registry"
  ro_emit_authz :: "audit_record \<Rightarrow> 's \<Rightarrow> (unit + unit) \<times> 's"
  ro_emit_execution :: "execution_audit_event \<Rightarrow> 's \<Rightarrow> (unit + unit) \<times> 's"

record ('w, 's) router_state =
  rt_ledger :: "paper_ledger mutex"
  rt_intents :: "(ulid, intent_state) hash_map mutex"
  rt_reconciler :: "reconciler mutex"
  rt_breakers :: router_breakers
  rt_audit :: 's
  rt_world :: 'w

definition new_mutex :: "'a \<Rightarrow> 'a mutex" where
  "new_mutex a = \<lparr>mx_poisoned = False, mx_data = a\<rparr>"

definition router_new :: "'s \<Rightarrow> 'w \<Rightarrow> ('w, 's) router_state" where
  "router_new sink world = \<lparr>rt_ledger = new_mutex ledger_new, rt_intents = new_mutex [],
     rt_reconciler = new_mutex reconciler_new, rt_breakers = new_mutex [],
     rt_audit = sink, rt_world = world\<rparr>"

definition register_adapter ::
  "venue_id \<Rightarrow> 'w venue_adapter \<Rightarrow> ('w, 's) router \<Rightarrow> ('w, 's) router" where
  "register_adapter v ad R = R\<lparr>ro_registry := registry_register v ad (ro_registry R)\<rparr>"

text \<open>The instants of one submission: the breaker's check, the report of the outcome to it, and
  the time the paper ledger stamps.\<close>

record submit_clock =
  ck_allow :: int
  ck_outcome :: int
  ck_ledger :: utc_time

subsection \<open>Submission\<close>

definition emit_event ::
  "('w, 's) router \<Rightarrow> ulid \<Rightarrow> utc_time \<Rightarrow> string \<Rightarrow> bool \<Rightarrow> ('w, 's) router_state
     \<Rightarrow> (router_error + unit) \<times> ('w, 's) router_state" where
  "emit_event R i t phase allowed st =
     (let (r, s') = ro_emit_execution R
            \<lparr>xe_intent_id = i, xe_at = t, xe_phase = phase, xe_allowed = allowed\<rparr> (rt_audit st)
      in (map_err (\<lambda>_. AuditUnavailable) r, st\<lparr>rt_audit := s'\<rparr>))"

definition note_success :: "int \<Rightarrow> venue_id \<Rightarrow> ('w, 's) router_state \<Rightarrow> ('w, 's) router_state" where
  "note_success now v st = st\<lparr>rt_breakers := breakers_success now v (rt_breakers st)\<rparr>"

definition note_failure :: "int \<Rightarrow> venue_id \<Rightarrow> ('w, 's) router_state \<Rightarrow> ('w, 's) router_state" where
  "note_failure now v st = st\<lparr>rt_breakers := breakers_failure now v (rt_breakers st)\<rparr>"

primrec actor_kind_of :: "origin_kind \<Rightarrow> actor_kind" where
  "actor_kind_of OriginHuman = Human"
| "actor_kind_of OriginAgent = Agent"
| "actor_kind_of OriginAutomation = Automation"

definition submit_action :: "order_intent \<Rightarrow> action" where
  "submit_action it = (if oi_paper it then SubmitPaperOrder else SubmitLiveOrder)"

definition authorize ::
  "('w, 's) router \<Rightarrow> order_intent \<Rightarrow> router_auth_context \<Rightarrow> ('w, 's) router_state
     \<Rightarrow> (router_error + audited_decision) \<times> ('w, 's) router_state" where
  "authorize R it auth st =
     (let (r, s') = enforce_at (ro_emit_authz R) Router (ra_actor auth) (submit_action it)
                      (ra_evaluation auth) (rt_audit st)
      in (map_err (\<lambda>_. AuditUnavailable) r, st\<lparr>rt_audit := s'\<rparr>))"

definition origin_matches :: "('w, 's) router \<Rightarrow> order_intent \<Rightarrow> actor \<Rightarrow> bool" where
  "origin_matches R it a \<longleftrightarrow>
     ac_id a = ro_ulid R (or_actor_id (oi_origin it)) \<and> ac_kind a = actor_kind_of (or_kind (oi_origin it))"

definition check_and_authorize ::
  "('w, 's) router \<Rightarrow> order_intent \<Rightarrow> order_book \<Rightarrow> risk_context \<Rightarrow> router_auth_context
     \<Rightarrow> ('w, 's) router_state \<Rightarrow> (router_error + unit) \<times> ('w, 's) router_state" where
  "check_and_authorize R it book ctx auth st =
     (if ob_market book \<noteq> oi_market it then (Inl MarketMismatch, st)
      else then_do (authorize R it auth) (\<lambda>a st1.
        if de_verdict (ad_decision a) \<noteq> VAllow then (Inl (Unauthorized (de_rule (ad_decision a))), st1)
        else if \<not> origin_matches R it (ra_actor auth)
        then then_do (emit_event R (oi_id it) (rc_evaluated_at ctx) ''intent_origin_binding'' False)
               (\<lambda>_ st2. (Inl (Unauthorized ''intent.origin_mismatch''), st2)) st1
        else (Inr (), st1)) st)"

definition venue_denied :: "message \<Rightarrow> router_error" where
  "venue_denied detail = RiskDenied [\<lparr>rr_code = VenueHealth, rr_detail = detail\<rparr>]"

definition submit_to_venue ::
  "('w, 's) router \<Rightarrow> order_intent \<Rightarrow> risk_context \<Rightarrow> submit_clock \<Rightarrow> risk_verdict \<Rightarrow> venue_id
     \<Rightarrow> 'w venue_adapter \<Rightarrow> ('w, 's) router_state \<Rightarrow> outcome \<times> ('w, 's) router_state" where
  "submit_to_venue R it ctx clk v venue ad st =
     (let (r, w) = va_submit ad it (rt_world st);
          st1 = st\<lparr>rt_world := w\<rparr>;
          failed = note_failure (ck_outcome clk) venue st1
      in case r of
           Inr res \<Rightarrow>
             if \<not> vr_accepted res
             then (Inl (venue_denied (Fmt ''venue rejected: {}'' [FStr (vr_status res)])), failed)
             else then_do (emit_event R (oi_id it) (rc_evaluated_at ctx) ''live_submit_accepted'' True)
                    (\<lambda>_ st2. (Inr \<lparr>rr_verdict = v, rr_fills = [], rr_replayed = False\<rparr>, st2))
                    (note_success (ck_outcome clk) venue st1)
         | Inl (ACapabilityMissing _) \<Rightarrow> (Inl VenueNotImplemented, failed)
         | Inl ATimeout \<Rightarrow>
             if mx_poisoned (rt_reconciler failed) then (Inl StateUnavailable, failed)
             else then_do (emit_event R (oi_id it) (rc_evaluated_at ctx) ''live_submit_unknown'' False)
                    (\<lambda>_ st2. (Inl SubmitUnknown, st2))
                    (failed\<lparr>rt_reconciler := (rt_reconciler failed)\<lparr>mx_data :=
                       snd (begin_unknown (oi_id it) venue (ro_ulid R (oi_id it))
                              (mx_data (rt_reconciler failed)))\<rparr>\<rparr>)
         | Inl e \<Rightarrow>
             (Inl (venue_denied (Fmt ''venue adapter error: {}'' [FStr (adapter_error_display e)])), failed))"

definition dispatch_live ::
  "('w, 's) router \<Rightarrow> order_intent \<Rightarrow> risk_context \<Rightarrow> submit_clock \<Rightarrow> risk_verdict
     \<Rightarrow> ('w, 's) router_state \<Rightarrow> outcome \<times> ('w, 's) router_state" where
  "dispatch_live R it ctx clk v st =
     (case hm_get (rc_markets ctx) (oi_market it) of
        None \<Rightarrow> (Inl StateUnavailable, st)
      | Some m \<Rightarrow>
          let venue = m_venue m;
              (ok, b) = breakers_allow (ck_allow clk) venue (rt_breakers st);
              st1 = st\<lparr>rt_breakers := b\<rparr>
          in if \<not> ok
             then (Inl (venue_denied (Fmt ''circuit breaker is open for venue {}'' [FStr (venue_str venue)])), st1)
             else (case registry_get (ro_registry R) venue of
                     None \<Rightarrow> (Inl VenueNotImplemented, note_failure (ck_outcome clk) venue st1)
                   | Some ad \<Rightarrow> submit_to_venue R it ctx clk v venue ad st1))"

definition dispatch_paper ::
  "('w, 's) router \<Rightarrow> order_intent \<Rightarrow> order_book \<Rightarrow> risk_context \<Rightarrow> submit_clock \<Rightarrow> risk_verdict
     \<Rightarrow> ('w, 's) router_state \<Rightarrow> outcome \<times> ('w, 's) router_state" where
  "dispatch_paper R it book ctx clk v st =
     then_do (emit_event R (oi_id it) (rc_evaluated_at ctx) ''paper_execution_authorized'' True) (\<lambda>_ st1.
       if mx_poisoned (rt_ledger st1) then (Inl StateUnavailable, st1)
       else let (r, l) = ledger_submit (ro_dec R) (ro_render R) (ck_ledger clk) it book
                           (mx_data (rt_ledger st1))
            in (map_ok (\<lambda>fs. \<lparr>rr_verdict = v, rr_fills = fs, rr_replayed = False\<rparr>)
                  (map_err PaperLedgerError r),
                st1\<lparr>rt_ledger := (rt_ledger st1)\<lparr>mx_data := l\<rparr>\<rparr>)) st"

definition execute_verdict ::
  "('w, 's) router \<Rightarrow> order_intent \<Rightarrow> order_book \<Rightarrow> risk_context \<Rightarrow> submit_clock \<Rightarrow> risk_verdict
     \<Rightarrow> ('w, 's) router_state \<Rightarrow> outcome \<times> ('w, 's) router_state" where
  "execute_verdict R it book ctx clk v st =
     then_do (emit_event R (oi_id it) (rc_evaluated_at ctx) ''risk_verdict'' (is_allowed v)) (\<lambda>_ st1.
       if \<not> is_allowed v then (Inl (RiskDenied (rv_reasons v)), st1)
       else if \<not> oi_paper it then dispatch_live R it ctx clk v st1
       else dispatch_paper R it book ctx clk v st1) st"

definition submit_reserved ::
  "('w, 's) router \<Rightarrow> order_intent \<Rightarrow> order_book \<Rightarrow> risk_context \<Rightarrow> router_auth_context \<Rightarrow> submit_clock
     \<Rightarrow> ('w, 's) router_state \<Rightarrow> outcome option \<times> ('w, 's) router_state" where
  "submit_reserved R it book ctx auth clk st =
     (case check_and_authorize R it book ctx auth st of
        (Inl e, st1) \<Rightarrow> (Some (Inl e), st1)
      | (Inr _, st1) \<Rightarrow>
          (case risk_evaluate (ro_dec R) (rf_risk_config (ro_config R)) it ctx of
             None \<Rightarrow> (None, st1)
           | Some v \<Rightarrow> let (r, st2) = execute_verdict R it book ctx clk v st1 in (Some r, st2)))"

definition in_flight :: "(ulid, intent_state) hash_map \<Rightarrow> nat" where
  "in_flight m = length (filter (\<lambda>(_, s). s = Processing) m)"

definition reserve ::
  "('w, 's) router \<Rightarrow> ulid \<Rightarrow> ('w, 's) router_state
     \<Rightarrow> (router_error + outcome option) \<times> ('w, 's) router_state" where
  "reserve R i st =
     (if mx_poisoned (rt_intents st) then (Inl StateUnavailable, st)
      else let m = mx_data (rt_intents st) in
        (case hm_get m i of
           Some Processing \<Rightarrow> (Inl InProgress, st)
         | Some (Terminal out) \<Rightarrow> (Inr (Some out), st)
         | None \<Rightarrow>
             if in_flight m \<ge> rf_max_concurrent_orders (ro_config R) then (Inl CapacityExceeded, st)
             else (Inr None, st\<lparr>rt_intents := (rt_intents st)\<lparr>mx_data := hm_put i Processing m\<rparr>\<rparr>)))"

definition finish ::
  "ulid \<Rightarrow> outcome \<Rightarrow> ('w, 's) router_state \<Rightarrow> (router_error + unit) \<times> ('w, 's) router_state" where
  "finish i out st =
     (if mx_poisoned (rt_intents st) then (Inl StateUnavailable, st)
      else (Inr (), st\<lparr>rt_intents := (rt_intents st)\<lparr>mx_data :=
              hm_put i (Terminal out) (mx_data (rt_intents st))\<rparr>\<rparr>))"

definition as_replay :: "outcome \<Rightarrow> outcome" where
  "as_replay out = map_ok (\<lambda>r. r\<lparr>rr_replayed := True\<rparr>) out"

definition router_submit ::
  "('w, 's) router \<Rightarrow> order_intent \<Rightarrow> order_book \<Rightarrow> risk_context \<Rightarrow> router_auth_context \<Rightarrow> submit_clock
     \<Rightarrow> ('w, 's) router_state \<Rightarrow> outcome option \<times> ('w, 's) router_state" where
  "router_submit R it book ctx auth clk st =
     (case reserve R (oi_id it) st of
        (Inl e, st1) \<Rightarrow> (Some (Inl e), st1)
      | (Inr (Some previous), st1) \<Rightarrow> (Some (as_replay previous), st1)
      | (Inr None, st1) \<Rightarrow>
          (case submit_reserved R it book ctx auth clk st1 of
             (None, st2) \<Rightarrow> (None, st2)
           | (Some out, st2) \<Rightarrow>
               (case finish (oi_id it) out st2 of
                  (Inl e, st3) \<Rightarrow> (Some (Inl e), st3)
                | (Inr _, st3) \<Rightarrow> (Some out, st3))))"

subsection \<open>Queries\<close>

definition is_seen :: "('w, 's) router_state \<Rightarrow> ulid \<Rightarrow> bool" where
  "is_seen st i \<longleftrightarrow> \<not> mx_poisoned (rt_intents st) \<and> hm_get (mx_data (rt_intents st)) i \<noteq> None"

definition get_result :: "('w, 's) router_state \<Rightarrow> ulid \<Rightarrow> router_result option" where
  "get_result st i =
     (if mx_poisoned (rt_intents st) then None
      else (case hm_get (mx_data (rt_intents st)) i of
              Some (Terminal (Inr res)) \<Rightarrow> Some res | _ \<Rightarrow> None))"

definition paper_counts :: "('w, 's) router_state \<Rightarrow> router_error + nat \<times> nat" where
  "paper_counts st =
     (if mx_poisoned (rt_ledger st) then Inl StateUnavailable
      else let l = mx_data (rt_ledger st) in Inr (length (pl_orders l), length (pl_fills l)))"

definition reconciliation_status ::
  "('w, 's) router_state \<Rightarrow> ulid \<Rightarrow> router_error + reconciled_status option" where
  "reconciliation_status st i =
     (if mx_poisoned (rt_reconciler st) then Inl StateUnavailable
      else Inr (reconciler_status (mx_data (rt_reconciler st)) i))"

definition pending_unknown_count :: "('w, 's) router_state \<Rightarrow> router_error + nat" where
  "pending_unknown_count st =
     (if mx_poisoned (rt_reconciler st) then Inl StateUnavailable
      else Inr (pending_count (mx_data (rt_reconciler st))))"

subsection \<open>Reconciliation\<close>

primrec map_observation :: "venue_order_observation \<Rightarrow> venue_observation" where
  "map_observation VoFilled = ObFilled"
| "map_observation VoOpen = ObOpen"
| "map_observation VoCancelled = ObCancelled"
| "map_observation VoRejected = ObRejected"

text \<open>What the answer to a query says of the order, and whether it counts against the venue.\<close>

definition query_observation ::
  "u32 \<Rightarrow> u32 \<Rightarrow> adapter_error + venue_order_result \<Rightarrow> venue_observation option \<times> bool" where
  "query_observation limit attempts q =
     (case q of
        Inr res \<Rightarrow> (Some (map_observation (order_observation res)), False)
      | Inl (ANotFound _) \<Rightarrow> (if limit \<le> attempts then Some ObNotFound else None, False)
      | Inl ATimeout \<Rightarrow> (None, False)
      | Inl _ \<Rightarrow> (None, True))"

definition set_reconciler :: "reconciler \<Rightarrow> ('w, 's) router_state \<Rightarrow> ('w, 's) router_state" where
  "set_reconciler s st = st\<lparr>rt_reconciler := (rt_reconciler st)\<lparr>mx_data := s\<rparr>\<rparr>"

definition apply_observation ::
  "('w, 's) router \<Rightarrow> utc_time \<Rightarrow> reconciliation_target \<Rightarrow> u32 \<Rightarrow> venue_observation
     \<Rightarrow> ('w, 's) router_state \<Rightarrow> (router_error + reconciliation_update option) \<times> ('w, 's) router_state" where
  "apply_observation R ts0 t attempts ob st =
     (if mx_poisoned (rt_reconciler st) then (Inl StateUnavailable, st)
      else let s = snd (observe (tg_order_id t) ob (mx_data (rt_reconciler st)));
               st1 = set_reconciler s st
           in (case reconciler_status s (tg_order_id t) of
                 None \<Rightarrow> (Inr None, st1)
               | Some status \<Rightarrow>
                   then_do (emit_event R (tg_order_id t) ts0 ''live_submit_reconciled'' (status \<noteq> RsNotFound))
                     (\<lambda>_ st2. (Inr (Some \<lparr>ru_intent_id = tg_order_id t, ru_status = status,
                                          ru_attempts = attempts\<rparr>), st2)) st1))"

text \<open>One target; the instant at which its breaker may be told of a failure is an argument.\<close>

definition reconcile_target ::
  "('w, 's) router \<Rightarrow> utc_time \<Rightarrow> (ulid \<Rightarrow> int) \<Rightarrow> reconciliation_target
     \<Rightarrow> ('w, 's) router_state \<Rightarrow> (router_error + reconciliation_update option) \<times> ('w, 's) router_state" where
  "reconcile_target R ts0 now t st =
     (case registry_get (ro_registry R) (tg_venue_id t) of
        None \<Rightarrow> (Inr None, st)
      | Some ad \<Rightarrow>
          if mx_poisoned (rt_reconciler st) then (Inl StateUnavailable, st)
          else let (recorded, s) = record_attempt (tg_order_id t) (mx_data (rt_reconciler st));
                   attempts = (case recorded of Some n \<Rightarrow> n | None \<Rightarrow> tg_attempts t);
                   (q, w) = va_query ad (tg_client_order_id t) (rt_world st);
                   st1 = (set_reconciler s st)\<lparr>rt_world := w\<rparr>;
                   (ob, blame) = query_observation (rf_max_reconciliation_attempts (ro_config R)) attempts q;
                   st2 = (if blame then note_failure (now (tg_order_id t)) (tg_venue_id t) st1 else st1)
               in (case ob of
                     None \<Rightarrow> (Inr None, st2)
                   | Some obs \<Rightarrow> apply_observation R ts0 t attempts obs st2))"

primrec reconcile_targets ::
  "('w, 's) router \<Rightarrow> utc_time \<Rightarrow> (ulid \<Rightarrow> int) \<Rightarrow> reconciliation_target list
     \<Rightarrow> ('w, 's) router_state \<Rightarrow> (router_error + reconciliation_update list) \<times> ('w, 's) router_state" where
  "reconcile_targets R ts0 now [] st = (Inr [], st)"
| "reconcile_targets R ts0 now (t # ts) st =
     then_do (reconcile_target R ts0 now t) (\<lambda>u st1.
     then_do (reconcile_targets R ts0 now ts) (\<lambda>us st2.
       (Inr (opt_list u @ us), st2)) st1) st"

definition reconcile_unknowns ::
  "('w, 's) router \<Rightarrow> utc_time \<Rightarrow> (ulid \<Rightarrow> int) \<Rightarrow> ('w, 's) router_state
     \<Rightarrow> (router_error + reconciliation_update list) \<times> ('w, 's) router_state" where
  "reconcile_unknowns R ts0 now st =
     (if mx_poisoned (rt_reconciler st) then (Inl StateUnavailable, st)
      else reconcile_targets R ts0 now (pending_targets (mx_data (rt_reconciler st))) st)"

subsection \<open>The stages of one call\<close>

text \<open>A stage that only talks to the audit sink.\<close>

definition quiet :: "('w, 's) router_state \<Rightarrow> ('w, 's) router_state \<Rightarrow> bool" where
  "quiet st st' \<longleftrightarrow> rt_ledger st' = rt_ledger st \<and> rt_intents st' = rt_intents st
     \<and> rt_reconciler st' = rt_reconciler st \<and> rt_breakers st' = rt_breakers st \<and> rt_world st' = rt_world st"

lemma quiet_refl [simp]: "quiet st st"
  by (simp add: quiet_def)

lemma quiet_trans: "quiet a b \<Longrightarrow> quiet b c \<Longrightarrow> quiet a c"
  by (simp add: quiet_def)

lemma emit_event_quiet: "emit_event R i t ph ok st = (r, st') \<Longrightarrow> quiet st st'"
  by (auto simp: emit_event_def quiet_def split: prod.splits)

lemma authorize_quiet: "authorize R it auth st = (r, st') \<Longrightarrow> quiet st st'"
  by (auto simp: authorize_def quiet_def split: prod.splits)

lemma enforce_decides:
  "enforce_at emit p actor a c s = (Inr d, s') \<Longrightarrow> ad_decision d = evaluate actor a c"
  by (auto simp: enforce_at_def Let_def split: prod.splits sum.splits)

lemma authorize_decides:
  "authorize R it auth st = (Inr d, st') \<Longrightarrow>
     ad_decision d = evaluate (ra_actor auth) (submit_action it) (ra_evaluation auth)"
  by (auto simp: authorize_def map_err_Inr_iff split: prod.splits dest: enforce_decides)

lemma check_and_authorize_quiet:
  "check_and_authorize R it book ctx auth st = (r, st') \<Longrightarrow> quiet st st'"
  by (auto simp: check_and_authorize_def split: if_splits elim!: then_doE
      dest!: authorize_quiet emit_event_quiet intro: quiet_trans)

lemma check_and_authorize_passes:
  assumes "check_and_authorize R it book ctx auth st = (Inr (), st')"
  shows "ob_market book = oi_market it
    \<and> de_verdict (evaluate (ra_actor auth) (submit_action it) (ra_evaluation auth)) = VAllow
    \<and> origin_matches R it (ra_actor auth) \<and> (\<exists>d. authorize R it auth st = (Inr d, st'))"
  using assms
  by (auto simp: check_and_authorize_def then_do_Inr_iff authorize_decides split: if_splits)

text \<open>The conditions an intent must meet before anything is executed for it.\<close>

definition cleared ::
  "('w, 's) router \<Rightarrow> order_intent \<Rightarrow> order_book \<Rightarrow> risk_context \<Rightarrow> router_auth_context \<Rightarrow> risk_verdict \<Rightarrow> bool" where
  "cleared R it book ctx auth v \<longleftrightarrow>
     ob_market book = oi_market it
     \<and> de_verdict (evaluate (ra_actor auth) (submit_action it) (ra_evaluation auth)) = VAllow
     \<and> origin_matches R it (ra_actor auth)
     \<and> risk_evaluate (ro_dec R) (rf_risk_config (ro_config R)) it ctx = Some v \<and> is_allowed v"

lemma execute_verdictE:
  assumes "execute_verdict R it book ctx clk v st = (out, st')"
  obtains (stopped) e where "out = Inl e" "quiet st st'"
    | (dispatched) st1 where "is_allowed v" "quiet st st1"
      "emit_event R (oi_id it) (rc_evaluated_at ctx) ''risk_verdict'' True st = (Inr (), st1)"
      "(if oi_paper it then dispatch_paper R it book ctx clk v st1
        else dispatch_live R it ctx clk v st1) = (out, st')"
  using assms [unfolded execute_verdict_def]
proof (cases rule: then_doE)
  case (stop e)
  show thesis by (rule stopped [OF stop(2) emit_event_quiet [OF stop(1)]])
next
  case (go a st1)
  note q = emit_event_quiet [OF go(1)]
  show thesis
  proof (cases "is_allowed v")
    case True
    with go q show thesis by (intro dispatched) (auto split: if_splits)
  next
    case False
    with go(2) have "out = Inl (RiskDenied (rv_reasons v))" "st1 = st'" by auto
    with q show thesis by (intro stopped) auto
  qed
qed

lemma submit_reservedE:
  assumes "submit_reserved R it book ctx auth clk st = (r, st')"
  obtains (panic) "r = None" "quiet st st'"
    | (stopped) e where "r = Some (Inl e)" "quiet st st'"
    | (dispatched) v st0 st1 out where "cleared R it book ctx auth v"
      "check_and_authorize R it book ctx auth st = (Inr (), st0)"
      "emit_event R (oi_id it) (rc_evaluated_at ctx) ''risk_verdict'' True st0 = (Inr (), st1)"
      "quiet st st1" "r = Some out"
      "(if oi_paper it then dispatch_paper R it book ctx clk v st1
        else dispatch_live R it ctx clk v st1) = (out, st')"
proof -
  obtain a st0 where ca: "check_and_authorize R it book ctx auth st = (a, st0)" by force
  note q0 = check_and_authorize_quiet [OF ca]
  show thesis
  proof (cases a)
    case (Inl e)
    with assms ca have "r = Some (Inl e)" "st' = st0" by (simp_all add: submit_reserved_def)
    with q0 show thesis by (intro stopped) simp_all
  next
    case (Inr u)
    then have ca': "check_and_authorize R it book ctx auth st = (Inr (), st0)" using ca by simp
    show thesis
    proof (cases "risk_evaluate (ro_dec R) (rf_risk_config (ro_config R)) it ctx")
      case None
      with assms ca' have "r = None" "st' = st0" by (simp_all add: submit_reserved_def)
      with q0 show thesis by (intro panic) simp_all
    next
      case (Some v)
      obtain out st2 where ev: "execute_verdict R it book ctx clk v st0 = (out, st2)" by force
      with assms ca' Some have r: "r = Some out" "st2 = st'" by (simp_all add: submit_reserved_def)
      from ev [unfolded r] show thesis
      proof (cases rule: execute_verdictE)
        case (stopped e)
        with r quiet_trans [OF q0] show thesis by (intro that(2)) simp_all
      next
        case (dispatched st1)
        with check_and_authorize_passes [OF ca'] Some have "cleared R it book ctx auth v"
          by (simp add: cleared_def)
        with ca' dispatched r quiet_trans [OF q0] show thesis by (intro that(3)) simp_all
      qed
    qed
  qed
qed

lemma dispatch_paper_frame:
  "dispatch_paper R it book ctx clk v st = (out, st') \<Longrightarrow>
     rt_intents st' = rt_intents st \<and> rt_reconciler st' = rt_reconciler st
     \<and> rt_breakers st' = rt_breakers st \<and> rt_world st' = rt_world st"
  by (auto simp: dispatch_paper_def quiet_def Let_def elim!: then_doE split: if_splits prod.splits
      dest!: emit_event_quiet)

lemma note_failure_frame [simp]:
  "rt_ledger (note_failure now v st) = rt_ledger st" "rt_intents (note_failure now v st) = rt_intents st"
  "rt_reconciler (note_failure now v st) = rt_reconciler st" "rt_world (note_failure now v st) = rt_world st"
  "rt_audit (note_failure now v st) = rt_audit st"
  by (simp_all add: note_failure_def)

lemma note_success_frame [simp]:
  "rt_ledger (note_success now v st) = rt_ledger st" "rt_intents (note_success now v st) = rt_intents st"
  "rt_reconciler (note_success now v st) = rt_reconciler st" "rt_world (note_success now v st) = rt_world st"
  "rt_audit (note_success now v st) = rt_audit st"
  by (simp_all add: note_success_def)

lemma submit_to_venue_frame:
  "submit_to_venue R it ctx clk v venue ad st = (out, st') \<Longrightarrow>
     rt_ledger st' = rt_ledger st \<and> rt_intents st' = rt_intents st
     \<and> rt_world st' = snd (va_submit ad it (rt_world st))"
  by (auto simp: submit_to_venue_def quiet_def Let_def elim!: then_doE
      split: if_splits prod.splits sum.splits adapter_error.splits dest!: emit_event_quiet)

lemma dispatch_liveE:
  assumes "dispatch_live R it ctx clk v st = (out, st')"
  obtains (unsent) e where "out = Inl e" "rt_ledger st' = rt_ledger st" "rt_intents st' = rt_intents st"
      "rt_reconciler st' = rt_reconciler st" "rt_world st' = rt_world st" "rt_audit st' = rt_audit st"
    | (sent) m ad b where "hm_get (rc_markets ctx) (oi_market it) = Some m"
      "breakers_allow (ck_allow clk) (m_venue m) (rt_breakers st) = (True, b)"
      "registry_get (ro_registry R) (m_venue m) = Some ad"
      "submit_to_venue R it ctx clk v (m_venue m) ad (st\<lparr>rt_breakers := b\<rparr>) = (out, st')"
  using assms
  by (auto simp: dispatch_live_def Let_def split: option.splits if_splits prod.splits)

lemma dispatch_live_frame:
  "dispatch_live R it ctx clk v st = (out, st') \<Longrightarrow>
     rt_ledger st' = rt_ledger st \<and> rt_intents st' = rt_intents st"
  by (erule dispatch_liveE) (auto dest: submit_to_venue_frame)

lemma submit_reserved_intents:
  "submit_reserved R it book ctx auth clk st = (r, st') \<Longrightarrow> rt_intents st' = rt_intents st"
  by (erule submit_reservedE)
    (auto simp: quiet_def split: if_splits dest!: dispatch_live_frame dispatch_paper_frame)

subsection \<open>What reaches a venue\<close>

lemma allowed_live_enabled:
  assumes "risk_evaluate D cfg it ctx = Some v" "is_allowed v" "\<not> oi_paper it"
  shows "rc_live_enabled ctx"
  using assms(1) by (cases rule: risk_evaluateE) (use assms(2,3) in \<open>auto simp: live_ok_def\<close>)

lemma world_changed:
  assumes "submit_reserved R it book ctx auth clk st = (r, st')" "rt_world st' \<noteq> rt_world st"
  obtains v st1 m ad b out where "cleared R it book ctx auth v" "\<not> oi_paper it" "quiet st st1"
    "hm_get (rc_markets ctx) (oi_market it) = Some m"
    "breakers_allow (ck_allow clk) (m_venue m) (rt_breakers st) = (True, b)"
    "registry_get (ro_registry R) (m_venue m) = Some ad"
    "submit_to_venue R it ctx clk v (m_venue m) ad (st1\<lparr>rt_breakers := b\<rparr>) = (out, st')" "r = Some out"
  using assms(1)
proof (cases rule: submit_reservedE)
  case (dispatched v st0 st1 out)
  then have live: "\<not> oi_paper it" using assms(2) by (auto simp: quiet_def dest!: dispatch_paper_frame)
  with dispatched(6) have "dispatch_live R it ctx clk v st1 = (out, st')" by simp
  then show thesis
  proof (cases rule: dispatch_liveE)
    case unsent
    with dispatched(4) assms(2) show thesis by (simp add: quiet_def)
  next
    case (sent m ad b)
    have "rt_breakers st1 = rt_breakers st" using dispatched(4) by (simp add: quiet_def)
    with sent live dispatched show thesis by (intro that [of v st1]) simp_all
  qed
qed (use assms(2) in \<open>auto simp: quiet_def\<close>)

text \<open>
  Property C23. Nothing happens at a venue unless the order is live and live trading is enabled in
  the snapshot, the book is of the order's market, authorization allowed the submission, the caller
  is the order's own origin, risk allowed it, the breaker of the market's venue let it pass and an
  adapter is registered there; and then what happens is exactly one submission of this intent to
  that adapter.
\<close>

theorem venue_reached_only_when_cleared:
  assumes "submit_reserved R it book ctx auth clk st = (r, st')" "rt_world st' \<noteq> rt_world st"
  shows "\<exists>v m ad. cleared R it book ctx auth v \<and> \<not> oi_paper it \<and> rc_live_enabled ctx
    \<and> hm_get (rc_markets ctx) (oi_market it) = Some m
    \<and> fst (breakers_allow (ck_allow clk) (m_venue m) (rt_breakers st))
    \<and> registry_get (ro_registry R) (m_venue m) = Some ad
    \<and> rt_world st' = snd (va_submit ad it (rt_world st))"
proof -
  from assms obtain v st1 m ad b out where w: "cleared R it book ctx auth v" "\<not> oi_paper it"
    "quiet st st1" "hm_get (rc_markets ctx) (oi_market it) = Some m"
    "breakers_allow (ck_allow clk) (m_venue m) (rt_breakers st) = (True, b)"
    "registry_get (ro_registry R) (m_venue m) = Some ad"
    "submit_to_venue R it ctx clk v (m_venue m) ad (st1\<lparr>rt_breakers := b\<rparr>) = (out, st')"
    by (rule world_changed)
  from w(1,2) have "rc_live_enabled ctx" by (auto simp: cleared_def dest: allowed_live_enabled)
  moreover have "rt_world st' = snd (va_submit ad it (rt_world st))"
    using submit_to_venue_frame [OF w(7)] w(3) by (simp add: quiet_def)
  ultimately show ?thesis using w by auto
qed

text \<open>
  Paper orders leave the venues, their breakers and the tracker of unknown submissions
  alone; live orders leave the paper ledger alone; and no call touches the record of intents
  between its reservation and its end.
\<close>

theorem paper_and_live_are_separate:
  "let st' = snd (submit_reserved R it book ctx auth clk st)
   in rt_intents st' = rt_intents st
      \<and> (if oi_paper it
         then rt_world st' = rt_world st \<and> rt_breakers st' = rt_breakers st
              \<and> rt_reconciler st' = rt_reconciler st
         else rt_ledger st' = rt_ledger st)"
proof -
  obtain r st' where s: "submit_reserved R it book ctx auth clk st = (r, st')" by force
  have "rt_intents st' = rt_intents st" by (rule submit_reserved_intents [OF s])
  moreover from s have "if oi_paper it
      then rt_world st' = rt_world st \<and> rt_breakers st' = rt_breakers st
        \<and> rt_reconciler st' = rt_reconciler st
      else rt_ledger st' = rt_ledger st"
    by (rule submit_reservedE)
      (auto simp: quiet_def split: if_splits dest!: dispatch_live_frame dispatch_paper_frame)
  ultimately show ?thesis by (simp add: s)
qed

subsection \<open>What a success has recorded\<close>

text \<open>A sink with two logs, neither of which is touched by writing to the other.\<close>

locale execution_sink =
  authz: append_sink emit_authz authz_log + execution: append_sink emit_execution execution_log
  for emit_authz :: "audit_record \<Rightarrow> 's \<Rightarrow> (unit + unit) \<times> 's"
    and authz_log :: "'s \<Rightarrow> audit_record list"
    and emit_execution :: "execution_audit_event \<Rightarrow> 's \<Rightarrow> (unit + unit) \<times> 's"
    and execution_log :: "'s \<Rightarrow> execution_audit_event list" +
  assumes authz_keeps: "emit_authz r s = (u, s') \<Longrightarrow> execution_log s' = execution_log s"
    and execution_keeps: "emit_execution e s = (u, s') \<Longrightarrow> authz_log s' = authz_log s"
begin

lemma event_logged:
  assumes "emit_event R i t phase ok st = (Inr u, st')" "ro_emit_execution R = emit_execution"
  shows "execution_log (rt_audit st') = execution_log (rt_audit st)
      @ [\<lparr>xe_intent_id = i, xe_at = t, xe_phase = phase, xe_allowed = ok\<rparr>]
    \<and> authz_log (rt_audit st') = authz_log (rt_audit st)"
  using assms(1) unfolding emit_event_def assms(2)
  by (auto simp: map_err_Inr_iff execution.emit_ok execution_keeps split: prod.splits)

lemma authorization_logged:
  assumes "authorize R it auth st = (Inr d, st')" "ro_emit_authz R = emit_authz"
  shows "authz_log (rt_audit st') = authz_log (rt_audit st) @ [ad_audit d]
    \<and> au_verdict (ad_audit d) = de_verdict (ad_decision d)
    \<and> execution_log (rt_audit st') = execution_log (rt_audit st)"
  using assms(1) unfolding authorize_def enforce_at_def assms(2)
  by (auto simp: map_err_Inr_iff Let_def audit_record_of_def authz.emit_ok authz_keeps
      split: prod.splits sum.splits)

end

interpretation memory_execution: execution_sink
    memory_emit_authz "\<lambda>s. mx_data (ms_authz s)"
    memory_emit_execution "\<lambda>s. mx_data (ms_execution s)"
  by unfold_locales
    (auto simp: memory_emit_authz_def memory_emit_execution_def memory_sink_emit_def split: if_splits)

context execution_sink
begin

text \<open>The two events of an order that went through.\<close>

lemma paper_logged:
  assumes "dispatch_paper R it book ctx clk v st = (Inr res, st')" "ro_emit_execution R = emit_execution"
  shows "execution_log (rt_audit st') = execution_log (rt_audit st)
      @ [\<lparr>xe_intent_id = oi_id it, xe_at = rc_evaluated_at ctx,
          xe_phase = ''paper_execution_authorized'', xe_allowed = True\<rparr>]
    \<and> authz_log (rt_audit st') = authz_log (rt_audit st) \<and> rr_verdict res = v \<and> \<not> rr_replayed res"
proof -
  from assms(1) obtain st1 where e: "emit_event R (oi_id it) (rc_evaluated_at ctx)
      ''paper_execution_authorized'' True st = (Inr (), st1)" and a: "rt_audit st' = rt_audit st1"
    and r: "rr_verdict res = v" "\<not> rr_replayed res"
    by (auto simp: dispatch_paper_def then_do_Inr_iff Let_def map_ok_Inr_iff split: if_splits prod.splits)
  from event_logged [OF e assms(2)] a r show ?thesis by simp
qed

lemma live_logged:
  assumes "dispatch_live R it ctx clk v st = (Inr res, st')" "ro_emit_execution R = emit_execution"
  shows "execution_log (rt_audit st') = execution_log (rt_audit st)
      @ [\<lparr>xe_intent_id = oi_id it, xe_at = rc_evaluated_at ctx,
          xe_phase = ''live_submit_accepted'', xe_allowed = True\<rparr>]
    \<and> authz_log (rt_audit st') = authz_log (rt_audit st) \<and> rr_verdict res = v \<and> \<not> rr_replayed res"
  using assms(1)
proof (cases rule: dispatch_liveE)
  case (sent m ad b)
  then obtain st1 where e: "emit_event R (oi_id it) (rc_evaluated_at ctx) ''live_submit_accepted'' True st1
      = (Inr (), st')" and a: "rt_audit st1 = rt_audit st" and r: "rr_verdict res = v" "\<not> rr_replayed res"
    by (auto simp: submit_to_venue_def then_do_Inr_iff Let_def
        split: if_splits prod.splits sum.splits adapter_error.splits)
  from event_logged [OF e assms(2)] a r show ?thesis by simp
qed simp

lemma success_logged:
  assumes "submit_reserved R it book ctx auth clk st = (Some (Inr res), st')"
    "ro_emit_authz R = emit_authz" "ro_emit_execution R = emit_execution"
  shows "(\<exists>d. authz_log (rt_audit st') = authz_log (rt_audit st) @ [d] \<and> au_verdict d = VAllow)
    \<and> execution_log (rt_audit st') = execution_log (rt_audit st)
      @ [\<lparr>xe_intent_id = oi_id it, xe_at = rc_evaluated_at ctx, xe_phase = ''risk_verdict'', xe_allowed = True\<rparr>,
         \<lparr>xe_intent_id = oi_id it, xe_at = rc_evaluated_at ctx,
          xe_phase = (if oi_paper it then ''paper_execution_authorized'' else ''live_submit_accepted''),
          xe_allowed = True\<rparr>]
    \<and> cleared R it book ctx auth (rr_verdict res) \<and> \<not> rr_replayed res"
  using assms(1)
proof (cases rule: submit_reservedE)
  case (dispatched v st0 st1 out)
  then obtain d where d: "authorize R it auth st = (Inr d, st0)" by (blast dest: check_and_authorize_passes)
  have "de_verdict (ad_decision d) = VAllow"
    using dispatched(1) authorize_decides [OF d] by (simp add: cleared_def)
  with authorization_logged [OF d assms(2)] event_logged [OF dispatched(3) assms(3)] show ?thesis
    using dispatched paper_logged [of R it book ctx clk v st1 res st'] live_logged [of R it ctx clk v st1 res st']
      assms(3) by (auto split: if_splits)
qed auto

end

text \<open>
  A submission that succeeds has left, in the in-memory sink and in this order, the
  record of its authorization with verdict Allow, the event of its risk verdict and the event of its
  execution (of the paper execution before the ledger was touched, or of the accepted live
  submission); the verdict it returns is the one risk gave for this intent.
\<close>

theorem success_is_audited:
  assumes "submit_reserved R it book ctx auth clk st = (Some (Inr res), st')"
    "ro_emit_authz R = memory_emit_authz" "ro_emit_execution R = memory_emit_execution"
  shows "(\<exists>d. mx_data (ms_authz (rt_audit st')) = mx_data (ms_authz (rt_audit st)) @ [d]
      \<and> au_verdict d = VAllow)
    \<and> mx_data (ms_execution (rt_audit st')) = mx_data (ms_execution (rt_audit st))
      @ [\<lparr>xe_intent_id = oi_id it, xe_at = rc_evaluated_at ctx, xe_phase = ''risk_verdict'', xe_allowed = True\<rparr>,
         \<lparr>xe_intent_id = oi_id it, xe_at = rc_evaluated_at ctx,
          xe_phase = (if oi_paper it then ''paper_execution_authorized'' else ''live_submit_accepted''),
          xe_allowed = True\<rparr>]
    \<and> cleared R it book ctx auth (rr_verdict res) \<and> \<not> rr_replayed res"
  by (rule memory_execution.success_logged [OF assms])

text \<open>
  An order the venue has accepted can be lost sight of: when the sink then refuses the
  acceptance event, the caller is told that the audit is unavailable, although the venue holds the
  order, and the tracker of unknown submissions is not told of it.
\<close>

theorem accepted_order_untracked:
  assumes "va_submit ad it (rt_world st) = (Inr res, w)" "vr_accepted res"
    "\<forall>s. fst (ro_emit_execution R \<lparr>xe_intent_id = oi_id it, xe_at = rc_evaluated_at ctx,
           xe_phase = ''live_submit_accepted'', xe_allowed = True\<rparr> s) = Inl ()"
  shows "\<exists>st'. submit_to_venue R it ctx clk v venue ad st = (Inl AuditUnavailable, st')
    \<and> rt_world st' = w \<and> rt_reconciler st' = rt_reconciler st"
  using assms(3) [THEN spec, of "rt_audit st"] assms(1,2)
  by (auto simp: submit_to_venue_def then_do_def emit_event_def note_success_def Let_def prod_eq_iff
      split: prod.splits)

subsection \<open>A live order that goes through\<close>

definition wit_us :: ulid_text where
  "wit_us i = show_nat (unat i)"

lemma inj_wit_us: "inj wit_us"
  by (rule injI) (simp add: wit_us_def show_nat_inject word_unat_eq_iff)

definition wit_router :: "(sandbox, memory_execution_sink) router" where
  "wit_router = \<lparr>ro_dec = dec_ref, ro_render = wit_render, ro_ulid = wit_us,
     ro_config = router_config_default, ro_registry = sandbox_registry wit_us (VenueId ''v''),
     ro_emit_authz = memory_emit_authz, ro_emit_execution = memory_emit_execution\<rparr>"

definition wit_sink :: memory_execution_sink where
  "wit_sink = \<lparr>ms_authz = new_mutex [], ms_execution = new_mutex []\<rparr>"

definition wit_router_state :: "(sandbox, memory_execution_sink) router_state" where
  "wit_router_state = router_new wit_sink sandbox_new"

definition wit_auth :: router_auth_context where
  "wit_auth = \<lparr>ra_actor = \<lparr>ac_id = wit_us 7, ac_kind = Human\<rparr>,
     ra_evaluation = (evaluation_context_new 50 (Some (wit_grant\<lparr>gr_actor_id := wit_us 7\<rparr>)))
       \<lparr>ev_session_tier := Some BoundedAutopilot, ev_confirmed := True, ev_step_up_satisfied := True\<rparr>\<rparr>"

definition wit_clock :: submit_clock where
  "wit_clock = \<lparr>ck_allow = 0, ck_outcome = 1, ck_ledger = 5\<rparr>"

lemma wit_router_ids [simp]: "oi_id wit_risk_intent = 1" "\<not> oi_paper wit_risk_intent"
  "oi_market wit_risk_intent = wit_key" "ob_market wit_book = wit_key"
  by (simp_all add: wit_risk_intent_def wit_book_def wit_key_def)

lemma wit_authorized:
  "de_verdict (evaluate (ra_actor wit_auth) SubmitLiveOrder (ra_evaluation wit_auth)) = VAllow"
  by (simp add: wit_auth_def evaluate_def evaluate_grant_def evaluate_tier_def wit_grant_def
      evaluation_context_new_def permits_scope_def tier_lower_def less_tier_def)

lemma wit_origin: "origin_matches wit_router wit_risk_intent (ra_actor wit_auth)"
  by (simp add: origin_matches_def wit_router_def wit_auth_def wit_risk_intent_def)

lemma wit_registry: "registry_get (ro_registry wit_router) (VenueId ''v'') = Some (sandbox_adapter wit_us)"
  by (simp add: wit_router_def sandbox_registry_def registry_register_def registry_get_def hm_get_put)

lemma wit_market_found: "hm_get (rc_markets wit_risk_context) wit_key = Some wit_market"
  "m_venue wit_market = VenueId ''v''"
  by (simp_all add: wit_risk_context_def wit_market_def)

lemma wit_checked:
  "\<exists>st0. check_and_authorize wit_router wit_risk_intent wit_book wit_risk_context wit_auth st = (Inr (), st0)
     \<and> (mx_poisoned (ms_execution (rt_audit st0)) = mx_poisoned (ms_execution (rt_audit st)))"
  if "\<not> mx_poisoned (ms_authz (rt_audit st))"
proof -
  have "ro_emit_authz wit_router = memory_emit_authz" by (simp add: wit_router_def)
  with that obtain d s' where a: "authorize wit_router wit_risk_intent wit_auth st = (Inr d, st\<lparr>rt_audit := s'\<rparr>)"
    and s': "mx_poisoned (ms_execution s') = mx_poisoned (ms_execution (rt_audit st))"
    by (simp add: authorize_def enforce_at_def memory_emit_authz_def memory_sink_emit_def Let_def)
  have "de_verdict (ad_decision d) = VAllow"
    using authorize_decides [OF a] wit_authorized by (simp add: submit_action_def)
  with a s' wit_origin show ?thesis by (simp add: check_and_authorize_def then_do_def)
qed

lemma memory_event:
  "ro_emit_execution R = memory_emit_execution \<Longrightarrow> \<not> mx_poisoned (ms_execution (rt_audit st)) \<Longrightarrow>
     \<exists>s'. emit_event R i t ph ok st = (Inr (), st\<lparr>rt_audit := s'\<rparr>) \<and> \<not> mx_poisoned (ms_execution s')"
  by (rule exI [where x = "snd (memory_emit_execution \<lparr>xe_intent_id = i, xe_at = t, xe_phase = ph,
        xe_allowed = ok\<rparr> (rt_audit st))"])
    (simp add: emit_event_def memory_emit_execution_def memory_sink_emit_def)

lemma wit_submits_from:
  assumes "rt_world st = sandbox_new" "rt_audit st = wit_sink" "rt_breakers st = new_mutex []"
  shows "\<exists>res st'. submit_reserved wit_router wit_risk_intent wit_book wit_risk_context wit_auth wit_clock st
       = (Some (Inr res), st') \<and> rt_world st' \<noteq> rt_world st"
proof -
  let ?R = wit_router and ?st = st
  have em: "ro_emit_execution ?R = memory_emit_execution" by (simp add: wit_router_def)
  obtain st0 where c: "check_and_authorize ?R wit_risk_intent wit_book wit_risk_context wit_auth ?st = (Inr (), st0)"
    and p0: "\<not> mx_poisoned (ms_execution (rt_audit st0))"
    using wit_checked [of ?st] by (auto simp: assms wit_sink_def new_mutex_def)
  obtain v where v: "risk_evaluate (ro_dec ?R) (rf_risk_config (ro_config ?R)) wit_risk_intent wit_risk_context = Some v"
    using wit_evaluates by (auto simp: wit_router_def router_config_default_def)
  have al: "is_allowed v" using wit_allowed v by (simp add: wit_router_def router_config_default_def)
  obtain s1 where e1: "emit_event ?R 1 (rc_evaluated_at wit_risk_context) ''risk_verdict'' True st0
      = (Inr (), st0\<lparr>rt_audit := s1\<rparr>)" and p1: "\<not> mx_poisoned (ms_execution s1)"
    using memory_event [OF em p0] by blast
  let ?st1 = "st0\<lparr>rt_audit := s1\<rparr>"
  have q: "quiet ?st st0" by (rule check_and_authorize_quiet [OF c])
  have w0: "rt_world st0 = sandbox_new" "rt_breakers st0 = new_mutex []"
    using q by (simp_all add: quiet_def assms)
  define r where "r = \<lparr>vr_venue_ref = ''sandbox:'' @ wit_us 1, vr_client_order_id = wit_us 1,
      vr_status = ''accepted'', vr_accepted = True\<rparr>"
  define w where "w = \<lparr>mx_poisoned = False, mx_data = [(wit_us 1, r)]\<rparr>"
  have sub: "va_submit (sandbox_adapter wit_us) wit_risk_intent sandbox_new = (Inr r, w)"
    by (simp add: sandbox_adapter_def sandbox_submit_def sandbox_new_def Let_def r_def w_def)
  let ?st2 = "note_success 1 (VenueId ''v'') (?st1\<lparr>rt_world := w\<rparr>)"
  obtain s2 where e2: "emit_event ?R 1 (rc_evaluated_at wit_risk_context) ''live_submit_accepted'' True ?st2
      = (Inr (), ?st2\<lparr>rt_audit := s2\<rparr>)"
    using memory_event [OF em, of ?st2 1 "rc_evaluated_at wit_risk_context" "''live_submit_accepted''" True]
      p1 by auto
  have same: "?st1\<lparr>rt_breakers := new_mutex []\<rparr> = ?st1" using w0 by simp
  have "submit_to_venue ?R wit_risk_intent wit_risk_context wit_clock v (VenueId ''v'')
      (sandbox_adapter wit_us) (?st1\<lparr>rt_breakers := new_mutex []\<rparr>)
      = (Inr \<lparr>rr_verdict = v, rr_fills = [], rr_replayed = False\<rparr>, ?st2\<lparr>rt_audit := s2\<rparr>)"
    unfolding same using sub w0 e2 by (simp add: submit_to_venue_def then_do_def wit_clock_def r_def)
  moreover have "breakers_allow (ck_allow wit_clock) (VenueId ''v'') (new_mutex []) = (True, new_mutex [])"
    by (simp add: breakers_allow_def new_mutex_def)
  ultimately have "dispatch_live ?R wit_risk_intent wit_risk_context wit_clock v ?st1
      = (Inr \<lparr>rr_verdict = v, rr_fills = [], rr_replayed = False\<rparr>, ?st2\<lparr>rt_audit := s2\<rparr>)"
    by (simp add: dispatch_live_def wit_market_found w0 wit_registry)
  then have "submit_reserved ?R wit_risk_intent wit_book wit_risk_context wit_auth wit_clock ?st
      = (Some (Inr \<lparr>rr_verdict = v, rr_fills = [], rr_replayed = False\<rparr>), ?st2\<lparr>rt_audit := s2\<rparr>)"
    using c v al e1 by (simp add: submit_reserved_def execute_verdict_def then_do_def)
  moreover have "rt_world (?st2\<lparr>rt_audit := s2\<rparr>) \<noteq> rt_world ?st"
    by (simp add: w_def assms sandbox_new_def)
  ultimately show ?thesis by blast
qed

lemma wit_submits:
  "\<exists>res st'. submit_reserved wit_router wit_risk_intent wit_book wit_risk_context wit_auth wit_clock wit_router_state
       = (Some (Inr res), st') \<and> rt_world st' \<noteq> rt_world wit_router_state"
  by (rule wit_submits_from) (simp_all add: wit_router_state_def router_new_def)

theorem venue_reached_only_when_cleared_witness:
  "\<exists>v m ad. cleared wit_router wit_risk_intent wit_book wit_risk_context wit_auth v
     \<and> hm_get (rc_markets wit_risk_context) (oi_market wit_risk_intent) = Some m
     \<and> registry_get (ro_registry wit_router) (m_venue m) = Some ad"
proof -
  obtain res st' where "submit_reserved wit_router wit_risk_intent wit_book wit_risk_context wit_auth
      wit_clock wit_router_state = (Some (Inr res), st')" "rt_world st' \<noteq> rt_world wit_router_state"
    using wit_submits by blast
  from venue_reached_only_when_cleared [OF this] show ?thesis by blast
qed

theorem success_is_audited_witness:
  "\<exists>res st'. submit_reserved wit_router wit_risk_intent wit_book wit_risk_context wit_auth wit_clock
      wit_router_state = (Some (Inr res), st') \<and> length (mx_data (ms_execution (rt_audit st'))) = 2"
proof -
  obtain res st' where s: "submit_reserved wit_router wit_risk_intent wit_book wit_risk_context wit_auth
      wit_clock wit_router_state = (Some (Inr res), st')"
    using wit_submits by blast
  from success_is_audited [OF this] s show ?thesis
    by (simp add: wit_router_def wit_router_state_def router_new_def wit_sink_def new_mutex_def)
qed

theorem accepted_order_untracked_witness:
  "\<exists>st'. submit_to_venue (wit_router\<lparr>ro_emit_execution := (\<lambda>e s. (Inl (), s))\<rparr>) wit_risk_intent
      wit_risk_context wit_clock (risk_verdict_allow 5 1) (VenueId ''v'') (sandbox_adapter wit_us)
      wit_router_state = (Inl AuditUnavailable, st')
    \<and> sandbox_order_count (rt_world st') = 1 \<and> pending_count (mx_data (rt_reconciler st')) = 0"
proof -
  let ?r = "\<lparr>vr_venue_ref = ''sandbox:'' @ wit_us 1, vr_client_order_id = wit_us 1,
      vr_status = ''accepted'', vr_accepted = True\<rparr>"
  let ?w = "\<lparr>mx_poisoned = False, mx_data = [(wit_us 1, ?r)]\<rparr>"
  let ?R = "wit_router\<lparr>ro_emit_execution := (\<lambda>e s. (Inl (), s))\<rparr>"
  have sub: "va_submit (sandbox_adapter wit_us) wit_risk_intent (rt_world wit_router_state) = (Inr ?r, ?w)"
    by (simp add: sandbox_adapter_def sandbox_submit_def sandbox_new_def Let_def wit_router_state_def router_new_def)
  have "\<exists>st'. submit_to_venue ?R wit_risk_intent wit_risk_context wit_clock (risk_verdict_allow 5 1)
      (VenueId ''v'') (sandbox_adapter wit_us) wit_router_state = (Inl AuditUnavailable, st')
    \<and> rt_world st' = ?w \<and> rt_reconciler st' = rt_reconciler wit_router_state"
    by (rule accepted_order_untracked [OF sub]) simp_all
  then obtain st' where "submit_to_venue ?R wit_risk_intent wit_risk_context wit_clock
      (risk_verdict_allow 5 1) (VenueId ''v'') (sandbox_adapter wit_us) wit_router_state
      = (Inl AuditUnavailable, st')" and "rt_world st' = ?w"
    and r: "rt_reconciler st' = rt_reconciler wit_router_state" by blast
  then have "sandbox_order_count (rt_world st') = 1" by (simp add: sandbox_order_count_def)
  moreover have "pending_count (mx_data (rt_reconciler st')) = 0"
    by (simp add: r pending_count_def wit_router_state_def router_new_def reconciler_new_def new_mutex_def)
  ultimately show ?thesis using \<open>submit_to_venue _ _ _ _ _ _ _ _ = _\<close> by blast
qed

end
