(* ===== verification/Router_Runs.thy ===== *)
theory Router_Runs
  imports Order_Router
begin

text \<open>
  Many calls of the order router at once, as a step relation on its state and the calls in flight:
  each intent is executed at most once, later submissions replay its outcome, no venue holds two
  orders for one intent, the number of open calls is bounded, known outcomes are final, and an order
  that its venue does not know is closed after a bounded number of reconciliations.
\<close>

subsection \<open>Interleaved calls\<close>

text \<open>
  Many threads call the router at once. A call reserves its intent, works, and records the outcome;
  between these three steps other calls may do any of theirs, and a reconciliation may run. A run
  keeps the calls between their first and second step, the outcomes between the second and the third,
  and, to speak about the past, the intents executed so far and everything returned so far. The
  middle step is one step here although it takes several locks one after the other: none of them is
  the one on the record of intents.
\<close>

record request =
  rq_intent :: order_intent
  rq_book :: order_book
  rq_context :: risk_context
  rq_auth :: router_auth_context

record ('w, 's) router_run =
  rn_state :: "('w, 's) router_state"
  rn_running :: "request list"
  rn_done :: "(ulid \<times> outcome) list"
  rn_executed :: "ulid list"
  rn_returned :: "(ulid \<times> outcome) list"

abbreviation request_id :: "request \<Rightarrow> ulid" where
  "request_id rq \<equiv> oi_id (rq_intent rq)"

inductive router_step :: "('w, 's) router \<Rightarrow> ('w, 's) router_run \<Rightarrow> ('w, 's) router_run \<Rightarrow> bool" for R where
  Refuse: "reserve R i (rn_state c) = (Inl e, st') \<Longrightarrow>
     router_step R c (c\<lparr>rn_state := st', rn_returned := (i, Inl e) # rn_returned c\<rparr>)"
| Replay: "reserve R i (rn_state c) = (Inr (Some out), st') \<Longrightarrow>
     router_step R c (c\<lparr>rn_state := st', rn_returned := (i, as_replay out) # rn_returned c\<rparr>)"
| Reserve: "reserve R (request_id rq) (rn_state c) = (Inr None, st') \<Longrightarrow>
     router_step R c (c\<lparr>rn_state := st', rn_running := rq # rn_running c\<rparr>)"
| Execute: "rn_running c = xs @ rq # ys \<Longrightarrow>
     submit_reserved R (rq_intent rq) (rq_book rq) (rq_context rq) (rq_auth rq) clk (rn_state c)
       = (Some out, st') \<Longrightarrow>
     router_step R c (c\<lparr>rn_state := st', rn_running := xs @ ys,
       rn_done := (request_id rq, out) # rn_done c, rn_executed := request_id rq # rn_executed c\<rparr>)"
| Panic: "rn_running c = xs @ rq # ys \<Longrightarrow>
     submit_reserved R (rq_intent rq) (rq_book rq) (rq_context rq) (rq_auth rq) clk (rn_state c)
       = (None, st') \<Longrightarrow>
     router_step R c (c\<lparr>rn_state := st', rn_running := xs @ ys,
       rn_executed := request_id rq # rn_executed c\<rparr>)"
| Finish: "rn_done c = xs @ (i, out) # ys \<Longrightarrow> finish i out (rn_state c) = (r, st') \<Longrightarrow>
     router_step R c (c\<lparr>rn_state := st', rn_done := xs @ ys,
       rn_returned := (i, case r of Inl e \<Rightarrow> Inl e | Inr _ \<Rightarrow> out) # rn_returned c\<rparr>)"
| Reconcile: "reconcile_unknowns R t now (rn_state c) = (u, st') \<Longrightarrow>
     router_step R c (c\<lparr>rn_state := st'\<rparr>)"

inductive_cases router_stepE: "router_step R c c'"

inductive router_reaches :: "('w, 's) router \<Rightarrow> ('w, 's) router_run \<Rightarrow> ('w, 's) router_run \<Rightarrow> bool" for R where
  Start: "router_reaches R c c"
| Step: "router_reaches R c c' \<Longrightarrow> router_step R c' c'' \<Longrightarrow> router_reaches R c c''"

definition run_start :: "('w, 's) router_state \<Rightarrow> ('w, 's) router_run" where
  "run_start st = \<lparr>rn_state = st, rn_running = [], rn_done = [], rn_executed = [], rn_returned = []\<rparr>"

abbreviation run_intents :: "('w, 's) router_run \<Rightarrow> (ulid, intent_state) hash_map" where
  "run_intents c \<equiv> mx_data (rt_intents (rn_state c))"

subsection \<open>The reconciliation keeps everything but its own records\<close>

lemma apply_observation_frame:
  "apply_observation R t0 t n ob st = (r, st') \<Longrightarrow>
     rt_intents st' = rt_intents st \<and> rt_ledger st' = rt_ledger st \<and> rt_world st' = rt_world st
     \<and> reconciler_later (mx_data (rt_reconciler st)) (mx_data (rt_reconciler st'))"
  by (auto simp: apply_observation_def set_reconciler_def quiet_def Let_def observe_later
      split: if_splits option.splits elim!: then_doE dest!: emit_event_quiet)

lemma reconcile_target_frame:
  assumes "reconcile_target R t0 now t st = (r, st')"
  shows "rt_intents st' = rt_intents st \<and> rt_ledger st' = rt_ledger st
    \<and> reconciler_later (mx_data (rt_reconciler st)) (mx_data (rt_reconciler st'))
    \<and> (rt_world st' = rt_world st
       \<or> (\<exists>ad. registry_get (ro_registry R) (tg_venue_id t) = Some ad
              \<and> rt_world st' = snd (va_query ad (tg_client_order_id t) (rt_world st))))"
proof (cases "registry_get (ro_registry R) (tg_venue_id t)")
  case None
  with assms show ?thesis by (simp add: reconcile_target_def)
next
  case (Some ad)
  show ?thesis
  proof (cases "mx_poisoned (rt_reconciler st)")
    case True
    with Some assms show ?thesis by (simp add: reconcile_target_def)
  next
    case False
    obtain rec s where ra: "record_attempt (tg_order_id t) (mx_data (rt_reconciler st)) = (rec, s)" by force
    obtain q w where q: "va_query ad (tg_client_order_id t) (rt_world st) = (q, w)" by force
    define n where "n = (case rec of Some n \<Rightarrow> n | None \<Rightarrow> tg_attempts t)"
    obtain ob blame where o: "query_observation (rf_max_reconciliation_attempts (ro_config R)) n q
      = (ob, blame)" by force
    define st1 where "st1 = (set_reconciler s st)\<lparr>rt_world := w\<rparr>"
    define st2 where "st2 = (if blame then note_failure (now (tg_order_id t)) (tg_venue_id t) st1 else st1)"
    have later: "reconciler_later (mx_data (rt_reconciler st)) s"
      using record_attempt_later [of "mx_data (rt_reconciler st)" "tg_order_id t"] by (simp add: ra)
    have st2: "rt_intents st2 = rt_intents st" "rt_ledger st2 = rt_ledger st" "rt_world st2 = w"
      "mx_data (rt_reconciler st2) = s"
      by (simp_all add: st2_def st1_def set_reconciler_def)
    have "(case ob of None \<Rightarrow> (Inr None, st2) | Some x \<Rightarrow> apply_observation R t0 t n x st2) = (r, st')"
      unfolding st2_def st1_def n_def
      using assms Some False ra q o [unfolded n_def] by (simp add: reconcile_target_def Let_def)
    with st2 q Some later show ?thesis
      by (auto split: option.splits dest!: apply_observation_frame intro: reconciler_later_trans)
  qed
qed

lemma reconcile_targets_frame:
  "reconcile_targets R t0 now ts st = (r, st') \<Longrightarrow>
     rt_intents st' = rt_intents st \<and> rt_ledger st' = rt_ledger st
     \<and> reconciler_later (mx_data (rt_reconciler st)) (mx_data (rt_reconciler st'))"
proof (induction ts arbitrary: st st' r)
  case (Cons t ts)
  from Cons.prems show ?case
    by (auto elim!: then_doE dest!: reconcile_target_frame Cons.IH intro: reconciler_later_trans)
qed simp

lemma reconcile_unknowns_frame:
  "reconcile_unknowns R t0 now st = (r, st') \<Longrightarrow>
     rt_intents st' = rt_intents st \<and> rt_ledger st' = rt_ledger st
     \<and> reconciler_later (mx_data (rt_reconciler st)) (mx_data (rt_reconciler st'))"
  by (auto simp: reconcile_unknowns_def dest!: reconcile_targets_frame split: if_splits)

subsection \<open>At most once\<close>

declare map_of_eq_Some_iff [simp del] Some_eq_map_of_iff [simp del]

text \<open>The same result, up to the mark of a replay.\<close>

definition same_result :: "router_result \<Rightarrow> router_result \<Rightarrow> bool" where
  "same_result a b \<longleftrightarrow> a\<lparr>rr_replayed := True\<rparr> = b\<lparr>rr_replayed := True\<rparr>"

definition open_ids :: "('w, 's) router_run \<Rightarrow> ulid list" where
  "open_ids c = map request_id (rn_running c) @ map fst (rn_done c)"

definition run_inv :: "('w, 's) router \<Rightarrow> ('w, 's) router_run \<Rightarrow> bool" where
  "run_inv R c \<longleftrightarrow>
     hm_wf (run_intents c)
     \<and> distinct (open_ids c) \<and> (\<forall>i \<in> set (open_ids c). hm_get (run_intents c) i = Some Processing)
     \<and> distinct (rn_executed c) \<and> set (map request_id (rn_running c)) \<inter> set (rn_executed c) = {}
     \<and> (\<forall>i \<in> set (rn_executed c). hm_get (run_intents c) i \<noteq> None)
     \<and> (\<forall>i res. (i, Inr res) \<in> set (rn_returned c) \<longrightarrow>
          (\<exists>res'. hm_get (run_intents c) i = Some (Terminal (Inr res')) \<and> same_result res res'))
     \<and> in_flight (run_intents c) \<le> rf_max_concurrent_orders (ro_config R)"

lemma run_inv_open: "run_inv R c \<Longrightarrow> hm_get (run_intents c) i = None \<Longrightarrow> i \<notin> set (open_ids c)"
  by (auto simp: run_inv_def)

lemma run_inv_executed: "run_inv R c \<Longrightarrow> hm_get (run_intents c) i = None \<Longrightarrow> i \<notin> set (rn_executed c)"
  by (auto simp: run_inv_def)

lemma run_inv_returned:
  "run_inv R c \<Longrightarrow> (i, Inr res) \<in> set (rn_returned c) \<Longrightarrow>
     \<exists>res'. hm_get (run_intents c) i = Some (Terminal (Inr res')) \<and> same_result res res'"
  by (simp add: run_inv_def)

lemma reserveE:
  assumes "reserve R i st = (r, st')"
  obtains (refuse) e where "r = Inl e" "st' = st"
    | (replay) out where "r = Inr (Some out)" "st' = st"
        "hm_get (mx_data (rt_intents st)) i = Some (Terminal out)"
    | (fresh) "r = Inr None" "hm_get (mx_data (rt_intents st)) i = None"
        "in_flight (mx_data (rt_intents st)) < rf_max_concurrent_orders (ro_config R)"
        "mx_data (rt_intents st') = hm_put i Processing (mx_data (rt_intents st))"
        "rt_world st' = rt_world st" "rt_reconciler st' = rt_reconciler st" "rt_ledger st' = rt_ledger st"
proof (cases "mx_poisoned (rt_intents st)")
  case True
  with assms show thesis by (intro refuse) (auto simp: reserve_def)
next
  case unpoisoned: False
  show thesis
  proof (cases "hm_get (mx_data (rt_intents st)) i")
    case None
    with unpoisoned assms show thesis
      by (cases "in_flight (mx_data (rt_intents st)) < rf_max_concurrent_orders (ro_config R)")
        (auto simp: reserve_def Let_def intro: refuse fresh)
  next
    case (Some s)
    with unpoisoned assms show thesis
      by (cases s) (auto simp: reserve_def Let_def intro: refuse replay)
  qed
qed

lemma finishE:
  assumes "finish i out st = (r, st')"
  obtains (refuse) e where "r = Inl e" "st' = st"
    | (stored) "r = Inr ()" "mx_data (rt_intents st') = hm_put i (Terminal out) (mx_data (rt_intents st))"
        "rt_world st' = rt_world st" "rt_reconciler st' = rt_reconciler st" "rt_ledger st' = rt_ledger st"
  using assms by (auto simp: finish_def split: if_splits)

lemma in_flight_put_new:
  "hm_get m i = None \<Longrightarrow> in_flight (hm_put i s m) = in_flight m + (if s = Processing then 1 else 0)"
  by (induction m) (auto simp: in_flight_def split: if_splits)

lemma in_flight_put_terminal: "in_flight (hm_put i (Terminal out) m) \<le> in_flight m"
  by (induction m) (auto simp: in_flight_def)

lemma same_result_refl [simp]: "same_result a a"
  by (simp add: same_result_def)

lemma same_result_replay: "Inr res = as_replay out \<Longrightarrow> \<exists>res'. out = Inr res' \<and> same_result res res'"
  by (cases out) (auto simp: as_replay_def same_result_def)

lemma same_result_fields:
  assumes "same_result a b"
  shows "rr_verdict a = rr_verdict b" "rr_fills a = rr_fills b"
  using assms [unfolded same_result_def, THEN arg_cong, of rr_verdict]
    assms [unfolded same_result_def, THEN arg_cong, of rr_fills] by simp_all

lemma run_inv_step:
  assumes "router_step R c c'" "run_inv R c"
  shows "run_inv R c'"
  using assms(1)
proof cases
  case (Refuse i e st')
  from Refuse(2) show ?thesis
    by (cases rule: reserveE) (use assms(2) Refuse(1) in \<open>auto simp: run_inv_def open_ids_def\<close>)
next
  case (Replay i out st')
  from Replay(2) show ?thesis
    by (cases rule: reserveE)
      (use assms(2) Replay(1) in \<open>auto simp: run_inv_def open_ids_def dest: same_result_replay\<close>)
next
  case (Reserve rq st')
  from Reserve(2) show ?thesis
  proof (cases rule: reserveE)
    case fresh
    note new = run_inv_open [OF assms(2) fresh(2)] run_inv_executed [OF assms(2) fresh(2)]
    have ret: "\<exists>res'. hm_get (run_intents c') i = Some (Terminal (Inr res')) \<and> same_result res res'"
      if "(i, Inr res) \<in> set (rn_returned c)" for i res
      using run_inv_returned [OF assms(2) that] fresh(2,4) Reserve(1) by (auto simp: hm_get_put)
    have ids: "open_ids c' = request_id rq # open_ids c" "rn_executed c' = rn_executed c"
      "rn_returned c' = rn_returned c" "rn_running c' = rq # rn_running c"
      "run_intents c' = hm_put (request_id rq) Processing (run_intents c)"
      using fresh(4) Reserve(1) by (simp_all add: open_ids_def)
    have keep: "hm_wf (run_intents c)" "distinct (open_ids c)" "distinct (rn_executed c)"
      "\<forall>i \<in> set (open_ids c). hm_get (run_intents c) i = Some Processing"
      "set (map request_id (rn_running c)) \<inter> set (rn_executed c) = {}"
      "\<forall>i \<in> set (rn_executed c). hm_get (run_intents c) i \<noteq> None"
      using assms(2) unfolding run_inv_def by blast+
    show ?thesis
      unfolding run_inv_def
    proof (intro conjI)
      show "\<forall>i res. (i, Inr res) \<in> set (rn_returned c') \<longrightarrow>
          (\<exists>res'. hm_get (run_intents c') i = Some (Terminal (Inr res')) \<and> same_result res res')"
        using ret ids(3) by simp
    qed (use keep new fresh(2,3) in \<open>simp_all add: ids hm_wf_put hm_get_put in_flight_put_new\<close>)
  qed auto
next
  case (Execute xs rq ys clk out st')
  note i = submit_reserved_intents [OF Execute(3)]
  from assms(2) show ?thesis unfolding Execute(1) run_inv_def open_ids_def
    by (auto simp: i Execute(2))
next
  case (Panic xs rq ys clk st')
  note i = submit_reserved_intents [OF Panic(3)]
  from assms(2) show ?thesis unfolding Panic(1) run_inv_def open_ids_def
    by (auto simp: i Panic(2))
next
  case (Finish xs i out ys r st')
  from Finish(3) show ?thesis
  proof (cases rule: finishE)
    case refuse
    with assms(2) Finish(1,2) show ?thesis by (auto simp: run_inv_def open_ids_def)
  next
    case stored
    have le: "in_flight (run_intents c') \<le> in_flight (run_intents c)"
      using stored Finish(1) by (simp add: in_flight_put_terminal)
    have "hm_get (run_intents c) i = Some Processing"
      using assms(2) Finish(2) by (simp add: run_inv_def open_ids_def)
    then have "(i, Inr res) \<notin> set (rn_returned c)" for res
      using run_inv_returned [OF assms(2), of i res] by auto
    with le assms(2) Finish(1,2) stored show ?thesis
      by (auto simp: run_inv_def open_ids_def hm_get_put hm_wf_put)
  qed
next
  case (Reconcile t now u st')
  have eqs: "run_intents c' = run_intents c" "open_ids c' = open_ids c" "rn_executed c' = rn_executed c"
    "rn_returned c' = rn_returned c" "rn_running c' = rn_running c"
    using reconcile_unknowns_frame [OF Reconcile(2)] Reconcile(1) by (simp_all add: open_ids_def)
  show ?thesis using assms(2) unfolding run_inv_def eqs .
qed

lemma run_inv_reaches: "router_reaches R c c' \<Longrightarrow> run_inv R c \<Longrightarrow> run_inv R c'"
  by (induction rule: router_reaches.induct) (auto intro: run_inv_step)

lemma run_inv_start: "mx_data (rt_intents st) = [] \<Longrightarrow> run_inv R (run_start st)"
  by (simp add: run_inv_def run_start_def open_ids_def in_flight_def)

text \<open>
  Property C6. Whatever the interleaving of submissions and reconciliations, panics and lock failures
  included, an intent is executed at most once, and any two successful answers ever given for the same
  intent carry the same verdict and the same fills: a later submission can only replay the first.
\<close>

theorem intents_executed_at_most_once:
  assumes "router_reaches R (run_start (router_new sink world)) c"
  shows "distinct (rn_executed c)
    \<and> (\<forall>i res res'. (i, Inr res) \<in> set (rn_returned c) \<longrightarrow> (i, Inr res') \<in> set (rn_returned c) \<longrightarrow>
         rr_verdict res = rr_verdict res' \<and> rr_fills res = rr_fills res')"
proof -
  have inv: "run_inv R c"
    by (rule run_inv_reaches [OF assms run_inv_start]) (simp add: router_new_def new_mutex_def)
  have "rr_verdict res = rr_verdict res' \<and> rr_fills res = rr_fills res'"
    if ret: "(i, Inr res) \<in> set (rn_returned c)" "(i, Inr res') \<in> set (rn_returned c)" for i res res'
  proof -
    from inv ret obtain x where "same_result res x" "same_result res' x"
      unfolding run_inv_def by (metis Inr_inject intent_state.inject option.inject)
    then show ?thesis by (simp add: same_result_fields)
  qed
  moreover have "distinct (rn_executed c)" using inv unfolding run_inv_def by blast
  ultimately show ?thesis by blast
qed

lemma open_ids_in_flight:
  assumes "run_inv R c"
  shows "length (open_ids c) \<le> in_flight (run_intents c)"
proof -
  let ?busy = "filter (\<lambda>(_, s). s = Processing) (run_intents c)"
  from assms have "distinct (open_ids c)" and
    sub: "\<forall>i \<in> set (open_ids c). hm_get (run_intents c) i = Some Processing"
    unfolding run_inv_def by blast+
  then have "length (open_ids c) = card (set (open_ids c))" by (simp add: distinct_card)
  also have "\<dots> \<le> card (fst ` set ?busy)"
    using sub by (intro card_mono) (force dest: map_of_SomeD)+
  also have "\<dots> \<le> length ?busy" by (metis card_length image_set length_map)
  finally show ?thesis by (simp add: in_flight_def)
qed

text \<open>
  Never are more calls between their reservation and their end than the configured
  maximum of concurrent orders, however calls interleave; calls that panicked keep their place.
\<close>

theorem in_flight_bounded:
  assumes "router_reaches R (run_start (router_new sink world)) c"
  shows "length (open_ids c) \<le> in_flight (run_intents c)
    \<and> in_flight (run_intents c) \<le> rf_max_concurrent_orders (ro_config R)"
proof -
  have inv: "run_inv R c"
    by (rule run_inv_reaches [OF assms run_inv_start]) (simp add: router_new_def new_mutex_def)
  then have "in_flight (run_intents c) \<le> rf_max_concurrent_orders (ro_config R)"
    unfolding run_inv_def by blast
  with open_ids_in_flight [OF inv] show ?thesis by simp
qed

subsection \<open>One order per intent\<close>

context venues
begin

lemma submit_reserved_places:
  assumes "submit_reserved R it book ctx auth clk st = (r, st')" "ro_registry R = reg" "ro_ulid R = us"
  shows "placed (rt_world st') k \<le> placed (rt_world st) k
    + (if k = us (oi_id it) \<and> r \<noteq> None then 1 else 0)"
proof (cases "rt_world st' = rt_world st")
  case False
  from assms(1) False obtain v st1 m ad b out where "cleared R it book ctx auth v" "\<not> oi_paper it"
    "quiet st st1" "hm_get (rc_markets ctx) (oi_market it) = Some m"
    "breakers_allow (ck_allow clk) (m_venue m) (rt_breakers st) = (True, b)"
    "registry_get (ro_registry R) (m_venue m) = Some ad"
    "submit_to_venue R it ctx clk v (m_venue m) ad (st1\<lparr>rt_breakers := b\<rparr>) = (out, st')" "r = Some out"
    by (rule world_changed)
  then have ad: "registry_get reg (m_venue m) = Some ad"
    and w: "rt_world st' = snd (va_submit ad it (rt_world st))"
    using assms(2) by (auto simp: quiet_def dest: submit_to_venue_frame)
  have "va_submit ad it (rt_world st) = (fst (va_submit ad it (rt_world st)), rt_world st')"
    by (simp add: w)
  from submit_places [OF ad this, of k] \<open>r = Some out\<close> show ?thesis by simp
qed simp

lemma reconcile_target_places:
  assumes "reconcile_target R t0 now t st = (r, st')" "ro_registry R = reg"
  shows "placed (rt_world st') k = placed (rt_world st) k"
proof (cases "rt_world st' = rt_world st")
  case False
  then obtain ad where ad: "registry_get reg (tg_venue_id t) = Some ad"
    and w: "rt_world st' = snd (va_query ad (tg_client_order_id t) (rt_world st))"
    using reconcile_target_frame [OF assms(1)] assms(2) by blast
  have "va_query ad (tg_client_order_id t) (rt_world st)
      = (fst (va_query ad (tg_client_order_id t) (rt_world st)), rt_world st')"
    by (simp add: w)
  from query_places [OF ad this] show ?thesis .
qed simp

lemma reconcile_targets_places:
  "reconcile_targets R t0 now ts st = (r, st') \<Longrightarrow> ro_registry R = reg \<Longrightarrow>
     placed (rt_world st') k = placed (rt_world st) k"
proof (induction ts arbitrary: st st' r)
  case (Cons t ts)
  from Cons.prems show ?case
    by (auto elim!: then_doE simp: reconcile_target_places Cons.IH)
qed simp

lemma reconcile_unknowns_places:
  "reconcile_unknowns R t0 now st = (r, st') \<Longrightarrow> ro_registry R = reg \<Longrightarrow>
     placed (rt_world st') k = placed (rt_world st) k"
  by (auto simp: reconcile_unknowns_def reconcile_targets_places split: if_splits)

lemma router_step_places:
  assumes "router_step R c c'" "ro_registry R = reg" "ro_ulid R = us"
    and "placed (rt_world (rn_state c)) k \<le> n + count_list (map us (rn_executed c)) k"
  shows "placed (rt_world (rn_state c')) k \<le> n + count_list (map us (rn_executed c')) k"
  using assms(1)
proof cases
  case (Refuse i e st')
  with assms(4) show ?thesis by (auto elim: reserveE)
next
  case (Replay i out st')
  with assms(4) show ?thesis by (auto elim: reserveE)
next
  case (Reserve rq st')
  with assms(4) show ?thesis by (auto elim: reserveE)
next
  case (Execute xs rq ys clk out st')
  from submit_reserved_places [OF Execute(3) assms(2,3), of k] assms(4) Execute(1) show ?thesis
    by (auto split: if_splits)
next
  case (Panic xs rq ys clk st')
  from submit_reserved_places [OF Panic(3) assms(2,3), of k] assms(4) Panic(1) show ?thesis
    by (auto split: if_splits)
next
  case (Finish xs i out ys r st')
  with assms(4) show ?thesis by (auto elim: finishE)
next
  case (Reconcile t now u st')
  with assms(4) reconcile_unknowns_places [OF Reconcile(2) assms(2)] show ?thesis by simp
qed

lemma router_places:
  "router_reaches R c c' \<Longrightarrow> ro_registry R = reg \<Longrightarrow> ro_ulid R = us \<Longrightarrow> rn_executed c = [] \<Longrightarrow>
     placed (rt_world (rn_state c')) k \<le> placed (rt_world (rn_state c)) k
       + count_list (map us (rn_executed c')) k"
proof (induction rule: router_reaches.induct)
  case (Step c c' c'')
  from router_step_places [OF Step.hyps(2) Step.prems(1,2) Step.IH [OF Step.prems]] show ?case .
qed simp

end

lemma distinct_count_list: "distinct xs \<Longrightarrow> count_list xs x \<le> 1"
  by (induction xs) (auto simp: count_list_0_iff)

text \<open>
  Property C3. If a submission to an adapter adds at most one order at its venue, under the client
  order id it was given, and a query adds none, then whatever the interleaving no venue ever holds two
  orders for one intent: neither retried calls, nor timeouts, nor reconciliation submit again.
\<close>

theorem one_order_per_intent:
  fixes placed :: "'w \<Rightarrow> string \<Rightarrow> nat"
  assumes "router_reaches R (run_start (router_new sink world)) c"
    and "\<And>v ad it w r w' k. registry_get (ro_registry R) v = Some ad \<Longrightarrow> va_submit ad it w = (r, w') \<Longrightarrow>
      placed w' k \<le> placed w k + (if k = ro_ulid R (oi_id it) then 1 else 0)"
    and "\<And>v ad vref w q w' k. registry_get (ro_registry R) v = Some ad \<Longrightarrow>
      va_query ad vref w = (q, w') \<Longrightarrow> placed w' k = placed w k"
    and "inj (ro_ulid R)" "placed world (ro_ulid R i) = 0"
  shows "placed (rt_world (rn_state c)) (ro_ulid R i) \<le> 1"
proof -
  have venues: "venues (ro_ulid R) (ro_registry R) placed"
    by unfold_locales (use assms(2,3) in blast)+
  have inv: "run_inv R c"
    by (rule run_inv_reaches [OF assms(1) run_inv_start]) (simp add: router_new_def new_mutex_def)
  then have "distinct (map (ro_ulid R) (rn_executed c))"
    using assms(4) unfolding run_inv_def by (metis distinct_map inj_on_subset subset_UNIV)
  then have "count_list (map (ro_ulid R) (rn_executed c)) (ro_ulid R i) \<le> 1"
    by (rule distinct_count_list)
  with venues.router_places [OF venues assms(1) refl refl, of "ro_ulid R i"] assms(5) show ?thesis
    by (simp add: run_start_def router_new_def)
qed

subsection \<open>The tracker of unknown submissions\<close>

abbreviation run_reconciler :: "('w, 's) router_run \<Rightarrow> reconciler" where
  "run_reconciler c \<equiv> mx_data (rt_reconciler (rn_state c))"

lemma submit_to_venue_later:
  "submit_to_venue R it ctx clk v venue ad st = (out, st') \<Longrightarrow>
     reconciler_later (mx_data (rt_reconciler st)) (mx_data (rt_reconciler st'))"
  by (auto simp: submit_to_venue_def quiet_def Let_def begin_unknown_later elim!: then_doE
      split: if_splits prod.splits sum.splits adapter_error.splits dest!: emit_event_quiet)

lemma submit_reserved_later:
  assumes "submit_reserved R it book ctx auth clk st = (r, st')"
  shows "reconciler_later (mx_data (rt_reconciler st)) (mx_data (rt_reconciler st'))"
  using assms
proof (cases rule: submit_reservedE)
  case (dispatched v st0 st1 out)
  have q: "rt_reconciler st1 = rt_reconciler st" using dispatched(4) by (simp add: quiet_def)
  show ?thesis
  proof (cases "oi_paper it")
    case True
    with dispatched(6) q show ?thesis by (auto dest!: dispatch_paper_frame)
  next
    case False
    with dispatched(6) have "dispatch_live R it ctx clk v st1 = (out, st')" by simp
    then show ?thesis
    proof (cases rule: dispatch_liveE)
      case (sent m ad b)
      from submit_to_venue_later [OF sent(4)] q show ?thesis by simp
    qed (simp add: q)
  qed
qed (simp_all add: quiet_def)

lemma router_step_later: "router_step R c c' \<Longrightarrow> reconciler_later (run_reconciler c) (run_reconciler c')"
proof (induction rule: router_step.induct)
  case Refuse
  then show ?case by (auto elim: reserveE)
next
  case Replay
  then show ?case by (auto elim: reserveE)
next
  case Reserve
  then show ?case by (auto elim: reserveE)
next
  case Execute
  then show ?case by (auto dest: submit_reserved_later)
next
  case Panic
  then show ?case by (auto dest: submit_reserved_later)
next
  case Finish
  then show ?case by (auto elim: finishE)
next
  case Reconcile
  then show ?case by (auto dest: reconcile_unknowns_frame)
qed

lemma router_reaches_later:
  "router_reaches R c c' \<Longrightarrow> reconciler_later (run_reconciler c) (run_reconciler c')"
  by (induction rule: router_reaches.induct) (auto intro: reconciler_later_trans router_step_later)

text \<open>
  What is once known of a submission is final: when an order is tracked as filled, closed or
  not found, its entry never changes again, whatever the router does and the venue answers; and a
  tracked order is never dropped nor moved to another venue or client order id.
\<close>

theorem known_outcomes_are_final:
  assumes "router_reaches R c c'" "hm_get (run_reconciler c) i = Some e"
  shows "\<exists>e'. hm_get (run_reconciler c') i = Some e' \<and> re_venue_id e' = re_venue_id e
    \<and> re_client_order_id e' = re_client_order_id e
    \<and> (is_terminal (re_status e) \<longrightarrow> e' = e)"
  using router_reaches_later [OF assms(1)] assms(2)
  by (auto simp: reconciler_later_def entry_later_def)

subsection \<open>Reconciliation ends\<close>

text \<open>Rounds of reconciliation.\<close>

primrec reconcile_rounds ::
  "('w, 's) router \<Rightarrow> utc_time \<Rightarrow> (ulid \<Rightarrow> int) \<Rightarrow> nat \<Rightarrow> ('w, 's) router_state \<Rightarrow> ('w, 's) router_state" where
  "reconcile_rounds R t0 now 0 st = st"
| "reconcile_rounds R t0 now (Suc n) st =
     reconcile_rounds R t0 now n (snd (reconcile_unknowns R t0 now st))"

text \<open>A tracker whose keys are distinct, behind an unpoisoned lock.\<close>

definition tracker_ok :: "('w, 's) router_state \<Rightarrow> bool" where
  "tracker_ok st \<longleftrightarrow> \<not> mx_poisoned (rt_reconciler st) \<and> hm_wf (mx_data (rt_reconciler st))"

definition entry_of :: "('w, 's) router_state \<Rightarrow> ulid \<Rightarrow> reconciliation_entry option" where
  "entry_of st i = hm_get (mx_data (rt_reconciler st)) i"

definition bump :: "u32 \<Rightarrow> reconciliation_entry \<Rightarrow> reconciliation_entry" where
  "bump limit e =
     (let n = saturating_add_w (re_attempts e) 1
      in if limit \<le> n then e\<lparr>re_attempts := n, re_status := RsNotFound\<rparr> else e\<lparr>re_attempts := n\<rparr>)"

text \<open>An audit sink that works goes on working, and a world in which an order is lost stays one, whatever is asked.\<close>

definition stays_lost :: "('w, 's) router \<Rightarrow> ('s \<Rightarrow> bool) \<Rightarrow> ('w \<Rightarrow> bool) \<Rightarrow> bool" where
  "stays_lost R works lost \<longleftrightarrow>
     (\<forall>x s. works s \<longrightarrow> fst (ro_emit_execution R x s) = Inr () \<and> works (snd (ro_emit_execution R x s)))
     \<and> (\<forall>v a vref w. registry_get (ro_registry R) v = Some a \<longrightarrow> lost w \<longrightarrow> lost (snd (va_query a vref w)))"

definition calm :: "('s \<Rightarrow> bool) \<Rightarrow> ('w \<Rightarrow> bool) \<Rightarrow> ('w, 's) router_state \<Rightarrow> bool" where
  "calm works lost st \<longleftrightarrow> tracker_ok st \<and> works (rt_audit st) \<and> lost (rt_world st)"

lemma emit_event_ok:
  assumes "stays_lost R works lost" "works (rt_audit st)"
  obtains s' where "emit_event R i t ph ok st = (Inr (), st\<lparr>rt_audit := s'\<rparr>)" "works s'"
  using assms by (auto simp: stays_lost_def emit_event_def prod_eq_iff split: prod.splits intro: that)

lemma query_stays_lost:
  "stays_lost R works lost \<Longrightarrow> registry_get (ro_registry R) v = Some ad \<Longrightarrow> va_query ad vref w = (q, w') \<Longrightarrow> lost w \<Longrightarrow> lost w'"
  unfolding stays_lost_def by (metis snd_conv)

lemma entry_of_note_failure [simp]: "entry_of (note_failure k v st) i = entry_of st i"
  by (simp add: entry_of_def)

lemma tracker_ok_note_failure [simp]: "tracker_ok (note_failure k v st) = tracker_ok st"
  by (simp add: tracker_ok_def)

lemma calm_note_failure [simp]: "calm works lost (note_failure k v st) = calm works lost st"
  by (simp add: calm_def)

lemma apply_observation_ok:
  assumes "stays_lost R works lost" "calm works lost st"
  shows "\<exists>u st'. apply_observation R t0 t n ob st = (Inr u, st') \<and> calm works lost st'
    \<and> mx_data (rt_reconciler st') = snd (observe (tg_order_id t) ob (mx_data (rt_reconciler st)))"
proof -
  let ?s = "snd (observe (tg_order_id t) ob (mx_data (rt_reconciler st)))"
  have wf: "hm_wf ?s" using assms(2) by (auto simp: calm_def tracker_ok_def observe_def hm_wf_put split: option.split)
  show ?thesis
  proof (cases "reconciler_status ?s (tg_order_id t)")
    case None
    with assms(2) wf show ?thesis
      by (simp add: apply_observation_def Let_def set_reconciler_def calm_def tracker_ok_def)
  next
    case (Some status)
    have "works (rt_audit (set_reconciler ?s st))" using assms(2) by (simp add: calm_def set_reconciler_def)
    then obtain s' where e: "emit_event R (tg_order_id t) t0 ''live_submit_reconciled'' (status \<noteq> RsNotFound)
        (set_reconciler ?s st) = (Inr (), (set_reconciler ?s st)\<lparr>rt_audit := s'\<rparr>)" and s': "works s'"
      by (rule emit_event_ok [OF assms(1)])
    have p: "\<not> mx_poisoned (rt_reconciler st)" using assms(2) by (simp add: calm_def tracker_ok_def)
    have "apply_observation R t0 t n ob st = (Inr (Some \<lparr>ru_intent_id = tg_order_id t, ru_status = status, ru_attempts = n\<rparr>),
        (set_reconciler ?s st)\<lparr>rt_audit := s'\<rparr>)"
      using Some e p by (simp add: apply_observation_def Let_def then_do_def)
    with assms(2) wf s' show ?thesis by (simp add: calm_def tracker_ok_def set_reconciler_def)
  qed
qed

text \<open>One target against a sink that works: no error, and only the target's own entry changes.\<close>

lemma reconcile_target_ok:
  assumes "stays_lost R works lost" "calm works lost st"
  shows "\<exists>u st'. reconcile_target R t0 now t st = (Inr u, st') \<and> calm works lost st'
    \<and> (\<forall>i. i \<noteq> tg_order_id t \<longrightarrow> entry_of st' i = entry_of st i)"
proof (cases "registry_get (ro_registry R) (tg_venue_id t)")
  case None
  with assms(2) show ?thesis by (simp add: reconcile_target_def)
next
  case (Some ad)
  obtain rec s where ra: "record_attempt (tg_order_id t) (mx_data (rt_reconciler st)) = (rec, s)" by force
  obtain q w where q: "va_query ad (tg_client_order_id t) (rt_world st) = (q, w)" by force
  have w: "lost w" using query_stays_lost [OF assms(1) Some q] assms(2) by (simp add: calm_def)
  let ?n = "case rec of Some n \<Rightarrow> n | None \<Rightarrow> tg_attempts t"
  obtain ob blame where o: "query_observation (rf_max_reconciliation_attempts (ro_config R)) ?n q
    = (ob, blame)" by force
  have s: "hm_wf s" "i \<noteq> tg_order_id t \<Longrightarrow> hm_get s i = entry_of st i" for i
    using ra assms(2)
    by (auto simp: record_attempt_def calm_def tracker_ok_def entry_of_def Let_def hm_wf_put hm_get_put
        split: option.splits if_splits)
  define st2 where "st2 = (if blame then note_failure (now (tg_order_id t)) (tg_venue_id t)
      ((set_reconciler s st)\<lparr>rt_world := w\<rparr>) else (set_reconciler s st)\<lparr>rt_world := w\<rparr>)"
  have ok: "calm works lost st2" "i \<noteq> tg_order_id t \<Longrightarrow> entry_of st2 i = entry_of st i" for i
    using s w assms(2) by (auto simp: st2_def calm_def tracker_ok_def entry_of_def set_reconciler_def)
  have run: "reconcile_target R t0 now t st =
      (case ob of None \<Rightarrow> (Inr None, st2) | Some obs \<Rightarrow> apply_observation R t0 t ?n obs st2)"
    unfolding st2_def using Some ra q o assms(2) by (simp add: reconcile_target_def Let_def calm_def tracker_ok_def)
  have other: "i \<noteq> tg_order_id t \<Longrightarrow> hm_get (snd (observe (tg_order_id t) x m)) i = hm_get m i" for i x m
    by (auto simp: observe_def hm_get_put split: option.split)
  show ?thesis
  proof (cases ob)
    case (Some x)
    obtain u st' where "apply_observation R t0 t ?n x st2 = (Inr u, st')" "calm works lost st'"
      "mx_data (rt_reconciler st') = snd (observe (tg_order_id t) x (mx_data (rt_reconciler st2)))"
      using apply_observation_ok [OF assms(1) ok(1)] by blast
    with run Some ok(2) other show ?thesis by (simp add: entry_of_def)
  qed (use ok run in simp)
qed

text \<open>A venue that knows nothing of the order: the attempt is counted, and the last one closes it.\<close>

lemma reconcile_target_lost:
  assumes "stays_lost R works lost" "calm works lost st"
    and "entry_of st (tg_order_id t) = Some e" "\<not> is_terminal (re_status e)"
    and "registry_get (ro_registry R) (tg_venue_id t) = Some ad"
    and "\<And>w. lost w \<Longrightarrow> \<exists>m. fst (va_query ad (tg_client_order_id t) w) = Inl (ANotFound m)"
  shows "\<exists>u st'. reconcile_target R t0 now t st = (Inr u, st') \<and> calm works lost st'
    \<and> entry_of st' (tg_order_id t) = Some (bump (rf_max_reconciliation_attempts (ro_config R)) e)"
proof -
  let ?i = "tg_order_id t" and ?n = "saturating_add_w (re_attempts e) 1"
  let ?limit = "rf_max_reconciliation_attempts (ro_config R)"
  have "lost (rt_world st)" using assms(2) by (simp add: calm_def)
  then obtain m w where q: "va_query ad (tg_client_order_id t) (rt_world st) = (Inl (ANotFound m), w)"
    using assms(6) [of "rt_world st"] by (metis prod.collapse)
  have w: "lost w" using query_stays_lost [OF assms(1,5) q] assms(2) by (simp add: calm_def)
  let ?st2 = "(set_reconciler (hm_put ?i (e\<lparr>re_attempts := ?n\<rparr>) (mx_data (rt_reconciler st))) st)
      \<lparr>rt_world := w\<rparr>"
  have ok: "calm works lost ?st2" using assms(2) w by (simp add: calm_def tracker_ok_def set_reconciler_def hm_wf_put)
  have "reconcile_target R t0 now t st =
      (if ?limit \<le> ?n then apply_observation R t0 t ?n ObNotFound ?st2 else (Inr None, ?st2))"
    using assms(2-5) q
    by (simp add: reconcile_target_def Let_def calm_def tracker_ok_def record_attempt_def entry_of_def
        query_observation_def)
  moreover have "entry_of ?st2 ?i = Some (e\<lparr>re_attempts := ?n\<rparr>)"
    by (simp add: entry_of_def set_reconciler_def hm_get_put)
  ultimately show ?thesis
    using ok apply_observation_ok [OF assms(1) ok, of t0 t ?n ObNotFound] assms(4)
    by (auto simp: bump_def Let_def entry_of_def set_reconciler_def observe_def hm_get_put)
qed

lemma reconcile_targets_other:
  assumes "stays_lost R works lost"
  shows "calm works lost st \<Longrightarrow> i \<notin> tg_order_id ` set ts \<Longrightarrow>
     \<exists>us st'. reconcile_targets R t0 now ts st = (Inr us, st') \<and> calm works lost st'
       \<and> entry_of st' i = entry_of st i"
proof (induction ts arbitrary: st)
  case (Cons t ts)
  obtain u st1 where t: "reconcile_target R t0 now t st = (Inr u, st1)" "calm works lost st1"
    "entry_of st1 i = entry_of st i"
    using reconcile_target_ok [OF assms Cons.prems(1), of t0 now t] Cons.prems(2) by auto
  with Cons.IH [OF t(2)] Cons.prems(2) show ?case by (auto simp: then_do_def)
qed simp

lemma reconcile_targets_lost:
  assumes "stays_lost R works lost"
    and "\<not> is_terminal (re_status e)" "registry_get (ro_registry R) (re_venue_id e) = Some ad"
    and "\<And>w. lost w \<Longrightarrow> \<exists>m. fst (va_query ad (re_client_order_id e) w) = Inl (ANotFound m)"
  shows "calm works lost st \<Longrightarrow> entry_of st i = Some e \<Longrightarrow> distinct (map tg_order_id ts) \<Longrightarrow>
     t \<in> set ts \<Longrightarrow> tg_order_id t = i \<Longrightarrow> tg_venue_id t = re_venue_id e \<Longrightarrow> tg_client_order_id t = re_client_order_id e \<Longrightarrow>
     \<exists>us st'. reconcile_targets R t0 now ts st = (Inr us, st') \<and> calm works lost st'
       \<and> entry_of st' i = Some (bump (rf_max_reconciliation_attempts (ro_config R)) e)"
proof (induction ts arbitrary: st)
  case (Cons s ts)
  show ?case
  proof (cases "s = t")
    case True
    obtain u st1 where t: "reconcile_target R t0 now t st = (Inr u, st1)" "calm works lost st1"
      "entry_of st1 i = Some (bump (rf_max_reconciliation_attempts (ro_config R)) e)"
      using reconcile_target_lost [OF assms(1) Cons.prems(1), of t e ad t0 now] assms(2-4) Cons.prems(2,5-7)
      by auto
    have "i \<notin> tg_order_id ` set ts" using Cons.prems(3,5) True by auto
    from reconcile_targets_other [OF assms(1) t(2) this, of t0 now] t True show ?thesis
      by (auto simp: then_do_def)
  next
    case False
    then have "t \<in> set ts" using Cons.prems(4) by simp
    then have "i \<noteq> tg_order_id s" using Cons.prems(3,5) by (metis distinct.simps(2) image_eqI list.map(2) list.set_map)
    obtain u st1 where s: "reconcile_target R t0 now s st = (Inr u, st1)" "calm works lost st1"
      "entry_of st1 i = Some e"
      using reconcile_target_ok [OF assms(1) Cons.prems(1), of t0 now s] \<open>i \<noteq> tg_order_id s\<close> Cons.prems(2)
      by auto
    from Cons.IH [OF s(2,3)] Cons.prems(3,5-7) \<open>t \<in> set ts\<close> s show ?thesis
      by (auto simp: then_do_def)
  qed
qed simp

lemma pending_targets_distinct: "hm_wf m \<Longrightarrow> distinct (map tg_order_id (pending_targets m))"
proof -
  have "map tg_order_id (pending_targets m) = map fst (filter (\<lambda>(_, e). \<not> is_terminal (re_status e)) m)"
    by (simp add: pending_targets_def case_prod_beta comp_def)
  then show "hm_wf m \<Longrightarrow> ?thesis" by (simp add: distinct_map_filter)
qed

lemma pending_targets_mem:
  assumes "hm_get m i = Some e" "\<not> is_terminal (re_status e)"
  shows "\<exists>t \<in> set (pending_targets m). tg_order_id t = i \<and> tg_venue_id t = re_venue_id e
     \<and> tg_client_order_id t = re_client_order_id e"
  using map_of_SomeD [OF assms(1)] assms(2) by (force simp: pending_targets_def)

lemma reconcile_round_lost:
  assumes "stays_lost R works lost"
    and "\<not> is_terminal (re_status e)" "registry_get (ro_registry R) (re_venue_id e) = Some ad"
    and "\<And>w. lost w \<Longrightarrow> \<exists>m. fst (va_query ad (re_client_order_id e) w) = Inl (ANotFound m)"
    and "calm works lost st" "entry_of st i = Some e"
  shows "calm works lost (snd (reconcile_unknowns R t0 now st))
    \<and> entry_of (snd (reconcile_unknowns R t0 now st)) i
        = Some (bump (rf_max_reconciliation_attempts (ro_config R)) e)"
proof -
  obtain t where t: "t \<in> set (pending_targets (mx_data (rt_reconciler st)))" "tg_order_id t = i"
    "tg_venue_id t = re_venue_id e" "tg_client_order_id t = re_client_order_id e"
    using pending_targets_mem assms(2,6) unfolding entry_of_def by blast
  have "distinct (map tg_order_id (pending_targets (mx_data (rt_reconciler st))))"
    using assms(5) by (simp add: calm_def tracker_ok_def pending_targets_distinct)
  from reconcile_targets_lost [OF assms(1-6) this t, of t0 now] assms(5) show ?thesis
    by (auto simp: reconcile_unknowns_def calm_def tracker_ok_def)
qed

lemma reconcile_rounds_final:
  "entry_of st i = Some e \<Longrightarrow> is_terminal (re_status e) \<Longrightarrow> entry_of (reconcile_rounds R t0 now n st) i = Some e"
proof (induction n arbitrary: st)
  case (Suc n)
  obtain r st1 where r: "reconcile_unknowns R t0 now st = (r, st1)" by force
  have "reconciler_later (mx_data (rt_reconciler st)) (mx_data (rt_reconciler st1))"
    using reconcile_unknowns_frame [OF r] by simp
  with Suc.prems have "entry_of st1 i = Some e"
    unfolding reconciler_later_def entry_of_def entry_later_def by metis
  with Suc.IH Suc.prems(2) r show ?case by simp
qed simp

lemma bump_open:
  assumes "re_status (bump limit e) \<noteq> RsNotFound"
  shows "unat (re_attempts (bump limit e)) = Suc (unat (re_attempts e))
    \<and> unat (re_attempts (bump limit e)) < unat limit
    \<and> re_status (bump limit e) = re_status e \<and> re_venue_id (bump limit e) = re_venue_id e
    \<and> re_client_order_id (bump limit e) = re_client_order_id e"
proof -
  let ?n = "saturating_add_w (re_attempts e) 1"
  from assms have n: "?n < limit" by (auto simp: bump_def Let_def not_le split: if_splits)
  then have "unat ?n < unat limit" by (simp add: word_less_nat_alt)
  moreover have "unat ?n = min (Suc (unat (re_attempts e))) (2 ^ 32 - 1)"
    by (simp add: saturating_add_w_unat)
  moreover have "unat limit < 2 ^ 32" using unsigned_less [of limit] by simp
  ultimately have "unat ?n = Suc (unat (re_attempts e))" by simp
  with n \<open>unat ?n < unat limit\<close> show ?thesis by (simp add: bump_def Let_def not_le [symmetric])
qed

text \<open>
  Property C32. An order whose submission timed out does not stay open for ever, provided two things: in
  every state that the queries of the rounds can lead to, its own venue answers the query for its own
  client order id with "not found"; and the audit sink accepts every event, as a sink that refuses one
  ends the round there. Then, whatever the venues answer about other orders, after as many rounds
  of reconciliation as are left to the configured maximum of attempts the order is closed as not found.
\<close>

theorem lost_submission_is_closed:
  assumes "tracker_ok st" "entry_of st i = Some e" "\<not> is_terminal (re_status e)"
    and "registry_get (ro_registry R) (re_venue_id e) = Some ad"
    and "lost (rt_world st)" "\<And>w. lost w \<Longrightarrow> \<exists>m. fst (va_query ad (re_client_order_id e) w) = Inl (ANotFound m)"
    and "\<And>v a vref w. registry_get (ro_registry R) v = Some a \<Longrightarrow> lost w \<Longrightarrow> lost (snd (va_query a vref w))"
    and "works (rt_audit st)" "\<And>x s. works s \<Longrightarrow> fst (ro_emit_execution R x s) = Inr () \<and> works (snd (ro_emit_execution R x s))"
    and "unat (rf_max_reconciliation_attempts (ro_config R)) \<le> unat (re_attempts e) + n" "0 < n"
  shows "\<exists>e'. entry_of (reconcile_rounds R t0 now n st) i = Some e' \<and> re_status e' = RsNotFound"
proof -
  have R: "stays_lost R works lost" using assms(7,9) unfolding stays_lost_def by blast
  have "calm works lost st" using assms(1,5,8) by (simp add: calm_def)
  then show ?thesis
    using assms(2-4,6,10,11)
  proof (induction n arbitrary: st e)
    case (Suc n)
    let ?e = "bump (rf_max_reconciliation_attempts (ro_config R)) e"
      and ?st = "snd (reconcile_unknowns R t0 now st)"
    have round: "calm works lost ?st" "entry_of ?st i = Some ?e"
      using reconcile_round_lost [OF R Suc.prems(3,4,5,1,2)] by blast+
    show ?case
    proof (cases "re_status ?e = RsNotFound")
      case True
      with reconcile_rounds_final [OF round(2)] show ?thesis by simp
    next
      case False
      from bump_open [OF False] Suc.prems(3,4,6) have "\<not> is_terminal (re_status ?e)"
        "registry_get (ro_registry R) (re_venue_id ?e) = Some ad" "re_client_order_id ?e = re_client_order_id e"
        "unat (rf_max_reconciliation_attempts (ro_config R)) \<le> unat (re_attempts ?e) + n" "0 < n"
        by auto
      then show ?thesis using Suc.IH [OF round] Suc.prems(5) by simp
    qed
  qed simp
qed

text \<open>A sink that refuses: the round ends at the first event it refuses, and the orders behind it wait.\<close>

lemma refused_event_ends_round:
  assumes "reconcile_target R t0 now t st = (Inl e, st1)"
  shows "reconcile_targets R t0 now (t # ts) st = (Inl e, st1)"
  using assms by (simp add: then_do_def)

subsection \<open>A concrete run\<close>

definition wit_request :: request where
  "wit_request = \<lparr>rq_intent = wit_risk_intent, rq_book = wit_book, rq_context = wit_risk_context,
     rq_auth = wit_auth\<rparr>"

abbreviation wit_start :: "(sandbox, memory_execution_sink) router_run" where
  "wit_start \<equiv> run_start (router_new wit_sink sandbox_new)"

text \<open>The live order of the previous theory, reserved and executed.\<close>

lemma wit_run:
  "\<exists>c. router_reaches wit_router wit_start c \<and> rn_executed c = [1]
     \<and> rt_world (rn_state c) \<noteq> sandbox_new"
proof -
  let ?st = "router_new wit_sink sandbox_new :: (sandbox, memory_execution_sink) router_state"
  obtain st1 where r: "reserve wit_router 1 ?st = (Inr None, st1)"
    and st1: "rt_world st1 = sandbox_new" "rt_audit st1 = wit_sink" "rt_breakers st1 = new_mutex []"
    by (simp add: reserve_def router_new_def new_mutex_def in_flight_def wit_router_def
        router_config_default_def)
  obtain res st2 where e: "submit_reserved wit_router wit_risk_intent wit_book wit_risk_context wit_auth
      wit_clock st1 = (Some (Inr res), st2)" "rt_world st2 \<noteq> sandbox_new"
    using wit_submits_from [of st1] st1 by auto
  define c1 where "c1 = wit_start\<lparr>rn_state := st1, rn_running := [wit_request]\<rparr>"
  have "router_step wit_router wit_start c1"
    using Reserve [of wit_router wit_request wit_start st1] r
    by (simp add: c1_def wit_request_def run_start_def)
  moreover have "router_step wit_router c1 (c1\<lparr>rn_state := st2, rn_running := [],
      rn_done := [(1, Inr res)], rn_executed := [1]\<rparr>)"
    using Execute [of c1 "[]" wit_request "[]" wit_router wit_clock "Inr res" st2] e
    by (simp add: c1_def wit_request_def run_start_def)
  ultimately have "router_reaches wit_router wit_start (c1\<lparr>rn_state := st2, rn_running := [],
      rn_done := [(1, Inr res)], rn_executed := [1]\<rparr>)"
    by (meson router_reaches.intros)
  then show ?thesis using e(2) by (intro exI) auto
qed

theorem intents_executed_at_most_once_witness:
  "\<exists>c. router_reaches wit_router wit_start c \<and> rn_executed c = [1] \<and> distinct (rn_executed c)"
proof -
  obtain c where c: "router_reaches wit_router wit_start c" "rn_executed c = [1]" using wit_run by blast
  from intents_executed_at_most_once [OF c(1)] c show ?thesis by auto
qed

theorem in_flight_bounded_witness:
  "\<exists>c. router_reaches wit_router wit_start c \<and> rn_executed c = [1]
     \<and> in_flight (run_intents c) \<le> 100"
proof -
  obtain c where c: "router_reaches wit_router wit_start c" "rn_executed c = [1]" using wit_run by blast
  from in_flight_bounded [OF c(1)] c show ?thesis
    by (auto simp: wit_router_def router_config_default_def)
qed

theorem one_order_per_intent_witness:
  "\<exists>c. router_reaches wit_router wit_start c \<and> rn_executed c = [1]
     \<and> sandbox_placed (rt_world (rn_state c)) (wit_us 1) \<le> 1"
proof -
  obtain c where c: "router_reaches wit_router wit_start c" "rn_executed c = [1]" using wit_run by blast
  have u: "ro_ulid wit_router = wit_us" and reg: "ro_registry wit_router = sandbox_registry wit_us (VenueId ''v'')"
    by (simp_all add: wit_router_def)
  have "sandbox_placed (rt_world (rn_state c)) (ro_ulid wit_router 1) \<le> 1"
  proof (rule one_order_per_intent [OF c(1)])
    show "inj (ro_ulid wit_router)" by (simp add: u inj_wit_us)
    show "sandbox_placed sandbox_new (ro_ulid wit_router 1) = 0"
      by (simp add: sandbox_placed_def sandbox_new_def)
  next
    fix v ad it w r w' k
    assume "registry_get (ro_registry wit_router) v = Some ad" "va_submit ad it w = (r, w')"
    then show "sandbox_placed w' k \<le> sandbox_placed w k + (if k = ro_ulid wit_router (oi_id it) then 1 else 0)"
      unfolding u reg by (rule sandbox.submit_places)
  next
    fix v ad vref w q w' k
    assume "registry_get (ro_registry wit_router) v = Some ad" "va_query ad vref w = (q, w')"
    then show "sandbox_placed w' k = sandbox_placed w k"
      unfolding reg by (rule sandbox.query_places)
  qed
  with c show ?thesis by (auto simp: u)
qed

definition wit_entry :: reconciliation_entry where
  "wit_entry = \<lparr>re_status = RsFilled, re_venue_id = VenueId ''v'', re_client_order_id = ''1'', re_attempts = 1\<rparr>"

theorem known_outcomes_are_final_witness:
  "\<exists>e'. hm_get (run_reconciler (wit_start\<lparr>rn_state := set_reconciler [(1, wit_entry)] wit_router_state\<rparr>)) 1
      = Some e' \<and> e' = wit_entry"
  using known_outcomes_are_final [OF Start [of wit_router
      "wit_start\<lparr>rn_state := set_reconciler [(1, wit_entry)] wit_router_state\<rparr>"], of 1 wit_entry]
  by (simp add: set_reconciler_def wit_entry_def)

text \<open>A venue that has never heard of order 1 and counts the queries for the others.\<close>

definition forgetful :: "nat venue_adapter" where
  "forgetful = \<lparr>va_submit = (\<lambda>_ w. (Inl ATimeout, w)), va_cancel = (\<lambda>r w. (Inl (ANotFound r), w)),
     va_query = (\<lambda>r w. (Inl (if r = ''1'' then ANotFound r else ATimeout), w + 1)), va_balances = (\<lambda>_. Inl ATimeout),
     va_healthy = (\<lambda>_. True)\<rparr>"

definition forgetful_router :: "(nat, memory_execution_sink) router" where
  "forgetful_router = \<lparr>ro_dec = dec_ref, ro_render = wit_render, ro_ulid = wit_us,
     ro_config = router_config_default, ro_registry = [(VenueId ''v'', forgetful)],
     ro_emit_authz = memory_emit_authz, ro_emit_execution = memory_emit_execution\<rparr>"

definition wit_unknown :: reconciliation_entry where
  "wit_unknown = \<lparr>re_status = RsUnknown, re_venue_id = VenueId ''v'', re_client_order_id = ''1'', re_attempts = 0\<rparr>"

theorem lost_submission_is_closed_witness:
  "\<exists>e'. entry_of (reconcile_rounds forgetful_router 0 (\<lambda>_. 0) 3
      (set_reconciler [(2, wit_unknown\<lparr>re_client_order_id := ''2''\<rparr>), (1, wit_unknown)] (router_new wit_sink 0))) 1 = Some e'
      \<and> re_status e' = RsNotFound"
  by (rule lost_submission_is_closed [where e = wit_unknown and ad = forgetful and lost = "\<lambda>_. True"
        and works = "\<lambda>s. \<not> mx_poisoned (ms_execution s)"])
    (simp_all add: tracker_ok_def entry_of_def set_reconciler_def router_new_def new_mutex_def wit_sink_def memory_emit_execution_def
      wit_unknown_def forgetful_router_def forgetful_def registry_get_def router_config_default_def memory_sink_emit_def)

end
