(* ===== verification/Hex_Numbers.thy ===== *)
theory Hex_Numbers
  imports Prelude
begin

text \<open>
  Numbers as hexadecimal text and as big-endian bytes, the way the standard library and the
  \<^verbatim>\<open>hex\<close> crate read and write them: \<^verbatim>\<open>from_str_radix(_, 16)\<close> with its optional plus sign and its
  overflow check, \<^verbatim>\<open>hex::decode\<close>, \<^verbatim>\<open>to_be_bytes\<close>. Numbers are \<open>nat\<close>s below the bound of their
  type.
\<close>

subsection \<open>Hexadecimal text\<close>

definition hex_value :: "char \<Rightarrow> nat option" where
  "hex_value c = (let n = of_char c :: nat in
     if 48 \<le> n \<and> n \<le> 57 then Some (n - 48)
     else if 97 \<le> n \<and> n \<le> 102 then Some (n - 87)
     else if 65 \<le> n \<and> n \<le> 70 then Some (n - 55) else None)"

fun hex_digits :: "nat \<Rightarrow> string \<Rightarrow> nat option" where
  "hex_digits acc [] = Some acc"
| "hex_digits acc (c # cs) = Option.bind (hex_value c) (\<lambda>d. hex_digits (acc * 16 + d) cs)"

text \<open>\<^verbatim>\<open>from_str_radix\<close> of an unsigned type of \<open>w\<close> bits.\<close>

definition from_hex :: "nat \<Rightarrow> string \<Rightarrow> nat option" where
  "from_hex w s =
     (let d = (case s of c # rest \<Rightarrow> if c = CHR ''+'' then rest else s | [] \<Rightarrow> [])
      in if d = [] then None
         else Option.bind (hex_digits 0 d) (\<lambda>n. if n < 2 ^ w then Some n else None))"

fun hex_decode :: "string \<Rightarrow> u8 list option" where
  "hex_decode [] = Some []"
| "hex_decode [c] = None"
| "hex_decode (c # d # cs) = do {
     hi \<leftarrow> hex_value c;
     lo \<leftarrow> hex_value d;
     bs \<leftarrow> hex_decode cs;
     Some (of_nat (hi * 16 + lo) # bs)
   }"

lemma hex_value_digit: "unat b < 16 \<Longrightarrow> hex_value (hex_digit b) = Some (unat b)"
proof -
  have all: "\<forall>n<16. hex_value (''0123456789abcdef'' ! n) = Some n" by code_simp
  assume "unat b < 16"
  with all show ?thesis by (simp add: hex_digit_def)
qed

lemma hex_decode_encode: "hex_decode (encode_hex bs) = Some bs"
proof (induction bs)
  case (Cons b bs)
  have "unat b div 16 * 16 + unat b mod 16 = unat b" by simp
  then have "(of_nat (unat b div 16 * 16 + unat b mod 16) :: u8) = b"
    by (simp only: of_nat_unat ucast_id)
  moreover have "hex_value (hex_digit (drop_bit 4 b)) = Some (unat b div 16)"
    "hex_value (hex_digit (and b 15)) = Some (unat b mod 16)"
    using hex_value_digit [OF nibble_bounds(1), of b] hex_value_digit [OF nibble_bounds(2), of b]
    by (simp_all only: high_nibble low_nibble)
  ultimately show ?case
    by (simp only: encode_hex_simps hex_decode.simps bind.bind_lunit Cons.IH)
qed (simp add: encode_hex_simps)

lemma hex_decode_length: "hex_decode s = Some bs \<Longrightarrow> length s = 2 * length bs"
  by (induction s arbitrary: bs rule: hex_decode.induct) (auto simp: bind_Some_iff)

lemma from_hex_bound: "from_hex w s = Some n \<Longrightarrow> n < 2 ^ w"
  by (auto simp: from_hex_def Let_def bind_Some_iff split: if_splits)

subsection \<open>Big-endian bytes\<close>

primrec be_bytes :: "nat \<Rightarrow> nat \<Rightarrow> u8 list" where
  "be_bytes 0 n = []"
| "be_bytes (Suc k) n = be_bytes k (n div 256) @ [of_nat (n mod 256)]"

definition trim_leading_zeroes :: "u8 list \<Rightarrow> u8 list" where
  "trim_leading_zeroes bs = dropWhile (\<lambda>b. b = 0) bs"

definition be_value :: "u8 list \<Rightarrow> nat" where
  "be_value bs = foldl (\<lambda>a b. a * 256 + unat b) 0 bs"

lemma length_be_bytes [simp]: "length (be_bytes k n) = k"
  by (induction k arbitrary: n) simp_all

lemma be_value_snoc: "be_value (bs @ [b]) = be_value bs * 256 + unat b"
  by (simp add: be_value_def)

lemma be_value_bytes: "n < 256 ^ k \<Longrightarrow> be_value (be_bytes k n) = n"
proof (induction k arbitrary: n)
  case 0
  then show ?case by (simp add: be_value_def)
next
  case (Suc k)
  have "n div 256 < 256 ^ k" using Suc.prems by (simp add: div_less_iff_less_mult mult.commute)
  moreover have "unat (of_nat (n mod 256) :: u8) = n mod 256" by (simp add: unat_of_nat)
  ultimately show ?case by (simp add: be_value_snoc Suc.IH)
qed

lemma be_value_trim: "be_value (trim_leading_zeroes bs) = be_value bs"
  by (induction bs) (simp_all add: trim_leading_zeroes_def be_value_def)

lemma length_trim: "length (trim_leading_zeroes bs) \<le> length bs"
  by (simp add: trim_leading_zeroes_def length_dropWhile_le)

lemma trim_be_value_pos: "0 < be_value bs \<Longrightarrow> trim_leading_zeroes bs \<noteq> []"
  using be_value_trim [of bs] by (auto simp: be_value_def)

end
