(* ===== verification/Guardian_Tx.thy ===== *)
theory Guardian_Tx
  imports Hex_Numbers
begin

text \<open>
  Transactions of the wallet guardian (\<^verbatim>\<open>connectors/execution/wallet-guardian\<close>): nonces
  (\<^verbatim>\<open>nonce.rs\<close>), and the encoding, signing and broadcast of EIP-1559 transactions
  (\<^verbatim>\<open>broadcast.rs\<close>). Keccak, the signature and the RPC node are arguments. The lemmas show that
  RLP can be decoded, so that the signed payload determines every field of the transaction, and
  which nonce a broadcast uses.
\<close>

subsection \<open>Specifications (proposal.rs)\<close>

text \<open>Chain ids, nonces and gas limits are \<^verbatim>\<open>u64\<close>, fees and values \<^verbatim>\<open>u128\<close>.\<close>

record tx_spec =
  tx_chain_id :: nat
  tx_to :: string
  tx_value :: string
  tx_data :: string
  tx_gas_limit :: nat
  tx_max_fee_per_gas :: string
  tx_max_priority_fee_per_gas :: string

subsection \<open>Nonces (nonce.rs)\<close>

record nonce_manager =
  nm_nonces :: "(nat, nat) hash_map"
  nm_pending :: "(nat, nat list) hash_map"

datatype nonce_error = NonceTooLow nat nat | ReplacementGasTooLow

definition nonce_manager_new :: nonce_manager where
  "nonce_manager_new = \<lparr>nm_nonces = [], nm_pending = []\<rparr>"

definition or_zero :: "nat option \<Rightarrow> nat" where
  "or_zero v = (case v of None \<Rightarrow> 0 | Some n \<Rightarrow> n)"

text \<open>\<open>None\<close> is the overflow of the \<^verbatim>\<open>u64\<close> counter.\<close>

definition next_nonce :: "nat \<Rightarrow> nonce_manager \<Rightarrow> (nat \<times> nonce_manager) option" where
  "next_nonce chain m =
     (let n = or_zero (hm_get (nm_nonces m) chain)
      in if n + 1 < 2 ^ 64 then Some (n, m\<lparr>nm_nonces := hm_put chain (n + 1) (nm_nonces m)\<rparr>) else None)"

definition reserve_nonce ::
  "nat \<Rightarrow> nat \<Rightarrow> nonce_manager \<Rightarrow> ((nonce_error + unit) \<times> nonce_manager) option" where
  "reserve_nonce chain nonce m =
     (let n = or_zero (hm_get (nm_nonces m) chain);
          m' = m\<lparr>nm_nonces := hm_put chain n (nm_nonces m)\<rparr>
      in if nonce + 1 \<ge> 2 ^ 64 then None
         else if nonce + 1 < n then Some (Inl (NonceTooLow n nonce), m')
         else Some (Inr (), m\<lparr>nm_nonces := hm_put chain (nonce + 1) (nm_nonces m)\<rparr>))"

definition pending_of :: "nonce_manager \<Rightarrow> nat \<Rightarrow> nat list" where
  "pending_of m chain = (case hm_get (nm_pending m) chain of None \<Rightarrow> [] | Some v \<Rightarrow> v)"

definition mark_pending :: "nat \<Rightarrow> nat \<Rightarrow> nonce_manager \<Rightarrow> nonce_manager" where
  "mark_pending chain nonce m =
     m\<lparr>nm_pending := hm_put chain (pending_of m chain @ [nonce]) (nm_pending m)\<rparr>"

definition nonce_confirm :: "nat \<Rightarrow> nat \<Rightarrow> nonce_manager \<Rightarrow> nonce_manager" where
  "nonce_confirm chain nonce m =
     m\<lparr>nm_pending := hm_modify chain (filter (\<lambda>n. n \<noteq> nonce)) (nm_pending m)\<rparr>"

definition lowest_pending :: "nat \<Rightarrow> nonce_manager \<Rightarrow> nat option" where
  "lowest_pending chain m = (case pending_of m chain of [] \<Rightarrow> None | n # _ \<Rightarrow> Some n)"

subsection \<open>RLP (broadcast.rs)\<close>

text \<open>\<^verbatim>\<open>usize\<close> has eight bytes.\<close>

definition minimal_be_u128 :: "nat \<Rightarrow> u8 list" where
  "minimal_be_u128 v = (if v = 0 then [] else trim_leading_zeroes (be_bytes 16 v))"

definition minimal_be_usize :: "nat \<Rightarrow> u8 list" where
  "minimal_be_usize v = trim_leading_zeroes (be_bytes 8 v)"

definition rlp_prefix :: "nat \<Rightarrow> nat \<Rightarrow> u8 list" where
  "rlp_prefix offset len =
     (if len \<le> 55 then [of_nat (offset + len)]
      else let bs = minimal_be_usize len in of_nat (offset + 55 + length bs) # bs)"

definition rlp_bytes :: "u8 list \<Rightarrow> u8 list" where
  "rlp_bytes bs =
     (if length bs = 1 \<and> hd bs < 0x80 then [hd bs] else rlp_prefix 0x80 (length bs) @ bs)"

definition rlp_list :: "u8 list list \<Rightarrow> u8 list" where
  "rlp_list items = (let payload = concat items in rlp_prefix 0xC0 (length payload) @ payload)"

definition rlp_u128 :: "nat \<Rightarrow> u8 list" where
  "rlp_u128 v = rlp_bytes (minimal_be_u128 v)"

definition rlp_u64 :: "nat \<Rightarrow> u8 list" where
  "rlp_u64 v = rlp_bytes (minimal_be_u128 v)"

subsection \<open>Transactions (broadcast.rs)\<close>

datatype 'r broadcast_error = BcRpc 'r | BcSigning string | BcNonce nonce_error | BcInvalidTransaction message

record eip1559_tx =
  e_chain_id :: nat
  e_nonce :: nat
  e_max_priority_fee_per_gas :: nat
  e_max_fee_per_gas :: nat
  e_gas_limit :: nat
  e_to :: "u8 list"
  e_value :: nat
  e_data :: "u8 list"

record eth_signature =
  sg_r :: "u8 list"
  sg_s :: "u8 list"
  sg_y_parity :: nat

definition without_0x :: "string \<Rightarrow> string" where
  "without_0x raw = (case strip_prefix ''0x'' raw of Some s \<Rightarrow> s | None \<Rightarrow> raw)"

definition parse_hex_u128 :: "string \<Rightarrow> 'r broadcast_error + nat" where
  "parse_hex_u128 raw =
     (let cleaned = without_0x raw
      in if cleaned = [] then Inr 0
         else ok_or (BcInvalidTransaction (Fmt ''invalid hex integer {}'' [FStr raw])) (from_hex 128 cleaned))"

definition parse_hex_bytes :: "string \<Rightarrow> 'r broadcast_error + u8 list" where
  "parse_hex_bytes raw =
     (let cleaned = without_0x raw
      in if cleaned = [] then Inr []
         else if length cleaned mod 2 \<noteq> 0
         then Inl (BcInvalidTransaction (Fmt ''hex bytes must have even length: {}'' [FStr raw]))
         else ok_or (BcInvalidTransaction (Fmt ''invalid hex bytes {}'' [FStr raw])) (hex_decode cleaned))"

definition parse_address :: "string \<Rightarrow> 'r broadcast_error + u8 list" where
  "parse_address raw =
     and_then (parse_hex_bytes raw) (\<lambda>bs.
       if length bs \<noteq> 20 then Inl (BcInvalidTransaction (Fmt ''address must be 20 bytes: {}'' [FStr raw]))
       else Inr bs)"

definition from_spec :: "tx_spec \<Rightarrow> nat \<Rightarrow> nat \<Rightarrow> 'r broadcast_error + eip1559_tx" where
  "from_spec tx nonce chain =
     (if tx_chain_id tx \<noteq> chain
      then Inl (BcInvalidTransaction (Fmt ''tx chain {} does not match broadcast chain {}''
                  [FNat (tx_chain_id tx), FNat chain]))
      else and_then (parse_hex_u128 (tx_max_priority_fee_per_gas tx)) (\<lambda>prio.
           and_then (parse_hex_u128 (tx_max_fee_per_gas tx)) (\<lambda>fee.
           and_then (parse_address (tx_to tx)) (\<lambda>addr.
           and_then (parse_hex_u128 (tx_value tx)) (\<lambda>v.
           and_then (parse_hex_bytes (tx_data tx)) (\<lambda>data.
           Inr \<lparr>e_chain_id = chain, e_nonce = nonce, e_max_priority_fee_per_gas = prio,
             e_max_fee_per_gas = fee, e_gas_limit = tx_gas_limit tx, e_to = addr, e_value = v,
             e_data = data\<rparr>))))))"

definition tx_items :: "eip1559_tx \<Rightarrow> u8 list list" where
  "tx_items t =
     [rlp_u64 (e_chain_id t), rlp_u64 (e_nonce t), rlp_u128 (e_max_priority_fee_per_gas t),
      rlp_u128 (e_max_fee_per_gas t), rlp_u64 (e_gas_limit t), rlp_bytes (e_to t),
      rlp_u128 (e_value t), rlp_bytes (e_data t), rlp_list []]"

definition signing_payload :: "eip1559_tx \<Rightarrow> u8 list" where
  "signing_payload t = 0x02 # rlp_list (tx_items t)"

definition encode_signed :: "eip1559_tx \<Rightarrow> eth_signature \<Rightarrow> string" where
  "encode_signed t s =
     ''0x'' @ encode_hex (0x02 # rlp_list (tx_items t @
       [rlp_u64 (sg_y_parity s), rlp_bytes (trim_leading_zeroes (sg_r s)),
        rlp_bytes (trim_leading_zeroes (sg_s s))]))"

text \<open>\<open>sign\<close> is the key store's signature of a hash, \<open>keccak\<close> the hash.\<close>

definition sign_eip1559_transaction ::
  "(u8 list \<Rightarrow> u8 list) \<Rightarrow> (u8 list \<Rightarrow> string + eth_signature) \<Rightarrow> tx_spec \<Rightarrow> nat \<Rightarrow> nat
     \<Rightarrow> 'r broadcast_error + string" where
  "sign_eip1559_transaction keccak sign tx nonce chain =
     and_then (from_spec tx nonce chain) (\<lambda>t.
     and_then (map_err BcSigning (sign (keccak (signing_payload t)))) (\<lambda>s.
     Inr (encode_signed t s)))"

definition raw_transaction_hash :: "(u8 list \<Rightarrow> u8 list) \<Rightarrow> string \<Rightarrow> 'r broadcast_error + string" where
  "raw_transaction_hash keccak raw =
     and_then (parse_hex_bytes raw) (\<lambda>bs.
       if bs = [] \<or> hd bs \<noteq> 0x02
       then Inl (BcInvalidTransaction (Lit ''signed transaction is not EIP-1559 type 2''))
       else Inr (''0x'' @ encode_hex (keccak bs)))"

text \<open>The node: how many transactions an address has sent, and sending a raw transaction.\<close>

record ('w, 'r) rpc_client =
  rp_transaction_count :: "string \<Rightarrow> 'w \<Rightarrow> ('r + nat) \<times> 'w"
  rp_send_raw :: "string \<Rightarrow> 'w \<Rightarrow> ('r + string) \<times> 'w"

record broadcast_result =
  br_tx_hash :: string
  br_signed_raw :: string
  br_nonce :: nat

definition reserve_broadcast_nonce ::
  "string \<Rightarrow> ('w, 'r) rpc_client \<Rightarrow> nat \<Rightarrow> nonce_manager \<times> 'w
     \<Rightarrow> ('r broadcast_error + nat) \<times> (nonce_manager \<times> 'w)" where
  "reserve_broadcast_nonce address rpc chain s =
     (let (m, w) = s;
          (r, w') = (case lowest_pending chain m of
                       Some n \<Rightarrow> (Inr n, w)
                     | None \<Rightarrow> let (c, w') = rp_transaction_count rpc address w in (map_err BcRpc c, w'))
      in case r of Inl e \<Rightarrow> (Inl e, (m, w'))
         | Inr n \<Rightarrow> (Inr n, (mark_pending chain n m, w')))"

definition broadcast_transaction ::
  "(u8 list \<Rightarrow> u8 list) \<Rightarrow> (u8 list \<Rightarrow> string + eth_signature) \<Rightarrow> string \<Rightarrow> ('w, 'r) rpc_client
     \<Rightarrow> tx_spec \<Rightarrow> nat \<Rightarrow> nonce_manager \<times> 'w
     \<Rightarrow> ('r broadcast_error + broadcast_result) \<times> (nonce_manager \<times> 'w)" where
  "broadcast_transaction keccak sign address rpc tx chain =
     then_do (reserve_broadcast_nonce address rpc chain) (\<lambda>nonce s.
       case sign_eip1559_transaction keccak sign tx nonce chain of
         Inl e \<Rightarrow> (Inl e, s)
       | Inr raw \<Rightarrow>
           let (r, w) = rp_send_raw rpc raw (snd s)
           in (map_ok (\<lambda>h. \<lparr>br_tx_hash = h, br_signed_raw = raw, br_nonce = nonce\<rparr>) (map_err BcRpc r),
               (fst s, w)))"

subsection \<open>RLP can be decoded\<close>

text \<open>A reference decoder of one string item: the item and the rest.\<close>

definition rlp_split :: "u8 list \<Rightarrow> (u8 list \<times> u8 list) option" where
  "rlp_split xs =
     (case xs of
        [] \<Rightarrow> None
      | b # ys \<Rightarrow>
          if unat b < 128 then Some ([b], ys)
          else if unat b \<le> 183 then let n = unat b - 128 in Some (take n ys, drop n ys)
          else if unat b \<le> 191
          then let k = unat b - 183; n = be_value (take k ys) in Some (take n (drop k ys), drop (k + n) ys)
          else None)"

lemma length_minimal_be_usize: "length (minimal_be_usize n) \<le> 8"
  using length_trim [of "be_bytes 8 n"] by (simp add: minimal_be_usize_def)

lemma be_value_minimal: "n < 2 ^ 64 \<Longrightarrow> be_value (minimal_be_usize n) = n"
  by (simp add: minimal_be_usize_def be_value_trim be_value_bytes)

lemma minimal_be_usize_nonempty: "0 < n \<Longrightarrow> n < 2 ^ 64 \<Longrightarrow> minimal_be_usize n \<noteq> []"
  using trim_be_value_pos [of "be_bytes 8 n"] by (simp add: minimal_be_usize_def be_value_bytes)

lemma unat_small: "n < 256 \<Longrightarrow> unat (of_nat n :: u8) = n"
  by (simp add: unat_of_nat)

lemma rlp_split_short:
  "128 \<le> unat b \<Longrightarrow> unat b \<le> 183 \<Longrightarrow>
     rlp_split (b # ys) = Some (take (unat b - 128) ys, drop (unat b - 128) ys)"
  by (simp add: rlp_split_def Let_def)

lemma rlp_split_long:
  "183 < unat b \<Longrightarrow> unat b \<le> 191 \<Longrightarrow>
     rlp_split (b # ys) =
       Some (take (be_value (take (unat b - 183) ys)) (drop (unat b - 183) ys),
             drop (unat b - 183 + be_value (take (unat b - 183) ys)) ys)"
  by (simp add: rlp_split_def Let_def)

lemma rlp_split_single: "unat b < 128 \<Longrightarrow> rlp_split (b # ys) = Some ([b], ys)"
  by (simp add: rlp_split_def)

lemma minimal_be_usize_bounds:
  assumes "0 < n" "n < 2 ^ 64"
  shows "1 \<le> length (minimal_be_usize n)" "length (minimal_be_usize n) \<le> 8"
  using minimal_be_usize_nonempty [OF assms] length_minimal_be_usize [of n]
  by (cases "minimal_be_usize n"; simp)+

text \<open>The first byte of a prefix, as a number.\<close>

definition rlp_head :: "nat \<Rightarrow> nat" where
  "rlp_head n = (if n \<le> 55 then n else 55 + length (minimal_be_usize n))"

lemma rlp_head_bounds:
  assumes "n < 2 ^ 64"
  shows "rlp_head n \<le> 63" "rlp_head n \<le> 55 \<longleftrightarrow> n \<le> 55"
proof -
  have "1 \<le> length (minimal_be_usize n) \<and> length (minimal_be_usize n) \<le> 8" if "55 < n"
    using minimal_be_usize_bounds [OF _ assms] that by (simp add: less_trans [of 0 55])
  then show "rlp_head n \<le> 63" "rlp_head n \<le> 55 \<longleftrightarrow> n \<le> 55" by (auto simp: rlp_head_def not_le)
qed

lemma rlp_prefix_head:
  "rlp_prefix c n = of_nat (c + rlp_head n) # (if n \<le> 55 then [] else minimal_be_usize n)"
  by (simp only: rlp_prefix_def rlp_head_def Let_def add.assoc split: if_split) simp

lemma unat_rlp_head:
  assumes "n < 2 ^ 64" "c \<le> 192"
  shows "unat (of_nat (c + rlp_head n) :: u8) = c + rlp_head n"
  using rlp_head_bounds(1) [OF assms(1)] assms(2) by (intro unat_small) simp

theorem rlp_split_bytes:
  assumes "length bs < 2 ^ 64"
  shows "rlp_split (rlp_bytes bs @ rest) = Some (bs, rest)"
proof (cases "length bs = 1 \<and> hd bs < 0x80")
  case True
  then obtain b where "bs = [b]" by (cases bs) auto
  with True show ?thesis by (simp add: rlp_bytes_def rlp_split_single word_less_nat_alt)
next
  case not_single: False
  let ?n = "length bs"
  let ?b = "of_nat (128 + rlp_head ?n) :: u8"
  have b: "unat ?b = 128 + rlp_head ?n" by (rule unat_rlp_head [OF assms]) simp
  have eq: "rlp_bytes bs @ rest = ?b # (if ?n \<le> 55 then [] else minimal_be_usize ?n) @ bs @ rest"
    unfolding rlp_bytes_def if_not_P [OF not_single] rlp_prefix_head by simp
  show ?thesis
  proof (cases "?n \<le> 55")
    case True
    then have h: "rlp_head ?n = ?n" by (simp add: rlp_head_def)
    have "rlp_split (?b # bs @ rest) = Some (take ?n (bs @ rest), drop ?n (bs @ rest))"
      using rlp_split_short [of ?b "bs @ rest"] True b unfolding h by simp
    then show ?thesis unfolding eq if_P [OF True] by simp
  next
    case False
    let ?k = "minimal_be_usize ?n"
    have h: "rlp_head ?n = 55 + length ?k" using False by (simp add: rlp_head_def)
    have r: "183 < unat ?b" "unat ?b \<le> 191" "unat ?b - 183 = length ?k"
      using rlp_head_bounds [OF assms] False b unfolding h by linarith+
    have t: "take (length ?k) (?k @ bs @ rest) = ?k" "drop (length ?k) (?k @ bs @ rest) = bs @ rest"
      "drop (length ?k + ?n) (?k @ bs @ rest) = rest" "take ?n (bs @ rest) = bs"
      by (simp_all only: append_eq_conv_conj take_append drop_append) simp_all
    show ?thesis
      unfolding eq if_not_P [OF False] rlp_split_long [OF r(1,2)] r(3) t be_value_minimal [OF assms] ..
  qed
qed

lemma rlp_bytes_inject:
  assumes "rlp_bytes a @ x = rlp_bytes b @ y" "length a < 2 ^ 64" "length b < 2 ^ 64"
  shows "a = b \<and> x = y"
  using rlp_split_bytes [OF assms(2), of x, unfolded assms(1) rlp_split_bytes [OF assms(3)]]
  unfolding option.inject prod.inject by blast

text \<open>The prefix of a list determines its length, and ends where its payload begins.\<close>

lemma rlp_prefix_inject:
  assumes "rlp_prefix c m @ x = rlp_prefix c n @ y" "c \<le> 192" "m < 2 ^ 64" "n < 2 ^ 64"
  shows "m = n \<and> x = y"
proof -
  from assms(1) have "(of_nat (c + rlp_head m) :: u8) = of_nat (c + rlp_head n)"
    and tl: "(if m \<le> 55 then [] else minimal_be_usize m) @ x = (if n \<le> 55 then [] else minimal_be_usize n) @ y"
    unfolding rlp_prefix_head by (simp_all only: append_Cons list.inject)
  then have eq: "rlp_head m = rlp_head n"
    using unat_rlp_head [OF assms(3,2)] unat_rlp_head [OF assms(4,2)] by simp
  then have same: "m \<le> 55 \<longleftrightarrow> n \<le> 55"
    using rlp_head_bounds(2) [OF assms(3)] rlp_head_bounds(2) [OF assms(4)] by simp
  show ?thesis
  proof (cases "m \<le> 55")
    case True
    with same have n: "n \<le> 55" by simp
    have "m = n" using eq unfolding rlp_head_def if_P [OF True] if_P [OF n] .
    moreover have "x = y" using tl unfolding if_P [OF True] if_P [OF n] append_Nil .
    ultimately show ?thesis by (rule conjI)
  next
    case False
    with same have n: "\<not> n \<le> 55" by simp
    have "length (minimal_be_usize m) = length (minimal_be_usize n)"
      using eq False n by (simp add: rlp_head_def)
    then have "minimal_be_usize m = minimal_be_usize n \<and> x = y"
      using tl unfolding if_not_P [OF False] if_not_P [OF n] by (simp only: append_eq_append_conv [OF disjI1])
    then show ?thesis using be_value_minimal [OF assms(3)] be_value_minimal [OF assms(4)] by metis
  qed
qed

lemma rlp_list_inject:
  assumes "rlp_list xs = rlp_list ys" "length (concat xs) < 2 ^ 64" "length (concat ys) < 2 ^ 64"
  shows "concat xs = concat ys"
  using rlp_prefix_inject [OF assms(1) [unfolded rlp_list_def Let_def] _ assms(2,3)] by blast

lemma minimal_be_u128_inject:
  assumes "minimal_be_u128 a = minimal_be_u128 b" "a < 2 ^ 128" "b < 2 ^ 128"
  shows "a = b"
proof -
  have v: "be_value (minimal_be_u128 n) = n" if "n < 2 ^ 128" for n
  proof (cases "n = 0")
    case True
    then show ?thesis by (simp add: minimal_be_u128_def be_value_def)
  next
    case False
    have "n < 256 ^ 16" using that by simp
    with False show ?thesis by (simp only: minimal_be_u128_def if_False be_value_trim be_value_bytes)
  qed
  show ?thesis using v [OF assms(2)] v [OF assms(3)] unfolding assms(1) by (rule trans [OF sym])
qed

lemma length_minimal_be_u128: "length (minimal_be_u128 n) \<le> 16"
  using length_trim [of "be_bytes 16 n"] by (simp add: minimal_be_u128_def)

lemma rlp_number_inject:
  assumes "rlp_bytes (minimal_be_u128 a) @ x = rlp_bytes (minimal_be_u128 b) @ y"
    "a < 2 ^ 128" "b < 2 ^ 128"
  shows "a = b \<and> x = y"
  using rlp_bytes_inject [OF assms(1)] length_minimal_be_u128 [of a] length_minimal_be_u128 [of b]
    minimal_be_u128_inject [OF _ assms(2,3)] by simp

definition tx_wf :: "eip1559_tx \<Rightarrow> bool" where
  "tx_wf t \<longleftrightarrow> e_chain_id t < 2 ^ 64 \<and> e_nonce t < 2 ^ 64 \<and> e_max_priority_fee_per_gas t < 2 ^ 128
     \<and> e_max_fee_per_gas t < 2 ^ 128 \<and> e_gas_limit t < 2 ^ 64 \<and> length (e_to t) = 20
     \<and> e_value t < 2 ^ 128 \<and> length (e_data t) < 2 ^ 63"

lemma length_rlp_bytes: "length (rlp_bytes bs) \<le> length bs + 9"
  using length_minimal_be_usize [of "length bs"] by (simp add: rlp_bytes_def rlp_prefix_def Let_def)

lemma length_rlp_number: "length (rlp_bytes (minimal_be_u128 v)) \<le> 25"
  using length_rlp_bytes [of "minimal_be_u128 v"] length_minimal_be_u128 [of v] by simp

lemma length_rlp_list_Nil: "length (rlp_list []) = 1"
  by (simp add: rlp_list_def rlp_prefix_def)

lemma length_tx_items: "tx_wf t \<Longrightarrow> length (concat (tx_items t)) < 2 ^ 64"
proof -
  assume "tx_wf t"
  then have "length (e_data t) < 2 ^ 63" "length (e_to t) = 20" by (simp_all only: tx_wf_def)
  then have "length (rlp_bytes (e_data t)) < 2 ^ 63 + 9" "length (rlp_bytes (e_to t)) \<le> 29"
    using length_rlp_bytes [of "e_data t"] length_rlp_bytes [of "e_to t"] by linarith+
  moreover have "length (concat (tx_items t)) \<le> 6 * 25 + length (rlp_bytes (e_to t))
      + length (rlp_bytes (e_data t)) + 1"
    using length_rlp_number [of "e_chain_id t"] length_rlp_number [of "e_nonce t"]
      length_rlp_number [of "e_max_priority_fee_per_gas t"] length_rlp_number [of "e_max_fee_per_gas t"]
      length_rlp_number [of "e_gas_limit t"] length_rlp_number [of "e_value t"] length_rlp_list_Nil
    unfolding tx_items_def rlp_u64_def rlp_u128_def concat.simps length_append list.size by linarith
  moreover have "(2 :: nat) ^ 63 + 189 \<le> 2 ^ 64" by simp
  ultimately show ?thesis by linarith
qed

text \<open>
  What the key store signs determines the transaction: two well-formed transactions
  with the same signing payload agree in chain, nonce, fees, gas limit, destination, value and
  calldata, so no signature can be read as that of another transfer.
\<close>

theorem signing_payload_determines_tx:
  assumes "signing_payload s = signing_payload t" "tx_wf s" "tx_wf t"
  shows "s = t"
proof -
  have up: "n < 2 ^ 128" if "n < 2 ^ 64" for n :: nat
    by (rule less_trans [OF that]) simp
  have up': "n < 2 ^ 64" if "n < 2 ^ 63" for n :: nat
    by (rule less_trans [OF that]) simp
  have bounds: "e_chain_id u < 2 ^ 128" "e_nonce u < 2 ^ 128" "e_max_priority_fee_per_gas u < 2 ^ 128"
    "e_max_fee_per_gas u < 2 ^ 128" "e_gas_limit u < 2 ^ 128" "length (e_to u) < 2 ^ 64"
    "e_value u < 2 ^ 128" "length (e_data u) < 2 ^ 64" if "tx_wf u" for u
    using that unfolding tx_wf_def by (blast intro: up up', blast intro: up, blast, blast, blast intro: up, simp, blast, blast intro: up')
  note s = bounds [OF assms(2)] and t = bounds [OF assms(3)]
  have "concat (tx_items s) = concat (tx_items t)"
    using rlp_list_inject [OF _ length_tx_items [OF assms(2)] length_tx_items [OF assms(3)]] assms(1)
    by (simp add: signing_payload_def)
  note c0 = this [unfolded tx_items_def rlp_u64_def rlp_u128_def concat.simps]
  note c1 = rlp_number_inject [OF c0 s(1) t(1)]
  note c2 = rlp_number_inject [OF conjunct2 [OF c1] s(2) t(2)]
  note c3 = rlp_number_inject [OF conjunct2 [OF c2] s(3) t(3)]
  note c4 = rlp_number_inject [OF conjunct2 [OF c3] s(4) t(4)]
  note c5 = rlp_number_inject [OF conjunct2 [OF c4] s(5) t(5)]
  note c6 = rlp_bytes_inject [OF conjunct2 [OF c5] s(6) t(6)]
  note c7 = rlp_number_inject [OF conjunct2 [OF c6] s(7) t(7)]
  note c8 = rlp_bytes_inject [OF conjunct2 [OF c7] s(8) t(8)]
  show ?thesis
    by (rule eip1559_tx.equality)
      (simp_all add: c1 c2 c3 c4 c5 c6 c7 c8)
qed

text \<open>Two transactions that differ in their nonce only, with payloads that differ.\<close>

definition tx_sample :: "nat \<Rightarrow> eip1559_tx" where
  "tx_sample n = \<lparr>e_chain_id = 1, e_nonce = n, e_max_priority_fee_per_gas = 2, e_max_fee_per_gas = 1000,
     e_gas_limit = 21000, e_to = replicate 20 7, e_value = 255, e_data = []\<rparr>"

lemma tx_sample_wf: "n < 2 ^ 64 \<Longrightarrow> tx_wf (tx_sample n)"
  by (simp add: tx_wf_def tx_sample_def)

theorem signing_payload_determines_tx_witness:
  "tx_wf (tx_sample 3) \<and> tx_wf (tx_sample 4) \<and> signing_payload (tx_sample 3) \<noteq> signing_payload (tx_sample 4)"
proof -
  have wf: "tx_wf (tx_sample 3)" "tx_wf (tx_sample 4)" by (simp_all add: tx_sample_wf)
  have "tx_sample 3 \<noteq> tx_sample 4" by (simp add: tx_sample_def)
  then have "signing_payload (tx_sample 3) \<noteq> signing_payload (tx_sample 4)"
    using signing_payload_determines_tx [OF _ wf] by blast
  with wf show ?thesis by blast
qed

subsection \<open>Which nonce a broadcast uses\<close>

lemma pending_of_mark:
  "pending_of (mark_pending chain n m) c = (if c = chain then pending_of m chain @ [n] else pending_of m c)"
  by (simp add: pending_of_def mark_pending_def hm_get_put)

lemma lowest_pending_mark:
  "lowest_pending chain (mark_pending chain n m) =
     (case lowest_pending chain m of Some k \<Rightarrow> Some k | None \<Rightarrow> Some n)"
  by (cases "pending_of m chain") (simp_all add: lowest_pending_def pending_of_mark)

lemma lowest_pending_mark_other:
  "c \<noteq> chain \<Longrightarrow> lowest_pending c (mark_pending chain n m) = lowest_pending c m"
  by (simp add: lowest_pending_def pending_of_mark)

lemma reserve_known:
  "lowest_pending chain m = Some n \<Longrightarrow>
     reserve_broadcast_nonce addr rpc chain (m, w) = (Inr n, (mark_pending chain n m, w))"
  by (simp add: reserve_broadcast_nonce_def)

lemma broadcast_nonce:
  assumes "broadcast_transaction keccak sign addr rpc tx chain (m, w) = (Inr b, (m', w'))"
  shows "lowest_pending chain m' = Some (br_nonce b)
     \<and> (lowest_pending chain m = None \<or> lowest_pending chain m = Some (br_nonce b))"
proof (cases "lowest_pending chain m")
  case None
  then show ?thesis
    using assms
    by (auto simp: broadcast_transaction_def then_do_def reserve_broadcast_nonce_def Let_def
        lowest_pending_mark map_ok_def map_err_def split: prod.splits sum.splits)
next
  case (Some n)
  then show ?thesis
    using assms
    by (auto simp: broadcast_transaction_def then_do_def reserve_known Let_def
        lowest_pending_mark map_ok_def map_err_def split: prod.splits sum.splits)
qed

text \<open>
  A chain's second broadcast reuses the nonce of its first, whatever transactions are
  sent and whatever the node answers: \<^verbatim>\<open>reserve_broadcast_nonce\<close> takes the lowest pending nonce
  before it asks the node, and a successful broadcast leaves its nonce pending; only
  \<^verbatim>\<open>NonceManager::confirm\<close>, which the service never calls, would remove it.
\<close>

theorem broadcast_reuses_nonce:
  assumes "broadcast_transaction keccak sign addr rpc tx chain s = (Inr b, s')"
    and "broadcast_transaction keccak sign addr rpc tx' chain s' = (Inr b', s'')"
  shows "br_nonce b' = br_nonce b"
  using broadcast_nonce [of keccak sign addr rpc tx chain "fst s" "snd s" b "fst s'" "snd s'"]
    broadcast_nonce [of keccak sign addr rpc tx' chain "fst s'" "snd s'" b' "fst s''" "snd s''"] assms
  by auto

definition nonce_rpc :: "(nat, string) rpc_client" where
  "nonce_rpc = \<lparr>rp_transaction_count = (\<lambda>_ n. (Inr n, n)), rp_send_raw = (\<lambda>_ n. (Inr ''0x'', n + 1))\<rparr>"

definition nonce_tx :: tx_spec where
  "nonce_tx = \<lparr>tx_chain_id = 1, tx_to = ''0x0707070707070707070707070707070707070707'', tx_value = ''0x1'',
     tx_data = ''0x'', tx_gas_limit = 21000, tx_max_fee_per_gas = ''0x2'',
     tx_max_priority_fee_per_gas = ''0x1''\<rparr>"

definition nonce_broadcast ::
  "nonce_manager \<times> nat \<Rightarrow> (string broadcast_error + broadcast_result) \<times> (nonce_manager \<times> nat)" where
  "nonce_broadcast =
     broadcast_transaction (\<lambda>_. []) (\<lambda>_. Inr \<lparr>sg_r = [1], sg_s = [2], sg_y_parity = 0\<rparr>) ''0x1'' nonce_rpc
       nonce_tx 1"

lemma nonce_spec:
  "\<exists>t. from_spec nonce_tx n 1 = (Inr t :: 'r broadcast_error + eip1559_tx)"
proof -
  have b: "parse_hex_u128 ''0x1'' = (Inr 1 :: 'r broadcast_error + nat)"
    "parse_hex_u128 ''0x2'' = (Inr 2 :: 'r broadcast_error + nat)"
    by (simp_all add: parse_hex_u128_def without_0x_def strip_prefix_def starts_with_def from_hex_def hex_value_def ok_or_def Let_def)
  have "\<exists>a. parse_address (tx_to nonce_tx) = (Inr a :: 'r broadcast_error + u8 list)"
    by (simp add: nonce_tx_def parse_address_def parse_hex_bytes_def without_0x_def strip_prefix_def starts_with_def hex_value_def ok_or_def
        and_then_def Let_def)
  then obtain a where a: "parse_address (tx_to nonce_tx) = (Inr a :: 'r broadcast_error + u8 list)" by blast
  have d: "parse_hex_bytes ''0x'' = (Inr [] :: 'r broadcast_error + u8 list)"
    by (simp add: parse_hex_bytes_def without_0x_def strip_prefix_def starts_with_def)
  from a show ?thesis by (simp add: from_spec_def nonce_tx_def b d and_then_def)
qed

lemma nonce_broadcast_run:
  assumes "lowest_pending 1 m = Some n \<or> lowest_pending 1 m = None \<and> n = w"
  shows "\<exists>b s. nonce_broadcast (m, w) = (Inr b, s)"
  using assms nonce_spec [where 'r = string and n = n]
  by (auto simp: nonce_broadcast_def broadcast_transaction_def then_do_def reserve_broadcast_nonce_def
      sign_eip1559_transaction_def nonce_rpc_def and_then_def map_ok_def map_err_def Let_def)

theorem broadcast_reuses_nonce_witness:
  "\<exists>b b' s s'. nonce_broadcast (nonce_manager_new, 5) = (Inr b, s) \<and> nonce_broadcast s = (Inr b', s')
     \<and> br_nonce b' = br_nonce b"
proof -
  have "lowest_pending 1 nonce_manager_new = None"
    by (simp add: lowest_pending_def pending_of_def nonce_manager_new_def)
  then obtain b s where 1: "nonce_broadcast (nonce_manager_new, 5) = (Inr b, s)"
    using nonce_broadcast_run [of nonce_manager_new 5 5] by blast
  then have "lowest_pending 1 (fst s) = Some (br_nonce b)"
    unfolding nonce_broadcast_def
    using broadcast_nonce [where m = nonce_manager_new and w = 5 and m' = "fst s" and w' = "snd s" and b = b]
    unfolding prod.collapse by blast
  then obtain b' s' where 2: "nonce_broadcast s = (Inr b', s')"
    using nonce_broadcast_run [of "fst s" "br_nonce b" "snd s"] by auto
  have "br_nonce b' = br_nonce b"
    using 1 2 unfolding nonce_broadcast_def by (rule broadcast_reuses_nonce)
  with 1 2 show ?thesis by blast
qed

end
