(* ===== verification/Guardian_Policy.thy ===== *)
theory Guardian_Policy
  imports Guardian_Tx Decimal_Instance
begin

text \<open>
  The policy of the wallet guardian (\<^verbatim>\<open>connectors/execution/wallet-guardian/src/policy\<close>): the
  destination and contract-call allow list (\<^verbatim>\<open>allowlist.rs\<close>), the spending limits
  (\<^verbatim>\<open>limits.rs\<close>), the simulation with its local checks (\<^verbatim>\<open>simulation.rs\<close>) and the chain of
  rules (\<^verbatim>\<open>engine.rs\<close>). A decimal sum that overflows panics, and so does a slice of the calldata
  that ends inside a character: both are \<open>None\<close>. The lemmas give the exact condition under which
  a transaction is allowed, and when it needs a human.
\<close>

subsection \<open>Steps of the trace (proposal.rs)\<close>

record policy_step =
  ps_rule :: string
  ps_result :: string
  ps_detail :: message

subsection \<open>Allow list (allowlist.rs)\<close>

record allow_list =
  al_allowed :: "string list"
  al_contract_calls :: "(string \<times> string) list"

definition allow_list_new :: allow_list where
  "allow_list_new = \<lparr>al_allowed = [], al_contract_calls = []\<rparr>"

definition with_allowed_contract_calls :: "(string \<times> string) list \<Rightarrow> allow_list \<Rightarrow> allow_list" where
  "with_allowed_contract_calls calls a =
     a\<lparr>al_contract_calls := fold (\<lambda>(c, s). List.insert (to_lower c, to_lower s)) calls (al_contract_calls a)\<rparr>"

definition with_allowed_destinations :: "string list \<Rightarrow> allow_list \<Rightarrow> allow_list" where
  "with_allowed_destinations ds a =
     a\<lparr>al_allowed := fold (\<lambda>d. List.insert (to_lower d)) ds (al_allowed a)\<rparr>"

definition destination_allowed :: "allow_list \<Rightarrow> string \<Rightarrow> bool" where
  "destination_allowed a d \<longleftrightarrow> to_lower d \<in> set (al_allowed a)"

text \<open>\<^verbatim>\<open>s[..n]\<close> panics when \<open>n\<close> is past the end or inside a character.\<close>

definition is_char_boundary :: "string \<Rightarrow> nat \<Rightarrow> bool" where
  "is_char_boundary s n \<longleftrightarrow>
     n = length s \<or> n < length s \<and> \<not> (128 \<le> (of_char (s ! n) :: nat) \<and> (of_char (s ! n) :: nat) < 192)"

definition str_upto :: "nat \<Rightarrow> string \<Rightarrow> string option" where
  "str_upto n s = (if is_char_boundary s n then Some (take n s) else None)"

definition is_allowed_transaction :: "allow_list \<Rightarrow> tx_spec \<Rightarrow> bool option" where
  "is_allowed_transaction a tx =
     (if eq_ignore_ascii_case (tx_data tx) ''0x'' then Some (destination_allowed a (tx_to tx))
      else if length (tx_data tx) < 10 \<or> \<not> starts_with ''0x'' (tx_data tx) then Some False
      else map_option (\<lambda>sel. (to_lower (tx_to tx), to_lower sel) \<in> set (al_contract_calls a))
             (str_upto 10 (tx_data tx)))"

subsection \<open>Limits (limits.rs)\<close>

record limit_tracker =
  lt_per_tx_max_usd :: decimal
  lt_daily_max_usd :: decimal
  lt_per_destination_daily :: "(string, decimal) hash_map"
  lt_daily_spent :: decimal
  lt_per_destination_spent :: "(string, decimal) hash_map"

definition limit_tracker_new :: "decimal \<Rightarrow> decimal \<Rightarrow> limit_tracker" where
  "limit_tracker_new per_tx daily =
     \<lparr>lt_per_tx_max_usd = per_tx, lt_daily_max_usd = daily, lt_per_destination_daily = [],
      lt_daily_spent = 0, lt_per_destination_spent = []\<rparr>"

definition get_or :: "'v \<Rightarrow> 'v option \<Rightarrow> 'v" where
  "get_or d v = (case v of None \<Rightarrow> d | Some x \<Rightarrow> x)"

definition limit_deny :: "message \<Rightarrow> policy_step" where
  "limit_deny m = \<lparr>ps_rule = ''limits'', ps_result = ''deny'', ps_detail = m\<rparr>"

text \<open>The inner option is the code's, which is always \<^verbatim>\<open>Some\<close>; the outer one is a panic.\<close>

definition check_limits :: "dec_ops \<Rightarrow> limit_tracker \<Rightarrow> decimal \<Rightarrow> string \<Rightarrow> policy_step option option" where
  "check_limits ops l v dest =
     (if v > lt_per_tx_max_usd l
      then Some (Some (limit_deny (Fmt ''tx value ${} exceeds per-tx cap ${}'' [FDec v, FDec (lt_per_tx_max_usd l)])))
      else Option.bind (dec_add ops (lt_daily_spent l) v) (\<lambda>daily.
        if daily > lt_daily_max_usd l
        then Some (Some (limit_deny (Fmt ''daily limit would be exceeded: {} + {} > {}''
               [FDec (lt_daily_spent l), FDec v, FDec (lt_daily_max_usd l)])))
        else
          let dest_limit = get_or (lt_daily_max_usd l) (hm_get (lt_per_destination_daily l) dest);
              dest_spent = get_or 0 (hm_get (lt_per_destination_spent l) dest)
          in Option.bind (dec_add ops dest_spent v) (\<lambda>total.
               if total > dest_limit
               then Some (Some (limit_deny (Fmt ''destination daily limit exceeded for {}'' [FStr dest])))
               else Some (Some \<lparr>ps_rule = ''limits'', ps_result = ''allow'',
                      ps_detail = Fmt ''within limits: ${} of daily ${}'' [FDec daily, FDec (lt_daily_max_usd l)]\<rparr>))))"

definition limits_record :: "dec_ops \<Rightarrow> decimal \<Rightarrow> string \<Rightarrow> limit_tracker \<Rightarrow> limit_tracker option" where
  "limits_record ops v dest l =
     Option.bind (dec_add ops (lt_daily_spent l) v) (\<lambda>d.
       map_option (\<lambda>s. l\<lparr>lt_daily_spent := d,
           lt_per_destination_spent := hm_put dest s (lt_per_destination_spent l)\<rparr>)
         (dec_add ops (get_or 0 (hm_get (lt_per_destination_spent l) dest)) v))"

definition seed_usage :: "decimal \<Rightarrow> string \<Rightarrow> decimal \<Rightarrow> limit_tracker \<Rightarrow> limit_tracker" where
  "seed_usage daily dest spent l =
     l\<lparr>lt_daily_spent := daily, lt_per_destination_spent := hm_put dest spent (lt_per_destination_spent l)\<rparr>"

subsection \<open>Simulation (simulation.rs)\<close>

record simulation_result =
  sr_success :: bool
  sr_gas_used :: "nat option"
  sr_error :: "message option"
  sr_value_delta_usd :: decimal

definition sim_failed :: "message \<Rightarrow> simulation_result" where
  "sim_failed e = \<lparr>sr_success = False, sr_gas_used = None, sr_error = Some e, sr_value_delta_usd = 0\<rparr>"

definition sim_passed :: "nat \<Rightarrow> decimal \<Rightarrow> simulation_result" where
  "sim_passed gas v = \<lparr>sr_success = True, sr_gas_used = Some gas, sr_error = None, sr_value_delta_usd = v\<rparr>"

definition local_validate :: "tx_spec \<Rightarrow> nat \<Rightarrow> simulation_result option" where
  "local_validate tx chain =
     (if tx_chain_id tx \<noteq> chain
      then Some (sim_failed (Lit ''transaction chain does not match simulation chain''))
      else if \<not> starts_with ''0x'' (tx_to tx) \<or> length (tx_to tx) \<noteq> 42
      then Some (sim_failed (Lit ''invalid destination address''))
      else if \<not> starts_with ''0x'' (tx_data tx)
      then Some (sim_failed (Lit ''calldata must be 0x-prefixed hex''))
      else if tx_gas_limit tx = 0 then Some (sim_failed (Lit ''gas limit is zero''))
      else if eq_ignore_ascii_case (tx_data tx) ''0xdead'' \<or> contains ''revert'' (to_lower (tx_data tx))
      then Some (sim_failed (Lit ''simulation_failed: explicit revert marker''))
      else None)"

text \<open>The node's \<^verbatim>\<open>eth_call\<close> is a function of its parameters: sender, destination, value, data
  and gas.\<close>

record eth_call_params =
  ec_from :: string
  ec_to :: string
  ec_value :: string
  ec_data :: string
  ec_gas_limit :: nat

record rpc_sim_result =
  rs_gas_used :: nat
  rs_success :: bool
  rs_return_data :: string

definition rpc_simulate :: "(eth_call_params \<Rightarrow> string + string) \<Rightarrow> tx_spec \<Rightarrow> string + rpc_sim_result" where
  "rpc_simulate eth_call tx =
     and_then (eth_call \<lparr>ec_from = ''0x0000000000000000000000000000000000000000'', ec_to = tx_to tx,
         ec_value = tx_value tx, ec_data = tx_data tx, ec_gas_limit = tx_gas_limit tx\<rparr>) (\<lambda>r.
       Inr \<lparr>rs_gas_used = tx_gas_limit tx, rs_success = \<not> contains ''0x08c379a0'' r, rs_return_data = r\<rparr>)"

definition simulate_async ::
  "tx_spec \<Rightarrow> nat \<Rightarrow> decimal \<Rightarrow> (eth_call_params \<Rightarrow> string + string) option \<Rightarrow> simulation_result" where
  "simulate_async tx chain v rpc =
     (case local_validate tx chain of
        Some early \<Rightarrow> early
      | None \<Rightarrow>
          (case rpc of
             None \<Rightarrow> sim_passed 21000 v
           | Some eth_call \<Rightarrow>
               (case rpc_simulate eth_call tx of
                  Inl e \<Rightarrow> sim_failed (Fmt ''RPC simulation failed: {}'' [FStr e])
                | Inr r \<Rightarrow>
                    \<lparr>sr_success = rs_success r, sr_gas_used = Some (rs_gas_used r),
                     sr_error = (if rs_success r then None
                       else Some (Lit ''simulation_failed: eth_call returned revert payload'')),
                     sr_value_delta_usd = (if rs_success r then v else 0)\<rparr>)))"

definition simulate :: "tx_spec \<Rightarrow> nat \<Rightarrow> decimal \<Rightarrow> simulation_result" where
  "simulate tx chain v =
     (case local_validate tx chain of
        Some early \<Rightarrow> early
      | None \<Rightarrow>
          if tx_data tx = ''0xdead'' \<or> starts_with ''0x08c379a0'' (tx_data tx)
          then sim_failed (Lit ''revert detected'') else sim_passed 21000 v)"

subsection \<open>The rule chain (engine.rs)\<close>

record policy_config =
  pf_max_auto_approve_usd :: decimal
  pf_max_gas_price_gwei :: nat
  pf_allowed_chains :: "nat list"
  pf_per_tx_max_usd :: decimal
  pf_daily_max_usd :: decimal

definition policy_config_default :: policy_config where
  "policy_config_default =
     \<lparr>pf_max_auto_approve_usd = 1 / 10, pf_max_gas_price_gwei = 100, pf_allowed_chains = [1, 137, 42161],
      pf_per_tx_max_usd = 1000, pf_daily_max_usd = 5000\<rparr>"

record policy_result =
  pr_allowed :: bool
  pr_requires_human :: bool
  pr_trace :: "policy_step list"

record policy_engine =
  pe_allowlist :: allow_list
  pe_config :: policy_config
  pe_limits :: limit_tracker

definition policy_engine_new :: "policy_config \<Rightarrow> policy_engine" where
  "policy_engine_new c =
     \<lparr>pe_allowlist = allow_list_new, pe_config = c,
      pe_limits = limit_tracker_new (pf_per_tx_max_usd c) (pf_daily_max_usd c)\<rparr>"

definition parse_hex_quantity :: "string \<Rightarrow> nat option" where
  "parse_hex_quantity v =
     Option.bind (strip_prefix ''0x'' v) (\<lambda>digits.
       if digits = [] \<or> (1 < length digits \<and> starts_with ''0'' digits) \<or> \<not> list_all is_ascii_hexdigit digits
       then None else from_hex 128 digits)"

definition tx_has_value :: "tx_spec \<Rightarrow> bool" where
  "tx_has_value tx = (case parse_hex_quantity (tx_value tx) of None \<Rightarrow> False | Some v \<Rightarrow> 0 < v)"

definition step_of :: "string \<Rightarrow> string \<Rightarrow> message \<Rightarrow> policy_step" where
  "step_of rule result detail = \<lparr>ps_rule = rule, ps_result = result, ps_detail = detail\<rparr>"

definition denied_with :: "policy_step list \<Rightarrow> policy_step \<Rightarrow> policy_result" where
  "denied_with trace s = \<lparr>pr_allowed = False, pr_requires_human = False, pr_trace = trace @ [s]\<rparr>"

definition routing_step :: "policy_config \<Rightarrow> decimal \<Rightarrow> bool \<Rightarrow> nat \<Rightarrow> bool \<times> policy_step" where
  "routing_step c delta is_withdrawal tier =
     (let human = is_withdrawal \<or> delta > pf_max_auto_approve_usd c \<or> tier < 4
      in (human,
          if human then
            step_of ''approval_routing'' ''pending_human''
              (if is_withdrawal then Lit ''withdrawals always require human approval''
               else if tier < 4 then Lit ''auto approval requires tier 4 or 5''
               else Fmt ''value {} exceeds auto-approve threshold {}'' [FDec delta, FDec (pf_max_auto_approve_usd c)])
          else step_of ''approval_routing'' ''auto_approved'' (Lit ''within auto-approval limits'')))"

definition gas_check :: "policy_config \<Rightarrow> tx_spec \<Rightarrow> message + message" where
  "gas_check c tx =
     (case parse_hex_quantity (tx_max_fee_per_gas tx) of
        None \<Rightarrow> Inl (Lit ''max fee is not a canonical hexadecimal quantity'')
      | Some max_fee \<Rightarrow>
          (case parse_hex_quantity (tx_max_priority_fee_per_gas tx) of
             None \<Rightarrow> Inl (Lit ''priority fee is not a canonical hexadecimal quantity'')
           | Some priority_fee \<Rightarrow>
               if priority_fee > max_fee then Inl (Lit ''priority fee exceeds max fee'')
               else let gwei = max_fee div 1000000000
                 in if gwei > pf_max_gas_price_gwei c
                    then Inl (Fmt ''max fee {} gwei exceeds limit {} gwei'' [FNat gwei, FNat (pf_max_gas_price_gwei c)])
                    else Inr (Lit ''gas price within limits'')))"

text \<open>Rules 4 and 5: routing, then the gas check, which can still deny.\<close>

definition route_and_gas ::
  "policy_config \<Rightarrow> tx_spec \<Rightarrow> decimal \<Rightarrow> bool \<Rightarrow> nat \<Rightarrow> policy_step list \<Rightarrow> policy_result" where
  "route_and_gas c tx delta is_withdrawal tier trace =
     (let (human, routing) = routing_step c delta is_withdrawal tier
      in case gas_check c tx of
           Inl m \<Rightarrow> denied_with (trace @ [routing]) (step_of ''gas'' ''deny'' m)
         | Inr m \<Rightarrow> \<lparr>pr_allowed = True, pr_requires_human = human,
                     pr_trace = trace @ [routing, step_of ''gas'' ''allow'' m]\<rparr>)"

definition evaluate_with_simulation ::
  "dec_ops \<Rightarrow> policy_engine \<Rightarrow> tx_spec \<Rightarrow> simulation_result \<Rightarrow> bool \<Rightarrow> nat \<Rightarrow> policy_result option" where
  "evaluate_with_simulation ops e tx sim is_withdrawal tier =
     (let c = pe_config e; delta = sr_value_delta_usd sim in
      if tx_chain_id tx \<notin> set (pf_allowed_chains c)
      then Some (denied_with [] (step_of ''chain'' ''deny'' (Fmt ''chain {} not in allowed chains'' [FNat (tx_chain_id tx)])))
      else
      let t1 = [step_of ''chain'' ''allow'' (Fmt ''chain {} allowed'' [FNat (tx_chain_id tx)])] in
      Option.bind (is_allowed_transaction (pe_allowlist e) tx) (\<lambda>ok.
      if \<not> ok
      then Some (denied_with t1 (step_of ''allowlist'' ''deny'' (Fmt ''destination {} not in allowlist'' [FStr (tx_to tx)])))
      else
      let t2 = t1 @ [step_of ''allowlist'' ''allow'' (Lit ''destination allowed'')] in
      if \<not> sr_success sim
      then Some (denied_with t2 (step_of ''simulation'' ''deny'' (get_or (Lit ''simulation_failed'') (sr_error sim))))
      else
      let t3 = t2 @ [step_of ''simulation'' ''allow'' (Fmt ''simulation passed; gas_used={}; value_delta_usd={}''
                       [FNat (get_or 0 (sr_gas_used sim)), FDec delta])] in
      if tx_has_value tx \<and> delta \<le> 0
      then Some (denied_with t3 (step_of ''limits'' ''deny'' (Lit ''stale or unavailable price for non-zero value transfer'')))
      else
      Option.bind (check_limits ops (pe_limits e) delta (tx_to tx)) (\<lambda>checked.
      let limit_step = get_or (limit_deny (Lit ''limits unavailable'')) checked in
      if ps_result limit_step = ''deny'' then Some (denied_with t3 limit_step)
      else Some (route_and_gas c tx delta is_withdrawal tier (t3 @ [limit_step])))))"

definition policy_evaluate ::
  "dec_ops \<Rightarrow> policy_engine \<Rightarrow> tx_spec \<Rightarrow> decimal \<Rightarrow> bool \<Rightarrow> nat \<Rightarrow> policy_result option" where
  "policy_evaluate ops e tx v is_withdrawal tier =
     evaluate_with_simulation ops e tx (simulate tx (tx_chain_id tx) v) is_withdrawal tier"

subsection \<open>When a transaction is allowed\<close>

definition within_limits :: "dec_ops \<Rightarrow> limit_tracker \<Rightarrow> decimal \<Rightarrow> string \<Rightarrow> bool" where
  "within_limits ops l v dest \<longleftrightarrow>
     v \<le> lt_per_tx_max_usd l \<and>
     (\<exists>d s. dec_add ops (lt_daily_spent l) v = Some d \<and> d \<le> lt_daily_max_usd l \<and>
       dec_add ops (get_or 0 (hm_get (lt_per_destination_spent l) dest)) v = Some s \<and>
       s \<le> get_or (lt_daily_max_usd l) (hm_get (lt_per_destination_daily l) dest))"

definition fees_acceptable :: "policy_config \<Rightarrow> tx_spec \<Rightarrow> bool" where
  "fees_acceptable c tx \<longleftrightarrow>
     (\<exists>m p. parse_hex_quantity (tx_max_fee_per_gas tx) = Some m \<and>
       parse_hex_quantity (tx_max_priority_fee_per_gas tx) = Some p \<and> p \<le> m \<and>
       m div 1000000000 \<le> pf_max_gas_price_gwei c)"

lemma check_limits_allow:
  assumes "check_limits ops l v dest = Some r"
  shows "\<exists>s. r = Some s \<and> (ps_result s \<noteq> ''deny'' \<longleftrightarrow> within_limits ops l v dest)"
  using assms
  by (auto simp: check_limits_def within_limits_def limit_deny_def Let_def bind_eq_Some_conv split: if_splits)

lemma gas_check_ok: "(\<exists>m. gas_check c tx = Inr m) \<longleftrightarrow> fees_acceptable c tx"
  by (auto simp: gas_check_def fees_acceptable_def Let_def split: option.splits)

lemma route_and_gas_result:
  "pr_allowed (route_and_gas c tx delta w tier t) \<longleftrightarrow> fees_acceptable c tx"
  "pr_requires_human (route_and_gas c tx delta w tier t) \<longleftrightarrow>
     fees_acceptable c tx \<and> (w \<or> delta > pf_max_auto_approve_usd c \<or> tier < 4)"
  using gas_check_ok [of c tx]
  by (auto simp: route_and_gas_def routing_step_def denied_with_def Let_def split: sum.splits)

lemma denied_with_sel [simp]:
  "pr_allowed (denied_with t s) = False" "pr_requires_human (denied_with t s) = False"
  by (simp_all add: denied_with_def)

text \<open>The trace up to the limits, and the rest of the chain after it.\<close>

definition passed_steps :: "tx_spec \<Rightarrow> simulation_result \<Rightarrow> policy_step list" where
  "passed_steps tx sim =
     [step_of ''chain'' ''allow'' (Fmt ''chain {} allowed'' [FNat (tx_chain_id tx)]),
      step_of ''allowlist'' ''allow'' (Lit ''destination allowed''),
      step_of ''simulation'' ''allow'' (Fmt ''simulation passed; gas_used={}; value_delta_usd={}''
        [FNat (get_or 0 (sr_gas_used sim)), FDec (sr_value_delta_usd sim)])]"

lemma evaluate_passed:
  assumes "tx_chain_id tx \<in> set (pf_allowed_chains (pe_config e))"
    "is_allowed_transaction (pe_allowlist e) tx = Some True" "sr_success sim"
    "\<not> (tx_has_value tx \<and> sr_value_delta_usd sim \<le> 0)"
    "check_limits ops (pe_limits e) (sr_value_delta_usd sim) (tx_to tx) = Some (Some s)"
  shows "evaluate_with_simulation ops e tx sim w tier =
     Some (if ps_result s = ''deny'' then denied_with (passed_steps tx sim) s
       else route_and_gas (pe_config e) tx (sr_value_delta_usd sim) w tier (passed_steps tx sim @ [s]))"
proof -
  have g: "get_or d (Some s) = s" for d by (simp add: get_or_def)
  show ?thesis
    unfolding evaluate_with_simulation_def Let_def assms(2,5) bind.bind_lunit g
      if_not_P [OF assms(4)] passed_steps_def
    using assms(1,3) by (simp split del: if_split) (simp split: if_split)
qed

lemma evaluate_rejected:
  assumes "evaluate_with_simulation ops e tx sim w tier = Some r"
    "\<not> (tx_chain_id tx \<in> set (pf_allowed_chains (pe_config e))
      \<and> is_allowed_transaction (pe_allowlist e) tx = Some True \<and> sr_success sim
      \<and> \<not> (tx_has_value tx \<and> sr_value_delta_usd sim \<le> 0))"
  shows "\<not> pr_allowed r \<and> \<not> pr_requires_human r"
  using assms by (auto simp: evaluate_with_simulation_def Let_def bind_eq_Some_conv split: if_splits)

lemma evaluate_limits:
  assumes "evaluate_with_simulation ops e tx sim w tier = Some r"
    "tx_chain_id tx \<in> set (pf_allowed_chains (pe_config e))"
    "is_allowed_transaction (pe_allowlist e) tx = Some True" "sr_success sim"
    "\<not> (tx_has_value tx \<and> sr_value_delta_usd sim \<le> 0)"
  obtains s where "check_limits ops (pe_limits e) (sr_value_delta_usd sim) (tx_to tx) = Some (Some s)"
    "ps_result s \<noteq> ''deny'' \<longleftrightarrow> within_limits ops (pe_limits e) (sr_value_delta_usd sim) (tx_to tx)"
proof -
  obtain checked where c: "check_limits ops (pe_limits e) (sr_value_delta_usd sim) (tx_to tx) = Some checked"
    using assms by (auto simp: evaluate_with_simulation_def Let_def bind_eq_Some_conv)
  with check_limits_allow [OF c] that show thesis by blast
qed

lemma policy_decides:
  assumes "evaluate_with_simulation ops e tx sim is_withdrawal tier = Some r"
  shows "(pr_allowed r \<longleftrightarrow>
      tx_chain_id tx \<in> set (pf_allowed_chains (pe_config e))
      \<and> is_allowed_transaction (pe_allowlist e) tx = Some True
      \<and> sr_success sim
      \<and> \<not> (tx_has_value tx \<and> sr_value_delta_usd sim \<le> 0)
      \<and> within_limits ops (pe_limits e) (sr_value_delta_usd sim) (tx_to tx)
      \<and> fees_acceptable (pe_config e) tx)
    \<and> (pr_requires_human r \<longleftrightarrow>
      pr_allowed r \<and> (is_withdrawal \<or> sr_value_delta_usd sim > pf_max_auto_approve_usd (pe_config e) \<or> tier < 4))"
proof (cases "tx_chain_id tx \<in> set (pf_allowed_chains (pe_config e))
    \<and> is_allowed_transaction (pe_allowlist e) tx = Some True \<and> sr_success sim
    \<and> \<not> (tx_has_value tx \<and> sr_value_delta_usd sim \<le> 0)")
  case False
  with evaluate_rejected [OF assms] show ?thesis by blast
next
  case True
  then have pre: "tx_chain_id tx \<in> set (pf_allowed_chains (pe_config e))"
    "is_allowed_transaction (pe_allowlist e) tx = Some True" "sr_success sim"
    "\<not> (tx_has_value tx \<and> sr_value_delta_usd sim \<le> 0)" by blast+
  obtain s where c: "check_limits ops (pe_limits e) (sr_value_delta_usd sim) (tx_to tx) = Some (Some s)"
    and w: "ps_result s \<noteq> ''deny'' \<longleftrightarrow> within_limits ops (pe_limits e) (sr_value_delta_usd sim) (tx_to tx)"
    by (rule evaluate_limits [OF assms pre])
  note r = assms [unfolded evaluate_passed [OF pre c] option.inject, symmetric]
  show ?thesis
  proof (cases "ps_result s = ''deny''")
    case True
    with w show ?thesis unfolding r by simp
  next
    case False
    with w have "within_limits ops (pe_limits e) (sr_value_delta_usd sim) (tx_to tx)" by blast
    with pre show ?thesis unfolding r if_not_P [OF False] route_and_gas_result by blast
  qed
qed

text \<open>
  What the guardian's policy decides, as one condition: unless a decimal overflows, a
  transaction is allowed exactly when its chain and its destination or contract call are on the
  lists, its simulation succeeded, its value has a price if it moves any, the spending limits hold
  and both fees are canonical, ordered and below the cap; and an allowed transaction goes to a
  human exactly when it is a withdrawal, is above the threshold or comes from a tier below 4.
\<close>

theorem policy_decision:
  assumes "evaluate_with_simulation ops e tx sim is_withdrawal tier = Some r"
  shows "(pr_allowed r \<longleftrightarrow>
      tx_chain_id tx \<in> set (pf_allowed_chains (pe_config e))
      \<and> is_allowed_transaction (pe_allowlist e) tx = Some True
      \<and> sr_success sim
      \<and> \<not> (tx_has_value tx \<and> sr_value_delta_usd sim \<le> 0)
      \<and> within_limits ops (pe_limits e) (sr_value_delta_usd sim) (tx_to tx)
      \<and> fees_acceptable (pe_config e) tx)
    \<and> (pr_requires_human r \<longleftrightarrow>
      pr_allowed r \<and> (is_withdrawal \<or> sr_value_delta_usd sim > pf_max_auto_approve_usd (pe_config e) \<or> tier < 4))"
  using assms by (rule policy_decides)

lemma sim_passed_sel [simp]: "sr_success (sim_passed gas v)" "sr_value_delta_usd (sim_passed gas v) = v"
  by (simp_all add: sim_passed_def)

text \<open>A payment of 2 USD to a listed address on chain 1.\<close>

definition policy_sample :: policy_engine where
  "policy_sample = (policy_engine_new policy_config_default)\<lparr>pe_allowlist :=
     with_allowed_destinations [''0xAAAAAAAAAAAAAAAAAAAAAAAAAAAAAAAAAAAAAAAA''] allow_list_new\<rparr>"

definition policy_sample_tx :: tx_spec where
  "policy_sample_tx = \<lparr>tx_chain_id = 1, tx_to = ''0xaaaaaaaaaaaaaaaaaaaaaaaaaaaaaaaaaaaaaaaa'',
     tx_value = ''0x10'', tx_data = ''0x'', tx_gas_limit = 21000, tx_max_fee_per_gas = ''0x77359400'',
     tx_max_priority_fee_per_gas = ''0x1''\<rparr>"

lemma policy_sample_strings:
  "eq_ignore_ascii_case ''0x'' ''0x''" "\<not> eq_ignore_ascii_case ''0x'' ''0xdead''"
  "\<not> contains ''revert'' (to_lower ''0x'')"
  "destination_allowed (with_allowed_destinations [''0xAAAAAAAAAAAAAAAAAAAAAAAAAAAAAAAAAAAAAAAA''] allow_list_new)
     ''0xaaaaaaaaaaaaaaaaaaaaaaaaaaaaaaaaaaaaaaaa''"
  by code_simp+

lemma policy_sample_lists:
  "tx_chain_id policy_sample_tx \<in> set (pf_allowed_chains (pe_config policy_sample))"
  "is_allowed_transaction (pe_allowlist policy_sample) policy_sample_tx = Some True"
  "local_validate policy_sample_tx (tx_chain_id policy_sample_tx) = None"
  using policy_sample_strings
  by (simp_all add: policy_sample_tx_def policy_sample_def policy_engine_new_def policy_config_default_def
      is_allowed_transaction_def local_validate_def starts_with_def)

lemma policy_sample_simulate:
  "simulate policy_sample_tx (tx_chain_id policy_sample_tx) v = sim_passed 21000 v"
  unfolding simulate_def policy_sample_lists(3) by (simp add: policy_sample_tx_def starts_with_def)

lemma policy_sample_fees: "fees_acceptable (pe_config policy_sample) policy_sample_tx"
proof -
  have "parse_hex_quantity ''0x77359400'' = Some 2000000000" "parse_hex_quantity ''0x1'' = Some 1"
    by (simp_all add: parse_hex_quantity_def strip_prefix_def starts_with_def is_ascii_hexdigit_def
        from_hex_def hex_value_def Let_def)
  then show ?thesis
    by (simp add: fees_acceptable_def policy_sample_def policy_sample_tx_def policy_engine_new_def
        policy_config_default_def)
qed

lemma policy_sample_evaluates:
  assumes "is_decimal v" "v \<le> 1000"
  shows "evaluate_with_simulation dec_ref policy_sample policy_sample_tx (sim_passed 21000 v) True 5 \<noteq> None"
    "within_limits dec_ref (pe_limits policy_sample) v (tx_to policy_sample_tx)"
proof -
  have add: "dec_add dec_ref 0 v = Some v" by (simp add: dec_ref_def dec_round_exact [OF assms(1)])
  have lim: "pe_limits policy_sample = limit_tracker_new 1000 5000"
    by (simp add: policy_sample_def policy_engine_new_def policy_config_default_def)
  show "within_limits dec_ref (pe_limits policy_sample) v (tx_to policy_sample_tx)"
    unfolding within_limits_def lim using assms(2) by (simp add: limit_tracker_new_def get_or_def add)
  have "check_limits dec_ref (pe_limits policy_sample) v (tx_to policy_sample_tx) \<noteq> None"
    unfolding lim by (simp add: check_limits_def limit_tracker_new_def get_or_def add Let_def)
  then obtain c where c: "check_limits dec_ref (pe_limits policy_sample) v (tx_to policy_sample_tx) = Some c" by blast
  from check_limits_allow [OF c] obtain s
    where s: "check_limits dec_ref (pe_limits policy_sample) v (tx_to policy_sample_tx) = Some (Some s)"
    using c by blast
  show "evaluate_with_simulation dec_ref policy_sample policy_sample_tx (sim_passed 21000 v) True 5 \<noteq> None"
    using policy_sample_lists(1,2) s
    by (cases "tx_has_value policy_sample_tx \<and> v \<le> 0")
      (auto simp: evaluate_with_simulation_def sim_passed_def Let_def)
qed

lemma policy_sample_allows:
  assumes "is_decimal v" "0 < v" "v \<le> 1000"
  shows "\<exists>r. evaluate_with_simulation dec_ref policy_sample policy_sample_tx (sim_passed 21000 v) True 5 = Some r
     \<and> pr_allowed r \<and> pr_requires_human r"
proof -
  obtain r where r: "evaluate_with_simulation dec_ref policy_sample policy_sample_tx (sim_passed 21000 v) True 5 = Some r"
    using policy_sample_evaluates(1) [OF assms(1,3)] by blast
  have "pr_allowed r"
    using policy_decides [OF r] policy_sample_lists(1,2) policy_sample_evaluates(2) [OF assms(1,3)]
      policy_sample_fees assms(2) by simp
  with policy_decides [OF r] r show ?thesis by blast
qed

theorem policy_decision_witness:
  "\<exists>r. evaluate_with_simulation dec_ref policy_sample policy_sample_tx (sim_passed 21000 2) True 5 = Some r
     \<and> within_limits dec_ref (pe_limits policy_sample) 2 (tx_to policy_sample_tx)
     \<and> pr_allowed r \<and> pr_requires_human r"
proof -
  have d: "is_decimal 2" by (intro is_decimal_numeral) (simp add: dec_bound_def)
  obtain r where r: "evaluate_with_simulation dec_ref policy_sample policy_sample_tx (sim_passed 21000 2) True 5 = Some r"
    "pr_allowed r" using policy_sample_allows [OF d] by auto
  with policy_decision [OF r(1)] show ?thesis by simp
qed

end
