(* ===== verification/Guardian_Service.thy ===== *)
theory Guardian_Service
  imports Guardian_Policy Authz Core_Types
begin

text \<open>
  The proposals of the wallet guardian: their store (\<^verbatim>\<open>proposal.rs\<close>), the service that proposes,
  approves and broadcasts (\<^verbatim>\<open>service.rs\<close>), and the WalletConnect requests (\<^verbatim>\<open>wc/session.rs\<close>,
  \<^verbatim>\<open>wc/pairing.rs\<close>). Each call of \<^verbatim>\<open>UtcTime::now\<close> and \<^verbatim>\<open>Ulid::new\<close> is an argument;
  \<open>of_ms\<close> is \<^verbatim>\<open>UtcTime::from_unix_millis\<close>, which can refuse. The lemmas describe the life of a
  proposal: the service refines an abstract life cycle, in which only a human with a step-up
  approves by hash, and nothing that moves value is approved automatically.
\<close>

subsection \<open>Proposals (proposal.rs)\<close>

datatype proposal_state =
    PsPending | PsApproved | PsAutoApproved | PsDenied | PsExpired | PsBroadcast | PsConfirmed | PsFailed

primrec is_terminal_state :: "proposal_state \<Rightarrow> bool" where
  "is_terminal_state PsPending = False"
| "is_terminal_state PsApproved = False"
| "is_terminal_state PsAutoApproved = False"
| "is_terminal_state PsDenied = True"
| "is_terminal_state PsExpired = True"
| "is_terminal_state PsBroadcast = False"
| "is_terminal_state PsConfirmed = True"
| "is_terminal_state PsFailed = True"

datatype custody_mode = GuardianCustody | WalletConnect

record proposal =
  pp_id :: ulid
  pp_tx :: tx_spec
  pp_state :: proposal_state
  pp_policy_trace :: "policy_step list"
  pp_custody_mode :: custody_mode
  pp_hash :: string
  pp_approved_at :: "utc_time option"
  pp_approval_expires_at :: "utc_time option"
  pp_signature :: "string option"
  pp_tx_hash :: "string option"
  pp_created_at :: utc_time
  pp_expires_at :: utc_time
  pp_updated_at :: utc_time

datatype proposal_error =
    PeNotFound ulid | PeExpired ulid | PeInvalidTransition proposal_state proposal_state | PeHashMismatch

text \<open>\<open>to_vec\<close> is the serializer of JSON values, \<open>sha\<close> is SHA-256.\<close>

primrec custody_json :: "custody_mode \<Rightarrow> json" where
  "custody_json GuardianCustody = JString ''guardian_custody''"
| "custody_json WalletConnect = JString ''wallet_connect''"

definition proposal_wire :: "tx_spec \<Rightarrow> custody_mode \<Rightarrow> json" where
  "proposal_wire tx custody = JObject
     [(''chain_id'', JNumber (show_nat (tx_chain_id tx))), (''to'', JString (to_lower (tx_to tx))),
      (''value'', JString (tx_value tx)), (''data'', JString (tx_data tx)),
      (''gas_limit'', JNumber (show_nat (tx_gas_limit tx))),
      (''max_fee_per_gas'', JString (tx_max_fee_per_gas tx)),
      (''max_priority_fee_per_gas'', JString (tx_max_priority_fee_per_gas tx)),
      (''custody_mode'', custody_json custody)]"

definition proposal_hash ::
  "(u8 list \<Rightarrow> u8 list) \<Rightarrow> (json \<Rightarrow> u8 list) \<Rightarrow> tx_spec \<Rightarrow> custody_mode \<Rightarrow> string" where
  "proposal_hash sha to_vec tx custody = encode_hex (sha (to_vec (proposal_wire tx custody)))"

type_synonym proposal_store = "(ulid, proposal) hash_map"

definition proposal_create ::
  "(tx_spec \<Rightarrow> custody_mode \<Rightarrow> string) \<Rightarrow> (int \<Rightarrow> utc_time option) \<Rightarrow> tx_spec \<Rightarrow> custody_mode \<Rightarrow> ulid \<Rightarrow> utc_time
     \<Rightarrow> proposal_store \<Rightarrow> proposal \<times> proposal_store" where
  "proposal_create hash of_ms tx custody i now s =
     (let p = \<lparr>pp_id = i, pp_tx = tx, pp_state = PsPending, pp_policy_trace = [], pp_custody_mode = custody,
                pp_hash = hash tx custody, pp_approved_at = None, pp_approval_expires_at = None,
                pp_signature = None, pp_tx_hash = None, pp_created_at = now,
                pp_expires_at = get_or now (of_ms (now + 600000)), pp_updated_at = now\<rparr>
      in (p, hm_put i p s))"

definition expire_one :: "utc_time \<Rightarrow> proposal \<Rightarrow> proposal" where
  "expire_one now p =
     (if \<not> is_terminal_state (pp_state p) \<and> now > pp_expires_at p
      then p\<lparr>pp_state := PsExpired, pp_updated_at := now\<rparr> else p)"

definition expire_stale :: "utc_time \<Rightarrow> proposal_store \<Rightarrow> ulid list \<times> proposal_store" where
  "expire_stale now s =
     (map (\<lambda>(_, p). pp_id p) (filter (\<lambda>(_, p). \<not> is_terminal_state (pp_state p) \<and> now > pp_expires_at p) s),
      map (\<lambda>(i, p). (i, expire_one now p)) s)"

text \<open>\<open>transition_one\<close> is \<^verbatim>\<open>transition\<close> on the proposal it finds.\<close>

definition transition_one ::
  "(int \<Rightarrow> utc_time option) \<Rightarrow> ulid \<Rightarrow> proposal_state \<Rightarrow> utc_time \<Rightarrow> proposal \<Rightarrow> (proposal_error + unit) \<times> proposal" where
  "transition_one of_ms i goal now p =
     (let from = pp_state p; expired = (Inl (PeExpired i), p\<lparr>pp_state := PsExpired, pp_updated_at := now\<rparr>) in
      if now > pp_expires_at p then expired
      else if from = PsPending \<and> (goal = PsApproved \<or> goal = PsAutoApproved)
      then (Inr (), p\<lparr>pp_state := goal, pp_approved_at := Some now,
              pp_approval_expires_at := of_ms (now + 60000), pp_updated_at := now\<rparr>)
      else if (from, goal) \<in> {(PsPending, PsDenied), (PsApproved, PsBroadcast), (PsAutoApproved, PsBroadcast),
                              (PsBroadcast, PsConfirmed), (PsBroadcast, PsFailed)}
      then if (from = PsApproved \<or> from = PsAutoApproved) \<and> goal = PsBroadcast
              \<and> (\<exists>e \<in> set_option (pp_approval_expires_at p). now > e)
           then expired
           else (Inr (), p\<lparr>pp_state := goal, pp_updated_at := now\<rparr>)
      else (Inl (PeInvalidTransition from goal), p))"

definition proposal_transition ::
  "(int \<Rightarrow> utc_time option) \<Rightarrow> ulid \<Rightarrow> proposal_state \<Rightarrow> utc_time \<Rightarrow> proposal_store \<Rightarrow> (proposal_error + unit) \<times> proposal_store" where
  "proposal_transition of_ms i goal now s =
     (case hm_get s i of
        None \<Rightarrow> (Inl (PeNotFound i), s)
      | Some p \<Rightarrow> let (r, p') = transition_one of_ms i goal now p in (r, hm_put i p' s))"

definition approve_with_hash ::
  "(int \<Rightarrow> utc_time option) \<Rightarrow> ulid \<Rightarrow> string \<Rightarrow> utc_time \<Rightarrow> proposal_store \<Rightarrow> (proposal_error + unit) \<times> proposal_store" where
  "approve_with_hash of_ms i expected now s =
     (case hm_get s i of
        None \<Rightarrow> (Inl (PeNotFound i), s)
      | Some p \<Rightarrow> if pp_hash p \<noteq> expected then (Inl PeHashMismatch, s)
                  else proposal_transition of_ms i PsApproved now s)"

subsection \<open>WalletConnect (wc/session.rs, wc/pairing.rs)\<close>

text \<open>Times of a session are Unix seconds, cast to \<^verbatim>\<open>u64\<close>.\<close>

record wc_session =
  ws_topic :: string
  ws_chain_id :: nat
  ws_accounts :: "string list"
  ws_expiry :: nat
  ws_approved :: bool

definition wc_session_new :: "nat \<Rightarrow> string list \<Rightarrow> string \<Rightarrow> nat \<Rightarrow> wc_session" where
  "wc_session_new chain accounts topic now =
     \<lparr>ws_topic = topic, ws_chain_id = chain, ws_accounts = accounts, ws_expiry = now + 3600, ws_approved = False\<rparr>"

definition wc_session_approve :: "wc_session \<Rightarrow> wc_session" where
  "wc_session_approve s = s\<lparr>ws_approved := True\<rparr>"

definition wc_is_ready :: "wc_session \<Rightarrow> nat \<Rightarrow> bool" where
  "wc_is_ready s now \<longleftrightarrow> ws_approved s \<and> now < ws_expiry s"

definition wc_is_alive :: "wc_session \<Rightarrow> nat \<Rightarrow> bool" where
  "wc_is_alive s now \<longleftrightarrow> now < ws_expiry s"

datatype wc_error =
    WcNotPaired | WcSessionExpired | WcUserRejected | WcPolicyNotApproved | WcWrongCustodyMode
  | WcInvalidRequest message

record pairing_uri =
  pu_uri :: string
  pu_topic :: string
  pu_symmetric_key :: "u8 list"
  pu_public_key :: "u8 list"

text \<open>\<^verbatim>\<open>PairingUri::generate\<close>, with the public key and the random key it drew.\<close>

definition pairing_generate :: "(u8 list \<Rightarrow> u8 list) \<Rightarrow> u8 list \<Rightarrow> u8 list \<Rightarrow> pairing_uri" where
  "pairing_generate sha public skey =
     (let topic = encode_hex (take 16 (sha public))
      in \<lparr>pu_uri = ''wc:'' @ encode_hex public @ ''@2?relay-protocol=irn&symKey='' @ encode_hex skey @ ''&topic='' @ topic,
          pu_topic = topic, pu_symmetric_key = skey, pu_public_key = public\<rparr>)"

record session_proposal =
  wp_topic :: string
  wp_chain_id :: nat
  wp_required_methods :: "string list"
  wp_required_events :: "string list"
  wp_expiry_secs :: nat

definition session_proposal_new :: "string \<Rightarrow> nat \<Rightarrow> session_proposal" where
  "session_proposal_new topic chain =
     \<lparr>wp_topic = topic, wp_chain_id = chain,
      wp_required_methods = [''eth_sendTransaction'', ''eth_signTransaction''],
      wp_required_events = [''chainChanged'', ''accountsChanged''], wp_expiry_secs = 3600\<rparr>"

record wc_tx_param =
  wt_from :: string
  wt_to :: string
  wt_value :: string
  wt_data :: string
  wt_gas :: string

record wc_transaction_request =
  wr_id :: nat
  wr_method :: string
  wr_params :: "wc_tx_param list"

record wc_wallet_approval =
  wa_topic :: string
  wa_account :: string
  wa_request_id :: nat
  wa_digest :: string

record pairing_client =
  pc_paired :: bool
  pc_session_topic :: "string option"
  pc_session_key :: "u8 list option"

definition pairing_client_new :: pairing_client where
  "pairing_client_new = \<lparr>pc_paired = False, pc_session_topic = None, pc_session_key = None\<rparr>"

definition create_pairing :: "pairing_uri \<Rightarrow> pairing_client \<Rightarrow> pairing_uri \<times> pairing_client" where
  "create_pairing uri c = (uri, c\<lparr>pc_session_key := Some (pu_symmetric_key uri)\<rparr>)"

definition complete_pairing :: "string \<Rightarrow> pairing_client \<Rightarrow> pairing_client" where
  "complete_pairing topic c = c\<lparr>pc_paired := True, pc_session_topic := Some topic\<rparr>"

definition create_session :: "nat \<Rightarrow> pairing_client \<Rightarrow> session_proposal option" where
  "create_session chain c = map_option (\<lambda>topic. session_proposal_new topic chain) (pc_session_topic c)"

definition zero_account :: string where
  "zero_account = ''0x0000000000000000000000000000000000000000''"

definition is_evm_address :: "string \<Rightarrow> bool" where
  "is_evm_address v \<longleftrightarrow> length v = 42 \<and> starts_with ''0x'' v \<and> list_all is_ascii_hexdigit (drop 2 v)"

fun hex_lower :: "nat \<Rightarrow> string" where
  "hex_lower n = (if n < 16 then [hex_digit (of_nat n)] else hex_lower (n div 16) @ [hex_digit (of_nat (n mod 16))])"

declare hex_lower.simps [simp del]

definition build_transaction_request_for_account ::
  "pairing_client \<Rightarrow> tx_spec \<Rightarrow> string \<Rightarrow> wc_error + wc_transaction_request" where
  "build_transaction_request_for_account c tx account =
     (if \<not> pc_paired c then Inl WcNotPaired
      else if \<not> is_evm_address account
      then Inl (WcInvalidRequest (Lit ''session account must be a 0x-prefixed 20-byte address''))
      else Inr \<lparr>wr_id = 1, wr_method = ''eth_sendTransaction'',
             wr_params = [\<lparr>wt_from = to_lower account, wt_to = tx_to tx, wt_value = tx_value tx, wt_data = tx_data tx,
               wt_gas = ''0x'' @ hex_lower (tx_gas_limit tx)\<rparr>]\<rparr>)"

definition build_transaction_request :: "pairing_client \<Rightarrow> tx_spec \<Rightarrow> wc_error + wc_transaction_request" where
  "build_transaction_request c tx = build_transaction_request_for_account c tx zero_account"

definition propose_wc_transaction :: "pairing_client \<Rightarrow> tx_spec \<Rightarrow> wc_error + wc_transaction_request" where
  "propose_wc_transaction c tx = (if \<not> pc_paired c then Inl WcNotPaired else build_transaction_request c tx)"

definition build_approved_proposal_request_for_account ::
  "pairing_client \<Rightarrow> proposal \<Rightarrow> string \<Rightarrow> wc_error + wc_transaction_request" where
  "build_approved_proposal_request_for_account c p account =
     (if pp_custody_mode p \<noteq> WalletConnect then Inl WcWrongCustodyMode
      else if pp_state p \<noteq> PsApproved \<and> pp_state p \<noteq> PsAutoApproved then Inl WcPolicyNotApproved
      else build_transaction_request_for_account c (pp_tx p) account)"

definition build_approved_proposal_request ::
  "pairing_client \<Rightarrow> proposal \<Rightarrow> wc_error + wc_transaction_request" where
  "build_approved_proposal_request c p = build_approved_proposal_request_for_account c p zero_account"

text \<open>The operator's wallet of the harness; \<open>parse\<close> reads a request from JSON.\<close>

record operator_wallet =
  ow_account :: string
  ow_chain_id :: nat
  ow_paired_topic :: "string option"

definition operator_wallet_new :: "string \<Rightarrow> nat \<Rightarrow> operator_wallet" where
  "operator_wallet_new account chain = \<lparr>ow_account = to_lower account, ow_chain_id = chain, ow_paired_topic = None\<rparr>"

definition scan_pairing :: "pairing_uri \<Rightarrow> operator_wallet \<Rightarrow> string \<times> operator_wallet" where
  "scan_pairing uri w = (pu_topic uri, w\<lparr>ow_paired_topic := Some (pu_topic uri)\<rparr>)"

definition wc_approval_digest ::
  "(u8 list \<Rightarrow> u8 list) \<Rightarrow> (json \<Rightarrow> u8 list) \<Rightarrow> string \<Rightarrow> string \<Rightarrow> nat \<Rightarrow> string \<Rightarrow> string" where
  "wc_approval_digest sha to_vec topic account chain request =
     encode_hex (sha (to_vec (JObject
       [(''topic'', JString topic), (''account'', JString (to_lower account)),
        (''chain_id'', JNumber (show_nat chain)), (''request'', JString request)])))"

definition wallet_approve_request ::
  "(u8 list \<Rightarrow> u8 list) \<Rightarrow> (json \<Rightarrow> u8 list) \<Rightarrow> (string \<Rightarrow> string + wc_transaction_request) \<Rightarrow> operator_wallet
     \<Rightarrow> string \<Rightarrow> string \<Rightarrow> wc_error + wc_wallet_approval" where
  "wallet_approve_request sha to_vec parse w topic request_json =
     (if ow_paired_topic w \<noteq> Some topic then Inl WcNotPaired
      else and_then (map_err (\<lambda>e. WcInvalidRequest (Lit e)) (parse request_json)) (\<lambda>request.
        if wr_method request \<noteq> ''eth_sendTransaction''
        then Inl (WcInvalidRequest (Fmt ''unsupported method {}'' [FStr (wr_method request)]))
        else case wr_params request of
          [] \<Rightarrow> Inl (WcInvalidRequest (Lit ''missing tx params''))
        | tx # _ \<Rightarrow>
            if to_lower (wt_from tx) \<noteq> ow_account w \<and> wt_from tx \<noteq> zero_account
            then Inl (WcInvalidRequest (Lit ''request from account mismatch''))
            else Inr \<lparr>wa_topic = topic, wa_account = ow_account w, wa_request_id = wr_id request,
              wa_digest = wc_approval_digest sha to_vec topic (ow_account w) (ow_chain_id w) request_json\<rparr>))"

subsection \<open>The service (service.rs)\<close>

text \<open>A key store has an address and, unless it is locked, a key.\<close>

record keystore =
  ks_key :: "(u8 list \<Rightarrow> string + eth_signature) option"
  ks_address :: string

definition is_available :: "keystore \<Rightarrow> bool" where
  "is_available k \<longleftrightarrow> ks_key k \<noteq> None"

definition sign_transaction_hash :: "keystore \<Rightarrow> u8 list \<Rightarrow> string + eth_signature" where
  "sign_transaction_hash k h =
     (case ks_key k of Some sign \<Rightarrow> sign h | None \<Rightarrow> Inl ''keystore is unavailable: keystore is locked'')"

datatype 'r guardian_error =
    GeKeystoreUnavailable | GeProposal proposal_error | GeApprovalDenied message | GeUnauthorized string
  | GeBroadcast "'r broadcast_error" | GeWalletConnect wc_error

record approval_request =
  aq_proposal_id :: ulid
  aq_expected_hash :: string
  aq_actor :: actor
  aq_evaluation :: evaluation_context
  aq_step_up_code :: "string option"

record guardian_service =
  gs_keystore :: keystore
  gs_proposals :: proposal_store
  gs_policy :: policy_engine
  gs_nonce_mgr :: nonce_manager

definition guardian_with_policy :: "keystore \<Rightarrow> policy_engine \<Rightarrow> guardian_service" where
  "guardian_with_policy k e = \<lparr>gs_keystore = k, gs_proposals = [], gs_policy = e, gs_nonce_mgr = nonce_manager_new\<rparr>"

definition guardian_new :: "keystore \<Rightarrow> guardian_service" where
  "guardian_new k = guardian_with_policy k (policy_engine_new policy_config_default)"

definition is_operational :: "guardian_service \<Rightarrow> bool" where
  "is_operational g \<longleftrightarrow> is_available (gs_keystore g)"

text \<open>\<^verbatim>\<open>trim_start_matches("0x")\<close> drops the prefix as often as it occurs.\<close>

fun trim_start_0x :: "string \<Rightarrow> string" where
  "trim_start_0x (c # d # cs) = (if c = CHR ''0'' \<and> d = CHR ''x'' then trim_start_0x cs else c # d # cs)"
| "trim_start_0x s = s"

definition value_usd_from_hex_wei :: "dec_ops \<Rightarrow> string \<Rightarrow> decimal option" where
  "value_usd_from_hex_wei ops raw =
     (case from_hex 128 (trim_start_0x raw) of
        None \<Rightarrow> Some 0
      | Some wei \<Rightarrow> dec_div ops (of_nat (min wei 1000000000000000000)) 1000000000000000000)"

definition is_withdrawal :: "dec_ops \<Rightarrow> tx_spec \<Rightarrow> bool option" where
  "is_withdrawal ops tx = map_option (\<lambda>v. v > 0) (value_usd_from_hex_wei ops (tx_value tx))"

text \<open>The environment: decimals, time, the two hashes and the serializer.\<close>

record guardian_env =
  ge_dec :: dec_ops
  ge_of_ms :: "int \<Rightarrow> utc_time option"
  ge_hash :: "tx_spec \<Rightarrow> custody_mode \<Rightarrow> string"
  ge_keccak :: "u8 list \<Rightarrow> u8 list"

definition settle_policy :: "(int \<Rightarrow> utc_time option) \<Rightarrow> policy_result \<Rightarrow> proposal \<Rightarrow> proposal" where
  "settle_policy of_ms r p0 =
     (let p = p0\<lparr>pp_policy_trace := pr_trace r\<rparr>
      in if \<not> pr_allowed r then p\<lparr>pp_state := PsDenied\<rparr>
         else if \<not> pr_requires_human r
         then p\<lparr>pp_state := PsAutoApproved, pp_approved_at := Some (pp_updated_at p),
                pp_approval_expires_at := of_ms (pp_updated_at p + 60000)\<rparr>
         else p)"

definition propose_transaction ::
  "guardian_env \<Rightarrow> tx_spec \<Rightarrow> custody_mode \<Rightarrow> ulid \<Rightarrow> utc_time \<Rightarrow> guardian_service
     \<Rightarrow> (('r guardian_error + proposal) \<times> guardian_service) option" where
  "propose_transaction env tx custody i now g =
     (if \<not> is_available (gs_keystore g) then Some (Inl GeKeystoreUnavailable, g)
      else
      Option.bind (value_usd_from_hex_wei (ge_dec env) (tx_value tx)) (\<lambda>value_usd.
      Option.bind (is_withdrawal (ge_dec env) tx) (\<lambda>withdrawal.
      Option.bind (policy_evaluate (ge_dec env) (gs_policy g) tx value_usd withdrawal 5) (\<lambda>policy.
      let (p0, store) = proposal_create (ge_hash env) (ge_of_ms env) tx custody i now (gs_proposals g);
          p = settle_policy (ge_of_ms env) policy p0
      in Some (Inr p, g\<lparr>gs_proposals := hm_put (pp_id p) p store\<rparr>)))))"

definition get_proposal :: "ulid \<Rightarrow> guardian_service \<Rightarrow> 'r guardian_error + proposal" where
  "get_proposal i g = ok_or (GeProposal (PeNotFound i)) (hm_get (gs_proposals g) i)"

primrec state_debug :: "proposal_state \<Rightarrow> string" where
  "state_debug PsPending = ''Pending''"
| "state_debug PsApproved = ''Approved''"
| "state_debug PsAutoApproved = ''AutoApproved''"
| "state_debug PsDenied = ''Denied''"
| "state_debug PsExpired = ''Expired''"
| "state_debug PsBroadcast = ''Broadcast''"
| "state_debug PsConfirmed = ''Confirmed''"
| "state_debug PsFailed = ''Failed''"

definition human_approval :: "approval_request \<Rightarrow> bool" where
  "human_approval q \<longleftrightarrow> ac_kind (aq_actor q) = Human \<and> ev_step_up_satisfied (aq_evaluation q)
     \<and> ev_fresh_human_wallet_approval (aq_evaluation q)"

definition approve_proposal ::
  "guardian_env \<Rightarrow> approval_request \<Rightarrow> utc_time \<Rightarrow> guardian_service \<Rightarrow> ('r guardian_error + proposal) \<times> guardian_service" where
  "approve_proposal env q now g =
     (if \<not> is_available (gs_keystore g) then (Inl GeKeystoreUnavailable, g)
      else if \<not> human_approval q
      then (Inl (GeUnauthorized ''fresh human step-up wallet approval is required''), g)
      else case hm_get (gs_proposals g) (aq_proposal_id q) of
        None \<Rightarrow> (Inl (GeProposal (PeNotFound (aq_proposal_id q))), g)
      | Some p \<Rightarrow>
          if pp_state p \<noteq> PsPending
          then (Inl (GeApprovalDenied (Fmt ''proposal is not pending: {}'' [FStr (state_debug (pp_state p))])), g)
          else
            let (r, s) = approve_with_hash (ge_of_ms env) (aq_proposal_id q) (aq_expected_hash q) now (gs_proposals g);
                g' = g\<lparr>gs_proposals := s\<rparr>
            in case r of Inl e \<Rightarrow> (Inl (GeProposal e), g')
               | Inr _ \<Rightarrow> (get_proposal (aq_proposal_id q) g', g'))"

text \<open>\<open>now\<close> is read before the broadcast, \<open>now'\<close> after it. The state includes the node's world.\<close>

definition broadcast_approved_proposal ::
  "guardian_env \<Rightarrow> ulid \<Rightarrow> ('w, 'r) rpc_client \<Rightarrow> utc_time \<Rightarrow> utc_time \<Rightarrow> guardian_service \<times> 'w
     \<Rightarrow> ('r guardian_error + proposal) \<times> (guardian_service \<times> 'w)" where
  "broadcast_approved_proposal env i rpc now now' st =
     (let (g, w) = st in
      if \<not> is_available (gs_keystore g) then (Inl GeKeystoreUnavailable, st)
      else case hm_get (gs_proposals g) i of
        None \<Rightarrow> (Inl (GeProposal (PeNotFound i)), st)
      | Some p \<Rightarrow>
          if pp_custody_mode p \<noteq> GuardianCustody
          then (Inl (GeApprovalDenied (Lit ''WalletConnect proposals must be signed by the external wallet'')), st)
          else if pp_state p \<noteq> PsApproved \<and> pp_state p \<noteq> PsAutoApproved
          then (Inl (GeApprovalDenied (Lit ''proposal not in approved state'')), st)
          else if (\<exists>e \<in> set_option (pp_approval_expires_at p). now > e)
          then (Inl (GeProposal (PeExpired i)), st)
          else
            let (r, m, w') = broadcast_transaction (ge_keccak env) (sign_transaction_hash (gs_keystore g))
                               (ks_address (gs_keystore g)) rpc (pp_tx p) (tx_chain_id (pp_tx p)) (gs_nonce_mgr g, w);
                g1 = g\<lparr>gs_nonce_mgr := m\<rparr>
            in case r of
                 Inl e \<Rightarrow> (Inl (GeBroadcast e), (g1, w'))
               | Inr b \<Rightarrow>
                   let (t, s) = proposal_transition (ge_of_ms env) i PsBroadcast now' (gs_proposals g1);
                       g2 = g1\<lparr>gs_proposals := s\<rparr>
                   in case t of
                        Inl e \<Rightarrow> (Inl (GeProposal e), (g2, w'))
                      | Inr _ \<Rightarrow>
                          (case hm_get (gs_proposals g2) i of
                             None \<Rightarrow> (Inl (GeProposal (PeNotFound i)), (g2, w'))
                           | Some stored \<Rightarrow>
                               let p' = stored\<lparr>pp_signature := Some (br_signed_raw b), pp_tx_hash := Some (br_tx_hash b)\<rparr>
                               in (Inr p', (g2\<lparr>gs_proposals := hm_put i p' (gs_proposals g2)\<rparr>, w'))))"

definition build_walletconnect_request ::
  "ulid \<Rightarrow> pairing_client \<Rightarrow> guardian_service \<Rightarrow> 'r guardian_error + wc_transaction_request" where
  "build_walletconnect_request i c g =
     and_then (get_proposal i g) (\<lambda>p. map_err GeWalletConnect (build_approved_proposal_request c p))"

definition build_walletconnect_request_for_account ::
  "ulid \<Rightarrow> pairing_client \<Rightarrow> string \<Rightarrow> guardian_service \<Rightarrow> 'r guardian_error + wc_transaction_request" where
  "build_walletconnect_request_for_account i c account g =
     and_then (get_proposal i g) (\<lambda>p. map_err GeWalletConnect (build_approved_proposal_request_for_account c p account))"

subsection \<open>The life of a proposal\<close>

text \<open>Calls of the service, with the times they read. \<open>None\<close> is a panic.\<close>

datatype guardian_op =
    OpPropose tx_spec custody_mode ulid utc_time
  | OpApprove approval_request utc_time
  | OpBroadcast ulid utc_time utc_time

fun guardian_step ::
  "guardian_env \<Rightarrow> ('w, 'r) rpc_client \<Rightarrow> guardian_op \<Rightarrow> guardian_service \<times> 'w \<Rightarrow> (guardian_service \<times> 'w) option" where
  "guardian_step env rpc (OpPropose tx custody i now) (g, w) =
     map_option (\<lambda>r. (snd r, w))
       (propose_transaction env tx custody i now g :: (('r guardian_error + proposal) \<times> guardian_service) option)"
| "guardian_step env rpc (OpApprove q now) (g, w) =
     Some (snd (approve_proposal env q now g :: ('r guardian_error + proposal) \<times> guardian_service), w)"
| "guardian_step env rpc (OpBroadcast i now now') (g, w) =
     Some (snd (broadcast_approved_proposal env i rpc now now' (g, w)))"

definition fresh_op :: "guardian_op \<Rightarrow> guardian_service \<Rightarrow> bool" where
  "fresh_op op g \<longleftrightarrow> (case op of OpPropose _ _ i _ \<Rightarrow> hm_get (gs_proposals g) i = None | _ \<Rightarrow> True)"

text \<open>The abstract life cycle of one proposal.\<close>

definition life_of :: "guardian_service \<Rightarrow> ulid \<Rightarrow> proposal_state option" where
  "life_of g i = map_option pp_state (hm_get (gs_proposals g) i)"

inductive lifecycle :: "guardian_op \<Rightarrow> ulid \<Rightarrow> proposal_state option \<Rightarrow> proposal_state option \<Rightarrow> bool" where
  stay: "lifecycle op i s s"
| born: "s = PsPending \<or> s = PsDenied \<or> s = PsAutoApproved \<Longrightarrow> lifecycle (OpPropose tx custody i now) i None (Some s)"
| approved: "human_approval q \<Longrightarrow> lifecycle (OpApprove q now) (aq_proposal_id q) (Some PsPending) (Some PsApproved)"
| too_late: "lifecycle (OpApprove q now) (aq_proposal_id q) (Some PsPending) (Some PsExpired)"
| sent: "s = PsApproved \<or> s = PsAutoApproved \<Longrightarrow> lifecycle (OpBroadcast i now now') i (Some s) (Some PsBroadcast)"
| lapsed: "s = PsApproved \<or> s = PsAutoApproved \<Longrightarrow> lifecycle (OpBroadcast i now now') i (Some s) (Some PsExpired)"

inductive_cases lifecycleE: "lifecycle op i s s'"

lemma life_put: "life_of (g\<lparr>gs_proposals := hm_put k p m\<rparr>) i =
    (if i = k then Some (pp_state p) else life_of (g\<lparr>gs_proposals := m\<rparr>) i)"
  by (simp add: life_of_def hm_get_put)

lemma life_same: "life_of (g\<lparr>gs_nonce_mgr := m\<rparr>) = life_of g" "life_of (g\<lparr>gs_proposals := gs_proposals g\<rparr>) = life_of g"
  by (simp_all add: life_of_def fun_eq_iff)

text \<open>What \<^verbatim>\<open>transition\<close> does to the state of the proposal.\<close>

lemma transition_broadcast:
  assumes "transition_one of_ms i PsBroadcast now p = (r, p')" "pp_state p = PsApproved \<or> pp_state p = PsAutoApproved"
  shows "(r = Inr () \<and> pp_state p' = PsBroadcast \<or> r = Inl (PeExpired i) \<and> pp_state p' = PsExpired)
    \<and> pp_id p' = pp_id p \<and> pp_tx p' = pp_tx p \<and> pp_hash p' = pp_hash p \<and> pp_custody_mode p' = pp_custody_mode p
    \<and> pp_tx_hash p' = pp_tx_hash p \<and> pp_signature p' = pp_signature p"
  using assms by (auto simp: transition_one_def Let_def split: if_splits)

lemma transition_approved:
  assumes "transition_one of_ms i PsApproved now p = (r, p')" "pp_state p = PsPending"
  shows "(r = Inr () \<and> pp_state p' = PsApproved \<or> r = Inl (PeExpired i) \<and> pp_state p' = PsExpired)
    \<and> pp_id p' = pp_id p \<and> pp_tx p' = pp_tx p \<and> pp_hash p' = pp_hash p \<and> pp_custody_mode p' = pp_custody_mode p"
  using assms by (auto simp: transition_one_def Let_def split: if_splits)

text \<open>The three calls: what is stored afterwards.\<close>

lemma propose_cases:
  assumes "propose_transaction env tx custody i now g = Some (r, g')"
  obtains (off) "g' = g"
  | (stored) v w pol p where
      "value_usd_from_hex_wei (ge_dec env) (tx_value tx) = Some v" "is_withdrawal (ge_dec env) tx = Some w"
      "policy_evaluate (ge_dec env) (gs_policy g) tx v w 5 = Some pol"
      "p = settle_policy (ge_of_ms env) pol (fst (proposal_create (ge_hash env) (ge_of_ms env) tx custody i now []))"
      "r = Inr p" "g' = g\<lparr>gs_proposals := hm_put i p (gs_proposals g)\<rparr>"
proof (cases "is_available (gs_keystore g)")
  case False
  with assms off show thesis by (simp add: propose_transaction_def)
next
  case True
  then obtain v w pol where e: "value_usd_from_hex_wei (ge_dec env) (tx_value tx) = Some v"
      "is_withdrawal (ge_dec env) tx = Some w" "policy_evaluate (ge_dec env) (gs_policy g) tx v w 5 = Some pol"
    using assms by (auto simp: propose_transaction_def bind_eq_Some_conv)
  obtain p0 st where c: "proposal_create (ge_hash env) (ge_of_ms env) tx custody i now (gs_proposals g) = (p0, st)"
    by fastforce
  then have p0: "p0 = fst (proposal_create (ge_hash env) (ge_of_ms env) tx custody i now [])"
    and st: "st = hm_put i p0 (gs_proposals g)" by (auto simp: proposal_create_def Let_def)
  have "pp_id (settle_policy (ge_of_ms env) pol p0) = i"
    using p0 by (simp add: settle_policy_def proposal_create_def Let_def)
  with assms True e c st show thesis
    by (intro stored [OF e, of "settle_policy (ge_of_ms env) pol p0"])
      (simp_all add: propose_transaction_def p0 Let_def)
qed

lemma approve_cases:
  assumes "approve_proposal env q now g = (r, g')"
  obtains (same) "g' = g"
  | (moved) p p' t where "human_approval q" "hm_get (gs_proposals g) (aq_proposal_id q) = Some p"
      "pp_state p = PsPending" "aq_expected_hash q = pp_hash p"
      "transition_one (ge_of_ms env) (aq_proposal_id q) PsApproved now p = (t, p')"
      "g' = g\<lparr>gs_proposals := hm_put (aq_proposal_id q) p' (gs_proposals g)\<rparr>"
proof -
  let ?i = "aq_proposal_id q"
  consider (no) "\<not> (is_available (gs_keystore g) \<and> human_approval q)"
    | (none) "is_available (gs_keystore g)" "human_approval q" "hm_get (gs_proposals g) ?i = None"
    | (some) p where "is_available (gs_keystore g)" "human_approval q" "hm_get (gs_proposals g) ?i = Some p"
    by (cases "hm_get (gs_proposals g) ?i") auto
  then show thesis
  proof cases
    case no
    with assms same show thesis by (auto simp: approve_proposal_def split: if_splits)
  next
    case none
    with assms same show thesis by (simp add: approve_proposal_def)
  next
    case (some p)
    show thesis
    proof (cases "pp_state p = PsPending \<and> pp_hash p = aq_expected_hash q")
      case False
      with some assms same show thesis
        by (auto simp: approve_proposal_def approve_with_hash_def split: if_splits)
    next
      case True
      obtain t p' where t: "transition_one (ge_of_ms env) ?i PsApproved now p = (t, p')" by fastforce
      with True some assms have "g' = g\<lparr>gs_proposals := hm_put ?i p' (gs_proposals g)\<rparr>"
        by (auto simp: approve_proposal_def approve_with_hash_def proposal_transition_def Let_def split: sum.splits)
      with moved [OF some(2,3) _ _ t] True show thesis by simp
    qed
  qed
qed

lemma broadcast_cases:
  assumes "broadcast_approved_proposal env i rpc now now' (g, w) = (r, g', w')"
  obtains (same) "g' = g" "w' = w"
  | (failed) p m where "hm_get (gs_proposals g) i = Some p" "pp_custody_mode p = GuardianCustody"
      "pp_state p = PsApproved \<or> pp_state p = PsAutoApproved"
      "\<And>e. pp_approval_expires_at p = Some e \<Longrightarrow> now \<le> e"
      "g' = g\<lparr>gs_nonce_mgr := m\<rparr>"
  | (moved) p m p' p'' t b where "hm_get (gs_proposals g) i = Some p" "pp_custody_mode p = GuardianCustody"
      "pp_state p = PsApproved \<or> pp_state p = PsAutoApproved"
      "\<And>e. pp_approval_expires_at p = Some e \<Longrightarrow> now \<le> e"
      "transition_one (ge_of_ms env) i PsBroadcast now' p = (t, p')"
      "t = Inr () \<and> p'' = p'\<lparr>pp_signature := Some (br_signed_raw (b :: broadcast_result)), pp_tx_hash := Some (br_tx_hash b)\<rparr> \<or> t \<noteq> Inr () \<and> p'' = p'"
      "g' = g\<lparr>gs_nonce_mgr := m, gs_proposals := hm_put i p'' (gs_proposals g)\<rparr>"
proof -
  let ?ok = "\<lambda>p. pp_custody_mode p = GuardianCustody \<and> (pp_state p = PsApproved \<or> pp_state p = PsAutoApproved)
      \<and> (\<forall>e. pp_approval_expires_at p = Some e \<longrightarrow> now \<le> e)"
  consider (no) "\<not> is_available (gs_keystore g) \<or> hm_get (gs_proposals g) i = None"
    | (bad) p where "is_available (gs_keystore g)" "hm_get (gs_proposals g) i = Some p" "\<not> ?ok p"
    | (ok) p where "is_available (gs_keystore g)" "hm_get (gs_proposals g) i = Some p" "?ok p"
    by (cases "hm_get (gs_proposals g) i") blast+
  then show thesis
  proof cases
    case no
    with assms same show thesis by (auto simp: broadcast_approved_proposal_def split: if_splits)
  next
    case (bad p)
    with assms same show thesis
      by (auto simp: broadcast_approved_proposal_def not_le split: if_splits)
  next
    case (ok p)
    obtain br m w1 where b: "broadcast_transaction (ge_keccak env) (sign_transaction_hash (gs_keystore g))
        (ks_address (gs_keystore g)) rpc (pp_tx p) (tx_chain_id (pp_tx p)) (gs_nonce_mgr g, w) = (br, m, w1)"
      by (metis prod.exhaust)
    have guards: "\<not> pp_custody_mode p \<noteq> GuardianCustody" "\<not> (pp_state p \<noteq> PsApproved \<and> pp_state p \<noteq> PsAutoApproved)"
      "\<not> (\<exists>e \<in> set_option (pp_approval_expires_at p). now > e)" "\<not> \<not> is_available (gs_keystore g)"
      using ok by auto
    note eq = assms [unfolded broadcast_approved_proposal_def Let_def prod.case if_not_P [OF guards(4)] ok(2) option.case
        if_not_P [OF guards(1)] if_not_P [OF guards(2)] if_not_P [OF guards(3)] b]
    show thesis
    proof (cases br)
      case (Inl e)
      with eq show thesis by (intro failed [OF ok(2), of m]) (use ok(3) in auto)
    next
      case (Inr bb)
      obtain t p' where t: "transition_one (ge_of_ms env) i PsBroadcast now' p = (t, p')" by fastforce
      then have pt: "proposal_transition (ge_of_ms env) i PsBroadcast now' (gs_proposals (g\<lparr>gs_nonce_mgr := m\<rparr>))
          = (t, hm_put i p' (gs_proposals g))"
        using ok(2) by (simp add: proposal_transition_def)
      note eq = eq [unfolded Inr sum.case pt prod.case]
      show thesis
      proof (cases t)
        case (Inl e)
        with eq have "g' = g\<lparr>gs_nonce_mgr := m, gs_proposals := hm_put i p' (gs_proposals g)\<rparr>" by simp
        with Inl show thesis by (intro moved [OF ok(2) _ _ _ t, of p' bb m]) (use ok(3) in auto)
      next
        case (Inr u)
        let ?q = "p'\<lparr>pp_signature := Some (br_signed_raw bb), pp_tx_hash := Some (br_tx_hash bb)\<rparr>"
        from Inr eq have "g' = g\<lparr>gs_nonce_mgr := m, gs_proposals := hm_put i ?q (gs_proposals g)\<rparr>"
          by (simp add: hm_get_put)
        with Inr show thesis by (intro moved [OF ok(2) _ _ _ t, of ?q bb m]) (use ok(3) in auto)
      qed
    qed
  qed
qed

subsection \<open>Refinement of the life cycle\<close>

lemma settled_state: "pp_state p0 = PsPending \<Longrightarrow> pp_state (settle_policy of_ms r p0) =
    (if \<not> pr_allowed r then PsDenied else if pr_requires_human r then PsPending else PsAutoApproved)"
  by (simp add: settle_policy_def Let_def)

lemma settled_fields:
  "pp_id (settle_policy of_ms r p0) = pp_id p0" "pp_tx (settle_policy of_ms r p0) = pp_tx p0"
  "pp_custody_mode (settle_policy of_ms r p0) = pp_custody_mode p0" "pp_hash (settle_policy of_ms r p0) = pp_hash p0"
  by (simp_all add: settle_policy_def Let_def)

lemma created_fields:
  "pp_id (fst (proposal_create h of_ms tx c i now s)) = i" "pp_tx (fst (proposal_create h of_ms tx c i now s)) = tx"
  "pp_custody_mode (fst (proposal_create h of_ms tx c i now s)) = c"
  "pp_hash (fst (proposal_create h of_ms tx c i now s)) = h tx c"
  "pp_state (fst (proposal_create h of_ms tx c i now s)) = PsPending"
  by (simp_all add: proposal_create_def Let_def)

text \<open>
  Property C8. The service refines the life cycle: every call with a fresh id that does not panic
  moves each stored proposal along an edge of the abstract machine, or leaves its state alone. A
  proposal is born pending, denied or automatically approved, only a human's step-up approval makes
  a pending one approved, and only an approved one is broadcast.
\<close>

theorem guardian_refines_lifecycle:
  assumes "guardian_step env rpc op (g, w) = Some (g', w')" "fresh_op op g"
  shows "lifecycle op i (life_of g i) (life_of g' i)"
proof (cases op)
  case (OpPropose tx custody k now)
  with assms(1) obtain r :: "'b guardian_error + proposal" where
    "propose_transaction env tx custody k now g = Some (r, g')" by auto
  then show ?thesis
  proof (cases rule: propose_cases)
    case off
    then show ?thesis by (simp add: lifecycle.stay)
  next
    case (stored v w pol p)
    have "pp_state p = PsPending \<or> pp_state p = PsDenied \<or> pp_state p = PsAutoApproved"
      unfolding stored(4) settled_state [OF created_fields(5)] by simp
    moreover have "life_of g k = None" using assms(2) OpPropose by (simp add: fresh_op_def life_of_def)
    ultimately show ?thesis
      unfolding stored(6) life_put life_same OpPropose by (auto intro: lifecycle.stay lifecycle.born)
  qed
next
  case (OpApprove q now)
  with assms(1) obtain r :: "'b guardian_error + proposal" where
    "approve_proposal env q now g = (r, g')" by (cases "approve_proposal env q now g :: ('b guardian_error + proposal) \<times> _") auto
  then show ?thesis
  proof (cases rule: approve_cases)
    case same
    then show ?thesis by (simp add: lifecycle.stay)
  next
    case (moved p p' t)
    have "life_of g (aq_proposal_id q) = Some PsPending" using moved(2,3) by (simp add: life_of_def)
    then show ?thesis
      using transition_approved [OF moved(5,3)] moved(1)
      unfolding moved(6) life_put life_same OpApprove by (auto intro: lifecycle.intros)
  qed
next
  case (OpBroadcast k now now')
  with assms(1) obtain r where "broadcast_approved_proposal env k rpc now now' (g, w) = (r, g', w')"
    by (cases "broadcast_approved_proposal env k rpc now now' (g, w)") auto
  then show ?thesis
  proof (cases rule: broadcast_cases)
    case same
    then show ?thesis by (simp add: lifecycle.stay)
  next
    case (failed p m)
    then show ?thesis by (simp add: life_same lifecycle.stay)
  next
    case (moved p m p' p'' t b)
    have "life_of g k = Some (pp_state p)" using moved(1) by (simp add: life_of_def)
    moreover have "pp_state p'' = PsBroadcast \<or> pp_state p'' = PsExpired"
      using transition_broadcast [OF moved(5,3)] moved(6) by auto
    moreover have "life_of g' j = (if j = k then Some (pp_state p'') else life_of g j)" for j
      unfolding moved(7) by (simp add: life_of_def hm_get_put)
    ultimately show ?thesis
      using moved(3) unfolding OpBroadcast by (auto intro: lifecycle.intros)
  qed
qed

subsection \<open>What an automatic approval can move\<close>

definition moves_value :: "tx_spec \<Rightarrow> bool" where
  "moves_value tx \<longleftrightarrow> (\<exists>n \<in> set_option (from_hex 128 (without_0x (tx_value tx))). 0 < n)"

lemma hex_digits_x: "hex_digits acc (CHR ''0'' # CHR ''x'' # s) = None"
  by (simp add: hex_value_def)

lemma trim_start_no_prefix:
  assumes "\<not> starts_with ''0x'' s"
  shows "trim_start_0x s = s"
  using assms by (induction s rule: trim_start_0x.induct) (auto simp: starts_with_def)

lemma from_hex_no_prefix: "from_hex w s = Some n \<Longrightarrow> \<not> starts_with ''0x'' s"
proof
  assume h: "from_hex w s = Some n" and "starts_with ''0x'' s"
  then obtain t where "s = CHR ''0'' # CHR ''x'' # t"
    by (cases s; cases "tl s") (auto simp: starts_with_def)
  with h show False by (simp add: from_hex_def hex_digits_x del: hex_digits.simps)
qed

text \<open>A value the broadcast reads as a number is read as the same number by the policy.\<close>

lemma trim_start_parsed:
  assumes "from_hex w (without_0x s) = Some n"
  shows "trim_start_0x s = without_0x s"
proof (cases "starts_with ''0x'' s")
  case True
  then obtain t where s: "s = CHR ''0'' # CHR ''x'' # t"
    by (cases s; cases "tl s") (auto simp: starts_with_def)
  then have w: "without_0x s = t" by (simp add: without_0x_def strip_prefix_def starts_with_def)
  with assms have "\<not> starts_with ''0x'' t" using from_hex_no_prefix by blast
  then show ?thesis using trim_start_no_prefix by (simp add: s w [unfolded s])
next
  case False
  then show ?thesis by (simp add: trim_start_no_prefix without_0x_def strip_prefix_def)
qed

lemma positive_value_usd:
  assumes "decimal_arith ops" "moves_value tx" "value_usd_from_hex_wei ops (tx_value tx) = Some v"
  shows "0 < v"
proof -
  obtain n where n: "from_hex 128 (without_0x (tx_value tx)) = Some n" "0 < n"
    using assms(2) by (auto simp: moves_value_def)
  define m where "m = min n 1000000000000000000"
  have m: "1 \<le> m" "m \<le> 1000000000000000000" using n(2) by (auto simp: m_def)
  have div: "dec_div ops (of_nat m) 1000000000000000000 = Some v"
    using assms(3) by (simp add: value_usd_from_hex_wei_def trim_start_parsed [OF n(1)] n(1) m_def)
  have dm: "is_decimal (of_nat m)"
    using is_decimal_int [of "int m"] m(2) by (simp add: dec_bound_def)
  have d: "is_decimal 1000000000000000000" by (intro is_decimal_numeral) (simp add: dec_bound_def)
  have one: "is_decimal (1 / 1000000000000000000)"
    by (rule is_decimalI [of 1 18]) (simp_all add: dec_bound_def)
  have "rounds (Some v) (of_nat m / 1000000000000000000)"
    using decimal_arith.div_rounds [OF assms(1) dm d] div by simp
  then have "1 / 1000000000000000000 \<le> of_nat m / (1000000000000000000 :: rat) \<longrightarrow> 1 / 1000000000000000000 \<le> v"
    using one unfolding rounds_def option.case by blast
  moreover have "1 / 1000000000000000000 \<le> of_nat m / (1000000000000000000 :: rat)"
    using m(1) by (simp add: divide_right_mono)
  ultimately show ?thesis by (simp add: less_le_trans [of 0 "1 / 1000000000000000000 :: rat"])
qed

text \<open>The policy never approves a transaction that moves value by itself.\<close>

lemma value_needs_human:
  assumes "decimal_arith ops" "moves_value tx" "value_usd_from_hex_wei ops (tx_value tx) = Some v"
    "is_withdrawal ops tx = Some w" "policy_evaluate ops e tx v w 5 = Some r"
  shows "pr_allowed r \<longrightarrow> pr_requires_human r"
proof -
  have "w" using assms(4) positive_value_usd [OF assms(1-3)] assms(3) by (auto simp: is_withdrawal_def)
  then show ?thesis using policy_decides [OF assms(5) [unfolded policy_evaluate_def]] by blast
qed

subsection \<open>Runs of the service\<close>

inductive guardian_runs ::
  "guardian_env \<Rightarrow> ('w, 'r) rpc_client \<Rightarrow> guardian_service \<times> 'w \<Rightarrow> guardian_op list \<Rightarrow> guardian_service \<times> 'w \<Rightarrow> bool"
  for env rpc st where
  start: "guardian_runs env rpc st [] st"
| call: "guardian_runs env rpc st ops (g, w) \<Longrightarrow> fresh_op op g \<Longrightarrow> guardian_step env rpc op (g, w) = Some st'
    \<Longrightarrow> guardian_runs env rpc st (ops @ [op]) st'"

definition approved_by_human :: "guardian_env \<Rightarrow> guardian_op list \<Rightarrow> proposal \<Rightarrow> bool" where
  "approved_by_human env ops p \<longleftrightarrow>
     (\<exists>q now. OpApprove q now \<in> set ops \<and> human_approval q \<and> aq_proposal_id q = pp_id p
       \<and> aq_expected_hash q = ge_hash env (pp_tx p) (pp_custody_mode p))"

definition proposal_ok :: "guardian_env \<Rightarrow> guardian_op list \<Rightarrow> ulid \<Rightarrow> proposal \<Rightarrow> bool" where
  "proposal_ok env ops i p \<longleftrightarrow> pp_id p = i \<and> pp_hash p = ge_hash env (pp_tx p) (pp_custody_mode p)
     \<and> (pp_state p \<in> {PsApproved, PsAutoApproved, PsBroadcast} \<longrightarrow> moves_value (pp_tx p) \<longrightarrow> approved_by_human env ops p)"

definition store_ok :: "guardian_env \<Rightarrow> guardian_op list \<Rightarrow> guardian_service \<Rightarrow> bool" where
  "store_ok env ops g \<longleftrightarrow> (\<forall>i p. hm_get (gs_proposals g) i = Some p \<longrightarrow> proposal_ok env ops i p)"

lemma approved_by_human_mono: "approved_by_human env ops p \<Longrightarrow> approved_by_human env (ops @ [op]) p"
  by (auto simp: approved_by_human_def)

lemma store_ok_mono: "store_ok env ops g \<Longrightarrow> store_ok env (ops @ [op]) g"
  by (auto simp: store_ok_def proposal_ok_def approved_by_human_mono)

lemma store_ok_put:
  assumes "store_ok env ops g" "proposal_ok env ops i p" "gs_proposals g' = hm_put i p (gs_proposals g)"
  shows "store_ok env ops g'"
  using assms by (auto simp: store_ok_def hm_get_put)

lemma store_ok_step:
  assumes "decimal_arith (ge_dec env)" "store_ok env ops g" "guardian_step env rpc op (g, w) = Some (g', w')"
  shows "store_ok env (ops @ [op]) g'"
proof (cases op)
  case (OpPropose tx custody k now)
  with assms(3) obtain r :: "'b guardian_error + proposal" where
    "propose_transaction env tx custody k now g = Some (r, g')" by auto
  then show ?thesis
  proof (cases rule: propose_cases)
    case off
    then show ?thesis using store_ok_mono [OF assms(2)] by simp
  next
    case (stored v w pol p)
    have "pp_state p \<in> {PsApproved, PsAutoApproved, PsBroadcast} \<longrightarrow> \<not> moves_value tx"
      using value_needs_human [OF assms(1) _ stored(1-3)]
      unfolding stored(4) settled_state [OF created_fields(5)] by auto
    then have "proposal_ok env (ops @ [op]) k p"
      unfolding proposal_ok_def stored(4) settled_fields created_fields by blast
    then show ?thesis
      by (rule store_ok_put [OF store_ok_mono [OF assms(2)]]) (simp add: stored(6))
  qed
next
  case (OpApprove q now)
  with assms(3) obtain r :: "'b guardian_error + proposal" where
    "approve_proposal env q now g = (r, g')" by (cases "approve_proposal env q now g :: ('b guardian_error + proposal) \<times> _") auto
  then show ?thesis
  proof (cases rule: approve_cases)
    case same
    then show ?thesis using store_ok_mono [OF assms(2)] by simp
  next
    case (moved p p' t)
    have ok: "proposal_ok env ops (aq_proposal_id q) p" using assms(2) moved(2) by (simp add: store_ok_def)
    have f: "pp_id p' = pp_id p" "pp_tx p' = pp_tx p" "pp_hash p' = pp_hash p" "pp_custody_mode p' = pp_custody_mode p"
      using transition_approved [OF moved(5,3)] by blast+
    have "approved_by_human env (ops @ [op]) p'"
      using ok moved(1,4) f by (auto simp: approved_by_human_def proposal_ok_def OpApprove)
    then have "proposal_ok env (ops @ [op]) (aq_proposal_id q) p'"
      using ok unfolding proposal_ok_def f by blast
    then show ?thesis
      by (rule store_ok_put [OF store_ok_mono [OF assms(2)]]) (simp add: moved(6))
  qed
next
  case (OpBroadcast k now now')
  with assms(3) obtain r where "broadcast_approved_proposal env k rpc now now' (g, w) = (r, g', w')"
    by (cases "broadcast_approved_proposal env k rpc now now' (g, w)") auto
  then show ?thesis
  proof (cases rule: broadcast_cases)
    case same
    then show ?thesis using store_ok_mono [OF assms(2)] by simp
  next
    case (failed p m)
    then show ?thesis using store_ok_mono [OF assms(2)] by (simp add: store_ok_def)
  next
    case (moved p m p' p'' t b)
    have ok: "proposal_ok env (ops @ [op]) k p"
      using store_ok_mono [OF assms(2)] moved(1) by (simp add: store_ok_def)
    have f: "pp_id p'' = pp_id p" "pp_tx p'' = pp_tx p" "pp_hash p'' = pp_hash p"
      "pp_custody_mode p'' = pp_custody_mode p"
      using transition_broadcast [OF moved(5,3)] moved(6) by auto
    have "proposal_ok env (ops @ [op]) k p''"
      using ok moved(3) unfolding proposal_ok_def approved_by_human_def f by blast
    then show ?thesis
      by (rule store_ok_put [OF store_ok_mono [OF assms(2)]]) (simp add: moved(7))
  qed
qed

lemma runs_store_ok:
  assumes "guardian_runs env rpc st ops st'" "decimal_arith (ge_dec env)" "store_ok env [] (fst st)"
  shows "store_ok env ops (fst st')"
  using assms(1)
proof induction
  case start
  then show ?case by (rule assms(3))
next
  case (call ops g w op st')
  then show ?case using store_ok_step [OF assms(2), of ops g rpc op w "fst st'" "snd st'"] by simp
qed

text \<open>
  Property C1. The guardian's wallet moves value only after a human's approval: in any run of the
  service from an empty store, a broadcast that touches a nonce or the node is of a stored proposal
  in guardian custody, approved and within its window; and if its transaction moves value, a human
  with a fresh step-up approved exactly this transaction by its hash, earlier in the run.
\<close>

theorem value_moves_after_human_approval:
  assumes "decimal_arith (ge_dec env)"
    and "guardian_runs env rpc (guardian_with_policy k e, w0) ops (g, w)"
    and "broadcast_approved_proposal env i rpc now now' (g, w) = (r, g', w')"
    and "gs_nonce_mgr g' \<noteq> gs_nonce_mgr g \<or> w' \<noteq> w"
  shows "\<exists>p. hm_get (gs_proposals g) i = Some p \<and> pp_custody_mode p = GuardianCustody
    \<and> (pp_state p = PsApproved \<or> pp_state p = PsAutoApproved)
    \<and> (\<forall>t. pp_approval_expires_at p = Some t \<longrightarrow> now \<le> t)
    \<and> (moves_value (pp_tx p) \<longrightarrow> approved_by_human env ops p)"
proof -
  have "store_ok env ops g"
    using runs_store_ok [OF assms(2,1)] by (simp add: store_ok_def guardian_with_policy_def)
  then have ok: "proposal_ok env ops i p" if "hm_get (gs_proposals g) i = Some p" for p
    using that by (simp add: store_ok_def)
  from assms(3) show ?thesis
  proof (cases rule: broadcast_cases)
    case same
    with assms(4) show ?thesis by simp
  next
    case (failed p m)
    with ok [OF failed(1)] show ?thesis by (intro exI [of _ p]) (auto simp: proposal_ok_def)
  next
    case (moved p m p' p'' t b)
    with ok [OF moved(1)] show ?thesis by (intro exI [of _ p]) (auto simp: proposal_ok_def)
  qed
qed

text \<open>A run that proposes, approves and broadcasts the payment of the policy's example.\<close>

definition guardian_env_sample :: guardian_env where
  "guardian_env_sample = \<lparr>ge_dec = dec_ref, ge_of_ms = Some, ge_hash = (\<lambda>tx _. tx_to tx), ge_keccak = (\<lambda>_. [])\<rparr>"

definition keystore_sample :: keystore where
  "keystore_sample = \<lparr>ks_key = Some (\<lambda>_. Inr \<lparr>sg_r = [1], sg_s = [2], sg_y_parity = 0\<rparr>), ks_address = ''0x1''\<rparr>"

definition approval_sample :: approval_request where
  "approval_sample = \<lparr>aq_proposal_id = 7, aq_expected_hash = tx_to policy_sample_tx,
     aq_actor = \<lparr>ac_id = ''op'', ac_kind = Human\<rparr>,
     aq_evaluation = (evaluation_context_new 0 None)\<lparr>ev_step_up_satisfied := True, ev_fresh_human_wallet_approval := True\<rparr>,
     aq_step_up_code = None\<rparr>"

definition proposed_sample :: "policy_step list \<Rightarrow> proposal" where
  "proposed_sample tr = \<lparr>pp_id = 7, pp_tx = policy_sample_tx, pp_state = PsPending, pp_policy_trace = tr,
     pp_custody_mode = GuardianCustody, pp_hash = tx_to policy_sample_tx, pp_approved_at = None,
     pp_approval_expires_at = None, pp_signature = None, pp_tx_hash = None, pp_created_at = 0,
     pp_expires_at = 600000, pp_updated_at = 0\<rparr>"

lemma value_sample:
  "value_usd_from_hex_wei dec_ref (tx_value policy_sample_tx) = Some (16 / 1000000000000000000)"
  "is_decimal (16 / 1000000000000000000)" "moves_value policy_sample_tx"
proof -
  have h: "from_hex 128 ''10'' = Some 16" by (simp add: from_hex_def hex_value_def Let_def)
  have v: "tx_value policy_sample_tx = ''0x10''" by (simp add: policy_sample_tx_def)
  show d: "is_decimal (16 / 1000000000000000000)"
    by (rule is_decimalI [of 16 18]) (simp_all add: dec_bound_def)
  show "value_usd_from_hex_wei dec_ref (tx_value policy_sample_tx) = Some (16 / 1000000000000000000)"
    unfolding v using d by (simp add: value_usd_from_hex_wei_def h dec_ref_def dec_round_exact)
  show "moves_value policy_sample_tx"
    unfolding moves_value_def v by (simp add: without_0x_def strip_prefix_def starts_with_def h)
qed

lemma propose_sample:
  "\<exists>tr r. propose_transaction guardian_env_sample policy_sample_tx GuardianCustody 7 0
       (guardian_with_policy keystore_sample policy_sample) =
     Some (r, (guardian_with_policy keystore_sample policy_sample)\<lparr>gs_proposals := [(7, proposed_sample tr)]\<rparr>)"
proof -
  let ?v = "16 / 1000000000000000000 :: rat"
  obtain pol where p: "evaluate_with_simulation dec_ref policy_sample policy_sample_tx (sim_passed 21000 ?v) True 5 = Some pol"
    and a: "pr_allowed pol" "pr_requires_human pol"
    using policy_sample_allows [OF value_sample(2)] by auto
  have w: "is_withdrawal dec_ref policy_sample_tx = Some True" by (simp add: is_withdrawal_def value_sample(1))
  have e: "policy_evaluate dec_ref policy_sample policy_sample_tx ?v True 5 = Some pol"
    unfolding policy_evaluate_def policy_sample_simulate by (rule p)
  show ?thesis
    using a w e value_sample(1)
    by (intro exI [of _ "pr_trace pol"])
      (simp add: propose_transaction_def guardian_env_sample_def guardian_with_policy_def keystore_sample_def
        is_available_def proposal_create_def settle_policy_def proposed_sample_def get_or_def Let_def)
qed

lemma human_approval_sample: "human_approval approval_sample"
  by (simp add: human_approval_def approval_sample_def)

lemma approve_sample:
  assumes "g = (guardian_with_policy keystore_sample policy_sample)\<lparr>gs_proposals := [(7, proposed_sample tr)]\<rparr>"
  shows "\<exists>r :: 'r guardian_error + proposal. approve_proposal guardian_env_sample approval_sample 10 g =
     (r, g\<lparr>gs_proposals := [(7, (proposed_sample tr)\<lparr>pp_state := PsApproved, pp_approved_at := Some 10,
          pp_approval_expires_at := Some 60010, pp_updated_at := 10\<rparr>)]\<rparr>)"
proof -
  have q: "aq_proposal_id approval_sample = 7" "aq_expected_hash approval_sample = tx_to policy_sample_tx"
    by (simp_all add: approval_sample_def)
  have t: "transition_one Some 7 PsApproved 10 (proposed_sample tr) = (Inr (), (proposed_sample tr)\<lparr>pp_state := PsApproved,
      pp_approved_at := Some 10, pp_approval_expires_at := Some 60010, pp_updated_at := 10\<rparr>)"
    by (simp add: transition_one_def proposed_sample_def)
  have p: "hm_get (gs_proposals g) 7 = Some (proposed_sample tr)" "is_available (gs_keystore g)"
    "gs_proposals g = [(7, proposed_sample tr)]"
    "pp_state (proposed_sample tr) = PsPending" "pp_hash (proposed_sample tr) = tx_to policy_sample_tx"
    "ge_of_ms guardian_env_sample = Some"
    by (simp_all add: assms guardian_with_policy_def keystore_sample_def is_available_def proposed_sample_def
        guardian_env_sample_def)
  show ?thesis
    using human_approval_sample p t
    by (simp add: approve_proposal_def q approve_with_hash_def proposal_transition_def Let_def)
qed

lemma broadcast_nonce_mgr:
  assumes "broadcast_approved_proposal env i rpc now now' (g, w) = (r, g', w')"
    "is_available (gs_keystore g)" "hm_get (gs_proposals g) i = Some p" "pp_custody_mode p = GuardianCustody"
    "pp_state p = PsApproved" "\<And>e. pp_approval_expires_at p = Some e \<Longrightarrow> now \<le> e"
    "reserve_broadcast_nonce (ks_address (gs_keystore g)) rpc (tx_chain_id (pp_tx p)) (gs_nonce_mgr g, w) = (Inr n, m1, w1)"
  shows "gs_nonce_mgr g' = m1"
  using assms
  by (auto simp: broadcast_approved_proposal_def broadcast_transaction_def then_do_def Let_def
      split: if_splits prod.splits sum.splits option.splits dest: leD)

theorem value_moves_after_human_approval_witness:
  "\<exists>ops g w r g' w'. guardian_runs guardian_env_sample nonce_rpc (guardian_with_policy keystore_sample policy_sample, 5) ops (g, w)
     \<and> broadcast_approved_proposal guardian_env_sample 7 nonce_rpc 20 30 (g, w) = (r, g', w')
     \<and> gs_nonce_mgr g' \<noteq> gs_nonce_mgr g
     \<and> (\<exists>p. hm_get (gs_proposals g) 7 = Some p \<and> moves_value (pp_tx p) \<and> approved_by_human guardian_env_sample ops p)"
proof -
  let ?g0 = "guardian_with_policy keystore_sample policy_sample"
  let ?op1 = "OpPropose policy_sample_tx GuardianCustody 7 0" and ?op2 = "OpApprove approval_sample 10"
  obtain tr and r1 :: "string guardian_error + proposal" where 1: "propose_transaction guardian_env_sample policy_sample_tx GuardianCustody 7 0 ?g0 =
      Some (r1, ?g0\<lparr>gs_proposals := [(7, proposed_sample tr)]\<rparr>)" using propose_sample by blast
  let ?g1 = "?g0\<lparr>gs_proposals := [(7, proposed_sample tr)]\<rparr>"
  let ?p = "(proposed_sample tr)\<lparr>pp_state := PsApproved, pp_approved_at := Some 10,
          pp_approval_expires_at := Some 60010, pp_updated_at := 10\<rparr>"
  let ?g2 = "?g1\<lparr>gs_proposals := [(7, ?p)]\<rparr>"
  obtain r2 :: "string guardian_error + proposal"
    where 2: "approve_proposal guardian_env_sample approval_sample 10 ?g1 = (r2, ?g2)"
    using approve_sample [OF refl] by blast
  have "guardian_runs guardian_env_sample nonce_rpc (?g0, 5) ([] @ [?op1]) (?g1, 5)"
    by (rule guardian_runs.call [OF guardian_runs.start])
      (simp_all add: fresh_op_def guardian_with_policy_def 1 [unfolded guardian_with_policy_def])
  then have run: "guardian_runs guardian_env_sample nonce_rpc (?g0, 5) (([] @ [?op1]) @ [?op2]) (?g2, 5)"
    by (rule guardian_runs.call) (simp_all add: fresh_op_def 2)
  obtain r g' w' where b: "broadcast_approved_proposal guardian_env_sample 7 nonce_rpc 20 30 (?g2, 5) = (r, g', w')"
    by (metis prod.exhaust)
  have "gs_nonce_mgr g' = mark_pending 1 5 nonce_manager_new"
    by (rule broadcast_nonce_mgr [OF b, of ?p 5 _ 5])
      (simp_all add: guardian_with_policy_def keystore_sample_def is_available_def proposed_sample_def policy_sample_tx_def
        reserve_broadcast_nonce_def lowest_pending_def pending_of_def nonce_manager_new_def nonce_rpc_def map_err_def)
  then have ne: "gs_nonce_mgr g' \<noteq> gs_nonce_mgr ?g2"
    by (simp add: guardian_with_policy_def mark_pending_def nonce_manager_new_def)
  have "approved_by_human guardian_env_sample (([] @ [?op1]) @ [?op2]) ?p \<and> moves_value (pp_tx ?p)"
    using value_moves_after_human_approval [OF _ run b disjI1 [OF ne]] dec_ref.decimal_arith_axioms value_sample(3)
    by (simp add: guardian_env_sample_def proposed_sample_def)
  moreover have "hm_get (gs_proposals ?g2) 7 = Some ?p" by simp
  ultimately show ?thesis using run b ne by blast
qed

subsection \<open>A broadcast that outlives its approval\<close>

text \<open>
  A sent transaction can be lost: when the node accepts the transaction and the
  proposal or its approval expires before the answer arrives, the call reports the proposal as
  expired, the stored proposal is expired, and the hash of the transaction that was sent is stored
  nowhere.
\<close>

theorem sent_transaction_lost:
  assumes "is_available (gs_keystore g)" "hm_get (gs_proposals g) i = Some p" "pp_custody_mode p = GuardianCustody"
    and "pp_state p = PsApproved \<or> pp_state p = PsAutoApproved"
    and "\<forall>e. pp_approval_expires_at p = Some e \<longrightarrow> now \<le> e"
    and "broadcast_transaction (ge_keccak env) (sign_transaction_hash (gs_keystore g)) (ks_address (gs_keystore g))
        rpc (pp_tx p) (tx_chain_id (pp_tx p)) (gs_nonce_mgr g, w) = (Inr b, m, w')"
    and "now' > pp_expires_at p \<or> (\<exists>e. pp_approval_expires_at p = Some e \<and> now' > e)"
  shows "\<exists>g' p'. broadcast_approved_proposal env i rpc now now' (g, w) = (Inl (GeProposal (PeExpired i)), g', w')
    \<and> hm_get (gs_proposals g') i = Some p' \<and> pp_state p' = PsExpired \<and> pp_tx_hash p' = pp_tx_hash p"
proof -
  have guards: "\<not> pp_custody_mode p \<noteq> GuardianCustody" "\<not> (pp_state p \<noteq> PsApproved \<and> pp_state p \<noteq> PsAutoApproved)"
    "\<not> (\<exists>e \<in> set_option (pp_approval_expires_at p). now > e)" "\<not> \<not> is_available (gs_keystore g)"
    using assms by auto
  let ?p = "p\<lparr>pp_state := PsExpired, pp_updated_at := now'\<rparr>"
  have "transition_one (ge_of_ms env) i PsBroadcast now' p = (Inl (PeExpired i), ?p)"
    using assms(4,7) by (auto simp: transition_one_def Let_def)
  then have t: "proposal_transition (ge_of_ms env) i PsBroadcast now' (gs_proposals (g\<lparr>gs_nonce_mgr := m\<rparr>))
      = (Inl (PeExpired i), hm_put i ?p (gs_proposals g))"
    using assms(2) by (simp add: proposal_transition_def)
  show ?thesis
    unfolding broadcast_approved_proposal_def Let_def prod.case if_not_P [OF guards(4)] assms(2,6) option.case
      if_not_P [OF guards(1)] if_not_P [OF guards(2)] if_not_P [OF guards(3)] sum.case t
    by (intro exI [of _ "g\<lparr>gs_nonce_mgr := m, gs_proposals := hm_put i ?p (gs_proposals g)\<rparr>"] exI [of _ ?p])
      (simp add: hm_get_put)
qed

definition approved_sample :: proposal where
  "approved_sample = (proposed_sample [])\<lparr>pp_tx := nonce_tx, pp_state := PsApproved, pp_approval_expires_at := Some 60010\<rparr>"

theorem sent_transaction_lost_witness:
  "\<exists>g' p' w'. broadcast_approved_proposal guardian_env_sample 7 nonce_rpc 20 70000
      ((guardian_with_policy keystore_sample policy_sample)\<lparr>gs_proposals := [(7, approved_sample)]\<rparr>, 5)
      = (Inl (GeProposal (PeExpired 7)), g', w')
    \<and> hm_get (gs_proposals g') 7 = Some p' \<and> pp_state p' = PsExpired \<and> pp_tx_hash p' = None"
proof -
  let ?g = "(guardian_with_policy keystore_sample policy_sample)\<lparr>gs_proposals := [(7, approved_sample)]\<rparr>"
  have ap: "pp_tx approved_sample = nonce_tx" "pp_state approved_sample = PsApproved"
    "pp_custody_mode approved_sample = GuardianCustody" "pp_approval_expires_at approved_sample = Some 60010"
    "pp_tx_hash approved_sample = None" by (simp_all add: approved_sample_def proposed_sample_def)
  have g: "gs_keystore ?g = keystore_sample" "gs_nonce_mgr ?g = nonce_manager_new" "ge_keccak guardian_env_sample = (\<lambda>_. [])"
    "sign_transaction_hash keystore_sample = (\<lambda>_. Inr \<lparr>sg_r = [1], sg_s = [2], sg_y_parity = 0\<rparr>)"
    "ks_address keystore_sample = ''0x1''" "tx_chain_id nonce_tx = 1"
    by (simp_all add: guardian_with_policy_def guardian_env_sample_def sign_transaction_hash_def keystore_sample_def
        nonce_tx_def fun_eq_iff)
  have "lowest_pending 1 nonce_manager_new = None"
    by (simp add: lowest_pending_def pending_of_def nonce_manager_new_def)
  then obtain b m w' where "nonce_broadcast (nonce_manager_new, 5) = (Inr b, m, w')"
    using nonce_broadcast_run [of nonce_manager_new 5 5] by auto
  then have b: "broadcast_transaction (ge_keccak guardian_env_sample) (sign_transaction_hash (gs_keystore ?g))
      (ks_address (gs_keystore ?g)) nonce_rpc (pp_tx approved_sample) (tx_chain_id (pp_tx approved_sample))
      (gs_nonce_mgr ?g, 5) = (Inr b, m, w')"
    unfolding g ap nonce_broadcast_def .
  show ?thesis
    using sent_transaction_lost [OF _ _ ap(3) disjI1 [OF ap(2)] _ b, of 7 20 70000] ap(4,5)
    by (fastforce simp: keystore_sample_def is_available_def guardian_with_policy_def)
qed

theorem guardian_refines_lifecycle_witness:
  "\<exists>g'. guardian_step guardian_env_sample nonce_rpc (OpPropose policy_sample_tx GuardianCustody 7 0)
       (guardian_with_policy keystore_sample policy_sample, 5) = Some (g', 5)
     \<and> lifecycle (OpPropose policy_sample_tx GuardianCustody 7 0) 7
         (life_of (guardian_with_policy keystore_sample policy_sample) 7) (life_of g' 7)
     \<and> life_of g' 7 = Some PsPending"
proof -
  let ?g0 = "guardian_with_policy keystore_sample policy_sample"
  obtain tr and r1 :: "string guardian_error + proposal" where 1: "propose_transaction guardian_env_sample policy_sample_tx GuardianCustody 7 0 ?g0 =
      Some (r1, ?g0\<lparr>gs_proposals := [(7, proposed_sample tr)]\<rparr>)" using propose_sample by blast
  have step: "guardian_step guardian_env_sample nonce_rpc (OpPropose policy_sample_tx GuardianCustody 7 0) (?g0, 5)
      = Some (?g0\<lparr>gs_proposals := [(7, proposed_sample tr)]\<rparr>, 5)" by (simp add: 1)
  have fresh: "fresh_op (OpPropose policy_sample_tx GuardianCustody 7 0) ?g0"
    by (simp add: fresh_op_def guardian_with_policy_def)
  show ?thesis
    using step guardian_refines_lifecycle [OF step fresh, of 7]
    by (intro exI [of _ "?g0\<lparr>gs_proposals := [(7, proposed_sample tr)]\<rparr>"])
      (simp add: life_of_def proposed_sample_def)
qed

text \<open>
  The store itself lets a finished proposal change: \<^verbatim>\<open>transition\<close> checks the expiry before the
  state, so a confirmed transaction becomes expired when anything is asked of it too late.
\<close>

lemma finished_proposal_expires:
  assumes "hm_get s i = Some p" "now > pp_expires_at p"
  shows "proposal_transition of_ms i goal now s =
    (Inl (PeExpired i), hm_put i (p\<lparr>pp_state := PsExpired, pp_updated_at := now\<rparr>) s)"
  using assms by (simp add: proposal_transition_def transition_one_def Let_def)

end
