(* ===== verification/Rust_Text.thy ===== *)
theory Rust_Text
  imports Prelude
begin

text \<open>
  The text functions of Rust's standard library and of the SQL server that several components use:
  trimming, splitting, decimal numbers and the order of texts. A text is its UTF-8 bytes. White space
  is that of ASCII; the code trims what a human or a configuration file wrote.
\<close>

subsection \<open>Trimming and splitting\<close>

definition is_space :: "char \<Rightarrow> bool" where
  "is_space c \<longleftrightarrow> (let n = of_char c :: nat in n = 32 \<or> 9 \<le> n \<and> n \<le> 13)"

definition trim_str :: "string \<Rightarrow> string" where
  "trim_str s = rev (dropWhile is_space (rev (dropWhile is_space s)))"

fun split_char :: "char \<Rightarrow> string \<Rightarrow> string list" where
  "split_char c [] = [[]]"
| "split_char c (x # xs) = (if x = c then [] # split_char c xs
     else case split_char c xs of [] \<Rightarrow> [[x]] | p # ps \<Rightarrow> (x # p) # ps)"

text \<open>\<^verbatim>\<open>split_ascii_whitespace\<close>: the non-empty pieces; its white space leaves out the vertical tab.\<close>

definition is_ascii_space :: "char \<Rightarrow> bool" where
  "is_ascii_space c \<longleftrightarrow> (let n = of_char c :: nat in n \<in> {9, 10, 12, 13, 32})"

fun split_ws :: "string \<Rightarrow> string \<Rightarrow> string list" where
  "split_ws word [] = (if word = [] then [] else [rev word])"
| "split_ws word (c # cs) =
     (if is_ascii_space c then (if word = [] then split_ws [] cs else rev word # split_ws [] cs)
      else split_ws (c # word) cs)"

definition split_ascii_whitespace :: "string \<Rightarrow> string list" where
  "split_ascii_whitespace s = split_ws [] s"

definition cut_once :: "char \<Rightarrow> string \<Rightarrow> (string \<times> string) option" where
  "cut_once c s = (if c \<in> set s then Some (takeWhile (\<lambda>x. x \<noteq> c) s, tl (dropWhile (\<lambda>x. x \<noteq> c) s)) else None)"

definition rcut_once :: "char \<Rightarrow> string \<Rightarrow> (string \<times> string) option" where
  "rcut_once c s = map_option (\<lambda>(a, b). (rev b, rev a)) (cut_once c (rev s))"

definition is_ascii_alphanumeric :: "char \<Rightarrow> bool" where
  "is_ascii_alphanumeric c \<longleftrightarrow> (let n = of_char c :: nat in
     48 \<le> n \<and> n \<le> 57 \<or> 65 \<le> n \<and> n \<le> 90 \<or> 97 \<le> n \<and> n \<le> 122)"

definition ends_with :: "string \<Rightarrow> string \<Rightarrow> bool" where
  "ends_with p s \<longleftrightarrow> length p \<le> length s \<and> drop (length s - length p) s = p"

fun join_with :: "string \<Rightarrow> string list \<Rightarrow> string" where
  "join_with sep [] = []"
| "join_with sep [x] = x"
| "join_with sep (x # y # ys) = x @ sep @ join_with sep (y # ys)"

subsection \<open>Decimal numbers\<close>

text \<open>\<^verbatim>\<open>parse::<uN>()\<close>, with an optional plus sign.\<close>

fun dec_digits :: "nat \<Rightarrow> string \<Rightarrow> nat option" where
  "dec_digits acc [] = Some acc"
| "dec_digits acc (c # cs) = (if is_ascii_digit c then dec_digits (acc * 10 + (of_char c - 48)) cs else None)"

definition from_dec :: "nat \<Rightarrow> string \<Rightarrow> nat option" where
  "from_dec w s =
     (let d = (case s of c # rest \<Rightarrow> if c = CHR ''+'' then rest else s | [] \<Rightarrow> [])
      in if d = [] then None
         else Option.bind (dec_digits 0 d) (\<lambda>n. if n < 2 ^ w then Some n else None))"

lemma from_dec_bound: "from_dec w s = Some n \<Longrightarrow> n < 2 ^ w"
  by (auto simp: from_dec_def Let_def bind_Some_iff split: if_splits)

subsection \<open>Signed machine integers that saturate\<close>

definition i64_max :: int where "i64_max = 2 ^ 63 - 1"
definition i64_min :: int where "i64_min = - (2 ^ 63)"

definition is_i64 :: "int \<Rightarrow> bool" where
  "is_i64 x \<longleftrightarrow> i64_min \<le> x \<and> x \<le> i64_max"

definition sat_i64 :: "int \<Rightarrow> int" where
  "sat_i64 x = max i64_min (min i64_max x)"

lemma sat_i64_id: "is_i64 x \<Longrightarrow> sat_i64 x = x"
  by (simp add: is_i64_def sat_i64_def)

lemma sat_i64_is_i64: "is_i64 (sat_i64 x)"
  by (simp add: is_i64_def sat_i64_def i64_max_def i64_min_def)

definition checked_i64 :: "int \<Rightarrow> int option" where
  "checked_i64 x = (if is_i64 x then Some x else None)"

lemma checked_i64_iff: "checked_i64 x = Some y \<longleftrightarrow> is_i64 x \<and> y = x"
  by (auto simp: checked_i64_def)

subsection \<open>Orders of texts\<close>

fun text_less :: "string \<Rightarrow> string \<Rightarrow> bool" where
  "text_less [] b = (b \<noteq> [])"
| "text_less (x # xs) [] = False"
| "text_less (x # xs) (y # ys) = (of_char x < (of_char y :: nat) \<or> x = y \<and> text_less xs ys)"

end
