(* ===== verification/Guardian_Db.thy ===== *)
theory Guardian_Db
  imports Guardian_Service Rust_Text
begin

text \<open>
  The tables behind the durable wallet guardian (\<^verbatim>\<open>grpc.rs\<close>, \<^verbatim>\<open>worker.rs\<close> of
  \<^verbatim>\<open>connectors/execution/wallet-guardian\<close>). A table keyed by a column is a map from that column, a
  log is a list; the SQL statements of the two files are functions on this state. A transaction is
  one function on the tables of the moment it holds its row locks, and a database error aborts it, so
  that it is no step at all. What a transaction read before it held its lock is an argument of the
  function (the job that \<^verbatim>\<open>get_proposal\<close> joins to the proposal it waits for). Times are milliseconds; the database's \<^verbatim>\<open>now()\<close> and the process clock are one argument.
\<close>

subsection \<open>Rows\<close>

record proposal_row =
  gp_tx_spec :: "tx_spec option"
  gp_state :: proposal_state
  gp_custody :: "custody_mode option"
  gp_policy_trace :: "policy_step list"
  gp_hash :: string
  gp_value_delta_usd :: decimal
  gp_grant_id :: string
  gp_approved_at :: "int option"
  gp_approval_expires_at :: "int option"
  gp_expires_ts :: int
  gp_tx_hash :: "string option"
  gp_updated_ts :: int

datatype job_state = JobPrepared | JobSubmitted | JobConfirmed | JobFailed | JobAbandoned

record job_row =
  jb_chain_id :: int
  jb_nonce :: int
  jb_signed_raw :: string
  jb_tx_hash :: string
  jb_state :: job_state
  jb_attempts :: nat
  jb_next_attempt_ts :: int
  jb_last_attempt_ts :: "int option"
  jb_last_error_code :: "string option"
  jb_updated_ts :: int

record proposal_event =
  ge_proposal_id :: string
  ge_from_state :: "proposal_state option"
  ge_to_state :: proposal_state
  ge_actor_id :: string
  ge_grant_id :: string
  ge_reason :: string

datatype reference_status = RefPending | RefApproved | RefFailed

record approval_reference =
  ar_id :: string
  ar_token_hash :: string
  ar_actor_id :: string
  ar_action :: string
  ar_target_id :: string
  ar_requires_step_up :: bool
  ar_status :: reference_status
  ar_expires_ts :: int
  ar_consumed_ts :: "int option"

record step_up_row =
  su_id :: string
  su_token_hash :: string
  su_reference_id :: string
  su_actor_id :: string
  su_action :: string
  su_target_id :: "string option"
  su_expires_ts :: int
  su_consumed_ts :: "int option"
  su_session_id :: "string option"

record attempt_row =
  at_approval_id :: "string option"
  at_actor_id :: string
  at_outcome :: string
  at_reason :: string

record session_row =
  sn_id :: string
  sn_user_id :: string
  sn_tier :: int
  sn_origin_kind :: string
  sn_token_hash :: string
  sn_expires_ts :: int
  sn_idle_expires_ts :: int
  sn_revoked_ts :: "int option"

record permission_row =
  pg_id :: string
  pg_actor_id :: string
  pg_actor_kind :: string
  pg_tier :: int
  pg_scopes :: json
  pg_expires_ts :: "int option"
  pg_revoked_ts :: "int option"

record price_row =
  rf_asset_id :: string
  rf_price_usd :: string
  rf_asset_decimals :: "int option"
  rf_observed_ts :: int

record guardian_db =
  db_proposals :: "(string, proposal_row) hash_map"
  db_jobs :: "(string, job_row) hash_map"
  db_nonces :: "(int, int) hash_map"
  db_events :: "proposal_event list"
  db_references :: "(string, approval_reference) hash_map"
  db_challenges :: "(string, step_up_row) hash_map"
  db_attempts :: "attempt_row list"
  db_sessions :: "session_row list"
  db_grants :: "permission_row list"
  db_totp_refs :: "(string, string) hash_map"
  db_prices :: "price_row list"

subsection \<open>Statements\<close>

text \<open>\<^verbatim>\<open>INSERT INTO guardian_proposal_events\<close>.\<close>

definition log_event ::
  "string \<Rightarrow> proposal_state option \<Rightarrow> proposal_state \<Rightarrow> string \<Rightarrow> string \<Rightarrow> string \<Rightarrow> guardian_db \<Rightarrow> guardian_db" where
  "log_event i from goal actor grant reason db =
     db\<lparr>db_events := db_events db @ [\<lparr>ge_proposal_id = i, ge_from_state = from, ge_to_state = goal,
       ge_actor_id = actor, ge_grant_id = grant, ge_reason = reason\<rparr>]\<rparr>"

text \<open>\<^verbatim>\<open>UPDATE guardian_proposals SET state = ..., updated_ts = now() WHERE id = ...\<close>.\<close>

definition set_proposal_state :: "string \<Rightarrow> proposal_state \<Rightarrow> int \<Rightarrow> guardian_db \<Rightarrow> guardian_db" where
  "set_proposal_state i s now db =
     db\<lparr>db_proposals := hm_modify i (\<lambda>p. p\<lparr>gp_state := s, gp_updated_ts := now\<rparr>) (db_proposals db)\<rparr>"

text \<open>\<^verbatim>\<open>UPDATE guardian_broadcast_jobs ... WHERE proposal_id = ...\<close>.\<close>

definition update_job :: "string \<Rightarrow> (job_row \<Rightarrow> job_row) \<Rightarrow> guardian_db \<Rightarrow> guardian_db" where
  "update_job i f db = db\<lparr>db_jobs := hm_modify i f (db_jobs db)\<rparr>"

text \<open>\<^verbatim>\<open>ORDER BY <time>, id LIMIT n\<close>: an absent time comes last, equal times are ordered by the key.\<close>

definition key_less :: "int option \<times> string \<Rightarrow> int option \<times> string \<Rightarrow> bool" where
  "key_less a b \<longleftrightarrow>
     (case (fst a, fst b) of
        (Some x, Some y) \<Rightarrow> x < y \<or> x = y \<and> text_less (snd a) (snd b)
      | (Some _, None) \<Rightarrow> True
      | (None, Some _) \<Rightarrow> False
      | (None, None) \<Rightarrow> text_less (snd a) (snd b))"

fun place_row :: "('r \<Rightarrow> int option) \<Rightarrow> string \<times> 'r \<Rightarrow> (string \<times> 'r) list \<Rightarrow> (string \<times> 'r) list" where
  "place_row t x [] = [x]"
| "place_row t x (y # ys) =
     (if key_less (t (snd x), fst x) (t (snd y), fst y) then x # y # ys else y # place_row t x ys)"

definition order_rows :: "('r \<Rightarrow> int option) \<Rightarrow> (string \<times> 'r) list \<Rightarrow> (string \<times> 'r) list" where
  "order_rows t rows = foldr (place_row t) rows []"

definition proposal_at :: "guardian_db \<Rightarrow> string \<Rightarrow> proposal_row option" where
  "proposal_at db i = hm_get (db_proposals db) i"

definition job_at :: "guardian_db \<Rightarrow> string \<Rightarrow> job_row option" where
  "job_at db i = hm_get (db_jobs db) i"

lemma log_event_tables [simp]:
  "proposal_at (log_event i f t a g r db) = proposal_at db" "job_at (log_event i f t a g r db) = job_at db"
  "db_nonces (log_event i f t a g r db) = db_nonces db" "db_jobs (log_event i f t a g r db) = db_jobs db"
  "db_proposals (log_event i f t a g r db) = db_proposals db"
  "db_references (log_event i f t a g r db) = db_references db"
  "db_challenges (log_event i f t a g r db) = db_challenges db"
  "db_attempts (log_event i f t a g r db) = db_attempts db"
  by (simp_all add: log_event_def proposal_at_def job_at_def fun_eq_iff)

lemma set_proposal_state_tables [simp]:
  "proposal_at (set_proposal_state i s now db) = (proposal_at db)
     (i := map_option (\<lambda>p. p\<lparr>gp_state := s, gp_updated_ts := now\<rparr>) (proposal_at db i))"
  "job_at (set_proposal_state i s now db) = job_at db" "db_nonces (set_proposal_state i s now db) = db_nonces db"
  "db_jobs (set_proposal_state i s now db) = db_jobs db"
  by (auto simp: set_proposal_state_def proposal_at_def job_at_def fun_eq_iff hm_get_modify)

lemma update_job_tables [simp]:
  "job_at (update_job i f db) = (job_at db)(i := map_option f (job_at db i))"
  "proposal_at (update_job i f db) = proposal_at db" "db_nonces (update_job i f db) = db_nonces db"
  "db_proposals (update_job i f db) = db_proposals db"
  by (auto simp: update_job_def job_at_def proposal_at_def fun_eq_iff hm_get_modify)

end
