(* ===== verification/Guardian_Worker.thy ===== *)
theory Guardian_Worker
  imports Guardian_Db
begin

text \<open>
  The broadcast worker of the wallet guardian (\<^verbatim>\<open>worker.rs\<close>): it expires proposals nobody
  claimed, prepares a signed job with a durable nonce for each approved one, and reconciles the jobs
  with the chain. The node is an argument that maps its world to an answer and a new world. Reads
  outside a transaction may be stale: a job is read, the node is asked, and the decision is applied
  by a transaction to the tables of a later moment. The lemmas are the effect of each transaction on
  the tables, which \<open>Guardian_Durable\<close> uses.
\<close>

datatype worker_error = WkBroadcast "string broadcast_error" | WkInvalidProposal | WkUnsupportedChain

record worker_report =
  wo_expired :: nat
  wo_prepared :: nat
  wo_submitted :: nat
  wo_confirmed :: nat
  wo_failed :: nat
  wo_abandoned :: nat
  wo_deferred :: nat

definition worker_report_default :: worker_report where
  "worker_report_default = \<lparr>wo_expired = 0, wo_prepared = 0, wo_submitted = 0, wo_confirmed = 0, wo_failed = 0,
     wo_abandoned = 0, wo_deferred = 0\<rparr>"

record job =
  jo_proposal_id :: string
  jo_chain_id :: int
  jo_nonce :: int
  jo_signed_raw :: string
  jo_tx_hash :: string
  jo_job_state :: job_state
  jo_proposal_state :: proposal_state
  jo_approval_expires_at :: "int option"
  jo_grant_id :: string

record 'w chain_rpc =
  cr_pending_transaction_count :: "string \<Rightarrow> 'w \<Rightarrow> (string + nat) \<times> 'w"
  cr_transaction_receipt :: "string \<Rightarrow> 'w \<Rightarrow> (string + bool option) \<times> 'w"
  cr_transaction_known :: "string \<Rightarrow> 'w \<Rightarrow> (string + bool) \<times> 'w"
  cr_send_raw_transaction :: "string \<Rightarrow> 'w \<Rightarrow> (string + string) \<times> 'w"

definition worker_actor :: string where
  "worker_actor = ''guardian-worker''"

text \<open>\<^verbatim>\<open>is_none_or(|expiry| expiry <= now)\<close>.\<close>

definition lapsed :: "int option \<Rightarrow> int \<Rightarrow> bool" where
  "lapsed e now \<longleftrightarrow> (case e of None \<Rightarrow> True | Some t \<Rightarrow> t \<le> now)"

definition approved_state :: "proposal_state \<Rightarrow> bool" where
  "approved_state s \<longleftrightarrow> s = PsApproved \<or> s = PsAutoApproved"

definition active_job :: "job_state \<Rightarrow> bool" where
  "active_job s \<longleftrightarrow> s = JobPrepared \<or> s = JobSubmitted"

definition insert_worker_event ::
  "string \<Rightarrow> proposal_state option \<Rightarrow> proposal_state \<Rightarrow> string \<Rightarrow> string \<Rightarrow> guardian_db \<Rightarrow> guardian_db" where
  "insert_worker_event i from goal grant reason db = log_event i from goal worker_actor grant reason db"

definition expire_proposal :: "string \<Rightarrow> proposal_state \<Rightarrow> string \<Rightarrow> string \<Rightarrow> int \<Rightarrow> guardian_db \<Rightarrow> guardian_db" where
  "expire_proposal i from grant reason now db =
     insert_worker_event i (Some from) PsExpired grant reason (set_proposal_state i PsExpired now db)"

definition transition_to_broadcast :: "job \<Rightarrow> int \<Rightarrow> guardian_db \<Rightarrow> guardian_db" where
  "transition_to_broadcast j now db =
     (let i = jo_proposal_id j in
      case proposal_at db i of
        None \<Rightarrow> db
      | Some p \<Rightarrow>
          if approved_state (gp_state p)
          then insert_worker_event i (Some (gp_state p)) PsBroadcast (jo_grant_id j) ''raw_transaction_submitted''
                 (db\<lparr>db_proposals := hm_modify i (\<lambda>p. p\<lparr>gp_state := PsBroadcast, gp_tx_hash := Some (jo_tx_hash j),
                    gp_updated_ts := now\<rparr>) (db_proposals db)\<rparr>)
          else db)"

subsection \<open>Expiry of unclaimed proposals\<close>

definition unclaimed_stale :: "int \<Rightarrow> proposal_row \<Rightarrow> bool" where
  "unclaimed_stale now p \<longleftrightarrow>
     (if gp_state p = PsPending then gp_expires_ts p \<le> now
      else if approved_state (gp_state p) then lapsed (gp_approval_expires_at p) now
      else False)"

definition expire_unclaimed_one :: "string \<Rightarrow> int \<Rightarrow> guardian_db \<Rightarrow> bool \<times> guardian_db" where
  "expire_unclaimed_one i now db =
     (case proposal_at db i of
        None \<Rightarrow> (False, db)
      | Some p \<Rightarrow>
          if unclaimed_stale now p \<and> job_at db i = None
          then (True, expire_proposal i (gp_state p) (gp_grant_id p) ''proposal_expired'' now db)
          else (False, db))"

text \<open>The rows without a job that a query returns, oldest first, at most \<open>n\<close>.\<close>

definition oldest :: "nat \<Rightarrow> (proposal_row \<Rightarrow> int option) \<Rightarrow> (proposal_row \<Rightarrow> bool) \<Rightarrow> guardian_db \<Rightarrow> string list" where
  "oldest n key P db =
     map fst (take n (order_rows key
       (filter (\<lambda>(i, p). P p \<and> job_at db i = None) (db_proposals db))))"

fun expire_each :: "string list \<Rightarrow> int \<Rightarrow> worker_report \<Rightarrow> guardian_db \<Rightarrow> worker_report \<times> guardian_db" where
  "expire_each [] now r db = (r, db)"
| "expire_each (i # is) now r db =
     (let (hit, db') = expire_unclaimed_one i now db
      in expire_each is now (if hit then r\<lparr>wo_expired := wo_expired r + 1\<rparr> else r) db')"

definition expire_unclaimed :: "nat \<Rightarrow> int \<Rightarrow> worker_report \<Rightarrow> guardian_db \<Rightarrow> worker_report \<times> guardian_db" where
  "expire_unclaimed batch now r db = expire_each (oldest batch (\<lambda>p. Some (gp_updated_ts p)) (unclaimed_stale now) db) now r db"

subsection \<open>Preparing a job\<close>

definition chain_has_prepared_job :: "int \<Rightarrow> guardian_db \<Rightarrow> bool" where
  "chain_has_prepared_job chain db \<longleftrightarrow>
     list_ex (\<lambda>(i, j). jb_chain_id j = chain \<and> jb_state j = JobPrepared) (db_jobs db)"

definition next_durable_nonce :: "int \<Rightarrow> int \<Rightarrow> guardian_db \<Rightarrow> int" where
  "next_durable_nonce chain pending db = max (get_or pending (hm_get (db_nonces db) chain)) pending"

text \<open>The upsert keeps the greatest nonce.\<close>

definition insert_job :: "string \<Rightarrow> int \<Rightarrow> int \<Rightarrow> string \<Rightarrow> string \<Rightarrow> int \<Rightarrow> guardian_db \<Rightarrow> guardian_db" where
  "insert_job i chain nonce raw h now db =
     db\<lparr>db_jobs := hm_put i \<lparr>jb_chain_id = chain, jb_nonce = nonce, jb_signed_raw = raw, jb_tx_hash = h,
          jb_state = JobPrepared, jb_attempts = 0, jb_next_attempt_ts = now, jb_last_attempt_ts = None,
          jb_last_error_code = None, jb_updated_ts = now\<rparr> (db_jobs db),
        db_nonces := hm_put chain (case hm_get (db_nonces db) chain of None \<Rightarrow> nonce + 1 | Some n \<Rightarrow> max n (nonce + 1))
          (db_nonces db)\<rparr>"

definition prepare_commit ::
  "(u8 list \<Rightarrow> u8 list) \<Rightarrow> (u8 list \<Rightarrow> string + eth_signature) \<Rightarrow> string \<Rightarrow> tx_spec \<Rightarrow> int \<Rightarrow> int \<Rightarrow> int
     \<Rightarrow> guardian_db \<Rightarrow> (worker_error + bool) \<times> guardian_db" where
  "prepare_commit keccak sign i tx chain pending now db =
     (case proposal_at db i of
        None \<Rightarrow> (Inr False, db)
      | Some p \<Rightarrow>
          if \<not> approved_state (gp_state p) then (Inr False, db)
          else if lapsed (gp_approval_expires_at p) now
          then (Inr False, expire_proposal i (gp_state p) (gp_grant_id p) ''approval_expired'' now db)
          else if job_at db i \<noteq> None then (Inr False, db)
          else if chain_has_prepared_job chain db then (Inr False, db)
          else
            let nonce = next_durable_nonce chain pending db in
            if nonce < 0 then (Inl WkUnsupportedChain, db)
            else case sign_eip1559_transaction keccak sign tx (nat nonce) (tx_chain_id tx) of
              Inl e \<Rightarrow> (Inl (WkBroadcast e), db)
            | Inr raw \<Rightarrow>
                (case raw_transaction_hash keccak raw of
                   Inl e \<Rightarrow> (Inl (WkBroadcast e), db)
                 | Inr h \<Rightarrow>
                     if nonce + 1 \<ge> 2 ^ 63 then (Inl WkUnsupportedChain, db)
                     else (Inr True,
                       insert_worker_event i (Some (gp_state p)) (gp_state p) (gp_grant_id p) ''broadcast_prepared''
                         (insert_job i chain nonce raw h now db))))"

definition prepare_one ::
  "(u8 list \<Rightarrow> u8 list) \<Rightarrow> (u8 list \<Rightarrow> string + eth_signature) \<Rightarrow> string \<Rightarrow> (nat \<Rightarrow> 'w chain_rpc option)
     \<Rightarrow> string \<Rightarrow> int \<Rightarrow> guardian_db \<times> 'w \<Rightarrow> (worker_error + bool) \<times> (guardian_db \<times> 'w)" where
  "prepare_one keccak sign address rpcs i now st =
     (let (db, w) = st in
      case proposal_at db i of
        None \<Rightarrow> (Inr False, st)
      | Some p \<Rightarrow>
          if \<not> (gp_custody p = Some GuardianCustody \<and> approved_state (gp_state p)) then (Inr False, st)
          else case gp_tx_spec p of
            None \<Rightarrow> (Inl WkInvalidProposal, st)
          | Some tx \<Rightarrow>
              if \<not> tx_chain_id tx < 2 ^ 63 then (Inl WkUnsupportedChain, st)
              else case rpcs (tx_chain_id tx) of
                None \<Rightarrow> (Inr False, st)
              | Some rpc \<Rightarrow>
                  let (c, w') = cr_pending_transaction_count rpc address w in
                  (case c of
                     Inl _ \<Rightarrow> (Inr False, (db, w'))
                   | Inr n \<Rightarrow>
                       if \<not> n < 2 ^ 63 then (Inr False, (db, w'))
                       else let (r, db') = prepare_commit keccak sign i tx (int (tx_chain_id tx)) (int n) now db
                            in (r, (db', w'))))"

text \<open>An error stops the loop.\<close>

fun prepare_each ::
  "(u8 list \<Rightarrow> u8 list) \<Rightarrow> (u8 list \<Rightarrow> string + eth_signature) \<Rightarrow> string \<Rightarrow> (nat \<Rightarrow> 'w chain_rpc option)
     \<Rightarrow> string list \<Rightarrow> int \<Rightarrow> worker_report \<Rightarrow> guardian_db \<times> 'w \<Rightarrow> (worker_error + worker_report) \<times> (guardian_db \<times> 'w)" where
  "prepare_each keccak sign address rpcs [] now r st = (Inr r, st)"
| "prepare_each keccak sign address rpcs (i # is) now r st =
     (let (x, st') = prepare_one keccak sign address rpcs i now st
      in case x of Inl e \<Rightarrow> (Inl e, st')
         | Inr hit \<Rightarrow> prepare_each keccak sign address rpcs is now (if hit then r\<lparr>wo_prepared := wo_prepared r + 1\<rparr> else r) st')"

definition prepare_approved ::
  "(u8 list \<Rightarrow> u8 list) \<Rightarrow> (u8 list \<Rightarrow> string + eth_signature) \<Rightarrow> string \<Rightarrow> (nat \<Rightarrow> 'w chain_rpc option) \<Rightarrow> nat
     \<Rightarrow> int \<Rightarrow> worker_report \<Rightarrow> guardian_db \<times> 'w \<Rightarrow> (worker_error + worker_report) \<times> (guardian_db \<times> 'w)" where
  "prepare_approved keccak sign address rpcs batch now r st =
     prepare_each keccak sign address rpcs
       (oldest batch gp_approved_at
         (\<lambda>p. gp_custody p = Some GuardianCustody \<and> approved_state (gp_state p)) (fst st)) now r st"

subsection \<open>Reconciling a job\<close>

definition read_job :: "guardian_db \<Rightarrow> string \<Rightarrow> job option" where
  "read_job db i =
     (case (job_at db i, proposal_at db i) of
        (Some j, Some p) \<Rightarrow> Some \<lparr>jo_proposal_id = i, jo_chain_id = jb_chain_id j, jo_nonce = jb_nonce j,
          jo_signed_raw = jb_signed_raw j, jo_tx_hash = jb_tx_hash j, jo_job_state = jb_state j,
          jo_proposal_state = gp_state p, jo_approval_expires_at = gp_approval_expires_at p, jo_grant_id = gp_grant_id p\<rparr>
      | _ \<Rightarrow> None)"

text \<open>What the node's answers make of a job.\<close>

datatype job_action = ActFinish bool | ActSubmitted bool | ActAbandon | ActDefer string

definition send_job :: "'w chain_rpc \<Rightarrow> job \<Rightarrow> 'w \<Rightarrow> job_action \<times> 'w" where
  "send_job rpc j w =
     (let (s, w1) = cr_send_raw_transaction rpc (jo_signed_raw j) w in
      case s of
        Inr h \<Rightarrow> if eq_ignore_ascii_case h (jo_tx_hash j) then (ActSubmitted True, w1) else (ActDefer ''rpc_hash_mismatch'', w1)
      | Inl _ \<Rightarrow>
          let (k, w2) = cr_transaction_known rpc (jo_tx_hash j) w1
          in (case k of Inr True \<Rightarrow> (ActSubmitted True, w2) | _ \<Rightarrow> (ActDefer ''broadcast_unavailable'', w2)))"

definition decide_job :: "'w chain_rpc option \<Rightarrow> job \<Rightarrow> int \<Rightarrow> 'w \<Rightarrow> job_action \<times> 'w" where
  "decide_job rpc j now w =
     (case rpc of
        None \<Rightarrow> (ActDefer ''rpc_not_configured'', w)
      | Some rpc \<Rightarrow>
          let (receipt, w1) = cr_transaction_receipt rpc (jo_tx_hash j) w in
          (case receipt of
             Inl _ \<Rightarrow> (ActDefer ''receipt_unavailable'', w1)
           | Inr (Some success) \<Rightarrow> (ActFinish success, w1)
           | Inr None \<Rightarrow>
               let (known, w2) = cr_transaction_known rpc (jo_tx_hash j) w1 in
               (case known of
                  Inl _ \<Rightarrow> (ActDefer ''transaction_lookup_unavailable'', w2)
                | Inr True \<Rightarrow> (ActSubmitted False, w2)
                | Inr False \<Rightarrow>
                    if jo_job_state j = JobPrepared
                       \<and> (jo_proposal_state j = PsExpired \<or> lapsed (jo_approval_expires_at j) now)
                    then (ActAbandon, w2)
                    else if \<not> (approved_state (jo_proposal_state j) \<or> jo_proposal_state j = PsBroadcast)
                    then (ActDefer ''proposal_state_changed'', w2)
                    else send_job rpc j w2)))"

definition mark_submitted :: "job \<Rightarrow> bool \<Rightarrow> int \<Rightarrow> guardian_db \<Rightarrow> guardian_db" where
  "mark_submitted j attempted now db =
     (case job_at db (jo_proposal_id j) of
        None \<Rightarrow> db
      | Some cur \<Rightarrow>
          if \<not> active_job (jb_state cur) then db
          else transition_to_broadcast j now
            (update_job (jo_proposal_id j) (\<lambda>r. r\<lparr>jb_state := JobSubmitted,
               jb_attempts := jb_attempts r + (if attempted then 1 else 0),
               jb_last_attempt_ts := (if attempted then Some now else jb_last_attempt_ts r),
               jb_next_attempt_ts := now + 2000, jb_last_error_code := None, jb_updated_ts := now\<rparr>) db))"

definition finish_job :: "job \<Rightarrow> bool \<Rightarrow> int \<Rightarrow> guardian_db \<Rightarrow> guardian_db" where
  "finish_job j success now db =
     (let i = jo_proposal_id j;
          terminal = (if success then PsConfirmed else PsFailed) in
      case job_at db i of
        None \<Rightarrow> db
      | Some cur \<Rightarrow>
          if \<not> active_job (jb_state cur) then db
          else
            let db1 = transition_to_broadcast j now db;
                db2 = (case proposal_at db1 i of
                         Some p \<Rightarrow> if gp_state p = PsBroadcast
                           then insert_worker_event i (Some PsBroadcast) terminal (jo_grant_id j)
                                  (if success then ''receipt_succeeded'' else ''receipt_reverted'')
                                  (set_proposal_state i terminal now db1)
                           else db1
                       | None \<Rightarrow> db1)
            in update_job i (\<lambda>r. r\<lparr>jb_state := (if success then JobConfirmed else JobFailed),
                 jb_next_attempt_ts := now, jb_last_error_code := None, jb_updated_ts := now\<rparr>) db2)"

text \<open>A nonce is given back when it is the last one handed out and no live job has a later one.\<close>

definition release_nonce :: "int \<Rightarrow> int \<Rightarrow> guardian_db \<Rightarrow> guardian_db" where
  "release_nonce chain nonce db =
     (if hm_get (db_nonces db) chain = Some (nonce + 1)
         \<and> \<not> list_ex (\<lambda>(i, r). jb_chain_id r = chain \<and> jb_nonce r > nonce \<and> jb_state r \<noteq> JobAbandoned) (db_jobs db)
      then db\<lparr>db_nonces := hm_put chain nonce (db_nonces db)\<rparr> else db)"

definition abandon_job :: "job \<Rightarrow> int \<Rightarrow> guardian_db \<Rightarrow> guardian_db" where
  "abandon_job j now db =
     (let i = jo_proposal_id j in
      case job_at db i of
        None \<Rightarrow> db
      | Some cur \<Rightarrow>
          if jb_state cur \<noteq> JobPrepared then db
          else
            let db1 = release_nonce (jo_chain_id j) (jo_nonce j)
                  (update_job i (\<lambda>r. r\<lparr>jb_state := JobAbandoned, jb_last_error_code := Some ''approval_expired'',
                     jb_updated_ts := now\<rparr>) db)
            in (case proposal_at db1 i of
                  Some p \<Rightarrow> if approved_state (gp_state p)
                    then expire_proposal i (gp_state p) (jo_grant_id j) ''approval_expired_before_broadcast'' now db1
                    else db1
                | None \<Rightarrow> db1))"

definition defer_job :: "string \<Rightarrow> string \<Rightarrow> int \<Rightarrow> guardian_db \<Rightarrow> guardian_db" where
  "defer_job i code now db =
     update_job i (\<lambda>r. if active_job (jb_state r)
       then r\<lparr>jb_attempts := jb_attempts r + 1, jb_last_attempt_ts := Some now,
              jb_next_attempt_ts := now + 1000 * min 30 (2 ^ min (jb_attempts r) 4),
              jb_last_error_code := Some code, jb_updated_ts := now\<rparr>
       else r) db"

definition apply_action :: "job \<Rightarrow> job_action \<Rightarrow> int \<Rightarrow> guardian_db \<Rightarrow> guardian_db" where
  "apply_action j a now db =
     (case a of
        ActFinish success \<Rightarrow> finish_job j success now db
      | ActSubmitted attempted \<Rightarrow> mark_submitted j attempted now db
      | ActAbandon \<Rightarrow> abandon_job j now db
      | ActDefer code \<Rightarrow> defer_job (jo_proposal_id j) code now db)"

definition tally :: "job_action \<Rightarrow> worker_report \<Rightarrow> worker_report" where
  "tally a r =
     (case a of
        ActFinish success \<Rightarrow> if success then r\<lparr>wo_confirmed := wo_confirmed r + 1\<rparr> else r\<lparr>wo_failed := wo_failed r + 1\<rparr>
      | ActSubmitted _ \<Rightarrow> r\<lparr>wo_submitted := wo_submitted r + 1\<rparr>
      | ActAbandon \<Rightarrow> r\<lparr>wo_abandoned := wo_abandoned r + 1\<rparr>
      | ActDefer _ \<Rightarrow> r\<lparr>wo_deferred := wo_deferred r + 1\<rparr>)"

definition reconcile_one ::
  "(nat \<Rightarrow> 'w chain_rpc option) \<Rightarrow> string \<Rightarrow> int \<Rightarrow> worker_report \<Rightarrow> guardian_db \<times> 'w
     \<Rightarrow> (worker_error + worker_report) \<times> (guardian_db \<times> 'w)" where
  "reconcile_one rpcs i now r st =
     (let (db, w) = st in
      case read_job db i of
        None \<Rightarrow> (Inr r, st)
      | Some j \<Rightarrow>
          if jo_chain_id j < 0 then (Inl WkUnsupportedChain, st)
          else let (a, w') = decide_job (rpcs (nat (jo_chain_id j))) j now w
               in (Inr (tally a r), (apply_action j a now db, w')))"

fun reconcile_each ::
  "(nat \<Rightarrow> 'w chain_rpc option) \<Rightarrow> string list \<Rightarrow> int \<Rightarrow> worker_report \<Rightarrow> guardian_db \<times> 'w
     \<Rightarrow> (worker_error + worker_report) \<times> (guardian_db \<times> 'w)" where
  "reconcile_each rpcs [] now r st = (Inr r, st)"
| "reconcile_each rpcs (i # is) now r st =
     (let (x, st') = reconcile_one rpcs i now r st
      in case x of Inl e \<Rightarrow> (Inl e, st') | Inr r' \<Rightarrow> reconcile_each rpcs is now r' st')"

definition due_jobs :: "nat \<Rightarrow> int \<Rightarrow> guardian_db \<Rightarrow> string list" where
  "due_jobs n now db =
     map fst (take n (order_rows (\<lambda>r. Some (jb_next_attempt_ts r))
       (filter (\<lambda>(i, r). active_job (jb_state r) \<and> jb_next_attempt_ts r \<le> now) (db_jobs db))))"

definition reconcile_due ::
  "(nat \<Rightarrow> 'w chain_rpc option) \<Rightarrow> nat \<Rightarrow> int \<Rightarrow> worker_report \<Rightarrow> guardian_db \<times> 'w
     \<Rightarrow> (worker_error + worker_report) \<times> (guardian_db \<times> 'w)" where
  "reconcile_due rpcs batch now r st = reconcile_each rpcs (due_jobs batch now (fst st)) now r st"

text \<open>One cycle of the worker, at one moment.\<close>

definition run_once ::
  "(u8 list \<Rightarrow> u8 list) \<Rightarrow> (u8 list \<Rightarrow> string + eth_signature) \<Rightarrow> string \<Rightarrow> (nat \<Rightarrow> 'w chain_rpc option) \<Rightarrow> nat
     \<Rightarrow> int \<Rightarrow> guardian_db \<times> 'w \<Rightarrow> (worker_error + worker_report) \<times> (guardian_db \<times> 'w)" where
  "run_once keccak sign address rpcs batch now st =
     (let (r, db) = expire_unclaimed batch now worker_report_default (fst st)
      in then_do (reconcile_due rpcs batch now r) (\<lambda>r1.
         then_do (prepare_approved keccak sign address rpcs batch now r1) (\<lambda>r2.
         reconcile_due rpcs batch now r2)) (db, snd st))"

end
