(* ===== verification/Guardian_Grpc.thy ===== *)
theory Guardian_Grpc
  imports Guardian_Db Authz_Stores
begin

text \<open>
  The gRPC boundary of the wallet guardian (\<^verbatim>\<open>grpc.rs\<close>): checks of the wire transaction, its value in
  USD, authentication and grants, and the three calls that propose, read and approve. SHA-256, the
  decimal parser, the clock's parser, the node and the TOTP authority are fields of the environment
  \<open>grpc_env\<close>. The lemmas say what a validated transaction looks like, when a proposal is approved
  without a human, and what an approval has checked.
\<close>

subsection \<open>Status and wire types\<close>

datatype grpc_code = InvalidArgument | FailedPrecondition | Unauthenticated | PermissionDenied | NotFound | Unavailable | Internal

datatype status = Status grpc_code message

abbreviation status_of :: "grpc_code \<Rightarrow> string \<Rightarrow> status" where
  "status_of c m \<equiv> Status c (Lit m)"

record wire_tx =
  wx_chain_id :: string
  wx_to :: string
  wx_value :: string
  wx_data :: string
  wx_gas_limit :: nat
  wx_max_fee_per_gas :: string
  wx_max_priority_fee_per_gas :: string
  wx_custody_mode :: string
  wx_asset_id :: string
  wx_asset_decimals :: nat

datatype wire_status =
    WsUnspecified | WsPending | WsAutoApproved | WsDenied | WsApproved | WsExpired | WsBroadcast | WsConfirmed | WsFailed

primrec wire_status_of :: "proposal_state \<Rightarrow> wire_status" where
  "wire_status_of PsPending = WsPending"
| "wire_status_of PsAutoApproved = WsAutoApproved"
| "wire_status_of PsDenied = WsDenied"
| "wire_status_of PsApproved = WsApproved"
| "wire_status_of PsExpired = WsExpired"
| "wire_status_of PsBroadcast = WsBroadcast"
| "wire_status_of PsConfirmed = WsConfirmed"
| "wire_status_of PsFailed = WsFailed"

record wire_proposal =
  wq_id :: string
  wq_status :: wire_status
  wq_policy_trace :: "policy_step list"
  wq_hash :: string

definition wire_proposal_of :: "string \<Rightarrow> proposal_state \<Rightarrow> policy_step list \<Rightarrow> string \<Rightarrow> wire_proposal" where
  "wire_proposal_of i s trace h =
     \<lparr>wq_id = i, wq_status = wire_status_of s, wq_policy_trace = trace, wq_hash = h\<rparr>"

subsection \<open>Checks of the wire transaction\<close>

definition validate_address :: "string \<Rightarrow> status + unit" where
  "validate_address v =
     (if length v \<noteq> 42 \<or> \<not> starts_with ''0x'' v \<or> \<not> list_all is_ascii_hexdigit (drop 2 v)
      then Inl (status_of InvalidArgument ''transaction destination is invalid'') else Inr ())"

definition canonical_digits :: "string \<Rightarrow> bool" where
  "canonical_digits d \<longleftrightarrow> d \<noteq> [] \<and> (length d = 1 \<or> \<not> starts_with ''0'' d) \<and> list_all is_ascii_hexdigit d"

definition validate_hex_quantity :: "string \<Rightarrow> string \<Rightarrow> status + nat" where
  "validate_hex_quantity v field =
     (case Option.bind (strip_prefix ''0x'' v) (\<lambda>d. if canonical_digits d then Some d else None) of
        None \<Rightarrow> Inl (Status InvalidArgument (Fmt ''{} is invalid'' [FStr field]))
      | Some d \<Rightarrow> ok_or (Status InvalidArgument (Fmt ''{} exceeds supported precision'' [FStr field])) (from_hex 128 d))"

definition validate_calldata :: "string \<Rightarrow> status + unit" where
  "validate_calldata v =
     (case strip_prefix ''0x'' v of
        None \<Rightarrow> Inl (status_of InvalidArgument ''transaction data is invalid'')
      | Some d \<Rightarrow>
          if length d > 262144 \<or> length d mod 2 \<noteq> 0 \<or> \<not> list_all is_ascii_hexdigit d
          then Inl (status_of InvalidArgument ''transaction data is invalid'') else Inr ())"

definition parse_wire_tx :: "wire_tx \<Rightarrow> status + (tx_spec \<times> custody_mode \<times> string \<times> nat)" where
  "parse_wire_tx w =
     and_then (ok_or (status_of InvalidArgument ''chain_id is invalid'') (from_dec 64 (wx_chain_id w))) (\<lambda>chain.
     if chain = 0 then Inl (status_of InvalidArgument ''chain_id is invalid'')
     else
     and_then (if wx_custody_mode w = ''guardian_custody'' then Inr GuardianCustody
               else if wx_custody_mode w = ''wallet_connect'' then Inr WalletConnect
               else Inl (status_of InvalidArgument ''custody_mode is invalid'')) (\<lambda>custody.
     if wx_asset_id w = [] \<or> length (wx_asset_id w) > 160
     then Inl (status_of InvalidArgument ''asset_id is invalid'')
     else
     and_then (validate_address (wx_to w)) (\<lambda>_.
     and_then (validate_hex_quantity (wx_value w) ''value'') (\<lambda>_.
     and_then (validate_hex_quantity (wx_max_fee_per_gas w) ''max_fee_per_gas'') (\<lambda>max_fee.
     and_then (validate_hex_quantity (wx_max_priority_fee_per_gas w) ''max_priority_fee_per_gas'') (\<lambda>priority_fee.
     if priority_fee > max_fee
     then Inl (status_of InvalidArgument ''max_priority_fee_per_gas exceeds max_fee_per_gas'')
     else if wx_gas_limit w = 0 then Inl (status_of InvalidArgument ''gas_limit must be positive'')
     else
     and_then (validate_calldata (wx_data w)) (\<lambda>_.
     if wx_asset_decimals w > 28
     then Inl (status_of InvalidArgument ''asset_decimals exceeds supported precision'')
     else Inr (\<lparr>tx_chain_id = chain, tx_to = wx_to w, tx_value = wx_value w, tx_data = wx_data w,
                tx_gas_limit = wx_gas_limit w, tx_max_fee_per_gas = wx_max_fee_per_gas w,
                tx_max_priority_fee_per_gas = wx_max_priority_fee_per_gas w\<rparr>,
               custody, wx_asset_id w, wx_asset_decimals w))))))))"

subsection \<open>Value in USD\<close>

text \<open>\<open>parse\<close> is \<^verbatim>\<open>Decimal::from_str\<close>.\<close>

definition grpc_parse_hex_u128 :: "string \<Rightarrow> status + nat" where
  "grpc_parse_hex_u128 v =
     (let d = without_0x v
      in if d = [] then Inr 0
         else ok_or (status_of InvalidArgument ''transaction value is invalid'') (from_hex 128 d))"

fun decimal_scale :: "dec_ops \<Rightarrow> nat \<Rightarrow> decimal option" where
  "decimal_scale ops 0 = Some 1"
| "decimal_scale ops (Suc n) = Option.bind (decimal_scale ops n) (\<lambda>s. dec_mul ops s 10)"

definition scaled_value_usd ::
  "dec_ops \<Rightarrow> (string \<Rightarrow> decimal option) \<Rightarrow> nat \<Rightarrow> nat \<Rightarrow> decimal \<Rightarrow> status + decimal" where
  "scaled_value_usd ops parse n decimals price =
     and_then (ok_or (status_of InvalidArgument ''asset amount exceeds supported precision'') (parse (show_nat n))) (\<lambda>a.
     and_then (ok_or (status_of InvalidArgument ''asset decimals exceed supported precision'') (decimal_scale ops decimals)) (\<lambda>s.
     ok_or (status_of InvalidArgument ''asset value exceeds supported precision'')
       (Option.bind (dec_div ops a s) (\<lambda>units. dec_mul ops units price))))"

definition native_value_usd :: "dec_ops \<Rightarrow> (string \<Rightarrow> decimal option) \<Rightarrow> string \<Rightarrow> decimal \<Rightarrow> status + decimal" where
  "native_value_usd ops parse v price =
     and_then (grpc_parse_hex_u128 v) (\<lambda>n. scaled_value_usd ops parse n 18 price)"

text \<open>\<^verbatim>\<open>str::get\<close> of a range.\<close>

definition str_get :: "string \<Rightarrow> nat \<Rightarrow> nat \<Rightarrow> string option" where
  "str_get s a b =
     (if a \<le> b \<and> b \<le> length s \<and> is_char_boundary s a \<and> is_char_boundary s b then Some (drop a (take b s)) else None)"

definition requested_value_usd ::
  "dec_ops \<Rightarrow> (string \<Rightarrow> decimal option) \<Rightarrow> tx_spec \<Rightarrow> decimal \<Rightarrow> nat \<Rightarrow> status + decimal" where
  "requested_value_usd ops parse tx price decimals =
     (if eq_ignore_ascii_case (tx_data tx) ''0x'' then native_value_usd ops parse (tx_value tx) price
      else
        let calldata = without_0x (tx_data tx);
            sel = map_option to_lower (str_get calldata 0 8)
        in and_then (if sel = Some ''a9059cbb'' \<or> sel = Some ''095ea7b3'' then Inr (72, 136)
                     else if sel = Some ''23b872dd'' then Inr (136, 200)
                     else Inl (status_of FailedPrecondition ''contract balance-delta derivation is unavailable'')) (\<lambda>(a, b).
           and_then (ok_or (status_of InvalidArgument ''token calldata is truncated'') (str_get calldata a b)) (\<lambda>amount.
           and_then (grpc_parse_hex_u128 amount) (\<lambda>n. scaled_value_usd ops parse n decimals price))))"

subsection \<open>Configuration\<close>

text \<open>\<^verbatim>\<open>collect\<close> into a \<^verbatim>\<open>Result\<close> stops at the first error.\<close>

fun collect_results :: "('a \<Rightarrow> 'e + 'b) \<Rightarrow> 'a list \<Rightarrow> 'e + 'b list" where
  "collect_results f [] = Inr []"
| "collect_results f (x # xs) = and_then (f x) (\<lambda>y. and_then (collect_results f xs) (\<lambda>ys. Inr (y # ys)))"

definition allowlist_cooldown_ms :: int where
  "allowlist_cooldown_ms = 24 * 3600000"

text \<open>\<open>rfc3339\<close> reads a time.\<close>

definition require_allowlist_cooldown :: "(string \<Rightarrow> int option) \<Rightarrow> string \<Rightarrow> int \<Rightarrow> status + unit" where
  "require_allowlist_cooldown rfc3339 v now =
     and_then (ok_or (status_of InvalidArgument ''Guardian allowlist activation time is invalid'') (rfc3339 v)) (\<lambda>t.
     if t > now \<or> now - t < allowlist_cooldown_ms
     then Inl (status_of FailedPrecondition ''Guardian allowlist entry is still in its 24-hour cooldown'')
     else Inr ())"

definition entries_of :: "string \<Rightarrow> string list" where
  "entries_of v = filter (\<lambda>e. e \<noteq> []) (map trim_str (split_char CHR '','' v))"

definition parse_activated_destinations :: "(string \<Rightarrow> int option) \<Rightarrow> string \<Rightarrow> int \<Rightarrow> status + string list" where
  "parse_activated_destinations rfc3339 v now =
     collect_results (\<lambda>entry.
       and_then (ok_or (status_of InvalidArgument ''Guardian destination allowlist activation is missing'')
           (rcut_once CHR ''@'' entry)) (\<lambda>(address, activated).
       and_then (validate_address address) (\<lambda>_.
       and_then (require_allowlist_cooldown rfc3339 activated now) (\<lambda>_. Inr (to_lower address))))) (entries_of v)"

definition selector_ok :: "string \<Rightarrow> bool" where
  "selector_ok s \<longleftrightarrow> length s = 10 \<and> starts_with ''0x'' s \<and> list_all is_ascii_hexdigit (drop 2 s)"

definition parse_activated_contract_calls ::
  "(string \<Rightarrow> int option) \<Rightarrow> string \<Rightarrow> int \<Rightarrow> status + (string \<times> string) list" where
  "parse_activated_contract_calls rfc3339 v now =
     collect_results (\<lambda>entry.
       and_then (ok_or (status_of InvalidArgument ''Guardian contract allowlist activation is missing'')
           (rcut_once CHR ''@'' entry)) (\<lambda>(call, activated).
       and_then (ok_or (status_of InvalidArgument ''Guardian contract allowlist entry is invalid'')
           (cut_once CHR '':'' call)) (\<lambda>(address, selector).
       and_then (validate_address address) (\<lambda>_.
       if \<not> selector_ok selector
       then Inl (status_of InvalidArgument ''Guardian contract selector is invalid'')
       else and_then (require_allowlist_cooldown rfc3339 activated now) (\<lambda>_.
            Inr (to_lower address, to_lower selector)))))) (entries_of v)"

record grpc_env =
  gc_sha256 :: "string \<Rightarrow> u8 list"
  gc_hash :: "tx_spec \<Rightarrow> custody_mode \<Rightarrow> string"
  gc_dec :: dec_ops
  gc_parse_decimal :: "string \<Rightarrow> decimal option"
  gc_numeric :: "rat \<Rightarrow> decimal option"
  gc_ulid_ok :: "string \<Rightarrow> bool"
  gc_rpc :: "nat \<Rightarrow> (eth_call_params \<Rightarrow> string + string) option"
  gc_totp :: "string \<Rightarrow> string \<Rightarrow> nat \<Rightarrow> string + bool"
  gc_keystore_available :: bool
  gc_service_token_hash :: "string option"
  gc_allowed_destinations :: "string list"
  gc_allowed_contract_calls :: "(string \<times> string) list"
  gc_policy :: policy_config
  gc_price_max_age :: int

subsection \<open>Authentication and grants\<close>

record principal =
  pn_actor_id :: string
  pn_actor_kind :: string
  pn_grant_id :: string
  pn_tier :: nat
  pn_session_id :: "string option"
  pn_totp_secret_ref :: "string option"

record request_metadata =
  md_authorization :: "string option"
  md_actor_id :: "string option"
  md_actor_kind :: "string option"

definition constant_time_equal :: "u8 list \<Rightarrow> u8 list \<Rightarrow> bool" where
  "constant_time_equal l r \<longleftrightarrow> length l = length r \<and> fold (\<lambda>(a, b) d. or d (xor a b)) (zip l r) 0 = 0"

definition same_text :: "string \<Rightarrow> string \<Rightarrow> bool" where
  "same_text a b \<longleftrightarrow> constant_time_equal (map byte_of a) (map byte_of b)"

text \<open>The comparison that takes equal time is equality.\<close>

lemma fold_difference:
  "fold (\<lambda>(a, b) d. or d (xor a b)) zs acc = (0 :: u8) \<longleftrightarrow> acc = 0 \<and> list_all (\<lambda>(a, b). a = b) zs"
proof (induction zs arbitrary: acc)
  case (Cons z zs)
  have "a = b" if "xor a b = 0" for a b :: u8
  proof -
    have "a = xor (xor a b) b" by (simp add: xor.assoc)
    with that show ?thesis by simp
  qed
  then show ?case using Cons.IH by (cases z) (auto simp: or_eq_0_iff)
qed simp

lemma zip_equal: "length l = length r \<Longrightarrow> list_all (\<lambda>(a, b). a = b) (zip l r) \<longleftrightarrow> l = r"
  by (induction l r rule: list_induct2) auto

lemma constant_time_equal_iff: "constant_time_equal l r \<longleftrightarrow> l = r"
  by (auto simp: constant_time_equal_def fold_difference zip_equal)

lemma byte_of_inj: "inj byte_of"
  by (simp add: inj_def byte_of_inject)

lemma same_text_iff: "same_text a b \<longleftrightarrow> a = b"
  by (auto simp: same_text_def constant_time_equal_iff inj_map_eq_map [OF byte_of_inj])

definition metadata_text :: "string option \<Rightarrow> status + string" where
  "metadata_text v =
     ok_or (status_of Unauthenticated ''service actor metadata is missing'') (Option.bind v (\<lambda>s. if s = [] then None else Some s))"

definition scope_allowed :: "json \<Rightarrow> string \<Rightarrow> bool" where
  "scope_allowed scopes required =
     (case scopes of
        JArray vs \<Rightarrow> JString required \<in> set vs
      | JObject m \<Rightarrow> (case hm_get m ''allowed'' of Some (JArray vs) \<Rightarrow> JString required \<in> set vs | _ \<Rightarrow> m = [])
      | _ \<Rightarrow> False)"

definition current_row :: "int \<Rightarrow> permission_row \<Rightarrow> bool" where
  "current_row now g \<longleftrightarrow> pg_revoked_ts g = None \<and> (\<forall>t \<in> set_option (pg_expires_ts g). t > now)"

text \<open>\<^verbatim>\<open>ORDER BY tier DESC, expires_ts DESC NULLS FIRST, id ASC LIMIT 1\<close>.\<close>

fun later_expiry :: "int option \<Rightarrow> int option \<Rightarrow> bool" where
  "later_expiry None (Some _) = True"
| "later_expiry (Some a) (Some b) = (a > b)"
| "later_expiry _ None = False"

definition row_before :: "permission_row \<Rightarrow> permission_row \<Rightarrow> bool" where
  "row_before a b \<longleftrightarrow> pg_tier a > pg_tier b
     \<or> pg_tier a = pg_tier b \<and> (later_expiry (pg_expires_ts a) (pg_expires_ts b)
       \<or> pg_expires_ts a = pg_expires_ts b \<and> text_less (pg_id a) (pg_id b))"

definition best_row :: "permission_row list \<Rightarrow> permission_row option" where
  "best_row gs = fold (\<lambda>g acc. case acc of None \<Rightarrow> Some g | Some b \<Rightarrow> Some (if row_before g b then g else b)) gs None"

definition current_grant ::
  "string \<Rightarrow> string \<Rightarrow> int option \<Rightarrow> string option \<Rightarrow> string option \<Rightarrow> int \<Rightarrow> guardian_db \<Rightarrow> status + principal" where
  "current_grant actor kind session_tier session totp now db =
     (case best_row (filter (\<lambda>g. pg_actor_id g = actor \<and> pg_actor_kind g = kind \<and> current_row now g) (db_grants db)) of
        None \<Rightarrow> Inl (status_of PermissionDenied ''no current permission grant'')
      | Some g \<Rightarrow>
          let effective = (case session_tier of None \<Rightarrow> pg_tier g | Some t \<Rightarrow> min t (pg_tier g)) in
          if \<not> (0 \<le> effective \<and> effective < 256)
          then Inl (status_of PermissionDenied ''permission tier is invalid'')
          else Inr \<lparr>pn_actor_id = actor, pn_actor_kind = kind, pn_grant_id = pg_id g, pn_tier = nat effective,
                    pn_session_id = session, pn_totp_secret_ref = totp\<rparr>)"

definition live_session :: "int \<Rightarrow> session_row \<Rightarrow> bool" where
  "live_session now s \<longleftrightarrow> sn_expires_ts s > now \<and> sn_idle_expires_ts s > now \<and> sn_revoked_ts s = None"

definition authenticate :: "grpc_env \<Rightarrow> request_metadata \<Rightarrow> int \<Rightarrow> guardian_db \<Rightarrow> status + principal" where
  "authenticate env md now db =
     and_then (ok_or (status_of Unauthenticated ''missing bearer authentication'') (md_authorization md)) (\<lambda>authorization.
     and_then (ok_or (status_of Unauthenticated ''invalid bearer authentication'')
       (Option.bind (strip_prefix ''Bearer '' authorization) (\<lambda>t. if t = [] then None else Some t))) (\<lambda>token.
     if (\<exists>expected \<in> set_option (gc_service_token_hash env). same_text expected (encode_hex (gc_sha256 env token)))
     then
       and_then (metadata_text (md_actor_id md)) (\<lambda>actor.
       and_then (metadata_text (md_actor_kind md)) (\<lambda>kind.
       if kind \<notin> {''human'', ''agent'', ''automation''}
       then Inl (status_of Unauthenticated ''invalid service actor kind'')
       else current_grant actor kind None None None now db))
     else
       case find (\<lambda>s. sn_token_hash s = hash_session_token (gc_sha256 env) token \<and> live_session now s) (db_sessions db) of
         None \<Rightarrow> Inl (status_of Unauthenticated ''session is invalid or expired'')
       | Some s \<Rightarrow>
           if sn_origin_kind s \<noteq> ''human''
           then Inl (status_of Unauthenticated ''approval sessions must be human'')
           else current_grant (sn_user_id s) (sn_origin_kind s) (Some (sn_tier s)) (Some (sn_id s))
                  (hm_get (db_totp_refs db) (sn_user_id s)) now db))"

definition grant_scopes :: "string \<Rightarrow> guardian_db \<Rightarrow> status + json" where
  "grant_scopes i db =
     map_ok pg_scopes (ok_or (status_of PermissionDenied ''permission grant disappeared'')
       (find (\<lambda>g. pg_id g = i) (db_grants db)))"

definition require_scope :: "principal \<Rightarrow> json \<Rightarrow> string \<Rightarrow> nat \<Rightarrow> status + unit" where
  "require_scope p scopes wanted minimum =
     (if pn_tier p < minimum then Inl (status_of PermissionDenied ''permission tier is insufficient'')
      else if \<not> scope_allowed scopes wanted then Inl (status_of PermissionDenied ''permission grant scope is insufficient'')
      else Inr ())"

definition revalidate_principal ::
  "principal \<Rightarrow> string \<Rightarrow> nat \<Rightarrow> bool \<Rightarrow> int \<Rightarrow> guardian_db \<Rightarrow> status + unit" where
  "revalidate_principal p wanted minimum need_session now db =
     (case find (\<lambda>g. pg_id g = pn_grant_id p \<and> pg_actor_id g = pn_actor_id p \<and> pg_actor_kind g = pn_actor_kind p
                     \<and> current_row now g) (db_grants db) of
        None \<Rightarrow> Inl (status_of PermissionDenied ''permission grant is no longer current'')
      | Some g \<Rightarrow>
          and_then
            (case pn_session_id p of
               Some sid \<Rightarrow>
                 (case find (\<lambda>s. sn_id s = sid \<and> sn_user_id s = pn_actor_id p \<and> sn_origin_kind s = ''human''
                                 \<and> live_session now s) (db_sessions db) of
                    None \<Rightarrow> Inl (status_of Unauthenticated ''human session is no longer current'')
                  | Some s \<Rightarrow> Inr (min (sn_tier s) (pg_tier g)))
             | None \<Rightarrow>
                 if need_session then Inl (status_of Unauthenticated ''human session is required'')
                 else Inr (pg_tier g)) (\<lambda>effective.
          if effective < int minimum \<or> \<not> scope_allowed (pg_scopes g) wanted
          then Inl (status_of PermissionDenied ''current grant cannot perform this action'')
          else Inr ()))"

subsection \<open>Proposing\<close>

definition approval_scope :: string where
  "approval_scope = ''guardian.approve''"

definition propose_scope :: string where
  "propose_scope = ''guardian.transfer''"

text \<open>The price rows stand in the order of their ids.\<close>

definition reference_asset :: "grpc_env \<Rightarrow> string \<Rightarrow> int \<Rightarrow> guardian_db \<Rightarrow> status + (decimal \<times> nat)" where
  "reference_asset env asset now db =
     (case rev (sort_key rf_observed_ts (filter (\<lambda>r. rf_asset_id r = asset) (db_prices db))) of
        [] \<Rightarrow> Inl (status_of FailedPrecondition ''reference price is unavailable'')
      | r # _ \<Rightarrow>
          if rf_observed_ts r > now \<or> now - rf_observed_ts r > gc_price_max_age env
          then Inl (status_of FailedPrecondition ''reference price is stale'')
          else
            and_then (ok_or (status_of FailedPrecondition ''reference asset precision is unavailable'') (rf_asset_decimals r)) (\<lambda>d.
            if d < 0 then Inl (status_of FailedPrecondition ''reference asset precision is invalid'')
            else and_then (ok_or (status_of InvalidArgument ''decimal value is invalid'') (gc_parse_decimal env (rf_price_usd r))) (\<lambda>price.
                 Inr (price, nat d))))"

definition counts_against_limits :: "int \<Rightarrow> proposal_row \<Rightarrow> bool" where
  "counts_against_limits now p \<longleftrightarrow>
     gp_state p \<in> {PsPending, PsApproved, PsAutoApproved, PsBroadcast, PsConfirmed} \<and> gp_updated_ts p > now - 24 * 3600000"

definition goes_to :: "string \<Rightarrow> proposal_row \<Rightarrow> bool" where
  "goes_to dest p \<longleftrightarrow> (\<exists>tx \<in> set_option (gp_tx_spec p). to_lower (tx_to tx) = to_lower dest)"

definition durable_usage :: "grpc_env \<Rightarrow> string \<Rightarrow> int \<Rightarrow> guardian_db \<Rightarrow> status + (decimal \<times> decimal)" where
  "durable_usage env dest now db =
     (let rows = filter (counts_against_limits now) (map snd (db_proposals db));
          bad = status_of InvalidArgument ''decimal value is invalid'' in
      and_then (ok_or bad (gc_numeric env (sum_list (map gp_value_delta_usd rows)))) (\<lambda>daily.
      and_then (ok_or bad (gc_numeric env (sum_list (map gp_value_delta_usd (filter (goes_to dest) rows))))) (\<lambda>d.
      Inr (daily, d))))"

definition expected_asset_id :: "tx_spec \<Rightarrow> string" where
  "expected_asset_id tx =
     (if eq_ignore_ascii_case (tx_data tx) ''0x'' then ''eip155:'' @ show_nat (tx_chain_id tx) @ ''/native''
      else ''eip155:'' @ show_nat (tx_chain_id tx) @ ''/erc20:'' @ to_lower (tx_to tx))"

definition grpc_engine :: "grpc_env \<Rightarrow> policy_engine" where
  "grpc_engine env = (policy_engine_new (gc_policy env))\<lparr>pe_allowlist :=
     with_allowed_contract_calls (gc_allowed_contract_calls env)
       (with_allowed_destinations (gc_allowed_destinations env) allow_list_new)\<rparr>"

definition seed_engine :: "policy_engine \<Rightarrow> decimal \<Rightarrow> string \<Rightarrow> decimal \<Rightarrow> policy_engine" where
  "seed_engine e daily dest used = e\<lparr>pe_limits := seed_usage daily dest used (pe_limits e)\<rparr>"

definition verdict_state :: "policy_result \<Rightarrow> proposal_state" where
  "verdict_state v = (if \<not> pr_allowed v then PsDenied else if pr_requires_human v then PsPending else PsAutoApproved)"

definition insert_proposal ::
  "string \<Rightarrow> tx_spec \<Rightarrow> custody_mode \<Rightarrow> proposal_state \<Rightarrow> policy_step list \<Rightarrow> string \<Rightarrow> decimal \<Rightarrow> string \<Rightarrow> int
     \<Rightarrow> guardian_db \<Rightarrow> guardian_db" where
  "insert_proposal i tx custody s trace h delta grant now db =
     db\<lparr>db_proposals := hm_put i
       \<lparr>gp_tx_spec = Some tx, gp_state = s, gp_custody = Some custody, gp_policy_trace = trace, gp_hash = h,
        gp_value_delta_usd = delta, gp_grant_id = grant,
        gp_approved_at = (if s = PsAutoApproved then Some now else None),
        gp_approval_expires_at = (if s = PsAutoApproved then Some (now + 60000) else None),
        gp_expires_ts = now + 600000, gp_tx_hash = None, gp_updated_ts = now\<rparr> (db_proposals db)\<rparr>"

text \<open>The transaction that reads the usage, decides and stores. \<open>None\<close> is a panic of the policy.\<close>

definition propose_commit ::
  "grpc_env \<Rightarrow> principal \<Rightarrow> tx_spec \<Rightarrow> custody_mode \<Rightarrow> decimal \<Rightarrow> simulation_result \<Rightarrow> string \<Rightarrow> int \<Rightarrow> guardian_db
     \<Rightarrow> ((status + wire_proposal) \<times> guardian_db) option" where
  "propose_commit env p tx custody delta sim i now db =
     (case and_then (revalidate_principal p propose_scope 4 False now db) (\<lambda>_. durable_usage env (tx_to tx) now db) of
        Inl e \<Rightarrow> Some (Inl e, db)
      | Inr (daily, dest) \<Rightarrow>
          let withdrawal = delta > 0 \<or> \<not> eq_ignore_ascii_case (tx_data tx) ''0x'' in
          map_option (\<lambda>v.
            let s = verdict_state v; h = gc_hash env tx custody in
            (Inr (wire_proposal_of i s (pr_trace v) h),
             log_event i None s (pn_actor_id p) (pn_grant_id p) ''policy_evaluated''
               (insert_proposal i tx custody s (pr_trace v) h delta (pn_grant_id p) now db)))
            (evaluate_with_simulation (gc_dec env) (seed_engine (grpc_engine env) daily (tx_to tx) dest) tx sim withdrawal
              (pn_tier p)))"

definition rpc_failed :: "simulation_result \<Rightarrow> bool" where
  "rpc_failed sim \<longleftrightarrow> (\<exists>m \<in> set_option (sr_error sim). case m of Lit s \<Rightarrow> starts_with ''RPC simulation'' s
     | Fmt t _ \<Rightarrow> starts_with ''RPC simulation'' t)"

definition grpc_propose ::
  "grpc_env \<Rightarrow> request_metadata \<Rightarrow> wire_tx \<Rightarrow> string \<Rightarrow> int \<Rightarrow> guardian_db \<Rightarrow> ((status + wire_proposal) \<times> guardian_db) option" where
  "grpc_propose env md wire i now db =
     (if \<not> gc_keystore_available env then Some (Inl (status_of Unavailable ''Guardian keystore is unavailable''), db)
      else
      case
        and_then (authenticate env md now db) (\<lambda>p.
        and_then (grant_scopes (pn_grant_id p) db) (\<lambda>scopes.
        and_then (require_scope p scopes propose_scope 4) (\<lambda>_.
        and_then (parse_wire_tx wire) (\<lambda>(tx, custody, asset, decimals).
        if asset \<noteq> expected_asset_id tx then Inl (status_of InvalidArgument ''asset_id does not match transaction'')
        else and_then (reference_asset env asset now db) (\<lambda>(price, authoritative).
        if decimals \<noteq> authoritative
        then Inl (status_of InvalidArgument ''asset_decimals does not match the trusted reference asset'')
        else and_then (requested_value_usd (gc_dec env) (gc_parse_decimal env) tx price authoritative) (\<lambda>delta.
        and_then (ok_or (status_of Unavailable ''operator-configured chain RPC is unavailable'') (gc_rpc env (tx_chain_id tx))) (\<lambda>rpc.
        let sim = simulate_async tx (tx_chain_id tx) delta (Some rpc) in
        if rpc_failed sim then Inl (status_of Unavailable ''chain simulation is unavailable'')
        else Inr (p, tx, custody, delta, sim)))))))) of
        Inl e \<Rightarrow> Some (Inl e, db)
      | Inr (p, tx, custody, delta, sim) \<Rightarrow> propose_commit env p tx custody delta sim i now db)"

subsection \<open>Reading\<close>

text \<open>The job is that of the statement's snapshot: \<^verbatim>\<open>FOR UPDATE OF p\<close> waits for the proposal alone, so a
  call that waited decides on the job as it was before it waited, with the clock read afterwards.\<close>

definition read_stale :: "int \<Rightarrow> proposal_row \<Rightarrow> job_row option \<Rightarrow> bool" where
  "read_stale now p j \<longleftrightarrow>
     (if gp_state p = PsPending then gp_expires_ts p \<le> now
      else if gp_state p = PsApproved \<or> gp_state p = PsAutoApproved
      then (case gp_approval_expires_at p of
              Some e \<Rightarrow> e \<le> now \<and> \<not> (\<exists>r \<in> set_option j. jb_state r = JobPrepared \<or> jb_state r = JobSubmitted)
            | None \<Rightarrow> True)
      else False)"

definition read_commit ::
  "principal \<Rightarrow> string \<Rightarrow> job_row option \<Rightarrow> int \<Rightarrow> guardian_db \<Rightarrow> (status + wire_proposal) \<times> guardian_db" where
  "read_commit p i seen now db =
     (let human = pn_actor_kind p = ''human'' in
      case revalidate_principal p (if human then approval_scope else propose_scope) 4 human now db of
        Inl e \<Rightarrow> (Inl e, db)
      | Inr _ \<Rightarrow>
          (case proposal_at db i of
             None \<Rightarrow> (Inl (status_of NotFound ''proposal was not found''), db)
           | Some r \<Rightarrow>
               if read_stale now r seen
               then (Inr (wire_proposal_of i PsExpired (gp_policy_trace r) (gp_hash r)),
                     log_event i (Some (gp_state r)) PsExpired (pn_actor_id p) (pn_grant_id p) ''proposal_expired''
                       (set_proposal_state i PsExpired now db))
               else (Inr (wire_proposal_of i (gp_state r) (gp_policy_trace r) (gp_hash r)), db)))"

definition grpc_get_proposal ::
  "grpc_env \<Rightarrow> request_metadata \<Rightarrow> string \<Rightarrow> job_row option \<Rightarrow> int \<Rightarrow> guardian_db
     \<Rightarrow> (status + wire_proposal) \<times> guardian_db" where
  "grpc_get_proposal env md i seen now db =
     (case
        and_then (authenticate env md now db) (\<lambda>p.
        and_then (grant_scopes (pn_grant_id p) db) (\<lambda>scopes.
        and_then (if pn_actor_kind p = ''human'' then require_scope p scopes approval_scope 4 else Inr ()) (\<lambda>_.
        if \<not> gc_ulid_ok env i then Inl (status_of InvalidArgument ''identifier is invalid'') else Inr p))) of
        Inl e \<Rightarrow> (Inl e, db)
      | Inr p \<Rightarrow> read_commit p i seen now db)"

subsection \<open>Approving\<close>

record approval_proof =
  pf_reference :: string
  pf_totp :: string
  pf_expected_hash :: string

definition log_attempt :: "string option \<Rightarrow> string \<Rightarrow> string \<Rightarrow> string \<Rightarrow> guardian_db \<Rightarrow> guardian_db" where
  "log_attempt approval actor outcome reason db =
     db\<lparr>db_attempts := db_attempts db @ [\<lparr>at_approval_id = approval, at_actor_id = actor, at_outcome = outcome, at_reason = reason\<rparr>]\<rparr>"

definition expire_locked :: "string \<Rightarrow> principal \<Rightarrow> int \<Rightarrow> guardian_db \<Rightarrow> guardian_db" where
  "expire_locked i p now db =
     log_event i (Some PsPending) PsExpired (pn_actor_id p) (pn_grant_id p) ''approval_expired''
       (set_proposal_state i PsExpired now db)"

definition consume_challenge :: "string \<Rightarrow> string option \<Rightarrow> int \<Rightarrow> guardian_db \<Rightarrow> guardian_db" where
  "consume_challenge c session now db =
     db\<lparr>db_challenges := hm_modify c (\<lambda>r. if su_consumed_ts r = None
        then r\<lparr>su_consumed_ts := Some now, su_session_id := session\<rparr> else r) (db_challenges db)\<rparr>"

definition fail_reference :: "string \<Rightarrow> int \<Rightarrow> guardian_db \<Rightarrow> guardian_db" where
  "fail_reference i now db =
     db\<lparr>db_references := hm_modify i (\<lambda>r. if ar_status r = RefPending
        then r\<lparr>ar_status := RefFailed, ar_consumed_ts := Some now\<rparr> else r) (db_references db)\<rparr>"

definition approve_reference :: "string \<Rightarrow> int \<Rightarrow> guardian_db \<Rightarrow> guardian_db" where
  "approve_reference i now db =
     db\<lparr>db_references := hm_modify i (\<lambda>r. r\<lparr>ar_status := RefApproved, ar_consumed_ts := Some now\<rparr>) (db_references db)\<rparr>"

definition approve_row :: "string \<Rightarrow> int \<Rightarrow> guardian_db \<Rightarrow> guardian_db" where
  "approve_row i now db =
     db\<lparr>db_proposals := hm_modify i (\<lambda>p. p\<lparr>gp_state := PsApproved, gp_approved_at := Some now,
        gp_approval_expires_at := Some (now + 60000), gp_updated_ts := now\<rparr>) (db_proposals db)\<rparr>"

definition reference_bound :: "principal \<Rightarrow> string \<Rightarrow> int \<Rightarrow> approval_reference \<Rightarrow> bool" where
  "reference_bound p i now r \<longleftrightarrow> ar_actor_id r = pn_actor_id p \<and> ar_action r = ''guardian'' \<and> ar_target_id r = i
     \<and> ar_requires_step_up r \<and> ar_status r = RefPending \<and> now < ar_expires_ts r"

definition challenge_bound :: "principal \<Rightarrow> string \<Rightarrow> int \<Rightarrow> step_up_row \<Rightarrow> bool" where
  "challenge_bound p i now c \<longleftrightarrow> su_actor_id c = pn_actor_id p \<and> su_action c = ''guardian_approval''
     \<and> su_target_id c = Some i \<and> now < su_expires_ts c \<and> su_consumed_ts c = None"

definition prior_invalid :: "string \<Rightarrow> string \<Rightarrow> guardian_db \<Rightarrow> nat" where
  "prior_invalid reference actor db =
     length (filter (\<lambda>a. at_approval_id a = Some reference \<and> at_actor_id a = actor \<and> at_reason a = ''totp_invalid'') (db_attempts db))"

text \<open>The checks of the stored proposal, then of the reference, the challenge and the code.\<close>

definition denied_attempt :: "approval_reference \<Rightarrow> principal \<Rightarrow> string \<Rightarrow> grpc_code \<Rightarrow> string \<Rightarrow> guardian_db
    \<Rightarrow> (status + wire_proposal) \<times> guardian_db" where
  "denied_attempt r p reason code msg db =
     (Inl (status_of code msg), log_attempt (Some (ar_id r)) (pn_actor_id p) ''denied'' reason db)"

definition check_totp ::
  "grpc_env \<Rightarrow> principal \<Rightarrow> string \<Rightarrow> approval_proof \<Rightarrow> proposal_row \<Rightarrow> approval_reference \<Rightarrow> step_up_row \<Rightarrow> int \<Rightarrow> guardian_db
     \<Rightarrow> (status + wire_proposal) \<times> guardian_db" where
  "check_totp env p i evidence row r c now db =
     (case pn_totp_secret_ref p of
        None \<Rightarrow> denied_attempt r p ''totp_not_enrolled'' FailedPrecondition ''operator TOTP is not enrolled'' db
      | Some secret \<Rightarrow>
          (case gc_totp env secret (pf_totp evidence) (nat (now div 1000)) of
             Inl _ \<Rightarrow> denied_attempt r p ''totp_verifier_unavailable'' Unavailable ''TOTP verifier is unavailable'' db
           | Inr False \<Rightarrow>
               if 4 \<le> prior_invalid (ar_id r) (pn_actor_id p) db
               then denied_attempt r p ''totp_attempt_limit'' FailedPrecondition
                      ''approval challenge failed after too many TOTP attempts''
                      (fail_reference (ar_id r) now (consume_challenge (su_id c) (pn_session_id p) now db))
               else denied_attempt r p ''totp_invalid'' FailedPrecondition ''fresh TOTP verification failed'' db
           | Inr True \<Rightarrow>
               (Inr (wire_proposal_of i PsApproved (gp_policy_trace row) (gp_hash row)),
                log_event i (Some PsPending) PsApproved (pn_actor_id p) (pn_grant_id p) ''human_step_up''
                  (log_attempt (Some (ar_id r)) (pn_actor_id p) ''approved'' ''guardian_approved''
                    (approve_row i now (approve_reference (ar_id r) now
                      (consume_challenge (su_id c) (pn_session_id p) now db)))))))"

definition check_binding ::
  "grpc_env \<Rightarrow> principal \<Rightarrow> string \<Rightarrow> approval_proof \<Rightarrow> proposal_row \<Rightarrow> int \<Rightarrow> guardian_db \<Rightarrow> (status + wire_proposal) \<times> guardian_db" where
  "check_binding env p i evidence row now db =
     (let reference_hash = encode_hex (gc_sha256 env (pf_reference evidence)) in
      case find (\<lambda>r. ar_token_hash r = reference_hash) (map snd (db_references db)) of
        None \<Rightarrow> (Inl (status_of FailedPrecondition ''approval reference is invalid''), db)
      | Some r \<Rightarrow>
          if \<not> reference_bound p i now r
          then denied_attempt r p ''reference_binding_failed'' FailedPrecondition ''approval reference binding failed'' db
          else
            (case find (\<lambda>c. su_token_hash c = reference_hash \<and> su_reference_id c = ar_id r) (map snd (db_challenges db)) of
               None \<Rightarrow> (Inl (status_of FailedPrecondition ''step-up challenge is missing''), db)
             | Some c \<Rightarrow>
                 if \<not> challenge_bound p i now c
                 then denied_attempt r p ''step_up_binding_failed'' FailedPrecondition ''step-up challenge binding failed'' db
                 else check_totp env p i evidence row r c now db))"

definition approve_commit ::
  "grpc_env \<Rightarrow> principal \<Rightarrow> string \<Rightarrow> approval_proof \<Rightarrow> int \<Rightarrow> guardian_db \<Rightarrow> (status + wire_proposal) \<times> guardian_db" where
  "approve_commit env p i evidence now db =
     (case revalidate_principal p approval_scope 4 True now db of
        Inl e \<Rightarrow> (Inl e, db)
      | Inr _ \<Rightarrow>
      (case proposal_at db i of
         None \<Rightarrow> (Inl (status_of NotFound ''proposal was not found''), db)
       | Some row \<Rightarrow>
           (case gp_tx_spec row of
              None \<Rightarrow> (Inl (status_of FailedPrecondition ''stored proposal payload is invalid''), db)
            | Some tx \<Rightarrow>
                (case gp_custody row of
                   None \<Rightarrow> (Inl (status_of FailedPrecondition ''stored custody mode is invalid''), db)
                 | Some custody \<Rightarrow>
                     if gp_state row \<noteq> PsPending
                     then (Inl (status_of FailedPrecondition ''proposal is not pending''), db)
                     else if gp_expires_ts row \<le> now
                     then (Inl (status_of FailedPrecondition ''proposal is expired''), expire_locked i p now db)
                     else if \<not> same_text (gp_hash row) (gc_hash env tx custody)
                          \<or> \<not> same_text (gp_hash row) (pf_expected_hash evidence)
                     then (Inl (status_of FailedPrecondition ''proposal hash binding failed''), db)
                     else check_binding env p i evidence row now db))))"

text \<open>Who calls and with which proof, decided before the transaction begins.\<close>

definition approve_admit ::
  "grpc_env \<Rightarrow> request_metadata \<Rightarrow> string \<Rightarrow> approval_proof option \<Rightarrow> int \<Rightarrow> guardian_db
     \<Rightarrow> status + (principal \<times> approval_proof)" where
  "approve_admit env md i body now db =
     (if \<not> gc_keystore_available env then Inl (status_of Unavailable ''Guardian keystore is unavailable'')
      else
        and_then (authenticate env md now db) (\<lambda>p.
        if pn_actor_kind p \<noteq> ''human'' \<or> pn_session_id p = None
        then Inl (status_of Unauthenticated ''human session is required'')
        else
        and_then (grant_scopes (pn_grant_id p) db) (\<lambda>scopes.
        and_then (require_scope p scopes approval_scope 4) (\<lambda>_.
        if \<not> gc_ulid_ok env i then Inl (status_of InvalidArgument ''identifier is invalid'')
        else and_then (ok_or (status_of FailedPrecondition ''approval proof is required'') body) (\<lambda>a.
        if length (pf_reference a) < 32 \<or> length (pf_totp a) \<noteq> 6
        then Inl (status_of FailedPrecondition ''approval proof is invalid'')
        else if now < 0 then Inl (status_of Internal ''system clock is invalid'')
        else Inr (p, a))))))"

definition grpc_approve ::
  "grpc_env \<Rightarrow> request_metadata \<Rightarrow> string \<Rightarrow> approval_proof option \<Rightarrow> int \<Rightarrow> guardian_db \<Rightarrow> (status + wire_proposal) \<times> guardian_db" where
  "grpc_approve env md i body now db =
     (case approve_admit env md i body now db of
        Inl e \<Rightarrow> (Inl e, db)
      | Inr (p, a) \<Rightarrow> approve_commit env p i a now db)"

text \<open>An admitted caller is the user of a human session, with the secret enrolled for that user.\<close>

lemma current_grant_principal:
  assumes "current_grant actor kind tier session totp now db = Inr p"
  shows "pn_actor_id p = actor \<and> pn_actor_kind p = kind \<and> pn_session_id p = session \<and> pn_totp_secret_ref p = totp"
  using assms by (auto simp: current_grant_def Let_def split: option.splits if_splits)

lemma authenticated_session:
  assumes "authenticate env md now db = Inr p" "pn_session_id p \<noteq> None"
  obtains s where "s \<in> set (db_sessions db)" "live_session now s" "sn_origin_kind s = ''human''"
    "pn_actor_id p = sn_user_id s" "pn_actor_kind p = ''human''" "pn_session_id p = Some (sn_id s)"
    "pn_totp_secret_ref p = hm_get (db_totp_refs db) (sn_user_id s)"
proof -
  from assms obtain s t where "find (\<lambda>s. sn_token_hash s = t \<and> live_session now s) (db_sessions db) = Some s"
      "sn_origin_kind s = ''human''"
    and grant: "current_grant (sn_user_id s) (sn_origin_kind s) (Some (sn_tier s)) (Some (sn_id s))
         (hm_get (db_totp_refs db) (sn_user_id s)) now db = Inr p"
    by (auto simp: authenticate_def and_then_Inr_iff dest: current_grant_principal split: if_splits option.splits)
  moreover from this(1) have "s \<in> set (db_sessions db)" "live_session now s" by (auto simp: find_Some_iff)
  ultimately show thesis using that current_grant_principal [OF grant] by simp
qed

lemma approve_admit_human:
  assumes "approve_admit env md i body now db = Inr (p, a)"
  obtains s where "s \<in> set (db_sessions db)" "live_session now s" "sn_origin_kind s = ''human''"
    "pn_actor_id p = sn_user_id s" "pn_actor_kind p = ''human''" "pn_session_id p = Some (sn_id s)"
    "pn_totp_secret_ref p = hm_get (db_totp_refs db) (sn_user_id s)"
proof -
  from assms have "authenticate env md now db = Inr p" "pn_session_id p \<noteq> None"
    by (auto simp: approve_admit_def and_then_Inr_iff split: if_splits)
  then show thesis using that by (rule authenticated_session)
qed

end
