(* ===== verification/Guardian_Durable.thy ===== *)
theory Guardian_Durable
  imports Guardian_Worker Guardian_Grpc
begin

text \<open>
  Runs of the durable wallet guardian: the transactions of the gRPC calls (\<^verbatim>\<open>grpc.rs\<close>) and of the
  broadcast workers (\<^verbatim>\<open>worker.rs\<close>) interleave on the tables of \<open>Guardian_Db\<close>. A worker applies
  what it decided about a job to the tables of a later moment, so a step takes any decision about
  a job with the row's immutable columns; a call that reads a proposal may have waited for it, and then
  takes its job from an older snapshot. The lemmas show that live jobs of a chain never share a
  nonce, that a job and its proposal agree or the proposal has expired, and that a job signs the
  transaction of its proposal, which a human approved with a verified code unless it moves no value and
  calls no contract.
\<close>

subsection \<open>What a validated transaction is\<close>

lemma validated_quantity:
  assumes "validate_hex_quantity v f = Inr n"
  shows "parse_hex_quantity v = Some n"
proof -
  from assms obtain d where d: "Option.bind (strip_prefix ''0x'' v) (\<lambda>d. if canonical_digits d then Some d else None) = Some d"
    and n: "from_hex 128 d = Some n"
    by (cases "Option.bind (strip_prefix ''0x'' v) (\<lambda>d. if canonical_digits d then Some d else None)")
      (simp_all add: validate_hex_quantity_def ok_or_Inr_iff)
  from d have s: "strip_prefix ''0x'' v = Some d" and c: "canonical_digits d"
    by (cases "strip_prefix ''0x'' v"; simp split: if_splits)+
  from c have "\<not> (d = [] \<or> 1 < length d \<and> starts_with ''0'' d \<or> \<not> list_all is_ascii_hexdigit d)"
    unfolding canonical_digits_def by auto
  then show ?thesis unfolding parse_hex_quantity_def s bind.bind_lunit by (simp only: if_False n)
qed

text \<open>\<open>inert\<close>: no calldata and no value.\<close>

definition inert :: "tx_spec \<Rightarrow> bool" where
  "inert tx \<longleftrightarrow> eq_ignore_ascii_case (tx_data tx) ''0x'' \<and> parse_hex_quantity (tx_value tx) = Some 0"

lemma parsed_value:
  assumes "parse_wire_tx w = Inr (tx, custody, asset, decimals)"
  shows "parse_hex_quantity (tx_value tx) \<noteq> None"
proof -
  from assms obtain n where "validate_hex_quantity (wx_value w) ''value'' = Inr n" "tx_value tx = wx_value w"
    by (auto simp: parse_wire_tx_def and_then_Inr_iff split: if_splits)
  then show ?thesis using validated_quantity by fastforce
qed

subsection \<open>Effects of the calls\<close>

lemma insert_proposal_tables [simp]:
  "proposal_at (insert_proposal i tx c s tr h d g now db) = (proposal_at db)(i \<mapsto>
     \<lparr>gp_tx_spec = Some tx, gp_state = s, gp_custody = Some c, gp_policy_trace = tr, gp_hash = h,
        gp_value_delta_usd = d, gp_grant_id = g,
        gp_approved_at = (if s = PsAutoApproved then Some now else None),
        gp_approval_expires_at = (if s = PsAutoApproved then Some (now + 60000) else None),
        gp_expires_ts = now + 600000, gp_tx_hash = None, gp_updated_ts = now\<rparr>)"
  "job_at (insert_proposal i tx c s tr h d g now db) = job_at db"
  "db_nonces (insert_proposal i tx c s tr h d g now db) = db_nonces db"
  "db_events (insert_proposal i tx c s tr h d g now db) = db_events db"
  "db_jobs (insert_proposal i tx c s tr h d g now db) = db_jobs db"
  by (auto simp: insert_proposal_def proposal_at_def job_at_def fun_eq_iff hm_get_put)

lemma propose_commit_effect:
  assumes "propose_commit env p tx custody delta sim i now db = Some (r, db')"
  obtains (refused) "db' = db" "\<exists>e. r = Inl e"
  | (stored) v daily dest where
      "evaluate_with_simulation (gc_dec env) (seed_engine (grpc_engine env) daily (tx_to tx) dest) tx sim
         (delta > 0 \<or> \<not> eq_ignore_ascii_case (tx_data tx) ''0x'') (pn_tier p) = Some v"
      "r = Inr (wire_proposal_of i (verdict_state v) (pr_trace v) (gc_hash env tx custody))"
      "db' = log_event i None (verdict_state v) (pn_actor_id p) (pn_grant_id p) ''policy_evaluated''
         (insert_proposal i tx custody (verdict_state v) (pr_trace v) (gc_hash env tx custody) delta (pn_grant_id p) now db)"
proof (cases "and_then (revalidate_principal p propose_scope 4 False now db) (\<lambda>_. durable_usage env (tx_to tx) now db)")
  case (Inl e)
  with assms have "db' = db" "r = Inl e" by (simp_all add: propose_commit_def)
  with refused show thesis by blast
next
  case (Inr u)
  then obtain daily dest where u: "u = (daily, dest)" by fastforce
  with Inr assms obtain v where v: "evaluate_with_simulation (gc_dec env) (seed_engine (grpc_engine env) daily (tx_to tx) dest) tx sim
         (delta > 0 \<or> \<not> eq_ignore_ascii_case (tx_data tx) ''0x'') (pn_tier p) = Some v"
    by (auto simp: propose_commit_def)
  show thesis
    by (rule stored [OF v]) (use assms Inr u v in \<open>simp_all add: propose_commit_def Let_def\<close>)
qed

text \<open>The policy approves by itself only what neither calls a contract nor has a price.\<close>

lemma auto_verdict:
  assumes "evaluate_with_simulation ops e tx sim (delta > 0 \<or> \<not> eq_ignore_ascii_case (tx_data tx) ''0x'') tier = Some v"
    "verdict_state v = PsAutoApproved" "parse_hex_quantity (tx_value tx) = Some n" "sr_value_delta_usd sim = delta \<or> sr_value_delta_usd sim \<le> 0"
  shows "inert tx"
proof -
  have a: "pr_allowed v" "\<not> pr_requires_human v"
    using assms(2) by (auto simp: verdict_state_def split: if_splits)
  with policy_decides [OF assms(1)] have d: "\<not> delta > 0" "eq_ignore_ascii_case (tx_data tx) ''0x''"
    and v: "\<not> (tx_has_value tx \<and> sr_value_delta_usd sim \<le> 0)" by auto
  from d(1) assms(4) have "sr_value_delta_usd sim \<le> 0" by auto
  with v have "\<not> tx_has_value tx" by simp
  with assms(3) have "n = 0" by (simp add: tx_has_value_def)
  with d assms(3) show ?thesis by (simp add: inert_def)
qed

text \<open>The simulation reports the requested value, or nothing.\<close>

lemma simulate_async_delta:
  "sr_value_delta_usd (simulate_async tx chain v rpc) = v \<or> sr_value_delta_usd (simulate_async tx chain v rpc) \<le> 0"
  by (auto simp: simulate_async_def local_validate_def sim_failed_def Let_def split: option.splits sum.splits)

lemma read_commit_effect:
  assumes "read_commit p i seen now db = (r, db')"
  obtains (same) "db' = db"
  | (expired) row actor grant where "proposal_at db i = Some row" "read_stale now row seen"
      "db' = log_event i (Some (gp_state row)) PsExpired actor grant ''proposal_expired'' (set_proposal_state i PsExpired now db)"
proof (cases "revalidate_principal p (if pn_actor_kind p = ''human'' then approval_scope else propose_scope) 4
    (pn_actor_kind p = ''human'') now db")
  case (Inl e)
  with assms have "db' = db" unfolding read_commit_def Let_def by simp
  with same show thesis by blast
next
  case (Inr u)
  show thesis
  proof (cases "proposal_at db i")
    case None
    with Inr assms have "db' = db" unfolding read_commit_def Let_def by simp
    with same show thesis by blast
  next
    case (Some row)
    show thesis
    proof (cases "read_stale now row seen")
      case False
      with Inr Some assms have "db' = db" unfolding read_commit_def Let_def by simp
      with same show thesis by blast
    next
      case True
      with Inr Some assms have "db' = log_event i (Some (gp_state row)) PsExpired (pn_actor_id p) (pn_grant_id p)
          ''proposal_expired'' (set_proposal_state i PsExpired now db)" unfolding read_commit_def Let_def by simp
      with expired [OF Some True] show thesis by blast
    qed
  qed
qed

lemma log_attempt_tables [simp]:
  "proposal_at (log_attempt a b c d db) = proposal_at db" "job_at (log_attempt a b c d db) = job_at db"
  "db_nonces (log_attempt a b c d db) = db_nonces db" "db_events (log_attempt a b c d db) = db_events db"
  "db_references (log_attempt a b c d db) = db_references db" "db_challenges (log_attempt a b c d db) = db_challenges db"
  by (simp_all add: log_attempt_def proposal_at_def job_at_def fun_eq_iff)

lemma challenge_tables [simp]:
  "proposal_at (consume_challenge c s now db) = proposal_at db" "job_at (consume_challenge c s now db) = job_at db"
  "db_nonces (consume_challenge c s now db) = db_nonces db" "db_events (consume_challenge c s now db) = db_events db"
  "proposal_at (fail_reference i now db) = proposal_at db" "job_at (fail_reference i now db) = job_at db"
  "db_nonces (fail_reference i now db) = db_nonces db" "db_events (fail_reference i now db) = db_events db"
  "proposal_at (approve_reference i now db) = proposal_at db" "job_at (approve_reference i now db) = job_at db"
  "db_nonces (approve_reference i now db) = db_nonces db" "db_events (approve_reference i now db) = db_events db"
  by (simp_all add: consume_challenge_def fail_reference_def approve_reference_def proposal_at_def job_at_def fun_eq_iff)

lemma approve_row_tables [simp]:
  "proposal_at (approve_row i now db) = (proposal_at db)(i := map_option (\<lambda>p. p\<lparr>gp_state := PsApproved,
     gp_approved_at := Some now, gp_approval_expires_at := Some (now + 60000), gp_updated_ts := now\<rparr>) (proposal_at db i))"
  "job_at (approve_row i now db) = job_at db" "db_nonces (approve_row i now db) = db_nonces db"
  "db_events (approve_row i now db) = db_events db"
  by (auto simp: approve_row_def proposal_at_def job_at_def fun_eq_iff hm_get_modify)

lemma event_log [simp]:
  "db_events (log_event i f t a g r db) = db_events db @ [\<lparr>ge_proposal_id = i, ge_from_state = f, ge_to_state = t,
     ge_actor_id = a, ge_grant_id = g, ge_reason = r\<rparr>]"
  "db_events (set_proposal_state i s now db) = db_events db" "db_events (update_job i f' db) = db_events db"
  by (simp_all add: log_event_def set_proposal_state_def update_job_def)

text \<open>What an approval has checked when it succeeds.\<close>

definition approval_checked ::
  "grpc_env \<Rightarrow> principal \<Rightarrow> string \<Rightarrow> approval_proof \<Rightarrow> int \<Rightarrow> guardian_db \<Rightarrow> proposal_row \<Rightarrow> approval_reference \<Rightarrow> step_up_row \<Rightarrow> bool" where
  "approval_checked env p i a now db row r c \<longleftrightarrow>
     revalidate_principal p approval_scope 4 True now db = Inr ()
     \<and> proposal_at db i = Some row \<and> gp_state row = PsPending \<and> now < gp_expires_ts row
     \<and> (\<exists>tx custody. gp_tx_spec row = Some tx \<and> gp_custody row = Some custody \<and> same_text (gp_hash row) (gc_hash env tx custody))
     \<and> same_text (gp_hash row) (pf_expected_hash a)
     \<and> r \<in> snd ` set (db_references db) \<and> c \<in> snd ` set (db_challenges db)
     \<and> ar_token_hash r = encode_hex (gc_sha256 env (pf_reference a)) \<and> reference_bound p i now r
     \<and> su_token_hash c = ar_token_hash r \<and> su_reference_id c = ar_id r \<and> challenge_bound p i now c
     \<and> (\<exists>secret. pn_totp_secret_ref p = Some secret \<and> gc_totp env secret (pf_totp a) (nat (now div 1000)) = Inr True)"

definition approved_db :: "principal \<Rightarrow> string \<Rightarrow> int \<Rightarrow> approval_reference \<Rightarrow> step_up_row \<Rightarrow> guardian_db \<Rightarrow> guardian_db" where
  "approved_db p i now r c db =
     log_event i (Some PsPending) PsApproved (pn_actor_id p) (pn_grant_id p) ''human_step_up''
       (log_attempt (Some (ar_id r)) (pn_actor_id p) ''approved'' ''guardian_approved''
         (approve_row i now (approve_reference (ar_id r) now (consume_challenge (su_id c) (pn_session_id p) now db))))"

lemma approved_db_jobs [simp]:
  "db_jobs (approved_db p i now r c db) = db_jobs db" "db_nonces (approved_db p i now r c db) = db_nonces db"
  "job_at (approved_db p i now r c db) = job_at db"
  by (simp_all add: approved_db_def log_attempt_def approve_row_def approve_reference_def consume_challenge_def job_at_def
      log_event_def fun_eq_iff)

lemma find_SomeD: "find P xs = Some x \<Longrightarrow> x \<in> set xs \<and> P x"
  by (induction xs) (auto split: if_splits)

lemma check_totp_effect:
  assumes "check_totp env p i a row r c now db = (x, db')"
  obtains (denied) "\<exists>e. x = Inl e" "proposal_at db' = proposal_at db" "job_at db' = job_at db"
      "db_nonces db' = db_nonces db" "db_events db' = db_events db"
  | (approved) secret where "x = Inr (wire_proposal_of i PsApproved (gp_policy_trace row) (gp_hash row))"
      "db' = approved_db p i now r c db" "pn_totp_secret_ref p = Some secret"
      "gc_totp env secret (pf_totp a) (nat (now div 1000)) = Inr True"
  using assms
  by (auto simp: check_totp_def denied_attempt_def approved_db_def split: option.splits sum.splits bool.splits if_splits)

lemma check_binding_effect:
  assumes "check_binding env p i a row now db = (x, db')"
  obtains (denied) "\<exists>e. x = Inl e" "proposal_at db' = proposal_at db" "job_at db' = job_at db"
      "db_nonces db' = db_nonces db" "db_events db' = db_events db"
  | (checked) r c where "r \<in> snd ` set (db_references db)" "c \<in> snd ` set (db_challenges db)"
      "ar_token_hash r = encode_hex (gc_sha256 env (pf_reference a))" "reference_bound p i now r"
      "su_token_hash c = ar_token_hash r" "su_reference_id c = ar_id r" "challenge_bound p i now c"
      "check_totp env p i a row r c now db = (x, db')"
proof (cases "find (\<lambda>r. ar_token_hash r = encode_hex (gc_sha256 env (pf_reference a))) (map snd (db_references db))")
  case None
  with assms have "\<exists>e. x = Inl e" "db' = db" by (auto simp: check_binding_def)
  with denied show thesis by simp
next
  case (Some r)
  note r = find_SomeD [OF Some]
  show thesis
  proof (cases "reference_bound p i now r")
    case False
    with Some assms denied show thesis by (auto simp: check_binding_def denied_attempt_def)
  next
    case bound: True
    show thesis
    proof (cases "find (\<lambda>c. su_token_hash c = encode_hex (gc_sha256 env (pf_reference a)) \<and> su_reference_id c = ar_id r)
        (map snd (db_challenges db))")
      case None
      with Some bound assms have "\<exists>e. x = Inl e" "db' = db" by (auto simp: check_binding_def)
      with denied show thesis by simp
    next
      case c: (Some c)
      note cc = find_SomeD [OF c]
      show thesis
      proof (cases "challenge_bound p i now c")
        case False
        with Some bound c assms denied show thesis by (auto simp: check_binding_def denied_attempt_def)
      next
        case True
        with Some bound c assms have "check_totp env p i a row r c now db = (x, db')" by (simp add: check_binding_def)
        with r cc bound True show thesis by (intro checked [of r c]) simp_all
      qed
    qed
  qed
qed

lemma approve_commit_effect:
  assumes "approve_commit env p i a now db = (x, db')"
  obtains (denied) "\<exists>e. x = Inl e" "proposal_at db' = proposal_at db" "job_at db' = job_at db"
      "db_nonces db' = db_nonces db" "db_events db' = db_events db"
  | (expired) row where "\<exists>e. x = Inl e" "proposal_at db i = Some row" "gp_state row = PsPending" "db' = expire_locked i p now db"
  | (approved) row r c where "approval_checked env p i a now db row r c"
      "x = Inr (wire_proposal_of i PsApproved (gp_policy_trace row) (gp_hash row))" "db' = approved_db p i now r c db"
proof (cases "\<exists>row tx custody. revalidate_principal p approval_scope 4 True now db = Inr () \<and> proposal_at db i = Some row
    \<and> gp_tx_spec row = Some tx \<and> gp_custody row = Some custody \<and> gp_state row = PsPending")
  case False
  with assms denied show thesis
    by (auto simp: approve_commit_def split: sum.splits option.splits if_splits)
next
  case True
  then obtain row tx custody where t: "revalidate_principal p approval_scope 4 True now db = Inr ()" "proposal_at db i = Some row"
    "gp_tx_spec row = Some tx" "gp_custody row = Some custody" "gp_state row = PsPending" by blast
  show thesis
  proof (cases "gp_expires_ts row \<le> now")
    case True
    with t assms have "\<exists>e. x = Inl e" "db' = expire_locked i p now db" by (auto simp: approve_commit_def)
    with expired t(2,5) show thesis by blast
  next
    case fresh: False
    show thesis
    proof (cases "same_text (gp_hash row) (gc_hash env tx custody) \<and> same_text (gp_hash row) (pf_expected_hash a)")
      case False
      with t fresh assms denied show thesis by (auto simp: approve_commit_def)
    next
      case hash: True
      with t fresh assms have "check_binding env p i a row now db = (x, db')" by (simp add: approve_commit_def)
      then show thesis
      proof (cases rule: check_binding_effect)
        case d: denied
        with denied show thesis by blast
      next
        case b: (checked r c)
        from b(8) show thesis
        proof (cases rule: check_totp_effect)
          case d: denied
          with denied show thesis by blast
        next
          case ok: (approved secret)
          have "approval_checked env p i a now db row r c"
            unfolding approval_checked_def using t fresh hash b ok(3,4) by auto
          with approved ok show thesis by blast
        qed
      qed
    qed
  qed
qed

subsection \<open>Interleaved transactions\<close>

text \<open>
  A step is one transaction, and its label keeps what an approval was given. With \<open>racing\<close> any number of
  workers prepare jobs and a read may have waited for its proposal while the job changed; without it
  one worker prepares jobs, so a proposal it prepares has none yet, and a read sees the current job.
  Other services change the tables of sessions, grants, references, challenges, TOTP secrets and prices.
\<close>

datatype durable_label = ApproveCall grpc_env principal string approval_proof int | OtherCall

inductive durable_step :: "bool \<Rightarrow> durable_label \<Rightarrow> guardian_db \<Rightarrow> guardian_db \<Rightarrow> bool" for racing where
  propose: "parse_wire_tx wire = Inr (tx, custody, asset, decimals) \<Longrightarrow> proposal_at db i = None
    \<Longrightarrow> sim = simulate_async tx chain delta rpc
    \<Longrightarrow> propose_commit env p tx custody delta sim i now db = Some (r, db') \<Longrightarrow> durable_step racing OtherCall db db'"
| read: "racing \<or> seen = job_at db i \<Longrightarrow> read_commit p i seen now db = (r, db') \<Longrightarrow> durable_step racing OtherCall db db'"
| approve: "approve_commit env p i a now db = (r, db') \<Longrightarrow> durable_step racing (ApproveCall env p i a now) db db'"
| expire: "expire_unclaimed_one i now db = (b, db') \<Longrightarrow> durable_step racing OtherCall db db'"
| prepare: "proposal_at db i = Some row \<Longrightarrow> gp_tx_spec row = Some tx \<Longrightarrow> racing \<or> job_at db i = None
    \<Longrightarrow> prepare_commit keccak sign i tx (int (tx_chain_id tx)) pending now db = (x, db')
    \<Longrightarrow> durable_step racing OtherCall db db'"
| reconcile: "job_at db (jo_proposal_id j) = Some row \<Longrightarrow> jo_chain_id j = jb_chain_id row
    \<Longrightarrow> jo_nonce j = jb_nonce row \<Longrightarrow> jo_tx_hash j = jb_tx_hash row
    \<Longrightarrow> durable_step racing OtherCall db (apply_action j a now db)"
| outside: "db_proposals db' = db_proposals db \<Longrightarrow> db_jobs db' = db_jobs db \<Longrightarrow> db_nonces db' = db_nonces db
    \<Longrightarrow> db_events db' = db_events db \<Longrightarrow> durable_step racing OtherCall db db'"

inductive durable_reaches :: "bool \<Rightarrow> guardian_db \<Rightarrow> guardian_db \<Rightarrow> bool" for racing db where
  start: "durable_reaches racing db db"
| step: "durable_reaches racing db db' \<Longrightarrow> durable_step racing l db' db'' \<Longrightarrow> durable_reaches racing db db''"

text \<open>
  A run with its history: each transaction and the tables before it. An approval was admitted, that is
  authenticated and checked for its scope, on the tables of some moment of the run up to then.
\<close>

primrec admitted_at :: "guardian_db list \<Rightarrow> durable_label \<Rightarrow> bool" where
  "admitted_at dbs (ApproveCall env p i a now) =
     list_ex (\<lambda>d. \<exists>md body t. approve_admit env md i body t d = Inr (p, a)) dbs"
| "admitted_at dbs OtherCall = True"

inductive durable_run :: "bool \<Rightarrow> guardian_db \<Rightarrow> (durable_label \<times> guardian_db) list \<Rightarrow> guardian_db \<Rightarrow> bool" for racing db where
  start: "durable_run racing db [] db"
| step: "durable_run racing db h db' \<Longrightarrow> durable_step racing l db' db'' \<Longrightarrow> admitted_at (map snd h @ [db']) l
    \<Longrightarrow> durable_run racing db (h @ [(l, db')]) db''"

definition tables_empty :: "guardian_db \<Rightarrow> bool" where
  "tables_empty db \<longleftrightarrow> db_proposals db = [] \<and> db_jobs db = [] \<and> db_nonces db = [] \<and> db_events db = []"

subsection \<open>Nonces of live jobs\<close>

definition live :: "job_row \<Rightarrow> bool" where
  "live r \<longleftrightarrow> jb_state r \<noteq> JobAbandoned"

definition nonce_inv :: "guardian_db \<Rightarrow> bool" where
  "nonce_inv db \<longleftrightarrow>
     (\<forall>i r. job_at db i = Some r \<longrightarrow> live r \<longrightarrow>
        (\<exists>n. hm_get (db_nonces db) (jb_chain_id r) = Some n \<and> jb_nonce r < n)) \<and>
     (\<forall>i k r s. job_at db i = Some r \<longrightarrow> job_at db k = Some s \<longrightarrow> i \<noteq> k \<longrightarrow> live r \<longrightarrow> live s
        \<longrightarrow> jb_chain_id r = jb_chain_id s \<longrightarrow> jb_nonce r \<noteq> jb_nonce s) \<and>
     (\<forall>i k r s. job_at db i = Some r \<longrightarrow> job_at db k = Some s \<longrightarrow> jb_state r = JobPrepared
        \<longrightarrow> jb_state s = JobPrepared \<longrightarrow> jb_chain_id r = jb_chain_id s \<longrightarrow> i = k)"

text \<open>A change of one job that keeps its chain and nonce, and makes nothing live or prepared.\<close>

definition tame :: "(job_row \<Rightarrow> job_row) \<Rightarrow> job_row \<Rightarrow> bool" where
  "tame f r \<longleftrightarrow> jb_chain_id (f r) = jb_chain_id r \<and> jb_nonce (f r) = jb_nonce r \<and> jb_tx_hash (f r) = jb_tx_hash r
     \<and> (live (f r) \<longrightarrow> live r) \<and> (jb_state (f r) = JobPrepared \<longrightarrow> jb_state r = JobPrepared)"

lemma nonce_inv_same: "job_at db' = job_at db \<Longrightarrow> db_nonces db' = db_nonces db \<Longrightarrow> nonce_inv db \<Longrightarrow> nonce_inv db'"
  by (simp add: nonce_inv_def)

lemma nonce_inv_update:
  assumes "nonce_inv db" "job_at db' = (job_at db)(i := map_option f (job_at db i))" "db_nonces db' = db_nonces db"
    "\<And>r. job_at db i = Some r \<Longrightarrow> tame f r"
  shows "nonce_inv db'"
proof -
  have from_old: "\<exists>s. job_at db k = Some s \<and> jb_chain_id r = jb_chain_id s \<and> jb_nonce r = jb_nonce s
      \<and> (live r \<longrightarrow> live s) \<and> (jb_state r = JobPrepared \<longrightarrow> jb_state s = JobPrepared)" if "job_at db' k = Some r" for k r
    using that assms(2,4) by (cases "k = i") (auto simp: tame_def)
  have "\<exists>n. hm_get (db_nonces db') (jb_chain_id r) = Some n \<and> jb_nonce r < n" if "job_at db' k = Some r" "live r" for k r
    using from_old [OF that(1)] that(2) assms(1,3) unfolding nonce_inv_def by metis
  moreover have "jb_nonce r \<noteq> jb_nonce s" if "job_at db' k = Some r" "job_at db' l = Some s" "k \<noteq> l" "live r" "live s"
      "jb_chain_id r = jb_chain_id s" for k l r s
    using from_old [OF that(1)] from_old [OF that(2)] that(3-6) assms(1) unfolding nonce_inv_def by metis
  moreover have "k = l" if "job_at db' k = Some r" "job_at db' l = Some s" "jb_state r = JobPrepared" "jb_state s = JobPrepared"
      "jb_chain_id r = jb_chain_id s" for k l r s
    using from_old [OF that(1)] from_old [OF that(2)] that(3-5) assms(1) unfolding nonce_inv_def by metis
  ultimately show ?thesis unfolding nonce_inv_def by blast
qed

lemma insert_job_tables [simp]:
  "proposal_at (insert_job i chain n raw h now db) = proposal_at db"
  "job_at (insert_job i chain n raw h now db) = (job_at db)(i \<mapsto> \<lparr>jb_chain_id = chain, jb_nonce = n, jb_signed_raw = raw,
     jb_tx_hash = h, jb_state = JobPrepared, jb_attempts = 0, jb_next_attempt_ts = now, jb_last_attempt_ts = None,
     jb_last_error_code = None, jb_updated_ts = now\<rparr>)"
  "hm_get (db_nonces (insert_job i chain n raw h now db)) c = (if c = chain
     then Some (case hm_get (db_nonces db) chain of None \<Rightarrow> n + 1 | Some m \<Rightarrow> max m (n + 1)) else hm_get (db_nonces db) c)"
  "db_events (insert_job i chain n raw h now db) = db_events db"
  by (auto simp: insert_job_def proposal_at_def job_at_def fun_eq_iff hm_get_put)

lemma no_prepared_job:
  "\<not> chain_has_prepared_job chain db \<Longrightarrow> job_at db i = Some r \<Longrightarrow> jb_chain_id r = chain \<Longrightarrow> jb_state r \<noteq> JobPrepared"
  by (auto simp: chain_has_prepared_job_def job_at_def list_ex_iff dest!: map_of_SomeD)

lemma nonce_inv_insert:
  assumes "nonce_inv db" "job_at db i = None" "\<not> chain_has_prepared_job chain db"
  shows "nonce_inv (insert_job i chain (next_durable_nonce chain pending db) raw h now db)"
proof -
  let ?n = "next_durable_nonce chain pending db"
  let ?db = "insert_job i chain ?n raw h now db"
  have old: "\<exists>m. hm_get (db_nonces db) (jb_chain_id r) = Some m \<and> jb_nonce r < m"
    if "job_at db k = Some r" "live r" for k r using assms(1) that unfolding nonce_inv_def by blast
  have below: "jb_nonce r < ?n" if "job_at db k = Some r" "live r" "jb_chain_id r = chain" for k r
    using old [OF that(1,2)] that(3) by (auto simp: next_durable_nonce_def get_or_def)
  have "\<exists>m. hm_get (db_nonces ?db) (jb_chain_id r) = Some m \<and> jb_nonce r < m" if "job_at ?db k = Some r" "live r" for k r
  proof (cases "k = i")
    case True
    with that(1) have "jb_chain_id r = chain" "jb_nonce r = ?n" by auto
    then show ?thesis by (simp add: less_max_iff_disj split: option.split)
  next
    case False
    with that(1) have k: "job_at db k = Some r" by simp
    from old [OF k that(2)] obtain m where m: "hm_get (db_nonces db) (jb_chain_id r) = Some m" "jb_nonce r < m" by blast
    then show ?thesis by (cases "jb_chain_id r = chain") auto
  qed
  moreover have "jb_nonce r \<noteq> jb_nonce s" if "job_at ?db k = Some r" "job_at ?db l = Some s" "k \<noteq> l" "live r" "live s"
      "jb_chain_id r = jb_chain_id s" for k l r s
  proof (cases "k = i \<or> l = i")
    case True
    with that below [of k r] below [of l s] show ?thesis by auto
  next
    case False
    with that assms(1) show ?thesis unfolding nonce_inv_def by simp
  qed
  moreover have "k = l" if "job_at ?db k = Some r" "job_at ?db l = Some s" "jb_state r = JobPrepared" "jb_state s = JobPrepared"
      "jb_chain_id r = jb_chain_id s" for k l r s
  proof (rule ccontr)
    assume "k \<noteq> l"
    then consider "k = i" "l \<noteq> i" | "k \<noteq> i" "l = i" | "k \<noteq> i" "l \<noteq> i" by blast
    then show False
    proof cases
      case 1
      with that(1,2) have "jb_chain_id r = chain" "job_at db l = Some s" by auto
      with no_prepared_job [OF assms(3)] that(4,5) show False by metis
    next
      case 2
      with that(1,2) have "jb_chain_id s = chain" "job_at db k = Some r" by auto
      with no_prepared_job [OF assms(3)] that(3,5) show False by metis
    next
      case 3
      then have "job_at db k = Some r" "job_at db l = Some s" using that(1,2) by simp_all
      with that(3-5) assms(1) \<open>k \<noteq> l\<close> show False unfolding nonce_inv_def by blast
    qed
  qed
  ultimately show ?thesis unfolding nonce_inv_def by blast
qed

lemma transition_to_broadcast_tables [simp]:
  "job_at (transition_to_broadcast j now db) = job_at db" "db_nonces (transition_to_broadcast j now db) = db_nonces db"
  by (auto simp: transition_to_broadcast_def insert_worker_event_def job_at_def Let_def fun_eq_iff split: option.splits)

lemma release_nonce_tables [simp]:
  "job_at (release_nonce c n db) = job_at db" "proposal_at (release_nonce c n db) = proposal_at db"
  "db_events (release_nonce c n db) = db_events db"
  by (simp_all add: release_nonce_def job_at_def proposal_at_def fun_eq_iff)

lemma nonce_inv_release:
  assumes "nonce_inv db" "\<And>k r. job_at db k = Some r \<Longrightarrow> live r \<Longrightarrow> jb_chain_id r = chain \<Longrightarrow> jb_nonce r \<noteq> n"
  shows "nonce_inv (release_nonce chain n db)"
proof (cases "hm_get (db_nonces db) chain = Some (n + 1)
    \<and> \<not> list_ex (\<lambda>(i, r). jb_chain_id r = chain \<and> jb_nonce r > n \<and> jb_state r \<noteq> JobAbandoned) (db_jobs db)")
  case False
  then have "release_nonce chain n db = db" by (auto simp: release_nonce_def)
  with assms(1) show ?thesis by simp
next
  case True
  then have nonces: "hm_get (db_nonces (release_nonce chain n db)) c = (if c = chain then Some n else hm_get (db_nonces db) c)" for c
    by (simp add: release_nonce_def hm_get_put)
  have less: "jb_nonce r < n" if "job_at db k = Some r" "live r" "jb_chain_id r = chain" for k r
  proof -
    have "\<not> jb_nonce r > n"
      using True that by (auto simp: job_at_def list_ex_iff live_def dest!: map_of_SomeD)
    with assms(2) [OF that] show ?thesis by simp
  qed
  have "\<exists>m. hm_get (db_nonces (release_nonce chain n db)) (jb_chain_id r) = Some m \<and> jb_nonce r < m"
    if "job_at db k = Some r" "live r" for k r
    using less [OF that] that assms(1) unfolding nonces nonce_inv_def by (cases "jb_chain_id r = chain") auto
  with assms(1) show ?thesis unfolding nonce_inv_def release_nonce_tables by blast
qed

lemma expire_proposal_tables [simp]:
  "job_at (expire_proposal i s g r now db) = job_at db" "db_nonces (expire_proposal i s g r now db) = db_nonces db"
  "proposal_at (expire_proposal i s g r now db) = (proposal_at db)
     (i := map_option (\<lambda>p. p\<lparr>gp_state := PsExpired, gp_updated_ts := now\<rparr>) (proposal_at db i))"
  by (simp_all add: expire_proposal_def insert_worker_event_def)

lemma worker_event_tables [simp]:
  "proposal_at (insert_worker_event i f t g r db) = proposal_at db" "job_at (insert_worker_event i f t g r db) = job_at db"
  "db_nonces (insert_worker_event i f t g r db) = db_nonces db" "db_jobs (insert_worker_event i f t g r db) = db_jobs db"
  by (simp_all add: insert_worker_event_def)

lemma prepare_commit_effect:
  assumes "prepare_commit keccak sign i tx chain pending now db = (x, db')"
  obtains (same) "db' = db"
  | (expired) p where "proposal_at db i = Some p" "approved_state (gp_state p)" "lapsed (gp_approval_expires_at p) now"
      "db' = expire_proposal i (gp_state p) (gp_grant_id p) ''approval_expired'' now db"
  | (prepared) p raw h where "proposal_at db i = Some p" "approved_state (gp_state p)" "\<not> lapsed (gp_approval_expires_at p) now"
      "job_at db i = None" "\<not> chain_has_prepared_job chain db" "0 \<le> next_durable_nonce chain pending db"
      "sign_eip1559_transaction keccak sign tx (nat (next_durable_nonce chain pending db)) (tx_chain_id tx)
         = (Inr raw :: string broadcast_error + string)"
      "db' = insert_worker_event i (Some (gp_state p)) (gp_state p) (gp_grant_id p) ''broadcast_prepared''
         (insert_job i chain (next_durable_nonce chain pending db) raw h now db)"
proof (cases "proposal_at db i")
  case None
  with assms same show thesis by (simp add: prepare_commit_def)
next
  case (Some p)
  let ?n = "next_durable_nonce chain pending db"
  let ?s = "sign_eip1559_transaction keccak sign tx (nat ?n) (tx_chain_id tx) :: string broadcast_error + string"
  consider (idle) "\<not> approved_state (gp_state p)"
    | (late) "approved_state (gp_state p)" "lapsed (gp_approval_expires_at p) now"
    | (busy) "approved_state (gp_state p)" "\<not> lapsed (gp_approval_expires_at p) now"
        "job_at db i \<noteq> None \<or> chain_has_prepared_job chain db \<or> ?n < 0"
    | (free) "approved_state (gp_state p)" "\<not> lapsed (gp_approval_expires_at p) now"
        "job_at db i = None" "\<not> chain_has_prepared_job chain db" "0 \<le> ?n"
    by force
  then show thesis
  proof cases
    case idle
    with Some assms same show thesis by (simp add: prepare_commit_def)
  next
    case late
    with Some assms have "db' = expire_proposal i (gp_state p) (gp_grant_id p) ''approval_expired'' now db"
      by (simp add: prepare_commit_def)
    with expired [OF Some late] show thesis by blast
  next
    case busy
    with Some assms have "db' = db" unfolding prepare_commit_def Let_def by (auto split: if_splits)
    with same show thesis by blast
  next
    case free
    note eq = assms [unfolded prepare_commit_def Some option.case Let_def]
    have "db' = db \<or> (\<exists>raw h. ?s = Inr raw
      \<and> db' = insert_worker_event i (Some (gp_state p)) (gp_state p) (gp_grant_id p) ''broadcast_prepared''
           (insert_job i chain ?n raw h now db))"
      using eq free by (simp add: not_less split: sum.splits if_splits) auto
    then show thesis using same prepared [OF Some free] by blast
  qed
qed

lemma live_update:
  "job_at db i = Some r \<Longrightarrow> nonce_inv db \<Longrightarrow> live r \<Longrightarrow> job_at db k = Some s \<Longrightarrow> live s \<Longrightarrow> i \<noteq> k
     \<Longrightarrow> jb_chain_id s = jb_chain_id r \<Longrightarrow> jb_nonce s \<noteq> jb_nonce r"
  unfolding nonce_inv_def by metis

lemma abandon_nonce_inv:
  assumes "nonce_inv db" "job_at db (jo_proposal_id j) = Some row" "jo_chain_id j = jb_chain_id row" "jo_nonce j = jb_nonce row"
  shows "nonce_inv (abandon_job j now db)"
proof (cases "jb_state row = JobPrepared")
  case False
  with assms show ?thesis by (simp add: abandon_job_def Let_def)
next
  case True
  let ?i = "jo_proposal_id j"
  let ?u = "update_job ?i (\<lambda>r. r\<lparr>jb_state := JobAbandoned, jb_last_error_code := Some ''approval_expired'', jb_updated_ts := now\<rparr>) db"
  let ?db = "release_nonce (jo_chain_id j) (jo_nonce j) ?u"
  have "tame (\<lambda>r. r\<lparr>jb_state := JobAbandoned, jb_last_error_code := Some ''approval_expired'', jb_updated_ts := now\<rparr>) r" for r
    by (simp add: tame_def live_def)
  then have "nonce_inv ?u" by (rule nonce_inv_update [OF assms(1) update_job_tables(1,3)])
  moreover have "jb_nonce r \<noteq> jo_nonce j" if "job_at ?u k = Some r" "live r" "jb_chain_id r = jo_chain_id j" for k r
  proof -
    from that(1,2) assms(2) have "k \<noteq> ?i" by (auto simp: live_def)
    with that(1) have k: "job_at db k = Some r" by simp
    have "live row" using True by (simp add: live_def)
    from live_update [OF assms(2,1) this k that(2)] \<open>k \<noteq> ?i\<close> that(3) assms(3,4) show ?thesis by simp
  qed
  ultimately have inv: "nonce_inv ?db" by (rule nonce_inv_release)
  have "job_at (abandon_job j now db) = job_at ?db" "db_nonces (abandon_job j now db) = db_nonces ?db"
    using True assms(2) by (simp_all add: abandon_job_def Let_def split: option.split)
  then show ?thesis using inv by (rule nonce_inv_same)
qed

lemma apply_action_nonce_inv:
  assumes "nonce_inv db" "job_at db (jo_proposal_id j) = Some row" "jo_chain_id j = jb_chain_id row" "jo_nonce j = jb_nonce row"
  shows "nonce_inv (apply_action j a now db)"
proof (cases a)
  case (ActFinish ok)
  have "nonce_inv (finish_job j ok now db)"
  proof (cases "active_job (jb_state row)")
    case True
    let ?f = "\<lambda>r. r\<lparr>jb_state := (if ok then JobConfirmed else JobFailed), jb_next_attempt_ts := now,
      jb_last_error_code := None, jb_updated_ts := now\<rparr>"
    have "job_at (finish_job j ok now db) = (job_at db)(jo_proposal_id j := map_option ?f (job_at db (jo_proposal_id j)))"
      "db_nonces (finish_job j ok now db) = db_nonces db"
      using True assms(2) by (auto simp: finish_job_def Let_def split: option.split)
    moreover have "tame ?f r" if "job_at db (jo_proposal_id j) = Some r" for r
      using True that assms(2) by (auto simp: tame_def live_def active_job_def)
    ultimately show ?thesis by (rule nonce_inv_update [OF assms(1)])
  next
    case False
    with assms show ?thesis by (simp add: finish_job_def Let_def)
  qed
  with ActFinish show ?thesis by (simp add: apply_action_def)
next
  case (ActSubmitted attempted)
  have "nonce_inv (mark_submitted j attempted now db)"
  proof (cases "active_job (jb_state row)")
    case True
    let ?f = "\<lambda>r. r\<lparr>jb_state := JobSubmitted, jb_attempts := jb_attempts r + (if attempted then 1 else 0),
               jb_last_attempt_ts := (if attempted then Some now else jb_last_attempt_ts r),
               jb_next_attempt_ts := now + 2000, jb_last_error_code := None, jb_updated_ts := now\<rparr>"
    have "job_at (mark_submitted j attempted now db) = (job_at db)(jo_proposal_id j := map_option ?f (job_at db (jo_proposal_id j)))"
      "db_nonces (mark_submitted j attempted now db) = db_nonces db"
      using True assms(2) by (simp_all add: mark_submitted_def)
    moreover have "tame ?f r" if "job_at db (jo_proposal_id j) = Some r" for r
      using True that assms(2) by (auto simp: tame_def live_def active_job_def)
    ultimately show ?thesis by (rule nonce_inv_update [OF assms(1)])
  next
    case False
    with assms show ?thesis by (simp add: mark_submitted_def)
  qed
  with ActSubmitted show ?thesis by (simp add: apply_action_def)
next
  case ActAbandon
  with abandon_nonce_inv [OF assms] show ?thesis by (simp add: apply_action_def)
next
  case (ActDefer code)
  have "nonce_inv (defer_job (jo_proposal_id j) code now db)"
    unfolding defer_job_def
    by (rule nonce_inv_update [OF assms(1) update_job_tables(1,3)]) (auto simp: tame_def live_def)
  with ActDefer show ?thesis by (simp add: apply_action_def)
qed

lemma nonce_inv_step:
  assumes "durable_step racing l db db'" "nonce_inv db"
  shows "nonce_inv db'"
  using assms(1)
proof cases
  case (propose wire tx custody asset decimals i sim chain delta rpc env p now r)
  from propose(5) show ?thesis
    by (cases rule: propose_commit_effect) (auto intro: nonce_inv_same [OF _ _ assms(2)] simp: assms(2))
next
  case (read seen i p now r)
  from read(3) show ?thesis
    by (cases rule: read_commit_effect) (auto intro: nonce_inv_same [OF _ _ assms(2)] simp: assms(2))
next
  case (approve env p i a now r)
  from approve(2) show ?thesis
    by (cases rule: approve_commit_effect)
      (auto intro: nonce_inv_same [OF _ _ assms(2)] simp: expire_locked_def approved_db_def)
next
  case (expire i now b)
  then show ?thesis
    by (auto intro: nonce_inv_same [OF _ _ assms(2)] simp: expire_unclaimed_one_def assms(2) split: option.splits if_splits)
next
  case (prepare i row tx keccak sign pending now x)
  from prepare(5) show ?thesis
  proof (cases rule: prepare_commit_effect)
    case (prepared p raw h)
    show ?thesis
      unfolding prepared(8)
      by (rule nonce_inv_same [OF _ _ nonce_inv_insert [OF assms(2) prepared(4,5)]]) simp_all
  qed (auto intro: nonce_inv_same [OF _ _ assms(2)] simp: assms(2))
next
  case (reconcile j row a now)
  then show ?thesis using apply_action_nonce_inv [OF assms(2)] by simp
next
  case outside
  then show ?thesis by (intro nonce_inv_same [OF _ _ assms(2)]) (simp_all add: job_at_def fun_eq_iff)
qed

lemma nonce_inv_reaches: "durable_reaches racing db db' \<Longrightarrow> nonce_inv db \<Longrightarrow> nonce_inv db'"
  by (induction rule: durable_reaches.induct) (auto intro: nonce_inv_step)

lemma tables_empty_at: "tables_empty db \<Longrightarrow> proposal_at db i = None" "tables_empty db \<Longrightarrow> job_at db i = None"
  by (simp_all add: tables_empty_def proposal_at_def job_at_def)

text \<open>
  Property C7. The durable guardian never signs two live transactions of a chain with one nonce:
  however the transactions of any number of workers and of the gRPC calls interleave, two jobs that
  are not abandoned and are on the same chain have different nonces, the chain's next nonce is above
  both, and at most one of a chain's jobs is prepared and not yet submitted.
\<close>

theorem live_nonces_distinct:
  assumes "durable_reaches True db db'" "tables_empty db"
    and "job_at db' i = Some r" "job_at db' k = Some s" "i \<noteq> k" "jb_chain_id r = jb_chain_id s"
    and "jb_state r \<noteq> JobAbandoned" "jb_state s \<noteq> JobAbandoned"
  shows "jb_nonce r \<noteq> jb_nonce s
    \<and> (\<exists>n. hm_get (db_nonces db') (jb_chain_id r) = Some n \<and> jb_nonce r < n \<and> jb_nonce s < n)
    \<and> \<not> (jb_state r = JobPrepared \<and> jb_state s = JobPrepared)"
proof -
  have "nonce_inv db" using tables_empty_at(2) [OF assms(2)] by (simp add: nonce_inv_def)
  then have inv: "nonce_inv db'" using nonce_inv_reaches [OF assms(1)] by blast
  have "live r" "live s" using assms(7,8) by (simp_all add: live_def)
  with inv assms(3-6) have "jb_nonce r \<noteq> jb_nonce s"
    and "\<exists>n. hm_get (db_nonces db') (jb_chain_id r) = Some n \<and> jb_nonce r < n \<and> jb_nonce s < n"
    and "\<not> (jb_state r = JobPrepared \<and> jb_state s = JobPrepared)"
    unfolding nonce_inv_def by (blast, metis option.inject, blast)
  then show ?thesis by simp
qed

subsection \<open>Jobs and proposals agree\<close>

primrec agrees :: "job_state \<Rightarrow> proposal_state \<Rightarrow> bool" where
  "agrees JobPrepared s = approved_state s"
| "agrees JobSubmitted s = (s = PsBroadcast)"
| "agrees JobConfirmed s = (s = PsConfirmed)"
| "agrees JobFailed s = (s = PsFailed)"
| "agrees JobAbandoned s = (s = PsExpired)"

text \<open>A proposal that was broadcast carries the hash of its job.\<close>

definition bound_hash :: "job_row \<Rightarrow> proposal_row \<Rightarrow> bool" where
  "bound_hash r p \<longleftrightarrow> (gp_state p \<in> {PsBroadcast, PsConfirmed, PsFailed} \<longrightarrow> gp_tx_hash p = Some (jb_tx_hash r))"

text \<open>With races a proposal may have expired beside its job.\<close>

definition in_step :: "bool \<Rightarrow> job_row \<Rightarrow> proposal_row \<Rightarrow> bool" where
  "in_step racing r p \<longleftrightarrow> (agrees (jb_state r) (gp_state p) \<or> racing \<and> gp_state p = PsExpired) \<and> bound_hash r p"

definition agree_inv :: "bool \<Rightarrow> guardian_db \<Rightarrow> bool" where
  "agree_inv racing db \<longleftrightarrow>
     (\<forall>i r. job_at db i = Some r \<longrightarrow> (\<exists>p. proposal_at db i = Some p \<and> in_step racing r p)) \<and>
     (\<forall>i p. proposal_at db i = Some p \<longrightarrow> approved_state (gp_state p) \<longrightarrow> gp_approval_expires_at p \<noteq> None)"

lemma agree_inv_same:
  "proposal_at db' = proposal_at db \<Longrightarrow> job_at db' = job_at db \<Longrightarrow> agree_inv racing db \<Longrightarrow> agree_inv racing db'"
  by (simp add: agree_inv_def)

lemma agree_job:
  assumes "agree_inv racing db" "job_at db i = Some r"
  obtains p where "proposal_at db i = Some p" "in_step racing r p"
  using assms unfolding agree_inv_def by blast

text \<open>One proposal and its job change together.\<close>

lemma agree_inv_change:
  assumes "agree_inv racing db" "\<And>k. k \<noteq> i \<Longrightarrow> proposal_at db' k = proposal_at db k" "\<And>k. k \<noteq> i \<Longrightarrow> job_at db' k = job_at db k"
    and "\<And>r. job_at db' i = Some r \<Longrightarrow> \<exists>p. proposal_at db' i = Some p \<and> in_step racing r p"
    and "\<And>p. proposal_at db' i = Some p \<Longrightarrow> approved_state (gp_state p) \<Longrightarrow> gp_approval_expires_at p \<noteq> None"
  shows "agree_inv racing db'"
  unfolding agree_inv_def
proof (intro conjI allI impI)
  fix k r assume "job_at db' k = Some r"
  then show "\<exists>p. proposal_at db' k = Some p \<and> in_step racing r p"
    using assms(1-4) unfolding agree_inv_def by (cases "k = i") auto
next
  fix k p assume "proposal_at db' k = Some p" "approved_state (gp_state p)"
  then show "gp_approval_expires_at p \<noteq> None"
    using assms(1,2,5) unfolding agree_inv_def by (cases "k = i") auto
qed

text \<open>A proposal without a job can change; with races any proposal can expire.\<close>

lemma agree_inv_expire:
  assumes "agree_inv racing db" "job_at db i = None" "job_at db' = job_at db" "\<And>k. k \<noteq> i \<Longrightarrow> proposal_at db' k = proposal_at db k"
    and "\<And>p. proposal_at db' i = Some p \<Longrightarrow> approved_state (gp_state p) \<Longrightarrow> gp_approval_expires_at p \<noteq> None"
  shows "agree_inv racing db'"
  by (rule agree_inv_change [OF assms(1), of i]) (use assms(2-5) in auto)

lemma agree_inv_expired:
  assumes "agree_inv racing db" "racing \<or> job_at db i = None" "proposal_at db i = Some q" "job_at db' = job_at db"
    and "proposal_at db' = (proposal_at db)(i := map_option (\<lambda>p. p\<lparr>gp_state := PsExpired, gp_updated_ts := now\<rparr>) (proposal_at db i))"
  shows "agree_inv racing db'"
  by (rule agree_inv_change [OF assms(1), of i])
    (use assms(2-5) in \<open>auto simp: in_step_def bound_hash_def approved_state_def\<close>)

lemma pending_no_job:
  "agree_inv racing db \<Longrightarrow> proposal_at db i = Some p \<Longrightarrow> gp_state p = PsPending \<Longrightarrow> job_at db i = None"
proof (rule ccontr)
  assume a: "agree_inv racing db" "proposal_at db i = Some p" "gp_state p = PsPending" "job_at db i \<noteq> None"
  then obtain r where r: "job_at db i = Some r" by blast
  obtain q where "proposal_at db i = Some q" "in_step racing r q" by (rule agree_job [OF a(1) r])
  with a(2,3) show False by (cases "jb_state r") (auto simp: in_step_def approved_state_def)
qed

lemma stale_no_job:
  assumes "agree_inv False db" "proposal_at db i = Some p" "read_stale now p (job_at db i)"
  shows "job_at db i = None"
proof (rule ccontr)
  assume "job_at db i \<noteq> None"
  then obtain r where r: "job_at db i = Some r" by blast
  obtain q where q: "proposal_at db i = Some q" "in_step False r q" by (rule agree_job [OF assms(1) r])
  have "gp_approval_expires_at p \<noteq> None" if "approved_state (gp_state p)"
    using assms(1,2) that unfolding agree_inv_def by blast
  with q assms(2,3) r show False
    by (cases "jb_state r") (auto simp: in_step_def read_stale_def approved_state_def split: if_splits option.splits)
qed

lemma transition_proposal:
  "proposal_at (transition_to_broadcast j now db) = (proposal_at db)(jo_proposal_id j :=
     map_option (\<lambda>p. if approved_state (gp_state p)
       then p\<lparr>gp_state := PsBroadcast, gp_tx_hash := Some (jo_tx_hash j), gp_updated_ts := now\<rparr> else p) (proposal_at db (jo_proposal_id j)))"
  by (auto simp: transition_to_broadcast_def insert_worker_event_def proposal_at_def fun_eq_iff hm_get_modify Let_def
      split: option.splits)

lemma active_proposal:
  assumes "agree_inv racing db" "job_at db i = Some row" "active_job (jb_state row)"
  obtains p where "proposal_at db i = Some p" "approved_state (gp_state p) \<or> gp_state p = PsBroadcast \<or> racing \<and> gp_state p = PsExpired"
    "bound_hash row p"
proof -
  obtain p where "proposal_at db i = Some p" "in_step racing row p" by (rule agree_job [OF assms(1,2)])
  then show thesis using that [of p] assms(3) by (auto simp: in_step_def active_job_def)
qed

lemma submitted_agree:
  assumes "agree_inv racing db" "job_at db (jo_proposal_id j) = Some row" "jo_tx_hash j = jb_tx_hash row"
  shows "agree_inv racing (mark_submitted j attempted now db)"
proof (cases "active_job (jb_state row)")
  case False
  with assms show ?thesis by (simp add: mark_submitted_def)
next
  case True
  obtain p where p: "proposal_at db (jo_proposal_id j) = Some p"
      "approved_state (gp_state p) \<or> gp_state p = PsBroadcast \<or> racing \<and> gp_state p = PsExpired" "bound_hash row p"
    by (rule active_proposal [OF assms(1,2) True])
  show ?thesis
    by (rule agree_inv_change [OF assms(1), of "jo_proposal_id j"])
      (use True p assms(2,3) in \<open>auto simp: mark_submitted_def transition_proposal in_step_def bound_hash_def approved_state_def\<close>)
qed

lemma finished_agree:
  assumes "agree_inv racing db" "job_at db (jo_proposal_id j) = Some row" "jo_tx_hash j = jb_tx_hash row"
  shows "agree_inv racing (finish_job j ok now db)"
proof (cases "active_job (jb_state row)")
  case False
  with assms show ?thesis by (simp add: finish_job_def Let_def)
next
  case True
  obtain p where p: "proposal_at db (jo_proposal_id j) = Some p"
      "approved_state (gp_state p) \<or> gp_state p = PsBroadcast \<or> racing \<and> gp_state p = PsExpired" "bound_hash row p"
    by (rule active_proposal [OF assms(1,2) True])
  show ?thesis
    by (cases ok; rule agree_inv_change [OF assms(1), of "jo_proposal_id j"])
      (use True p assms(2,3) in
        \<open>auto simp: finish_job_def Let_def transition_proposal in_step_def bound_hash_def approved_state_def\<close>)
qed

lemma abandoned_agree:
  assumes "agree_inv racing db" "job_at db (jo_proposal_id j) = Some row"
  shows "agree_inv racing (abandon_job j now db)"
proof (cases "jb_state row = JobPrepared")
  case False
  with assms show ?thesis by (simp add: abandon_job_def Let_def)
next
  case True
  obtain p where "proposal_at db (jo_proposal_id j) = Some p" "in_step racing row p"
    by (rule agree_job [OF assms])
  then have p: "proposal_at db (jo_proposal_id j) = Some p" "approved_state (gp_state p) \<or> gp_state p = PsExpired"
    using True by (auto simp: in_step_def)
  show ?thesis
    by (rule agree_inv_change [OF assms(1), of "jo_proposal_id j"])
      (use True p assms(2) in \<open>auto simp: abandon_job_def Let_def in_step_def bound_hash_def approved_state_def\<close>)
qed

lemma deferred_agree:
  assumes "agree_inv racing db"
  shows "agree_inv racing (defer_job i code now db)"
proof (rule agree_inv_change [OF assms, of i])
  fix r :: job_row assume "job_at (defer_job i code now db) i = Some r"
  then obtain r0 where r0: "job_at db i = Some r0" "jb_state r = jb_state r0" "jb_tx_hash r = jb_tx_hash r0"
    by (auto simp: defer_job_def)
  from agree_job [OF assms r0(1)] r0(2,3)
  show "\<exists>p. proposal_at (defer_job i code now db) i = Some p \<and> in_step racing r p"
    by (auto simp: defer_job_def in_step_def bound_hash_def)
qed (use assms in \<open>auto simp: defer_job_def agree_inv_def\<close>)

lemma agree_inv_step:
  assumes "durable_step racing l db db'" "agree_inv racing db"
  shows "agree_inv racing db'"
  using assms(1)
proof cases
  case (propose wire tx custody asset decimals i sim chain delta rpc env p now r)
  have none: "job_at db i = None"
  proof (rule ccontr)
    assume "job_at db i \<noteq> None"
    then obtain r where "job_at db i = Some r" by blast
    from agree_job [OF assms(2) this] propose(3) show False by auto
  qed
  from propose(5) show ?thesis
  proof (cases rule: propose_commit_effect)
    case (stored v daily dest)
    show ?thesis
      by (rule agree_inv_expire [OF assms(2) none]) (auto simp: stored(3) approved_state_def verdict_state_def split: if_splits)
  qed (simp add: assms(2))
next
  case (read seen i p now r)
  from read(3) show ?thesis
  proof (cases rule: read_commit_effect)
    case (expired row actor grant)
    have "racing \<or> job_at db i = None"
      using read(2) stale_no_job [of db i row now] expired(1,2) assms(2) by (cases racing) auto
    then show ?thesis by (rule agree_inv_expired [OF assms(2) _ expired(1)]) (simp_all add: expired(3))
  qed (simp add: assms(2))
next
  case (approve env p i a now r)
  from approve(2) show ?thesis
  proof (cases rule: approve_commit_effect)
    case denied
    then show ?thesis by (auto intro: agree_inv_same [OF _ _ assms(2)])
  next
    case (expired row)
    show ?thesis
      by (rule agree_inv_expire [OF assms(2) pending_no_job [OF assms(2) expired(2,3)]])
        (auto simp: expired(4) expire_locked_def expired(2) approved_state_def)
  next
    case (approved row rr c)
    from approved(1) have row: "proposal_at db i = Some row" "gp_state row = PsPending" by (auto simp: approval_checked_def)
    show ?thesis
      by (rule agree_inv_expire [OF assms(2) pending_no_job [OF assms(2) row]]) (auto simp: approved(3) approved_db_def row)
  qed
next
  case (expire i now b)
  show ?thesis
  proof (cases "\<exists>p. proposal_at db i = Some p \<and> unclaimed_stale now p \<and> job_at db i = None")
    case True
    then obtain p where p: "proposal_at db i = Some p" "unclaimed_stale now p" "job_at db i = None" by blast
    with expire have "db' = expire_proposal i (gp_state p) (gp_grant_id p) ''proposal_expired'' now db"
      by (simp add: expire_unclaimed_one_def)
    then show ?thesis
      by (intro agree_inv_expire [OF assms(2) p(3)]) (auto simp: p(1) approved_state_def)
  next
    case False
    with expire have "db' = db" by (auto simp: expire_unclaimed_one_def split: option.splits if_splits)
    with assms(2) show ?thesis by simp
  qed
next
  case (prepare i row tx keccak sign pending now x)
  from prepare(5) show ?thesis
  proof (cases rule: prepare_commit_effect)
    case (expired p)
    show ?thesis by (rule agree_inv_expired [OF assms(2) prepare(4) expired(1)]) (simp_all add: expired(4))
  next
    case (prepared p raw h)
    have e: "gp_approval_expires_at p \<noteq> None" using assms(2) prepared(1,2) unfolding agree_inv_def by blast
    show ?thesis
      by (rule agree_inv_change [OF assms(2), of i])
        (use prepared(1,2) e in \<open>auto simp: prepared(8) in_step_def bound_hash_def approved_state_def\<close>)
  qed (simp add: assms(2))
next
  case (reconcile j row a now)
  show ?thesis
    unfolding reconcile(2)
    using submitted_agree [OF assms(2) reconcile(3,6)] finished_agree [OF assms(2) reconcile(3,6)]
      abandoned_agree [OF assms(2) reconcile(3)] deferred_agree [OF assms(2)]
    by (cases a) (simp_all add: apply_action_def)
next
  case outside
  then show ?thesis
    by (intro agree_inv_same [OF _ _ assms(2)]) (simp_all add: proposal_at_def job_at_def fun_eq_iff)
qed

lemma agree_inv_reaches: "durable_reaches racing db db' \<Longrightarrow> agree_inv racing db \<Longrightarrow> agree_inv racing db'"
  by (induction rule: durable_reaches.induct) (auto intro: agree_inv_step)

text \<open>
  Property C9. The broadcast jobs and the proposals of the durable guardian agree, whatever order the
  transactions come in: a prepared job's proposal is approved, a submitted one's is broadcast under
  the job's transaction hash, a confirmed or failed one's is confirmed or failed under it, and an
  abandoned one's is expired. This is exact while one worker prepares jobs and no read of a proposal
  waited for a preparation. With several workers, or with such a read, the one other case is
  that the proposal has expired while its job goes on; no proposal ever bears another hash.
\<close>

theorem jobs_and_proposals_agree:
  assumes "durable_reaches racing db db'" "tables_empty db" "job_at db' i = Some r"
  shows "\<exists>p. proposal_at db' i = Some p
    \<and> (agrees (jb_state r) (gp_state p) \<or> racing \<and> gp_state p = PsExpired)
    \<and> (gp_state p \<in> {PsBroadcast, PsConfirmed, PsFailed} \<longrightarrow> gp_tx_hash p = Some (jb_tx_hash r))"
proof -
  have "agree_inv racing db" using tables_empty_at [OF assms(2)] by (simp add: agree_inv_def)
  then have "agree_inv racing db'" using agree_inv_reaches [OF assms(1)] by blast
  from agree_job [OF this assms(3)] show ?thesis unfolding in_step_def bound_hash_def by blast
qed

text \<open>
  Both races lose a proposal. A worker that comes late checks the expiry of the approval before the
  existing job, and a read that waited for a preparation still has no job: either expires a proposal
  whose job is prepared; the job goes on to be submitted and confirmed, and the proposal stays expired.
\<close>

lemma expired_job_goes_on:
  assumes "proposal_at db i = Some p" "gp_state p = PsExpired" "job_at db i = Some r" "jb_state r = JobPrepared"
    "jo_proposal_id j = i"
  shows "\<exists>q. job_at (finish_job j True later db) i = Some q \<and> jb_state q = JobConfirmed
    \<and> map_option gp_state (proposal_at (finish_job j True later db) i) = Some PsExpired"
  using assms by (simp add: finish_job_def transition_proposal active_job_def approved_state_def Let_def)

lemma late_prepare_strands_job:
  assumes "proposal_at db i = Some p" "approved_state (gp_state p)" "lapsed (gp_approval_expires_at p) now"
    "job_at db i = Some r" "jb_state r = JobPrepared" "jo_proposal_id j = i"
  shows "\<exists>db' q. prepare_commit keccak sign i tx chain pending now db = (Inr False, db')
    \<and> job_at (finish_job j True later db') i = Some q \<and> jb_state q = JobConfirmed
    \<and> map_option gp_state (proposal_at (finish_job j True later db') i) = Some PsExpired"
  using assms expired_job_goes_on [where r = r]
  by (simp add: prepare_commit_def)

lemma waiting_read_strands_job:
  assumes "proposal_at db i = Some p" "approved_state (gp_state p)" "gp_approval_expires_at p = Some e" "e \<le> now"
    "job_at db i = Some r" "jb_state r = JobPrepared" "jo_proposal_id j = i"
    and "revalidate_principal pr (if pn_actor_kind pr = ''human'' then approval_scope else propose_scope) 4
      (pn_actor_kind pr = ''human'') now db = Inr ()"
  shows "fst (read_commit pr i (job_at db i) now db) = Inr (wire_proposal_of i (gp_state p) (gp_policy_trace p) (gp_hash p))"
    "\<exists>db' q. read_commit pr i None now db = (Inr (wire_proposal_of i PsExpired (gp_policy_trace p) (gp_hash p)), db')
      \<and> job_at (finish_job j True later db') i = Some q \<and> jb_state q = JobConfirmed
      \<and> map_option gp_state (proposal_at (finish_job j True later db') i) = Some PsExpired"
proof -
  have stale: "read_stale now p None" "\<not> read_stale now p (Some r)"
    using assms(2-4,6) by (auto simp: read_stale_def approved_state_def)
  show "fst (read_commit pr i (job_at db i) now db) = Inr (wire_proposal_of i (gp_state p) (gp_policy_trace p) (gp_hash p))"
    by (simp add: read_commit_def Let_def assms(1,5,8) stale)
  let ?db = "log_event i (Some (gp_state p)) PsExpired (pn_actor_id pr) (pn_grant_id pr) ''proposal_expired''
    (set_proposal_state i PsExpired now db)"
  have "read_commit pr i None now db = (Inr (wire_proposal_of i PsExpired (gp_policy_trace p) (gp_hash p)), ?db)"
    by (simp add: read_commit_def Let_def assms(1,8) stale)
  moreover have "\<exists>q. job_at (finish_job j True later ?db) i = Some q \<and> jb_state q = JobConfirmed
    \<and> map_option gp_state (proposal_at (finish_job j True later ?db) i) = Some PsExpired"
    by (rule expired_job_goes_on [where r = r and p = "p\<lparr>gp_state := PsExpired, gp_updated_ts := now\<rparr>"])
      (simp_all add: assms(1,5-7))
  ultimately show "\<exists>db' q. read_commit pr i None now db = (Inr (wire_proposal_of i PsExpired (gp_policy_trace p) (gp_hash p)), db')
      \<and> job_at (finish_job j True later db') i = Some q \<and> jb_state q = JobConfirmed
      \<and> map_option gp_state (proposal_at (finish_job j True later db') i) = Some PsExpired"
    by blast
qed

subsection \<open>What a job signs was approved\<close>

definition okstate :: "proposal_state \<Rightarrow> bool" where
  "okstate s \<longleftrightarrow> s \<noteq> PsPending \<and> s \<noteq> PsDenied \<and> s \<noteq> PsExpired"

text \<open>The approvals of a run that passed every check: the transaction is the one the proposal held then.\<close>

definition human_cleared :: "(durable_label \<times> guardian_db) list \<Rightarrow> string \<Rightarrow> tx_spec \<Rightarrow> bool" where
  "human_cleared h i tx \<longleftrightarrow>
     (\<exists>env p a now d row r c. (ApproveCall env p i a now, d) \<in> set h \<and> approval_checked env p i a now d row r c
        \<and> gp_tx_spec row = Some tx)"

definition cleared :: "(durable_label \<times> guardian_db) list \<Rightarrow> guardian_db \<Rightarrow> string \<Rightarrow> bool" where
  "cleared h db i \<longleftrightarrow> (\<exists>p tx. proposal_at db i = Some p \<and> gp_tx_spec p = Some tx \<and> (inert tx \<or> human_cleared h i tx))"

text \<open>A job holds the signature of its proposal's transaction, under the job's nonce.\<close>

definition signed_by :: "job_row \<Rightarrow> tx_spec \<Rightarrow> bool" where
  "signed_by r tx \<longleftrightarrow> jb_chain_id r = int (tx_chain_id tx)
     \<and> (\<exists>t s. from_spec tx (nat (jb_nonce r)) (tx_chain_id tx) = (Inr t :: string broadcast_error + eip1559_tx)
          \<and> jb_signed_raw r = encode_signed t s)"

definition signed_ok :: "guardian_db \<Rightarrow> string \<Rightarrow> bool" where
  "signed_ok db i \<longleftrightarrow>
     (\<forall>r. job_at db i = Some r \<longrightarrow> (\<exists>p tx. proposal_at db i = Some p \<and> gp_tx_spec p = Some tx \<and> signed_by r tx))"

definition human_inv :: "(durable_label \<times> guardian_db) list \<Rightarrow> guardian_db \<Rightarrow> bool" where
  "human_inv h db \<longleftrightarrow> (\<forall>i p. proposal_at db i = Some p \<longrightarrow> okstate (gp_state p) \<longrightarrow> cleared h db i)
     \<and> (\<forall>i. job_at db i \<noteq> None \<longrightarrow> cleared h db i) \<and> (\<forall>i. signed_ok db i)"

text \<open>Transactions stay.\<close>

definition keeps :: "guardian_db \<Rightarrow> guardian_db \<Rightarrow> bool" where
  "keeps db db' \<longleftrightarrow> (\<forall>i p. proposal_at db i = Some p \<longrightarrow> (\<exists>p'. proposal_at db' i = Some p' \<and> gp_tx_spec p' = gp_tx_spec p))"

lemma cleared_keeps: "cleared h db i \<Longrightarrow> keeps db db' \<Longrightarrow> cleared (h @ h') db' i"
  unfolding cleared_def keeps_def human_cleared_def by fastforce

text \<open>The columns of a job that never change.\<close>

definition same_signed :: "job_row \<Rightarrow> job_row \<Rightarrow> bool" where
  "same_signed r s \<longleftrightarrow> jb_chain_id s = jb_chain_id r \<and> jb_nonce s = jb_nonce r \<and> jb_signed_raw s = jb_signed_raw r"

lemma signed_by_same: "signed_by r tx \<Longrightarrow> same_signed r s \<Longrightarrow> signed_by s tx"
  by (simp add: signed_by_def same_signed_def)

text \<open>Nothing is approved anew and no job is new.\<close>

definition harmless :: "guardian_db \<Rightarrow> guardian_db \<Rightarrow> bool" where
  "harmless db db' \<longleftrightarrow> keeps db db'
     \<and> (\<forall>i p'. proposal_at db' i = Some p' \<longrightarrow> okstate (gp_state p') \<longrightarrow> (\<exists>p. proposal_at db i = Some p \<and> okstate (gp_state p)))
     \<and> (\<forall>i s. job_at db' i = Some s \<longrightarrow> (\<exists>r. job_at db i = Some r \<and> same_signed r s))"

lemma human_inv_change:
  assumes "human_inv h db" "keeps db db'"
    and "\<And>i p'. proposal_at db' i = Some p' \<Longrightarrow> okstate (gp_state p') \<Longrightarrow>
      cleared (h @ h') db' i \<or> (\<exists>p. proposal_at db i = Some p \<and> okstate (gp_state p))"
    and "\<And>i s. job_at db' i = Some s \<Longrightarrow> (\<exists>r. job_at db i = Some r \<and> same_signed r s)
      \<or> cleared h db i \<and> (\<exists>p tx. proposal_at db' i = Some p \<and> gp_tx_spec p = Some tx \<and> signed_by s tx)"
  shows "human_inv (h @ h') db'"
proof -
  have "cleared (h @ h') db' i" if "proposal_at db' i = Some p'" "okstate (gp_state p')" for i p'
    using assms(3) [OF that] assms(1) cleared_keeps [OF _ assms(2)] unfolding human_inv_def by blast
  moreover have "cleared (h @ h') db' i" if "job_at db' i \<noteq> None" for i
    using assms(4) [of i] that assms(1) cleared_keeps [OF _ assms(2)] unfolding human_inv_def by fastforce
  moreover have "signed_ok db' i" for i
    unfolding signed_ok_def
  proof (intro allI impI)
    fix s assume "job_at db' i = Some s"
    from assms(4) [OF this] show "\<exists>p tx. proposal_at db' i = Some p \<and> gp_tx_spec p = Some tx \<and> signed_by s tx"
    proof
      assume "\<exists>r. job_at db i = Some r \<and> same_signed r s"
      then obtain r where r: "job_at db i = Some r" "same_signed r s" by blast
      from assms(1) r(1) obtain p tx where "proposal_at db i = Some p" "gp_tx_spec p = Some tx" "signed_by r tx"
        unfolding human_inv_def signed_ok_def by blast
      moreover from this(1) assms(2) obtain p' where "proposal_at db' i = Some p'" "gp_tx_spec p' = gp_tx_spec p"
        unfolding keeps_def by blast
      ultimately show ?thesis using signed_by_same [OF _ r(2)] by auto
    qed blast
  qed
  ultimately show ?thesis unfolding human_inv_def by blast
qed

lemma human_inv_harmless: "human_inv h db \<Longrightarrow> harmless db db' \<Longrightarrow> human_inv (h @ h') db'"
  by (rule human_inv_change) (auto simp: harmless_def)

lemma human_inv_more: "human_inv h db \<Longrightarrow> human_inv (h @ h') db"
  by (rule human_inv_change) (auto simp: keeps_def same_signed_def)

lemma harmless_refl [simp]: "harmless db db"
  by (simp add: harmless_def keeps_def same_signed_def)

lemma harmless_trans: "harmless a b \<Longrightarrow> harmless b c \<Longrightarrow> harmless a c"
proof -
  assume h: "harmless a b" "harmless b c"
  have "keeps a c" using h unfolding harmless_def keeps_def by metis
  moreover have "\<exists>p. proposal_at a i = Some p \<and> okstate (gp_state p)" if "proposal_at c i = Some p'" "okstate (gp_state p')" for i p'
    using h that unfolding harmless_def by blast
  moreover have "\<exists>r. job_at a i = Some r \<and> same_signed r s" if s: "job_at c i = Some s" for i s
  proof -
    from h(2) s obtain r where r: "job_at b i = Some r" "same_signed r s" unfolding harmless_def by blast
    with h(1) obtain q where "job_at a i = Some q" "same_signed q r" unfolding harmless_def by blast
    with r(2) show ?thesis by (auto simp: same_signed_def)
  qed
  ultimately show ?thesis unfolding harmless_def by blast
qed

lemma harmless_same:
  "proposal_at db' = proposal_at db \<Longrightarrow> job_at db' = job_at db \<Longrightarrow> harmless db db'"
  by (simp add: harmless_def keeps_def same_signed_def)

lemma harmless_proposal:
  assumes "proposal_at db' = (proposal_at db)(i := map_option f (proposal_at db i))" "job_at db' = job_at db"
    "\<And>p. proposal_at db i = Some p \<Longrightarrow> gp_tx_spec (f p) = gp_tx_spec p \<and> (okstate (gp_state (f p)) \<longrightarrow> okstate (gp_state p))"
  shows "harmless db db'"
  using assms(3) unfolding harmless_def keeps_def assms(1,2) by (auto simp: same_signed_def split: if_splits)

lemma harmless_update_job: "(\<And>r. same_signed r (f r)) \<Longrightarrow> harmless db (update_job i f db)"
  by (auto simp: harmless_def keeps_def same_signed_def split: if_splits)

lemma harmless_release: "harmless db (release_nonce c n db)"
  by (simp add: harmless_same)

lemma harmless_log: "harmless db (log_event i f t a g r db)"
  by (rule harmless_same) simp_all

lemma harmless_expired: "harmless db (set_proposal_state i PsExpired now db)"
  by (rule harmless_proposal [OF set_proposal_state_tables(1,2)]) (simp_all add: okstate_def)

lemma harmless_expire: "harmless db (expire_proposal i s g r now db)"
  unfolding expire_proposal_def insert_worker_event_def by (rule harmless_trans [OF harmless_expired harmless_log])

lemma harmless_transition: "harmless db (transition_to_broadcast j now db)"
  by (rule harmless_proposal [OF transition_proposal transition_to_broadcast_tables(1)])
    (auto simp: okstate_def approved_state_def)

lemma harmless_terminal:
  assumes "proposal_at db i = Some p" "okstate (gp_state p)"
  shows "harmless db (set_proposal_state i s now db)"
  by (rule harmless_proposal [OF set_proposal_state_tables(1,2)]) (use assms in simp_all)

lemma harmless_submitted: "harmless db (mark_submitted j attempted now db)"
  unfolding mark_submitted_def
  by (auto split: option.split intro: harmless_trans [OF harmless_update_job harmless_transition] simp: same_signed_def)

lemma harmless_finished: "harmless db (finish_job j ok now db)"
proof -
  let ?t = "transition_to_broadcast j now db"
  let ?s = "if ok then PsConfirmed else PsFailed"
  have "harmless ?t (case proposal_at ?t (jo_proposal_id j) of
      Some p \<Rightarrow> if gp_state p = PsBroadcast then insert_worker_event (jo_proposal_id j) (Some PsBroadcast) ?s (jo_grant_id j)
          (if ok then ''receipt_succeeded'' else ''receipt_reverted'') (set_proposal_state (jo_proposal_id j) ?s now ?t) else ?t
    | None \<Rightarrow> ?t)"
    unfolding insert_worker_event_def
    by (auto split: option.split intro!: harmless_trans [OF harmless_terminal harmless_log] simp: okstate_def)
  then have tame: "harmless db (update_job (jo_proposal_id j) f (case proposal_at ?t (jo_proposal_id j) of
      Some p \<Rightarrow> if gp_state p = PsBroadcast then insert_worker_event (jo_proposal_id j) (Some PsBroadcast) ?s (jo_grant_id j)
          (if ok then ''receipt_succeeded'' else ''receipt_reverted'') (set_proposal_state (jo_proposal_id j) ?s now ?t) else ?t
    | None \<Rightarrow> ?t))" if "\<And>r. same_signed r (f r)" for f
    using that by (rule harmless_trans [OF harmless_trans [OF harmless_transition] harmless_update_job])
  show ?thesis
  proof (cases "\<exists>cur. job_at db (jo_proposal_id j) = Some cur \<and> active_job (jb_state cur)")
    case True
    then obtain cur where c: "job_at db (jo_proposal_id j) = Some cur" "\<not> \<not> active_job (jb_state cur)" by blast
    show ?thesis unfolding finish_job_def Let_def c(1) option.case if_not_P [OF c(2)] by (rule tame) (simp add: same_signed_def)
  next
    case False
    then have "finish_job j ok now db = db" by (auto simp: finish_job_def Let_def split: option.split)
    then show ?thesis by simp
  qed
qed

lemma harmless_abandoned: "harmless db (abandon_job j now db)"
  unfolding abandon_job_def Let_def
  by (auto split: option.split intro!: harmless_trans [OF harmless_update_job harmless_release]
      harmless_trans [OF harmless_trans [OF harmless_update_job harmless_release] harmless_expire] simp: same_signed_def)

lemma harmless_deferred: "harmless db (defer_job i code now db)"
  unfolding defer_job_def by (rule harmless_update_job) (simp add: same_signed_def)

lemma signed_prepared:
  assumes "sign_eip1559_transaction keccak sign tx (nat n) (tx_chain_id tx) = (Inr raw :: string broadcast_error + string)"
    "jb_chain_id r = int (tx_chain_id tx)" "jb_nonce r = n" "jb_signed_raw r = raw"
  shows "signed_by r tx"
proof -
  from assms(1) obtain t s where "from_spec tx (nat n) (tx_chain_id tx) = (Inr t :: string broadcast_error + eip1559_tx)"
    "raw = encode_signed t s" by (fastforce simp: sign_eip1559_transaction_def and_then_Inr_iff)
  with assms(2-4) show ?thesis unfolding signed_by_def by auto
qed

lemma human_inv_step:
  assumes "durable_step racing l db db'" "human_inv h db"
  shows "human_inv (h @ [(l, db)]) db'"
  using assms(1)
proof cases
  case (propose wire tx custody asset decimals i sim chain delta rpc env p now r)
  from propose(5) show ?thesis
  proof (cases rule: propose_commit_effect)
    case refused
    with human_inv_more [OF assms(2)] show ?thesis by simp
  next
    case (stored v daily dest)
    have keep: "keeps db db'" using propose(3) by (auto simp: stored(3) keeps_def)
    have auto: "cleared (h @ [(l, db)]) db' i" if "verdict_state v = PsAutoApproved"
    proof -
      obtain n where "parse_hex_quantity (tx_value tx) = Some n" using parsed_value [OF propose(2)] by blast
      moreover have "sr_value_delta_usd sim = delta \<or> sr_value_delta_usd sim \<le> 0"
        unfolding propose(4) by (rule simulate_async_delta)
      ultimately have "inert tx" by (rule auto_verdict [OF stored(1) that])
      then show ?thesis by (simp add: stored(3) cleared_def)
    qed
    show ?thesis
    proof (rule human_inv_change [OF assms(2) keep])
      fix k q assume k: "proposal_at db' k = Some q" "okstate (gp_state q)"
      show "cleared (h @ [(l, db)]) db' k \<or> (\<exists>p. proposal_at db k = Some p \<and> okstate (gp_state p))"
      proof (cases "k = i")
        case True
        with k have "verdict_state v = PsAutoApproved"
          by (auto simp: stored(3) okstate_def verdict_state_def split: if_splits)
        with auto True show ?thesis by blast
      next
        case False
        with k show ?thesis by (simp add: stored(3))
      qed
    qed (simp add: stored(3) same_signed_def)
  qed
next
  case (read seen i p now r)
  from read(3) show ?thesis
  proof (cases rule: read_commit_effect)
    case (expired row actor grant)
    show ?thesis
      unfolding expired(3) by (rule human_inv_harmless [OF assms(2) harmless_trans [OF harmless_expired harmless_log]])
  qed (simp add: human_inv_more [OF assms(2)])
next
  case (approve env p i a now r)
  from approve(2) show ?thesis
  proof (cases rule: approve_commit_effect)
    case denied
    then show ?thesis by (intro human_inv_harmless [OF assms(2)] harmless_same) simp_all
  next
    case (expired row)
    show ?thesis
      unfolding expired(4) expire_locked_def
      by (rule human_inv_harmless [OF assms(2) harmless_trans [OF harmless_expired harmless_log]])
  next
    case (approved row rr c)
    from approved(1) obtain tx where row: "proposal_at db i = Some row" "gp_tx_spec row = Some tx"
      by (auto simp: approval_checked_def)
    have keep: "keeps db db'" by (auto simp: approved(3) approved_db_def keeps_def)
    have "human_cleared (h @ [(l, db)]) i tx"
      unfolding human_cleared_def
      by (intro exI [of _ env] exI [of _ p] exI [of _ a] exI [of _ now] exI [of _ db] exI [of _ row] exI [of _ rr] exI [of _ c])
        (simp add: approved(1) row(2) approve(1))
    then have "cleared (h @ [(l, db)]) db' i" by (auto simp: approved(3) approved_db_def cleared_def row)
    then show ?thesis
      by (intro human_inv_change [OF assms(2) keep])
        (auto simp: approved(3) approved_db_def same_signed_def split: if_splits)
  qed
next
  case (expire i now b)
  then have "harmless db db'"
    by (auto simp: expire_unclaimed_one_def harmless_expire split: option.splits if_splits)
  with assms(2) show ?thesis by (rule human_inv_harmless)
next
  case (prepare i row tx keccak sign pending now x)
  from prepare(5) show ?thesis
  proof (cases rule: prepare_commit_effect)
    case same
    with human_inv_more [OF assms(2)] show ?thesis by simp
  next
    case (expired p)
    show ?thesis unfolding expired(4) by (rule human_inv_harmless [OF assms(2) harmless_expire])
  next
    case (prepared p raw hash)
    have keep: "keeps db db'" by (auto simp: prepared(8) keeps_def insert_worker_event_def)
    have c: "cleared h db i"
      using assms(2) prepared(1,2) unfolding human_inv_def okstate_def approved_state_def by auto
    show ?thesis
    proof (rule human_inv_change [OF assms(2) keep])
      fix k s assume k: "job_at db' k = Some s"
      show "(\<exists>r. job_at db k = Some r \<and> same_signed r s)
        \<or> cleared h db k \<and> (\<exists>p tx. proposal_at db' k = Some p \<and> gp_tx_spec p = Some tx \<and> signed_by s tx)"
      proof (cases "k = i")
        case True
        with k have "signed_by s tx" by (intro signed_prepared [OF prepared(7)]) (auto simp: prepared(8))
        with True c prepare(2,3) show ?thesis by (auto simp: prepared(8))
      qed (use k in \<open>simp add: prepared(8) same_signed_def\<close>)
    qed (simp add: prepared(8))
  qed
next
  case (reconcile j row a now)
  have "harmless db db'"
    unfolding reconcile(2) apply_action_def
    using harmless_submitted harmless_finished harmless_abandoned harmless_deferred by (cases a) auto
  with assms(2) show ?thesis by (rule human_inv_harmless)
next
  case outside
  then show ?thesis
    by (intro human_inv_harmless [OF assms(2)] harmless_same) (simp_all add: proposal_at_def job_at_def fun_eq_iff)
qed

lemma human_inv_run: "durable_run racing db h db' \<Longrightarrow> human_inv [] db \<Longrightarrow> human_inv h db'"
  by (induction rule: durable_run.induct) (auto intro: human_inv_step)

text \<open>Who approved was authenticated by a human session before.\<close>

lemma run_admitted:
  assumes "durable_run racing db h db'" "(ApproveCall env p i a now, d) \<in> set h"
  shows "\<exists>d0 \<in> set (map snd h). \<exists>md body t. approve_admit env md i body t d0 = Inr (p, a)"
  using assms
proof (induction rule: durable_run.induct)
  case (step h db' l db'')
  show ?case
  proof (cases "(ApproveCall env p i a now, d) \<in> set h")
    case True
    from step.IH [OF True] show ?thesis by simp
  next
    case False
    with step.prems have "l = ApproveCall env p i a now" by simp
    with step.hyps(3) show ?thesis by (simp add: list_ex_iff)
  qed
qed simp

text \<open>What a revalidated human caller has.\<close>

lemma revalidated_session:
  assumes "revalidate_principal p wanted minimum True now db = Inr ()" "pn_session_id p = Some sid"
  obtains s where "s \<in> set (db_sessions db)" "sn_id s = sid" "sn_user_id s = pn_actor_id p"
    "sn_origin_kind s = ''human''" "live_session now s"
  using assms by (auto simp: revalidate_principal_def and_then_Inr_iff split: option.splits dest!: find_SomeD)

text \<open>
  Property C2. Whatever the durable guardian signs for broadcast is the transaction of its proposal,
  and was approved by a human with a verified second factor, unless it moves no value and calls no
  contract. In every run of the calls, the workers and the other services, with races or without, a
  job's raw transaction encodes exactly its proposal's transaction under the job's nonce. When that
  transaction is not inert, one of the run's approvals passed every check on the tables it met: a
  live human session of the approver, whose code the authority verified against the secret enrolled for
  that user, an unexpired pending proposal that held this very transaction under the hash the
  approver sent, and a pending reference and an unconsumed challenge bound to approver and proposal.
\<close>

theorem signed_jobs_were_approved:
  assumes "durable_run racing db h db'" "tables_empty db" "job_at db' i = Some r"
  shows "\<exists>p tx t s. proposal_at db' i = Some p \<and> gp_tx_spec p = Some tx \<and> jb_chain_id r = int (tx_chain_id tx)
    \<and> from_spec tx (nat (jb_nonce r)) (tx_chain_id tx) = (Inr t :: string broadcast_error + eip1559_tx)
    \<and> jb_signed_raw r = encode_signed t s
    \<and> ((eq_ignore_ascii_case (tx_data tx) ''0x'' \<and> parse_hex_quantity (tx_value tx) = Some 0)
      \<or> (\<exists>env who a now d d0 secret session row custody rf ch.
            (ApproveCall env who i a now, d) \<in> set h \<and> d0 \<in> snd ` set h
          \<and> pn_actor_kind who = ''human''
          \<and> session \<in> set (db_sessions d) \<and> pn_session_id who = Some (sn_id session)
          \<and> sn_user_id session = pn_actor_id who \<and> sn_origin_kind session = ''human'' \<and> live_session now session
          \<and> hm_get (db_totp_refs d0) (pn_actor_id who) = Some secret
          \<and> gc_totp env secret (pf_totp a) (nat (now div 1000)) = Inr True
          \<and> proposal_at d i = Some row \<and> gp_tx_spec row = Some tx \<and> gp_custody row = Some custody
          \<and> gp_state row = PsPending \<and> now < gp_expires_ts row
          \<and> gp_hash row = gc_hash env tx custody \<and> pf_expected_hash a = gp_hash row
          \<and> rf \<in> snd ` set (db_references d) \<and> ar_token_hash rf = encode_hex (gc_sha256 env (pf_reference a))
          \<and> ar_actor_id rf = pn_actor_id who \<and> ar_target_id rf = i \<and> ar_status rf = RefPending \<and> now < ar_expires_ts rf
          \<and> ch \<in> snd ` set (db_challenges d) \<and> su_reference_id ch = ar_id rf \<and> su_actor_id ch = pn_actor_id who
          \<and> su_target_id ch = Some i \<and> su_consumed_ts ch = None \<and> now < su_expires_ts ch))"
proof -
  have "human_inv [] db" using tables_empty_at [OF assms(2)] by (simp add: human_inv_def signed_ok_def)
  then have inv: "human_inv h db'" by (rule human_inv_run [OF assms(1)])
  from inv assms(3) obtain p tx t s where signed: "proposal_at db' i = Some p" "gp_tx_spec p = Some tx"
      "jb_chain_id r = int (tx_chain_id tx)"
      "from_spec tx (nat (jb_nonce r)) (tx_chain_id tx) = (Inr t :: string broadcast_error + eip1559_tx)"
      "jb_signed_raw r = encode_signed t s"
    unfolding human_inv_def signed_ok_def signed_by_def by blast
  from inv assms(3) signed(1,2) have "inert tx \<or> human_cleared h i tx"
    unfolding human_inv_def cleared_def by fastforce
  then show ?thesis
  proof
    assume "inert tx"
    with signed show ?thesis unfolding inert_def by blast
  next
    assume "human_cleared h i tx"
    then obtain env who a now d row rf ch where call: "(ApproveCall env who i a now, d) \<in> set h"
        and ok: "approval_checked env who i a now d row rf ch" and row: "gp_tx_spec row = Some tx"
      unfolding human_cleared_def by blast
    from run_admitted [OF assms(1) call] obtain d0 md body u where d0: "d0 \<in> snd ` set h"
      "approve_admit env md i body u d0 = Inr (who, a)" unfolding set_map by blast
    from d0(2) obtain u0 where u0: "u0 \<in> set (db_sessions d0)" "live_session u u0" "sn_origin_kind u0 = ''human''"
        "pn_actor_id who = sn_user_id u0" "pn_actor_kind who = ''human''" "pn_session_id who = Some (sn_id u0)"
        "pn_totp_secret_ref who = hm_get (db_totp_refs d0) (sn_user_id u0)"
      by (rule approve_admit_human)
    note who = u0(5,6) u0(7) [folded u0(4)]
    from ok have "revalidate_principal who approval_scope 4 True now d = Inr ()" by (simp add: approval_checked_def)
    from this who(2) obtain session where session: "session \<in> set (db_sessions d)" "sn_id session = sn_id u0"
        "sn_user_id session = pn_actor_id who" "sn_origin_kind session = ''human''" "live_session now session"
      by (rule revalidated_session)
    from ok obtain secret where secret: "hm_get (db_totp_refs d0) (pn_actor_id who) = Some secret"
        "gc_totp env secret (pf_totp a) (nat (now div 1000)) = Inr True"
      unfolding approval_checked_def who(3) by blast
    from ok row obtain custody where custody: "gp_custody row = Some custody" "gp_hash row = gc_hash env tx custody"
      unfolding approval_checked_def same_text_iff by auto
    have rest: "proposal_at d i = Some row" "gp_state row = PsPending" "now < gp_expires_ts row"
        "pf_expected_hash a = gp_hash row" "rf \<in> snd ` set (db_references d)"
        "ar_token_hash rf = encode_hex (gc_sha256 env (pf_reference a))" "ch \<in> snd ` set (db_challenges d)"
        "su_reference_id ch = ar_id rf"
      using ok unfolding approval_checked_def same_text_iff by auto
    have bound: "ar_actor_id rf = pn_actor_id who" "ar_target_id rf = i" "ar_status rf = RefPending" "now < ar_expires_ts rf"
        "su_actor_id ch = pn_actor_id who" "su_target_id ch = Some i" "su_consumed_ts ch = None" "now < su_expires_ts ch"
      using ok unfolding approval_checked_def reference_bound_def challenge_bound_def by auto
    have "pn_session_id who = Some (sn_id session)" using who(2) session(2) by simp
    with signed call d0(1) who(1) session(1,3-5) secret custody rest bound row show ?thesis by blast
  qed
qed

subsection \<open>Two runs\<close>

text \<open>In the first run two inert transactions are approved by the policy; one is signed and submitted, then
  the other is signed. In the second a human approves a transaction that moves value.\<close>

definition durable_tx :: tx_spec where
  "durable_tx = nonce_tx\<lparr>tx_value := ''0x0''\<rparr>"

definition durable_wire :: wire_tx where
  "durable_wire = \<lparr>wx_chain_id = ''1'', wx_to = tx_to durable_tx, wx_value = ''0x0'', wx_data = ''0x'', wx_gas_limit = 21000,
     wx_max_fee_per_gas = ''0x2'', wx_max_priority_fee_per_gas = ''0x1'', wx_custody_mode = ''guardian_custody'',
     wx_asset_id = ''eip155:1/native'', wx_asset_decimals = 18\<rparr>"

definition human_wire :: wire_tx where
  "human_wire = durable_wire\<lparr>wx_value := ''0x1''\<rparr>"

definition durable_env :: grpc_env where
  "durable_env = \<lparr>gc_sha256 = (\<lambda>_. []), gc_hash = (\<lambda>tx _. tx_to tx), gc_dec = dec_ref, gc_parse_decimal = (\<lambda>_. Some 0),
     gc_numeric = Some, gc_ulid_ok = (\<lambda>_. True), gc_rpc = (\<lambda>_. None), gc_totp = (\<lambda>_ _ _. Inr False),
     gc_keystore_available = True, gc_service_token_hash = None, gc_allowed_destinations = [tx_to durable_tx],
     gc_allowed_contract_calls = [], gc_policy = policy_config_default, gc_price_max_age = 60000\<rparr>"

definition durable_grant :: permission_row where
  "durable_grant = \<lparr>pg_id = ''g'', pg_actor_id = ''bot'', pg_actor_kind = ''agent'', pg_tier = 4,
     pg_scopes = JArray [JString ''guardian.transfer''], pg_expires_ts = None, pg_revoked_ts = None\<rparr>"

definition durable_principal :: principal where
  "durable_principal = \<lparr>pn_actor_id = ''bot'', pn_actor_kind = ''agent'', pn_grant_id = ''g'', pn_tier = 4,
     pn_session_id = None, pn_totp_secret_ref = None\<rparr>"

definition durable_start :: guardian_db where
  "durable_start = \<lparr>db_proposals = [], db_jobs = [], db_nonces = [], db_events = [], db_references = [], db_challenges = [],
     db_attempts = [], db_sessions = [], db_grants = [durable_grant], db_totp_refs = [], db_prices = []\<rparr>"

lemma durable_tx_sel:
  "tx_chain_id durable_tx = 1" "tx_value durable_tx = ''0x0''" "tx_data durable_tx = ''0x''" "tx_gas_limit durable_tx = 21000"
  "tx_max_fee_per_gas durable_tx = ''0x2''" "tx_max_priority_fee_per_gas durable_tx = ''0x1''"
  "tx_to durable_tx = ''0x0707070707070707070707070707070707070707''"
  by (simp_all add: durable_tx_def nonce_tx_def)

lemma human_tx_sel:
  "tx_chain_id nonce_tx = 1" "tx_value nonce_tx = ''0x1''" "tx_data nonce_tx = ''0x''" "tx_gas_limit nonce_tx = 21000"
  "tx_max_fee_per_gas nonce_tx = ''0x2''" "tx_max_priority_fee_per_gas nonce_tx = ''0x1''" "tx_to nonce_tx = tx_to durable_tx"
  by (simp_all add: nonce_tx_def durable_tx_def)

lemma durable_quantities:
  "parse_hex_quantity ''0x0'' = Some 0" "parse_hex_quantity ''0x1'' = Some 1" "parse_hex_quantity ''0x2'' = Some 2"
  by (simp_all add: parse_hex_quantity_def strip_prefix_def starts_with_def is_ascii_hexdigit_def from_hex_def hex_value_def
      Let_def)

lemma durable_parsed:
  "parse_wire_tx durable_wire = Inr (durable_tx, GuardianCustody, ''eip155:1/native'', 18)"
  "parse_wire_tx human_wire = Inr (nonce_tx, GuardianCustody, ''eip155:1/native'', 18)"
proof -
  have chain: "from_dec 64 ''1'' = Some 1" by (simp add: from_dec_def is_ascii_digit_def Let_def)
  have addr: "validate_address ''0x0707070707070707070707070707070707070707'' = Inr ()"
    by (simp add: validate_address_def starts_with_def is_ascii_hexdigit_def Let_def)
  have q: "validate_hex_quantity ''0x0'' f = Inr 0" "validate_hex_quantity ''0x1'' f = Inr 1" "validate_hex_quantity ''0x2'' f = Inr 2" for f
    by (simp_all add: validate_hex_quantity_def canonical_digits_def strip_prefix_def starts_with_def is_ascii_hexdigit_def
        from_hex_def hex_value_def Let_def)
  have d: "validate_calldata ''0x'' = Inr ()" by (simp add: validate_calldata_def strip_prefix_def starts_with_def)
  show "parse_wire_tx durable_wire = Inr (durable_tx, GuardianCustody, ''eip155:1/native'', 18)"
    unfolding parse_wire_tx_def durable_wire_def
    by (simp add: chain addr q d durable_tx_sel durable_tx_def nonce_tx_def)
  show "parse_wire_tx human_wire = Inr (nonce_tx, GuardianCustody, ''eip155:1/native'', 18)"
    unfolding parse_wire_tx_def human_wire_def durable_wire_def
    by (simp add: chain addr q d durable_tx_sel nonce_tx_def)
qed

lemma durable_signs:
  assumes "tx = durable_tx \<or> tx = nonce_tx"
  shows "\<exists>raw h. sign_eip1559_transaction (\<lambda>_. []) (\<lambda>_. Inr \<lparr>sg_r = [1], sg_s = [2], sg_y_parity = 0\<rparr>) tx n 1
     = (Inr raw :: string broadcast_error + string) \<and> raw_transaction_hash (\<lambda>_. []) raw = (Inr h :: string broadcast_error + string)"
proof -
  have q: "parse_hex_u128 ''0x0'' = (Inr 0 :: string broadcast_error + nat)" "parse_hex_u128 ''0x1'' = (Inr 1 :: string broadcast_error + nat)"
    "parse_hex_u128 ''0x2'' = (Inr 2 :: string broadcast_error + nat)"
    by (simp_all add: parse_hex_u128_def without_0x_def strip_prefix_def starts_with_def from_hex_def hex_value_def ok_or_def Let_def)
  have "\<exists>a. parse_address (tx_to durable_tx) = (Inr a :: string broadcast_error + u8 list)"
    by (simp add: durable_tx_sel parse_address_def parse_hex_bytes_def without_0x_def strip_prefix_def starts_with_def
        hex_value_def ok_or_def and_then_def Let_def)
  then obtain a where a: "parse_address (tx_to durable_tx) = (Inr a :: string broadcast_error + u8 list)" by blast
  have d: "parse_hex_bytes ''0x'' = (Inr [] :: string broadcast_error + u8 list)"
    by (simp add: parse_hex_bytes_def without_0x_def strip_prefix_def starts_with_def)
  have "\<exists>t. from_spec tx n 1 = (Inr t :: string broadcast_error + eip1559_tx)"
    using assms a by (elim disjE) (simp_all add: from_spec_def durable_tx_sel human_tx_sel q d)
  then obtain t where t: "from_spec tx n 1 = (Inr t :: string broadcast_error + eip1559_tx)" by blast
  obtain bs where bs: "encode_signed t \<lparr>sg_r = [1], sg_s = [2], sg_y_parity = 0\<rparr> = ''0x'' @ encode_hex (0x02 # bs)"
    by (simp add: encode_signed_def)
  have len: "length (encode_hex xs) = 2 * length xs" for xs using hex_decode_length [OF hex_decode_encode] by simp
  have "parse_hex_bytes (''0x'' @ encode_hex (0x02 # bs)) = (Inr (0x02 # bs) :: string broadcast_error + u8 list)"
  proof -
    have "without_0x (''0x'' @ encode_hex (0x02 # bs)) = encode_hex (0x02 # bs)"
      by (simp add: without_0x_def strip_prefix_def starts_with_def)
    moreover have "encode_hex (0x02 # bs) \<noteq> []" using len [of "0x02 # bs"] by auto
    ultimately show ?thesis
      unfolding parse_hex_bytes_def Let_def using len [of "0x02 # bs"] hex_decode_encode [of "0x02 # bs"] by simp
  qed
  note p = this
  show ?thesis
    unfolding sign_eip1559_transaction_def t raw_transaction_hash_def and_then_simps map_err_simps bs
    by (intro exI conjI, rule refl, unfold p and_then_simps) simp
qed

lemma durable_verdict:
  assumes "tx = durable_tx \<and> delta = 0 \<or> tx = nonce_tx \<and> delta = 1"
  shows "\<exists>v. evaluate_with_simulation dec_ref (seed_engine (grpc_engine durable_env) 0 (tx_to durable_tx) 0) tx
       (sim_passed 21000 delta) (delta > 0) 4 = Some v \<and> verdict_state v = (if delta > 0 then PsPending else PsAutoApproved)"
proof -
  let ?e = "seed_engine (grpc_engine durable_env) 0 (tx_to durable_tx) 0"
  have tx: "tx_to tx = tx_to durable_tx" "tx_data tx = ''0x''" "tx_chain_id tx = 1" "tx_max_fee_per_gas tx = ''0x2''"
    "tx_max_priority_fee_per_gas tx = ''0x1''" and delta: "delta \<in> {0, 1}"
    using assms by (auto simp: durable_tx_sel human_tx_sel)
  have add: "dec_add dec_ref 0 delta = Some delta"
    using delta by (auto simp: dec_ref_def dec_round_exact is_decimal_1)
  have c: "pe_config ?e = policy_config_default" by (simp add: seed_engine_def grpc_engine_def policy_engine_new_def durable_env_def)
  have lim: "lt_per_tx_max_usd (pe_limits ?e) = 1000" "lt_daily_max_usd (pe_limits ?e) = 5000" "lt_daily_spent (pe_limits ?e) = 0"
    "hm_get (lt_per_destination_daily (pe_limits ?e)) (tx_to durable_tx) = None"
    "hm_get (lt_per_destination_spent (pe_limits ?e)) (tx_to durable_tx) = Some 0"
    by (simp_all add: seed_engine_def seed_usage_def grpc_engine_def policy_engine_new_def limit_tracker_new_def
        durable_env_def policy_config_default_def)
  have w: "within_limits dec_ref (pe_limits ?e) delta (tx_to durable_tx)"
    using delta by (auto simp: within_limits_def lim get_or_def add)
  have "check_limits dec_ref (pe_limits ?e) delta (tx_to durable_tx) \<noteq> None"
    using delta by (auto simp: check_limits_def lim get_or_def add Let_def)
  then obtain s where s: "check_limits dec_ref (pe_limits ?e) delta (tx_to durable_tx) = Some (Some s)"
    using check_limits_allow by blast
  have list: "is_allowed_transaction (pe_allowlist ?e) tx = Some True"
  proof -
    have "destination_allowed (pe_allowlist ?e) (tx_to durable_tx)"
      by (simp add: destination_allowed_def seed_engine_def grpc_engine_def durable_env_def with_allowed_contract_calls_def
          with_allowed_destinations_def allow_list_new_def)
    then show ?thesis by (simp add: is_allowed_transaction_def tx)
  qed
  have nv: "\<not> (tx_has_value tx \<and> delta \<le> 0)"
    using assms by (auto simp: tx_has_value_def durable_tx_sel durable_quantities)
  have fees: "fees_acceptable policy_config_default tx"
    by (simp add: fees_acceptable_def tx durable_quantities policy_config_default_def)
  have chain: "tx_chain_id tx \<in> set (pf_allowed_chains policy_config_default)"
    by (simp add: tx policy_config_default_def)
  have "evaluate_with_simulation dec_ref ?e tx (sim_passed 21000 delta) (delta > 0) 4 \<noteq> None"
    using chain list nv s tx(1) by (subst evaluate_passed [where s = s]) (simp_all add: c)
  then obtain v where v: "evaluate_with_simulation dec_ref ?e tx (sim_passed 21000 delta) (delta > 0) 4 = Some v" by blast
  from policy_decides [OF v] list nv w fees chain delta tx(1)
  have "pr_allowed v" "pr_requires_human v \<longleftrightarrow> delta > 0" by (auto simp: c policy_config_default_def)
  with v show ?thesis by (simp add: verdict_state_def)
qed

lemma durable_simulated:
  "simulate_async durable_tx 1 v None = sim_passed 21000 v" "simulate_async nonce_tx 1 v None = sim_passed 21000 v"
proof -
  have n: "\<not> eq_ignore_ascii_case ''0x'' ''0xdead''" "\<not> contains ''revert'' (to_lower ''0x'')" by code_simp+
  show "simulate_async durable_tx 1 v None = sim_passed 21000 v" "simulate_async nonce_tx 1 v None = sim_passed 21000 v"
    by (simp_all add: n simulate_async_def local_validate_def durable_tx_sel human_tx_sel starts_with_def)
qed

lemma sum_list_zero: "(\<And>x. x \<in> set xs \<Longrightarrow> f x = 0) \<Longrightarrow> sum_list (map f xs) = (0 :: rat)"
  by (induction xs) simp_all

lemma durable_propose_step:
  assumes "durable_grant \<in> set (db_grants db)" "\<And>g. g \<in> set (db_grants db) \<Longrightarrow> pg_id g = ''g'' \<Longrightarrow> g = durable_grant"
    "\<And>x. x \<in> set (db_proposals db) \<Longrightarrow> gp_value_delta_usd (snd x) = 0" "proposal_at db i = None"
    and "tx = durable_tx \<and> delta = 0 \<and> st = PsAutoApproved \<or> tx = nonce_tx \<and> delta = 1 \<and> st = PsPending"
  shows "\<exists>tr. durable_step False OtherCall db (log_event i None st ''bot'' ''g'' ''policy_evaluated''
     (insert_proposal i tx GuardianCustody st tr (tx_to durable_tx) delta ''g'' 10 db))"
proof -
  from assms(5) obtain v where v: "evaluate_with_simulation dec_ref (seed_engine (grpc_engine durable_env) 0 (tx_to durable_tx) 0) tx
       (sim_passed 21000 delta) (delta > 0) 4 = Some v" "verdict_state v = st" using durable_verdict [of tx delta] by auto
  have tx: "tx_data tx = ''0x''" "tx_to tx = tx_to durable_tx" using assms(5) by (auto simp: durable_tx_sel human_tx_sel)
  from assms(5) obtain wire where wire: "parse_wire_tx wire = Inr (tx, GuardianCustody, ''eip155:1/native'', 18)"
    using durable_parsed by blast
  have sim: "simulate_async tx 1 delta None = sim_passed 21000 delta" using assms(5) durable_simulated by auto
  have "sum_list (map gp_value_delta_usd (filter P (map snd (db_proposals db)))) = 0" for P
    by (rule sum_list_zero) (use assms(3) in auto)
  then have u: "durable_usage durable_env d now db = Inr (0, 0)" for d now
    by (simp add: durable_usage_def durable_env_def Let_def)
  have g: "find (\<lambda>g. pg_id g = ''g'' \<and> pg_actor_id g = ''bot'' \<and> pg_actor_kind g = ''agent'' \<and> current_row now g) (db_grants db)
      = Some durable_grant" (is "find ?P _ = _") for now
  proof (cases "find ?P (db_grants db)")
    case None
    moreover have "?P durable_grant" by (simp add: durable_grant_def current_row_def)
    ultimately have False using assms(1) unfolding find_None_iff by blast
    then show ?thesis ..
  next
    case (Some g)
    from find_SomeD [OF Some] assms(2) have "g = durable_grant" by blast
    with Some show ?thesis by simp
  qed
  have r: "revalidate_principal durable_principal propose_scope 4 False now db = Inr ()" for now
    using g [of now] by (simp add: revalidate_principal_def durable_principal_def durable_grant_def scope_allowed_def propose_scope_def)
  have p: "pn_tier durable_principal = 4" "pn_actor_id durable_principal = ''bot''" "pn_grant_id durable_principal = ''g''"
    "gc_dec durable_env = dec_ref" "gc_hash durable_env tx GuardianCustody = tx_to durable_tx"
    by (simp_all add: durable_principal_def durable_env_def tx)
  have "propose_commit durable_env durable_principal tx GuardianCustody delta (simulate_async tx 1 delta None) i 10 db
    = Some (Inr (wire_proposal_of i st (pr_trace v) (tx_to durable_tx)),
        log_event i None st ''bot'' ''g'' ''policy_evaluated''
        (insert_proposal i tx GuardianCustody st (pr_trace v) (tx_to durable_tx) delta ''g'' 10 db))"
    unfolding propose_commit_def sim by (simp add: u r p v tx Let_def)
  from durable_step.propose [OF wire assms(4) refl this] show ?thesis by blast
qed

lemma durable_prepare_step:
  assumes "proposal_at db i = Some p" "gp_tx_spec p = Some tx" "tx = durable_tx \<or> tx = nonce_tx" "approved_state (gp_state p)"
    "gp_approval_expires_at p = Some e" "20 < e" "job_at db i = None" "\<not> chain_has_prepared_job 1 db"
    "next_durable_nonce 1 0 db = n" "0 \<le> n" "n < 100"
  shows "\<exists>raw h. durable_step False OtherCall db (insert_worker_event i (Some (gp_state p)) (gp_state p) (gp_grant_id p) ''broadcast_prepared''
     (insert_job i 1 n raw h 20 db))"
proof -
  obtain raw h where s: "sign_eip1559_transaction (\<lambda>_. []) (\<lambda>_. Inr \<lparr>sg_r = [1], sg_s = [2], sg_y_parity = 0\<rparr>) tx (nat n) 1
     = (Inr raw :: string broadcast_error + string)" "raw_transaction_hash (\<lambda>_. []) raw = (Inr h :: string broadcast_error + string)"
    using durable_signs [OF assms(3)] by blast
  have small: "\<not> n + 1 \<ge> 2 ^ 63" "\<not> n < 0" using assms(10,11) by simp_all
  have chain: "tx_chain_id tx = 1" using assms(3) by (auto simp: durable_tx_sel human_tx_sel)
  have "prepare_commit (\<lambda>_. []) (\<lambda>_. Inr \<lparr>sg_r = [1], sg_s = [2], sg_y_parity = 0\<rparr>) i tx (int (tx_chain_id tx)) 0 20 db
    = (Inr True, insert_worker_event i (Some (gp_state p)) (gp_state p) (gp_grant_id p) ''broadcast_prepared''
        (insert_job i 1 n raw h 20 db))"
    using assms(1,2,4-9) small s
    by (simp add: prepare_commit_def lapsed_def chain Let_def)
  from durable_step.prepare [OF assms(1,2) _ this] assms(7) show ?thesis by blast
qed

lemma durable_step_more: "durable_step False l db db' \<Longrightarrow> durable_step racing l db db'"
  by (induction rule: durable_step.induct) (blast intro: durable_step.intros)+

lemma run_reaches: "durable_run False db h db' \<Longrightarrow> durable_reaches racing db db'"
  by (induction rule: durable_run.induct) (blast intro: durable_reaches.intros durable_step_more)+

lemma durable_sample_run:
  "\<exists>h db r s. durable_run False durable_start h db \<and> job_at db ''a'' = Some r \<and> job_at db ''b'' = Some s
     \<and> jb_chain_id r = jb_chain_id s \<and> jb_state r = JobSubmitted \<and> jb_state s = JobPrepared"
proof -
  obtain ta where a: "durable_step False OtherCall durable_start (log_event ''a'' None PsAutoApproved ''bot'' ''g'' ''policy_evaluated''
     (insert_proposal ''a'' durable_tx GuardianCustody PsAutoApproved ta (tx_to durable_tx) 0 ''g'' 10 durable_start))"
    (is "durable_step False OtherCall _ ?d1")
    using durable_propose_step [of durable_start "''a''" durable_tx 0 PsAutoApproved] by (auto simp: durable_start_def proposal_at_def)
  have d1: "durable_grant \<in> set (db_grants ?d1)" "\<And>g. g \<in> set (db_grants ?d1) \<Longrightarrow> pg_id g = ''g'' \<Longrightarrow> g = durable_grant"
    "\<And>x. x \<in> set (db_proposals ?d1) \<Longrightarrow> gp_value_delta_usd (snd x) = 0"
    "proposal_at ?d1 ''b'' = None"
    by (auto simp: log_event_def insert_proposal_def durable_start_def proposal_at_def)
  obtain tb where b: "durable_step False OtherCall ?d1 (log_event ''b'' None PsAutoApproved ''bot'' ''g'' ''policy_evaluated''
     (insert_proposal ''b'' durable_tx GuardianCustody PsAutoApproved tb (tx_to durable_tx) 0 ''g'' 10 ?d1))"
    (is "durable_step False OtherCall _ ?d2")
    using durable_propose_step [OF d1, of durable_tx 0 PsAutoApproved] by blast
  have d2: "job_at ?d2 = Map.empty" "db_jobs ?d2 = []" "db_nonces ?d2 = []"
    by (simp_all add: log_event_def insert_proposal_def durable_start_def job_at_def fun_eq_iff)
  have pa: "\<exists>p. proposal_at ?d2 ''a'' = Some p \<and> gp_tx_spec p = Some durable_tx \<and> gp_state p = PsAutoApproved
      \<and> gp_approval_expires_at p = Some 60010 \<and> gp_grant_id p = ''g''"
    and pb: "\<exists>p. proposal_at ?d2 ''b'' = Some p \<and> gp_tx_spec p = Some durable_tx \<and> gp_state p = PsAutoApproved
      \<and> gp_approval_expires_at p = Some 60010 \<and> gp_grant_id p = ''g''"
    by simp_all
  obtain p where p: "proposal_at ?d2 ''a'' = Some p" "gp_tx_spec p = Some durable_tx" "gp_state p = PsAutoApproved"
      "gp_approval_expires_at p = Some 60010" using pa by blast
  have "\<not> chain_has_prepared_job 1 ?d2" "next_durable_nonce 1 0 ?d2 = 0"
    by (simp_all add: chain_has_prepared_job_def next_durable_nonce_def get_or_def durable_start_def)
  then obtain raw h where c: "durable_step False OtherCall ?d2 (insert_worker_event ''a'' (Some PsAutoApproved) PsAutoApproved
      (gp_grant_id p) ''broadcast_prepared'' (insert_job ''a'' 1 0 raw h 20 ?d2))" (is "durable_step False OtherCall _ ?d3")
    using durable_prepare_step [OF p(1,2) disjI1 [OF refl] _ p(4), unfolded p(3)] d2(1) by (fastforce simp: approved_state_def)
  let ?j = "\<lparr>jo_proposal_id = ''a'', jo_chain_id = 1, jo_nonce = 0, jo_signed_raw = raw, jo_tx_hash = h,
    jo_job_state = JobPrepared, jo_proposal_state = PsAutoApproved, jo_approval_expires_at = Some 60010, jo_grant_id = ''g''\<rparr>"
  let ?d4 = "apply_action ?j (ActSubmitted True) 30 ?d3"
  have d: "durable_step False OtherCall ?d3 ?d4" by (rule durable_step.reconcile, simp, simp, simp, simp)
  have d4: "proposal_at ?d4 ''b'' = proposal_at ?d2 ''b''" "job_at ?d4 ''b'' = None"
    "\<exists>r. job_at ?d4 ''a'' = Some r \<and> jb_chain_id r = 1 \<and> jb_state r = JobSubmitted"
    by (simp_all add: apply_action_def mark_submitted_def active_job_def transition_proposal durable_start_def job_at_def)
  have "next_durable_nonce 1 0 ?d4 = 1"
    by (simp add: apply_action_def mark_submitted_def active_job_def next_durable_nonce_def get_or_def durable_start_def)
  moreover have "\<not> chain_has_prepared_job 1 ?d4"
    by (simp add: chain_has_prepared_job_def apply_action_def mark_submitted_def active_job_def d2 durable_start_def transition_to_broadcast_def
        insert_worker_event_def update_job_def insert_job_def log_event_def job_at_def hm_modify_def Let_def split: option.split)
  moreover obtain q where q: "proposal_at ?d4 ''b'' = Some q" "gp_tx_spec q = Some durable_tx" "gp_state q = PsAutoApproved"
      "gp_approval_expires_at q = Some 60010" using pb d4(1) by auto
  ultimately obtain raw' h' where e: "durable_step False OtherCall ?d4 (insert_worker_event ''b'' (Some PsAutoApproved) PsAutoApproved
      (gp_grant_id q) ''broadcast_prepared'' (insert_job ''b'' 1 1 raw' h' 20 ?d4))" (is "durable_step False OtherCall _ ?d5")
    using durable_prepare_step [OF q(1,2) disjI1 [OF refl] _ q(4), unfolded q(3)] d4(2) by (fastforce simp: approved_state_def)
  have more: "\<exists>h. durable_run False durable_start h y" if "\<exists>h. durable_run False durable_start h x" "durable_step False OtherCall x y"
    for x y using that durable_run.step [where l = OtherCall] by fastforce
  have "\<exists>h. durable_run False durable_start h ?d5"
    by (rule more [OF more [OF more [OF more [OF more [OF _ a] b] c] d] e]) (blast intro: durable_run.start)
  moreover have "job_at ?d5 ''a'' = job_at ?d4 ''a''" by simp
  ultimately show ?thesis using d4(3) by fastforce
qed

lemma durable_start_empty: "tables_empty durable_start"
  by (simp add: tables_empty_def durable_start_def)

text \<open>A human with a session, an enrolled secret, a reference and a challenge for one proposal.\<close>

definition human_env :: grpc_env where
  "human_env = durable_env\<lparr>gc_totp := (\<lambda>_ _ _. Inr True)\<rparr>"

definition human_session :: session_row where
  "human_session = \<lparr>sn_id = ''s'', sn_user_id = ''op'', sn_tier = 4, sn_origin_kind = ''human'', sn_token_hash = [],
     sn_expires_ts = 1000, sn_idle_expires_ts = 1000, sn_revoked_ts = None\<rparr>"

definition human_reference :: approval_reference where
  "human_reference = \<lparr>ar_id = ''r'', ar_token_hash = [], ar_actor_id = ''op'', ar_action = ''guardian'', ar_target_id = ''a'',
     ar_requires_step_up = True, ar_status = RefPending, ar_expires_ts = 1000, ar_consumed_ts = None\<rparr>"

definition human_challenge :: step_up_row where
  "human_challenge = \<lparr>su_id = ''c'', su_token_hash = [], su_reference_id = ''r'', su_actor_id = ''op'',
     su_action = ''guardian_approval'', su_target_id = Some ''a'', su_expires_ts = 1000, su_consumed_ts = None,
     su_session_id = None\<rparr>"

definition human_grant :: permission_row where
  "human_grant = \<lparr>pg_id = ''h'', pg_actor_id = ''op'', pg_actor_kind = ''human'', pg_tier = 4,
     pg_scopes = JArray [JString ''guardian.approve''], pg_expires_ts = None, pg_revoked_ts = None\<rparr>"

definition human_start :: guardian_db where
  "human_start = durable_start\<lparr>db_sessions := [human_session], db_grants := [durable_grant, human_grant],
     db_references := [(''r'', human_reference)], db_challenges := [(''c'', human_challenge)],
     db_totp_refs := [(''op'', ''secret'')]\<rparr>"

definition human_principal :: principal where
  "human_principal = \<lparr>pn_actor_id = ''op'', pn_actor_kind = ''human'', pn_grant_id = ''h'', pn_tier = 4,
     pn_session_id = Some ''s'', pn_totp_secret_ref = Some ''secret''\<rparr>"

definition human_proof :: approval_proof where
  "human_proof = \<lparr>pf_reference = replicate 32 CHR ''r'', pf_totp = ''123456'', pf_expected_hash = tx_to durable_tx\<rparr>"

lemma human_admitted:
  assumes "db_sessions db = [human_session]" "db_grants db = [durable_grant, human_grant]" "db_totp_refs db = [(''op'', ''secret'')]"
  shows "approve_admit human_env \<lparr>md_authorization = Some ''Bearer t'', md_actor_id = None, md_actor_kind = None\<rparr> ''a''
      (Some human_proof) 10 db = Inr (human_principal, human_proof)"
proof -
  have f: "filter (\<lambda>g. pg_actor_id g = ''op'' \<and> pg_actor_kind g = ''human'' \<and> current_row 10 g) (db_grants db) = [human_grant]"
    "find (\<lambda>g. pg_id g = ''h'') (db_grants db) = Some human_grant"
    by (simp_all add: assms(2) human_grant_def durable_grant_def current_row_def)
  have "current_grant ''op'' ''human'' (Some 4) (Some ''s'') (Some ''secret'') 10 db = Inr human_principal"
    by (simp add: current_grant_def f best_row_def human_grant_def human_principal_def)
  then have "authenticate human_env \<lparr>md_authorization = Some ''Bearer t'', md_actor_id = None, md_actor_kind = None\<rparr> 10 db = Inr human_principal"
    by (simp add: authenticate_def assms(1,3) human_env_def durable_env_def human_session_def live_session_def hash_session_token_def
        strip_prefix_def starts_with_def encode_hex_def)
  moreover have "pn_actor_kind human_principal = ''human''" "pn_session_id human_principal = Some ''s''" "pn_grant_id human_principal = ''h''"
    "pn_tier human_principal = 4" "gc_keystore_available human_env" "gc_ulid_ok human_env ''a''"
    by (simp_all add: human_principal_def human_env_def durable_env_def)
  moreover have "scope_allowed (pg_scopes human_grant) approval_scope"
    by (simp add: human_grant_def scope_allowed_def approval_scope_def)
  moreover have "length (pf_reference human_proof) = 32" "length (pf_totp human_proof) = 6" by (simp_all add: human_proof_def)
  ultimately show ?thesis by (simp add: approve_admit_def grant_scopes_def f(2) require_scope_def)
qed

lemma human_approves:
  assumes "db_sessions db = [human_session]" "db_grants db = [durable_grant, human_grant]"
    "db_references db = [(''r'', human_reference)]" "db_challenges db = [(''c'', human_challenge)]"
    and "proposal_at db ''a'' = Some row" "gp_tx_spec row = Some nonce_tx" "gp_custody row = Some GuardianCustody"
      "gp_state row = PsPending" "20 < gp_expires_ts row" "gp_hash row = tx_to durable_tx"
  shows "approve_commit human_env human_principal ''a'' human_proof 20 db
    = (Inr (wire_proposal_of ''a'' PsApproved (gp_policy_trace row) (tx_to durable_tx)),
       approved_db human_principal ''a'' 20 human_reference human_challenge db)"
proof -
  have r: "revalidate_principal human_principal approval_scope 4 True 20 db = Inr ()"
    by (simp add: revalidate_principal_def human_principal_def assms(1,2) human_grant_def durable_grant_def current_row_def
        human_session_def live_session_def scope_allowed_def approval_scope_def)
  have h: "gc_hash human_env nonce_tx GuardianCustody = tx_to durable_tx" "pf_expected_hash human_proof = tx_to durable_tx"
    by (simp_all add: human_env_def durable_env_def human_tx_sel human_proof_def)
  have b: "ar_token_hash human_reference = encode_hex (gc_sha256 human_env x)" "su_token_hash human_challenge = encode_hex (gc_sha256 human_env x)"
    "su_reference_id human_challenge = ar_id human_reference" for x
    by (simp_all add: human_env_def durable_env_def human_reference_def human_challenge_def encode_hex_def)
  have "check_binding human_env human_principal ''a'' human_proof row 20 db = check_totp human_env human_principal ''a'' human_proof row
      human_reference human_challenge 20 db"
    using assms(3,4) b
    by (simp add: check_binding_def reference_bound_def challenge_bound_def human_reference_def human_challenge_def human_principal_def)
  also have "\<dots> = (Inr (wire_proposal_of ''a'' PsApproved (gp_policy_trace row) (tx_to durable_tx)),
       approved_db human_principal ''a'' 20 human_reference human_challenge db)"
    using assms(10) by (simp add: check_totp_def human_principal_def human_env_def approved_db_def)
  finally show ?thesis using assms(5-10) by (simp add: approve_commit_def r same_text_iff h)
qed

lemma human_run:
  "\<exists>h db d r p. durable_run False human_start h db \<and> (ApproveCall human_env human_principal ''a'' human_proof 20, d) \<in> set h
     \<and> job_at db ''a'' = Some r \<and> proposal_at db ''a'' = Some p \<and> gp_tx_spec p = Some nonce_tx"
proof -
  obtain tr where a: "durable_step False OtherCall human_start (log_event ''a'' None PsPending ''bot'' ''g'' ''policy_evaluated''
     (insert_proposal ''a'' nonce_tx GuardianCustody PsPending tr (tx_to durable_tx) 1 ''g'' 10 human_start))"
    (is "durable_step False OtherCall _ ?d1")
  proof -
    have "durable_grant \<in> set (db_grants human_start)" "db_proposals human_start = []" "proposal_at human_start ''a'' = None"
      by (simp_all add: human_start_def durable_start_def proposal_at_def)
    moreover have "g = durable_grant" if "g \<in> set (db_grants human_start)" "pg_id g = ''g''" for g
      using that by (auto simp: human_start_def human_grant_def)
    ultimately show thesis using that durable_propose_step [of human_start "''a''" nonce_tx 1 PsPending] by auto
  qed
  have d1: "db_sessions ?d1 = [human_session]" "db_grants ?d1 = [durable_grant, human_grant]" "db_totp_refs ?d1 = [(''op'', ''secret'')]"
    "db_references ?d1 = [(''r'', human_reference)]" "db_challenges ?d1 = [(''c'', human_challenge)]" "job_at ?d1 = Map.empty"
    "db_jobs ?d1 = []" "db_nonces ?d1 = []"
    by (simp_all add: log_event_def insert_proposal_def human_start_def durable_start_def job_at_def fun_eq_iff)
  note admit = human_admitted [OF d1(1-3)]
  have "approve_commit human_env human_principal ''a'' human_proof 20 ?d1 = (Inr (wire_proposal_of ''a'' PsApproved tr (tx_to durable_tx)),
      approved_db human_principal ''a'' 20 human_reference human_challenge ?d1)"
  proof -
    obtain row where row: "proposal_at ?d1 ''a'' = Some row" "gp_tx_spec row = Some nonce_tx" "gp_custody row = Some GuardianCustody"
      "gp_state row = PsPending" "20 < gp_expires_ts row" "gp_hash row = tx_to durable_tx" "gp_policy_trace row = tr" by simp
    from human_approves [OF d1(1,2,4,5) row(1-6)] show ?thesis unfolding row(7) .
  qed
  from durable_step.approve [OF this] have b: "durable_step False (ApproveCall human_env human_principal ''a'' human_proof 20) ?d1
      (approved_db human_principal ''a'' 20 human_reference human_challenge ?d1)" (is "durable_step False ?l _ ?d2") .
  have p: "\<exists>p. proposal_at ?d2 ''a'' = Some p \<and> gp_tx_spec p = Some nonce_tx \<and> gp_state p = PsApproved
      \<and> gp_approval_expires_at p = Some 60020"
    by (simp add: approved_db_def)
  then obtain p where p: "proposal_at ?d2 ''a'' = Some p" "gp_tx_spec p = Some nonce_tx" "gp_state p = PsApproved"
    "gp_approval_expires_at p = Some 60020" by blast
  have d2: "job_at ?d2 ''a'' = None" "\<not> chain_has_prepared_job 1 ?d2" "next_durable_nonce 1 0 ?d2 = 0"
    using d1(6-8) by (simp_all only: approved_db_jobs) (simp_all add: chain_has_prepared_job_def next_durable_nonce_def get_or_def)
  from durable_prepare_step [OF p(1,2) disjI2 [OF refl] _ p(4) _ d2] p(3) obtain raw k where
    c: "durable_step False OtherCall ?d2 (insert_worker_event ''a'' (Some (gp_state p)) (gp_state p) (gp_grant_id p) ''broadcast_prepared''
      (insert_job ''a'' 1 0 raw k 20 ?d2))" (is "durable_step False OtherCall _ ?d3")
    by (auto simp: approved_state_def)
  have "durable_run False human_start ([] @ [(OtherCall, human_start)]) ?d1"
    by (rule durable_run.step [OF durable_run.start a]) simp
  then have "durable_run False human_start (([] @ [(OtherCall, human_start)]) @ [(?l, ?d1)]) ?d2"
    by (rule durable_run.step [OF _ b]) (use admit in \<open>auto simp: list_ex_iff\<close>)
  then have "durable_run False human_start ((([] @ [(OtherCall, human_start)]) @ [(?l, ?d1)]) @ [(OtherCall, ?d2)]) ?d3"
    by (rule durable_run.step [OF _ c]) simp
  moreover have "proposal_at ?d3 ''a'' = Some p" using p(1) by simp
  ultimately show ?thesis using p(2) by fastforce
qed

theorem signed_jobs_were_approved_witness:
  "\<exists>h db r p tx d session row. durable_run False human_start h db \<and> job_at db ''a'' = Some r \<and> proposal_at db ''a'' = Some p
     \<and> gp_tx_spec p = Some tx \<and> parse_hex_quantity (tx_value tx) = Some 1
     \<and> d \<in> snd ` set h \<and> session \<in> set (db_sessions d) \<and> sn_origin_kind session = ''human''
     \<and> proposal_at d ''a'' = Some row \<and> gp_tx_spec row = Some tx \<and> gp_state row = PsPending"
proof -
  obtain h db r p where run: "durable_run False human_start h db" "job_at db ''a'' = Some r" "proposal_at db ''a'' = Some p"
    "gp_tx_spec p = Some nonce_tx" using human_run by blast
  have empty: "tables_empty human_start" by (simp add: tables_empty_def human_start_def durable_start_def)
  have value1: "parse_hex_quantity (tx_value nonce_tx) = Some 1" by (simp add: human_tx_sel durable_quantities)
  from signed_jobs_were_approved [OF run(1) empty run(2)] run(3,4) value1
  obtain d session row where "d \<in> snd ` set h" "session \<in> set (db_sessions d)" "sn_origin_kind session = ''human''"
    "proposal_at d ''a'' = Some row" "gp_tx_spec row = Some nonce_tx" "gp_state row = PsPending"
    by (elim exE conjE disjE) (force intro: image_eqI)+
  with run value1 show ?thesis by blast
qed

theorem live_nonces_distinct_witness:
  "\<exists>db r s. durable_reaches True durable_start db \<and> job_at db ''a'' = Some r \<and> job_at db ''b'' = Some s
     \<and> jb_chain_id r = jb_chain_id s \<and> jb_state r = JobSubmitted \<and> jb_state s = JobPrepared \<and> jb_nonce r \<noteq> jb_nonce s"
proof -
  obtain h db r s where run: "durable_run False durable_start h db" "job_at db ''a'' = Some r" "job_at db ''b'' = Some s"
    "jb_chain_id r = jb_chain_id s" "jb_state r = JobSubmitted" "jb_state s = JobPrepared"
    using durable_sample_run by blast
  note reach = run_reaches [OF run(1), of True]
  have "jb_nonce r \<noteq> jb_nonce s"
    using live_nonces_distinct [OF reach durable_start_empty run(2,3) _ run(4)] run(5,6) by simp
  with reach run show ?thesis by blast
qed

theorem jobs_and_proposals_agree_witness:
  "\<exists>db r p. durable_reaches False durable_start db \<and> job_at db ''a'' = Some r \<and> jb_state r = JobSubmitted
     \<and> proposal_at db ''a'' = Some p \<and> gp_state p = PsBroadcast \<and> gp_tx_hash p = Some (jb_tx_hash r)"
proof -
  obtain h db r s where run: "durable_run False durable_start h db" "job_at db ''a'' = Some r" "jb_state r = JobSubmitted"
    using durable_sample_run by blast
  note reach = run_reaches [OF run(1), of False]
  from jobs_and_proposals_agree [OF reach durable_start_empty run(2)] run(2,3) reach show ?thesis by auto
qed

end
