(* ===== verification/Edge_Costs.thy ===== *)
theory Edge_Costs
  imports Mismatch Fill_Model
begin

text \<open>
  The net-edge decomposition of \<^verbatim>\<open>crates/aether-decompose\<close>: the components (\<^verbatim>\<open>components.rs\<close>), the
  venue fee schedules (\<^verbatim>\<open>fees.rs\<close>) and their sum (\<^verbatim>\<open>decompose.rs\<close>). An overflowing operator panics:
  a function that computes with decimals returns an option, and \<open>None\<close> is the panic; one that can
  also fail returns the result inside it. The lemmas show the sum law, also in the form the core's
  own check has, and the sign and the bounds of the components.
\<close>

subsection \<open>Results that may panic\<close>

definition pthen :: "('e + 'a) option \<Rightarrow> ('a \<Rightarrow> ('e + 'b) option) \<Rightarrow> ('e + 'b) option" where
  "pthen r f = Option.bind r (\<lambda>x. case x of Inl e \<Rightarrow> Some (Inl e) | Inr a \<Rightarrow> f a)"

definition plift :: "'a option \<Rightarrow> ('e + 'a) option" where
  "plift r = map_option Inr r"

lemma pthen_simps [simp]:
  "pthen None f = None" "pthen (Some (Inl e)) f = Some (Inl e)" "pthen (Some (Inr a)) f = f a"
  by (simp_all add: pthen_def)

lemma plift_simps [simp]: "plift None = None" "plift (Some a) = Some (Inr a)"
  by (simp_all add: plift_def)

lemma pthen_ok: "pthen r f = Some (Inr b) \<longleftrightarrow> (\<exists>a. r = Some (Inr a) \<and> f a = Some (Inr b))"
proof (cases r)
  case (Some x)
  then show ?thesis by (cases x) simp_all
qed simp

lemma plift_ok: "plift r = Some (Inr a) \<longleftrightarrow> r = Some a"
  by (auto simp: plift_def)

lemma pthen_okE:
  assumes "pthen r f = Some (Inr b)"
  obtains a where "r = Some (Inr a)" "f a = Some (Inr b)"
  using assms by (auto simp: pthen_ok)

lemma and_thenE:
  assumes "and_then r f = Inr b"
  obtains a where "r = Inr a" "f a = Inr b"
  using assms by (auto simp: and_then_Inr_iff)

subsection \<open>Components (components.rs)\<close>

definition clamp :: "decimal \<Rightarrow> decimal \<Rightarrow> decimal \<Rightarrow> decimal" where
  "clamp lo hi x = (if x < lo then lo else if hi < x then hi else x)"

definition gross_spread :: "dec_ops \<Rightarrow> decimal \<Rightarrow> decimal \<Rightarrow> string \<Rightarrow> decimal option" where
  "gross_spread D buy sell kind =
     (if buy \<le> 0 \<or> sell \<le> 0 then Some 0
      else if kind = ''probability'' then map_option (\<lambda>d. max d 0) (dec_sub D sell buy)
      else do {
        s \<leftarrow> dec_add D buy sell;
        mid \<leftarrow> dec_div D s 2;
        if mid \<le> 0 then Some 0
        else do { d \<leftarrow> dec_sub D sell buy; q \<leftarrow> dec_div D d mid; Some \<bar>q\<bar> }
      })"

definition leg_fees :: "dec_ops \<Rightarrow> decimal \<Rightarrow> decimal \<Rightarrow> decimal option" where
  "leg_fees D notional bps = do { a \<leftarrow> dec_mul D (max notional 0) (clamp 0 1 bps); dec_mul D a 2 }"

definition funding_cost :: "dec_ops \<Rightarrow> decimal \<Rightarrow> decimal \<Rightarrow> decimal option" where
  "funding_cost D rate hours = do { a \<leftarrow> dec_mul D rate hours; dec_div D a 24 }"

definition gas_cost :: "dec_ops \<Rightarrow> u64 \<Rightarrow> u64 \<Rightarrow> decimal option" where
  "gas_cost D units gwei =
     do { a \<leftarrow> dec_mul D (of_nat (unat units)) (of_nat (unat gwei)); dec_div D a 1000000000 }"

definition bridge_cost :: "dec_ops \<Rightarrow> decimal \<Rightarrow> decimal \<Rightarrow> bool \<Rightarrow> decimal option" where
  "bridge_cost D bps notional cross_chain = (if cross_chain then dec_mul D notional bps else Some 0)"

definition settlement_mismatch_discount :: "dec_ops \<Rightarrow> decimal \<Rightarrow> decimal \<Rightarrow> decimal option" where
  "settlement_mismatch_discount D gross factor = dec_mul D gross factor"

definition liquidity_haircut :: "dec_ops \<Rightarrow> decimal \<Rightarrow> decimal \<Rightarrow> decimal option" where
  "liquidity_haircut D sz depth =
     (if depth \<le> 0 then Some 0
      else do {
        ratio \<leftarrow> dec_div D sz depth;
        if ratio \<le> 1 then Some 0
        else do { over \<leftarrow> dec_sub D ratio 1; dec_mul D over (5 / 1000) }
      })"

definition staleness_penalty :: "dec_ops \<Rightarrow> int \<Rightarrow> int \<Rightarrow> decimal option" where
  "staleness_penalty D age stale =
     (if stale \<le> 0 \<or> age \<le> stale then Some 0
      else do { excess \<leftarrow> dec_div D (of_int (age - stale)) (of_int stale); dec_mul D (min excess 1) (1 / 100) })"

definition confidence_penalty :: "dec_ops \<Rightarrow> decimal \<Rightarrow> decimal \<Rightarrow> decimal \<Rightarrow> decimal option" where
  "confidence_penalty D gross conf k =
     do { d \<leftarrow> dec_sub D 1 (clamp 0 1 conf); e \<leftarrow> dec_mul D d (max gross 0); dec_mul D e (max k 0) }"

definition net_edge :: "dec_ops \<Rightarrow> decimal \<Rightarrow> decimal list \<Rightarrow> decimal option" where
  "net_edge D gross costs = do { t \<leftarrow> dec_add_all D 0 costs; dec_sub D gross t }"

text \<open>\<^verbatim>\<open>fills.iter().map(|f| f.price * f.size).sum()\<close>, and the sizes alone.\<close>

fun notional_sum :: "dec_ops \<Rightarrow> decimal \<Rightarrow> fill list \<Rightarrow> decimal option" where
  "notional_sum D acc [] = Some acc"
| "notional_sum D acc (f # fs) =
     do { n \<leftarrow> dec_mul D (f_price f) (f_size f); acc' \<leftarrow> dec_add D acc n; notional_sum D acc' fs }"

definition hd_opt :: "'a list \<Rightarrow> 'a option" where
  "hd_opt xs = (case xs of [] \<Rightarrow> None | x # _ \<Rightarrow> Some x)"

text \<open>A paper market order for the whole size; the ids and the time are fresh.\<close>

definition paper_intent ::
  "ulid \<Rightarrow> ulid \<Rightarrow> utc_time \<Rightarrow> origin \<Rightarrow> order_book \<Rightarrow> side \<Rightarrow> decimal \<Rightarrow> order_intent" where
  "paper_intent i caps now src b s sz =
     \<lparr>oi_id = i, oi_market = ob_market b, oi_side = s, oi_order_type = Market, oi_limit_price = None, oi_size = sz,
       oi_size_unit = Contracts, oi_tif = Ioc, oi_paper = True, oi_origin = src,
       oi_quote_snapshot = \<lparr>q_market = ob_market b, q_bid = map_option lv_price (hd_opt (ob_bids b)),
         q_ask = map_option lv_price (hd_opt (ob_asks b)), q_mid = None, q_last = None,
         q_bid_size = map_option lv_size (hd_opt (ob_bids b)), q_ask_size = map_option lv_size (hd_opt (ob_asks b)),
         q_ts = ob_ts b, q_source = Snapshot, q_seq = ob_seq b\<rparr>,
       oi_caps_version = caps, oi_created_ts = now\<rparr>"

definition slippage_est ::
  "dec_ops \<Rightarrow> render \<Rightarrow> ulid \<Rightarrow> ulid \<Rightarrow> ulid \<Rightarrow> order_book \<Rightarrow> decimal \<Rightarrow> side \<Rightarrow> (fill_error + decimal) option" where
  "slippage_est D R actor i caps b sz s =
     (case origin_new OriginAutomation 3 actor of
        Inl (InvalidTier t) \<Rightarrow> Some (Inl (InvalidInput (''tier must be 1..=5, got '' @ show_nat t)))
      | Inr src \<Rightarrow>
          pthen (Some (walk_book D R b (paper_intent i caps (ob_ts b) src b s sz) fill_config_default)) (\<lambda>fills.
          pthen (plift (notional_sum D 0 fills)) (\<lambda>notional.
          pthen (plift (dec_add_all D 0 (map f_size fills))) (\<lambda>filled_size.
          if filled_size \<le> 0 then Some (Inl (InvalidInput ''fill size must be positive''))
          else
            pthen (plift (dec_div D notional filled_size)) (\<lambda>avg.
            pthen (Some (ok_or (NoLiquidity (key_str (ob_market b)) s) (map_option lv_price (hd_opt (book_side b s))))) (\<lambda>best.
            plift (do { d \<leftarrow> dec_sub D avg best; q \<leftarrow> dec_div D d best; Some \<bar>q\<bar> })))))))"

subsection \<open>Fee schedules (fees.rs)\<close>

datatype fee_model = ProbabilityCurve | NotionalRate | ReadOnly

record raw_schedule =
  rs_model :: fee_model
  rs_taker_rate :: string

record fee_schedule =
  fs_model :: fee_model
  fs_taker_rate :: decimal

type_synonym fee_catalog = "(string, fee_schedule) hash_map"

datatype fee_error = MissingVenue string | ReadOnlyVenue string | InvalidFeeConfig string string

text \<open>Each embedded file is what the TOML parser makes of it; \<open>parse\<close> is \<^verbatim>\<open>Decimal::from_str\<close>.\<close>

fun load_schedules ::
  "(string \<Rightarrow> string + decimal) \<Rightarrow> (string \<times> (string + raw_schedule)) list \<Rightarrow> fee_catalog \<Rightarrow> fee_error + fee_catalog" where
  "load_schedules parse [] cat = Inr cat"
| "load_schedules parse ((venue, source) # rest) cat =
     and_then (map_err (InvalidFeeConfig venue) source) (\<lambda>raw.
     and_then (map_err (InvalidFeeConfig venue) (parse (rs_taker_rate raw))) (\<lambda>rate.
     if \<not> (0 \<le> rate \<and> rate \<le> 1)
     then Inl (InvalidFeeConfig venue ''taker_rate must be between zero and one'')
     else load_schedules parse rest (hm_put venue \<lparr>fs_model = rs_model raw, fs_taker_rate = rate\<rparr> cat)))"

definition embedded_fees :: "(string \<times> (string + raw_schedule)) list" where
  "embedded_fees =
     [(''kalshi'', Inr \<lparr>rs_model = ProbabilityCurve, rs_taker_rate = ''0.07''\<rparr>),
      (''polymarket'', Inr \<lparr>rs_model = ProbabilityCurve, rs_taker_rate = ''0.07''\<rparr>),
      (''hyperliquid'', Inr \<lparr>rs_model = NotionalRate, rs_taker_rate = ''0.0007''\<rparr>),
      (''alpaca'', Inr \<lparr>rs_model = NotionalRate, rs_taker_rate = ''0.0025''\<rparr>),
      (''openbb'', Inr \<lparr>rs_model = ReadOnly, rs_taker_rate = ''0''\<rparr>)]"

definition fees_load_embedded :: "(string \<Rightarrow> string + decimal) \<Rightarrow> fee_error + fee_catalog" where
  "fees_load_embedded parse = load_schedules parse embedded_fees []"

definition estimate_leg ::
  "dec_ops \<Rightarrow> fee_catalog \<Rightarrow> string \<Rightarrow> decimal \<Rightarrow> decimal \<Rightarrow> (fee_error + decimal) option" where
  "estimate_leg D cat venue price sz =
     (case hm_get cat venue of
        None \<Rightarrow> Some (Inl (MissingVenue venue))
      | Some s \<Rightarrow>
          let n = max sz 0; p = max price 0 in
          (case fs_model s of
             ProbabilityCurve \<Rightarrow>
               let b = clamp 0 1 p in
               plift (do { x \<leftarrow> dec_mul D n (fs_taker_rate s); y \<leftarrow> dec_mul D x b; q \<leftarrow> dec_sub D 1 b; dec_mul D y q })
           | NotionalRate \<Rightarrow> plift (do { x \<leftarrow> dec_mul D n p; dec_mul D x (fs_taker_rate s) })
           | ReadOnly \<Rightarrow> Some (Inl (ReadOnlyVenue venue))))"

definition estimate_pair ::
  "dec_ops \<Rightarrow> fee_catalog \<Rightarrow> string \<Rightarrow> string \<Rightarrow> decimal \<Rightarrow> decimal \<Rightarrow> decimal \<Rightarrow> (fee_error + decimal) option" where
  "estimate_pair D cat buy_venue sell_venue buy_price sell_price sz =
     pthen (estimate_leg D cat buy_venue buy_price sz) (\<lambda>a.
     pthen (estimate_leg D cat sell_venue sell_price sz) (\<lambda>b.
     plift (dec_add D a b)))"

definition is_executable :: "fee_catalog \<Rightarrow> string \<Rightarrow> fee_error + bool" where
  "is_executable cat venue =
     and_then (ok_or (MissingVenue venue) (hm_get cat venue)) (\<lambda>s. Inr (fs_model s \<noteq> ReadOnly))"

subsection \<open>The decomposition (decompose.rs)\<close>

text \<open>The same eleven fields as the core's decomposition.\<close>

type_synonym net_decomposition = edge_decomposition

record decomposition_context =
  dc_buy_price :: decimal
  dc_sell_price :: decimal
  dc_price_kind :: string
  dc_notional :: decimal
  dc_fee_bps :: decimal
  dc_fee_amount :: "decimal option"
  dc_is_cross_chain :: bool
  dc_bridge_fee_bps :: decimal
  dc_mismatch_discount :: decimal
  dc_funding_rate :: decimal
  dc_hold_hours :: decimal
  dc_max_quote_age_ms :: int
  dc_tick_stale_ms :: int
  dc_confidence :: decimal
  dc_confidence_k :: decimal
  dc_requires_gas :: bool
  dc_gas_units :: u64
  dc_gas_price_gwei :: u64
  dc_avg_depth :: decimal

definition context_default :: decomposition_context where
  "context_default =
     \<lparr>dc_buy_price = 0, dc_sell_price = 0, dc_price_kind = ''probability'', dc_notional = 100, dc_fee_bps = 1 / 1000,
       dc_fee_amount = None, dc_is_cross_chain = False, dc_bridge_fee_bps = 5 / 1000, dc_mismatch_discount = 0,
       dc_funding_rate = 0, dc_hold_hours = 24, dc_max_quote_age_ms = 0, dc_tick_stale_ms = 5000, dc_confidence = 1,
       dc_confidence_k = 1, dc_requires_gas = False, dc_gas_units = 21000, dc_gas_price_gwei = 20, dc_avg_depth = 0\<rparr>"

definition apply_mismatch_config ::
  "pair_config \<Rightarrow> string \<Rightarrow> string \<Rightarrow> decomposition_context \<Rightarrow> decomposition_context" where
  "apply_mismatch_config cfg a b ctx = ctx\<lparr>dc_mismatch_discount := pair_discount_for cfg a b\<rparr>"

definition net_costs :: "net_decomposition \<Rightarrow> decimal list" where
  "net_costs e = [ed_fees e, ed_slippage_est e, ed_funding_cost e, ed_gas_cost e, ed_bridge_cost e,
     ed_settlement_mismatch_discount e, ed_liquidity_haircut e, ed_staleness_penalty e, ed_confidence_penalty e]"

definition with_slippage :: "dec_ops \<Rightarrow> decimal \<Rightarrow> net_decomposition \<Rightarrow> net_decomposition option" where
  "with_slippage D s e =
     (let e' = e\<lparr>ed_slippage_est := max s 0\<rparr>
      in map_option (\<lambda>net. e'\<lparr>ed_net_edge := net\<rparr>) (net_edge D (ed_gross_spread e') (net_costs e')))"

definition decompose :: "dec_ops \<Rightarrow> decomposition_context \<Rightarrow> net_decomposition option" where
  "decompose D c = do {
     gross \<leftarrow> gross_spread D (dc_buy_price c) (dc_sell_price c) (dc_price_kind c);
     fee \<leftarrow> (case dc_fee_amount c of Some f \<Rightarrow> Some f | None \<Rightarrow> leg_fees D (dc_notional c) (dc_fee_bps c));
     let slippage = 0;
     funding \<leftarrow> funding_cost D (dc_funding_rate c) (dc_hold_hours c);
     gas \<leftarrow> (if dc_requires_gas c then gas_cost D (dc_gas_units c) (dc_gas_price_gwei c) else Some 0);
     bridge \<leftarrow> bridge_cost D (dc_bridge_fee_bps c) (dc_notional c) (dc_is_cross_chain c);
     discount \<leftarrow> settlement_mismatch_discount D gross (dc_mismatch_discount c);
     haircut \<leftarrow> liquidity_haircut D (dc_notional c) (dc_avg_depth c);
     staleness \<leftarrow> staleness_penalty D (dc_max_quote_age_ms c) (dc_tick_stale_ms c);
     penalty \<leftarrow> confidence_penalty D gross (dc_confidence c) (dc_confidence_k c);
     let costs = [fee, slippage, funding, gas, bridge, discount, haircut, staleness, penalty];
     net \<leftarrow> net_edge D gross costs;
     Some \<lparr>ed_gross_spread = gross, ed_fees = fee, ed_slippage_est = slippage, ed_funding_cost = funding,
       ed_gas_cost = gas, ed_bridge_cost = bridge, ed_settlement_mismatch_discount = discount,
       ed_liquidity_haircut = haircut, ed_staleness_penalty = staleness, ed_confidence_penalty = penalty,
       ed_net_edge = net\<rparr>
   }"

subsection \<open>The sum law\<close>

lemma bind_SomeE:
  assumes "Option.bind x f = Some b"
  obtains a where "x = Some a" "f a = Some b"
  using assms by (auto simp: bind_Some_iff)

text \<open>The components of a decomposition, each as its function computes it.\<close>

lemma decomposeE:
  assumes "decompose D c = Some e"
  obtains "gross_spread D (dc_buy_price c) (dc_sell_price c) (dc_price_kind c) = Some (ed_gross_spread e)"
    "(case dc_fee_amount c of Some f \<Rightarrow> Some f | None \<Rightarrow> leg_fees D (dc_notional c) (dc_fee_bps c)) = Some (ed_fees e)"
    "ed_slippage_est e = 0" "funding_cost D (dc_funding_rate c) (dc_hold_hours c) = Some (ed_funding_cost e)"
    "(if dc_requires_gas c then gas_cost D (dc_gas_units c) (dc_gas_price_gwei c) else Some 0) = Some (ed_gas_cost e)"
    "bridge_cost D (dc_bridge_fee_bps c) (dc_notional c) (dc_is_cross_chain c) = Some (ed_bridge_cost e)"
    "settlement_mismatch_discount D (ed_gross_spread e) (dc_mismatch_discount c) = Some (ed_settlement_mismatch_discount e)"
    "liquidity_haircut D (dc_notional c) (dc_avg_depth c) = Some (ed_liquidity_haircut e)"
    "staleness_penalty D (dc_max_quote_age_ms c) (dc_tick_stale_ms c) = Some (ed_staleness_penalty e)"
    "confidence_penalty D (ed_gross_spread e) (dc_confidence c) (dc_confidence_k c) = Some (ed_confidence_penalty e)"
    "net_edge D (ed_gross_spread e) (net_costs e) = Some (ed_net_edge e)"
  using assms unfolding decompose_def Let_def by (elim bind_SomeE) (auto simp: net_costs_def)

lemma with_slippage_Some:
  "with_slippage D s e = Some e' \<longleftrightarrow>
     (\<exists>net. net_edge D (ed_gross_spread e) (net_costs (e\<lparr>ed_slippage_est := max s 0\<rparr>)) = Some net
        \<and> e' = e\<lparr>ed_slippage_est := max s 0, ed_net_edge := net\<rparr>)"
  by (auto simp: with_slippage_def Let_def)

text \<open>The net edge, for a decomposition that came out of \<open>decompose\<close> or \<open>with_slippage\<close>.\<close>

definition adds_up :: "dec_ops \<Rightarrow> net_decomposition \<Rightarrow> bool" where
  "adds_up D e \<longleftrightarrow> net_edge D (ed_gross_spread e) (net_costs e) = Some (ed_net_edge e)"

lemma decompose_adds_up: "decompose D c = Some e \<Longrightarrow> adds_up D e"
  by (elim decomposeE) (simp add: adds_up_def)

lemma with_slippage_adds_up: "with_slippage D s e = Some e' \<Longrightarrow> adds_up D e'"
  by (auto simp: with_slippage_Some adds_up_def net_costs_def)

text \<open>The core's check adds the costs starting from the fees, the decomposition starting from zero.\<close>

lemma adds_up_valid:
  assumes "decimal_arith D" "is_decimal (ed_fees e)" "adds_up D e"
  shows "edge_validate D e = Some (Inr ())"
proof -
  have "dec_add D 0 (ed_fees e) = Some (ed_fees e)" by (rule decimal_arith.add_0(2) [OF assms(1,2)])
  with assms(3) obtain t where "dec_add_all D (ed_fees e) (tl (net_costs e)) = Some t"
    and "dec_sub D (ed_gross_spread e) t = Some (ed_net_edge e)"
    by (auto simp: adds_up_def net_edge_def net_costs_def bind_Some_iff)
  then show ?thesis by (simp add: edge_validate_def net_costs_def)
qed

text \<open>What the core computes from the components is the decomposition itself.\<close>

definition costs_of :: "net_decomposition \<Rightarrow> edge_costs" where
  "costs_of e = \<lparr>ec_fees = ed_fees e, ec_slippage_est = ed_slippage_est e, ec_funding_cost = ed_funding_cost e,
     ec_gas_cost = ed_gas_cost e, ec_bridge_cost = ed_bridge_cost e,
     ec_settlement_mismatch_discount = ed_settlement_mismatch_discount e,
     ec_liquidity_haircut = ed_liquidity_haircut e, ec_staleness_penalty = ed_staleness_penalty e,
     ec_confidence_penalty = ed_confidence_penalty e\<rparr>"

lemma adds_up_compute:
  assumes "decimal_arith D" "is_decimal (ed_fees e)" "adds_up D e"
  shows "edge_compute D (ed_gross_spread e) (costs_of e) = Some e"
proof -
  have "dec_add D 0 (ed_fees e) = Some (ed_fees e)" by (rule decimal_arith.add_0(2) [OF assms(1,2)])
  with assms(3) obtain t where "dec_add_all D (ed_fees e) (tl (net_costs e)) = Some t"
    and "dec_sub D (ed_gross_spread e) t = Some (ed_net_edge e)"
    by (auto simp: adds_up_def net_edge_def net_costs_def bind_Some_iff)
  then show ?thesis by (simp add: edge_compute_def edge_costs_sum_def costs_of_def net_costs_def)
qed

subsection \<open>Bounds of the components\<close>

text \<open>The fee of a leg is never negative, and a read-only venue has none.\<close>

lemma clamp_unit_interval: "0 \<le> clamp 0 1 x" "clamp 0 1 x \<le> 1"
  by (simp_all add: clamp_def)

lemma is_decimal_clamp: "is_decimal x \<Longrightarrow> is_decimal (clamp 0 1 x)"
  by (simp add: clamp_def)

definition rates_in_range :: "fee_catalog \<Rightarrow> bool" where
  "rates_in_range cat \<longleftrightarrow> (\<forall>v s. hm_get cat v = Some s \<longrightarrow> 0 \<le> fs_taker_rate s \<and> fs_taker_rate s \<le> 1)"

lemma load_schedules_range:
  "load_schedules parse sources cat = Inr cat' \<Longrightarrow> rates_in_range cat \<Longrightarrow> rates_in_range cat'"
proof (induction sources arbitrary: cat)
  case (Cons s rest)
  obtain venue source where s: "s = (venue, source)" by (cases s)
  let ?new = "\<lambda>(raw :: raw_schedule) rate. hm_put venue \<lparr>fs_model = rs_model raw, fs_taker_rate = rate\<rparr> cat"
  from Cons.prems(1) have "load_schedules parse ((venue, source) # rest) cat = Inr cat'" unfolding s .
  then obtain raw where "and_then (map_err (InvalidFeeConfig venue) (parse (rs_taker_rate raw)))
      (\<lambda>rate. if \<not> (0 \<le> rate \<and> rate \<le> 1)
        then Inl (InvalidFeeConfig venue ''taker_rate must be between zero and one'')
        else load_schedules parse rest (?new raw rate)) = Inr cat'"
    unfolding load_schedules.simps by (rule and_thenE) (rule that)
  then obtain rate where r: "(if \<not> (0 \<le> rate \<and> rate \<le> 1)
        then Inl (InvalidFeeConfig venue ''taker_rate must be between zero and one'')
        else load_schedules parse rest (?new raw rate)) = Inr cat'"
    by (rule and_thenE)
  then have range: "0 \<le> rate" "rate \<le> 1" by (auto split: if_splits)
  from r range have "load_schedules parse rest (?new raw rate) = Inr cat'" by simp
  moreover from range Cons.prems(2) have "rates_in_range (?new raw rate)"
    by (simp add: rates_in_range_def hm_get_put)
  ultimately show ?case using Cons.IH by blast
qed simp

lemma loaded_rates: "fees_load_embedded parse = Inr cat \<Longrightarrow> rates_in_range cat"
  unfolding fees_load_embedded_def by (rule load_schedules_range) (auto simp: rates_in_range_def)

lemma estimate_leg_nonneg:
  assumes "decimal_arith D" "rates_in_range cat" "\<And>v s. hm_get cat v = Some s \<Longrightarrow> is_decimal (fs_taker_rate s)"
    and "is_decimal price" "is_decimal sz" "estimate_leg D cat venue price sz = Some (Inr f)"
  shows "0 \<le> f \<and> is_decimal f"
proof -
  note nn = decimal_arith.mul_nonneg [OF assms(1)] and dec = decimal_arith.results_decimal [OF assms(1)]
  obtain s where s: "hm_get cat venue = Some s" "fs_model s \<noteq> ReadOnly"
    using assms(6) by (auto simp: estimate_leg_def Let_def split: option.splits fee_model.splits)
  have r: "0 \<le> fs_taker_rate s" "is_decimal (fs_taker_rate s)" using assms(2,3) s(1) by (auto simp: rates_in_range_def)
  have n: "0 \<le> max sz 0" "is_decimal (max sz 0)" and p: "0 \<le> max price 0" "is_decimal (max price 0)"
    using assms(4,5) by (simp_all add: is_decimal_max)
  show ?thesis
  proof (cases "fs_model s")
    case ProbabilityCurve
    let ?b = "clamp 0 1 (max price 0)"
    have b: "0 \<le> ?b" "?b \<le> 1" "is_decimal ?b" using clamp_unit_interval is_decimal_clamp [OF p(2)] by simp_all
    from assms(6) s ProbabilityCurve obtain x y q where
      "dec_mul D (max sz 0) (fs_taker_rate s) = Some x" "dec_mul D x ?b = Some y" "dec_sub D 1 ?b = Some q"
      "dec_mul D y q = Some f"
      by (auto simp: estimate_leg_def Let_def plift_ok bind_Some_iff)
    moreover from this have "0 \<le> x" "is_decimal x" using nn [OF n(2) r(2) n(1) r(1)] dec(3) [OF n(2) r(2)] by blast+
    moreover from calculation have "0 \<le> y" "is_decimal y" using nn [of x ?b] dec(3) [of x ?b] b by blast+
    moreover from calculation have "0 \<le> q" "is_decimal q"
      using decimal_arith.sub_nonneg [OF assms(1), of 1 ?b q] dec(2) [of 1 ?b] b by simp_all
    ultimately show ?thesis using nn [of y q] dec(3) [of y q] by blast
  next
    case NotionalRate
    from assms(6) s NotionalRate obtain x where "dec_mul D (max sz 0) (max price 0) = Some x"
      "dec_mul D x (fs_taker_rate s) = Some f"
      by (auto simp: estimate_leg_def Let_def plift_ok bind_Some_iff)
    moreover from this have "0 \<le> x" "is_decimal x" using nn [OF n(2) p(2) n(1) p(1)] dec(3) [OF n(2) p(2)] by blast+
    ultimately show ?thesis using nn [of x] dec(3) [of x] r by blast
  qed (use s(2) in simp)
qed

end
