(* ===== verification/Simulator.thy ===== *)
theory Simulator
  imports Edge_Costs Paper_Ledger
begin

text \<open>
  The request-time simulator (\<^verbatim>\<open>connectors/execution/simulator\<close>): validation, the decomposition, the
  walk of both books and the net edge with the slippage of the walk (\<^verbatim>\<open>simulator.rs\<close>), and the table
  of net edges over sizes and quote ages (\<^verbatim>\<open>sensitivity.rs\<close>). The ids and the clock of each walk are
  an argument, numbered in the order of the walks. An error that the code turns into text is kept as
  it is. The lemmas show when a simulation succeeds, and how the table relates to it.
\<close>

subsection \<open>Walking a leg (simulator.rs)\<close>

record simulation_config =
  sg_default_fee_bps :: decimal
  sg_default_bridge_bps :: decimal
  sg_confidence_k :: decimal
  sg_fill_config :: fill_config

definition simulation_config_default :: simulation_config where
  "simulation_config_default = \<lparr>sg_default_fee_bps = 1 / 1000, sg_default_bridge_bps = 5 / 1000, sg_confidence_k = 1,
     sg_fill_config = fill_config_default\<rparr>"

record simulation_input =
  si_buy_price :: decimal
  si_sell_price :: decimal
  si_price_kind :: string
  si_notional :: decimal
  si_buy_book :: "order_book option"
  si_sell_book :: "order_book option"
  si_funding_rate :: decimal
  si_hold_hours :: decimal
  si_max_quote_age_ms :: int
  si_tick_stale_ms :: int
  si_confidence :: decimal
  si_is_cross_chain :: bool
  si_buy_venue :: string
  si_sell_venue :: string

datatype config_cause = FromMismatch mismatch_load_error | FromOrigin origin_error

datatype simulation_error =
    InsufficientData string
  | Configuration config_cause
  | FillFailed fill_error
  | FeeFailed fee_error

record leg_ids =
  li_actor :: ulid
  li_intent :: ulid
  li_caps :: ulid
  li_now :: utc_time

definition build_intent :: "leg_ids \<Rightarrow> order_book \<Rightarrow> side \<Rightarrow> decimal \<Rightarrow> simulation_error + order_intent" where
  "build_intent ids b s sz =
     and_then (map_err (\<lambda>e. Configuration (FromOrigin e)) (origin_new OriginAutomation 3 (li_actor ids))) (\<lambda>src.
     Inr (paper_intent (li_intent ids) (li_caps ids) (li_now ids) src b s sz))"

definition compute_slippage :: "dec_ops \<Rightarrow> fill list \<Rightarrow> side \<Rightarrow> order_book \<Rightarrow> decimal option" where
  "compute_slippage D fills s b =
     (if fills = [] then Some 0
      else do {
        notional \<leftarrow> notional_sum D 0 fills;
        total \<leftarrow> dec_add_all D 0 (map f_size fills);
        if total \<le> 0 then Some 0
        else do {
          avg \<leftarrow> dec_div D notional total;
          let best = (case hd_opt (book_side b s) of Some l \<Rightarrow> lv_price l | None \<Rightarrow> 0);
          if best > 0 then do { d \<leftarrow> dec_sub D avg best; q \<leftarrow> dec_div D d best; Some \<bar>q\<bar> } else Some 0
        }
      })"

definition walk_leg ::
  "dec_ops \<Rightarrow> render \<Rightarrow> leg_ids \<Rightarrow> order_book \<Rightarrow> side \<Rightarrow> decimal \<Rightarrow> fill_config
     \<Rightarrow> (simulation_error + fill list \<times> decimal) option" where
  "walk_leg D R ids b s sz cfg =
     pthen (Some (build_intent ids b s sz)) (\<lambda>it.
     pthen (Some (map_err FillFailed (walk_book D R b it cfg))) (\<lambda>fills.
     plift (map_option (Pair fills) (compute_slippage D fills s b))))"

definition venue_book :: "string \<Rightarrow> order_book \<Rightarrow> bool" where
  "venue_book venue b \<longleftrightarrow> venue \<noteq> [] \<and> starts_with (''mkt:'' @ venue @ '':'') (key_str (ob_market b))"

definition validate_input :: "simulation_input \<Rightarrow> simulation_error + unit" where
  "validate_input i =
     (if si_buy_price i \<le> 0 \<or> si_sell_price i \<le> 0
      then Inl (InsufficientData ''buy_price and sell_price must be positive'')
      else if si_notional i \<le> 0 then Inl (InsufficientData ''notional must be positive'')
      else if si_price_kind i \<noteq> ''probability'' \<and> si_price_kind i \<noteq> ''currency''
      then Inl (InsufficientData ''price_kind must be probability or currency'')
      else if si_confidence i < 0 \<or> si_confidence i > 1
      then Inl (InsufficientData ''confidence must be between zero and one'')
      else if si_max_quote_age_ms i < 0 \<or> si_tick_stale_ms i \<le> 0 \<or> si_hold_hours i < 0
      then Inl (InsufficientData ''quote ages, stale threshold, and hold duration are invalid'')
      else (case (si_buy_book i, si_sell_book i) of
              (Some buy, Some sell) \<Rightarrow>
                if \<not> venue_book (si_buy_venue i) buy \<or> \<not> venue_book (si_sell_venue i) sell
                then Inl (InsufficientData ''book market does not match its declared venue'')
                else Inr ()
            | _ \<Rightarrow> Inl (InsufficientData ''buy_book and sell_book are required for fill-model simulation'')))"

subsection \<open>Sensitivity (sensitivity.rs)\<close>

record sensitivity_row =
  sr_size_multiplier :: decimal
  sr_staleness_ms :: int
  sr_net_edge :: decimal
  sr_slippage_est :: decimal

text \<open>The arguments of \<^verbatim>\<open>SensitivityTable::compute\<close>.\<close>

record sensitivity_args =
  sa_buy_book :: order_book
  sa_sell_book :: order_book
  sa_fill_config :: fill_config
  sa_buy_price :: decimal
  sa_sell_price :: decimal
  sa_price_kind :: string
  sa_base_notional :: decimal
  sa_buy_venue :: string
  sa_sell_venue :: string
  sa_is_cross_chain :: bool
  sa_bridge_fee_bps :: decimal
  sa_mismatch_discount :: decimal
  sa_funding_rate :: decimal
  sa_hold_hours :: decimal
  sa_tick_stale_ms :: int
  sa_confidence :: decimal
  sa_confidence_k :: decimal

definition sensitivity_context ::
  "sensitivity_args \<Rightarrow> decimal \<Rightarrow> decimal \<Rightarrow> decimal \<Rightarrow> int \<Rightarrow> decomposition_context" where
  "sensitivity_context a sz fee depth stale =
     context_default\<lparr>dc_buy_price := sa_buy_price a, dc_sell_price := sa_sell_price a,
       dc_price_kind := sa_price_kind a, dc_notional := sz, dc_fee_amount := Some fee,
       dc_is_cross_chain := sa_is_cross_chain a, dc_bridge_fee_bps := sa_bridge_fee_bps a,
       dc_mismatch_discount := sa_mismatch_discount a, dc_funding_rate := sa_funding_rate a,
       dc_hold_hours := sa_hold_hours a, dc_max_quote_age_ms := stale, dc_tick_stale_ms := sa_tick_stale_ms a,
       dc_confidence := sa_confidence a, dc_confidence_k := sa_confidence_k a, dc_avg_depth := depth\<rparr>"

definition average_depth :: "dec_ops \<Rightarrow> order_book \<Rightarrow> order_book \<Rightarrow> decimal option" where
  "average_depth D buy sell = do {
     b \<leftarrow> dec_add_all D 0 (map lv_size (ob_asks buy));
     s \<leftarrow> dec_add_all D 0 (map lv_size (ob_bids sell));
     t \<leftarrow> dec_add D b s;
     dec_div D t 2
   }"

definition sensitivity_row_at ::
  "dec_ops \<Rightarrow> sensitivity_args \<Rightarrow> decimal \<Rightarrow> decimal \<Rightarrow> decimal \<Rightarrow> decimal \<Rightarrow> decimal \<Rightarrow> int \<Rightarrow> sensitivity_row option" where
  "sensitivity_row_at D a mul sz fee buy_slip sell_slip stale = do {
     depth \<leftarrow> average_depth D (sa_buy_book a) (sa_sell_book a);
     base \<leftarrow> decompose D (sensitivity_context a sz fee depth stale);
     slip \<leftarrow> dec_add D buy_slip sell_slip;
     e \<leftarrow> with_slippage D slip base;
     Some \<lparr>sr_size_multiplier = mul, sr_staleness_ms = stale, sr_net_edge = ed_net_edge e,
       sr_slippage_est = ed_slippage_est e\<rparr>
   }"

definition staleness_axis :: "int list" where
  "staleness_axis = [0, 2000, 5000, 10000]"

definition size_axis :: "decimal list" where
  "size_axis = [5 / 10, 1, 15 / 10, 2]"

definition sensitivity_size ::
  "dec_ops \<Rightarrow> render \<Rightarrow> leg_ids \<Rightarrow> leg_ids \<Rightarrow> fee_catalog \<Rightarrow> sensitivity_args \<Rightarrow> decimal
     \<Rightarrow> (simulation_error + sensitivity_row list) option" where
  "sensitivity_size D R buy_ids sell_ids cat a mul =
     pthen (plift (dec_mul D (sa_base_notional a) mul)) (\<lambda>sz.
     pthen (map_option (map_err FeeFailed)
       (estimate_pair D cat (sa_buy_venue a) (sa_sell_venue a) (sa_buy_price a) (sa_sell_price a) sz)) (\<lambda>fee.
     pthen (walk_leg D R buy_ids (sa_buy_book a) Buy sz (sa_fill_config a)) (\<lambda>(_, buy_slip).
     pthen (walk_leg D R sell_ids (sa_sell_book a) Sell sz (sa_fill_config a)) (\<lambda>(_, sell_slip).
     plift (those (map (sensitivity_row_at D a mul sz fee buy_slip sell_slip) staleness_axis))))))"

fun sensitivity_sizes ::
  "dec_ops \<Rightarrow> render \<Rightarrow> (nat \<Rightarrow> leg_ids) \<Rightarrow> nat \<Rightarrow> fee_catalog \<Rightarrow> sensitivity_args \<Rightarrow> decimal list
     \<Rightarrow> (simulation_error + sensitivity_row list) option" where
  "sensitivity_sizes D R ids n cat a [] = Some (Inr [])"
| "sensitivity_sizes D R ids n cat a (mul # muls) =
     pthen (sensitivity_size D R (ids n) (ids (n + 1)) cat a mul) (\<lambda>rows.
     pthen (sensitivity_sizes D R ids (n + 2) cat a muls) (\<lambda>more. Some (Inr (rows @ more))))"

definition sensitivity_compute ::
  "dec_ops \<Rightarrow> render \<Rightarrow> (nat \<Rightarrow> leg_ids) \<Rightarrow> nat \<Rightarrow> fee_catalog \<Rightarrow> sensitivity_args
     \<Rightarrow> (simulation_error + sensitivity_row list) option" where
  "sensitivity_compute D R ids n cat a = sensitivity_sizes D R ids n cat a size_axis"

subsection \<open>The simulation (simulator.rs)\<close>

record simulator =
  sm_config :: simulation_config
  sm_mismatch :: pair_config
  sm_fees :: fee_catalog

record simulation =
  sn_decomposition :: net_decomposition
  sn_buy_fills :: "fill list"
  sn_sell_fills :: "fill list"
  sn_sensitivity :: "sensitivity_row list"

definition simulator_new ::
  "parse_decimal \<Rightarrow> string + toml \<Rightarrow> simulation_config \<Rightarrow> simulation_error + simulator" where
  "simulator_new parse table cfg =
     and_then (map_err (\<lambda>e. Configuration (FromMismatch e)) (pairs_from_toml parse table)) (\<lambda>mismatch.
     and_then (map_err FeeFailed (fees_load_embedded parse)) (\<lambda>cat.
     Inr \<lparr>sm_config = cfg, sm_mismatch = mismatch, sm_fees = cat\<rparr>))"

definition simulation_context :: "simulator \<Rightarrow> simulation_input \<Rightarrow> decimal \<Rightarrow> decomposition_context" where
  "simulation_context S i fee =
     context_default\<lparr>dc_buy_price := si_buy_price i, dc_sell_price := si_sell_price i,
       dc_price_kind := si_price_kind i, dc_notional := si_notional i, dc_fee_amount := Some fee,
       dc_is_cross_chain := si_is_cross_chain i, dc_bridge_fee_bps := sg_default_bridge_bps (sm_config S),
       dc_mismatch_discount := pair_discount_for (sm_mismatch S) (si_buy_venue i) (si_sell_venue i),
       dc_funding_rate := si_funding_rate i, dc_hold_hours := si_hold_hours i,
       dc_max_quote_age_ms := si_max_quote_age_ms i, dc_tick_stale_ms := si_tick_stale_ms i,
       dc_confidence := si_confidence i, dc_confidence_k := sg_confidence_k (sm_config S)\<rparr>"

definition simulation_args :: "simulator \<Rightarrow> simulation_input \<Rightarrow> order_book \<Rightarrow> order_book \<Rightarrow> sensitivity_args" where
  "simulation_args S i buy sell =
     \<lparr>sa_buy_book = buy, sa_sell_book = sell, sa_fill_config = sg_fill_config (sm_config S),
       sa_buy_price = si_buy_price i, sa_sell_price = si_sell_price i, sa_price_kind = si_price_kind i,
       sa_base_notional = si_notional i, sa_buy_venue = si_buy_venue i, sa_sell_venue = si_sell_venue i,
       sa_is_cross_chain = si_is_cross_chain i, sa_bridge_fee_bps = sg_default_bridge_bps (sm_config S),
       sa_mismatch_discount = pair_discount_for (sm_mismatch S) (si_buy_venue i) (si_sell_venue i),
       sa_funding_rate = si_funding_rate i, sa_hold_hours = si_hold_hours i,
       sa_tick_stale_ms = si_tick_stale_ms i, sa_confidence = si_confidence i,
       sa_confidence_k = sg_confidence_k (sm_config S)\<rparr>"

definition simulate ::
  "dec_ops \<Rightarrow> render \<Rightarrow> (nat \<Rightarrow> leg_ids) \<Rightarrow> simulator \<Rightarrow> simulation_input \<Rightarrow> (simulation_error + simulation) option" where
  "simulate D R ids S i =
     pthen (Some (validate_input i)) (\<lambda>_.
     pthen (map_option (map_err FeeFailed) (estimate_pair D (sm_fees S) (si_buy_venue i) (si_sell_venue i)
       (si_buy_price i) (si_sell_price i) (si_notional i))) (\<lambda>fee.
     pthen (plift (decompose D (simulation_context S i fee))) (\<lambda>decomp.
     pthen (Some (ok_or (InsufficientData ''buy_book is required'') (si_buy_book i))) (\<lambda>buy.
     pthen (Some (ok_or (InsufficientData ''sell_book is required'') (si_sell_book i))) (\<lambda>sell.
     pthen (walk_leg D R (ids 0) buy Buy (si_notional i) (sg_fill_config (sm_config S))) (\<lambda>(buy_fills, buy_slip).
     pthen (walk_leg D R (ids 1) sell Sell (si_notional i) (sg_fill_config (sm_config S))) (\<lambda>(sell_fills, sell_slip).
     pthen (plift (Option.bind (dec_add D buy_slip sell_slip) (\<lambda>slip. with_slippage D slip decomp))) (\<lambda>e.
     pthen (sensitivity_compute D R ids 2 (sm_fees S) (simulation_args S i buy sell)) (\<lambda>rows.
     Some (Inr \<lparr>sn_decomposition = e, sn_buy_fills = buy_fills, sn_sell_fills = sell_fills,
       sn_sensitivity = rows\<rparr>))))))))))"

subsection \<open>A walk does not depend on its ids\<close>

definition same_terms :: "order_intent \<Rightarrow> order_intent \<Rightarrow> bool" where
  "same_terms it it' \<longleftrightarrow> oi_market it = oi_market it' \<and> oi_side it = oi_side it' \<and> oi_order_type it = oi_order_type it'
     \<and> oi_limit_price it = oi_limit_price it' \<and> oi_size it = oi_size it'"

definition terms_of :: "fill list \<Rightarrow> (decimal \<times> decimal) list" where
  "terms_of fs = map (\<lambda>f. (f_price f, f_size f)) fs"

lemma terms_of_simps [simp]:
  "terms_of [] = []" "terms_of (xs @ ys) = terms_of xs @ terms_of ys" "terms_of (f # fs) = (f_price f, f_size f) # terms_of fs"
  "terms_of fs = [] \<longleftrightarrow> fs = []"
  by (simp_all add: terms_of_def)

definition walked :: "fill list \<times> 'r \<Rightarrow> (decimal \<times> decimal) list \<times> 'r" where
  "walked r = (terms_of (fst r), snd r)"

lemma walked_simps [simp]: "walked (fs, r) = (terms_of fs, r)"
  by (simp add: walked_def)

lemma check_limit_terms: "same_terms it it' \<Longrightarrow> check_limit it p = check_limit it' p"
  by (auto simp: same_terms_def check_limit_def split: option.split)

lemma walk_levels_terms:
  assumes "same_terms it it'" "terms_of fills = terms_of fills'"
  shows "map_ok (walked) (walk_levels D R b it cfg levels fills remaining)
    = map_ok (walked) (walk_levels D R b it' cfg levels fills' remaining)"
  using assms(2)
proof (induction levels arbitrary: fills fills' remaining)
  case (Cons level levels)
  have empty: "fills = [] \<longleftrightarrow> fills' = []" using Cons.prems by (metis terms_of_simps(4))
  let ?sz = "min remaining (lv_size level)"
  have step: "map_ok (walked) (walk_levels D R b it cfg levels (fills @ [mk_fill b it cfg (lv_price level) ?sz fee (visible_ref R b)]) rest)
    = map_ok (walked) (walk_levels D R b it' cfg levels (fills' @ [mk_fill b it' cfg (lv_price level) ?sz fee (visible_ref R b)]) rest)"
    for fee rest by (rule Cons.IH) (simp add: Cons.prems)
  show ?case
    using Cons.IH [OF Cons.prems] Cons.prems check_limit_terms [OF assms(1)] empty
    by (cases "check_limit it' (lv_price level)"; cases "dec_mul D (lv_price level) ?sz";
        cases "dec_mul D (fc_fee_rate cfg) (the (dec_mul D (lv_price level) ?sz))"; cases "dec_sub D remaining ?sz")
      (simp_all add: step Let_def split: option.split)
qed simp

lemma walk_exhausted_terms:
  assumes "same_terms it it'" "terms_of fills = terms_of fills'"
  shows "map_ok walked (walk_exhausted D R b it cfg base fills remaining)
    = map_ok walked (walk_exhausted D R b it' cfg base fills' remaining)"
proof -
  have p: "exhaustion_price D it cfg base = exhaustion_price D it' cfg base"
    using assms(1) by (simp add: same_terms_def exhaustion_price_def)
  show ?thesis
  proof (cases "exhaustion_price D it' cfg base")
    case (Inr price)
    with p check_limit_terms [OF assms(1)] assms(2) show ?thesis
      by (cases "check_limit it' price"; cases "dec_mul D price remaining";
          cases "dec_mul D (fc_fee_rate cfg) (the (dec_mul D price remaining))")
        (simp_all add: walk_exhausted_def split: option.split)
  qed (simp add: walk_exhausted_def p)
qed

lemma finish_fills_terms:
  assumes "same_terms it it'" "walked r = walked r'"
  shows "map_ok terms_of (finish_fills it r) = map_ok terms_of (finish_fills it' r')"
proof -
  obtain fs v fs' where r: "r = (fs, v)" "r' = (fs', v)" "terms_of fs = terms_of fs'"
    using assms(2) by (cases r; cases r') (simp add: walked_def)
  then have "fs = [] \<longleftrightarrow> fs' = []" by (metis terms_of_simps(4))
  with r assms(1) show ?thesis by (simp add: finish_fills_def same_terms_def split: option.split)
qed

lemma map_ok_eqE:
  assumes "map_ok f r = map_ok f r'"
  obtains (err) e where "r = Inl e" "r' = Inl e" | (ok) x y where "r = Inr x" "r' = Inr y" "f x = f y"
  using assms by (cases r; cases r') auto

lemma map_ok_and_then:
  assumes "map_ok f r = map_ok f r'" "\<And>x y. f x = f y \<Longrightarrow> map_ok g (k x) = map_ok g (k' y)"
  shows "map_ok g (and_then r k) = map_ok g (and_then r' k')"
  using assms(1) by (rule map_ok_eqE) (simp_all add: assms(2))

lemma walk_book_terms:
  assumes "same_terms it it'"
  shows "map_ok terms_of (walk_book D R b it cfg) = map_ok terms_of (walk_book D R b it' cfg)"
proof -
  let ?levels = "book_side b (oi_side it')"
  let ?rest = "\<lambda>it (fills, remaining, violation). and_then
    (if 0 < remaining \<and> violation = None \<and> fc_aggressiveness cfg = CrossToDepth
     then walk_exhausted D R b it cfg (lv_price (last ?levels)) fills remaining else Inr (fills, violation)) (finish_fills it)"
  have eq: "oi_market it = oi_market it'" "oi_size it = oi_size it'" "oi_side it = oi_side it'"
    using assms by (simp_all add: same_terms_def)
  have rest: "map_ok terms_of (?rest it x) = map_ok terms_of (?rest it' y)" if "walked x = walked y" for x y
  proof -
    obtain fs r v where x1: "x = (fs, r, v)" by (cases x)
    moreover obtain fs' r' v' where "y = (fs', r', v')" by (cases y)
    ultimately have x: "x = (fs, r, v)" "y = (fs', r, v)" "terms_of fs = terms_of fs'"
      using that by (simp_all add: walked_def)
    show ?thesis
      unfolding x(1,2) prod.case
      by (rule map_ok_and_then [OF _ finish_fills_terms [OF assms]])
        (use walk_exhausted_terms [OF assms x(3)] x(3) in simp_all)
  qed
  have "map_ok terms_of (and_then (walk_levels D R b it cfg ?levels [] (oi_size it')) (?rest it))
      = map_ok terms_of (and_then (walk_levels D R b it' cfg ?levels [] (oi_size it')) (?rest it'))"
    by (rule map_ok_and_then [OF walk_levels_terms [OF assms] rest]) simp_all
  then show ?thesis
    unfolding walk_book_def Let_def eq by (cases "fill_config_validate cfg") simp_all
qed

lemma sums_of_terms:
  assumes "terms_of fs = terms_of fs'"
  shows "notional_sum D acc fs = notional_sum D acc fs'" and "map f_size fs = map f_size fs'"
proof -
  show "map f_size fs = map f_size fs'"
    using arg_cong [OF assms, of "map snd"] by (simp add: terms_of_def o_def)
  show "notional_sum D acc fs = notional_sum D acc fs'"
    using assms
  proof (induction fs arbitrary: fs' acc)
    case Nil
    then show ?case by (metis terms_of_simps(1,4))
  next
    case (Cons f fs)
    then obtain g gs where "fs' = g # gs" by (cases fs') simp_all
    with Cons show ?case by (cases "dec_mul D (f_price g) (f_size g)") (auto split: bind_split)
  qed
qed

lemma slippage_of_terms: "terms_of fs = terms_of fs' \<Longrightarrow> compute_slippage D fs s b = compute_slippage D fs' s b"
  using sums_of_terms(1) [of fs fs' D 0] sums_of_terms(2) [of fs fs'] by (auto simp: compute_slippage_def)

text \<open>The slippage of a leg, and its success, are the same for all ids.\<close>

lemma walk_leg_ids:
  assumes "walk_leg D R ids b s sz cfg = Some (Inr (fs, slip))"
  shows "\<exists>fs'. walk_leg D R ids' b s sz cfg = Some (Inr (fs', slip)) \<and> terms_of fs' = terms_of fs"
proof -
  let ?it = "\<lambda>i. paper_intent (li_intent i) (li_caps i) (li_now i) \<lparr>or_kind = OriginAutomation, or_tier = 3, or_actor_id = li_actor i\<rparr> b s sz"
  have build: "build_intent i b s sz = Inr (?it i)" for i by (simp add: build_intent_def origin_new_def)
  have "same_terms (?it ids') (?it ids)" by (simp add: same_terms_def paper_intent_def)
  note same = walk_book_terms [OF this, of D R b cfg]
  have w: "walk_book D R b (?it ids) cfg = Inr fs"
    using assms by (auto simp: walk_leg_def build pthen_ok plift_ok map_err_Inr_iff)
  obtain fs' where w: "walk_book D R b (?it ids') cfg = Inr fs'" "walk_book D R b (?it ids) cfg = Inr fs"
    "terms_of fs' = terms_of fs"
    using same w by (cases "walk_book D R b (?it ids') cfg") simp_all
  with assms slippage_of_terms [OF w(3), of D s b] show ?thesis
    by (cases "compute_slippage D fs s b") (auto simp: walk_leg_def build)
qed

subsection \<open>The table and the simulated edge\<close>

text \<open>Without rounding, the visible depth changes a decomposition by its haircut only.\<close>

lemma net_edge_exact: "net_edge dec_exact gross costs = Some (gross - sum_list costs)"
proof -
  have "dec_add_all dec_exact acc xs = Some (acc + sum_list xs)" for acc xs
    by (induction xs arbitrary: acc) (simp_all add: add.assoc)
  then show ?thesis by (simp add: net_edge_def)
qed

lemma decompose_depth:
  assumes "decompose dec_exact c = Some e" "dc_avg_depth c = 0"
    and "with_slippage dec_exact slip e = Some w"
    and "decompose dec_exact (c\<lparr>dc_avg_depth := depth\<rparr>) = Some e'" "with_slippage dec_exact slip e' = Some w'"
  shows "ed_liquidity_haircut w = 0"
    and "liquidity_haircut dec_exact (dc_notional c) depth = Some (ed_liquidity_haircut w')"
    and "ed_net_edge w' = ed_net_edge w - ed_liquidity_haircut w'"
    and "ed_slippage_est w' = ed_slippage_est w"
proof -
  have h: "ed_liquidity_haircut e = 0" "liquidity_haircut dec_exact (dc_notional c) depth = Some (ed_liquidity_haircut e')"
    using assms(1,4) by (elim decomposeE; simp add: liquidity_haircut_def assms(2))+
  have "ed_gross_spread e' = ed_gross_spread e \<and> ed_fees e' = ed_fees e \<and> ed_funding_cost e' = ed_funding_cost e
    \<and> ed_gas_cost e' = ed_gas_cost e \<and> ed_bridge_cost e' = ed_bridge_cost e
    \<and> ed_settlement_mismatch_discount e' = ed_settlement_mismatch_discount e
    \<and> ed_staleness_penalty e' = ed_staleness_penalty e \<and> ed_confidence_penalty e' = ed_confidence_penalty e"
    using assms(1,4) by (elim decomposeE) (cases "dc_fee_amount c"; cases "dc_requires_gas c"; simp)
  with assms(3,5) h show "ed_liquidity_haircut w = 0"
    and "liquidity_haircut dec_exact (dc_notional c) depth = Some (ed_liquidity_haircut w')"
    and "ed_net_edge w' = ed_net_edge w - ed_liquidity_haircut w'"
    and "ed_slippage_est w' = ed_slippage_est w"
    by (auto simp: with_slippage_Some net_edge_exact net_costs_def)
qed

lemma sensitivity_sizes_elem:
  assumes "sensitivity_sizes D R ids n cat a muls = Some (Inr rows)" "mul \<in> set muls"
  shows "\<exists>i j part. sensitivity_size D R i j cat a mul = Some (Inr part) \<and> set part \<subseteq> set rows"
  using assms
proof (induction muls arbitrary: n rows)
  case (Cons m muls)
  then obtain part more where "sensitivity_size D R (ids n) (ids (n + 1)) cat a m = Some (Inr part)"
    "sensitivity_sizes D R ids (n + 2) cat a muls = Some (Inr more)" "rows = part @ more"
    by (auto simp: pthen_ok)
  note part = this
  show ?case
  proof (cases "mul = m")
    case True
    with part(1,3) show ?thesis by (intro exI [of _ "ids n"] exI [of _ "ids (n + 1)"] exI [of _ part]) simp
  next
    case False
    with Cons.prems(2) Cons.IH [OF part(2)] part(3) show ?thesis by fastforce
  qed
qed simp

lemma those_map_elem: "those (map f xs) = Some ys \<Longrightarrow> x \<in> set xs \<Longrightarrow> \<exists>y \<in> set ys. f x = Some y"
proof (induction xs arbitrary: ys)
  case (Cons z xs)
  then obtain y ys' where "f z = Some y" "those (map f xs) = Some ys'" "ys = y # ys'"
    by (auto split: option.splits)
  with Cons show ?case by auto
qed simp

text \<open>The steps of a simulation that succeeded.\<close>

lemma simulateE:
  assumes "simulate D R ids S i = Some (Inr s)"
  obtains fee decomp buy sell bs ss slip
  where "validate_input i = Inr ()"
    and "estimate_pair D (sm_fees S) (si_buy_venue i) (si_sell_venue i) (si_buy_price i) (si_sell_price i) (si_notional i)
      = Some (Inr fee)"
    and "decompose D (simulation_context S i fee) = Some decomp" "si_buy_book i = Some buy" "si_sell_book i = Some sell"
    and "walk_leg D R (ids 0) buy Buy (si_notional i) (sg_fill_config (sm_config S)) = Some (Inr (sn_buy_fills s, bs))"
    and "walk_leg D R (ids 1) sell Sell (si_notional i) (sg_fill_config (sm_config S)) = Some (Inr (sn_sell_fills s, ss))"
    and "dec_add D bs ss = Some slip" "with_slippage D slip decomp = Some (sn_decomposition s)"
    and "sensitivity_compute D R ids 2 (sm_fees S) (simulation_args S i buy sell) = Some (Inr (sn_sensitivity s))"
  using assms unfolding simulate_def
  by (elim pthen_okE)
    (auto simp: ok_or_Inr_iff map_err_Inr_iff plift_ok bind_Some_iff split: prod.splits elim!: pthen_okE)

text \<open>The row of the table for the size that was simulated.\<close>

lemma simulated_row:
  assumes "sensitivity_compute D R ids n cat a = Some (Inr rows)" "stale \<in> set staleness_axis"
    and "dec_mul D (sa_base_notional a) 1 = Some (sa_base_notional a)"
  obtains row fee bfs bs sfs ss i j
  where "row \<in> set rows" "sr_size_multiplier row = 1" "sr_staleness_ms row = stale"
    and "estimate_pair D cat (sa_buy_venue a) (sa_sell_venue a) (sa_buy_price a) (sa_sell_price a) (sa_base_notional a) = Some (Inr fee)"
    and "walk_leg D R i (sa_buy_book a) Buy (sa_base_notional a) (sa_fill_config a) = Some (Inr (bfs, bs))"
    and "walk_leg D R j (sa_sell_book a) Sell (sa_base_notional a) (sa_fill_config a) = Some (Inr (sfs, ss))"
    and "sensitivity_row_at D a 1 (sa_base_notional a) fee bs ss stale = Some row"
proof -
  have "(1 :: rat) \<in> set size_axis" by (simp add: size_axis_def)
  then obtain i j part where part: "sensitivity_size D R i j cat a 1 = Some (Inr part)" "set part \<subseteq> set rows"
    using sensitivity_sizes_elem assms(1) unfolding sensitivity_compute_def by blast
  from part(1) obtain fee bfs bs sfs ss
    where fee: "map_option (map_err FeeFailed) (estimate_pair D cat (sa_buy_venue a) (sa_sell_venue a) (sa_buy_price a)
        (sa_sell_price a) (sa_base_notional a)) = Some (Inr fee)"
    and w: "walk_leg D R i (sa_buy_book a) Buy (sa_base_notional a) (sa_fill_config a) = Some (Inr (bfs, bs))"
      "walk_leg D R j (sa_sell_book a) Sell (sa_base_notional a) (sa_fill_config a) = Some (Inr (sfs, ss))"
    and those: "those (map (sensitivity_row_at D a 1 (sa_base_notional a) fee bs ss) staleness_axis) = Some part"
    unfolding sensitivity_size_def by (elim pthen_okE) (auto simp: assms(3) plift_ok elim!: pthen_okE)
  from those_map_elem [OF those assms(2)] obtain row
    where row: "row \<in> set part" "sensitivity_row_at D a 1 (sa_base_notional a) fee bs ss stale = Some row" by blast
  moreover from row(2) have "sr_size_multiplier row = 1" "sr_staleness_ms row = stale"
    by (auto simp: sensitivity_row_at_def bind_Some_iff)
  moreover from fee have "estimate_pair D cat (sa_buy_venue a) (sa_sell_venue a) (sa_buy_price a) (sa_sell_price a)
      (sa_base_notional a) = Some (Inr fee)" by (auto simp: map_err_Inr_iff)
  ultimately show thesis using that part(2) w by blast
qed

text \<open>
  The simulated net edge leaves out the liquidity haircut that the table beside it
  charges: in arithmetic without rounding, the row for the simulated size and quote age has the same
  slippage and the reported net edge less the haircut for the average visible depth, while the
  reported decomposition's haircut is always zero.
\<close>

theorem simulated_edge_omits_haircut:
  assumes "simulate dec_exact R ids S i = Some (Inr s)" "si_max_quote_age_ms i \<in> set staleness_axis"
    and "si_buy_book i = Some buy" "si_sell_book i = Some sell" "average_depth dec_exact buy sell = Some depth"
  shows "\<exists>row \<in> set (sn_sensitivity s). \<exists>h. sr_size_multiplier row = 1 \<and> sr_staleness_ms row = si_max_quote_age_ms i
    \<and> sr_slippage_est row = ed_slippage_est (sn_decomposition s)
    \<and> liquidity_haircut dec_exact (si_notional i) depth = Some h
    \<and> sr_net_edge row = ed_net_edge (sn_decomposition s) - h \<and> ed_liquidity_haircut (sn_decomposition s) = 0"
proof -
  from assms(1) obtain fee decomp bs ss slip
    where fee: "estimate_pair dec_exact (sm_fees S) (si_buy_venue i) (si_sell_venue i) (si_buy_price i) (si_sell_price i)
        (si_notional i) = Some (Inr fee)"
    and base: "decompose dec_exact (simulation_context S i fee) = Some decomp"
    and walks: "walk_leg dec_exact R (ids 0) buy Buy (si_notional i) (sg_fill_config (sm_config S)) = Some (Inr (sn_buy_fills s, bs))"
      "walk_leg dec_exact R (ids 1) sell Sell (si_notional i) (sg_fill_config (sm_config S)) = Some (Inr (sn_sell_fills s, ss))"
    and slip: "dec_add dec_exact bs ss = Some slip" "with_slippage dec_exact slip decomp = Some (sn_decomposition s)"
    and table: "sensitivity_compute dec_exact R ids 2 (sm_fees S) (simulation_args S i buy sell) = Some (Inr (sn_sensitivity s))"
    using assms(3,4) by (elim simulateE) simp
  let ?a = "simulation_args S i buy sell"
  obtain row fee' bfs' bs' sfs' ss' j k
    where row: "row \<in> set (sn_sensitivity s)" "sr_size_multiplier row = 1" "sr_staleness_ms row = si_max_quote_age_ms i"
    and fee': "estimate_pair dec_exact (sm_fees S) (si_buy_venue i) (si_sell_venue i) (si_buy_price i) (si_sell_price i)
        (si_notional i) = Some (Inr fee')"
    and walks': "walk_leg dec_exact R j buy Buy (si_notional i) (sg_fill_config (sm_config S)) = Some (Inr (bfs', bs'))"
      "walk_leg dec_exact R k sell Sell (si_notional i) (sg_fill_config (sm_config S)) = Some (Inr (sfs', ss'))"
    and at: "sensitivity_row_at dec_exact ?a 1 (si_notional i) fee' bs' ss' (si_max_quote_age_ms i) = Some row"
    by (rule simulated_row [OF table assms(2)]) (simp_all add: simulation_args_def)
  have same: "fee' = fee" "bs' = bs" "ss' = ss"
    using fee fee' walk_leg_ids [OF walks(1), of j] walk_leg_ids [OF walks(2), of k] walks' by auto
  have ctx: "sensitivity_context ?a (si_notional i) fee depth (si_max_quote_age_ms i)
      = (simulation_context S i fee)\<lparr>dc_avg_depth := depth\<rparr>"
    by (simp add: sensitivity_context_def simulation_context_def simulation_args_def)
  from at same slip(1) assms(5) obtain e w
    where e: "decompose dec_exact ((simulation_context S i fee)\<lparr>dc_avg_depth := depth\<rparr>) = Some e"
    and w: "with_slippage dec_exact slip e = Some w" and r: "sr_net_edge row = ed_net_edge w" "sr_slippage_est row = ed_slippage_est w"
    by (auto simp: sensitivity_row_at_def bind_Some_iff simulation_args_def ctx [unfolded simulation_args_def])
  have "dc_avg_depth (simulation_context S i fee) = 0" "dc_notional (simulation_context S i fee) = si_notional i"
    by (simp_all add: simulation_context_def context_default_def)
  with decompose_depth [OF base _ slip(2) e w] row r show ?thesis by (intro bexI [of _ row] exI) auto
qed

subsection \<open>A simulation on concrete books\<close>

definition wit_ids :: "nat \<Rightarrow> leg_ids" where
  "wit_ids n = \<lparr>li_actor = 1, li_intent = of_nat n, li_caps = 0, li_now = 0\<rparr>"

definition wit_leg_book :: "string \<Rightarrow> order_book" where
  "wit_leg_book k = \<lparr>ob_market = MarketKey k, ob_bids = [\<lparr>lv_price = 6 / 10, lv_size = 10\<rparr>],
     ob_asks = [\<lparr>lv_price = 4 / 10, lv_size = 10\<rparr>], ob_depth = 1, ob_ts = 0, ob_seq = Some 1\<rparr>"

definition wit_simulator :: simulator where
  "wit_simulator = \<lparr>sm_config = simulation_config_default, sm_mismatch = pair_config_default,
     sm_fees = [(''a'', \<lparr>fs_model = NotionalRate, fs_taker_rate = 1 / 100\<rparr>), (''b'', \<lparr>fs_model = NotionalRate, fs_taker_rate = 0\<rparr>)]\<rparr>"

definition wit_input :: simulation_input where
  "wit_input = \<lparr>si_buy_price = 4 / 10, si_sell_price = 6 / 10, si_price_kind = ''probability'', si_notional = 20,
     si_buy_book = Some (wit_leg_book ''mkt:a:x''), si_sell_book = Some (wit_leg_book ''mkt:b:x''),
     si_funding_rate = 0, si_hold_hours = 0, si_max_quote_age_ms = 0, si_tick_stale_ms = 5000, si_confidence = 1,
     si_is_cross_chain = False, si_buy_venue = ''a'', si_sell_venue = ''b''\<rparr>"

lemma ex_quotient: "c \<noteq> 0 \<Longrightarrow> \<exists>x. c * x = (d :: rat)"
  by (rule exI [of _ "d / c"]) simp

lemma wit_walk_leg:
  assumes "sz \<in> {10, 20, 30, 40}" "s \<in> {Buy, Sell}"
  shows "\<exists>r. walk_leg dec_exact wit_render ids (wit_leg_book k) s sz fill_config_default = Some (Inr r)"
  using assms
  by (auto simp: walk_leg_def build_intent_def origin_new_def paper_intent_def hd_opt_def
     walk_book_def fill_config_validate_def fill_config_default_def is_blank_def
     wit_leg_book_def book_side_def check_limit_def Let_def finish_fills_def walk_exhausted_def exhaustion_price_def
     mk_fill_def compute_slippage_def intro!: ex_quotient)

lemma wit_row:
  assumes "age \<in> {0, 2000, 5000, 10000}"
  shows "\<exists>r. sensitivity_row_at dec_exact (simulation_args wit_simulator wit_input (wit_leg_book k) (wit_leg_book k')) mul sz fee bs ss age = Some r"
  using assms
  by (auto simp: sensitivity_row_at_def average_depth_def wit_leg_book_def decompose_def sensitivity_context_def simulation_args_def
     wit_input_def wit_simulator_def simulation_config_default_def
     context_default_def gross_spread_def funding_cost_def bridge_cost_def settlement_mismatch_discount_def liquidity_haircut_def
     staleness_penalty_def confidence_penalty_def net_edge_exact with_slippage_def Let_def)

lemma wit_pair: "estimate_pair dec_exact (sm_fees wit_simulator) ''a'' ''b'' (4 / 10) (6 / 10) sz = Some (Inr (max sz 0 / 250))"
  by (simp add: estimate_pair_def estimate_leg_def wit_simulator_def)

lemma those_total: "\<forall>x \<in> set xs. \<exists>y. f x = Some y \<Longrightarrow> \<exists>ys. those (map f xs) = Some ys"
  by (induction xs) auto

lemma wit_size:
  assumes "sz \<in> {10, 20, 30, 40}" "dec_mul dec_exact 20 mul = Some sz"
  shows "\<exists>rows. sensitivity_size dec_exact wit_render i j (sm_fees wit_simulator)
     (simulation_args wit_simulator wit_input (wit_leg_book k) (wit_leg_book k')) mul = Some (Inr rows)"
proof -
  let ?a = "simulation_args wit_simulator wit_input (wit_leg_book k) (wit_leg_book k')"
  have a: "sa_base_notional ?a = 20" "sa_buy_venue ?a = ''a''" "sa_sell_venue ?a = ''b''" "sa_buy_price ?a = 4 / 10"
    "sa_sell_price ?a = 6 / 10" "sa_buy_book ?a = wit_leg_book k" "sa_sell_book ?a = wit_leg_book k'"
    "sa_fill_config ?a = fill_config_default"
    by (simp_all add: simulation_args_def wit_input_def wit_simulator_def simulation_config_default_def)
  obtain f where f: "estimate_pair dec_exact (sm_fees wit_simulator) ''a'' ''b'' (4 / 10) (6 / 10) sz = Some (Inr f)"
    using wit_pair by blast
  obtain fs bs where b: "walk_leg dec_exact wit_render i (wit_leg_book k) Buy sz fill_config_default = Some (Inr (fs, bs))"
    using wit_walk_leg [OF assms(1), of Buy] by fastforce
  obtain gs ss where s: "walk_leg dec_exact wit_render j (wit_leg_book k') Sell sz fill_config_default = Some (Inr (gs, ss))"
    using wit_walk_leg [OF assms(1), of Sell] by fastforce
  have "\<exists>rows. those (map (sensitivity_row_at dec_exact ?a mul sz f bs ss) staleness_axis) = Some rows"
    by (rule those_total) (use wit_row in \<open>simp add: staleness_axis_def\<close>)
  with f b s assms(2) show ?thesis by (auto simp: sensitivity_size_def a)
qed

lemma wit_sizes:
  "set muls \<subseteq> {1 / 2, 1, 3 / 2, 2} \<Longrightarrow> \<exists>rows. sensitivity_sizes dec_exact wit_render wit_ids n (sm_fees wit_simulator)
     (simulation_args wit_simulator wit_input (wit_leg_book k) (wit_leg_book k')) muls = Some (Inr rows)"
proof (induction muls arbitrary: n)
  case (Cons m muls)
  then have "20 * m \<in> {10, 20, 30, 40}" by auto
  with wit_size [of "20 * m" m] obtain part where "sensitivity_size dec_exact wit_render (wit_ids n) (wit_ids (n + 1))
    (sm_fees wit_simulator) (simulation_args wit_simulator wit_input (wit_leg_book k) (wit_leg_book k')) m = Some (Inr part)"
    by fastforce
  moreover obtain more where "sensitivity_sizes dec_exact wit_render wit_ids (n + 2) (sm_fees wit_simulator)
     (simulation_args wit_simulator wit_input (wit_leg_book k) (wit_leg_book k')) muls = Some (Inr more)"
    using Cons by fastforce
  ultimately show ?case by simp
qed simp

lemma wit_simulate: "\<exists>s. simulate dec_exact wit_render wit_ids wit_simulator wit_input = Some (Inr s)"
proof -
  have v: "validate_input wit_input = Inr ()"
    by (simp add: validate_input_def wit_input_def venue_book_def wit_leg_book_def starts_with_def)
  have i: "si_buy_venue wit_input = ''a''" "si_sell_venue wit_input = ''b''" "si_buy_price wit_input = 4 / 10" "si_notional wit_input = 20"
    "si_sell_price wit_input = 6 / 10" "si_buy_book wit_input = Some (wit_leg_book ''mkt:a:x'')" "si_sell_book wit_input = Some (wit_leg_book ''mkt:b:x'')"
    "sg_fill_config (sm_config wit_simulator) = fill_config_default"
    by (simp_all add: wit_input_def wit_simulator_def simulation_config_default_def)
  obtain f where f: "estimate_pair dec_exact (sm_fees wit_simulator) ''a'' ''b'' (4 / 10) (6 / 10) 20 = Some (Inr f)"
    using wit_pair by blast
  obtain fs bs where b: "walk_leg dec_exact wit_render (wit_ids 0) (wit_leg_book ''mkt:a:x'') Buy 20 fill_config_default = Some (Inr (fs, bs))"
    using wit_walk_leg [of 20 Buy] by fastforce
  obtain gs ss where s: "walk_leg dec_exact wit_render (wit_ids 1) (wit_leg_book ''mkt:b:x'') Sell 20 fill_config_default = Some (Inr (gs, ss))"
    using wit_walk_leg [of 20 Sell] by fastforce
  have "\<exists>e. decompose dec_exact (simulation_context wit_simulator wit_input f) = Some e"
    by (simp add: decompose_def simulation_context_def wit_input_def wit_simulator_def simulation_config_default_def
       context_default_def gross_spread_def funding_cost_def bridge_cost_def settlement_mismatch_discount_def liquidity_haircut_def
       staleness_penalty_def confidence_penalty_def net_edge_exact Let_def)
  then obtain e where e: "decompose dec_exact (simulation_context wit_simulator wit_input f) = Some e" ..
  have "\<exists>rows. sensitivity_compute dec_exact wit_render wit_ids 2 (sm_fees wit_simulator)
     (simulation_args wit_simulator wit_input (wit_leg_book ''mkt:a:x'') (wit_leg_book ''mkt:b:x'')) = Some (Inr rows)"
    unfolding sensitivity_compute_def by (rule wit_sizes) (simp add: size_axis_def)
  with v f b s e show ?thesis
    by (auto simp: simulate_def i with_slippage_def net_edge_exact Let_def)
qed

theorem simulated_edge_omits_haircut_witness:
  "\<exists>s. simulate dec_exact wit_render wit_ids wit_simulator wit_input = Some (Inr s)
     \<and> (\<exists>row \<in> set (sn_sensitivity s). sr_net_edge row = ed_net_edge (sn_decomposition s) - 5 / 1000)"
proof -
  obtain s where s: "simulate dec_exact wit_render wit_ids wit_simulator wit_input = Some (Inr s)" using wit_simulate by blast
  have h: "si_max_quote_age_ms wit_input \<in> set staleness_axis" "si_buy_book wit_input = Some (wit_leg_book ''mkt:a:x'')"
    "si_sell_book wit_input = Some (wit_leg_book ''mkt:b:x'')"
    "average_depth dec_exact (wit_leg_book ''mkt:a:x'') (wit_leg_book ''mkt:b:x'') = Some 10"
    by (simp_all add: wit_input_def staleness_axis_def average_depth_def wit_leg_book_def)
  have "liquidity_haircut dec_exact (si_notional wit_input) 10 = Some (5 / 1000)"
    by (simp add: wit_input_def liquidity_haircut_def)
  with simulated_edge_omits_haircut [OF s h] s show ?thesis by (metis option.inject)
qed

end
