(* ===== verification/Scanner_Detect.thy ===== *)
theory Scanner_Detect
  imports Core_Orders Rust_Text Decimal_Instance
begin

text \<open>
  Detection of arbitrage candidates (\<^verbatim>\<open>detect.rs\<close>), their score (\<^verbatim>\<open>score.rs\<close>), the open-chain check
  (\<^verbatim>\<open>dedupe.rs\<close>) and the cadence (\<^verbatim>\<open>cadence.rs\<close>) of \<^verbatim>\<open>connectors/execution/scanner\<close>. \<open>None\<close> is the panic
  of a decimal operation. The detector's two nested loops with their bound are one recursion over the
  list of pairs; the lemmas give it in closed form, and with it that the incremental detector finds
  exactly what the full one finds on changed markets, and what a candidate is.
\<close>

subsection \<open>Candidates (detect.rs)\<close>

record market_quote =
  mq_bid :: decimal
  mq_ask :: decimal
  mq_ts :: utc_time

record detected_opportunity =
  dp_buy_leg :: market_key
  dp_sell_leg :: market_key
  dp_buy_price :: decimal
  dp_sell_price :: decimal
  dp_gross_spread :: decimal
  dp_category :: string

record detector_config =
  dt_min_gross_spread :: decimal
  dt_max_quote_age_ms :: int

definition detector_config_default :: detector_config where
  "detector_config_default = \<lparr>dt_min_gross_spread = 1 / 100, dt_max_quote_age_ms = 5000\<rparr>"

definition quote_is_stale :: "market_quote \<Rightarrow> utc_time \<Rightarrow> int \<Rightarrow> bool" where
  "quote_is_stale q now max_age \<longleftrightarrow> max_age < 0 \<or> sat_i64 (now - mq_ts q) > max_age"

definition event_id_of :: "json \<Rightarrow> string option" where
  "event_id_of source =
     Option.bind (Option.bind (json_get ''canonical_event_id'' source) json_str) (\<lambda>v.
       let normalized = to_lower (trim_str v) in if normalized = [] then None else Some normalized)"

definition canonical_event_key :: "market \<Rightarrow> string" where
  "canonical_event_key m =
     (case event_id_of (m_meta m) of
        Some i \<Rightarrow> ''id:'' @ i
      | None \<Rightarrow>
          (case event_id_of (m_venue_ref m) of
             Some i \<Rightarrow> ''id:'' @ i
           | None \<Rightarrow> ''title:'' @ map ascii_lower (filter is_ascii_alphanumeric (m_title m))))"

definition comparable :: "market \<Rightarrow> market \<Rightarrow> bool" where
  "comparable a b \<longleftrightarrow> m_venue a \<noteq> m_venue b \<and> m_status a = Open \<and> m_status b = Open \<and> m_kind a = m_kind b
     \<and> canonical_event_key a = canonical_event_key b"

text \<open>Buy at the ask of one market, sell at the bid of the other.\<close>

definition cross ::
  "dec_ops \<Rightarrow> detector_config \<Rightarrow> market \<Rightarrow> market \<Rightarrow> decimal \<Rightarrow> decimal \<Rightarrow> detected_opportunity list option" where
  "cross D cfg buy sell ask bid =
     (if ask > 0 \<and> bid > 0 \<and> bid > ask
      then do {
        spread \<leftarrow> dec_sub D bid ask;
        gross \<leftarrow> dec_div D spread ask;
        Some (if gross \<ge> dt_min_gross_spread cfg
              then [\<lparr>dp_buy_leg = m_key buy, dp_sell_leg = m_key sell, dp_buy_price = ask, dp_sell_price = bid,
                     dp_gross_spread = gross, dp_category = canonical_event_key buy\<rparr>]
              else [])
      }
      else Some [])"

definition evaluate_pair ::
  "dec_ops \<Rightarrow> detector_config \<Rightarrow> (market_key, market_quote) hash_map \<Rightarrow> utc_time \<Rightarrow> market \<times> market
     \<Rightarrow> detected_opportunity list option" where
  "evaluate_pair D cfg quotes now = (\<lambda>(a, b).
     if \<not> comparable a b then Some []
     else (case (hm_get quotes (m_key a), hm_get quotes (m_key b)) of
             (Some qa, Some qb) \<Rightarrow>
               if quote_is_stale qa now (dt_max_quote_age_ms cfg) \<or> quote_is_stale qb now (dt_max_quote_age_ms cfg)
               then Some []
               else do {
                 x \<leftarrow> cross D cfg a b (mq_ask qa) (mq_bid qb);
                 y \<leftarrow> cross D cfg b a (mq_ask qb) (mq_bid qa);
                 Some (x @ y)
               }
           | _ \<Rightarrow> Some []))"

text \<open>The pairs \<open>(i, j)\<close> with \<open>i < j\<close>, in the order of the loops over the list sorted by key.\<close>

fun pairs_of :: "'a list \<Rightarrow> ('a \<times> 'a) list" where
  "pairs_of [] = []"
| "pairs_of (x # xs) = map (Pair x) xs @ pairs_of xs"

definition market_list :: "(market_key, market) hash_map \<Rightarrow> market list" where
  "market_list markets = sort_key (\<lambda>m. key_str (m_key m)) (map snd markets)"

definition touched :: "market_key list option \<Rightarrow> market \<times> market \<Rightarrow> bool" where
  "touched changed = (\<lambda>(a, b). case changed of None \<Rightarrow> True | Some keys \<Rightarrow> m_key a \<in> set keys \<or> m_key b \<in> set keys)"

fun detect_loop ::
  "dec_ops \<Rightarrow> detector_config \<Rightarrow> (market_key, market_quote) hash_map \<Rightarrow> utc_time \<Rightarrow> nat \<Rightarrow> market_key list option
     \<Rightarrow> (market \<times> market) list \<Rightarrow> detected_opportunity list \<Rightarrow> nat \<Rightarrow> (detected_opportunity list \<times> nat) option" where
  "detect_loop D cfg quotes now max_pairs changed [] found n = Some (found, n)"
| "detect_loop D cfg quotes now max_pairs changed (p # ps) found n =
     (if \<not> touched changed p then detect_loop D cfg quotes now max_pairs changed ps found n
      else if n \<ge> max_pairs then Some (found, n)
      else Option.bind (evaluate_pair D cfg quotes now p) (\<lambda>new.
           detect_loop D cfg quotes now max_pairs changed ps (found @ new) (n + 1)))"

definition detect_bounded_inner ::
  "dec_ops \<Rightarrow> detector_config \<Rightarrow> (market_key, market_quote) hash_map \<Rightarrow> (market_key, market) hash_map \<Rightarrow> utc_time
     \<Rightarrow> nat \<Rightarrow> market_key list option \<Rightarrow> (detected_opportunity list \<times> nat) option" where
  "detect_bounded_inner D cfg quotes markets now max_pairs changed =
     detect_loop D cfg quotes now max_pairs changed (pairs_of (market_list markets)) [] 0"

definition detect_bounded ::
  "dec_ops \<Rightarrow> detector_config \<Rightarrow> (market_key, market_quote) hash_map \<Rightarrow> (market_key, market) hash_map \<Rightarrow> utc_time
     \<Rightarrow> nat \<Rightarrow> (detected_opportunity list \<times> nat) option" where
  "detect_bounded D cfg quotes markets now max_pairs = detect_bounded_inner D cfg quotes markets now max_pairs None"

definition detect_changed_bounded ::
  "dec_ops \<Rightarrow> detector_config \<Rightarrow> (market_key, market_quote) hash_map \<Rightarrow> (market_key, market) hash_map
     \<Rightarrow> market_key list \<Rightarrow> utc_time \<Rightarrow> nat \<Rightarrow> (detected_opportunity list \<times> nat) option" where
  "detect_changed_bounded D cfg quotes markets changed now max_pairs =
     detect_bounded_inner D cfg quotes markets now max_pairs (Some changed)"

definition detect_all ::
  "dec_ops \<Rightarrow> detector_config \<Rightarrow> (market_key, market_quote) hash_map \<Rightarrow> (market_key, market) hash_map \<Rightarrow> utc_time
     \<Rightarrow> detected_opportunity list option" where
  "detect_all D cfg quotes markets now = map_option fst (detect_bounded D cfg quotes markets now (2 ^ 64 - 1))"

subsection \<open>The loop in closed form\<close>

text \<open>\<open>those\<close> is the list of the values, if no element panicked.\<close>

lemma detect_loop_eq:
  "detect_loop D cfg quotes now m changed ps found n =
     (let sel = take (m - n) (filter (touched changed) ps)
      in map_option (\<lambda>os. (found @ concat os, n + length sel)) (those (map (evaluate_pair D cfg quotes now) sel)))"
proof (induction ps arbitrary: found n)
  case (Cons p ps)
  show ?case
  proof (cases "touched changed p")
    case False
    then show ?thesis by (simp add: Cons.IH Let_def)
  next
    case True
    show ?thesis
    proof (cases "n \<ge> m")
      case False
      then have "m - n = Suc (m - (n + 1))" by simp
      with True False show ?thesis
        by (cases "evaluate_pair D cfg quotes now p")
          (simp_all add: Cons.IH Let_def option.map_comp o_def)
    qed (simp add: True)
  qed
qed simp

text \<open>What is evaluated: the touched pairs in key order, up to the bound.\<close>

definition considered :: "(market_key, market) hash_map \<Rightarrow> nat \<Rightarrow> market_key list option \<Rightarrow> (market \<times> market) list" where
  "considered markets m changed = take m (filter (touched changed) (pairs_of (market_list markets)))"

lemma detect_inner_eq:
  "detect_bounded_inner D cfg quotes markets now m changed =
     map_option (\<lambda>os. (concat os, length (considered markets m changed)))
       (those (map (evaluate_pair D cfg quotes now) (considered markets m changed)))"
  by (simp add: detect_bounded_inner_def detect_loop_eq considered_def Let_def)

lemma those_Some_iff: "those xs = Some ys \<longleftrightarrow> xs = map Some ys"
proof (induction xs arbitrary: ys)
  case (Cons x xs)
  show ?case
  proof (cases x)
    case (Some a)
    show ?thesis
    proof (cases ys)
      case Nil
      then show ?thesis using Some by auto
    next
      case (Cons y zs)
      then show ?thesis using Some Cons.IH by auto
    qed
  qed auto
qed auto

text \<open>What a candidate is: a pair of open, comparable markets of two venues with fresh quotes, bought at
  the ask below the other's bid.\<close>

definition candidate_of ::
  "detector_config \<Rightarrow> (market_key, market_quote) hash_map \<Rightarrow> utc_time \<Rightarrow> detected_opportunity \<Rightarrow> market \<Rightarrow> market \<Rightarrow> bool" where
  "candidate_of cfg quotes now d buy sell \<longleftrightarrow>
     comparable buy sell \<and> dp_buy_leg d = m_key buy \<and> dp_sell_leg d = m_key sell
     \<and> dp_category d = canonical_event_key buy
     \<and> (\<exists>qb qs. hm_get quotes (m_key buy) = Some qb \<and> hm_get quotes (m_key sell) = Some qs
          \<and> \<not> quote_is_stale qb now (dt_max_quote_age_ms cfg) \<and> \<not> quote_is_stale qs now (dt_max_quote_age_ms cfg)
          \<and> dp_buy_price d = mq_ask qb \<and> dp_sell_price d = mq_bid qs)
     \<and> 0 < dp_buy_price d \<and> dp_buy_price d < dp_sell_price d \<and> dt_min_gross_spread cfg \<le> dp_gross_spread d"

lemma comparable_swap: "comparable a b \<Longrightarrow> comparable b a"
  by (auto simp: comparable_def)

lemma cross_elem:
  "cross D cfg buy sell ask bid = Some os \<Longrightarrow> d \<in> set os \<Longrightarrow>
     0 < ask \<and> ask < bid \<and> dt_min_gross_spread cfg \<le> dp_gross_spread d \<and> dp_buy_leg d = m_key buy
     \<and> dp_sell_leg d = m_key sell \<and> dp_buy_price d = ask \<and> dp_sell_price d = bid
     \<and> dp_category d = canonical_event_key buy"
  by (auto simp: cross_def bind_Some_iff split: if_splits)

lemma evaluate_pair_elem:
  assumes "evaluate_pair D cfg quotes now (a, b) = Some os" "d \<in> set os"
  shows "candidate_of cfg quotes now d a b \<or> candidate_of cfg quotes now d b a"
proof -
  from assms obtain qa qb x y where c: "comparable a b"
    and q: "hm_get quotes (m_key a) = Some qa" "hm_get quotes (m_key b) = Some qb"
    and f: "\<not> quote_is_stale qa now (dt_max_quote_age_ms cfg)" "\<not> quote_is_stale qb now (dt_max_quote_age_ms cfg)"
    and x: "cross D cfg a b (mq_ask qa) (mq_bid qb) = Some x" and y: "cross D cfg b a (mq_ask qb) (mq_bid qa) = Some y"
    and os: "os = x @ y"
    by (auto simp: evaluate_pair_def bind_Some_iff split: if_splits option.splits)
  from assms(2) os consider "d \<in> set x" | "d \<in> set y" by auto
  then show ?thesis
  proof cases
    case 1
    from cross_elem [OF x this] c q f have "candidate_of cfg quotes now d a b"
      unfolding candidate_of_def by simp
    then show ?thesis ..
  next
    case 2
    from cross_elem [OF y this] comparable_swap [OF c] q f have "candidate_of cfg quotes now d b a"
      unfolding candidate_of_def by simp
    then show ?thesis ..
  qed
qed

lemma pairs_of_set: "(a, b) \<in> set (pairs_of xs) \<Longrightarrow> a \<in> set xs \<and> b \<in> set xs"
  by (induction xs) auto

lemma set_market_list: "set (market_list markets) = snd ` set markets"
  by (simp add: market_list_def)

lemma detected_elem:
  assumes "detect_bounded_inner D cfg quotes markets now m changed = Some (os, n)" "d \<in> set os"
  shows "\<exists>a b. a \<in> snd ` set markets \<and> b \<in> snd ` set markets \<and> candidate_of cfg quotes now d a b"
proof -
  from assms obtain oss where "those (map (evaluate_pair D cfg quotes now) (considered markets m changed)) = Some oss"
    and "os = concat oss" by (auto simp: detect_inner_eq)
  then obtain o' where "o' \<in> set oss" "d \<in> set o'"
    and all: "map (evaluate_pair D cfg quotes now) (considered markets m changed) = map Some oss"
    using assms(2) by (auto simp: those_Some_iff)
  then have "Some o' \<in> set (map (evaluate_pair D cfg quotes now) (considered markets m changed))" by simp
  then obtain a b where ab: "(a, b) \<in> set (considered markets m changed)" "evaluate_pair D cfg quotes now (a, b) = Some o'"
    by auto
  from ab(1) have "(a, b) \<in> set (pairs_of (market_list markets))"
    unfolding considered_def by (auto dest: in_set_takeD)
  then have "a \<in> snd ` set markets" "b \<in> snd ` set markets"
    using pairs_of_set set_market_list by fast+
  with evaluate_pair_elem [OF ab(2) \<open>d \<in> set o'\<close>] show ?thesis by blast
qed

lemma concat_filtered:
  assumes "map ev ps = map Some oss" "map ev (filter P ps) = map Some pss"
    and "\<And>p os d. ev p = Some os \<Longrightarrow> d \<in> set os \<Longrightarrow> P p \<longleftrightarrow> Q d"
  shows "concat pss = filter Q (concat oss)"
  using assms(1,2)
proof (induction ps arbitrary: oss pss)
  case (Cons p ps)
  then obtain os oss' where os: "oss = os # oss'" "ev p = Some os" "map ev ps = map Some oss'" by auto
  have Q: "Q d \<longleftrightarrow> P p" if "d \<in> set os" for d using assms(3) [OF os(2) that] by simp
  show ?case
  proof (cases "P p")
    case True
    with Cons.prems(2) os(2) obtain pss' where "pss = os # pss'" "map ev (filter P ps) = map Some pss'" by auto
    with Cons.IH [OF os(3)] os(1) Q True show ?thesis by (simp cong: filter_cong)
  next
    case False
    with Cons.prems(2) Cons.IH [OF os(3)] os(1) Q show ?thesis by (simp cong: filter_cong)
  qed
qed simp

lemma touched_legs:
  assumes "evaluate_pair D cfg quotes now p = Some os" "d \<in> set os"
  shows "touched (Some keys) p \<longleftrightarrow> dp_buy_leg d \<in> set keys \<or> dp_sell_leg d \<in> set keys"
proof (cases p)
  case (Pair a b)
  with evaluate_pair_elem [of D cfg quotes now a b os d] assms show ?thesis
    by (auto simp: candidate_of_def touched_def)
qed

text \<open>
  While the bound on pairs is not reached, the incremental detector finds exactly the
  candidates of a full detection that have a leg among the changed markets, in the same order.
\<close>

theorem incremental_detects_changed:
  assumes "detect_bounded D cfg quotes markets now m = Some (full, k)"
    and "detect_changed_bounded D cfg quotes markets changed now m' = Some (part, k')"
    and "length (pairs_of (market_list markets)) \<le> m" "k' < m'"
  shows "part = filter (\<lambda>d. dp_buy_leg d \<in> set changed \<or> dp_sell_leg d \<in> set changed) full"
proof -
  let ?ps = "pairs_of (market_list markets)" and ?ev = "evaluate_pair D cfg quotes now"
  let ?hit = "\<lambda>d. dp_buy_leg d \<in> set changed \<or> dp_sell_leg d \<in> set changed"
  have all: "considered markets m None = ?ps"
    using assms(3) by (simp add: considered_def touched_def case_prod_unfold)
  obtain oss where oss: "map ?ev ?ps = map Some oss" and full: "full = concat oss"
    using assms(1) by (auto simp: detect_bounded_def detect_inner_eq all those_Some_iff)
  have sel: "considered markets m' (Some changed) = filter (touched (Some changed)) ?ps"
    using assms(2,4) by (auto simp: detect_changed_bounded_def detect_inner_eq considered_def)
  obtain pss where pss: "map ?ev (filter (touched (Some changed)) ?ps) = map Some pss" and part: "part = concat pss"
    using assms(2) by (auto simp: detect_changed_bounded_def detect_inner_eq sel those_Some_iff)
  have "concat pss = filter ?hit (concat oss)"
    by (rule concat_filtered [OF oss pss]) (rule touched_legs)
  then show ?thesis by (simp add: part full)
qed

definition scan_wit_market :: "string \<Rightarrow> string \<Rightarrow> string \<Rightarrow> market" where
  "scan_wit_market k v t = \<lparr>m_key = MarketKey k, m_venue = VenueId v, m_kind = BinaryContract, m_title = t, m_description_ref = [],
     m_status = Open, m_close_ts = None, m_resolve_ts = None, m_outcome = None, m_jurisdiction_flags = [],
     m_venue_ref = JNull, m_meta = JNull\<rparr>"

definition scan_wit_markets :: "(market_key, market) hash_map" where
  "scan_wit_markets = [(MarketKey ''mkt:b:x'', scan_wit_market ''mkt:b:x'' ''b'' ''Rain!''), (MarketKey ''mkt:a:x'', scan_wit_market ''mkt:a:x'' ''a'' ''rain''),
     (MarketKey ''mkt:c:x'', scan_wit_market ''mkt:c:x'' ''c'' ''rain'')]"

definition scan_wit_quotes :: "(market_key, market_quote) hash_map" where
  "scan_wit_quotes = [(MarketKey ''mkt:a:x'', \<lparr>mq_bid = 3 / 10, mq_ask = 4 / 10, mq_ts = 0\<rparr>),
     (MarketKey ''mkt:b:x'', \<lparr>mq_bid = 5 / 10, mq_ask = 6 / 10, mq_ts = 0\<rparr>),
     (MarketKey ''mkt:c:x'', \<lparr>mq_bid = 5 / 10, mq_ask = 6 / 10, mq_ts = 0\<rparr>)]"

lemma scan_wit_sorted: "market_list scan_wit_markets = [scan_wit_market ''mkt:a:x'' ''a'' ''rain'', scan_wit_market ''mkt:b:x'' ''b'' ''Rain!'', scan_wit_market ''mkt:c:x'' ''c'' ''rain'']"
  by (simp add: market_list_def scan_wit_markets_def scan_wit_market_def)

lemma scan_wit_market_sel: "m_key (scan_wit_market k v t) = MarketKey k" "m_venue (scan_wit_market k v t) = VenueId v"
  "m_kind (scan_wit_market k v t) = BinaryContract" "m_status (scan_wit_market k v t) = Open"
  by (simp_all add: scan_wit_market_def)

definition scan_wit_found :: "string \<Rightarrow> detected_opportunity" where
  "scan_wit_found k = \<lparr>dp_buy_leg = MarketKey ''mkt:a:x'', dp_sell_leg = MarketKey k, dp_buy_price = 4 / 10, dp_sell_price = 5 / 10,
     dp_gross_spread = 1 / 4, dp_category = ''title:rain''\<rparr>"

lemma scan_wit_keys: "canonical_event_key (scan_wit_market k v ''rain'') = ''title:rain''" "canonical_event_key (scan_wit_market k v ''Rain!'') = ''title:rain''"
  unfolding scan_wit_market_def by code_simp+

lemma scan_wit_all: "detect_bounded dec_exact detector_config_default scan_wit_quotes scan_wit_markets 1000 9
    = Some ([scan_wit_found ''mkt:b:x'', scan_wit_found ''mkt:c:x''], 3)"
  unfolding detect_bounded_def detect_bounded_inner_def scan_wit_sorted
  by (simp add: touched_def evaluate_pair_def comparable_def scan_wit_keys scan_wit_market_sel scan_wit_quotes_def
    quote_is_stale_def sat_i64_def i64_min_def i64_max_def detector_config_default_def cross_def scan_wit_found_def)

lemma scan_wit_changed: "detect_changed_bounded dec_exact detector_config_default scan_wit_quotes scan_wit_markets [MarketKey ''mkt:c:x''] 1000 9
    = Some ([scan_wit_found ''mkt:c:x''], 2)"
  unfolding detect_changed_bounded_def detect_bounded_inner_def scan_wit_sorted
  by (simp add: touched_def evaluate_pair_def comparable_def scan_wit_keys scan_wit_market_sel scan_wit_quotes_def
    quote_is_stale_def sat_i64_def i64_min_def i64_max_def detector_config_default_def cross_def scan_wit_found_def)

theorem incremental_detects_changed_witness:
  "[scan_wit_found ''mkt:c:x''] = filter (\<lambda>d. dp_buy_leg d \<in> set [MarketKey ''mkt:c:x''] \<or> dp_sell_leg d \<in> set [MarketKey ''mkt:c:x''])
     [scan_wit_found ''mkt:b:x'', scan_wit_found ''mkt:c:x'']"
  by (rule incremental_detects_changed [OF scan_wit_all scan_wit_changed]) (simp_all add: scan_wit_sorted)

subsection \<open>Scores (score.rs)\<close>

record evidence_signal =
  es_relevance :: decimal
  es_trust :: decimal

record brain_ref =
  bf_object_id :: ulid
  bf_provenance_hash :: string

record evidence_snapshot =
  en_signal :: evidence_signal
  en_explain_ref :: brain_ref

record scored_opportunity =
  so_confidence :: decimal
  so_score :: decimal
  so_features :: "string list"

definition min_confidence :: decimal where
  "min_confidence = 5 / 10"

definition clamp_unit :: "decimal \<Rightarrow> decimal" where
  "clamp_unit x = (if x < 0 then 0 else if 1 < x then 1 else x)"

text \<open>\<^verbatim>\<open>max_age_ms / 2\<close> rounds towards zero.\<close>

definition half_i64 :: "int \<Rightarrow> int" where
  "half_i64 x = (if x < 0 then - ((- x) div 2) else x div 2)"

definition score ::
  "dec_ops \<Rightarrow> decimal \<Rightarrow> int \<Rightarrow> int \<Rightarrow> nat \<Rightarrow> evidence_signal option \<Rightarrow> scored_opportunity option" where
  "score D gross age max_age venues evidence = do {
     (c1, f1) \<leftarrow> (if gross < 2 / 100 then map_option (\<lambda>c. (c, [''spread_narrow''])) (dec_mul D 1 (8 / 10))
                 else Some (1, [''spread_wide'']));
     (c2, f2) \<leftarrow> (if age > half_i64 max_age
                 then map_option (\<lambda>c. (c, f1 @ [''quote_moderately_stale''])) (dec_mul D c1 (7 / 10))
                 else Some (c1, f1 @ [''quote_fresh'']));
     (c3, f3) \<leftarrow> (if venues < 2 then Some (0, f2 @ [''insufficient_venues''])
                 else if venues \<ge> 4 then map_option (\<lambda>c. (c, f2 @ [''venue_diverse''])) (dec_mul D c2 (12 / 10))
                 else Some (c2, f2));
     (c4, f4) \<leftarrow> (case evidence of
                   Some e \<Rightarrow> do {
                     weight \<leftarrow> dec_mul D (clamp_unit (es_relevance e)) (clamp_unit (es_trust e));
                     part \<leftarrow> dec_mul D weight (25 / 100);
                     factor \<leftarrow> dec_add D (75 / 100) part;
                     c \<leftarrow> dec_mul D c3 factor;
                     Some (c, f3 @ [''recall_evidence_present''])
                   }
                 | None \<Rightarrow> map_option (\<lambda>c. (c, f3 @ [''recall_evidence_missing''])) (dec_mul D c3 (75 / 100)));
     let confidence = clamp_unit c4;
     sc \<leftarrow> dec_mul D (max gross 0) confidence;
     Some \<lparr>so_confidence = confidence, so_score = sc, so_features = f4\<rparr>
   }"

lemma clamp_unit_range: "0 \<le> clamp_unit x" "clamp_unit x \<le> 1"
  by (simp_all add: clamp_unit_def)

lemma score_confidence:
  "score D gross age max_age venues evidence = Some s \<Longrightarrow> 0 \<le> so_confidence s \<and> so_confidence s \<le> 1"
  unfolding score_def Let_def case_prod_unfold bind_Some_iff by (auto simp: clamp_unit_range simp del: bind_split)

subsection \<open>Open chains (dedupe.rs)\<close>

datatype opportunity_kind = Arbitrage | ValueKind | Catalyst | Hedge

record open_chain =
  oc_id :: ulid
  oc_kind :: opportunity_kind
  oc_legs :: "market_key list"

type_synonym deduplicator = "open_chain list"

definition dedupe_new :: deduplicator where
  "dedupe_new = []"

definition dedupe_register :: "open_chain \<Rightarrow> deduplicator \<Rightarrow> deduplicator" where
  "dedupe_register c d = d @ [c]"

text \<open>The legs of a chain are a set: a list without repetitions.\<close>

definition dedupe_check :: "market_key \<Rightarrow> market_key \<Rightarrow> opportunity_kind \<Rightarrow> deduplicator \<Rightarrow> ulid option" where
  "dedupe_check buy sell kind d =
     map_option oc_id (find (\<lambda>c. oc_kind c = kind \<and> length (oc_legs c) = 2 \<and> buy \<in> set (oc_legs c) \<and> sell \<in> set (oc_legs c)) d)"

text \<open>Registered chains are found from either side.\<close>

lemma dedupe_check_symmetric: "dedupe_check buy sell kind d = dedupe_check sell buy kind d"
  unfolding dedupe_check_def by (intro arg_cong2 [where f = map_option] arg_cong2 [where f = find] ext) auto

subsection \<open>Cadence (cadence.rs)\<close>

record cadence_controller =
  cc_target_cycle_ms :: nat
  cc_shed_thresholds :: "nat list"
  cc_cycles_completed :: nat
  cc_cycles_shed :: nat
  cc_last_cycle_ms :: nat

text \<open>\<^verbatim>\<open>(target as f64 * 0.80) as u64\<close> is the rounded-down percentage for every target below \<open>2 ^ 50\<close>
  milliseconds, where the rounding of the product does not reach the next integer.\<close>

definition percent_of :: "nat \<Rightarrow> nat \<Rightarrow> nat" where
  "percent_of target x = target * x div 100"

definition cadence_new :: "nat \<Rightarrow> cadence_controller" where
  "cadence_new target =
     \<lparr>cc_target_cycle_ms = target,
       cc_shed_thresholds = [percent_of target 80, percent_of target 90, percent_of target 96, target],
       cc_cycles_completed = 0, cc_cycles_shed = 0, cc_last_cycle_ms = 0\<rparr>"

definition begin_cycle :: "cadence_controller \<Rightarrow> nat \<times> cadence_controller" where
  "begin_cycle c =
     (let level = length (filter (\<lambda>t. cc_last_cycle_ms c > t) (cc_shed_thresholds c));
          c' = c\<lparr>cc_cycles_completed := cc_cycles_completed c + 1\<rparr>
      in (level, if level > 0 then c'\<lparr>cc_cycles_shed := cc_cycles_shed c' + 1\<rparr> else c'))"

definition end_cycle :: "nat \<Rightarrow> cadence_controller \<Rightarrow> cadence_controller" where
  "end_cycle elapsed c = c\<lparr>cc_last_cycle_ms := elapsed\<rparr>"

definition cycle_metric :: "cadence_controller \<Rightarrow> nat" where
  "cycle_metric c = cc_last_cycle_ms c"

text \<open>The shed level never falls as the last cycle gets longer, and a cycle within four fifths of
  the target sheds nothing.\<close>

lemma shed_level_mono:
  assumes "cc_last_cycle_ms c \<le> cc_last_cycle_ms d" "cc_shed_thresholds c = cc_shed_thresholds d"
  shows "fst (begin_cycle c) \<le> fst (begin_cycle d)"
proof -
  have "length (filter (\<lambda>t. cc_last_cycle_ms c > t) ts) \<le> length (filter (\<lambda>t. cc_last_cycle_ms d > t) ts)" for ts
    using assms(1) by (induction ts) auto
  with assms(2) show ?thesis by (simp add: begin_cycle_def Let_def)
qed

lemma full_scan_within_target:
  assumes "cc_shed_thresholds c = cc_shed_thresholds (cadence_new target)" "cc_last_cycle_ms c \<le> percent_of target 80"
  shows "fst (begin_cycle c) = 0"
proof -
  have "percent_of target 80 \<le> percent_of target 90" "percent_of target 90 \<le> percent_of target 96" "percent_of target 96 \<le> target"
    by (simp_all add: percent_of_def div_le_mono)
  with assms show ?thesis by (simp add: begin_cycle_def Let_def cadence_new_def)
qed

end
