(* ===== verification/Scanner.thy ===== *)
theory Scanner
  imports Simulator Scanner_Detect
begin

text \<open>
  One scan cycle of \<^verbatim>\<open>connectors/execution/scanner\<close> (\<^verbatim>\<open>scan.rs\<close>): detection, shedding, and for each
  candidate its score, the executability of both venues, the walks of both books, the decomposition
  and the emitted opportunity (\<^verbatim>\<open>opportunity.rs\<close> of the core). A step on a candidate skips it, counts a
  fill failure, emits an opportunity, or ends the cycle with an error; \<open>None\<close> is the panic of a
  decimal operation. The metrics, which nothing reads back, are left out. The lemmas show what every
  emitted opportunity satisfies.
\<close>

subsection \<open>Opportunities (opportunity.rs)\<close>

record opportunity_leg =
  ol_market :: market_key
  ol_side :: side
  ol_target_price :: "decimal option"
  ol_size_hint :: "decimal option"

record opportunity =
  op_id :: ulid
  op_kind :: opportunity_kind
  op_legs :: "opportunity_leg list"
  op_gross_edge :: decimal
  op_edge :: edge_decomposition
  op_confidence :: confidence
  op_detected_ts :: utc_time
  op_expires_ts :: "utc_time option"
  op_explain_ref :: brain_ref
  op_trace_id :: ulid

subsection \<open>Configuration and state (scan.rs)\<close>

record scan_config =
  sc_max_pairs_per_cycle :: nat
  sc_min_net_edge :: decimal
  sc_base_context :: decomposition_context
  sc_detector :: detector_config
  sc_target_cycle_ms :: nat
  sc_fill_config :: fill_config

definition scan_config_default :: scan_config where
  "scan_config_default =
     \<lparr>sc_max_pairs_per_cycle = 100, sc_min_net_edge = 1 / 1000, sc_base_context = context_default\<lparr>dc_notional := 1\<rparr>,
       sc_detector = detector_config_default, sc_target_cycle_ms = 500, sc_fill_config = fill_config_default\<rparr>"

datatype scan_error =
    ScanInternal string
  | ScanMismatch mismatch_load_error
  | InvalidConfidence confidence_error
  | ScanFee fee_error

record scanner =
  sk_config :: scan_config
  sk_mismatch :: pair_config
  sk_fees :: fee_catalog
  sk_cadence :: cadence_controller
  sk_fill_failures_total :: u64

record scan_outcome =
  sx_pairs_evaluated :: nat
  sx_opportunities :: "opportunity list"
  sx_cycle_ms :: nat
  sx_shed_level :: nat
  sx_fill_failures :: nat

definition scanner_new :: "parse_decimal \<Rightarrow> string + toml \<Rightarrow> scan_config \<Rightarrow> scan_error + scanner" where
  "scanner_new parse table cfg =
     and_then (map_err ScanMismatch (pairs_from_toml parse table)) (\<lambda>mismatch.
     and_then (map_err ScanFee (fees_load_embedded parse)) (\<lambda>cat.
     Inr \<lparr>sk_config = cfg, sk_mismatch = mismatch, sk_fees = cat, sk_cadence = cadence_new (sc_target_cycle_ms cfg),
       sk_fill_failures_total = 0\<rparr>))"

text \<open>What the cycle takes from packages and from its surroundings: the default hasher over the hashed
  strings, \<^verbatim>\<open>Ulid::from_parts\<close>, the range check of a timestamp, the rendering of numbers, and the
  fresh ids and clock of each walk. \<open>sv_elapsed\<close> is the measured duration of the cycle.\<close>

record scan_env =
  sv_hash :: "string list \<Rightarrow> u64"
  sv_from_parts :: "u64 \<Rightarrow> 128 word \<Rightarrow> ulid"
  sv_from_millis :: "int \<Rightarrow> string + utc_time"
  sv_render :: render
  sv_ids :: "nat \<Rightarrow> leg_ids"
  sv_elapsed :: nat

text \<open>The market data a cycle reads.\<close>

record scan_input =
  sp_quotes :: "(market_key, market_quote) hash_map"
  sp_books :: "(market_key, order_book) hash_map"
  sp_markets :: "(market_key, market) hash_map"
  sp_evidence :: "(string, evidence_snapshot) hash_map"

unbundle bit_operations_syntax

definition deterministic_opportunity_id :: "scan_env \<Rightarrow> detected_opportunity \<Rightarrow> utc_time \<Rightarrow> ulid" where
  "deterministic_opportunity_id E c now =
     (let first = sv_hash E [key_str (dp_buy_leg c), key_str (dp_sell_leg c), dp_category c];
          second = sv_hash E [key_str (dp_sell_leg c), key_str (dp_buy_leg c), rn_dec (sv_render E) (dp_gross_spread c)];
          randomness = push_bit 16 (ucast first) OR (ucast second AND 0xffff)
      in sv_from_parts E (of_int (max now 0)) randomness)"

subsection \<open>One candidate\<close>

datatype candidate_step = Skipped | FillFailure | Emitted opportunity

definition quote_age :: "(market_key, market_quote) hash_map \<Rightarrow> utc_time \<Rightarrow> detected_opportunity \<Rightarrow> int" where
  "quote_age quotes now c =
     (case List.map_filter (\<lambda>k. map_option (\<lambda>q. sat_i64 (now - mq_ts q)) (hm_get quotes k)) [dp_buy_leg c, dp_sell_leg c] of
        [] \<Rightarrow> 0
      | age # ages \<Rightarrow> fold max ages age)"

definition candidate_context ::
  "scanner \<Rightarrow> detected_opportunity \<Rightarrow> int \<Rightarrow> decimal \<Rightarrow> decimal \<Rightarrow> decimal \<Rightarrow> string \<Rightarrow> string \<Rightarrow> decomposition_context" where
  "candidate_context S c age confidence fee depth buy_venue sell_venue =
     apply_mismatch_config (sk_mismatch S) buy_venue sell_venue
       ((sc_base_context (sk_config S))\<lparr>dc_buy_price := dp_buy_price c, dc_sell_price := dp_sell_price c,
          dc_max_quote_age_ms := age, dc_confidence := confidence, dc_fee_amount := Some fee, dc_avg_depth := depth\<rparr>)"

definition new_opportunity ::
  "scan_env \<Rightarrow> scanner \<Rightarrow> scan_input \<Rightarrow> utc_time \<Rightarrow> brain_ref \<Rightarrow> ulid \<Rightarrow> detected_opportunity
     \<Rightarrow> decimal \<Rightarrow> edge_decomposition \<Rightarrow> confidence \<Rightarrow> utc_time \<Rightarrow> opportunity" where
  "new_opportunity E S I now explain trace c gross edge conf expires =
     (let n = dc_notional (sc_base_context (sk_config S))
      in \<lparr>op_id = deterministic_opportunity_id E c now, op_kind = Arbitrage,
           op_legs = [\<lparr>ol_market = dp_buy_leg c, ol_side = Buy, ol_target_price = Some (dp_buy_price c), ol_size_hint = Some n\<rparr>,
                      \<lparr>ol_market = dp_sell_leg c, ol_side = Sell, ol_target_price = Some (dp_sell_price c), ol_size_hint = Some n\<rparr>],
           op_gross_edge = gross, op_edge = edge, op_confidence = conf, op_detected_ts = now, op_expires_ts = Some expires,
           op_explain_ref = (case hm_get (sp_evidence I) (dp_category c) of None \<Rightarrow> explain | Some s \<Rightarrow> en_explain_ref s),
           op_trace_id = trace\<rparr>)"

text \<open>From the decomposition to the opportunity.\<close>

definition emit_opportunity ::
  "dec_ops \<Rightarrow> scan_env \<Rightarrow> scanner \<Rightarrow> scan_input \<Rightarrow> utc_time \<Rightarrow> brain_ref \<Rightarrow> ulid \<Rightarrow> detected_opportunity \<Rightarrow> decimal
     \<Rightarrow> net_decomposition \<Rightarrow> (scan_error + candidate_step) option" where
  "emit_opportunity D E S I now explain trace c confidence computed =
     (if ed_net_edge computed < sc_min_net_edge (sk_config S) then Some (Inr Skipped)
      else
        pthen (plift (edge_compute D (ed_gross_spread computed) (costs_of computed))) (\<lambda>edge.
        pthen (Some (map_err InvalidConfidence (confidence_new confidence))) (\<lambda>conf.
        pthen (Some (map_err ScanInternal (sv_from_millis E (sat_i64 (now + 30000))))) (\<lambda>expires.
        Some (Inr (Emitted (new_opportunity E S I now explain trace c (ed_gross_spread computed) edge conf expires)))))))"

text \<open>A failed walk is a fill failure, whatever its error.\<close>

definition fillable_leg ::
  "dec_ops \<Rightarrow> scan_env \<Rightarrow> scanner \<Rightarrow> nat \<Rightarrow> order_book \<Rightarrow> side \<Rightarrow> decimal option option" where
  "fillable_leg D E S n b s =
     map_option (\<lambda>r. case r of Inl _ \<Rightarrow> None | Inr (_, slip) \<Rightarrow> Some slip)
       (walk_leg D (sv_render E) (sv_ids E n) b s (dc_notional (sc_base_context (sk_config S))) (sc_fill_config (sk_config S)))"

definition price_candidate ::
  "dec_ops \<Rightarrow> scan_env \<Rightarrow> scanner \<Rightarrow> scan_input \<Rightarrow> utc_time \<Rightarrow> brain_ref \<Rightarrow> ulid \<Rightarrow> nat \<Rightarrow> detected_opportunity
     \<Rightarrow> int \<Rightarrow> decimal \<Rightarrow> string \<Rightarrow> string \<Rightarrow> order_book \<Rightarrow> order_book \<Rightarrow> (scan_error + candidate_step) option" where
  "price_candidate D E S I now explain trace n c age confidence buy_venue sell_venue buy_book sell_book =
     Option.bind (fillable_leg D E S (2 * n) buy_book Buy) (\<lambda>buy. case buy of
       None \<Rightarrow> Some (Inr FillFailure)
     | Some buy_slip \<Rightarrow>
         Option.bind (fillable_leg D E S (2 * n + 1) sell_book Sell) (\<lambda>sell. case sell of
           None \<Rightarrow> Some (Inr FillFailure)
         | Some sell_slip \<Rightarrow>
             pthen (map_option (map_err ScanFee) (estimate_pair D (sk_fees S) buy_venue sell_venue
               (dp_buy_price c) (dp_sell_price c) (dc_notional (sc_base_context (sk_config S))))) (\<lambda>fee.
             pthen (plift (average_depth D buy_book sell_book)) (\<lambda>depth.
             pthen (plift (decompose D (candidate_context S c age confidence fee depth buy_venue sell_venue))) (\<lambda>base.
             pthen (plift (Option.bind (dec_add D buy_slip sell_slip) (\<lambda>slip. with_slippage D slip base))) (\<lambda>computed.
             emit_opportunity D E S I now explain trace c confidence computed))))))"

definition scan_candidate ::
  "dec_ops \<Rightarrow> scan_env \<Rightarrow> scanner \<Rightarrow> scan_input \<Rightarrow> utc_time \<Rightarrow> brain_ref \<Rightarrow> ulid \<Rightarrow> nat \<Rightarrow> detected_opportunity
     \<Rightarrow> (scan_error + candidate_step) option" where
  "scan_candidate D E S I now explain trace n c =
     (let age = quote_age (sp_quotes I) now c
      in Option.bind (score D (dp_gross_spread c) age (dt_max_quote_age_ms (sc_detector (sk_config S))) 2
           (map_option en_signal (hm_get (sp_evidence I) (dp_category c)))) (\<lambda>scored.
         if so_confidence scored < min_confidence then Some (Inr Skipped)
         else
           pthen (Some (ok_or (ScanInternal ''detected buy market disappeared'') (hm_get (sp_markets I) (dp_buy_leg c)))) (\<lambda>buy.
           pthen (Some (ok_or (ScanInternal ''detected sell market disappeared'') (hm_get (sp_markets I) (dp_sell_leg c)))) (\<lambda>sell.
           pthen (Some (map_err ScanFee (is_executable (sk_fees S) (venue_str (m_venue buy))))) (\<lambda>buy_ok.
           pthen (if buy_ok then Some (map_err ScanFee (is_executable (sk_fees S) (venue_str (m_venue sell))))
                  else Some (Inr False)) (\<lambda>both_ok.
           if \<not> both_ok then Some (Inr Skipped)
           else (case (hm_get (sp_books I) (dp_buy_leg c), hm_get (sp_books I) (dp_sell_leg c)) of
                   (Some buy_book, Some sell_book) \<Rightarrow>
                     price_candidate D E S I now explain trace n c age (so_confidence scored)
                       (venue_str (m_venue buy)) (venue_str (m_venue sell)) buy_book sell_book
                 | _ \<Rightarrow> Some (Inr FillFailure))))))))"

fun scan_loop ::
  "dec_ops \<Rightarrow> scan_env \<Rightarrow> scanner \<Rightarrow> scan_input \<Rightarrow> utc_time \<Rightarrow> brain_ref \<Rightarrow> ulid \<Rightarrow> nat \<Rightarrow> detected_opportunity list
     \<Rightarrow> opportunity list \<Rightarrow> nat \<Rightarrow> (scan_error + opportunity list \<times> nat) option" where
  "scan_loop D E S I now explain trace n [] found failures = Some (Inr (found, failures))"
| "scan_loop D E S I now explain trace n (c # cs) found failures =
     pthen (scan_candidate D E S I now explain trace n c) (\<lambda>r. case r of
       Skipped \<Rightarrow> scan_loop D E S I now explain trace (n + 1) cs found failures
     | FillFailure \<Rightarrow> scan_loop D E S I now explain trace (n + 1) cs found (failures + 1)
     | Emitted opp \<Rightarrow> scan_loop D E S I now explain trace (n + 1) cs (found @ [opp]) failures)"

subsection \<open>One cycle\<close>

definition candidate_limit :: "nat \<Rightarrow> nat \<Rightarrow> nat" where
  "candidate_limit shed n =
     (if shed = 0 then n
      else if shed = 1 then (min (n * 3) (2 ^ 64 - 1) + 3) div 4
      else if shed = 2 then (n + 1) div 2
      else if shed = 3 then (n + 3) div 4
      else min n 1)"

definition sat_add_u64 :: "u64 \<Rightarrow> nat \<Rightarrow> u64" where
  "sat_add_u64 a n = of_nat (min (unat a + n) (2 ^ 64 - 1))"

text \<open>An error leaves the cycle begun but not ended, and its fill failures uncounted.\<close>

definition scan_impl ::
  "dec_ops \<Rightarrow> scan_env \<Rightarrow> scan_input \<Rightarrow> market_key list option \<Rightarrow> utc_time \<Rightarrow> brain_ref \<Rightarrow> ulid \<Rightarrow> scanner
     \<Rightarrow> ((scan_error + scan_outcome) \<times> scanner) option" where
  "scan_impl D E I changed now explain trace S =
     (let (shed, cadence) = begin_cycle (sk_cadence S);
          S1 = S\<lparr>sk_cadence := cadence\<rparr>;
          m = sc_max_pairs_per_cycle (sk_config S)
      in do {
        (detected, pairs) \<leftarrow>
          (case changed of
             Some keys \<Rightarrow> detect_changed_bounded D (sc_detector (sk_config S)) (sp_quotes I) (sp_markets I) keys now m
           | None \<Rightarrow> detect_bounded D (sc_detector (sk_config S)) (sp_quotes I) (sp_markets I) now m);
        r \<leftarrow> scan_loop D E S1 I now explain trace 0 (take (candidate_limit shed (length detected)) detected) [] 0;
        (case r of
           Inl e \<Rightarrow> Some (Inl e, S1)
         | Inr (found, failures) \<Rightarrow>
             (let S2 = S1\<lparr>sk_cadence := end_cycle (sv_elapsed E) cadence,
                          sk_fill_failures_total := sat_add_u64 (sk_fill_failures_total S1) failures\<rparr>
              in Some (Inr \<lparr>sx_pairs_evaluated = pairs, sx_opportunities = found,
                   sx_cycle_ms = cycle_metric (sk_cadence S2), sx_shed_level = shed, sx_fill_failures = failures\<rparr>, S2)))
      })"

definition scan_once ::
  "dec_ops \<Rightarrow> scan_env \<Rightarrow> scan_input \<Rightarrow> utc_time \<Rightarrow> brain_ref \<Rightarrow> ulid \<Rightarrow> scanner \<Rightarrow> ((scan_error + scan_outcome) \<times> scanner) option" where
  "scan_once D E I now explain trace S = scan_impl D E I None now explain trace S"

definition scan_incremental ::
  "dec_ops \<Rightarrow> scan_env \<Rightarrow> scan_input \<Rightarrow> market_key list \<Rightarrow> utc_time \<Rightarrow> brain_ref \<Rightarrow> ulid \<Rightarrow> scanner
     \<Rightarrow> ((scan_error + scan_outcome) \<times> scanner) option" where
  "scan_incremental D E I changed now explain trace S = scan_impl D E I (Some changed) now explain trace S"

subsection \<open>What is emitted\<close>

text \<open>The steps of a candidate that became an opportunity.\<close>

lemma emit_opportunityE:
  assumes "emit_opportunity D E S I now explain trace c confidence computed = Some (Inr (Emitted opp))"
  obtains edge conf expires where "sc_min_net_edge (sk_config S) \<le> ed_net_edge computed"
    "edge_compute D (ed_gross_spread computed) (costs_of computed) = Some edge" "confidence_new confidence = Inr conf"
    "sv_from_millis E (sat_i64 (now + 30000)) = Inr expires"
    "opp = new_opportunity E S I now explain trace c (ed_gross_spread computed) edge conf expires"
  using assms unfolding emit_opportunity_def
  by (cases "ed_net_edge computed < sc_min_net_edge (sk_config S)")
    (auto elim!: pthen_okE simp: plift_ok map_err_Inr_iff)

lemma price_candidateE:
  assumes "price_candidate D E S I now explain trace n c age confidence bv sv bb sb = Some (Inr (Emitted opp))"
  obtains buy_slip sell_slip fee depth base slip computed
  where "fillable_leg D E S (2 * n) bb Buy = Some (Some buy_slip)" "fillable_leg D E S (Suc (2 * n)) sb Sell = Some (Some sell_slip)"
    "estimate_pair D (sk_fees S) bv sv (dp_buy_price c) (dp_sell_price c) (dc_notional (sc_base_context (sk_config S))) = Some (Inr fee)"
    "average_depth D bb sb = Some depth" "decompose D (candidate_context S c age confidence fee depth bv sv) = Some base"
    "dec_add D buy_slip sell_slip = Some slip" "with_slippage D slip base = Some computed"
    "emit_opportunity D E S I now explain trace c confidence computed = Some (Inr (Emitted opp))"
proof -
  from assms obtain buy_slip sell_slip where
    slips: "fillable_leg D E S (2 * n) bb Buy = Some (Some buy_slip)" "fillable_leg D E S (Suc (2 * n)) sb Sell = Some (Some sell_slip)"
    unfolding price_candidate_def by (auto simp: bind_Some_iff split: option.splits)
  with assms show thesis
    unfolding price_candidate_def
    by (auto elim!: pthen_okE simp: plift_ok map_err_Inr_iff bind_Some_iff intro: that)
qed

lemma scan_candidateE:
  assumes "scan_candidate D E S I now explain trace n c = Some (Inr (Emitted opp))"
  obtains scored buy sell buy_book sell_book
  where "score D (dp_gross_spread c) (quote_age (sp_quotes I) now c) (dt_max_quote_age_ms (sc_detector (sk_config S))) 2
      (map_option en_signal (hm_get (sp_evidence I) (dp_category c))) = Some scored"
    "min_confidence \<le> so_confidence scored"
    "hm_get (sp_markets I) (dp_buy_leg c) = Some buy" "hm_get (sp_markets I) (dp_sell_leg c) = Some sell"
    "is_executable (sk_fees S) (venue_str (m_venue buy)) = Inr True" "is_executable (sk_fees S) (venue_str (m_venue sell)) = Inr True"
    "hm_get (sp_books I) (dp_buy_leg c) = Some buy_book" "hm_get (sp_books I) (dp_sell_leg c) = Some sell_book"
    "price_candidate D E S I now explain trace n c (quote_age (sp_quotes I) now c) (so_confidence scored)
       (venue_str (m_venue buy)) (venue_str (m_venue sell)) buy_book sell_book = Some (Inr (Emitted opp))"
proof -
  from assms obtain scored where s: "score D (dp_gross_spread c) (quote_age (sp_quotes I) now c)
      (dt_max_quote_age_ms (sc_detector (sk_config S))) 2 (map_option en_signal (hm_get (sp_evidence I) (dp_category c))) = Some scored"
    "min_confidence \<le> so_confidence scored"
    unfolding scan_candidate_def Let_def by (auto elim!: bind_SomeE split: if_splits)
  with assms show thesis
    unfolding scan_candidate_def Let_def
    by (auto elim!: pthen_okE simp: ok_or_Inr_iff map_err_Inr_iff split: if_splits option.splits intro: that)
qed

lemma scan_loop_elem:
  assumes "scan_loop D E S I now explain trace n cs found failures = Some (Inr (found', failures'))"
  shows "opp \<in> set found' \<Longrightarrow> opp \<in> set found \<or> (\<exists>c \<in> set cs. \<exists>k. scan_candidate D E S I now explain trace k c = Some (Inr (Emitted opp)))"
  using assms
proof (induction cs arbitrary: n found failures)
  case (Cons c cs)
  from Cons.prems(2) obtain r where r: "scan_candidate D E S I now explain trace n c = Some (Inr r)"
    unfolding scan_loop.simps by (rule pthen_okE) (rule that)
  show ?case
  proof (cases r)
    case (Emitted opp')
    with Cons.prems(2) r have "scan_loop D E S I now explain trace (n + 1) cs (found @ [opp']) failures = Some (Inr (found', failures'))"
      by simp
    from Cons.IH [OF Cons.prems(1) this] r Emitted show ?thesis by auto
  qed (use Cons.IH [OF Cons.prems(1)] Cons.prems(2) r in fastforce)+
qed simp

lemma scan_implE:
  assumes "scan_impl D E I changed now explain trace S = Some (Inr out, S')"
  obtains detected pairs S1 where
    "detect_bounded_inner D (sc_detector (sk_config S)) (sp_quotes I) (sp_markets I) now (sc_max_pairs_per_cycle (sk_config S)) changed
      = Some (detected, pairs)"
    "S1 = S\<lparr>sk_cadence := snd (begin_cycle (sk_cadence S))\<rparr>"
    "scan_loop D E S1 I now explain trace 0 (take (candidate_limit (sx_shed_level out) (length detected)) detected) [] 0
      = Some (Inr (sx_opportunities out, sx_fill_failures out))"
    "sx_pairs_evaluated out = pairs" "sx_shed_level out = fst (begin_cycle (sk_cadence S))" "sk_config S' = sk_config S"
    "sk_cadence S' = end_cycle (sv_elapsed E) (snd (begin_cycle (sk_cadence S)))"
proof -
  let ?S1 = "S\<lparr>sk_cadence := snd (begin_cycle (sk_cadence S))\<rparr>"
  from assms obtain detected pairs r where
    d: "detect_bounded_inner D (sc_detector (sk_config S)) (sp_quotes I) (sp_markets I) now (sc_max_pairs_per_cycle (sk_config S)) changed
      = Some (detected, pairs)"
    and r: "scan_loop D E ?S1 I now explain trace 0 (take (candidate_limit (fst (begin_cycle (sk_cadence S))) (length detected)) detected) [] 0 = Some r"
    unfolding scan_impl_def Let_def case_prod_unfold detect_bounded_def detect_changed_bounded_def
    by (auto elim!: bind_SomeE split: option.splits)
  with assms have "(case r of Inl e \<Rightarrow> Some (Inl e, ?S1) | Inr x \<Rightarrow>
      Some (Inr \<lparr>sx_pairs_evaluated = pairs, sx_opportunities = fst x,
         sx_cycle_ms = cycle_metric (end_cycle (sv_elapsed E) (snd (begin_cycle (sk_cadence S)))),
         sx_shed_level = fst (begin_cycle (sk_cadence S)), sx_fill_failures = snd x\<rparr>,
       ?S1\<lparr>sk_cadence := end_cycle (sv_elapsed E) (snd (begin_cycle (sk_cadence S))),
          sk_fill_failures_total := sat_add_u64 (sk_fill_failures_total ?S1) (snd x)\<rparr>)) = Some (Inr out, S')"
    unfolding scan_impl_def Let_def case_prod_unfold detect_bounded_def detect_changed_bounded_def
    by (cases changed; cases r) simp_all
  then obtain x where x: "r = Inr x" "out = \<lparr>sx_pairs_evaluated = pairs, sx_opportunities = fst x,
         sx_cycle_ms = cycle_metric (end_cycle (sv_elapsed E) (snd (begin_cycle (sk_cadence S)))),
         sx_shed_level = fst (begin_cycle (sk_cadence S)), sx_fill_failures = snd x\<rparr>"
    "S' = ?S1\<lparr>sk_cadence := end_cycle (sv_elapsed E) (snd (begin_cycle (sk_cadence S))),
          sk_fill_failures_total := sat_add_u64 (sk_fill_failures_total ?S1) (snd x)\<rparr>"
    by (cases r) auto
  from d r x show thesis by (intro that [of detected pairs ?S1]) simp_all
qed

text \<open>The market map is keyed by the markets' own keys.\<close>

definition keyed :: "(market_key, market) hash_map \<Rightarrow> bool" where
  "keyed markets \<longleftrightarrow> hm_wf markets \<and> (\<forall>(k, m) \<in> set markets. m_key m = k)"

lemma keyed_get: "keyed markets \<Longrightarrow> m \<in> snd ` set markets \<Longrightarrow> hm_get markets (m_key m) = Some m"
  by (auto simp: keyed_def intro!: map_of_is_SomeI)

lemma edge_compute_valid:
  assumes "edge_compute D gross c = Some e"
  shows "edge_validate D e = Some (Inr ())"
  using assms by (auto simp: edge_compute_def edge_costs_sum_def edge_validate_def bind_Some_iff)

lemma estimate_pair_sum:
  "estimate_pair D cat bv sv bp sp sz = Some (Inr f) \<Longrightarrow> \<exists>a b. dec_add D a b = Some f"
  unfolding estimate_pair_def by (elim pthen_okE) (auto simp: plift_ok)

text \<open>Zero added to a computed sum leaves it, as in the package.\<close>

definition zero_neutral :: "dec_ops \<Rightarrow> bool" where
  "zero_neutral D \<longleftrightarrow> (\<forall>a b c. dec_add D a b = Some c \<longrightarrow> dec_add D 0 c = Some c)"

text \<open>The edge is the decomposition, when adding zero to a computed sum leaves it.\<close>

lemma priced_edge:
  assumes "zero_neutral D"
    and "estimate_pair D (sk_fees S) bv sv bp sp n = Some (Inr fee)"
    and "decompose D (candidate_context S c age confidence fee depth bv sv) = Some base" "with_slippage D slip base = Some computed"
    and "edge_compute D (ed_gross_spread computed) (costs_of computed) = Some edge"
  shows "edge = computed"
proof -
  have "ed_fees base = fee" using assms(3)
    by (elim decomposeE) (simp add: candidate_context_def apply_mismatch_config_def)
  then have "ed_fees computed = fee" using assms(4) by (auto simp: with_slippage_Some)
  then have z: "dec_add D 0 (ed_fees computed) = Some (ed_fees computed)"
    using assms(1) estimate_pair_sum [OF assms(2)] unfolding zero_neutral_def by blast
  obtain t where "dec_add_all D (ed_fees computed) (tl (net_costs computed)) = Some t"
    and "dec_sub D (ed_gross_spread computed) t = Some (ed_net_edge computed)"
    using with_slippage_adds_up [OF assms(4)] z by (auto simp: adds_up_def net_edge_def net_costs_def bind_Some_iff)
  then have "edge_compute D (ed_gross_spread computed) (costs_of computed) = Some computed"
    by (simp add: edge_compute_def edge_costs_sum_def costs_of_def net_costs_def)
  with assms(5) show ?thesis by simp
qed

lemma emitted_candidate:
  assumes "zero_neutral D"
    and "scan_candidate D E S I now explain trace n c = Some (Inr (Emitted opp))"
  obtains buy sell where "hm_get (sp_markets I) (dp_buy_leg c) = Some buy" "hm_get (sp_markets I) (dp_sell_leg c) = Some sell"
    "is_executable (sk_fees S) (venue_str (m_venue buy)) = Inr True" "is_executable (sk_fees S) (venue_str (m_venue sell)) = Inr True"
    "map ol_market (op_legs opp) = [dp_buy_leg c, dp_sell_leg c]" "map ol_side (op_legs opp) = [Buy, Sell]"
    "map ol_target_price (op_legs opp) = [Some (dp_buy_price c), Some (dp_sell_price c)]"
    "edge_validate D (op_edge opp) = Some (Inr ())" "sc_min_net_edge (sk_config S) \<le> ed_net_edge (op_edge opp)"
    "op_gross_edge opp = ed_gross_spread (op_edge opp)"
    "1 / 2 \<le> confidence_value (op_confidence opp)" "confidence_value (op_confidence opp) \<le> 1"
proof -
  from assms(2) obtain scored buy sell buy_book sell_book
  where "score D (dp_gross_spread c) (quote_age (sp_quotes I) now c) (dt_max_quote_age_ms (sc_detector (sk_config S))) 2
        (map_option en_signal (hm_get (sp_evidence I) (dp_category c))) = Some scored"
    and s: "min_confidence \<le> so_confidence scored"
    and m: "hm_get (sp_markets I) (dp_buy_leg c) = Some buy" "hm_get (sp_markets I) (dp_sell_leg c) = Some sell"
      "is_executable (sk_fees S) (venue_str (m_venue buy)) = Inr True" "is_executable (sk_fees S) (venue_str (m_venue sell)) = Inr True"
    and "hm_get (sp_books I) (dp_buy_leg c) = Some buy_book" "hm_get (sp_books I) (dp_sell_leg c) = Some sell_book"
    and p: "price_candidate D E S I now explain trace n c (quote_age (sp_quotes I) now c) (so_confidence scored)
       (venue_str (m_venue buy)) (venue_str (m_venue sell)) buy_book sell_book = Some (Inr (Emitted opp))"
    by (rule scan_candidateE)
  from p obtain buy_slip sell_slip fee depth base slip computed
  where "fillable_leg D E S (2 * n) buy_book Buy = Some (Some buy_slip)" "fillable_leg D E S (Suc (2 * n)) sell_book Sell = Some (Some sell_slip)"
    and f: "estimate_pair D (sk_fees S) (venue_str (m_venue buy)) (venue_str (m_venue sell)) (dp_buy_price c) (dp_sell_price c)
        (dc_notional (sc_base_context (sk_config S))) = Some (Inr fee)"
    and "average_depth D buy_book sell_book = Some depth"
    and d: "decompose D (candidate_context S c (quote_age (sp_quotes I) now c) (so_confidence scored) fee depth
        (venue_str (m_venue buy)) (venue_str (m_venue sell))) = Some base"
      "dec_add D buy_slip sell_slip = Some slip" "with_slippage D slip base = Some computed"
    and e: "emit_opportunity D E S I now explain trace c (so_confidence scored) computed = Some (Inr (Emitted opp))"
    by (rule price_candidateE)
  from e obtain edge conf expires where emit: "sc_min_net_edge (sk_config S) \<le> ed_net_edge computed"
      "edge_compute D (ed_gross_spread computed) (costs_of computed) = Some edge" "confidence_new (so_confidence scored) = Inr conf"
      "sv_from_millis E (sat_i64 (now + 30000)) = Inr expires"
      "opp = new_opportunity E S I now explain trace c (ed_gross_spread computed) edge conf expires"
    by (rule emit_opportunityE)
  have "edge = computed" using priced_edge [OF assms(1) f d(1,3) emit(2)] by simp
  with s m emit edge_compute_valid [OF emit(2)] show thesis
    by (intro that [of buy sell]) (auto simp: new_opportunity_def Let_def confidence_new_def min_confidence_def split: if_splits)
qed

text \<open>
  Property C10. Every opportunity a cycle emits buys one open market of the snapshot below the price at
  which it sells a comparable one on another venue, both venues being executable; its edge passes the
  core's own sum law and is at least the configured minimum, and its confidence is at least one half.
\<close>

theorem emitted_opportunities_sound:
  assumes "zero_neutral D" "keyed (sp_markets I)"
    and "scan_impl D E I changed now explain trace S = Some (Inr out, S')" "opp \<in> set (sx_opportunities out)"
  shows "\<exists>buy sell bp sp. {buy, sell} \<subseteq> snd ` set (sp_markets I) \<and> comparable buy sell
    \<and> is_executable (sk_fees S) (venue_str (m_venue buy)) = Inr True \<and> is_executable (sk_fees S) (venue_str (m_venue sell)) = Inr True
    \<and> map ol_market (op_legs opp) = [m_key buy, m_key sell] \<and> map ol_side (op_legs opp) = [Buy, Sell]
    \<and> map ol_target_price (op_legs opp) = [Some bp, Some sp] \<and> 0 < bp \<and> bp < sp
    \<and> edge_validate D (op_edge opp) = Some (Inr ()) \<and> sc_min_net_edge (sk_config S) \<le> ed_net_edge (op_edge opp)
    \<and> 1 / 2 \<le> confidence_value (op_confidence opp) \<and> confidence_value (op_confidence opp) \<le> 1"
proof -
  from assms(3) obtain detected pairs S1 where
    d: "detect_bounded_inner D (sc_detector (sk_config S)) (sp_quotes I) (sp_markets I) now (sc_max_pairs_per_cycle (sk_config S)) changed
      = Some (detected, pairs)"
    and S1: "S1 = S\<lparr>sk_cadence := snd (begin_cycle (sk_cadence S))\<rparr>"
    and l: "scan_loop D E S1 I now explain trace 0 (take (candidate_limit (sx_shed_level out) (length detected)) detected) [] 0
      = Some (Inr (sx_opportunities out, sx_fill_failures out))"
    and "sx_pairs_evaluated out = pairs" "sx_shed_level out = fst (begin_cycle (sk_cadence S))" "sk_config S' = sk_config S"
      "sk_cadence S' = end_cycle (sv_elapsed E) (snd (begin_cycle (sk_cadence S)))"
    by (rule scan_implE)
  from scan_loop_elem [OF l assms(4)] obtain c k where c: "c \<in> set detected"
    "scan_candidate D E S1 I now explain trace k c = Some (Inr (Emitted opp))" by (auto dest: in_set_takeD)
  from detected_elem [OF d c(1)] obtain a b where ab: "a \<in> snd ` set (sp_markets I)" "b \<in> snd ` set (sp_markets I)"
    "candidate_of (sc_detector (sk_config S)) (sp_quotes I) now c a b" by blast
  have key: "dp_buy_leg c = m_key a" "dp_sell_leg c = m_key b" using ab(3) by (simp_all add: candidate_of_def)
  show ?thesis
  proof (rule emitted_candidate [OF assms(1) c(2)])
    fix buy sell
    assume g: "hm_get (sp_markets I) (dp_buy_leg c) = Some buy" "hm_get (sp_markets I) (dp_sell_leg c) = Some sell"
    assume r: "is_executable (sk_fees S1) (venue_str (m_venue buy)) = Inr True" "is_executable (sk_fees S1) (venue_str (m_venue sell)) = Inr True"
      "map ol_market (op_legs opp) = [dp_buy_leg c, dp_sell_leg c]" "map ol_side (op_legs opp) = [Buy, Sell]"
      "map ol_target_price (op_legs opp) = [Some (dp_buy_price c), Some (dp_sell_price c)]"
      "edge_validate D (op_edge opp) = Some (Inr ())" "sc_min_net_edge (sk_config S1) \<le> ed_net_edge (op_edge opp)"
      "1 / 2 \<le> confidence_value (op_confidence opp)" "confidence_value (op_confidence opp) \<le> 1"
    from g key keyed_get [OF assms(2)] ab have "buy = a" "sell = b" by simp_all
    with r ab key S1 show ?thesis
      by (intro exI [of _ a] exI [of _ b] exI [of _ "dp_buy_price c"] exI [of _ "dp_sell_price c"]) (simp add: candidate_of_def)
  qed
qed

subsection \<open>A cycle on concrete markets\<close>

definition wit_scanner :: "cadence_controller \<Rightarrow> scanner" where
  "wit_scanner cad = \<lparr>sk_config = scan_config_default\<lparr>sc_max_pairs_per_cycle := 9\<rparr>, sk_mismatch = pair_config_default,
     sk_fees = [(''a'', \<lparr>fs_model = NotionalRate, fs_taker_rate = 1 / 100\<rparr>), (''b'', \<lparr>fs_model = NotionalRate, fs_taker_rate = 0\<rparr>),
       (''c'', \<lparr>fs_model = NotionalRate, fs_taker_rate = 0\<rparr>)],
     sk_cadence = cad, sk_fill_failures_total = 0\<rparr>"

definition wit_scan_input :: scan_input where
  "wit_scan_input = \<lparr>sp_quotes = scan_wit_quotes,
     sp_books = [(MarketKey ''mkt:a:x'', wit_leg_book ''mkt:a:x''), (MarketKey ''mkt:b:x'', wit_leg_book ''mkt:b:x'')],
     sp_markets = scan_wit_markets, sp_evidence = []\<rparr>"

definition wit_scan_env :: scan_env where
  "wit_scan_env = \<lparr>sv_hash = (\<lambda>_. 0), sv_from_parts = (\<lambda>t r. ucast t), sv_from_millis = Inr, sv_render = wit_render,
     sv_ids = wit_ids, sv_elapsed = 12\<rparr>"

abbreviation wit_ref :: brain_ref where
  "wit_ref \<equiv> \<lparr>bf_object_id = 1, bf_provenance_hash = ''h''\<rparr>"

lemma wit_unit_walk:
  assumes "s \<in> {Buy, Sell}"
  shows "\<exists>fs. walk_leg dec_exact wit_render ids (wit_leg_book k) s 1 fill_config_default = Some (Inr (fs, 0))"
  using assms
  by (auto simp: walk_leg_def build_intent_def origin_new_def paper_intent_def hd_opt_def
     walk_book_def fill_config_validate_def fill_config_default_def is_blank_def
     wit_leg_book_def book_side_def check_limit_def Let_def finish_fills_def mk_fill_def compute_slippage_def)

lemma wit_fillable: "s \<in> {Buy, Sell} \<Longrightarrow> fillable_leg dec_exact wit_scan_env (wit_scanner cad) n (wit_leg_book k) s = Some (Some 0)"
  using wit_unit_walk [of s "wit_ids n" k]
  by (auto simp: fillable_leg_def wit_scan_env_def wit_scanner_def scan_config_default_def context_default_def)

lemma wit_score: "score dec_exact (1 / 4) 1000 5000 2 None
    = Some \<lparr>so_confidence = 3 / 4, so_score = 3 / 16, so_features = [''spread_wide'', ''quote_fresh'', ''recall_evidence_missing'']\<rparr>"
  by (simp add: score_def clamp_unit_def half_i64_def)

lemma wit_age: "quote_age scan_wit_quotes 1000 (scan_wit_found ''mkt:b:x'') = 1000" "quote_age scan_wit_quotes 1000 (scan_wit_found ''mkt:c:x'') = 1000"
  by (simp_all add: quote_age_def scan_wit_quotes_def scan_wit_found_def List.map_filter_def sat_i64_def i64_min_def i64_max_def)

lemma scan_wit_venue_ok: "is_executable (sk_fees (wit_scanner cad)) ''a'' = Inr True" "is_executable (sk_fees (wit_scanner cad)) ''b'' = Inr True"
    "is_executable (sk_fees (wit_scanner cad)) ''c'' = Inr True"
  by (simp_all add: is_executable_def wit_scanner_def)

lemma wit_market_get:
  "hm_get scan_wit_markets (MarketKey ''mkt:a:x'') = Some (scan_wit_market ''mkt:a:x'' ''a'' ''rain'')"
  "hm_get scan_wit_markets (MarketKey ''mkt:b:x'') = Some (scan_wit_market ''mkt:b:x'' ''b'' ''Rain!'')"
  "hm_get scan_wit_markets (MarketKey ''mkt:c:x'') = Some (scan_wit_market ''mkt:c:x'' ''c'' ''rain'')"
  by (simp_all add: scan_wit_markets_def)

lemma wit_emitted:
  "\<exists>opp. scan_candidate dec_exact wit_scan_env (wit_scanner cad) wit_scan_input 1000 wit_ref 7 0 (scan_wit_found ''mkt:b:x'') = Some (Inr (Emitted opp))"
proof -
  have f: "dp_gross_spread (scan_wit_found ''mkt:b:x'') = 1 / 4" "dp_buy_leg (scan_wit_found ''mkt:b:x'') = MarketKey ''mkt:a:x''"
    "dp_sell_leg (scan_wit_found ''mkt:b:x'') = MarketKey ''mkt:b:x''" "dp_buy_price (scan_wit_found ''mkt:b:x'') = 4 / 10"
    "dp_sell_price (scan_wit_found ''mkt:b:x'') = 5 / 10"
    by (simp_all add: scan_wit_found_def)
  have i: "sp_quotes wit_scan_input = scan_wit_quotes" "sp_markets wit_scan_input = scan_wit_markets" "sp_evidence wit_scan_input = []"
    "hm_get (sp_books wit_scan_input) (MarketKey ''mkt:a:x'') = Some (wit_leg_book ''mkt:a:x'')"
    "hm_get (sp_books wit_scan_input) (MarketKey ''mkt:b:x'') = Some (wit_leg_book ''mkt:b:x'')"
    "dt_max_quote_age_ms (sc_detector (sk_config (wit_scanner cad))) = 5000"
    by (simp_all add: wit_scan_input_def wit_scanner_def scan_config_default_def detector_config_default_def)
  have "\<exists>opp. price_candidate dec_exact wit_scan_env (wit_scanner cad) wit_scan_input 1000 wit_ref 7 0 (scan_wit_found ''mkt:b:x'')
      1000 (3 / 4) ''a'' ''b'' (wit_leg_book ''mkt:a:x'') (wit_leg_book ''mkt:b:x'') = Some (Inr (Emitted opp))"
    unfolding price_candidate_def
    by (simp add: wit_fillable)
      (simp add: estimate_pair_def estimate_leg_def wit_scanner_def scan_config_default_def f average_depth_def wit_leg_book_def
      decompose_def candidate_context_def apply_mismatch_config_def context_default_def gross_spread_def funding_cost_def bridge_cost_def
      settlement_mismatch_discount_def liquidity_haircut_def staleness_penalty_def confidence_penalty_def net_edge_exact with_slippage_def
      emit_opportunity_def edge_compute_def edge_costs_sum_def costs_of_def confidence_new_def wit_scan_env_def net_costs_def Let_def
        pair_discount_for_def pair_config_default_def clamp_def)
  then show ?thesis
    unfolding scan_candidate_def
    by (simp add: f i wit_age wit_score min_confidence_def wit_market_get scan_wit_market_sel scan_wit_venue_ok Let_def)
qed

lemma wit_unfilled:
  "scan_candidate dec_exact wit_scan_env (wit_scanner cad) wit_scan_input 1000 wit_ref 7 1 (scan_wit_found ''mkt:c:x'') = Some (Inr FillFailure)"
proof -
  have f: "dp_gross_spread (scan_wit_found ''mkt:c:x'') = 1 / 4" "dp_buy_leg (scan_wit_found ''mkt:c:x'') = MarketKey ''mkt:a:x''"
    "dp_sell_leg (scan_wit_found ''mkt:c:x'') = MarketKey ''mkt:c:x''"
    by (simp_all add: scan_wit_found_def)
  have i: "sp_quotes wit_scan_input = scan_wit_quotes" "sp_markets wit_scan_input = scan_wit_markets" "sp_evidence wit_scan_input = []"
    "hm_get (sp_books wit_scan_input) (MarketKey ''mkt:a:x'') = Some (wit_leg_book ''mkt:a:x'')"
    "hm_get (sp_books wit_scan_input) (MarketKey ''mkt:c:x'') = None"
    "dt_max_quote_age_ms (sc_detector (sk_config (wit_scanner cad))) = 5000"
    by (simp_all add: wit_scan_input_def wit_scanner_def scan_config_default_def detector_config_default_def)
  show ?thesis
    unfolding scan_candidate_def
    by (simp add: f i wit_age wit_score min_confidence_def wit_market_get scan_wit_market_sel scan_wit_venue_ok Let_def)
qed

lemma wit_scan: "\<exists>out S' opp. scan_impl dec_exact wit_scan_env wit_scan_input None 1000 wit_ref 7 (wit_scanner (cadence_new 500)) = Some (Inr out, S')
    \<and> sx_opportunities out = [opp]"
proof -
  let ?S = "wit_scanner (cadence_new 500)" and ?cad = "snd (begin_cycle (cadence_new 500))"
  have S1: "?S\<lparr>sk_cadence := cad\<rparr> = wit_scanner cad" for cad by (simp add: wit_scanner_def)
  obtain opp where e: "scan_candidate dec_exact wit_scan_env (wit_scanner ?cad) wit_scan_input 1000 wit_ref 7 0 (scan_wit_found ''mkt:b:x'') = Some (Inr (Emitted opp))"
    using wit_emitted by blast
  have loop: "scan_loop dec_exact wit_scan_env (wit_scanner ?cad) wit_scan_input 1000 wit_ref 7 0
      [scan_wit_found ''mkt:b:x'', scan_wit_found ''mkt:c:x''] [] 0 = Some (Inr ([opp], 1))"
    using e by (simp add: wit_unfilled [simplified])
  have b: "sk_cadence ?S = cadence_new 500" "fst (begin_cycle (cadence_new 500)) = 0"
    by (simp_all add: begin_cycle_def Let_def wit_scanner_def cadence_new_def percent_of_def)
  have c: "sc_detector (sk_config ?S) = detector_config_default" "sc_max_pairs_per_cycle (sk_config ?S) = 9"
    "sp_quotes wit_scan_input = scan_wit_quotes" "sp_markets wit_scan_input = scan_wit_markets"
    by (simp_all add: wit_scanner_def scan_config_default_def wit_scan_input_def)
  show ?thesis
    unfolding scan_impl_def Let_def case_prod_unfold b S1 c by (simp add: scan_wit_all candidate_limit_def loop del: scan_loop.simps)
qed

theorem emitted_opportunities_sound_witness:
  "\<exists>out S' opp buy sell. scan_impl dec_exact wit_scan_env wit_scan_input None 1000 wit_ref 7 (wit_scanner (cadence_new 500)) = Some (Inr out, S')
     \<and> opp \<in> set (sx_opportunities out) \<and> {buy, sell} \<subseteq> snd ` set scan_wit_markets \<and> comparable buy sell
     \<and> 1 / 1000 \<le> ed_net_edge (op_edge opp)"
proof -
  obtain out S' opp where run: "scan_impl dec_exact wit_scan_env wit_scan_input None 1000 wit_ref 7 (wit_scanner (cadence_new 500)) = Some (Inr out, S')"
    and opp: "opp \<in> set (sx_opportunities out)" using wit_scan by fastforce
  have zero: "zero_neutral dec_exact" by (simp add: zero_neutral_def)
  have keys: "keyed (sp_markets wit_scan_input)"
    by (simp add: keyed_def wit_scan_input_def scan_wit_markets_def scan_wit_market_sel)
  have c: "sc_min_net_edge (sk_config (wit_scanner cad)) = 1 / 1000" "sp_markets wit_scan_input = scan_wit_markets" for cad
    by (simp_all add: wit_scanner_def scan_config_default_def wit_scan_input_def)
  obtain buy sell where "{buy, sell} \<subseteq> snd ` set scan_wit_markets" "comparable buy sell" "1 / 1000 \<le> ed_net_edge (op_edge opp)"
    using emitted_opportunities_sound [OF zero keys run opp] unfolding c by (elim exE conjE) (rule that)
  with run opp show ?thesis by blast
qed

end
