(* ===== verification/Bus_Messages.thy ===== *)
theory Bus_Messages
  imports Bus_Retry Rust_Text
begin

text \<open>
  Messages on the bus (\<^verbatim>\<open>crates/aether-bus\<close>): envelopes (\<^verbatim>\<open>envelope.rs\<close>), topic names (\<^verbatim>\<open>topics.rs\<close>),
  headers (\<^verbatim>\<open>headers.rs\<close>), the quarantine of malformed messages (\<^verbatim>\<open>quarantine.rs\<close>) and the consumer with
  its deferred acknowledgement (\<^verbatim>\<open>consumer.rs\<close>). The Kafka client, the producer and the object store are
  arguments with a state of their own; the JSON codec, the hash and the clock are functions. The lemmas
  show that a malformed message is acknowledged only after its bytes were stored and its metadata
  published, and what the acknowledgement does with a message whose processing failed.
\<close>

subsection \<open>Envelopes, topics and headers\<close>

record 'a envelope =
  ev_schema :: string
  ev_trace_id :: string
  ev_ts :: string
  ev_payload :: 'a

text \<open>\<open>trace\<close> is the text of a fresh ULID and \<open>now\<close> the text of the clock.\<close>

definition envelope_new :: "string \<Rightarrow> string \<Rightarrow> string \<Rightarrow> 'a \<Rightarrow> 'a envelope" where
  "envelope_new trace now type_name payload =
     \<lparr>ev_schema = ''aether.'' @ type_name @ ''.v1'', ev_trace_id = trace, ev_ts = now, ev_payload = payload\<rparr>"

definition topic_md_ticks :: string where "topic_md_ticks = ''md.ticks''"
definition topic_md_books :: string where "topic_md_books = ''md.books''"
definition topic_quarantine :: string where "topic_quarantine = ''quarantine''"
definition topic_brain_objects :: string where "topic_brain_objects = ''brain.objects''"
definition topic_opps_detected :: string where "topic_opps_detected = ''opps.detected''"
definition topic_orders_intents :: string where "topic_orders_intents = ''orders.intents''"
definition topic_orders_fills :: string where "topic_orders_fills = ''orders.fills''"
definition topic_alerts_outbound :: string where "topic_alerts_outbound = ''alerts.outbound''"
definition topic_audit_events :: string where "topic_audit_events = ''audit.events''"

definition topic_for :: "string \<Rightarrow> string \<Rightarrow> string" where
  "topic_for base venue = base @ ''.'' @ venue"

definition consumer_group_for_service :: "string \<Rightarrow> string" where
  "consumer_group_for_service name = ''svc.'' @ name"

text \<open>\<^verbatim>\<open>String::from_utf8\<close>: the well-formed byte sequences of the Unicode standard.\<close>

definition utf8_cont :: "u8 \<Rightarrow> bool" where
  "utf8_cont b \<longleftrightarrow> 0x80 \<le> b \<and> b \<le> 0xBF"

definition utf8_second :: "u8 \<Rightarrow> u8 \<Rightarrow> bool" where
  "utf8_second b c \<longleftrightarrow>
     (if b = 0xE0 then 0xA0 \<le> c \<and> c \<le> 0xBF
      else if b = 0xED then 0x80 \<le> c \<and> c \<le> 0x9F
      else if b = 0xF0 then 0x90 \<le> c \<and> c \<le> 0xBF
      else if b = 0xF4 then 0x80 \<le> c \<and> c \<le> 0x8F
      else utf8_cont c)"

fun utf8_valid :: "u8 list \<Rightarrow> bool" where
  "utf8_valid [] = True"
| "utf8_valid (b # bs) =
     (if b < 0x80 then utf8_valid bs
      else (case bs of
              [] \<Rightarrow> False
            | c1 # r1 \<Rightarrow>
                if 0xC2 \<le> b \<and> b \<le> 0xDF then utf8_cont c1 \<and> utf8_valid r1
                else (case r1 of
                        [] \<Rightarrow> False
                      | c2 # r2 \<Rightarrow>
                          if 0xE0 \<le> b \<and> b \<le> 0xEF then utf8_second b c1 \<and> utf8_cont c2 \<and> utf8_valid r2
                          else (case r2 of
                                  [] \<Rightarrow> False
                                | c3 # r3 \<Rightarrow> 0xF0 \<le> b \<and> b \<le> 0xF4 \<and> utf8_second b c1 \<and> utf8_cont c2
                                    \<and> utf8_cont c3 \<and> utf8_valid r3))))"

definition from_utf8 :: "u8 list \<Rightarrow> string option" where
  "from_utf8 bs = (if utf8_valid bs then Some (map (\<lambda>b. char_of (unat b)) bs) else None)"

definition as_bytes :: "string \<Rightarrow> u8 list" where
  "as_bytes s = map (\<lambda>c. word_of_nat (of_char c)) s"

type_synonym headers = "(string \<times> u8 list option) list"

definition standard_headers :: "string \<Rightarrow> string \<Rightarrow> headers" where
  "standard_headers trace schema =
     [(''trace_id'', Some (as_bytes trace)), (''schema'', Some (as_bytes schema)),
      (''content-type'', Some (as_bytes ''application/json''))]"

definition extract_header :: "string \<Rightarrow> headers option \<Rightarrow> string option" where
  "extract_header key hs =
     Option.bind hs (\<lambda>hs. Option.bind (find (\<lambda>(k, _). k = key) hs) (\<lambda>(_, v). Option.bind v from_utf8))"

definition extract_trace_id :: "headers option \<Rightarrow> string option" where
  "extract_trace_id hs = extract_header ''trace_id'' hs"

definition extract_schema :: "headers option \<Rightarrow> string option" where
  "extract_schema hs = extract_header ''schema'' hs"

subsection \<open>Quarantine (quarantine.rs)\<close>

record quarantine_message =
  qm_venue :: string
  qm_reason :: string
  qm_raw_size :: u64
  qm_raw_hash :: string
  qm_ts :: string

datatype 'k quarantine_error =
    QePublish "'k producer_error"
  | QeConsume string
  | QeStorage string
  | QeSerialization string

text \<open>What a publication takes from its surroundings: the hash, the texts of the clock
  (\<^verbatim>\<open>chrono_now\<close> and the envelope's), a fresh trace id, and the monotonic clock in nanoseconds.\<close>

record quarantine_env =
  qv_sha :: "u8 list \<Rightarrow> u8 list"
  qv_chrono :: string
  qv_now :: string
  qv_trace :: string
  qv_instant :: int

definition quarantine_envelope :: "quarantine_env \<Rightarrow> string \<Rightarrow> string \<Rightarrow> u8 list \<Rightarrow> quarantine_message" where
  "quarantine_envelope V venue reason raw =
     \<lparr>qm_venue = venue, qm_reason = reason, qm_raw_size = word_of_nat (length raw),
       qm_raw_hash = encode_hex (qv_sha V raw), qm_ts = qv_chrono V\<rparr>"

definition quarantine_topic_for :: "string \<Rightarrow> string" where
  "quarantine_topic_for venue = ''quarantine.'' @ venue"

text \<open>The process-wide counters, and the snapshot of the storm check.\<close>

record quarantine_counters =
  qc_count :: u64
  qc_storms :: u64
  qc_last_check :: "(int \<times> u64) option"

definition storm_threshold_per_minute :: u64 where
  "storm_threshold_per_minute = 100"

text \<open>The rate is computed in \<^verbatim>\<open>f64\<close>, here in rationals: its rounding, of one part in \<open>2 ^ 52\<close>, is left out.\<close>

definition is_storm :: "int \<Rightarrow> u64 \<Rightarrow> quarantine_counters \<Rightarrow> bool \<times> quarantine_counters" where
  "is_storm now threshold c =
     (let c' = c\<lparr>qc_last_check := Some (now, qc_count c)\<rparr>
      in case qc_last_check c of
           None \<Rightarrow> (False, c')
         | Some (prev_time, prev_count) \<Rightarrow>
             let elapsed = max (rat_of_int (now - prev_time) / 1000000000) (1 / 1000);
                 fresh = of_nat (unat (qc_count c) - unat prev_count);
                 rate = fresh / elapsed * 60
             in (of_nat (unat threshold) \<le> rate, c'))"

definition storm_check :: "int \<Rightarrow> quarantine_counters \<Rightarrow> quarantine_counters" where
  "storm_check now c =
     (let c1 = c\<lparr>qc_count := qc_count c + 1\<rparr>;
          (storm, c2) = is_storm now storm_threshold_per_minute c1
      in if storm then c2\<lparr>qc_storms := qc_storms c2 + 1\<rparr> else c2)"

text \<open>An object store takes a key, the bytes and the content type; a producer is as in \<open>Bus_Retry\<close>.\<close>

type_synonym ('k, 'o) object_store = "string \<Rightarrow> u8 list \<Rightarrow> string \<Rightarrow> 'o \<Rightarrow> ('k quarantine_error + string) \<times> 'o"

record ('p, 'o) quarantine_state =
  qs_counters :: quarantine_counters
  qs_objects :: 'o
  qs_producer :: 'p

definition raw_key :: "string \<Rightarrow> string \<Rightarrow> string" where
  "raw_key venue hash = ''quarantine/'' @ venue @ ''/'' @ hash"

definition quarantine_publish ::
  "('k, quarantine_message envelope, 'p) producer \<Rightarrow> ('k, 'o) object_store \<Rightarrow> quarantine_env \<Rightarrow> string \<Rightarrow> string \<Rightarrow> u8 list
     \<Rightarrow> ('p, 'o) quarantine_state \<Rightarrow> ('k quarantine_error + string) \<times> ('p, 'o) quarantine_state" where
  "quarantine_publish send store V venue reason raw s =
     (let s1 = s\<lparr>qs_counters := storm_check (qv_instant V) (qs_counters s)\<rparr>;
          hash = encode_hex (qv_sha V raw)
      in case store (raw_key venue hash) raw ''application/octet-stream'' (qs_objects s1) of
           (Inl e, objects) \<Rightarrow> (Inl e, s1\<lparr>qs_objects := objects\<rparr>)
         | (Inr _, objects) \<Rightarrow>
             let s2 = s1\<lparr>qs_objects := objects\<rparr>;
                 msg = quarantine_envelope V venue reason raw
             in (case send (quarantine_topic_for venue) (envelope_new (qv_trace V) (qv_now V) ''quarantine'' msg) None (qs_producer s2) of
                   (Inl e, p) \<Rightarrow> (Inl (QePublish e), s2\<lparr>qs_producer := p\<rparr>)
                 | (Inr _, p) \<Rightarrow> (Inr hash, s2\<lparr>qs_producer := p\<rparr>)))"

text \<open>The in-memory store of the tests.\<close>

definition stub_store :: "('k, (string, u8 list) hash_map) object_store" where
  "stub_store key bytes content_type objects = (Inr (''stub/'' @ key), hm_put key bytes objects)"

text \<open>The consumer side stores the metadata of each message beside its raw bytes; \<open>to_json\<close> is the codec.\<close>

definition meta_key :: "quarantine_message envelope \<Rightarrow> string" where
  "meta_key e = ''quarantine/'' @ qm_venue (ev_payload e) @ ''/'' @ qm_raw_hash (ev_payload e) @ ''.meta.json''"

fun store_metadata ::
  "(quarantine_message envelope \<Rightarrow> string + u8 list) \<Rightarrow> ('k, 'o) object_store \<Rightarrow> quarantine_message envelope list \<Rightarrow> 'o
     \<Rightarrow> ('k quarantine_error + unit) \<times> 'o" where
  "store_metadata to_json store [] objects = (Inr (), objects)"
| "store_metadata to_json store (e # es) objects =
     (case to_json e of
        Inl err \<Rightarrow> (Inl (QeSerialization err), objects)
      | Inr bytes \<Rightarrow>
          (case store (meta_key e) bytes ''application/json'' objects of
             (Inl err, objects') \<Rightarrow> (Inl err, objects')
           | (Inr _, objects') \<Rightarrow> store_metadata to_json store es objects'))"

subsection \<open>The consumer (consumer.rs)\<close>

datatype 'k consumer_error =
    CeReceive string
  | CeCommit string
  | CeQuarantine "'k quarantine_error"

record kafka_message =
  km_topic :: string
  km_partition :: int
  km_offset :: int
  km_payload :: "u8 list option"
  km_headers :: "headers option"

text \<open>One poll of at most half a second: nothing, a client error, or a message.\<close>

datatype poll = PollTimeout | PollError string | PollMessage kafka_message

text \<open>The client: storing an offset, and committing the stored offsets.\<close>

record 'c kafka_client =
  kc_store_offset :: "string \<Rightarrow> int \<Rightarrow> int \<Rightarrow> 'c \<Rightarrow> (string + unit) \<times> 'c"
  kc_commit :: "'c \<Rightarrow> (string + unit) \<times> 'c"

record ('p, 'o, 'c) kafka_consumer =
  kq_quarantine :: "('p, 'o) quarantine_state"
  kq_client :: 'c
  kq_pending_offsets :: "(string \<times> int \<times> int) list"

text \<open>The segment after the last dot.\<close>

definition extract_venue :: "string \<Rightarrow> string" where
  "extract_venue topic = (case rcut_once (CHR ''.'') topic of Some (_, venue) \<Rightarrow> venue | None \<Rightarrow> topic)"

definition handle_deserialize_failure ::
  "('k, quarantine_message envelope, 'p) producer \<Rightarrow> ('k, 'o) object_store \<Rightarrow> quarantine_env \<Rightarrow> u8 list \<Rightarrow> string
     \<Rightarrow> ('p, 'o) quarantine_state \<Rightarrow> ('k quarantine_error + string) \<times> ('p, 'o) quarantine_state" where
  "handle_deserialize_failure send store V raw topic =
     quarantine_publish send store V (extract_venue topic) (''malformed message on '' @ topic) raw"

text \<open>\<open>decode\<close> is the JSON codec; the headers override what the payload says of itself.\<close>

definition deserialize_envelope ::
  "(u8 list \<Rightarrow> string + 'a envelope) \<Rightarrow> kafka_message \<Rightarrow> string + 'a envelope" where
  "deserialize_envelope decode m =
     map_ok (\<lambda>e. let e1 = (case extract_trace_id (km_headers m) of Some t \<Rightarrow> e\<lparr>ev_trace_id := t\<rparr> | None \<Rightarrow> e)
                 in case extract_schema (km_headers m) of Some s \<Rightarrow> e1\<lparr>ev_schema := s\<rparr> | None \<Rightarrow> e1)
       (decode (case km_payload m of Some bs \<Rightarrow> bs | None \<Rightarrow> []))"

text \<open>A malformed message: quarantine it, then store and commit its offset.\<close>

definition quarantine_message_step ::
  "('k, quarantine_message envelope, 'p) producer \<Rightarrow> ('k, 'o) object_store \<Rightarrow> 'c kafka_client \<Rightarrow> quarantine_env \<Rightarrow> kafka_message
     \<Rightarrow> ('p, 'o, 'c) kafka_consumer \<Rightarrow> ('k consumer_error + unit) \<times> ('p, 'o, 'c) kafka_consumer" where
  "quarantine_message_step send store K V m c =
     (case handle_deserialize_failure send store V (case km_payload m of Some bs \<Rightarrow> bs | None \<Rightarrow> []) (km_topic m) (kq_quarantine c) of
        (Inl e, q) \<Rightarrow> (Inl (CeQuarantine e), c\<lparr>kq_quarantine := q\<rparr>)
      | (Inr _, q) \<Rightarrow>
          let c1 = c\<lparr>kq_quarantine := q\<rparr>
          in (case kc_store_offset K (km_topic m) (km_partition m) (km_offset m + 1) (kq_client c1) of
                (Inl e, k) \<Rightarrow> (Inl (CeReceive (''store offset after quarantine: '' @ e)), c1\<lparr>kq_client := k\<rparr>)
              | (Inr _, k) \<Rightarrow>
                  (case kc_commit K k of
                     (Inl e, k') \<Rightarrow> (Inl (CeCommit (''commit after quarantine: '' @ e)), c1\<lparr>kq_client := k'\<rparr>)
                   | (Inr _, k') \<Rightarrow> (Inr (), c1\<lparr>kq_client := k'\<rparr>))))"

text \<open>The loop runs until a message was read or ten seconds are over: \<open>polls\<close> is what it receives in
  that time, and \<open>V\<close> numbers the surroundings of the quarantined messages.\<close>

fun consume ::
  "('k, quarantine_message envelope, 'p) producer \<Rightarrow> ('k, 'o) object_store \<Rightarrow> 'c kafka_client \<Rightarrow> (nat \<Rightarrow> quarantine_env)
     \<Rightarrow> (u8 list \<Rightarrow> string + 'a envelope) \<Rightarrow> poll list \<Rightarrow> ('p, 'o, 'c) kafka_consumer
     \<Rightarrow> ('k consumer_error + 'a envelope list) \<times> ('p, 'o, 'c) kafka_consumer" where
  "consume send store K V decode [] c = (Inr [], c)"
| "consume send store K V decode (PollTimeout # ps) c = consume send store K V decode ps c"
| "consume send store K V decode (PollError e # ps) c = consume send store K V decode ps c"
| "consume send store K V decode (PollMessage m # ps) c =
     (case deserialize_envelope decode m of
        Inr e \<Rightarrow> (Inr [e], c\<lparr>kq_pending_offsets := kq_pending_offsets c @ [(km_topic m, km_partition m, km_offset m + 1)]\<rparr>)
      | Inl _ \<Rightarrow>
          (case quarantine_message_step send store K (V (length ps)) m c of
             (Inl e, c') \<Rightarrow> (Inl e, c')
           | (Inr _, c') \<Rightarrow> consume send store K V decode ps c'))"

text \<open>All pending offsets are stored, in the order in which the messages were read.\<close>

fun store_offsets :: "'c kafka_client \<Rightarrow> (string \<times> int \<times> int) list \<Rightarrow> 'c \<Rightarrow> ('k consumer_error + unit) \<times> 'c" where
  "store_offsets K [] k = (Inr (), k)"
| "store_offsets K ((t, p, o1) # rest) k =
     (case kc_store_offset K t p o1 k of
        (Inl e, k') \<Rightarrow> (Inl (CeReceive (''ack store_offsets: '' @ e)), k')
      | (Inr _, k') \<Rightarrow> store_offsets K rest k')"

definition consumer_ack ::
  "'c kafka_client \<Rightarrow> ('p, 'o, 'c) kafka_consumer \<Rightarrow> ('k consumer_error + unit) \<times> ('p, 'o, 'c) kafka_consumer" where
  "consumer_ack K c =
     (case store_offsets K (kq_pending_offsets c) (kq_client c) of
        (Inl e, k) \<Rightarrow> (Inl e, c\<lparr>kq_client := k\<rparr>)
      | (Inr _, k) \<Rightarrow> (Inr (), c\<lparr>kq_client := k, kq_pending_offsets := []\<rparr>))"

definition commit_sync ::
  "'c kafka_client \<Rightarrow> ('p, 'o, 'c) kafka_consumer \<Rightarrow> ('k consumer_error + unit) \<times> ('p, 'o, 'c) kafka_consumer" where
  "commit_sync K c =
     (case kc_commit K (kq_client c) of
        (r, k) \<Rightarrow> (map_err CeCommit r, c\<lparr>kq_client := k\<rparr>))"

text \<open>\<open>process\<close> is the handler of the client of the library.\<close>

fun process_all ::
  "'c kafka_client \<Rightarrow> ('a envelope \<Rightarrow> 'k consumer_error + unit) \<Rightarrow> 'a envelope list \<Rightarrow> ('p, 'o, 'c) kafka_consumer
     \<Rightarrow> ('k consumer_error + unit) \<times> ('p, 'o, 'c) kafka_consumer" where
  "process_all K process [] c = (Inr (), c)"
| "process_all K process (e # es) c =
     (case process e of
        Inl err \<Rightarrow> (Inl err, c)
      | Inr _ \<Rightarrow> then_do (consumer_ack K) (\<lambda>_. then_do (commit_sync K) (\<lambda>_. process_all K process es)) c)"

definition process_and_commit ::
  "('k, quarantine_message envelope, 'p) producer \<Rightarrow> ('k, 'o) object_store \<Rightarrow> 'c kafka_client \<Rightarrow> (nat \<Rightarrow> quarantine_env)
     \<Rightarrow> (u8 list \<Rightarrow> string + 'a envelope) \<Rightarrow> ('a envelope \<Rightarrow> 'k consumer_error + unit) \<Rightarrow> poll list \<Rightarrow> ('p, 'o, 'c) kafka_consumer
     \<Rightarrow> ('k consumer_error + nat) \<times> ('p, 'o, 'c) kafka_consumer" where
  "process_and_commit send store K V decode process polls =
     then_do (consume send store K V decode polls) (\<lambda>es.
     then_do (process_all K process es) (\<lambda>_. Pair (Inr (length es))))"

subsection \<open>Malformed messages are preserved before they are acknowledged\<close>

lemma quarantine_publish_Inr:
  assumes "quarantine_publish send store V venue reason raw s = (Inr hash, s')"
  shows "hash = encode_hex (qv_sha V raw)
    \<and> (\<exists>path. store (raw_key venue hash) raw ''application/octet-stream'' (qs_objects s) = (Inr path, qs_objects s'))
    \<and> (\<exists>u. send (quarantine_topic_for venue) (envelope_new (qv_trace V) (qv_now V) ''quarantine'' (quarantine_envelope V venue reason raw))
          None (qs_producer s) = (Inr u, qs_producer s'))"
  using assms by (auto simp: quarantine_publish_def Let_def split: prod.splits sum.splits)

text \<open>
  Property C13. The consumer touches the offsets of a malformed message only after the object store
  has accepted its raw bytes, under the key made of the venue and their hash, and the producer has
  accepted the metadata with the same hash for the venue's quarantine topic.
\<close>

theorem malformed_acknowledged_after_preserving:
  assumes "quarantine_message_step send store K V m c = (r, c')" "kq_client c' \<noteq> kq_client c"
  defines "raw \<equiv> (case km_payload m of Some bs \<Rightarrow> bs | None \<Rightarrow> [])" and "venue \<equiv> extract_venue (km_topic m)"
  shows "\<exists>path u msg. store (raw_key venue (encode_hex (qv_sha V raw))) raw ''application/octet-stream'' (qs_objects (kq_quarantine c))
        = (Inr path, qs_objects (kq_quarantine c'))
    \<and> send (''quarantine.'' @ venue) msg None (qs_producer (kq_quarantine c)) = (Inr u, qs_producer (kq_quarantine c'))
    \<and> qm_venue (ev_payload msg) = venue \<and> qm_raw_hash (ev_payload msg) = encode_hex (qv_sha V raw)"
proof -
  obtain r0 q where q: "handle_deserialize_failure send store V raw (km_topic m) (kq_quarantine c) = (r0, q)" by force
  show ?thesis
  proof (cases r0)
    case (Inl e)
    with assms(1,2) q show ?thesis by (auto simp: quarantine_message_step_def raw_def)
  next
    case (Inr hash)
    with assms(1) q have "kq_quarantine c' = q"
      by (auto simp: quarantine_message_step_def raw_def Let_def split: prod.splits sum.splits)
    with quarantine_publish_Inr [of send store V venue "''malformed message on '' @ km_topic m" raw "kq_quarantine c" hash q] q Inr
    show ?thesis
      by (fastforce simp: handle_deserialize_failure_def venue_def quarantine_topic_for_def quarantine_envelope_def envelope_new_def)
  qed
qed

subsection \<open>What an acknowledgement acknowledges\<close>

text \<open>The documented behaviour of the client: a stored offset replaces the one stored before for its
  partition, and a commit makes the stored offsets the group's.\<close>

locale kafka_group =
  fixes K :: "'c kafka_client" and stored :: "'c \<Rightarrow> string \<times> int \<Rightarrow> int option" and committed :: "'c \<Rightarrow> string \<times> int \<Rightarrow> int option"
  assumes store_ok: "kc_store_offset K t p n k = (Inr u, k') \<Longrightarrow> stored k' = (stored k)((t, p) \<mapsto> n) \<and> committed k' = committed k"
    and commit_ok: "kc_commit K k = (Inr u, k') \<Longrightarrow> stored k' = stored k \<and> committed k' = committed k ++ stored k"
begin

lemma store_offsets_ok:
  "store_offsets K os k = (Inr u, k') \<Longrightarrow> stored k' = fold (\<lambda>(t, p, n) m. m((t, p) \<mapsto> n)) os (stored k)"
proof (induction os arbitrary: k)
  case (Cons q os)
  obtain t p n where "q = (t, p, n)" by (cases q)
  with Cons store_ok show ?case by (fastforce split: prod.splits sum.splits)
qed simp

text \<open>After a message was processed, acknowledged and committed, the group is past every pending offset.\<close>

lemma acked_commit:
  fixes process :: "'a envelope \<Rightarrow> 'k consumer_error + unit"
  assumes "process_all K process [e] c = (Inr u, c')"
  shows "\<exists>k. committed (kq_client c') = k ++ fold (\<lambda>(t, p, n) m. m((t, p) \<mapsto> n)) (kq_pending_offsets c) (stored (kq_client c))
    \<and> kq_pending_offsets c' = []"
proof -
  from assms obtain c1 where a: "consumer_ack K c = (Inr () :: 'k consumer_error + unit, c1)"
    and rest: "commit_sync K c1 = (Inr () :: 'k consumer_error + unit, c')"
    by (auto simp: then_do_Inr_iff split: sum.splits)
  from a obtain w where s: "store_offsets K (kq_pending_offsets c) (kq_client c) = (Inr w :: 'k consumer_error + unit, kq_client c1)" "kq_pending_offsets c1 = []"
    by (auto simp: consumer_ack_def split: prod.splits sum.splits)
  from rest obtain x where "kc_commit K (kq_client c1) = (Inr x, kq_client c')" "kq_pending_offsets c' = kq_pending_offsets c1"
    by (auto simp: commit_sync_def map_err_Inr_iff split: prod.splits)
  with commit_ok store_offsets_ok [OF s(1)] s(2) show ?thesis by auto
qed

end

text \<open>The client as two maps.\<close>

record group_offsets =
  go_stored :: "string \<times> int \<Rightarrow> int option"
  go_committed :: "string \<times> int \<Rightarrow> int option"

definition group_client :: "group_offsets kafka_client" where
  "group_client = \<lparr>kc_store_offset = (\<lambda>t p n k. (Inr (), k\<lparr>go_stored := (go_stored k)((t, p) \<mapsto> n)\<rparr>)),
     kc_commit = (\<lambda>k. (Inr (), k\<lparr>go_committed := go_committed k ++ go_stored k\<rparr>))\<rparr>"

interpretation group_client: kafka_group group_client go_stored go_committed
  by unfold_locales (auto simp: group_client_def)

lemma consume_valid:
  assumes "deserialize_envelope decode m = Inr e"
  shows "process_and_commit send store K V decode process (PollMessage m # ps) c
    = then_do (process_all K process [e]) (\<lambda>_. Pair (Inr 1))
        (c\<lparr>kq_pending_offsets := kq_pending_offsets c @ [(km_topic m, km_partition m, km_offset m + 1)]\<rparr>)"
  by (simp add: process_and_commit_def then_do_def assms)

text \<open>
  A message whose processing failed is acknowledged by the next success: its offset stays
  among the pending ones, so when the handler then succeeds on a later message, of any partition, the
  group's committed offset is past the message that was never processed.
\<close>

theorem failed_message_is_acknowledged:
  assumes "kafka_group K stored committed"
    and "deserialize_envelope decode m = Inr e" "process e = Inl err"
    and "process_and_commit send store K V decode process (PollMessage m # ps) c = (r1, c1)"
    and "deserialize_envelope decode m' = Inr e'"
    and "process_and_commit send store K V decode process (PollMessage m' # ps') c1 = (Inr n, c2)"
    and "(km_topic m', km_partition m') = (km_topic m, km_partition m) \<longrightarrow> km_offset m < km_offset m'"
  shows "r1 = Inl err \<and> (\<exists>k. committed (kq_client c2) (km_topic m, km_partition m) = Some k \<and> km_offset m < k)"
proof -
  have c1: "r1 = Inl err" "c1 = c\<lparr>kq_pending_offsets := kq_pending_offsets c @ [(km_topic m, km_partition m, km_offset m + 1)]\<rparr>"
    using assms(4) by (simp_all add: consume_valid [OF assms(2)] then_do_def assms(3))
  from assms(6) obtain u where "process_all K process [e'] (c1\<lparr>kq_pending_offsets
      := kq_pending_offsets c1 @ [(km_topic m', km_partition m', km_offset m' + 1)]\<rparr>) = (Inr u, c2)"
    by (auto simp: consume_valid [OF assms(5)] then_do_Inr_iff simp del: process_all.simps)
  from kafka_group.acked_commit [OF assms(1) this] c1 assms(7) show ?thesis by auto
qed

definition wit_message :: "int \<Rightarrow> kafka_message" where
  "wit_message n = \<lparr>km_topic = ''md.ticks.kalshi'', km_partition = 0, km_offset = n, km_payload = Some [of_int n], km_headers = None\<rparr>"

definition wit_decode :: "u8 list \<Rightarrow> string + u8 list envelope" where
  "wit_decode bs = Inr (envelope_new ''t'' ''n'' ''Quote'' bs)"

definition wit_process :: "u8 list envelope \<Rightarrow> unit consumer_error + unit" where
  "wit_process e = (if ev_payload e = [7] then Inl (CeReceive ''down'') else Inr ())"

definition wit_consumer :: "(unit, unit, group_offsets) kafka_consumer" where
  "wit_consumer = \<lparr>kq_quarantine = \<lparr>qs_counters = \<lparr>qc_count = 0, qc_storms = 0, qc_last_check = None\<rparr>, qs_objects = (), qs_producer = ()\<rparr>,
     kq_client = \<lparr>go_stored = Map.empty, go_committed = Map.empty\<rparr>, kq_pending_offsets = []\<rparr>"

definition wit_bus_send :: "(unit, quarantine_message envelope, unit) producer" where
  "wit_bus_send topic m key s = (Inr (), s)"

definition wit_bus_store :: "(unit, unit) object_store" where
  "wit_bus_store key bytes ct s = (Inr key, s)"

lemma group_client_stores: "\<exists>k'. store_offsets group_client os k = (Inr (), k')"
proof (induction os arbitrary: k)
  case (Cons q os)
  then show ?case by (cases q) (simp add: group_client_def)
qed simp

theorem failed_message_is_acknowledged_witness:
  "\<exists>c1 n c2. process_and_commit wit_bus_send wit_bus_store group_client (\<lambda>_. undefined) wit_decode wit_process [PollMessage (wit_message 7)] wit_consumer
       = (Inl (CeReceive ''down''), c1)
     \<and> process_and_commit wit_bus_send wit_bus_store group_client (\<lambda>_. undefined) wit_decode wit_process [PollMessage (wit_message 8)] c1 = (Inr n, c2)
     \<and> (\<exists>k > 7. go_committed (kq_client c2) (''md.ticks.kalshi'', 0) = Some k)"
proof -
  let ?run = "\<lambda>n. process_and_commit wit_bus_send wit_bus_store group_client (\<lambda>_. undefined) wit_decode wit_process [PollMessage (wit_message n)]"
  have d: "deserialize_envelope wit_decode (wit_message 7) = Inr (envelope_new ''t'' ''n'' ''Quote'' [7])"
      "deserialize_envelope wit_decode (wit_message 8) = Inr (envelope_new ''t'' ''n'' ''Quote'' [8])"
    by (simp_all add: deserialize_envelope_def wit_decode_def wit_message_def extract_trace_id_def extract_schema_def extract_header_def)
  have f: "wit_process (envelope_new ''t'' ''n'' ''Quote'' [7]) = Inl (CeReceive ''down'')"
    and ok: "wit_process (envelope_new ''t'' ''n'' ''Quote'' [8]) = Inr ()"
    by (simp_all add: wit_process_def envelope_new_def)
  obtain r1 c1 where 1: "?run 7 wit_consumer = (r1, c1)" by force
  let ?pending = "kq_pending_offsets c1 @ [(km_topic (wit_message 8), km_partition (wit_message 8), km_offset (wit_message 8) + 1)]"
  obtain k where k: "store_offsets group_client ?pending (kq_client c1) = (Inr () :: unit consumer_error + unit, k)"
    using group_client_stores by blast
  have "\<exists>n c2. ?run 8 c1 = (Inr n, c2)"
    unfolding consume_valid [OF d(2)] by (simp add: ok then_do_def consumer_ack_def k commit_sync_def) (simp add: group_client_def)
  then obtain n c2 where 2: "?run 8 c1 = (Inr n, c2)" by blast
  from failed_message_is_acknowledged [OF group_client.kafka_group_axioms d(1) f 1 d(2) 2] 1 2
  show ?thesis by (auto simp: wit_message_def)
qed

definition wit_log_send :: "(unit, quarantine_message envelope, quarantine_message envelope list) producer" where
  "wit_log_send topic m key s = (Inr (), s @ [m])"

definition wit_env :: quarantine_env where
  "wit_env = \<lparr>qv_sha = (\<lambda>_. [1, 2]), qv_chrono = ''0.000'', qv_now = ''n'', qv_trace = ''t'', qv_instant = 0\<rparr>"

definition wit_malformed_consumer :: "(quarantine_message envelope list, (string, u8 list) hash_map, group_offsets) kafka_consumer" where
  "wit_malformed_consumer = \<lparr>kq_quarantine = \<lparr>qs_counters = \<lparr>qc_count = 0, qc_storms = 0, qc_last_check = None\<rparr>, qs_objects = [],
       qs_producer = []\<rparr>,
     kq_client = \<lparr>go_stored = Map.empty, go_committed = Map.empty\<rparr>, kq_pending_offsets = []\<rparr>"

theorem malformed_acknowledged_after_preserving_witness:
  "\<exists>msg. qs_objects (kq_quarantine (snd (quarantine_message_step wit_log_send stub_store group_client wit_env (wit_message 7) wit_malformed_consumer)))
        = [(''quarantine/kalshi/0102'', [7])]
    \<and> qs_producer (kq_quarantine (snd (quarantine_message_step wit_log_send stub_store group_client wit_env (wit_message 7) wit_malformed_consumer))) = [msg]
    \<and> qm_raw_hash (ev_payload msg) = ''0102''"
proof -
  obtain r c' where run: "quarantine_message_step wit_log_send stub_store group_client wit_env (wit_message 7) wit_malformed_consumer = (r, c')"
    by force
  then have "go_committed (kq_client c') (''md.ticks.kalshi'', 0) = Some 8"
    by (auto simp: quarantine_message_step_def handle_deserialize_failure_def quarantine_publish_def Let_def stub_store_def
      wit_log_send_def group_client_def wit_message_def wit_malformed_consumer_def)
  then have moved: "kq_client c' \<noteq> kq_client wit_malformed_consumer" by (auto simp: wit_malformed_consumer_def)
  have venue: "extract_venue ''md.ticks.kalshi'' = ''kalshi''"
    by (simp add: extract_venue_def rcut_once_def cut_once_def)
  have hash: "encode_hex (qv_sha wit_env raw) = ''0102''" for raw
    by (simp add: wit_env_def encode_hex_def hex_digit_def)
  from malformed_acknowledged_after_preserving [OF run moved] obtain msg where
    m: "[(''quarantine/kalshi/0102'', [7])] = qs_objects (kq_quarantine c')" "[msg] = qs_producer (kq_quarantine c')"
    "qm_raw_hash (ev_payload msg) = ''0102''"
    by (auto simp: venue hash stub_store_def wit_log_send_def wit_malformed_consumer_def wit_message_def raw_key_def)
  show ?thesis by (rule exI [of _ msg]) (simp add: run m(1,2) [symmetric] m(3))
qed

end
