(* ===== verification/Scanner_Lifecycle.thy ===== *)
theory Scanner_Lifecycle
  imports Scanner Bus_Messages
begin

text \<open>
  The durable life of an opportunity: the scanner's store (\<^verbatim>\<open>lifecycle.rs\<close>) over the tables and the
  trigger of migration 0037, the publication of a cycle (\<^verbatim>\<open>scan.rs\<close>) and the incremental runtime
  (\<^verbatim>\<open>runtime.rs\<close>). A transaction is a function on the tables that commits its result or leaves them
  alone; a violated constraint is an error, and a lost connection has the effect of a transaction that
  was not run. Other services write event and attribution rows through the same trigger. The lemmas
  show that the tables keep one open chain per key and that states move along the allowed
  transitions only.
\<close>

subsection \<open>Tables (lifecycle.rs and migrations)\<close>

datatype opportunity_state =
  Detected | Scored | Surfaced | Accepted | Ignored | OppExpired | Executed | OppClosed

record opportunity_row =
  ow_id :: ulid
  ow_kind :: string
  ow_legs :: "opportunity_leg list"
  ow_gross_edge :: decimal
  ow_edge :: edge_decomposition
  ow_confidence :: decimal
  ow_detected_ts :: utc_time
  ow_expires_ts :: "utc_time option"
  ow_explain_ref :: brain_ref
  ow_trace_id :: ulid
  ow_state :: opportunity_state
  ow_dedupe_key :: "string option"

record opportunity_event =
  oe_id :: ulid
  oe_opportunity :: ulid
  oe_from :: opportunity_state
  oe_to :: opportunity_state
  oe_actor :: string
  oe_detail :: json

record attribution_row =
  aw_id :: ulid
  aw_opportunity :: ulid
  aw_predicted_net_edge :: decimal
  aw_realized_pnl :: "decimal option"
  aw_outcome :: "string option"
  aw_closed_ts :: "utc_time option"
  aw_reason_ignored :: "string option"
  aw_detail :: json

record outbox_row =
  xw_event_id :: ulid
  xw_opportunity :: ulid
  xw_payload :: opportunity
  xw_created_ts :: utc_time
  xw_published_ts :: "utc_time option"

record lifecycle_db =
  ld_opportunities :: "opportunity_row list"
  ld_events :: "opportunity_event list"
  ld_attribution :: "attribution_row list"
  ld_outbox :: "outbox_row list"

datatype 'k lifecycle_error =
    LeDatabase string
  | LeSerialization string
  | LeMissingExpiry
  | LeMissingOpenChain
  | LePublish "'k producer_error"

datatype persist_disposition = Created ulid | Updated ulid | Existing ulid

primrec disposition_id :: "persist_disposition \<Rightarrow> ulid" where
  "disposition_id (Created i) = i"
| "disposition_id (Updated i) = i"
| "disposition_id (Existing i) = i"

definition should_publish :: "persist_disposition \<Rightarrow> bool" where
  "should_publish d \<longleftrightarrow> (case d of Created _ \<Rightarrow> True | _ \<Rightarrow> False)"

text \<open>\<^verbatim>\<open>aether_opportunity_transition_allowed\<close>.\<close>

fun transition_allowed :: "opportunity_state \<Rightarrow> opportunity_state \<Rightarrow> bool" where
  "transition_allowed Detected to \<longleftrightarrow> to \<in> {Scored, OppExpired}"
| "transition_allowed Scored to \<longleftrightarrow> to \<in> {Surfaced, OppExpired}"
| "transition_allowed Surfaced to \<longleftrightarrow> to \<in> {Accepted, Ignored, OppExpired}"
| "transition_allowed Accepted to \<longleftrightarrow> to = Executed"
| "transition_allowed Ignored to \<longleftrightarrow> to = OppClosed"
| "transition_allowed OppExpired to \<longleftrightarrow> to = OppClosed"
| "transition_allowed Executed to \<longleftrightarrow> to = OppClosed"
| "transition_allowed OppClosed to \<longleftrightarrow> False"

definition find_row :: "ulid \<Rightarrow> lifecycle_db \<Rightarrow> opportunity_row option" where
  "find_row i db = find (\<lambda>r. ow_id r = i) (ld_opportunities db)"

definition update_row :: "ulid \<Rightarrow> (opportunity_row \<Rightarrow> opportunity_row) \<Rightarrow> lifecycle_db \<Rightarrow> lifecycle_db" where
  "update_row i f db = db\<lparr>ld_opportunities := map (\<lambda>r. if ow_id r = i then f r else r) (ld_opportunities db)\<rparr>"

text \<open>An inserted event row applies its transition (\<^verbatim>\<open>aether_apply_opportunity_event\<close>).\<close>

definition append_transition ::
  "ulid \<Rightarrow> ulid \<Rightarrow> opportunity_state \<Rightarrow> opportunity_state \<Rightarrow> string \<Rightarrow> json \<Rightarrow> lifecycle_db \<Rightarrow> 'k lifecycle_error + lifecycle_db" where
  "append_transition eid i from to actor detail db =
     (case find_row i db of
        None \<Rightarrow> Inl (LeDatabase ''opportunity does not exist'')
      | Some r \<Rightarrow>
          if ow_state r \<noteq> from then Inl (LeDatabase ''stale opportunity transition'')
          else if \<not> transition_allowed from to then Inl (LeDatabase ''illegal opportunity transition'')
          else if to = OppClosed \<and> (\<forall>a \<in> set (ld_attribution db). aw_opportunity a \<noteq> i)
          then Inl (LeDatabase ''closed opportunity requires attribution'')
          else if \<exists>e \<in> set (ld_events db). oe_id e = eid then Inl (LeDatabase ''duplicate event id'')
          else Inr ((update_row i (\<lambda>r. r\<lparr>ow_state := to\<rparr>) db)\<lparr>ld_events := ld_events db @
                 [\<lparr>oe_id = eid, oe_opportunity = i, oe_from = from, oe_to = to, oe_actor = actor, oe_detail = detail\<rparr>]\<rparr>))"

subsection \<open>Persisting a scored opportunity (lifecycle.rs)\<close>

primrec kind_name :: "opportunity_kind \<Rightarrow> string" where
  "kind_name Arbitrage = ''arbitrage''"
| "kind_name ValueKind = ''value''"
| "kind_name Catalyst = ''catalyst''"
| "kind_name Hedge = ''hedge''"

definition dedupe_key :: "opportunity \<Rightarrow> string" where
  "dedupe_key opp = kind_name (op_kind opp) @ ''|'' @ join_with ''|'' (sort (map (\<lambda>l. key_str (ol_market l)) (op_legs opp)))"

definition open_chain_row :: "string \<Rightarrow> opportunity_row \<Rightarrow> bool" where
  "open_chain_row key r \<longleftrightarrow> ow_dedupe_key r = Some key \<and> ow_state r \<noteq> OppClosed"

definition row_of :: "opportunity \<Rightarrow> utc_time \<Rightarrow> opportunity_row" where
  "row_of opp expires =
     \<lparr>ow_id = op_id opp, ow_kind = kind_name (op_kind opp), ow_legs = op_legs opp, ow_gross_edge = op_gross_edge opp,
       ow_edge = op_edge opp, ow_confidence = confidence_value (op_confidence opp), ow_detected_ts = op_detected_ts opp,
       ow_expires_ts = Some expires, ow_explain_ref = op_explain_ref opp, ow_trace_id = op_trace_id opp,
       ow_state = Detected, ow_dedupe_key = Some (dedupe_key opp)\<rparr>"

definition refresh_row :: "opportunity \<Rightarrow> utc_time \<Rightarrow> opportunity_row \<Rightarrow> opportunity_row" where
  "refresh_row opp expires r =
     r\<lparr>ow_legs := op_legs opp, ow_gross_edge := op_gross_edge opp, ow_edge := op_edge opp,
       ow_confidence := confidence_value (op_confidence opp), ow_expires_ts := Some expires,
       ow_explain_ref := op_explain_ref opp, ow_trace_id := op_trace_id opp\<rparr>"

definition insert_outbox :: "ulid \<Rightarrow> utc_time \<Rightarrow> opportunity \<Rightarrow> lifecycle_db \<Rightarrow> 'k lifecycle_error + lifecycle_db" where
  "insert_outbox eid now opp db =
     (if \<exists>x \<in> set (ld_outbox db). xw_event_id x = eid \<or> xw_opportunity x = op_id opp
      then Inl (LeDatabase ''duplicate outbox row'')
      else Inr (db\<lparr>ld_outbox := ld_outbox db @
             [\<lparr>xw_event_id = eid, xw_opportunity = op_id opp, xw_payload = opp, xw_created_ts = now, xw_published_ts = None\<rparr>]\<rparr>))"

text \<open>\<open>ids\<close> are fresh ULIDs and \<open>now\<close> is the database's clock. The conflict on the open-chain index
  is looked at before the primary key.\<close>

definition persist_scored_tx ::
  "(nat \<Rightarrow> ulid) \<Rightarrow> utc_time \<Rightarrow> opportunity \<Rightarrow> utc_time \<Rightarrow> lifecycle_db
     \<Rightarrow> 'k lifecycle_error + persist_disposition \<times> lifecycle_db" where
  "persist_scored_tx ids now opp expires db =
     (let key = dedupe_key opp
      in case find (open_chain_row key) (ld_opportunities db) of
           None \<Rightarrow>
             if find_row (op_id opp) db \<noteq> None then Inl (LeDatabase ''duplicate opportunity id'')
             else
               and_then (append_transition (ids 0) (op_id opp) Detected Scored ''scanner'' (JObject [(''dedupe_key'', JString key)])
                   (db\<lparr>ld_opportunities := ld_opportunities db @ [row_of opp expires]\<rparr>)) (\<lambda>db1.
               and_then (insert_outbox (ids 1) now opp db1) (\<lambda>db2. Inr (Created (op_id opp), db2)))
         | Some r \<Rightarrow>
             if ow_state r = Detected \<or> ow_state r = Scored
             then
               let db1 = update_row (ow_id r) (refresh_row opp expires) db
               in and_then (if ow_state r = Detected
                            then append_transition (ids 0) (ow_id r) Detected Scored ''scanner'' (JObject [(''deduplicated'', JBool True)]) db1
                            else Inr db1) (\<lambda>db2. Inr (Updated (ow_id r), db2))
             else Inr (Existing (ow_id r), db))"

definition commit_tx :: "('s \<Rightarrow> 'e + 'a \<times> 's) \<Rightarrow> 's \<Rightarrow> ('e + 'a) \<times> 's" where
  "commit_tx tx db = (case tx db of Inl e \<Rightarrow> (Inl e, db) | Inr (a, db') \<Rightarrow> (Inr a, db'))"

definition persist_scored ::
  "(nat \<Rightarrow> ulid) \<Rightarrow> utc_time \<Rightarrow> opportunity \<Rightarrow> lifecycle_db \<Rightarrow> ('k lifecycle_error + persist_disposition) \<times> lifecycle_db" where
  "persist_scored ids now opp db =
     (case op_expires_ts opp of
        None \<Rightarrow> (Inl LeMissingExpiry, db)
      | Some expires \<Rightarrow> commit_tx (persist_scored_tx ids now opp expires) db)"

subsection \<open>Expiry (lifecycle.rs)\<close>

definition due_rows :: "utc_time \<Rightarrow> lifecycle_db \<Rightarrow> opportunity_row list" where
  "due_rows now db = sort_key ow_id (filter (\<lambda>r. (ow_state r = Detected \<or> ow_state r = Scored)
     \<and> (case ow_expires_ts r of Some t \<Rightarrow> t \<le> now | None \<Rightarrow> False)) (ld_opportunities db))"

definition insert_attribution :: "attribution_row \<Rightarrow> lifecycle_db \<Rightarrow> 'k lifecycle_error + lifecycle_db" where
  "insert_attribution a db =
     (if \<exists>b \<in> set (ld_attribution db). aw_opportunity b = aw_opportunity a then Inr db
      else if \<exists>b \<in> set (ld_attribution db). aw_id b = aw_id a then Inl (LeDatabase ''duplicate attribution id'')
      else Inr (db\<lparr>ld_attribution := ld_attribution db @ [a]\<rparr>))"

definition ttl_detail :: json where
  "ttl_detail = JObject [(''reason'', JString ''ttl_expired'')]"

definition expire_one :: "(nat \<Rightarrow> ulid) \<Rightarrow> utc_time \<Rightarrow> opportunity_row \<Rightarrow> lifecycle_db \<Rightarrow> 'k lifecycle_error + lifecycle_db" where
  "expire_one ids now r db =
     and_then (append_transition (ids 0) (ow_id r) (ow_state r) OppExpired ''scanner'' ttl_detail db) (\<lambda>db1.
     and_then (insert_attribution \<lparr>aw_id = ids 1, aw_opportunity = ow_id r, aw_predicted_net_edge = ed_net_edge (ow_edge r),
         aw_realized_pnl = Some 0, aw_outcome = Some ''expired_pre_surface'', aw_closed_ts = Some now,
         aw_reason_ignored = Some ''ttl_expired'',
         aw_detail = JObject [(''reason'', JString ''ttl_expired''), (''realized'', JString ''0'')]\<rparr> db1) (\<lambda>db2.
     append_transition (ids 2) (ow_id r) OppExpired OppClosed ''attribution'' ttl_detail db2))"

fun expire_rows ::
  "(nat \<Rightarrow> nat \<Rightarrow> ulid) \<Rightarrow> utc_time \<Rightarrow> opportunity_row list \<Rightarrow> lifecycle_db \<Rightarrow> 'k lifecycle_error + ulid list \<times> lifecycle_db" where
  "expire_rows ids now [] db = Inr ([], db)"
| "expire_rows ids now (r # rs) db =
     and_then (expire_one (ids (length rs)) now r db) (\<lambda>db1.
     map_ok (\<lambda>(expired, db2). (ow_id r # expired, db2)) (expire_rows ids now rs db1))"

definition expire_due ::
  "(nat \<Rightarrow> nat \<Rightarrow> ulid) \<Rightarrow> utc_time \<Rightarrow> lifecycle_db \<Rightarrow> ('k lifecycle_error + ulid list) \<times> lifecycle_db" where
  "expire_due ids now db = commit_tx (\<lambda>db. expire_rows ids now (due_rows now db) db) db"

definition open_count :: "lifecycle_db \<Rightarrow> nat" where
  "open_count db = length (filter (\<lambda>r. ow_state r \<noteq> OppClosed) (ld_opportunities db))"

subsection \<open>The outbox (lifecycle.rs)\<close>

text \<open>What the flush takes from its surroundings: the producer, the texts of ids and times, the text of
  a fresh trace id and of the clock that \<^verbatim>\<open>Envelope::new\<close> writes first, and the database's clock.\<close>

record ('k, 's) flush_env =
  fv_send :: "('k, opportunity envelope, 's) producer"
  fv_ulid :: "ulid \<Rightarrow> string"
  fv_time :: "utc_time \<Rightarrow> string"
  fv_trace :: string
  fv_text_now :: string
  fv_now :: utc_time

definition detection_envelope :: "('k, 's) flush_env \<Rightarrow> opportunity \<Rightarrow> opportunity envelope" where
  "detection_envelope F opp =
     (envelope_new (fv_trace F) (fv_text_now F) ''opportunity'' opp)
       \<lparr>ev_trace_id := fv_ulid F (op_trace_id opp), ev_ts := fv_time F (op_detected_ts opp)\<rparr>"

definition pending_outbox :: "int \<Rightarrow> lifecycle_db \<Rightarrow> outbox_row list" where
  "pending_outbox limit db =
     take (nat (max 1 (min 1000 limit)))
       (sort_key xw_created_ts (sort_key xw_event_id (filter (\<lambda>x. xw_published_ts x = None) (ld_outbox db))))"

definition mark_published :: "utc_time \<Rightarrow> ulid \<Rightarrow> lifecycle_db \<Rightarrow> nat \<times> lifecycle_db" where
  "mark_published now eid db =
     (length (filter (\<lambda>x. xw_event_id x = eid \<and> xw_published_ts x = None) (ld_outbox db)),
      db\<lparr>ld_outbox := map (\<lambda>x. if xw_event_id x = eid \<and> xw_published_ts x = None
           then x\<lparr>xw_published_ts := Some now\<rparr> else x) (ld_outbox db)\<rparr>)"

fun flush_rows ::
  "('k, 's) flush_env \<Rightarrow> outbox_row list \<Rightarrow> nat \<Rightarrow> lifecycle_db \<times> 's \<Rightarrow> ('k lifecycle_error + nat) \<times> lifecycle_db \<times> 's" where
  "flush_rows F [] published s = (Inr published, s)"
| "flush_rows F (x # xs) published (db, p) =
     (case fv_send F topic_opps_detected (detection_envelope F (xw_payload x)) (Some (fv_ulid F (xw_opportunity x))) p of
        (Inl e, p') \<Rightarrow> (Inl (LePublish e), db, p')
      | (Inr _, p') \<Rightarrow>
          let (changed, db') = mark_published (fv_now F) (xw_event_id x) db
          in flush_rows F xs (published + changed) (db', p'))"

definition flush_detection_outbox ::
  "('k, 's) flush_env \<Rightarrow> int \<Rightarrow> lifecycle_db \<times> 's \<Rightarrow> ('k lifecycle_error + nat) \<times> lifecycle_db \<times> 's" where
  "flush_detection_outbox F limit s = flush_rows F (pending_outbox limit (fst s)) 0 s"

subsection \<open>Publishing a cycle (scan.rs)\<close>

record durable_publish_report =
  dr_created :: nat
  dr_updated :: nat
  dr_existing :: nat
  dr_published :: nat

fun scan_publish ::
  "('k, 's) flush_env \<Rightarrow> opportunity list \<Rightarrow> 's \<Rightarrow> ('k producer_error + unit) \<times> 's" where
  "scan_publish F [] s = (Inr (), s)"
| "scan_publish F (opp # opps) s =
     then_do (fv_send F topic_opps_detected (detection_envelope F opp) (Some (fv_ulid F (op_id opp))))
       (\<lambda>_. scan_publish F opps) s"

definition count_disposition :: "persist_disposition \<Rightarrow> durable_publish_report \<Rightarrow> durable_publish_report" where
  "count_disposition d r =
     (case d of
        Created _ \<Rightarrow> r\<lparr>dr_created := dr_created r + 1\<rparr>
      | Updated _ \<Rightarrow> r\<lparr>dr_updated := dr_updated r + 1\<rparr>
      | Existing _ \<Rightarrow> r\<lparr>dr_existing := dr_existing r + 1\<rparr>)"

fun persist_all ::
  "(nat \<Rightarrow> nat \<Rightarrow> ulid) \<Rightarrow> utc_time \<Rightarrow> opportunity list \<Rightarrow> durable_publish_report \<Rightarrow> lifecycle_db
     \<Rightarrow> ('k lifecycle_error + durable_publish_report) \<times> lifecycle_db" where
  "persist_all ids now [] r db = (Inr r, db)"
| "persist_all ids now (opp # opps) r db =
     then_do (persist_scored (ids (length opps)) now opp) (\<lambda>d. persist_all ids now opps (count_disposition d r)) db"

definition persist_and_publish ::
  "('k, 's) flush_env \<Rightarrow> (nat \<Rightarrow> nat \<Rightarrow> ulid) \<Rightarrow> opportunity list \<Rightarrow> lifecycle_db \<times> 's
     \<Rightarrow> ('k lifecycle_error + durable_publish_report) \<times> lifecycle_db \<times> 's" where
  "persist_and_publish F ids opps s =
     (case persist_all ids (fv_now F) opps \<lparr>dr_created = 0, dr_updated = 0, dr_existing = 0, dr_published = 0\<rparr> (fst s) of
        (Inl e, db) \<Rightarrow> (Inl e, db, snd s)
      | (Inr r, db) \<Rightarrow>
          (case flush_detection_outbox F 1000 (db, snd s) of
             (Inl e, s') \<Rightarrow> (Inl e, s')
           | (Inr n, s') \<Rightarrow> (Inr (r\<lparr>dr_published := n\<rparr>), s')))"

subsection \<open>Runs of the store and of the other services\<close>

datatype lifecycle_step =
    LsPersist "nat \<Rightarrow> ulid" utc_time opportunity
  | LsExpire "nat \<Rightarrow> nat \<Rightarrow> ulid" utc_time
  | LsPublished utc_time ulid
  | LsEvent ulid ulid opportunity_state opportunity_state string json
  | LsAttribution attribution_row

text \<open>The last two are other services: an event row or an attribution row of any content.\<close>

definition keep_on_error :: "'s \<Rightarrow> unit lifecycle_error + 's \<Rightarrow> 's" where
  "keep_on_error db r = (case r of Inl _ \<Rightarrow> db | Inr db' \<Rightarrow> db')"

fun lifecycle_apply :: "lifecycle_step \<Rightarrow> lifecycle_db \<Rightarrow> lifecycle_db" where
  "lifecycle_apply (LsPersist ids now opp) db = snd (persist_scored ids now opp db :: (unit lifecycle_error + _) \<times> _)"
| "lifecycle_apply (LsExpire ids now) db = snd (expire_due ids now db :: (unit lifecycle_error + _) \<times> _)"
| "lifecycle_apply (LsPublished now eid) db = snd (mark_published now eid db)"
| "lifecycle_apply (LsEvent eid i from to actor detail) db = keep_on_error db (append_transition eid i from to actor detail db)"
| "lifecycle_apply (LsAttribution a) db = keep_on_error db (insert_attribution a db)"

definition lifecycle_empty :: lifecycle_db where
  "lifecycle_empty = \<lparr>ld_opportunities = [], ld_events = [], ld_attribution = [], ld_outbox = []\<rparr>"

text \<open>The state that a list of events leads to, if each starts where the one before ended and is allowed.\<close>

fun history :: "opportunity_state \<Rightarrow> opportunity_event list \<Rightarrow> opportunity_state option" where
  "history s [] = Some s"
| "history s (e # es) = (if oe_from e = s \<and> transition_allowed s (oe_to e) then history (oe_to e) es else None)"

definition events_of :: "lifecycle_db \<Rightarrow> ulid \<Rightarrow> opportunity_event list" where
  "events_of db i = filter (\<lambda>e. oe_opportunity e = i) (ld_events db)"

definition lifecycle_inv :: "lifecycle_db \<Rightarrow> bool" where
  "lifecycle_inv db \<longleftrightarrow> distinct (map ow_id (ld_opportunities db))
     \<and> (\<forall>r \<in> set (ld_opportunities db). \<forall>r' \<in> set (ld_opportunities db). ow_dedupe_key r \<noteq> None
          \<and> ow_dedupe_key r' = ow_dedupe_key r \<and> ow_state r \<noteq> OppClosed \<and> ow_state r' \<noteq> OppClosed \<longrightarrow> ow_id r' = ow_id r)
     \<and> (\<forall>r \<in> set (ld_opportunities db). ow_state r = OppClosed \<longrightarrow> (\<exists>a \<in> set (ld_attribution db). aw_opportunity a = ow_id r))
     \<and> (\<forall>r \<in> set (ld_opportunities db). history Detected (events_of db (ow_id r)) = Some (ow_state r))
     \<and> (\<forall>e \<in> set (ld_events db). oe_opportunity e \<in> ow_id ` set (ld_opportunities db))"

lemma lifecycle_invI:
  assumes "distinct (map ow_id (ld_opportunities db))"
    and "\<And>r r'. r \<in> set (ld_opportunities db) \<Longrightarrow> r' \<in> set (ld_opportunities db) \<Longrightarrow> ow_dedupe_key r \<noteq> None \<Longrightarrow>
      ow_dedupe_key r' = ow_dedupe_key r \<Longrightarrow> ow_state r \<noteq> OppClosed \<Longrightarrow> ow_state r' \<noteq> OppClosed \<Longrightarrow> ow_id r' = ow_id r"
    and "\<And>r. r \<in> set (ld_opportunities db) \<Longrightarrow> ow_state r = OppClosed \<Longrightarrow> \<exists>a \<in> set (ld_attribution db). aw_opportunity a = ow_id r"
    and "\<And>r. r \<in> set (ld_opportunities db) \<Longrightarrow> history Detected (events_of db (ow_id r)) = Some (ow_state r)"
    and "\<And>e. e \<in> set (ld_events db) \<Longrightarrow> oe_opportunity e \<in> ow_id ` set (ld_opportunities db)"
  shows "lifecycle_inv db"
  unfolding lifecycle_inv_def using assms by blast

lemma lifecycle_invD:
  assumes "lifecycle_inv db"
  shows "distinct (map ow_id (ld_opportunities db))"
    and "r \<in> set (ld_opportunities db) \<Longrightarrow> r' \<in> set (ld_opportunities db) \<Longrightarrow> ow_dedupe_key r \<noteq> None \<Longrightarrow>
      ow_dedupe_key r' = ow_dedupe_key r \<Longrightarrow> ow_state r \<noteq> OppClosed \<Longrightarrow> ow_state r' \<noteq> OppClosed \<Longrightarrow> ow_id r' = ow_id r"
    and "r \<in> set (ld_opportunities db) \<Longrightarrow> ow_state r = OppClosed \<Longrightarrow> \<exists>a \<in> set (ld_attribution db). aw_opportunity a = ow_id r"
    and "r \<in> set (ld_opportunities db) \<Longrightarrow> history Detected (events_of db (ow_id r)) = Some (ow_state r)"
    and "e \<in> set (ld_events db) \<Longrightarrow> oe_opportunity e \<in> ow_id ` set (ld_opportunities db)"
  using assms unfolding lifecycle_inv_def by blast+

lemma update_row_sel [simp]:
  "ld_events (update_row i f db) = ld_events db" "ld_attribution (update_row i f db) = ld_attribution db"
  "ld_outbox (update_row i f db) = ld_outbox db" "events_of (update_row i f db) = events_of db"
  by (simp_all add: update_row_def events_of_def fun_eq_iff)

lemma find_row_Some: "find_row i db = Some r \<Longrightarrow> r \<in> set (ld_opportunities db) \<and> ow_id r = i"
  by (auto simp: find_row_def find_Some_iff)

lemma find_row_None: "find_row i db = None \<longleftrightarrow> i \<notin> ow_id ` set (ld_opportunities db)"
  by (auto simp: find_row_def find_None_iff)

lemma history_append: "history s (es @ es') = Option.bind (history s es) (\<lambda>t. history t es')"
  by (induction s es rule: history.induct) simp_all

text \<open>The effect of a transition, whoever writes it.\<close>

lemma append_transitionE:
  assumes "append_transition eid i from to actor detail db = Inr db'"
  obtains r e where "r \<in> set (ld_opportunities db)" "ow_id r = i" "ow_state r = from" "transition_allowed from to"
    "to = OppClosed \<Longrightarrow> \<exists>a \<in> set (ld_attribution db). aw_opportunity a = i"
    "oe_opportunity e = i" "oe_from e = from" "oe_to e = to"
    "ld_opportunities db' = map (\<lambda>r. if ow_id r = i then r\<lparr>ow_state := to\<rparr> else r) (ld_opportunities db)"
    "ld_events db' = ld_events db @ [e]" "ld_attribution db' = ld_attribution db" "ld_outbox db' = ld_outbox db"
proof -
  from assms obtain r where r: "find_row i db = Some r" "ow_state r = from" "transition_allowed from to"
    "to = OppClosed \<Longrightarrow> \<exists>a \<in> set (ld_attribution db). aw_opportunity a = i"
    and db': "db' = (update_row i (\<lambda>r. r\<lparr>ow_state := to\<rparr>) db)\<lparr>ld_events := ld_events db @
                 [\<lparr>oe_id = eid, oe_opportunity = i, oe_from = from, oe_to = to, oe_actor = actor, oe_detail = detail\<rparr>]\<rparr>"
    unfolding append_transition_def by (auto split: option.splits if_splits)
  show thesis
    by (rule that [of r "\<lparr>oe_id = eid, oe_opportunity = i, oe_from = from, oe_to = to, oe_actor = actor, oe_detail = detail\<rparr>"])
      (use r find_row_Some [OF r(1)] in \<open>simp_all add: db' update_row_def\<close>)
qed

lemma append_transition_inv:
  assumes "lifecycle_inv db" "append_transition eid i from to actor detail db = Inr db'"
  shows "lifecycle_inv db'"
proof -
  note inv = lifecycle_invD [OF assms(1)]
  from assms(2) show ?thesis
  proof (cases rule: append_transitionE)
    case (1 r e)
    have ids: "map ow_id (ld_opportunities db') = map ow_id (ld_opportunities db)" by (simp add: 1)
    have closed: "from \<noteq> OppClosed" using 1(4) by (cases "from") simp_all
    have row: "\<exists>q \<in> set (ld_opportunities db). ow_id q = ow_id p \<and> ow_dedupe_key q = ow_dedupe_key p
        \<and> (if ow_id p = i then ow_state p = to \<and> ow_state q = from else p = q)" if "p \<in> set (ld_opportunities db')" for p
    proof -
      from that 1(9) obtain q where q: "q \<in> set (ld_opportunities db)" "p = (if ow_id q = i then q\<lparr>ow_state := to\<rparr> else q)" by auto
      have "ow_id q = i \<Longrightarrow> q = r" using inv(1) q(1) 1(1,2) by (auto simp: distinct_map inj_on_def)
      with q 1(3) show ?thesis by (intro bexI [of _ q]) auto
    qed
    have events: "events_of db' j = events_of db j @ (if j = i then [e] else [])" for j
      by (simp add: events_of_def 1)
    show ?thesis
    proof (rule lifecycle_invI)
      show "distinct (map ow_id (ld_opportunities db'))" using inv(1) ids by simp
    next
      fix p p'
      assume p: "p \<in> set (ld_opportunities db')" "p' \<in> set (ld_opportunities db')" "ow_dedupe_key p \<noteq> None"
        "ow_dedupe_key p' = ow_dedupe_key p" "ow_state p \<noteq> OppClosed" "ow_state p' \<noteq> OppClosed"
      obtain q where q: "q \<in> set (ld_opportunities db)" "ow_id q = ow_id p" "ow_dedupe_key q = ow_dedupe_key p" "ow_state q \<noteq> OppClosed"
        using row [OF p(1)] p(5) closed by (auto split: if_splits)
      obtain q' where q': "q' \<in> set (ld_opportunities db)" "ow_id q' = ow_id p'" "ow_dedupe_key q' = ow_dedupe_key p'" "ow_state q' \<noteq> OppClosed"
        using row [OF p(2)] p(6) closed by (auto split: if_splits)
      from inv(2) [OF q(1) q'(1)] q q' p(3,4) show "ow_id p' = ow_id p" by simp
    next
      fix p
      assume "p \<in> set (ld_opportunities db')" "ow_state p = OppClosed"
      then show "\<exists>a \<in> set (ld_attribution db'). aw_opportunity a = ow_id p"
        using row [of p] inv(3) 1(5,11) by (cases "ow_id p = i") auto
    next
      fix p
      assume p: "p \<in> set (ld_opportunities db')"
      from row [OF this] obtain q where q: "q \<in> set (ld_opportunities db)" "ow_id q = ow_id p"
        "if ow_id p = i then ow_state p = to \<and> ow_state q = from else p = q" by blast
      with inv(4) [OF q(1)] 1(4,7,8) show "history Detected (events_of db' (ow_id p)) = Some (ow_state p)"
        by (cases "ow_id p = i") (simp_all add: events history_append)
    next
      fix x
      assume "x \<in> set (ld_events db')"
      then have "oe_opportunity x \<in> ow_id ` set (ld_opportunities db)" using 1(1,2,6,10) inv(5) by auto
      then show "oe_opportunity x \<in> ow_id ` set (ld_opportunities db')" by (simp flip: set_map add: ids)
    qed
  qed
qed


text \<open>Changing columns other than the key, the state and the id keeps the invariant; so does what only
  touches the attribution or the outbox.\<close>

lemma update_row_inv:
  assumes "lifecycle_inv db" "\<And>r. ow_id (f r) = ow_id r \<and> ow_dedupe_key (f r) = ow_dedupe_key r \<and> ow_state (f r) = ow_state r"
  shows "lifecycle_inv (update_row i f db)"
proof -
  note inv = lifecycle_invD [OF assms(1)]
  let ?g = "\<lambda>r. if ow_id r = i then f r else r"
  have g: "ow_id (?g r) = ow_id r" "ow_dedupe_key (?g r) = ow_dedupe_key r" "ow_state (?g r) = ow_state r" for r
    using assms(2) by simp_all
  have rows: "ld_opportunities (update_row i f db) = map ?g (ld_opportunities db)" by (simp add: update_row_def)
  have ids: "map ow_id (ld_opportunities (update_row i f db)) = map ow_id (ld_opportunities db)" by (simp add: rows g del: if_split)
  show ?thesis
  proof (rule lifecycle_invI)
    show "distinct (map ow_id (ld_opportunities (update_row i f db)))" using inv(1) ids by simp
  next
    fix p p'
    assume p: "p \<in> set (ld_opportunities (update_row i f db))" "p' \<in> set (ld_opportunities (update_row i f db))" "ow_dedupe_key p \<noteq> None"
        "ow_dedupe_key p' = ow_dedupe_key p" "ow_state p \<noteq> OppClosed" "ow_state p' \<noteq> OppClosed"
    from p(1,2) obtain q q' where q: "q \<in> set (ld_opportunities db)" "p = ?g q" "q' \<in> set (ld_opportunities db)" "p' = ?g q'"
      unfolding rows by (auto simp del: if_split)
    from inv(2) [OF q(1,3)] p(3-6) show "ow_id p' = ow_id p" unfolding q(2,4) g by simp
  next
    fix p
    assume "p \<in> set (ld_opportunities (update_row i f db))" "ow_state p = OppClosed"
    then obtain q where "q \<in> set (ld_opportunities db)" "p = ?g q" unfolding rows by (auto simp del: if_split)
    with inv(3) [of q] g [of q] \<open>ow_state p = OppClosed\<close> show "\<exists>a \<in> set (ld_attribution (update_row i f db)). aw_opportunity a = ow_id p" by simp
  next
    fix p
    assume "p \<in> set (ld_opportunities (update_row i f db))"
    then obtain q where "q \<in> set (ld_opportunities db)" "p = ?g q" unfolding rows by (auto simp del: if_split)
    with inv(4) g show "history Detected (events_of (update_row i f db) (ow_id p)) = Some (ow_state p)" by simp
  next
    fix e
    assume "e \<in> set (ld_events (update_row i f db))"
    with inv(5) show "oe_opportunity e \<in> ow_id ` set (ld_opportunities (update_row i f db))" by (simp flip: set_map add: ids)
  qed
qed

lemma other_tables_inv:
  assumes "lifecycle_inv db" "ld_opportunities db' = ld_opportunities db" "ld_events db' = ld_events db"
    and "set (ld_attribution db) \<subseteq> set (ld_attribution db')"
  shows "lifecycle_inv db'"
  using assms unfolding lifecycle_inv_def events_of_def by (simp only:) blast

lemma insert_attribution_inv:
  assumes "lifecycle_inv db" "insert_attribution a db = Inr db'"
  shows "lifecycle_inv db'"
  by (rule other_tables_inv [OF assms(1)]) (use assms(2) in \<open>auto simp: insert_attribution_def split: if_splits\<close>)

lemma insert_outbox_inv:
  assumes "lifecycle_inv db" "insert_outbox eid now opp db = Inr db'"
  shows "lifecycle_inv db'"
  by (rule other_tables_inv [OF assms(1)]) (use assms(2) in \<open>auto simp: insert_outbox_def split: if_splits\<close>)

lemma insert_row_inv:
  assumes "lifecycle_inv db" "find (open_chain_row (dedupe_key opp)) (ld_opportunities db) = None" "find_row (op_id opp) db = None"
  shows "lifecycle_inv (db\<lparr>ld_opportunities := ld_opportunities db @ [row_of opp expires]\<rparr>)"
proof -
  note inv = lifecycle_invD [OF assms(1)]
  let ?db = "db\<lparr>ld_opportunities := ld_opportunities db @ [row_of opp expires]\<rparr>" and ?new = "row_of opp expires"
  have new: "ow_id ?new = op_id opp" "ow_state ?new = Detected" "ow_dedupe_key ?new = Some (dedupe_key opp)"
    by (simp_all add: row_of_def)
  have fresh: "op_id opp \<notin> ow_id ` set (ld_opportunities db)" using assms(3) by (simp add: find_row_None)
  have none: "r \<in> set (ld_opportunities db) \<Longrightarrow> ow_dedupe_key r = Some (dedupe_key opp) \<Longrightarrow> ow_state r = OppClosed" for r
    using assms(2) by (auto simp: find_None_iff open_chain_row_def)
  have ev: "events_of ?db = events_of db" by (simp add: events_of_def fun_eq_iff)
  have "events_of db (op_id opp) = []" unfolding events_of_def filter_empty_conv using inv(5) fresh by metis
  with new have h: "history Detected (events_of ?db (ow_id ?new)) = Some (ow_state ?new)" by (simp add: ev)
  show ?thesis
  proof (rule lifecycle_invI)
    show "distinct (map ow_id (ld_opportunities ?db))" using inv(1) fresh new by auto
  next
    fix p p'
    assume "p \<in> set (ld_opportunities ?db)" "p' \<in> set (ld_opportunities ?db)" "ow_dedupe_key p \<noteq> None"
        "ow_dedupe_key p' = ow_dedupe_key p" "ow_state p \<noteq> OppClosed" "ow_state p' \<noteq> OppClosed"
    then show "ow_id p' = ow_id p" using inv(2) [of p p'] none [of p] none [of p'] new by auto
  next
    fix p
    assume "p \<in> set (ld_opportunities ?db)" "ow_state p = OppClosed"
    then show "\<exists>a \<in> set (ld_attribution ?db). aw_opportunity a = ow_id p" using inv(3) new by auto
  next
    fix p
    assume "p \<in> set (ld_opportunities ?db)"
    then show "history Detected (events_of ?db (ow_id p)) = Some (ow_state p)" using inv(4) h ev by auto
  next
    fix e
    assume "e \<in> set (ld_events ?db)"
    with inv(5) show "oe_opportunity e \<in> ow_id ` set (ld_opportunities ?db)" by auto
  qed
qed

lemma persist_scored_tx_inv:
  assumes "lifecycle_inv db" "persist_scored_tx ids now opp expires db = (Inr (d, db') :: 'k lifecycle_error + _)"
  shows "lifecycle_inv db'"
proof (cases "find (open_chain_row (dedupe_key opp)) (ld_opportunities db)")
  case None
  with assms(2) obtain db1 where fresh: "find_row (op_id opp) db = None"
    and "append_transition (ids 0) (op_id opp) Detected Scored ''scanner'' (JObject [(''dedupe_key'', JString (dedupe_key opp))])
        (db\<lparr>ld_opportunities := ld_opportunities db @ [row_of opp expires]\<rparr>) = (Inr db1 :: 'k lifecycle_error + _)"
      "insert_outbox (ids 1) now opp db1 = (Inr db' :: 'k lifecycle_error + _)"
    unfolding persist_scored_tx_def Let_def by (auto simp: and_then_Inr_iff split: if_splits)
  with append_transition_inv insert_outbox_inv insert_row_inv [OF assms(1) None fresh] show ?thesis by blast
next
  case (Some r)
  have refreshed: "lifecycle_inv (update_row (ow_id r) (refresh_row opp expires) db)"
    by (rule update_row_inv [OF assms(1)]) (simp add: refresh_row_def)
  show ?thesis
  proof (cases "ow_state r = Detected")
    case True
    with assms(2) Some have "append_transition (ids 0) (ow_id r) Detected Scored ''scanner'' (JObject [(''deduplicated'', JBool True)])
        (update_row (ow_id r) (refresh_row opp expires) db) = (Inr db' :: 'k lifecycle_error + _)"
      by (simp add: persist_scored_tx_def Let_def and_then_Inr_iff)
    then show ?thesis by (rule append_transition_inv [OF refreshed])
  next
    case False
    with assms(2) Some have "db' = (if ow_state r = Scored then update_row (ow_id r) (refresh_row opp expires) db else db)"
      by (simp add: persist_scored_tx_def Let_def split: if_splits)
    then show ?thesis using assms(1) refreshed by simp
  qed
qed

lemma expire_one_inv:
  "lifecycle_inv db \<Longrightarrow> expire_one ids now r db = Inr db' \<Longrightarrow> lifecycle_inv db'"
  unfolding expire_one_def by (elim and_thenE) (blast intro: append_transition_inv insert_attribution_inv)

lemma expire_rows_inv:
  "lifecycle_inv db \<Longrightarrow> expire_rows ids now rs db = (Inr (expired, db') :: 'k lifecycle_error + _) \<Longrightarrow> lifecycle_inv db'"
proof (induction rs arbitrary: db expired)
  case (Cons r rs)
  from Cons.prems(2) obtain db1 ex where "expire_one (ids (length rs)) now r db = (Inr db1 :: 'k lifecycle_error + _)"
    "expire_rows ids now rs db1 = (Inr (ex, db') :: 'k lifecycle_error + _)"
    by (auto simp: and_then_Inr_iff map_ok_Inr_iff)
  with Cons expire_one_inv show ?case by blast
qed simp

lemma commit_tx_inv:
  assumes "P s" "\<And>a s'. tx s = Inr (a, s') \<Longrightarrow> P s'"
  shows "P (snd (commit_tx tx s))"
  using assms by (auto simp: commit_tx_def split: sum.split)

lemma lifecycle_apply_inv:
  assumes "lifecycle_inv db"
  shows "lifecycle_inv (lifecycle_apply step db)"
proof (cases step)
  case (LsPersist ids now opp)
  show ?thesis
  proof (cases "op_expires_ts opp")
    case (Some expires)
    show ?thesis
      unfolding LsPersist lifecycle_apply.simps persist_scored_def Some option.case
      by (rule commit_tx_inv [of lifecycle_inv, OF assms]) (rule persist_scored_tx_inv [OF assms])
  qed (simp add: LsPersist persist_scored_def assms)
next
  case (LsExpire ids now)
  show ?thesis
    unfolding LsExpire lifecycle_apply.simps expire_due_def
    by (rule commit_tx_inv [of lifecycle_inv, OF assms]) (rule expire_rows_inv [OF assms])
next
  case (LsPublished now eid)
  show ?thesis unfolding LsPublished by (rule other_tables_inv [OF assms]) (simp_all add: mark_published_def)
next
  case (LsEvent eid i "from" to actor detail)
  with assms show ?thesis by (auto simp: keep_on_error_def split: sum.split dest: append_transition_inv)
next
  case (LsAttribution a)
  with assms show ?thesis by (auto simp: keep_on_error_def split: sum.split dest: insert_attribution_inv)
qed

interpretation lifecycle: invariant_machine lifecycle_apply lifecycle_inv
  by unfold_locales (rule lifecycle_apply_inv)

lemma lifecycle_empty_inv: "lifecycle_inv lifecycle_empty"
  by (simp add: lifecycle_inv_def lifecycle_empty_def)

definition reachable_db :: "lifecycle_step list \<Rightarrow> lifecycle_db" where
  "reachable_db steps = fold lifecycle_apply steps lifecycle_empty"

lemma reachable_inv: "lifecycle_inv (reachable_db steps)"
  unfolding reachable_db_def by (rule lifecycle.run_inv [OF lifecycle_empty_inv])

text \<open>
  Property C11. Whatever the scanner persists and expires and whatever events and attributions other
  services write, at any time at most one chain is open for a dedupe key.
\<close>

theorem one_open_chain_per_key:
  assumes "r \<in> set (ld_opportunities (reachable_db steps))" "r' \<in> set (ld_opportunities (reachable_db steps))"
    and "open_chain_row key r" "open_chain_row key r'"
  shows "r' = r"
proof -
  note inv = lifecycle_invD [OF reachable_inv [of steps]]
  have "ow_id r' = ow_id r" using inv(2) [OF assms(1,2)] assms(3,4) by (simp add: open_chain_row_def)
  then show ?thesis using inv(1) assms(1,2) by (auto simp: distinct_map inj_on_def)
qed

text \<open>
  Property C12. The state of every stored opportunity is the one its recorded events lead to from
  detection, each an allowed transition from where the last one ended, and a closed opportunity has
  its attribution.
\<close>

theorem state_follows_events:
  "\<forall>r \<in> set (ld_opportunities (reachable_db steps)).
     history Detected (events_of (reachable_db steps) (ow_id r)) = Some (ow_state r)
     \<and> (ow_state r = OppClosed \<longrightarrow> (\<exists>a \<in> set (ld_attribution (reachable_db steps)). aw_opportunity a = ow_id r))"
  using lifecycle_invD(3,4) [OF reachable_inv] by blast


subsection \<open>Expiry closes what is due\<close>

lemma append_transition_rows:
  "append_transition eid i from to actor detail db = Inr db' \<Longrightarrow>
     ld_opportunities db' = map (\<lambda>r. if ow_id r = i then r\<lparr>ow_state := to\<rparr> else r) (ld_opportunities db)"
  by (erule append_transitionE)

lemma insert_attribution_rows: "insert_attribution a db = Inr db' \<Longrightarrow> ld_opportunities db' = ld_opportunities db"
  by (auto simp: insert_attribution_def split: if_splits)

definition closed_if :: "ulid set \<Rightarrow> opportunity_row \<Rightarrow> opportunity_row" where
  "closed_if ids r = (if ow_id r \<in> ids then r\<lparr>ow_state := OppClosed\<rparr> else r)"

lemma closed_if_sel [simp]:
  "ow_id (closed_if ids r) = ow_id r" "ow_state (closed_if ids r) = (if ow_id r \<in> ids then OppClosed else ow_state r)"
  "closed_if {} = (\<lambda>r. r)" "closed_if A (closed_if B r) = closed_if (A \<union> B) r"
  by (auto simp: closed_if_def fun_eq_iff)

lemma expire_one_rows:
  assumes "expire_one ids now r db = Inr db'"
  shows "ld_opportunities db' = map (closed_if {ow_id r}) (ld_opportunities db)"
  using assms unfolding expire_one_def
  by (elim and_thenE) (auto dest!: append_transition_rows insert_attribution_rows simp: closed_if_def)

lemma expire_rows_rows:
  "expire_rows ids now rs db = (Inr (expired, db') :: 'k lifecycle_error + _) \<Longrightarrow>
     expired = map ow_id rs \<and> ld_opportunities db' = map (closed_if (ow_id ` set rs)) (ld_opportunities db)"
proof (induction rs arbitrary: db expired)
  case (Cons r rs)
  from Cons.prems obtain db1 ex where 1: "expire_one (ids (length rs)) now r db = (Inr db1 :: 'k lifecycle_error + _)"
    and 2: "expire_rows ids now rs db1 = (Inr (ex, db') :: 'k lifecycle_error + _)" and e: "expired = ow_id r # ex"
    by (auto simp: and_then_Inr_iff map_ok_Inr_iff)
  from Cons.IH [OF 2] expire_one_rows [OF 1] e show ?case by (simp add: Un_commute)
qed simp

text \<open>
  A successful expiry returns exactly the detected or scored opportunities whose time was
  up, in the order of their ids; it closes them, changes no other row, and leaves none overdue.
\<close>

theorem expiry_closes_due:
  assumes "expire_due ids now db = (Inr expired :: 'k lifecycle_error + ulid list, db')"
  shows "expired = map ow_id (due_rows now db) \<and> due_rows now db' = []
    \<and> ld_opportunities db' = map (closed_if (set expired)) (ld_opportunities db)"
proof -
  from assms have "expire_rows ids now (due_rows now db) db = (Inr (expired, db') :: 'k lifecycle_error + _)"
    by (auto simp: expire_due_def commit_tx_def split: sum.splits)
  from expire_rows_rows [OF this] have e: "expired = map ow_id (due_rows now db)"
    and rows: "ld_opportunities db' = map (closed_if (set expired)) (ld_opportunities db)" by simp_all
  have "r \<in> set (ld_opportunities db) \<Longrightarrow> ow_state r \<in> {Detected, Scored} \<Longrightarrow> ow_expires_ts r = Some t \<Longrightarrow> t \<le> now \<Longrightarrow> ow_id r \<in> set expired"
    for r t by (auto simp: e due_rows_def)
  then have "filter (\<lambda>r. (ow_state r = Detected \<or> ow_state r = Scored) \<and> (case ow_expires_ts r of Some t \<Rightarrow> t \<le> now | None \<Rightarrow> False))
      (ld_opportunities db') = []"
    by (auto simp: rows filter_empty_conv closed_if_def split: option.split)
  then have "due_rows now db' = []" by (simp only: due_rows_def) simp
  with e rows show ?thesis by simp
qed

subsection \<open>The outbox is published at least once\<close>

definition outbox_send :: "('k, 's) flush_env \<Rightarrow> string \<times> opportunity envelope \<Rightarrow> 's \<Rightarrow> ('k producer_error + unit) \<times> 's" where
  "outbox_send F m s = fv_send F topic_opps_detected (snd m) (Some (fst m)) s"

definition outbox_message :: "('k, 's) flush_env \<Rightarrow> outbox_row \<Rightarrow> string \<times> opportunity envelope" where
  "outbox_message F x = (fv_ulid F (xw_opportunity x), detection_envelope F (xw_payload x))"

definition mark_row :: "utc_time \<Rightarrow> ulid set \<Rightarrow> outbox_row \<Rightarrow> outbox_row" where
  "mark_row now ids x = (if xw_event_id x \<in> ids \<and> xw_published_ts x = None then x\<lparr>xw_published_ts := Some now\<rparr> else x)"

lemma mark_row_compose: "mark_row now A (mark_row now B x) = mark_row now (A \<union> B) x" "mark_row now {} x = x"
  by (auto simp: mark_row_def)

lemma flush_rows_effect:
  assumes "append_sink (outbox_send F) sent" "flush_rows F xs n s = (r, db', p')"
  shows "\<exists>k \<le> length xs. sent p' = sent (snd s) @ map (outbox_message F) (take k xs)
    \<and> ld_outbox db' = map (mark_row (fv_now F) (xw_event_id ` set (take k xs))) (ld_outbox (fst s))
    \<and> (\<forall>m. r = Inr m \<longrightarrow> k = length xs)"
  using assms(2)
proof (induction xs arbitrary: n s)
  case Nil
  then show ?case by (auto simp: mark_row_compose)
next
  case (Cons x xs)
  obtain db p where s: "s = (db, p)" by (cases s)
  obtain v q where send: "outbox_send F (outbox_message F x) p = (v, q)" by force
  show ?case
  proof (cases v)
    case (Inl e)
    with Cons.prems send have "p' = q" "db' = db" "r = Inl (LePublish e)" by (simp_all add: s outbox_send_def outbox_message_def)
    with append_sink.emit_err [OF assms(1) send [unfolded Inl]] show ?thesis
      by (intro exI [of _ 0]) (simp add: s mark_row_compose)
  next
    case (Inr u)
    let ?db = "snd (mark_published (fv_now F) (xw_event_id x) db)"
    from Cons.prems send Inr have "flush_rows F xs (n + fst (mark_published (fv_now F) (xw_event_id x) db)) (?db, q) = (r, db', p')"
      by (simp add: s outbox_send_def outbox_message_def case_prod_unfold Let_def)
    from Cons.IH [OF this] obtain k where k: "k \<le> length xs" "sent p' = sent q @ map (outbox_message F) (take k xs)"
      "ld_outbox db' = map (mark_row (fv_now F) (xw_event_id ` set (take k xs))) (ld_outbox ?db)" "\<forall>m. r = Inr m \<longrightarrow> k = length xs"
      by auto
    have "ld_outbox ?db = map (mark_row (fv_now F) {xw_event_id x}) (ld_outbox db)"
      by (simp add: mark_published_def mark_row_def)
    with k append_sink.emit_ok [OF assms(1) send [unfolded Inr]] show ?thesis
      by (intro exI [of _ "Suc k"]) (auto simp: s mark_row_compose Un_commute)
  qed
qed

text \<open>
  A flush hands the producer the oldest unpublished detections in order and marks exactly
  the rows whose message was accepted, so a row is never marked without having been sent; a flush
  without an error has sent all of them.
\<close>

theorem outbox_published_at_least_once:
  assumes "append_sink (outbox_send F) sent" "flush_detection_outbox F limit (db, p) = (r, db', p')"
  shows "\<exists>k \<le> length (pending_outbox limit db). sent p' = sent p @ map (outbox_message F) (take k (pending_outbox limit db))
    \<and> ld_outbox db' = map (mark_row (fv_now F) (xw_event_id ` set (take k (pending_outbox limit db)))) (ld_outbox db)
    \<and> (\<forall>n. r = Inr n \<longrightarrow> k = length (pending_outbox limit db))"
  using flush_rows_effect [OF assms(1) assms(2) [unfolded flush_detection_outbox_def]] by simp


subsection \<open>A chain on concrete data\<close>

definition wit_opportunity :: "ulid \<Rightarrow> utc_time \<Rightarrow> opportunity" where
  "wit_opportunity i t = \<lparr>op_id = i, op_kind = Arbitrage,
     op_legs = [\<lparr>ol_market = MarketKey ''mkt:b:x'', ol_side = Buy, ol_target_price = None, ol_size_hint = None\<rparr>,
       \<lparr>ol_market = MarketKey ''mkt:a:x'', ol_side = Sell, ol_target_price = None, ol_size_hint = None\<rparr>],
     op_gross_edge = 0, op_edge = \<lparr>ed_gross_spread = 0, ed_fees = 0, ed_slippage_est = 0, ed_funding_cost = 0, ed_gas_cost = 0,
       ed_bridge_cost = 0, ed_settlement_mismatch_discount = 0, ed_liquidity_haircut = 0, ed_staleness_penalty = 0,
       ed_confidence_penalty = 0, ed_net_edge = 0\<rparr>,
     op_confidence = Confidence 1, op_detected_ts = t, op_expires_ts = Some (t + 30000),
     op_explain_ref = \<lparr>bf_object_id = 1, bf_provenance_hash = []\<rparr>, op_trace_id = 1\<rparr>"

text \<open>Two detections of the same pair of legs, then the expiry.\<close>

definition wit_steps :: "lifecycle_step list" where
  "wit_steps = [LsPersist (\<lambda>n. if n = 0 then 10 else 11) 0 (wit_opportunity 1 0),
     LsPersist (\<lambda>n. if n = 0 then 12 else 13) 1 (wit_opportunity 2 1)]"

lemma wit_key: "dedupe_key (wit_opportunity i t) = ''arbitrage|mkt:a:x|mkt:b:x''"
  by (simp add: dedupe_key_def wit_opportunity_def)

definition wit_row :: opportunity_row where
  "wit_row = refresh_row (wit_opportunity 2 1) 30001 ((row_of (wit_opportunity 1 0) 30000)\<lparr>ow_state := Scored\<rparr>)"

lemma wit_first: "persist_scored (\<lambda>n. if n = 0 then 10 else 11) 0 (wit_opportunity 1 0) lifecycle_empty
    = (Inr (Created 1) :: unit lifecycle_error + _,
       \<lparr>ld_opportunities = [(row_of (wit_opportunity 1 0) 30000)\<lparr>ow_state := Scored\<rparr>],
         ld_events = [\<lparr>oe_id = 10, oe_opportunity = 1, oe_from = Detected, oe_to = Scored, oe_actor = ''scanner'',
           oe_detail = JObject [(''dedupe_key'', JString ''arbitrage|mkt:a:x|mkt:b:x'')]\<rparr>],
         ld_attribution = [],
         ld_outbox = [\<lparr>xw_event_id = 11, xw_opportunity = 1, xw_payload = wit_opportunity 1 0, xw_created_ts = 0, xw_published_ts = None\<rparr>]\<rparr>)"
proof -
  have w: "op_expires_ts (wit_opportunity 1 0) = Some 30000" "op_id (wit_opportunity 1 0) = 1"
    "ow_id (row_of (wit_opportunity 1 0) 30000) = 1" "ow_state (row_of (wit_opportunity 1 0) 30000) = Detected"
    by (simp_all add: wit_opportunity_def row_of_def)
  show ?thesis
    by (simp add: persist_scored_def w commit_tx_def persist_scored_tx_def lifecycle_empty_def wit_key find_row_def
      append_transition_def update_row_def insert_outbox_def)
qed

lemma wit_rows: "ld_opportunities (reachable_db wit_steps) = [wit_row]" "ld_attribution (reachable_db wit_steps) = []"
    "map oe_id (ld_events (reachable_db wit_steps)) = [10]"
    "ld_outbox (reachable_db wit_steps) = [\<lparr>xw_event_id = 11, xw_opportunity = 1, xw_payload = wit_opportunity 1 0, xw_created_ts = 0, xw_published_ts = None\<rparr>]"
proof -
  have w: "op_expires_ts (wit_opportunity 2 1) = Some 30001" "ow_dedupe_key (row_of (wit_opportunity 1 0) 30000) = Some ''arbitrage|mkt:a:x|mkt:b:x''"
    "ow_id (row_of (wit_opportunity 1 0) 30000) = 1"
    by (simp_all add: row_of_def wit_key) (simp_all add: wit_opportunity_def)
  show "ld_opportunities (reachable_db wit_steps) = [wit_row]" "ld_attribution (reachable_db wit_steps) = []"
    "map oe_id (ld_events (reachable_db wit_steps)) = [10]"
    "ld_outbox (reachable_db wit_steps) = [\<lparr>xw_event_id = 11, xw_opportunity = 1, xw_payload = wit_opportunity 1 0, xw_created_ts = 0, xw_published_ts = None\<rparr>]"
    by (simp_all add: reachable_db_def wit_steps_def wit_first)
      (simp_all add: persist_scored_def w commit_tx_def persist_scored_tx_def wit_key open_chain_row_def update_row_def wit_row_def Let_def)
qed

theorem one_open_chain_per_key_witness:
  "wit_row \<in> set (ld_opportunities (reachable_db wit_steps)) \<and> open_chain_row ''arbitrage|mkt:a:x|mkt:b:x'' wit_row
    \<and> {r \<in> set (ld_opportunities (reachable_db wit_steps)). open_chain_row ''arbitrage|mkt:a:x|mkt:b:x'' r} = {wit_row}"
proof -
  have "open_chain_row ''arbitrage|mkt:a:x|mkt:b:x'' wit_row"
    by (simp add: open_chain_row_def wit_row_def refresh_row_def row_of_def wit_key)
  then show ?thesis using one_open_chain_per_key [of wit_row wit_steps] by (auto simp: wit_rows)
qed

theorem state_follows_events_witness:
  "history Detected (events_of (reachable_db wit_steps) 1) = Some Scored"
  using state_follows_events [of wit_steps] by (simp add: wit_rows wit_row_def refresh_row_def row_of_def wit_opportunity_def)

theorem expiry_closes_due_witness:
  "\<exists>db'. expire_due (\<lambda>_ n. 20 + of_nat n) 40000 (reachable_db wit_steps) = (Inr [1] :: unit lifecycle_error + _, db') \<and> due_rows 40000 db' = []"
proof -
  have r: "ow_id wit_row = 1" "ow_state wit_row = Scored" "ow_expires_ts wit_row = Some 30001"
    by (simp_all add: wit_row_def refresh_row_def row_of_def wit_opportunity_def)
  have e: "\<forall>e \<in> set (ld_events (reachable_db wit_steps)). oe_id e = 10"
    using wit_rows(3) by (auto simp: map_eq_Cons_conv)
  have "\<exists>db'. expire_due (\<lambda>_ n. 20 + of_nat n) 40000 (reachable_db wit_steps) = (Inr [1] :: unit lifecycle_error + _, db')"
    using e by (auto simp: expire_due_def commit_tx_def due_rows_def wit_rows r expire_one_def append_transition_def find_row_def
      update_row_def insert_attribution_def)
  then show ?thesis using expiry_closes_due by blast
qed

definition wit_flush :: "(unit, (string \<times> opportunity envelope) list) flush_env" where
  "wit_flush = \<lparr>fv_send = (\<lambda>topic m key s. (Inr (), s @ [(the key, m)])), fv_ulid = (\<lambda>_. ''u''), fv_time = (\<lambda>_. ''t''),
     fv_trace = ''f'', fv_text_now = ''n'', fv_now = 7\<rparr>"

theorem outbox_published_at_least_once_witness:
  "\<exists>db'. flush_detection_outbox wit_flush 1000 (reachable_db wit_steps, []) = (Inr 1, db', [(''u'', detection_envelope wit_flush (wit_opportunity 1 0))])
     \<and> map xw_published_ts (ld_outbox db') = [Some 7]"
proof -
  have sink: "append_sink (outbox_send wit_flush) (\<lambda>s. s)"
    by unfold_locales (auto simp: outbox_send_def wit_flush_def)
  have p: "pending_outbox 1000 (reachable_db wit_steps)
      = [\<lparr>xw_event_id = 11, xw_opportunity = 1, xw_payload = wit_opportunity 1 0, xw_created_ts = 0, xw_published_ts = None\<rparr>]"
    by (simp add: pending_outbox_def wit_rows)
  obtain db' q where run: "flush_detection_outbox wit_flush 1000 (reachable_db wit_steps, []) = (Inr 1, db', q)"
    by (simp add: flush_detection_outbox_def p mark_published_def wit_rows wit_flush_def Let_def)
  from outbox_published_at_least_once [OF sink run] run show ?thesis
    by (auto simp: p wit_rows mark_row_def outbox_message_def wit_flush_def)
qed

end
