(* ===== verification/Scanner_Runtime.thy ===== *)
theory Scanner_Runtime
  imports Scanner_Lifecycle
begin

text \<open>
  The incremental runtime of the scanner (\<^verbatim>\<open>runtime.rs\<close>), which collects market data and remembers what
  changed until the next cycle, and the loops and loaders of its process (\<^verbatim>\<open>main.rs\<close>). The lemmas show
  that a cycle that succeeds forgets every change, those it skipped included, that one that fails in its
  scan or its store forgets none, and what a malformed trace id does to the book loop.
\<close>

subsection \<open>The runtime (runtime.rs)\<close>

datatype 'k runtime_error =
    RtScan scan_error
  | RtLifecycle "'k lifecycle_error"
  | RtInvalidTrace
  | RtIncompleteQuote

record runtime_cycle_report =
  rr_scan :: "scan_outcome option"
  rr_durable :: durable_publish_report
  rr_expired :: "ulid list"
  rr_open_chains :: nat

text \<open>A \<^verbatim>\<open>HashSet\<close> is a list without repetitions.\<close>

record scanner_runtime =
  rt_scanner :: scanner
  rt_quotes :: "(market_key, market_quote) hash_map"
  rt_books :: "(market_key, order_book) hash_map"
  rt_markets :: "(market_key, market) hash_map"
  rt_evidence :: "(string, evidence_snapshot) hash_map"
  rt_fallback_explain_ref :: brain_ref
  rt_dirty :: "market_key list"
  rt_trace_ids :: "(market_key, ulid) hash_map"

definition runtime_new :: "scanner \<Rightarrow> brain_ref \<Rightarrow> scanner_runtime" where
  "runtime_new S ref = \<lparr>rt_scanner = S, rt_quotes = [], rt_books = [], rt_markets = [], rt_evidence = [],
     rt_fallback_explain_ref = ref, rt_dirty = [], rt_trace_ids = []\<rparr>"

definition set_extend :: "'a list \<Rightarrow> 'a list \<Rightarrow> 'a list" where
  "set_extend xs ys = fold List.insert xs ys"

definition replace_markets :: "market list \<Rightarrow> scanner_runtime \<Rightarrow> scanner_runtime" where
  "replace_markets ms rt =
     (let markets = fold (\<lambda>m. hm_put (m_key m) m) ms []
      in rt\<lparr>rt_markets := markets, rt_dirty := set_extend (map fst markets) (rt_dirty rt)\<rparr>)"

definition replace_evidence :: "(string, evidence_snapshot) hash_map \<Rightarrow> scanner_runtime \<Rightarrow> scanner_runtime" where
  "replace_evidence evidence rt =
     rt\<lparr>rt_evidence := evidence, rt_dirty := set_extend (map fst (rt_markets rt)) (rt_dirty rt)\<rparr>"

text \<open>\<open>parse\<close> is \<^verbatim>\<open>Ulid::from_string\<close>.\<close>

definition apply_quote_envelope ::
  "(string \<Rightarrow> ulid option) \<Rightarrow> quote envelope \<Rightarrow> scanner_runtime \<Rightarrow> ('k runtime_error + unit) \<times> scanner_runtime" where
  "apply_quote_envelope parse e rt =
     (case parse (ev_trace_id e) of
        None \<Rightarrow> (Inl RtInvalidTrace, rt)
      | Some trace \<Rightarrow>
          let q = ev_payload e;
              rejected = (Inl RtIncompleteQuote,
                rt\<lparr>rt_quotes := AList.delete (q_market q) (rt_quotes rt), rt_dirty := List.insert (q_market q) (rt_dirty rt)\<rparr>)
          in (case (q_bid q, q_ask q) of
                (Some bid, Some ask) \<Rightarrow>
                  if bid \<le> 0 \<or> ask \<le> 0 \<or> bid > ask then rejected
                  else (Inr (), rt\<lparr>rt_trace_ids := hm_put (q_market q) trace (rt_trace_ids rt),
                         rt_dirty := List.insert (q_market q) (rt_dirty rt),
                         rt_quotes := hm_put (q_market q) \<lparr>mq_bid = bid, mq_ask = ask, mq_ts = q_ts q\<rparr> (rt_quotes rt)\<rparr>)
              | _ \<Rightarrow> rejected))"

definition apply_book_envelope ::
  "(string \<Rightarrow> ulid option) \<Rightarrow> order_book envelope \<Rightarrow> scanner_runtime \<Rightarrow> ('k runtime_error + unit) \<times> scanner_runtime" where
  "apply_book_envelope parse e rt =
     (case parse (ev_trace_id e) of
        None \<Rightarrow> (Inl RtInvalidTrace, rt)
      | Some trace \<Rightarrow>
          let b = ev_payload e
          in (Inr (), rt\<lparr>rt_trace_ids := hm_put (ob_market b) trace (rt_trace_ids rt),
                rt_dirty := List.insert (ob_market b) (rt_dirty rt), rt_books := hm_put (ob_market b) b (rt_books rt)\<rparr>))"

text \<open>The trace of the changed market with the smallest key that has one.\<close>

definition cycle_trace :: "scanner_runtime \<Rightarrow> ulid" where
  "cycle_trace rt =
     (case sort_key (\<lambda>(k, _). key_str k)
             (List.map_filter (\<lambda>k. map_option (Pair k) (hm_get (rt_trace_ids rt) k)) (rt_dirty rt)) of
        [] \<Rightarrow> bf_object_id (rt_fallback_explain_ref rt)
      | (_, trace) # _ \<Rightarrow> trace)"

definition runtime_input :: "scanner_runtime \<Rightarrow> scan_input" where
  "runtime_input rt = \<lparr>sp_quotes = rt_quotes rt, sp_books = rt_books rt, sp_markets = rt_markets rt, sp_evidence = rt_evidence rt\<rparr>"

text \<open>The scan of a cycle: none when nothing changed.\<close>

definition run_scan ::
  "dec_ops \<Rightarrow> scan_env \<Rightarrow> utc_time \<Rightarrow> scanner_runtime \<Rightarrow> ((scan_error + scan_outcome option) \<times> scanner_runtime) option" where
  "run_scan D E now rt =
     (if rt_dirty rt = [] then Some (Inr None, rt)
      else map_option (\<lambda>(r, S). (map_ok Some r, rt\<lparr>rt_scanner := S\<rparr>))
             (scan_incremental D E (runtime_input rt) (rt_dirty rt) now (rt_fallback_explain_ref rt) (cycle_trace rt) (rt_scanner rt)))"

definition run_durable ::
  "('k, 's) flush_env \<Rightarrow> (nat \<Rightarrow> nat \<Rightarrow> ulid) \<Rightarrow> scan_outcome option \<Rightarrow> lifecycle_db \<times> 's
     \<Rightarrow> ('k lifecycle_error + durable_publish_report) \<times> lifecycle_db \<times> 's" where
  "run_durable F ids out s =
     (case out of
        Some o1 \<Rightarrow> persist_and_publish F ids (sx_opportunities o1) s
      | None \<Rightarrow>
          (case flush_detection_outbox F 1000 s of
             (Inl e, s') \<Rightarrow> (Inl e, s')
           | (Inr n, s') \<Rightarrow> (Inr \<lparr>dr_created = 0, dr_updated = 0, dr_existing = 0, dr_published = n\<rparr>, s')))"

text \<open>\<open>ids\<close> are the fresh ids of the persisted opportunities, \<open>eids\<close> those of the expiry.\<close>

definition run_due ::
  "dec_ops \<Rightarrow> scan_env \<Rightarrow> ('k, 's) flush_env \<Rightarrow> (nat \<Rightarrow> nat \<Rightarrow> ulid) \<Rightarrow> (nat \<Rightarrow> nat \<Rightarrow> ulid) \<Rightarrow> utc_time
     \<Rightarrow> scanner_runtime \<times> lifecycle_db \<times> 's
     \<Rightarrow> (('k runtime_error + runtime_cycle_report) \<times> scanner_runtime \<times> lifecycle_db \<times> 's) option" where
  "run_due D E F ids eids now w =
     (let (rt, s) = w; changed = rt_dirty rt
      in map_option (\<lambda>(r, rt1). case r of
           Inl e \<Rightarrow> (Inl (RtScan e), rt1, s)
         | Inr out \<Rightarrow>
             (case run_durable F ids out s of
                (Inl e, s1) \<Rightarrow> (Inl (RtLifecycle e), rt1, s1)
              | (Inr durable, db1, p1) \<Rightarrow>
                  let rt2 = rt1\<lparr>rt_dirty := filter (\<lambda>k. k \<notin> set changed) (rt_dirty rt1)\<rparr>
                  in (case expire_due eids now db1 of
                        (Inl e, db2) \<Rightarrow> (Inl (RtLifecycle e), rt2, db2, p1)
                      | (Inr expired, db2) \<Rightarrow>
                          (Inr \<lparr>rr_scan = out, rr_durable = durable, rr_expired = expired, rr_open_chains = open_count db2\<rparr>,
                           rt2, db2, p1))))
         (run_scan D E now rt))"

subsection \<open>The process (main.rs)\<close>

text \<open>The topics of a variable: comma separated, trimmed, the empty ones dropped.\<close>

definition configured_topics :: "string option \<Rightarrow> string \<Rightarrow> string \<Rightarrow> string + string list" where
  "configured_topics var name prefix =
     (case var of
        None \<Rightarrow> Inl ''environment variable not found''
      | Some raw \<Rightarrow>
          let topics = filter (\<lambda>t. t \<noteq> []) (map trim_str (split_char (CHR '','') raw))
          in if topics = [] \<or> (\<exists>t \<in> set topics. \<not> starts_with prefix t)
             then Inl (name @ '' must list comma-separated '' @ prefix @ ''<venue> topics'') else Inr topics)"

text \<open>One round of the book loop and of the quote loop, whose rejected quotes are only logged. The error
  that ends a round ends the process.\<close>

fun apply_books ::
  "(string \<Rightarrow> ulid option) \<Rightarrow> order_book envelope list \<Rightarrow> scanner_runtime \<Rightarrow> ('k runtime_error + unit) \<times> scanner_runtime" where
  "apply_books parse [] rt = (Inr (), rt)"
| "apply_books parse (e # es) rt = then_do (apply_book_envelope parse e) (\<lambda>_. apply_books parse es) rt"

definition apply_quotes ::
  "(string \<Rightarrow> ulid option) \<Rightarrow> quote envelope list \<Rightarrow> scanner_runtime \<Rightarrow> scanner_runtime" where
  "apply_quotes parse es rt = fold (\<lambda>e rt. snd (apply_quote_envelope parse e rt :: (unit runtime_error + unit) \<times> _)) es rt"

datatype 'k loop_error = LoopConsumer "'k consumer_error" | LoopRuntime "'k runtime_error"

definition lift_consumer ::
  "('c \<Rightarrow> ('k consumer_error + 'a) \<times> 'c) \<Rightarrow> 'c \<times> 'r \<Rightarrow> ('k loop_error + 'a) \<times> 'c \<times> 'r" where
  "lift_consumer f = (\<lambda>(c, rt). case f c of (r, c') \<Rightarrow> (map_err LoopConsumer r, c', rt))"

definition books_round ::
  "('k, quarantine_message envelope, 'p) producer \<Rightarrow> ('k, 'o) object_store \<Rightarrow> 'c kafka_client \<Rightarrow> (nat \<Rightarrow> quarantine_env)
     \<Rightarrow> (u8 list \<Rightarrow> string + order_book envelope) \<Rightarrow> (string \<Rightarrow> ulid option) \<Rightarrow> poll list
     \<Rightarrow> ('p, 'o, 'c) kafka_consumer \<times> scanner_runtime \<Rightarrow> ('k loop_error + unit) \<times> ('p, 'o, 'c) kafka_consumer \<times> scanner_runtime" where
  "books_round send store K V decode parse polls =
     then_do (lift_consumer (consume send store K V decode polls)) (\<lambda>es.
     then_do (\<lambda>(c, rt). case apply_books parse es rt of (r, rt') \<Rightarrow> (map_err LoopRuntime r, c, rt')) (\<lambda>_.
     then_do (lift_consumer (consumer_ack K)) (\<lambda>_.
     lift_consumer (commit_sync K))))"

definition quotes_round ::
  "('k, quarantine_message envelope, 'p) producer \<Rightarrow> ('k, 'o) object_store \<Rightarrow> 'c kafka_client \<Rightarrow> (nat \<Rightarrow> quarantine_env)
     \<Rightarrow> (u8 list \<Rightarrow> string + quote envelope) \<Rightarrow> (string \<Rightarrow> ulid option) \<Rightarrow> poll list
     \<Rightarrow> ('p, 'o, 'c) kafka_consumer \<times> scanner_runtime \<Rightarrow> ('k loop_error + unit) \<times> ('p, 'o, 'c) kafka_consumer \<times> scanner_runtime" where
  "quotes_round send store K V decode parse polls =
     then_do (lift_consumer (consume send store K V decode polls)) (\<lambda>es.
     then_do (\<lambda>(c, rt). (Inr (), c, apply_quotes parse es rt)) (\<lambda>_.
     then_do (lift_consumer (consumer_ack K)) (\<lambda>_.
     lift_consumer (commit_sync K))))"

text \<open>A row of the market table; \<open>of_kind\<close> and \<open>of_status\<close> read the JSON names of the enums.\<close>

record market_row =
  mw_key :: string
  mw_venue :: string
  mw_kind :: string
  mw_title :: string
  mw_description_ref :: string
  mw_status :: string
  mw_close_ms :: "int option"
  mw_resolve_ms :: "int option"
  mw_outcome :: "string option"
  mw_jurisdiction_flags :: "string list"
  mw_venue_ref :: json
  mw_meta :: json

datatype market_row_error =
    MrVenue venue_id_error
  | MrKeyVenue
  | MrKey market_key_error
  | MrKind string
  | MrStatus string
  | MrTime string
  | MrJson json_object_error

fun transpose_time :: "(int \<Rightarrow> string + utc_time) \<Rightarrow> int option \<Rightarrow> string + utc_time option" where
  "transpose_time from_ms None = Inr None"
| "transpose_time from_ms (Some t) = map_ok Some (from_ms t)"

definition market_from_row ::
  "(string \<Rightarrow> string + instrument_kind) \<Rightarrow> (string \<Rightarrow> string + market_status) \<Rightarrow> (int \<Rightarrow> string + utc_time) \<Rightarrow> market_row
     \<Rightarrow> market_row_error + market" where
  "market_from_row of_kind of_status from_ms w =
     and_then (map_err MrVenue (venue_id_new (mw_venue w))) (\<lambda>venue.
     and_then (ok_or MrKeyVenue (strip_prefix (''mkt:'' @ venue_str venue @ '':'') (mw_key w))) (\<lambda>external.
     and_then (map_err MrKey (market_key_new venue external)) (\<lambda>key.
     and_then (map_err MrKind (of_kind (mw_kind w))) (\<lambda>kind.
     and_then (map_err MrStatus (of_status (mw_status w))) (\<lambda>status.
     and_then (map_err MrTime (transpose_time from_ms (mw_close_ms w))) (\<lambda>close.
     and_then (map_err MrTime (transpose_time from_ms (mw_resolve_ms w))) (\<lambda>resolve.
     and_then (map_err MrJson (json_object_new (mw_venue_ref w))) (\<lambda>ref.
     and_then (map_err MrJson (json_object_new (mw_meta w))) (\<lambda>meta.
     Inr \<lparr>m_key = key, m_venue = venue, m_kind = kind, m_title = mw_title w, m_description_ref = mw_description_ref w,
       m_status = status, m_close_ts = close, m_resolve_ts = resolve, m_outcome = mw_outcome w,
       m_jurisdiction_flags = mw_jurisdiction_flags w, m_venue_ref = ref, m_meta = meta\<rparr>)))))))))"

subsection \<open>What a cycle forgets\<close>

text \<open>The expiry never fails with a publication.\<close>

lemma append_transition_database:
  "append_transition eid i from to actor detail db = (Inl e :: 'k lifecycle_error + _) \<Longrightarrow> \<exists>m. e = LeDatabase m"
  unfolding append_transition_def by (auto split: option.splits if_splits)

lemma insert_attribution_database:
  "insert_attribution a db = (Inl e :: 'k lifecycle_error + _) \<Longrightarrow> \<exists>m. e = LeDatabase m"
  unfolding insert_attribution_def by (auto split: if_splits)

lemma expire_one_database: "expire_one ids now r db = (Inl e :: 'k lifecycle_error + _) \<Longrightarrow> \<exists>m. e = LeDatabase m"
  unfolding expire_one_def and_then_Inl_iff
  by (elim disjE exE conjE) (erule append_transition_database insert_attribution_database)+

lemma expire_rows_database: "expire_rows ids now rs db = (Inl e :: 'k lifecycle_error + _) \<Longrightarrow> \<exists>m. e = LeDatabase m"
proof (induction rs arbitrary: db)
  case (Cons r rs)
  then consider "expire_one (ids (length rs)) now r db = (Inl e :: 'k lifecycle_error + _)"
    | db1 where "expire_rows ids now rs db1 = (Inl e :: 'k lifecycle_error + _)"
    by (auto simp: and_then_Inl_iff map_ok_Inl_iff)
  then show ?case by cases (use expire_one_database Cons.IH in blast)+
qed simp

lemma expire_due_no_publish: "expire_due ids now db \<noteq> (Inl (LePublish e), db')"
  using expire_rows_database [of ids now "due_rows now db" db "LePublish e"]
  by (auto simp: expire_due_def commit_tx_def split: sum.splits)

lemma run_scan_dirty: "run_scan D E now rt = Some (r, rt1) \<Longrightarrow> rt_dirty rt1 = rt_dirty rt"
  by (auto simp: run_scan_def split: if_splits)

text \<open>
  A cycle that succeeds leaves nothing to be scanned, whatever its bound on pairs or its
  shedding skipped: without new data the next cycle scans nothing. A cycle that fails in its scan, its
  store or its publication forgets no change.
\<close>

theorem cycle_forgets_changes:
  fixes r :: "'k runtime_error + runtime_cycle_report"
  assumes "run_due D E F ids eids now (rt, s) = Some (r, rt', s')"
  shows "(\<forall>rep. r = Inr rep \<longrightarrow> rt_dirty rt' = [] \<and> (\<forall>D' E' now'. run_scan D' E' now' rt' = Some (Inr None, rt')))
    \<and> (\<forall>e. r = Inl (RtScan e) \<longrightarrow> rt_dirty rt' = rt_dirty rt)
    \<and> (\<forall>e. r = Inl (RtLifecycle (LePublish e)) \<longrightarrow> rt_dirty rt' = rt_dirty rt)"
proof -
  from assms obtain x rt1 where x: "run_scan D E now rt = Some (x, rt1)"
    by (auto simp: run_due_def Let_def)
  have d: "rt_dirty rt1 = rt_dirty rt" by (rule run_scan_dirty [OF x])
  show ?thesis
  proof (cases x)
    case (Inl e)
    with assms x d show ?thesis by (auto simp: run_due_def Let_def)
  next
    case (Inr out)
    obtain y db1 p1 where y: "run_durable F ids out s = (y, db1, p1)" by (cases "run_durable F ids out s") auto
    show ?thesis
    proof (cases y)
      case (Inl e)
      with assms x y Inr d show ?thesis by (auto simp: run_due_def Let_def)
    next
      case (Inr durable)
      obtain z :: "'k lifecycle_error + ulid list" and db2 where z: "expire_due eids now db1 = (z, db2)" by force
      have "z \<noteq> Inl (LePublish e)" for e using expire_due_no_publish [of eids now db1 e db2] z by auto
      with assms x y z Inr \<open>x = Inr out\<close> d show ?thesis
        by (cases z) (auto simp: run_due_def Let_def run_scan_def)
    qed
  qed
qed

subsection \<open>A message that stops the process\<close>

text \<open>
  A well-formed book message whose trace id is not a ULID ends the book loop, and with it
  the process, before its offset is stored: neither the stored nor the committed offsets change, so the
  same message is read again after every restart.
\<close>

theorem unreadable_trace_stops_books:
  assumes "deserialize_envelope decode m = Inr e" "parse (ev_trace_id e) = None"
  shows "\<exists>c'. books_round send store K V decode parse (PollMessage m # ps) (c, rt) = (Inl (LoopRuntime RtInvalidTrace), c', rt)
    \<and> kq_client c' = kq_client c \<and> kq_quarantine c' = kq_quarantine c"
  using assms by (simp add: books_round_def then_do_def lift_consumer_def apply_book_envelope_def)

subsection \<open>Market rows\<close>

lemma keyed_iff: "keyed markets \<longleftrightarrow> hm_wf markets \<and> (\<forall>k m. hm_get markets k = Some m \<longrightarrow> m_key m = k)"
  unfolding keyed_def by (auto simp: hm_get_in_set)

lemma keyed_collect: "keyed acc \<Longrightarrow> keyed (fold (\<lambda>m. hm_put (m_key m) m) ms acc)"
proof (induction ms arbitrary: acc)
  case (Cons m ms)
  from Cons.prems have "keyed (hm_put (m_key m) m acc)"
    by (auto simp: keyed_iff hm_get_put hm_wf_put split: if_splits)
  then show ?case by (simp add: Cons.IH)
qed simp

lemma collect_keys: "fst ` set (fold (\<lambda>m. hm_put (m_key m) m) ms acc) = m_key ` set ms \<union> fst ` set acc"
  by (induction ms arbitrary: acc) (simp_all add: dom_update Un_ac)

lemma set_extend_set: "set (set_extend xs ys) = set xs \<union> set ys"
  unfolding set_extend_def by (induction xs arbitrary: ys) auto

lemma replaced_markets:
  "keyed (rt_markets (replace_markets ms rt))" "m \<in> set ms \<Longrightarrow> m_key m \<in> set (rt_dirty (replace_markets ms rt))"
proof -
  have "keyed []" by (simp add: keyed_def)
  then show "keyed (rt_markets (replace_markets ms rt))"
    by (simp add: replace_markets_def Let_def keyed_collect)
  show "m_key m \<in> set (rt_dirty (replace_markets ms rt))" if "m \<in> set ms"
    using that collect_keys [of ms "[]"] by (simp add: replace_markets_def Let_def set_extend_set)
qed

lemma market_from_row_key:
  assumes "market_from_row of_kind of_status from_ms w = Inr m"
  obtains external where "mw_key w = ''mkt:'' @ mw_venue w @ '':'' @ external" "m_key m = MarketKey (mw_key w)"
    "m_venue m = VenueId (mw_venue w)"
proof -
  from assms obtain venue external key where v: "venue_id_new (mw_venue w) = Inr venue"
    and x: "strip_prefix (''mkt:'' @ venue_str venue @ '':'') (mw_key w) = Some external"
    and k: "market_key_new venue external = Inr key" and m: "m_key m = key" "m_venue m = venue"
    unfolding market_from_row_def result_iffs by (elim exE conjE) (rule that, auto)
  from v have venue: "venue = VenueId (mw_venue w)" by (simp add: venue_id_new_def split: if_splits)
  from x have w: "mw_key w = (''mkt:'' @ mw_venue w @ '':'') @ external"
    unfolding strip_prefix_def starts_with_def venue by (simp split: if_splits) (metis append_take_drop_id append_Cons append_Nil append_assoc)
  from k have "key = MarketKey (''mkt:'' @ mw_venue w @ '':'' @ external)"
    by (simp add: market_key_new_def venue split: if_splits)
  with w m venue show thesis by (intro that) simp_all
qed

text \<open>
  Property C14. A market loaded from a row has the row's own key and venue, its key begins with that
  venue, and the snapshot built from loaded markets is keyed by them.
\<close>

theorem loaded_market_keeps_key:
  assumes "market_from_row of_kind of_status from_ms w = Inr m"
  shows "key_str (m_key m) = mw_key w \<and> venue_str (m_venue m) = mw_venue w
    \<and> starts_with (''mkt:'' @ mw_venue w @ '':'') (mw_key w)
    \<and> (\<forall>ms rt. keyed (rt_markets (replace_markets (m # ms) rt)) \<and> m_key m \<in> set (rt_dirty (replace_markets (m # ms) rt)))"
proof -
  obtain external where "mw_key w = ''mkt:'' @ mw_venue w @ '':'' @ external" "m_key m = MarketKey (mw_key w)"
      "m_venue m = VenueId (mw_venue w)"
    using market_from_row_key [OF assms] .
  moreover have "m_key m \<in> set (rt_dirty (replace_markets (m # ms) rt))" for ms rt by (rule replaced_markets(2)) simp
  ultimately show ?thesis by (simp add: replaced_markets(1) starts_with_def)
qed

subsection \<open>Examples\<close>

definition wit_runtime :: scanner_runtime where
  "wit_runtime = (runtime_new (wit_scanner (cadence_new 500)) wit_ref)\<lparr>rt_dirty := [MarketKey ''mkt:a:x'']\<rparr>"

lemma wit_cycle:
  "\<exists>rep rt' s'. run_due dec_exact wit_scan_env wit_flush (\<lambda>_ _. 1) (\<lambda>_ _. 2) 1000 (wit_runtime, lifecycle_empty, [])
     = Some (Inr rep :: unit runtime_error + _, rt', s')"
proof -
  have i: "runtime_input wit_runtime = \<lparr>sp_quotes = [], sp_books = [], sp_markets = [], sp_evidence = []\<rparr>" "rt_dirty wit_runtime \<noteq> []"
    by (simp_all add: runtime_input_def wit_runtime_def runtime_new_def)
  have none: "detect_changed_bounded dec_exact cfg [] [] keys now n = Some ([], 0)" for cfg keys now n
    by (simp add: detect_changed_bounded_def detect_inner_eq considered_def market_list_def Let_def)
  obtain out rt1 where scan: "run_scan dec_exact wit_scan_env 1000 wit_runtime = Some (Inr (Some out), rt1)" "sx_opportunities out = []"
    using i by (auto simp: run_scan_def scan_incremental_def scan_impl_def none case_prod_unfold Let_def)
  have store: "run_durable wit_flush (\<lambda>_ _. 1) (Some out) (lifecycle_empty, [])
      = (Inr \<lparr>dr_created = 0, dr_updated = 0, dr_existing = 0, dr_published = 0\<rparr> :: unit lifecycle_error + _, lifecycle_empty, [])"
    by (simp add: run_durable_def persist_and_publish_def scan(2) flush_detection_outbox_def pending_outbox_def lifecycle_empty_def Let_def)
  show ?thesis
    by (simp add: run_due_def scan(1) store Let_def) (simp add: expire_due_def commit_tx_def due_rows_def lifecycle_empty_def)
qed

theorem cycle_forgets_changes_witness:
  "\<exists>rep rt' s'. run_due dec_exact wit_scan_env wit_flush (\<lambda>_ _. 1) (\<lambda>_ _. 2) 1000 (wit_runtime, lifecycle_empty, [])
     = Some (Inr rep :: unit runtime_error + _, rt', s') \<and> rt_dirty rt' = []"
  using wit_cycle cycle_forgets_changes by blast

definition wit_book_envelope :: "order_book envelope" where
  "wit_book_envelope = envelope_new ''not a ulid'' ''n'' ''OrderBook'' (wit_leg_book ''mkt:a:x'')"

definition wit_ulid :: "string \<Rightarrow> ulid option" where
  "wit_ulid s = (if length s = 26 then Some 1 else None)"

theorem unreadable_trace_stops_books_witness:
  "\<exists>c'. books_round wit_bus_send wit_bus_store group_client (\<lambda>_. undefined) (\<lambda>_. Inr wit_book_envelope) wit_ulid [PollMessage (wit_message 7)]
      (wit_consumer, wit_runtime) = (Inl (LoopRuntime RtInvalidTrace), c', wit_runtime)
    \<and> go_committed (kq_client c') = Map.empty"
proof -
  have d: "deserialize_envelope (\<lambda>_. Inr wit_book_envelope) (wit_message 7) = Inr wit_book_envelope"
    by (simp add: deserialize_envelope_def wit_message_def extract_trace_id_def extract_schema_def extract_header_def)
  have p: "wit_ulid (ev_trace_id wit_book_envelope) = None"
    by (simp add: wit_ulid_def wit_book_envelope_def envelope_new_def)
  from unreadable_trace_stops_books [where decode = "\<lambda>_. Inr wit_book_envelope" and parse = wit_ulid, OF d p, of wit_bus_send wit_bus_store group_client "\<lambda>_. undefined" "[]" wit_consumer wit_runtime]
  show ?thesis by (auto simp: wit_consumer_def)
qed

definition wit_market_row :: market_row where
  "wit_market_row = \<lparr>mw_key = ''mkt:kalshi:KX'', mw_venue = ''kalshi'', mw_kind = ''binary'', mw_title = ''t'',
     mw_description_ref = ''d'', mw_status = ''open'', mw_close_ms = None, mw_resolve_ms = Some 5, mw_outcome = None,
     mw_jurisdiction_flags = [], mw_venue_ref = JObject [], mw_meta = JObject []\<rparr>"

lemma wit_loaded: "\<exists>m. market_from_row (\<lambda>_. Inr BinaryContract) (\<lambda>_. Inr Open) Inr wit_market_row = Inr m"
  by (simp add: market_from_row_def wit_market_row_def venue_id_new_def is_ascii_lowercase_def strip_prefix_def starts_with_def
    market_key_new_def json_object_new_def map_ok_def)

theorem loaded_market_keeps_key_witness:
  "\<exists>m. market_from_row (\<lambda>_. Inr BinaryContract) (\<lambda>_. Inr Open) Inr wit_market_row = Inr m \<and> m_key m = MarketKey ''mkt:kalshi:KX''"
proof -
  obtain m where m: "market_from_row (\<lambda>_. Inr BinaryContract) (\<lambda>_. Inr Open) Inr wit_market_row = Inr m" using wit_loaded by blast
  from loaded_market_keeps_key [OF m] have "key_str (m_key m) = ''mkt:kalshi:KX''" by (simp add: wit_market_row_def)
  with m show ?thesis by (cases "m_key m") auto
qed

end
