(* ===== verification/Agent_Scheduler.thy ===== *)
theory Agent_Scheduler
  imports Authz Rust_Text
begin

text \<open>
  Automations and self-improvement proposals (\<^verbatim>\<open>crates/aether-agents\<close>: \<^verbatim>\<open>scheduler.rs\<close>,
  \<^verbatim>\<open>proposal.rs\<close>), in memory. The lemmas show that an automation is never dispatched beyond its
  budget, without an allowing decision on its own grant, or after it was revoked, and that a proposal is
  released once, by a human who has stepped up.
\<close>

subsection \<open>Schedules (scheduler.rs)\<close>

datatype scheduler_error =
    InvalidCron | InvalidSchedule | ScheduleDenied | AutomationGrantRequired | AutomationNotFound
  | GrantMismatch | ExecutionDenied | BudgetExceeded | InvalidAutomationTransition

record calendar_minute =
  cl_unix_minute :: u64
  cl_minute :: nat
  cl_hour :: nat
  cl_day_of_month :: nat
  cl_month :: nat
  cl_day_of_week :: nat

datatype cron_field = CronAny | CronExact nat

record cron_expression =
  cx_minute :: cron_field
  cx_hour :: cron_field
  cx_day_of_month :: cron_field
  cx_month :: cron_field
  cx_day_of_week :: cron_field

definition parse_field :: "string \<Rightarrow> nat \<Rightarrow> nat \<Rightarrow> scheduler_error + cron_field" where
  "parse_field s lo hi =
     (if s = ''*'' then Inr CronAny
      else and_then (ok_or InvalidCron (from_dec 8 s)) (\<lambda>v.
           if lo \<le> v \<and> v \<le> hi then Inr (CronExact v) else Inl InvalidCron))"

definition cron_parse :: "string \<Rightarrow> scheduler_error + cron_expression" where
  "cron_parse s =
     (let fields = split_ascii_whitespace s
      in if length fields \<noteq> 5 then Inl InvalidCron
         else and_then (parse_field (fields ! 0) 0 59) (\<lambda>minute.
              and_then (parse_field (fields ! 1) 0 23) (\<lambda>hour.
              and_then (parse_field (fields ! 2) 1 31) (\<lambda>day.
              and_then (parse_field (fields ! 3) 1 12) (\<lambda>month.
              and_then (parse_field (fields ! 4) 0 6) (\<lambda>weekday.
              Inr \<lparr>cx_minute = minute, cx_hour = hour, cx_day_of_month = day, cx_month = month, cx_day_of_week = weekday\<rparr>))))))"

primrec field_matches :: "cron_field \<Rightarrow> nat \<Rightarrow> bool" where
  "field_matches CronAny v = True"
| "field_matches (CronExact e) v = (e = v)"

definition cron_matches :: "cron_expression \<Rightarrow> calendar_minute \<Rightarrow> bool" where
  "cron_matches x m \<longleftrightarrow> field_matches (cx_minute x) (cl_minute m) \<and> field_matches (cx_hour x) (cl_hour m)
     \<and> field_matches (cx_day_of_month x) (cl_day_of_month m) \<and> field_matches (cx_month x) (cl_month m)
     \<and> field_matches (cx_day_of_week x) (cl_day_of_week m)"

record automation_budget =
  bu_max_runs :: u64
  bu_max_cost_minor :: u64
  bu_cost_per_run_minor :: u64

datatype automation_status = AutoActive | AutoPaused | AutoRevoked

record scheduled_automation =
  sa_id :: string
  sa_actor :: actor
  sa_grant_id :: string
  sa_action :: action
  sa_cron :: cron_expression
  sa_budget :: automation_budget
  sa_runs :: u64
  sa_cost_minor :: u64
  sa_last_slot :: "u64 option"
  sa_status :: automation_status

type_synonym automation_scheduler = "(string, scheduled_automation) hash_map"

definition schedule ::
  "string \<Rightarrow> actor \<Rightarrow> evaluation_context \<Rightarrow> grant \<Rightarrow> action \<Rightarrow> cron_expression \<Rightarrow> automation_budget \<Rightarrow> automation_scheduler
     \<Rightarrow> scheduler_error + automation_scheduler" where
  "schedule i owner c g a cron budget s =
     (if i = [] \<or> hm_get s i \<noteq> None \<or> bu_max_runs budget = 0 \<or> bu_cost_per_run_minor budget > bu_max_cost_minor budget
      then Inl InvalidSchedule
      else if de_verdict (evaluate owner ScheduleAutomation c) \<noteq> VAllow then Inl ScheduleDenied
      else if gr_actor_kind g \<noteq> Automation then Inl AutomationGrantRequired
      else if de_verdict (evaluate \<lparr>ac_id = gr_actor_id g, ac_kind = Automation\<rparr> a (evaluation_context_new (ev_now c) (Some g))) \<noteq> VAllow
      then Inl ExecutionDenied
      else Inr (hm_put i \<lparr>sa_id = i, sa_actor = \<lparr>ac_id = gr_actor_id g, ac_kind = Automation\<rparr>, sa_grant_id = gr_id g, sa_action = a,
             sa_cron = cron, sa_budget = budget, sa_runs = 0, sa_cost_minor = 0, sa_last_slot = None, sa_status = AutoActive\<rparr> s))"

text \<open>\<^verbatim>\<open>unix_minute.saturating_mul(60)\<close>, the time of the decision in seconds.\<close>

definition slot_seconds :: "calendar_minute \<Rightarrow> nat" where
  "slot_seconds m = min (unat (cl_unix_minute m) * 60) (2 ^ 64 - 1)"

definition dispatch_context :: "calendar_minute \<Rightarrow> grant \<Rightarrow> evaluation_context" where
  "dispatch_context slot g = evaluation_context_new (slot_seconds slot) (Some g)"

text \<open>\<open>run\<close> is the work itself, on a state of its own.\<close>

definition run_automation ::
  "string \<Rightarrow> calendar_minute \<Rightarrow> grant \<Rightarrow> ('w \<Rightarrow> 't \<times> 'w) \<Rightarrow> automation_scheduler \<times> 'w
     \<Rightarrow> (scheduler_error + 't option) \<times> automation_scheduler \<times> 'w" where
  "run_automation i slot g run = (\<lambda>(s, w).
     (case hm_get s i of
        None \<Rightarrow> (Inl AutomationNotFound, s, w)
      | Some t \<Rightarrow>
          if sa_status t \<noteq> AutoActive \<or> sa_last_slot t = Some (cl_unix_minute slot) \<or> \<not> cron_matches (sa_cron t) slot
          then (Inr None, s, w)
          else if gr_id g \<noteq> sa_grant_id t then (Inl GrantMismatch, s, w)
          else if de_verdict (evaluate (sa_actor t) (sa_action t) (dispatch_context slot g)) \<noteq> VAllow then (Inl ExecutionDenied, s, w)
          else (case (checked_add_w (sa_runs t) 1, checked_add_w (sa_cost_minor t) (bu_cost_per_run_minor (sa_budget t))) of
                  (Some runs, Some cost) \<Rightarrow>
                    if runs > bu_max_runs (sa_budget t) \<or> cost > bu_max_cost_minor (sa_budget t) then (Inl BudgetExceeded, s, w)
                    else let (v, w') = run w
                         in (Inr (Some v), hm_put i (t\<lparr>sa_runs := runs, sa_cost_minor := cost, sa_last_slot := Some (cl_unix_minute slot)\<rparr>) s, w')
                | _ \<Rightarrow> (Inl BudgetExceeded, s, w))))"

definition pause :: "string \<Rightarrow> automation_scheduler \<Rightarrow> scheduler_error + automation_scheduler" where
  "pause i s =
     (case hm_get s i of
        None \<Rightarrow> Inl AutomationNotFound
      | Some t \<Rightarrow> if sa_status t = AutoRevoked then Inl InvalidAutomationTransition
                  else Inr (hm_put i (t\<lparr>sa_status := AutoPaused\<rparr>) s))"

definition revoke_automation :: "string \<Rightarrow> automation_scheduler \<Rightarrow> scheduler_error + automation_scheduler" where
  "revoke_automation i s =
     (case hm_get s i of
        None \<Rightarrow> Inl AutomationNotFound
      | Some t \<Rightarrow> Inr (hm_put i (t\<lparr>sa_status := AutoRevoked\<rparr>) s))"

definition automation_status_of :: "string \<Rightarrow> automation_scheduler \<Rightarrow> automation_status option" where
  "automation_status_of i s = map_option sa_status (hm_get s i)"

subsection \<open>Self-improvement proposals (proposal.rs)\<close>

datatype evidence_kind = MetricEvidence | AttributionEvidence

record improvement_evidence =
  ie_kind :: evidence_kind
  ie_source_id :: string
  ie_value :: rat
  ie_observed_at :: u64

datatype improvement_status = IpProposed | IpApplicationAuthorized | IpRejected

record improvement_proposal =
  ip_id :: string
  ip_summary :: string
  ip_unified_diff :: string
  ip_evidence :: "improvement_evidence list"
  ip_digest :: string
  ip_status :: improvement_status

record application_receipt =
  ar_proposal_id :: string
  ar_proposal_digest :: string
  ar_actor_id :: string

datatype improvement_error =
    IpInvalidIdentity | IpInvalidDiff | IpMetricEvidenceRequired | IpNotFound | IpHumanStepUpRequired
  | IpInvalidTransition | IpJson string

type_synonym improvement_store = "(string, improvement_proposal) hash_map"

text \<open>What the digest rests on: the JSON encoder and SHA-256, printed in lower-case hexadecimal.\<close>

record digest_env =
  dg_json :: "string \<times> string \<times> improvement_evidence list \<Rightarrow> string + u8 list"
  dg_sha256 :: "u8 list \<Rightarrow> u8 list"

definition proposal_digest ::
  "digest_env \<Rightarrow> string \<Rightarrow> string \<Rightarrow> improvement_evidence list \<Rightarrow> improvement_error + string" where
  "proposal_digest G summary diff evidence =
     map_ok (\<lambda>bytes. encode_hex (dg_sha256 G bytes)) (map_err IpJson (dg_json G (summary, diff, evidence)))"

definition improvement_propose ::
  "digest_env \<Rightarrow> string \<Rightarrow> string \<Rightarrow> string \<Rightarrow> improvement_evidence list \<Rightarrow> improvement_store
     \<Rightarrow> (improvement_error + improvement_proposal) \<times> improvement_store" where
  "improvement_propose G i summary diff evidence s =
     (if i = [] \<or> hm_get s i \<noteq> None then (Inl IpInvalidIdentity, s)
      else if trim_str summary = [] \<or> \<not> starts_with ''--- '' diff \<or> \<not> contains (CHR 0x0A # ''+++ '') diff
      then (Inl IpInvalidDiff, s)
      else if evidence = [] \<or> (\<exists>e \<in> set evidence. trim_str (ie_source_id e) = []) \<or> (\<forall>e \<in> set evidence. ie_kind e \<noteq> MetricEvidence)
      then (Inl IpMetricEvidenceRequired, s)
      else (case proposal_digest G summary diff evidence of
              Inl e \<Rightarrow> (Inl e, s)
            | Inr digest \<Rightarrow>
                let p = \<lparr>ip_id = i, ip_summary = summary, ip_unified_diff = diff, ip_evidence = evidence, ip_digest = digest,
                         ip_status = IpProposed\<rparr>
                in (Inr p, hm_put i p s)))"

definition authorize_application ::
  "string \<Rightarrow> actor \<Rightarrow> evaluation_context \<Rightarrow> improvement_store \<Rightarrow> (improvement_error + application_receipt) \<times> improvement_store" where
  "authorize_application i actor c s =
     (if ac_kind actor \<noteq> Human \<or> de_verdict (evaluate actor ApplySelfImprovement c) \<noteq> VAllow then (Inl IpHumanStepUpRequired, s)
      else (case hm_get s i of
              None \<Rightarrow> (Inl IpNotFound, s)
            | Some p \<Rightarrow>
                if ip_status p \<noteq> IpProposed then (Inl IpInvalidTransition, s)
                else (Inr \<lparr>ar_proposal_id = ip_id p, ar_proposal_digest = ip_digest p, ar_actor_id = ac_id actor\<rparr>,
                      hm_put i (p\<lparr>ip_status := IpApplicationAuthorized\<rparr>) s)))"

subsection \<open>Runs of the scheduler\<close>

text \<open>A run that records each dispatch as the id, the slot and the grant it was given.\<close>

type_synonym dispatch_log = "(string \<times> calendar_minute \<times> grant) list"

datatype scheduler_call =
    ScSchedule string actor evaluation_context grant action cron_expression automation_budget
  | ScRun string calendar_minute grant
  | ScPause string
  | ScRevoke string

definition or_same :: "'e + 's \<Rightarrow> 's \<Rightarrow> 's" where
  "or_same r s = (case r of Inl _ \<Rightarrow> s | Inr s' \<Rightarrow> s')"

fun scheduler_step :: "scheduler_call \<Rightarrow> automation_scheduler \<times> dispatch_log \<Rightarrow> automation_scheduler \<times> dispatch_log" where
  "scheduler_step (ScSchedule i owner c g a cron budget) (s, w) = (or_same (schedule i owner c g a cron budget s) s, w)"
| "scheduler_step (ScRun i slot g) sw = snd (run_automation i slot g (\<lambda>w. ((), w @ [(i, slot, g)])) sw)"
| "scheduler_step (ScPause i) (s, w) = (or_same (pause i s) s, w)"
| "scheduler_step (ScRevoke i) (s, w) = (or_same (revoke_automation i s) s, w)"

text \<open>What a dispatch rests on, and what the scheduler keeps: the log of an automation is as long as
  its counter says, within its budget.\<close>

definition cleared_dispatch :: "scheduled_automation \<Rightarrow> calendar_minute \<Rightarrow> grant \<Rightarrow> bool" where
  "cleared_dispatch t slot g \<longleftrightarrow> cron_matches (sa_cron t) slot \<and> gr_id g = sa_grant_id t
     \<and> de_verdict (evaluate (sa_actor t) (sa_action t) (dispatch_context slot g)) = VAllow"

definition dispatches :: "string \<Rightarrow> dispatch_log \<Rightarrow> dispatch_log" where
  "dispatches i w = filter (\<lambda>(j, _). j = i) w"

definition within_budget :: "scheduled_automation \<Rightarrow> nat \<Rightarrow> bool" where
  "within_budget t n \<longleftrightarrow> unat (sa_runs t) = n \<and> n \<le> unat (bu_max_runs (sa_budget t))
     \<and> unat (sa_cost_minor t) = n * unat (bu_cost_per_run_minor (sa_budget t))
     \<and> unat (sa_cost_minor t) \<le> unat (bu_max_cost_minor (sa_budget t))"

definition scheduler_inv :: "automation_scheduler \<times> dispatch_log \<Rightarrow> bool" where
  "scheduler_inv = (\<lambda>(s, w).
     (\<forall>i t. hm_get s i = Some t \<longrightarrow> within_budget t (length (dispatches i w)))
     \<and> (\<forall>(i, slot, g) \<in> set w. \<exists>t. hm_get s i = Some t \<and> cleared_dispatch t slot g))"

text \<open>The fields that never change once an automation is scheduled.\<close>

definition same_terms :: "scheduled_automation \<Rightarrow> scheduled_automation \<Rightarrow> bool" where
  "same_terms t u \<longleftrightarrow> sa_actor u = sa_actor t \<and> sa_grant_id u = sa_grant_id t \<and> sa_action u = sa_action t
     \<and> sa_cron u = sa_cron t \<and> sa_budget u = sa_budget t"

lemma cleared_same_terms: "same_terms t u \<Longrightarrow> cleared_dispatch u slot g = cleared_dispatch t slot g"
  by (simp add: same_terms_def cleared_dispatch_def)

lemma within_status: "within_budget (t\<lparr>sa_status := x\<rparr>) n = within_budget t n"
  by (simp add: within_budget_def)

lemma scheduler_inv_status:
  assumes "scheduler_inv (s, w)" "hm_get s i = Some t"
  shows "scheduler_inv (hm_put i (t\<lparr>sa_status := x\<rparr>) s, w)"
proof -
  have "cleared_dispatch (t\<lparr>sa_status := x\<rparr>) slot g = cleared_dispatch t slot g" for slot g
    by (rule cleared_same_terms) (simp add: same_terms_def)
  with assms show ?thesis
    unfolding scheduler_inv_def by (fastforce simp: hm_get_put within_status split: if_splits)
qed

lemma scheduler_inv_schedule:
  assumes "scheduler_inv (s, w)" "schedule i owner c g a cron budget s = Inr s'"
  shows "scheduler_inv (s', w)"
proof -
  from assms(2) obtain t where t: "hm_get s i = None" "s' = hm_put i t s" "sa_runs t = 0" "sa_cost_minor t = 0"
    by (auto simp: schedule_def split: if_splits)
  from assms(1) t(1) have "dispatches i w = []"
    by (auto simp: scheduler_inv_def dispatches_def filter_empty_conv)
  then have "within_budget t (length (dispatches i w))" by (simp add: within_budget_def t(3,4))
  with assms(1) t(1,2) show ?thesis
    unfolding scheduler_inv_def by (fastforce simp: hm_get_put split: if_splits)
qed

text \<open>A run that does something, and what it does.\<close>

lemma run_automationE:
  assumes "run_automation i slot g run (s, w) = (r, s', w')"
  obtains (stays) "s' = s" "w' = w" "\<And>v. r \<noteq> Inr (Some v)"
    | (runs) t v where "hm_get s i = Some t" "sa_status t = AutoActive" "sa_last_slot t \<noteq> Some (cl_unix_minute slot)"
      "cleared_dispatch t slot g" "unat (sa_runs t) + 1 \<le> unat (bu_max_runs (sa_budget t))"
      "unat (sa_cost_minor t) + unat (bu_cost_per_run_minor (sa_budget t)) \<le> unat (bu_max_cost_minor (sa_budget t))"
      "run w = (v, w')" "r = Inr (Some v)"
      "s' = hm_put i (t\<lparr>sa_runs := sa_runs t + 1, sa_cost_minor := sa_cost_minor t + bu_cost_per_run_minor (sa_budget t),
         sa_last_slot := Some (cl_unix_minute slot)\<rparr>) s"
proof (cases "\<exists>v. r = Inr (Some v)")
  case True
  then obtain v where v: "r = Inr (Some v)" ..
  from assms obtain t runs cost where t: "hm_get s i = Some t" "sa_status t = AutoActive"
      "sa_last_slot t \<noteq> Some (cl_unix_minute slot)" "cron_matches (sa_cron t) slot" "gr_id g = sa_grant_id t"
      "de_verdict (evaluate (sa_actor t) (sa_action t) (dispatch_context slot g)) = VAllow"
    and c: "checked_add_w (sa_runs t) 1 = Some runs" "checked_add_w (sa_cost_minor t) (bu_cost_per_run_minor (sa_budget t)) = Some cost"
      "runs \<le> bu_max_runs (sa_budget t)" "cost \<le> bu_max_cost_minor (sa_budget t)"
    and w: "run w = (v, w')" "s' = hm_put i (t\<lparr>sa_runs := runs, sa_cost_minor := cost, sa_last_slot := Some (cl_unix_minute slot)\<rparr>) s"
    by (auto simp: v run_automation_def not_less split: option.splits if_splits prod.splits)
  from c have "runs = sa_runs t + 1" "unat runs = unat (sa_runs t) + 1" "cost = sa_cost_minor t + bu_cost_per_run_minor (sa_budget t)"
    "unat cost = unat (sa_cost_minor t) + unat (bu_cost_per_run_minor (sa_budget t))"
    by (simp_all add: checked_add_w_unat unat_add_small)
  with t c w v show thesis
    by (intro runs [of t v]) (simp_all add: cleared_dispatch_def word_le_nat_alt)
next
  case False
  with assms show thesis
    by (intro stays) (auto simp: run_automation_def split: option.splits if_splits prod.splits)
qed

lemma dispatches_append: "dispatches j (w @ [(i, slot, g)]) = dispatches j w @ (if i = j then [(i, slot, g)] else [])"
  by (simp add: dispatches_def)

lemma scheduler_inv_run:
  assumes "scheduler_inv (s, w)"
  shows "scheduler_inv (snd (run_automation i slot g (\<lambda>w. ((), w @ [(i, slot, g)])) (s, w)))"
proof -
  obtain r s' w' where run: "run_automation i slot g (\<lambda>w. ((), w @ [(i, slot, g)])) (s, w) = (r, s', w')"
    by (cases "run_automation i slot g (\<lambda>w. ((), w @ [(i, slot, g)])) (s, w)") auto
  have "scheduler_inv (s', w')"
  proof (rule run_automationE [OF run])
    assume "s' = s" "w' = w"
    with assms show ?thesis by simp
  next
    fix t :: scheduled_automation and v :: unit
    let ?u = "t\<lparr>sa_runs := sa_runs t + 1, sa_cost_minor := sa_cost_minor t + bu_cost_per_run_minor (sa_budget t),
        sa_last_slot := Some (cl_unix_minute slot)\<rparr>"
    assume t: "hm_get s i = Some t" "cleared_dispatch t slot g"
      and b: "unat (sa_runs t) + 1 \<le> unat (bu_max_runs (sa_budget t))"
        "unat (sa_cost_minor t) + unat (bu_cost_per_run_minor (sa_budget t)) \<le> unat (bu_max_cost_minor (sa_budget t))"
      and w: "((), w @ [(i, slot, g)]) = (v, w')" "s' = hm_put i ?u s"
    have "unat (sa_runs t) + 1 < 2 ^ 64" "unat (sa_cost_minor t) + unat (bu_cost_per_run_minor (sa_budget t)) < 2 ^ 64"
      using b unsigned_less [of "bu_max_runs (sa_budget t)", where ?'a = nat]
        unsigned_less [of "bu_max_cost_minor (sa_budget t)", where ?'a = nat] by simp_all
    then have "unat (sa_runs t + 1) = unat (sa_runs t) + 1"
      "unat (sa_cost_minor t + bu_cost_per_run_minor (sa_budget t)) = unat (sa_cost_minor t) + unat (bu_cost_per_run_minor (sa_budget t))"
      by (simp_all add: unat_add_small)
    moreover from assms t(1) have "within_budget t (length (dispatches i w))" by (simp add: scheduler_inv_def)
    ultimately have u: "within_budget ?u (length (dispatches i w'))"
      using b w(1) by (auto simp: within_budget_def dispatches_append)
    have c: "cleared_dispatch ?u x y = cleared_dispatch t x y" for x y
      by (rule cleared_same_terms) (simp add: same_terms_def)
    have budgets: "within_budget t' (length (dispatches j w'))" if "hm_get s' j = Some t'" for j t'
      using that assms u w by (cases "j = i") (auto simp: scheduler_inv_def hm_get_put dispatches_append)
    have cleared: "\<exists>t. hm_get s' j = Some t \<and> cleared_dispatch t x y" if "(j, x, y) \<in> set w'" for j x y
    proof (cases "(j, x, y) = (i, slot, g)")
      case True
      with t(2) c show ?thesis by (simp add: w(2) hm_get_put)
    next
      case False
      with that w(1) have "(j, x, y) \<in> set w" by auto
      with assms t(1) c show ?thesis
        unfolding scheduler_inv_def by (cases "j = i") (fastforce simp: w(2) hm_get_put)+
    qed
    from budgets cleared show ?thesis unfolding scheduler_inv_def by blast
  qed
  then show ?thesis by (simp add: run)
qed

interpretation scheduler: invariant_machine scheduler_step scheduler_inv
proof
  fix sw e
  assume i: "scheduler_inv sw"
  obtain s w where sw: "sw = (s, w)" by (cases sw)
  from i sw have i: "scheduler_inv (s, w)" by simp
  show "scheduler_inv (scheduler_step e sw)"
  proof (cases e)
    case (ScSchedule j owner c g a cron budget)
    with i sw show ?thesis
      by (cases "schedule j owner c g a cron budget s") (simp_all add: or_same_def scheduler_inv_schedule)
  next
    case (ScRun j slot g)
    with scheduler_inv_run [OF i] sw show ?thesis by simp
  next
    case (ScPause j)
    with i sw show ?thesis
      by (auto simp: or_same_def pause_def scheduler_inv_status split: option.splits)
  next
    case (ScRevoke j)
    with i sw show ?thesis
      by (auto simp: or_same_def revoke_automation_def scheduler_inv_status split: option.splits)
  qed
qed

lemma scheduler_inv_empty: "scheduler_inv ([], [])"
  by (simp add: scheduler_inv_def)

text \<open>
  Property C20. Whatever calls the scheduler receives and in whatever order, an automation has been
  dispatched at most as often as its budget allows and for at most its cost; and each dispatch was in a
  minute that its schedule matches, with the grant it was scheduled under, and on an allowing decision
  for its own action at that minute.
\<close>

theorem automations_stay_within_grant_and_budget:
  assumes "fold scheduler_step calls ([], []) = (s, w)" "(i, slot, g) \<in> set w"
  shows "\<exists>t. hm_get s i = Some t \<and> cron_matches (sa_cron t) slot \<and> gr_id g = sa_grant_id t
    \<and> de_verdict (evaluate (sa_actor t) (sa_action t) (dispatch_context slot g)) = VAllow
    \<and> length (dispatches i w) \<le> unat (bu_max_runs (sa_budget t))
    \<and> length (dispatches i w) * unat (bu_cost_per_run_minor (sa_budget t)) \<le> unat (bu_max_cost_minor (sa_budget t))"
  using scheduler.run_inv [OF scheduler_inv_empty, of calls] assms
  by (force simp: scheduler_inv_def within_budget_def cleared_dispatch_def)

subsection \<open>A revoked automation\<close>

definition stopped_with :: "string \<Rightarrow> dispatch_log \<Rightarrow> automation_scheduler \<times> dispatch_log \<Rightarrow> bool" where
  "stopped_with i ds = (\<lambda>(s, w). automation_status_of i s = Some AutoRevoked \<and> dispatches i w = ds)"

lemma status_put: "automation_status_of j (hm_put i t s) = (if j = i then Some (sa_status t) else automation_status_of j s)"
  by (simp add: automation_status_of_def hm_get_put)

interpretation stopped: invariant_machine scheduler_step "stopped_with i ds" for i ds
proof
  fix sw e
  assume st: "stopped_with i ds sw"
  obtain s w where sw: "sw = (s, w)" by (cases sw)
  from st sw have r: "automation_status_of i s = Some AutoRevoked" "dispatches i w = ds" by (simp_all add: stopped_with_def)
  show "stopped_with i ds (scheduler_step e sw)"
  proof (cases e)
    case (ScSchedule j owner c g a cron budget)
    with r sw show ?thesis
      by (auto simp: or_same_def schedule_def stopped_with_def status_put automation_status_of_def hm_get_put)
  next
    case (ScRun j slot g)
    obtain x s' w' where run: "run_automation j slot g (\<lambda>w. ((), w @ [(j, slot, g)])) (s, w) = (x, s', w')"
      by (cases "run_automation j slot g (\<lambda>w. ((), w @ [(j, slot, g)])) (s, w)") auto
    have "stopped_with i ds (s', w')"
      by (rule run_automationE [OF run]) (use r in \<open>auto simp: stopped_with_def automation_status_of_def hm_get_put dispatches_append\<close>)
    with ScRun sw run show ?thesis by simp
  next
    case (ScPause j)
    with r sw show ?thesis
      by (auto simp: or_same_def pause_def stopped_with_def status_put automation_status_of_def hm_get_put split: option.splits)
  next
    case (ScRevoke j)
    with r sw show ?thesis
      by (auto simp: or_same_def revoke_automation_def stopped_with_def status_put split: option.splits)
  qed
qed

text \<open>
  After a successful revocation no later call, a pause included, makes the
  automation run again.
\<close>

theorem revoked_automation_never_runs:
  assumes "revoke_automation i s = Inr s'" "fold scheduler_step calls (s', w) = (s'', w'')"
  shows "dispatches i w'' = dispatches i w \<and> automation_status_of i s'' = Some AutoRevoked"
proof -
  from assms(1) have "automation_status_of i s' = Some AutoRevoked"
    by (auto simp: revoke_automation_def status_put split: option.splits)
  then have "stopped_with i (dispatches i w) (s', w)" by (simp add: stopped_with_def)
  from stopped.run_inv [OF this, of calls] assms(2) show ?thesis by (simp add: stopped_with_def)
qed

subsection \<open>Releasing a proposal\<close>

datatype improvement_call =
    ImPropose digest_env string string string "improvement_evidence list"
  | ImAuthorize string actor evaluation_context

text \<open>A run that collects the receipts with the context each was given in.\<close>

type_synonym receipt_log = "(application_receipt \<times> actor \<times> evaluation_context) list"

fun improvement_step :: "improvement_call \<Rightarrow> improvement_store \<times> receipt_log \<Rightarrow> improvement_store \<times> receipt_log" where
  "improvement_step (ImPropose G i summary diff evidence) (s, w) = (snd (improvement_propose G i summary diff evidence s), w)"
| "improvement_step (ImAuthorize i actor c) (s, w) =
     (case authorize_application i actor c s of
        (Inl _, s') \<Rightarrow> (s', w)
      | (Inr r, s') \<Rightarrow> (s', w @ [(r, actor, c)]))"

definition released :: "improvement_store \<Rightarrow> application_receipt \<Rightarrow> bool" where
  "released s r \<longleftrightarrow> (\<exists>p. hm_get s (ar_proposal_id r) = Some p \<and> ip_status p = IpApplicationAuthorized \<and> ip_digest p = ar_proposal_digest r)"

definition human_stepped_up :: "actor \<Rightarrow> evaluation_context \<Rightarrow> bool" where
  "human_stepped_up actor c \<longleftrightarrow> ac_kind actor = Human \<and> ev_step_up_satisfied c
     \<and> de_verdict (evaluate actor ApplySelfImprovement c) = VAllow"

definition improvement_inv :: "improvement_store \<times> receipt_log \<Rightarrow> bool" where
  "improvement_inv = (\<lambda>(s, w). (\<forall>i p. hm_get s i = Some p \<longrightarrow> ip_id p = i)
     \<and> distinct (map (ar_proposal_id \<circ> fst) w)
     \<and> (\<forall>(r, actor, c) \<in> set w. released s r \<and> human_stepped_up actor c \<and> ar_actor_id r = ac_id actor))"

lemma improvement_invI:
  assumes "\<And>i p. hm_get s i = Some p \<Longrightarrow> ip_id p = i" "distinct (map (ar_proposal_id \<circ> fst) w)"
    and "\<And>r actor c. (r, actor, c) \<in> set w \<Longrightarrow> released s r \<and> human_stepped_up actor c \<and> ar_actor_id r = ac_id actor"
  shows "improvement_inv (s, w)"
  using assms unfolding improvement_inv_def by blast

lemma step_up_needed:
  "de_verdict (evaluate actor ApplySelfImprovement c) = VAllow \<Longrightarrow> ev_step_up_satisfied c"
  using evaluate_verdict [of actor ApplySelfImprovement c VAllow]
  by (auto simp: evaluate_tier_verdict needs_step_up_def always_requires_step_up_def split: if_splits)

lemma released_put: "ar_proposal_id r \<noteq> i \<Longrightarrow> released (hm_put i p s) r = released s r"
  by (simp add: released_def hm_get_put)

interpretation improvements: invariant_machine improvement_step improvement_inv
proof
  fix sw e
  assume i: "improvement_inv sw"
  obtain s w where sw: "sw = (s, w)" by (cases sw)
  from i sw have keys: "hm_get s j = Some p \<Longrightarrow> ip_id p = j" and d: "distinct (map (ar_proposal_id \<circ> fst) w)"
    and all: "(r, actor, c) \<in> set w \<Longrightarrow> released s r \<and> human_stepped_up actor c \<and> ar_actor_id r = ac_id actor" for j p r actor c
    by (auto simp: improvement_inv_def)
  show "improvement_inv (improvement_step e sw)"
  proof (cases e)
    case (ImPropose G i summary diff evidence)
    show ?thesis
    proof (cases "improvement_propose G i summary diff evidence s = (fst (improvement_propose G i summary diff evidence s), s)")
      case True
      then have "snd (improvement_propose G i summary diff evidence s) = s" by (metis snd_conv)
      with \<open>improvement_inv sw\<close> ImPropose sw show ?thesis by simp
    next
      case False
      then obtain p where p: "hm_get s i = None" "snd (improvement_propose G i summary diff evidence s) = hm_put i p s" "ip_id p = i"
        by (auto simp: improvement_propose_def Let_def split: if_splits sum.splits)
      have keep: "released (hm_put i p s) r" if "released s r" for r
        using that p(1) by (auto simp: released_def hm_get_put)
      have "ip_id q = j" if "hm_get (hm_put i p s) j = Some q" for j q
        using that keys p(3) by (auto simp: hm_get_put split: if_splits)
      with d all keep show ?thesis
        unfolding ImPropose sw improvement_step.simps p(2) by (auto simp: improvement_inv_def)
    qed
  next
    case (ImAuthorize i actor c)
    show ?thesis
    proof (cases "fst (authorize_application i actor c s)")
      case (Inl x)
      then have "authorize_application i actor c s = (Inl x, s)"
        by (auto simp: authorize_application_def split: if_splits option.splits)
      with \<open>improvement_inv sw\<close> ImAuthorize sw show ?thesis by simp
    next
      case (Inr r)
      then obtain p where p: "hm_get s i = Some p" "ip_status p = IpProposed" "ac_kind actor = Human"
          "de_verdict (evaluate actor ApplySelfImprovement c) = VAllow"
        and r: "r = \<lparr>ar_proposal_id = ip_id p, ar_proposal_digest = ip_digest p, ar_actor_id = ac_id actor\<rparr>"
        and a: "authorize_application i actor c s = (Inr r, hm_put i (p\<lparr>ip_status := IpApplicationAuthorized\<rparr>) s)"
        by (auto simp: authorize_application_def split: if_splits option.splits)
      have id: "ip_id p = i" by (rule keys [OF p(1)])
      have fresh: "ar_proposal_id r' \<noteq> i" if "released s r'" for r' using that p by (auto simp: released_def)
      have h: "human_stepped_up actor c" using p step_up_needed by (simp add: human_stepped_up_def)
      have d': "distinct (map (ar_proposal_id \<circ> fst) (w @ [(r, actor, c)]))"
        using d all fresh by (fastforce simp: r id)
      have keys': "ip_id q = j" if "hm_get (hm_put i (p\<lparr>ip_status := IpApplicationAuthorized\<rparr>) s) j = Some q" for j q
        using that keys id by (auto simp: hm_get_put split: if_splits)
      have all': "released (hm_put i (p\<lparr>ip_status := IpApplicationAuthorized\<rparr>) s) r' \<and> human_stepped_up actor' c' \<and> ar_actor_id r' = ac_id actor'"
        if "(r', actor', c') \<in> set (w @ [(r, actor, c)])" for r' actor' c'
      proof (cases "(r', actor', c') = (r, actor, c)")
        case True
        with h id show ?thesis by (simp add: r released_def hm_get_put)
      next
        case False
        with that have "(r', actor', c') \<in> set w" by auto
        with all fresh show ?thesis by (simp add: released_put)
      qed
      have "improvement_step e sw = (hm_put i (p\<lparr>ip_status := IpApplicationAuthorized\<rparr>) s, w @ [(r, actor, c)])"
        by (simp add: ImAuthorize sw a)
      then show ?thesis by (simp only:) (rule improvement_invI [OF keys' d' all'])
    qed
  qed
qed

text \<open>
  Property C21. Over any sequence of calls a proposal is released at most once, with the digest it
  was stored with, to a human whose decision was made with a fresh step-up.
\<close>

theorem proposal_released_once_by_human:
  assumes "fold improvement_step calls ([], []) = (s, w)"
  shows "distinct (map (ar_proposal_id \<circ> fst) w)
    \<and> (\<forall>(r, actor, c) \<in> set w. released s r \<and> ac_kind actor = Human \<and> ev_step_up_satisfied c \<and> ar_actor_id r = ac_id actor)"
proof -
  have "improvement_inv ([], [])" by (simp add: improvement_inv_def)
  from improvements.run_inv [OF this, of calls] assms show ?thesis
    by (auto simp: improvement_inv_def human_stepped_up_def)
qed

subsection \<open>Examples\<close>

definition wit_auto_grant :: grant where
  "wit_auto_grant = \<lparr>gr_id = ''g'', gr_actor_id = ''bot'', gr_actor_kind = Automation, gr_tier = BoundedAutopilot,
     gr_scopes = {}, gr_scope_restricted = False, gr_expires_at = None, gr_revoked_at = None\<rparr>"

definition wit_owner_grant :: grant where
  "wit_owner_grant = \<lparr>gr_id = ''h'', gr_actor_id = ''ann'', gr_actor_kind = Human, gr_tier = YoloWithinHardCaps,
     gr_scopes = {}, gr_scope_restricted = False, gr_expires_at = None, gr_revoked_at = None\<rparr>"

definition wit_owner_context :: evaluation_context where
  "wit_owner_context = (evaluation_context_new 5 (Some wit_owner_grant))
     \<lparr>ev_session_tier := Some YoloWithinHardCaps, ev_step_up_satisfied := True\<rparr>"

definition wit_cron :: cron_expression where
  "wit_cron = \<lparr>cx_minute = CronExact 30, cx_hour = CronAny, cx_day_of_month = CronAny, cx_month = CronAny, cx_day_of_week = CronAny\<rparr>"

definition wit_budget :: automation_budget where
  "wit_budget = \<lparr>bu_max_runs = 1, bu_max_cost_minor = 10, bu_cost_per_run_minor = 7\<rparr>"

definition wit_slot :: "u64 \<Rightarrow> calendar_minute" where
  "wit_slot n = \<lparr>cl_unix_minute = n, cl_minute = 30, cl_hour = 1, cl_day_of_month = 2, cl_month = 3, cl_day_of_week = 4\<rparr>"

lemma wit_cron_parsed: "cron_parse ''30 * * * *'' = Inr wit_cron"
  by (simp add: cron_parse_def split_ascii_whitespace_def is_ascii_space_def parse_field_def from_dec_def is_ascii_digit_def
    wit_cron_def Let_def)

lemma wit_auto_allowed:
  "de_verdict (evaluate \<lparr>ac_id = ''bot'', ac_kind = Automation\<rparr> Query (evaluation_context_new n (Some wit_auto_grant))) = VAllow"
  by (simp add: evaluate_def evaluation_context_new_def evaluate_grant_def wit_auto_grant_def permits_scope_def evaluate_tier_def
    less_tier_def always_requires_step_up_def is_mutating_def)

lemma wit_owner_allowed:
  "a \<in> {ScheduleAutomation, ApplySelfImprovement} \<Longrightarrow> de_verdict (evaluate \<lparr>ac_id = ''ann'', ac_kind = Human\<rparr> a wit_owner_context) = VAllow"
  by (auto simp: evaluate_def evaluation_context_new_def evaluate_grant_def wit_owner_grant_def wit_owner_context_def permits_scope_def
    evaluate_tier_def tier_lower_def less_tier_def always_requires_step_up_def is_mutating_def)

definition wit_calls :: "scheduler_call list" where
  "wit_calls = [ScSchedule ''a'' \<lparr>ac_id = ''ann'', ac_kind = Human\<rparr> wit_owner_context wit_auto_grant Query wit_cron wit_budget,
     ScRun ''a'' (wit_slot 90) wit_auto_grant, ScRun ''a'' (wit_slot 150) wit_auto_grant]"

definition wit_task :: scheduled_automation where
  "wit_task = \<lparr>sa_id = ''a'', sa_actor = \<lparr>ac_id = ''bot'', ac_kind = Automation\<rparr>, sa_grant_id = ''g'', sa_action = Query, sa_cron = wit_cron,
     sa_budget = wit_budget, sa_runs = 1, sa_cost_minor = 7, sa_last_slot = Some 90, sa_status = AutoActive\<rparr>"

lemma wit_scheduler_run: "fold scheduler_step wit_calls ([], []) = ([(''a'', wit_task)], [(''a'', wit_slot 90, wit_auto_grant)])"
proof -
  have g: "gr_id wit_auto_grant = ''g''" "gr_actor_id wit_auto_grant = ''bot''" "gr_actor_kind wit_auto_grant = Automation"
    by (simp_all add: wit_auto_grant_def)
  have m: "cron_matches wit_cron (wit_slot n)" for n by (simp add: cron_matches_def wit_cron_def wit_slot_def)
  have s: "schedule ''a'' \<lparr>ac_id = ''ann'', ac_kind = Human\<rparr> wit_owner_context wit_auto_grant Query wit_cron wit_budget []
      = Inr [(''a'', wit_task\<lparr>sa_runs := 0, sa_cost_minor := 0, sa_last_slot := None\<rparr>)]"
    by (simp add: schedule_def g wit_owner_allowed wit_auto_allowed wit_task_def) (simp add: wit_budget_def)
  have r: "run_automation ''a'' (wit_slot 90) wit_auto_grant run ([(''a'', wit_task\<lparr>sa_runs := 0, sa_cost_minor := 0, sa_last_slot := None\<rparr>)], w)
      = (case run w of (v, w') \<Rightarrow> (Inr (Some v), [(''a'', wit_task)], w'))" for run :: "dispatch_log \<Rightarrow> unit \<times> dispatch_log" and w
    by (simp add: run_automation_def wit_task_def m g dispatch_context_def wit_auto_allowed split: prod.split)
      (simp add: wit_budget_def checked_add_w_def wit_slot_def)
  have e: "run_automation ''a'' (wit_slot 150) wit_auto_grant run ([(''a'', wit_task)], w)
      = (Inl BudgetExceeded, [(''a'', wit_task)], w)" for run :: "dispatch_log \<Rightarrow> unit \<times> dispatch_log" and w
    by (simp add: run_automation_def wit_task_def m g dispatch_context_def wit_auto_allowed)
      (simp add: wit_budget_def checked_add_w_def wit_slot_def)
  show ?thesis by (simp add: wit_calls_def s or_same_def r e)
qed

theorem automations_stay_within_grant_and_budget_witness:
  "\<exists>t. hm_get [(''a'', wit_task)] ''a'' = Some t \<and> length (dispatches ''a'' [(''a'', wit_slot 90, wit_auto_grant)]) \<le> unat (bu_max_runs (sa_budget t))"
  using automations_stay_within_grant_and_budget [OF wit_scheduler_run, of "''a''" "wit_slot 90" wit_auto_grant] by auto

theorem revoked_automation_never_runs_witness:
  "dispatches ''a'' (snd (fold scheduler_step [ScPause ''a'', ScRun ''a'' (wit_slot 150) wit_auto_grant]
     ([(''a'', wit_task\<lparr>sa_status := AutoRevoked\<rparr>)], [(''a'', wit_slot 90, wit_auto_grant)])))
     = [(''a'', wit_slot 90, wit_auto_grant)]"
proof -
  let ?calls = "[ScPause ''a'', ScRun ''a'' (wit_slot 150) wit_auto_grant]"
  have r: "revoke_automation ''a'' [(''a'', wit_task)] = Inr [(''a'', wit_task\<lparr>sa_status := AutoRevoked\<rparr>)]"
    by (simp add: revoke_automation_def)
  obtain s w where sw: "fold scheduler_step ?calls ([(''a'', wit_task\<lparr>sa_status := AutoRevoked\<rparr>)], [(''a'', wit_slot 90, wit_auto_grant)]) = (s, w)"
    by (cases "fold scheduler_step ?calls ([(''a'', wit_task\<lparr>sa_status := AutoRevoked\<rparr>)], [(''a'', wit_slot 90, wit_auto_grant)])") auto
  from revoked_automation_never_runs [OF r sw] show ?thesis unfolding sw by (simp add: dispatches_def)
qed

definition wit_digest :: digest_env where
  "wit_digest = \<lparr>dg_json = (\<lambda>_. Inr [1]), dg_sha256 = (\<lambda>_. [171])\<rparr>"

definition wit_evidence :: "improvement_evidence list" where
  "wit_evidence = [\<lparr>ie_kind = MetricEvidence, ie_source_id = ''m'', ie_value = 1, ie_observed_at = 0\<rparr>]"

definition wit_diff :: string where
  "wit_diff = ''--- a'' @ CHR 0x0A # ''+++ b''"

definition wit_authorize :: improvement_call where
  "wit_authorize = ImAuthorize ''p'' \<lparr>ac_id = ''ann'', ac_kind = Human\<rparr> wit_owner_context"

theorem proposal_released_once_by_human_witness:
  "\<exists>s r. fold improvement_step [ImPropose wit_digest ''p'' ''faster'' wit_diff wit_evidence, wit_authorize, wit_authorize] ([], [])
     = (s, [(r, \<lparr>ac_id = ''ann'', ac_kind = Human\<rparr>, wit_owner_context)])
     \<and> ar_proposal_digest r = ''ab'' \<and> released s r"
proof -
  let ?calls = "[ImPropose wit_digest ''p'' ''faster'' wit_diff wit_evidence, wit_authorize, wit_authorize]"
  have d: "contains (CHR 0x0A # ''+++ '') wit_diff" "starts_with ''--- '' wit_diff"
    by (simp_all add: contains_def wit_diff_def starts_with_def upt_conv_Cons)
  have h: "proposal_digest wit_digest a b c = Inr ''ab''" for a b c
    by (simp add: proposal_digest_def wit_digest_def encode_hex_def) (simp add: hex_digit_def)
  obtain s r where run: "fold improvement_step ?calls ([], []) = (s, [(r, \<lparr>ac_id = ''ann'', ac_kind = Human\<rparr>, wit_owner_context)])"
    and r: "ar_proposal_digest r = ''ab''"
    by (simp add: improvement_propose_def d h wit_authorize_def authorize_application_def wit_owner_allowed wit_evidence_def trim_str_def
      is_space_def Let_def)
  from proposal_released_once_by_human [OF run] run r show ?thesis by auto
qed

end
