(* ===== verification/Agent_Store.thy ===== *)
theory Agent_Store
  imports Agent_Scheduler
begin

text \<open>
  The durable automations and proposals of \<^verbatim>\<open>crates/aether-agents/src/persistence.rs\<close>, a transaction a
  step. The lemmas show that the durable scheduler, whose counters are signed, refines the one in memory,
  so that its dispatches stay within the same grants and budgets.
\<close>

subsection \<open>The tables\<close>

record automation_row =
  at_actor_id :: string
  at_grant_id :: string
  at_action :: action
  at_cron :: cron_expression
  at_max_runs :: int
  at_max_cost_minor :: int
  at_cost_per_run_minor :: int
  at_runs :: int
  at_cost_minor :: int
  at_last_slot :: "int option"
  at_status :: automation_status

record improvement_row =
  iw_proposal :: improvement_proposal
  iw_authorized_by :: "string option"

record agent_db =
  ag_automations :: "(string, automation_row) hash_map"
  ag_improvements :: "(string, improvement_row) hash_map"

datatype persistence_error =
    PeScheduleDenied | PeNotFound | PeGrantMismatch | PeExecutionDenied | PeBudgetExceeded | PeRange
  | PeHumanStepUpRequired | PeProposalNotFoundOrFinal | PeDatabase string

record automation_dispatch =
  dd_action :: action
  dd_run_number :: u64
  dd_total_cost_minor :: u64

subsection \<open>Automations (persistence.rs)\<close>

definition to_i64 :: "u64 \<Rightarrow> persistence_error + int" where
  "to_i64 v = (if unat v < 2 ^ 63 then Inr (int (unat v)) else Inl PeRange)"

definition try_u64 :: "int \<Rightarrow> persistence_error + u64" where
  "try_u64 x = (if 0 \<le> x then Inr (word_of_int x) else Inl PeRange)"

definition pg_schedule ::
  "string \<Rightarrow> actor \<Rightarrow> evaluation_context \<Rightarrow> grant \<Rightarrow> action \<Rightarrow> cron_expression \<Rightarrow> automation_budget \<Rightarrow> agent_db
     \<Rightarrow> persistence_error + agent_db" where
  "pg_schedule i owner c g a cron budget db =
     (if i = [] \<or> gr_actor_kind g \<noteq> Automation \<or> bu_max_runs budget = 0
         \<or> bu_cost_per_run_minor budget > bu_max_cost_minor budget \<or> de_verdict (evaluate owner ScheduleAutomation c) \<noteq> VAllow
      then Inl PeScheduleDenied
      else if de_verdict (evaluate \<lparr>ac_id = gr_actor_id g, ac_kind = Automation\<rparr> a (evaluation_context_new (ev_now c) (Some g))) \<noteq> VAllow
      then Inl PeExecutionDenied
      else and_then (to_i64 (bu_max_runs budget)) (\<lambda>max_runs.
           and_then (to_i64 (bu_max_cost_minor budget)) (\<lambda>max_cost.
           and_then (to_i64 (bu_cost_per_run_minor budget)) (\<lambda>cost.
             if hm_get (ag_automations db) i \<noteq> None then Inl (PeDatabase ''duplicate key'')
             else Inr (db\<lparr>ag_automations := hm_put i
                    \<lparr>at_actor_id = gr_actor_id g, at_grant_id = gr_id g, at_action = a, at_cron = cron, at_max_runs = max_runs,
                     at_max_cost_minor = max_cost, at_cost_per_run_minor = cost, at_runs = 0, at_cost_minor = 0,
                     at_last_slot = None, at_status = AutoActive\<rparr> (ag_automations db)\<rparr>)))))"

text \<open>The claim of a minute, once the row is active and the minute fits the column.\<close>

definition claim_row ::
  "calendar_minute \<Rightarrow> grant \<Rightarrow> int \<Rightarrow> automation_row \<Rightarrow> persistence_error + automation_row option" where
  "claim_row slot g minute r =
     (if at_last_slot r = Some minute \<or> \<not> cron_matches (at_cron r) slot then Inr None
      else if at_grant_id r \<noteq> gr_id g then Inl PeGrantMismatch
      else if de_verdict (evaluate \<lparr>ac_id = at_actor_id r, ac_kind = Automation\<rparr> (at_action r) (dispatch_context slot g)) \<noteq> VAllow
      then Inl PeExecutionDenied
      else and_then (ok_or PeBudgetExceeded (checked_i64 (at_runs r + 1))) (\<lambda>runs.
           and_then (ok_or PeBudgetExceeded (checked_i64 (at_cost_minor r + at_cost_per_run_minor r))) (\<lambda>cost.
             if runs > at_max_runs r \<or> cost > at_max_cost_minor r then Inl PeBudgetExceeded
             else Inr (Some (r\<lparr>at_runs := runs, at_cost_minor := cost, at_last_slot := Some minute\<rparr>)))))"

definition claim_due ::
  "string \<Rightarrow> calendar_minute \<Rightarrow> grant \<Rightarrow> agent_db \<Rightarrow> (persistence_error + automation_dispatch option) \<times> agent_db" where
  "claim_due i slot g db =
     (case hm_get (ag_automations db) i of
        None \<Rightarrow> (Inl PeNotFound, db)
      | Some r \<Rightarrow>
          if at_status r \<noteq> AutoActive then (Inr None, db)
          else (case and_then (to_i64 (cl_unix_minute slot)) (\<lambda>minute. claim_row slot g minute r) of
                  Inl e \<Rightarrow> (Inl e, db)
                | Inr None \<Rightarrow> (Inr None, db)
                | Inr (Some r') \<Rightarrow>
                    (and_then (try_u64 (at_runs r')) (\<lambda>n. map_ok (\<lambda>cost.
                       Some \<lparr>dd_action = at_action r', dd_run_number = n, dd_total_cost_minor = cost\<rparr>) (try_u64 (at_cost_minor r'))),
                     db\<lparr>ag_automations := hm_put i r' (ag_automations db)\<rparr>)))"

definition automation_transition :: "string \<Rightarrow> (automation_status \<Rightarrow> bool) \<Rightarrow> automation_status \<Rightarrow> agent_db \<Rightarrow> bool \<times> agent_db" where
  "automation_transition i from to db =
     (case hm_get (ag_automations db) i of
        None \<Rightarrow> (False, db)
      | Some r \<Rightarrow>
          if from (at_status r) then (True, db\<lparr>ag_automations := hm_put i (r\<lparr>at_status := to\<rparr>) (ag_automations db)\<rparr>)
          else (False, db))"

definition pg_pause :: "string \<Rightarrow> agent_db \<Rightarrow> bool \<times> agent_db" where
  "pg_pause i = automation_transition i (\<lambda>st. st = AutoActive) AutoPaused"

definition pg_revoke :: "string \<Rightarrow> agent_db \<Rightarrow> bool \<times> agent_db" where
  "pg_revoke i = automation_transition i (\<lambda>st. st \<noteq> AutoRevoked) AutoRevoked"

subsection \<open>Proposals (persistence.rs)\<close>

definition pg_insert_proposal :: "improvement_proposal \<Rightarrow> agent_db \<Rightarrow> persistence_error + agent_db" where
  "pg_insert_proposal p db =
     (if hm_get (ag_improvements db) (ip_id p) \<noteq> None then Inl (PeDatabase ''duplicate key'')
      else Inr (db\<lparr>ag_improvements := hm_put (ip_id p) \<lparr>iw_proposal = p\<lparr>ip_status := IpProposed\<rparr>, iw_authorized_by = None\<rparr>
             (ag_improvements db)\<rparr>))"

definition pg_authorize_application ::
  "string \<Rightarrow> actor \<Rightarrow> evaluation_context \<Rightarrow> agent_db \<Rightarrow> (persistence_error + application_receipt) \<times> agent_db" where
  "pg_authorize_application i actor c db =
     (if ac_kind actor \<noteq> Human \<or> de_verdict (evaluate actor ApplySelfImprovement c) \<noteq> VAllow then (Inl PeHumanStepUpRequired, db)
      else (case hm_get (ag_improvements db) i of
              None \<Rightarrow> (Inl PeProposalNotFoundOrFinal, db)
            | Some r \<Rightarrow>
                if ip_status (iw_proposal r) \<noteq> IpProposed then (Inl PeProposalNotFoundOrFinal, db)
                else (Inr \<lparr>ar_proposal_id = i, ar_proposal_digest = ip_digest (iw_proposal r), ar_actor_id = ac_id actor\<rparr>,
                      db\<lparr>ag_improvements := hm_put i
                          (r\<lparr>iw_proposal := (iw_proposal r)\<lparr>ip_status := IpApplicationAuthorized\<rparr>, iw_authorized_by := Some (ac_id actor)\<rparr>)
                          (ag_improvements db)\<rparr>)))"

definition proposal_status :: "string \<Rightarrow> agent_db \<Rightarrow> improvement_status option" where
  "proposal_status i db = map_option (ip_status \<circ> iw_proposal) (hm_get (ag_improvements db) i)"

subsection \<open>A row as an automation in memory\<close>

definition budget_of :: "automation_row \<Rightarrow> automation_budget" where
  "budget_of r = \<lparr>bu_max_runs = word_of_int (at_max_runs r), bu_max_cost_minor = word_of_int (at_max_cost_minor r),
     bu_cost_per_run_minor = word_of_int (at_cost_per_run_minor r)\<rparr>"

definition task_of :: "string \<Rightarrow> automation_row \<Rightarrow> scheduled_automation" where
  "task_of i r = \<lparr>sa_id = i, sa_actor = \<lparr>ac_id = at_actor_id r, ac_kind = Automation\<rparr>, sa_grant_id = at_grant_id r,
     sa_action = at_action r, sa_cron = at_cron r, sa_budget = budget_of r, sa_runs = word_of_int (at_runs r),
     sa_cost_minor = word_of_int (at_cost_minor r), sa_last_slot = map_option word_of_int (at_last_slot r), sa_status = at_status r\<rparr>"

definition stored_as :: "agent_db \<Rightarrow> automation_scheduler \<Rightarrow> bool" where
  "stored_as db s \<longleftrightarrow> (\<forall>i. hm_get s i = map_option (task_of i) (hm_get (ag_automations db) i))"

definition column :: "int \<Rightarrow> bool" where
  "column x \<longleftrightarrow> 0 \<le> x \<and> x < 2 ^ 63"

definition row_columns :: "automation_row \<Rightarrow> bool" where
  "row_columns r \<longleftrightarrow> column (at_max_runs r) \<and> column (at_max_cost_minor r) \<and> column (at_cost_per_run_minor r)
     \<and> column (at_runs r) \<and> column (at_cost_minor r) \<and> (\<forall>m. at_last_slot r = Some m \<longrightarrow> column m)"

definition rows_ok :: "agent_db \<Rightarrow> bool" where
  "rows_ok db \<longleftrightarrow> (\<forall>i r. hm_get (ag_automations db) i = Some r \<longrightarrow> row_columns r)"

lemma unat_column: "column x \<Longrightarrow> unat (word_of_int x :: u64) = nat x"
  by (simp add: column_def unsigned_of_int take_bit_int_eq_self)

lemma column_less: "column x \<Longrightarrow> column y \<Longrightarrow> (word_of_int x :: u64) < word_of_int y \<longleftrightarrow> x < y"
  by (simp add: word_less_nat_alt unat_column) (auto simp: column_def)

lemma column_inject: "column x \<Longrightarrow> column y \<Longrightarrow> (word_of_int x :: u64) = word_of_int y \<longleftrightarrow> x = y"
  by (simp add: word_unat_eq_iff unat_column) (auto simp: column_def)

lemma to_i64_column: "to_i64 v = Inr x \<Longrightarrow> column x \<and> word_of_int x = v"
proof -
  assume "to_i64 v = Inr x"
  then have v: "unat v < 2 ^ 63" "x = int (unat v)" by (auto simp: to_i64_def split: if_splits)
  then have "x < int (2 ^ 63)" by (simp only: of_nat_less_iff)
  with v(2) show "column x \<and> word_of_int x = v" by (simp add: column_def)
qed

lemma column_sum: "column x \<Longrightarrow> column y \<Longrightarrow> checked_add_w (word_of_int x :: u64) (word_of_int y) = Some (word_of_int (x + y))"
  by (auto simp: checked_add_w_def unat_column) (auto simp: column_def)

lemma row_columnsD:
  assumes "row_columns r"
  shows "column (at_max_runs r)" "column (at_max_cost_minor r)" "column (at_cost_per_run_minor r)" "column (at_runs r)" "column (at_cost_minor r)"
  using assms by (simp_all add: row_columns_def)

lemma task_of_sel:
  "sa_status (task_of i r) = at_status r" "sa_cron (task_of i r) = at_cron r" "sa_grant_id (task_of i r) = at_grant_id r"
  "sa_actor (task_of i r) = \<lparr>ac_id = at_actor_id r, ac_kind = Automation\<rparr>" "sa_action (task_of i r) = at_action r"
  "sa_runs (task_of i r) = word_of_int (at_runs r)" "sa_cost_minor (task_of i r) = word_of_int (at_cost_minor r)"
  "sa_last_slot (task_of i r) = map_option word_of_int (at_last_slot r)"
  "bu_max_runs (sa_budget (task_of i r)) = word_of_int (at_max_runs r)"
  "bu_max_cost_minor (sa_budget (task_of i r)) = word_of_int (at_max_cost_minor r)"
  "bu_cost_per_run_minor (sa_budget (task_of i r)) = word_of_int (at_cost_per_run_minor r)"
  by (simp_all add: task_of_def budget_of_def)

text \<open>A claim that dispatches is a run of the automation in memory.\<close>

lemma claim_row_runs:
  assumes "row_columns r" "claim_row slot g minute r = Inr (Some r')" "column minute" "word_of_int minute = cl_unix_minute slot"
    and "at_status r = AutoActive" "hm_get s i = Some (task_of i r)"
  shows "row_columns r' \<and> run_automation i slot g (\<lambda>w. ((), w @ [(i, slot, g)])) (s, w)
    = (Inr (Some ()), hm_put i (task_of i r') s, w @ [(i, slot, g)])"
proof -
  from assms(2) have c: "at_last_slot r \<noteq> Some minute" "cron_matches (at_cron r) slot" "at_grant_id r = gr_id g"
      "de_verdict (evaluate \<lparr>ac_id = at_actor_id r, ac_kind = Automation\<rparr> (at_action r) (dispatch_context slot g)) = VAllow"
    and b: "at_runs r + 1 \<le> at_max_runs r" "at_cost_minor r + at_cost_per_run_minor r \<le> at_max_cost_minor r"
    and r': "r' = r\<lparr>at_runs := at_runs r + 1, at_cost_minor := at_cost_minor r + at_cost_per_run_minor r, at_last_slot := Some minute\<rparr>"
    by (auto simp: claim_row_def result_iffs checked_i64_iff not_less split: if_splits)
  note cols = row_columnsD [OF assms(1)]
  have cols': "column (at_runs r + 1)" "column (at_cost_minor r + at_cost_per_run_minor r)"
    using b cols by (auto simp: column_def)
  have fresh: "sa_last_slot (task_of i r) \<noteq> Some (cl_unix_minute slot)"
    using c(1) assms(1,3) column_inject by (auto simp: task_of_sel row_columns_def simp flip: assms(4))
  have runs: "checked_add_w (sa_runs (task_of i r)) 1 = Some (word_of_int (at_runs r + 1))"
    using column_sum [of "at_runs r" 1] cols by (simp add: task_of_sel column_def)
  have cost: "checked_add_w (sa_cost_minor (task_of i r)) (bu_cost_per_run_minor (sa_budget (task_of i r)))
      = Some (word_of_int (at_cost_minor r + at_cost_per_run_minor r))"
    using column_sum cols by (simp add: task_of_sel)
  have caps: "\<not> bu_max_runs (sa_budget (task_of i r)) < word_of_int (at_runs r + 1)"
      "\<not> bu_max_cost_minor (sa_budget (task_of i r)) < word_of_int (at_cost_minor r + at_cost_per_run_minor r)"
    using b cols cols' by (simp_all only: task_of_sel column_less not_less)
  have t': "(task_of i r)\<lparr>sa_runs := word_of_int (at_runs r + 1), sa_cost_minor := word_of_int (at_cost_minor r + at_cost_per_run_minor r),
      sa_last_slot := Some (cl_unix_minute slot)\<rparr> = task_of i r'"
    by (simp add: task_of_def r' budget_of_def assms(4))
  have "run_automation i slot g (\<lambda>w. ((), w @ [(i, slot, g)])) (s, w) = (Inr (Some ()), hm_put i (task_of i r') s, w @ [(i, slot, g)])"
    using fresh caps c assms(5) unfolding run_automation_def
    by (simp add: assms(6) runs cost t' del: of_int_add) (simp add: task_of_sel)
  moreover have "row_columns r'" using assms(1,3) cols' by (simp add: row_columns_def r')
  ultimately show ?thesis by simp
qed

subsection \<open>Runs of the durable scheduler\<close>

datatype durable_automation_call =
    DaSchedule string actor evaluation_context grant action cron_expression automation_budget
  | DaClaim string calendar_minute grant
  | DaPause string
  | DaRevoke string

text \<open>The caller of a claim does the work when it gets a dispatch.\<close>

fun durable_automation_step :: "durable_automation_call \<Rightarrow> agent_db \<times> dispatch_log \<Rightarrow> agent_db \<times> dispatch_log" where
  "durable_automation_step (DaSchedule i owner c g a cron budget) (db, w) = (or_same (pg_schedule i owner c g a cron budget db) db, w)"
| "durable_automation_step (DaClaim i slot g) (db, w) =
     (case claim_due i slot g db of
        (Inr (Some _), db') \<Rightarrow> (db', w @ [(i, slot, g)])
      | (_, db') \<Rightarrow> (db', w))"
| "durable_automation_step (DaPause i) (db, w) = (snd (pg_pause i db), w)"
| "durable_automation_step (DaRevoke i) (db, w) = (snd (pg_revoke i db), w)"

definition agent_db_empty :: agent_db where
  "agent_db_empty = \<lparr>ag_automations = [], ag_improvements = []\<rparr>"

text \<open>\<open>matched db w s w'\<close>: the database with its log and the scheduler in memory with its own.\<close>

definition matched :: "agent_db \<times> dispatch_log \<Rightarrow> automation_scheduler \<times> dispatch_log \<Rightarrow> bool" where
  "matched dw sw \<longleftrightarrow> rows_ok (fst dw) \<and> stored_as (fst dw) (fst sw) \<and> snd sw = snd dw"

lemma matched_put:
  assumes "matched (db, w) (s, w)" "row_columns r"
  shows "matched (db\<lparr>ag_automations := hm_put i r (ag_automations db)\<rparr>, w') (hm_put i (task_of i r) s, w')"
  using assms by (auto simp: matched_def rows_ok_def stored_as_def hm_get_put)

lemma matched_get: "matched (db, w) (s, w) \<Longrightarrow> hm_get s i = map_option (task_of i) (hm_get (ag_automations db) i)"
  by (simp add: matched_def stored_as_def)

lemma budget_eta:
  "\<lparr>bu_max_runs = bu_max_runs b, bu_max_cost_minor = bu_max_cost_minor b, bu_cost_per_run_minor = bu_cost_per_run_minor b\<rparr> = b"
  by simp

lemma schedule_matched:
  assumes "matched (db, w) (s, w)" "pg_schedule i owner c g a cron budget db = Inr db'"
  shows "\<exists>s'. schedule i owner c g a cron budget s = Inr s' \<and> matched (db', w) (s', w)"
proof -
  from assms(2) obtain mr mc cr where ok: "i \<noteq> []" "gr_actor_kind g = Automation" "bu_max_runs budget \<noteq> 0"
      "\<not> bu_cost_per_run_minor budget > bu_max_cost_minor budget" "de_verdict (evaluate owner ScheduleAutomation c) = VAllow"
      "de_verdict (evaluate \<lparr>ac_id = gr_actor_id g, ac_kind = Automation\<rparr> a (evaluation_context_new (ev_now c) (Some g))) = VAllow"
      "hm_get (ag_automations db) i = None"
    and cols: "to_i64 (bu_max_runs budget) = Inr mr" "to_i64 (bu_max_cost_minor budget) = Inr mc" "to_i64 (bu_cost_per_run_minor budget) = Inr cr"
    and db': "db' = db\<lparr>ag_automations := hm_put i
                    \<lparr>at_actor_id = gr_actor_id g, at_grant_id = gr_id g, at_action = a, at_cron = cron, at_max_runs = mr,
                     at_max_cost_minor = mc, at_cost_per_run_minor = cr, at_runs = 0, at_cost_minor = 0,
                     at_last_slot = None, at_status = AutoActive\<rparr> (ag_automations db)\<rparr>"
    by (auto simp: pg_schedule_def result_iffs split: if_splits)
  let ?r = "\<lparr>at_actor_id = gr_actor_id g, at_grant_id = gr_id g, at_action = a, at_cron = cron, at_max_runs = mr,
      at_max_cost_minor = mc, at_cost_per_run_minor = cr, at_runs = 0, at_cost_minor = 0, at_last_slot = None, at_status = AutoActive\<rparr>"
  have w: "column mr" "column mc" "column cr" "word_of_int mr = bu_max_runs budget" "word_of_int mc = bu_max_cost_minor budget"
    "word_of_int cr = bu_cost_per_run_minor budget" using cols by (blast dest: to_i64_column)+
  have "row_columns ?r" using w by (simp add: row_columns_def) (simp add: column_def)
  then have "matched (db', w) (hm_put i (task_of i ?r) s, w)" unfolding db' by (rule matched_put [OF assms(1)])
  moreover have "schedule i owner c g a cron budget s = Inr (hm_put i (task_of i ?r) s)"
    using ok matched_get [OF assms(1), of i] by (simp add: schedule_def task_of_def budget_of_def w budget_eta)
  ultimately show ?thesis by blast
qed

lemma claim_matched:
  assumes "matched (db, w) (s, w)"
  shows "\<exists>calls. matched (durable_automation_step (DaClaim i slot g) (db, w)) (fold scheduler_step calls (s, w))"
proof (cases "\<exists>r minute r'. hm_get (ag_automations db) i = Some r \<and> at_status r = AutoActive
    \<and> to_i64 (cl_unix_minute slot) = Inr minute \<and> claim_row slot g minute r = Inr (Some r')")
  case False
  then have "snd (claim_due i slot g db) = db \<and> (\<forall>d. fst (claim_due i slot g db) \<noteq> Inr (Some d))"
    by (cases "hm_get (ag_automations db) i"; cases "to_i64 (cl_unix_minute slot)")
      (auto simp: claim_due_def split: sum.split option.split)
  with assms have "matched (durable_automation_step (DaClaim i slot g) (db, w)) (fold scheduler_step [] (s, w))"
    by (auto split: prod.split sum.split option.split)
  then show ?thesis ..
next
  case True
  then obtain r minute r' where r: "hm_get (ag_automations db) i = Some r" "at_status r = AutoActive"
      and m: "to_i64 (cl_unix_minute slot) = Inr minute" "claim_row slot g minute r = Inr (Some r')" by blast
  have cols: "row_columns r" using assms r(1) by (auto simp: matched_def rows_ok_def)
  have get: "hm_get s i = Some (task_of i r)" using matched_get [OF assms, of i] r(1) by simp
  from claim_row_runs [OF cols m(2) _ _ r(2) get, of w] to_i64_column [OF m(1)]
  have run: "row_columns r'" "scheduler_step (ScRun i slot g) (s, w) = (hm_put i (task_of i r') s, w @ [(i, slot, g)])" by auto
  have "try_u64 (at_runs r') = Inr (word_of_int (at_runs r'))" "try_u64 (at_cost_minor r') = Inr (word_of_int (at_cost_minor r'))"
    using run(1) by (simp_all add: row_columns_def column_def try_u64_def)
  then obtain d where due: "claim_due i slot g db = (Inr (Some d), db\<lparr>ag_automations := hm_put i r' (ag_automations db)\<rparr>)"
    by (simp add: claim_due_def r m)
  have "matched (durable_automation_step (DaClaim i slot g) (db, w)) (fold scheduler_step [ScRun i slot g] (s, w))"
    using matched_put [OF assms run(1), of i] run(2) by (simp add: due)
  then show ?thesis ..
qed

lemma transition_matched:
  assumes "matched (db, w) (s, w)" "\<And>t. from (sa_status t) \<Longrightarrow> hm_get s i = Some t \<Longrightarrow> scheduler_step call (s, w) = (hm_put i (t\<lparr>sa_status := to\<rparr>) s, w)"
  shows "\<exists>calls. matched (snd (automation_transition i from to db), w) (fold scheduler_step calls (s, w))"
proof (cases "\<exists>r. hm_get (ag_automations db) i = Some r \<and> from (at_status r)")
  case False
  then have "snd (automation_transition i from to db) = db" by (auto simp: automation_transition_def split: option.splits)
  with assms(1) have "matched (snd (automation_transition i from to db), w) (fold scheduler_step [] (s, w))" by simp
  then show ?thesis ..
next
  case True
  then obtain r where r: "hm_get (ag_automations db) i = Some r" "from (at_status r)" by blast
  have get: "hm_get s i = Some (task_of i r)" using matched_get [OF assms(1), of i] r(1) by simp
  have cols: "row_columns (r\<lparr>at_status := to\<rparr>)" using assms(1) r(1) by (auto simp: matched_def rows_ok_def row_columns_def)
  have "task_of i (r\<lparr>at_status := to\<rparr>) = (task_of i r)\<lparr>sa_status := to\<rparr>" by (simp add: task_of_def budget_of_def)
  with matched_put [OF assms(1) cols, of i w] assms(2) [OF _ get] r
  have "matched (snd (automation_transition i from to db), w) (fold scheduler_step [call] (s, w))"
    by (simp add: automation_transition_def task_of_sel)
  then show ?thesis ..
qed

lemma durable_step_matched:
  assumes "matched (db, w) (s, w)"
  shows "\<exists>calls. matched (durable_automation_step e (db, w)) (fold scheduler_step calls (s, w))"
proof (cases e)
  case (DaSchedule i owner c g a cron budget)
  show ?thesis
  proof (cases "pg_schedule i owner c g a cron budget db")
    case (Inl x)
    with assms DaSchedule have "matched (durable_automation_step e (db, w)) (fold scheduler_step [] (s, w))" by (simp add: or_same_def)
    then show ?thesis ..
  next
    case (Inr db')
    from schedule_matched [OF assms Inr] Inr DaSchedule
    have "matched (durable_automation_step e (db, w)) (fold scheduler_step [ScSchedule i owner c g a cron budget] (s, w))"
      by (auto simp: or_same_def)
    then show ?thesis ..
  qed
next
  case (DaClaim i slot g)
  with claim_matched [OF assms] show ?thesis by blast
next
  case (DaPause i)
  have "\<exists>calls. matched (snd (pg_pause i db), w) (fold scheduler_step calls (s, w))"
    unfolding pg_pause_def
    by (rule transition_matched [OF assms, of _ i "ScPause i"]) (simp add: pause_def or_same_def)
  with DaPause show ?thesis by simp
next
  case (DaRevoke i)
  have "\<exists>calls. matched (snd (pg_revoke i db), w) (fold scheduler_step calls (s, w))"
    unfolding pg_revoke_def
    by (rule transition_matched [OF assms, of _ i "ScRevoke i"]) (simp add: revoke_automation_def or_same_def)
  with DaRevoke show ?thesis by simp
qed

lemma durable_runs_matched:
  "matched dw (s, snd dw) \<Longrightarrow> \<exists>calls. matched (fold durable_automation_step es dw) (fold scheduler_step calls (s, snd dw))"
proof (induction es arbitrary: dw s)
  case Nil
  then have "matched (fold durable_automation_step [] dw) (fold scheduler_step [] (s, snd dw))" by simp
  then show ?case ..
next
  case (Cons e es)
  obtain db w where dw: "dw = (db, w)" by (cases dw)
  with Cons.prems obtain calls where 1: "matched (durable_automation_step e dw) (fold scheduler_step calls (s, w))"
    using durable_step_matched by fastforce
  obtain s1 w1 where 2: "fold scheduler_step calls (s, w) = (s1, w1)" by force
  with 1 have w1: "w1 = snd (durable_automation_step e dw)" by (simp add: matched_def)
  with 1 2 have "matched (durable_automation_step e dw) (s1, snd (durable_automation_step e dw))" by simp
  from Cons.IH [OF this] obtain calls' where
    "matched (fold durable_automation_step es (durable_automation_step e dw)) (fold scheduler_step calls' (s1, w1))"
    by (auto simp: w1)
  with 2 dw have "matched (fold durable_automation_step (e # es) dw) (fold scheduler_step (calls @ calls') (s, snd dw))" by simp
  then show ?case ..
qed

text \<open>
  Property C19. The durable scheduler refines the one in memory: whatever sequence of transactions
  its tables go through, some sequence of calls of the scheduler in memory makes the same dispatches in
  the same order and ends with the automations that the rows stand for.
\<close>

theorem durable_scheduler_refines:
  "\<exists>calls s. fold scheduler_step calls ([], []) = (s, snd (fold durable_automation_step es (agent_db_empty, [])))
     \<and> stored_as (fst (fold durable_automation_step es (agent_db_empty, []))) s"
proof -
  have "matched (agent_db_empty, []) ([], snd (agent_db_empty, [] :: dispatch_log))"
    by (simp add: matched_def agent_db_empty_def rows_ok_def stored_as_def)
  from durable_runs_matched [OF this, of es] show ?thesis by (auto simp: matched_def) (metis prod.collapse)
qed

end
