(* ===== verification/Backtest.thy ===== *)
theory Backtest
  imports Decimal_Instance Rust_Text
begin

text \<open>
  Backtests of a strategy (\<^verbatim>\<open>crates/aether-agents/src/backtest.rs\<close>) on recorded events, and the replay
  harness that holds them (\<^verbatim>\<open>crates/aether-testing/src/replay.rs\<close>). The lemmas show that a backtest never
  panics and reports the profit of the trades that the strategy makes on the recorded prices, and what a
  replay that matches says. \<open>None\<close> is a panic of the decimal arithmetic or of an assertion.
\<close>

subsection \<open>Captured events (replay.rs)\<close>

record captured_event =
  ce_seq :: nat
  ce_trace_id :: string
  ce_event_type :: string
  ce_payload_sha256 :: string
  ce_payload_bytes :: "u8 list"
  ce_wall_clock_offset_ms :: int

datatype replay_mode = Capture | Replay

record replay_harness =
  rh_events :: "captured_event list"
  rh_mode :: replay_mode
  rh_wall_start_ms :: int

record replay_result =
  rp_event_count :: nat
  rp_original_sha256 :: string
  rp_replay_sha256 :: string
  rp_matched :: bool
  rp_mismatches :: "string list"

datatype replay_error = RpSerialize string | RpHandler string

definition new_capture :: "int \<Rightarrow> replay_harness" where
  "new_capture now = \<lparr>rh_events = [], rh_mode = Capture, rh_wall_start_ms = now\<rparr>"

definition new_replay :: "captured_event list \<Rightarrow> replay_harness" where
  "new_replay events = \<lparr>rh_events = events, rh_mode = Replay, rh_wall_start_ms = 0\<rparr>"

text \<open>\<open>payload\<close> is what the JSON encoder makes of the payload, \<open>sha\<close> is SHA-256 and \<open>now\<close> the clock.\<close>

definition record_event ::
  "(u8 list \<Rightarrow> u8 list) \<Rightarrow> int \<Rightarrow> string \<Rightarrow> string \<Rightarrow> string + u8 list \<Rightarrow> replay_harness \<Rightarrow> (replay_error + replay_harness) option" where
  "record_event sha now event_type trace_id payload h =
     (if rh_mode h \<noteq> Capture then None
      else Some (map_ok (\<lambda>bytes. h\<lparr>rh_events := rh_events h @
                   [\<lparr>ce_seq = length (rh_events h), ce_trace_id = trace_id, ce_event_type = event_type,
                     ce_payload_sha256 = encode_hex (sha bytes), ce_payload_bytes = bytes,
                     ce_wall_clock_offset_ms = now - rh_wall_start_ms h\<rparr>]\<rparr>)
             (map_err RpSerialize payload)))"

text \<open>The handler is a closure with a state of its own.\<close>

fun run_handler ::
  "(captured_event \<Rightarrow> 'h \<Rightarrow> (string + u8 list) \<times> 'h) \<Rightarrow> captured_event list \<Rightarrow> 'h \<Rightarrow> (replay_error + u8 list list) \<times> 'h" where
  "run_handler handler [] h = (Inr [], h)"
| "run_handler handler (e # es) h =
     (case handler e h of
        (Inl m, h') \<Rightarrow> (Inl (RpHandler m), h')
      | (Inr out, h') \<Rightarrow> (case run_handler handler es h' of (r, h'') \<Rightarrow> (map_ok (\<lambda>outs. out # outs) r, h'')))"

definition mismatch_text :: "nat \<Rightarrow> string \<Rightarrow> string \<Rightarrow> string \<Rightarrow> string" where
  "mismatch_text i event_type expected got =
     ''event['' @ show_nat i @ ''] ('' @ event_type @ ''): expected '' @ expected @ '' got '' @ got"

fun list_mismatches :: "(u8 list \<Rightarrow> u8 list) \<Rightarrow> nat \<Rightarrow> (captured_event \<times> u8 list) list \<Rightarrow> string list" where
  "list_mismatches sha i [] = []"
| "list_mismatches sha i ((e, out) # rest) =
     (let expected = encode_hex (sha (ce_payload_bytes e)); got = encode_hex (sha out)
      in (if expected \<noteq> got then [mismatch_text i (ce_event_type e) expected got] else []) @ list_mismatches sha (i + 1) rest)"

definition replay_events ::
  "(u8 list \<Rightarrow> u8 list) \<Rightarrow> (captured_event \<Rightarrow> 'h \<Rightarrow> (string + u8 list) \<times> 'h) \<Rightarrow> replay_harness \<Rightarrow> 'h
     \<Rightarrow> (replay_error + replay_result) \<times> 'h" where
  "replay_events sha handler h st =
     (let original = encode_hex (sha (concat (map ce_payload_bytes (rh_events h))))
      in case run_handler handler (rh_events h) st of
           (Inl e, st') \<Rightarrow> (Inl e, st')
         | (Inr outs, st') \<Rightarrow>
             (let replay = encode_hex (sha (concat outs)); same = (original = replay)
              in (Inr \<lparr>rp_event_count = length (rh_events h), rp_original_sha256 = original, rp_replay_sha256 = replay, rp_matched = same,
                    rp_mismatches = (if same then [] else list_mismatches sha 0 (zip (rh_events h) outs))\<rparr>, st')))"

subsection \<open>Backtests (backtest.rs)\<close>

record strategy_tick =
  tk_timestamp_ms :: int
  tk_price_minor :: int

record threshold_strategy =
  th_buy_below_minor :: int
  th_sell_above_minor :: int
  th_fee_bps :: nat
  th_slippage_bps :: nat

record backtest_report =
  br_strategy_sha256 :: string
  br_capture_sha256 :: string
  br_start_ms :: int
  br_end_ms :: int
  br_event_count :: nat
  br_round_trips :: nat
  br_forced_period_end_exits :: nat
  br_gross_pnl_minor :: int
  br_fees_minor :: int
  br_slippage_minor :: int
  br_net_pnl_minor :: int

datatype backtest_error = InvalidStrategy | InvalidTick | NoTicks | BtArithmetic | BtJson string

definition validate_strategy :: "threshold_strategy \<Rightarrow> backtest_error + unit" where
  "validate_strategy s =
     (if th_buy_below_minor s \<le> 0 \<or> th_sell_above_minor s \<le> th_buy_below_minor s \<or> th_fee_bps s > 10000 \<or> th_slippage_bps s > 10000
      then Inl InvalidStrategy else Inr ())"

definition decode_tick :: "(u8 list \<Rightarrow> string + strategy_tick) \<Rightarrow> captured_event \<Rightarrow> backtest_error + strategy_tick" where
  "decode_tick decode e =
     and_then (map_err BtJson (decode (ce_payload_bytes e))) (\<lambda>t. if tk_price_minor t \<le> 0 then Inl InvalidTick else Inr t)"

fun collect_ticks :: "(u8 list \<Rightarrow> string + strategy_tick) \<Rightarrow> captured_event list \<Rightarrow> backtest_error + strategy_tick list" where
  "collect_ticks decode [] = Inr []"
| "collect_ticks decode (e # es) =
     (if ce_event_type e \<noteq> ''strategy_tick'' then collect_ticks decode es
      else and_then (decode_tick decode e) (\<lambda>t. map_ok (\<lambda>ts. t # ts) (collect_ticks decode es)))"

text \<open>A step that may panic and may fail, and what follows it.\<close>

definition go_on :: "('e + 'a) option \<Rightarrow> ('a \<Rightarrow> ('e + 'b) option) \<Rightarrow> ('e + 'b) option" where
  "go_on r f = Option.bind r (\<lambda>x. case x of Inl e \<Rightarrow> Some (Inl e) | Inr a \<Rightarrow> f a)"

definition bps_cost :: "dec_ops \<Rightarrow> int \<Rightarrow> nat \<Rightarrow> (backtest_error + int) option" where
  "bps_cost D v bps =
     Option.bind (dec_mul D (of_int v) (of_nat bps)) (\<lambda>m.
     Option.bind (dec_div D m 10000) (\<lambda>q.
     Some (ok_or BtArithmetic (checked_i64 \<lceil>q\<rceil>))))"

definition add_costs :: "dec_ops \<Rightarrow> int \<Rightarrow> int \<Rightarrow> int \<Rightarrow> nat \<Rightarrow> (backtest_error + int) option" where
  "add_costs D acc entry exit bps =
     go_on (bps_cost D entry bps) (\<lambda>a.
     go_on (Some (ok_or BtArithmetic (checked_i64 (acc + a)))) (\<lambda>v.
     go_on (bps_cost D exit bps) (\<lambda>b.
     Some (ok_or BtArithmetic (checked_i64 (v + b))))))"

record backtest_state =
  bk_entry :: "int option"
  bk_gross :: int
  bk_fees :: int
  bk_slippage :: int
  bk_round_trips :: nat

definition close_trip ::
  "dec_ops \<Rightarrow> threshold_strategy \<Rightarrow> int \<Rightarrow> int \<Rightarrow> backtest_state \<Rightarrow> (backtest_error + backtest_state) option" where
  "close_trip D s entry exit b =
     Option.bind (checked_i64 (exit - entry)) (\<lambda>gain.
     go_on (Some (ok_or BtArithmetic (checked_i64 (bk_gross b + gain)))) (\<lambda>gross.
     go_on (add_costs D (bk_fees b) entry exit (th_fee_bps s)) (\<lambda>fees.
     go_on (add_costs D (bk_slippage b) entry exit (th_slippage_bps s)) (\<lambda>slippage.
     Some (if bk_round_trips b + 1 < 2 ^ 64
           then Inr \<lparr>bk_entry = None, bk_gross = gross, bk_fees = fees, bk_slippage = slippage, bk_round_trips = bk_round_trips b + 1\<rparr>
           else Inl BtArithmetic)))))"

fun backtest_loop ::
  "dec_ops \<Rightarrow> threshold_strategy \<Rightarrow> strategy_tick list \<Rightarrow> backtest_state \<Rightarrow> (backtest_error + backtest_state) option" where
  "backtest_loop D s [] b = Some (Inr b)"
| "backtest_loop D s (t # ts) b =
     (if bk_entry b = None \<and> tk_price_minor t \<le> th_buy_below_minor s
      then backtest_loop D s ts (b\<lparr>bk_entry := Some (tk_price_minor t)\<rparr>)
      else (case bk_entry b of
              None \<Rightarrow> backtest_loop D s ts b
            | Some entry \<Rightarrow>
                if tk_price_minor t \<ge> th_sell_above_minor s
                then go_on (close_trip D s entry (tk_price_minor t) b) (backtest_loop D s ts)
                else backtest_loop D s ts b))"

text \<open>\<open>json\<close> is the JSON encoding of the strategy; the position still open at the end is closed at the
  last price.\<close>

definition backtest_run ::
  "dec_ops \<Rightarrow> (u8 list \<Rightarrow> u8 list) \<Rightarrow> (threshold_strategy \<Rightarrow> string + u8 list) \<Rightarrow> (u8 list \<Rightarrow> string + strategy_tick)
     \<Rightarrow> replay_harness \<Rightarrow> threshold_strategy \<Rightarrow> (backtest_error + backtest_report) option" where
  "backtest_run D sha json decode h s =
     go_on (Some (validate_strategy s)) (\<lambda>_.
     go_on (Some (collect_ticks decode (rh_events h))) (\<lambda>ticks.
       if ticks = [] then Some (Inl NoTicks)
       else
         let final = tk_price_minor (last ticks)
         in go_on (backtest_loop D s ticks \<lparr>bk_entry = None, bk_gross = 0, bk_fees = 0, bk_slippage = 0, bk_round_trips = 0\<rparr>) (\<lambda>b.
            go_on (case bk_entry b of None \<Rightarrow> Some (Inr (b, 0)) | Some entry \<Rightarrow> map_option (map_ok (\<lambda>b'. (b', 1))) (close_trip D s entry final b))
            (\<lambda>(b', forced).
            go_on (Some (ok_or BtArithmetic (Option.bind (checked_i64 (bk_gross b' - bk_fees b')) (\<lambda>v. checked_i64 (v - bk_slippage b'))))) (\<lambda>net.
            go_on (Some (map_err BtJson (json s))) (\<lambda>bytes.
            Some (Inr \<lparr>br_strategy_sha256 = encode_hex (sha bytes),
              br_capture_sha256 = encode_hex (sha (concat (map ce_payload_bytes (rh_events h)))),
              br_start_ms = tk_timestamp_ms (hd ticks), br_end_ms = tk_timestamp_ms (last ticks), br_event_count = length ticks,
              br_round_trips = bk_round_trips b', br_forced_period_end_exits = forced,
              br_gross_pnl_minor = bk_gross b', br_fees_minor = bk_fees b', br_slippage_minor = bk_slippage b',
              br_net_pnl_minor = net\<rparr>)))))))"

subsection \<open>The trades of a strategy\<close>

text \<open>The reference: buy at the first price at or below one threshold, sell at the next at or above the
  other; what is still held at the end is sold at the last price.\<close>

fun trades :: "threshold_strategy \<Rightarrow> int option \<Rightarrow> int list \<Rightarrow> (int \<times> int) list \<times> int option" where
  "trades s e [] = ([], e)"
| "trades s None (p # ps) = trades s (if p \<le> th_buy_below_minor s then Some p else None) ps"
| "trades s (Some e) (p # ps) =
     (if p \<ge> th_sell_above_minor s then (case trades s None ps of (ts, held) \<Rightarrow> ((e, p) # ts, held)) else trades s (Some e) ps)"

definition all_trades :: "threshold_strategy \<Rightarrow> int list \<Rightarrow> (int \<times> int) list" where
  "all_trades s ps = (case trades s None ps of (ts, None) \<Rightarrow> ts | (ts, Some e) \<Rightarrow> ts @ [(e, last ps)])"

text \<open>A cost in basis points, rounded up.\<close>

definition exact_cost :: "nat \<Rightarrow> int \<Rightarrow> int" where
  "exact_cost bps v = \<lceil>of_int v * of_nat bps / (10000 :: rat)\<rceil>"

definition trade_costs :: "nat \<Rightarrow> (int \<times> int) list \<Rightarrow> int" where
  "trade_costs bps ts = sum_list (map (\<lambda>(e, x). exact_cost bps e + exact_cost bps x) ts)"

definition trade_gains :: "(int \<times> int) list \<Rightarrow> int" where
  "trade_gains ts = sum_list (map (\<lambda>(e, x). x - e) ts)"

definition reports_trades :: "threshold_strategy \<Rightarrow> (int \<times> int) list \<Rightarrow> backtest_report \<Rightarrow> bool" where
  "reports_trades s ts rep \<longleftrightarrow> br_gross_pnl_minor rep = trade_gains ts \<and> br_fees_minor rep = trade_costs (th_fee_bps s) ts
     \<and> br_slippage_minor rep = trade_costs (th_slippage_bps s) ts \<and> br_round_trips rep = length ts
     \<and> br_net_pnl_minor rep = trade_gains ts - trade_costs (th_fee_bps s) ts - trade_costs (th_slippage_bps s) ts"

definition added_trades :: "threshold_strategy \<Rightarrow> (int \<times> int) list \<Rightarrow> backtest_state \<Rightarrow> backtest_state \<Rightarrow> bool" where
  "added_trades s ts b b' \<longleftrightarrow> bk_gross b' = bk_gross b + trade_gains ts \<and> bk_fees b' = bk_fees b + trade_costs (th_fee_bps s) ts
     \<and> bk_slippage b' = bk_slippage b + trade_costs (th_slippage_bps s) ts \<and> bk_round_trips b' = bk_round_trips b + length ts"

definition decodes_i64 :: "(u8 list \<Rightarrow> string + strategy_tick) \<Rightarrow> bool" where
  "decodes_i64 decode \<longleftrightarrow> (\<forall>bs t. decode bs = Inr t \<longrightarrow> is_i64 (tk_price_minor t))"

definition price_ok :: "int \<Rightarrow> bool" where
  "price_ok p \<longleftrightarrow> 0 < p \<and> is_i64 p"

lemma trade_simps:
  "trade_gains [] = 0" "trade_gains ((e, x) # ts) = x - e + trade_gains ts" "trade_gains (ts @ us) = trade_gains ts + trade_gains us"
  "trade_costs n [] = 0" "trade_costs n ((e, x) # ts) = exact_cost n e + exact_cost n x + trade_costs n ts"
  "trade_costs n (ts @ us) = trade_costs n ts + trade_costs n us"
  by (simp_all add: trade_gains_def trade_costs_def)

lemma go_on_Inr: "go_on r f = Some (Inr b) \<longleftrightarrow> (\<exists>a. r = Some (Inr a) \<and> f a = Some (Inr b))"
  by (cases r) (auto simp: go_on_def split: sum.splits)

lemma go_on_runs: "(\<exists>x. r = Some x) \<Longrightarrow> (\<And>a. r = Some (Inr a) \<Longrightarrow> \<exists>y. f a = Some y) \<Longrightarrow> \<exists>y. go_on r f = Some y"
  by (auto simp: go_on_def split: sum.split)

lemma bps_cost_exact:
  assumes "decimal_arith D" "price_ok v" "bps \<le> 10000"
  shows "bps_cost D v bps = Some (Inr (exact_cost bps v))"
proof -
  have v: "0 < v" "v < 2 ^ 63" using assms(2) by (auto simp: price_ok_def is_i64_def i64_max_def)
  let ?m = "v * int bps"
  have m: "0 \<le> ?m" "?m \<le> v * 10000" using v(1) assms(3) by (simp_all add: mult_left_mono)
  have "?m < 10000 * 2 ^ 63" using m(2) v(2) by linarith
  then have bound: "\<bar>?m\<bar> < dec_bound" using m(1) by (simp add: dec_bound_def)
  have d: "is_decimal (of_int v)" "is_decimal (of_nat bps :: rat)" "is_decimal (of_int ?m)" "is_decimal (10000 :: rat)"
    using v assms(3) bound is_decimal_int [of v] is_decimal_int [of "int bps"] is_decimal_int [of ?m]
    by (simp_all add: dec_bound_def is_decimal_numeral)
  have q: "is_decimal (of_int ?m / 10000)"
    by (rule is_decimalI [OF bound, of 4]) simp_all
  have "dec_mul D (of_int v) (of_nat bps) = Some (of_int ?m)"
    using decimal_arith.mul_exact [OF assms(1) d(1,2)] d(3) by simp
  moreover have "dec_div D (of_int ?m) 10000 = Some (of_int ?m / 10000)"
    by (rule decimal_arith.div_exact [OF assms(1) d(3,4) _ q]) simp
  moreover have "is_i64 (exact_cost bps v)"
  proof -
    have "(0 :: rat) \<le> of_int ?m" "of_int ?m \<le> (of_int (v * 10000) :: rat)" using m by (simp_all only: of_int_0_le_iff of_int_le_iff)
    then have q: "0 \<le> of_int v * of_nat bps / (10000 :: rat)" "of_int v * of_nat bps / (10000 :: rat) \<le> of_int v"
      by (simp_all add: divide_le_eq)
    then have "0 \<le> exact_cost bps v" "exact_cost bps v \<le> v" unfolding exact_cost_def
      by (simp_all only: ceiling_le_iff) (simp add: zero_le_ceiling less_le_trans [of "- 1" 0])
    with v show ?thesis by (simp add: is_i64_def i64_max_def i64_min_def)
  qed
  ultimately show ?thesis by (simp add: bps_cost_def checked_i64_def exact_cost_def)
qed

text \<open>A trade that is closed: never a panic, and if it succeeds exactly the trade is added.\<close>

lemma add_costs_exact:
  assumes "decimal_arith D" "price_ok e" "price_ok x" "bps \<le> 10000"
  shows "\<exists>r. add_costs D acc e x bps = Some r \<and> (\<forall>v. r = Inr v \<longrightarrow> v = acc + (exact_cost bps e + exact_cost bps x))"
  by (simp add: add_costs_def go_on_def bps_cost_exact [OF assms(1,2,4)] bps_cost_exact [OF assms(1,3,4)] checked_i64_def ok_or_def)

lemma close_trip_exact:
  assumes "decimal_arith D" "price_ok e" "price_ok x" "validate_strategy s = Inr ()"
  shows "\<exists>r. close_trip D s e x b = Some r \<and> (\<forall>b'. r = Inr b' \<longrightarrow> bk_entry b' = None \<and> added_trades s [(e, x)] b b')"
proof -
  have bps: "th_fee_bps s \<le> 10000" "th_slippage_bps s \<le> 10000"
    using assms(4) by (auto simp: validate_strategy_def split: if_splits)
  have gain: "is_i64 (x - e)"
    using assms(2,3) by (auto simp: price_ok_def is_i64_def i64_max_def i64_min_def)
  obtain f where f: "add_costs D (bk_fees b) e x (th_fee_bps s) = Some f"
      "f = Inr v \<Longrightarrow> v = bk_fees b + (exact_cost (th_fee_bps s) e + exact_cost (th_fee_bps s) x)" for v
    using add_costs_exact [OF assms(1-3) bps(1)] by blast
  obtain l where l: "add_costs D (bk_slippage b) e x (th_slippage_bps s) = Some l"
      "l = Inr v \<Longrightarrow> v = bk_slippage b + (exact_cost (th_slippage_bps s) e + exact_cost (th_slippage_bps s) x)" for v
    using add_costs_exact [OF assms(1-3) bps(2)] by blast
  show ?thesis
    by (cases f; cases l)
      (simp_all add: close_trip_def gain go_on_def f l checked_i64_def ok_or_def added_trades_def trade_simps)
qed

lemma added_trades_trans:
  "added_trades s ts a b \<Longrightarrow> added_trades s us b c \<Longrightarrow> added_trades s (ts @ us) a c"
  by (simp add: added_trades_def trade_simps)

lemma added_trades_nil: "added_trades s [] b (b\<lparr>bk_entry := e\<rparr>)" "added_trades s [] b b"
  by (simp_all add: added_trades_def trade_simps)

lemma added_entry: "added_trades s ts (b\<lparr>bk_entry := e\<rparr>) b' = added_trades s ts b b'"
  by (simp add: added_trades_def)

definition loop_result :: "threshold_strategy \<Rightarrow> int option \<Rightarrow> int list \<Rightarrow> backtest_state \<Rightarrow> (backtest_error + backtest_state) option \<Rightarrow> bool" where
  "loop_result s e ps b r \<longleftrightarrow> (\<exists>x. r = Some x \<and> (\<forall>b'. x = Inr b' \<longrightarrow>
     added_trades s (fst (trades s e ps)) b b' \<and> bk_entry b' = snd (trades s e ps)))"

lemma loop_result_after:
  assumes "\<exists>r. c = Some r \<and> (\<forall>b'. r = Inr b' \<longrightarrow> bk_entry b' = None \<and> added_trades s [(e, p)] b b')"
    and "\<And>b'. bk_entry b' = None \<Longrightarrow> loop_result s None ps b' (f b')" "p \<ge> th_sell_above_minor s"
  shows "loop_result s (Some e) (p # ps) b (go_on c f)"
proof -
  from assms(1) obtain r where r: "c = Some r" "\<And>b'. r = Inr b' \<Longrightarrow> bk_entry b' = None \<and> added_trades s [(e, p)] b b'" by blast
  show ?thesis
  proof (cases r)
    case (Inl x)
    then show ?thesis by (simp add: r(1) go_on_def loop_result_def)
  next
    case (Inr b')
    with r assms(2) have l: "loop_result s None ps b' (f b')" and a: "added_trades s [(e, p)] b b'" by auto
    from l show ?thesis using added_trades_trans [OF a] assms(3) Inr
      by (auto simp: loop_result_def r(1) go_on_def split: prod.split)
  qed
qed

lemma backtest_loop_exact:
  assumes "decimal_arith D" "validate_strategy s = Inr ()"
    and "\<forall>t \<in> set ts. price_ok (tk_price_minor t)" "\<forall>e. bk_entry b = Some e \<longrightarrow> price_ok e"
  shows "loop_result s (bk_entry b) (map tk_price_minor ts) b (backtest_loop D s ts b)"
  using assms(3,4)
proof (induction ts arbitrary: b)
  case Nil
  then show ?case by (simp add: loop_result_def added_trades_nil)
next
  case (Cons t ts)
  let ?p = "tk_price_minor t"
  have p: "price_ok ?p" and rest: "\<forall>t \<in> set ts. price_ok (tk_price_minor t)" using Cons.prems(1) by simp_all
  show ?case
  proof (cases "bk_entry b")
    case None
    show ?thesis
    proof (cases "?p \<le> th_buy_below_minor s")
      case True
      with Cons.IH [OF rest, of "b\<lparr>bk_entry := Some ?p\<rparr>"] p None show ?thesis
        by (simp add: loop_result_def added_entry)
    next
      case False
      with Cons.IH [OF rest, of b] None show ?thesis by (simp add: loop_result_def)
    qed
  next
    case (Some e)
    with Cons.prems(2) have e: "price_ok e" by simp
    show ?thesis
    proof (cases "?p \<ge> th_sell_above_minor s")
      case True
      have "loop_result s (Some e) (?p # map tk_price_minor ts) b (go_on (close_trip D s e ?p b) (backtest_loop D s ts))"
      proof (rule loop_result_after [OF close_trip_exact [OF assms(1) e p assms(2)] _ True])
        fix b' :: backtest_state
        assume "bk_entry b' = None"
        with Cons.IH [OF rest, of b'] show "loop_result s None (map tk_price_minor ts) b' (backtest_loop D s ts b')" by simp
      qed
      with Some True show ?thesis by simp
    next
      case False
      with Cons.IH [OF rest, of b] Some e show ?thesis by (simp add: loop_result_def)
    qed
  qed
qed

lemma collect_ticks_ok:
  "collect_ticks decode es = Inr ts \<Longrightarrow> decodes_i64 decode \<Longrightarrow> t \<in> set ts \<Longrightarrow> price_ok (tk_price_minor t)"
proof (induction es arbitrary: ts)
  case (Cons e es)
  then show ?case
    by (auto simp: decode_tick_def result_iffs decodes_i64_def price_ok_def split: if_splits)
qed simp

lemma trades_held_ok: "snd (trades s e ps) = Some x \<Longrightarrow> e = Some x \<or> x \<in> set ps"
  by (induction s e ps rule: trades.induct) (auto split: if_splits prod.splits)

lemma close_all:
  assumes "decimal_arith D" "validate_strategy s = Inr ()" "price_ok final" "last ps = final" "\<forall>t \<in> set ticks. price_ok (tk_price_minor t)"
    and "ps = map tk_price_minor ticks" "added_trades s (fst (trades s None ps)) b0 b1" "bk_entry b1 = snd (trades s None ps)"
  shows "\<exists>y. (case bk_entry b1 of None \<Rightarrow> Some (Inr (b1, 0))
      | Some entry \<Rightarrow> map_option (map_ok (\<lambda>b'. (b', 1))) (close_trip D s entry final b1)) = Some y
    \<and> (\<forall>b2 n. y = Inr (b2, n :: nat) \<longrightarrow> added_trades s (all_trades s ps) b0 b2)"
proof (cases "bk_entry b1")
  case None
  with assms(7,8) show ?thesis by (simp add: all_trades_def case_prod_unfold)
next
  case (Some e)
  with assms(8) have "snd (trades s None ps) = Some e" by simp
  from trades_held_ok [OF this] have "e \<in> set ps" by simp
  with assms(5,6) have e: "price_ok e" by auto
  obtain r where r: "close_trip D s e final b1 = Some r" "\<And>b'. r = Inr b' \<Longrightarrow> added_trades s [(e, final)] b1 b'"
    using close_trip_exact [OF assms(1) e assms(3,2), of b1] by blast
  have "added_trades s (all_trades s ps) b0 b'" if "r = Inr b'" for b'
    using added_trades_trans [OF assms(7) r(2) [OF that]] Some assms(4,8) by (simp add: all_trades_def case_prod_unfold)
  with Some r(1) show ?thesis by (auto simp: map_ok_Inr_iff)
qed

text \<open>
  Property C22. A backtest never panics, and a report it returns is that of the trades of the
  reference strategy on the recorded prices: their number, the sum of their gains, the costs of each leg
  rounded up, and the net of the three.
\<close>

theorem backtest_reports_trades:
  assumes "decimal_arith D" "decodes_i64 decode"
  shows "\<exists>r. backtest_run D sha json decode h s = Some r \<and> (\<forall>rep. r = Inr rep \<longrightarrow>
    (\<exists>ticks. collect_ticks decode (rh_events h) = Inr ticks \<and> reports_trades s (all_trades s (map tk_price_minor ticks)) rep))"
proof (cases "validate_strategy s = Inr () \<and> (\<exists>ticks. collect_ticks decode (rh_events h) = Inr ticks \<and> ticks \<noteq> [])")
  case False
  then show ?thesis
    by (cases "validate_strategy s"; cases "collect_ticks decode (rh_events h)") (auto simp: backtest_run_def go_on_def)
next
  case True
  then obtain ticks where v: "validate_strategy s = Inr ()" and ticks: "collect_ticks decode (rh_events h) = Inr ticks" "ticks \<noteq> []" by blast
  let ?ps = "map tk_price_minor ticks" and ?b0 = "\<lparr>bk_entry = None, bk_gross = 0, bk_fees = 0, bk_slippage = 0, bk_round_trips = 0\<rparr>"
  have ok: "\<forall>t \<in> set ticks. price_ok (tk_price_minor t)" using collect_ticks_ok [OF ticks(1) assms(2)] by blast
  have final: "price_ok (tk_price_minor (last ticks))" "last ?ps = tk_price_minor (last ticks)"
    using ok ticks(2) by (simp_all add: last_map)
  obtain x where x: "backtest_loop D s ticks ?b0 = Some x"
    and b: "\<And>b. x = Inr b \<Longrightarrow> added_trades s (fst (trades s None ?ps)) ?b0 b \<and> bk_entry b = snd (trades s None ?ps)"
    using backtest_loop_exact [OF assms(1) v ok, of ?b0] by (auto simp: loop_result_def)
  show ?thesis
  proof (cases x)
    case (Inl e)
    with x v ticks show ?thesis by (simp add: backtest_run_def go_on_def Let_def)
  next
    case (Inr b1)
    with b have b1: "added_trades s (fst (trades s None ?ps)) ?b0 b1" "bk_entry b1 = snd (trades s None ?ps)" by auto
    let ?close = "case bk_entry b1 of None \<Rightarrow> Some (Inr (b1, 0 :: nat))
      | Some entry \<Rightarrow> map_option (map_ok (\<lambda>b'. (b', 1))) (close_trip D s entry (tk_price_minor (last ticks)) b1)"
    obtain y where y: "?close = Some y"
      and all: "\<And>b2 n. y = Inr (b2, n) \<Longrightarrow> added_trades s (all_trades s ?ps) ?b0 b2"
      using close_all [OF assms(1) v final ok refl b1] by blast
    show ?thesis
    proof (cases y)
      case (Inl e)
      with x y v ticks \<open>x = Inr b1\<close> show ?thesis by (simp add: backtest_run_def go_on_def Let_def)
    next
      case (Inr z)
      obtain b2 n where z: "z = (b2, n)" by (cases z)
      have "added_trades s (all_trades s ?ps) ?b0 b2" by (rule all) (simp add: Inr z)
      with x y v ticks \<open>x = Inr b1\<close> Inr z show ?thesis
        by (auto simp: backtest_run_def go_on_def Let_def ok_or_def checked_i64_def map_err_def reports_trades_def added_trades_def
          split: sum.split)
    qed
  qed
qed

subsection \<open>What a replay says\<close>

lemma run_handler_length: "run_handler handler es st = (Inr outs, st') \<Longrightarrow> length outs = length es"
  by (induction es arbitrary: st outs) (auto simp: map_ok_Inr_iff split: prod.splits sum.splits)

lemma no_mismatches:
  assumes "inj sha" "length es = length outs"
  shows "list_mismatches sha i (zip es outs) = [] \<longleftrightarrow> map ce_payload_bytes es = outs"
  using assms(2)
proof (induction es outs arbitrary: i rule: list_induct2)
  case (Cons e es out outs)
  then show ?case using assms(1) by (auto simp: encode_hex_inject inj_eq Let_def)
qed simp

text \<open>
  With a hash free of collisions a replay matches exactly when the outputs, joined,
  are the recorded bytes, joined; its list of mismatches is empty exactly then. Where the bytes are cut
  into events does not count.
\<close>

theorem replay_matches_iff:
  assumes "inj sha" "replay_events sha handler h st = (Inr res, st')"
  shows "\<exists>outs. run_handler handler (rh_events h) st = (Inr outs, st') \<and> rp_event_count res = length outs
    \<and> (rp_matched res \<longleftrightarrow> concat outs = concat (map ce_payload_bytes (rh_events h)))
    \<and> (rp_mismatches res = [] \<longleftrightarrow> rp_matched res)"
proof -
  from assms(2) obtain outs where outs: "run_handler handler (rh_events h) st = (Inr outs, st')"
    by (auto simp: replay_events_def Let_def split: prod.splits sum.splits)
  have len: "length (rh_events h) = length outs" using run_handler_length [OF outs] by simp
  have same: "encode_hex (sha (concat (map ce_payload_bytes (rh_events h)))) = encode_hex (sha (concat outs))
      \<longleftrightarrow> concat outs = concat (map ce_payload_bytes (rh_events h))"
    using assms(1) by (auto simp: encode_hex_inject inj_eq)
  have none: "list_mismatches sha 0 (zip (rh_events h) outs) = [] \<longleftrightarrow> map ce_payload_bytes (rh_events h) = outs"
    by (rule no_mismatches [OF assms(1) len])
  show ?thesis
  proof (cases "concat outs = concat (map ce_payload_bytes (rh_events h))")
    case True
    with assms(2) outs len same show ?thesis by (simp add: replay_events_def Let_def) force
  next
    case False
    then have "list_mismatches sha 0 (zip (rh_events h) outs) \<noteq> []" using none by auto
    with False assms(2) outs len same show ?thesis by (simp add: replay_events_def Let_def) force
  qed
qed

subsection \<open>Examples\<close>

definition wit_tick :: "u8 \<Rightarrow> captured_event" where
  "wit_tick p = \<lparr>ce_seq = 0, ce_trace_id = ''t'', ce_event_type = ''strategy_tick'', ce_payload_sha256 = [], ce_payload_bytes = [p],
     ce_wall_clock_offset_ms = 0\<rparr>"

definition wit_decode_tick :: "u8 list \<Rightarrow> string + strategy_tick" where
  "wit_decode_tick bs = (case bs of [p] \<Rightarrow> Inr \<lparr>tk_timestamp_ms = 0, tk_price_minor = uint p\<rparr> | _ \<Rightarrow> Inl ''eof'')"

definition wit_capture :: replay_harness where
  "wit_capture = new_replay (map wit_tick [70, 50, 60, 40])"

definition wit_strategy :: threshold_strategy where
  "wit_strategy = \<lparr>th_buy_below_minor = 50, th_sell_above_minor = 60, th_fee_bps = 100, th_slippage_bps = 0\<rparr>"

definition wit_sha :: "u8 list \<Rightarrow> u8 list" where
  "wit_sha bs = bs"

lemma small_is_i64: "\<bar>x\<bar> < 1000 \<Longrightarrow> is_i64 x"
  by (auto simp: is_i64_def i64_max_def i64_min_def abs_less_iff)

lemma wit_decodes: "decodes_i64 wit_decode_tick"
proof -
  have "is_i64 (uint p)" for p :: u8
    by (rule small_is_i64) (use unsigned_less [of p, where ?'a = int] in simp)
  then show ?thesis by (auto simp: decodes_i64_def wit_decode_tick_def split: list.splits)
qed

lemma wit_costs: "v \<in> {40, 50, 60} \<Longrightarrow> bps_cost dec_ref v 100 = Some (Inr 1)" "v \<in> {40, 50, 60} \<Longrightarrow> bps_cost dec_ref v 0 = Some (Inr 0)"
proof -
  assume v: "v \<in> {40, 50, 60}"
  then have "price_ok v" by (auto simp: price_ok_def is_i64_def i64_max_def i64_min_def)
  from bps_cost_exact [OF dec_ref.decimal_arith_axioms this] v
  show "bps_cost dec_ref v 100 = Some (Inr 1)" "bps_cost dec_ref v 0 = Some (Inr 0)"
    by (auto simp: exact_cost_def ceiling_eq_iff)
qed

lemma wit_backtest: "\<exists>rep. backtest_run dec_ref wit_sha (\<lambda>_. Inr [9]) wit_decode_tick wit_capture wit_strategy = Some (Inr rep)"
proof -
  have t: "collect_ticks wit_decode_tick (rh_events wit_capture) = Inr (map (\<lambda>p. \<lparr>tk_timestamp_ms = 0, tk_price_minor = p\<rparr>) [70, 50, 60, 40])"
    by (simp add: wit_capture_def new_replay_def wit_tick_def decode_tick_def wit_decode_tick_def)
  have i: "is_i64 x" if "\<bar>x\<bar> \<le> 100" for x using that by (intro small_is_i64) simp
  have s: "validate_strategy wit_strategy = Inr ()" "th_buy_below_minor wit_strategy = 50" "th_sell_above_minor wit_strategy = 60"
    "th_fee_bps wit_strategy = 100" "th_slippage_bps wit_strategy = 0"
    by (simp_all add: validate_strategy_def wit_strategy_def)
  have c: "close_trip dec_ref wit_strategy 50 60 \<lparr>bk_entry = Some 50, bk_gross = 0, bk_fees = 0, bk_slippage = 0, bk_round_trips = 0\<rparr>
      = Some (Inr \<lparr>bk_entry = None, bk_gross = 10, bk_fees = 2, bk_slippage = 0, bk_round_trips = 1\<rparr>)"
    "close_trip dec_ref wit_strategy 40 40 \<lparr>bk_entry = Some 40, bk_gross = 10, bk_fees = 2, bk_slippage = 0, bk_round_trips = 1\<rparr>
      = Some (Inr \<lparr>bk_entry = None, bk_gross = 10, bk_fees = 4, bk_slippage = 0, bk_round_trips = 2\<rparr>)"
    by (simp_all add: close_trip_def add_costs_def go_on_def s wit_costs checked_i64_def i)
  show ?thesis
    by (simp add: backtest_run_def t s) (simp add: go_on_def s c [simplified] checked_i64_def i)
qed

theorem backtest_reports_trades_witness:
  "\<exists>rep. backtest_run dec_ref wit_sha (\<lambda>_. Inr [9]) wit_decode_tick wit_capture wit_strategy = Some (Inr rep)
     \<and> br_round_trips rep = 2 \<and> br_gross_pnl_minor rep = 10"
proof -
  obtain rep where run: "backtest_run dec_ref wit_sha (\<lambda>_. Inr [9]) wit_decode_tick wit_capture wit_strategy = Some (Inr rep)"
    using wit_backtest by blast
  have t: "collect_ticks wit_decode_tick (rh_events wit_capture) = Inr (map (\<lambda>p. \<lparr>tk_timestamp_ms = 0, tk_price_minor = p\<rparr>) [70, 50, 60, 40])"
    by (simp add: wit_capture_def new_replay_def wit_tick_def decode_tick_def wit_decode_tick_def)
  have "all_trades wit_strategy [70, 50, 60, 40] = [(50, 60), (40, 40)]"
    by (simp add: all_trades_def wit_strategy_def)
  with backtest_reports_trades [OF dec_ref.decimal_arith_axioms wit_decodes, of wit_sha "\<lambda>_. Inr [9]" wit_capture wit_strategy] run t
  show ?thesis by (simp add: reports_trades_def trade_gains_def)
qed

theorem replay_matches_iff_witness:
  "\<exists>res. replay_events wit_sha (\<lambda>e n. (Inr (if n = 0 then [] else if n = 1 then [70, 50] else ce_payload_bytes e), Suc n)) wit_capture 0
     = (Inr res, 4) \<and> rp_matched res \<and> rp_mismatches res = []"
proof -
  let ?h = "\<lambda>e n. (Inr (if n = 0 then [] else if n = 1 then [70, 50] else ce_payload_bytes e), Suc n)"
  have inj: "inj wit_sha" by (simp add: inj_def wit_sha_def)
  have outs: "run_handler ?h (rh_events wit_capture) 0 = (Inr [[], [70, 50], [60], [40]], 4)"
    by (simp add: wit_capture_def new_replay_def wit_tick_def)
  then obtain res where run: "replay_events wit_sha ?h wit_capture 0 = (Inr res, 4)" by (simp add: replay_events_def Let_def)
  from replay_matches_iff [OF inj run] outs run show ?thesis
    by (auto simp: wit_capture_def new_replay_def wit_tick_def)
qed

end
