(* ===== verification/Plugin_Gate.thy ===== *)
theory Plugin_Gate
  imports Authz Core_Types Rust_Text Hex_Numbers
begin

text \<open>
  The gate through which a plugin is executed (\<^verbatim>\<open>crates/aether-plugin\<close>): manifests (\<^verbatim>\<open>manifest.rs\<close>), their
  signatures (\<^verbatim>\<open>signing.rs\<close>), the dependency scan (\<^verbatim>\<open>dependency.rs\<close>), the sandbox (\<^verbatim>\<open>sandbox.rs\<close>,
  \<^verbatim>\<open>runtime.rs\<close>), the audit record (\<^verbatim>\<open>audit.rs\<close>), the approval (\<^verbatim>\<open>approval.rs\<close>) and the gate itself
  (\<^verbatim>\<open>gate.rs\<close>). JSON, SHA-256, Ed25519 and the WebAssembly engine are parameters. The lemmas show what a
  plugin that has run has passed.
\<close>

subsection \<open>Manifests (manifest.rs)\<close>

datatype capability = ReadMarkets | ReadPositions | SubmitAlerts | AccessBrain | ExecutePaper | NetworkHttp

primrec host_import :: "capability \<Rightarrow> string option" where
  "host_import ReadMarkets = Some ''read_markets''"
| "host_import ReadPositions = Some ''read_positions''"
| "host_import SubmitAlerts = Some ''submit_alert''"
| "host_import AccessBrain = Some ''access_brain''"
| "host_import ExecutePaper = Some ''execute_paper''"
| "host_import NetworkHttp = None"

record plugin_dependency =
  pd_name :: string
  pd_version :: string

datatype plugin_kind = ScannerPlugin | StrategyPlugin | AlertPlugin | DashboardPlugin | DataImportPlugin

record plugin_manifest =
  pm_name :: string
  pm_version :: string
  pm_description :: string
  pm_author :: string
  pm_kind :: plugin_kind
  pm_capabilities :: "capability list"
  pm_network_allowlist :: "string list"
  pm_dependencies :: "plugin_dependency list"
  pm_dependency_lock_hash :: string
  pm_wasm_hash :: string
  pm_entry_point :: string
  pm_config_schema :: "(string \<times> string) list"

datatype manifest_error =
    InvalidName | InvalidVersion | NoCapabilities | DuplicateCapability | InvalidHash | InvalidDependencyHash
  | InvalidEntryPoint | InvalidNetworkAllowlist | UnexpectedNetworkAllowlist

definition validate_sha256 :: "string \<Rightarrow> bool" where
  "validate_sha256 s \<longleftrightarrow> length s = 64 \<and> list_all is_ascii_hexdigit s"

definition valid_host :: "string \<Rightarrow> bool" where
  "valid_host host \<longleftrightarrow> host \<noteq> [] \<and> length host \<le> 253 \<and> list_all (\<lambda>c. c \<notin> set ''/:@*'') host
     \<and> list_all (\<lambda>label. label \<noteq> [] \<and> list_all (\<lambda>c. is_ascii_alphanumeric c \<or> c = CHR ''-'') label) (split_char (CHR ''.'') host)"

definition manifest_validate :: "plugin_manifest \<Rightarrow> manifest_error + unit" where
  "manifest_validate m =
     (if pm_name m = [] \<or> \<not> list_all (\<lambda>c. is_ascii_alphanumeric c \<or> c = CHR ''-'' \<or> c = CHR ''_'') (pm_name m) then Inl InvalidName
      else if pm_version m = [] then Inl InvalidVersion
      else if pm_capabilities m = [] then Inl NoCapabilities
      else if card (set (pm_capabilities m)) \<noteq> length (pm_capabilities m) then Inl DuplicateCapability
      else if \<not> validate_sha256 (pm_wasm_hash m) then Inl InvalidHash
      else if \<not> validate_sha256 (pm_dependency_lock_hash m) then Inl InvalidDependencyHash
      else if pm_entry_point m = [] then Inl InvalidEntryPoint
      else if NetworkHttp \<in> set (pm_capabilities m)
      then (if pm_network_allowlist m = [] \<or> \<not> list_all valid_host (pm_network_allowlist m) then Inl InvalidNetworkAllowlist else Inr ())
      else if pm_network_allowlist m \<noteq> [] then Inl UnexpectedNetworkAllowlist
      else Inr ())"

subsection \<open>Signatures (signing.rs)\<close>

record ed_signature =
  es_value :: string
  es_public_key :: string
  es_algorithm :: string

datatype signing_error =
    SgJson string | UnsupportedAlgorithm string | InvalidSignatureEncoding | InvalidPublicKey | VerificationFailed

text \<open>\<open>px_json\<close> is the canonical JSON of a manifest, \<open>px_public\<close> and \<open>px_sign\<close> the public key and the signature of
  a secret key; \<open>px_is_key\<close> says which 32 bytes are a public key. \<open>px_digest_json\<close> is the encoding that an
  approval is bound to, which keeps the order of the fields.\<close>

record plugin_crypto =
  px_json :: "plugin_manifest \<Rightarrow> string + u8 list"
  px_digest_json :: "plugin_manifest \<Rightarrow> string + u8 list"
  px_sha256 :: "u8 list \<Rightarrow> u8 list"
  px_public :: "u8 list \<Rightarrow> u8 list"
  px_sign :: "u8 list \<Rightarrow> u8 list \<Rightarrow> u8 list"
  px_is_key :: "u8 list \<Rightarrow> bool"
  px_verify :: "u8 list \<Rightarrow> u8 list \<Rightarrow> u8 list \<Rightarrow> bool"

definition sign_manifest :: "plugin_crypto \<Rightarrow> plugin_manifest \<Rightarrow> u8 list \<Rightarrow> signing_error + ed_signature" where
  "sign_manifest X m secret =
     map_ok (\<lambda>bytes. \<lparr>es_value = encode_hex (px_sign X secret bytes), es_public_key = encode_hex (px_public X secret),
       es_algorithm = ''ed25519''\<rparr>) (map_err SgJson (px_json X m))"

definition decode_array :: "nat \<Rightarrow> string \<Rightarrow> u8 list option" where
  "decode_array n s = Option.bind (hex_decode s) (\<lambda>bs. if length bs = n then Some bs else None)"

definition verify_manifest :: "plugin_crypto \<Rightarrow> plugin_manifest \<Rightarrow> ed_signature \<Rightarrow> signing_error + unit" where
  "verify_manifest X m s =
     (if es_algorithm s \<noteq> ''ed25519'' then Inl (UnsupportedAlgorithm (es_algorithm s))
      else and_then (map_err SgJson (px_json X m)) (\<lambda>bytes.
           and_then (ok_or InvalidSignatureEncoding (decode_array 64 (es_value s))) (\<lambda>sig.
           and_then (ok_or InvalidPublicKey (decode_array 32 (es_public_key s))) (\<lambda>key.
             if \<not> px_is_key X key then Inl InvalidPublicKey
             else if px_verify X key bytes sig then Inr () else Inl VerificationFailed))))"

subsection \<open>Dependencies (dependency.rs)\<close>

datatype dependency_error = LockMismatch | KnownVulnerable string string

definition dependency_lock_hash :: "plugin_crypto \<Rightarrow> plugin_dependency list \<Rightarrow> string" where
  "dependency_lock_hash X ds =
     encode_hex (px_sha256 X (map byte_of (join_with [CHR 0x0A] (sort (map (\<lambda>d. pd_name d @ ''@'' @ pd_version d) ds)))))"

fun scan_denied :: "(string \<times> string) set \<Rightarrow> plugin_dependency list \<Rightarrow> dependency_error + unit" where
  "scan_denied denied [] = Inr ()"
| "scan_denied denied (d # ds) =
     (if (pd_name d, pd_version d) \<in> denied then Inl (KnownVulnerable (pd_name d) (pd_version d)) else scan_denied denied ds)"

definition dependency_scan :: "plugin_crypto \<Rightarrow> (string \<times> string) set \<Rightarrow> plugin_manifest \<Rightarrow> dependency_error + unit" where
  "dependency_scan X denied m =
     (if dependency_lock_hash X (pm_dependencies m) \<noteq> pm_dependency_lock_hash m then Inl LockMismatch
      else scan_denied denied (pm_dependencies m))"

subsection \<open>The sandbox (sandbox.rs, runtime.rs)\<close>

record sandbox_config =
  sb_max_memory_bytes :: nat
  sb_max_fuel :: nat
  sb_allowed_capabilities :: "capability set"
  sb_network_allowlist :: "string set"

definition sandbox_default :: sandbox_config where
  "sandbox_default = \<lparr>sb_max_memory_bytes = 64 * 1024 * 1024, sb_max_fuel = 5000000, sb_allowed_capabilities = {}, sb_network_allowlist = {}\<rparr>"

definition from_approval :: "plugin_manifest \<Rightarrow> capability set \<Rightarrow> sandbox_config" where
  "from_approval m granted =
     sandbox_default\<lparr>sb_allowed_capabilities := granted, sb_network_allowlist := set (pm_network_allowlist m)\<rparr>"

definition permits :: "sandbox_config \<Rightarrow> capability \<Rightarrow> bool" where
  "permits s c \<longleftrightarrow> c \<in> sb_allowed_capabilities s"

record host_state =
  ho_granted :: "capability set"
  ho_denied :: "capability list"
  ho_calls :: "capability list"

definition invoke :: "capability \<Rightarrow> host_state \<Rightarrow> int \<times> host_state" where
  "invoke c h =
     (let h1 = h\<lparr>ho_calls := ho_calls h @ [c]\<rparr>
      in if c \<in> ho_granted h then (1, h1) else (0, h1\<lparr>ho_denied := ho_denied h1 @ [c]\<rparr>))"

text \<open>What a module does, as the engine shows it to the host: it returns, traps, or calls a host
  function by its import name and goes on with the answer. A module whose imports are not all among the
  functions of the host does not link.\<close>

datatype wasm_run = WasmReturn int | WasmTrap | WasmCall capability "int \<Rightarrow> wasm_run"

record wasm_engine =
  we_valid :: "u8 list \<Rightarrow> bool"
  we_set_fuel :: "nat \<Rightarrow> bool"
  we_imports :: "u8 list \<Rightarrow> string list"
  we_start :: "sandbox_config \<Rightarrow> u8 list \<Rightarrow> wasm_run"
  we_entry :: "sandbox_config \<Rightarrow> u8 list \<Rightarrow> string \<Rightarrow> wasm_run option"

primrec run_host :: "wasm_run \<Rightarrow> host_state \<Rightarrow> int option \<times> host_state" where
  "run_host (WasmReturn n) h = (Some n, h)"
| "run_host WasmTrap h = (None, h)"
| "run_host (WasmCall c k) h = (case invoke c h of (answer, h') \<Rightarrow> run_host (k answer) h')"

datatype wasm_error =
    WasmHashMismatch | OverScopedManifest | NetworkHostUnavailable | InvalidModule | FuelConfiguration
  | ImportOrStartDenied | InvalidWasmEntryPoint | ExecutionTrapped | CapabilityDenied capability | HostConfiguration

record execution_report =
  xr_return_code :: int
  xr_host_calls :: "capability list"

definition host_functions :: "(string \<times> capability) list" where
  "host_functions = [(''read_markets'', ReadMarkets), (''read_positions'', ReadPositions), (''submit_alert'', SubmitAlerts),
     (''access_brain'', AccessBrain), (''execute_paper'', ExecutePaper)]"

text \<open>What is checked before any of the module's code runs, and the code that then runs: its start function
  and its entry point, with what the host has seen when it stops.\<close>

definition wasm_checks ::
  "plugin_crypto \<Rightarrow> wasm_engine \<Rightarrow> plugin_manifest \<Rightarrow> u8 list \<Rightarrow> sandbox_config \<Rightarrow> wasm_error + unit" where
  "wasm_checks X W m wasm s =
     (if encode_hex (px_sha256 X wasm) \<noteq> pm_wasm_hash m then Inl WasmHashMismatch
      else if \<not> set (pm_capabilities m) \<subseteq> sb_allowed_capabilities s then Inl OverScopedManifest
      else if NetworkHttp \<in> sb_allowed_capabilities s then Inl NetworkHostUnavailable
      else if \<not> we_valid W wasm then Inl InvalidModule
      else if \<not> we_set_fuel W (sb_max_fuel s) then Inl FuelConfiguration
      else if \<not> list_all (\<lambda>i. map_of host_functions i \<noteq> None) (we_imports W wasm) then Inl ImportOrStartDenied
      else Inr ())"

definition wasm_guest ::
  "wasm_engine \<Rightarrow> plugin_manifest \<Rightarrow> u8 list \<Rightarrow> sandbox_config \<Rightarrow> (wasm_error + execution_report) \<times> host_state" where
  "wasm_guest W m wasm s =
     (case run_host (we_start W s wasm) \<lparr>ho_granted = sb_allowed_capabilities s, ho_denied = [], ho_calls = []\<rparr> of
        (None, h1) \<Rightarrow> (Inl ImportOrStartDenied, h1)
      | (Some _, h1) \<Rightarrow>
          (case we_entry W s wasm (pm_entry_point m) of
             None \<Rightarrow> (Inl InvalidWasmEntryPoint, h1)
           | Some entry \<Rightarrow>
               (case run_host entry h1 of
                  (None, h2) \<Rightarrow> (Inl ExecutionTrapped, h2)
                | (Some code, h2) \<Rightarrow>
                    (case ho_denied h2 of
                       c # _ \<Rightarrow> (Inl (CapabilityDenied c), h2)
                     | [] \<Rightarrow> (Inr \<lparr>xr_return_code = code, xr_host_calls = ho_calls h2\<rparr>, h2)))))"

definition wasm_execute ::
  "plugin_crypto \<Rightarrow> wasm_engine \<Rightarrow> plugin_manifest \<Rightarrow> u8 list \<Rightarrow> sandbox_config \<Rightarrow> wasm_error + execution_report" where
  "wasm_execute X W m wasm s = and_then (wasm_checks X W m wasm s) (\<lambda>_. fst (wasm_guest W m wasm s))"

subsection \<open>The gate (gate.rs, audit.rs)\<close>

record plugin_audit_event =
  pa_plugin :: string
  pa_version :: string
  pa_stage :: string
  pa_allowed :: bool
  pa_reason :: string

datatype gate_error =
    GateManifest manifest_error | MissingSignature | UntrustedSigner | GateSignature signing_error
  | GateDependency dependency_error | GateRuntime wasm_error

fun gate_error_code :: "gate_error \<Rightarrow> string" where
  "gate_error_code (GateManifest _) = ''invalid_manifest''"
| "gate_error_code MissingSignature = ''missing_signature''"
| "gate_error_code UntrustedSigner = ''untrusted_signer''"
| "gate_error_code (GateSignature _) = ''invalid_signature''"
| "gate_error_code (GateDependency _) = ''dependency_denied''"
| "gate_error_code (GateRuntime WasmHashMismatch) = ''wasm_hash_mismatch''"
| "gate_error_code (GateRuntime OverScopedManifest) = ''capability_scope_denied''"
| "gate_error_code (GateRuntime NetworkHostUnavailable) = ''network_host_unavailable''"
| "gate_error_code (GateRuntime InvalidModule) = ''invalid_module''"
| "gate_error_code (GateRuntime FuelConfiguration) = ''fuel_configuration_failed''"
| "gate_error_code (GateRuntime ImportOrStartDenied) = ''import_denied''"
| "gate_error_code (GateRuntime InvalidWasmEntryPoint) = ''invalid_entry_point''"
| "gate_error_code (GateRuntime ExecutionTrapped) = ''execution_trapped''"
| "gate_error_code (GateRuntime (CapabilityDenied _)) = ''host_capability_denied''"
| "gate_error_code (GateRuntime HostConfiguration) = ''host_configuration_failed''"

record plugin_gate =
  pg_trusted_signers :: "string set"
  pg_denied_dependencies :: "(string \<times> string) set"
  pg_crypto :: plugin_crypto
  pg_engine :: wasm_engine

definition audit_identifier :: "string \<Rightarrow> string" where
  "audit_identifier s = take 128 (filter (\<lambda>c. is_ascii_alphanumeric c \<or> c = CHR ''-'' \<or> c = CHR ''_'' \<or> c = CHR ''.'') s)"

definition load_checks :: "plugin_gate \<Rightarrow> plugin_manifest \<Rightarrow> ed_signature option \<Rightarrow> gate_error + unit" where
  "load_checks G m sig =
     and_then (map_err GateManifest (manifest_validate m)) (\<lambda>_.
     and_then (ok_or MissingSignature sig) (\<lambda>s.
       if es_public_key s \<notin> pg_trusted_signers G then Inl UntrustedSigner
       else
         and_then (map_err GateSignature (verify_manifest (pg_crypto G) m s)) (\<lambda>_.
         map_err GateDependency (dependency_scan (pg_crypto G) (pg_denied_dependencies G) m))))"

definition load_and_run_inner ::
  "plugin_gate \<Rightarrow> plugin_manifest \<Rightarrow> ed_signature option \<Rightarrow> u8 list \<Rightarrow> capability set \<Rightarrow> gate_error + execution_report" where
  "load_and_run_inner G m sig wasm granted =
     and_then (load_checks G m sig) (\<lambda>_.
       map_err GateRuntime (wasm_execute (pg_crypto G) (pg_engine G) m wasm (from_approval m granted)))"

text \<open>The memory sink, whose poisoned lock is recovered, is a list.\<close>

definition load_candidate ::
  "plugin_gate \<Rightarrow> plugin_manifest \<Rightarrow> ed_signature option \<Rightarrow> u8 list \<Rightarrow> capability set \<Rightarrow> plugin_audit_event list
     \<Rightarrow> (gate_error + execution_report) \<times> plugin_audit_event list" where
  "load_candidate G m sig wasm granted audit =
     (let r = load_and_run_inner G m sig wasm granted
      in (r, audit @ [\<lparr>pa_plugin = audit_identifier (pm_name m), pa_version = audit_identifier (pm_version m), pa_stage = ''load'',
                pa_allowed = (case r of Inl _ \<Rightarrow> False | Inr _ \<Rightarrow> True),
                pa_reason = (case r of Inl e \<Rightarrow> gate_error_code e | Inr _ \<Rightarrow> ''allowed'')\<rparr>]))"

definition gate_load_and_run ::
  "plugin_gate \<Rightarrow> plugin_manifest \<Rightarrow> ed_signature \<Rightarrow> u8 list \<Rightarrow> capability set \<Rightarrow> plugin_audit_event list
     \<Rightarrow> (gate_error + execution_report) \<times> plugin_audit_event list" where
  "gate_load_and_run G m sig wasm granted audit = load_candidate G m (Some sig) wasm granted audit"

subsection \<open>Approvals (approval.rs)\<close>

record plugin_approval =
  pv_actor_id :: string
  pv_step_up_id :: string
  pv_signature :: ed_signature
  pv_granted_capabilities :: "capability set"
  pv_manifest_digest :: "u8 list"

datatype approval_error =
    ApHumanStepUpRequired | ApDenied string | ApManifest manifest_error | ApSignature signing_error | ApEncoding

definition manifest_digest :: "plugin_crypto \<Rightarrow> plugin_manifest \<Rightarrow> approval_error + u8 list" where
  "manifest_digest X m = map_ok (px_sha256 X) (map_err (\<lambda>_. ApEncoding) (px_digest_json X m))"

definition approval_verify ::
  "plugin_crypto \<Rightarrow> plugin_manifest \<Rightarrow> actor \<Rightarrow> evaluation_context \<Rightarrow> string \<Rightarrow> ed_signature \<Rightarrow> capability set
     \<Rightarrow> approval_error + plugin_approval" where
  "approval_verify X m actor c step_up sig granted =
     and_then (map_err ApManifest (manifest_validate m)) (\<lambda>_.
     and_then (map_err ApSignature (verify_manifest X m sig)) (\<lambda>_.
       if ac_kind actor \<noteq> Human \<or> step_up = [] then Inl ApHumanStepUpRequired
       else
         let d = evaluate actor ApprovePlugin c
         in if de_verdict d \<noteq> VAllow then Inl (ApDenied (de_rule d))
            else map_ok (\<lambda>digest. \<lparr>pv_actor_id = ac_id actor, pv_step_up_id = step_up, pv_signature = sig,
                   pv_granted_capabilities = granted, pv_manifest_digest = digest\<rparr>) (manifest_digest X m)))"

definition matches_manifest :: "plugin_crypto \<Rightarrow> plugin_approval \<Rightarrow> plugin_manifest \<Rightarrow> bool" where
  "matches_manifest X v m \<longleftrightarrow> manifest_digest X m = Inr (pv_manifest_digest v)"

subsection \<open>What a plugin that has run has passed\<close>

lemma run_host_calls:
  assumes "run_host r h = (x, h')"
  shows "ho_granted h' = ho_granted h \<and> (\<exists>cs. ho_calls h' = ho_calls h @ cs \<and> ho_denied h' = ho_denied h @ filter (\<lambda>c. c \<notin> ho_granted h) cs)"
  using assms
proof (induction r arbitrary: h x h')
  case (WasmCall c k)
  obtain a h1 where i: "invoke c h = (a, h1)" by force
  then have h1: "ho_granted h1 = ho_granted h" "ho_calls h1 = ho_calls h @ [c]"
    "ho_denied h1 = ho_denied h @ filter (\<lambda>c. c \<notin> ho_granted h) [c]"
    by (auto simp: invoke_def Let_def split: if_splits)
  from WasmCall.prems i have "run_host (k a) h1 = (x, h')" by simp
  from WasmCall.IH [OF _ this] obtain cs where
    "ho_granted h' = ho_granted h1" "ho_calls h' = ho_calls h1 @ cs" "ho_denied h' = ho_denied h1 @ filter (\<lambda>c. c \<notin> ho_granted h1) cs"
    by auto
  with h1 show ?case by (intro conjI exI [of _ "c # cs"]) simp_all
qed (auto intro: exI [of _ "[]"])

lemma wasm_guest_host:
  assumes "wasm_guest W m wasm s = (r, h)"
  shows "ho_granted h = sb_allowed_capabilities s \<and> ho_denied h = filter (\<lambda>c. c \<notin> sb_allowed_capabilities s) (ho_calls h)
    \<and> (\<forall>rep. r = Inr rep \<longrightarrow> ho_denied h = [] \<and> xr_host_calls rep = ho_calls h)"
proof -
  obtain x h1 where r1: "run_host (we_start W s wasm) \<lparr>ho_granted = sb_allowed_capabilities s, ho_denied = [], ho_calls = []\<rparr> = (x, h1)"
    by force
  from run_host_calls [OF r1] have h1: "ho_granted h1 = sb_allowed_capabilities s"
    "ho_denied h1 = filter (\<lambda>c. c \<notin> sb_allowed_capabilities s) (ho_calls h1)" by auto
  have entry: "ho_granted h2 = sb_allowed_capabilities s \<and> ho_denied h2 = filter (\<lambda>c. c \<notin> sb_allowed_capabilities s) (ho_calls h2)"
    if "run_host e h1 = (y, h2)" for e y h2
    using run_host_calls [OF that] h1 by auto
  from assms h1 entry show ?thesis
    by (auto simp: wasm_guest_def r1 split: option.splits prod.splits list.splits)
qed

lemma wasm_checks_passed:
  assumes "wasm_checks X W m wasm s = Inr ()"
  shows "encode_hex (px_sha256 X wasm) = pm_wasm_hash m \<and> set (pm_capabilities m) \<subseteq> sb_allowed_capabilities s
    \<and> NetworkHttp \<notin> sb_allowed_capabilities s"
  using assms by (auto simp: wasm_checks_def split: if_splits)

lemma wasm_execute_passed:
  assumes "wasm_execute X W m wasm s = Inr rep"
  shows "encode_hex (px_sha256 X wasm) = pm_wasm_hash m \<and> set (pm_capabilities m) \<subseteq> sb_allowed_capabilities s
    \<and> NetworkHttp \<notin> sb_allowed_capabilities s \<and> set (xr_host_calls rep) \<subseteq> sb_allowed_capabilities s"
proof -
  obtain r h where g: "wasm_guest W m wasm s = (r, h)" by force
  from assms g have c: "wasm_checks X W m wasm s = Inr ()" and r: "r = Inr rep" by (auto simp: wasm_execute_def and_then_Inr_iff)
  from wasm_guest_host [OF g] r have "filter (\<lambda>c. c \<notin> sb_allowed_capabilities s) (xr_host_calls rep) = []"
    by auto
  then have "set (xr_host_calls rep) \<subseteq> sb_allowed_capabilities s" by (auto simp: filter_empty_conv)
  with wasm_checks_passed [OF c] show ?thesis by simp
qed

lemma dependency_scan_passed:
  assumes "dependency_scan X denied m = Inr ()"
  shows "dependency_lock_hash X (pm_dependencies m) = pm_dependency_lock_hash m
    \<and> (\<forall>d \<in> set (pm_dependencies m). (pd_name d, pd_version d) \<notin> denied)"
proof -
  have scan: "scan_denied denied ds = Inr () \<Longrightarrow> \<forall>d \<in> set ds. (pd_name d, pd_version d) \<notin> denied" for ds
    by (induction ds) (auto split: if_splits)
  from assms scan show ?thesis by (auto simp: dependency_scan_def split: if_splits)
qed

text \<open>
  Property C28. A plugin that the gate has run had a valid manifest whose canonical form a trusted
  signer signed, its code has the hash of the manifest, its locked dependencies are the declared ones and
  none is denied, every capability it requests was granted, and it called no host function beyond the
  grant; the audit sink got one event, which says that it was allowed. Whatever the engine and the
  module do, a plugin with network access is never run.
\<close>

theorem plugin_run_was_cleared:
  assumes "load_candidate G m sig wasm granted audit = (Inr rep, audit')"
  shows "manifest_validate m = Inr () \<and> (\<exists>s. sig = Some s \<and> es_public_key s \<in> pg_trusted_signers G
      \<and> verify_manifest (pg_crypto G) m s = Inr ())
    \<and> encode_hex (px_sha256 (pg_crypto G) wasm) = pm_wasm_hash m
    \<and> dependency_lock_hash (pg_crypto G) (pm_dependencies m) = pm_dependency_lock_hash m
    \<and> (\<forall>d \<in> set (pm_dependencies m). (pd_name d, pd_version d) \<notin> pg_denied_dependencies G)
    \<and> set (pm_capabilities m) \<subseteq> granted \<and> set (xr_host_calls rep) \<subseteq> granted \<and> NetworkHttp \<notin> granted
    \<and> (\<exists>e. audit' = audit @ [e] \<and> pa_allowed e)"
proof -
  from assms obtain s where v: "manifest_validate m = Inr ()" and s: "sig = Some s" "es_public_key s \<in> pg_trusted_signers G"
      "verify_manifest (pg_crypto G) m s = Inr ()"
    and d: "dependency_scan (pg_crypto G) (pg_denied_dependencies G) m = Inr ()"
    and w: "wasm_execute (pg_crypto G) (pg_engine G) m wasm (from_approval m granted) = Inr rep"
    by (auto simp: load_candidate_def load_and_run_inner_def load_checks_def result_iffs Let_def split: if_splits)
  have "sb_allowed_capabilities (from_approval m granted) = granted" by (simp add: from_approval_def)
  with wasm_execute_passed [OF w] dependency_scan_passed [OF d] v s assms show ?thesis
    by (auto simp: load_candidate_def Let_def)
qed

subsection \<open>Examples\<close>

definition wit_crypto :: plugin_crypto where
  "wit_crypto = \<lparr>px_json = (\<lambda>_. Inr [1]), px_digest_json = (\<lambda>m. Inr (map byte_of (pm_name m))), px_sha256 = (\<lambda>_. replicate 32 0),
     px_public = (\<lambda>_. replicate 32 2), px_sign = (\<lambda>_ _. replicate 64 3), px_is_key = (\<lambda>_. True), px_verify = (\<lambda>k _ s. hd k = 2 \<and> hd s = 3)\<rparr>"

definition wit_engine :: wasm_engine where
  "wit_engine = \<lparr>we_valid = (\<lambda>_. True), we_set_fuel = (\<lambda>_. True), we_imports = (\<lambda>_. [''read_markets'']),
     we_start = (\<lambda>_ _. WasmReturn 0), we_entry = (\<lambda>_ _ _. Some (WasmCall ReadMarkets WasmReturn))\<rparr>"

definition wit_hash :: string where
  "wit_hash = encode_hex (replicate 32 0)"

definition wit_manifest :: plugin_manifest where
  "wit_manifest = \<lparr>pm_name = ''p'', pm_version = ''1'', pm_description = [], pm_author = [], pm_kind = AlertPlugin, pm_capabilities = [ReadMarkets],
     pm_network_allowlist = [], pm_dependencies = [], pm_dependency_lock_hash = wit_hash, pm_wasm_hash = wit_hash, pm_entry_point = ''run'',
     pm_config_schema = []\<rparr>"

definition wit_signature :: ed_signature where
  "wit_signature = \<lparr>es_value = encode_hex (replicate 64 3), es_public_key = encode_hex (replicate 32 2), es_algorithm = ''ed25519''\<rparr>"

definition wit_gate :: plugin_gate where
  "wit_gate = \<lparr>pg_trusted_signers = {encode_hex (replicate 32 2)}, pg_denied_dependencies = {}, pg_crypto = wit_crypto, pg_engine = wit_engine\<rparr>"

lemma wit_hash_eq: "wit_hash = replicate 64 (CHR ''0'')"
proof -
  have "encode_hex (replicate n 0) = replicate (2 * n) (CHR ''0'')" for n
    by (induction n) (simp_all add: encode_hex_simps hex_digit_def)
  then show ?thesis by (simp only: wit_hash_def) simp
qed

lemma wit_valid: "manifest_validate wit_manifest = Inr ()"
proof -
  have "validate_sha256 wit_hash" by (simp add: wit_hash_eq validate_sha256_def list_all_iff is_ascii_hexdigit_def)
  then show ?thesis by (simp add: manifest_validate_def wit_manifest_def is_ascii_alphanumeric_def)
qed

lemma wit_verified: "verify_manifest wit_crypto wit_manifest wit_signature = Inr ()"
  by (simp add: verify_manifest_def wit_signature_def decode_array_def hex_decode_encode) (simp add: wit_crypto_def)

lemma wit_executed: "wasm_execute wit_crypto wit_engine wit_manifest wasm (from_approval wit_manifest {ReadMarkets})
    = Inr \<lparr>xr_return_code = 1, xr_host_calls = [ReadMarkets]\<rparr>"
proof -
  have h: "encode_hex (px_sha256 wit_crypto wasm) = pm_wasm_hash wit_manifest"
    by (simp add: wit_crypto_def wit_manifest_def wit_hash_def)
  show ?thesis
    unfolding wasm_execute_def wasm_checks_def wasm_guest_def h
    by (simp add: from_approval_def wit_engine_def wit_manifest_def invoke_def host_functions_def Let_def)
qed

lemma wit_scanned: "dependency_scan wit_crypto {} wit_manifest = Inr ()"
  by (simp add: dependency_scan_def dependency_lock_hash_def wit_manifest_def) (simp add: wit_crypto_def wit_hash_def)

lemma wit_loaded_plugin: "\<exists>e. load_candidate wit_gate wit_manifest (Some wit_signature) wasm {ReadMarkets} audit
    = (Inr \<lparr>xr_return_code = 1, xr_host_calls = [ReadMarkets]\<rparr>, audit @ [e])"
proof -
  have g: "es_public_key wit_signature \<in> pg_trusted_signers wit_gate" "pg_crypto wit_gate = wit_crypto" "pg_engine wit_gate = wit_engine"
    "pg_denied_dependencies wit_gate = {}" by (simp_all add: wit_gate_def wit_signature_def)
  show ?thesis
    by (simp add: load_candidate_def load_and_run_inner_def load_checks_def g wit_valid wit_verified wit_scanned wit_executed Let_def)
qed

theorem plugin_run_was_cleared_witness:
  "\<exists>e. load_candidate wit_gate wit_manifest (Some wit_signature) [7] {ReadMarkets} [] = (Inr \<lparr>xr_return_code = 1, xr_host_calls = [ReadMarkets]\<rparr>, [e])
     \<and> pa_allowed e"
proof -
  obtain e where e: "load_candidate wit_gate wit_manifest (Some wit_signature) [7] {ReadMarkets} []
      = (Inr \<lparr>xr_return_code = 1, xr_host_calls = [ReadMarkets]\<rparr>, [] @ [e])" using wit_loaded_plugin by blast
  from plugin_run_was_cleared [OF e] e show ?thesis by auto
qed

end
