(* ===== verification/Plugin_Registry.thy ===== *)
theory Plugin_Registry
  imports Plugin_Gate
begin

text \<open>
  The registries of plugins (\<^verbatim>\<open>crates/aether-plugin\<close>): the one in memory (\<^verbatim>\<open>registry.rs\<close>), the durable one on
  the table of migrations 0016, 0042 and 0043 (\<^verbatim>\<open>persistence.rs\<close>), and the compilation of generated
  plugins (\<^verbatim>\<open>generation.rs\<close>). The lemmas show that a version runs only within an approval by a human
  who has stepped up and never again once it has returned a report, that one whose run failed can run
  again, and that the durable registry cannot revoke a plugin that nobody approved.
\<close>

subsection \<open>The registry in memory (registry.rs)\<close>

datatype plugin_status = Installed | PluginApproved | PluginLoaded | PluginRevoked

record plugin_entry =
  pe_manifest :: plugin_manifest
  pe_signature :: "ed_signature option"
  pe_status :: plugin_status
  pe_granted_capabilities :: "capability set"
  pe_approved_by :: "string option"
  pe_approval_step_up_id :: "string option"

type_synonym plugin_key = "string \<times> string"
type_synonym plugin_registry = "(plugin_key, plugin_entry) hash_map"

datatype registry_error =
    RgNotFound string | RgAlreadyInstalled | RgInvalidTransition | RgCapabilitiesNotApproved | RgMissingSignature
  | RgManifest manifest_error | RgGate gate_error | RgApproval approval_error

definition registry_install :: "plugin_manifest \<Rightarrow> plugin_registry \<Rightarrow> registry_error + plugin_registry" where
  "registry_install m s =
     and_then (map_err RgManifest (manifest_validate m)) (\<lambda>_.
       if hm_get s (pm_name m, pm_version m) \<noteq> None then Inl RgAlreadyInstalled
       else Inr (hm_put (pm_name m, pm_version m) \<lparr>pe_manifest = m, pe_signature = None, pe_status = Installed,
              pe_granted_capabilities = {}, pe_approved_by = None, pe_approval_step_up_id = None\<rparr> s))"

definition registry_entry :: "plugin_key \<Rightarrow> plugin_registry \<Rightarrow> registry_error + plugin_entry" where
  "registry_entry k s = ok_or (RgNotFound (fst k @ ''@'' @ snd k)) (hm_get s k)"


definition registry_load_and_run ::
  "plugin_gate \<Rightarrow> plugin_key \<Rightarrow> u8 list \<Rightarrow> plugin_registry \<times> plugin_audit_event list
     \<Rightarrow> (registry_error + execution_report) \<times> plugin_registry \<times> plugin_audit_event list" where
  "registry_load_and_run G k wasm = (\<lambda>(s, audit).
     (case registry_entry k s of
        Inl e \<Rightarrow> (Inl e, s, audit)
      | Inr e \<Rightarrow>
          if pe_status e \<noteq> PluginApproved then (Inl RgInvalidTransition, s, audit)
          else (case pe_signature e of
                  None \<Rightarrow> (Inl RgMissingSignature, s, audit)
                | Some sig \<Rightarrow>
                    (case gate_load_and_run G (pe_manifest e) sig wasm (pe_granted_capabilities e) audit of
                       (Inl err, audit') \<Rightarrow> (Inl (RgGate err), s, audit')
                     | (Inr rep, audit') \<Rightarrow> (Inr rep, hm_put k (e\<lparr>pe_status := PluginLoaded\<rparr>) s, audit')))))"

definition registry_revoke :: "plugin_key \<Rightarrow> plugin_registry \<Rightarrow> registry_error + plugin_registry" where
  "registry_revoke k s = map_ok (\<lambda>e. hm_put k (e\<lparr>pe_status := PluginRevoked\<rparr>) s) (registry_entry k s)"

definition list_by_kind :: "plugin_kind \<Rightarrow> plugin_registry \<Rightarrow> plugin_entry list" where
  "list_by_kind kind s = filter (\<lambda>e. pm_kind (pe_manifest e) = kind) (map snd s)"

definition list_loaded :: "plugin_registry \<Rightarrow> plugin_entry list" where
  "list_loaded s = filter (\<lambda>e. pe_status e = PluginLoaded) (map snd s)"

subsection \<open>Generated plugins (generation.rs)\<close>

record generated_draft =
  gd_name :: string
  gd_version :: string
  gd_description :: string
  gd_author :: string
  gd_kind :: plugin_kind
  gd_capabilities :: "capability list"
  gd_network_allowlist :: "string list"
  gd_dependencies :: "plugin_dependency list"
  gd_entry_point :: string
  gd_config_schema :: "(string \<times> string) list"
  gd_wat_source :: string

record compiled_plugin =
  cp_manifest :: plugin_manifest
  cp_wasm :: "u8 list"

datatype compile_error = SourceTooLarge | InvalidWat | CompileManifest manifest_error

definition max_wat_source_bytes :: nat where
  "max_wat_source_bytes = 256 * 1024"

text \<open>\<open>wat\<close> is the compiler of WebAssembly text.\<close>

definition draft_compile ::
  "plugin_crypto \<Rightarrow> (string \<Rightarrow> u8 list option) \<Rightarrow> generated_draft \<Rightarrow> compile_error + compiled_plugin" where
  "draft_compile X wat d =
     (if length (gd_wat_source d) > max_wat_source_bytes then Inl SourceTooLarge
      else and_then (ok_or InvalidWat (wat (gd_wat_source d))) (\<lambda>wasm.
        let m = \<lparr>pm_name = gd_name d, pm_version = gd_version d, pm_description = gd_description d, pm_author = gd_author d,
                 pm_kind = gd_kind d, pm_capabilities = gd_capabilities d, pm_network_allowlist = gd_network_allowlist d,
                 pm_dependencies = gd_dependencies d, pm_dependency_lock_hash = dependency_lock_hash X (gd_dependencies d),
                 pm_wasm_hash = encode_hex (px_sha256 X wasm), pm_entry_point = gd_entry_point d, pm_config_schema = gd_config_schema d\<rparr>
        in and_then (map_err CompileManifest (manifest_validate m)) (\<lambda>_. Inr \<lparr>cp_manifest = m, cp_wasm = wasm\<rparr>)))"

subsection \<open>The durable registry (persistence.rs, migrations 0016, 0042, 0043)\<close>

record plugin_row =
  pr_manifest :: plugin_manifest
  pr_status :: plugin_status
  pr_wasm_artifact :: "u8 list option"
  pr_generated :: bool
  pr_signature :: "ed_signature option"
  pr_granted_capabilities :: "capability set"
  pr_approved_by :: "string option"
  pr_approval_step_up_id :: "string option"

type_synonym plugin_table = "(plugin_key, plugin_row) hash_map"

datatype load_error = LoNotApproved | LoArtifactMissing | LoStateChanged | LoDatabase string | LoGate gate_error

text \<open>The table's check on approval evidence, which every insertion and update is held to.\<close>

definition evidence_check :: "plugin_row \<Rightarrow> bool" where
  "evidence_check r \<longleftrightarrow> pr_status r = Installed
     \<or> pr_approved_by r \<noteq> None \<and> pr_approval_step_up_id r \<noteq> None \<and> pr_signature r \<noteq> None"

definition write_row :: "plugin_key \<Rightarrow> plugin_row \<Rightarrow> plugin_table \<Rightarrow> string + plugin_table" where
  "write_row k r t =
     (if evidence_check r then Inr (hm_put k r t)
      else Inl ''plugin_manifests_approval_evidence_check'')"

definition insert_plugin :: "plugin_manifest \<Rightarrow> u8 list option \<Rightarrow> plugin_table \<Rightarrow> string + plugin_table" where
  "insert_plugin m artifact t =
     (if hm_get t (pm_name m, pm_version m) \<noteq> None then Inl ''duplicate key''
      else write_row (pm_name m, pm_version m)
             \<lparr>pr_manifest = m, pr_status = Installed, pr_wasm_artifact = artifact, pr_generated = (artifact \<noteq> None), pr_signature = None,
              pr_granted_capabilities = {}, pr_approved_by = None, pr_approval_step_up_id = None\<rparr> t)"

definition pg_plugin_install :: "plugin_manifest \<Rightarrow> plugin_table \<Rightarrow> string + plugin_table" where
  "pg_plugin_install m t = insert_plugin m None t"

definition pg_install_generated :: "compiled_plugin \<Rightarrow> plugin_table \<Rightarrow> string + plugin_table" where
  "pg_install_generated p t = insert_plugin (cp_manifest p) (Some (cp_wasm p)) t"

definition pg_plugin_approve ::
  "plugin_crypto \<Rightarrow> plugin_key \<Rightarrow> plugin_approval \<Rightarrow> plugin_table \<Rightarrow> string + bool \<times> plugin_table" where
  "pg_plugin_approve X k v t =
     (case hm_get t k of
        None \<Rightarrow> Inr (False, t)
      | Some r \<Rightarrow>
          if pr_status r \<noteq> Installed then Inr (False, t)
          else if \<not> matches_manifest X v (pr_manifest r) \<or> \<not> set (pm_capabilities (pr_manifest r)) \<subseteq> pv_granted_capabilities v
          then Inr (False, t)
          else map_ok (Pair True) (write_row k (r\<lparr>pr_status := PluginApproved, pr_approved_by := Some (pv_actor_id v),
                 pr_approval_step_up_id := Some (pv_step_up_id v), pr_signature := Some (pv_signature v),
                 pr_granted_capabilities := pv_granted_capabilities v\<rparr>) t))"

text \<open>The row is locked from the read to the commit, so its state cannot change while the plugin runs.\<close>

definition pg_plugin_load ::
  "plugin_gate \<Rightarrow> plugin_key \<Rightarrow> u8 list \<Rightarrow> plugin_table \<times> plugin_audit_event list
     \<Rightarrow> (load_error + execution_report) \<times> plugin_table \<times> plugin_audit_event list" where
  "pg_plugin_load G k wasm = (\<lambda>(t, audit).
     (case hm_get t k of
        None \<Rightarrow> (Inl LoNotApproved, t, audit)
      | Some r \<Rightarrow>
          (if pr_status r \<noteq> PluginApproved then (Inl LoNotApproved, t, audit)
           else (case pr_signature r of
              None \<Rightarrow> (Inl (LoDatabase ''unexpected null''), t, audit)
            | Some sig \<Rightarrow>
                (case gate_load_and_run G (pr_manifest r) sig wasm (pr_granted_capabilities r) audit of
                   (Inl e, audit') \<Rightarrow> (Inl (LoGate e), t, audit')
                 | (Inr rep, audit') \<Rightarrow>
                     (case write_row k (r\<lparr>pr_status := PluginLoaded\<rparr>) t of
                        Inl e \<Rightarrow> (Inl (LoDatabase e), t, audit')
                      | Inr t' \<Rightarrow> (Inr rep, t', audit')))))))"

definition pg_load_generated ::
  "plugin_gate \<Rightarrow> plugin_key \<Rightarrow> plugin_table \<times> plugin_audit_event list
     \<Rightarrow> (load_error + execution_report) \<times> plugin_table \<times> plugin_audit_event list" where
  "pg_load_generated G k = (\<lambda>(t, audit).
     (case Option.bind (hm_get t k) (\<lambda>r. if pr_generated r then pr_wasm_artifact r else None) of
        None \<Rightarrow> (Inl LoArtifactMissing, t, audit)
      | Some wasm \<Rightarrow> pg_plugin_load G k wasm (t, audit)))"

definition pg_plugin_revoke :: "plugin_key \<Rightarrow> plugin_table \<Rightarrow> string + bool \<times> plugin_table" where
  "pg_plugin_revoke k t =
     (case hm_get t k of
        None \<Rightarrow> Inr (False, t)
      | Some r \<Rightarrow>
          if pr_status r = PluginRevoked then Inr (False, t)
          else map_ok (Pair True) (write_row k (r\<lparr>pr_status := PluginRevoked\<rparr>) t))"

definition pg_plugin_status :: "plugin_key \<Rightarrow> plugin_table \<Rightarrow> plugin_status option" where
  "pg_plugin_status k t = map_option pr_status (hm_get t k)"

subsection \<open>Runs of the registry\<close>


text \<open>What a run has seen: the approvals that succeeded, and every execution of a plugin's code, those that
  trap, run out of fuel or ask for a denied capability included. \<open>guest_of\<close> tells whether a load gets as far as
  the code, and what the host has then seen of it.\<close>

definition guest_of :: "plugin_gate \<Rightarrow> plugin_key \<Rightarrow> u8 list \<Rightarrow> plugin_registry \<Rightarrow> host_state option" where
  "guest_of G k wasm s =
     (case hm_get s k of
        None \<Rightarrow> None
      | Some e \<Rightarrow>
          let box = from_approval (pe_manifest e) (pe_granted_capabilities e) in
          if pe_status e = PluginApproved \<and> pe_signature e \<noteq> None
             \<and> load_checks G (pe_manifest e) (pe_signature e) = Inr ()
             \<and> wasm_checks (pg_crypto G) (pg_engine G) (pe_manifest e) wasm box = Inr ()
          then Some (snd (wasm_guest (pg_engine G) (pe_manifest e) wasm box)) else None)"











lemma registry_loadE:
  assumes "registry_load_and_run G k wasm (s, audit) = (r, s', audit')"
  obtains (refused) "s' = s" "isl r" "guest_of G k wasm s = None"
    | (ran) e h where "hm_get s k = Some e" "pe_status e = PluginApproved" "guest_of G k wasm s = Some h"
      "encode_hex (px_sha256 (pg_crypto G) wasm) = pm_wasm_hash (pe_manifest e)" "ho_granted h = pe_granted_capabilities e"
      "ho_denied h = filter (\<lambda>c. c \<notin> ho_granted h) (ho_calls h)"
      "\<And>rep. r = Inr rep \<Longrightarrow> ho_denied h = [] \<and> xr_host_calls rep = ho_calls h"
      "s' = (if isl r then s else hm_put k (e\<lparr>pe_status := PluginLoaded\<rparr>) s)"
proof (cases "hm_get s k")
  case None
  with assms refused show thesis by (auto simp: registry_load_and_run_def registry_entry_def guest_of_def ok_or_def)
next
  case (Some e)
  let ?box = "from_approval (pe_manifest e) (pe_granted_capabilities e)"
  let ?load = "load_checks G (pe_manifest e) (pe_signature e)"
  let ?wasm = "wasm_checks (pg_crypto G) (pg_engine G) (pe_manifest e) wasm ?box"
  show thesis
  proof (cases "pe_status e = PluginApproved \<and> pe_signature e \<noteq> None \<and> ?load = Inr () \<and> ?wasm = Inr ()")
    case True
    then obtain sig where sig: "pe_signature e = Some sig" by blast
    obtain g h where g: "wasm_guest (pg_engine G) (pe_manifest e) wasm ?box = (g, h)" by force
    have box: "sb_allowed_capabilities ?box = pe_granted_capabilities e" by (simp add: from_approval_def)
    have inner: "load_and_run_inner G (pe_manifest e) (Some sig) wasm (pe_granted_capabilities e) = map_err GateRuntime g"
      using True sig g by (simp add: load_and_run_inner_def wasm_execute_def)
    from assms Some True sig have r: "r = map_err RgGate (map_err GateRuntime g)"
      "s' = (if isl r then s else hm_put k (e\<lparr>pe_status := PluginLoaded\<rparr>) s)"
      by (cases g; auto simp: registry_load_and_run_def registry_entry_def ok_or_def gate_load_and_run_def load_candidate_def inner Let_def)+
    have "guest_of G k wasm s = Some h" using Some True g by (simp add: guest_of_def Let_def)
    moreover have "ho_denied h = [] \<and> xr_host_calls rep = ho_calls h" if "r = Inr rep" for rep
    proof -
      from that r(1) have "g = Inr rep" by (cases g) simp_all
      with wasm_guest_host [OF g] show ?thesis by blast
    qed
    ultimately show thesis
      using ran [OF Some] True wasm_checks_passed [of "pg_crypto G" "pg_engine G" "pe_manifest e" wasm ?box] wasm_guest_host [OF g] box r(2)
      by auto
  next
    case False
    have "guest_of G k wasm s = None" using Some False by (auto simp: guest_of_def Let_def)
    moreover have "s' = s \<and> isl r"
    proof (cases "pe_status e = PluginApproved \<and> pe_signature e \<noteq> None")
      case True
      then obtain sig where sig: "pe_signature e = Some sig" by blast
      have "isl (load_and_run_inner G (pe_manifest e) (Some sig) wasm (pe_granted_capabilities e))"
        using False True sig by (cases ?load; cases ?wasm) (auto simp: load_and_run_inner_def wasm_execute_def)
      then show ?thesis using assms Some True sig
        by (auto simp: registry_load_and_run_def registry_entry_def ok_or_def gate_load_and_run_def load_candidate_def isl_def Let_def)
    next
      case False
      with assms Some show ?thesis
        by (auto simp: registry_load_and_run_def registry_entry_def ok_or_def split: if_splits option.splits)
    qed
    ultimately show thesis using refused by blast
  qed
qed










text \<open>A load that fails leaves the version approved, so that the same bytes can execute again.\<close>

lemma failed_execution_repeats:
  assumes "registry_load_and_run G k wasm (s, audit) = (Inl e, s', audit')"
  shows "s' = s \<and> guest_of G k wasm s' = guest_of G k wasm s"
  using assms by (cases rule: registry_loadE) auto

subsection \<open>What the durable registry cannot do\<close>

text \<open>
  A plugin that was installed and never approved cannot be revoked in the durable
  registry: the table's check on approval evidence refuses the row, so the revocation fails and the plugin
  can still be approved. In memory the same revocation succeeds.
\<close>

theorem unapproved_plugin_cannot_be_revoked:
  assumes "pg_plugin_install m t = Inr t'" "registry_install m s = Inr s'"
  shows "pg_plugin_revoke (pm_name m, pm_version m) t' = Inl ''plugin_manifests_approval_evidence_check''
    \<and> pg_plugin_status (pm_name m, pm_version m) t' = Some Installed
    \<and> (\<exists>s''. registry_revoke (pm_name m, pm_version m) s' = Inr s'' \<and> map_option pe_status (hm_get s'' (pm_name m, pm_version m)) = Some PluginRevoked)"
proof -
  from assms(1) have t': "t' = hm_put (pm_name m, pm_version m)
      \<lparr>pr_manifest = m, pr_status = Installed, pr_wasm_artifact = None, pr_generated = False, pr_signature = None,
        pr_granted_capabilities = {}, pr_approved_by = None, pr_approval_step_up_id = None\<rparr> t"
    by (auto simp: pg_plugin_install_def insert_plugin_def write_row_def split: if_splits)
  from assms(2) obtain e where "hm_get s' (pm_name m, pm_version m) = Some e"
    by (auto simp: registry_install_def result_iffs hm_get_put split: if_splits)
  then show ?thesis
    by (simp add: t' pg_plugin_revoke_def pg_plugin_status_def hm_get_put write_row_def evidence_check_def registry_revoke_def registry_entry_def map_ok_def)
qed

text \<open>The compilation of a draft gives a plugin whose hashes the gate accepts.\<close>

lemma compiled_plugin_hashes:
  assumes "draft_compile X wat d = Inr p"
  shows "manifest_validate (cp_manifest p) = Inr () \<and> encode_hex (px_sha256 X (cp_wasm p)) = pm_wasm_hash (cp_manifest p)
    \<and> dependency_lock_hash X (pm_dependencies (cp_manifest p)) = pm_dependency_lock_hash (cp_manifest p)"
  using assms by (auto simp: draft_compile_def result_iffs Let_def split: if_splits)

subsection \<open>Examples\<close>






theorem unapproved_plugin_cannot_be_revoked_witness:
  "\<exists>t s. pg_plugin_install wit_manifest [] = Inr t \<and> registry_install wit_manifest [] = Inr s
     \<and> pg_plugin_revoke (''p'', ''1'') t = Inl ''plugin_manifests_approval_evidence_check''"
proof -
  obtain t where t: "pg_plugin_install wit_manifest [] = Inr t"
    by (simp add: pg_plugin_install_def insert_plugin_def write_row_def evidence_check_def)
  obtain s where s: "registry_install wit_manifest [] = Inr s" by (simp add: registry_install_def wit_valid)
  have "pm_name wit_manifest = ''p''" "pm_version wit_manifest = ''1''" by (simp_all add: wit_manifest_def)
  with unapproved_plugin_cannot_be_revoked [OF t s] t s show ?thesis by simp
qed

end
