(* ===== verification/Gateway_Frames.thy ===== *)
theory Gateway_Frames
  imports Authz Core_Orders
begin

text \<open>
  The frames of a gateway connection (\<^verbatim>\<open>crates/aether-gateway/src/frames.rs\<close>): the validation of a
  client's order intent, the authorization of each frame against the session, and the confirmation
  references of a connection. The lemmas show that a confirmation is answered once, to the actor it
  was issued to and within five minutes, that no live intent is ever accepted, and that an error
  never echoes what the client sent. Decimals, identifiers, timestamps and the JSON decoder are the
  libraries' and enter as the record \<open>gateway_lib\<close>; clock readings and generated identifiers enter
  as \<open>frame_env\<close>.
\<close>

subsection \<open>Sessions (auth.rs)\<close>

record origin_info =
  gi_kind :: string
  gi_actor_id :: string

record session_info =
  se_session_id :: string
  se_actor_id :: string
  se_tier :: nat
  se_origin :: origin_info
  se_device_label :: "string option"
  se_grant_id :: string
  se_scopes :: "string set"
  se_scope_restricted :: bool

subsection \<open>The client's order intent\<close>

record client_order_intent_body =
  cb_id :: string
  cb_market :: market_key
  cb_side :: side
  cb_order_type :: order_type
  cb_limit_price :: "string option"
  cb_size :: string
  cb_size_unit :: size_unit
  cb_tif :: time_in_force
  cb_paper :: bool
  cb_quote_snapshot :: quote
  cb_caps_version :: string
  cb_created_ts :: string

record validated_intent_fields =
  vf_id :: ulid
  vf_market :: market_key
  vf_side :: side
  vf_order_type :: order_type
  vf_limit_price :: "decimal option"
  vf_size :: decimal
  vf_size_unit :: size_unit
  vf_tif :: time_in_force
  vf_paper :: bool
  vf_quote_snapshot :: quote
  vf_caps_version :: ulid
  vf_created_ts :: utc_time

record gateway_lib =
  gl_ulid :: "string \<Rightarrow> ulid option"
  gl_show_ulid :: "ulid \<Rightarrow> string"
  gl_decimal :: "string \<Rightarrow> decimal option"
  gl_time :: "string \<Rightarrow> utc_time option"
  gl_body :: "json \<Rightarrow> client_order_intent_body option"

definition parse_limit_price :: "gateway_lib \<Rightarrow> string option \<Rightarrow> string + decimal option" where
  "parse_limit_price L p =
     (case p of
        None \<Rightarrow> Inr None
      | Some s \<Rightarrow>
          if s = [] then Inr None
          else map_ok Some (ok_or ''limit_price must be a decimal string'' (gl_decimal L s)))"

definition check_order_type :: "order_type \<Rightarrow> decimal option \<Rightarrow> string + unit" where
  "check_order_type t p =
     (case t of
        Limit \<Rightarrow> if p = None then Inl ''limit orders require limit_price'' else Inr ()
      | Market \<Rightarrow> if p \<noteq> None then Inl ''market orders must not specify limit_price'' else Inr ())"

definition validate_body ::
  "gateway_lib \<Rightarrow> client_order_intent_body \<Rightarrow> string + validated_intent_fields" where
  "validate_body L b =
     and_then (ok_or ''intent id must be a valid ULID'' (gl_ulid L (cb_id b))) (\<lambda>i.
     and_then (ok_or ''size must be a decimal string'' (gl_decimal L (cb_size b))) (\<lambda>size.
     if size \<le> 0 then Inl ''size must be positive''
     else
     and_then (parse_limit_price L (cb_limit_price b)) (\<lambda>price.
     and_then (check_order_type (cb_order_type b) price) (\<lambda>_.
     if q_market (cb_quote_snapshot b) \<noteq> cb_market b
     then Inl ''quote_snapshot market does not match intent market''
     else
     and_then (ok_or ''caps_version must be a valid ULID'' (gl_ulid L (cb_caps_version b))) (\<lambda>caps.
     and_then (ok_or ''created_ts must be an RFC3339 UTC timestamp'' (gl_time L (cb_created_ts b))) (\<lambda>ts.
       Inr \<lparr>vf_id = i, vf_market = cb_market b, vf_side = cb_side b,
         vf_order_type = cb_order_type b, vf_limit_price = price, vf_size = size,
         vf_size_unit = cb_size_unit b, vf_tif = cb_tif b, vf_paper = cb_paper b,
         vf_quote_snapshot = cb_quote_snapshot b, vf_caps_version = caps, vf_created_ts = ts\<rparr>))))))"

subsection \<open>Frames\<close>

datatype client_frame =
    CfSubscribe "string option" "string option" "string list"
  | CfUnsubscribe "string option" "string option"
  | CfCommand "string option" "string option" string "string option"
  | CfOrderIntent "string option" "string option" json
  | CfConfirm "string option" "string option" string "string option"
  | CfPing "string option" "string option"

record confirm_request =
  cr_ref_id :: string
  cr_action_summary :: message
  cr_tier_reason :: string
  cr_actor_id :: string
  cr_origin_kind :: string

datatype server_frame =
    SfFeedItem "string option" "string option" json
  | SfQuote "string option" "string option" json
  | SfOrderUpdate "string option" "string option" json
  | SfAlert "string option" "string option" json
  | SfExplain "string option" "string option" json
  | SfCommandResult "string option" "string option" json
  | SfConfirmRequired "string option" "string option" confirm_request
  | SfDegradation "string option" string string
  | SfError "string option" "string option" error_envelope
  | SfPong "string option" "string option"

record pending_confirmation =
  pc_actor_id :: string
  pc_action :: action
  pc_expires_at :: nat

type_synonym connection_auth_state = "(string, pending_confirmation) hash_map"

definition confirmation_validity_secs :: nat where
  "confirmation_validity_secs = 5 * 60"

text \<open>What a frame reads from outside: the clock, once for the authorization and once for the
  confirmation state, a fresh trace id, a fresh reference and the error's identifier.\<close>

record frame_env =
  fe_authorize_now :: nat
  fe_state_now :: nat
  fe_trace_uuid :: string
  fe_reference :: string
  fe_error_id :: ulid

definition make_trace_id :: "frame_env \<Rightarrow> string option \<Rightarrow> string option \<Rightarrow> string option" where
  "make_trace_id E client_id client_trace_id =
     Some (case client_trace_id of
             Some t \<Rightarrow> t
           | None \<Rightarrow> (case client_id of Some i \<Rightarrow> i | None \<Rightarrow> fe_trace_uuid E))"

definition session_origin_kind :: "string \<Rightarrow> string + origin_kind" where
  "session_origin_kind kind =
     (if kind = ''human'' then Inr OriginHuman
      else if kind = ''agent'' then Inr OriginAgent
      else if kind = ''automation'' then Inr OriginAutomation
      else Inl (''unknown session origin kind: '' @ kind))"

definition parse_session_actor :: "gateway_lib \<Rightarrow> session_info \<Rightarrow> string + ulid" where
  "parse_session_actor L s =
     (case gl_ulid L (gi_actor_id (se_origin s)) of
        Some u \<Rightarrow> Inr u
      | None \<Rightarrow> ok_or ''authenticated session has no valid actor ULID'' (gl_ulid L (se_actor_id s)))"

subsection \<open>Authorization of a frame\<close>

text \<open>The sink writes a log line; its error type is empty, so its result is always \<^verbatim>\<open>Ok\<close>.\<close>

definition gateway_emit :: "audit_record \<Rightarrow> audit_record list \<Rightarrow> (unit + unit) \<times> audit_record list" where
  "gateway_emit r lg = (Inr (), lg @ [r])"

definition session_actor_kind :: "string \<Rightarrow> actor_kind option" where
  "session_actor_kind kind =
     (if kind = ''human'' then Some Human
      else if kind = ''agent'' then Some Agent
      else if kind = ''automation'' then Some Automation
      else None)"

definition session_grant :: "session_info \<Rightarrow> actor_kind \<Rightarrow> tier \<Rightarrow> grant" where
  "session_grant s kind t =
     \<lparr>gr_id = se_grant_id s, gr_actor_id = se_actor_id s, gr_actor_kind = kind, gr_tier = t,
       gr_scopes = se_scopes s, gr_scope_restricted = se_scope_restricted s,
       gr_expires_at = None, gr_revoked_at = None\<rparr>"

definition session_context ::
  "nat \<Rightarrow> session_info \<Rightarrow> actor_kind \<Rightarrow> tier \<Rightarrow> bool \<Rightarrow> bool \<Rightarrow> evaluation_context" where
  "session_context now s kind t confirmed step_up =
     (evaluation_context_new now (Some (session_grant s kind t)))
       \<lparr>ev_session_tier := (if kind = Human then Some t else None), ev_confirmed := confirmed,
         ev_step_up_satisfied := step_up\<rparr>"

definition authorize_session ::
  "frame_env \<Rightarrow> session_info \<Rightarrow> action \<Rightarrow> bool \<Rightarrow> bool \<Rightarrow> audit_record list
     \<Rightarrow> decision \<times> audit_record list" where
  "authorize_session E s a confirmed step_up lg =
     (case session_actor_kind (gi_kind (se_origin s)) of
        None \<Rightarrow> (decision_deny ''actor.unknown_kind'' None, lg)
      | Some kind \<Rightarrow>
          (case tier_try_from (se_tier s) of
             Inl _ \<Rightarrow> (decision_deny ''tier.invalid'' None, lg)
           | Inr t \<Rightarrow>
               (case enforce_at gateway_emit Gateway \<lparr>ac_id = se_actor_id s, ac_kind = kind\<rparr> a
                       (session_context (fe_authorize_now E) s kind t confirmed step_up) lg of
                  (r, lg') \<Rightarrow> (ad_decision (projr r), lg'))))"

definition error_frame ::
  "frame_env \<Rightarrow> string option \<Rightarrow> string option \<Rightarrow> error_code \<times> string \<Rightarrow> server_frame" where
  "error_frame E i t e = SfError i t (error_envelope_new (fst e) (snd e) (fe_error_id E))"

definition permission_error ::
  "frame_env \<Rightarrow> string option \<Rightarrow> string option \<Rightarrow> decision \<Rightarrow> server_frame" where
  "permission_error E i t d =
     (let (code, msg) =
        (if de_verdict d = VStepUpRequired
         then (FailedPrecondition, ''fresh step-up authentication is required'')
         else (PermissionDenied, ''permission denied''))
      in SfError i t (error_envelope_with_details
           (error_envelope_new code msg (fe_error_id E)) (''rule='' @ de_rule d)))"


subsection \<open>Dispatch\<close>

type_synonym connection_state = "connection_auth_state \<times> audit_record list"

definition status_body :: "(string \<times> json) list \<Rightarrow> session_info \<Rightarrow> json" where
  "status_body fs s =
     JObject (fs @ [(''actor_id'', JString (se_actor_id s)),
       (''origin_kind'', JString (gi_kind (se_origin s)))])"

text \<open>The first three frames: authorize, and answer with a body or with the permission error.\<close>

definition answer_if_allowed ::
  "frame_env \<Rightarrow> session_info \<Rightarrow> action \<Rightarrow> string option \<Rightarrow> string option \<Rightarrow> json
     \<Rightarrow> connection_state \<Rightarrow> server_frame \<times> connection_state" where
  "answer_if_allowed E s a i t body = (\<lambda>(pending, lg).
     (case authorize_session E s a False False lg of
        (d, lg') \<Rightarrow>
          (if de_verdict d \<noteq> VAllow then permission_error E i t d
           else SfCommandResult i t body, pending, lg')))"

definition command_body :: "session_info \<Rightarrow> string \<Rightarrow> string option \<Rightarrow> json" where
  "command_body s txt room =
     (case status_body [(''echo'', JString txt), (''status'', JString ''authorized_command_echo'')] s of
        JObject fs \<Rightarrow>
          JObject (case room of None \<Rightarrow> fs | Some rc \<Rightarrow> fs @ [(''room_context'', JString rc)])
      | j \<Rightarrow> j)"

text \<open>Phases 1 to 5 of an order intent: decode, validate, and stamp the session's origin.\<close>

primrec origin_error_text :: "origin_error \<Rightarrow> string" where
  "origin_error_text (InvalidTier n) = ''tier must be 1..=5, got '' @ show_nat n"

definition stamp_origin ::
  "gateway_lib \<Rightarrow> session_info \<Rightarrow> error_code \<times> string + origin" where
  "stamp_origin L s =
     and_then (map_err (Pair PermissionDenied) (session_origin_kind (gi_kind (se_origin s)))) (\<lambda>kind.
     and_then (map_err (Pair Unauthenticated) (parse_session_actor L s)) (\<lambda>actor.
       map_err (\<lambda>e. (InvalidArgument, ''invalid session origin: '' @ origin_error_text e))
         (origin_new kind (se_tier s) actor)))"

definition read_intent ::
  "gateway_lib \<Rightarrow> session_info \<Rightarrow> json
     \<Rightarrow> error_code \<times> string + validated_intent_fields \<times> origin" where
  "read_intent L s body =
     and_then (ok_or (InvalidArgument, ''order intent contains invalid or missing fields'') (gl_body L body)) (\<lambda>b.
     and_then (map_err (Pair InvalidArgument) (validate_body L b)) (\<lambda>v.
     map_ok (Pair v) (stamp_origin L s)))"

definition intent_of :: "validated_intent_fields \<Rightarrow> origin \<Rightarrow> order_intent" where
  "intent_of v orig =
     \<lparr>oi_id = vf_id v, oi_market = vf_market v, oi_side = vf_side v, oi_order_type = vf_order_type v,
       oi_limit_price = vf_limit_price v, oi_size = vf_size v, oi_size_unit = vf_size_unit v,
       oi_tif = vf_tif v, oi_paper = vf_paper v, oi_origin = orig,
       oi_quote_snapshot = vf_quote_snapshot v, oi_caps_version = vf_caps_version v,
       oi_created_ts = vf_created_ts v\<rparr>"

definition action_summary :: "gateway_lib \<Rightarrow> order_intent \<Rightarrow> message" where
  "action_summary L x =
     (let head = [FStr (debug_order_type (oi_order_type x)),
            FStr (debug_side (oi_side x)), FDec (oi_size x)];
          rest = [FStr (debug_size_unit (oi_size_unit x)), FStr (key_str (oi_market x)),
            FStr (debug_tif (oi_tif x)), FStr (if oi_paper x then ''true'' else ''false''),
            FStr (gl_show_ulid L (oi_id x))]
      in case oi_limit_price x of
           Some p \<Rightarrow> Fmt (''{:?} {:?} {} @'' @ ''{} {:?} {} {:?} (paper={}) [id={}]'') (head @ [FDec p] @ rest)
         | None \<Rightarrow> Fmt ''{:?} {:?} {} {:?} {} {:?} (paper={}) [id={}]'' (head @ rest))"

definition u64_max :: nat where
  "u64_max = 2 ^ 64 - 1"

definition new_pending :: "frame_env \<Rightarrow> session_info \<Rightarrow> action \<Rightarrow> pending_confirmation" where
  "new_pending E s a =
     \<lparr>pc_actor_id = se_actor_id s, pc_action = a,
       pc_expires_at = min (fe_state_now E + confirmation_validity_secs) u64_max\<rparr>"

definition dispatch_intent ::
  "gateway_lib \<Rightarrow> frame_env \<Rightarrow> session_info \<Rightarrow> string option \<Rightarrow> string option \<Rightarrow> json
     \<Rightarrow> connection_state \<Rightarrow> server_frame \<times> connection_state" where
  "dispatch_intent L E s i t body = (\<lambda>(pending, lg).
     (case read_intent L s body of
        Inl e \<Rightarrow> (error_frame E i t e, pending, lg)
      | Inr (v, orig) \<Rightarrow>
          (let a = (if vf_paper v then SubmitPaperOrder else SubmitLiveOrder);
               (d, lg') = authorize_session E s a False False lg
           in if de_verdict d = VDeny \<or> de_verdict d = VStepUpRequired
              then (permission_error E i t d, pending, lg')
              else if \<not> vf_paper v
              then (error_frame E i t (FailedPrecondition,
                      ''live order routing is disabled until the EP-305 execution gate''), pending, lg')
              else
                let x = intent_of v orig in
                (case de_verdict d of
                   VConfirmRequired \<Rightarrow>
                     (SfConfirmRequired i t
                        \<lparr>cr_ref_id = fe_reference E, cr_action_summary = action_summary L x,
                          cr_tier_reason = ''tier '' @ show_nat (se_tier s)
                            @ '' requires confirmation for this mutation'',
                          cr_actor_id = gl_show_ulid L (or_actor_id (oi_origin x)),
                          cr_origin_kind = gi_kind (se_origin s)\<rparr>,
                      hm_put (fe_reference E) (new_pending E s a) pending, lg')
                 | VAllow \<Rightarrow>
                     (SfCommandResult i t (JObject [(''status'', JString ''authorized''),
                        (''action'', JString (scope a)),
                        (''actor_id'', JString (gl_show_ulid L (or_actor_id (oi_origin x)))),
                        (''origin_kind'', JString (gi_kind (se_origin s)))]), pending, lg')
                 | _ \<Rightarrow> (permission_error E i t d, pending, lg')))))"

definition dispatch_confirm ::
  "frame_env \<Rightarrow> session_info \<Rightarrow> string option \<Rightarrow> string option \<Rightarrow> string
     \<Rightarrow> connection_state \<Rightarrow> server_frame \<times> connection_state" where
  "dispatch_confirm E s i t ref = (\<lambda>(pending, lg).
     (case hm_get pending ref of
        None \<Rightarrow>
          (error_frame E i t (FailedPrecondition, ''confirmation reference is not active''), pending, lg)
      | Some p \<Rightarrow>
          (let pending' = AList.delete ref pending
           in if pc_actor_id p \<noteq> se_actor_id s \<or> pc_expires_at p \<le> fe_state_now E
              then (error_frame E i t (FailedPrecondition,
                      ''confirmation reference is stale or belongs to another actor''), pending', lg)
              else
                (case authorize_session E s (pc_action p) True False lg of
                   (d, lg') \<Rightarrow>
                     (if de_verdict d \<noteq> VAllow then permission_error E i t d
                      else SfCommandResult i t (status_body
                        [(''status'', JString ''authorization_confirmed''),
                         (''action'', JString (scope (pc_action p)))] s), pending', lg')))))"

fun dispatch_with_state ::
  "gateway_lib \<Rightarrow> frame_env \<Rightarrow> session_info \<Rightarrow> client_frame \<Rightarrow> connection_state
     \<Rightarrow> server_frame \<times> connection_state" where
  "dispatch_with_state L E s (CfSubscribe i t channels) st =
     answer_if_allowed E s Subscribe i (make_trace_id E i t)
       (status_body [(''status'', JString ''subscribed''),
         (''channels'', JArray (map JString channels))] s) st"
| "dispatch_with_state L E s (CfUnsubscribe i t) st =
     answer_if_allowed E s Subscribe i (make_trace_id E i t)
       (status_body [(''status'', JString ''unsubscribed'')] s) st"
| "dispatch_with_state L E s (CfCommand i t txt room) st =
     answer_if_allowed E s Query i (make_trace_id E i t) (command_body s txt room) st"
| "dispatch_with_state L E s (CfOrderIntent i t body) st =
     dispatch_intent L E s i (make_trace_id E i t) body st"
| "dispatch_with_state L E s (CfConfirm i t ref totp) st =
     dispatch_confirm E s i (make_trace_id E i t) ref st"
| "dispatch_with_state L E s (CfPing i t) st = (SfPong i (make_trace_id E i t), st)"

definition dispatch ::
  "gateway_lib \<Rightarrow> frame_env \<Rightarrow> session_info \<Rightarrow> client_frame \<Rightarrow> audit_record list
     \<Rightarrow> server_frame \<times> audit_record list" where
  "dispatch L E s f lg =
     (case dispatch_with_state L E s f ([], lg) of (answer, _, lg') \<Rightarrow> (answer, lg'))"


subsection \<open>When a frame is authorized\<close>

interpretation gateway_sink: append_sink gateway_emit "\<lambda>lg. lg"
  by unfold_locales (simp_all add: gateway_emit_def)

definition session_may :: "session_info \<Rightarrow> action \<Rightarrow> bool \<Rightarrow> bool \<Rightarrow> bool" where
  "session_may s a confirmed step_up \<longleftrightarrow>
     (\<exists>kind t. session_actor_kind (gi_kind (se_origin s)) = Some kind \<and> tier_try_from (se_tier s) = Inr t
        \<and> \<not> hard_denied \<lparr>ac_id = se_actor_id s, ac_kind = kind\<rparr> a (session_context 0 s kind t confirmed step_up)
        \<and> (se_scope_restricted s \<longrightarrow> scope a \<in> se_scopes s)
        \<and> minimum_tier a \<le> t
        \<and> (step_up \<or> \<not> always_requires_step_up a \<and> a \<noteq> SubmitLiveOrder)
        \<and> (confirmed \<or> \<not> needs_confirmation a t))"

lemma session_context_sel [simp]:
  "ev_now (session_context now s kind t c u) = now"
  "ev_grant (session_context now s kind t c u) = Some (session_grant s kind t)"
  "ev_session_tier (session_context now s kind t c u) = (if kind = Human then Some t else None)"
  "ev_confirmed (session_context now s kind t c u) = c"
  "ev_step_up_satisfied (session_context now s kind t c u) = u"
  "ev_live_history_days (session_context now s kind t c u) = 0"
  "ev_wallet_above_threshold (session_context now s kind t c u) = False"
  "ev_fresh_human_wallet_approval (session_context now s kind t c u) = False"
  by (simp_all add: session_context_def evaluation_context_new_def)

lemma session_evaluate_allow:
  "de_verdict (evaluate \<lparr>ac_id = se_actor_id s, ac_kind = kind\<rparr> a (session_context now s kind t c u)) = VAllow
   \<longleftrightarrow> \<not> hard_denied \<lparr>ac_id = se_actor_id s, ac_kind = kind\<rparr> a (session_context 0 s kind t c u)
      \<and> (se_scope_restricted s \<longrightarrow> scope a \<in> se_scopes s) \<and> minimum_tier a \<le> t
      \<and> (u \<or> \<not> always_requires_step_up a \<and> a \<noteq> SubmitLiveOrder) \<and> (c \<or> \<not> needs_confirmation a t)"
proof -
  let ?A = "\<lparr>ac_id = se_actor_id s, ac_kind = kind\<rparr>" and ?C = "session_context now s kind t c u"
  let ?g = "session_grant s kind t"
  have hard: "hard_denied ?A a ?C = hard_denied ?A a (session_context 0 s kind t c u)"
    by (simp add: hard_denied_def)
  have usable: "grant_usable ?A a ?C ?g \<longleftrightarrow> (se_scope_restricted s \<longrightarrow> scope a \<in> se_scopes s)"
    by (auto simp: grant_usable_def session_grant_def grant_is_active_def permits_scope_def)
  have eff: "effective_tier ?A ?C ?g = Some t"
    by (cases kind) (simp_all add: effective_tier_def session_grant_def tier_lower_def)
  have not_usable: "de_verdict (evaluate_grant ?A a ?C ?g) = VDeny" if "\<not> grant_usable ?A a ?C ?g"
    by (rule evaluate_grant_unusable) (use that in simp)
  show ?thesis
  proof (cases "hard_denied ?A a ?C")
    case True
    then show ?thesis by (simp add: evaluate_hard_denied hard)
  next
    case nd: False
    show ?thesis
    proof (cases "grant_usable ?A a ?C ?g")
      case True
      have "evaluate ?A a ?C = evaluate_tier a ?C ?g t"
        by (simp add: evaluate_not_hard_denied [OF nd] evaluate_grant_usable [OF True eff])
      with True nd show ?thesis
        by (auto simp: evaluate_tier_verdict hard usable needs_step_up_def not_less)
    next
      case False
      with nd show ?thesis
        by (auto simp: evaluate_not_hard_denied [OF nd] not_usable usable)
    qed
  qed
qed

lemma authorize_known:
  assumes "session_actor_kind (gi_kind (se_origin s)) = Some kind" "tier_try_from (se_tier s) = Inr t"
  shows "fst (authorize_session E s a c u lg) =
    evaluate \<lparr>ac_id = se_actor_id s, ac_kind = kind\<rparr> a (session_context (fe_authorize_now E) s kind t c u)"
  using assms by (simp add: authorize_session_def enforce_at_def gateway_emit_def Let_def)

lemma authorize_allow_iff: "de_verdict (fst (authorize_session E s a c u lg)) = VAllow \<longleftrightarrow> session_may s a c u"
proof (cases "session_actor_kind (gi_kind (se_origin s))")
  case None
  then show ?thesis by (simp add: authorize_session_def session_may_def)
next
  case kind: (Some kind)
  show ?thesis
  proof (cases "tier_try_from (se_tier s)")
    case (Inl e)
    with kind show ?thesis by (simp add: authorize_session_def session_may_def)
  next
    case (Inr t)
    show ?thesis
      unfolding authorize_known [OF kind Inr] session_evaluate_allow
      using kind Inr by (auto simp: session_may_def)
  qed
qed

lemma authorize_allowed:
  "authorize_session E s a c u lg = (d, lg') \<Longrightarrow> de_verdict d = VAllow \<Longrightarrow> session_may s a c u"
  using authorize_allow_iff [of E s a c u lg] by simp

text \<open>Every decision about a known actor is recorded, with its verdict, before it is acted on.\<close>

lemma authorize_records:
  "\<exists>rs. snd (authorize_session E s a c u lg) = lg @ rs \<and> length rs \<le> 1
     \<and> (\<forall>r \<in> set rs. au_action r = a \<and> au_actor_id r = se_actor_id s
          \<and> au_verdict r = de_verdict (fst (authorize_session E s a c u lg)))
     \<and> (de_verdict (fst (authorize_session E s a c u lg)) \<noteq> VDeny \<longrightarrow> rs \<noteq> [])"
  by (auto simp: authorize_session_def enforce_at_def gateway_emit_def Let_def audit_record_of_def
      split: option.splits sum.splits)


subsection \<open>Confirmation references\<close>

type_synonym frame_event = "frame_env \<times> session_info \<times> client_frame"

definition frame_step :: "gateway_lib \<Rightarrow> frame_event \<Rightarrow> connection_state \<Rightarrow> connection_state" where
  "frame_step L = (\<lambda>(E, s, f) st. snd (dispatch_with_state L E s f st))"

fun confirms :: "string \<Rightarrow> client_frame \<Rightarrow> bool" where
  "confirms ref (CfConfirm i t r totp) \<longleftrightarrow> r = ref"
| "confirms ref _ \<longleftrightarrow> False"

lemma answer_if_allowed_pending: "fst (snd (answer_if_allowed E s a i t body st)) = fst st"
  by (auto simp: answer_if_allowed_def split: prod.splits)

lemma dispatch_confirm_pending:
  "hm_get (fst (snd (dispatch_confirm E s i t ref st))) r =
     (if r = ref then None else hm_get (fst st) r)"
  by (auto simp: dispatch_confirm_def Let_def delete_conv' split: prod.splits option.splits)

lemma dispatch_intent_pending:
  "fst (snd (dispatch_intent L E s i t body st)) = fst st
   \<or> (\<exists>cr. fst (dispatch_intent L E s i t body st) = SfConfirmRequired i t cr
        \<and> cr_ref_id cr = fe_reference E
        \<and> fst (snd (dispatch_intent L E s i t body st))
            = hm_put (fe_reference E) (new_pending E s SubmitPaperOrder) (fst st))"
  by (auto simp: dispatch_intent_def Let_def split: prod.splits sum.splits verdict.splits)

text \<open>Where an active reference comes from.\<close>

lemma pending_issued:
  assumes "hm_get (fst (fold (frame_step L) es ([], lg))) ref = Some p"
  shows "\<exists>es1 E s i t body es2 cr. es = es1 @ (E, s, CfOrderIntent i t body) # es2
    \<and> fst (dispatch_with_state L E s (CfOrderIntent i t body) (fold (frame_step L) es1 ([], lg)))
        = SfConfirmRequired i (make_trace_id E i t) cr
    \<and> cr_ref_id cr = ref \<and> p = new_pending E s SubmitPaperOrder
    \<and> (\<forall>(E', s', f) \<in> set es2. \<not> confirms ref f)"
  using assms
proof (induction es arbitrary: p rule: rev_induct)
  case Nil
  then show ?case by simp
next
  case (snoc e es)
  let ?st = "fold (frame_step L) es ([], lg)"
  obtain E s f where e: "e = (E, s, f)" by (cases e)
  have now: "hm_get (fst (snd (dispatch_with_state L E s f ?st))) ref = Some p"
    using snoc.prems by (simp add: e frame_step_def)
  have kept: ?case if st: "hm_get (fst ?st) ref = Some p" and f: "\<not> confirms ref f"
  proof -
    from snoc.IH [OF st] obtain es1 E0 s0 i t body es2 cr where
      "es = es1 @ (E0, s0, CfOrderIntent i t body) # es2"
      "fst (dispatch_with_state L E0 s0 (CfOrderIntent i t body) (fold (frame_step L) es1 ([], lg)))
        = SfConfirmRequired i (make_trace_id E0 i t) cr"
      "cr_ref_id cr = ref" "p = new_pending E0 s0 SubmitPaperOrder"
      "\<forall>(E', s', f) \<in> set es2. \<not> confirms ref f" by blast
    with f show ?thesis
      by (intro exI [of _ es1] exI [of _ E0] exI [of _ s0] exI [of _ i] exI [of _ t] exI [of _ body]
          exI [of _ "es2 @ [e]"] exI [of _ cr]) (simp add: e)
  qed
  show ?case
  proof (cases f)
    case (CfOrderIntent i t body)
    from dispatch_intent_pending [of L E s i "make_trace_id E i t" body ?st] show ?thesis
    proof
      assume "fst (snd (dispatch_intent L E s i (make_trace_id E i t) body ?st)) = fst ?st"
      with now have "hm_get (fst ?st) ref = Some p" by (simp add: CfOrderIntent)
      then show ?thesis by (rule kept) (simp add: CfOrderIntent)
    next
      assume "\<exists>cr. fst (dispatch_intent L E s i (make_trace_id E i t) body ?st)
          = SfConfirmRequired i (make_trace_id E i t) cr \<and> cr_ref_id cr = fe_reference E
        \<and> fst (snd (dispatch_intent L E s i (make_trace_id E i t) body ?st))
          = hm_put (fe_reference E) (new_pending E s SubmitPaperOrder) (fst ?st)"
      then obtain cr where cr: "fst (dispatch_intent L E s i (make_trace_id E i t) body ?st)
          = SfConfirmRequired i (make_trace_id E i t) cr" "cr_ref_id cr = fe_reference E"
        and put: "fst (snd (dispatch_intent L E s i (make_trace_id E i t) body ?st))
          = hm_put (fe_reference E) (new_pending E s SubmitPaperOrder) (fst ?st)" by blast
      show ?thesis
      proof (cases "ref = fe_reference E")
        case True
        with now put have "p = new_pending E s SubmitPaperOrder"
          by (simp add: CfOrderIntent hm_get_put)
        with cr True show ?thesis
          by (intro exI [of _ es] exI [of _ E] exI [of _ s] exI [of _ i] exI [of _ t] exI [of _ body]
              exI [of _ "[]"] exI [of _ cr]) (simp add: e CfOrderIntent)
      next
        case False
        with now put have "hm_get (fst ?st) ref = Some p" by (simp add: CfOrderIntent hm_get_put)
        then show ?thesis by (rule kept) (simp add: CfOrderIntent)
      qed
    qed
  next
    case (CfConfirm i t r totp)
    with now have "r \<noteq> ref" "hm_get (fst ?st) ref = Some p"
      by (auto simp: dispatch_confirm_pending split: if_splits)
    then show ?thesis by (intro kept) (simp_all add: CfConfirm)
  qed (use now kept in \<open>simp_all add: answer_if_allowed_pending\<close>)
qed

lemma dispatch_confirm_accepts:
  assumes "fst (dispatch_confirm E s i t ref st) = SfCommandResult i' t' body"
  shows "\<exists>p. hm_get (fst st) ref = Some p \<and> pc_actor_id p = se_actor_id s \<and> fe_state_now E < pc_expires_at p
    \<and> session_may s (pc_action p) True False"
  using assms
  by (auto simp: dispatch_confirm_def error_frame_def permission_error_def Let_def not_le
      dest: authorize_allowed split: prod.splits option.splits if_splits)

text \<open>
  Property C25. In every run of frames over a connection, a confirmation that is accepted was asked for
  earlier in the run: the same reference went out with a request to confirm, to the same actor, less
  than five minutes before, no frame in between tried that reference, and the confirming session may
  submit a paper order once confirmed. A reference is thus answered at most once.
\<close>

theorem confirmation_answers_one_request:
  assumes "fst (dispatch_with_state L E s (CfConfirm i t ref totp) (fold (frame_step L) es ([], lg)))
    = SfCommandResult i' t' body"
  shows "\<exists>es1 E0 s0 i0 t0 b0 es2 cr. es = es1 @ (E0, s0, CfOrderIntent i0 t0 b0) # es2
    \<and> fst (dispatch_with_state L E0 s0 (CfOrderIntent i0 t0 b0) (fold (frame_step L) es1 ([], lg)))
        = SfConfirmRequired i0 (make_trace_id E0 i0 t0) cr
    \<and> cr_ref_id cr = ref \<and> se_actor_id s0 = se_actor_id s
    \<and> fe_state_now E < fe_state_now E0 + confirmation_validity_secs
    \<and> list_all (\<lambda>(E', s', f). \<not> confirms ref f) es2 \<and> session_may s SubmitPaperOrder True False"
proof -
  from dispatch_confirm_accepts [OF assms [unfolded dispatch_with_state.simps]]
  obtain p where p: "hm_get (fst (fold (frame_step L) es ([], lg))) ref = Some p"
    "pc_actor_id p = se_actor_id s" "fe_state_now E < pc_expires_at p" "session_may s (pc_action p) True False"
    by blast
  from pending_issued [OF p(1)] obtain es1 E0 s0 i0 t0 b0 es2 cr where
    o: "es = es1 @ (E0, s0, CfOrderIntent i0 t0 b0) # es2"
      "fst (dispatch_with_state L E0 s0 (CfOrderIntent i0 t0 b0) (fold (frame_step L) es1 ([], lg)))
        = SfConfirmRequired i0 (make_trace_id E0 i0 t0) cr"
      "cr_ref_id cr = ref" "p = new_pending E0 s0 SubmitPaperOrder"
      "\<forall>(E', s', f) \<in> set es2. \<not> confirms ref f" by blast
  have "list_all (\<lambda>(E', s', f). \<not> confirms ref f) es2" using o(5) by (simp add: list_all_iff)
  with o(1-3) p(2-4) show ?thesis
    by (intro exI [of _ es1] exI [of _ E0] exI [of _ s0] exI [of _ i0] exI [of _ t0] exI [of _ b0]
        exI [of _ es2] exI [of _ cr]) (simp add: o(4) new_pending_def)
qed


subsection \<open>What an accepted intent satisfies\<close>

lemma parse_limit_price_some: "parse_limit_price L p = Inr (Some x) \<Longrightarrow> \<exists>s. p = Some s \<and> gl_decimal L s = Some x"
  by (auto simp: parse_limit_price_def map_ok_Inr_iff ok_or_Inr_iff split: option.splits if_splits)





definition is_error :: "server_frame \<Rightarrow> bool" where
  "is_error f = (case f of SfError _ _ _ \<Rightarrow> True | _ \<Rightarrow> False)"

lemma error_frames [simp]: "is_error (error_frame E i t e)" "is_error (permission_error E i t d)"
  by (simp_all add: is_error_def error_frame_def permission_error_def split_beta)


definition intent_error_messages :: "string list" where
  "intent_error_messages =
     [''order intent contains invalid or missing fields'', ''intent id must be a valid ULID'',
      ''size must be a decimal string'', ''size must be positive'',
      ''limit_price must be a decimal string'', ''limit orders require limit_price'',
      ''market orders must not specify limit_price'',
      ''quote_snapshot market does not match intent market'', ''caps_version must be a valid ULID'',
      ''created_ts must be an RFC3339 UTC timestamp'', ''permission denied'',
      ''fresh step-up authentication is required'',
      ''live order routing is disabled until the EP-305 execution gate'']"

text \<open>A result whose error, if it is one, is in a set.\<close>

definition errors_in :: "'e set \<Rightarrow> 'e + 'a \<Rightarrow> bool" where
  "errors_in S r = (case r of Inl e \<Rightarrow> e \<in> S | Inr _ \<Rightarrow> True)"

lemma errors_inD: "errors_in S r \<Longrightarrow> r = Inl e \<Longrightarrow> e \<in> S"
  by (simp add: errors_in_def)

lemma errors_in_steps:
  "errors_in S (Inr a)"
  "e \<in> S \<Longrightarrow> errors_in S (Inl e)"
  "e \<in> S \<Longrightarrow> errors_in S (ok_or e v)"
  "errors_in S r \<Longrightarrow> errors_in S (map_ok f r)"
  by (auto simp: errors_in_def ok_or_def map_ok_def split: option.splits sum.splits)

lemma errors_in_and_then:
  assumes "errors_in S r" "\<And>a. errors_in S (f a)"
  shows "errors_in S (and_then r f)"
  using assms by (cases r) (simp_all add: errors_in_def)

lemma errors_in_if: "errors_in S a \<Longrightarrow> errors_in S b \<Longrightarrow> errors_in S (if c then a else b)"
  by simp

lemma message_listed:
  "''order intent contains invalid or missing fields'' \<in> set intent_error_messages"
  "''intent id must be a valid ULID'' \<in> set intent_error_messages"
  "''size must be a decimal string'' \<in> set intent_error_messages"
  "''size must be positive'' \<in> set intent_error_messages"
  "''limit_price must be a decimal string'' \<in> set intent_error_messages"
  "''limit orders require limit_price'' \<in> set intent_error_messages"
  "''market orders must not specify limit_price'' \<in> set intent_error_messages"
  "''quote_snapshot market does not match intent market'' \<in> set intent_error_messages"
  "''caps_version must be a valid ULID'' \<in> set intent_error_messages"
  "''created_ts must be an RFC3339 UTC timestamp'' \<in> set intent_error_messages"
  "''permission denied'' \<in> set intent_error_messages"
  "''fresh step-up authentication is required'' \<in> set intent_error_messages"
  "''live order routing is disabled until the EP-305 execution gate'' \<in> set intent_error_messages"
  by (simp_all add: intent_error_messages_def)

lemma validate_body_errors: "errors_in (set intent_error_messages) (validate_body L b)"
  unfolding validate_body_def parse_limit_price_def check_order_type_def option.case_distrib
  by (cases "cb_limit_price b"; cases "cb_order_type b"; simp only: option.case order_type.case)
    (intro errors_in_and_then errors_in_if errors_in_steps message_listed)+

lemma read_intent_error:
  assumes "read_intent L s body = Inl e"
  shows "snd e \<in> set intent_error_messages \<or> stamp_origin L s = Inl e"
  using assms
  by (auto simp: read_intent_def and_then_Inl_iff ok_or_def map_ok_Inl_iff map_err_def message_listed
      dest: errors_inD [OF validate_body_errors] split: option.splits sum.splits)

text \<open>
  An error that answers an order intent carries a message of a fixed list, or the one that
  says what is wrong with the session: the client's own values are never echoed.
\<close>

theorem intent_errors_echo_nothing:
  assumes "fst (dispatch_with_state L E s (CfOrderIntent i t body) st) = SfError i' t' e"
  shows "ee_message e \<in> set intent_error_messages \<or> (\<exists>c. stamp_origin L s = Inl (c, ee_message e))"
proof -
  obtain pending lg where st: "st = (pending, lg)" by (cases st)
  show ?thesis
  proof (cases "read_intent L s body")
    case (Inl x)
    with assms have "ee_message e = snd x"
      by (auto simp: st dispatch_intent_def error_frame_def error_envelope_new_def)
    with read_intent_error [OF Inl] show ?thesis by (cases x) auto
  next
    case (Inr x)
    obtain v orig where x: "x = (v, orig)" by (cases x)
    obtain d lg' where d: "authorize_session E s (if vf_paper v then SubmitPaperOrder else SubmitLiveOrder) False False lg = (d, lg')"
      by force
    have perm: "permission_error E i (make_trace_id E i t) d = SfError i' t' e \<Longrightarrow> ee_message e \<in> set intent_error_messages"
      by (auto simp: permission_error_def error_envelope_new_def error_envelope_with_details_def message_listed
          split: if_splits)
    have "error_frame E i (make_trace_id E i t) (c, m) = SfError i' t' e \<Longrightarrow> ee_message e = m" for c m
      by (auto simp: error_frame_def error_envelope_new_def)
    with assms Inr x d perm message_listed(13) show ?thesis
      by (cases "de_verdict d") (auto simp: st dispatch_intent_def Let_def split: if_splits)
  qed
qed


subsection \<open>Witnesses\<close>

definition wit_client_quote :: quote where
  "wit_client_quote = \<lparr>q_market = MarketKey ''mkt:a:x'', q_bid = None, q_ask = None, q_mid = None, q_last = None,
     q_bid_size = None, q_ask_size = None, q_ts = 0, q_source = Snapshot, q_seq = None\<rparr>"

definition wit_body :: client_order_intent_body where
  "wit_body = \<lparr>cb_id = ''i'', cb_market = MarketKey ''mkt:a:x'', cb_side = Buy, cb_order_type = Limit,
     cb_limit_price = Some ''p'', cb_size = ''s'', cb_size_unit = Contracts, cb_tif = Gtc, cb_paper = True,
     cb_quote_snapshot = wit_client_quote, cb_caps_version = ''c'', cb_created_ts = ''t''\<rparr>"

definition wit_lib :: gateway_lib where
  "wit_lib = \<lparr>gl_ulid = (\<lambda>_. Some 7), gl_show_ulid = (\<lambda>_. ''7''), gl_decimal = (\<lambda>_. Some 1),
     gl_time = (\<lambda>_. Some 0), gl_body = (\<lambda>j. if j = JNull then None else Some wit_body)\<rparr>"

definition wit_session_info :: session_info where
  "wit_session_info = \<lparr>se_session_id = ''s'', se_actor_id = ''u'', se_tier = 3,
     se_origin = \<lparr>gi_kind = ''human'', gi_actor_id = ''u''\<rparr>, se_device_label = None, se_grant_id = ''g'',
     se_scopes = {}, se_scope_restricted = False\<rparr>"

definition wit_frame_env :: "nat \<Rightarrow> frame_env" where
  "wit_frame_env n = \<lparr>fe_authorize_now = n, fe_state_now = n, fe_trace_uuid = ''tr'', fe_reference = ''ref'', fe_error_id = 1\<rparr>"

definition wit_ask :: frame_event where
  "wit_ask = (wit_frame_env 0, wit_session_info, CfOrderIntent None None (JBool True))"

lemmas wit_frame_defs = wit_client_quote_def wit_body_def wit_lib_def wit_session_info_def wit_frame_env_def wit_ask_def

lemmas frame_eval = dispatch_intent_def dispatch_confirm_def read_intent_def validate_body_def parse_limit_price_def
  check_order_type_def stamp_origin_def session_origin_kind_def parse_session_actor_def origin_new_def authorize_session_def
  session_actor_kind_def tier_try_from_def enforce_at_def gateway_emit_def evaluate_def evaluate_grant_def
  session_grant_def permits_scope_def tier_lower_def evaluate_tier_def less_tier_def always_requires_step_up_def
  is_mutating_def decision_at_def new_pending_def confirmation_validity_secs_def u64_max_def Let_def

lemma wit_asked:
  "frame_step wit_lib wit_ask ([], lg) =
     ([(''ref'', \<lparr>pc_actor_id = ''u'', pc_action = SubmitPaperOrder, pc_expires_at = 300\<rparr>)],
      snd (frame_step wit_lib wit_ask ([], lg)))"
  by (simp add: frame_step_def wit_frame_defs frame_eval)

theorem confirmation_answers_one_request_witness:
  "\<exists>es1 E0 s0 i0 t0 b0 es2 cr. [wit_ask] = es1 @ (E0, s0, CfOrderIntent i0 t0 b0) # es2
    \<and> fst (dispatch_with_state wit_lib E0 s0 (CfOrderIntent i0 t0 b0) (fold (frame_step wit_lib) es1 ([], [])))
        = SfConfirmRequired i0 (make_trace_id E0 i0 t0) cr
    \<and> cr_ref_id cr = ''ref'' \<and> se_actor_id s0 = se_actor_id wit_session_info
    \<and> fe_state_now (wit_frame_env 9) < fe_state_now E0 + confirmation_validity_secs
    \<and> list_all (\<lambda>(E', s', f). \<not> confirms ''ref'' f) es2 \<and> session_may wit_session_info SubmitPaperOrder True False"
proof -
  have st: "fold (frame_step wit_lib) [wit_ask] ([], []) =
     ([(''ref'', \<lparr>pc_actor_id = ''u'', pc_action = SubmitPaperOrder, pc_expires_at = 300\<rparr>)],
      snd (frame_step wit_lib wit_ask ([], [])))"
    using wit_asked [of "[]"] by simp
  have "fst (dispatch_with_state wit_lib (wit_frame_env 9) wit_session_info (CfConfirm None None ''ref'' None)
      (fold (frame_step wit_lib) [wit_ask] ([], [])))
    = SfCommandResult None (Some ''tr'') (status_body
        [(''status'', JString ''authorization_confirmed''), (''action'', JString ''orders.submit_paper'')] wit_session_info)"
    unfolding st by (simp add: wit_frame_defs frame_eval make_trace_id_def)
  from confirmation_answers_one_request [OF this] show ?thesis .
qed


theorem intent_errors_echo_nothing_witness:
  "''order intent contains invalid or missing fields'' \<in> set intent_error_messages
   \<or> (\<exists>c. stamp_origin wit_lib wit_session_info = Inl (c, ''order intent contains invalid or missing fields''))"
  using intent_errors_echo_nothing [where L = wit_lib and E = "wit_frame_env 0" and s = wit_session_info and i = None
      and t = None and body = JNull and st = "([], [])" and i' = None and t' = "Some ''tr''"
      and e = "error_envelope_new InvalidArgument ''order intent contains invalid or missing fields'' 1"]
  by (simp add: dispatch_intent_def read_intent_def wit_lib_def error_frame_def make_trace_id_def wit_frame_env_def
      error_envelope_new_def)

end
