(* ===== verification/Gateway_Session.thy ===== *)
theory Gateway_Session
  imports Gateway_Frames Scanner_Detect Authz_Stores
begin

text \<open>
  The sessions of the gateway (\<^verbatim>\<open>crates/aether-gateway/src/auth.rs\<close>, on the tables of migrations 0005,
  0006, 0019 and 0032) and its WebSocket connections (\<^verbatim>\<open>lib.rs\<close>, \<^verbatim>\<open>health.rs\<close>): the validation of a
  bearer token, the loop of a connection with its subscription, and the gauges that all connections
  share. The lemmas show that whatever an open connection may do was granted by a row that was live
  when it was opened, that the gauges count connections and subscriptions, and that a refused
  subscription is nevertheless served.
\<close>

subsection \<open>Tables\<close>

record auth_session_row =
  sn_id :: string
  sn_user_id :: string
  sn_tier :: int
  sn_origin_kind :: string
  sn_device_label :: "string option"
  sn_token_hash :: string
  sn_expires_ts :: utc_time
  sn_idle_expires_ts :: utc_time
  sn_last_seen_ts :: "utc_time option"
  sn_revoked_ts :: "utc_time option"
  sn_updated_ts :: utc_time

record grant_row =
  gt_id :: string
  gt_actor_id :: string
  gt_actor_kind :: string
  gt_tier :: int
  gt_scopes :: json
  gt_expires_ts :: "utc_time option"
  gt_revoked_ts :: "utc_time option"

record gateway_db =
  gd_sessions :: "auth_session_row list"
  gd_grants :: "grant_row list"

datatype auth_error = MissingToken | InvalidToken | SessionNotFound string | DbError string

primrec auth_error_text :: "auth_error \<Rightarrow> string" where
  "auth_error_text MissingToken = ''missing token''"
| "auth_error_text InvalidToken = ''invalid token''"
| "auth_error_text (SessionNotFound i) = ''session not found: '' @ i"
| "auth_error_text (DbError _) = ''database error''"

subsection \<open>Validating a token (auth.rs)\<close>

text \<open>\<^verbatim>\<open>trim_start_matches\<close> strips the prefix as often as it occurs.\<close>

function trim_start_matches :: "string \<Rightarrow> string \<Rightarrow> string" where
  "trim_start_matches p s =
     (if p \<noteq> [] \<and> starts_with p s then trim_start_matches p (drop (length p) s) else s)"
  by auto
termination
proof (relation "measure (length \<circ> snd)", goal_cases)
  case 1
  then show ?case by simp
next
  case (2 p s)
  then have "length (take (length p) s) = length p" "p \<noteq> []" by (simp_all add: starts_with_def)
  then show ?case by (cases s) (auto simp: min_def split: if_splits)
qed

declare trim_start_matches.simps [simp del]

definition idle_days_30 :: int where
  "idle_days_30 = 30 * 86400 * 1000000"

definition session_live :: "string \<Rightarrow> utc_time \<Rightarrow> auth_session_row \<Rightarrow> bool" where
  "session_live h now r \<longleftrightarrow>
     sn_token_hash r = h \<and> now < sn_expires_ts r \<and> now < sn_idle_expires_ts r \<and> sn_revoked_ts r = None"

definition touch_session :: "utc_time \<Rightarrow> auth_session_row \<Rightarrow> auth_session_row" where
  "touch_session now r =
     r\<lparr>sn_last_seen_ts := Some now, sn_idle_expires_ts := min (sn_expires_ts r) (now + idle_days_30),
       sn_updated_ts := now\<rparr>"

definition grant_live :: "auth_session_row \<Rightarrow> utc_time \<Rightarrow> grant_row \<Rightarrow> bool" where
  "grant_live s now g \<longleftrightarrow>
     gt_actor_id g = sn_user_id s \<and> gt_actor_kind g = sn_origin_kind s \<and> gt_revoked_ts g = None
     \<and> (case gt_expires_ts g of None \<Rightarrow> True | Some e \<Rightarrow> now < e)"

text \<open>\<^verbatim>\<open>ORDER BY tier DESC, expires_ts DESC NULLS FIRST, id ASC LIMIT 1\<close>.\<close>

definition expiry_before :: "utc_time option \<Rightarrow> utc_time option \<Rightarrow> bool" where
  "expiry_before a b =
     (case (a, b) of (None, Some _) \<Rightarrow> True | (Some x, Some y) \<Rightarrow> y < x | _ \<Rightarrow> False)"

definition grant_before :: "grant_row \<Rightarrow> grant_row \<Rightarrow> bool" where
  "grant_before g h \<longleftrightarrow>
     gt_tier h < gt_tier g \<or>
     gt_tier g = gt_tier h \<and>
       (expiry_before (gt_expires_ts g) (gt_expires_ts h) \<or>
        gt_expires_ts g = gt_expires_ts h \<and> gt_id g < gt_id h)"

fun first_grant :: "grant_row list \<Rightarrow> grant_row option" where
  "first_grant [] = None"
| "first_grant (g # gs) =
     (case first_grant gs of None \<Rightarrow> Some g | Some h \<Rightarrow> Some (if grant_before h g then h else g))"

text \<open>The statement of \<^verbatim>\<open>validate_token\<close>: the sessions that match are touched whether or not a
  grant is found; a row is returned only for one that has a live grant.\<close>

definition session_query ::
  "string \<Rightarrow> utc_time \<Rightarrow> gateway_db \<Rightarrow> (auth_session_row \<times> grant_row) option \<times> gateway_db" where
  "session_query h now db =
     (let touched = map (touch_session now) (filter (session_live h now) (gd_sessions db));
          rows = List.map_filter (\<lambda>s. map_option (Pair s) (first_grant (filter (grant_live s now) (gd_grants db)))) touched
      in (case rows of [] \<Rightarrow> None | r # _ \<Rightarrow> Some r,
          db\<lparr>gd_sessions := map (\<lambda>r. if session_live h now r then touch_session now r else r) (gd_sessions db)\<rparr>))"

text \<open>\<^verbatim>\<open>tier as u8\<close> keeps the low eight bits.\<close>

definition as_u8 :: "int \<Rightarrow> nat" where
  "as_u8 i = nat (i mod 256)"

definition allowed_scopes :: "json \<Rightarrow> string set" where
  "allowed_scopes raw =
     (case json_get ''allowed'' raw of
        Some (JArray vs) \<Rightarrow> set (List.map_filter (\<lambda>v. case v of JString s \<Rightarrow> Some s | _ \<Rightarrow> None) vs)
      | _ \<Rightarrow> {})"

definition session_of_row :: "auth_session_row \<Rightarrow> grant_row \<Rightarrow> session_info" where
  "session_of_row s g =
     \<lparr>se_session_id = sn_id s, se_actor_id = sn_user_id s, se_tier = as_u8 (min (sn_tier s) (gt_tier g)),
       se_origin = \<lparr>gi_kind = sn_origin_kind s, gi_actor_id = sn_user_id s\<rparr>,
       se_device_label = sn_device_label s, se_grant_id = gt_id g, se_scopes = allowed_scopes (gt_scopes g),
       se_scope_restricted = (json_get ''allowed'' (gt_scopes g) \<noteq> None)\<rparr>"

definition test_session :: "string \<Rightarrow> session_info" where
  "test_session actor =
     \<lparr>se_session_id = ''test-session'', se_actor_id = actor, se_tier = 3,
       se_origin = \<lparr>gi_kind = ''human'', gi_actor_id = actor\<rparr>, se_device_label = None,
       se_grant_id = ''debug-test-grant'', se_scopes = {}, se_scope_restricted = False\<rparr>"

text \<open>\<open>debug\<close> is \<^verbatim>\<open>cfg!(debug_assertions)\<close>; \<open>fault\<close> is what the database reports instead of a
  result, and \<open>sha\<close> is SHA-256. Without a pool there is no database to look at.\<close>

definition validate_token ::
  "(string \<Rightarrow> u8 list) \<Rightarrow> bool \<Rightarrow> bool \<Rightarrow> string option \<Rightarrow> string option \<Rightarrow> utc_time \<Rightarrow> gateway_db
     \<Rightarrow> (auth_error + session_info) \<times> gateway_db" where
  "validate_token sha debug pool fault tok now db =
     (case tok of
        None \<Rightarrow> (Inl MissingToken, db)
      | Some raw \<Rightarrow>
          (let t = (case strip_prefix ''Bearer '' raw of Some r \<Rightarrow> r | None \<Rightarrow> raw)
           in if debug \<and> starts_with ''test-'' t
              then (Inr (test_session (trim_start_matches ''test-'' t)), db)
              else if \<not> pool then (Inl InvalidToken, db)
              else (case fault of
                      Some e \<Rightarrow> (Inl (DbError e), db)
                    | None \<Rightarrow>
                        (case session_query (token_hash sha t) now db of
                           (None, db') \<Rightarrow> (Inl InvalidToken, db')
                         | (Some (s, g), db') \<Rightarrow> (Inr (session_of_row s g), db')))))"

record validate_response =
  vr_valid :: bool
  vr_actor_id :: "string option"
  vr_tier :: "nat option"

definition validate_handler ::
  "(string \<Rightarrow> u8 list) \<Rightarrow> bool \<Rightarrow> string option \<Rightarrow> string \<Rightarrow> utc_time \<Rightarrow> gateway_db
     \<Rightarrow> (nat \<times> validate_response) \<times> gateway_db" where
  "validate_handler sha debug fault tok now db =
     (case validate_token sha debug True fault (Some tok) now db of
        (Inr s, db') \<Rightarrow>
          ((200, \<lparr>vr_valid = True, vr_actor_id = Some (se_actor_id s), vr_tier = Some (se_tier s)\<rparr>), db')
      | (Inl _, db') \<Rightarrow> ((401, \<lparr>vr_valid = False, vr_actor_id = None, vr_tier = None\<rparr>), db'))"

subsection \<open>Connections (lib.rs) and gauges (health.rs)\<close>

record gateway_gauges =
  gg_connections :: u64
  gg_subscriptions :: u64
  gg_unknown_frames :: u64

record connection =
  cn_session :: session_info
  cn_subscribed :: bool
  cn_auth :: connection_auth_state

record gateway_world =
  gw_db :: gateway_db
  gw_connections :: "(nat, connection) hash_map"
  gw_gauges :: gateway_gauges
  gw_audit :: "audit_record list"

text \<open>What wakes the loop: a text message (decoded or not by the library), another message, the end
  of the socket, or a receive on the broadcast channel. The flag says whether the answer could be
  encoded and sent.\<close>

datatype socket_event =
    WsFrame frame_env client_frame bool
  | WsUnparsable frame_env bool
  | WsOther
  | WsEnd
  | WsBroadcast string bool
  | WsLagged nat
  | WsChannelClosed

datatype outgoing = SendFrame server_frame | SendText string

definition manage_subscription ::
  "client_frame \<Rightarrow> connection \<Rightarrow> gateway_gauges \<Rightarrow> connection \<times> gateway_gauges" where
  "manage_subscription f c g =
     (case f of
        CfSubscribe _ _ _ \<Rightarrow>
          (if \<not> cn_subscribed c
           then (c\<lparr>cn_subscribed := True\<rparr>, g\<lparr>gg_subscriptions := gg_subscriptions g + 1\<rparr>) else (c, g))
      | CfUnsubscribe _ _ \<Rightarrow>
          (if cn_subscribed c
           then (c\<lparr>cn_subscribed := False\<rparr>, g\<lparr>gg_subscriptions := gg_subscriptions g - 1\<rparr>) else (c, g))
      | _ \<Rightarrow> (c, g))"

text \<open>One turn of the loop: what is sent, whether the loop goes on, and the new state. A receive on the
  broadcast channel is only polled while subscribed.\<close>

definition socket_turn ::
  "gateway_lib \<Rightarrow> socket_event \<Rightarrow> connection \<Rightarrow> gateway_gauges \<Rightarrow> audit_record list
     \<Rightarrow> (outgoing list \<times> bool) \<times> connection \<times> gateway_gauges \<times> audit_record list" where
  "socket_turn L ev c g lg =
     (case ev of
        WsFrame E f sent \<Rightarrow>
          (let (c', g') = manage_subscription f c g;
               (answer, pending, lg') = dispatch_with_state L E (cn_session c') f (cn_auth c', lg)
           in ((if sent then [SendFrame answer] else [], sent), c'\<lparr>cn_auth := pending\<rparr>, g', lg'))
      | WsUnparsable E sent \<Rightarrow>
          ((if sent then [SendFrame (SfError None (Some (fe_trace_uuid E))
              (error_envelope_new InvalidArgument ''failed to parse frame'' (fe_error_id E)))] else [], sent),
           c, g\<lparr>gg_unknown_frames := gg_unknown_frames g + 1\<rparr>, lg)
      | WsOther \<Rightarrow> (([], True), c, g, lg)
      | WsEnd \<Rightarrow> (([], False), c, g, lg)
      | WsBroadcast m sent \<Rightarrow>
          (if \<not> cn_subscribed c then (([], True), c, g, lg)
           else ((if sent then [SendText m] else [], sent), c, g, lg))
      | WsLagged _ \<Rightarrow> (([], True), c, g, lg)
      | WsChannelClosed \<Rightarrow> (([], \<not> cn_subscribed c), c, g, lg))"

text \<open>After the loop: the subscription is given back, and the guard gives back the connection.\<close>

definition close_connection :: "nat \<Rightarrow> connection \<Rightarrow> gateway_gauges \<Rightarrow> gateway_world \<Rightarrow> gateway_world" where
  "close_connection k c g w =
     (let g1 = (if cn_subscribed c then g\<lparr>gg_subscriptions := gg_subscriptions g - 1\<rparr> else g)
      in w\<lparr>gw_connections := AList.delete k (gw_connections w),
           gw_gauges := g1\<lparr>gg_connections := gg_connections g1 - 1\<rparr>\<rparr>)"

definition socket_step ::
  "gateway_lib \<Rightarrow> nat \<Rightarrow> socket_event \<Rightarrow> gateway_world \<Rightarrow> outgoing list \<times> gateway_world" where
  "socket_step L k ev w =
     (case hm_get (gw_connections w) k of
        None \<Rightarrow> ([], w)
      | Some c \<Rightarrow>
          (let ((out, goes_on), c', g', lg') = socket_turn L ev c (gw_gauges w) (gw_audit w);
               w' = w\<lparr>gw_audit := lg'\<rparr>
           in (out, if goes_on then w'\<lparr>gw_connections := hm_put k c' (gw_connections w), gw_gauges := g'\<rparr>
                    else close_connection k c' g' w')))"

definition connection_new :: "session_info \<Rightarrow> connection" where
  "connection_new s = \<lparr>cn_session = s, cn_subscribed = False, cn_auth = []\<rparr>"

text \<open>The upgrade of a connection; \<open>k\<close> is a name for its task that no open connection has.\<close>

definition ws_handler ::
  "(string \<Rightarrow> u8 list) \<Rightarrow> bool \<Rightarrow> nat \<Rightarrow> string option \<Rightarrow> string option \<Rightarrow> utc_time \<Rightarrow> gateway_world
     \<Rightarrow> (nat \<times> string) option \<times> gateway_world" where
  "ws_handler sha debug k fault tok now w =
     (case validate_token sha debug True fault tok now (gw_db w) of
        (Inl e, db') \<Rightarrow> (Some (401, auth_error_text e), w\<lparr>gw_db := db'\<rparr>)
      | (Inr s, db') \<Rightarrow>
          (None, w\<lparr>gw_db := db', gw_connections := hm_put k (connection_new s) (gw_connections w),
                   gw_gauges := (gw_gauges w)\<lparr>gg_connections := gg_connections (gw_gauges w) + 1\<rparr>\<rparr>))"


subsection \<open>Runs of the gateway\<close>

text \<open>The constraints of the tables that matter here: tiers are between 1 and 5.\<close>

definition db_checks :: "gateway_db \<Rightarrow> bool" where
  "db_checks db \<longleftrightarrow>
     list_all (\<lambda>s. 1 \<le> sn_tier s \<and> sn_tier s \<le> 5) (gd_sessions db)
     \<and> list_all (\<lambda>g. 1 \<le> gt_tier g \<and> gt_tier g \<le> 5) (gd_grants db)"

text \<open>Other services may put any rows into the tables that the constraints accept.\<close>

datatype gateway_event =
    GwOpen nat "string option" "string option" utc_time
  | GwValidate "string option" string utc_time
  | GwSocket nat socket_event
  | GwDatabase gateway_db

fun gateway_step ::
  "gateway_lib \<Rightarrow> (string \<Rightarrow> u8 list) \<Rightarrow> bool \<Rightarrow> gateway_event \<Rightarrow> gateway_world \<Rightarrow> gateway_world" where
  "gateway_step L sha debug (GwOpen k fault tok now) w =
     (if hm_get (gw_connections w) k \<noteq> None then w else snd (ws_handler sha debug k fault tok now w))"
| "gateway_step L sha debug (GwValidate fault tok now) w =
     w\<lparr>gw_db := snd (validate_handler sha debug fault tok now (gw_db w))\<rparr>"
| "gateway_step L sha debug (GwSocket k ev) w = snd (socket_step L k ev w)"
| "gateway_step L sha debug (GwDatabase db) w = (if db_checks db then w\<lparr>gw_db := db\<rparr> else w)"

definition gateway_start :: "gateway_db \<Rightarrow> gateway_world" where
  "gateway_start db =
     \<lparr>gw_db = db, gw_connections = [],
       gw_gauges = \<lparr>gg_connections = 0, gg_subscriptions = 0, gg_unknown_frames = 0\<rparr>, gw_audit = []\<rparr>"

subsection \<open>The gauges count the connections\<close>

definition how_many :: "('v \<Rightarrow> bool) \<Rightarrow> ('k, 'v) hash_map \<Rightarrow> nat" where
  "how_many P m = length (filter (P \<circ> snd) m)"

lemma how_many_new: "hm_get m k = None \<Longrightarrow> how_many P (hm_put k v m) = how_many P m + (if P v then 1 else 0)"
  by (induction m) (auto simp: how_many_def split: if_splits)

lemma how_many_old:
  "hm_wf m \<Longrightarrow> hm_get m k = Some u \<Longrightarrow>
     how_many P (hm_put k v m) + (if P u then 1 else 0) = how_many P m + (if P v then 1 else 0)"
  by (induction m) (auto simp: how_many_def split: if_splits)

lemma delete_absent: "k \<notin> fst ` set m \<Longrightarrow> AList.delete k m = m"
  by (induction m) auto

lemma how_many_delete:
  "hm_wf m \<Longrightarrow> hm_get m k = Some u \<Longrightarrow> how_many P (AList.delete k m) + (if P u then 1 else 0) = how_many P m"
  by (induction m) (auto simp: how_many_def delete_absent split: if_splits)

definition gauges_ok :: "gateway_world \<Rightarrow> bool" where
  "gauges_ok w \<longleftrightarrow> hm_wf (gw_connections w)
     \<and> gg_connections (gw_gauges w) = of_nat (how_many (\<lambda>_. True) (gw_connections w))
     \<and> gg_subscriptions (gw_gauges w) = of_nat (how_many cn_subscribed (gw_connections w))"

text \<open>A turn changes the subscription gauge as it changes the connection's own flag.\<close>

definition flag :: "connection \<Rightarrow> u64" where
  "flag c = (if cn_subscribed c then 1 else 0)"

lemma socket_turn_gauges:
  assumes "socket_turn L ev c g lg = ((out, go), c', g', lg')"
  shows "gg_subscriptions g' + flag c = gg_subscriptions g + flag c'"
    and "gg_connections g' = gg_connections g" and "cn_session c' = cn_session c"
proof -
  have turn: "gg_subscriptions g2 + flag c = gg_subscriptions g + flag c2"
    "gg_connections g2 = gg_connections g" "cn_session c2 = cn_session c"
    if "manage_subscription f c g = (c2, g2)" for f c2 g2
    using that by (cases f; auto simp: manage_subscription_def flag_def split: if_splits)+
  have keep: "flag (c2\<lparr>cn_auth := p\<rparr>) = flag c2" for c2 p by (simp add: flag_def)
  show "gg_subscriptions g' + flag c = gg_subscriptions g + flag c'"
    "gg_connections g' = gg_connections g" "cn_session c' = cn_session c"
    using assms turn keep
    by (cases ev; fastforce simp: socket_turn_def Let_def split: prod.splits if_splits)+
qed

lemma of_nat_flag: "of_nat (if cn_subscribed c then 1 else 0) = flag c"
  by (simp add: flag_def)

lemma socket_step_gauges:
  assumes "gauges_ok w"
  shows "gauges_ok (snd (socket_step L k ev w))"
proof (cases "hm_get (gw_connections w) k")
  case None
  with assms show ?thesis by (simp add: socket_step_def)
next
  case (Some c)
  obtain out go c' g' lg' where t: "socket_turn L ev c (gw_gauges w) (gw_audit w) = ((out, go), c', g', lg')"
    by (metis prod.exhaust)
  note turn = socket_turn_gauges [OF t]
  from assms have wf: "hm_wf (gw_connections w)"
    and n: "gg_connections (gw_gauges w) = of_nat (how_many (\<lambda>_. True) (gw_connections w))"
    and sub: "gg_subscriptions (gw_gauges w) = of_nat (how_many cn_subscribed (gw_connections w))"
    by (simp_all add: gauges_ok_def)
  show ?thesis
  proof (cases go)
    case True
    have "of_nat (how_many cn_subscribed (hm_put k c' (gw_connections w))) + flag c
        = of_nat (how_many cn_subscribed (gw_connections w)) + flag c'"
      using arg_cong [OF how_many_old [OF wf Some, of cn_subscribed c'], of "of_nat :: nat \<Rightarrow> u64"] unfolding of_nat_add of_nat_flag .
    with turn(1) sub have "gg_subscriptions g' = of_nat (how_many cn_subscribed (hm_put k c' (gw_connections w)))"
      by (metis add_right_cancel)
    moreover have "how_many (\<lambda>_. True) (hm_put k c' (gw_connections w)) = how_many (\<lambda>_. True) (gw_connections w)"
      using how_many_old [OF wf Some, of "\<lambda>_. True" c'] by simp
    ultimately show ?thesis using True t wf n turn(2)
      by (simp add: socket_step_def Some gauges_ok_def hm_wf_put)
  next
    case False
    have "of_nat (how_many cn_subscribed (AList.delete k (gw_connections w))) + flag c
        = (of_nat (how_many cn_subscribed (gw_connections w)) :: u64)"
      using arg_cong [OF how_many_delete [OF wf Some, of cn_subscribed], of "of_nat :: nat \<Rightarrow> u64"] unfolding of_nat_add of_nat_flag .
    with turn(1) sub have "gg_subscriptions g' + flag c
        = of_nat (how_many cn_subscribed (AList.delete k (gw_connections w))) + flag c' + flag c"
      by (simp only: ac_simps)
    then have "gg_subscriptions g' - flag c' = of_nat (how_many cn_subscribed (AList.delete k (gw_connections w)))"
      by (simp only: add_right_cancel) simp
    moreover have "gg_connections g' - 1 = of_nat (how_many (\<lambda>_. True) (AList.delete k (gw_connections w)))"
      unfolding turn(2) n how_many_delete [OF wf Some, of "\<lambda>_. True", symmetric] by simp
    ultimately show ?thesis using False t wf
      by (simp add: socket_step_def Some gauges_ok_def close_connection_def Let_def flag_def distinct_delete split: if_splits)
  qed
qed

lemma gateway_step_gauges: "gauges_ok w \<Longrightarrow> gauges_ok (gateway_step L sha debug e w)"
proof (cases e)
  case (GwOpen k fault tok now)
  assume w: "gauges_ok w"
  show ?thesis
  proof (cases "hm_get (gw_connections w) k")
    case None
    note new = how_many_new [OF None, of _ "connection_new s" for s]
    have "\<not> cn_subscribed (connection_new s)" for s by (simp add: connection_new_def)
    with w new None show ?thesis
      by (simp add: GwOpen ws_handler_def gauges_ok_def hm_wf_put del: map_of_eq_None_iff
          split: prod.splits sum.splits)
  qed (use w in \<open>simp add: GwOpen\<close>)
next
  case (GwSocket k ev)
  assume "gauges_ok w"
  then show ?thesis using socket_step_gauges by (simp add: GwSocket)
qed (simp_all add: gauges_ok_def)

interpretation gateway: invariant_machine "gateway_step L sha debug" gauges_ok for L sha debug
  by unfold_locales (rule gateway_step_gauges)

text \<open>
  However connections open, subscribe, unsubscribe, fail and close, the connection gauge
  (a wrapping counter) is the number of open connections and the subscription gauge the number of those
  that are subscribed.
\<close>

theorem gauges_count_connections:
  "gg_connections (gw_gauges (fold (gateway_step L sha debug) es (gateway_start db)))
     = of_nat (how_many (\<lambda>_. True) (gw_connections (fold (gateway_step L sha debug) es (gateway_start db))))
   \<and> gg_subscriptions (gw_gauges (fold (gateway_step L sha debug) es (gateway_start db)))
     = of_nat (how_many cn_subscribed (gw_connections (fold (gateway_step L sha debug) es (gateway_start db))))"
proof -
  have "gauges_ok (gateway_start db)" by (simp add: gauges_ok_def gateway_start_def how_many_def)
  from gateway.run_inv [OF this] show ?thesis by (simp add: gauges_ok_def)
qed


subsection \<open>A connection acts within a grant that was live when it was opened\<close>

lemma first_grant_in: "first_grant gs = Some g \<Longrightarrow> g \<in> set gs"
  by (induction gs arbitrary: g) (auto split: option.splits if_splits)

lemma session_query_row:
  assumes "session_query h now db = (Some (s, g), db')"
  shows "\<exists>r \<in> set (gd_sessions db). session_live h now r \<and> s = touch_session now r"
    and "g \<in> set (gd_grants db)" and "grant_live s now g"
proof -
  let ?touched = "map (touch_session now) (filter (session_live h now) (gd_sessions db))"
  let ?f = "\<lambda>s. map_option (Pair s) (first_grant (filter (grant_live s now) (gd_grants db)))"
  from assms obtain rest where "List.map_filter ?f ?touched = (s, g) # rest"
    by (auto simp: session_query_def Let_def split: list.splits)
  then have "(s, g) \<in> set (List.map_filter ?f ?touched)" by simp
  then have s: "s \<in> set ?touched" and g: "first_grant (filter (grant_live s now) (gd_grants db)) = Some g"
    by (auto simp: map_filter_def)
  show "\<exists>r \<in> set (gd_sessions db). session_live h now r \<and> s = touch_session now r" using s by auto
  show "g \<in> set (gd_grants db)" "grant_live s now g" using first_grant_in [OF g] by auto
qed

text \<open>What a release build accepts, and how the session it returns is related to the rows.\<close>

definition admitted_by :: "string \<Rightarrow> utc_time \<Rightarrow> gateway_db \<Rightarrow> session_info \<Rightarrow> auth_session_row \<Rightarrow> grant_row \<Rightarrow> bool" where
  "admitted_by h now db s r g \<longleftrightarrow>
     r \<in> set (gd_sessions db) \<and> session_live h now r \<and> g \<in> set (gd_grants db)
     \<and> grant_live r now g \<and> s = session_of_row r g"

lemma validate_token_admits:
  assumes "validate_token sha False pool fault tok now db = (Inr s, db')"
  shows "\<exists>h r g. admitted_by h now db s r g"
proof -
  from assms obtain raw where raw: "tok = Some raw" by (cases tok) (auto simp: validate_token_def)
  from assms obtain h r g where q: "session_query h now db = (Some (r, g), db')" "s = session_of_row r g"
    by (fastforce simp: validate_token_def raw Let_def split: option.splits if_splits prod.splits)
  from session_query_row [OF q(1)] obtain r0 where r0: "r0 \<in> set (gd_sessions db)" "session_live h now r0"
    "r = touch_session now r0" "g \<in> set (gd_grants db)" "grant_live r now g" by blast
  have "grant_live r0 now g" using r0(3,5) by (simp add: grant_live_def touch_session_def)
  moreover have "s = session_of_row r0 g" using q(2) r0(3) by (simp add: session_of_row_def touch_session_def)
  ultimately show ?thesis using r0 by (auto simp: admitted_by_def)
qed

lemma validate_token_keeps_checks:
  "db_checks db \<Longrightarrow> db_checks (snd (validate_token sha debug pool fault tok now db))"
proof -
  assume "db_checks db"
  then have "db_checks (snd (session_query h now db))" for h
    by (auto simp: session_query_def db_checks_def list_all_iff touch_session_def Let_def)
  moreover have "snd (validate_token sha debug pool fault tok now db) = db
      \<or> (\<exists>h. snd (validate_token sha debug pool fault tok now db) = snd (session_query h now db))"
  proof (cases tok)
    case (Some raw)
    let ?h = "token_hash sha (case strip_prefix ''Bearer '' raw of Some r \<Rightarrow> r | None \<Rightarrow> raw)"
    obtain q db' where "session_query ?h now db = (q, db')" by force
    then have "snd (validate_token sha debug pool fault tok now db) \<in> {db, snd (session_query ?h now db)}"
      unfolding Some validate_token_def Let_def by (cases fault; cases q) auto
    then show ?thesis by blast
  qed (simp add: validate_token_def)
  ultimately show ?thesis using \<open>db_checks db\<close> by auto
qed

lemma gateway_step_checks: "db_checks (gw_db w) \<Longrightarrow> db_checks (gw_db (gateway_step L sha debug e w))"
proof (cases e)
  case (GwOpen k fault tok now)
  assume "db_checks (gw_db w)"
  from validate_token_keeps_checks [OF this, of sha debug True fault tok now] \<open>db_checks (gw_db w)\<close>
  show ?thesis by (auto simp: GwOpen ws_handler_def split: prod.splits sum.splits)
next
  case (GwValidate fault tok now)
  assume "db_checks (gw_db w)"
  from validate_token_keeps_checks [OF this, of sha debug True fault "Some tok" now]
  show ?thesis by (auto simp: GwValidate validate_handler_def split: prod.splits sum.splits)
next
  case (GwSocket k ev)
  assume "db_checks (gw_db w)"
  then show ?thesis
    by (auto simp: GwSocket socket_step_def close_connection_def Let_def split: option.splits prod.splits)
qed simp

interpretation checked_tables: invariant_machine "gateway_step L sha debug" "\<lambda>w. db_checks (gw_db w)" for L sha debug
  by unfold_locales (rule gateway_step_checks)

text \<open>Where the session of an open connection comes from.\<close>

lemma socket_step_session:
  assumes "hm_get (gw_connections (snd (socket_step L j ev w))) k = Some c"
  shows "\<exists>c0. hm_get (gw_connections w) k = Some c0 \<and> cn_session c = cn_session c0"
proof (cases "hm_get (gw_connections w) j")
  case None
  with assms show ?thesis by (auto simp: socket_step_def)
next
  case (Some c1)
  obtain out go c' g' lg' where t: "socket_turn L ev c1 (gw_gauges w) (gw_audit w) = ((out, go), c', g', lg')"
    by (metis prod.exhaust)
  from assms Some t socket_turn_gauges(3) [OF t] show ?thesis
    by (auto simp: socket_step_def close_connection_def Let_def hm_get_put delete_conv' split: if_splits)
qed

lemma connection_opened:
  assumes "hm_get (gw_connections (fold (gateway_step L sha debug) es (gateway_start db))) k = Some c"
  shows "\<exists>es1 fault tok now es2 db'. es = es1 @ GwOpen k fault tok now # es2
    \<and> validate_token sha debug True fault tok now (gw_db (fold (gateway_step L sha debug) es1 (gateway_start db)))
        = (Inr (cn_session c), db')"
  using assms
proof (induction es arbitrary: c rule: rev_induct)
  case Nil
  then show ?case by (simp add: gateway_start_def)
next
  case (snoc e es)
  let ?w = "fold (gateway_step L sha debug) es (gateway_start db)"
  have kept: ?case if c0: "hm_get (gw_connections ?w) k = Some c0" "cn_session c = cn_session c0" for c0
  proof -
    from snoc.IH [OF c0(1)] obtain es1 fault tok now es2 db' where
      "es = es1 @ GwOpen k fault tok now # es2"
      "validate_token sha debug True fault tok now (gw_db (fold (gateway_step L sha debug) es1 (gateway_start db)))
        = (Inr (cn_session c0), db')" by blast
    with c0(2) show ?thesis
      by (intro exI [of _ es1] exI [of _ fault] exI [of _ tok] exI [of _ now] exI [of _ "es2 @ [e]"] exI [of _ db']) simp
  qed
  show ?case
  proof (cases e)
    case (GwOpen j fault tok now)
    obtain r db' where v: "validate_token sha debug True fault tok now (gw_db ?w) = (r, db')" by force
    show ?thesis
    proof (cases "j = k \<and> (\<exists>s. r = Inr s) \<and> hm_get (gw_connections ?w) j = None")
      case True
      with snoc.prems v GwOpen have "r = Inr (cn_session c)"
        by (auto simp: ws_handler_def hm_get_put connection_new_def simp del: map_of_eq_None_iff)
      with v True GwOpen show ?thesis
        by (intro exI [of _ es] exI [of _ fault] exI [of _ tok] exI [of _ now] exI [of _ "[]"] exI [of _ db']) simp
    next
      case False
      with snoc.prems v GwOpen have "hm_get (gw_connections ?w) k = Some c"
        by (cases r) (auto simp: ws_handler_def hm_get_put simp del: map_of_eq_None_iff split: if_splits)
      then show ?thesis by (rule kept) simp
    qed
  next
    case (GwSocket j ev)
    with snoc.prems obtain c0 where "hm_get (gw_connections ?w) k = Some c0" "cn_session c = cn_session c0"
      using socket_step_session [of L j ev ?w k c] by auto
    then show ?thesis by (rule kept)
  next
    case (GwValidate fault tok now)
    with snoc.prems have "hm_get (gw_connections ?w) k = Some c" by simp
    then show ?thesis by (rule kept) simp
  next
    case (GwDatabase db')
    with snoc.prems have "hm_get (gw_connections ?w) k = Some c" by (simp split: if_splits)
    then show ?thesis by (rule kept) simp
  qed
qed

lemma as_u8_tier: "1 \<le> i \<Longrightarrow> i \<le> 5 \<Longrightarrow> int (as_u8 i) = i"
  by (simp add: as_u8_def)

lemma tier_try_from_number: "tier_try_from n = Inr t \<Longrightarrow> tier_number t = n"
  by (auto simp: tier_try_from_def split: if_splits)

lemma session_may_bounded:
  assumes "session_may (session_of_row r g) a u v" "1 \<le> sn_tier r" "sn_tier r \<le> 5" "1 \<le> gt_tier g" "gt_tier g \<le> 5"
  shows "int (tier_number (minimum_tier a)) \<le> sn_tier r \<and> int (tier_number (minimum_tier a)) \<le> gt_tier g
    \<and> (json_get ''allowed'' (gt_scopes g) = None \<or> scope a \<in> allowed_scopes (gt_scopes g))"
proof -
  from assms(1) obtain t where t: "tier_try_from (as_u8 (min (sn_tier r) (gt_tier g))) = Inr t" "minimum_tier a \<le> t"
    and sc: "json_get ''allowed'' (gt_scopes g) \<noteq> None \<longrightarrow> scope a \<in> allowed_scopes (gt_scopes g)"
    by (auto simp: session_may_def session_of_row_def)
  have "int (tier_number t) = min (sn_tier r) (gt_tier g)"
    unfolding tier_try_from_number [OF t(1)] by (rule as_u8_tier) (use assms in auto)
  moreover have "tier_number (minimum_tier a) \<le> tier_number t" using t(2) by (simp add: less_eq_tier_def)
  ultimately show ?thesis using sc by auto
qed

text \<open>
  Property C27. In a release build, whatever a connection may do at any point of a run was granted when
  it was opened: the tables then held a session that was neither expired nor revoked and a live grant
  of its user, both of a tier that reaches the action's minimum, and the grant listed the action's
  scope if it lists any.
\<close>

theorem connections_act_within_live_grant:
  assumes "db_checks db"
    and "hm_get (gw_connections (fold (gateway_step L sha False) es (gateway_start db))) k = Some c"
    and "session_may (cn_session c) a u v"
  shows "\<exists>es1 fault tok now es2 h r g. es = es1 @ GwOpen k fault tok now # es2
    \<and> admitted_by h now (gw_db (fold (gateway_step L sha False) es1 (gateway_start db))) (cn_session c) r g
    \<and> int (tier_number (minimum_tier a)) \<le> sn_tier r \<and> int (tier_number (minimum_tier a)) \<le> gt_tier g
    \<and> (json_get ''allowed'' (gt_scopes g) = None \<or> scope a \<in> allowed_scopes (gt_scopes g))"
proof -
  from connection_opened [OF assms(2)] obtain es1 fault tok now es2 db' where es: "es = es1 @ GwOpen k fault tok now # es2"
    and v: "validate_token sha False True fault tok now (gw_db (fold (gateway_step L sha False) es1 (gateway_start db)))
      = (Inr (cn_session c), db')" by blast
  from validate_token_admits [OF v] obtain h r g where
    ad: "admitted_by h now (gw_db (fold (gateway_step L sha False) es1 (gateway_start db))) (cn_session c) r g" by blast
  have "db_checks (gw_db (gateway_start db))" using assms(1) by (simp add: gateway_start_def)
  from checked_tables.run_inv [OF this]
  have checks: "db_checks (gw_db (fold (gateway_step L sha False) es1 (gateway_start db)))" .
  from ad have "cn_session c = session_of_row r g" by (simp add: admitted_by_def)
  with assms(3) have may: "session_may (session_of_row r g) a u v" by simp
  have "1 \<le> sn_tier r" "sn_tier r \<le> 5" "1 \<le> gt_tier g" "gt_tier g \<le> 5"
    using ad checks by (auto simp: admitted_by_def db_checks_def list_all_iff)
  from session_may_bounded [OF may this] es ad show ?thesis by blast
qed


subsection \<open>Refused subscriptions and revoked sessions\<close>

text \<open>The database is not looked at again while a connection is open: no change of the tables,
  a revocation included, changes what the connection is answered.\<close>

theorem open_connection_ignores_tables:
  "fst (socket_step L k ev (w\<lparr>gw_db := db'\<rparr>)) = fst (socket_step L k ev w)"
  by (auto simp: socket_step_def Let_def split: option.splits prod.splits)

definition both_turns ::
  "gateway_lib \<Rightarrow> nat \<Rightarrow> socket_event \<Rightarrow> socket_event \<Rightarrow> gateway_world \<Rightarrow> outgoing list" where
  "both_turns L k ev1 ev2 w =
     (case socket_step L k ev1 w of (out1, w1) \<Rightarrow> (case socket_step L k ev2 w1 of (out2, _) \<Rightarrow> out1 @ out2))"

text \<open>
  The loop subscribes the connection before it asks whether the session may subscribe: a
  session that may not is answered with an error, and is nevertheless sent the next broadcast.
\<close>

theorem refused_subscriber_is_served:
  assumes "hm_get (gw_connections w) k = Some c" "\<not> session_may (cn_session c) Subscribe False False"
  shows "\<exists>e. both_turns L k (WsFrame E (CfSubscribe i t channels) True) (WsBroadcast m True) w
    = [SendFrame (SfError i (make_trace_id E i t) e), SendText m]"
proof -
  obtain d lg' where d: "authorize_session E (cn_session c) Subscribe False False (gw_audit w) = (d, lg')" by force
  with assms(2) have "de_verdict d \<noteq> VAllow" by (auto dest: authorize_allowed)
  with d assms(1) show ?thesis
    by (cases "cn_subscribed c")
      (auto simp: both_turns_def socket_step_def socket_turn_def manage_subscription_def answer_if_allowed_def
        permission_error_def hm_get_put Let_def simp del: map_of_eq_None_iff)
qed

subsection \<open>Witnesses\<close>

definition wit_session_row :: auth_session_row where
  "wit_session_row = \<lparr>sn_id = ''s'', sn_user_id = ''u'', sn_tier = 4, sn_origin_kind = ''human'', sn_device_label = None,
     sn_token_hash = ''07'', sn_expires_ts = 100, sn_idle_expires_ts = 50, sn_last_seen_ts = None, sn_revoked_ts = None,
     sn_updated_ts = 0\<rparr>"

definition wit_grant_row :: "json \<Rightarrow> grant_row" where
  "wit_grant_row scopes = \<lparr>gt_id = ''g'', gt_actor_id = ''u'', gt_actor_kind = ''human'', gt_tier = 3, gt_scopes = scopes,
     gt_expires_ts = None, gt_revoked_ts = None\<rparr>"

definition wit_gateway_db :: "json \<Rightarrow> gateway_db" where
  "wit_gateway_db scopes = \<lparr>gd_sessions = [wit_session_row], gd_grants = [wit_grant_row scopes]\<rparr>"

definition wit_open :: "json \<Rightarrow> gateway_world" where
  "wit_open scopes = fold (gateway_step wit_lib (\<lambda>_. [7]) False) [GwOpen 0 None (Some ''Bearer t'') 5] (gateway_start (wit_gateway_db scopes))"

lemma wit_opened:
  "hm_get (gw_connections (wit_open scopes)) 0 = Some (connection_new (session_of_row wit_session_row (wit_grant_row scopes)))"
proof -
  have hash: "token_hash (\<lambda>_. [7]) t = ''07''" for t by code_simp
  have live: "session_live ''07'' 5 wit_session_row" "grant_live (touch_session 5 wit_session_row) 5 (wit_grant_row scopes)"
    by (simp_all add: session_live_def wit_session_row_def grant_live_def touch_session_def wit_grant_row_def)
  have same: "session_of_row (touch_session 5 wit_session_row) g = session_of_row wit_session_row g" for g
    by (simp add: session_of_row_def touch_session_def)
  show ?thesis
    by (simp add: wit_open_def gateway_start_def wit_gateway_db_def ws_handler_def validate_token_def hash Let_def
        session_query_def live map_filter_def same)
qed

lemma wit_may: "session_may (session_of_row wit_session_row (wit_grant_row scopes)) Subscribe False False
    \<longleftrightarrow> (json_get ''allowed'' scopes = None \<or> ''stream.subscribe'' \<in> allowed_scopes scopes)"
  by (auto simp: session_may_def session_of_row_def wit_session_row_def wit_grant_row_def session_actor_kind_def
      as_u8_def tier_try_from_def hard_denied_def less_eq_tier_def always_requires_step_up_def needs_confirmation_def
      is_mutating_def)

theorem connections_act_within_live_grant_witness:
  "\<exists>es1 fault tok now es2 h r g. [GwOpen 0 None (Some ''Bearer t'') 5] = es1 @ GwOpen 0 fault tok now # es2
    \<and> admitted_by h now (gw_db (fold (gateway_step wit_lib (\<lambda>_. [7]) False) es1 (gateway_start (wit_gateway_db JNull))))
        (session_of_row wit_session_row (wit_grant_row JNull)) r g
    \<and> int (tier_number (minimum_tier Subscribe)) \<le> sn_tier r \<and> int (tier_number (minimum_tier Subscribe)) \<le> gt_tier g
    \<and> (json_get ''allowed'' (gt_scopes g) = None \<or> scope Subscribe \<in> allowed_scopes (gt_scopes g))"
proof -
  have "db_checks (wit_gateway_db JNull)"
    by (simp add: db_checks_def wit_gateway_db_def wit_session_row_def wit_grant_row_def)
  moreover have "session_may (cn_session (connection_new (session_of_row wit_session_row (wit_grant_row JNull)))) Subscribe False False"
    by (simp add: connection_new_def wit_may)
  ultimately show ?thesis
    using connections_act_within_live_grant [OF _ wit_opened [of JNull, unfolded wit_open_def], of Subscribe False False]
    by (simp add: connection_new_def)
qed

theorem refused_subscriber_is_served_witness:
  "\<exists>e. both_turns wit_lib 0 (WsFrame (wit_frame_env 6) (CfSubscribe None None []) True) (WsBroadcast ''quote'' True)
      (wit_open (JObject [(''allowed'', JArray [])]))
    = [SendFrame (SfError None (make_trace_id (wit_frame_env 6) None None) e), SendText ''quote'']"
  by (rule refused_subscriber_is_served [OF wit_opened])
    (simp add: connection_new_def wit_may allowed_scopes_def map_filter_def)

end
