(* ===== verification/Gateway_Services.thy ===== *)
theory Gateway_Services
  imports Gateway_Session Scanner_Lifecycle Bus_Messages
begin

text \<open>
  The other services of the gateway (\<^verbatim>\<open>crates/aether-gateway\<close>): the feed, which surfaces scored
  opportunities and broadcasts them (\<^verbatim>\<open>feed.rs\<close>, the consumer loop of \<^verbatim>\<open>main.rs\<close>), the proxy to the
  control plane (\<^verbatim>\<open>lib.rs\<close>) and the probes (\<^verbatim>\<open>health.rs\<close>). The lemmas show that a feed frame goes out
  only for an opportunity that is stored as surfaced, that a failed delivery is not acknowledged, and
  that the proxy talks to nothing but the loopback service it was configured with.
\<close>

subsection \<open>Surfacing an opportunity (feed.rs)\<close>

datatype 'k feed_error =
    FeDatabase "'k lifecycle_error"
  | FeSerialization
  | FeMissingOpportunity ulid

definition surface_detail :: json where
  "surface_detail = JObject [(''delivery'', JString ''websocket_feed'')]"

definition feed_frame :: "gateway_lib \<Rightarrow> opportunity \<Rightarrow> json \<Rightarrow> server_frame" where
  "feed_frame L opp body = SfFeedItem (Some (gl_show_ulid L (op_id opp))) (Some (gl_show_ulid L (op_trace_id opp))) body"

text \<open>The transaction; \<open>eid\<close> is a fresh event id and \<open>to_json\<close> the encoder. \<open>None\<close> is the rollback of a
  delivery that came too late.\<close>

definition surface_tx ::
  "gateway_lib \<Rightarrow> (opportunity \<Rightarrow> json option) \<Rightarrow> ulid \<Rightarrow> opportunity \<Rightarrow> lifecycle_db
     \<Rightarrow> 'k feed_error + server_frame option \<times> lifecycle_db" where
  "surface_tx L to_json eid opp db =
     and_then (ok_or (FeMissingOpportunity (op_id opp)) (find_row (op_id opp) db)) (\<lambda>r.
       if ow_state r \<noteq> Scored \<and> ow_state r \<noteq> Surfaced then Inr (None, db)
       else
         and_then (if ow_state r = Scored
                   then map_err FeDatabase (append_transition eid (op_id opp) Scored Surfaced ''gateway'' surface_detail db)
                   else Inr db) (\<lambda>db1.
         and_then (ok_or FeSerialization (to_json opp)) (\<lambda>body. Inr (Some (feed_frame L opp body), db1))))"

text \<open>After the commit the frame is broadcast; without a receiver it is dropped.\<close>

definition surface_opportunity ::
  "gateway_lib \<Rightarrow> (opportunity \<Rightarrow> json option) \<Rightarrow> ulid \<Rightarrow> opportunity \<Rightarrow> lifecycle_db \<times> server_frame list
     \<Rightarrow> ('k feed_error + bool) \<times> lifecycle_db \<times> server_frame list" where
  "surface_opportunity L to_json eid opp = (\<lambda>(db, sent).
     (case commit_tx (surface_tx L to_json eid opp) db of
        (Inl e, db') \<Rightarrow> (Inl e, db', sent)
      | (Inr None, db') \<Rightarrow> (Inr False, db', sent)
      | (Inr (Some f), db') \<Rightarrow> (Inr True, db', sent @ [f])))"

subsection \<open>The consumer of opportunities (main.rs)\<close>

fun surface_all ::
  "gateway_lib \<Rightarrow> (opportunity \<Rightarrow> json option) \<Rightarrow> (nat \<Rightarrow> ulid) \<Rightarrow> opportunity envelope list \<Rightarrow> lifecycle_db \<times> server_frame list
     \<Rightarrow> ('k feed_error + unit) \<times> lifecycle_db \<times> server_frame list" where
  "surface_all L to_json ids [] s = (Inr (), s)"
| "surface_all L to_json ids (e # es) s =
     then_do (surface_opportunity L to_json (ids (length es)) (ev_payload e)) (\<lambda>_. surface_all L to_json ids es) s"

datatype 'k gateway_loop_error = GlConsumer "'k consumer_error" | GlFeed "'k feed_error"

text \<open>One round of the loop: consume, surface every envelope, acknowledge, commit. Any error ends the loop.\<close>

definition consume_round ::
  "('k, quarantine_message envelope, 'p) producer \<Rightarrow> ('k, 'o) object_store \<Rightarrow> 'c kafka_client \<Rightarrow> (nat \<Rightarrow> quarantine_env)
     \<Rightarrow> (u8 list \<Rightarrow> string + opportunity envelope) \<Rightarrow> gateway_lib \<Rightarrow> (opportunity \<Rightarrow> json option) \<Rightarrow> (nat \<Rightarrow> ulid) \<Rightarrow> poll list
     \<Rightarrow> ('p, 'o, 'c) kafka_consumer \<times> lifecycle_db \<times> server_frame list
     \<Rightarrow> ('k gateway_loop_error + unit) \<times> ('p, 'o, 'c) kafka_consumer \<times> lifecycle_db \<times> server_frame list" where
  "consume_round send store K V decode L to_json ids polls = (\<lambda>(c, s).
     (case consume send store K V decode polls c of
        (Inl e, c1) \<Rightarrow> (Inl (GlConsumer e), c1, s)
      | (Inr es, c1) \<Rightarrow>
          (case surface_all L to_json ids es s of
             (Inl e, s1) \<Rightarrow> (Inl (GlFeed e), c1, s1)
           | (Inr _, s1) \<Rightarrow>
               (case then_do (consumer_ack K) (\<lambda>_. commit_sync K) c1 of
                  (Inl e, c2) \<Rightarrow> (Inl (GlConsumer e), c2, s1)
                | (Inr _, c2) \<Rightarrow> (Inr (), c2, s1)))))"

subsection \<open>What the feed promises\<close>

lemma find_changed_row:
  "find (\<lambda>r. ow_id r = i) (map (\<lambda>r. if ow_id r = i then r\<lparr>ow_state := to\<rparr> else r) rs)
    = map_option (\<lambda>r. r\<lparr>ow_state := to\<rparr>) (find (\<lambda>r. ow_id r = i) rs)"
  by (induction rs) auto

lemma append_transition_finds:
  "append_transition eid i from to actor detail db = Inr db' \<Longrightarrow> \<exists>r. find_row i db' = Some r \<and> ow_state r = to"
  by (auto simp: append_transition_def find_row_def update_row_def find_changed_row split: option.splits if_splits)

text \<open>
  Surfacing an opportunity either changes nothing and broadcasts nothing (an error, or a
  chain that has already gone further), or broadcasts exactly one frame for an opportunity that the
  committed table says is surfaced, moved there by a transition that the store accepted unless it was
  there already.
\<close>

theorem feed_frame_is_surfaced:
  "case (surface_opportunity L to_json eid opp (db, sent) :: ('k feed_error + bool) \<times> _) of
     (Inl e, db', sent') \<Rightarrow> db' = db \<and> sent' = sent
   | (Inr False, db', sent') \<Rightarrow> db' = db \<and> sent' = sent
       \<and> (\<exists>r. find_row (op_id opp) db = Some r \<and> ow_state r \<notin> {Scored, Surfaced})
   | (Inr True, db', sent') \<Rightarrow>
       (\<exists>body. to_json opp = Some body \<and> sent' = sent @ [feed_frame L opp body])
       \<and> (\<exists>r. find_row (op_id opp) db' = Some r \<and> ow_state r = Surfaced)
       \<and> (db' = db \<or> append_transition eid (op_id opp) Scored Surfaced ''gateway'' surface_detail db
             = (Inr db' :: 'k lifecycle_error + lifecycle_db))"
proof (cases "find_row (op_id opp) db")
  case None
  then show ?thesis by (simp add: surface_opportunity_def commit_tx_def surface_tx_def)
next
  case r: (Some r)
  note defs = surface_opportunity_def commit_tx_def surface_tx_def
  consider "ow_state r = Scored" | "ow_state r = Surfaced" | "ow_state r \<notin> {Scored, Surfaced}" by blast
  then show ?thesis
  proof cases
    case 1
    show ?thesis
    proof (cases "append_transition eid (op_id opp) Scored Surfaced ''gateway'' surface_detail db :: 'k lifecycle_error + _")
      case (Inl e)
      with r 1 show ?thesis by (simp add: defs)
    next
      case (Inr db1)
      with r 1 append_transition_finds [OF Inr] show ?thesis
        by (cases "to_json opp") (simp_all add: defs)
    qed
  qed (use r in \<open>cases "to_json opp"; simp add: defs\<close>)+
qed

lemma surface_opportunity_steps:
  assumes "surface_opportunity L to_json eid opp (db, sent) = ((r :: unit feed_error + bool), db', sent')"
  shows "db' = db \<or> db' = lifecycle_apply (LsEvent eid (op_id opp) Scored Surfaced ''gateway'' surface_detail) db"
proof -
  from assms obtain res where "commit_tx (surface_tx L to_json eid opp) db
      = ((res :: unit feed_error + server_frame option), db')"
    by (auto simp: surface_opportunity_def split: prod.splits sum.splits option.splits)
  then show ?thesis
    by (auto simp: commit_tx_def surface_tx_def ok_or_def and_then_def keep_on_error_def map_err_def
        split: sum.splits option.splits if_splits)
qed

lemma surface_opportunity_inv:
  assumes "surface_opportunity L to_json eid opp (db, sent) = ((r :: unit feed_error + bool), db', sent')" "lifecycle_inv db"
  shows "lifecycle_inv db'"
  using surface_opportunity_steps [OF assms(1)]
proof
  assume "db' = lifecycle_apply (LsEvent eid (op_id opp) Scored Surfaced ''gateway'' surface_detail) db"
  then show ?thesis using lifecycle_apply_inv [OF assms(2)] by (simp only:)
qed (use assms(2) in simp)

text \<open>A message is acknowledged after its opportunity has been surfaced: when surfacing fails, the client's
  offsets are as they were and the message's own is still pending, so it is delivered again.\<close>

theorem failed_surface_not_acknowledged:
  assumes "deserialize_envelope decode m = Inr e"
    and "surface_all L to_json ids [e] s = (Inl err, s1)"
  shows "case consume_round send store K V decode L to_json ids [PollMessage m] (c, s) of
    (r, c', s') \<Rightarrow> r = Inl (GlFeed err) \<and> s' = s1 \<and> kq_client c' = kq_client c
      \<and> kq_pending_offsets c' = kq_pending_offsets c @ [(km_topic m, km_partition m, km_offset m + 1)]"
  using assms by (simp add: consume_round_def)


subsection \<open>The proxy to the control plane (lib.rs)\<close>

text \<open>A parsed URL. The parser and the encoding of a path are the URL library's.\<close>

record url =
  ur_scheme :: string
  ur_username :: string
  ur_password :: "string option"
  ur_host :: "string option"
  ur_port :: "nat option"
  ur_path :: string
  ur_query :: "string option"

definition validate_mcp_base_url :: "(string \<Rightarrow> url option) \<Rightarrow> string \<Rightarrow> string + url" where
  "validate_mcp_base_url parse raw =
     and_then (ok_or ''AETHER_MCP__URL must be a valid URL'' (parse raw)) (\<lambda>u.
       if ur_scheme u \<noteq> ''http'' then Inl ''AETHER_MCP__URL must use http on loopback''
       else if ur_username u \<noteq> [] \<or> ur_password u \<noteq> None
       then Inl ''AETHER_MCP__URL must not contain credentials''
       else if \<not> (ur_host u = Some ''127.0.0.1'' \<or> ur_host u = Some ''localhost'' \<or> ur_host u = Some ''::1'')
       then Inl ''AETHER_MCP__URL must target loopback''
       else if ur_path u \<noteq> ''/'' \<and> ur_path u \<noteq> [] then Inl ''AETHER_MCP__URL must not contain a path''
       else Inr (u\<lparr>ur_path := ''/''\<rparr>))"

record proxy_request =
  px_method :: string
  px_path :: string
  px_query :: "string option"
  px_headers :: "(string \<times> string) list"
  px_body :: "u8 list"

record upstream_request =
  ux_method :: string
  ux_url :: url
  ux_headers :: "(string \<times> string) list"
  ux_body :: "u8 list"

record http_response =
  hr_status :: nat
  hr_content_type :: "string option"
  hr_body :: "u8 list"

definition max_mcp_request_bytes :: nat where
  "max_mcp_request_bytes = 1048576"

definition forwarded_headers :: "(string \<times> string) list \<Rightarrow> (string \<times> string) list" where
  "forwarded_headers hs =
     List.map_filter (\<lambda>name. map_option (Pair name) (hm_get hs name)) [''authorization'', ''content-type'', ''accept'']"

text \<open>\<open>encode\<close> is what setting a path does to it; \<open>send\<close> is the client, \<open>Inl\<close> when the service cannot
  be reached.\<close>

definition proxy_mcp ::
  "(string \<Rightarrow> string) \<Rightarrow> (upstream_request \<Rightarrow> 's \<Rightarrow> (unit + http_response) \<times> 's) \<Rightarrow> url \<Rightarrow> proxy_request \<Rightarrow> 's
     \<Rightarrow> http_response \<times> 's" where
  "proxy_mcp encode send base q s =
     (if px_method q \<noteq> ''GET'' \<and> px_method q \<noteq> ''POST''
      then (\<lparr>hr_status = 405, hr_content_type = None, hr_body = []\<rparr>, s)
      else if max_mcp_request_bytes < length (px_body q)
      then (\<lparr>hr_status = 413, hr_content_type = Some ''text/plain; charset=utf-8'',
              hr_body = as_bytes ''MCP request body too large''\<rparr>, s)
      else
        let target = base\<lparr>ur_path := encode (CHR ''/'' # dropWhile (\<lambda>c. c = CHR ''/'') (px_path q)), ur_query := px_query q\<rparr>
        in (case send \<lparr>ux_method = px_method q, ux_url = target, ux_headers = forwarded_headers (px_headers q),
                       ux_body = px_body q\<rparr> s of
              (Inl _, s') \<Rightarrow>
                (\<lparr>hr_status = 502, hr_content_type = Some ''text/plain; charset=utf-8'',
                   hr_body = as_bytes ''MCP service unavailable''\<rparr>, s')
            | (Inr r, s') \<Rightarrow> (r, s')))"

text \<open>A client that keeps what it was asked to send.\<close>

definition recording ::
  "(upstream_request \<Rightarrow> unit + http_response) \<Rightarrow> upstream_request \<Rightarrow> upstream_request list
     \<Rightarrow> (unit + http_response) \<times> upstream_request list" where
  "recording answer r sent = (answer r, sent @ [r])"

lemma picked_entries: "(n, v) \<in> set (List.map_filter (\<lambda>x. map_option (Pair x) (m x)) xs) \<longleftrightarrow> n \<in> set xs \<and> m n = Some v"
  by (induction xs) (auto simp: map_filter_simps split: option.splits)

lemma forwarded_headers_names: "(n, v) \<in> set (forwarded_headers hs) \<Longrightarrow>
    n \<in> {''authorization'', ''content-type'', ''accept''} \<and> hm_get hs n = Some v"
  unfolding forwarded_headers_def picked_entries by simp

text \<open>Whatever the request, the proxy sends at most one request upstream; it goes to the loopback host
  over http with the configured credentials (none) and port, carries at most three of the client's headers
  and a body of at most a mebibyte.\<close>

theorem proxy_stays_on_loopback:
  assumes "validate_mcp_base_url parse raw = Inr base"
    and "snd (proxy_mcp encode (recording answer) base q []) = sent"
  shows "length sent \<le> 1 \<and> list_all (\<lambda>r. ur_scheme (ux_url r) = ''http''
      \<and> ur_host (ux_url r) \<in> {Some ''127.0.0.1'', Some ''localhost'', Some ''::1''}
      \<and> ur_username (ux_url r) = [] \<and> ur_password (ux_url r) = None \<and> ur_port (ux_url r) = ur_port base
      \<and> length (ux_body r) \<le> max_mcp_request_bytes
      \<and> list_all (\<lambda>(n, v). n \<in> {''authorization'', ''content-type'', ''accept''} \<and> hm_get (px_headers q) n = Some v) (ux_headers r)) sent"
proof -
  have base: "ur_scheme base = ''http''" "ur_host base \<in> {Some ''127.0.0.1'', Some ''localhost'', Some ''::1''}"
    "ur_username base = []" "ur_password base = None"
    using assms(1) by (auto simp: validate_mcp_base_url_def result_iffs split: if_splits)
  have names: "list_all (\<lambda>(n, v). n \<in> {''authorization'', ''content-type'', ''accept''} \<and> hm_get (px_headers q) n = Some v)
      (forwarded_headers (px_headers q))"
    unfolding list_all_iff using forwarded_headers_names by fast
  have answered: "snd (case a of Inl u \<Rightarrow> (x, l) | Inr y \<Rightarrow> (y, l)) = l"
    for a :: "unit + http_response" and x and l :: "upstream_request list" by (cases a) simp_all
  let ?r = "\<lparr>ux_method = px_method q,
    ux_url = base\<lparr>ur_path := encode (CHR ''/'' # dropWhile (\<lambda>c. c = CHR ''/'') (px_path q)), ur_query := px_query q\<rparr>,
    ux_headers = forwarded_headers (px_headers q), ux_body = px_body q\<rparr>"
  have "sent = [] \<or> sent = [?r] \<and> length (px_body q) \<le> max_mcp_request_bytes"
    unfolding assms(2) [symmetric]
    by (simp add: proxy_mcp_def recording_def Let_def answered)
  then show ?thesis using base names by (elim disjE conjE) simp_all
qed

subsection \<open>Probes (health.rs)\<close>

record readiness_response =
  rd_status :: string
  rd_service :: string
  rd_database :: string

definition healthz :: "string \<times> string" where
  "healthz = (''ok'', ''gateway'')"

text \<open>\<open>probe\<close> is the result of \<^verbatim>\<open>SELECT 1\<close>.\<close>

definition readyz :: "string + int \<Rightarrow> nat \<times> readiness_response" where
  "readyz probe =
     (let db_status = (case probe of
            Inr n \<Rightarrow> if n = 1 then ''ok'' else ''degraded''
          | Inl _ \<Rightarrow> ''unreachable'')
      in (if db_status = ''ok'' then 200 else 503,
          \<lparr>rd_status = (if db_status = ''ok'' then ''ok'' else ''degraded''), rd_service = ''gateway'', rd_database = db_status\<rparr>))"

definition metric_lines :: "string \<Rightarrow> string \<Rightarrow> string \<Rightarrow> u64 \<Rightarrow> string" where
  "metric_lines name help kind n =
     ''# HELP '' @ name @ '' '' @ help @ [CHR 0x0A] @ ''# TYPE '' @ name @ '' '' @ kind @ [CHR 0x0A]
       @ name @ '' '' @ show_nat (unat n) @ [CHR 0x0A]"

definition gateway_metrics :: "gateway_gauges \<Rightarrow> string" where
  "gateway_metrics g =
     metric_lines ''gateway_connections_total'' ''Current WebSocket connections'' ''gauge'' (gg_connections g)
     @ metric_lines ''gateway_subscriptions_total'' ''Current active subscriptions'' ''gauge'' (gg_subscriptions g)
     @ metric_lines ''gateway_unknown_frames_total'' ''Total unknown/rejected frames'' ''counter'' (gg_unknown_frames g)"

lemma ready_iff: "fst (readyz probe) = 200 \<longleftrightarrow> probe = Inr 1"
  by (auto simp: readyz_def Let_def split: sum.splits)

end
