(* ===== verification/Paper_Store.thy ===== *)
theory Paper_Store
  imports Paper_Ledger Scanner_Lifecycle "HOL-Library.Multiset"
begin

text \<open>
  The durable paper ledger (\<^verbatim>\<open>connectors/execution/paper-ledger/src/persistence.rs\<close>, on the tables of
  migrations 0008 to 0011 and 0031): the transaction that stores an execution, the replay of a stored
  one, the outbox of fills and the close of an opportunity with its attribution. The lemmas show that
  the stored positions are what the position tracker makes of the stored fills, that a stored
  execution is replayed with its own fills, and that two transactions that open a position at the same
  time lose one of them. A panic of a \<^verbatim>\<open>Decimal\<close> operator ends the caller and rolls back as an error
  does, and is the error \<open>PePanic\<close>.
\<close>

subsection \<open>Tables\<close>

record intent_row =
  ni_id :: ulid
  ni_market :: string
  ni_side :: string
  ni_order_type :: string
  ni_limit_price :: "decimal option"
  ni_size :: decimal
  ni_size_unit :: string
  ni_tif :: string
  ni_paper :: bool
  ni_origin :: origin
  ni_quote_snapshot :: quote
  ni_caps_version :: ulid
  ni_state :: string
  ni_created_ts :: utc_time

record order_row =
  nr_order_id :: ulid
  nr_intent_id :: ulid
  nr_market :: string
  nr_side :: string
  nr_price :: decimal
  nr_size :: decimal
  nr_fee_amount :: decimal
  nr_fee_currency :: string
  nr_venue_ref :: json
  nr_ts :: utc_time
  nr_state :: string
  nr_paper :: bool

record fill_row =
  nf_id :: ulid
  nf_order_id :: ulid
  nf_market :: string
  nf_side :: string
  nf_price :: decimal
  nf_size :: decimal
  nf_fee_amount :: decimal
  nf_fee_currency :: string
  nf_venue_ref :: json
  nf_ts :: utc_time
  nf_paper :: bool
  nf_created_ts :: utc_time

record fill_outbox_row =
  nx_fill_id :: ulid
  nx_order_id :: ulid
  nx_market :: string
  nx_payload :: fill
  nx_published_ts :: "utc_time option"
  nx_created_ts :: utc_time

record position_row =
  np_side_exposure :: decimal
  np_avg_price :: decimal
  np_size :: decimal
  np_realized_pnl :: decimal
  np_currency :: string
  np_unrealized_pnl :: rat
  np_ts :: utc_time

text \<open>\<open>pd_positions\<close> holds the paper positions (the live ones have their own key), \<open>pd_mids\<close> the midpoints
  of \<^verbatim>\<open>quotes_latest\<close>, and \<open>pd_markets\<close> the keys that the foreign keys refer to.\<close>

record paper_db =
  pd_intents :: "intent_row list"
  pd_orders :: "order_row list"
  pd_fills :: "fill_row list"
  pd_outbox :: "fill_outbox_row list"
  pd_positions :: "(string, position_row) hash_map"
  pd_mids :: "(string, decimal option) hash_map"
  pd_markets :: "string list"

datatype persistence_error =
    PeDatabase string
  | PeInvalid message
  | PeInvalidOpportunityState ulid string string
  | PePanic

datatype persist_outcome = Inserted | AlreadyExists

primrec side_name :: "side \<Rightarrow> string" where
  "side_name Buy = ''buy''"
| "side_name Sell = ''sell''"
| "side_name BuyNo = ''buy_no''"
| "side_name SellNo = ''sell_no''"

definition parse_side :: "string \<Rightarrow> persistence_error + side" where
  "parse_side s =
     (if s = ''buy'' then Inr Buy else if s = ''sell'' then Inr Sell
      else if s = ''buy_no'' then Inr BuyNo else if s = ''sell_no'' then Inr SellNo
      else Inl (PeInvalid (Lit (''unknown durable side: '' @ s))))"

primrec status_name :: "order_status \<Rightarrow> string" where
  "status_name order_status.Accepted = ''open''"
| "status_name PartiallyFilled = ''partial''"
| "status_name Filled = ''filled''"
| "status_name Cancelled = ''cancelled''"
| "status_name Rejected = ''rejected''"

subsection \<open>Storing an execution\<close>

definition intent_row_of :: "order_intent \<Rightarrow> intent_row" where
  "intent_row_of it =
     \<lparr>ni_id = oi_id it, ni_market = key_str (oi_market it), ni_side = side_name (oi_side it),
       ni_order_type = to_lower (debug_order_type (oi_order_type it)), ni_limit_price = oi_limit_price it,
       ni_size = oi_size it, ni_size_unit = to_lower (debug_size_unit (oi_size_unit it)),
       ni_tif = to_lower (debug_tif (oi_tif it)), ni_paper = True, ni_origin = oi_origin it,
       ni_quote_snapshot = oi_quote_snapshot it, ni_caps_version = oi_caps_version it, ni_state = ''pending'',
       ni_created_ts = oi_created_ts it\<rparr>"

definition check_market :: "string \<Rightarrow> paper_db \<Rightarrow> persistence_error + unit" where
  "check_market m db = (if m \<in> set (pd_markets db) then Inr () else Inl (PeDatabase ''unknown market''))"

definition insert_intent :: "order_intent \<Rightarrow> paper_db \<Rightarrow> persistence_error + paper_db" where
  "insert_intent it db =
     (if \<exists>r \<in> set (pd_intents db). ni_id r = oi_id it then Inr db
      else and_then (check_market (key_str (oi_market it)) db) (\<lambda>_.
             Inr (db\<lparr>pd_intents := pd_intents db @ [intent_row_of it]\<rparr>)))"

definition or_panic :: "'a option \<Rightarrow> persistence_error + 'a" where
  "or_panic v = ok_or PePanic v"

fun sum_notional :: "dec_ops \<Rightarrow> decimal \<Rightarrow> fill list \<Rightarrow> decimal option" where
  "sum_notional D acc [] = Some acc"
| "sum_notional D acc (f # fs) =
     Option.bind (dec_mul D (f_price f) (f_size f)) (\<lambda>n.
     Option.bind (dec_add D acc n) (\<lambda>acc'. sum_notional D acc' fs))"

text \<open>Total size, average price and qty fee.\<close>

definition order_totals :: "dec_ops \<Rightarrow> fill list \<Rightarrow> persistence_error + decimal \<times> decimal \<times> decimal" where
  "order_totals D fills =
     and_then (or_panic (dec_add_all D 0 (map f_size fills))) (\<lambda>qty.
     and_then (or_panic (sum_notional D 0 fills)) (\<lambda>notional.
     and_then (or_panic (if qty = 0 then None else dec_div D notional qty)) (\<lambda>price.
     and_then (or_panic (dec_add_all D 0 (map (\<lambda>f. amount (f_fee f)) fills))) (\<lambda>fee.
       Inr (qty, price, fee)))))"

definition order_row_of :: "ledger_order \<Rightarrow> fill list \<Rightarrow> decimal \<Rightarrow> decimal \<Rightarrow> decimal \<Rightarrow> order_row" where
  "order_row_of ord fills qty price fee =
     \<lparr>nr_order_id = lo_order_id ord, nr_intent_id = oi_id (lo_intent ord),
       nr_market = key_str (oi_market (lo_intent ord)), nr_side = side_name (oi_side (lo_intent ord)),
       nr_price = price, nr_size = qty, nr_fee_amount = fee, nr_fee_currency = currency (f_fee (hd fills)),
       nr_venue_ref = f_venue_ref (hd fills), nr_ts = lo_updated_ts ord, nr_state = status_name (lo_status ord),
       nr_paper = True\<rparr>"

definition fill_row_of :: "ulid \<Rightarrow> utc_time \<Rightarrow> fill \<Rightarrow> fill_row" where
  "fill_row_of i now f =
     \<lparr>nf_id = i, nf_order_id = f_order_id f, nf_market = key_str (f_market f), nf_side = side_name (f_side f),
       nf_price = f_price f, nf_size = f_size f, nf_fee_amount = amount (f_fee f),
       nf_fee_currency = currency (f_fee f), nf_venue_ref = f_venue_ref f, nf_ts = f_ts f, nf_paper = True,
       nf_created_ts = now\<rparr>"

definition outbox_row_of :: "ulid \<Rightarrow> utc_time \<Rightarrow> fill \<Rightarrow> fill_outbox_row" where
  "outbox_row_of i now f =
     \<lparr>nx_fill_id = i, nx_order_id = f_order_id f, nx_market = key_str (f_market f), nx_payload = f,
       nx_published_ts = None, nx_created_ts = now\<rparr>"

text \<open>A fill and its outbox row, under a fresh id; the loop numbers the fills from the back.\<close>

definition insert_fill :: "ulid \<Rightarrow> utc_time \<Rightarrow> fill \<Rightarrow> paper_db \<Rightarrow> persistence_error + paper_db" where
  "insert_fill i now f db =
     (if \<exists>r \<in> set (pd_fills db). nf_id r = i then Inl (PeDatabase ''duplicate fill id'')
      else and_then (check_market (key_str (f_market f)) db) (\<lambda>_.
             Inr (db\<lparr>pd_fills := pd_fills db @ [fill_row_of i now f],
                     pd_outbox := pd_outbox db @ [outbox_row_of i now f]\<rparr>)))"

fun insert_fills :: "(nat \<Rightarrow> ulid) \<Rightarrow> utc_time \<Rightarrow> fill list \<Rightarrow> paper_db \<Rightarrow> persistence_error + paper_db" where
  "insert_fills ids now [] db = Inr db"
| "insert_fills ids now (f # fs) db =
     and_then (insert_fill (ids (length fs)) now f db) (insert_fills ids now fs)"

primrec position_error_text :: "position_error \<Rightarrow> string" where
  "position_error_text (PositionArithmetic s) = ''position arithmetic overflow while computing '' @ s"
| "position_error_text InvalidSize = ''fill size must be positive''"

definition restored :: "market_key \<Rightarrow> position_row option \<Rightarrow> position_tracker" where
  "restored m row =
     (case row of
        None \<Rightarrow> []
      | Some r \<Rightarrow> position_restore \<lparr>po_market = m, po_net_size = np_side_exposure r, po_avg_entry_price = np_avg_price r,
          po_realized_pnl = np_realized_pnl r, po_fill_count = 0, po_fees_paid = 0\<rparr> [])"

text \<open>The new position row; \<open>seen\<close> is the row the transaction has read.\<close>

definition new_position_row ::
  "dec_ops \<Rightarrow> ledger_order \<Rightarrow> fill list \<Rightarrow> position_row option \<Rightarrow> decimal option \<Rightarrow> persistence_error + position_row" where
  "new_position_row D ord fills seen mid =
     (let m = oi_market (lo_intent ord)
      in and_then (map_err (\<lambda>e. PeInvalid (Lit (position_error_text e))) (apply_fills D fills (restored m seen))) (\<lambda>t.
         and_then (ok_or (PeInvalid (Lit ''durable position missing'')) (hm_get t m)) (\<lambda>p.
         let mark = (case mid of Some v \<Rightarrow> v | None \<Rightarrow> if fills = [] then po_avg_entry_price p else f_price (last fills))
         in and_then (or_panic (Option.bind (dec_sub D mark (po_avg_entry_price p)) (\<lambda>d. dec_mul D d (po_net_size p)))) (\<lambda>u.
            Inr \<lparr>np_side_exposure = po_net_size p, np_avg_price = po_avg_entry_price p, np_size = \<bar>po_net_size p\<bar>,
              np_realized_pnl = po_realized_pnl p, np_currency = currency (f_fee (hd fills)), np_unrealized_pnl = u,
              np_ts = lo_updated_ts ord\<rparr>))))"

definition check_execution :: "ledger_order \<Rightarrow> fill list \<Rightarrow> persistence_error + unit" where
  "check_execution ord fills =
     (if \<not> oi_paper (lo_intent ord) \<or> (\<exists>f \<in> set fills. \<not> f_paper f)
      then Inl (PeInvalid (Lit ''paper store refuses live order or fill rows''))
      else if fills = [] then Inl (PeInvalid (Lit ''execution has no fills''))
      else if \<exists>f \<in> set fills. f_order_id f \<noteq> lo_order_id ord then Inl (PeInvalid (Lit ''fill order_id mismatch''))
      else Inr ())"

definition same_order :: "ledger_order \<Rightarrow> order_row \<Rightarrow> bool" where
  "same_order ord r \<longleftrightarrow>
     nr_intent_id r = oi_id (lo_intent ord) \<and> nr_market r = key_str (oi_market (lo_intent ord))
     \<and> nr_side r = side_name (oi_side (lo_intent ord)) \<and> nr_paper r"

definition mark_routed :: "ulid \<Rightarrow> paper_db \<Rightarrow> paper_db" where
  "mark_routed i db =
     db\<lparr>pd_intents := map (\<lambda>r. if ni_id r = i then r\<lparr>ni_state := ''routed''\<rparr> else r) (pd_intents db)\<rparr>"

text \<open>The row that the transaction's locking read has returned: the one there now, or, for a read that came
  before another commit, the one it returned then.\<close>

datatype position_read = ReadNow | ReadBefore "position_row option"

definition position_seen :: "position_read \<Rightarrow> string \<Rightarrow> paper_db \<Rightarrow> position_row option" where
  "position_seen rd m db = (case rd of ReadNow \<Rightarrow> hm_get (pd_positions db) m | ReadBefore seen \<Rightarrow> seen)"

text \<open>The transaction, at the moment of its commit.\<close>

definition persist_tx ::
  "dec_ops \<Rightarrow> (nat \<Rightarrow> ulid) \<Rightarrow> utc_time \<Rightarrow> position_read \<Rightarrow> ledger_order \<Rightarrow> fill list \<Rightarrow> paper_db
     \<Rightarrow> persistence_error + persist_outcome \<times> paper_db" where
  "persist_tx D ids now rd ord fills db =
     and_then (check_execution ord fills) (\<lambda>_.
     and_then (insert_intent (lo_intent ord) db) (\<lambda>db1.
     and_then (order_totals D fills) (\<lambda>(qty, price, fee).
     if \<exists>f \<in> set fills. currency (f_fee f) \<noteq> currency (f_fee (hd fills))
     then Inl (PeInvalid (Lit ''mixed fee currencies''))
     else (case find (\<lambda>r. nr_order_id r = lo_order_id ord) (pd_orders db1) of
        Some r \<Rightarrow>
          if same_order ord r then Inr (AlreadyExists, db)
          else Inl (PeInvalid (Fmt ''order id collision with different durable payload: {}'' [FNat (unat (lo_order_id ord))]))
      | None \<Rightarrow>
          and_then (check_market (key_str (oi_market (lo_intent ord))) db1) (\<lambda>_.
          and_then (insert_fills ids now fills
              (db1\<lparr>pd_orders := pd_orders db1 @ [order_row_of ord fills qty price fee]\<rparr>)) (\<lambda>db2.
          let m = key_str (oi_market (lo_intent ord));
              seen = position_seen rd m db2;
              mid = Option.bind (hm_get (pd_mids db2) m) id
          in and_then (new_position_row D ord fills seen mid) (\<lambda>row.
             Inr (Inserted, mark_routed (oi_id (lo_intent ord))
                    (db2\<lparr>pd_positions := hm_put m row (pd_positions db2)\<rparr>)))))))))"

definition persist_execution ::
  "dec_ops \<Rightarrow> (nat \<Rightarrow> ulid) \<Rightarrow> utc_time \<Rightarrow> position_read \<Rightarrow> ledger_order \<Rightarrow> fill list \<Rightarrow> paper_db
     \<Rightarrow> (persistence_error + persist_outcome) \<times> paper_db" where
  "persist_execution D ids now rd ord fills db = commit_tx (persist_tx D ids now rd ord fills) db"

text \<open>The database computes the profit exactly (\<^verbatim>\<open>NUMERIC\<close>).\<close>

definition store_update_mark ::
  "market_key \<Rightarrow> decimal \<Rightarrow> utc_time \<Rightarrow> paper_db \<Rightarrow> (persistence_error + unit) \<times> paper_db" where
  "store_update_mark m mark now db =
     (if mark \<le> 0 then (Inl (PeInvalid (Lit ''mark must be positive'')), db)
      else (Inr (), db\<lparr>pd_positions := hm_modify (key_str m)
              (\<lambda>r. r\<lparr>np_unrealized_pnl := (mark - np_avg_price r) * np_side_exposure r, np_ts := now\<rparr>) (pd_positions db)\<rparr>))"

subsection \<open>Replaying a stored execution\<close>

definition same_intent :: "order_intent \<Rightarrow> intent_row \<Rightarrow> bool" where
  "same_intent it r \<longleftrightarrow>
     (let e = intent_row_of it
      in ni_market r = ni_market e \<and> ni_side r = ni_side e \<and> ni_order_type r = ni_order_type e
         \<and> ni_limit_price r = ni_limit_price e \<and> ni_size r = ni_size e \<and> ni_size_unit r = ni_size_unit e
         \<and> ni_tif r = ni_tif e \<and> ni_paper r = ni_paper e)"

definition fill_of_row :: "ulid \<Rightarrow> fill_row \<Rightarrow> persistence_error + fill" where
  "fill_of_row i r =
     and_then (map_err (\<lambda>_. PeInvalid (Lit ''invalid market key'')) (market_key_from_string (nf_market r))) (\<lambda>m.
     and_then (parse_side (nf_side r)) (\<lambda>side.
     and_then (map_err (\<lambda>_. PeInvalid (Lit ''venue_ref must be an object'')) (json_object_new (nf_venue_ref r))) (\<lambda>ref.
       Inr \<lparr>f_order_id = i, f_market = m, f_side = side, f_price = nf_price r, f_size = nf_size r,
         f_fee = money_new (nf_fee_amount r) (nf_fee_currency r), f_venue_ref = ref, f_ts = nf_ts r,
         f_paper = nf_paper r\<rparr>)))"

fun collect_results :: "('e + 'a) list \<Rightarrow> 'e + 'a list" where
  "collect_results [] = Inr []"
| "collect_results (r # rs) = and_then r (\<lambda>a. map_ok (Cons a) (collect_results rs))"

definition existing_execution :: "order_intent \<Rightarrow> paper_db \<Rightarrow> persistence_error + fill list option" where
  "existing_execution it db =
     (case find (\<lambda>r. ni_id r = oi_id it) (pd_intents db) of
        None \<Rightarrow> Inr None
      | Some r \<Rightarrow>
          if \<not> same_intent it r \<or> \<not> oi_paper it
          then Inl (PeInvalid (Fmt ''intent id collision with different durable payload: {}'' [FNat (unat (oi_id it))]))
          else
            let rows = sort_key nf_created_ts (sort_key nf_id (filter (\<lambda>f. nf_order_id f = oi_id it) (pd_fills db)))
            in if rows = [] then Inl (PeInvalid (Fmt ''durable order {} has no fills'' [FNat (unat (oi_id it))]))
               else map_ok Some (collect_results (map (fill_of_row (oi_id it)) rows)))"

subsection \<open>The outbox of fills\<close>

record durable_fill_event =
  df_event_id :: ulid
  df_fill :: fill

definition pending_fill_events :: "paper_db \<Rightarrow> durable_fill_event list" where
  "pending_fill_events db =
     map (\<lambda>r. \<lparr>df_event_id = nx_fill_id r, df_fill = nx_payload r\<rparr>)
       (sort_key nx_created_ts (sort_key nx_fill_id (filter (\<lambda>r. nx_published_ts r = None) (pd_outbox db))))"

definition mark_fill_published :: "utc_time \<Rightarrow> ulid \<Rightarrow> paper_db \<Rightarrow> (persistence_error + unit) \<times> paper_db" where
  "mark_fill_published now i db =
     (let hit = (\<lambda>r. nx_fill_id r = i \<and> nx_published_ts r = None);
          db' = db\<lparr>pd_outbox := map (\<lambda>r. if hit r then r\<lparr>nx_published_ts := Some now\<rparr> else r) (pd_outbox db)\<rparr>
      in if 1 < length (filter hit (pd_outbox db))
         then (Inl (PeInvalid (Fmt ''outbox event {} updated more than once'' [FNat (unat i)])), db')
         else (Inr (), db'))"


subsection \<open>Runs of the store\<close>

datatype paper_op =
    PoPersist "nat \<Rightarrow> ulid" utc_time position_read ledger_order "fill list"
  | PoMark market_key decimal utc_time
  | PoPublished utc_time ulid

fun paper_step :: "dec_ops \<Rightarrow> paper_op \<Rightarrow> paper_db \<Rightarrow> paper_db" where
  "paper_step D (PoPersist ids now rd ord fills) db = snd (persist_execution D ids now rd ord fills db)"
| "paper_step D (PoMark m mark now) db = snd (store_update_mark m mark now db)"
| "paper_step D (PoPublished now i) db = snd (mark_fill_published now i db)"

definition paper_start :: "string list \<Rightarrow> (string, decimal option) hash_map \<Rightarrow> paper_db" where
  "paper_start markets mids =
     \<lparr>pd_intents = [], pd_orders = [], pd_fills = [], pd_outbox = [], pd_positions = [], pd_mids = mids, pd_markets = markets\<rparr>"

text \<open>The orders of the ledger carry their intent's id, and its fills the intent's market.\<close>

fun ledger_made :: "paper_op \<Rightarrow> bool" where
  "ledger_made (PoPersist ids now rd ord fills) \<longleftrightarrow>
     lo_order_id ord = oi_id (lo_intent ord) \<and> list_all (\<lambda>f. f_market f = oi_market (lo_intent ord)) fills"
| "ledger_made _ \<longleftrightarrow> True"

fun serial :: "paper_op \<Rightarrow> bool" where
  "serial (PoPersist ids now rd ord fills) \<longleftrightarrow> rd = ReadNow"
| "serial _ \<longleftrightarrow> True"

text \<open>The fills the store holds, in the order in which they were committed.\<close>

definition stored_fills :: "paper_db \<Rightarrow> fill list" where
  "stored_fills db = map nx_payload (pd_outbox db)"

definition rows_agree :: "paper_db \<Rightarrow> bool" where
  "rows_agree db \<longleftrightarrow>
     pd_fills db = map (\<lambda>x. fill_row_of (nx_fill_id x) (nx_created_ts x) (nx_payload x)) (pd_outbox db)"

lemma insert_fills_effect:
  assumes "insert_fills ids now fs db = Inr db'"
  shows "\<exists>js. length js = length fs
    \<and> pd_fills db' = pd_fills db @ map (\<lambda>(i, f). fill_row_of i now f) (zip js fs)
    \<and> pd_outbox db' = pd_outbox db @ map (\<lambda>(i, f). outbox_row_of i now f) (zip js fs)
    \<and> pd_intents db' = pd_intents db \<and> pd_orders db' = pd_orders db \<and> pd_positions db' = pd_positions db
    \<and> pd_mids db' = pd_mids db \<and> pd_markets db' = pd_markets db"
  using assms
proof (induction fs arbitrary: db)
  case Nil
  then show ?case by simp
next
  case (Cons f fs)
  from Cons.prems obtain db1 where db1: "insert_fill (ids (length fs)) now f db = Inr db1" "insert_fills ids now fs db1 = Inr db'"
    by (auto simp: and_then_Inr_iff)
  have one: "db1 = db\<lparr>pd_fills := pd_fills db @ [fill_row_of (ids (length fs)) now f],
                      pd_outbox := pd_outbox db @ [outbox_row_of (ids (length fs)) now f]\<rparr>"
    using db1(1) by (auto simp: insert_fill_def and_then_Inr_iff split: if_splits)
  from Cons.IH [OF db1(2)] obtain js where "length js = length fs"
    "pd_fills db' = pd_fills db1 @ map (\<lambda>(i, f). fill_row_of i now f) (zip js fs)"
    "pd_outbox db' = pd_outbox db1 @ map (\<lambda>(i, f). outbox_row_of i now f) (zip js fs)"
    "pd_intents db' = pd_intents db1" "pd_orders db' = pd_orders db1" "pd_positions db' = pd_positions db1"
    "pd_mids db' = pd_mids db1" "pd_markets db' = pd_markets db1" by blast
  then show ?case by (intro exI [of _ "ids (length fs) # js"]) (simp add: one)
qed

lemma insert_intent_effect:
  assumes "insert_intent it db = Inr db'"
  shows "pd_intents db' = (if \<exists>r \<in> set (pd_intents db). ni_id r = oi_id it then pd_intents db
      else pd_intents db @ [intent_row_of it])"
    and "pd_orders db' = pd_orders db" and "pd_fills db' = pd_fills db" and "pd_outbox db' = pd_outbox db"
    and "pd_positions db' = pd_positions db" and "pd_mids db' = pd_mids db"
  using assms by (auto simp: insert_intent_def and_then_Inr_iff split: if_splits)

text \<open>What a transaction does that inserts.\<close>

lemma persist_insertedE:
  assumes "persist_tx D ids now rd ord fills db = Inr (Inserted, db')"
  obtains js row qty price fee where "length js = length fills" "fills \<noteq> []"
    "\<forall>f \<in> set fills. f_order_id f = lo_order_id ord \<and> f_paper f" "oi_paper (lo_intent ord)"
    "\<forall>r \<in> set (pd_orders db). nr_order_id r \<noteq> lo_order_id ord"
    "pd_fills db' = pd_fills db @ map (\<lambda>(i, f). fill_row_of i now f) (zip js fills)"
    "pd_outbox db' = pd_outbox db @ map (\<lambda>(i, f). outbox_row_of i now f) (zip js fills)"
    "pd_orders db' = pd_orders db @ [order_row_of ord fills qty price fee]"
    "pd_intents db' = map (\<lambda>r. if ni_id r = oi_id (lo_intent ord) then r\<lparr>ni_state := ''routed''\<rparr> else r)
        (if \<exists>r \<in> set (pd_intents db). ni_id r = oi_id (lo_intent ord) then pd_intents db
         else pd_intents db @ [intent_row_of (lo_intent ord)])"
    "new_position_row D ord fills (position_seen rd (key_str (oi_market (lo_intent ord))) db)
        (Option.bind (hm_get (pd_mids db) (key_str (oi_market (lo_intent ord)))) id) = Inr row"
    "pd_positions db' = hm_put (key_str (oi_market (lo_intent ord))) row (pd_positions db)"
proof -
  from assms have chk: "check_execution ord fills = Inr ()"
    by (cases "check_execution ord fills") (simp_all add: persist_tx_def)
  from assms chk obtain db1 where db1: "insert_intent (lo_intent ord) db = Inr db1"
    by (cases "insert_intent (lo_intent ord) db") (simp_all add: persist_tx_def)
  from assms chk db1 obtain qty price fee where tot: "order_totals D fills = Inr (qty, price, fee)"
    by (cases "order_totals D fills") (auto simp: persist_tx_def)
  from assms chk db1 tot have none: "find (\<lambda>r. nr_order_id r = lo_order_id ord) (pd_orders db1) = None"
    by (auto simp: persist_tx_def split: if_splits option.splits)
  let ?m = "key_str (oi_market (lo_intent ord))"
  from assms chk db1 tot none obtain db2 row where db2:
    "insert_fills ids now fills (db1\<lparr>pd_orders := pd_orders db1 @ [order_row_of ord fills qty price fee]\<rparr>) = Inr db2"
    and row: "new_position_row D ord fills (position_seen rd ?m db2)
        (Option.bind (hm_get (pd_mids db2) ?m) id) = Inr row"
    and db': "db' = mark_routed (oi_id (lo_intent ord)) (db2\<lparr>pd_positions := hm_put ?m row (pd_positions db2)\<rparr>)"
    by (auto simp: persist_tx_def and_then_Inr_iff Let_def split: if_splits)
  note e1 = insert_intent_effect [OF db1]
  from insert_fills_effect [OF db2] obtain js where e2: "length js = length fills"
    "pd_fills db2 = pd_fills db @ map (\<lambda>(i, f). fill_row_of i now f) (zip js fills)"
    "pd_outbox db2 = pd_outbox db @ map (\<lambda>(i, f). outbox_row_of i now f) (zip js fills)"
    "pd_intents db2 = pd_intents db1" "pd_orders db2 = pd_orders db @ [order_row_of ord fills qty price fee]"
    "pd_positions db2 = pd_positions db" "pd_mids db2 = pd_mids db"
    by (auto simp: e1)
  have chk': "fills \<noteq> []" "\<forall>f \<in> set fills. f_order_id f = lo_order_id ord \<and> f_paper f" "oi_paper (lo_intent ord)"
    using chk by (auto simp: check_execution_def split: if_splits)
  have fresh: "\<forall>r \<in> set (pd_orders db). nr_order_id r \<noteq> lo_order_id ord"
    using none by (auto simp: e1 find_None_iff)
  show thesis
    by (rule that [of js qty price fee row, OF e2(1) chk' fresh])
      (use row [unfolded position_seen_def e2(6,7)] e1(1) in \<open>simp_all add: db' mark_routed_def e2 position_seen_def\<close>)
qed

lemma persist_execution_cases:
  obtains (inserted) db' where "persist_execution D ids now rd ord fills db = (Inr Inserted, db')"
      "persist_tx D ids now rd ord fills db = Inr (Inserted, db')"
    | (kept) r where "persist_execution D ids now rd ord fills db = (r, db)" "r \<noteq> Inr Inserted"
proof (cases "persist_tx D ids now rd ord fills db")
  case (Inl e)
  then show thesis by (intro kept) (auto simp: persist_execution_def commit_tx_def)
next
  case (Inr x)
  obtain o1 db' where x: "x = (o1, db')" by (cases x)
  show thesis
  proof (cases o1)
    case Inserted
    with Inr x show thesis by (intro inserted) (auto simp: persist_execution_def commit_tx_def)
  next
    case AlreadyExists
    have "db' = db" using Inr x AlreadyExists
      by (auto simp: persist_tx_def and_then_Inr_iff Let_def split: if_splits option.splits)
    with Inr x AlreadyExists show thesis by (intro kept) (auto simp: persist_execution_def commit_tx_def)
  qed
qed


subsection \<open>Stored positions are what the tracker makes of the stored fills\<close>

text \<open>The part of a position that is stored, and what one fill makes of it.\<close>

type_synonym position_core = "decimal \<times> decimal \<times> decimal"

definition core_of :: "position \<Rightarrow> position_core" where
  "core_of p = (po_net_size p, po_avg_entry_price p, po_realized_pnl p)"

definition core_of_row :: "position_row \<Rightarrow> position_core" where
  "core_of_row r = (np_side_exposure r, np_avg_price r, np_realized_pnl r)"

definition with_core :: "market_key \<Rightarrow> position_core \<Rightarrow> position" where
  "with_core m c = (case c of (n, a, r) \<Rightarrow>
     \<lparr>po_market = m, po_net_size = n, po_avg_entry_price = a, po_realized_pnl = r, po_fill_count = 0, po_fees_paid = 0\<rparr>)"

definition core_step :: "dec_ops \<Rightarrow> fill \<Rightarrow> position_core \<Rightarrow> position_core option" where
  "core_step D f c =
     (case c of (n, a, r) \<Rightarrow>
        Option.bind (dec_add D n (size_delta f)) (\<lambda>n'.
        Option.bind (dec_sub D r (amount (f_fee f))) (\<lambda>r'.
          case meet_position D f n' (with_core (f_market f) (n, a, r')) of Inl _ \<Rightarrow> None | Inr p \<Rightarrow> Some (core_of p))))"

fun core_fills :: "dec_ops \<Rightarrow> fill list \<Rightarrow> position_core \<Rightarrow> position_core option" where
  "core_fills D [] c = Some c"
| "core_fills D (f # fs) c = Option.bind (core_step D f c) (core_fills D fs)"

definition core_at :: "position_tracker \<Rightarrow> market_key \<Rightarrow> position_core" where
  "core_at t m = (case hm_get t m of None \<Rightarrow> (0, 0, 0) | Some p \<Rightarrow> core_of p)"

lemma core_fills_append: "core_fills D (fs @ gs) c = Option.bind (core_fills D fs c) (core_fills D gs)"
  by (induction fs arbitrary: c) (simp_all split: bind_split)

lemma meet_position_core:
  assumes "meet_position D f n p = Inr q" "core_of p = core_of p'"
  shows "\<exists>q'. meet_position D f n p' = Inr q' \<and> core_of q' = core_of q"
proof -
  from assms(2) have eq: "po_net_size p' = po_net_size p" "po_avg_entry_price p' = po_avg_entry_price p"
    "po_realized_pnl p' = po_realized_pnl p" by (simp_all add: core_of_def)
  have "average_in D f p' = average_in D f p" "realize D f p' = realize D f p"
    by (simp_all add: average_in_def realize_def eq)
  then have "map_ok core_of (meet_position D f n p') = map_ok core_of (meet_position D f n p)"
    by (cases "average_in D f p"; cases "realize D f p") (simp_all add: meet_position_def eq core_of_def Let_def)
  with assms(1) have "map_ok core_of (meet_position D f n p') = Inr (core_of q)" by simp
  then show ?thesis by (auto simp: map_ok_Inr_iff)
qed

lemma apply_fill_core:
  assumes "apply_fill D f t = Inr t'"
  shows "hm_get t' (f_market f) \<noteq> None" and "core_step D f (core_at t (f_market f)) = Some (core_at t' (f_market f))"
    and "m \<noteq> f_market f \<Longrightarrow> hm_get t' m = hm_get t m"
proof -
  let ?p = "case hm_get t (f_market f) of None \<Rightarrow> position_zero (f_market f) | Some p \<Rightarrow> p"
  from assms obtain n p1 p2 k where n: "dec_add D (po_net_size ?p) (size_delta f) = Some n"
    and p1: "charge_fee D f ?p = Inr p1" and p2: "meet_position D f n p1 = Inr p2"
    and t': "t' = hm_put (f_market f) (p2\<lparr>po_fill_count := k\<rparr>) t"
    by (auto simp: apply_fill_def and_then_Inr_iff ok_or_Inr_iff Let_def split: if_splits)
  from p1 obtain fees r where r: "dec_sub D (po_realized_pnl ?p) (amount (f_fee f)) = Some r"
    "p1 = ?p\<lparr>po_fees_paid := fees, po_realized_pnl := r\<rparr>"
    by (auto simp: charge_fee_def and_then_Inr_iff ok_or_Inr_iff)
  have core: "core_at t (f_market f) = core_of ?p"
    by (simp add: core_at_def core_of_def position_zero_def split: option.split)
  have "core_of p1 = core_of (with_core (f_market f) (po_net_size ?p, po_avg_entry_price ?p, r))"
    by (simp add: r(2) core_of_def with_core_def)
  from meet_position_core [OF p2 this] obtain q where
    q: "meet_position D f n (with_core (f_market f) (po_net_size ?p, po_avg_entry_price ?p, r)) = Inr q" "core_of q = core_of p2"
    by blast
  show "hm_get t' (f_market f) \<noteq> None" by (simp add: t' hm_get_put)
  have "core_at t' (f_market f) = core_of p2" by (simp add: t' core_at_def core_of_def hm_get_put)
  then show "core_step D f (core_at t (f_market f)) = Some (core_at t' (f_market f))"
    unfolding core by (simp add: core_of_def core_step_def n r(1) q(1)) (use q(2) in \<open>simp add: core_of_def\<close>)
  show "m \<noteq> f_market f \<Longrightarrow> hm_get t' m = hm_get t m" by (simp add: t' hm_get_put)
qed

lemma apply_fills_core:
  assumes "apply_fills D fs t = Inr t'"
  shows "core_fills D (filter (\<lambda>f. f_market f = m) fs) (core_at t m) = Some (core_at t' m)"
    and "hm_get t' m \<noteq> None \<longleftrightarrow> hm_get t m \<noteq> None \<or> (\<exists>f \<in> set fs. f_market f = m)"
proof -
  have "core_fills D (filter (\<lambda>f. f_market f = m) fs) (core_at t m) = Some (core_at t' m)
    \<and> (hm_get t' m \<noteq> None \<longleftrightarrow> hm_get t m \<noteq> None \<or> (\<exists>f \<in> set fs. f_market f = m))"
    using assms
  proof (induction fs arbitrary: t)
    case Nil
    then show ?case by simp
  next
    case (Cons f fs)
    from Cons.prems obtain t1 where t1: "apply_fill D f t = Inr t1" "apply_fills D fs t1 = Inr t'"
      by (auto simp: and_then_Inr_iff)
    note a = apply_fill_core [OF t1(1)] and IH = Cons.IH [OF t1(2)]
    show ?case
    proof (cases "f_market f = m")
      case True
      with a(1,2) IH show ?thesis by auto
    next
      case False
      with a(3) [of m] have "hm_get t1 m = hm_get t m" by simp
      with IH False show ?thesis by (simp add: core_at_def)
    qed
  qed
  then show "core_fills D (filter (\<lambda>f. f_market f = m) fs) (core_at t m) = Some (core_at t' m)"
    and "hm_get t' m \<noteq> None \<longleftrightarrow> hm_get t m \<noteq> None \<or> (\<exists>f \<in> set fs. f_market f = m)" by blast+
qed

lemma new_position_row_core:
  assumes "new_position_row D ord fills seen mid = Inr row" "\<forall>f \<in> set fills. f_market f = oi_market (lo_intent ord)"
  shows "core_fills D fills (case seen of None \<Rightarrow> (0, 0, 0) | Some r \<Rightarrow> core_of_row r) = Some (core_of_row row)"
    and "np_size row = \<bar>np_side_exposure row\<bar>"
proof -
  let ?m = "oi_market (lo_intent ord)"
  from assms(1) obtain t p u where t: "apply_fills D fills (restored ?m seen) = Inr t" and p: "hm_get t ?m = Some p"
    and row: "core_of_row row = core_of p" "np_size row = \<bar>np_side_exposure row\<bar>"
    by (auto simp: new_position_row_def and_then_Inr_iff map_err_Inr_iff ok_or_Inr_iff Let_def core_of_row_def core_of_def)
  have "filter (\<lambda>f. f_market f = ?m) fills = fills" using assms(2) by (simp add: filter_id_conv)
  moreover have "core_at (restored ?m seen) ?m = (case seen of None \<Rightarrow> (0, 0, 0) | Some r \<Rightarrow> core_of_row r)"
    by (simp add: core_at_def restored_def position_restore_def core_of_def core_of_row_def split: option.split)
  moreover have "core_at t ?m = core_of_row row" by (simp add: core_at_def p row(1))
  ultimately show "core_fills D fills (case seen of None \<Rightarrow> (0, 0, 0) | Some r \<Rightarrow> core_of_row r) = Some (core_of_row row)"
    using apply_fills_core(1) [OF t, of ?m] by simp
  show "np_size row = \<bar>np_side_exposure row\<bar>" by (rule row(2))
qed


definition fills_in :: "market_key \<Rightarrow> paper_db \<Rightarrow> fill list" where
  "fills_in m db = filter (\<lambda>f. f_market f = m) (stored_fills db)"

definition tracks :: "dec_ops \<Rightarrow> position_row option \<Rightarrow> fill list \<Rightarrow> bool" where
  "tracks D row fs \<longleftrightarrow>
     (case row of None \<Rightarrow> fs = [] | Some r \<Rightarrow> fs \<noteq> [] \<and> core_fills D fs (0, 0, 0) = Some (core_of_row r))"

definition positions_ok :: "dec_ops \<Rightarrow> paper_db \<Rightarrow> bool" where
  "positions_ok D db \<longleftrightarrow> (\<forall>m. tracks D (hm_get (pd_positions db) (key_str m)) (fills_in m db))"

lemma positions_okD: "positions_ok D db \<Longrightarrow> tracks D (hm_get (pd_positions db) (key_str m)) (fills_in m db)"
  by (simp add: positions_ok_def)

lemma tracks_more:
  assumes "tracks D seen fs" "core_fills D gs (case seen of None \<Rightarrow> (0, 0, 0) | Some r \<Rightarrow> core_of_row r) = Some (core_of_row row)"
    "gs \<noteq> []"
  shows "tracks D (Some row) (fs @ gs)"
  using assms by (auto simp: tracks_def core_fills_append split: option.splits)

lemma tracks_same: "map_option core_of_row row' = map_option core_of_row row \<Longrightarrow> tracks D row fs \<Longrightarrow> tracks D row' fs"
  by (cases row; cases row') (simp_all add: tracks_def)

lemma zip_payloads: "length js = length fs \<Longrightarrow> map (\<lambda>(i, f). nx_payload (outbox_row_of i now f)) (zip js fs) = fs"
  by (induction js fs rule: list_induct2) (simp_all add: outbox_row_of_def)

lemma key_str_inject [simp]: "key_str a = key_str b \<longleftrightarrow> a = b"
  by (cases a; cases b) simp

lemma inserted_fills:
  assumes "length js = length fills" "pd_outbox db' = pd_outbox db @ map (\<lambda>(i, f). outbox_row_of i now f) (zip js fills)"
  shows "stored_fills db' = stored_fills db @ fills"
  using zip_payloads [OF assms(1), of now] assms(2) by (simp add: stored_fills_def comp_def case_prod_unfold)

text \<open>The row that an execution writes continues from the row it has seen.\<close>

lemma inserted_position:
  assumes "persist_tx D ids now rd ord fills db = Inr (Inserted, db')"
    and "list_all (\<lambda>f. f_market f = oi_market (lo_intent ord)) fills"
  shows "\<exists>row. pd_positions db' = hm_put (key_str (oi_market (lo_intent ord))) row (pd_positions db)
      \<and> core_fills D fills (case (position_seen rd (key_str (oi_market (lo_intent ord))) db) of
           None \<Rightarrow> (0, 0, 0) | Some r \<Rightarrow> core_of_row r) = Some (core_of_row row)"
    and "stored_fills db' = stored_fills db @ fills" and "fills \<noteq> []"
proof -
  from assms(1) obtain js row qty price fee where js: "length js = length fills" and ne: "fills \<noteq> []"
    and "\<forall>f \<in> set fills. f_order_id f = lo_order_id ord \<and> f_paper f" "oi_paper (lo_intent ord)"
    "\<forall>r \<in> set (pd_orders db). nr_order_id r \<noteq> lo_order_id ord"
    "pd_fills db' = pd_fills db @ map (\<lambda>(i, f). fill_row_of i now f) (zip js fills)"
    and out: "pd_outbox db' = pd_outbox db @ map (\<lambda>(i, f). outbox_row_of i now f) (zip js fills)"
    and "pd_orders db' = pd_orders db @ [order_row_of ord fills qty price fee]"
    "pd_intents db' = map (\<lambda>r. if ni_id r = oi_id (lo_intent ord) then r\<lparr>ni_state := ''routed''\<rparr> else r)
        (if \<exists>r \<in> set (pd_intents db). ni_id r = oi_id (lo_intent ord) then pd_intents db
         else pd_intents db @ [intent_row_of (lo_intent ord)])"
    and row: "new_position_row D ord fills (position_seen rd (key_str (oi_market (lo_intent ord))) db)
        (Option.bind (hm_get (pd_mids db) (key_str (oi_market (lo_intent ord)))) id) = Inr row"
    and pos: "pd_positions db' = hm_put (key_str (oi_market (lo_intent ord))) row (pd_positions db)"
    by (rule persist_insertedE)
  have "\<forall>f \<in> set fills. f_market f = oi_market (lo_intent ord)" using assms(2) by (simp add: list_all_iff)
  from new_position_row_core(1) [OF row this] pos
  show "\<exists>row. pd_positions db' = hm_put (key_str (oi_market (lo_intent ord))) row (pd_positions db)
      \<and> core_fills D fills (case (position_seen rd (key_str (oi_market (lo_intent ord))) db) of
           None \<Rightarrow> (0, 0, 0) | Some r \<Rightarrow> core_of_row r) = Some (core_of_row row)" by blast
  show "stored_fills db' = stored_fills db @ fills" by (rule inserted_fills [OF js out])
  show "fills \<noteq> []" by (rule ne)
qed

lemma paper_step_positions:
  assumes "positions_ok D db" "ledger_made op" "serial op"
  shows "positions_ok D (paper_step D op db)"
proof (cases op)
  case (PoPersist ids now rd ord fills)
  let ?m0 = "oi_market (lo_intent ord)"
  show ?thesis
  proof (cases rule: persist_execution_cases [of D ids now rd ord fills db])
    case (inserted db')
    have serial: "rd = ReadNow" and made: "list_all (\<lambda>f. f_market f = ?m0) fills" using assms(2,3) PoPersist by simp_all
    from inserted_position(1) [OF inserted(2) made] serial obtain row where
      pos: "pd_positions db' = hm_put (key_str ?m0) row (pd_positions db)"
      and core: "core_fills D fills (case hm_get (pd_positions db) (key_str ?m0) of
        None \<Rightarrow> (0, 0, 0) | Some r \<Rightarrow> core_of_row r) = Some (core_of_row row)" by (auto simp: position_seen_def)
    note fills = inserted_position(2,3) [OF inserted(2) made]
    have in0: "fills_in ?m0 db' = fills_in ?m0 db @ fills"
      using made by (simp add: fills_in_def fills(1) filter_id_conv list_all_iff)
    have other: "fills_in m db' = fills_in m db" if "m \<noteq> ?m0" for m
      using made that by (auto simp: fills_in_def fills(1) filter_empty_conv list_all_iff)
    have "tracks D (hm_get (pd_positions db') (key_str m)) (fills_in m db')" for m
    proof (cases "m = ?m0")
      case True
      from tracks_more [OF positions_okD [OF assms(1)] core fills(2)] show ?thesis
        by (simp add: True pos hm_get_put in0)
    next
      case False
      with positions_okD [OF assms(1), of m] show ?thesis by (simp add: pos hm_get_put other)
    qed
    with inserted(1) show ?thesis by (simp add: PoPersist positions_ok_def)
  next
    case (kept r)
    with assms(1) show ?thesis by (simp add: PoPersist)
  qed
next
  case (PoMark m mark now)
  have fills: "fills_in k (paper_step D op db) = fills_in k db" for k
    by (simp add: PoMark store_update_mark_def fills_in_def stored_fills_def)
  have "map_option core_of_row (hm_get (pd_positions (paper_step D op db)) k) = map_option core_of_row (hm_get (pd_positions db) k)" for k
    by (simp add: PoMark store_update_mark_def hm_get_modify option.map_comp comp_def core_of_row_def [abs_def])
  from tracks_same [OF this positions_okD [OF assms(1)]] show ?thesis by (simp add: positions_ok_def fills)
next
  case (PoPublished now i)
  have "stored_fills (paper_step D op db) = stored_fills db"
    by (simp add: PoPublished mark_fill_published_def stored_fills_def Let_def)
  moreover have "pd_positions (paper_step D op db) = pd_positions db"
    by (simp add: PoPublished mark_fill_published_def Let_def)
  ultimately show ?thesis using assms(1) by (simp add: positions_ok_def fills_in_def)
qed


lemma paper_run_positions:
  assumes "positions_ok D db" "list_all ledger_made ops" "list_all serial ops"
  shows "positions_ok D (fold (paper_step D) ops db)"
  using assms by (induction ops arbitrary: db) (simp_all add: paper_step_positions)

lemma paper_start_positions: "positions_ok D (paper_start markets mids)"
  by (simp add: positions_ok_def paper_start_def tracks_def fills_in_def stored_fills_def)

text \<open>
  Property C16. The durable positions refine the position tracker: after any run of serial executions,
  marks and publications from the empty tables, the exposure, average price and realized profit stored
  for a market are those of the tracker that is given all stored fills in the order of their commits, and
  a market without a position there has none here.
\<close>

theorem durable_positions_refine_tracker:
  assumes "list_all ledger_made ops" "list_all serial ops"
    and "db = fold (paper_step D) ops (paper_start markets mids)"
    and "apply_fills D (stored_fills db) [] = Inr t"
  shows "map_option core_of_row (hm_get (pd_positions db) (key_str m)) = map_option core_of (hm_get t m)"
proof -
  have ok: "tracks D (hm_get (pd_positions db) (key_str m)) (fills_in m db)"
    unfolding assms(3) by (rule positions_okD [OF paper_run_positions [OF paper_start_positions assms(1,2)]])
  from apply_fills_core [OF assms(4), of m]
  have core: "core_fills D (fills_in m db) (0, 0, 0) = Some (core_at t m)"
    and present: "hm_get t m \<noteq> None \<longleftrightarrow> fills_in m db \<noteq> []"
    by (auto simp: fills_in_def core_at_def filter_empty_conv)
  show ?thesis
  proof (cases "hm_get t m")
    case None
    with present have "fills_in m db = []" by simp
    with ok None show ?thesis by (simp add: tracks_def split: option.splits)
  next
    case (Some p)
    with present core have "fills_in m db \<noteq> []" "core_fills D (fills_in m db) (0, 0, 0) = Some (core_of p)"
      by (simp_all add: core_at_def)
    with ok Some show ?thesis by (auto simp: tracks_def split: option.splits)
  qed
qed

subsection \<open>Transactions that overlap\<close>

text \<open>A transaction that has read its position and not yet committed. \<^verbatim>\<open>FOR UPDATE\<close> locks the row that it
  returns until the commit, and nothing where there is no row; what a transaction writes is not seen by
  others before its commit.\<close>

record open_tx =
  ox_ids :: "nat \<Rightarrow> ulid"
  ox_now :: utc_time
  ox_order :: ledger_order
  ox_fills :: "fill list"
  ox_seen :: "position_row option"

record paper_sys =
  px_db :: paper_db
  px_open :: "(nat, open_tx) hash_map"

definition tx_market :: "ledger_order \<Rightarrow> string" where
  "tx_market ord = key_str (oi_market (lo_intent ord))"

definition row_locked :: "string \<Rightarrow> paper_sys \<Rightarrow> bool" where
  "row_locked m s \<longleftrightarrow> list_ex (\<lambda>(k, x). tx_market (ox_order x) = m \<and> ox_seen x \<noteq> None) (px_open s)"

text \<open>The read of transaction \<open>k\<close>; \<open>None\<close> while it has to wait for a lock.\<close>

definition tx_read ::
  "nat \<Rightarrow> (nat \<Rightarrow> ulid) \<Rightarrow> utc_time \<Rightarrow> ledger_order \<Rightarrow> fill list \<Rightarrow> paper_sys \<Rightarrow> paper_sys option" where
  "tx_read k ids now ord fills s =
     (let seen = hm_get (pd_positions (px_db s)) (tx_market ord)
      in if hm_get (px_open s) k \<noteq> None \<or> seen \<noteq> None \<and> row_locked (tx_market ord) s then None
         else Some (s\<lparr>px_open := hm_put k
                \<lparr>ox_ids = ids, ox_now = now, ox_order = ord, ox_fills = fills, ox_seen = seen\<rparr> (px_open s)\<rparr>))"

definition tx_commit :: "dec_ops \<Rightarrow> nat \<Rightarrow> paper_sys \<Rightarrow> ((persistence_error + persist_outcome) \<times> paper_sys) option" where
  "tx_commit D k s =
     map_option (\<lambda>x.
       (case persist_execution D (ox_ids x) (ox_now x) (ReadBefore (ox_seen x)) (ox_order x) (ox_fills x) (px_db s) of
          (r, db) \<Rightarrow> (r, \<lparr>px_db = db, px_open = AList.delete k (px_open s)\<rparr>))) (hm_get (px_open s) k)"

text \<open>A transaction that reads and commits with nothing between is the serial one.\<close>

lemma read_commit_is_serial:
  assumes "tx_read k ids now ord fills s = Some s1"
  shows "\<exists>r db. persist_execution D ids now ReadNow ord fills (px_db s) = (r, db)
     \<and> tx_commit D k s1 = Some (r, \<lparr>px_db = db, px_open = AList.delete k (px_open s1)\<rparr>)"
proof -
  let ?seen = "hm_get (pd_positions (px_db s)) (tx_market ord)"
  from assms have s1: "px_db s1 = px_db s"
    "hm_get (px_open s1) k = Some \<lparr>ox_ids = ids, ox_now = now, ox_order = ord, ox_fills = fills, ox_seen = ?seen\<rparr>"
    by (auto simp: tx_read_def Let_def hm_get_put split: if_splits)
  have "persist_tx D ids now (ReadBefore ?seen) ord fills (px_db s) = persist_tx D ids now ReadNow ord fills (px_db s)"
  proof -
    have same: "pd_positions db2 = pd_positions (px_db s)"
      if "insert_intent (lo_intent ord) (px_db s) = Inr db1" "insert_fills ids now fills (db1\<lparr>pd_orders := os\<rparr>) = Inr db2" for db1 db2 os
      using insert_fills_effect [OF that(2)] insert_intent_effect(5) [OF that(1)] by auto
    have step: "and_then x f = and_then x g" if "\<And>y. x = Inr y \<Longrightarrow> f y = g y" for x :: "persistence_error + 'y" and f g :: "'y \<Rightarrow> persistence_error + 'z"
      using that by (cases x) simp_all
    have seen: "position_seen (ReadBefore ?seen) (tx_market ord) db2 = position_seen ReadNow (tx_market ord) db2"
      if "pd_positions db2 = pd_positions (px_db s)" for db2 using that by (simp add: position_seen_def)
    show ?thesis
      unfolding persist_tx_def tx_market_def [symmetric] Let_def
      by (intro step) (auto intro!: step simp: seen [OF same] split: option.split)
  qed
  then have same: "persist_execution D ids now (ReadBefore ?seen) ord fills (px_db s) = persist_execution D ids now ReadNow ord fills (px_db s)"
    by (simp add: persist_execution_def commit_tx_def)
  obtain r db where run: "persist_execution D ids now ReadNow ord fills (px_db s) = (r, db)" by force
  with s1 same show ?thesis by (simp add: tx_commit_def)
qed

text \<open>A second transaction waits while the first holds the row.\<close>

lemma existing_row_is_waited_for:
  assumes "tx_read k1 ids1 now1 ord1 fills1 s = Some s1" "hm_get (pd_positions (px_db s)) (tx_market ord1) \<noteq> None"
    "tx_market ord2 = tx_market ord1"
  shows "tx_read k2 ids2 now2 ord2 fills2 s1 = None"
proof -
  from assms(1,2) obtain r where s1: "px_db s1 = px_db s" "hm_get (px_open s1) k1 =
      Some \<lparr>ox_ids = ids1, ox_now = now1, ox_order = ord1, ox_fills = fills1, ox_seen = Some r\<rparr>"
    by (auto simp: tx_read_def Let_def hm_get_put split: if_splits)
  from map_of_SomeD [OF s1(2)] have "row_locked (tx_market ord1) s1" by (force simp: row_locked_def list_ex_iff)
  with assms(2,3) s1(1) show ?thesis by (simp add: tx_read_def)
qed

text \<open>
  Property C18. Two transactions that open the position of a market lose one of them. Where the market has
  no position, the read of the second is let through although the first has not committed, whatever other
  transactions are open; when both then commit, the fills of both are stored, and the stored position is
  that of the second one's fills alone, as if the first had not been.
\<close>

theorem racing_open_loses_position:
  assumes "hm_get (pd_positions (px_db s)) (tx_market ord1) = None" "oi_market (lo_intent ord2) = oi_market (lo_intent ord1)"
    and "k1 \<noteq> k2" "hm_get (px_open s) k1 = None" "hm_get (px_open s) k2 = None"
    and "list_all (\<lambda>f. f_market f = oi_market (lo_intent ord1)) (fills1 @ fills2)"
  shows "\<exists>s1 s2. tx_read k1 ids1 now1 ord1 fills1 s = Some s1 \<and> tx_read k2 ids2 now2 ord2 fills2 s1 = Some s2
    \<and> (\<forall>s3 s4. tx_commit D k1 s2 = Some (Inr Inserted, s3) \<longrightarrow> tx_commit D k2 s3 = Some (Inr Inserted, s4) \<longrightarrow>
         stored_fills (px_db s4) = stored_fills (px_db s) @ fills1 @ fills2
         \<and> (\<exists>row. hm_get (pd_positions (px_db s4)) (tx_market ord1) = Some row
              \<and> core_fills D fills2 (0, 0, 0) = Some (core_of_row row)))"
proof -
  let ?x1 = "\<lparr>ox_ids = ids1, ox_now = now1, ox_order = ord1, ox_fills = fills1, ox_seen = None\<rparr>"
  let ?x2 = "\<lparr>ox_ids = ids2, ox_now = now2, ox_order = ord2, ox_fills = fills2, ox_seen = None\<rparr>"
  define s1 where "s1 = s\<lparr>px_open := hm_put k1 ?x1 (px_open s)\<rparr>"
  define s2 where "s2 = s1\<lparr>px_open := hm_put k2 ?x2 (px_open s1)\<rparr>"
  have m: "tx_market ord2 = tx_market ord1" using assms(2) by (simp add: tx_market_def)
  have r1: "tx_read k1 ids1 now1 ord1 fills1 s = Some s1" using assms(1,4) by (simp add: tx_read_def s1_def)
  have r2: "tx_read k2 ids2 now2 ord2 fills2 s1 = Some s2"
    using assms(1,3,5) by (simp add: tx_read_def s1_def s2_def m hm_get_put)
  have "stored_fills (px_db s4) = stored_fills (px_db s) @ fills1 @ fills2
      \<and> (\<exists>row. hm_get (pd_positions (px_db s4)) (tx_market ord1) = Some row \<and> core_fills D fills2 (0, 0, 0) = Some (core_of_row row))"
    if c: "tx_commit D k1 s2 = Some (Inr Inserted, s3)" "tx_commit D k2 s3 = Some (Inr Inserted, s4)" for s3 s4
  proof -
    have o2: "hm_get (px_open s2) k1 = Some ?x1" "hm_get (px_open s2) k2 = Some ?x2" "px_db s2 = px_db s"
      using assms(3) by (simp_all add: s1_def s2_def hm_get_put)
    from c(1) o2 have p1: "persist_execution D ids1 now1 (ReadBefore None) ord1 fills1 (px_db s) = (Inr Inserted, px_db s3)"
      and s3: "px_open s3 = AList.delete k1 (px_open s2)"
      by (auto simp: tx_commit_def split: prod.splits)
    have "hm_get (px_open s3) k2 = Some ?x2" using o2(2) assms(3) by (simp add: s3 delete_conv')
    with c(2) have p2: "persist_execution D ids2 now2 (ReadBefore None) ord2 fills2 (px_db s3) = (Inr Inserted, px_db s4)"
      by (auto simp: tx_commit_def split: prod.splits)
    have t1: "persist_tx D ids1 now1 (ReadBefore None) ord1 fills1 (px_db s) = Inr (Inserted, px_db s3)"
      by (rule persist_execution_cases [of D ids1 now1 "ReadBefore None" ord1 fills1 "px_db s"]) (use p1 in auto)
    have t2: "persist_tx D ids2 now2 (ReadBefore None) ord2 fills2 (px_db s3) = Inr (Inserted, px_db s4)"
      by (rule persist_execution_cases [of D ids2 now2 "ReadBefore None" ord2 fills2 "px_db s3"]) (use p2 in auto)
    have made: "list_all (\<lambda>f. f_market f = oi_market (lo_intent ord1)) fills1"
      "list_all (\<lambda>f. f_market f = oi_market (lo_intent ord2)) fills2" using assms(2,6) by simp_all
    from inserted_position(1) [OF t2 made(2)] obtain row where
      "pd_positions (px_db s4) = hm_put (tx_market ord1) row (pd_positions (px_db s3))"
      "core_fills D fills2 (0, 0, 0) = Some (core_of_row row)"
      by (auto simp: position_seen_def m [unfolded tx_market_def] tx_market_def)
    with inserted_position(2) [OF t1 made(1)] inserted_position(2) [OF t2 made(2)] show ?thesis
      by (simp add: hm_get_put)
  qed
  with r1 r2 show ?thesis by blast
qed

subsection \<open>A stored execution is replayed with its fills\<close>

definition canonical_fill :: "fill \<Rightarrow> fill" where
  "canonical_fill f = f\<lparr>f_venue_ref := projr (json_object_new (f_venue_ref f))\<rparr>"

text \<open>What reads reads: a well-formed market key, and an object as the venue's reference.\<close>

definition readable :: "fill \<Rightarrow> bool" where
  "readable f \<longleftrightarrow> market_key_from_string (key_str (f_market f)) = Inr (f_market f) \<and> isl (json_object_new (f_venue_ref f)) = False"

lemma parse_side_name [simp]: "parse_side (side_name s) = Inr s"
  by (cases s) (simp_all add: parse_side_def)

lemma fill_reads_back:
  assumes "readable f" "f_order_id f = i" "f_paper f"
  shows "fill_of_row i (fill_row_of j now f) = Inr (canonical_fill f)"
proof -
  from assms(1) obtain ref where "json_object_new (f_venue_ref f) = Inr ref"
    by (cases "json_object_new (f_venue_ref f)") (auto simp: readable_def)
  with assms show ?thesis
    by (simp add: fill_of_row_def fill_row_of_def readable_def canonical_fill_def money_new_def)
qed

lemma collect_results_all:
  "\<forall>r \<in> set rs. g r = Inr (h r) \<Longrightarrow> collect_results (map g rs) = Inr (map h rs)"
  by (induction rs) simp_all

text \<open>Fills and intents come with an order.\<close>

definition orders_ok :: "paper_db \<Rightarrow> bool" where
  "orders_ok db \<longleftrightarrow>
     (\<forall>r \<in> set (pd_fills db). \<exists>ord \<in> set (pd_orders db). nr_order_id ord = nf_order_id r)
     \<and> (\<forall>r \<in> set (pd_intents db). \<exists>ord \<in> set (pd_orders db). nr_order_id ord = ni_id r)"

lemma zip_fill_rows: "r \<in> set (map (\<lambda>(i, f). fill_row_of i now f) (zip js fs)) \<Longrightarrow> \<exists>i. \<exists>f \<in> set fs. r = fill_row_of i now f"
  by (auto dest: set_zip_rightD)

lemma paper_step_orders:
  assumes "orders_ok db" "ledger_made op"
  shows "orders_ok (paper_step D op db)"
proof (cases op)
  case (PoPersist ids now rd ord fills)
  show ?thesis
  proof (cases rule: persist_execution_cases [of D ids now rd ord fills db])
    case (inserted db')
    from inserted(2) show ?thesis
    proof (cases rule: persist_insertedE)
      case (1 js row qty price fee)
      have made: "lo_order_id ord = oi_id (lo_intent ord)" using assms(2) PoPersist by simp
      have new: "nr_order_id (order_row_of ord fills qty price fee) = lo_order_id ord" by (simp add: order_row_of_def)
      have "\<exists>q \<in> set (pd_orders db'). nr_order_id q = nf_order_id r" if "r \<in> set (pd_fills db')" for r
        using that zip_fill_rows [of r now js fills] assms(1) 1(3) new
        by (auto simp: 1(6,8) orders_ok_def fill_row_of_def simp del: set_map)
      moreover have "\<exists>q \<in> set (pd_orders db'). nr_order_id q = ni_id r" if "r \<in> set (pd_intents db')" for r
        using that assms(1) new made by (auto simp: 1(8,9) orders_ok_def intent_row_of_def split: if_splits)
      ultimately show ?thesis using inserted(1) by (simp add: PoPersist orders_ok_def)
    qed
  next
    case (kept r)
    with assms(1) show ?thesis by (simp add: PoPersist)
  qed
qed (use assms in \<open>simp_all add: orders_ok_def store_update_mark_def mark_fill_published_def Let_def\<close>)

lemma paper_run_orders: "orders_ok db \<Longrightarrow> list_all ledger_made ops \<Longrightarrow> orders_ok (fold (paper_step D) ops db)"
  by (induction ops arbitrary: db) (simp_all add: paper_step_orders)

text \<open>The execution is stored: its order, its intent, and exactly its fills.\<close>

definition stored_as :: "order_intent \<Rightarrow> fill list \<Rightarrow> paper_db \<Rightarrow> bool" where
  "stored_as it fs db \<longleftrightarrow>
     (\<exists>q \<in> set (pd_orders db). nr_order_id q = oi_id it)
     \<and> (\<exists>r. find (\<lambda>r. ni_id r = oi_id it) (pd_intents db) = Some r \<and> same_intent it r)
     \<and> (\<exists>js now. length js = length fs
          \<and> filter (\<lambda>r. nf_order_id r = oi_id it) (pd_fills db) = map (\<lambda>(i, f). fill_row_of i now f) (zip js fs))"

lemma find_routed:
  "find (\<lambda>r. ni_id r = i) (map (\<lambda>r. if ni_id r = j then r\<lparr>ni_state := x\<rparr> else r) rs)
    = map_option (\<lambda>r. if ni_id r = j then r\<lparr>ni_state := x\<rparr> else r) (find (\<lambda>r. ni_id r = i) rs)"
  by (induction rs) auto

lemma find_more: "find P xs = Some r \<Longrightarrow> find P (xs @ ys) = Some r"
  by (induction xs) (auto split: if_splits)

lemma find_last: "find P xs = None \<Longrightarrow> P y \<Longrightarrow> find P (xs @ [y]) = Some y"
  by (induction xs) (auto split: if_splits)

lemma same_intent_routed: "same_intent it (if c then r\<lparr>ni_state := x\<rparr> else r) = same_intent it r"
  by (simp add: same_intent_def Let_def)

lemma stored_as_step:
  assumes "stored_as it fs db"
  shows "stored_as it fs (paper_step D op db)"
proof (cases op)
  case (PoPersist ids now rd ord fills)
  show ?thesis
  proof (cases rule: persist_execution_cases [of D ids now rd ord fills db])
    case (inserted db')
    from inserted(2) show ?thesis
    proof (cases rule: persist_insertedE)
      case (1 js row qty price fee)
      have ne: "lo_order_id ord \<noteq> oi_id it" using assms 1(5) by (auto simp: stored_as_def)
      have "filter (\<lambda>r. nf_order_id r = oi_id it) (map (\<lambda>(i, f). fill_row_of i now f) (zip js fills)) = []"
        using zip_fill_rows [of _ now js fills] 1(3) ne
        by (auto simp: filter_empty_conv fill_row_of_def dest: set_zip_rightD)
      moreover from assms obtain r where "find (\<lambda>r. ni_id r = oi_id it) (pd_intents db) = Some r" "same_intent it r"
        by (auto simp: stored_as_def)
      then have "\<exists>r. find (\<lambda>r. ni_id r = oi_id it) (pd_intents db') = Some r \<and> same_intent it r"
        by (simp add: 1(9) find_routed find_more same_intent_routed)
      ultimately show ?thesis using assms inserted(1)
        by (simp add: PoPersist stored_as_def 1(6,8))
    qed
  next
    case (kept r)
    with assms show ?thesis by (simp add: PoPersist)
  qed
qed (use assms in \<open>simp_all add: stored_as_def store_update_mark_def mark_fill_published_def Let_def\<close>)

interpretation stored: invariant_machine "paper_step D" "stored_as it fs" for D it fs
  by unfold_locales (rule stored_as_step)


lemma persist_stores:
  assumes "orders_ok db" "persist_tx D ids now rd ord fills db = Inr (Inserted, db')"
    and "lo_order_id ord = oi_id (lo_intent ord)"
  shows "stored_as (lo_intent ord) fills db'" and "\<forall>f \<in> set fills. f_order_id f = oi_id (lo_intent ord) \<and> f_paper f"
    and "fills \<noteq> []" and "oi_paper (lo_intent ord)"
proof -
  let ?i = "oi_id (lo_intent ord)"
  from assms(2) have "stored_as (lo_intent ord) fills db' \<and> (\<forall>f \<in> set fills. f_order_id f = ?i \<and> f_paper f)
    \<and> fills \<noteq> [] \<and> oi_paper (lo_intent ord)"
  proof (cases rule: persist_insertedE)
    case (1 js row qty price fee)
    have fresh: "\<forall>r \<in> set (pd_intents db). ni_id r \<noteq> ?i" "filter (\<lambda>r. nf_order_id r = ?i) (pd_fills db) = []"
      using assms(1,3) 1(5) by (fastforce simp: orders_ok_def filter_empty_conv)+
    have rows: "filter (\<lambda>r. nf_order_id r = ?i) (map (\<lambda>(i, f). fill_row_of i now f) (zip js fills))
        = map (\<lambda>(i, f). fill_row_of i now f) (zip js fills)"
      using zip_fill_rows [of _ now js fills] 1(3) assms(3)
      by (auto simp: filter_id_conv fill_row_of_def dest: set_zip_rightD)
    have "find (\<lambda>r. ni_id r = ?i) (pd_intents db) = None" using fresh(1) by (auto simp: find_None_iff)
    then have "find (\<lambda>r. ni_id r = ?i) (pd_intents db @ [intent_row_of (lo_intent ord)]) = Some (intent_row_of (lo_intent ord))"
      by (rule find_last) (simp add: intent_row_of_def)
    moreover have "\<not> (\<exists>r \<in> set (pd_intents db). ni_id r = ?i)" using fresh(1) by blast
    ultimately have "find (\<lambda>r. ni_id r = ?i) (pd_intents db') = Some ((intent_row_of (lo_intent ord))\<lparr>ni_state := ''routed''\<rparr>)"
      by (simp only: 1(9) find_routed if_False) (simp add: intent_row_of_def)
    moreover have "same_intent (lo_intent ord) ((intent_row_of (lo_intent ord))\<lparr>ni_state := ''routed''\<rparr>)"
      by (simp add: same_intent_def Let_def)
    moreover have "\<exists>q \<in> set (pd_orders db'). nr_order_id q = ?i" using assms(3) by (simp add: 1(8) order_row_of_def)
    moreover have "filter (\<lambda>r. nf_order_id r = ?i) (pd_fills db') = map (\<lambda>(i, f). fill_row_of i now f) (zip js fills)"
      by (simp only: 1(6) filter_append fresh(2) rows append_Nil)
    ultimately have "stored_as (lo_intent ord) fills db'" using 1(1) unfolding stored_as_def by blast
    with 1(2,3,4) assms(3) show ?thesis by simp
  qed
  then show "stored_as (lo_intent ord) fills db'" "\<forall>f \<in> set fills. f_order_id f = oi_id (lo_intent ord) \<and> f_paper f"
    "fills \<noteq> []" "oi_paper (lo_intent ord)" by simp_all
qed

lemma stored_replays:
  assumes "stored_as it fs db" "oi_paper it" "fs \<noteq> []" "\<forall>f \<in> set fs. f_order_id f = oi_id it \<and> f_paper f" "list_all readable fs"
  shows "\<exists>fs'. existing_execution it db = Inr (Some fs') \<and> mset fs' = mset (map canonical_fill fs)"
proof -
  from assms(1) obtain r js now where r: "find (\<lambda>r. ni_id r = oi_id it) (pd_intents db) = Some r" "same_intent it r"
    and js: "length js = length fs"
    and rows: "filter (\<lambda>r. nf_order_id r = oi_id it) (pd_fills db) = map (\<lambda>(i, f). fill_row_of i now f) (zip js fs)"
    by (auto simp: stored_as_def)
  let ?rows = "sort_key nf_created_ts (sort_key nf_id (filter (\<lambda>f. nf_order_id f = oi_id it) (pd_fills db)))"
  let ?h = "\<lambda>r. projr (fill_of_row (oi_id it) r)"
  have reads: "fill_of_row (oi_id it) (fill_row_of i now f) = Inr (canonical_fill f)" if "f \<in> set fs" for i f
    by (rule fill_reads_back) (use that assms(4,5) in \<open>simp_all add: list_all_iff\<close>)
  have "\<forall>r \<in> set ?rows. fill_of_row (oi_id it) r = Inr (?h r)"
    using zip_fill_rows [of _ now js fs] reads by (auto simp: rows dest: set_zip_rightD)
  from collect_results_all [OF this]
  have "collect_results (map (fill_of_row (oi_id it)) ?rows) = Inr (map ?h ?rows)" .
  moreover have "?rows \<noteq> []"
  proof
    assume "?rows = []"
    then have "mset (map (\<lambda>(i, f). fill_row_of i now f) (zip js fs)) = {#}" by (metis rows mset_sort mset.simps(1))
    with js assms(3) show False by (cases js; cases fs) simp_all
  qed
  ultimately have "existing_execution it db = Inr (Some (map ?h ?rows))"
    using r assms(2) by (simp add: existing_execution_def Let_def)
  moreover have "mset (map ?h ?rows) = mset (map canonical_fill fs)"
  proof -
    have "mset (map ?h ?rows) = mset (map ?h (map (\<lambda>(i, f). fill_row_of i now f) (zip js fs)))"
      by (simp only: mset_map mset_sort rows)
    also have "map ?h (map (\<lambda>(i, f). fill_row_of i now f) (zip js fs)) = map canonical_fill fs"
      using js reads by (induction js fs rule: list_induct2) simp_all
    finally show ?thesis .
  qed
  ultimately show ?thesis by blast
qed

text \<open>
  Property C17. An execution that was stored stays stored: after any later executions (of other orders or
  of the same one again), marks and publications, asking for the intent returns the fills it was stored
  with, each with its reference in canonical form, possibly in another order.
\<close>

theorem stored_execution_replays:
  assumes "db = fold (paper_step D) ops (paper_start markets mids)" "list_all ledger_made ops"
    and "persist_execution D ids now rd ord fills db = (Inr Inserted, db1)"
    and "lo_order_id ord = oi_id (lo_intent ord)" "list_all readable fills"
    and "db2 = fold (paper_step D) later db1"
  shows "\<exists>fs. existing_execution (lo_intent ord) db2 = Inr (Some fs) \<and> mset fs = mset (map canonical_fill fills)"
proof -
  have "orders_ok (paper_start markets mids)" by (simp add: orders_ok_def paper_start_def)
  from paper_run_orders [OF this assms(2)] have ok: "orders_ok db" unfolding assms(1) .
  have tx: "persist_tx D ids now rd ord fills db = Inr (Inserted, db1)"
    using assms(3) by (cases rule: persist_execution_cases [of D ids now rd ord fills db]) auto
  note st = persist_stores [OF ok tx assms(4)]
  have "stored_as (lo_intent ord) fills db2" unfolding assms(6) by (rule stored.run_inv [OF st(1)])
  from stored_replays [OF this st(4,3,2) assms(5)] show ?thesis .
qed


subsection \<open>Witnesses\<close>

definition wit_paper_intent :: "ulid \<Rightarrow> order_intent" where
  "wit_paper_intent i =
     \<lparr>oi_id = i, oi_market = MarketKey ''mkt:a:x'', oi_side = Buy, oi_order_type = Market, oi_limit_price = None, oi_size = 3,
       oi_size_unit = Contracts, oi_tif = Ioc, oi_paper = True,
       oi_origin = \<lparr>or_kind = OriginHuman, or_tier = 3, or_actor_id = 1\<rparr>,
       oi_quote_snapshot = \<lparr>q_market = MarketKey ''mkt:a:x'', q_bid = None, q_ask = None, q_mid = None, q_last = None,
         q_bid_size = None, q_ask_size = None, q_ts = 0, q_source = Snapshot, q_seq = None\<rparr>,
       oi_caps_version = 1, oi_created_ts = 0\<rparr>"

definition wit_paper_order :: "ulid \<Rightarrow> ledger_order" where
  "wit_paper_order i = \<lparr>lo_order_id = i, lo_intent = wit_paper_intent i, lo_status = Filled, lo_created_ts = 0, lo_updated_ts = 0\<rparr>"

definition wit_paper_fill :: "ulid \<Rightarrow> fill" where
  "wit_paper_fill i =
     \<lparr>f_order_id = i, f_market = MarketKey ''mkt:a:x'', f_side = Buy, f_price = 2, f_size = 3, f_fee = \<lparr>amount = 0, currency = ''USD''\<rparr>,
       f_venue_ref = JObject [], f_ts = 0, f_paper = True\<rparr>"

definition wit_paper_start :: paper_db where
  "wit_paper_start = paper_start [''mkt:a:x''] []"

definition wit_persist :: "position_read \<Rightarrow> ulid \<Rightarrow> paper_op" where
  "wit_persist rd i = PoPersist (\<lambda>_. i) 0 rd (wit_paper_order i) [wit_paper_fill i]"

lemmas paper_eval = wit_paper_intent_def wit_paper_order_def wit_paper_fill_def wit_paper_start_def paper_start_def
  persist_tx_def position_seen_def check_execution_def insert_intent_def check_market_def order_totals_def or_panic_def insert_fill_def
  new_position_row_def restored_def apply_fill_def position_zero_def size_delta_def charge_fee_def
  meet_position_def checked_add_w_def position_restore_def average_in_def mark_routed_def Let_def hm_get_put

definition wit_after :: "position_read \<Rightarrow> ulid \<Rightarrow> paper_db \<Rightarrow> paper_db" where
  "wit_after rd i db = snd (persist_execution dec_exact (\<lambda>_. i) 0 rd (wit_paper_order i) [wit_paper_fill i] db)"

lemma wit_inserts:
  "persist_tx dec_exact (\<lambda>_. 7) 0 ReadNow (wit_paper_order 7) [wit_paper_fill 7] wit_paper_start
    = Inr (Inserted, wit_after ReadNow 7 wit_paper_start)"
  "persist_tx dec_exact (\<lambda>_. 8) 0 (ReadBefore None) (wit_paper_order 8) [wit_paper_fill 8] (wit_after ReadNow 7 wit_paper_start)
    = Inr (Inserted, wit_after (ReadBefore None) 8 (wit_after ReadNow 7 wit_paper_start))"
  "persist_tx dec_exact (\<lambda>_. 7) 0 (ReadBefore None) (wit_paper_order 7) [wit_paper_fill 7] wit_paper_start
    = Inr (Inserted, wit_after (ReadBefore None) 7 wit_paper_start)"
  "persist_tx dec_exact (\<lambda>_. 8) 0 (ReadBefore None) (wit_paper_order 8) [wit_paper_fill 8] (wit_after (ReadBefore None) 7 wit_paper_start)
    = Inr (Inserted, wit_after (ReadBefore None) 8 (wit_after (ReadBefore None) 7 wit_paper_start))"
  by (simp_all add: paper_eval wit_after_def persist_execution_def commit_tx_def intent_row_of_def order_row_of_def
      fill_row_of_def outbox_row_of_def)

lemma wit_made: "list_all (\<lambda>f. f_market f = oi_market (lo_intent (wit_paper_order i))) [wit_paper_fill i]"
  by (simp add: paper_eval)

theorem durable_positions_refine_tracker_witness:
  "map_option core_of_row (hm_get (pd_positions (wit_after ReadNow 7 wit_paper_start)) ''mkt:a:x'') = Some (3, 2, 0)"
proof -
  have db: "wit_after ReadNow 7 wit_paper_start = fold (paper_step dec_exact) [wit_persist ReadNow 7] (paper_start [''mkt:a:x''] [])"
    by (simp add: wit_persist_def wit_after_def wit_paper_start_def)
  have fills: "stored_fills (wit_after ReadNow 7 wit_paper_start) = [wit_paper_fill 7]"
    using inserted_position(2) [OF wit_inserts(1) wit_made] by (simp add: stored_fills_def wit_paper_start_def paper_start_def)
  have "apply_fills dec_exact (stored_fills (wit_after ReadNow 7 wit_paper_start)) [] = Inr [(MarketKey ''mkt:a:x'',
      \<lparr>po_market = MarketKey ''mkt:a:x'', po_net_size = 3, po_avg_entry_price = 2, po_realized_pnl = 0, po_fill_count = 1, po_fees_paid = 0\<rparr>)]"
    unfolding fills by (simp add: paper_eval)
  from durable_positions_refine_tracker [OF _ _ db this, of "MarketKey ''mkt:a:x''"] show ?thesis
    by (simp add: wit_persist_def wit_made core_of_def) (simp add: paper_eval)
qed

definition wit_sys :: paper_sys where
  "wit_sys = \<lparr>px_db = wit_paper_start, px_open = []\<rparr>"

text \<open>Two purchases of three: six are bought, the stored position holds three.\<close>

theorem racing_open_loses_position_witness:
  "\<exists>s1 s2 s3 s4 row. tx_read 1 (\<lambda>_. 7) 0 (wit_paper_order 7) [wit_paper_fill 7] wit_sys = Some s1
    \<and> tx_read 2 (\<lambda>_. 8) 0 (wit_paper_order 8) [wit_paper_fill 8] s1 = Some s2
    \<and> tx_commit dec_exact 1 s2 = Some (Inr Inserted, s3) \<and> tx_commit dec_exact 2 s3 = Some (Inr Inserted, s4)
    \<and> stored_fills (px_db s4) = [wit_paper_fill 7, wit_paper_fill 8]
    \<and> hm_get (pd_positions (px_db s4)) ''mkt:a:x'' = Some row \<and> np_side_exposure row = 3"
proof -
  have m: "tx_market (wit_paper_order i) = ''mkt:a:x''" "oi_market (lo_intent (wit_paper_order i)) = MarketKey ''mkt:a:x''" for i
    by (simp_all add: tx_market_def wit_paper_order_def wit_paper_intent_def)
  have empty: "hm_get (pd_positions (px_db wit_sys)) (tx_market (wit_paper_order 7)) = None" "hm_get (px_open wit_sys) k = None" for k
    by (simp_all add: wit_sys_def wit_paper_start_def paper_start_def)
  have made: "list_all (\<lambda>f. f_market f = oi_market (lo_intent (wit_paper_order 7))) ([wit_paper_fill 7] @ [wit_paper_fill 8])"
    by (simp add: m wit_paper_fill_def)
  from racing_open_loses_position [OF empty(1) _ _ empty(2) empty(2) made, of "wit_paper_order 8" 1 2 "\<lambda>_. 7" 0 "\<lambda>_. 8" 0 dec_exact]
  obtain s1 s2 where reads: "tx_read 1 (\<lambda>_. 7) 0 (wit_paper_order 7) [wit_paper_fill 7] wit_sys = Some s1"
      "tx_read 2 (\<lambda>_. 8) 0 (wit_paper_order 8) [wit_paper_fill 8] s1 = Some s2"
    and ends: "\<And>s3 s4. tx_commit dec_exact 1 s2 = Some (Inr Inserted, s3) \<Longrightarrow> tx_commit dec_exact 2 s3 = Some (Inr Inserted, s4) \<Longrightarrow>
         stored_fills (px_db s4) = stored_fills (px_db wit_sys) @ [wit_paper_fill 7] @ [wit_paper_fill 8]
         \<and> (\<exists>row. hm_get (pd_positions (px_db s4)) (tx_market (wit_paper_order 7)) = Some row
              \<and> core_fills dec_exact [wit_paper_fill 8] (0, 0, 0) = Some (core_of_row row))"
    by (auto simp: m)
  have s2: "px_db s2 = wit_paper_start" "hm_get (px_open s2) 1 = Some \<lparr>ox_ids = \<lambda>_. 7, ox_now = 0, ox_order = wit_paper_order 7,
      ox_fills = [wit_paper_fill 7], ox_seen = None\<rparr>" "hm_get (px_open s2) 2 = Some \<lparr>ox_ids = \<lambda>_. 8, ox_now = 0, ox_order = wit_paper_order 8,
      ox_fills = [wit_paper_fill 8], ox_seen = None\<rparr>"
    using reads by (auto simp: tx_read_def Let_def m wit_sys_def wit_paper_start_def paper_start_def hm_get_put split: if_splits)
  define s3 where "s3 = \<lparr>px_db = wit_after (ReadBefore None) 7 wit_paper_start, px_open = AList.delete 1 (px_open s2)\<rparr>"
  define s4 where "s4 = \<lparr>px_db = wit_after (ReadBefore None) 8 (px_db s3), px_open = AList.delete 2 (px_open s3)\<rparr>"
  have c1: "tx_commit dec_exact 1 s2 = Some (Inr Inserted, s3)"
    unfolding tx_commit_def s2 by (simp add: wit_inserts(3) s3_def persist_execution_def commit_tx_def)
  have "hm_get (px_open s3) 2 = Some \<lparr>ox_ids = \<lambda>_. 8, ox_now = 0, ox_order = wit_paper_order 8, ox_fills = [wit_paper_fill 8], ox_seen = None\<rparr>"
    using s2(3) by (simp add: s3_def delete_conv')
  then have c2: "tx_commit dec_exact 2 s3 = Some (Inr Inserted, s4)"
    using wit_inserts(4) by (simp add: tx_commit_def s4_def s3_def persist_execution_def commit_tx_def)
  from ends [OF c1 c2] obtain row where "hm_get (pd_positions (px_db s4)) ''mkt:a:x'' = Some row"
    and core: "core_fills dec_exact [wit_paper_fill 8] (0, 0, 0) = Some (core_of_row row)"
    and fills: "stored_fills (px_db s4) = [wit_paper_fill 7, wit_paper_fill 8]"
    by (auto simp: m wit_sys_def wit_paper_start_def paper_start_def stored_fills_def)
  moreover have "np_side_exposure row = 3"
    using core by (simp add: core_step_def with_core_def core_of_def core_of_row_def wit_paper_fill_def size_delta_def
        meet_position_def average_in_def Let_def)
  ultimately show ?thesis using reads c1 c2 by blast
qed

theorem stored_execution_replays_witness:
  "\<exists>fs. existing_execution (lo_intent (wit_paper_order 7)) (fold (paper_step dec_exact) [wit_persist ReadNow 8, wit_persist ReadNow 7] (wit_after ReadNow 7 wit_paper_start))
      = Inr (Some fs) \<and> mset fs = mset (map canonical_fill [wit_paper_fill 7])"
proof (rule stored_execution_replays [where ops = "[]" and markets = "[''mkt:a:x'']" and mids = "[]" and db = wit_paper_start
      and rd = ReadNow and now = 0 and ids = "\<lambda>_. 7" and D = dec_exact and later = "[wit_persist ReadNow 8, wit_persist ReadNow 7]"])
  show "persist_execution dec_exact (\<lambda>_. 7) 0 ReadNow (wit_paper_order 7) [wit_paper_fill 7] wit_paper_start
      = (Inr Inserted, wit_after ReadNow 7 wit_paper_start)"
    using wit_inserts(1) by (simp add: persist_execution_def commit_tx_def)
  have "market_key_from_string ''mkt:a:x'' = Inr (MarketKey ''mkt:a:x'')" by code_simp
  moreover have "json_object_new (JObject []) = Inr (JObject [])" by (simp add: json_object_new_def)
  ultimately show "list_all readable [wit_paper_fill 7]" by (simp add: readable_def wit_paper_fill_def)
qed (simp_all add: wit_paper_start_def wit_paper_order_def wit_paper_intent_def)

end
