(* ===== verification/Paper_Service.thy ===== *)
theory Paper_Service
  imports Paper_Store
begin

text \<open>
  The service of the paper ledger (\<^verbatim>\<open>connectors/execution/paper-ledger\<close>): the opportunities that an
  execution moves on and closes (the second half of \<^verbatim>\<open>persistence.rs\<close>), the submission of an intent
  with the outboxes in memory and in the tables (\<^verbatim>\<open>service.rs\<close>), and the rounds of the process
  (\<^verbatim>\<open>main.rs\<close>). The lemmas show that a flush that returns has published everything that was pending,
  that a stored intent is answered with its stored fills and without a second execution, and that the
  store of opportunities keeps its invariant.
\<close>

subsection \<open>Opportunities (persistence.rs)\<close>

primrec opportunity_state_name :: "opportunity_state \<Rightarrow> string" where
  "opportunity_state_name Detected = ''detected''"
| "opportunity_state_name Scored = ''scored''"
| "opportunity_state_name Surfaced = ''surfaced''"
| "opportunity_state_name opportunity_state.Accepted = ''accepted''"
| "opportunity_state_name Ignored = ''ignored''"
| "opportunity_state_name OppExpired = ''expired''"
| "opportunity_state_name Executed = ''executed''"
| "opportunity_state_name OppClosed = ''closed''"

definition read_opportunity_state :: "ulid \<Rightarrow> lifecycle_db \<Rightarrow> persistence_error + opportunity_state" where
  "read_opportunity_state i db =
     (case find_row i db of
        None \<Rightarrow> Inl (PeInvalidOpportunityState i ''existing opportunity'' ''missing'')
      | Some r \<Rightarrow> Inr (ow_state r))"

fun database_error :: "unit lifecycle_error \<Rightarrow> persistence_error" where
  "database_error (LeDatabase s) = PeDatabase s"
| "database_error _ = PeDatabase []"

definition transition_opportunity ::
  "ulid \<Rightarrow> ulid \<Rightarrow> opportunity_state \<Rightarrow> opportunity_state \<Rightarrow> json \<Rightarrow> lifecycle_db \<Rightarrow> persistence_error + lifecycle_db" where
  "transition_opportunity eid i from to detail db =
     map_err database_error (append_transition eid i from to ''paper-ledger'' detail db)"

text \<open>Texts of decimals and identifiers are the libraries'.\<close>

record texts =
  tx_dec :: "decimal \<Rightarrow> string"
  tx_ulid :: "ulid \<Rightarrow> string"

definition execution_detail :: "texts \<Rightarrow> ulid \<Rightarrow> decimal \<Rightarrow> decimal \<Rightarrow> nat \<Rightarrow> json" where
  "execution_detail T ord requested got n =
     JObject [(''order_id'', JString (tx_ulid T ord)), (''fill_count'', JNumber (show_nat n)),
       (''filled_size'', JString (tx_dec T got)), (''partial'', JBool (got < requested))]"

definition record_execution_tx ::
  "dec_ops \<Rightarrow> texts \<Rightarrow> ulid \<Rightarrow> ulid \<Rightarrow> ulid \<Rightarrow> decimal \<Rightarrow> fill list \<Rightarrow> lifecycle_db
     \<Rightarrow> persistence_error + unit \<times> lifecycle_db" where
  "record_execution_tx D T eid opp ord requested fills db =
     and_then (read_opportunity_state opp db) (\<lambda>st.
       if st = Executed then Inr ((), db)
       else if st \<noteq> opportunity_state.Accepted
       then Inl (PeInvalidOpportunityState opp ''accepted or executed'' (opportunity_state_name st))
       else
         and_then (or_panic (dec_add_all D 0 (map f_size fills))) (\<lambda>got.
         map_ok (Pair ()) (transition_opportunity eid opp opportunity_state.Accepted Executed
           (execution_detail T ord requested got (length fills)) db)))"

definition record_opportunity_execution ::
  "dec_ops \<Rightarrow> texts \<Rightarrow> ulid \<Rightarrow> ulid \<Rightarrow> ulid \<Rightarrow> decimal \<Rightarrow> fill list \<Rightarrow> lifecycle_db
     \<Rightarrow> (persistence_error + unit) \<times> lifecycle_db" where
  "record_opportunity_execution D T eid opp ord requested fills db =
     commit_tx (record_execution_tx D T eid opp ord requested fills) db"

record attribution_components =
  at_predicted_fees :: decimal
  at_realized_fees :: decimal
  at_predicted_slippage :: decimal
  at_realized_slippage :: decimal
  at_predicted_funding :: "decimal option"
  at_realized_funding :: "decimal option"

record attribution_close =
  cl_opportunity_id :: ulid
  cl_predicted_net_edge :: decimal
  cl_realized_pnl :: decimal
  cl_outcome :: string
  cl_components :: attribution_components

definition divergence_of :: "dec_ops \<Rightarrow> texts \<Rightarrow> decimal \<Rightarrow> decimal \<Rightarrow> json option" where
  "divergence_of D T predicted realized =
     map_option (\<lambda>d. JObject [(''predicted'', JString (tx_dec T predicted)), (''realized'', JString (tx_dec T realized)),
         (''divergence'', JString (tx_dec T d))]) (dec_sub D realized predicted)"

definition divergence_detail :: "dec_ops \<Rightarrow> texts \<Rightarrow> attribution_components \<Rightarrow> json option" where
  "divergence_detail D T a =
     Option.bind (divergence_of D T (at_predicted_fees a) (at_realized_fees a)) (\<lambda>fees.
     Option.bind (divergence_of D T (at_predicted_slippage a) (at_realized_slippage a)) (\<lambda>slippage.
     Option.bind (case (at_predicted_funding a, at_realized_funding a) of
          (Some p, Some r) \<Rightarrow> divergence_of D T p r
        | _ \<Rightarrow> Some (JObject [(''detail'', JString ''not_recoverable'')])) (\<lambda>funding.
       Some (JObject [(''fees'', fees), (''slippage'', slippage), (''funding'', funding)]))))"

text \<open>One attribution per opportunity: a second one replaces the values of the first.\<close>

definition upsert_attribution :: "attribution_row \<Rightarrow> lifecycle_db \<Rightarrow> persistence_error + lifecycle_db" where
  "upsert_attribution a db =
     (if \<exists>b \<in> set (ld_attribution db). aw_opportunity b = aw_opportunity a
      then Inr (db\<lparr>ld_attribution := map (\<lambda>b. if aw_opportunity b = aw_opportunity a
             then b\<lparr>aw_predicted_net_edge := aw_predicted_net_edge a, aw_realized_pnl := aw_realized_pnl a,
                    aw_outcome := aw_outcome a, aw_closed_ts := aw_closed_ts a, aw_detail := aw_detail a\<rparr> else b) (ld_attribution db)\<rparr>)
      else if \<exists>b \<in> set (ld_attribution db). aw_id b = aw_id a then Inl (PeDatabase ''duplicate attribution id'')
      else Inr (db\<lparr>ld_attribution := ld_attribution db @ [a]\<rparr>))"

definition close_tx ::
  "dec_ops \<Rightarrow> texts \<Rightarrow> ulid \<Rightarrow> ulid \<Rightarrow> utc_time \<Rightarrow> attribution_close \<Rightarrow> lifecycle_db \<Rightarrow> persistence_error + unit \<times> lifecycle_db" where
  "close_tx D T aid eid now cl db =
     and_then (read_opportunity_state (cl_opportunity_id cl) db) (\<lambda>st.
       if st \<noteq> Executed \<and> st \<noteq> OppClosed
       then Inl (PeInvalidOpportunityState (cl_opportunity_id cl) ''executed or closed'' (opportunity_state_name st))
       else
         and_then (or_panic (divergence_detail D T (cl_components cl))) (\<lambda>detail.
         and_then (upsert_attribution \<lparr>aw_id = aid, aw_opportunity = cl_opportunity_id cl,
             aw_predicted_net_edge = cl_predicted_net_edge cl, aw_realized_pnl = Some (cl_realized_pnl cl),
             aw_outcome = Some (cl_outcome cl), aw_closed_ts = Some now, aw_reason_ignored = None, aw_detail = detail\<rparr> db) (\<lambda>db1.
         if st = Executed
         then map_ok (Pair ()) (transition_opportunity eid (cl_opportunity_id cl) Executed OppClosed detail db1)
         else Inr ((), db1))))"

definition close_opportunity ::
  "dec_ops \<Rightarrow> texts \<Rightarrow> ulid \<Rightarrow> ulid \<Rightarrow> utc_time \<Rightarrow> attribution_close \<Rightarrow> lifecycle_db
     \<Rightarrow> (persistence_error + unit) \<times> lifecycle_db" where
  "close_opportunity D T aid eid now cl db = commit_tx (close_tx D T aid eid now cl) db"

subsection \<open>The service (service.rs)\<close>

datatype 'k service_error =
    SvLedger ledger_error
  | SvPublish "'k producer_error"
  | SvPersistence persistence_error

record 'p paper_world =
  pw_ledger :: paper_ledger
  pw_outbox :: "fill list"
  pw_producer :: 'p
  pw_db :: paper_db
  pw_opps :: lifecycle_db

text \<open>What a call reads from outside: the arithmetic and the texts, the clock, fresh ids for fills, events
  and envelopes, whether the position was read too early, and what other processes commit between the
  look at the stored execution and the transaction.\<close>

record ('k, 'p) service_env =
  sv_ops :: dec_ops
  sv_render :: render
  sv_texts :: texts
  sv_now :: utc_time
  sv_now_text :: string
  sv_fill_ids :: "nat \<Rightarrow> ulid"
  sv_event_id :: ulid
  sv_traces :: "nat \<Rightarrow> string"
  sv_read :: position_read
  sv_others :: "paper_db \<Rightarrow> paper_db"
  sv_send :: "('k, fill envelope, 'p) producer"

definition fill_envelope :: "('k, 'p) service_env \<Rightarrow> nat \<Rightarrow> fill \<Rightarrow> fill envelope" where
  "fill_envelope E n f = envelope_new (sv_traces E n) (sv_now_text E) ''fill'' f"

text \<open>The outbox in memory: a fill leaves it once the producer has taken it.\<close>

fun flush_outbox ::
  "('k, 'p) service_env \<Rightarrow> fill list \<Rightarrow> 'p \<Rightarrow> ('k producer_error + unit) \<times> fill list \<times> 'p" where
  "flush_outbox E [] p = (Inr (), [], p)"
| "flush_outbox E (f # fs) p =
     (case sv_send E topic_orders_fills (fill_envelope E (length fs) f) (Some (key_str (f_market f))) p of
        (Inl e, p') \<Rightarrow> (Inl e, f # fs, p')
      | (Inr _, p') \<Rightarrow> flush_outbox E fs p')"

definition service_submit ::
  "('k, 'p) service_env \<Rightarrow> order_intent \<Rightarrow> order_book \<Rightarrow> 'p paper_world \<Rightarrow> ('k service_error + submission) \<times> 'p paper_world" where
  "service_submit E it book w =
     (case ledger_execute (sv_ops E) (sv_render E) (sv_now E) it book (pw_ledger w) of
        (Inl e, l) \<Rightarrow> (Inl (SvLedger e), w\<lparr>pw_ledger := l\<rparr>)
      | (Inr sb, l) \<Rightarrow>
          (case flush_outbox E (if sb_replayed sb then pw_outbox w else pw_outbox w @ sb_fills sb) (pw_producer w) of
             (r, queue, p) \<Rightarrow>
               (map_ok (\<lambda>_. sb) (map_err SvPublish r), w\<lparr>pw_ledger := l, pw_outbox := queue, pw_producer := p\<rparr>)))"

text \<open>The outbox in the tables; the envelope's trace is the event's id.\<close>

fun flush_events ::
  "('k, 'p) service_env \<Rightarrow> durable_fill_event list \<Rightarrow> 'p \<times> paper_db \<Rightarrow> ('k service_error + unit) \<times> 'p \<times> paper_db" where
  "flush_events E [] s = (Inr (), s)"
| "flush_events E (ev # evs) s =
     (case sv_send E topic_orders_fills
          ((fill_envelope E (length evs) (df_fill ev))\<lparr>ev_trace_id := tx_ulid (sv_texts E) (df_event_id ev)\<rparr>)
          (Some (key_str (f_market (df_fill ev)))) (fst s) of
        (Inl e, p) \<Rightarrow> (Inl (SvPublish e), p, snd s)
      | (Inr _, p) \<Rightarrow>
          (case mark_fill_published (sv_now E) (df_event_id ev) (snd s) of
             (Inl e, db) \<Rightarrow> (Inl (SvPersistence e), p, db)
           | (Inr _, db) \<Rightarrow> flush_events E evs (p, db)))"

definition flush_persisted_outbox ::
  "('k, 'p) service_env \<Rightarrow> 'p paper_world \<Rightarrow> ('k service_error + unit) \<times> 'p paper_world" where
  "flush_persisted_outbox E w =
     (case flush_events E (pending_fill_events (pw_db w)) (pw_producer w, pw_db w) of
        (r, p, db) \<Rightarrow> (r, w\<lparr>pw_producer := p, pw_db := db\<rparr>))"

definition move_opportunity ::
  "('k, 'p) service_env \<Rightarrow> ulid option \<Rightarrow> order_intent \<Rightarrow> fill list \<Rightarrow> 'p paper_world \<Rightarrow> ('k service_error + unit) \<times> 'p paper_world" where
  "move_opportunity E opp it fills w =
     (case opp of
        None \<Rightarrow> (Inr (), w)
      | Some i \<Rightarrow>
          (case record_opportunity_execution (sv_ops E) (sv_texts E) (sv_event_id E) i (oi_id it) (oi_size it) fills (pw_opps w) of
             (r, opps) \<Rightarrow> (map_err SvPersistence r, w\<lparr>pw_opps := opps\<rparr>)))"

definition answer_stored ::
  "('k, 'p) service_env \<Rightarrow> ulid option \<Rightarrow> order_intent \<Rightarrow> fill list \<Rightarrow> bool \<Rightarrow> 'p paper_world
     \<Rightarrow> ('k service_error + submission) \<times> 'p paper_world" where
  "answer_stored E opp it fills replayed =
     then_do (move_opportunity E opp it fills) (\<lambda>_.
     then_do (flush_persisted_outbox E) (\<lambda>_. Pair (Inr \<lparr>sb_fills = fills, sb_replayed = replayed\<rparr>)))"

definition submit_persisted ::
  "('k, 'p) service_env \<Rightarrow> order_intent \<Rightarrow> order_book \<Rightarrow> ulid option \<Rightarrow> 'p paper_world
     \<Rightarrow> ('k service_error + submission) \<times> 'p paper_world" where
  "submit_persisted E it book opp w =
     (case existing_execution it (pw_db w) of
        Inl e \<Rightarrow> (Inl (SvPersistence e), w)
      | Inr (Some fills) \<Rightarrow> answer_stored E opp it fills True w
      | Inr None \<Rightarrow>
          (let before = pw_ledger w;
               w1 = w\<lparr>pw_db := sv_others E (pw_db w)\<rparr>
           in case ledger_execute (sv_ops E) (sv_render E) (sv_now E) it book before of
                (Inl e, l) \<Rightarrow> (Inl (SvLedger e), w1\<lparr>pw_ledger := l\<rparr>)
              | (Inr sb, l) \<Rightarrow>
                  (case hm_get (pl_orders l) (oi_id it) of
                     None \<Rightarrow> (Inl (SvLedger (LedgerRejected (Lit ''executed order missing from ledger''))), w1\<lparr>pw_ledger := l\<rparr>)
                   | Some ord \<Rightarrow>
                       (case persist_execution (sv_ops E) (sv_fill_ids E) (sv_now E) (sv_read E) ord (sb_fills sb) (pw_db w1) of
                          (Inl e, db) \<Rightarrow> (Inl (SvPersistence e), w1\<lparr>pw_ledger := l, pw_db := db\<rparr>)
                        | (Inr AlreadyExists, db) \<Rightarrow>
                            (case existing_execution it db of
                               Inl e \<Rightarrow> (Inl (SvPersistence e), w1\<lparr>pw_db := db\<rparr>)
                             | Inr None \<Rightarrow>
                                 (Inl (SvLedger (LedgerRejected (Lit ''durable idempotency winner has no execution''))), w1\<lparr>pw_db := db\<rparr>)
                             | Inr (Some fills) \<Rightarrow> answer_stored E opp it fills True (w1\<lparr>pw_db := db\<rparr>))
                        | (Inr Inserted, db) \<Rightarrow>
                            answer_stored E opp it (sb_fills sb) False (w1\<lparr>pw_ledger := l, pw_db := db\<rparr>)))))"

subsection \<open>The process (main.rs)\<close>

definition configured_book_topics :: "string \<Rightarrow> string + string list" where
  "configured_book_topics raw =
     (let topics = filter (\<lambda>t. t \<noteq> []) (map trim_str (split_char (CHR '','') raw))
      in if topics = [] \<or> (\<exists>t \<in> set topics. \<not> starts_with ''md.books.'' t)
         then Inl ''AETHER_PAPER_BOOK_TOPICS must list comma-separated md.books.<venue> topics''
         else Inr topics)"

text \<open>One book: its midpoint marks the position, and it replaces the cached book of its market.\<close>

definition take_book ::
  "dec_ops \<Rightarrow> utc_time \<Rightarrow> order_book \<Rightarrow> paper_db \<times> (market_key, order_book) hash_map
     \<Rightarrow> (persistence_error + unit) \<times> paper_db \<times> (market_key, order_book) hash_map" where
  "take_book D now b = (\<lambda>(db, cache).
     (case (case (ob_bids b, ob_asks b) of
              (bid # _, ask # _) \<Rightarrow>
                (case Option.bind (dec_add D (lv_price bid) (lv_price ask)) (\<lambda>s. dec_div D s 2) of
                   None \<Rightarrow> (Inl PePanic, db)
                 | Some mark \<Rightarrow> store_update_mark (ob_market b) mark now db)
            | _ \<Rightarrow> (Inr (), db)) of
        (Inl e, db') \<Rightarrow> (Inl e, db', cache)
      | (Inr _, db') \<Rightarrow> (Inr (), db', hm_put (ob_market b) b cache)))"

text \<open>One intent; the process waits until there is a book for its market.\<close>

definition take_intent ::
  "('k, 'p) service_env \<Rightarrow> order_intent \<Rightarrow> (market_key, order_book) hash_map \<Rightarrow> 'p paper_world
     \<Rightarrow> (('k service_error + submission) \<times> 'p paper_world) option" where
  "take_intent E it cache w =
     map_option (\<lambda>book. submit_persisted E it book None w) (hm_get cache (oi_market it))"


subsection \<open>Opportunities keep their invariant\<close>

lemma transition_opportunity_inv:
  assumes "lifecycle_inv db" "transition_opportunity eid i from to detail db = Inr db'"
  shows "lifecycle_inv db'"
  using assms append_transition_inv unfolding transition_opportunity_def map_err_Inr_iff by blast

lemma upsert_attribution_inv:
  assumes "lifecycle_inv db" "upsert_attribution a db = Inr db'"
  shows "lifecycle_inv db'"
proof -
  have rows: "ld_opportunities db' = ld_opportunities db" "ld_events db' = ld_events db"
    using assms(2) by (auto simp: upsert_attribution_def split: if_splits)
  have ids: "map aw_opportunity (map (\<lambda>b. if aw_opportunity b = i then b\<lparr>aw_predicted_net_edge := e, aw_realized_pnl := pn,
      aw_outcome := oc, aw_closed_ts := ts, aw_detail := d\<rparr> else b) xs) = map aw_opportunity xs" for i e pn oc ts d xs
    by (induction xs) simp_all
  have "aw_opportunity ` set (ld_attribution db) \<subseteq> aw_opportunity ` set (ld_attribution db')"
  proof (cases "\<exists>b \<in> set (ld_attribution db). aw_opportunity b = aw_opportunity a")
    case True
    with assms(2) have "map aw_opportunity (ld_attribution db') = map aw_opportunity (ld_attribution db)"
      by (simp only: upsert_attribution_def if_True Inr_inject) (use ids in force)
    then have "set (map aw_opportunity (ld_attribution db')) = set (map aw_opportunity (ld_attribution db))" by simp
    then show ?thesis by simp
  next
    case False
    with assms(2) show ?thesis by (auto simp: upsert_attribution_def split: if_splits)
  qed
  note sub = this
  have att: "\<exists>b \<in> set (ld_attribution db'). aw_opportunity b = i"
    if "\<exists>b \<in> set (ld_attribution db). aw_opportunity b = i" for i
  proof -
    from that have "i \<in> aw_opportunity ` set (ld_attribution db)" by (simp only: image_iff Bex_def) metis
    then have "i \<in> aw_opportunity ` set (ld_attribution db')" by (rule subsetD [OF sub])
    then show ?thesis by (simp only: image_iff Bex_def) metis
  qed
  note inv = lifecycle_invD [OF assms(1)]
  have events: "events_of db' = events_of db" by (simp add: events_of_def fun_eq_iff rows(2))
  show ?thesis
  proof (rule lifecycle_invI; unfold rows events)
    show "distinct (map ow_id (ld_opportunities db))" by (rule inv(1))
    show "\<exists>b \<in> set (ld_attribution db'). aw_opportunity b = ow_id r"
      if "r \<in> set (ld_opportunities db)" "ow_state r = OppClosed" for r by (rule att [OF inv(3) [OF that]])
  qed (rule inv(2,4,5); assumption)+
qed

lemma record_execution_inv:
  assumes "lifecycle_inv db"
  shows "lifecycle_inv (snd (record_opportunity_execution D T eid opp ord requested fills db))"
  unfolding record_opportunity_execution_def
proof (rule commit_tx_inv [where P = lifecycle_inv, OF assms])
  show "lifecycle_inv db'" if "record_execution_tx D T eid opp ord requested fills db = Inr (u, db')" for u db'
    using that assms transition_opportunity_inv [OF assms]
    by (auto simp: record_execution_tx_def and_then_Inr_iff map_ok_Inr_iff split: if_splits)
qed

text \<open>Closing keeps the invariant, and leaves the opportunity closed with the attribution it was given.\<close>

lemma close_opportunity_inv:
  assumes "lifecycle_inv db"
  shows "lifecycle_inv (snd (close_opportunity D T aid eid now cl db))"
  unfolding close_opportunity_def
proof (rule commit_tx_inv [where P = lifecycle_inv, OF assms])
  show "lifecycle_inv db'" if "close_tx D T aid eid now cl db = Inr (u, db')" for u db'
  proof -
    from that obtain a db1 where db1: "upsert_attribution a db = Inr db1"
      and "db' = db1 \<or> (\<exists>detail. transition_opportunity eid (cl_opportunity_id cl) Executed OppClosed detail db1 = Inr db')"
      by (auto simp: close_tx_def and_then_Inr_iff map_ok_Inr_iff split: if_splits)
    with upsert_attribution_inv [OF assms db1] transition_opportunity_inv show ?thesis by blast
  qed
qed

subsection \<open>The outboxes\<close>

text \<open>The outbox in memory empties in order; what the producer refuses stays at its head.\<close>

theorem flush_outbox_keeps_refused:
  assumes "flush_outbox E fs p = (r, queue, p')"
  shows "\<exists>sent. fs = sent @ queue \<and> (r = Inr () \<longleftrightarrow> queue = [])"
  using assms
proof (induction fs arbitrary: p)
  case Nil
  then show ?case by simp
next
  case (Cons f fs)
  obtain v p1 where v: "sv_send E topic_orders_fills (fill_envelope E (length fs) f) (Some (key_str (f_market f))) p = (v, p1)"
    by force
  show ?case
  proof (cases v)
    case (Inl e)
    with Cons.prems v show ?thesis by (intro exI [of _ "[]"]) auto
  next
    case (Inr u)
    with Cons.prems v have "flush_outbox E fs p1 = (r, queue, p')" by simp
    from Cons.IH [OF this] obtain sent where "fs = sent @ queue" "r = Inr () \<longleftrightarrow> queue = []" by blast
    then show ?thesis by (intro exI [of _ "f # sent"]) simp
  qed
qed

lemma mark_fill_published_step:
  "snd (mark_fill_published now i db) = paper_step D (PoPublished now i) db"
  by simp

lemma flush_events_run:
  assumes "flush_events E evs (p, db) = (r, p', db')"
  shows "\<exists>ops. list_all ledger_made ops \<and> db' = fold (paper_step D) ops db \<and> pd_fills db' = pd_fills db
    \<and> pd_positions db' = pd_positions db \<and> pd_orders db' = pd_orders db \<and> pd_intents db' = pd_intents db"
  using assms
proof (induction evs arbitrary: p db)
  case Nil
  then show ?case by (intro exI [of _ "[]"]) simp
next
  case (Cons ev evs)
  let ?m = "(fill_envelope E (length evs) (df_fill ev))\<lparr>ev_trace_id := tx_ulid (sv_texts E) (df_event_id ev)\<rparr>"
  obtain v p1 where v: "sv_send E topic_orders_fills ?m (Some (key_str (f_market (df_fill ev)))) p = (v, p1)" by force
  obtain x db1 where x: "mark_fill_published (sv_now E) (df_event_id ev) db = (x, db1)" by force
  have one: "db1 = paper_step D (PoPublished (sv_now E) (df_event_id ev)) db" using x by simp
  have same: "pd_fills db1 = pd_fills db" "pd_positions db1 = pd_positions db" "pd_orders db1 = pd_orders db"
    "pd_intents db1 = pd_intents db" using x by (auto simp: mark_fill_published_def Let_def split: if_splits)
  show ?case
  proof (cases v)
    case (Inl e)
    with Cons.prems v show ?thesis by (intro exI [of _ "[]"]) simp
  next
    case v': (Inr u)
    show ?thesis
    proof (cases x)
      case (Inl e)
      with Cons.prems v v' x have "db' = db1" by simp
      moreover have "db1 = fold (paper_step D) [PoPublished (sv_now E) (df_event_id ev)] db"
        by (simp only: fold.simps o_def id_def one)
      moreover have "list_all ledger_made [PoPublished (sv_now E) (df_event_id ev)]" by simp
      ultimately show ?thesis using same by blast
    next
      case (Inr u')
      with Cons.prems v v' x have "flush_events E evs (p1, db1) = (r, p', db')" by simp
      from Cons.IH [OF this] obtain ops where "list_all ledger_made ops" "db' = fold (paper_step D) ops db1"
        "pd_fills db' = pd_fills db1" "pd_positions db' = pd_positions db1" "pd_orders db' = pd_orders db1"
        "pd_intents db' = pd_intents db1" by blast
      note rest = this
      have "list_all ledger_made (PoPublished (sv_now E) (df_event_id ev) # ops)" using rest(1) by simp
      moreover have "db' = fold (paper_step D) (PoPublished (sv_now E) (df_event_id ev) # ops) db"
        by (simp only: fold.simps o_def rest(2) one)
      ultimately show ?thesis using rest(3-6) same by metis
    qed
  qed
qed

lemma flush_events_marks:
  assumes "flush_events E evs (p, db) = (Inr u, p', db')"
  shows "\<forall>x \<in> set (pd_outbox db'). nx_published_ts x = None \<longrightarrow> nx_fill_id x \<notin> df_event_id ` set evs
    \<and> (\<exists>y \<in> set (pd_outbox db). nx_published_ts y = None \<and> nx_fill_id y = nx_fill_id x)"
  using assms
proof (induction evs arbitrary: p db)
  case Nil
  then show ?case by auto
next
  case (Cons ev evs)
  let ?m = "(fill_envelope E (length evs) (df_fill ev))\<lparr>ev_trace_id := tx_ulid (sv_texts E) (df_event_id ev)\<rparr>"
  obtain v p1 where v: "sv_send E topic_orders_fills ?m (Some (key_str (f_market (df_fill ev)))) p = (v, p1)" by force
  with Cons.prems obtain u1 where u1: "v = Inr u1" by (cases v) simp_all
  obtain x db1 where x: "mark_fill_published (sv_now E) (df_event_id ev) db = (x, db1)" by force
  with Cons.prems v u1 obtain u2 where u2: "x = Inr u2" by (cases x) simp_all
  with Cons.prems v u1 x have rest: "flush_events E evs (p1, db1) = (Inr u, p', db')" by simp
  have marked: "pd_outbox db1 = map (\<lambda>r. if nx_fill_id r = df_event_id ev \<and> nx_published_ts r = None
      then r\<lparr>nx_published_ts := Some (sv_now E)\<rparr> else r) (pd_outbox db)"
    using x by (auto simp: mark_fill_published_def Let_def split: if_splits)
  have one: "nx_fill_id y \<noteq> df_event_id ev \<and> y \<in> set (pd_outbox db)"
    if "y \<in> set (pd_outbox db1)" "nx_published_ts y = None" for y
    using that by (auto simp: marked split: if_splits)
  show ?case
  proof (intro ballI impI)
    fix z assume z: "z \<in> set (pd_outbox db')" "nx_published_ts z = None"
    from Cons.IH [OF rest] z have "nx_fill_id z \<notin> df_event_id ` set evs"
      "\<exists>y \<in> set (pd_outbox db1). nx_published_ts y = None \<and> nx_fill_id y = nx_fill_id z" by blast+
    with one show "nx_fill_id z \<notin> df_event_id ` set (ev # evs)
      \<and> (\<exists>y \<in> set (pd_outbox db). nx_published_ts y = None \<and> nx_fill_id y = nx_fill_id z)" by fastforce
  qed
qed

text \<open>A flush of the outbox in the tables that returns leaves nothing to publish.\<close>

theorem flush_publishes_pending:
  assumes "flush_persisted_outbox E w = (Inr u, w')"
  shows "pending_fill_events (pw_db w') = []"
proof -
  obtain p' db' where f: "flush_events E (pending_fill_events (pw_db w)) (pw_producer w, pw_db w) = (Inr u, p', db')"
    and w': "w' = w\<lparr>pw_producer := p', pw_db := db'\<rparr>"
    using assms by (auto simp: flush_persisted_outbox_def split: prod.splits)
  have "df_event_id ` set (pending_fill_events (pw_db w)) = nx_fill_id ` {r \<in> set (pd_outbox (pw_db w)). nx_published_ts r = None}"
    by (auto simp: pending_fill_events_def image_image)
  note ids = this
  have "nx_published_ts x \<noteq> None" if "x \<in> set (pd_outbox db')" for x
  proof
    assume "nx_published_ts x = None"
    with flush_events_marks [OF f] that obtain y where y: "y \<in> set (pd_outbox (pw_db w))" "nx_published_ts y = None"
      "nx_fill_id y = nx_fill_id x" "nx_fill_id x \<notin> df_event_id ` set (pending_fill_events (pw_db w))" by blast
    from y(1-3) have "nx_fill_id x \<in> nx_fill_id ` {r \<in> set (pd_outbox (pw_db w)). nx_published_ts r = None}"
      by (intro image_eqI [of _ _ y]) simp_all
    with y(4) show False unfolding ids by (rule notE)
  qed
  then show ?thesis by (simp add: w' pending_fill_events_def filter_empty_conv)
qed


subsection \<open>Submissions\<close>

lemma move_opportunity_keeps:
  assumes "move_opportunity E opp it fills w = (r, w')"
  shows "pw_ledger w' = pw_ledger w \<and> pw_db w' = pw_db w \<and> pw_outbox w' = pw_outbox w"
  using assms by (auto simp: move_opportunity_def split: option.splits prod.splits)

lemma flush_persisted_outbox_run:
  assumes "flush_persisted_outbox E w = (r, w')"
  shows "pw_ledger w' = pw_ledger w \<and> pw_outbox w' = pw_outbox w
    \<and> (\<exists>ops. list_all ledger_made ops \<and> pw_db w' = fold (paper_step D) ops (pw_db w)
          \<and> pd_fills (pw_db w') = pd_fills (pw_db w) \<and> pd_positions (pw_db w') = pd_positions (pw_db w)
          \<and> pd_orders (pw_db w') = pd_orders (pw_db w) \<and> pd_intents (pw_db w') = pd_intents (pw_db w))"
proof -
  obtain p' db' where f: "flush_events E (pending_fill_events (pw_db w)) (pw_producer w, pw_db w) = (r, p', db')"
    and w': "w' = w\<lparr>pw_producer := p', pw_db := db'\<rparr>"
    using assms by (auto simp: flush_persisted_outbox_def split: prod.splits)
  from flush_events_run [OF f, of D] show ?thesis unfolding w' by simp
qed

text \<open>
  A submission whose intent the tables already hold is never executed again: the book
  that comes with it is not looked at, and whatever the publication of the outbox and the move of the
  opportunity do, the ledger in memory, the intents, orders, fills and positions in the tables stay
  as they are. If the submission succeeds its answer is the stored fills, marked as a replay, and no
  fill is left unpublished.
\<close>

theorem stored_intent_is_replayed:
  assumes stored: "existing_execution it (pw_db w) = Inr (Some fs)"
    and run: "submit_persisted E it book opp w = (r, w')"
  shows "pw_ledger w' = pw_ledger w \<and> pd_intents (pw_db w') = pd_intents (pw_db w)
    \<and> pd_orders (pw_db w') = pd_orders (pw_db w) \<and> pd_fills (pw_db w') = pd_fills (pw_db w)
    \<and> pd_positions (pw_db w') = pd_positions (pw_db w)
    \<and> (\<forall>sb. r = Inr sb \<longrightarrow> sb = \<lparr>sb_fills = fs, sb_replayed = True\<rparr> \<and> pending_fill_events (pw_db w') = [])"
proof -
  obtain r1 w1 where m: "move_opportunity E opp it fs w = (r1, w1)" by force
  obtain r2 w2 where f: "flush_persisted_outbox E w1 = (r2, w2)" by force
  note kept = move_opportunity_keeps [OF m]
  note run2 = flush_persisted_outbox_run [OF f]
  have ans: "answer_stored E opp it fs True w = (r, w')"
    using run by (simp add: submit_persisted_def stored)
  show ?thesis
  proof (cases r1)
    case (Inl e)
    with ans m have "w' = w1" "r = Inl e" by (simp_all add: answer_stored_def then_do_def)
    with kept show ?thesis by simp
  next
    case r1: (Inr u)
    have w': "w' = w2" and r: "r = map_ok (\<lambda>_. \<lparr>sb_fills = fs, sb_replayed = True\<rparr>) r2"
      using ans m f r1 by (cases r2; simp add: answer_stored_def then_do_def)+
    have "pending_fill_events (pw_db w2) = []" if "r2 = Inr v" for v
      using flush_publishes_pending [of E w1 v w2] f that by simp
    with kept run2 w' r show ?thesis by (cases r2) auto
  qed
qed

end
