(* ===== verification/Btree_Map.thy ===== *)
theory Btree_Map
  imports Rust_Text
begin

text \<open>
  \<^verbatim>\<open>std::collections::BTreeMap\<close> as an association list whose keys ascend: \<open>map_of\<close> looks a key up and
  the list is the iteration order. The lemmas are those of a keyed store, and that insertion and removal
  keep the order.
\<close>

type_synonym ('k, 'v) btree_map = "('k \<times> 'v) list"

fun bm_put :: "'k::linorder \<Rightarrow> 'v \<Rightarrow> ('k, 'v) btree_map \<Rightarrow> ('k, 'v) btree_map" where
  "bm_put k v [] = [(k, v)]"
| "bm_put k v ((k', v') # m) =
     (if k < k' then (k, v) # (k', v') # m else if k = k' then (k, v) # m else (k', v') # bm_put k v m)"

definition bm_remove :: "'k \<Rightarrow> ('k, 'v) btree_map \<Rightarrow> ('k, 'v) btree_map" where
  "bm_remove k m = filter (\<lambda>(k', _). k' \<noteq> k) m"

definition bm_wf :: "('k::linorder, 'v) btree_map \<Rightarrow> bool" where
  "bm_wf m \<longleftrightarrow> sorted_wrt (<) (map fst m)"

lemma bm_wf_Nil [simp]: "bm_wf []"
  by (simp add: bm_wf_def)

lemma bm_wf_Cons: "bm_wf ((k, v) # m) \<longleftrightarrow> (\<forall>x \<in> fst ` set m. k < x) \<and> bm_wf m"
  by (simp add: bm_wf_def)

lemma bm_put_fst: "fst ` set (bm_put k v m) = insert k (fst ` set m)"
  by (induction k v m rule: bm_put.induct) auto

lemma bm_put_set: "x \<in> set (bm_put k v m) \<Longrightarrow> x = (k, v) \<or> x \<in> set m"
  by (induction k v m rule: bm_put.induct) (auto split: if_splits)

lemma bm_wf_put: "bm_wf m \<Longrightarrow> bm_wf (bm_put k v m)"
proof (induction k v m rule: bm_put.induct)
  case (2 k v k' v' m)
  then show ?case by (auto simp: bm_wf_Cons bm_put_fst)
qed (simp add: bm_wf_Cons)

lemma map_of_bm_put: "map_of (bm_put k v m) x = (if x = k then Some v else map_of m x)"
  by (induction k v m rule: bm_put.induct) auto

lemma bm_remove_fst: "fst ` set (bm_remove k m) = fst ` set m - {k}"
  by (auto simp: bm_remove_def image_iff)

lemma bm_remove_set: "x \<in> set (bm_remove k m) \<Longrightarrow> x \<in> set m"
  by (simp add: bm_remove_def)

lemma bm_wf_remove: "bm_wf m \<Longrightarrow> bm_wf (bm_remove k m)"
proof (induction m)
  case (Cons a m)
  obtain k' v' where a: "a = (k', v')" by (cases a)
  have "fst ` set (bm_remove k m) \<subseteq> fst ` set m" by (auto simp: bm_remove_fst)
  with Cons a show ?case by (auto simp: bm_wf_Cons bm_remove_def)
qed (simp add: bm_remove_def)

lemma map_of_bm_remove: "map_of (bm_remove k m) x = (if x = k then None else map_of m x)"
  by (induction m) (auto simp: bm_remove_def)

lemma bm_wf_get: "bm_wf m \<Longrightarrow> map_of m k = Some v \<longleftrightarrow> (k, v) \<in> set m"
proof -
  assume "bm_wf m"
  then have "distinct (map fst m)" by (simp add: bm_wf_def strict_sorted_iff)
  then show ?thesis by (rule hm_get_in_set)
qed

interpretation btree: keyed_store map_of bm_put
  by unfold_locales (rule map_of_bm_put)

end
