(* ===== verification/Venue_Common.thy ===== *)
theory Venue_Common
  imports Bus_Messages Btree_Map Decimal_Instance
begin

text \<open>
  What the venue packs share (\<^verbatim>\<open>connectors/venues\<close>): the parsers of the libraries, the texts of the core's
  errors, the events of a WebSocket, and the way a frame that cannot be used is put in quarantine. A
  connection is the list of what it delivers.
\<close>

subsection \<open>Parsers and values\<close>

text \<open>\<^verbatim>\<open>str::parse::<Decimal>\<close>, \<^verbatim>\<open>UtcTime\<close> from JSON text, \<^verbatim>\<open>UtcTime::from_unix_millis\<close>, and the clock; the
  left of a result is the error's text.\<close>

record venue_parsers =
  vp_decimal :: "string \<Rightarrow> string + decimal"
  vp_time_json :: "string \<Rightarrow> string + utc_time"
  vp_unix_millis :: "int \<Rightarrow> string + utc_time"
  vp_now :: utc_time

definition reads_decimals :: "venue_parsers \<Rightarrow> bool" where
  "reads_decimals P \<longleftrightarrow> (\<forall>s v. vp_decimal P s = Inr v \<longrightarrow> is_decimal v)"

definition quoted :: "string \<Rightarrow> string" where
  "quoted s = [char_of (34 :: nat)] @ s @ [char_of (34 :: nat)]"

definition apostrophe :: "string \<Rightarrow> string" where
  "apostrophe s = [char_of (39 :: nat)] @ s @ [char_of (39 :: nat)]"

text \<open>\<^verbatim>\<open>Option::map(f).transpose()?\<close>\<close>

definition transpose_map :: "('a \<Rightarrow> 'e + 'b) \<Rightarrow> 'a option \<Rightarrow> 'e + 'b option" where
  "transpose_map f v = (case v of None \<Rightarrow> Inr None | Some a \<Rightarrow> map_ok Some (f a))"

definition or_some :: "'a option \<Rightarrow> 'a option \<Rightarrow> 'a option" where
  "or_some a b = (case a of None \<Rightarrow> b | Some _ \<Rightarrow> a)"

definition json_opt :: "('a \<Rightarrow> json) \<Rightarrow> 'a option \<Rightarrow> json" where
  "json_opt f v = (case v of None \<Rightarrow> JNull | Some a \<Rightarrow> f a)"

definition json_int :: "int \<Rightarrow> json" where
  "json_int i = JNumber (show_int i)"

text \<open>\<^verbatim>\<open>to_uppercase\<close> on ASCII bytes.\<close>

definition ascii_upper :: "char \<Rightarrow> char" where
  "ascii_upper c = (let n = of_char c :: nat in if 97 \<le> n \<and> n \<le> 122 then char_of (n - 32) else c)"

definition to_upper :: "string \<Rightarrow> string" where
  "to_upper s = map ascii_upper s"

text \<open>The texts of the errors of \<^verbatim>\<open>crates/aether-core\<close>.\<close>

primrec market_key_error_text :: "market_key_error \<Rightarrow> string" where
  "market_key_error_text (MarketKeyError raw) = ''MarketKey must match mkt:{venue}:{native_id}, got: '' @ raw"

primrec json_object_error_text :: "json_object_error \<Rightarrow> string" where
  "json_object_error_text JsonObjectError = ''value must be a JSON object''"

primrec order_book_error_text :: "order_book_error \<Rightarrow> string" where
  "order_book_error_text BidsNotDescending = ''bids must be in descending order (by price)''"
| "order_book_error_text AsksNotAscending = ''asks must be in ascending order (by price)''"

lemma order_book_new_in_order:
  assumes "sorted_wrt (>) (map lv_price bids)" "sorted_wrt (<) (map lv_price asks)"
  shows "order_book_new market bids asks depth ts seq =
    Inr \<lparr>ob_market = market, ob_bids = bids, ob_asks = asks, ob_depth = depth, ob_ts = ts, ob_seq = seq\<rparr>"
proof -
  have "successively (\<lambda>a b. lv_price b < lv_price a) bids"
    using assms(1) by (intro successively_if_sorted_wrt) (simp add: sorted_wrt_map)
  moreover have "successively (\<lambda>a b. lv_price a < lv_price b) asks"
    using assms(2) by (intro successively_if_sorted_wrt) (simp add: sorted_wrt_map)
  ultimately show ?thesis by (simp add: order_book_new_def not_le)
qed

lemma order_book_new_sorted_iff:
  "order_book_new market bids asks depth ts seq = Inr b \<longleftrightarrow>
     sorted_wrt (>) (map lv_price bids) \<and> sorted_wrt (<) (map lv_price asks)
     \<and> b = \<lparr>ob_market = market, ob_bids = bids, ob_asks = asks, ob_depth = depth, ob_ts = ts, ob_seq = seq\<rparr>"
proof -
  have "successively (\<lambda>a b. lv_price b < lv_price a) bids \<longleftrightarrow> sorted_wrt (>) (map lv_price bids)"
    unfolding sorted_wrt_map by (rule successively_conv_sorted_wrt) (auto intro: transpI)
  moreover have "successively (\<lambda>a b. lv_price a < lv_price b) asks \<longleftrightarrow> sorted_wrt (<) (map lv_price asks)"
    unfolding sorted_wrt_map by (rule successively_conv_sorted_wrt) (auto intro: transpI)
  ultimately show ?thesis by (auto simp: order_book_new_def not_le)
qed

text \<open>\<^verbatim>\<open>as_i64\<close> of a JSON number, whose text is its literal; minus zero is read as a floating-point number.\<close>

definition json_i64 :: "string \<Rightarrow> int option" where
  "json_i64 n =
     (case n of
        [] \<Rightarrow> None
      | c # rest \<Rightarrow>
          (if c = CHR ''-''
           then (if rest = [] then None
                 else Option.bind (dec_digits 0 rest) (\<lambda>k. if k = 0 then None else checked_i64 (- int k)))
           else Option.bind (dec_digits 0 n) (\<lambda>k. checked_i64 (int k))))"

subsection \<open>A breaker that is probing\<close>

definition probing :: "circuit_breaker \<Rightarrow> bool" where
  "probing b \<longleftrightarrow> cb_state b = BreakerHalfOpen \<and> cb_half_open_probe_sent b"

lemma probing_refuses: "probing b \<Longrightarrow> allow_request now b = (False, b)"
  by (simp add: probing_def allow_request_def)

subsection \<open>Connections\<close>

text \<open>What the socket delivers, and what the code reads from elsewhere while it handles that: the
  surroundings of a quarantine, the identifiers and the clock of an envelope, and whether a command
  that is sent on the socket is accepted.\<close>

datatype ws_input = WsText string | WsBinary "u8 list" | WsPing | WsClose | WsOther | WsTimer | WsError string | WsEnd

record surroundings =
  su_quarantine :: quarantine_env
  su_trace :: string
  su_now_text :: string
  su_now :: utc_time
  su_sent :: "string + unit"

text \<open>What becomes of the loop: it goes on, drops the connection, returns an error, panics, or waits for
  more from its connection.\<close>

datatype 'e flow = Go | Drop | Stop 'e | Panicked | Waiting

text \<open>The loop over the messages of one connection.\<close>

fun read_inputs ::
  "(surroundings \<Rightarrow> ws_input \<Rightarrow> 's \<Rightarrow> 'e flow \<times> 's) \<Rightarrow> (surroundings \<times> ws_input) list \<Rightarrow> 's \<Rightarrow> 'e flow \<times> 's" where
  "read_inputs step [] s = (Waiting, s)"
| "read_inputs step ((S, i) # rest) s =
     (case step S i s of
        (Go, s') \<Rightarrow> read_inputs step rest s'
      | (f, s') \<Rightarrow> (f, s'))"

text \<open>A loop over the parts of one message, which any of them can end.\<close>

fun each_go :: "('x \<Rightarrow> 's \<Rightarrow> 'e flow \<times> 's) \<Rightarrow> 'x list \<Rightarrow> 's \<Rightarrow> 'e flow \<times> 's" where
  "each_go f [] s = (Go, s)"
| "each_go f (x # xs) s =
     (case f x s of
        (Go, s') \<Rightarrow> each_go f xs s'
      | (r, s') \<Rightarrow> (r, s'))"

lemma each_go_keeps:
  assumes "\<And>x s r s'. x \<in> set xs \<Longrightarrow> f x s = (r, s') \<Longrightarrow> Q s \<Longrightarrow> Q s'" "each_go f xs s = (r, s')" "Q s"
  shows "Q s'"
  using assms
proof (induction xs arbitrary: s)
  case (Cons x xs)
  obtain r1 s1 where s1: "f x s = (r1, s1)" by force
  from Cons.prems(1) [OF _ s1 Cons.prems(3)] have "Q s1" by simp
  with Cons.IH [of s1] Cons.prems(1,2) s1 show ?case by (cases r1) auto
qed simp

text \<open>What every message of a kind keeps, a connection that delivers only such messages keeps.\<close>

locale input_machine =
  fixes step :: "surroundings \<Rightarrow> ws_input \<Rightarrow> 's \<Rightarrow> 'e flow \<times> 's" and allowed :: "ws_input \<Rightarrow> bool"
    and good :: "'s \<Rightarrow> bool"
  assumes step_good: "step S i s = (f, s') \<Longrightarrow> allowed i \<Longrightarrow> good s \<Longrightarrow> good s'"
begin

lemma read_good: "read_inputs step is s = (f, s') \<Longrightarrow> list_all (\<lambda>(S, i). allowed i) is \<Longrightarrow> good s \<Longrightarrow> good s'"
proof (induction "is" arbitrary: s)
  case (Cons a rest)
  obtain S i where a: "a = (S, i)" by (cases a)
  obtain f1 s1 where s1: "step S i s = (f1, s1)" by force
  from step_good [OF s1 _ Cons.prems(3)] Cons.IH [of s1] Cons.prems(1,2) s1 show ?case
    by (cases f1) (auto simp: a)
qed simp

end

definition message_bytes :: "ws_input \<Rightarrow> u8 list" where
  "message_bytes i = (case i of WsText t \<Rightarrow> as_bytes t | WsBinary b \<Rightarrow> b | _ \<Rightarrow> [])"

end
