(* ===== verification/Kalshi_Normalize.thy ===== *)
theory Kalshi_Normalize
  imports Venue_Common
begin

text \<open>
  The normalizer of the Kalshi venue pack (\<^verbatim>\<open>connectors/venues/kalshi/src/normalize.rs\<close>): markets of the
  REST interface, ticks and order books of the WebSocket, and the order book that is kept from one
  snapshot and the changes after it. The wire types are what their derived deserializers return. A panic of a
  \<^verbatim>\<open>Decimal\<close> operator ends the task and is the error \<open>KnPanic\<close>. The lemmas show which books can be built
  and that a refused change can leave its trace.
\<close>

subsection \<open>Wire types\<close>

record kalshi_market =
  km_ticker :: string
  km_title :: string
  km_semi_title :: "string option"
  km_status :: string
  km_yes_ask :: "int option"
  km_yes_bid :: "int option"
  km_no_ask :: "int option"
  km_no_bid :: "int option"
  km_result :: "string option"
  km_settlement_ts :: "json option"
  km_close_ts :: "int option"
  km_close_time :: "string option"
  km_volume :: "int option"
  km_open_interest :: "int option"
  km_volume_24h :: "int option"
  km_open_interest_24h :: "int option"
  km_created_time :: "json option"
  km_tick_size :: "int list option"
  km_yes_sub_title :: "string option"
  km_no_sub_title :: "string option"
  km_yes_ask_dollars :: "string option"
  km_yes_bid_dollars :: "string option"
  km_no_ask_dollars :: "string option"
  km_no_bid_dollars :: "string option"
  km_last_price_dollars :: "string option"

record kalshi_tick =
  kt_ticker :: string
  kt_price :: "int option"
  kt_price_dollars :: "string option"
  kt_side :: "string option"
  kt_ts :: "string option"
  kt_ts_ms :: "int option"
  kt_volume :: "int option"
  kt_bid :: "int option"
  kt_ask :: "int option"
  kt_last_price :: "int option"
  kt_yes_bid_dollars :: "string option"
  kt_yes_ask_dollars :: "string option"
  kt_yes_bid_size_fp :: "string option"
  kt_yes_ask_size_fp :: "string option"

record kalshi_book_level =
  kl_price :: int
  kl_size :: int

record kalshi_book_snapshot =
  ks_ticker :: string
  ks_ts :: "string option"
  ks_bids :: "kalshi_book_level list"
  ks_asks :: "kalshi_book_level list"
  ks_yes_dollars_fp :: "(string \<times> string) list"
  ks_no_dollars_fp :: "(string \<times> string) list"

record kalshi_book_delta =
  kd_market_ticker :: string
  kd_price_dollars :: string
  kd_delta_fp :: string
  kd_side :: string
  kd_ts :: "string option"
  kd_ts_ms :: "int option"

type_synonym price_levels = "(decimal, decimal) btree_map"

record kalshi_book_state =
  kb_ticker :: string
  kb_yes :: price_levels
  kb_no :: price_levels
  kb_ts :: utc_time
  kb_seq :: "nat option"

datatype kalshi_error =
    KnMissingTicker
  | KnUnknownStatus string
  | KnMarketKey market_key_error
  | KnJsonObject json_object_error
  | KnTimestampParse string string
  | KnOrderBook order_book_error
  | KnInvalidSide string string
  | KnMissingPrice string
  | KnDecimalParse string string
  | KnPanic

primrec kalshi_error_text :: "kalshi_error \<Rightarrow> string" where
  "kalshi_error_text KnMissingTicker = ''market has no ticker''"
| "kalshi_error_text (KnUnknownStatus s) = ''unknown Kalshi status '' @ apostrophe s"
| "kalshi_error_text (KnMarketKey e) = ''invalid MarketKey: '' @ market_key_error_text e"
| "kalshi_error_text (KnJsonObject e) = ''venue_ref construction failed: '' @ json_object_error_text e"
| "kalshi_error_text (KnTimestampParse raw d) = ''timestamp parse error for '' @ apostrophe raw @ '': '' @ d"
| "kalshi_error_text (KnOrderBook e) = ''order book error: '' @ order_book_error_text e"
| "kalshi_error_text (KnInvalidSide ticker side) = ''invalid tick side '' @ apostrophe side @ '' for ticker '' @ ticker"
| "kalshi_error_text (KnMissingPrice ticker) = ''missing price for ticker '' @ ticker"
| "kalshi_error_text (KnDecimalParse raw d) = ''invalid decimal '' @ apostrophe raw @ '': '' @ d"
| "kalshi_error_text KnPanic = []"

subsection \<open>Helpers\<close>

definition kalshi_status :: "string \<Rightarrow> kalshi_error + market_status" where
  "kalshi_status s =
     (if s = ''open'' then Inr Open else if s = ''closed'' then Inr Closed
      else if s = ''settled'' then Inr Resolved else Inl (KnUnknownStatus s))"

text \<open>The \<^verbatim>\<open>f64\<close> nearest to a number of cents prints with two decimals as that number.\<close>

definition cents_to_probability :: "int \<Rightarrow> string option" where
  "cents_to_probability c =
     (if 1 \<le> c \<and> c \<le> 99 then Some (''0.'' @ [digit_char (nat c div 10), digit_char (nat c mod 10)]) else None)"

definition cents_to_decimal :: "int \<Rightarrow> decimal" where
  "cents_to_decimal c = of_int c / 100"

definition parse_iso8601 :: "venue_parsers \<Rightarrow> string \<Rightarrow> kalshi_error + utc_time" where
  "parse_iso8601 P ts = map_err (KnTimestampParse ts) (vp_time_json P (quoted ts))"

text \<open>\<open>json_text\<close> prints a JSON value that is neither a text nor a number.\<close>

definition parse_timestamp_value :: "venue_parsers \<Rightarrow> (json \<Rightarrow> string) \<Rightarrow> json \<Rightarrow> kalshi_error + utc_time" where
  "parse_timestamp_value P json_text v =
     (case v of
        JString s \<Rightarrow> parse_iso8601 P s
      | JNumber n \<Rightarrow>
          ok_or (KnTimestampParse (json_text v) ''expected unix milliseconds'')
            (Option.bind (json_i64 n) (\<lambda>ms. case vp_unix_millis P ms of Inl _ \<Rightarrow> None | Inr t \<Rightarrow> Some t))
      | _ \<Rightarrow> Inl (KnTimestampParse (json_text v) ''expected RFC3339 string or unix milliseconds''))"

definition kalshi_decimal :: "venue_parsers \<Rightarrow> string \<Rightarrow> kalshi_error + decimal" where
  "kalshi_decimal P s = map_err (KnDecimalParse s) (vp_decimal P s)"

definition kalshi_venue :: "kalshi_error + venue_id" where
  "kalshi_venue = map_err (\<lambda>e. case e of VenueIdError raw \<Rightarrow> KnMarketKey (MarketKeyError raw)) (venue_id_new ''kalshi'')"

definition kalshi_key :: "string \<Rightarrow> kalshi_error + market_key" where
  "kalshi_key ticker = and_then kalshi_venue (\<lambda>v. map_err KnMarketKey (market_key_new v (to_lower ticker)))"

subsection \<open>Markets\<close>

text \<open>The derived serializer: every field, under its name.\<close>

definition kalshi_market_json :: "kalshi_market \<Rightarrow> json" where
  "kalshi_market_json r = JObject
     [(''ticker'', JString (km_ticker r)), (''title'', JString (km_title r)), (''semi_title'', json_opt JString (km_semi_title r)),
      (''status'', JString (km_status r)), (''yes_ask'', json_opt json_int (km_yes_ask r)),
      (''yes_bid'', json_opt json_int (km_yes_bid r)), (''no_ask'', json_opt json_int (km_no_ask r)),
      (''no_bid'', json_opt json_int (km_no_bid r)), (''result'', json_opt JString (km_result r)),
      (''settlement_ts'', json_opt id (km_settlement_ts r)), (''close_ts'', json_opt json_int (km_close_ts r)),
      (''close_time'', json_opt JString (km_close_time r)), (''volume'', json_opt json_int (km_volume r)),
      (''open_interest'', json_opt json_int (km_open_interest r)), (''volume_24h'', json_opt json_int (km_volume_24h r)),
      (''open_interest_24h'', json_opt json_int (km_open_interest_24h r)), (''created_time'', json_opt id (km_created_time r)),
      (''tick_size'', json_opt (\<lambda>ts. JArray (map json_int ts)) (km_tick_size r)),
      (''yes_sub_title'', json_opt JString (km_yes_sub_title r)), (''no_sub_title'', json_opt JString (km_no_sub_title r)),
      (''yes_ask_dollars'', json_opt JString (km_yes_ask_dollars r)), (''yes_bid_dollars'', json_opt JString (km_yes_bid_dollars r)),
      (''no_ask_dollars'', json_opt JString (km_no_ask_dollars r)), (''no_bid_dollars'', json_opt JString (km_no_bid_dollars r)),
      (''last_price_dollars'', json_opt JString (km_last_price_dollars r))]"

definition kalshi_meta :: "kalshi_market \<Rightarrow> json" where
  "kalshi_meta r =
     (let ticks = (case km_tick_size r of None \<Rightarrow> [] | Some ts \<Rightarrow> ts)
      in JObject
        [(''tick_size_min'', json_int (if ticks = [] then 1 else hd ticks)),
         (''tick_size_max'', json_int (if ticks = [] then 99 else last ticks)),
         (''yes_ask'', json_opt json_int (km_yes_ask r)), (''yes_bid'', json_opt json_int (km_yes_bid r)),
         (''no_ask'', json_opt json_int (km_no_ask r)), (''no_bid'', json_opt json_int (km_no_bid r)),
         (''yes_ask_dollars'', json_opt JString (km_yes_ask_dollars r)), (''yes_bid_dollars'', json_opt JString (km_yes_bid_dollars r)),
         (''no_ask_dollars'', json_opt JString (km_no_ask_dollars r)), (''no_bid_dollars'', json_opt JString (km_no_bid_dollars r)),
         (''last_price_dollars'', json_opt JString (km_last_price_dollars r)), (''volume'', json_opt json_int (km_volume r)),
         (''open_interest'', json_opt json_int (km_open_interest r))])"

definition kalshi_normalize_market :: "venue_parsers \<Rightarrow> (json \<Rightarrow> string) \<Rightarrow> kalshi_market \<Rightarrow> kalshi_error + market" where
  "kalshi_normalize_market P json_text r =
     (let ticker = trim_str (km_ticker r)
      in if ticker = [] then Inl KnMissingTicker
         else
           and_then kalshi_venue (\<lambda>venue.
           and_then (kalshi_key ticker) (\<lambda>key.
           and_then (kalshi_status (km_status r)) (\<lambda>status.
           and_then (transpose_map (parse_iso8601 P) (km_close_time r)) (\<lambda>close.
           and_then (transpose_map (parse_timestamp_value P json_text) (km_settlement_ts r)) (\<lambda>resolve.
           and_then (map_err KnJsonObject (json_object_new (kalshi_market_json r))) (\<lambda>ref.
           and_then (map_err KnJsonObject (json_object_new (kalshi_meta r))) (\<lambda>meta.
             Inr \<lparr>m_key = key, m_venue = venue, m_kind = BinaryContract, m_title = km_title r,
               m_description_ref = (case km_semi_title r of None \<Rightarrow> [] | Some t \<Rightarrow> t), m_status = status,
               m_close_ts = or_some close (Option.bind (km_close_ts r)
                  (\<lambda>ms. case vp_unix_millis P ms of Inl _ \<Rightarrow> None | Inr t \<Rightarrow> Some t)),
               m_resolve_ts = resolve, m_outcome = km_result r, m_jurisdiction_flags = [''US''],
               m_venue_ref = ref, m_meta = meta\<rparr>))))))))"

subsection \<open>Ticks\<close>

text \<open>The time of a tick or of a change: the text wins over the milliseconds.\<close>

definition stamp_of :: "venue_parsers \<Rightarrow> kalshi_error + utc_time \<Rightarrow> string option \<Rightarrow> int option \<Rightarrow> kalshi_error + utc_time" where
  "stamp_of P missing ts ms =
     (case ts of
        Some t \<Rightarrow> parse_iso8601 P t
      | None \<Rightarrow>
          (case ms of
             Some v \<Rightarrow> map_err (KnTimestampParse (show_int v)) (vp_unix_millis P v)
           | None \<Rightarrow> missing))"

definition tick_side :: "venue_parsers \<Rightarrow> string option \<Rightarrow> int option \<Rightarrow> kalshi_error + decimal option" where
  "tick_side P dollars cents =
     map_ok (\<lambda>v. or_some v (map_option cents_to_decimal cents)) (transpose_map (kalshi_decimal P) dollars)"

definition kalshi_normalize_tick :: "venue_parsers \<Rightarrow> kalshi_tick \<Rightarrow> kalshi_error + quote" where
  "kalshi_normalize_tick P r =
     (let ticker = trim_str (kt_ticker r)
      in if ticker = [] then Inl KnMissingTicker
         else
           and_then (kalshi_key ticker) (\<lambda>market.
           and_then (stamp_of P (Inl (KnTimestampParse [] ''ticker message has no time or ts_ms'')) (kt_ts r) (kt_ts_ms r)) (\<lambda>ts.
           and_then (case kt_price_dollars r of
                Some d \<Rightarrow> kalshi_decimal P d
              | None \<Rightarrow> (case or_some (kt_price r) (kt_last_price r) of
                   Some c \<Rightarrow> Inr (cents_to_decimal c)
                 | None \<Rightarrow> Inl (KnMissingPrice ticker))) (\<lambda>price.
           and_then (tick_side P (kt_yes_bid_dollars r) (kt_bid r)) (\<lambda>bid.
           and_then (tick_side P (kt_yes_ask_dollars r) (kt_ask r)) (\<lambda>ask.
           and_then (transpose_map (kalshi_decimal P) (kt_yes_bid_size_fp r)) (\<lambda>bid_size.
           and_then (transpose_map (kalshi_decimal P) (kt_yes_ask_size_fp r)) (\<lambda>ask_size.
             Inr \<lparr>q_market = market, q_bid = bid, q_ask = ask, q_mid = None, q_last = Some price, q_bid_size = bid_size,
               q_ask_size = ask_size, q_ts = ts, q_source = Stream, q_seq = None\<rparr>))))))))"

subsection \<open>Books\<close>

definition kn_panic :: "'a option \<Rightarrow> kalshi_error + 'a" where
  "kn_panic v = ok_or KnPanic v"

definition level_size :: "price_levels \<Rightarrow> decimal \<Rightarrow> decimal" where
  "level_size m price = (case map_of m price of None \<Rightarrow> 0 | Some s \<Rightarrow> s)"

text \<open>\<^verbatim>\<open>*levels.entry(price).or_default() += size\<close>\<close>

definition add_level :: "dec_ops \<Rightarrow> decimal \<Rightarrow> decimal \<Rightarrow> price_levels \<Rightarrow> kalshi_error + price_levels" where
  "add_level D price qty m =
     and_then (kn_panic (dec_add D (level_size m price) qty)) (\<lambda>s. Inr (bm_put price s m))"

fun add_levels :: "dec_ops \<Rightarrow> ('l \<Rightarrow> kalshi_error + decimal \<times> decimal) \<Rightarrow> 'l list \<Rightarrow> price_levels \<Rightarrow> kalshi_error + price_levels" where
  "add_levels D read [] m = Inr m"
| "add_levels D read (l # ls) m =
     and_then (read l) (\<lambda>(price, qty). and_then (add_level D price qty m) (add_levels D read ls))"

definition read_yes_cents :: "kalshi_book_level \<Rightarrow> kalshi_error + decimal \<times> decimal" where
  "read_yes_cents l = Inr (cents_to_decimal (kl_price l), of_int (kl_size l))"

definition read_no_cents :: "dec_ops \<Rightarrow> kalshi_book_level \<Rightarrow> kalshi_error + decimal \<times> decimal" where
  "read_no_cents D l =
     and_then (kn_panic (dec_sub D 1 (cents_to_decimal (kl_price l)))) (\<lambda>p. Inr (p, of_int (kl_size l)))"

definition read_fixed :: "venue_parsers \<Rightarrow> string \<times> string \<Rightarrow> kalshi_error + decimal \<times> decimal" where
  "read_fixed P l =
     and_then (kalshi_decimal P (fst l)) (\<lambda>price. and_then (kalshi_decimal P (snd l)) (\<lambda>qty. Inr (price, qty)))"

definition from_snapshot ::
  "dec_ops \<Rightarrow> venue_parsers \<Rightarrow> kalshi_book_snapshot \<Rightarrow> nat option \<Rightarrow> kalshi_error + kalshi_book_state" where
  "from_snapshot D P r seq =
     and_then (add_levels D read_yes_cents (ks_bids r) []) (\<lambda>yes0.
     and_then (add_levels D (read_no_cents D) (ks_asks r) []) (\<lambda>no0.
     and_then (add_levels D (read_fixed P) (ks_yes_dollars_fp r) yes0) (\<lambda>yes.
     and_then (add_levels D (read_fixed P) (ks_no_dollars_fp r) no0) (\<lambda>no.
     and_then (transpose_map (parse_iso8601 P) (ks_ts r)) (\<lambda>ts.
       Inr \<lparr>kb_ticker = ks_ticker r, kb_yes = yes, kb_no = no, kb_ts = (case ts of None \<Rightarrow> vp_now P | Some t \<Rightarrow> t), kb_seq = seq\<rparr>)))))"

definition changed_levels :: "decimal \<Rightarrow> decimal \<Rightarrow> price_levels \<Rightarrow> price_levels" where
  "changed_levels price new m = (if new \<le> 0 then bm_remove price m else bm_put price new m)"

definition apply_delta ::
  "dec_ops \<Rightarrow> venue_parsers \<Rightarrow> kalshi_book_delta \<Rightarrow> nat option \<Rightarrow> kalshi_book_state \<Rightarrow> (kalshi_error + unit) \<times> kalshi_book_state" where
  "apply_delta D P d seq st =
     (if kd_market_ticker d \<noteq> kb_ticker st then (Inl KnMissingTicker, st)
      else (case and_then (kalshi_decimal P (kd_price_dollars d)) (\<lambda>price.
                 map_ok (Pair price) (kalshi_decimal P (kd_delta_fp d))) of
        Inl e \<Rightarrow> (Inl e, st)
      | Inr (price, change) \<Rightarrow>
          if kd_side d \<noteq> ''yes'' \<and> kd_side d \<noteq> ''no'' then (Inl (KnInvalidSide (kb_ticker st) (kd_side d)), st)
          else
            let levels = (if kd_side d = ''yes'' then kb_yes st else kb_no st)
            in (case dec_add D (level_size levels price) change of
                  None \<Rightarrow> (Inl KnPanic, st)
                | Some new \<Rightarrow>
                    let levels' = changed_levels price new levels;
                        st1 = (if kd_side d = ''yes'' then st\<lparr>kb_yes := levels'\<rparr> else st\<lparr>kb_no := levels'\<rparr>)
                    in (case stamp_of P (Inr (kb_ts st1)) (kd_ts d) (kd_ts_ms d) of
                          Inl e \<Rightarrow> (Inl e, st1)
                        | Inr ts \<Rightarrow> (Inr (), st1\<lparr>kb_ts := ts, kb_seq := seq\<rparr>)))))"

definition yes_bids :: "price_levels \<Rightarrow> book_level list" where
  "yes_bids m = map (\<lambda>(p, s). \<lparr>lv_price = p, lv_size = s\<rparr>) (rev m)"

fun no_asks :: "dec_ops \<Rightarrow> price_levels \<Rightarrow> kalshi_error + book_level list" where
  "no_asks D [] = Inr []"
| "no_asks D ((p, s) # m) =
     and_then (kn_panic (dec_sub D 1 p)) (\<lambda>ask. map_ok (Cons \<lparr>lv_price = ask, lv_size = s\<rparr>) (no_asks D m))"

definition to_order_book :: "dec_ops \<Rightarrow> kalshi_book_state \<Rightarrow> kalshi_error + order_book" where
  "to_order_book D st =
     and_then (kalshi_key (kb_ticker st)) (\<lambda>market.
     let bids = yes_bids (kb_yes st)
     in and_then (no_asks D (rev (kb_no st))) (\<lambda>asks.
        map_err KnOrderBook (order_book_new market bids asks (max (length bids) (length asks)) (kb_ts st) (kb_seq st))))"

definition kalshi_normalize_book :: "dec_ops \<Rightarrow> venue_parsers \<Rightarrow> kalshi_book_snapshot \<Rightarrow> kalshi_error + order_book" where
  "kalshi_normalize_book D P r =
     (if trim_str (ks_ticker r) = [] then Inl KnMissingTicker
      else and_then (from_snapshot D P r None) (to_order_book D))"

subsection \<open>The levels stay in order\<close>

definition levels_wf :: "kalshi_book_state \<Rightarrow> bool" where
  "levels_wf st \<longleftrightarrow> bm_wf (kb_yes st) \<and> bm_wf (kb_no st)"

lemma add_levels_wf: "bm_wf m \<Longrightarrow> add_levels D read ls m = Inr m' \<Longrightarrow> bm_wf m'"
proof (induction ls arbitrary: m)
  case (Cons l ls)
  from Cons.prems(2) obtain price qty m1 where "read l = Inr (price, qty)" "add_level D price qty m = Inr m1"
    "add_levels D read ls m1 = Inr m'" by (auto simp: and_then_Inr_iff)
  with Cons.IH [of m1] Cons.prems(1) show ?case
    by (auto simp: add_level_def and_then_Inr_iff intro: bm_wf_put)
qed simp

lemma add_levels_keys:
  assumes "add_levels D read ls m = Inr m'" "\<forall>p \<in> fst ` set m. Q p"
    and "\<And>l p q. l \<in> set ls \<Longrightarrow> read l = Inr (p, q) \<Longrightarrow> Q p"
  shows "\<forall>p \<in> fst ` set m'. Q p"
  using assms
proof (induction ls arbitrary: m)
  case (Cons l ls)
  from Cons.prems(1) obtain price qty m1 where r: "read l = Inr (price, qty)" and m1: "add_level D price qty m = Inr m1"
    and rest: "add_levels D read ls m1 = Inr m'" by (auto simp: and_then_Inr_iff)
  have "Q price" by (rule Cons.prems(3) [OF _ r]) simp
  moreover from m1 obtain s where "m1 = bm_put price s m" by (auto simp: add_level_def and_then_Inr_iff)
  ultimately have "\<forall>p \<in> fst ` set m1. Q p" using Cons.prems(2) by (simp only: bm_put_fst ball_simps simp_thms)
  then show ?case
  proof (rule Cons.IH [OF rest])
    show "Q p" if "l' \<in> set ls" "read l' = Inr (p, q)" for l' p q
      using Cons.prems(3) [of l' p q] that by simp
  qed
qed simp

lemma from_snapshotE:
  assumes "from_snapshot D P r seq = Inr st"
  obtains yes0 no0 where "add_levels D read_yes_cents (ks_bids r) [] = Inr yes0"
    "add_levels D (read_no_cents D) (ks_asks r) [] = Inr no0"
    "add_levels D (read_fixed P) (ks_yes_dollars_fp r) yes0 = Inr (kb_yes st)"
    "add_levels D (read_fixed P) (ks_no_dollars_fp r) no0 = Inr (kb_no st)"
    "kb_ticker st = ks_ticker r" "kb_seq st = seq"
  using assms by (auto simp: from_snapshot_def and_then_Inr_iff)

lemma from_snapshot_wf: "from_snapshot D P r seq = Inr st \<Longrightarrow> levels_wf st"
  by (erule from_snapshotE) (auto simp: levels_wf_def dest: add_levels_wf [OF bm_wf_Nil] intro: add_levels_wf)

text \<open>What a change does: at most one level of one side, also when it is refused.\<close>

lemma apply_delta_cases:
  assumes "apply_delta D P d seq st = (r, st')"
  obtains (kept) e where "r = Inl e" "st' = st"
    | (moved) price change new where "kd_market_ticker d = kb_ticker st"
        "kalshi_decimal P (kd_price_dollars d) = Inr price" "kalshi_decimal P (kd_delta_fp d) = Inr change"
        "kb_ticker st' = kb_ticker st"
        "kd_side d = ''yes'' \<and> dec_add D (level_size (kb_yes st) price) change = Some new
           \<and> kb_yes st' = changed_levels price new (kb_yes st) \<and> kb_no st' = kb_no st
         \<or> kd_side d = ''no'' \<and> dec_add D (level_size (kb_no st) price) change = Some new
           \<and> kb_no st' = changed_levels price new (kb_no st) \<and> kb_yes st' = kb_yes st"
        "r = Inr () \<and> kb_seq st' = seq \<or> (\<exists>e. r = Inl e) \<and> kb_ts st' = kb_ts st \<and> kb_seq st' = kb_seq st"
proof (cases "kd_market_ticker d = kb_ticker st")
  case True
  note tick = this
  show thesis
  proof (cases "and_then (kalshi_decimal P (kd_price_dollars d)) (\<lambda>price. map_ok (Pair price) (kalshi_decimal P (kd_delta_fp d)))")
    case (Inl e)
    with assms tick show thesis by (intro kept) (auto simp: apply_delta_def)
  next
    case (Inr pc)
    obtain price change where pc: "pc = (price, change)" by (cases pc)
    from Inr have read: "kalshi_decimal P (kd_price_dollars d) = Inr price" "kalshi_decimal P (kd_delta_fp d) = Inr change"
      by (auto simp: pc and_then_Inr_iff map_ok_Inr_iff)
    let ?levels = "if kd_side d = ''yes'' then kb_yes st else kb_no st"
    show thesis
    proof (cases "kd_side d \<noteq> ''yes'' \<and> kd_side d \<noteq> ''no''")
      case True
      with assms tick Inr pc show thesis by (intro kept) (auto simp: apply_delta_def)
    next
      case side: False
      show thesis
      proof (cases "dec_add D (level_size ?levels price) change")
        case None
        with assms tick Inr pc side show thesis by (intro kept) (auto simp: apply_delta_def Let_def split: if_splits)
      next
        case (Some new)
        with assms tick Inr pc side show thesis
          by (intro moved [OF tick read, where new = new]; cases "stamp_of P (Inr (kb_ts st)) (kd_ts d) (kd_ts_ms d)")
            (auto simp: apply_delta_def Let_def split: if_splits)
      qed
    qed
  qed
next
  case False
  with assms show thesis by (intro kept) (auto simp: apply_delta_def)
qed

lemma changed_levels_wf: "bm_wf m \<Longrightarrow> bm_wf (changed_levels price new m)"
  by (simp add: changed_levels_def bm_wf_put bm_wf_remove)

lemma changed_levels_fst: "fst ` set (changed_levels price new m) \<subseteq> insert price (fst ` set m)"
  by (auto simp: changed_levels_def bm_put_fst bm_remove_fst)

lemma map_of_changed_levels:
  "map_of (changed_levels price new m) x = (if x = price then if new \<le> 0 then None else Some new else map_of m x)"
  by (simp add: changed_levels_def map_of_bm_put map_of_bm_remove)

definition delta_step :: "dec_ops \<Rightarrow> venue_parsers \<Rightarrow> kalshi_book_delta \<times> nat option \<Rightarrow> kalshi_book_state \<Rightarrow> kalshi_book_state" where
  "delta_step D P d st = snd (apply_delta D P (fst d) (snd d) st)"

text \<open>What a run of changes keeps.\<close>

lemma delta_step_cases:
  obtains (kept) "delta_step D P d st = st"
    | (yes) price new where "kb_yes (delta_step D P d st) = changed_levels price new (kb_yes st)"
        "kb_no (delta_step D P d st) = kb_no st" "kb_ticker (delta_step D P d st) = kb_ticker st"
        "\<exists>s. vp_decimal P s = Inr price"
    | (no) price new where "kb_no (delta_step D P d st) = changed_levels price new (kb_no st)"
        "kb_yes (delta_step D P d st) = kb_yes st" "kb_ticker (delta_step D P d st) = kb_ticker st"
        "\<exists>s. vp_decimal P s = Inr price"
proof -
  obtain r st' where r: "apply_delta D P (fst d) (snd d) st = (r, st')" by force
  then have st': "delta_step D P d st = st'" by (simp add: delta_step_def)
  from r show thesis
  proof (cases rule: apply_delta_cases)
    case (kept e)
    then show thesis using that(1) st' by blast
  next
    case (moved price change new)
    from moved(2) have "\<exists>s. vp_decimal P s = Inr price" by (auto simp: kalshi_decimal_def map_err_Inr_iff)
    with moved(4,5) that(2,3) show thesis unfolding st' by blast
  qed
qed

lemma delta_step_wf: "levels_wf st \<Longrightarrow> levels_wf (delta_step D P d st)"
  by (rule delta_step_cases [of D P d st]) (simp_all add: levels_wf_def changed_levels_wf)

interpretation deltas: invariant_machine "delta_step D P" levels_wf
  by unfold_locales (rule delta_step_wf)

subsection \<open>Which books can be built\<close>

text \<open>The prices that a book can hold are decimals: those read as text because the parser returns
  decimals, those in cents because a number of cents is an \<^verbatim>\<open>i64\<close>.\<close>

definition keys_decimal :: "price_levels \<Rightarrow> bool" where
  "keys_decimal m \<longleftrightarrow> (\<forall>p \<in> fst ` set m. is_decimal p)"

lemma reads_decimalsD: "reads_decimals P \<Longrightarrow> kalshi_decimal P s = Inr v \<Longrightarrow> is_decimal v"
  by (auto simp: reads_decimals_def kalshi_decimal_def map_err_Inr_iff)

lemma keys_decimal_changed: "keys_decimal m \<Longrightarrow> is_decimal price \<Longrightarrow> keys_decimal (changed_levels price new m)"
  unfolding keys_decimal_def using changed_levels_fst [of price new m] by blast

lemma delta_step_decimal:
  assumes "reads_decimals P" "keys_decimal (kb_no st)"
  shows "keys_decimal (kb_no (delta_step D P d st))"
  by (rule delta_step_cases [of D P d st])
    (use assms in \<open>auto simp: reads_decimals_def intro: keys_decimal_changed\<close>)

lemma run_decimal:
  assumes "reads_decimals P"
  shows "keys_decimal (kb_no st) \<Longrightarrow> keys_decimal (kb_no (fold (delta_step D P) ds st))"
  by (induction ds arbitrary: st) (simp_all add: delta_step_decimal [OF assms])

lemma run_ticker: "kb_ticker (fold (delta_step D P) ds st) = kb_ticker st"
proof (induction ds arbitrary: st)
  case (Cons d ds)
  have "kb_ticker (delta_step D P d st) = kb_ticker st" by (rule delta_step_cases [of D P d st]) simp_all
  with Cons show ?case by simp
qed simp

context decimal_arith
begin

lemma read_no_decimal: "read_no_cents D l = Inr (p, q) \<Longrightarrow> is_i64 (kl_price l) \<Longrightarrow> is_decimal p"
proof -
  assume r: "read_no_cents D l = Inr (p, q)" and w: "is_i64 (kl_price l)"
  have "\<bar>kl_price l\<bar> \<le> 2 ^ 63" using w by (auto simp: is_i64_def i64_min_def i64_max_def abs_le_iff)
  also have "(2 ^ 63 :: int) < dec_bound" by (simp add: dec_bound_def)
  finally have "is_decimal (cents_to_decimal (kl_price l))"
    by (rule is_decimalI [of "kl_price l" 2]) (simp_all add: cents_to_decimal_def)
  moreover from r have "dec_sub D 1 (cents_to_decimal (kl_price l)) = Some p"
    by (auto simp: read_no_cents_def kn_panic_def and_then_Inr_iff ok_or_Inr_iff)
  ultimately show ?thesis by (rule results_decimal(2) [OF is_decimal_1])
qed

lemma from_snapshot_decimal:
  assumes "from_snapshot D P r seq = Inr st" "reads_decimals P" "list_all (\<lambda>l. is_i64 (kl_price l)) (ks_asks r)"
  shows "keys_decimal (kb_no st)"
proof -
  from assms(1) obtain no0 where cents: "add_levels D (read_no_cents D) (ks_asks r) [] = Inr no0"
    and fixed: "add_levels D (read_fixed P) (ks_no_dollars_fp r) no0 = Inr (kb_no st)" by (rule from_snapshotE)
  have "\<forall>p \<in> fst ` set no0. is_decimal p"
    by (rule add_levels_keys [OF cents]) (use assms(3) read_no_decimal in \<open>auto simp: list_all_iff\<close>)
  from add_levels_keys [OF fixed this] show ?thesis
    by (auto simp: keys_decimal_def read_fixed_def and_then_Inr_iff dest: reads_decimalsD [OF assms(2)])
qed

lemma one_minus_decimal: "is_decimal p \<Longrightarrow> 0 \<le> p \<Longrightarrow> p \<le> 1 \<Longrightarrow> is_decimal (1 - p)"
proof -
  assume p: "is_decimal p" "0 \<le> p" "p \<le> 1"
  then obtain e where e: "e \<le> 28" "fits e p" by (auto simp: is_decimal_iff)
  have "(10 :: int) ^ e \<le> 10 ^ 28" by (rule power_increasing) (use e in auto)
  then have "fits e 1" unfolding fits_iff by (intro exI [of _ "10 ^ e"]) (simp add: dec_bound_def)
  from fits_diff [OF this e(2) p(2,3)] e(1) show ?thesis by (rule fits_is_decimal)
qed

lemma no_asks_exact:
  "\<forall>p \<in> fst ` set m. is_decimal p \<and> 0 \<le> p \<and> p \<le> 1
     \<Longrightarrow> no_asks D m = Inr (map (\<lambda>(p, s). \<lparr>lv_price = 1 - p, lv_size = s\<rparr>) m)"
proof (induction m)
  case (Cons a m)
  obtain p s where a: "a = (p, s)" by (cases a)
  have "is_decimal p" "is_decimal (1 - p)" using Cons.prems by (auto simp: a one_minus_decimal)
  then have "dec_sub D 1 p = Some (1 - p)" by (intro sub_exact) simp_all
  with Cons show ?case by (simp add: a kn_panic_def)
qed simp

end

lemma yes_bids_desc: "bm_wf m \<Longrightarrow> sorted_wrt (>) (map lv_price (yes_bids m))"
proof -
  have "map lv_price (yes_bids m) = rev (map fst m)" by (simp add: yes_bids_def rev_map case_prod_unfold o_def)
  then show "bm_wf m \<Longrightarrow> sorted_wrt (>) (map lv_price (yes_bids m))" by (simp add: bm_wf_def sorted_wrt_rev)
qed

text \<open>
  Property C38. A book that is kept from a snapshot and any changes after it, the refused ones included,
  can always be published while the No prices are probabilities: bids descend, asks ascend, the bids are
  exactly the Yes levels and the asks exactly the No levels at the complementary price.
\<close>

theorem kalshi_book_is_ordered:
  assumes "decimal_arith D" "reads_decimals P" "list_all (\<lambda>l. is_i64 (kl_price l)) (ks_asks r)"
    and "from_snapshot D P r seq = Inr st0" "st = fold (delta_step D P) ds st0" "ks_ticker r \<noteq> []"
    and "list_all (\<lambda>(p, s). 0 \<le> p \<and> p \<le> 1) (kb_no st)"
  shows "\<exists>b. to_order_book D st = Inr b
    \<and> sorted_wrt (>) (map lv_price (ob_bids b)) \<and> sorted_wrt (<) (map lv_price (ob_asks b))
    \<and> (\<forall>p q. \<lparr>lv_price = p, lv_size = q\<rparr> \<in> set (ob_bids b) \<longleftrightarrow> map_of (kb_yes st) p = Some q)
    \<and> (\<forall>p q. \<lparr>lv_price = p, lv_size = q\<rparr> \<in> set (ob_asks b) \<longleftrightarrow> map_of (kb_no st) (1 - p) = Some q)"
proof -
  have wf: "bm_wf (kb_yes st)" "bm_wf (kb_no st)"
    using deltas.run_inv [OF from_snapshot_wf [OF assms(4)]] by (simp_all add: assms(5) levels_wf_def)
  have "keys_decimal (kb_no st)" unfolding assms(5)
    by (rule run_decimal [OF assms(2) decimal_arith.from_snapshot_decimal [OF assms(1,4,2,3)]])
  then have no: "\<forall>p \<in> fst ` set (rev (kb_no st)). is_decimal p \<and> 0 \<le> p \<and> p \<le> 1"
    using assms(7) by (auto simp: keys_decimal_def list_all_iff)
  define asks where "asks = map (\<lambda>(p, s). \<lparr>lv_price = 1 - p, lv_size = s\<rparr>) (rev (kb_no st))"
  have asks: "no_asks D (rev (kb_no st)) = Inr asks"
    unfolding asks_def by (rule decimal_arith.no_asks_exact [OF assms(1) no])
  have "map lv_price asks = map (\<lambda>p. 1 - p) (rev (map fst (kb_no st)))"
    by (simp add: asks_def rev_map case_prod_unfold o_def)
  with wf(2) have asc: "sorted_wrt (<) (map lv_price asks)" by (simp add: bm_wf_def sorted_wrt_map sorted_wrt_rev)
  note desc = yes_bids_desc [OF wf(1)]
  have "kb_ticker st \<noteq> []" unfolding assms(5) run_ticker using assms(4,6) by (auto elim: from_snapshotE)
  then obtain market where key: "kalshi_key (kb_ticker st) = Inr market"
    by (cases "kalshi_key (kb_ticker st)")
      (auto simp: kalshi_key_def kalshi_venue_def venue_id_new_def market_key_new_def to_lower_def
        is_ascii_lowercase_def split: if_splits)
  have "\<lparr>lv_price = p, lv_size = q\<rparr> \<in> set (yes_bids (kb_yes st)) \<longleftrightarrow> map_of (kb_yes st) p = Some q" for p q
    by (force simp: yes_bids_def bm_wf_get [OF wf(1)] image_iff)
  moreover have "\<lparr>lv_price = p, lv_size = q\<rparr> \<in> set asks \<longleftrightarrow> map_of (kb_no st) (1 - p) = Some q" for p q
    by (force simp: asks_def bm_wf_get [OF wf(2)] image_iff)
  ultimately show ?thesis
    using desc asc by (simp add: to_order_book_def key asks order_book_new_in_order [OF desc asc] Let_def)
qed

subsection \<open>A refused change stays\<close>

lemma stamp_of_none: "stamp_of P missing None None = missing"
  by (simp add: stamp_of_def)

text \<open>
  A change whose time cannot be read is refused only after the level has been changed: the
  book is left with exactly the levels of the accepted change, under the old time and sequence number.
\<close>

theorem refused_delta_stays:
  assumes "apply_delta D P d seq st = (Inl (KnTimestampParse raw why), st1)"
  shows "\<exists>st2. apply_delta D P (d\<lparr>kd_ts := None, kd_ts_ms := None\<rparr>) seq st = (Inr (), st2)
    \<and> kb_yes st1 = kb_yes st2 \<and> kb_no st1 = kb_no st2 \<and> kb_ts st1 = kb_ts st \<and> kb_seq st1 = kb_seq st"
proof -
  have tick: "kd_market_ticker d = kb_ticker st" using assms by (auto simp: apply_delta_def split: if_splits)
  obtain pc where pc: "and_then (kalshi_decimal P (kd_price_dollars d)) (\<lambda>price. map_ok (Pair price) (kalshi_decimal P (kd_delta_fp d))) = Inr pc"
  proof (cases "and_then (kalshi_decimal P (kd_price_dollars d)) (\<lambda>price. map_ok (Pair price) (kalshi_decimal P (kd_delta_fp d)))")
    case (Inl e)
    then have "\<exists>s m. e = KnDecimalParse s m"
      by (auto simp: and_then_Inl_iff map_ok_Inl_iff kalshi_decimal_def map_err_def split: sum.splits)
    with assms Inl tick show thesis by (auto simp: apply_delta_def)
  qed (rule that)
  obtain price change where p: "pc = (price, change)" by (cases pc)
  from assms tick pc p have side: "kd_side d = ''yes'' \<or> kd_side d = ''no''"
    by (auto simp: apply_delta_def split: if_splits)
  let ?levels = "if kd_side d = ''yes'' then kb_yes st else kb_no st"
  obtain new where new: "dec_add D (level_size ?levels price) change = Some new"
    using assms tick pc p side by (cases "dec_add D (level_size ?levels price) change") (auto simp: apply_delta_def Let_def)
  from assms tick pc p side new show ?thesis
    by (cases "kd_side d = ''yes''"; cases "stamp_of P (Inr (kb_ts st)) (kd_ts d) (kd_ts_ms d)")
      (auto simp: apply_delta_def Let_def stamp_of_none)
qed

subsection \<open>Witnesses\<close>

definition kalshi_sample_texts :: "(string \<times> decimal) list" where
  "kalshi_sample_texts = [(''0.40'', 2 / 5), (''0.50'', 1 / 2), (''10'', 10), (''-4'', - 4)]"

definition kalshi_sample_parsers :: venue_parsers where
  "kalshi_sample_parsers =
     \<lparr>vp_decimal = (\<lambda>s. ok_or ''invalid decimal'' (map_of kalshi_sample_texts s)),
       vp_time_json = (\<lambda>s. Inl ''invalid time''), vp_unix_millis = Inr, vp_now = 7\<rparr>"

definition kalshi_sample_snapshot :: kalshi_book_snapshot where
  "kalshi_sample_snapshot =
     \<lparr>ks_ticker = ''BTC-75'', ks_ts = None, ks_bids = [], ks_asks = [],
       ks_yes_dollars_fp = [(''0.40'', ''10'')], ks_no_dollars_fp = [(''0.50'', ''10'')]\<rparr>"

definition kalshi_sample_delta :: "string option \<Rightarrow> kalshi_book_delta" where
  "kalshi_sample_delta ts =
     \<lparr>kd_market_ticker = ''BTC-75'', kd_price_dollars = ''0.40'', kd_delta_fp = ''-4'', kd_side = ''yes'',
       kd_ts = ts, kd_ts_ms = None\<rparr>"

definition kalshi_sample_state :: "decimal \<Rightarrow> kalshi_book_state" where
  "kalshi_sample_state n =
     \<lparr>kb_ticker = ''BTC-75'', kb_yes = [(2 / 5, n)], kb_no = [(1 / 2, 10)], kb_ts = 7, kb_seq = Some 1\<rparr>"

lemma kalshi_sample_adds: "dec_add dec_ref 0 10 = Some 10" "dec_add dec_ref 10 (- 4) = Some 6"
  by (simp_all add: dec_ref_def dec_round_exact is_decimal_numeral dec_bound_def)

lemma kalshi_sample_reads: "reads_decimals kalshi_sample_parsers"
  unfolding reads_decimals_def
proof (intro allI impI)
  fix s v assume "vp_decimal kalshi_sample_parsers s = Inr v"
  then have "map_of kalshi_sample_texts s = Some v" by (simp add: kalshi_sample_parsers_def ok_or_Inr_iff)
  from map_of_SomeD [OF this] have "v \<in> {2 / 5, 1 / 2, 10, - 4}"
    by (simp only: kalshi_sample_texts_def list.set insert_iff prod.inject empty_iff simp_thms) blast
  moreover have "\<forall>v \<in> {2 / 5, 1 / 2, 10, - 4 :: rat}. is_decimal v"
  proof -
    have "is_decimal (2 / 5)" by (rule is_decimalI [of 4 1]) (simp_all add: dec_bound_def)
    moreover have "is_decimal (1 / 2)" by (rule is_decimalI [of 5 1]) (simp_all add: dec_bound_def)
    ultimately show ?thesis by (simp add: is_decimal_numeral dec_bound_def)
  qed
  ultimately show "is_decimal v" by blast
qed

lemma kalshi_sample_parse:
  "kalshi_decimal kalshi_sample_parsers ''0.40'' = Inr (2 / 5)" "kalshi_decimal kalshi_sample_parsers ''0.50'' = Inr (1 / 2)"
  "kalshi_decimal kalshi_sample_parsers ''10'' = Inr 10" "kalshi_decimal kalshi_sample_parsers ''-4'' = Inr (- 4)"
  by (simp_all add: kalshi_decimal_def kalshi_sample_parsers_def kalshi_sample_texts_def)

lemma kalshi_sample_from: "from_snapshot dec_ref kalshi_sample_parsers kalshi_sample_snapshot (Some 1) = Inr (kalshi_sample_state 10)"
  by (simp add: from_snapshot_def kalshi_sample_snapshot_def kalshi_sample_parse kalshi_sample_state_def read_fixed_def
      add_level_def level_size_def kn_panic_def kalshi_sample_adds transpose_map_def)
    (simp add: kalshi_sample_parsers_def)

lemma kalshi_sample_change:
  "apply_delta dec_ref kalshi_sample_parsers (kalshi_sample_delta None) (Some 1) (kalshi_sample_state 10) = (Inr (), kalshi_sample_state 6)"
  "apply_delta dec_ref kalshi_sample_parsers (kalshi_sample_delta (Some ''soon'')) (Some 2) (kalshi_sample_state 10)
     = (Inl (KnTimestampParse ''soon'' ''invalid time''), kalshi_sample_state 6)"
  by (simp_all add: apply_delta_def kalshi_sample_delta_def kalshi_sample_parse kalshi_sample_state_def
      level_size_def kalshi_sample_adds Let_def changed_levels_def stamp_of_def parse_iso8601_def)
    (simp add: kalshi_sample_parsers_def)

lemma kalshi_sample_book: "\<exists>b. to_order_book dec_ref (kalshi_sample_state 6) = Inr b"
proof -
  have "is_decimal (1 / 2)" by (rule is_decimalI [of 5 1]) (simp_all add: dec_bound_def)
  then have "dec_sub dec_ref 1 (1 / 2) = Some (1 / 2)" by (intro dec_ref.sub_exact [THEN trans]) simp_all
  then show ?thesis
    by (simp add: to_order_book_def kalshi_sample_state_def kalshi_key_def kalshi_venue_def venue_id_new_def is_ascii_lowercase_def
        market_key_new_def to_lower_def kn_panic_def yes_bids_def order_book_new_def Let_def)
qed

theorem kalshi_book_is_ordered_witness:
  "\<exists>b. to_order_book dec_ref (kalshi_sample_state 6) = Inr b \<and> \<lparr>lv_price = 2 / 5, lv_size = 6\<rparr> \<in> set (ob_bids b)"
proof -
  have st: "kalshi_sample_state 6 = fold (delta_step dec_ref kalshi_sample_parsers) [(kalshi_sample_delta None, Some 1)] (kalshi_sample_state 10)"
    by (simp add: delta_step_def kalshi_sample_change [simplified])
  have "list_all (\<lambda>(p, s). 0 \<le> p \<and> p \<le> 1) (kb_no (kalshi_sample_state 6))"
    "list_all (\<lambda>l. is_i64 (kl_price l)) (ks_asks kalshi_sample_snapshot)" "ks_ticker kalshi_sample_snapshot \<noteq> []"
    "map_of (kb_yes (kalshi_sample_state 6)) (2 / 5) = Some 6"
    by (simp_all add: kalshi_sample_state_def kalshi_sample_snapshot_def)
  with kalshi_book_is_ordered [OF dec_ref.decimal_arith_axioms kalshi_sample_reads _ kalshi_sample_from st] show ?thesis by blast
qed

theorem refused_delta_stays_witness:
  "\<exists>st2. apply_delta dec_ref kalshi_sample_parsers (kalshi_sample_delta None) (Some 2) (kalshi_sample_state 10) = (Inr (), st2)
    \<and> kb_yes (kalshi_sample_state 6) = kb_yes st2"
  using refused_delta_stays [OF kalshi_sample_change(2)] by (auto simp: kalshi_sample_delta_def)

end
