(* ===== verification/Kalshi_Stream.thy ===== *)
theory Kalshi_Stream
  imports Kalshi_Normalize
begin

text \<open>
  The WebSocket client of the Kalshi venue pack (\<^verbatim>\<open>connectors/venues/kalshi/src/stream.rs\<close>): the breaker,
  the backoff, the tracker of sequence numbers, and the two endless loops that publish quotes and order
  books. The socket, the JSON codec and the producers are arguments; a run of a loop is a list of
  connection attempts, each with what the connection delivers. The lemmas show when the loops end and
  when they do not, and what a book survives.
\<close>

subsection \<open>Errors, breaker, backoff, sequence numbers\<close>

datatype 'k kalshi_stream_error =
    KsAuth string
  | KsConnection string
  | KsProtocol string
  | KsSerialization string
  | KsNormalize kalshi_error
  | KsProducer "'k producer_error"
  | KsQuarantine "'k quarantine_error"
  | KsBreakerOpen nat
  | KsGapDetected nat nat

record kalshi_ws_message =
  kw_type :: string
  kw_seq :: "nat option"
  kw_sid :: "nat option"
  kw_data :: json

definition breaker_threshold :: nat where "breaker_threshold = 5"
definition backoff_base_ms :: nat where "backoff_base_ms = 200"
definition backoff_cap_ms :: nat where "backoff_cap_ms = 30000"

record stream_breaker =
  sk_threshold :: nat
  sk_failures :: nat
  sk_open :: bool

definition stream_breaker_new :: "nat \<Rightarrow> stream_breaker" where
  "stream_breaker_new threshold = \<lparr>sk_threshold = threshold, sk_failures = 0, sk_open = False\<rparr>"

definition stream_record_failure :: "stream_breaker \<Rightarrow> ('k kalshi_stream_error + unit) \<times> stream_breaker" where
  "stream_record_failure b =
     (let b1 = b\<lparr>sk_failures := sk_failures b + 1\<rparr>
      in if sk_threshold b1 \<le> sk_failures b1 then (Inl (KsBreakerOpen (sk_threshold b1)), b1\<lparr>sk_open := True\<rparr>)
         else (Inr (), b1))"

definition stream_record_success :: "stream_breaker \<Rightarrow> stream_breaker" where
  "stream_record_success b = b\<lparr>sk_failures := 0\<rparr>"

definition stream_breaker_reset :: "stream_breaker \<Rightarrow> stream_breaker" where
  "stream_breaker_reset b = b\<lparr>sk_failures := 0, sk_open := False\<rparr>"

text \<open>\<open>hash\<close> is \<^verbatim>\<open>DefaultHasher\<close>, a function of the attempt.\<close>

definition kalshi_backoff :: "(nat \<Rightarrow> nat) \<Rightarrow> nat \<Rightarrow> nat \<Rightarrow> nat \<Rightarrow> nat" where
  "kalshi_backoff hash attempt base cap =
     (let grown = min (base * 2 ^ min attempt 30) (2 ^ 64 - 1);
          longest = min cap grown
      in hash attempt mod (longest + 1))"

text \<open>The last number seen. \<^verbatim>\<open>last + 1\<close> panics at the largest \<^verbatim>\<open>u64\<close>.\<close>

record seq_tracker =
  sq_last :: "nat option"

definition seq_tracker_new :: seq_tracker where
  "seq_tracker_new = \<lparr>sq_last = None\<rparr>"

definition seq_observe :: "nat \<Rightarrow> seq_tracker \<Rightarrow> ((nat \<times> nat) option \<times> seq_tracker) option" where
  "seq_observe seq t =
     (case sq_last t of
        None \<Rightarrow> Some (None, t\<lparr>sq_last := Some seq\<rparr>)
      | Some prev \<Rightarrow>
          if 2 ^ 64 \<le> prev + 1 then None
          else Some (if prev + 1 < seq then Some (prev + 1, seq) else None, t\<lparr>sq_last := Some seq\<rparr>))"

definition seq_reset :: "seq_tracker \<Rightarrow> seq_tracker" where
  "seq_reset t = t\<lparr>sq_last := None\<rparr>"

subsection \<open>The state of a loop\<close>

record ('p, 'q, 'o) kalshi_feed =
  kf_attempt :: nat
  kf_breaker :: stream_breaker
  kf_seq :: seq_tracker
  kf_books :: "(string, kalshi_book_state) hash_map"
  kf_next_id :: u64
  kf_commands :: "json list"
  kf_sleeps :: "nat list"
  kf_producer :: 'p
  kf_quarantine :: "('q, 'o) quarantine_state"

record ('k, 'p, 'q, 'o) kalshi_env =
  ke_ops :: dec_ops
  ke_parsers :: venue_parsers
  ke_hash :: "nat \<Rightarrow> nat"
  ke_tickers :: "string list"
  ke_decode :: "string \<Rightarrow> string + kalshi_ws_message"
  ke_tick :: "json \<Rightarrow> string + kalshi_tick"
  ke_snapshot :: "json \<Rightarrow> string + kalshi_book_snapshot"
  ke_delta :: "json \<Rightarrow> string + kalshi_book_delta"
  ke_send_quote :: "('k, quote envelope, 'p) producer"
  ke_send_book :: "('k, order_book envelope, 'p) producer"
  ke_send_quarantine :: "('k, quarantine_message envelope, 'q) producer"
  ke_store :: "('k, 'o) object_store"

definition kalshi_feed_new :: "'p \<Rightarrow> ('q, 'o) quarantine_state \<Rightarrow> ('p, 'q, 'o) kalshi_feed" where
  "kalshi_feed_new p q =
     \<lparr>kf_attempt = 0, kf_breaker = stream_breaker_new breaker_threshold, kf_seq = seq_tracker_new, kf_books = [],
       kf_next_id = 1, kf_commands = [], kf_sleeps = [], kf_producer = p, kf_quarantine = q\<rparr>"

definition clocked :: "('k, 'p, 'q, 'o) kalshi_env \<Rightarrow> surroundings \<Rightarrow> venue_parsers" where
  "clocked E S = (ke_parsers E)\<lparr>vp_now := su_now S\<rparr>"

subsection \<open>Subscriptions\<close>

definition subscribe_request :: "u64 \<Rightarrow> string \<Rightarrow> string list \<Rightarrow> bool option \<Rightarrow> json" where
  "subscribe_request i channel tickers use_yes_price =
     JObject [(''id'', JNumber (show_nat (unat i))), (''cmd'', JString ''subscribe''),
       (''params'', JObject ([(''channels'', JArray [JString channel]), (''market_tickers'', JArray (map JString tickers))]
          @ (case use_yes_price of None \<Rightarrow> [] | Some b \<Rightarrow> [(''use_yes_price'', JBool b)])))]"

definition kalshi_subscribe ::
  "string \<Rightarrow> bool option \<Rightarrow> string list \<Rightarrow> surroundings \<Rightarrow> ('p, 'q, 'o) kalshi_feed
     \<Rightarrow> ('k kalshi_stream_error + unit) \<times> ('p, 'q, 'o) kalshi_feed" where
  "kalshi_subscribe channel use_yes_price tickers S f =
     (let f1 = f\<lparr>kf_next_id := kf_next_id f + 1\<rparr>
      in case su_sent S of
           Inl e \<Rightarrow> (Inl (KsProtocol e), f1)
         | Inr _ \<Rightarrow> (Inr (), f1\<lparr>kf_commands := kf_commands f1 @ [subscribe_request (kf_next_id f) channel tickers use_yes_price]\<rparr>))"

definition subscribe_ticks ::
  "string list \<Rightarrow> surroundings \<Rightarrow> ('p, 'q, 'o) kalshi_feed \<Rightarrow> ('k kalshi_stream_error + unit) \<times> ('p, 'q, 'o) kalshi_feed" where
  "subscribe_ticks = kalshi_subscribe ''ticker'' None"

definition subscribe_books ::
  "string list \<Rightarrow> surroundings \<Rightarrow> ('p, 'q, 'o) kalshi_feed \<Rightarrow> ('k kalshi_stream_error + unit) \<times> ('p, 'q, 'o) kalshi_feed" where
  "subscribe_books = kalshi_subscribe ''orderbook_delta'' (Some True)"

subsection \<open>Messages\<close>

text \<open>The raw frame goes to quarantine; if that fails the loop returns.\<close>

definition kalshi_quarantine ::
  "('k, 'p, 'q, 'o) kalshi_env \<Rightarrow> surroundings \<Rightarrow> string \<Rightarrow> u8 list \<Rightarrow> ('p, 'q, 'o) kalshi_feed
     \<Rightarrow> 'k kalshi_stream_error flow \<times> ('p, 'q, 'o) kalshi_feed" where
  "kalshi_quarantine E S reason raw f =
     (case quarantine_publish (ke_send_quarantine E) (ke_store E) (su_quarantine S) ''kalshi'' reason raw (kf_quarantine f) of
        (Inl e, q) \<Rightarrow> (Stop (KsQuarantine e), f\<lparr>kf_quarantine := q\<rparr>)
      | (Inr _, q) \<Rightarrow> (Go, f\<lparr>kf_quarantine := q\<rparr>))"

definition handle_ws_message ::
  "('k, 'p, 'q, 'o) kalshi_env \<Rightarrow> ws_input \<Rightarrow> string \<Rightarrow> seq_tracker
     \<Rightarrow> (('k kalshi_stream_error + kalshi_tick option) \<times> seq_tracker) option" where
  "handle_ws_message E i expected_type t =
     (case i of
        WsText text \<Rightarrow>
          (case ke_decode E text of
             Inl e \<Rightarrow> Some (Inl (KsSerialization e), t)
           | Inr m \<Rightarrow>
               Option.bind (case kw_seq m of None \<Rightarrow> Some (None, t) | Some n \<Rightarrow> seq_observe n t) (\<lambda>(gap, t1).
                 (case gap of
                    Some (expected, actual) \<Rightarrow> Some (Inl (KsGapDetected expected actual), t1)
                  | None \<Rightarrow>
                      if kw_type m \<noteq> expected_type then Some (Inr None, t1)
                      else Some (map_err KsSerialization (map_ok Some (ke_tick E (kw_data m))), t1))))
      | _ \<Rightarrow> Some (Inr None, t))"

definition kalshi_tick_step ::
  "('k, 'p, 'q, 'o) kalshi_env \<Rightarrow> surroundings \<Rightarrow> ws_input \<Rightarrow> ('p, 'q, 'o) kalshi_feed
     \<Rightarrow> 'k kalshi_stream_error flow \<times> ('p, 'q, 'o) kalshi_feed" where
  "kalshi_tick_step E S i f =
     (if (\<exists>e. i = WsError e) \<or> i = WsEnd then (Drop, f)
      else (case handle_ws_message E i ''ticker'' (kf_seq f) of
        None \<Rightarrow> (Panicked, f)
      | Some (r, t) \<Rightarrow>
          let f1 = f\<lparr>kf_seq := t\<rparr>
          in (case r of
                Inr None \<Rightarrow> (Go, f1)
              | Inr (Some tick) \<Rightarrow>
                  (case kalshi_normalize_tick (clocked E S) tick of
                     Inr q \<Rightarrow>
                       (case ke_send_quote E ''md.ticks.kalshi'' (envelope_new (su_trace S) (su_now_text S) ''quote'' q)
                              (Some (key_str (q_market q))) (kf_producer f1) of
                          (Inl e, p) \<Rightarrow> (Stop (KsProducer e), f1\<lparr>kf_producer := p\<rparr>)
                        | (Inr _, p) \<Rightarrow> (Go, f1\<lparr>kf_producer := p\<rparr>))
                   | Inl e \<Rightarrow> kalshi_quarantine E S (kalshi_error_text e) (message_bytes i) f1)
              | Inl (KsGapDetected expected actual) \<Rightarrow>
                  (case (subscribe_ticks (ke_tickers E) S f1 :: ('k kalshi_stream_error + unit) \<times> _) of
                     (Inl e, f2) \<Rightarrow> (Drop, f2)
                   | (Inr _, f2) \<Rightarrow> (Go, f2\<lparr>kf_seq := seq_reset (kf_seq f2)\<rparr>))
              | Inl (KsSerialization e) \<Rightarrow> kalshi_quarantine E S (''serialization error: '' @ e) (message_bytes i) f1
              | Inl _ \<Rightarrow> (Go, f1))))"

text \<open>What the book loop does with a book it has rebuilt.\<close>

definition kalshi_publish_book ::
  "('k, 'p, 'q, 'o) kalshi_env \<Rightarrow> surroundings \<Rightarrow> kalshi_book_state \<Rightarrow> ('p, 'q, 'o) kalshi_feed
     \<Rightarrow> 'k kalshi_stream_error flow \<times> ('p, 'q, 'o) kalshi_feed" where
  "kalshi_publish_book E S st f =
     (case to_order_book (ke_ops E) st of
        Inr b \<Rightarrow>
          (case ke_send_book E ''md.books.kalshi'' (envelope_new (su_trace S) (su_now_text S) ''order_book'' b)
                 (Some (key_str (ob_market b))) (kf_producer f) of
             (Inl e, p) \<Rightarrow> (Stop (KsProducer e), f\<lparr>kf_producer := p\<rparr>)
           | (Inr _, p) \<Rightarrow> (Go, f\<lparr>kf_producer := p\<rparr>))
      | Inl KnPanic \<Rightarrow> (Panicked, f)
      | Inl _ \<Rightarrow> (Go, f))"

definition kalshi_book_message ::
  "('k, 'p, 'q, 'o) kalshi_env \<Rightarrow> surroundings \<Rightarrow> string \<Rightarrow> kalshi_ws_message \<Rightarrow> ('p, 'q, 'o) kalshi_feed
     \<Rightarrow> 'k kalshi_stream_error flow \<times> ('p, 'q, 'o) kalshi_feed" where
  "kalshi_book_message E S text m f =
     (if kw_type m = ''orderbook_snapshot'' then
        (case ke_snapshot E (kw_data m) of
           Inl e \<Rightarrow> kalshi_quarantine E S (''book snapshot normalization: '' @ e) (as_bytes text) f
         | Inr snapshot \<Rightarrow>
             (case from_snapshot (ke_ops E) (clocked E S) snapshot (kw_seq m) of
                Inl KnPanic \<Rightarrow> (Panicked, f)
              | Inl e \<Rightarrow> kalshi_quarantine E S (''book snapshot normalization: '' @ kalshi_error_text e) (as_bytes text) f
              | Inr st \<Rightarrow> kalshi_publish_book E S st (f\<lparr>kf_books := hm_put (ks_ticker snapshot) st (kf_books f)\<rparr>)))
      else if kw_type m = ''orderbook_delta'' then
        (case ke_delta E (kw_data m) of
           Inl e \<Rightarrow> kalshi_quarantine E S (''invalid book delta: '' @ e) (as_bytes text) f
         | Inr d \<Rightarrow>
             (case hm_get (kf_books f) (kd_market_ticker d) of
                None \<Rightarrow> (Go, f)
              | Some st \<Rightarrow>
                  (case apply_delta (ke_ops E) (clocked E S) d (kw_seq m) st of
                     (Inl KnPanic, st') \<Rightarrow> (Panicked, f\<lparr>kf_books := hm_put (kd_market_ticker d) st' (kf_books f)\<rparr>)
                   | (Inl e, st') \<Rightarrow>
                       kalshi_quarantine E S (''book delta normalization: '' @ kalshi_error_text e) (as_bytes text)
                         (f\<lparr>kf_books := hm_put (kd_market_ticker d) st' (kf_books f)\<rparr>)
                   | (Inr _, st') \<Rightarrow>
                       kalshi_publish_book E S st' (f\<lparr>kf_books := hm_put (kd_market_ticker d) st' (kf_books f)\<rparr>))))
      else (Go, f))"

definition kalshi_book_step ::
  "('k, 'p, 'q, 'o) kalshi_env \<Rightarrow> surroundings \<Rightarrow> ws_input \<Rightarrow> ('p, 'q, 'o) kalshi_feed
     \<Rightarrow> 'k kalshi_stream_error flow \<times> ('p, 'q, 'o) kalshi_feed" where
  "kalshi_book_step E S i f =
     (case i of
        WsText text \<Rightarrow>
          (case ke_decode E text of
             Inl e \<Rightarrow> kalshi_quarantine E S (''invalid WebSocket JSON: '' @ e) (as_bytes text) f
           | Inr m \<Rightarrow>
               (case (case kw_seq m of None \<Rightarrow> Some (None, kf_seq f) | Some n \<Rightarrow> seq_observe n (kf_seq f)) of
                  None \<Rightarrow> (Panicked, f)
                | Some (None, t) \<Rightarrow> kalshi_book_message E S text m (f\<lparr>kf_seq := t\<rparr>)
                | Some (Some gap, t) \<Rightarrow>
                    (case (subscribe_books (ke_tickers E) S (f\<lparr>kf_seq := t, kf_books := []\<rparr>) :: ('k kalshi_stream_error + unit) \<times> _) of
                       (Inl e, f2) \<Rightarrow> (Drop, f2)
                     | (Inr _, f2) \<Rightarrow> (Go, f2\<lparr>kf_seq := seq_reset (kf_seq f2)\<rparr>))))
      | WsError e \<Rightarrow> (Drop, f)
      | WsEnd \<Rightarrow> (Drop, f)
      | _ \<Rightarrow> (Go, f))"

subsection \<open>The loops\<close>

text \<open>One connection attempt: refused, or established with the surroundings of the first subscription and
  what the connection delivers. A connection that still delivers keeps its loop \<open>Waiting\<close>.\<close>

datatype kalshi_attempt = Refused string | Connected surroundings "(surroundings \<times> ws_input) list"

definition kalshi_round ::
  "('k, 'p, 'q, 'o) kalshi_env \<Rightarrow> (surroundings \<Rightarrow> ('p, 'q, 'o) kalshi_feed \<Rightarrow> ('k kalshi_stream_error + unit) \<times> ('p, 'q, 'o) kalshi_feed)
     \<Rightarrow> (surroundings \<Rightarrow> ws_input \<Rightarrow> ('p, 'q, 'o) kalshi_feed \<Rightarrow> 'k kalshi_stream_error flow \<times> ('p, 'q, 'o) kalshi_feed)
     \<Rightarrow> kalshi_attempt \<Rightarrow> ('p, 'q, 'o) kalshi_feed \<Rightarrow> 'k kalshi_stream_error flow \<times> ('p, 'q, 'o) kalshi_feed" where
  "kalshi_round E subscribe step a f =
     (if sk_open (kf_breaker f) then (Stop (KsBreakerOpen breaker_threshold), f)
      else
        let f1 = (if 0 < kf_attempt f
                  then f\<lparr>kf_sleeps := kf_sleeps f @ [kalshi_backoff (ke_hash E) (kf_attempt f) backoff_base_ms backoff_cap_ms]\<rparr>
                  else f)
        in (case a of
              Refused e \<Rightarrow>
                (case stream_record_failure (kf_breaker f1) of
                   (Inl err, b) \<Rightarrow> (Stop err, f1\<lparr>kf_attempt := kf_attempt f1 + 1, kf_breaker := b\<rparr>)
                 | (Inr _, b) \<Rightarrow> (Go, f1\<lparr>kf_attempt := kf_attempt f1 + 2, kf_breaker := b\<rparr>))
            | Connected S inputs \<Rightarrow>
                let f2 = f1\<lparr>kf_attempt := 0, kf_breaker := stream_record_success (kf_breaker f1), kf_seq := seq_reset (kf_seq f1)\<rparr>
                in (case subscribe S f2 of
                      (Inl e, f3) \<Rightarrow>
                        (Go, f3\<lparr>kf_breaker := snd (stream_record_failure (kf_breaker f3) :: ('k kalshi_stream_error + unit) \<times> _)\<rparr>)
                    | (Inr _, f3) \<Rightarrow>
                        (case read_inputs step inputs f3 of
                           (Drop, f4) \<Rightarrow> (Go, f4\<lparr>kf_attempt := kf_attempt f4 + 1\<rparr>)
                         | (r, f4) \<Rightarrow> (r, f4)))))"

fun kalshi_rounds ::
  "(kalshi_attempt \<Rightarrow> 's \<Rightarrow> 'e flow \<times> 's) \<Rightarrow> kalshi_attempt list \<Rightarrow> 's \<Rightarrow> 'e flow \<times> 's" where
  "kalshi_rounds rnd [] f = (Go, f)"
| "kalshi_rounds rnd (a # as) f =
     (case rnd a f of
        (Go, f') \<Rightarrow> kalshi_rounds rnd as f'
      | (r, f') \<Rightarrow> (r, f'))"

definition stream_ticks_to_bus ::
  "('k, 'p, 'q, 'o) kalshi_env \<Rightarrow> kalshi_attempt list \<Rightarrow> ('p, 'q, 'o) kalshi_feed
     \<Rightarrow> 'k kalshi_stream_error flow \<times> ('p, 'q, 'o) kalshi_feed" where
  "stream_ticks_to_bus E = kalshi_rounds (kalshi_round E (subscribe_ticks (ke_tickers E)) (kalshi_tick_step E))"

definition stream_books_to_bus ::
  "('k, 'p, 'q, 'o) kalshi_env \<Rightarrow> kalshi_attempt list \<Rightarrow> ('p, 'q, 'o) kalshi_feed
     \<Rightarrow> 'k kalshi_stream_error flow \<times> ('p, 'q, 'o) kalshi_feed" where
  "stream_books_to_bus E = kalshi_rounds (kalshi_round E (subscribe_books (ke_tickers E)) (kalshi_book_step E))"

subsection \<open>What a connection keeps\<close>

lemma kalshi_quarantine_keeps:
  assumes "kalshi_quarantine E S reason raw f = (r, f')"
  shows "kf_books f' = kf_books f \<and> kf_producer f' = kf_producer f"
  using assms by (auto simp: kalshi_quarantine_def split: prod.splits sum.splits)

lemma kalshi_subscribe_keeps:
  assumes "kalshi_subscribe channel u tickers S f = (r, f')"
  shows "kf_books f' = kf_books f \<and> kf_producer f' = kf_producer f \<and> kf_breaker f' = kf_breaker f
    \<and> kf_attempt f' = kf_attempt f \<and> kf_sleeps f' = kf_sleeps f \<and> kf_next_id f' = kf_next_id f + 1
    \<and> (isl r \<longleftrightarrow> isl (su_sent S)) \<and> kf_seq f' = kf_seq f"
  using assms by (auto simp: kalshi_subscribe_def Let_def split: sum.splits)

text \<open>A frame that brings a snapshot.\<close>

definition brings_snapshot :: "('k, 'p, 'q, 'o) kalshi_env \<Rightarrow> ws_input \<Rightarrow> bool" where
  "brings_snapshot E i =
     (case i of WsText text \<Rightarrow> (case ke_decode E text of Inl e \<Rightarrow> False | Inr m \<Rightarrow> kw_type m = ''orderbook_snapshot'') | _ \<Rightarrow> False)"

definition bookless :: "'p \<Rightarrow> ('p, 'q, 'o) kalshi_feed \<Rightarrow> bool" where
  "bookless p f \<longleftrightarrow> kf_books f = [] \<and> kf_producer f = p"

lemma kalshi_book_message_bookless:
  assumes "kalshi_book_message E S text m f = (r, f')" "kw_type m \<noteq> ''orderbook_snapshot''" "bookless p f"
  shows "bookless p f'"
proof (cases "kw_type m = ''orderbook_delta''")
  case True
  show ?thesis
  proof (cases "ke_delta E (kw_data m)")
    case (Inl e)
    with assms(1) True have "kalshi_quarantine E S (''invalid book delta: '' @ e) (as_bytes text) f = (r, f')"
      by (simp add: kalshi_book_message_def)
    from kalshi_quarantine_keeps [OF this] assms(3) show ?thesis by (simp add: bookless_def)
  next
    case (Inr d)
    with assms True show ?thesis by (simp add: kalshi_book_message_def bookless_def)
  qed
next
  case False
  with assms show ?thesis by (simp add: kalshi_book_message_def)
qed

lemma kalshi_book_step_bookless:
  assumes "kalshi_book_step E S i f = (r, f')" "\<not> brings_snapshot E i" "bookless p f"
  shows "bookless p f'"
proof (cases i)
  case (WsText raw)
  show ?thesis
  proof (cases "ke_decode E raw")
    case (Inl e)
    with assms(1) WsText have "kalshi_quarantine E S (''invalid WebSocket JSON: '' @ e) (as_bytes raw) f = (r, f')"
      by (simp add: kalshi_book_step_def)
    from kalshi_quarantine_keeps [OF this] assms(3) show ?thesis by (simp add: bookless_def)
  next
    case m: (Inr m)
    with assms(2) WsText have ty: "kw_type m \<noteq> ''orderbook_snapshot''" by (simp add: brings_snapshot_def)
    let ?o = "case kw_seq m of None \<Rightarrow> Some (None, kf_seq f) | Some n \<Rightarrow> seq_observe n (kf_seq f)"
    show ?thesis
    proof (cases ?o)
      case None
      with assms m WsText show ?thesis by (simp add: kalshi_book_step_def)
    next
      case (Some gt)
      obtain gap t where gt: "gt = (gap, t)" by (cases gt)
      show ?thesis
      proof (cases gap)
        case None
        with assms(1) m WsText Some gt have "kalshi_book_message E S raw m (f\<lparr>kf_seq := t\<rparr>) = (r, f')"
          by (simp add: kalshi_book_step_def)
        from kalshi_book_message_bookless [OF this ty, of p] assms(3) show ?thesis by (simp add: bookless_def)
      next
        case g: (Some g)
        obtain v f2 where v: "(subscribe_books (ke_tickers E) S (f\<lparr>kf_seq := t, kf_books := []\<rparr>)
            :: ('a kalshi_stream_error + unit) \<times> _) = (v, f2)" by force
        from kalshi_subscribe_keeps [OF v [unfolded subscribe_books_def]] assms(3) have "bookless p f2"
          by (simp add: bookless_def)
        moreover have "f' = f2 \<or> f' = f2\<lparr>kf_seq := seq_reset (kf_seq f2)\<rparr>"
          using assms(1) m WsText Some gt g v by (cases v) (auto simp: kalshi_book_step_def)
        ultimately show ?thesis by (auto simp: bookless_def)
      qed
    qed
  qed
qed (use assms in \<open>auto simp: kalshi_book_step_def\<close>)

interpretation unfed: input_machine "kalshi_book_step E" "\<lambda>i. \<not> brings_snapshot E i" "bookless p"
  by unfold_locales (rule kalshi_book_step_bookless)

text \<open>
  A gap in the sequence numbers forgets every book: the message that shows the gap and all
  that follow on the connection publish nothing until a snapshot arrives, whether the subscription that
  the gap triggers succeeds or not.
\<close>

theorem gap_silences_books:
  assumes "ke_decode E text = Inr m" "kw_seq m = Some n" "sq_last (kf_seq f) = Some prev" "prev + 1 < n" "n < 2 ^ 64"
    and "list_all (\<lambda>(S, i). \<not> brings_snapshot E i) later"
    and "read_inputs (kalshi_book_step E) ((S, WsText text) # later) f = (r, f')"
  shows "kf_producer f' = kf_producer f \<and> kf_books f' = []"
proof -
  let ?f = "f\<lparr>kf_seq := (kf_seq f)\<lparr>sq_last := Some n\<rparr>, kf_books := []\<rparr>"
  obtain v f2 where v: "(subscribe_books (ke_tickers E) S ?f :: ('a kalshi_stream_error + unit) \<times> _) = (v, f2)" by force
  from kalshi_subscribe_keeps [OF v [unfolded subscribe_books_def]]
  have f2: "bookless (kf_producer f) f2" "bookless (kf_producer f) (f2\<lparr>kf_seq := seq_reset (kf_seq f2)\<rparr>)"
    by (simp_all add: bookless_def)
  have observe: "seq_observe n (kf_seq f) = Some (Some (prev + 1, n), (kf_seq f)\<lparr>sq_last := Some n\<rparr>)"
    using assms(3,4,5) by (simp add: seq_observe_def)
  have step: "kalshi_book_step E S (WsText text) f =
      (case v of Inl e \<Rightarrow> (Drop, f2) | Inr u \<Rightarrow> (Go, f2\<lparr>kf_seq := seq_reset (kf_seq f2)\<rparr>))"
    using v by (simp add: kalshi_book_step_def assms(1,2) observe split: sum.split)
  have "bookless (kf_producer f) f'"
  proof (cases v)
    case (Inl e)
    with assms(7) step f2(1) show ?thesis by simp
  next
    case (Inr u)
    with assms(7) step have "read_inputs (kalshi_book_step E) later (f2\<lparr>kf_seq := seq_reset (kf_seq f2)\<rparr>) = (r, f')" by simp
    from unfed.read_good [OF this assms(6) f2(2)] show ?thesis .
  qed
  then show ?thesis by (simp add: bookless_def)
qed

subsection \<open>Reconnection\<close>

lemma connected_round:
  fixes E :: "('k, 'p, 'q, 'o) kalshi_env"
  assumes "\<not> sk_open (kf_breaker f)" "su_sent S = Inr ()"
  obtains f1 where "kalshi_round E (kalshi_subscribe channel u tickers) step (Connected S inputs) f =
      (case read_inputs step inputs f1 of (Drop, f4) \<Rightarrow> (Go, f4\<lparr>kf_attempt := kf_attempt f4 + 1\<rparr>) | (r, f4) \<Rightarrow> (r, f4))"
    "kf_books f1 = kf_books f" "kf_producer f1 = kf_producer f" "sq_last (kf_seq f1) = None" "\<not> sk_open (kf_breaker f1)"
proof -
  let ?f1 = "if 0 < kf_attempt f
    then f\<lparr>kf_sleeps := kf_sleeps f @ [kalshi_backoff (ke_hash E) (kf_attempt f) backoff_base_ms backoff_cap_ms]\<rparr> else f"
  let ?f2 = "?f1\<lparr>kf_attempt := 0, kf_breaker := stream_record_success (kf_breaker ?f1), kf_seq := seq_reset (kf_seq ?f1)\<rparr>"
  obtain v f3 where f3: "(kalshi_subscribe channel u tickers S ?f2 :: ('k kalshi_stream_error + unit) \<times> _) = (v, f3)" by force
  note kept = kalshi_subscribe_keeps [OF f3]
  from kept assms(2) obtain w where v: "v = Inr w" by (cases v) auto
  show thesis
  proof (rule that [of f3])
    show "kalshi_round E (kalshi_subscribe channel u tickers) step (Connected S inputs) f =
      (case read_inputs step inputs f3 of (Drop, f4) \<Rightarrow> (Go, f4\<lparr>kf_attempt := kf_attempt f4 + 1\<rparr>) | (r, f4) \<Rightarrow> (r, f4))"
      using assms(1) f3 unfolding kalshi_round_def Let_def v by (simp only: if_False kalshi_attempt.case prod.case sum.case)
  qed (use kept assms(1) in \<open>auto simp: seq_reset_def stream_record_success_def\<close>)
qed

lemma fresh_delta_step:
  assumes "hm_get (kf_books f) (kd_market_ticker d) = Some s0" "sq_last (kf_seq f) = None"
    and "ke_decode E msg = Inr m" "kw_type m = ''orderbook_delta''" "ke_delta E (kw_data m) = Inr d"
    and "apply_delta (ke_ops E) (clocked E S) d (kw_seq m) s0 = (Inr (), s1)" "to_order_book (ke_ops E) s1 = Inr b"
    and "ke_send_book E ''md.books.kalshi'' (envelope_new (su_trace S) (su_now_text S) ''order_book'' b)
           (Some (key_str (ob_market b))) (kf_producer f) = (Inr (), p)"
  shows "\<exists>f'. kalshi_book_step E S (WsText msg) f = (Go, f') \<and> kf_producer f' = p \<and> hm_get (kf_books f') (kd_market_ticker d) = Some s1"
proof -
  obtain t where "(case kw_seq m of None \<Rightarrow> Some (None, kf_seq f) | Some n \<Rightarrow> seq_observe n (kf_seq f)) = Some (None, t)"
    using assms(2) by (cases "kw_seq m") (simp_all add: seq_observe_def)
  with assms show ?thesis
    by (simp add: kalshi_book_step_def kalshi_book_message_def kalshi_publish_book_def update_conv')
qed

text \<open>
  Property C39. A lost connection forgets nothing but the sequence numbers: a change that is the first
  message of the next connection is applied to the book that was kept from the connection before, with
  whatever was missed in between, and the result is published.
\<close>

theorem stale_book_survives_reconnect:
  fixes E :: "('k, 'p, 'q, 'o) kalshi_env"
  assumes "hm_get (kf_books f) (kd_market_ticker d) = Some s0" "\<not> sk_open (kf_breaker f)"
    and "su_sent S1 = Inr ()" "su_sent S2 = Inr ()"
    and "ke_decode E msg = Inr m" "kw_type m = ''orderbook_delta''" "ke_delta E (kw_data m) = Inr d"
    and "apply_delta (ke_ops E) (clocked E S) d (kw_seq m) s0 = (Inr (), s1)" "to_order_book (ke_ops E) s1 = Inr b"
    and "ke_send_book E ''md.books.kalshi'' (envelope_new (su_trace S) (su_now_text S) ''order_book'' b)
           (Some (key_str (ob_market b))) (kf_producer f) = (Inr (), p)"
  shows "\<exists>f'. stream_books_to_bus E [Connected S1 [(S', WsEnd)], Connected S2 [(S, WsText msg)]] f = (Waiting, f')
    \<and> kf_producer f' = p \<and> hm_get (kf_books f') (kd_market_ticker d) = Some s1"
proof -
  let ?sub = "subscribe_books (ke_tickers E) :: _ \<Rightarrow> _ \<Rightarrow> ('k kalshi_stream_error + unit) \<times> _"
  obtain f1 where f1: "kalshi_round E ?sub (kalshi_book_step E) (Connected S1 [(S', WsEnd)]) f =
      (case read_inputs (kalshi_book_step E) [(S', WsEnd)] f1 of
         (Drop, f4) \<Rightarrow> (Go, f4\<lparr>kf_attempt := kf_attempt f4 + 1\<rparr>) | (r, f4) \<Rightarrow> (r, f4))"
    "kf_books f1 = kf_books f" "kf_producer f1 = kf_producer f" "\<not> sk_open (kf_breaker f1)"
    unfolding subscribe_books_def by (rule connected_round [OF assms(2,3)])
  let ?g = "f1\<lparr>kf_attempt := kf_attempt f1 + 1\<rparr>"
  have g: "kalshi_round E ?sub (kalshi_book_step E) (Connected S1 [(S', WsEnd)]) f = (Go, ?g)"
    by (simp add: f1(1) kalshi_book_step_def)
  have open_g: "\<not> sk_open (kf_breaker ?g)" using f1(4) by simp
  obtain f2 where f2: "kalshi_round E ?sub (kalshi_book_step E) (Connected S2 [(S, WsText msg)]) ?g =
      (case read_inputs (kalshi_book_step E) [(S, WsText msg)] f2 of
         (Drop, f4) \<Rightarrow> (Go, f4\<lparr>kf_attempt := kf_attempt f4 + 1\<rparr>) | (r, f4) \<Rightarrow> (r, f4))"
    "kf_books f2 = kf_books ?g" "kf_producer f2 = kf_producer ?g" "sq_last (kf_seq f2) = None"
    unfolding subscribe_books_def by (rule connected_round [OF open_g assms(4)])
  have "hm_get (kf_books f2) (kd_market_ticker d) = Some s0" "kf_producer f2 = kf_producer f"
    using assms(1) by (simp_all add: f1 f2)
  from fresh_delta_step [OF this(1) f2(4) assms(5-9), of p] assms(10) this(2) obtain f' where
    "kalshi_book_step E S (WsText msg) f2 = (Go, f')" "kf_producer f' = p" "hm_get (kf_books f') (kd_market_ticker d) = Some s1"
    by auto
  then show ?thesis by (simp add: stream_books_to_bus_def g f2(1) [simplified])
qed

subsection \<open>When the loops end\<close>

text \<open>A round whose subscription is refused leaves a breaker with one failure and no delay before the next.\<close>

definition eager :: "('p, 'q, 'o) kalshi_feed \<Rightarrow> bool" where
  "eager f \<longleftrightarrow> kf_attempt f = 0 \<and> \<not> sk_open (kf_breaker f) \<and> sk_threshold (kf_breaker f) = breaker_threshold \<and> kf_sleeps f = []"

definition subscription_refused :: "kalshi_attempt \<Rightarrow> bool" where
  "subscription_refused a \<longleftrightarrow> (\<exists>S inputs. a = Connected S inputs \<and> isl (su_sent S))"

lemma refused_subscription_round:
  assumes "subscription_refused a" "eager f"
  shows "\<exists>f'. kalshi_round E (kalshi_subscribe channel u tickers) step a f = (Go, f') \<and> eager f' \<and> kf_next_id f' = kf_next_id f + 1"
  using assms by (auto simp: subscription_refused_def eager_def kalshi_round_def Let_def kalshi_subscribe_def isl_def
      stream_record_success_def stream_record_failure_def breaker_threshold_def)

lemma refused_subscription_rounds:
  assumes "list_all subscription_refused as" "eager f"
  shows "\<exists>f'. kalshi_rounds (kalshi_round E (kalshi_subscribe channel u tickers) step) as f = (Go, f') \<and> eager f'
    \<and> kf_next_id f' = kf_next_id f + of_nat (length as)"
  using assms
proof (induction as arbitrary: f)
  case (Cons a as)
  from Cons.prems obtain f1 where f1: "kalshi_round E (kalshi_subscribe channel u tickers) step a f = (Go, f1)"
    "eager f1" "kf_next_id f1 = kf_next_id f + 1"
    using refused_subscription_round [of a f E channel u tickers step] by auto
  from Cons.IH [OF _ f1(2)] Cons.prems(1) obtain f' where
    "kalshi_rounds (kalshi_round E (kalshi_subscribe channel u tickers) step) as f1 = (Go, f')" "eager f'"
    "kf_next_id f' = kf_next_id f1 + of_nat (length as)" by auto
  with f1 show ?case by (auto simp: algebra_simps)
qed auto

text \<open>
  A venue that accepts connections and refuses subscriptions is asked again and again: after
  any number of such attempts both loops go on, without having slept once and with their breaker closed.
\<close>

theorem refused_subscriptions_never_back_off:
  assumes "list_all subscription_refused as"
  shows "\<exists>f g. stream_books_to_bus E as (kalshi_feed_new p q) = (Go, f) \<and> stream_ticks_to_bus E as (kalshi_feed_new p q) = (Go, g)
    \<and> kf_sleeps f = [] \<and> kf_sleeps g = [] \<and> \<not> sk_open (kf_breaker f) \<and> \<not> sk_open (kf_breaker g)
    \<and> kf_next_id f = 1 + of_nat (length as) \<and> kf_next_id g = 1 + of_nat (length as)"
proof -
  have new: "eager (kalshi_feed_new p q)" "kf_next_id (kalshi_feed_new p q) = 1"
    by (simp_all add: eager_def kalshi_feed_new_def stream_breaker_new_def)
  note rounds = refused_subscription_rounds [OF assms new(1)]
  show ?thesis
    using rounds [of E "''orderbook_delta''" "Some True" "ke_tickers E" "kalshi_book_step E"]
      rounds [of E "''ticker''" None "ke_tickers E" "kalshi_tick_step E"]
    by (auto simp: stream_books_to_bus_def stream_ticks_to_bus_def subscribe_books_def subscribe_ticks_def eager_def new(2))
qed

lemma kalshi_backoff_le: "kalshi_backoff hash attempt base cap \<le> cap"
proof -
  define longest where "longest = min cap (min (base * 2 ^ min attempt 30) (2 ^ 64 - 1))"
  have "hash attempt mod (longest + 1) < longest + 1" by simp
  moreover have "longest \<le> cap" by (simp add: longest_def)
  moreover have "kalshi_backoff hash attempt base cap = hash attempt mod (longest + 1)"
    by (simp only: kalshi_backoff_def longest_def Let_def)
  ultimately show ?thesis by arith
qed

text \<open>Refused connections one after the other.\<close>

definition refused_so_far :: "nat \<Rightarrow> ('p, 'q, 'o) kalshi_feed \<Rightarrow> bool" where
  "refused_so_far k f \<longleftrightarrow> \<not> sk_open (kf_breaker f) \<and> sk_threshold (kf_breaker f) = breaker_threshold \<and> sk_failures (kf_breaker f) = k
     \<and> (0 < k \<longrightarrow> 0 < kf_attempt f)"

lemma refused_round:
  assumes "refused_so_far k f" "k < 5"
  shows "\<exists>f'. kalshi_round E subscribe step (Refused e) f = (if k < 4 then Go else Stop (KsBreakerOpen 5), f')
    \<and> (k < 4 \<longrightarrow> refused_so_far (k + 1) f')
    \<and> kf_sleeps f' = kf_sleeps f @ (if 0 < kf_attempt f then [kalshi_backoff (ke_hash E) (kf_attempt f) 200 30000] else [])
    \<and> kf_producer f' = kf_producer f \<and> 0 < kf_attempt f'"
  using assms by (auto simp: refused_so_far_def kalshi_round_def Let_def stream_record_failure_def breaker_threshold_def
      backoff_base_ms_def backoff_cap_ms_def)

lemma refused_rounds:
  assumes "refused_so_far k f" "k < 5" "length es = 5 - k"
  shows "\<exists>f' zs. kalshi_rounds (kalshi_round E subscribe step) (map Refused es @ rest) f = (Stop (KsBreakerOpen 5), f')
    \<and> kf_sleeps f' = kf_sleeps f @ zs \<and> length zs = (if 0 < kf_attempt f then 5 - k else 4 - k) \<and> list_all (\<lambda>z. z \<le> 30000) zs
    \<and> kf_producer f' = kf_producer f"
  using assms
proof (induction es arbitrary: k f)
  case (Cons e es)
  obtain f1 where f1: "kalshi_round E subscribe step (Refused e) f = (if k < 4 then Go else Stop (KsBreakerOpen 5), f1)"
    "k < 4 \<longrightarrow> refused_so_far (k + 1) f1"
    "kf_sleeps f1 = kf_sleeps f @ (if 0 < kf_attempt f then [kalshi_backoff (ke_hash E) (kf_attempt f) 200 30000] else [])"
    "kf_producer f1 = kf_producer f" "0 < kf_attempt f1"
    using refused_round [OF Cons.prems(1,2)] by blast
  define z where "z = (if 0 < kf_attempt f then [kalshi_backoff (ke_hash E) (kf_attempt f) 200 30000] else [])"
  have z: "list_all (\<lambda>z. z \<le> 30000) z" "length z = (if 0 < kf_attempt f then 1 else 0)"
    by (simp_all add: z_def kalshi_backoff_le)
  show ?case
  proof (cases "k < 4")
    case True
    have "refused_so_far (k + 1) f1" "k + 1 < 5" "length es = 5 - (k + 1)" using f1(2) True Cons.prems(3) by simp_all
    from Cons.IH [OF this] obtain f' zs where
      "kalshi_rounds (kalshi_round E subscribe step) (map Refused es @ rest) f1 = (Stop (KsBreakerOpen 5), f')"
      "kf_sleeps f' = kf_sleeps f1 @ zs" "length zs = (if 0 < kf_attempt f1 then 5 - (k + 1) else 4 - (k + 1))"
      "list_all (\<lambda>z. z \<le> 30000) zs" "kf_producer f' = kf_producer f1" by blast
    with f1 True z show ?thesis
      by (intro exI [of _ f'] exI [of _ "z @ zs"]) (auto simp: z_def [symmetric])
  next
    case False
    with f1 Cons.prems(2) z show ?thesis
      by (intro exI [of _ f1] exI [of _ z]) (auto simp: z_def [symmetric])
  qed
qed auto

text \<open>
  Five refused connections in a row end the loop with the breaker open, whatever the state
  it was in with a closed breaker and no failure on record, after four or five sleeps (one before each
  attempt but the very first) of at most thirty seconds each; nothing that could follow is tried.
\<close>

theorem five_refusals_stop_the_stream:
  assumes "\<not> sk_open (kf_breaker f)" "sk_threshold (kf_breaker f) = breaker_threshold" "sk_failures (kf_breaker f) = 0"
    and "length es = 5"
  shows "\<exists>f' zs. stream_books_to_bus E (map Refused es @ rest) f = (Stop (KsBreakerOpen 5), f')
    \<and> kf_sleeps f' = kf_sleeps f @ zs \<and> length zs = (if 0 < kf_attempt f then 5 else 4) \<and> list_all (\<lambda>z. z \<le> 30000) zs
    \<and> kf_producer f' = kf_producer f"
proof -
  have "refused_so_far 0 f" using assms(1,2,3) by (simp add: refused_so_far_def)
  moreover have "(0 :: nat) < 5" "length es = 5 - 0" using assms(4) by simp_all
  ultimately show ?thesis
    using refused_rounds [of 0 f es E "subscribe_books (ke_tickers E)" "kalshi_book_step E" rest]
    unfolding stream_books_to_bus_def by (simp only: minus_nat.diff_0)
qed

subsection \<open>Witnesses\<close>

definition kalshi_sample_env :: "(unit, order_book list, unit, unit) kalshi_env" where
  "kalshi_sample_env =
     \<lparr>ke_ops = dec_ref, ke_parsers = kalshi_sample_parsers, ke_hash = id, ke_tickers = [''BTC-75''],
       ke_decode = (\<lambda>s. if s = ''delta'' then Inr \<lparr>kw_type = ''orderbook_delta'', kw_seq = Some 1, kw_sid = None, kw_data = JNull\<rparr>
         else if s = ''gap'' then Inr \<lparr>kw_type = ''orderbook_delta'', kw_seq = Some 9, kw_sid = None, kw_data = JNull\<rparr>
         else Inl ''not JSON''),
       ke_tick = (\<lambda>_. Inl ''no tick''), ke_snapshot = (\<lambda>_. Inl ''no snapshot''), ke_delta = (\<lambda>_. Inr (kalshi_sample_delta None)),
       ke_send_quote = (\<lambda>_ _ _ p. (Inr (), p)), ke_send_book = (\<lambda>_ m _ p. (Inr (), p @ [ev_payload m])),
       ke_send_quarantine = (\<lambda>_ _ _ q. (Inr (), q)), ke_store = (\<lambda>key _ _ obj. (Inr key, obj))\<rparr>"

definition kalshi_sample_surroundings :: "string + unit \<Rightarrow> surroundings" where
  "kalshi_sample_surroundings r =
     \<lparr>su_quarantine = \<lparr>qv_sha = id, qv_chrono = [], qv_now = [], qv_trace = [], qv_instant = 0\<rparr>, su_trace = [], su_now_text = [],
       su_now = 7, su_sent = r\<rparr>"

definition kalshi_sample_feed :: "nat option \<Rightarrow> (order_book list, unit, unit) kalshi_feed" where
  "kalshi_sample_feed n =
     (kalshi_feed_new [] \<lparr>qs_counters = \<lparr>qc_count = 0, qc_storms = 0, qc_last_check = None\<rparr>, qs_objects = (), qs_producer = ()\<rparr>)
       \<lparr>kf_books := [(''BTC-75'', kalshi_sample_state 10)], kf_seq := \<lparr>sq_last = n\<rparr>\<rparr>"

lemma kalshi_sample_env_sel:
  "ke_ops kalshi_sample_env = dec_ref" "clocked kalshi_sample_env (kalshi_sample_surroundings r) = kalshi_sample_parsers"
  "ke_delta kalshi_sample_env v = Inr (kalshi_sample_delta None)"
  "ke_decode kalshi_sample_env ''delta'' = Inr \<lparr>kw_type = ''orderbook_delta'', kw_seq = Some 1, kw_sid = None, kw_data = JNull\<rparr>"
  "ke_decode kalshi_sample_env ''gap'' = Inr \<lparr>kw_type = ''orderbook_delta'', kw_seq = Some 9, kw_sid = None, kw_data = JNull\<rparr>"
  "ke_send_book kalshi_sample_env t m k p = (Inr (), p @ [ev_payload m])"
  "kd_market_ticker (kalshi_sample_delta None) = ''BTC-75''"
  by (simp_all add: kalshi_sample_env_def clocked_def kalshi_sample_surroundings_def kalshi_sample_parsers_def kalshi_sample_delta_def)

lemma kalshi_sample_feed_sel:
  "kf_books (kalshi_sample_feed n) = [(''BTC-75'', kalshi_sample_state 10)]" "kf_seq (kalshi_sample_feed n) = \<lparr>sq_last = n\<rparr>"
  "kf_producer (kalshi_sample_feed n) = []" "\<not> sk_open (kf_breaker (kalshi_sample_feed n))"
  "sk_threshold (kf_breaker (kalshi_sample_feed n)) = breaker_threshold" "sk_failures (kf_breaker (kalshi_sample_feed n)) = 0"
  "kf_attempt (kalshi_sample_feed n) = 0"
  by (simp_all add: kalshi_sample_feed_def kalshi_feed_new_def stream_breaker_new_def)

theorem stale_book_survives_reconnect_witness:
  "\<exists>f' b. stream_books_to_bus kalshi_sample_env
      [Connected (kalshi_sample_surroundings (Inr ())) [(kalshi_sample_surroundings (Inr ()), WsEnd)],
       Connected (kalshi_sample_surroundings (Inr ())) [(kalshi_sample_surroundings (Inr ()), WsText ''delta'')]] (kalshi_sample_feed None) = (Waiting, f')
    \<and> kf_producer f' = [b]"
proof -
  obtain b where b: "to_order_book dec_ref (kalshi_sample_state 6) = Inr b" using kalshi_sample_book by blast
  have sent: "su_sent (kalshi_sample_surroundings (Inr ())) = Inr ()" by (simp add: kalshi_sample_surroundings_def)
  have "hm_get (kf_books (kalshi_sample_feed None)) (kd_market_ticker (kalshi_sample_delta None)) = Some (kalshi_sample_state 10)"
    by (simp add: kalshi_sample_feed_sel kalshi_sample_env_sel)
  from stale_book_survives_reconnect [OF this kalshi_sample_feed_sel(4) sent sent kalshi_sample_env_sel(4) _ kalshi_sample_env_sel(3),
      of "kalshi_sample_surroundings (Inr ())" "kalshi_sample_state 6" b "[b]" "kalshi_sample_surroundings (Inr ())"]
  show ?thesis
    by (simp add: kalshi_sample_env_sel kalshi_sample_change(1) [simplified] b kalshi_sample_feed_sel envelope_new_def) blast
qed

theorem gap_silences_books_witness:
  "\<exists>r f'. read_inputs (kalshi_book_step kalshi_sample_env)
      [(kalshi_sample_surroundings (Inr ()), WsText ''gap''), (kalshi_sample_surroundings (Inr ()), WsText ''delta'')] (kalshi_sample_feed (Some 3)) = (r, f')
    \<and> kf_producer f' = [] \<and> kf_books f' = []"
proof -
  obtain r f' where run: "read_inputs (kalshi_book_step kalshi_sample_env)
      [(kalshi_sample_surroundings (Inr ()), WsText ''gap''), (kalshi_sample_surroundings (Inr ()), WsText ''delta'')] (kalshi_sample_feed (Some 3)) = (r, f')"
    by force
  from gap_silences_books [OF kalshi_sample_env_sel(5) _ _ _ _ _ run, of 9 3]
  have "kf_producer f' = [] \<and> kf_books f' = []"
    by (simp add: kalshi_sample_feed_sel brings_snapshot_def kalshi_sample_env_sel)
  with run show ?thesis by blast
qed

theorem refused_subscriptions_never_back_off_witness:
  "\<exists>f. stream_books_to_bus kalshi_sample_env (replicate 9 (Connected (kalshi_sample_surroundings (Inl ''closed'')) []))
      (kalshi_feed_new [] \<lparr>qs_counters = \<lparr>qc_count = 0, qc_storms = 0, qc_last_check = None\<rparr>, qs_objects = (), qs_producer = ()\<rparr>) = (Go, f)
    \<and> kf_sleeps f = [] \<and> kf_next_id f = 10"
proof -
  have "list_all subscription_refused (replicate 9 (Connected (kalshi_sample_surroundings (Inl ''closed'')) []))"
    unfolding list_all_iff by (auto simp: subscription_refused_def kalshi_sample_surroundings_def)
  from refused_subscriptions_never_back_off [OF this, of kalshi_sample_env "[]"
      "\<lparr>qs_counters = \<lparr>qc_count = 0, qc_storms = 0, qc_last_check = None\<rparr>, qs_objects = (), qs_producer = ()\<rparr>"]
  show ?thesis by auto
qed

theorem five_refusals_stop_the_stream_witness:
  "\<exists>f'. stream_books_to_bus kalshi_sample_env (map Refused (replicate 5 ''down'') @ [Refused ''later'']) (kalshi_sample_feed None)
    = (Stop (KsBreakerOpen 5), f') \<and> kf_producer f' = []"
  using five_refusals_stop_the_stream [OF kalshi_sample_feed_sel(4-6), of "replicate 5 ''down''" kalshi_sample_env "[Refused ''later'']" None]
  by (auto simp: kalshi_sample_feed_sel)

end
