(* ===== verification/Polymarket_Normalize.thy ===== *)
theory Polymarket_Normalize
  imports Venue_Common "HOL-Library.Multiset"
begin

text \<open>
  The normalizer of the Polymarket venue pack (\<^verbatim>\<open>connectors/venues/polymarket/src/normalize.rs\<close>): one
  market per outcome token, order books and quotes. The lemmas show exactly which books are accepted and
  that a published quote is a quote: probabilities in order with their midpoint between them.
\<close>

subsection \<open>Wire types\<close>

record clob_level =
  cv_price :: string
  cv_size :: string

record clob_book_snapshot =
  cs_market :: string
  cs_asset_id :: string
  cs_timestamp :: string
  cs_bids :: "clob_level list"
  cs_asks :: "clob_level list"
  cs_hash :: "string option"

record clob_tick =
  ct_event_type :: string
  ct_asset_id :: string
  ct_market :: string
  ct_price :: string
  ct_size :: string
  ct_side :: "string option"
  ct_best_bid :: "string option"
  ct_best_ask :: "string option"
  ct_timestamp :: "string option"

record gamma_market =
  gm_id :: string
  gm_question :: string
  gm_slug :: string
  gm_outcomes :: string
  gm_outcome_prices :: string
  gm_clob_token_ids :: string
  gm_volume24hr :: "string option"
  gm_volume_num :: "string option"
  gm_liquidity_num :: "string option"
  gm_end_date :: "string option"
  gm_active :: bool
  gm_closed :: bool
  gm_accepting_orders :: "bool option"
  gm_neg_risk :: "bool option"
  gm_condition_id :: "string option"
  gm_order_price_min_tick_size :: "string option"
  gm_order_min_size :: "string option"
  gm_description :: "string option"
  gm_start_date :: "string option"
  gm_category :: "string option"
  gm_tags :: "string list option"

datatype poly_error =
    PnMissingField string
  | PnMarketKey market_key_error
  | PnJsonObject json_object_error
  | PnTimestampParse string string
  | PnOrderBook order_book_error
  | PnDecimalParse string string
  | PnDecimalOutOfRange string string
  | PnInvalidQuote decimal decimal
  | PnPanic

primrec poly_error_text :: "(decimal \<Rightarrow> string) \<Rightarrow> poly_error \<Rightarrow> string" where
  "poly_error_text dec (PnMissingField s) = ''missing or empty field: '' @ s"
| "poly_error_text dec (PnMarketKey e) = ''invalid MarketKey: '' @ market_key_error_text e"
| "poly_error_text dec (PnJsonObject e) = ''JSON object construction failed: '' @ json_object_error_text e"
| "poly_error_text dec (PnTimestampParse raw d) = ''timestamp parse error for '' @ apostrophe raw @ '': '' @ d"
| "poly_error_text dec (PnOrderBook e) = ''order book error: '' @ order_book_error_text e"
| "poly_error_text dec (PnDecimalParse raw d) = ''invalid decimal '' @ apostrophe raw @ '': '' @ d"
| "poly_error_text dec (PnDecimalOutOfRange field raw) = ''decimal out of range for '' @ field @ '': '' @ apostrophe raw"
| "poly_error_text dec (PnInvalidQuote bid ask) = ''invalid quote: bid '' @ dec bid @ '' exceeds ask '' @ dec ask"
| "poly_error_text dec PnPanic = []"

subsection \<open>Helpers\<close>

definition poly_venue :: "poly_error + venue_id" where
  "poly_venue = map_err (\<lambda>e. case e of VenueIdError raw \<Rightarrow> PnMarketKey (MarketKeyError raw)) (venue_id_new ''polymarket'')"

definition poly_status :: "bool \<Rightarrow> bool \<Rightarrow> market_status" where
  "poly_status active is_closed = (if is_closed then Closed else if active then Open else Halted)"

text \<open>\<^verbatim>\<open>parse::<i64>()\<close> of digits alone can only be too large.\<close>

definition poly_timestamp :: "venue_parsers \<Rightarrow> string \<Rightarrow> poly_error + utc_time" where
  "poly_timestamp P ts =
     (if ts \<noteq> [] \<and> list_all is_ascii_digit ts
      then and_then (ok_or (PnTimestampParse ts ''number too large to fit in target type'')
             (Option.bind (dec_digits 0 ts) (\<lambda>n. checked_i64 (int n)))) (\<lambda>ms.
           map_err (PnTimestampParse ts) (vp_unix_millis P ms))
      else map_err (PnTimestampParse ts) (vp_time_json P (quoted ts)))"

definition poly_decimal :: "venue_parsers \<Rightarrow> string \<Rightarrow> poly_error + decimal" where
  "poly_decimal P s = map_err (PnDecimalParse s) (vp_decimal P s)"

definition parse_probability :: "venue_parsers \<Rightarrow> string \<Rightarrow> poly_error + decimal" where
  "parse_probability P s =
     and_then (poly_decimal P s) (\<lambda>v. if 0 \<le> v \<and> v \<le> 1 then Inr v else Inl (PnDecimalOutOfRange ''probability'' s))"

definition parse_size :: "venue_parsers \<Rightarrow> string \<Rightarrow> poly_error + decimal" where
  "parse_size P s =
     and_then (poly_decimal P s) (\<lambda>v. if v < 0 then Inl (PnDecimalOutOfRange ''size'' s) else Inr v)"

subsection \<open>Markets\<close>

definition gamma_market_json :: "gamma_market \<Rightarrow> json" where
  "gamma_market_json r = JObject
     [(''id'', JString (gm_id r)), (''question'', JString (gm_question r)), (''slug'', JString (gm_slug r)),
      (''outcomes'', JString (gm_outcomes r)), (''outcomePrices'', JString (gm_outcome_prices r)),
      (''clobTokenIds'', JString (gm_clob_token_ids r)), (''volume24hr'', json_opt JString (gm_volume24hr r)),
      (''volumeNum'', json_opt JString (gm_volume_num r)), (''liquidityNum'', json_opt JString (gm_liquidity_num r)),
      (''endDate'', json_opt JString (gm_end_date r)), (''active'', JBool (gm_active r)), (''closed'', JBool (gm_closed r)),
      (''acceptingOrders'', json_opt JBool (gm_accepting_orders r)), (''negRisk'', json_opt JBool (gm_neg_risk r)),
      (''conditionId'', json_opt JString (gm_condition_id r)),
      (''orderPriceMinTickSize'', json_opt JString (gm_order_price_min_tick_size r)),
      (''orderMinSize'', json_opt JString (gm_order_min_size r)), (''description'', json_opt JString (gm_description r)),
      (''startDate'', json_opt JString (gm_start_date r)), (''category'', json_opt JString (gm_category r)),
      (''tags'', json_opt (\<lambda>ts. JArray (map JString ts)) (gm_tags r))]"

text \<open>The three lists of a market, which the interface encodes as JSON texts.\<close>

record market_lists =
  ml_outcomes :: "string list"
  ml_prices :: "string list"
  ml_tokens :: "string list"

definition read_market_lists :: "(string \<Rightarrow> string + string list) \<Rightarrow> gamma_market \<Rightarrow> poly_error + market_lists" where
  "read_market_lists strings r =
     and_then (map_err (\<lambda>e. PnMissingField (''failed to parse outcomes JSON: '' @ e)) (strings (gm_outcomes r))) (\<lambda>outcomes.
     and_then (map_err (\<lambda>e. PnMissingField (''failed to parse outcome_prices JSON: '' @ e)) (strings (gm_outcome_prices r))) (\<lambda>prices.
     and_then (map_err (\<lambda>e. PnMissingField (''failed to parse clob_token_ids JSON: '' @ e)) (strings (gm_clob_token_ids r))) (\<lambda>tokens.
       if outcomes = [] then Inl (PnMissingField ''outcomes'')
       else if tokens = [] then Inl (PnMissingField ''clob_token_ids'')
       else if length outcomes \<noteq> length tokens then Inl (PnMissingField ''outcome/token_id count mismatch'')
       else if length outcomes \<noteq> length prices then Inl (PnMissingField ''outcome/price count mismatch'')
       else Inr \<lparr>ml_outcomes = outcomes, ml_prices = prices, ml_tokens = tokens\<rparr>)))"

definition all_but :: "nat \<Rightarrow> 'a list \<Rightarrow> 'a list" where
  "all_but i xs = take i xs @ drop (Suc i) xs"

definition em_dash :: string where
  "em_dash = [CHR '' '', char_of (0xE2 :: nat), char_of (0x80 :: nat), char_of (0x94 :: nat), CHR '' '']"

definition outcome_meta :: "(decimal \<Rightarrow> string) \<Rightarrow> gamma_market \<Rightarrow> market_lists \<Rightarrow> nat \<Rightarrow> decimal option \<Rightarrow> json" where
  "outcome_meta dec r l i price =
     (let texts = (\<lambda>xs. JArray (map JString xs))
      in JObject
        [(''condition_id'', json_opt JString (gm_condition_id r)), (''outcome_index'', JNumber (show_nat i)),
         (''outcome_label'', JString (ml_outcomes l ! i)), (''outcomes'', texts (ml_outcomes l)),
         (''sibling_outcomes'', texts (all_but i (ml_outcomes l))), (''sibling_token_ids'', texts (all_but i (ml_tokens l))),
         (''outcome_price'', json_opt (\<lambda>p. JString (dec p)) price), (''outcome_prices'', texts (ml_prices l)),
         (''token_ids'', texts (ml_tokens l)), (''volume'', json_opt JString (gm_volume_num r)),
         (''liquidity'', json_opt JString (gm_liquidity_num r))])"

definition outcome_market ::
  "venue_parsers \<Rightarrow> (decimal \<Rightarrow> string) \<Rightarrow> gamma_market \<Rightarrow> venue_id \<Rightarrow> market_lists \<Rightarrow> json \<Rightarrow> nat \<Rightarrow> poly_error + market" where
  "outcome_market P dec r venue l ref i =
     (let token = trim_str (ml_tokens l ! i);
          question = trim_str (gm_question r);
          trimmed = trim_str (ml_prices l ! i)
      in if token = [] then Inl (PnMissingField (''clob_token_ids['' @ show_nat i @ '']''))
         else
           and_then (map_err PnMarketKey (market_key_new venue token)) (\<lambda>key.
           and_then (if trimmed = [] then Inr None else map_ok Some (parse_probability P trimmed)) (\<lambda>price.
           and_then (map_err PnJsonObject (json_object_new (outcome_meta dec r l i price))) (\<lambda>meta.
           and_then (transpose_map (poly_timestamp P) (gm_end_date r)) (\<lambda>close.
             Inr \<lparr>m_key = key, m_venue = venue,
               m_kind = (if length (ml_outcomes l) = 2 then BinaryContract else CategoricalContract),
               m_title = question @ em_dash @ trim_str (ml_outcomes l ! i), m_description_ref = question,
               m_status = poly_status (gm_active r) (gm_closed r), m_close_ts = close, m_resolve_ts = None, m_outcome = None,
               m_jurisdiction_flags = [''US''], m_venue_ref = ref, m_meta = meta\<rparr>)))))"

fun collect_markets :: "(nat \<Rightarrow> 'e + 'm) \<Rightarrow> nat list \<Rightarrow> 'e + 'm list" where
  "collect_markets f [] = Inr []"
| "collect_markets f (i # is) = and_then (f i) (\<lambda>m. map_ok (Cons m) (collect_markets f is))"

definition poly_normalize_markets ::
  "venue_parsers \<Rightarrow> (string \<Rightarrow> string + string list) \<Rightarrow> (decimal \<Rightarrow> string) \<Rightarrow> gamma_market \<Rightarrow> poly_error + market list" where
  "poly_normalize_markets P strings dec r =
     (if trim_str (gm_question r) = [] then Inl (PnMissingField ''question'')
      else
        and_then poly_venue (\<lambda>venue.
        and_then (read_market_lists strings r) (\<lambda>l.
        and_then (map_err PnJsonObject (json_object_new (gamma_market_json r))) (\<lambda>ref.
          collect_markets (outcome_market P dec r venue l ref) [0..<length (ml_outcomes l)]))))"

definition poly_normalize_market ::
  "venue_parsers \<Rightarrow> (string \<Rightarrow> string + string list) \<Rightarrow> (decimal \<Rightarrow> string) \<Rightarrow> gamma_market \<Rightarrow> poly_error + market" where
  "poly_normalize_market P strings dec r =
     and_then (poly_normalize_markets P strings dec r) (\<lambda>ms.
       case ms of [] \<Rightarrow> Inl (PnMissingField ''outcomes'') | m # _ \<Rightarrow> Inr m)"

subsection \<open>Books\<close>

definition poly_key :: "string \<Rightarrow> poly_error + market_key" where
  "poly_key asset = and_then poly_venue (\<lambda>v. map_err PnMarketKey (market_key_new v asset))"

definition read_level :: "venue_parsers \<Rightarrow> clob_level \<Rightarrow> poly_error + book_level" where
  "read_level P l =
     and_then (parse_probability P (cv_price l)) (\<lambda>price.
     and_then (parse_size P (cv_size l)) (\<lambda>qty. Inr \<lparr>lv_price = price, lv_size = qty\<rparr>))"

fun read_levels :: "venue_parsers \<Rightarrow> clob_level list \<Rightarrow> poly_error + book_level list" where
  "read_levels P [] = Inr []"
| "read_levels P (l # ls) = and_then (read_level P l) (\<lambda>b. map_ok (Cons b) (read_levels P ls))"

definition poly_normalize_book :: "venue_parsers \<Rightarrow> clob_book_snapshot \<Rightarrow> poly_error + order_book" where
  "poly_normalize_book P r =
     (let asset = trim_str (cs_asset_id r)
      in if asset = [] then Inl (PnMissingField ''asset_id'')
         else
           and_then (poly_key asset) (\<lambda>market.
           and_then (poly_timestamp P (cs_timestamp r)) (\<lambda>ts.
           and_then (read_levels P (cs_bids r)) (\<lambda>bids.
           and_then (read_levels P (cs_asks r)) (\<lambda>asks.
             map_err PnOrderBook (order_book_new market (sort_key (\<lambda>b. - lv_price b) bids) (sort_key lv_price asks)
               (max (length bids) (length asks)) ts None))))))"

subsection \<open>Ticks\<close>

definition best_prices :: "venue_parsers \<Rightarrow> clob_tick \<Rightarrow> poly_error + decimal option \<times> decimal option" where
  "best_prices P r =
     and_then (transpose_map (parse_probability P) (ct_best_bid r)) (\<lambda>bid.
     and_then (transpose_map (parse_probability P) (ct_best_ask r)) (\<lambda>ask.
       if bid = None \<and> ask = None then Inl (PnMissingField ''best_bid/best_ask'')
       else (case (bid, ask) of
          (Some b, Some a) \<Rightarrow> if a < b then Inl (PnInvalidQuote b a) else Inr (bid, ask)
        | _ \<Rightarrow> Inr (bid, ask))))"

definition mid_price :: "dec_ops \<Rightarrow> decimal option \<Rightarrow> decimal option \<Rightarrow> poly_error + decimal option" where
  "mid_price D bid ask =
     (case (bid, ask) of
        (Some b, Some a) \<Rightarrow> map_ok Some (ok_or PnPanic (Option.bind (dec_add D b a) (\<lambda>s. dec_div D s 2)))
      | _ \<Rightarrow> Inr None)"

definition poly_normalize_tick :: "dec_ops \<Rightarrow> venue_parsers \<Rightarrow> clob_tick \<Rightarrow> poly_error + quote" where
  "poly_normalize_tick D P r =
     (let asset = trim_str (ct_asset_id r)
      in if asset = [] then Inl (PnMissingField ''asset_id'')
         else
           and_then (poly_key asset) (\<lambda>market.
           and_then (case ct_timestamp r of Some ts \<Rightarrow> poly_timestamp P ts | None \<Rightarrow> Inr (vp_now P)) (\<lambda>ts.
           and_then (if ct_size r = [] then Inr 0 else parse_size P (ct_size r)) (\<lambda>_.
           and_then (if ct_event_type r = ''last_trade_price''
                     then map_ok (\<lambda>p. (None, None, Some p)) (parse_probability P (ct_price r))
                     else if ct_event_type r = ''price_change'' \<or> ct_event_type r = ''best_bid_ask''
                     then map_ok (\<lambda>(b, a). (b, a, None)) (best_prices P r)
                     else Inl (PnMissingField ''supported event_type'')) (\<lambda>(bid, ask, price).
           and_then (mid_price D bid ask) (\<lambda>mid.
             Inr \<lparr>q_market = market, q_bid = bid, q_ask = ask, q_mid = mid, q_last = price, q_bid_size = None, q_ask_size = None,
               q_ts = ts, q_source = Stream, q_seq = None\<rparr>))))))"

subsection \<open>Which books are accepted\<close>

lemma sorted_by_key: "sorted_wrt (<) (map f (sort_key f xs)) \<longleftrightarrow> distinct (map f xs)"
  for f :: "'a \<Rightarrow> 'b::linorder"
proof -
  have "mset (map f (sort_key f xs)) = mset (map f xs)" by simp
  then have "distinct (map f (sort_key f xs)) \<longleftrightarrow> distinct (map f xs)" by (rule mset_eq_imp_distinct_iff)
  then show ?thesis by (simp add: strict_sorted_iff)
qed

lemma sorted_by_negative:
  fixes xs :: "book_level list"
  shows "sorted_wrt (>) (map lv_price (sort_key (\<lambda>b. - lv_price b) xs)) \<longleftrightarrow> distinct (map lv_price xs)"
proof -
  have "sorted_wrt (>) (map lv_price ys) \<longleftrightarrow> sorted_wrt (<) (map (\<lambda>b. - lv_price b) ys)" for ys :: "book_level list"
    by (simp add: sorted_wrt_map)
  moreover have "distinct (map (\<lambda>b. - lv_price b) xs) \<longleftrightarrow> distinct (map lv_price xs)"
    by (simp add: distinct_map inj_on_def)
  ultimately show ?thesis by (simp only: sorted_by_key)
qed

lemma poly_key_ok: "asset \<noteq> [] \<Longrightarrow> poly_key asset = Inr (MarketKey (''mkt:polymarket:'' @ asset))"
  by (simp add: poly_key_def poly_venue_def venue_id_new_def is_ascii_lowercase_def market_key_new_def)

lemma read_level_range: "read_level P l = Inr b \<Longrightarrow> 0 \<le> lv_price b \<and> lv_price b \<le> 1 \<and> 0 \<le> lv_size b"
  by (auto simp: read_level_def parse_probability_def parse_size_def and_then_Inr_iff split: if_splits)

lemma read_levels_range: "read_levels P ls = Inr bs \<Longrightarrow> b \<in> set bs \<Longrightarrow> 0 \<le> lv_price b \<and> lv_price b \<le> 1 \<and> 0 \<le> lv_size b"
  by (induction ls arbitrary: bs) (auto simp: and_then_Inr_iff map_ok_Inr_iff dest: read_level_range)

lemma poly_normalize_book_Inr:
  "poly_normalize_book P r = Inr b \<longleftrightarrow>
     (\<exists>ts bids asks. trim_str (cs_asset_id r) \<noteq> [] \<and> poly_timestamp P (cs_timestamp r) = Inr ts
        \<and> read_levels P (cs_bids r) = Inr bids \<and> read_levels P (cs_asks r) = Inr asks
        \<and> distinct (map lv_price bids) \<and> distinct (map lv_price asks)
        \<and> b = \<lparr>ob_market = MarketKey (''mkt:polymarket:'' @ trim_str (cs_asset_id r)), ob_bids = sort_key (\<lambda>b. - lv_price b) bids,
              ob_asks = sort_key lv_price asks, ob_depth = max (length bids) (length asks), ob_ts = ts, ob_seq = None\<rparr>)"
  by (auto simp: poly_normalize_book_def Let_def poly_key_ok and_then_Inr_iff map_err_Inr_iff order_book_new_sorted_iff
      sorted_by_key sorted_by_negative)

text \<open>
  A snapshot is accepted exactly when it names an asset, its time can be read, every price is
  a probability and every size not negative, and no price occurs twice on a side; the book then has the
  levels of the snapshot, bids descending and asks ascending, all within those bounds.
\<close>

theorem clob_book_accepted_iff:
  "((\<exists>b. poly_normalize_book P r = Inr b) \<longleftrightarrow>
      trim_str (cs_asset_id r) \<noteq> [] \<and> (\<exists>ts. poly_timestamp P (cs_timestamp r) = Inr ts)
      \<and> (\<exists>bids asks. read_levels P (cs_bids r) = Inr bids \<and> read_levels P (cs_asks r) = Inr asks
           \<and> distinct (map lv_price bids) \<and> distinct (map lv_price asks)))
   \<and> (\<forall>b. poly_normalize_book P r = Inr b \<longrightarrow>
      (\<exists>bids asks. read_levels P (cs_bids r) = Inr bids \<and> read_levels P (cs_asks r) = Inr asks
         \<and> mset (ob_bids b) = mset bids \<and> mset (ob_asks b) = mset asks)
      \<and> sorted_wrt (>) (map lv_price (ob_bids b)) \<and> sorted_wrt (<) (map lv_price (ob_asks b))
      \<and> list_all (\<lambda>l. 0 \<le> lv_price l \<and> lv_price l \<le> 1 \<and> 0 \<le> lv_size l) (ob_bids b @ ob_asks b))"
proof (intro conjI allI impI)
  show "(\<exists>b. poly_normalize_book P r = Inr b) \<longleftrightarrow>
      trim_str (cs_asset_id r) \<noteq> [] \<and> (\<exists>ts. poly_timestamp P (cs_timestamp r) = Inr ts)
      \<and> (\<exists>bids asks. read_levels P (cs_bids r) = Inr bids \<and> read_levels P (cs_asks r) = Inr asks
           \<and> distinct (map lv_price bids) \<and> distinct (map lv_price asks))"
    by (auto simp: poly_normalize_book_Inr)
next
  fix b assume "poly_normalize_book P r = Inr b"
  then obtain ts bids asks where read: "read_levels P (cs_bids r) = Inr bids" "read_levels P (cs_asks r) = Inr asks"
    and dist: "distinct (map lv_price bids)" "distinct (map lv_price asks)"
    and b: "ob_bids b = sort_key (\<lambda>b. - lv_price b) bids" "ob_asks b = sort_key lv_price asks"
    by (auto simp: poly_normalize_book_Inr)
  show "\<exists>bids asks. read_levels P (cs_bids r) = Inr bids \<and> read_levels P (cs_asks r) = Inr asks
      \<and> mset (ob_bids b) = mset bids \<and> mset (ob_asks b) = mset asks"
    by (simp add: read b)
  show "sorted_wrt (>) (map lv_price (ob_bids b))" "sorted_wrt (<) (map lv_price (ob_asks b))"
    by (simp_all add: b dist sorted_by_key sorted_by_negative)
  show "list_all (\<lambda>l. 0 \<le> lv_price l \<and> lv_price l \<le> 1 \<and> 0 \<le> lv_size l) (ob_bids b @ ob_asks b)"
    by (auto simp: list_all_iff b dest: read_levels_range [OF read(1)] read_levels_range [OF read(2)])
qed

subsection \<open>Quotes\<close>

context decimal_arith
begin

lemma fits_finer:
  assumes "fits e x" "e \<le> e'" "e' \<le> 28" "0 \<le> x" "x \<le> 1"
  shows "fits e' x"
proof -
  from assms(1) obtain m where x: "x = of_int m / 10 ^ e" by (auto simp: fits_iff)
  have p: "(10 :: rat) ^ e' = 10 ^ e * 10 ^ (e' - e)" using assms(2) by (simp flip: power_add)
  have "x = of_int (m * 10 ^ (e' - e)) / 10 ^ e'" by (simp add: x p)
  moreover have "\<bar>m * 10 ^ (e' - e)\<bar> < dec_bound"
  proof -
    have "of_int (m * 10 ^ (e' - e)) = x * 10 ^ e'" by (simp add: x p)
    moreover have "\<bar>x * 10 ^ e'\<bar> \<le> 10 ^ 28"
    proof -
      have "\<bar>x * 10 ^ e'\<bar> = x * 10 ^ e'" using assms(4) by (simp add: abs_mult)
      also have "\<dots> \<le> 1 * 10 ^ e'" using assms(5) by (intro mult_right_mono) simp_all
      also have "1 * 10 ^ e' \<le> (10 ^ 28 :: rat)" unfolding mult_1 by (rule power_increasing) (use assms(3) in auto)
      finally show ?thesis .
    qed
    ultimately have "of_int \<bar>m * 10 ^ (e' - e)\<bar> \<le> (of_int (10 ^ 28) :: rat)"
      by (simp only: of_int_abs of_int_power of_int_numeral)
    then have "\<bar>m * 10 ^ (e' - e)\<bar> \<le> 10 ^ 28" by (simp only: of_int_le_iff)
    then show ?thesis by (simp add: dec_bound_def)
  qed
  ultimately show ?thesis unfolding fits_iff by blast
qed

lemma midpoint_between:
  assumes "is_decimal b" "is_decimal a" "0 \<le> b" "b \<le> a" "a \<le> 1"
    and "Option.bind (dec_add D b a) (\<lambda>s. dec_div D s 2) = Some m"
  shows "b \<le> m \<and> m \<le> a"
proof -
  from assms(1,2) obtain e e' where e: "e \<le> 28" "fits e b" "e' \<le> 28" "fits e' a" by (auto simp: is_decimal_iff)
  let ?e = "max e e'"
  have fits: "fits ?e b" "fits ?e a" using e assms(3-5) by (auto intro: fits_finer)
  have "\<bar>b + a\<bar> * 10 ^ ?e < of_int dec_bound"
  proof -
    have "(10 :: rat) ^ ?e \<le> 10 ^ 28" by (rule power_increasing) (use e(1,3) in auto)
    then have "\<bar>b + a\<bar> * 10 ^ ?e \<le> 2 * 10 ^ 28"
      using assms(3-5) by (intro mult_mono) simp_all
    also have "(2 * 10 ^ 28 :: rat) < of_int dec_bound" by (simp add: dec_bound_def)
    finally show ?thesis .
  qed
  from fits_is_decimal [OF fits_sum [OF fits this]] have s: "is_decimal (b + a)" using e(1,3) by simp
  then have "dec_add D b a = Some (b + a)" using assms(1,2) by (intro add_exact)
  with assms(6) have m: "dec_div D (b + a) 2 = Some m" by simp
  have "is_decimal 2" by (simp add: is_decimal_numeral dec_bound_def)
  from div_rounds [OF s this] m have r: "rounds (Some m) ((b + a) / 2)" by simp
  show ?thesis using rounds_ge [OF r assms(1)] rounds_le [OF r assms(2)] assms(4) by simp
qed

end

text \<open>
  Property C40. A quote that is made of a tick holds only probabilities, its bid does not exceed its ask,
  and if both are there the midpoint is there too and lies between them, in rounded arithmetic as well.
\<close>

theorem poly_quote_is_sound:
  assumes "decimal_arith D" "reads_decimals P" "poly_normalize_tick D P r = Inr q"
  shows "list_all (\<lambda>v. case v of None \<Rightarrow> True | Some p \<Rightarrow> 0 \<le> p \<and> p \<le> 1) [q_bid q, q_ask q, q_mid q, q_last q]
    \<and> (case (q_bid q, q_ask q) of
         (Some b, Some a) \<Rightarrow> b \<le> a \<and> (case q_mid q of None \<Rightarrow> False | Some m \<Rightarrow> b \<le> m \<and> m \<le> a)
       | _ \<Rightarrow> q_mid q = None)"
proof -
  have prob: "is_decimal v \<and> 0 \<le> v \<and> v \<le> 1" if "parse_probability P t = Inr v" for t v
    using that assms(2) by (auto simp: parse_probability_def poly_decimal_def and_then_Inr_iff map_err_Inr_iff
        reads_decimals_def split: if_splits)
  have tr: "\<forall>v. o1 = Some v \<longrightarrow> is_decimal v \<and> 0 \<le> v \<and> v \<le> 1" if "transpose_map (parse_probability P) t = Inr o1" for t o1
    using that prob by (auto simp: transpose_map_def map_ok_Inr_iff split: option.splits)
  show ?thesis
  proof (cases "ct_event_type r = ''last_trade_price''")
    case True
    with assms(3) show ?thesis
      by (auto simp: poly_normalize_tick_def Let_def and_then_Inr_iff map_ok_Inr_iff mid_price_def dest: prob split: if_splits)
  next
    case False
    with assms(3) obtain bid ask mid where q: "q_bid q = bid" "q_ask q = ask" "q_mid q = mid" "q_last q = None"
      and best: "best_prices P r = Inr (bid, ask)"
      and mid: "mid_price D bid ask = Inr mid"
      by (auto simp: poly_normalize_tick_def Let_def and_then_Inr_iff map_ok_Inr_iff split: if_splits)
    from best have bid: "\<forall>v. bid = Some v \<longrightarrow> is_decimal v \<and> 0 \<le> v \<and> v \<le> 1"
      and ask: "\<forall>v. ask = Some v \<longrightarrow> is_decimal v \<and> 0 \<le> v \<and> v \<le> 1"
      and ord: "\<And>b a. bid = Some b \<Longrightarrow> ask = Some a \<Longrightarrow> b \<le> a"
      by (auto simp: best_prices_def and_then_Inr_iff dest: tr split: if_splits option.splits)
    show ?thesis
    proof (cases "\<exists>b a. bid = Some b \<and> ask = Some a")
      case True
      then obtain b a where ba: "bid = Some b" "ask = Some a" by blast
      with mid obtain m where m: "mid = Some m" "Option.bind (dec_add D b a) (\<lambda>s. dec_div D s 2) = Some m"
        by (auto simp: mid_price_def map_ok_Inr_iff ok_or_Inr_iff)
      have b: "is_decimal b" "0 \<le> b" "b \<le> 1" and a: "is_decimal a" "0 \<le> a" "a \<le> 1" using bid ask ba by simp_all
      from decimal_arith.midpoint_between [OF assms(1) b(1) a(1) b(2) ord [OF ba] a(3) m(2)] a b ord [OF ba] m(1) ba q
      show ?thesis by simp
    next
      case False
      with mid have "mid = None" by (auto simp: mid_price_def split: option.splits)
      with False bid ask q show ?thesis by (cases bid; cases ask) auto
    qed
  qed
qed

subsection \<open>One market per outcome\<close>

lemma collect_markets_nth:
  "collect_markets f is = Inr ms \<Longrightarrow> length ms = length is \<and> (\<forall>j < length is. f (is ! j) = Inr (ms ! j))"
proof (induction "is" arbitrary: ms)
  case (Cons i js)
  from Cons.prems obtain m rest where f: "f i = Inr m" and rest: "collect_markets f js = Inr rest" and ms: "ms = m # rest"
    by (auto simp: and_then_Inr_iff map_ok_Inr_iff)
  from Cons.IH [OF rest] f ms show ?case by (auto simp: nth_Cons split: nat.split)
qed simp

lemma outcome_market_fields:
  assumes "outcome_market P dec r (VenueId ''polymarket'') l ref j = Inr m"
  shows "m_key m = MarketKey (''mkt:polymarket:'' @ trim_str (ml_tokens l ! j))
    \<and> m_kind m = (if length (ml_outcomes l) = 2 then BinaryContract else CategoricalContract)
    \<and> m_status m = poly_status (gm_active r) (gm_closed r)"
  using assms by (auto simp: outcome_market_def Let_def and_then_Inr_iff map_err_Inr_iff market_key_new_def split: if_splits)

text \<open>A market is normalized to one market per outcome, in order, each under the key of its token.\<close>

theorem markets_of_every_outcome:
  assumes "poly_normalize_markets P strings dec r = Inr ms"
  obtains l where "read_market_lists strings r = Inr l" "length ms = length (ml_outcomes l)" "length (ml_tokens l) = length (ml_outcomes l)"
    "\<And>j. j < length ms \<Longrightarrow> m_key (ms ! j) = MarketKey (''mkt:polymarket:'' @ trim_str (ml_tokens l ! j))
       \<and> m_kind (ms ! j) = (if length ms = 2 then BinaryContract else CategoricalContract)
       \<and> m_status (ms ! j) = poly_status (gm_active r) (gm_closed r)"
proof -
  from assms obtain l ref where l: "read_market_lists strings r = Inr l"
    and ms: "collect_markets (outcome_market P dec r (VenueId ''polymarket'') l ref) [0..<length (ml_outcomes l)] = Inr ms"
    by (auto simp: poly_normalize_markets_def and_then_Inr_iff poly_venue_def venue_id_new_def is_ascii_lowercase_def split: if_splits)
  note each = collect_markets_nth [OF ms]
  have tokens: "length (ml_tokens l) = length (ml_outcomes l)"
    using l by (auto simp: read_market_lists_def and_then_Inr_iff split: if_splits)
  show thesis
  proof (rule that [OF l _ tokens])
    fix j assume "j < length ms"
    with each have "outcome_market P dec r (VenueId ''polymarket'') l ref j = Inr (ms ! j)" by simp
    from outcome_market_fields [OF this] each show "m_key (ms ! j) = MarketKey (''mkt:polymarket:'' @ trim_str (ml_tokens l ! j))
       \<and> m_kind (ms ! j) = (if length ms = 2 then BinaryContract else CategoricalContract)
       \<and> m_status (ms ! j) = poly_status (gm_active r) (gm_closed r)"
      by simp
  qed (use each in simp)
qed

subsection \<open>Witnesses\<close>

definition poly_sample_texts :: "(string \<times> decimal) list" where
  "poly_sample_texts = [(''0.40'', 2 / 5), (''0.50'', 1 / 2), (''10'', 10), (''1.50'', 3 / 2)]"

definition poly_sample_parsers :: venue_parsers where
  "poly_sample_parsers =
     \<lparr>vp_decimal = (\<lambda>s. ok_or ''invalid decimal'' (map_of poly_sample_texts s)),
       vp_time_json = (\<lambda>s. Inl ''invalid time''), vp_unix_millis = Inr, vp_now = 7\<rparr>"

definition poly_sample_book :: clob_book_snapshot where
  "poly_sample_book =
     \<lparr>cs_market = ''0xabc'', cs_asset_id = ''1'', cs_timestamp = ''9'', cs_bids = [\<lparr>cv_price = ''0.40'', cv_size = ''10''\<rparr>],
       cs_asks = [\<lparr>cv_price = ''0.50'', cv_size = ''10''\<rparr>], cs_hash = None\<rparr>"

definition poly_sample_tick :: clob_tick where
  "poly_sample_tick =
     \<lparr>ct_event_type = ''best_bid_ask'', ct_asset_id = ''1'', ct_market = [], ct_price = [], ct_size = [], ct_side = None,
       ct_best_bid = Some ''0.40'', ct_best_ask = Some ''0.50'', ct_timestamp = None\<rparr>"

lemma poly_sample_parse:
  "poly_decimal poly_sample_parsers ''0.40'' = Inr (2 / 5)" "poly_decimal poly_sample_parsers ''0.50'' = Inr (1 / 2)"
  "poly_decimal poly_sample_parsers ''10'' = Inr 10" "poly_decimal poly_sample_parsers ''1.50'' = Inr (3 / 2)"
  by (simp_all add: poly_decimal_def poly_sample_parsers_def poly_sample_texts_def)

lemma poly_sample_decimals: "is_decimal (2 / 5)" "is_decimal (1 / 2)" "is_decimal (3 / 2)" "is_decimal (9 / 10)" "is_decimal (9 / 20)"
  by (rule is_decimalI [of 4 1], simp_all add: dec_bound_def)
    (rule is_decimalI [of 5 1], simp_all add: dec_bound_def, rule is_decimalI [of 15 1], simp_all add: dec_bound_def,
      rule is_decimalI [of 9 1], simp_all add: dec_bound_def, rule is_decimalI [of 45 2], simp_all add: dec_bound_def)

lemma poly_sample_reads: "reads_decimals poly_sample_parsers"
  unfolding reads_decimals_def
proof (intro allI impI)
  fix s v assume "vp_decimal poly_sample_parsers s = Inr v"
  then have "map_of poly_sample_texts s = Some v" by (simp add: poly_sample_parsers_def ok_or_Inr_iff)
  from map_of_SomeD [OF this] have "v \<in> {2 / 5, 1 / 2, 10, 3 / 2}"
    by (simp only: poly_sample_texts_def list.set insert_iff prod.inject empty_iff simp_thms) blast
  moreover have "is_decimal 10" by (simp add: is_decimal_numeral dec_bound_def)
  ultimately show "is_decimal v" using poly_sample_decimals by blast
qed

lemma poly_sample_trim: "trim_str ''1'' = ''1''" "poly_timestamp poly_sample_parsers ''9'' = Inr 9"
  by (simp_all add: trim_str_def is_space_def poly_timestamp_def is_ascii_digit_def checked_i64_def is_i64_def i64_min_def i64_max_def
      poly_sample_parsers_def)

theorem clob_book_accepted_iff_witness:
  "\<exists>b. poly_normalize_book poly_sample_parsers poly_sample_book = Inr b \<and> sorted_wrt (>) (map lv_price (ob_bids b))"
proof -
  have "read_levels poly_sample_parsers (cs_bids poly_sample_book) = Inr [\<lparr>lv_price = 2 / 5, lv_size = 10\<rparr>]"
    "read_levels poly_sample_parsers (cs_asks poly_sample_book) = Inr [\<lparr>lv_price = 1 / 2, lv_size = 10\<rparr>]"
    by (simp_all add: poly_sample_book_def read_level_def parse_probability_def parse_size_def poly_sample_parse)
  then have "\<exists>b. poly_normalize_book poly_sample_parsers poly_sample_book = Inr b"
    using clob_book_accepted_iff [of poly_sample_parsers poly_sample_book]
    by (auto simp: poly_sample_book_def poly_sample_trim)
  then show ?thesis using clob_book_accepted_iff [of poly_sample_parsers poly_sample_book] by blast
qed

lemma poly_sample_mid: "mid_price dec_ref (Some (2 / 5)) (Some (1 / 2)) = Inr (Some (9 / 20))"
proof -
  have "dec_add dec_ref (2 / 5) (1 / 2) = Some (9 / 10)"
    using dec_ref.add_exact [OF poly_sample_decimals(1,2)] poly_sample_decimals(4) by simp
  moreover have "is_decimal 2" by (simp add: is_decimal_numeral dec_bound_def)
  then have "dec_div dec_ref (9 / 10) 2 = Some (9 / 20)"
    using dec_ref.div_exact [OF poly_sample_decimals(4), of 2] poly_sample_decimals(5) by simp
  ultimately show ?thesis by (simp add: mid_price_def)
qed

theorem poly_quote_is_sound_witness:
  "\<exists>q. poly_normalize_tick dec_ref poly_sample_parsers poly_sample_tick = Inr q \<and> q_mid q = Some (9 / 20)
    \<and> list_all (\<lambda>v. case v of None \<Rightarrow> True | Some p \<Rightarrow> 0 \<le> p \<and> p \<le> 1) [q_bid q, q_ask q, q_mid q, q_last q]"
proof -
  obtain q where q: "poly_normalize_tick dec_ref poly_sample_parsers poly_sample_tick = Inr q" "q_mid q = Some (9 / 20)"
    by (simp add: poly_normalize_tick_def poly_sample_tick_def poly_sample_trim poly_key_ok best_prices_def transpose_map_def
        parse_probability_def poly_sample_parse poly_sample_mid)
  with poly_quote_is_sound [OF dec_ref.decimal_arith_axioms poly_sample_reads q(1)] show ?thesis by blast
qed

end
