(* ===== verification/Polymarket_Stream.thy ===== *)
theory Polymarket_Stream
  imports Polymarket_Normalize
begin

text \<open>
  The WebSocket client of the Polymarket venue pack (\<^verbatim>\<open>connectors/venues/polymarket/src/stream.rs\<close>): the
  frames of the market channel, the changes of an order book, and the two endless loops behind a circuit
  breaker of \<^verbatim>\<open>crates/aether-bus\<close>. Socket, codec and producers are arguments, and a run is a list of
  connection attempts as for Kalshi. The lemmas show what one bad change does to a book, and how a loop
  can stop for ever.
\<close>

subsection \<open>Messages\<close>

datatype 'k poly_stream_error =
    PsConnection string
  | PsProtocol string
  | PsSerialization string
  | PsNormalize poly_error
  | PsProducer "'k producer_error"
  | PsQuarantine "'k quarantine_error"

record price_change =
  pc_asset_id :: string
  pc_price :: string
  pc_size :: string
  pc_side :: string
  pc_hash :: "string option"
  pc_best_bid :: "string option"
  pc_best_ask :: "string option"

record poly_ws_message =
  pm_event_type :: string
  pm_asset_id :: "string option"
  pm_market :: "string option"
  pm_price :: "string option"
  pm_size :: "string option"
  pm_side :: "string option"
  pm_best_bid :: "string option"
  pm_best_ask :: "string option"
  pm_timestamp :: "string option"
  pm_bids :: "clob_level list option"
  pm_asks :: "clob_level list option"
  pm_hash :: "string option"
  pm_price_changes :: "price_change list"

text \<open>A frame is one message or an array of them.\<close>

datatype ws_frame = FrameOne poly_ws_message | FrameMany "poly_ws_message list"

definition parse_ws_messages :: "(string \<Rightarrow> string + ws_frame) \<Rightarrow> string \<Rightarrow> string + poly_ws_message list" where
  "parse_ws_messages decode raw =
     map_ok (\<lambda>f. case f of FrameOne m \<Rightarrow> [m] | FrameMany ms \<Rightarrow> ms) (decode raw)"

definition or_default :: "string option \<Rightarrow> string" where
  "or_default v = (case v of None \<Rightarrow> [] | Some s \<Rightarrow> s)"

definition ticks_from_ws :: "poly_ws_message \<Rightarrow> poly_error + clob_tick list" where
  "ticks_from_ws m =
     (if pm_event_type m = ''price_change'' then
        (if pm_price_changes m = [] then Inl (PnMissingField ''price_changes'')
         else Inr (map (\<lambda>c. \<lparr>ct_event_type = pm_event_type m, ct_asset_id = pc_asset_id c, ct_market = or_default (pm_market m),
                 ct_price = pc_price c, ct_size = pc_size c, ct_side = Some (pc_side c), ct_best_bid = pc_best_bid c,
                 ct_best_ask = pc_best_ask c, ct_timestamp = pm_timestamp m\<rparr>) (pm_price_changes m)))
      else Inr [\<lparr>ct_event_type = pm_event_type m, ct_asset_id = or_default (pm_asset_id m), ct_market = or_default (pm_market m),
             ct_price = or_default (pm_price m), ct_size = or_default (pm_size m), ct_side = pm_side m,
             ct_best_bid = pm_best_bid m, ct_best_ask = pm_best_ask m, ct_timestamp = pm_timestamp m\<rparr>])"

subsection \<open>Changes of a book\<close>

definition level_at :: "venue_parsers \<Rightarrow> decimal \<Rightarrow> clob_level \<Rightarrow> bool" where
  "level_at P price l \<longleftrightarrow> vp_decimal P (cv_price l) = Inr price"

text \<open>The first level whose price is that number: removed, given a new size, or else a level is added.\<close>

definition change_levels :: "venue_parsers \<Rightarrow> decimal \<Rightarrow> decimal \<Rightarrow> price_change \<Rightarrow> clob_level list \<Rightarrow> clob_level list" where
  "change_levels P price qty c ls =
     (let before = takeWhile (\<lambda>l. \<not> level_at P price l) ls;
          found = dropWhile (\<lambda>l. \<not> level_at P price l) ls
      in case found of
           [] \<Rightarrow> if qty = 0 then ls else ls @ [\<lparr>cv_price = pc_price c, cv_size = pc_size c\<rparr>]
         | l # rest \<Rightarrow> if qty = 0 then before @ rest else before @ l\<lparr>cv_size := pc_size c\<rparr> # rest)"

definition apply_price_change ::
  "venue_parsers \<Rightarrow> clob_book_snapshot \<Rightarrow> price_change \<Rightarrow> string option \<Rightarrow> string option \<Rightarrow> poly_error + clob_book_snapshot" where
  "apply_price_change P s c timestamp market =
     and_then (poly_decimal P (pc_price c)) (\<lambda>price.
     and_then (poly_decimal P (pc_size c)) (\<lambda>qty.
       if qty < 0 then Inl (PnDecimalOutOfRange ''size'' (pc_size c))
       else if pc_side c \<noteq> ''BUY'' \<and> pc_side c \<noteq> ''SELL'' then Inl (PnMissingField ''price_change.side'')
       else
         let s1 = (if pc_side c = ''BUY'' then s\<lparr>cs_bids := change_levels P price qty c (cs_bids s)\<rparr>
                   else s\<lparr>cs_asks := change_levels P price qty c (cs_asks s)\<rparr>);
             s2 = (case timestamp of None \<Rightarrow> s1 | Some t \<Rightarrow> s1\<lparr>cs_timestamp := t\<rparr>);
             s3 = (case market of None \<Rightarrow> s2 | Some m \<Rightarrow> s2\<lparr>cs_market := m\<rparr>)
         in Inr (s3\<lparr>cs_hash := pc_hash c\<rparr>)))"

subsection \<open>The state of a loop\<close>

record ('p, 'q, 'o) poly_feed =
  pf_attempt :: nat
  pf_breaker :: circuit_breaker
  pf_books :: "(string, clob_book_snapshot) hash_map"
  pf_commands :: "json list"
  pf_sleeps :: "nat list"
  pf_waits :: nat
  pf_producer :: 'p
  pf_quarantine :: "('q, 'o) quarantine_state"

record ('k, 'p, 'q, 'o) poly_env =
  pe_ops :: dec_ops
  pe_parsers :: venue_parsers
  pe_dec_text :: "decimal \<Rightarrow> string"
  pe_jitter :: "nat \<Rightarrow> nat"
  pe_tickers :: "string list"
  pe_decode :: "string \<Rightarrow> string + ws_frame"
  pe_send_quote :: "('k, quote envelope, 'p) producer"
  pe_send_book :: "('k, order_book envelope, 'p) producer"
  pe_send_quarantine :: "('k, quarantine_message envelope, 'q) producer"
  pe_store :: "('k, 'o) object_store"

definition poly_feed_new :: "'p \<Rightarrow> ('q, 'o) quarantine_state \<Rightarrow> ('p, 'q, 'o) poly_feed" where
  "poly_feed_new p q =
     \<lparr>pf_attempt = 0, pf_breaker = breaker_new, pf_books = [], pf_commands = [], pf_sleeps = [], pf_waits = 0,
       pf_producer = p, pf_quarantine = q\<rparr>"

definition poly_clocked :: "('k, 'p, 'q, 'o) poly_env \<Rightarrow> surroundings \<Rightarrow> venue_parsers" where
  "poly_clocked E S = (pe_parsers E)\<lparr>vp_now := su_now S\<rparr>"

definition poly_backoff :: "(nat \<Rightarrow> nat) \<Rightarrow> nat \<Rightarrow> nat" where
  "poly_backoff jitter attempt =
     delay_for_attempt jitter
       \<lparr>br_max_attempts = 5, br_base_delay = duration_millis 200, br_max_delay = duration_millis 30000\<rparr> attempt"

definition poly_subscribe ::
  "string list \<Rightarrow> surroundings \<Rightarrow> ('p, 'q, 'o) poly_feed \<Rightarrow> ('k poly_stream_error + unit) \<times> ('p, 'q, 'o) poly_feed" where
  "poly_subscribe assets S f =
     (case su_sent S of
        Inl e \<Rightarrow> (Inl (PsProtocol e), f)
      | Inr _ \<Rightarrow> (Inr (), f\<lparr>pf_commands := pf_commands f @
          [JObject [(''assets_ids'', JArray (map JString assets)), (''type'', JString ''market''), (''custom_feature_enabled'', JBool True)]]\<rparr>))"

definition poly_quarantine ::
  "('k, 'p, 'q, 'o) poly_env \<Rightarrow> surroundings \<Rightarrow> string \<Rightarrow> string \<Rightarrow> ('p, 'q, 'o) poly_feed
     \<Rightarrow> 'k poly_stream_error flow \<times> ('p, 'q, 'o) poly_feed" where
  "poly_quarantine E S reason raw f =
     (case quarantine_publish (pe_send_quarantine E) (pe_store E) (su_quarantine S) ''polymarket'' reason (as_bytes raw) (pf_quarantine f) of
        (Inl e, q) \<Rightarrow> (Stop (PsQuarantine e), f\<lparr>pf_quarantine := q\<rparr>)
      | (Inr _, q) \<Rightarrow> (Go, f\<lparr>pf_quarantine := q\<rparr>))"

subsection \<open>Ticks\<close>

definition poly_tick ::
  "('k, 'p, 'q, 'o) poly_env \<Rightarrow> surroundings \<Rightarrow> string \<Rightarrow> clob_tick \<Rightarrow> ('p, 'q, 'o) poly_feed
     \<Rightarrow> 'k poly_stream_error flow \<times> ('p, 'q, 'o) poly_feed" where
  "poly_tick E S raw t f =
     (case poly_normalize_tick (pe_ops E) (poly_clocked E S) t of
        Inr q \<Rightarrow>
          (case pe_send_quote E ''md.ticks.polymarket'' (envelope_new (su_trace S) (su_now_text S) ''quote'' q)
                 (Some (key_str (q_market q))) (pf_producer f) of
             (Inl e, p) \<Rightarrow> (Stop (PsProducer e), f\<lparr>pf_producer := p\<rparr>)
           | (Inr _, p) \<Rightarrow> (Go, f\<lparr>pf_producer := p\<rparr>))
      | Inl PnPanic \<Rightarrow> (Panicked, f)
      | Inl e \<Rightarrow> poly_quarantine E S (poly_error_text (pe_dec_text E) e) raw f)"

definition poly_tick_message ::
  "('k, 'p, 'q, 'o) poly_env \<Rightarrow> surroundings \<Rightarrow> string \<Rightarrow> poly_ws_message \<Rightarrow> ('p, 'q, 'o) poly_feed
     \<Rightarrow> 'k poly_stream_error flow \<times> ('p, 'q, 'o) poly_feed" where
  "poly_tick_message E S raw m f =
     (if pm_event_type m = ''price_change'' \<or> pm_event_type m = ''last_trade_price'' \<or> pm_event_type m = ''best_bid_ask'' then
        (case ticks_from_ws m of
           Inl e \<Rightarrow> poly_quarantine E S (poly_error_text (pe_dec_text E) e) raw f
         | Inr ts \<Rightarrow> each_go (poly_tick E S raw) ts f)
      else (Go, f))"

subsection \<open>Books\<close>

definition poly_publish_book ::
  "('k, 'p, 'q, 'o) poly_env \<Rightarrow> surroundings \<Rightarrow> string \<Rightarrow> string \<Rightarrow> clob_book_snapshot \<Rightarrow> ('p, 'q, 'o) poly_feed
     \<Rightarrow> 'k poly_stream_error flow \<times> ('p, 'q, 'o) poly_feed" where
  "poly_publish_book E S what raw s f =
     (case poly_normalize_book (poly_clocked E S) s of
        Inr b \<Rightarrow>
          (case pe_send_book E ''md.books.polymarket'' (envelope_new (su_trace S) (su_now_text S) ''order_book'' b)
                 (Some (key_str (ob_market b))) (pf_producer f) of
             (Inl e, p) \<Rightarrow> (Stop (PsProducer e), f\<lparr>pf_producer := p\<rparr>)
           | (Inr _, p) \<Rightarrow> (Go, f\<lparr>pf_producer := p\<rparr>))
      | Inl e \<Rightarrow> poly_quarantine E S (what @ poly_error_text (pe_dec_text E) e) raw f)"

definition poly_change ::
  "('k, 'p, 'q, 'o) poly_env \<Rightarrow> surroundings \<Rightarrow> string \<Rightarrow> poly_ws_message \<Rightarrow> price_change \<Rightarrow> ('p, 'q, 'o) poly_feed
     \<Rightarrow> 'k poly_stream_error flow \<times> ('p, 'q, 'o) poly_feed" where
  "poly_change E S raw m c f =
     (case hm_get (pf_books f) (pc_asset_id c) of
        None \<Rightarrow> (Go, f)
      | Some s \<Rightarrow>
          (case apply_price_change (poly_clocked E S) s c (pm_timestamp m) (pm_market m) of
             Inl e \<Rightarrow> poly_quarantine E S (''book delta: '' @ poly_error_text (pe_dec_text E) e) raw f
           | Inr s' \<Rightarrow>
               poly_publish_book E S ''book delta normalization: '' raw s' (f\<lparr>pf_books := hm_put (pc_asset_id c) s' (pf_books f)\<rparr>)))"

definition poly_book_message ::
  "('k, 'p, 'q, 'o) poly_env \<Rightarrow> surroundings \<Rightarrow> string \<Rightarrow> poly_ws_message \<Rightarrow> ('p, 'q, 'o) poly_feed
     \<Rightarrow> 'k poly_stream_error flow \<times> ('p, 'q, 'o) poly_feed" where
  "poly_book_message E S raw m f =
     (if pm_event_type m = ''book'' then
        (case pm_asset_id m of
           None \<Rightarrow> poly_quarantine E S ''book message missing asset_id'' raw f
         | Some asset \<Rightarrow>
             let s = \<lparr>cs_market = or_default (pm_market m), cs_asset_id = asset, cs_timestamp = or_default (pm_timestamp m),
                       cs_bids = (case pm_bids m of None \<Rightarrow> [] | Some ls \<Rightarrow> ls),
                       cs_asks = (case pm_asks m of None \<Rightarrow> [] | Some ls \<Rightarrow> ls), cs_hash = pm_hash m\<rparr>
             in poly_publish_book E S ''book normalization: '' raw s (f\<lparr>pf_books := hm_put asset s (pf_books f)\<rparr>))
      else if pm_event_type m = ''price_change'' then each_go (poly_change E S raw m) (pm_price_changes m) f
      else (Go, f))"

subsection \<open>The loops\<close>

text \<open>What both loops do with a delivery; \<open>message\<close> handles one message of a text, \<open>on_close\<close> a close frame.\<close>

definition poly_step ::
  "('k, 'p, 'q, 'o) poly_env
     \<Rightarrow> (surroundings \<Rightarrow> string \<Rightarrow> poly_ws_message \<Rightarrow> ('p, 'q, 'o) poly_feed \<Rightarrow> 'k poly_stream_error flow \<times> ('p, 'q, 'o) poly_feed)
     \<Rightarrow> (('p, 'q, 'o) poly_feed \<Rightarrow> ('p, 'q, 'o) poly_feed)
     \<Rightarrow> surroundings \<Rightarrow> ws_input \<Rightarrow> ('p, 'q, 'o) poly_feed \<Rightarrow> 'k poly_stream_error flow \<times> ('p, 'q, 'o) poly_feed" where
  "poly_step E message on_close S i f =
     (case i of
        WsTimer \<Rightarrow> (if isl (su_sent S) then Drop else Go, f)
      | WsPing \<Rightarrow> (if isl (su_sent S) then Drop else Go, f)
      | WsText raw \<Rightarrow>
          if eq_ignore_ascii_case (trim_str raw) ''PONG'' then (Go, f)
          else
            (case parse_ws_messages (pe_decode E) raw of
               Inl e \<Rightarrow> poly_quarantine E S (''invalid WebSocket JSON: '' @ e) raw f
             | Inr ms \<Rightarrow>
                 each_go (message S raw) ms (f\<lparr>pf_breaker := breaker_success (qv_instant (su_quarantine S)) (pf_breaker f)\<rparr>))
      | WsClose \<Rightarrow> (Drop, on_close f)
      | WsError e \<Rightarrow> (Drop, f)
      | WsEnd \<Rightarrow> (Drop, f)
      | _ \<Rightarrow> (Go, f))"

definition poly_tick_step ::
  "('k, 'p, 'q, 'o) poly_env \<Rightarrow> surroundings \<Rightarrow> ws_input \<Rightarrow> ('p, 'q, 'o) poly_feed
     \<Rightarrow> 'k poly_stream_error flow \<times> ('p, 'q, 'o) poly_feed" where
  "poly_tick_step E = poly_step E (poly_tick_message E) id"

definition poly_book_step ::
  "('k, 'p, 'q, 'o) poly_env \<Rightarrow> surroundings \<Rightarrow> ws_input \<Rightarrow> ('p, 'q, 'o) poly_feed
     \<Rightarrow> 'k poly_stream_error flow \<times> ('p, 'q, 'o) poly_feed" where
  "poly_book_step E = poly_step E (poly_book_message E) (\<lambda>f. f\<lparr>pf_books := []\<rparr>)"

text \<open>One turn of the outer loop at time \<open>now\<close>: the breaker is asked first.\<close>

datatype poly_attempt =
    PolyRefused int surroundings string
  | PolyConnected int surroundings "(surroundings \<times> ws_input) list"

primrec attempt_time :: "poly_attempt \<Rightarrow> int" where
  "attempt_time (PolyRefused now S e) = now"
| "attempt_time (PolyConnected now S inputs) = now"

definition poly_round ::
  "('k, 'p, 'q, 'o) poly_env
     \<Rightarrow> (surroundings \<Rightarrow> ws_input \<Rightarrow> ('p, 'q, 'o) poly_feed \<Rightarrow> 'k poly_stream_error flow \<times> ('p, 'q, 'o) poly_feed)
     \<Rightarrow> (('p, 'q, 'o) poly_feed \<Rightarrow> ('p, 'q, 'o) poly_feed)
     \<Rightarrow> poly_attempt \<Rightarrow> ('p, 'q, 'o) poly_feed \<Rightarrow> 'k poly_stream_error flow \<times> ('p, 'q, 'o) poly_feed" where
  "poly_round E step on_connect a f =
     (case allow_request (attempt_time a) (pf_breaker f) of
        (False, b) \<Rightarrow> (Go, f\<lparr>pf_breaker := b, pf_waits := pf_waits f + 1\<rparr>)
      | (True, b) \<Rightarrow>
          let f0 = f\<lparr>pf_breaker := b\<rparr>;
              f1 = (if 0 < pf_attempt f0 then f0\<lparr>pf_sleeps := pf_sleeps f0 @ [poly_backoff (pe_jitter E) (pf_attempt f0)]\<rparr> else f0)
          in (case a of
                PolyRefused now S e \<Rightarrow>
                  (Go, f1\<lparr>pf_attempt := pf_attempt f1 + 2,
                         pf_breaker := breaker_failure (qv_instant (su_quarantine S)) (pf_breaker f1)\<rparr>)
              | PolyConnected now S inputs \<Rightarrow>
                  (case (poly_subscribe (pe_tickers E) S (on_connect (f1\<lparr>pf_attempt := 0\<rparr>)) :: ('k poly_stream_error + unit) \<times> _) of
                     (Inl e, f2) \<Rightarrow> (Go, f2\<lparr>pf_breaker := breaker_failure (qv_instant (su_quarantine S)) (pf_breaker f2)\<rparr>)
                   | (Inr _, f2) \<Rightarrow>
                       (case read_inputs step inputs f2 of
                          (Drop, f3) \<Rightarrow> (Go, f3\<lparr>pf_attempt := pf_attempt f3 + 1\<rparr>)
                        | (r, f3) \<Rightarrow> (r, f3)))))"

definition poly_stream_ticks ::
  "('k, 'p, 'q, 'o) poly_env \<Rightarrow> poly_attempt list \<Rightarrow> ('p, 'q, 'o) poly_feed \<Rightarrow> 'k poly_stream_error flow \<times> ('p, 'q, 'o) poly_feed" where
  "poly_stream_ticks E = each_go (poly_round E (poly_tick_step E) id)"

definition poly_stream_books ::
  "('k, 'p, 'q, 'o) poly_env \<Rightarrow> poly_attempt list \<Rightarrow> ('p, 'q, 'o) poly_feed \<Rightarrow> 'k poly_stream_error flow \<times> ('p, 'q, 'o) poly_feed" where
  "poly_stream_books E = each_go (poly_round E (poly_book_step E) (\<lambda>f. f\<lparr>pf_books := []\<rparr>))"

subsection \<open>A loop can stop for ever\<close>

lemma poly_quarantine_keeps:
  assumes "poly_quarantine E S reason raw f = (r, f')"
  shows "pf_books f' = pf_books f \<and> pf_producer f' = pf_producer f \<and> pf_breaker f' = pf_breaker f"
  using assms by (auto simp: poly_quarantine_def split: prod.splits sum.splits)

text \<open>A delivery that tells the breaker of success.\<close>

definition heard :: "('k, 'p, 'q, 'o) poly_env \<Rightarrow> ws_input \<Rightarrow> bool" where
  "heard E i =
     (case i of
        WsText raw \<Rightarrow> \<not> eq_ignore_ascii_case (trim_str raw) ''PONG'' \<and> \<not> isl (parse_ws_messages (pe_decode E) raw)
      | _ \<Rightarrow> False)"

lemma poly_book_step_unheard:
  assumes "poly_book_step E S i f = (r, f')" "\<not> heard E i"
  shows "pf_breaker f' = pf_breaker f \<and> pf_producer f' = pf_producer f"
proof (cases i)
  case (WsText raw)
  show ?thesis
  proof (cases "eq_ignore_ascii_case (trim_str raw) ''PONG''")
    case True
    with assms(1) WsText show ?thesis by (simp add: poly_book_step_def poly_step_def)
  next
    case False
    with assms(2) WsText obtain e where "parse_ws_messages (pe_decode E) raw = Inl e" by (auto simp: heard_def isl_def)
    with assms(1) WsText False have "poly_quarantine E S (''invalid WebSocket JSON: '' @ e) raw f = (r, f')"
      by (simp add: poly_book_step_def poly_step_def)
    from poly_quarantine_keeps [OF this] show ?thesis by simp
  qed
qed (use assms in \<open>auto simp: poly_book_step_def poly_step_def\<close>)

interpretation unheard: input_machine "poly_book_step E" "\<lambda>i. \<not> heard E i" "\<lambda>f. pf_breaker f = b \<and> pf_producer f = p"
  by unfold_locales (auto dest: poly_book_step_unheard)

lemma probing_rounds:
  assumes "probing (pf_breaker f)"
  shows "poly_stream_books E as f = (Go, f\<lparr>pf_waits := pf_waits f + length as\<rparr>)"
  using assms
proof (induction as arbitrary: f)
  case (Cons a as)
  have "poly_round E (poly_book_step E) (\<lambda>f. f\<lparr>pf_books := []\<rparr>) a f = (Go, f\<lparr>pf_waits := pf_waits f + 1\<rparr>)"
    using Cons.prems by (simp add: poly_round_def probing_refuses)
  with Cons.IH [of "f\<lparr>pf_waits := pf_waits f + 1\<rparr>"] Cons.prems show ?case by (simp add: poly_stream_books_def)
qed (simp add: poly_stream_books_def)

text \<open>
  When the breaker has opened, the loop may try one connection after the reset time. If that
  connection is lost before a message was read from it, the breaker never hears how the attempt went: the
  loop goes on asking it and waits for ever, without another connection, whatever the venue does.
\<close>

theorem lost_probe_stops_the_stream:
  fixes E :: "('k, 'p, 'q, 'o) poly_env"
  assumes "cb_state (pf_breaker f) = BreakerOpened" "cb_opened_at (pf_breaker f) = Some t0" "t0 + spec_default_reset \<le> now"
    and "su_sent S = Inr ()" "list_all (\<lambda>(S, i). \<not> heard E i) inputs"
    and "poly_stream_books E [PolyConnected now S inputs] f = (Go, f1)"
  shows "poly_stream_books E as f1 = (Go, f1\<lparr>pf_waits := pf_waits f1 + length as\<rparr>) \<and> pf_producer f1 = pf_producer f"
proof -
  let ?b = "(pf_breaker f)\<lparr>cb_state := BreakerHalfOpen, cb_half_open_probe_sent := True\<rparr>"
  let ?f1 = "if 0 < pf_attempt (f\<lparr>pf_breaker := ?b\<rparr>)
    then f\<lparr>pf_breaker := ?b, pf_sleeps := pf_sleeps (f\<lparr>pf_breaker := ?b\<rparr>) @ [poly_backoff (pe_jitter E) (pf_attempt (f\<lparr>pf_breaker := ?b\<rparr>))]\<rparr>
    else f\<lparr>pf_breaker := ?b\<rparr>"
  obtain v f2 where f2: "(poly_subscribe (pe_tickers E) S (?f1\<lparr>pf_attempt := 0, pf_books := []\<rparr>)
      :: ('k poly_stream_error + unit) \<times> _) = (v, f2)" by force
  have v: "v = Inr ()" "pf_breaker f2 = ?b" "pf_producer f2 = pf_producer f"
    using f2 assms(4) by (auto simp: poly_subscribe_def)
  have allow: "allow_request now (pf_breaker f) = (True, ?b)" using assms(1-3) by (simp add: allow_request_def)
  obtain r f3 where f3: "read_inputs (poly_book_step E) inputs f2 = (r, f3)" by force
  have kept: "pf_breaker f3 = ?b \<and> pf_producer f3 = pf_producer f"
    by (rule unheard.read_good [OF f3 assms(5)]) (simp add: v)
  have rnd: "poly_round E (poly_book_step E) (\<lambda>f. f\<lparr>pf_books := []\<rparr>) (PolyConnected now S inputs) f =
      (case r of Drop \<Rightarrow> (Go, f3\<lparr>pf_attempt := pf_attempt f3 + 1\<rparr>) | _ \<Rightarrow> (r, f3))"
    unfolding poly_round_def attempt_time.simps allow prod.case Let_def bool.case poly_attempt.case
    using f2 v(1) by (cases r) (simp_all add: f3)
  with assms(6) have "f1 = f3\<lparr>pf_attempt := pf_attempt f3 + 1\<rparr> \<or> f1 = f3"
    by (cases r) (auto simp: poly_stream_books_def)
  with kept have "probing (pf_breaker f1)" "pf_producer f1 = pf_producer f" by (auto simp: probing_def)
  then show ?thesis using probing_rounds by blast
qed

subsection \<open>A change that spoils a book\<close>

definition spoils :: "venue_parsers \<Rightarrow> decimal \<Rightarrow> clob_book_snapshot \<Rightarrow> bool" where
  "spoils P p s \<longleftrightarrow> (\<exists>l \<in> set (cs_bids s @ cs_asks s). level_at P p l)"

lemma read_levels_spoilt:
  assumes "l \<in> set ls" "level_at P p l" "\<not> (0 \<le> p \<and> p \<le> 1)"
  shows "isl (read_levels P ls)"
  using assms(1)
proof (induction ls)
  case (Cons x xs)
  show ?case
  proof (cases "x = l")
    case True
    with assms(2,3) show ?thesis
      by (auto simp: level_at_def read_level_def parse_probability_def poly_decimal_def)
  next
    case False
    with Cons have "isl (read_levels P xs)" by simp
    then show ?thesis by (cases "read_level P x"; cases "read_levels P xs") auto
  qed
qed simp

lemma spoilt_book_fails: "spoils P p s \<Longrightarrow> \<not> (0 \<le> p \<and> p \<le> 1) \<Longrightarrow> isl (poly_normalize_book P s)"
proof -
  assume "spoils P p s" "\<not> (0 \<le> p \<and> p \<le> 1)"
  then have "isl (read_levels P (cs_bids s)) \<or> isl (read_levels P (cs_asks s))"
    by (auto simp: spoils_def dest: read_levels_spoilt)
  then show "isl (poly_normalize_book P s)"
    by (cases "poly_normalize_book P s") (auto simp: poly_normalize_book_Inr)
qed

lemma change_levels_keeps:
  assumes "l \<in> set ls" "level_at P p l" "p \<noteq> price"
  shows "l \<in> set (change_levels P price qty c ls)"
proof -
  let ?not = "\<lambda>l. \<not> level_at P price l"
  have not: "?not l" using assms(2,3) by (simp add: level_at_def)
  have split: "l \<in> set (takeWhile ?not ls) \<or> l \<in> set (dropWhile ?not ls)"
    using assms(1) by (metis Un_iff set_append takeWhile_dropWhile_id)
  show ?thesis
  proof (cases "dropWhile ?not ls")
    case Nil
    show ?thesis unfolding change_levels_def Let_def Nil list.case using assms(1) by simp
  next
    case (Cons x rest)
    then have "level_at P price x" using hd_dropWhile [of ?not ls] by auto
    with not split Cons show ?thesis by (auto simp: change_levels_def Let_def)
  qed
qed

lemma change_levels_puts:
  assumes "vp_decimal P (pc_price c) = Inr price" "qty \<noteq> 0"
  shows "\<exists>l \<in> set (change_levels P price qty c ls). level_at P price l"
proof (cases "dropWhile (\<lambda>l. \<not> level_at P price l) ls")
  case Nil
  show ?thesis unfolding change_levels_def Let_def Nil list.case using assms by (simp add: level_at_def)
next
  case (Cons x rest)
  then have "level_at P price x" using hd_dropWhile [of "\<lambda>l. \<not> level_at P price l" ls] by auto
  with Cons assms(2) show ?thesis by (simp add: change_levels_def level_at_def Let_def)
qed

lemma apply_price_changeE:
  assumes "apply_price_change P s c ts mk = Inr s'"
  obtains price qty where "poly_decimal P (pc_price c) = Inr price" "poly_decimal P (pc_size c) = Inr qty" "0 \<le> qty"
    "cs_bids s' = change_levels P price qty c (cs_bids s) \<and> cs_asks s' = cs_asks s
     \<or> cs_asks s' = change_levels P price qty c (cs_asks s) \<and> cs_bids s' = cs_bids s"
  using assms
  by (auto simp: apply_price_change_def and_then_Inr_iff Let_def not_less split: if_splits option.splits)

lemma apply_price_change_spoilt:
  assumes "apply_price_change P s c ts mk = Inr s'" "spoils P p s" "poly_decimal P (pc_price c) \<noteq> Inr p"
  shows "spoils P p s'"
proof -
  obtain price qty where c: "poly_decimal P (pc_price c) = Inr price"
    "cs_bids s' = change_levels P price qty c (cs_bids s) \<and> cs_asks s' = cs_asks s
     \<or> cs_asks s' = change_levels P price qty c (cs_asks s) \<and> cs_bids s' = cs_bids s"
    by (rule apply_price_changeE [OF assms(1)])
  with assms(3) have ne: "p \<noteq> price" by auto
  from assms(2) obtain l where l: "l \<in> set (cs_bids s) \<or> l \<in> set (cs_asks s)" "level_at P p l" by (auto simp: spoils_def)
  have "l \<in> set (cs_bids s') \<or> l \<in> set (cs_asks s')"
    using c(2) l(1) change_levels_keeps [OF _ l(2) ne] by metis
  with l(2) show ?thesis by (auto simp: spoils_def)
qed

definition spoilt_feed :: "venue_parsers \<Rightarrow> decimal \<Rightarrow> string \<Rightarrow> ('p, 'q, 'o) poly_feed \<Rightarrow> bool" where
  "spoilt_feed P p a f \<longleftrightarrow> (\<exists>s. hm_get (pf_books f) a = Some s \<and> spoils P p s)"

lemma clocked_same:
  "vp_decimal (poly_clocked E S) = vp_decimal (pe_parsers E)" "poly_decimal (poly_clocked E S) = poly_decimal (pe_parsers E)"
  "level_at (poly_clocked E S) = level_at (pe_parsers E)" "spoils (poly_clocked E S) = spoils (pe_parsers E)"
  by (simp_all add: poly_clocked_def poly_decimal_def level_at_def spoils_def fun_eq_iff)

lemma poly_publish_book_books:
  "poly_publish_book E S what raw s f = (r, f') \<Longrightarrow> pf_books f' = pf_books f"
  by (auto simp: poly_publish_book_def dest: poly_quarantine_keeps split: sum.splits prod.splits)

lemma poly_change_spoilt:
  assumes "poly_change E S raw m c f = (r, f')" "spoilt_feed (pe_parsers E) p a f"
    and "pc_asset_id c = a \<longrightarrow> poly_decimal (pe_parsers E) (pc_price c) \<noteq> Inr p"
  shows "spoilt_feed (pe_parsers E) p a f'
    \<and> (pc_asset_id c = a \<and> \<not> (0 \<le> p \<and> p \<le> 1) \<longrightarrow> pf_producer f' = pf_producer f)"
proof (cases "hm_get (pf_books f) (pc_asset_id c)")
  case None
  with assms(1,2) show ?thesis by (auto simp: poly_change_def)
next
  case (Some s)
  show ?thesis
  proof (cases "apply_price_change (poly_clocked E S) s c (pm_timestamp m) (pm_market m)")
    case (Inl e)
    with assms(1) Some have "poly_quarantine E S (''book delta: '' @ poly_error_text (pe_dec_text E) e) raw f = (r, f')"
      by (simp add: poly_change_def)
    from poly_quarantine_keeps [OF this] assms(2) show ?thesis by (simp add: spoilt_feed_def)
  next
    case (Inr s')
    let ?f = "f\<lparr>pf_books := hm_put (pc_asset_id c) s' (pf_books f)\<rparr>"
    from assms(1) Some Inr have pub: "poly_publish_book E S ''book delta normalization: '' raw s' ?f = (r, f')"
      by (simp add: poly_change_def)
    note books = poly_publish_book_books [OF pub]
    show ?thesis
    proof (cases "pc_asset_id c = a")
      case False
      with assms(2) books show ?thesis by (simp add: spoilt_feed_def hm_get_put)
    next
      case True
      with Some assms(2) have "spoils (poly_clocked E S) p s" by (simp add: spoilt_feed_def clocked_same)
      from apply_price_change_spoilt [OF Inr this] assms(3) True have s': "spoils (poly_clocked E S) p s'"
        by (simp add: clocked_same)
      have "pf_producer f' = pf_producer f" if bad: "\<not> (0 \<le> p \<and> p \<le> 1)"
      proof -
        obtain e where "poly_normalize_book (poly_clocked E S) s' = Inl e"
          using spoilt_book_fails [OF s' bad] by (auto simp: isl_def)
        with pub have "poly_quarantine E S (''book delta normalization: '' @ poly_error_text (pe_dec_text E) e) raw ?f = (r, f')"
          by (simp add: poly_publish_book_def)
        from poly_quarantine_keeps [OF this] show ?thesis by simp
      qed
      with True books s' show ?thesis by (auto simp: spoilt_feed_def hm_get_put clocked_same)
    qed
  qed
qed

text \<open>A delivery that neither replaces the book of the asset nor touches its level at that price.\<close>

definition spares :: "('k, 'p, 'q, 'o) poly_env \<Rightarrow> decimal \<Rightarrow> string \<Rightarrow> ws_input \<Rightarrow> bool" where
  "spares E p a i =
     (case i of
        WsText raw \<Rightarrow>
          (case parse_ws_messages (pe_decode E) raw of
             Inl e \<Rightarrow> True
           | Inr ms \<Rightarrow>
               list_all (\<lambda>m. \<not> (pm_event_type m = ''book'' \<and> pm_asset_id m = Some a)
                 \<and> list_all (\<lambda>c. \<not> (pc_asset_id c = a \<and> poly_decimal (pe_parsers E) (pc_price c) = Inr p)) (pm_price_changes m)) ms)
      | WsClose \<Rightarrow> False
      | _ \<Rightarrow> True)"

lemma poly_book_message_spoilt:
  assumes "poly_book_message E S raw m f = (r, f')" "spoilt_feed (pe_parsers E) p a f"
    and "\<not> (pm_event_type m = ''book'' \<and> pm_asset_id m = Some a)"
    and "list_all (\<lambda>c. \<not> (pc_asset_id c = a \<and> poly_decimal (pe_parsers E) (pc_price c) = Inr p)) (pm_price_changes m)"
  shows "spoilt_feed (pe_parsers E) p a f'"
proof (cases "pm_event_type m = ''book''")
  case True
  show ?thesis
  proof (cases "pm_asset_id m")
    case None
    with assms(1) True have "poly_quarantine E S ''book message missing asset_id'' raw f = (r, f')" by (simp add: poly_book_message_def)
    from poly_quarantine_keeps [OF this] assms(2) show ?thesis by (simp add: spoilt_feed_def)
  next
    case (Some b)
    with assms(1) True obtain s where "poly_publish_book E S ''book normalization: '' raw s (f\<lparr>pf_books := hm_put b s (pf_books f)\<rparr>) = (r, f')"
      by (auto simp: poly_book_message_def Let_def)
    from poly_publish_book_books [OF this] assms(2,3) True Some show ?thesis by (auto simp: spoilt_feed_def hm_get_put)
  qed
next
  case False
  show ?thesis
  proof (cases "pm_event_type m = ''price_change''")
    case True
    with assms(1) False have run: "each_go (poly_change E S raw m) (pm_price_changes m) f = (r, f')" by (simp add: poly_book_message_def)
    show ?thesis
    proof (rule each_go_keeps [where Q = "spoilt_feed (pe_parsers E) p a", OF _ run assms(2)])
      fix c f r f' assume "c \<in> set (pm_price_changes m)" and step: "poly_change E S raw m c f = (r, f')"
        and good: "spoilt_feed (pe_parsers E) p a f"
      with assms(4) have "pc_asset_id c = a \<longrightarrow> poly_decimal (pe_parsers E) (pc_price c) \<noteq> Inr p" by (auto simp: list_all_iff)
      from poly_change_spoilt [OF step good this] show "spoilt_feed (pe_parsers E) p a f'" by simp
    qed
  next
    case other: False
    with assms False show ?thesis by (simp add: poly_book_message_def)
  qed
qed

lemma poly_book_step_spoilt:
  assumes "poly_book_step E S i f = (r, f')" "spares E p a i" "spoilt_feed (pe_parsers E) p a f"
  shows "spoilt_feed (pe_parsers E) p a f'"
proof (cases i)
  case (WsText raw)
  show ?thesis
  proof (cases "eq_ignore_ascii_case (trim_str raw) ''PONG''")
    case True
    with assms(1,3) WsText show ?thesis by (simp add: poly_book_step_def poly_step_def)
  next
    case ping: False
    show ?thesis
    proof (cases "parse_ws_messages (pe_decode E) raw")
      case (Inl e)
      with assms(1) WsText ping have "poly_quarantine E S (''invalid WebSocket JSON: '' @ e) raw f = (r, f')"
        by (simp add: poly_book_step_def poly_step_def)
      from poly_quarantine_keeps [OF this] assms(3) show ?thesis by (simp add: spoilt_feed_def)
    next
      case (Inr ms)
      let ?f = "f\<lparr>pf_breaker := breaker_success (qv_instant (su_quarantine S)) (pf_breaker f)\<rparr>"
      from assms(1) WsText ping Inr have run: "each_go (poly_book_message E S raw) ms ?f = (r, f')"
        by (simp add: poly_book_step_def poly_step_def)
      have start: "spoilt_feed (pe_parsers E) p a ?f" using assms(3) by (simp add: spoilt_feed_def)
      show ?thesis
      proof (rule each_go_keeps [where Q = "spoilt_feed (pe_parsers E) p a", OF _ run start])
        fix m f r f' assume "m \<in> set ms" and step: "poly_book_message E S raw m f = (r, f')"
          and good: "spoilt_feed (pe_parsers E) p a f"
        with assms(2) WsText Inr have "\<not> (pm_event_type m = ''book'' \<and> pm_asset_id m = Some a)"
          "list_all (\<lambda>c. \<not> (pc_asset_id c = a \<and> poly_decimal (pe_parsers E) (pc_price c) = Inr p)) (pm_price_changes m)"
          by (auto simp: spares_def list_all_iff)
        from poly_book_message_spoilt [OF step good this] show "spoilt_feed (pe_parsers E) p a f'" .
      qed
    qed
  qed
qed (use assms in \<open>auto simp: poly_book_step_def poly_step_def spares_def\<close>)

interpretation spoilt: input_machine "poly_book_step E" "spares E p a" "spoilt_feed (pe_parsers E) p a"
  by unfold_locales (rule poly_book_step_spoilt)

text \<open>
  A change at a price that is no probability is entered in the book before the book is
  checked, and stays there: from then on, until a new snapshot of the asset or a change of that very
  level, no change of the asset is published, however many correct ones arrive.
\<close>

theorem bad_price_silences_book:
  assumes "hm_get (pf_books f) (pc_asset_id c) = Some s" "pc_side c = ''BUY'' \<or> pc_side c = ''SELL''"
    and "poly_decimal (pe_parsers E) (pc_price c) = Inr p" "\<not> (0 \<le> p \<and> p \<le> 1)"
    and "poly_decimal (pe_parsers E) (pc_size c) = Inr q" "0 < q"
    and "poly_change E S raw m c f = (r1, f1)"
    and "read_inputs (poly_book_step E) later f1 = (r2, f2)" "list_all (\<lambda>(S, i). spares E p (pc_asset_id c) i) later"
    and "poly_change E S' raw' m' d f2 = (r3, f3)" "pc_asset_id d = pc_asset_id c" "poly_decimal (pe_parsers E) (pc_price d) \<noteq> Inr p"
  shows "pf_producer f1 = pf_producer f \<and> pf_producer f3 = pf_producer f2"
proof -
  obtain s' where s': "apply_price_change (poly_clocked E S) s c (pm_timestamp m) (pm_market m) = Inr s'"
    using assms(2,3,5,6) by (auto simp: apply_price_change_def clocked_same Let_def)
  have spoilt: "spoils (poly_clocked E S) p s'"
  proof -
    have "vp_decimal (poly_clocked E S) (pc_price c) = Inr p"
      using assms(3) by (simp add: clocked_same poly_decimal_def map_err_Inr_iff)
    moreover obtain price qty where "poly_decimal (poly_clocked E S) (pc_price c) = Inr price" "poly_decimal (poly_clocked E S) (pc_size c) = Inr qty"
      "cs_bids s' = change_levels (poly_clocked E S) price qty c (cs_bids s) \<and> cs_asks s' = cs_asks s
       \<or> cs_asks s' = change_levels (poly_clocked E S) price qty c (cs_asks s) \<and> cs_bids s' = cs_bids s"
      by (rule apply_price_changeE [OF s'])
    moreover from this(1,2) assms(3,5,6) have "price = p" "qty \<noteq> 0" by (auto simp: clocked_same)
    ultimately show ?thesis
      using change_levels_puts [of "poly_clocked E S" c p qty] by (fastforce simp: spoils_def)
  qed
  let ?f = "f\<lparr>pf_books := hm_put (pc_asset_id c) s' (pf_books f)\<rparr>"
  obtain e where "poly_normalize_book (poly_clocked E S) s' = Inl e"
    using spoilt_book_fails [OF spoilt assms(4)] by (auto simp: isl_def)
  with assms(1,7) s' have "poly_quarantine E S (''book delta normalization: '' @ poly_error_text (pe_dec_text E) e) raw ?f = (r1, f1)"
    by (simp add: poly_change_def poly_publish_book_def)
  from poly_quarantine_keeps [OF this] spoilt have f1: "pf_producer f1 = pf_producer f" "spoilt_feed (pe_parsers E) p (pc_asset_id c) f1"
    by (simp_all add: spoilt_feed_def hm_get_put clocked_same)
  from spoilt.read_good [OF assms(8,9) f1(2)] have f2: "spoilt_feed (pe_parsers E) p (pc_asset_id c) f2" .
  from poly_change_spoilt [OF assms(10) f2] assms(4,11,12) f1(1) show ?thesis by simp
qed

subsection \<open>Witnesses\<close>

definition poly_sample_env :: "(unit, order_book list, unit, unit) poly_env" where
  "poly_sample_env =
     \<lparr>pe_ops = dec_ref, pe_parsers = poly_sample_parsers, pe_dec_text = (\<lambda>_. []), pe_jitter = id, pe_tickers = [''1''],
       pe_decode = (\<lambda>_. Inl ''not JSON''),
       pe_send_quote = (\<lambda>_ _ _ p. (Inr (), p)), pe_send_book = (\<lambda>_ m _ p. (Inr (), p @ [ev_payload m])),
       pe_send_quarantine = (\<lambda>_ _ _ q. (Inr (), q)), pe_store = (\<lambda>key _ _ obj. (Inr key, obj))\<rparr>"

definition poly_sample_surroundings :: surroundings where
  "poly_sample_surroundings =
     \<lparr>su_quarantine = \<lparr>qv_sha = id, qv_chrono = [], qv_now = [], qv_trace = [], qv_instant = 0\<rparr>, su_trace = [], su_now_text = [],
       su_now = 7, su_sent = Inr ()\<rparr>"

definition poly_sample_feed :: "(order_book list, unit, unit) poly_feed" where
  "poly_sample_feed =
     (poly_feed_new [] \<lparr>qs_counters = \<lparr>qc_count = 0, qc_storms = 0, qc_last_check = None\<rparr>, qs_objects = (), qs_producer = ()\<rparr>)
       \<lparr>pf_books := [(''1'', poly_sample_book)], pf_breaker := breaker_new\<lparr>cb_state := BreakerOpened, cb_opened_at := Some 0\<rparr>\<rparr>"

definition poly_sample_change :: "string \<Rightarrow> price_change" where
  "poly_sample_change price =
     \<lparr>pc_asset_id = ''1'', pc_price = price, pc_size = ''10'', pc_side = ''BUY'', pc_hash = None, pc_best_bid = None, pc_best_ask = None\<rparr>"

theorem lost_probe_stops_the_stream_witness:
  "\<exists>f1. poly_stream_books poly_sample_env [PolyConnected 15000000000 poly_sample_surroundings [(poly_sample_surroundings, WsEnd)]] poly_sample_feed = (Go, f1)
    \<and> poly_stream_books poly_sample_env (replicate 9 (PolyRefused 90000000000 poly_sample_surroundings ''down'')) f1 = (Go, f1\<lparr>pf_waits := pf_waits f1 + 9\<rparr>)"
proof -
  have run: "\<exists>f1. poly_stream_books poly_sample_env [PolyConnected 15000000000 poly_sample_surroundings [(poly_sample_surroundings, WsEnd)]] poly_sample_feed = (Go, f1)"
    by (simp add: poly_stream_books_def poly_round_def poly_sample_feed_def poly_feed_new_def allow_request_def breaker_new_def spec_default_reset_def
        Let_def poly_subscribe_def poly_sample_surroundings_def poly_book_step_def poly_step_def)
  then obtain f1 where f1: "poly_stream_books poly_sample_env [PolyConnected 15000000000 poly_sample_surroundings [(poly_sample_surroundings, WsEnd)]] poly_sample_feed = (Go, f1)"
    by blast
  from lost_probe_stops_the_stream [OF _ _ _ _ _ f1, of 0 "replicate 9 (PolyRefused 90000000000 poly_sample_surroundings ''down'')"] f1
  show ?thesis
    by (auto simp: poly_sample_feed_def spec_default_reset_def poly_sample_surroundings_def heard_def)
qed

definition poly_sample_message :: poly_ws_message where
  "poly_sample_message =
     \<lparr>pm_event_type = ''price_change'', pm_asset_id = None, pm_market = None, pm_price = None, pm_size = None, pm_side = None,
       pm_best_bid = None, pm_best_ask = None, pm_timestamp = None, pm_bids = None, pm_asks = None, pm_hash = None, pm_price_changes = []\<rparr>"

theorem bad_price_silences_book_witness:
  "\<exists>r1 f1 r2 f2. poly_change poly_sample_env poly_sample_surroundings [] poly_sample_message (poly_sample_change ''1.50'') poly_sample_feed = (r1, f1)
    \<and> poly_change poly_sample_env poly_sample_surroundings [] poly_sample_message (poly_sample_change ''0.50'') f1 = (r2, f2) \<and> pf_producer f2 = []"
proof -
  obtain r1 f1 where f1: "poly_change poly_sample_env poly_sample_surroundings [] poly_sample_message (poly_sample_change ''1.50'') poly_sample_feed = (r1, f1)" by force
  obtain r2 f2 where f2: "poly_change poly_sample_env poly_sample_surroundings [] poly_sample_message (poly_sample_change ''0.50'') f1 = (r2, f2)" by force
  have env: "pe_parsers poly_sample_env = poly_sample_parsers" by (simp add: poly_sample_env_def)
  have "hm_get (pf_books poly_sample_feed) (pc_asset_id (poly_sample_change ''1.50'')) = Some poly_sample_book"
    "pf_producer poly_sample_feed = []"
    by (simp_all add: poly_sample_feed_def poly_feed_new_def poly_sample_change_def)
  with bad_price_silences_book [OF _ _ _ _ _ _ f1 _ _ f2, of poly_sample_book "3 / 2" 10 "[]" Waiting] f1 f2
  show ?thesis
    by (auto simp: env poly_sample_change_def poly_sample_parse)
qed

end
