(* ===== verification/Venue_Http.thy ===== *)
theory Venue_Http
  imports Venue_Common
begin

text \<open>
  Requests of the venue packs over HTTP (\<^verbatim>\<open>connectors/venues/*/src/client.rs\<close>). Three packs share one
  loop: ask a circuit breaker, send, and on status 429 tell the breaker and try again up to three times.
  The limiter that delays a request until its token is due changes no result and is left out. The network
  is an argument: what becomes of the attempt with each number; a redirect that the HTTP library follows by
  itself happens within an attempt, so the requests listed here are those that the code hands to the library. The lemmas show how many requests a call
  makes and what an attempt that ends in neither success nor 429 does to a breaker that was probing.
\<close>

subsection \<open>One call\<close>

record http_request =
  hq_method :: string
  hq_url :: string
  hq_headers :: "(string \<times> string) list"
  hq_body :: "string option"

text \<open>A request fails, or is answered with a status and a body that may fail to arrive.\<close>

datatype 'h http_reply = HttpFailed 'h | HttpReply nat "'h + string"

text \<open>One attempt: when the breaker is asked and told, the milliseconds of the wall clock, and the
  randomness that a signature draws.\<close>

record 'h http_turn =
  ht_asked :: int
  ht_heard :: int
  ht_stamp :: int
  ht_salt :: "u8 list"
  ht_reply :: "'h http_reply"

definition is_success :: "nat \<Rightarrow> bool" where
  "is_success status \<longleftrightarrow> 200 \<le> status \<and> status < 300"

definition max_429_retries :: nat where
  "max_429_retries = 3"

text \<open>\<^verbatim>\<open>trim_end_matches\<close> of a slash.\<close>

definition trim_slashes :: "string \<Rightarrow> string" where
  "trim_slashes s = rev (dropWhile (\<lambda>c. c = CHR ''/'') (rev s))"

definition json_headers :: "string \<Rightarrow> (string \<times> string) list" where
  "json_headers agent = [(''Content-Type'', ''application/json''), (''User-Agent'', agent), (''Accept'', ''application/json'')]"

subsection \<open>The guarded loop\<close>

datatype 'h call_error = CallHttp 'h | CallApi nat "'h + string" | CallRefused

record http_client =
  hc_breaker :: circuit_breaker
  hc_sent :: "http_request list"
  hc_sleeps :: "nat list"

definition http_client_new :: http_client where
  "http_client_new = \<lparr>hc_breaker = breaker_new, hc_sent = [], hc_sleeps = []\<rparr>"

fun guarded_attempts ::
  "(nat \<Rightarrow> nat) \<Rightarrow> (nat \<Rightarrow> 'h http_turn) \<Rightarrow> http_request \<Rightarrow> nat list \<Rightarrow> http_client
     \<Rightarrow> ('h call_error + 'h + string) \<times> http_client" where
  "guarded_attempts jitter net q [] c = (Inl CallRefused, c)"
| "guarded_attempts jitter net q (a # as) c =
     (case allow_request (ht_asked (net a)) (hc_breaker c) of
        (False, b) \<Rightarrow> (Inl CallRefused, c\<lparr>hc_breaker := b\<rparr>)
      | (True, b) \<Rightarrow>
          let c1 = c\<lparr>hc_breaker := b, hc_sent := hc_sent c @ [q]\<rparr>
          in (case ht_reply (net a) of
                HttpFailed e \<Rightarrow> (Inl (CallHttp e), c1)
              | HttpReply status body \<Rightarrow>
                  let limited = (status = 429);
                      c2 = (if limited then c1\<lparr>hc_breaker := breaker_failure (ht_heard (net a)) (hc_breaker c1)\<rparr> else c1)
                  in if limited \<and> a < max_429_retries
                     then guarded_attempts jitter net q as
                            (c2\<lparr>hc_sleeps := hc_sleeps c2 @ [delay_for_attempt jitter bus_retry_default a]\<rparr>)
                     else if \<not> is_success status then (Inl (CallApi status body), c2)
                     else (Inr body, c2\<lparr>hc_breaker := breaker_success (ht_heard (net a)) (hc_breaker c2)\<rparr>)))"

definition guarded_call ::
  "(nat \<Rightarrow> nat) \<Rightarrow> (nat \<Rightarrow> 'h http_turn) \<Rightarrow> http_request \<Rightarrow> http_client \<Rightarrow> ('h call_error + 'h + string) \<times> http_client" where
  "guarded_call jitter net q = guarded_attempts jitter net q [0..<max_429_retries + 1]"

subsection \<open>Clients without credentials\<close>

text \<open>The clients of Polymarket and Hyperliquid have the same errors and state; the raw bytes of an answer
  that cannot be parsed are kept.\<close>

datatype 'h rest_error = RsHttp 'h | RsApi nat | RsParse string string | RsRateLimitBreaker

primrec rest_raw_payload :: "'h rest_error \<Rightarrow> u8 list option" where
  "rest_raw_payload (RsHttp e) = None"
| "rest_raw_payload (RsApi status) = None"
| "rest_raw_payload (RsParse detail raw) = Some (as_bytes raw)"
| "rest_raw_payload RsRateLimitBreaker = None"

record rest_client =
  rs_base_url :: string
  rs_http :: http_client

definition rest_client_new :: "string \<Rightarrow> rest_client" where
  "rest_client_new base_url = \<lparr>rs_base_url = trim_slashes base_url, rs_http = http_client_new\<rparr>"

primrec rest_failure :: "'h call_error \<Rightarrow> 'h rest_error" where
  "rest_failure (CallHttp e) = RsHttp e"
| "rest_failure (CallApi status body) = RsApi status"
| "rest_failure CallRefused = RsRateLimitBreaker"

definition rest_text ::
  "(nat \<Rightarrow> nat) \<Rightarrow> (nat \<Rightarrow> 'h http_turn) \<Rightarrow> http_request \<Rightarrow> rest_client \<Rightarrow> ('h rest_error + string) \<times> rest_client" where
  "rest_text jitter net q c =
     (case guarded_call jitter net q (rs_http c) of
        (Inl e, h) \<Rightarrow> (Inl (rest_failure e), c\<lparr>rs_http := h\<rparr>)
      | (Inr body, h) \<Rightarrow> (map_err RsHttp body, c\<lparr>rs_http := h\<rparr>))"

definition rest_parse :: "(string \<Rightarrow> string + 'a) \<Rightarrow> string \<Rightarrow> 'h rest_error + 'a" where
  "rest_parse decode body = map_err (\<lambda>detail. RsParse detail body) (decode body)"

text \<open>The breaker of a stream: \<^verbatim>\<open>record_failure\<close> asks at once whether the breaker has opened.\<close>

definition failure_opens :: "int \<Rightarrow> int \<Rightarrow> circuit_breaker \<Rightarrow> bool \<times> circuit_breaker" where
  "failure_opens heard checked b = apfst Not (allow_request checked (breaker_failure heard b))"

subsection \<open>How many requests\<close>

lemma guarded_attempts_sent:
  "guarded_attempts jitter net q as c = (r, c') \<Longrightarrow> \<exists>n\<le>length as. hc_sent c' = hc_sent c @ replicate n q
     \<and> (\<forall>k. Suc k < n \<longrightarrow> (\<exists>body. ht_reply (net (as ! k)) = HttpReply 429 body))"
proof (induction as arbitrary: c)
  case (Cons a as)
  obtain ok b where b: "allow_request (ht_asked (net a)) (hc_breaker c) = (ok, b)" by force
  show ?case
  proof (cases "ok \<and> (\<exists>body. ht_reply (net a) = HttpReply 429 body) \<and> a < max_429_retries")
    case True
    then obtain body c2 where "guarded_attempts jitter net q as c2 = (r, c')" "hc_sent c2 = hc_sent c @ [q]"
      and limited: "ht_reply (net a) = HttpReply 429 body"
      using Cons.prems b by (auto simp: Let_def)
    with Cons.IH [of c2] obtain n where n: "n \<le> length as" "hc_sent c' = (hc_sent c @ [q]) @ replicate n q"
      "\<forall>k. Suc k < n \<longrightarrow> (\<exists>body. ht_reply (net (as ! k)) = HttpReply 429 body)" by auto
    have "\<exists>body. ht_reply (net ((a # as) ! k)) = HttpReply 429 body" if "Suc k < Suc n" for k
      using that limited n(3) by (cases k) auto
    with n(1,2) show ?thesis by (intro exI [of _ "Suc n"]) simp
  next
    case False
    then have "hc_sent c' = hc_sent c \<or> hc_sent c' = hc_sent c @ [q]"
      using Cons.prems b by (auto simp: Let_def split: bool.splits http_reply.splits if_splits)
    then show ?thesis
    proof
      assume "hc_sent c' = hc_sent c"
      then show ?thesis by (intro exI [of _ 0]) simp
    next
      assume "hc_sent c' = hc_sent c @ [q]"
      then show ?thesis by (intro exI [of _ 1]) simp
    qed
  qed
qed simp

text \<open>A call makes at most four requests, all the same, and any but the last was answered with 429.\<close>

lemma guarded_call_retries:
  assumes "guarded_call jitter net q c = (r, c')"
  shows "\<exists>n\<le>4. hc_sent c' = hc_sent c @ replicate n q
     \<and> (\<forall>k. Suc k < n \<longrightarrow> (\<exists>body. ht_reply (net k) = HttpReply 429 body))"
proof -
  from guarded_attempts_sent [OF assms [unfolded guarded_call_def]]
  obtain n where n: "n \<le> 4" "hc_sent c' = hc_sent c @ replicate n q"
    "\<forall>k. Suc k < n \<longrightarrow> (\<exists>body. ht_reply (net ([0..<max_429_retries + 1] ! k)) = HttpReply 429 body)"
    by (auto simp: max_429_retries_def)
  have "[0..<max_429_retries + 1] ! k = k" if "Suc k < n" for k using that n(1) by (simp add: max_429_retries_def del: upt_Suc)
  with n show ?thesis by auto
qed

lemma guarded_call_sent:
  "guarded_call jitter net q c = (r, c') \<Longrightarrow> \<exists>n\<le>4. hc_sent c' = hc_sent c @ replicate n q"
  using guarded_call_retries by blast

subsection \<open>A probe that is lost\<close>

lemma attempts_0: "[0..<max_429_retries + 1] = [0, 1, 2, 3]"
  by (simp add: max_429_retries_def upt_rec)

lemma guarded_call_probing: "probing (hc_breaker c) \<Longrightarrow> guarded_call jitter net q c = (Inl CallRefused, c)"
  unfolding guarded_call_def attempts_0 by (simp add: probing_refuses)

definition breaker_due :: "int \<Rightarrow> circuit_breaker \<Rightarrow> bool" where
  "breaker_due now b \<longleftrightarrow> cb_state b = BreakerOpened \<and> (\<exists>t0. cb_opened_at b = Some t0 \<and> t0 + spec_default_reset \<le> now)"

text \<open>Neither a success nor status 429.\<close>

definition unheard_reply :: "'h http_reply \<Rightarrow> bool" where
  "unheard_reply r \<longleftrightarrow> (case r of HttpFailed _ \<Rightarrow> True | HttpReply status _ \<Rightarrow> status \<noteq> 429 \<and> \<not> is_success status)"

lemma guarded_call_lost_probe:
  assumes "breaker_due (ht_asked (net 0)) (hc_breaker c)" "unheard_reply (ht_reply (net 0))" "guarded_call jitter net q c = (r, c')"
  shows "isl r \<and> probing (hc_breaker c') \<and> hc_sent c' = hc_sent c @ [q]"
  using assms unfolding guarded_call_def attempts_0
  by (auto simp: breaker_due_def unheard_reply_def allow_request_def probing_def Let_def split: http_reply.splits if_splits)

end
