(* ===== verification/Polymarket_Client.thy ===== *)
theory Polymarket_Client
  imports Venue_Http Polymarket_Normalize
begin

text \<open>
  The two REST clients of the Polymarket venue pack: market discovery
  (\<^verbatim>\<open>connectors/venues/polymarket/src/client.rs\<close>) and order books (\<^verbatim>\<open>clob.rs\<close>). Both are read-only. The
  lemma shows that whatever is asked, only reads leave, at most four for one call.
\<close>

subsection \<open>Market discovery (client.rs)\<close>

record poly_io =
  pi_jitter :: "nat \<Rightarrow> nat"
  pi_encode_url :: "string \<Rightarrow> string"
  pi_markets :: "string \<Rightarrow> string + gamma_market list"
  pi_wrapped_market :: "string \<Rightarrow> string + gamma_market"
  pi_market :: "string \<Rightarrow> string + gamma_market"
  pi_book :: "string \<Rightarrow> string + clob_book_snapshot"

text \<open>\<^verbatim>\<open>deserialize_optional_decimal_string\<close>: the text of a string or of a number.\<close>

definition optional_decimal_string :: "(json \<Rightarrow> string) \<Rightarrow> json option \<Rightarrow> string + string option" where
  "optional_decimal_string json_text v =
     (case v of
        None \<Rightarrow> Inr None
      | Some JNull \<Rightarrow> Inr None
      | Some (JString s) \<Rightarrow> Inr (Some s)
      | Some (JNumber n) \<Rightarrow> Inr (Some n)
      | Some other \<Rightarrow> Inl (''expected decimal string or number, got '' @ json_text other))"

definition gamma_client_from_env :: "(string \<Rightarrow> string option) \<Rightarrow> rest_client" where
  "gamma_client_from_env env =
     rest_client_new (case env ''AETHER_VENUE__POLYMARKET_GAMMA_URL'' of Some u \<Rightarrow> u | None \<Rightarrow> ''https://gamma-api.polymarket.com'')"

definition poly_get_text ::
  "poly_io \<Rightarrow> (nat \<Rightarrow> 'h http_turn) \<Rightarrow> string \<Rightarrow> rest_client \<Rightarrow> ('h rest_error + string) \<times> rest_client" where
  "poly_get_text I net path c =
     rest_text (pi_jitter I) net
       \<lparr>hq_method = ''GET'', hq_url = rs_base_url c @ path, hq_headers = json_headers ''aether-venue-polymarket/0.1.0'', hq_body = None\<rparr> c"

definition gamma_markets ::
  "poly_io \<Rightarrow> (nat \<Rightarrow> 'h http_turn) \<Rightarrow> nat \<Rightarrow> nat \<Rightarrow> rest_client \<Rightarrow> ('h rest_error + gamma_market list) \<times> rest_client" where
  "gamma_markets I net limit offset =
     then_do (poly_get_text I net (''/markets?limit='' @ show_nat limit @ ''&offset='' @ show_nat offset))
       (\<lambda>body c. (rest_parse (pi_markets I) body, c))"

text \<open>The wrapped form of a market is tried first.\<close>

definition get_market_by_id ::
  "poly_io \<Rightarrow> (nat \<Rightarrow> 'h http_turn) \<Rightarrow> string \<Rightarrow> rest_client \<Rightarrow> ('h rest_error + gamma_market) \<times> rest_client" where
  "get_market_by_id I net i =
     then_do (poly_get_text I net (''/markets/'' @ i))
       (\<lambda>body c. (case pi_wrapped_market I body of Inr m \<Rightarrow> Inr m | Inl _ \<Rightarrow> rest_parse (pi_market I) body, c))"

definition get_market_by_slug ::
  "poly_io \<Rightarrow> (nat \<Rightarrow> 'h http_turn) \<Rightarrow> string \<Rightarrow> rest_client \<Rightarrow> ('h rest_error + gamma_market option) \<times> rest_client" where
  "get_market_by_slug I net slug =
     then_do (poly_get_text I net (''/markets/slug/'' @ pi_encode_url I slug)) (\<lambda>body c. (map_ok Some (rest_parse (pi_market I) body), c))"

definition get_market_by_token_id ::
  "poly_io \<Rightarrow> (nat \<Rightarrow> 'h http_turn) \<Rightarrow> string \<Rightarrow> rest_client \<Rightarrow> ('h rest_error + gamma_market option) \<times> rest_client" where
  "get_market_by_token_id I net token =
     then_do (poly_get_text I net (''/markets?clob_token_ids='' @ pi_encode_url I token @ ''&limit=1''))
       (\<lambda>body c. (map_ok (\<lambda>ms. case ms of [] \<Rightarrow> None | m # _ \<Rightarrow> Some m) (rest_parse (pi_markets I) body), c))"

subsection \<open>Order books (clob.rs)\<close>

definition clob_client_from_env :: "(string \<Rightarrow> string option) \<Rightarrow> rest_client" where
  "clob_client_from_env env =
     rest_client_new (case env ''AETHER_VENUE__POLYMARKET_CLOB_URL'' of Some u \<Rightarrow> u | None \<Rightarrow> ''https://clob.polymarket.com'')"

definition get_order_book ::
  "poly_io \<Rightarrow> (nat \<Rightarrow> 'h http_turn) \<Rightarrow> string \<Rightarrow> rest_client \<Rightarrow> ('h rest_error + clob_book_snapshot) \<times> rest_client" where
  "get_order_book I net token =
     then_do (poly_get_text I net (''/book?token_id='' @ pi_encode_url I token)) (\<lambda>body c. (rest_parse (pi_book I) body, c))"

subsection \<open>Only reads leave\<close>

datatype 'h poly_call =
    GammaMarkets "nat \<Rightarrow> 'h http_turn" nat nat
  | GammaById "nat \<Rightarrow> 'h http_turn" string
  | GammaBySlug "nat \<Rightarrow> 'h http_turn" string
  | GammaByToken "nat \<Rightarrow> 'h http_turn" string
  | ClobBook "nat \<Rightarrow> 'h http_turn" string

primrec poly_call_step :: "poly_io \<Rightarrow> 'h poly_call \<Rightarrow> rest_client \<Rightarrow> rest_client" where
  "poly_call_step I (GammaMarkets net limit offset) c = snd (gamma_markets I net limit offset c)"
| "poly_call_step I (GammaById net i) c = snd (get_market_by_id I net i c)"
| "poly_call_step I (GammaBySlug net s) c = snd (get_market_by_slug I net s c)"
| "poly_call_step I (GammaByToken net t) c = snd (get_market_by_token_id I net t c)"
| "poly_call_step I (ClobBook net t) c = snd (get_order_book I net t c)"

definition reads_only :: "rest_client \<Rightarrow> rest_client \<Rightarrow> bool" where
  "reads_only c c' \<longleftrightarrow> rs_base_url c' = rs_base_url c
     \<and> (\<exists>qs. hc_sent (rs_http c') = hc_sent (rs_http c) @ qs
          \<and> (\<forall>q \<in> set qs. hq_method q = ''GET'' \<and> hq_body q = None \<and> (\<exists>path. hq_url q = rs_base_url c @ path)))"

lemma reads_only_trans: "reads_only a b \<Longrightarrow> reads_only b c \<Longrightarrow> reads_only a c"
  unfolding reads_only_def by auto

lemma poly_get_text_reads:
  assumes "poly_get_text I net path c = (r, c')"
  shows "reads_only c c' \<and> length (hc_sent (rs_http c')) \<le> length (hc_sent (rs_http c)) + 4"
proof -
  let ?q = "\<lparr>hq_method = ''GET'', hq_url = rs_base_url c @ path, hq_headers = json_headers ''aether-venue-polymarket/0.1.0'', hq_body = None\<rparr>"
  obtain v h where call: "guarded_call (pi_jitter I) net ?q (rs_http c) = (v, h)" by force
  from guarded_call_sent [OF call] obtain n where "n \<le> 4" "hc_sent h = hc_sent (rs_http c) @ replicate n ?q" by blast
  moreover have "c' = c\<lparr>rs_http := h\<rparr>" using assms call by (auto simp: poly_get_text_def rest_text_def split: sum.splits)
  ultimately show ?thesis by (auto simp: reads_only_def)
qed

lemma then_parse_reads:
  "reads_only c (snd (then_do (poly_get_text I net path) (\<lambda>body c. (f body, c)) c))
   \<and> length (hc_sent (rs_http (snd (then_do (poly_get_text I net path) (\<lambda>body c. (f body, c)) c)))) \<le> length (hc_sent (rs_http c)) + 4"
proof -
  obtain r c' where run: "poly_get_text I net path c = (r, c')" by force
  with poly_get_text_reads [OF run] show ?thesis by (cases r) (simp_all add: then_do_def)
qed

lemma poly_call_reads:
  "reads_only c (poly_call_step I k c) \<and> length (hc_sent (rs_http (poly_call_step I k c))) \<le> length (hc_sent (rs_http c)) + 4"
  by (cases k) (simp_all only: poly_call_step.simps gamma_markets_def get_market_by_id_def get_market_by_slug_def
      get_market_by_token_id_def get_order_book_def then_parse_reads simp_thms)

interpretation poly_reads: history_machine "poly_call_step I" reads_only
proof
  show "reads_only s s" for s by (simp add: reads_only_def)
qed (use poly_call_reads reads_only_trans in \<open>blast+\<close>)

text \<open>
  Whatever is asked of a client, each request that leaves is a read without a body of its own origin, and
  there are at most four for one call.
\<close>

theorem polymarket_only_reads:
  "reads_only c (fold (poly_call_step I) calls c)
   \<and> length (hc_sent (rs_http (fold (poly_call_step I) calls c))) \<le> length (hc_sent (rs_http c)) + 4 * length calls"
proof (rule conjI)
  show "length (hc_sent (rs_http (fold (poly_call_step I) calls c))) \<le> length (hc_sent (rs_http c)) + 4 * length calls"
  proof (induction calls arbitrary: c)
    case (Cons k ks)
    have "length (hc_sent (rs_http (poly_call_step I k c))) \<le> length (hc_sent (rs_http c)) + 4" using poly_call_reads by blast
    with Cons.IH [of "poly_call_step I k c"] show ?case by simp
  qed simp
qed (rule poly_reads.run_later)

end
