(* ===== verification/Polymarket_Rpc.thy ===== *)
theory Polymarket_Rpc
  imports Venue_Common Hex_Numbers
begin

text \<open>
  The reads of the conditional-token contract that settle a Polymarket market
  (\<^verbatim>\<open>connectors/venues/polymarket/src/rpc.rs\<close>): the call data, the JSON-RPC call and the numbers it returns.
  The node is an argument: the answer to the call with each number, which is the decoded JSON or the failure
  of the transport. The lemmas show that a market is reported as resolved only on what the node answered for
  every outcome, and that the number parser reads exactly the numbers that fit 64 bits.
\<close>

subsection \<open>Numbers and call data\<close>

definition ctf_contract :: string where
  "ctf_contract = ''0x4D97DCd97eC945f40cF65F87097ACe5EA0476045''"

definition payout_numerators_sel :: string where
  "payout_numerators_sel = ''0504c814''"

definition payout_denominator_sel :: string where
  "payout_denominator_sel = ''dd34de67''"

datatype resolution_status = StillOpen | Settled "u8 option" | SettlementUnknown

datatype 'h rpc_error =
    RpcHttp 'h
  | RpcJsonRpc int string
  | RpcInvalidResponse message
  | RpcMalformedHex message

definition parse_uint256 :: "string \<Rightarrow> string + nat" where
  "parse_uint256 hex =
     (if hex = [] then Inl ''empty hex string''
      else
        let trimmed = dropWhile (\<lambda>c. c = CHR ''0'') hex;
            significant = (if trimmed = [] then ''0'' else trimmed)
        in if 16 < length significant
           then Inl (''value 0x'' @ hex @ '' exceeds u64::MAX (0xffffffffffffffff)'')
           else ok_or ''invalid digit found in string'' (from_hex 64 significant))"

definition strip_hex :: "string \<Rightarrow> string" where
  "strip_hex s =
     (case strip_prefix ''0x'' s of
        Some r \<Rightarrow> r
      | None \<Rightarrow> (case strip_prefix ''0X'' s of Some r \<Rightarrow> r | None \<Rightarrow> s))"

definition validate_condition_id :: "string \<Rightarrow> 'h rpc_error + string" where
  "validate_condition_id condition_id =
     (let c = strip_hex condition_id
      in if length c \<noteq> 64 \<or> \<not> list_all is_ascii_hexdigit c
         then Inl (RpcMalformedHex (Lit ''condition_id must be exactly 32 bytes of hexadecimal''))
         else Inr c)"

text \<open>\<^verbatim>\<open>{:064x}\<close>.\<close>

definition abi_word :: "nat \<Rightarrow> string" where
  "abi_word n = encode_hex (be_bytes 32 n)"

definition encode_payout_numerators_call :: "string \<Rightarrow> nat \<Rightarrow> 'h rpc_error + string" where
  "encode_payout_numerators_call condition_id index =
     map_ok (\<lambda>cond. ''0x'' @ payout_numerators_sel @ cond @ abi_word index) (validate_condition_id condition_id)"

definition encode_payout_denominator_call :: "string \<Rightarrow> 'h rpc_error + string" where
  "encode_payout_denominator_call condition_id =
     map_ok (\<lambda>cond. ''0x'' @ payout_denominator_sel @ cond) (validate_condition_id condition_id)"

subsection \<open>Calls\<close>

text \<open>The state is the list of the request bodies sent.\<close>

definition eth_call_body :: "string \<Rightarrow> string \<Rightarrow> json" where
  "eth_call_body to data =
     JObject [(''jsonrpc'', JString ''2.0''), (''method'', JString ''eth_call''),
       (''params'', JArray [JObject [(''to'', JString to), (''data'', JString data)], JString ''latest'']),
       (''id'', JNumber ''1'')]"

definition eth_call :: "(nat \<Rightarrow> 'h + json) \<Rightarrow> string \<Rightarrow> string \<Rightarrow> json list \<Rightarrow> ('h rpc_error + string) \<times> json list" where
  "eth_call node to data sent =
     (and_then (map_err RpcHttp (node (length sent))) (\<lambda>resp.
        case json_get ''error'' resp of
          Some err \<Rightarrow>
            Inl (RpcJsonRpc
              (case json_get ''code'' err of Some (JNumber n) \<Rightarrow> (case json_i64 n of Some c \<Rightarrow> c | None \<Rightarrow> -1) | _ \<Rightarrow> -1)
              (case Option.bind (json_get ''message'' err) json_str of Some m \<Rightarrow> m | None \<Rightarrow> ''unknown''))
        | None \<Rightarrow>
            ok_or (RpcInvalidResponse (Lit ''eth_call response missing 'result' field''))
              (Option.bind (json_get ''result'' resp) json_str)),
      sent @ [eth_call_body to data])"

definition without_0x :: "string \<Rightarrow> string" where
  "without_0x hex = (case strip_prefix ''0x'' hex of Some r \<Rightarrow> r | None \<Rightarrow> hex)"

definition get_payout_denominator ::
  "(nat \<Rightarrow> 'h + json) \<Rightarrow> string \<Rightarrow> json list \<Rightarrow> ('h rpc_error + nat) \<times> json list" where
  "get_payout_denominator node condition_id =
     then_do (\<lambda>sent. (encode_payout_denominator_call condition_id, sent)) (\<lambda>data.
     then_do (eth_call node ctf_contract data) (\<lambda>hex sent.
       let raw = without_0x hex
       in (if raw = [] then Inl (RpcInvalidResponse (Lit ''empty response from payoutDenominator''))
           else map_err (\<lambda>e. RpcMalformedHex (Fmt ''payoutDenominator returned {}: {}'' [FStr raw, FStr e]))
                  (parse_uint256 raw), sent)))"

definition read_payout_numerator ::
  "(nat \<Rightarrow> 'h + json) \<Rightarrow> string \<Rightarrow> nat \<Rightarrow> json list \<Rightarrow> ('h rpc_error + nat) \<times> json list" where
  "read_payout_numerator node condition_id index =
     then_do (\<lambda>sent. (encode_payout_numerators_call condition_id index, sent)) (\<lambda>data.
     then_do (eth_call node ctf_contract data) (\<lambda>hex sent.
       let raw = without_0x hex
       in (map_err (\<lambda>e. RpcMalformedHex (Fmt ''payoutNumerators[{}] returned {}: {}''
              [FNat index, FStr raw, FStr e])) (parse_uint256 raw), sent)))"

text \<open>The loop over the outcomes; the index fits a byte, as there are at most 256.\<close>

fun find_winner ::
  "(nat \<Rightarrow> 'h + json) \<Rightarrow> string \<Rightarrow> nat \<Rightarrow> nat list \<Rightarrow> u8 option \<Rightarrow> json list \<Rightarrow> ('h rpc_error + u8 option) \<times> json list" where
  "find_winner node condition_id denominator [] winner sent = (Inr winner, sent)"
| "find_winner node condition_id denominator (index # rest) winner sent =
     then_do (read_payout_numerator node condition_id index)
       (\<lambda>numerator. find_winner node condition_id denominator rest
          (if numerator = denominator then Some (of_nat index) else winner)) sent"

definition check_resolution ::
  "(nat \<Rightarrow> 'h + json) \<Rightarrow> string \<Rightarrow> nat \<Rightarrow> json list \<Rightarrow> ('h rpc_error + resolution_status) \<times> json list" where
  "check_resolution node condition_id outcome_count sent =
     (if \<not> (2 \<le> outcome_count \<and> outcome_count \<le> 256)
      then (Inl (RpcInvalidResponse (Fmt ''outcome count must be in 2..=256, got {}'' [FNat outcome_count])), sent)
      else then_do (get_payout_denominator node condition_id) (\<lambda>denominator sent.
             if denominator = 0 then (Inr StillOpen, sent)
             else then_do (find_winner node condition_id denominator [0..<outcome_count] None)
                    (\<lambda>winner sent. (Inr (Settled winner), sent)) sent) sent)"

subsection \<open>The number parser\<close>

lemma hex_value_bound: "hex_value c = Some d \<Longrightarrow> d < 16"
  by (auto simp: hex_value_def Let_def split: if_splits)

lemma hex_value_zero: "hex_value c = Some 0 \<longleftrightarrow> c = CHR ''0''"
proof
  assume "hex_value c = Some 0"
  then have "of_char c = (48 :: nat)" by (auto simp: hex_value_def Let_def split: if_splits)
  then have "of_char c = (of_char (CHR ''0'') :: nat)" by simp
  then show "c = CHR ''0''" by (simp only: of_char_eq_iff)
qed (simp add: hex_value_def)

lemma hex_digits_bounds:
  "hex_digits acc s = Some n \<Longrightarrow> acc * 16 ^ length s \<le> n \<and> n < (acc + 1) * 16 ^ length s"
proof (induction s arbitrary: acc)
  case (Cons c s)
  then obtain d where d: "hex_value c = Some d" "hex_digits (acc * 16 + d) s = Some n"
    by (auto simp: bind_Some_iff)
  from Cons.IH [OF d(2)] have b: "(acc * 16 + d) * 16 ^ length s \<le> n" "n < (acc * 16 + d + 1) * 16 ^ length s"
    by simp_all
  define p :: nat where "p = 16 ^ length s"
  have "acc * 16 * p \<le> (acc * 16 + d) * p" by (intro mult_right_mono) simp_all
  moreover have "(acc * 16 + d + 1) * p \<le> (acc + 1) * 16 * p"
    using hex_value_bound [OF d(1)] by (intro mult_right_mono) simp_all
  ultimately have "acc * 16 * p \<le> n" "n < (acc + 1) * 16 * p" using b unfolding p_def by linarith+
  then show ?case by (simp only: list.size power_Suc p_def mult.assoc add_0_right add_Suc_right)
qed simp

lemma hex_digits_trim: "hex_digits 0 (dropWhile (\<lambda>c. c = CHR ''0'') s) = hex_digits 0 s"
  by (induction s) (simp_all add: hex_value_def)

lemma hex_digits_append:
  "hex_digits acc (s @ t) = Option.bind (hex_digits acc s) (\<lambda>n. hex_digits n t)"
proof (induction s arbitrary: acc)
  case (Cons c s)
  then show ?case by (cases "hex_value c") simp_all
qed simp

lemma hex_digits_first: "hex_digits acc (c # s) = Some n \<Longrightarrow> c \<noteq> CHR ''+''"
  by (auto simp: hex_value_def)

lemma parse_uint256_reads:
  assumes "s \<noteq> []" "hex_digits 0 s = Some n"
  shows "parse_uint256 s =
     (if n < 2 ^ 64 then Inr n else Inl (''value 0x'' @ s @ '' exceeds u64::MAX (0xffffffffffffffff)''))"
proof (cases "dropWhile (\<lambda>c. c = CHR ''0'') s")
  case Nil
  have "hex_digits 0 [] = Some n" using hex_digits_trim [of s] unfolding Nil assms(2) .
  then have "n = 0" by simp
  moreover have "from_hex 64 ''0'' = Some 0" by (simp add: from_hex_def hex_value_def)
  ultimately show ?thesis using Nil assms(1) by (simp add: parse_uint256_def ok_or_def)
next
  case (Cons c r)
  then have t: "hex_digits 0 (c # r) = Some n" using assms(2) hex_digits_trim [of s] by simp
  then obtain d where d: "hex_value c = Some d" "hex_digits d r = Some n" by (auto simp: bind_Some_iff)
  have c: "c \<noteq> CHR ''0''" using Cons hd_dropWhile [of "\<lambda>c. c = CHR ''0''" s] by auto
  have "d \<noteq> 0" using d(1) c hex_value_zero [of c] by (intro notI) simp
  then have "16 ^ length r \<le> d * 16 ^ length r" by simp
  with hex_digits_bounds [OF d(2)] have low: "16 ^ length r \<le> n" by linarith
  from hex_digits_bounds [OF t] have high: "n < 16 ^ Suc (length r)" by simp
  have top: "(2 :: nat) ^ 64 = 16 ^ 16" by simp
  show ?thesis
  proof (cases "16 < length (c # r)")
    case True
    then have "(16 :: nat) ^ 16 \<le> 16 ^ length r" by (intro power_increasing) simp_all
    with low top have "\<not> n < 2 ^ 64" by linarith
    with True Cons assms(1) show ?thesis by (simp add: parse_uint256_def)
  next
    case False
    then have "(16 :: nat) ^ Suc (length r) \<le> 16 ^ 16" by (intro power_increasing) simp_all
    with high top have n: "n < 2 ^ 64" by linarith
    have "from_hex 64 (c # r) = Some n"
      using t n hex_digits_first [OF t] by (simp add: from_hex_def)
    with False Cons assms(1) n show ?thesis by (simp add: parse_uint256_def ok_or_def)
  qed
qed

lemma hex_digits_encode: "hex_digits acc (encode_hex bs) = Some (acc * 256 ^ length bs + be_value bs)"
proof (induction bs rule: rev_induct)
  case Nil
  then show ?case by (simp add: encode_hex_simps be_value_def)
next
  case (snoc b bs)
  have e: "encode_hex (bs @ [b]) = encode_hex bs @ [hex_digit (drop_bit 4 b), hex_digit (and b 15)]"
    by (simp add: encode_hex_def)
  have v: "hex_value (hex_digit (drop_bit 4 b)) = Some (unat b div 16)"
    "hex_value (hex_digit (and b 15)) = Some (unat b mod 16)"
    using hex_value_digit [OF nibble_bounds(1), of b] hex_value_digit [OF nibble_bounds(2), of b]
    by (simp_all only: high_nibble low_nibble)
  have "(x * 16 + unat b div 16) * 16 + unat b mod 16 = x * 256 + unat b" for x
    using div_mult_mod_eq [of "unat b" 16] by (simp add: algebra_simps)
  then show ?case
    by (simp only: e hex_digits_append snoc.IH bind.bind_lunit hex_digits.simps v be_value_snoc length_append)
      (simp add: algebra_simps)
qed

lemma parse_uint256_abi_word:
  assumes "n < 2 ^ 64"
  shows "parse_uint256 (abi_word n) = Inr n"
proof -
  have "(2 :: nat) ^ 64 \<le> 256 ^ 32" by simp
  with assms have "n < 256 ^ 32" by (rule order_less_le_trans)
  then have "be_value (be_bytes 32 n) = n" by (rule be_value_bytes)
  then have "hex_digits 0 (abi_word n) = Some n" by (simp only: abi_word_def hex_digits_encode mult_0 add_0)
  moreover have "length (abi_word n) = 2 * 32"
    using hex_decode_length [OF hex_decode_encode, of "be_bytes 32 n"] by (simp only: abi_word_def length_be_bytes)
  then have "abi_word n \<noteq> []" by auto
  ultimately show ?thesis using assms by (simp add: parse_uint256_reads)
qed

lemma parse_uint256_bound:
  assumes "parse_uint256 s = Inr n"
  shows "n < 2 ^ 64"
proof -
  from assms obtain t where "from_hex 64 t = Some n"
    unfolding parse_uint256_def Let_def by (auto simp: ok_or_Inr_iff split: if_splits)
  then show ?thesis by (rule from_hex_bound)
qed

subsection \<open>What a settled market rests on\<close>

text \<open>The number that the node's answer with index \<open>k\<close> holds, where it is one.\<close>

definition node_number :: "(nat \<Rightarrow> 'h + json) \<Rightarrow> nat \<Rightarrow> nat option" where
  "node_number node k =
     (case node k of
        Inl e \<Rightarrow> None
      | Inr resp \<Rightarrow>
          (if json_get ''error'' resp \<noteq> None then None
           else Option.bind (Option.bind (json_get ''result'' resp) json_str)
                  (\<lambda>hex. case parse_uint256 (without_0x hex) of Inl e \<Rightarrow> None | Inr n \<Rightarrow> Some n)))"

lemma eth_call_reads:
  assumes "eth_call node to data sent = (Inr hex, sent')"
  shows "length sent' = Suc (length sent)"
    and "node_number node (length sent) = (case parse_uint256 (without_0x hex) of Inl e \<Rightarrow> None | Inr n \<Rightarrow> Some n)"
  using assms
  by (auto simp: eth_call_def node_number_def and_then_Inr_iff map_err_Inr_iff ok_or_Inr_iff split: option.splits)

lemma read_payout_numerator_reads:
  assumes "read_payout_numerator node cond i sent = (Inr n, sent')"
  shows "length sent' = Suc (length sent) \<and> node_number node (length sent) = Some n"
  using assms eth_call_reads
  by (fastforce simp: read_payout_numerator_def then_do_Inr_iff map_err_Inr_iff Let_def)

lemma get_payout_denominator_reads:
  assumes "get_payout_denominator node cond sent = (Inr n, sent')"
  shows "length sent' = Suc (length sent) \<and> node_number node (length sent) = Some n"
  using assms eth_call_reads
  by (fastforce simp: get_payout_denominator_def then_do_Inr_iff map_err_Inr_iff Let_def split: if_splits)

text \<open>The last outcome whose numerator is the denominator.\<close>

definition last_winner :: "nat \<Rightarrow> (nat \<times> nat) list \<Rightarrow> u8 option \<Rightarrow> u8 option" where
  "last_winner den ps w = fold (\<lambda>(i, n) w. if n = den then Some (of_nat i) else w) ps w"

lemma find_winner_reads:
  assumes "find_winner node cond den is w sent = (Inr r, sent')"
  shows "\<exists>ns. length ns = length is \<and> (\<forall>k<length is. node_number node (length sent + k) = Some (ns ! k))
           \<and> r = last_winner den (zip is ns) w"
  using assms
proof (induction "is" arbitrary: w sent)
  case Nil
  then show ?case by (simp add: last_winner_def)
next
  case (Cons i rest)
  then obtain n t where r: "read_payout_numerator node cond i sent = (Inr n, t)"
    and f: "find_winner node cond den rest (if n = den then Some (of_nat i) else w) t = (Inr r, sent')"
    by (auto simp: then_do_Inr_iff)
  note one = read_payout_numerator_reads [OF r]
  from Cons.IH [OF f] obtain ns where ns: "length ns = length rest"
    "\<forall>k<length rest. node_number node (length t + k) = Some (ns ! k)"
    "r = last_winner den (zip rest ns) (if n = den then Some (of_nat i) else w)" by blast
  have "node_number node (length sent + k) = Some ((n # ns) ! k)" if "k < length (i # rest)" for k
    using that one ns(2) by (cases k) auto
  with ns(1,3) show ?case by (intro exI [of _ "n # ns"]) (simp add: last_winner_def)
qed

text \<open>An answer that carries the member \<^verbatim>\<open>error\<close> with the value null, as some nodes send with every
  result, counts as a failure.\<close>

lemma null_error_refused:
  assumes "node (length sent) = Inr (JObject ((''error'', JNull) # rest))"
  shows "fst (eth_call node to data sent) = Inl (RpcJsonRpc (-1) ''unknown'')"
  using assms by (simp add: eth_call_def and_then_def map_err_def)

lemma settlement_never_unknown: "fst (check_resolution node cond count sent) \<noteq> Inr SettlementUnknown"
  by (auto simp: check_resolution_def then_do_def split: prod.splits sum.splits)

text \<open>A market is reported as settled only if the node answered a denominator above zero and a
  numerator for every one of the 2 to 256 outcomes, and the winner reported is the last outcome whose
  numerator is the denominator.\<close>

theorem settled_only_as_the_chain_says:
  assumes "check_resolution node cond count sent = (Inr (Settled w), sent')"
  shows "2 \<le> count \<and> count \<le> 256 \<and> (\<exists>den ns. 0 < den \<and> node_number node (length sent) = Some den \<and> length ns = count
     \<and> (\<forall>k<count. node_number node (length sent + 1 + k) = Some (ns ! k)) \<and> w = last_winner den (zip [0..<count] ns) None)"
proof -
  from assms obtain den t where c: "2 \<le> count" "count \<le> 256" and d: "get_payout_denominator node cond sent = (Inr den, t)"
    and pos: "den \<noteq> 0" and f: "find_winner node cond den [0..<count] None t = (Inr w, sent')"
    by (auto simp: check_resolution_def then_do_Inr_iff split: if_splits)
  from get_payout_denominator_reads [OF d] have t: "length t = length sent + 1" "node_number node (length sent) = Some den"
    by simp_all
  from find_winner_reads [OF f] t c pos show ?thesis by (auto simp: mult.commute)
qed

definition example_node :: "nat \<Rightarrow> string + json" where
  "example_node k = Inr (JObject [(''jsonrpc'', JString ''2.0''), (''id'', JNumber ''1''),
     (''result'', JString (''0x'' @ abi_word (if k = 1 then 0 else 1)))])"

lemma example_settles:
  "check_resolution example_node (replicate 64 (CHR ''1'')) 2 [] = (Inr (Settled (Some 1)),
     snd (check_resolution example_node (replicate 64 (CHR ''1'')) 2 []))"
proof -
  have v: "validate_condition_id (replicate 64 (CHR ''1'')) = (Inr (replicate 64 (CHR ''1'')) :: string rpc_error + string)"
    by (simp add: validate_condition_id_def strip_hex_def strip_prefix_def starts_with_def is_ascii_hexdigit_def
        list_all_iff numeral_eq_Suc)
  have e: "eth_call example_node to data sent = (Inr (''0x'' @ abi_word (if length sent = 1 then 0 else 1)), sent @ [eth_call_body to data])"
    for to data sent by (simp add: eth_call_def example_node_def and_then_def map_err_def ok_or_def)
  have z: "without_0x (''0x'' @ t) = t" for t
    by (simp add: without_0x_def strip_prefix_def starts_with_def)
  have p: "parse_uint256 (abi_word 0) = Inr 0" "parse_uint256 (abi_word (Suc 0)) = Inr (Suc 0)"
    by (rule parse_uint256_abi_word, simp)+
  have ne: "abi_word n \<noteq> []" for n
    using hex_decode_length [OF hex_decode_encode, of "be_bytes 32 n"] by (auto simp: abi_word_def)
  have up: "[0..<2] = [0, Suc 0]" by (simp add: numeral_2_eq_2)
  show ?thesis
    by (simp add: check_resolution_def get_payout_denominator_def read_payout_numerator_def encode_payout_denominator_call_def
        encode_payout_numerators_call_def then_do_def v e z p ne map_ok_def map_err_def up Let_def
        del: append.simps cong: if_cong)
qed

lemma settled_only_as_the_chain_says_witness:
  "\<exists>den ns. 0 < den \<and> node_number example_node 0 = Some den \<and> length ns = 2
     \<and> node_number example_node 1 = Some (ns ! 0) \<and> node_number example_node 2 = Some (ns ! 1)
     \<and> Some 1 = last_winner den (zip [0..<2] ns) None"
proof -
  from settled_only_as_the_chain_says [OF example_settles]
  obtain den ns where h: "0 < den" "node_number example_node 0 = Some den" "length ns = 2"
    "\<forall>k<2. node_number example_node (1 + k) = Some (ns ! k)" "Some 1 = last_winner den (zip [0..<2] ns) None" by auto
  from h(4) have "node_number example_node 1 = Some (ns ! 0)" "node_number example_node 2 = Some (ns ! 1)"
    by (auto dest: spec [of _ 0] spec [of _ 1] simp: numeral_2_eq_2)
  with h show ?thesis by blast
qed

end
