(* ===== verification/Kalshi_Orders.thy ===== *)
theory Kalshi_Orders
  imports Venue_Http Kalshi_Normalize
begin

text \<open>
  The REST client of the Kalshi venue pack (\<^verbatim>\<open>connectors/venues/kalshi/src/client.rs\<close>), its request
  signatures (\<^verbatim>\<open>auth.rs\<close>) and its orders (\<^verbatim>\<open>orders.rs\<close>). Signing, the URL and JSON codecs and the network
  are arguments. The lemmas show that no order leaves for a host that is not a sandbox and what an order
  is when it leaves.
\<close>

subsection \<open>Signatures (auth.rs)\<close>

datatype kalshi_auth_error =
    KaMissingEnvVar string
  | KaKeyReadError string string
  | KaPemParse string
  | KaUnexpectedLabel string
  | KaInvalidKey string
  | KaSigningFailed string

record 'kp kalshi_auth =
  ka_key_id :: string
  ka_key_pair :: 'kp

definition from_pem_bytes ::
  "(u8 list \<Rightarrow> string + string \<times> u8 list) \<Rightarrow> (u8 list \<Rightarrow> string + 'kp) \<Rightarrow> string \<Rightarrow> u8 list \<Rightarrow> kalshi_auth_error + 'kp kalshi_auth" where
  "from_pem_bytes pem pkcs8 key_id bytes =
     and_then (map_err KaPemParse (pem bytes)) (\<lambda>(label, contents).
       if label \<noteq> ''PRIVATE KEY'' then Inl (KaUnexpectedLabel label)
       else map_ok (\<lambda>kp. \<lparr>ka_key_id = key_id, ka_key_pair = kp\<rparr>) (map_err KaInvalidKey (pkcs8 contents)))"

definition kalshi_auth_from_env ::
  "(string \<Rightarrow> string option) \<Rightarrow> (string \<Rightarrow> string + u8 list) \<Rightarrow> (u8 list \<Rightarrow> string + string \<times> u8 list) \<Rightarrow> (u8 list \<Rightarrow> string + 'kp)
     \<Rightarrow> kalshi_auth_error + 'kp kalshi_auth" where
  "kalshi_auth_from_env env read_file pem pkcs8 =
     and_then (ok_or (KaMissingEnvVar ''AETHER_VENUE__KALSHI_KEY_ID'') (env ''AETHER_VENUE__KALSHI_KEY_ID'')) (\<lambda>key_id.
     and_then (ok_or (KaMissingEnvVar ''AETHER_VENUE__KALSHI_PRIVATE_KEY_PATH'') (env ''AETHER_VENUE__KALSHI_PRIVATE_KEY_PATH'')) (\<lambda>path.
     and_then (map_err (KaKeyReadError path) (read_file path)) (from_pem_bytes pem pkcs8 key_id)))"

text \<open>What is signed with a fresh salt: the time, the verb and the path before its query.\<close>

definition signed_text :: "string \<Rightarrow> string \<Rightarrow> string \<Rightarrow> string" where
  "signed_text ts verb path = ts @ to_upper verb @ takeWhile (\<lambda>c. c \<noteq> CHR ''?'') path"

definition sign_request ::
  "('kp \<Rightarrow> u8 list \<Rightarrow> u8 list \<Rightarrow> string + u8 list) \<Rightarrow> (u8 list \<Rightarrow> string) \<Rightarrow> 'kp kalshi_auth \<Rightarrow> u8 list \<Rightarrow> string \<Rightarrow> string \<Rightarrow> string
     \<Rightarrow> kalshi_auth_error + string" where
  "sign_request sign base64 A salt verb path ts =
     map_ok base64 (map_err KaSigningFailed (sign (ka_key_pair A) salt (as_bytes (signed_text ts verb path))))"

subsection \<open>The client (client.rs)\<close>

datatype 'h kalshi_client_error =
    KcAuth kalshi_auth_error
  | KcHttp 'h
  | KcApi nat
  | KcParse string string
  | KcRateLimitBreaker

record markets_response =
  mr_cursor :: "string option"
  mr_markets :: "kalshi_market list"

record kalshi_place_order_response =
  ko_order_id :: string
  ko_remaining_count :: string
  ko_client_order_id :: "string option"

text \<open>The libraries around the client.\<close>

record 'kp kalshi_io =
  ki_sign :: "'kp \<Rightarrow> u8 list \<Rightarrow> u8 list \<Rightarrow> string + u8 list"
  ki_base64 :: "u8 list \<Rightarrow> string"
  ki_encode_url :: "string \<Rightarrow> string"
  ki_host :: "string \<Rightarrow> string option"
  ki_json_text :: "json \<Rightarrow> string"
  ki_markets :: "string \<Rightarrow> string + markets_response"
  ki_market :: "string \<Rightarrow> string + kalshi_market"
  ki_order_response :: "string \<Rightarrow> string + kalshi_place_order_response"
  ki_balance :: "string \<Rightarrow> string + int"
  ki_decimal :: "string \<Rightarrow> string + decimal"
  ki_decimal_text :: "decimal \<Rightarrow> string"
  ki_ulid_text :: "ulid \<Rightarrow> string"
  ki_dollars :: "int \<Rightarrow> string"

record 'kp kalshi_client =
  kc_base_url :: string
  kc_auth :: "'kp kalshi_auth"
  kc_429s :: u32
  kc_sent :: "http_request list"
  kc_sleeps :: "nat list"

definition kalshi_client_new :: "string \<Rightarrow> 'kp kalshi_auth \<Rightarrow> 'kp kalshi_client" where
  "kalshi_client_new base_url auth =
     \<lparr>kc_base_url = trim_slashes base_url, kc_auth = auth, kc_429s = 0, kc_sent = [], kc_sleeps = []\<rparr>"

definition kalshi_client_from_env :: "(string \<Rightarrow> string option) \<Rightarrow> 'kp kalshi_auth \<Rightarrow> 'kp kalshi_client" where
  "kalshi_client_from_env env auth =
     kalshi_client_new (case env ''AETHER_VENUE__KALSHI_BASE_URL'' of Some u \<Rightarrow> u | None \<Rightarrow> ''https://external-api.demo.kalshi.co'') auth"

definition is_sandbox_endpoint :: "'kp kalshi_io \<Rightarrow> 'kp kalshi_client \<Rightarrow> bool" where
  "is_sandbox_endpoint I c =
     (case ki_host I (kc_base_url c) of
        None \<Rightarrow> False
      | Some host \<Rightarrow> host = ''external-api.demo.kalshi.co'' \<or> host = ''localhost'' \<or> host = ''127.0.0.1'')"

definition rate_breaker_threshold :: u32 where
  "rate_breaker_threshold = 5"

text \<open>The loop of the three methods; \<open>request\<close> makes the request of an attempt from its time and its
  signature. The counter wraps.\<close>

fun kalshi_attempts ::
  "(nat \<Rightarrow> 'h http_turn \<Rightarrow> kalshi_auth_error + http_request) \<Rightarrow> (nat \<Rightarrow> 'h http_turn) \<Rightarrow> nat list \<Rightarrow> 'kp kalshi_client
     \<Rightarrow> ('h kalshi_client_error + string) \<times> 'kp kalshi_client" where
  "kalshi_attempts request net [] c = (Inl KcRateLimitBreaker, c)"
| "kalshi_attempts request net (a # as) c =
     (case request a (net a) of
        Inl e \<Rightarrow> (Inl (KcAuth e), c)
      | Inr q \<Rightarrow>
          let c1 = c\<lparr>kc_sent := kc_sent c @ [q]\<rparr>
          in (case ht_reply (net a) of
                HttpFailed e \<Rightarrow> (Inl (KcHttp e), c1)
              | HttpReply status body \<Rightarrow>
                  let limited = (status = 429);
                      c2 = (if limited then c1\<lparr>kc_429s := kc_429s c1 + 1\<rparr> else c1)
                  in if limited \<and> rate_breaker_threshold \<le> kc_429s c2 then (Inl KcRateLimitBreaker, c2)
                     else if limited \<and> a < max_429_retries
                     then kalshi_attempts request net as (c2\<lparr>kc_sleeps := kc_sleeps c2 @ [duration_millis (200 * 2 ^ a)]\<rparr>)
                     else if \<not> is_success status then (Inl (KcApi status), c2)
                     else (map_err KcHttp body, c2\<lparr>kc_429s := 0\<rparr>)))"

definition access_headers :: "'kp kalshi_auth \<Rightarrow> string \<Rightarrow> string \<Rightarrow> (string \<times> string) list" where
  "access_headers A signature ts =
     [(''KALSHI-ACCESS-KEY'', ka_key_id A), (''KALSHI-ACCESS-SIGNATURE'', signature), (''KALSHI-ACCESS-TIMESTAMP'', ts)]"

definition signed_request ::
  "'kp kalshi_io \<Rightarrow> 'kp kalshi_client \<Rightarrow> string \<Rightarrow> (string \<times> string) list \<Rightarrow> string \<Rightarrow> string option \<Rightarrow> nat \<Rightarrow> 'h http_turn
     \<Rightarrow> kalshi_auth_error + http_request" where
  "signed_request I c verb headers path body a t =
     (let ts = show_int (ht_stamp t)
      in map_ok (\<lambda>signature. \<lparr>hq_method = verb, hq_url = kc_base_url c @ path,
           hq_headers = headers @ access_headers (kc_auth c) signature ts, hq_body = body\<rparr>)
         (sign_request (ki_sign I) (ki_base64 I) (kc_auth c) (ht_salt t) verb path ts))"

definition kalshi_get_text ::
  "'kp kalshi_io \<Rightarrow> (nat \<Rightarrow> 'h http_turn) \<Rightarrow> string \<Rightarrow> 'kp kalshi_client \<Rightarrow> ('h kalshi_client_error + string) \<times> 'kp kalshi_client" where
  "kalshi_get_text I net path c =
     kalshi_attempts (signed_request I c ''GET'' (json_headers ''aether-venue-kalshi/0.1.0'') path None) net [0..<max_429_retries + 1] c"

definition kalshi_post_text ::
  "'kp kalshi_io \<Rightarrow> (nat \<Rightarrow> 'h http_turn) \<Rightarrow> string \<Rightarrow> string \<Rightarrow> 'kp kalshi_client
     \<Rightarrow> ('h kalshi_client_error + string) \<times> 'kp kalshi_client" where
  "kalshi_post_text I net path body c =
     kalshi_attempts (signed_request I c ''POST'' (json_headers ''aether-venue-kalshi/0.1.0'') path (Some body)) net [0..<max_429_retries + 1] c"

definition kalshi_delete_text ::
  "'kp kalshi_io \<Rightarrow> (nat \<Rightarrow> 'h http_turn) \<Rightarrow> string \<Rightarrow> 'kp kalshi_client \<Rightarrow> ('h kalshi_client_error + string) \<times> 'kp kalshi_client" where
  "kalshi_delete_text I net path c =
     kalshi_attempts (signed_request I c ''DELETE'' [(''Accept'', ''application/json'')] path None) net [0..<max_429_retries + 1] c"

definition kalshi_parse :: "(string \<Rightarrow> string + 'a) \<Rightarrow> string \<Rightarrow> 'h kalshi_client_error + 'a" where
  "kalshi_parse decode body = map_err (\<lambda>detail. KcParse detail body) (decode body)"

primrec kalshi_raw_payload :: "'h kalshi_client_error \<Rightarrow> u8 list option" where
  "kalshi_raw_payload (KcAuth e) = None"
| "kalshi_raw_payload (KcHttp e) = None"
| "kalshi_raw_payload (KcApi status) = None"
| "kalshi_raw_payload (KcParse detail raw) = Some (as_bytes raw)"
| "kalshi_raw_payload KcRateLimitBreaker = None"

definition get_markets ::
  "'kp kalshi_io \<Rightarrow> (nat \<Rightarrow> 'h http_turn) \<Rightarrow> nat \<Rightarrow> string option \<Rightarrow> 'kp kalshi_client
     \<Rightarrow> ('h kalshi_client_error + markets_response) \<times> 'kp kalshi_client" where
  "get_markets I net limit cursor =
     then_do (kalshi_get_text I net (''/trade-api/v2/markets?limit='' @ show_nat limit
         @ (case cursor of None \<Rightarrow> [] | Some u \<Rightarrow> ''&cursor='' @ ki_encode_url I u)))
       (\<lambda>body c. (kalshi_parse (ki_markets I) body, c))"

text \<open>\<open>ki_market\<close> decodes the object that wraps the market.\<close>

definition get_market ::
  "'kp kalshi_io \<Rightarrow> (nat \<Rightarrow> 'h http_turn) \<Rightarrow> string \<Rightarrow> 'kp kalshi_client
     \<Rightarrow> ('h kalshi_client_error + kalshi_market) \<times> 'kp kalshi_client" where
  "get_market I net ticker =
     then_do (kalshi_get_text I net (''/trade-api/v2/markets/'' @ ki_encode_url I ticker)) (\<lambda>body c. (kalshi_parse (ki_market I) body, c))"

subsection \<open>Orders (orders.rs)\<close>

datatype 'h kalshi_order_error =
    KoDemoRequired
  | KoClient "'h kalshi_client_error"
  | KoApi string
  | KoInvalidPrice string

record order_ack =
  ak_venue_ref :: string
  ak_status :: string

record balance_entry =
  be_asset :: string
  be_free :: string
  be_locked :: string

definition check_demo :: "'kp kalshi_io \<Rightarrow> 'kp kalshi_client \<Rightarrow> 'h kalshi_order_error + unit" where
  "check_demo I c = (if is_sandbox_endpoint I c then Inr () else Inl KoDemoRequired)"

definition native_ticker :: "string \<Rightarrow> market_key \<Rightarrow> string option" where
  "native_ticker prefix m =
     (case strip_prefix prefix (key_str m) of
        None \<Rightarrow> None
      | Some t \<Rightarrow> if t \<noteq> [] \<and> \<not> contains '':'' t then Some t else None)"

definition kalshi_side :: "side \<Rightarrow> 'h kalshi_order_error + string" where
  "kalshi_side s =
     (case s of
        Buy \<Rightarrow> Inr ''bid''
      | Sell \<Rightarrow> Inr ''ask''
      | BuyNo \<Rightarrow> Inl (KoApi ''unsupported side for Kalshi: BuyNo'')
      | SellNo \<Rightarrow> Inl (KoApi ''unsupported side for Kalshi: SellNo''))"

definition kalshi_order_json :: "string \<Rightarrow> string \<Rightarrow> string \<Rightarrow> string \<Rightarrow> string \<Rightarrow> json" where
  "kalshi_order_json ticker s price count client_order_id = JObject
     [(''ticker'', JString ticker), (''side'', JString s), (''price'', JString price), (''count'', JString count),
      (''client_order_id'', JString client_order_id), (''time_in_force'', JString ''good_till_canceled'')]"

definition kalshi_order_request :: "'kp kalshi_io \<Rightarrow> order_intent \<Rightarrow> 'h kalshi_order_error + json" where
  "kalshi_order_request I i =
     and_then (ok_or (KoApi ''market key must be mkt:kalshi:{ticker}'') (native_ticker ''mkt:kalshi:'' (oi_market i))) (\<lambda>ticker.
     and_then (ok_or (KoInvalidPrice ''limit_price is required'') (oi_limit_price i)) (\<lambda>price.
       if price \<le> 0 \<or> 1 \<le> price then Inl (KoInvalidPrice ''price must be between 0 and 1'')
       else
         and_then (kalshi_side (oi_side i)) (\<lambda>s.
           if oi_size i \<le> 0 then Inl (KoInvalidPrice ''count must be positive'')
           else Inr (kalshi_order_json ticker s (ki_decimal_text I price) (ki_decimal_text I (oi_size i)) (ki_ulid_text I (oi_id i))))))"

definition kalshi_order_ack :: "'kp kalshi_io \<Rightarrow> order_intent \<Rightarrow> string \<Rightarrow> 'h kalshi_order_error + order_ack" where
  "kalshi_order_ack I i body =
     and_then (map_err KoApi (ki_order_response I body)) (\<lambda>r.
       if ko_client_order_id r \<noteq> Some (ki_ulid_text I (oi_id i))
       then Inl (KoApi ''Kalshi response client_order_id did not match the submitted intent'')
       else
         and_then (map_err KoApi (ki_decimal I (ko_remaining_count r))) (\<lambda>remaining.
           Inr \<lparr>ak_venue_ref = ko_order_id r, ak_status = (if 0 < remaining then ''resting'' else ''filled'')\<rparr>))"

text \<open>An error of the client, as \<^verbatim>\<open>?\<close> converts it.\<close>

definition of_client :: "('h kalshi_client_error + 'a) \<times> 's \<Rightarrow> ('h kalshi_order_error + 'a) \<times> 's" where
  "of_client r = (map_err KoClient (fst r), snd r)"

definition kalshi_submit_order ::
  "'kp kalshi_io \<Rightarrow> (nat \<Rightarrow> 'h http_turn) \<Rightarrow> order_intent \<Rightarrow> 'kp kalshi_client \<Rightarrow> ('h kalshi_order_error + order_ack) \<times> 'kp kalshi_client" where
  "kalshi_submit_order I net i c =
     (case and_then (check_demo I c) (\<lambda>_. kalshi_order_request I i) of
        Inl e \<Rightarrow> (Inl e, c)
      | Inr req \<Rightarrow>
          then_do (\<lambda>c. of_client (kalshi_post_text I net ''/trade-api/v2/portfolio/events/orders'' (ki_json_text I req) c))
            (\<lambda>body c. (kalshi_order_ack I i body, c)) c)"

definition kalshi_cancel_order ::
  "'kp kalshi_io \<Rightarrow> (nat \<Rightarrow> 'h http_turn) \<Rightarrow> string \<Rightarrow> 'kp kalshi_client \<Rightarrow> ('h kalshi_order_error + unit) \<times> 'kp kalshi_client" where
  "kalshi_cancel_order I net venue_ref c =
     (case and_then (check_demo I c) (\<lambda>_. if trim_str venue_ref = [] then Inl (KoApi ''venue_ref is required'') else Inr ()) of
        Inl e \<Rightarrow> (Inl e, c)
      | Inr _ \<Rightarrow>
          then_do (\<lambda>c. of_client (kalshi_delete_text I net (''/trade-api/v2/portfolio/events/orders/'' @ ki_encode_url I venue_ref) c))
            (\<lambda>_ c. (Inr (), c)) c)"

text \<open>\<open>ki_dollars\<close> prints \<^verbatim>\<open>cents as f64 / 100.0\<close> with two decimals.\<close>

definition kalshi_get_balances ::
  "'kp kalshi_io \<Rightarrow> (nat \<Rightarrow> 'h http_turn) \<Rightarrow> 'kp kalshi_client \<Rightarrow> ('h kalshi_order_error + balance_entry list) \<times> 'kp kalshi_client" where
  "kalshi_get_balances I net c =
     (case check_demo I c of
        Inl e \<Rightarrow> (Inl e, c)
      | Inr _ \<Rightarrow>
          then_do (\<lambda>c. of_client (kalshi_get_text I net ''/trade-api/v2/portfolio/balance'' c))
            (\<lambda>body c. (map_ok (\<lambda>cents. [\<lparr>be_asset = ''USD'', be_free = ki_dollars I cents, be_locked = ''0.00''\<rparr>])
               (map_err KoApi (ki_balance I body)), c)) c)"

subsection \<open>What the client sends\<close>

lemma kalshi_attempts_sends:
  assumes "kalshi_attempts request net as c = (r, c')"
  shows "kc_base_url c' = kc_base_url c \<and> kc_auth c' = kc_auth c
    \<and> (\<exists>qs. kc_sent c' = kc_sent c @ qs \<and> length qs \<le> length as \<and> (\<forall>q \<in> set qs. \<exists>a. request a (net a) = Inr q))"
  using assms
proof (induction as arbitrary: c)
  case (Cons a as)
  show ?case
  proof (cases "request a (net a)")
    case (Inl e)
    with Cons.prems show ?thesis by auto
  next
    case (Inr q)
    let ?c = "c\<lparr>kc_sent := kc_sent c @ [q], kc_429s := kc_429s c + 1,
      kc_sleeps := kc_sleeps c @ [duration_millis (200 * 2 ^ a)]\<rparr>"
    show ?thesis
    proof (cases "(\<exists>body. ht_reply (net a) = HttpReply 429 body) \<and> \<not> rate_breaker_threshold \<le> kc_429s c + 1 \<and> a < max_429_retries")
      case True
      then have "kalshi_attempts request net as ?c = (r, c')" using Cons.prems Inr by (auto simp: Let_def)
      from Cons.IH [OF this] obtain qs where
        "kc_sent c' = (kc_sent c @ [q]) @ qs" "length qs \<le> length as" "\<forall>q \<in> set qs. \<exists>a. request a (net a) = Inr q"
        "kc_base_url c' = kc_base_url c" "kc_auth c' = kc_auth c" by auto
      with Inr show ?thesis by (auto intro!: exI [of _ "q # qs"])
    next
      case False
      have "kc_sent c' = kc_sent c @ [q] \<and> kc_base_url c' = kc_base_url c \<and> kc_auth c' = kc_auth c"
      proof (cases "ht_reply (net a)")
        case (HttpFailed e)
        with Cons.prems Inr show ?thesis by auto
      next
        case (HttpReply status body)
        with False have "\<not> (status = 429 \<and> \<not> rate_breaker_threshold \<le> kc_429s c + 1 \<and> a < max_429_retries)" by auto
        with Cons.prems Inr HttpReply show ?thesis by (auto simp: Let_def split: if_splits)
      qed
      with Inr show ?thesis by (auto intro!: exI [of _ "[q]"])
    qed
  qed
qed auto

lemma four_attempts: "length [0..<max_429_retries + 1] = 4"
  by (simp add: max_429_retries_def)

lemma kalshi_text_sends:
  assumes "kalshi_attempts (signed_request I c0 verb headers path body) net [0..<max_429_retries + 1] c = (r, c')"
  shows "kc_base_url c' = kc_base_url c \<and> kc_auth c' = kc_auth c
    \<and> (\<exists>qs. kc_sent c' = kc_sent c @ qs \<and> length qs \<le> 4
         \<and> (\<forall>q \<in> set qs. hq_method q = verb \<and> hq_url q = kc_base_url c0 @ path \<and> hq_body q = body))"
  using kalshi_attempts_sends [OF assms]
  unfolding four_attempts by (fastforce simp: signed_request_def Let_def map_ok_Inr_iff)

lemma then_do_client:
  assumes "then_do (\<lambda>c. of_client (m c)) (\<lambda>a c. (f a, c)) c = (r, c')"
  obtains r0 where "m c = (r0, c')" "r = and_then (map_err KoClient r0) f"
  using assms by (cases "m c") (auto simp: then_do_def of_client_def split: sum.splits prod.splits)

subsection \<open>Orders stay in the sandbox\<close>

datatype 'h kalshi_order_call =
    KalshiSubmit "nat \<Rightarrow> 'h http_turn" order_intent
  | KalshiCancel "nat \<Rightarrow> 'h http_turn" string
  | KalshiBalances "nat \<Rightarrow> 'h http_turn"

primrec kalshi_order_step :: "'kp kalshi_io \<Rightarrow> 'h kalshi_order_call \<Rightarrow> 'kp kalshi_client \<Rightarrow> 'kp kalshi_client" where
  "kalshi_order_step I (KalshiSubmit net i) c = snd (kalshi_submit_order I net i c)"
| "kalshi_order_step I (KalshiCancel net ref) c = snd (kalshi_cancel_order I net ref c)"
| "kalshi_order_step I (KalshiBalances net) c = snd (kalshi_get_balances I net c)"

definition sandboxed_after :: "'kp kalshi_io \<Rightarrow> 'kp kalshi_client \<Rightarrow> 'kp kalshi_client \<Rightarrow> bool" where
  "sandboxed_after I c c' \<longleftrightarrow> kc_base_url c' = kc_base_url c
     \<and> (\<exists>qs. kc_sent c' = kc_sent c @ qs \<and> (\<forall>q \<in> set qs. is_sandbox_endpoint I c \<and> (\<exists>path. hq_url q = kc_base_url c @ path)))"

lemma sandboxed_refl: "sandboxed_after I c c"
  by (simp add: sandboxed_after_def)

lemma is_sandbox_cong: "kc_base_url c' = kc_base_url c \<Longrightarrow> is_sandbox_endpoint I c' = is_sandbox_endpoint I c"
  by (simp add: is_sandbox_endpoint_def)

lemma sandboxed_trans: "sandboxed_after I a b \<Longrightarrow> sandboxed_after I b c \<Longrightarrow> sandboxed_after I a c"
  unfolding sandboxed_after_def using is_sandbox_cong [of b a I] by auto

lemma sandboxed_text:
  assumes "kalshi_attempts (signed_request I c verb headers path body) net [0..<max_429_retries + 1] c = (r, c')" "is_sandbox_endpoint I c"
  shows "sandboxed_after I c c'"
  using kalshi_text_sends [OF assms(1)] assms(2) unfolding sandboxed_after_def by blast

lemma check_demo_Inr: "check_demo I c = Inr u \<longleftrightarrow> is_sandbox_endpoint I c"
  by (simp add: check_demo_def)

lemma kalshi_submit_sandboxed:
  fixes net :: "nat \<Rightarrow> 'h http_turn"
  shows "sandboxed_after I c (snd (kalshi_submit_order I net i c))"
proof (cases "and_then (check_demo I c) (\<lambda>_. kalshi_order_request I i :: 'h kalshi_order_error + json)")
  case (Inl e)
  then show ?thesis by (simp add: kalshi_submit_order_def sandboxed_refl)
next
  case (Inr req)
  then have box: "is_sandbox_endpoint I c" by (auto simp: and_then_Inr_iff check_demo_Inr)
  obtain r c' where run: "kalshi_submit_order I net i c = (r, c')" by force
  with Inr obtain r0 where "kalshi_post_text I net ''/trade-api/v2/portfolio/events/orders'' (ki_json_text I req) c = (r0, c')"
    by (auto simp: kalshi_submit_order_def elim!: then_do_client)
  from sandboxed_text [OF this [unfolded kalshi_post_text_def] box] run show ?thesis by simp
qed

lemma kalshi_cancel_sandboxed: "sandboxed_after I c (snd (kalshi_cancel_order I net ref c))"
proof (cases "is_sandbox_endpoint I c \<and> trim_str ref \<noteq> []")
  case False
  then show ?thesis by (auto simp: kalshi_cancel_order_def check_demo_def sandboxed_refl)
next
  case True
  obtain r c' where run: "kalshi_cancel_order I net ref c = (r, c')" by force
  with True obtain r0 where "kalshi_delete_text I net (''/trade-api/v2/portfolio/events/orders/'' @ ki_encode_url I ref) c = (r0, c')"
    by (auto simp: kalshi_cancel_order_def check_demo_def elim!: then_do_client)
  from sandboxed_text [OF this [unfolded kalshi_delete_text_def]] True run show ?thesis by simp
qed

lemma kalshi_balances_sandboxed: "sandboxed_after I c (snd (kalshi_get_balances I net c))"
proof (cases "is_sandbox_endpoint I c")
  case False
  then show ?thesis by (simp add: kalshi_get_balances_def check_demo_def sandboxed_refl)
next
  case True
  obtain r c' where run: "kalshi_get_balances I net c = (r, c')" by force
  with True obtain r0 where "kalshi_get_text I net ''/trade-api/v2/portfolio/balance'' c = (r0, c')"
    by (auto simp: kalshi_get_balances_def check_demo_def elim!: then_do_client)
  from sandboxed_text [OF this [unfolded kalshi_get_text_def] True] run show ?thesis by simp
qed

interpretation kalshi_orders: history_machine "kalshi_order_step I" "sandboxed_after I"
proof
  show "sandboxed_after I s (kalshi_order_step I e s)" for e s
    by (cases e) (simp_all add: kalshi_submit_sandboxed kalshi_cancel_sandboxed kalshi_balances_sandboxed)
qed (fact sandboxed_refl sandboxed_trans)+

text \<open>
  Property C33. Whatever orders, cancellations and balance requests are made with a client, each
  request that leaves goes to the client's own origin, and that origin's host is the venue's demo host or
  this machine; with any other host none leaves.
\<close>

theorem kalshi_orders_stay_in_sandbox:
  assumes "kc_sent (fold (kalshi_order_step I) calls c) = kc_sent c @ qs" "q \<in> set qs"
  shows "\<exists>host path. ki_host I (kc_base_url c) = Some host
    \<and> host \<in> {''external-api.demo.kalshi.co'', ''localhost'', ''127.0.0.1''} \<and> hq_url q = kc_base_url c @ path"
proof -
  have "sandboxed_after I c (fold (kalshi_order_step I) calls c)" by (rule kalshi_orders.run_later)
  with assms have "is_sandbox_endpoint I c \<and> (\<exists>path. hq_url q = kc_base_url c @ path)"
    unfolding sandboxed_after_def by fastforce
  then show ?thesis by (auto simp: is_sandbox_endpoint_def split: option.splits)
qed

subsection \<open>What an order is\<close>

text \<open>
  Property C35. A submission sends at most four requests, all with the same body: a limit order for the
  ticker of the intent's own key at its limit price strictly between 0 and 1, for its size, under its
  id, which rests until it is cancelled. The type, the time in force, the unit of size and the paper flag of
  the intent are not looked at: an immediate-or-cancel market order rests as well.
\<close>

theorem kalshi_order_always_rests:
  fixes net :: "nat \<Rightarrow> 'h http_turn"
  shows "kalshi_submit_order I net (i\<lparr>oi_order_type := ty, oi_tif := tif, oi_size_unit := unit, oi_paper := paper\<rparr>) c =
     kalshi_submit_order I net i c
   \<and> (\<exists>qs. kc_sent (snd (kalshi_submit_order I net i c)) = kc_sent c @ qs \<and> length qs \<le> 4
       \<and> list_all (\<lambda>q. case (native_ticker ''mkt:kalshi:'' (oi_market i), oi_limit_price i) of
            (Some ticker, Some p) \<Rightarrow> 0 < p \<and> p < 1 \<and> 0 < oi_size i \<and> oi_side i \<in> {Buy, Sell}
              \<and> hq_body q = Some (ki_json_text I (kalshi_order_json ticker (if oi_side i = Buy then ''bid'' else ''ask'')
                   (ki_decimal_text I p) (ki_decimal_text I (oi_size i)) (ki_ulid_text I (oi_id i))))
          | _ \<Rightarrow> False) qs)"
proof (rule conjI)
  let ?i = "i\<lparr>oi_order_type := ty, oi_tif := tif, oi_size_unit := unit, oi_paper := paper\<rparr>"
  have "(kalshi_order_request I ?i :: 'h kalshi_order_error + json) = kalshi_order_request I i"
    by (simp add: kalshi_order_request_def cong: if_cong)
  moreover have "(kalshi_order_ack I ?i :: string \<Rightarrow> 'h kalshi_order_error + order_ack) = kalshi_order_ack I i"
    by (simp add: kalshi_order_ack_def fun_eq_iff)
  ultimately show "kalshi_submit_order I net ?i c = kalshi_submit_order I net i c"
    by (simp only: kalshi_submit_order_def)
next
  let ?good = "\<lambda>q. case (native_ticker ''mkt:kalshi:'' (oi_market i), oi_limit_price i) of
            (Some ticker, Some p) \<Rightarrow> 0 < p \<and> p < 1 \<and> 0 < oi_size i \<and> oi_side i \<in> {Buy, Sell}
              \<and> hq_body q = Some (ki_json_text I (kalshi_order_json ticker (if oi_side i = Buy then ''bid'' else ''ask'')
                   (ki_decimal_text I p) (ki_decimal_text I (oi_size i)) (ki_ulid_text I (oi_id i))))
          | _ \<Rightarrow> False"
  show "\<exists>qs. kc_sent (snd (kalshi_submit_order I net i c)) = kc_sent c @ qs \<and> length qs \<le> 4 \<and> list_all ?good qs"
  proof (cases "and_then (check_demo I c) (\<lambda>_. kalshi_order_request I i :: 'h kalshi_order_error + json)")
    case (Inl e)
    then show ?thesis by (simp add: kalshi_submit_order_def)
  next
    case (Inr req)
    obtain r c' where run: "kalshi_submit_order I net i c = (r, c')" by force
    with Inr obtain r0 where post: "kalshi_post_text I net ''/trade-api/v2/portfolio/events/orders'' (ki_json_text I req) c = (r0, c')"
      by (auto simp: kalshi_submit_order_def elim!: then_do_client)
    from Inr have "(kalshi_order_request I i :: 'h kalshi_order_error + json) = Inr req" by (auto simp: and_then_Inr_iff)
    then have good: "hq_body q = Some (ki_json_text I req) \<Longrightarrow> ?good q" for q
      by (auto simp: kalshi_order_request_def and_then_Inr_iff ok_or_Inr_iff kalshi_side_def split: if_splits side.splits)
    from kalshi_text_sends [OF post [unfolded kalshi_post_text_def]] obtain qs where
      "kc_sent c' = kc_sent c @ qs" "length qs \<le> 4" "\<forall>q \<in> set qs. hq_body q = Some (ki_json_text I req)" by blast
    moreover have "list_all ?good qs" unfolding list_all_iff using good calculation(3) by blast
    ultimately show ?thesis unfolding run snd_conv by (intro exI [of _ qs] conjI)
  qed
qed

subsection \<open>Witnesses\<close>

definition order_sample_intent :: "string \<Rightarrow> order_intent" where
  "order_sample_intent key =
     \<lparr>oi_id = 7, oi_market = MarketKey key, oi_side = Buy, oi_order_type = Limit, oi_limit_price = Some (1 / 2), oi_size = 3,
       oi_size_unit = Contracts, oi_tif = Ioc, oi_paper = True,
       oi_origin = \<lparr>or_kind = OriginHuman, or_tier = 3, or_actor_id = 7\<rparr>,
       oi_quote_snapshot = \<lparr>q_market = MarketKey key, q_bid = None, q_ask = None, q_mid = None, q_last = None, q_bid_size = None,
         q_ask_size = None, q_ts = 0, q_source = Poll, q_seq = None\<rparr>,
       oi_caps_version = 0, oi_created_ts = 0\<rparr>"

definition kalshi_sample_io :: "unit kalshi_io" where
  "kalshi_sample_io =
     \<lparr>ki_sign = (\<lambda>_ _ m. Inr m), ki_base64 = (\<lambda>_. ''sig''), ki_encode_url = id,
       ki_host = (\<lambda>u. if u = ''http://localhost'' then Some ''localhost'' else None), ki_json_text = (\<lambda>_. ''{}''),
       ki_markets = (\<lambda>_. Inl []), ki_market = (\<lambda>_. Inl []), ki_order_response = (\<lambda>_. Inl ''no response''), ki_balance = (\<lambda>_. Inl []),
       ki_decimal = (\<lambda>_. Inl []), ki_decimal_text = (\<lambda>_. ''1''), ki_ulid_text = (\<lambda>_. ''id''), ki_dollars = (\<lambda>_. [])\<rparr>"

definition kalshi_sample_client :: "unit kalshi_client" where
  "kalshi_sample_client = kalshi_client_new ''http://localhost/'' \<lparr>ka_key_id = ''key'', ka_key_pair = ()\<rparr>"

definition refused_turn :: "unit http_turn" where
  "refused_turn = \<lparr>ht_asked = 0, ht_heard = 0, ht_stamp = 5, ht_salt = [], ht_reply = HttpReply 500 (Inr ''down'')\<rparr>"

theorem kalshi_orders_stay_in_sandbox_witness:
  "\<exists>q. kc_sent (fold (kalshi_order_step kalshi_sample_io) [KalshiSubmit (\<lambda>_. refused_turn) (order_sample_intent ''mkt:kalshi:btc-75'')]
      kalshi_sample_client) = [q] \<and> (\<exists>path. hq_url q = ''http://localhost'' @ path)"
proof -
  have req: "kalshi_order_request kalshi_sample_io (order_sample_intent ''mkt:kalshi:btc-75'') =
      (Inr (kalshi_order_json ''btc-75'' ''bid'' ''1'' ''1'' ''id'') :: unit kalshi_order_error + json)"
    by (simp add: kalshi_order_request_def order_sample_intent_def native_ticker_def strip_prefix_def starts_with_def contains_def
        kalshi_sample_io_def kalshi_side_def)
  have base: "kc_base_url kalshi_sample_client = ''http://localhost''" "kc_sent kalshi_sample_client = []"
    by (simp_all add: kalshi_sample_client_def kalshi_client_new_def trim_slashes_def)
  have box: "is_sandbox_endpoint kalshi_sample_io kalshi_sample_client"
    by (simp add: is_sandbox_endpoint_def base kalshi_sample_io_def)
  define q where "q = \<lparr>hq_method = ''POST'', hq_url = ''http://localhost'' @ ''/trade-api/v2/portfolio/events/orders'',
    hq_headers = json_headers ''aether-venue-kalshi/0.1.0'' @ access_headers (kc_auth kalshi_sample_client) ''sig'' (show_int 5), hq_body = Some ''{}''\<rparr>"
  have sign: "signed_request kalshi_sample_io kalshi_sample_client ''POST'' (json_headers ''aether-venue-kalshi/0.1.0'')
      ''/trade-api/v2/portfolio/events/orders'' (Some ''{}'') a refused_turn = Inr q" for a
    by (simp add: signed_request_def sign_request_def kalshi_sample_io_def base q_def refused_turn_def Let_def)
  have body: "ki_json_text kalshi_sample_io j = ''{}''" for j by (simp add: kalshi_sample_io_def)
  have post: "kalshi_post_text kalshi_sample_io (\<lambda>_. refused_turn) ''/trade-api/v2/portfolio/events/orders'' ''{}'' kalshi_sample_client =
      (Inl (KcApi 500), kalshi_sample_client\<lparr>kc_sent := [q]\<rparr>)"
    unfolding kalshi_post_text_def attempts_0 by (simp add: sign base) (simp add: refused_turn_def is_success_def)
  have sent: "kc_sent (fold (kalshi_order_step kalshi_sample_io)
      [KalshiSubmit (\<lambda>_. refused_turn) (order_sample_intent ''mkt:kalshi:btc-75'')] kalshi_sample_client) = kc_sent kalshi_sample_client @ [q]"
    by (simp add: kalshi_submit_order_def req box check_demo_def then_do_def of_client_def body post base)
  from kalshi_orders_stay_in_sandbox [OF sent, of q] sent base show ?thesis by auto
qed

end
