(* ===== verification/Alpaca_Client.thy ===== *)
theory Alpaca_Client
  imports Kalshi_Orders
begin

text \<open>
  The REST client of the Alpaca venue pack (\<^verbatim>\<open>connectors/venues/alpaca/src/client.rs\<close>) and its orders
  (\<^verbatim>\<open>orders.rs\<close>). The price bars of a snapshot, which nothing reads,
  are left out. Key and secret that are no header values panic in the first request, the error
  \<open>AcPanic\<close>. The lemmas show what reaches the venue as an order and when, and how the client can be
  closed for good.
\<close>

subsection \<open>Wire types\<close>

record alpaca_asset =
  aa_id :: string
  aa_asset_class :: string
  aa_exchange :: string
  aa_symbol :: string
  aa_name :: string
  aa_status :: string
  aa_tradable :: bool
  aa_marginable :: bool
  aa_shortable :: bool
  aa_easy_to_borrow :: bool
  aa_fractionable :: bool
  aa_maintenance_margin :: "int option"

record alpaca_account =
  ac_id :: string
  ac_status :: string
  ac_currency :: string
  ac_buying_power :: string
  ac_regt_buying_power :: "string option"
  ac_daytrading_buying_power :: "string option"
  ac_cash :: string
  ac_portfolio_value :: string
  ac_equity :: string
  ac_last_equity :: string
  ac_long_market_value :: string
  ac_short_market_value :: string
  ac_initial_margin :: string
  ac_maintenance_margin :: string
  ac_pattern_day_trader :: bool
  ac_shorting_enabled :: bool
  ac_trade_suspended_by_user :: bool
  ac_trading_blocked :: bool
  ac_transfers_blocked :: bool
  ac_account_blocked :: bool
  ac_account_number :: string
  ac_daytrade_count :: int
  ac_multiplier :: string

record alpaca_trade =
  at_t :: "string option"
  at_x :: "string option"
  at_p :: "string option"
  at_s :: "string option"
  at_c :: "string list option"
  at_i :: "int option"
  at_z :: "string option"

record alpaca_quote =
  aq_t :: "string option"
  aq_ax :: "string option"
  aq_ap :: "string option"
  aq_ask_size :: "string option"
  aq_bx :: "string option"
  aq_bp :: "string option"
  aq_bs :: "string option"
  aq_c :: "string list option"

record alpaca_snapshot =
  as_symbol :: "string option"
  as_latest_trade :: "alpaca_trade option"
  as_latest_quote :: "alpaca_quote option"

record alpaca_order_request =
  ar_symbol :: string
  ar_side :: string
  ar_qty :: string
  ar_order_type :: string
  ar_time_in_force :: string
  ar_limit_price :: "string option"
  ar_stop_price :: "string option"
  ar_extended_hours :: "bool option"
  ar_client_order_id :: "string option"

record alpaca_order_response =
  ap_id :: string
  ap_client_order_id :: "string option"
  ap_status :: "string option"
  ap_filled_qty :: "string option"
  ap_filled_avg_price :: "string option"
  ap_symbol :: "string option"
  ap_side :: "string option"
  ap_order_type :: "string option"
  ap_limit_price :: "string option"
  ap_stop_price :: "string option"
  ap_time_in_force :: "string option"
  ap_qty :: "string option"

definition optional_field :: "string \<Rightarrow> ('a \<Rightarrow> json) \<Rightarrow> 'a option \<Rightarrow> (string \<times> json) list" where
  "optional_field name f v = (case v of None \<Rightarrow> [] | Some a \<Rightarrow> [(name, f a)])"

definition alpaca_order_json :: "alpaca_order_request \<Rightarrow> json" where
  "alpaca_order_json r = JObject
     ([(''symbol'', JString (ar_symbol r)), (''side'', JString (ar_side r)), (''qty'', JString (ar_qty r)),
       (''type'', JString (ar_order_type r)), (''time_in_force'', JString (ar_time_in_force r))]
      @ optional_field ''limit_price'' JString (ar_limit_price r) @ optional_field ''stop_price'' JString (ar_stop_price r)
      @ optional_field ''extended_hours'' JBool (ar_extended_hours r)
      @ optional_field ''client_order_id'' JString (ar_client_order_id r))"

subsection \<open>The client\<close>

datatype 'h alpaca_client_error =
    AcAuth string
  | AcHttp 'h
  | AcApi nat string
  | AcParse string string
  | AcRateLimitBreaker
  | AcPanic

record alpaca_io =
  ai_jitter :: "nat \<Rightarrow> nat"
  ai_header_value :: "string \<Rightarrow> bool"
  ai_encode_url :: "string \<Rightarrow> string"
  ai_host :: "string \<Rightarrow> string option"
  ai_json_text :: "json \<Rightarrow> string"
  ai_assets :: "string \<Rightarrow> string + alpaca_asset list"
  ai_asset :: "string \<Rightarrow> string + alpaca_asset"
  ai_snapshot :: "string \<Rightarrow> string + alpaca_snapshot"
  ai_account :: "string \<Rightarrow> string + alpaca_account"
  ai_order_response :: "string \<Rightarrow> string + alpaca_order_response"
  ai_decimal_text :: "decimal \<Rightarrow> string"
  ai_ulid_text :: "ulid \<Rightarrow> string"

record alpaca_auth =
  aa_key_id :: string
  aa_secret_key :: string

definition alpaca_auth_from_env :: "(string \<Rightarrow> string option) \<Rightarrow> string + alpaca_auth" where
  "alpaca_auth_from_env env =
     and_then (ok_or ''AETHER_VENUE__ALPACA_KEY_ID'' (env ''AETHER_VENUE__ALPACA_KEY_ID'')) (\<lambda>key_id.
     and_then (ok_or ''AETHER_VENUE__ALPACA_SECRET'' (env ''AETHER_VENUE__ALPACA_SECRET'')) (\<lambda>secret.
       Inr \<lparr>aa_key_id = key_id, aa_secret_key = secret\<rparr>))"

record alpaca_client =
  al_base_url :: string
  al_data_url :: string
  al_auth :: alpaca_auth
  al_http :: http_client

definition alpaca_client_new :: "string \<Rightarrow> string \<Rightarrow> alpaca_auth \<Rightarrow> alpaca_client" where
  "alpaca_client_new base_url data_url auth =
     \<lparr>al_base_url = trim_slashes base_url, al_data_url = trim_slashes data_url, al_auth = auth, al_http = http_client_new\<rparr>"

definition alpaca_client_from_env :: "(string \<Rightarrow> string option) \<Rightarrow> alpaca_auth \<Rightarrow> alpaca_client" where
  "alpaca_client_from_env env auth =
     alpaca_client_new
       (case env ''AETHER_VENUE__ALPACA_BASE_URL'' of Some u \<Rightarrow> u | None \<Rightarrow> ''https://paper-api.alpaca.markets'')
       (case env ''AETHER_VENUE__ALPACA_DATA_URL'' of Some u \<Rightarrow> u | None \<Rightarrow> ''https://data.alpaca.markets'') auth"

definition is_paper_endpoint :: "alpaca_io \<Rightarrow> alpaca_client \<Rightarrow> bool" where
  "is_paper_endpoint I c =
     (case ai_host I (al_base_url c) of
        None \<Rightarrow> False
      | Some host \<Rightarrow> host = ''paper-api.alpaca.markets'' \<or> host = ''localhost'' \<or> host = ''127.0.0.1'')"

definition auth_headers :: "alpaca_io \<Rightarrow> alpaca_auth \<Rightarrow> (string \<times> string) list option" where
  "auth_headers I A =
     (if ai_header_value I (aa_key_id A) \<and> ai_header_value I (aa_secret_key A)
      then Some [(''apca-api-key-id'', aa_key_id A), (''apca-api-secret-key'', aa_secret_key A)] else None)"

primrec alpaca_failure :: "'h call_error \<Rightarrow> 'h alpaca_client_error" where
  "alpaca_failure (CallHttp e) = AcHttp e"
| "alpaca_failure (CallApi status body) = AcApi status (case body of Inl _ \<Rightarrow> [] | Inr t \<Rightarrow> t)"
| "alpaca_failure CallRefused = AcRateLimitBreaker"

text \<open>What the four methods share.\<close>

definition alpaca_request ::
  "alpaca_io \<Rightarrow> (nat \<Rightarrow> 'h http_turn) \<Rightarrow> string \<Rightarrow> string \<Rightarrow> (string \<times> string) list \<Rightarrow> string option \<Rightarrow> alpaca_client
     \<Rightarrow> ('h alpaca_client_error + 'h + string) \<times> alpaca_client" where
  "alpaca_request I net verb target headers body c =
     (case auth_headers I (al_auth c) of
        None \<Rightarrow> (Inl AcPanic, c)
      | Some hs \<Rightarrow>
          (case guarded_call (ai_jitter I) net \<lparr>hq_method = verb, hq_url = target, hq_headers = hs @ headers, hq_body = body\<rparr> (al_http c) of
             (Inl e, h) \<Rightarrow> (Inl (alpaca_failure e), c\<lparr>al_http := h\<rparr>)
           | (Inr reply, h) \<Rightarrow> (Inr reply, c\<lparr>al_http := h\<rparr>)))"

definition alpaca_text ::
  "('h alpaca_client_error + 'h + string) \<times> 's \<Rightarrow> ('h alpaca_client_error + string) \<times> 's" where
  "alpaca_text r = (and_then (fst r) (map_err AcHttp), snd r)"

definition alpaca_get_text ::
  "alpaca_io \<Rightarrow> (nat \<Rightarrow> 'h http_turn) \<Rightarrow> string \<Rightarrow> alpaca_client \<Rightarrow> ('h alpaca_client_error + string) \<times> alpaca_client" where
  "alpaca_get_text I net path c =
     alpaca_text (alpaca_request I net ''GET'' (al_base_url c @ path) (json_headers ''aether-venue-alpaca/0.1.0'') None c)"

definition data_get_text ::
  "alpaca_io \<Rightarrow> (nat \<Rightarrow> 'h http_turn) \<Rightarrow> string \<Rightarrow> alpaca_client \<Rightarrow> ('h alpaca_client_error + string) \<times> alpaca_client" where
  "data_get_text I net path c =
     alpaca_text (alpaca_request I net ''GET'' (al_data_url c @ path) (json_headers ''aether-venue-alpaca/0.1.0'') None c)"

definition alpaca_post_text ::
  "alpaca_io \<Rightarrow> (nat \<Rightarrow> 'h http_turn) \<Rightarrow> string \<Rightarrow> string \<Rightarrow> alpaca_client \<Rightarrow> ('h alpaca_client_error + string) \<times> alpaca_client" where
  "alpaca_post_text I net path body c =
     alpaca_text (alpaca_request I net ''POST'' (al_base_url c @ path) (json_headers ''aether-venue-alpaca/0.1.0'') (Some body) c)"

definition alpaca_delete_text ::
  "alpaca_io \<Rightarrow> (nat \<Rightarrow> 'h http_turn) \<Rightarrow> string \<Rightarrow> alpaca_client \<Rightarrow> ('h alpaca_client_error + unit) \<times> alpaca_client" where
  "alpaca_delete_text I net path c =
     (let r = alpaca_request I net ''DELETE'' (al_base_url c @ path)
                [(''Accept'', ''application/json''), (''User-Agent'', ''aether-venue-alpaca/0.1.0'')] None c
      in (map_ok (\<lambda>_. ()) (fst r), snd r))"

definition alpaca_parse :: "(string \<Rightarrow> string + 'a) \<Rightarrow> string \<Rightarrow> 'h alpaca_client_error + 'a" where
  "alpaca_parse decode body = map_err (\<lambda>detail. AcParse detail body) (decode body)"

primrec alpaca_raw_payload :: "'h alpaca_client_error \<Rightarrow> u8 list option" where
  "alpaca_raw_payload (AcAuth e) = None"
| "alpaca_raw_payload (AcHttp e) = None"
| "alpaca_raw_payload (AcApi status body) = None"
| "alpaca_raw_payload (AcParse detail raw) = Some (as_bytes raw)"
| "alpaca_raw_payload AcRateLimitBreaker = None"
| "alpaca_raw_payload AcPanic = None"

definition assets_path :: "alpaca_io \<Rightarrow> string option \<Rightarrow> string option \<Rightarrow> string" where
  "assets_path I status asset_class =
     (let params = (case status of None \<Rightarrow> [] | Some s \<Rightarrow> [''status='' @ ai_encode_url I s])
                 @ (case asset_class of None \<Rightarrow> [] | Some k \<Rightarrow> [''asset_class='' @ ai_encode_url I k])
      in ''/v2/assets'' @ (if params = [] then [] else ''?'' @ join_with ''&'' params))"

definition list_assets ::
  "alpaca_io \<Rightarrow> (nat \<Rightarrow> 'h http_turn) \<Rightarrow> string option \<Rightarrow> string option \<Rightarrow> alpaca_client
     \<Rightarrow> ('h alpaca_client_error + alpaca_asset list) \<times> alpaca_client" where
  "list_assets I net status asset_class =
     then_do (alpaca_get_text I net (assets_path I status asset_class)) (\<lambda>body c. (alpaca_parse (ai_assets I) body, c))"

definition get_asset ::
  "alpaca_io \<Rightarrow> (nat \<Rightarrow> 'h http_turn) \<Rightarrow> string \<Rightarrow> alpaca_client \<Rightarrow> ('h alpaca_client_error + alpaca_asset) \<times> alpaca_client" where
  "get_asset I net symbol =
     then_do (alpaca_get_text I net (''/v2/assets/'' @ ai_encode_url I symbol)) (\<lambda>body c. (alpaca_parse (ai_asset I) body, c))"

definition get_snapshot ::
  "alpaca_io \<Rightarrow> (nat \<Rightarrow> 'h http_turn) \<Rightarrow> string \<Rightarrow> alpaca_client \<Rightarrow> ('h alpaca_client_error + alpaca_snapshot) \<times> alpaca_client" where
  "get_snapshot I net symbol =
     then_do (data_get_text I net (''/v2/stocks/'' @ ai_encode_url I symbol @ ''/snapshot'')) (\<lambda>body c. (alpaca_parse (ai_snapshot I) body, c))"

definition get_account ::
  "alpaca_io \<Rightarrow> (nat \<Rightarrow> 'h http_turn) \<Rightarrow> alpaca_client \<Rightarrow> ('h alpaca_client_error + alpaca_account) \<times> alpaca_client" where
  "get_account I net = then_do (alpaca_get_text I net ''/v2/account'') (\<lambda>body c. (alpaca_parse (ai_account I) body, c))"

definition client_submit_order ::
  "alpaca_io \<Rightarrow> (nat \<Rightarrow> 'h http_turn) \<Rightarrow> alpaca_order_request \<Rightarrow> alpaca_client
     \<Rightarrow> ('h alpaca_client_error + alpaca_order_response) \<times> alpaca_client" where
  "client_submit_order I net r =
     then_do (alpaca_post_text I net ''/v2/orders'' (ai_json_text I (alpaca_order_json r))) (\<lambda>body c. (alpaca_parse (ai_order_response I) body, c))"

definition client_cancel_order ::
  "alpaca_io \<Rightarrow> (nat \<Rightarrow> 'h http_turn) \<Rightarrow> string \<Rightarrow> alpaca_client \<Rightarrow> ('h alpaca_client_error + unit) \<times> alpaca_client" where
  "client_cancel_order I net order_id = alpaca_delete_text I net (''/v2/orders/'' @ ai_encode_url I order_id)"

subsection \<open>Orders (orders.rs)\<close>

datatype 'h alpaca_order_error =
    AoDemoRequired
  | AoPaperIntentRequired
  | AoClient "'h alpaca_client_error"
  | AoApi string
  | AoInvalidPrice string

definition alpaca_check_demo :: "alpaca_io \<Rightarrow> alpaca_client \<Rightarrow> 'h alpaca_order_error + unit" where
  "alpaca_check_demo I c = (if is_paper_endpoint I c then Inr () else Inl AoDemoRequired)"

definition alpaca_side :: "side \<Rightarrow> 'h alpaca_order_error + string" where
  "alpaca_side s =
     (case s of
        Buy \<Rightarrow> Inr ''buy''
      | Sell \<Rightarrow> Inr ''sell''
      | BuyNo \<Rightarrow> Inl (AoApi ''unsupported side for Alpaca: BuyNo'')
      | SellNo \<Rightarrow> Inl (AoApi ''unsupported side for Alpaca: SellNo''))"

definition alpaca_limit_price :: "alpaca_io \<Rightarrow> order_intent \<Rightarrow> 'h alpaca_order_error + string option" where
  "alpaca_limit_price I i =
     (case oi_limit_price i of
        Some p \<Rightarrow> if 0 < p then Inr (Some (ai_decimal_text I p)) else Inl (AoInvalidPrice ''limit price must be positive'')
      | None \<Rightarrow> if oi_order_type i = Limit then Inl (AoInvalidPrice ''limit order requires a limit price'') else Inr None)"

definition alpaca_order_request_of :: "alpaca_io \<Rightarrow> order_intent \<Rightarrow> 'h alpaca_order_error + alpaca_order_request" where
  "alpaca_order_request_of I i =
     (if \<not> oi_paper i then Inl AoPaperIntentRequired
      else
        and_then (ok_or (AoApi ''market key must be mkt:alpaca:{symbol}'') (native_ticker ''mkt:alpaca:'' (oi_market i))) (\<lambda>symbol.
        and_then (alpaca_side (oi_side i)) (\<lambda>s.
          if oi_size i \<le> 0 then Inl (AoInvalidPrice ''qty must be positive'')
          else
            and_then (alpaca_limit_price I i) (\<lambda>price.
              Inr \<lparr>ar_symbol = to_upper symbol, ar_side = s, ar_qty = ai_decimal_text I (oi_size i),
                ar_order_type = (case oi_order_type i of Limit \<Rightarrow> ''limit'' | Market \<Rightarrow> ''market''),
                ar_time_in_force = (case oi_tif i of Day \<Rightarrow> ''day'' | Gtc \<Rightarrow> ''gtc'' | Ioc \<Rightarrow> ''ioc''),
                ar_limit_price = price, ar_stop_price = None, ar_extended_hours = None,
                ar_client_order_id = Some (ai_ulid_text I (oi_id i))\<rparr>))))"

definition alpaca_order_ack :: "alpaca_io \<Rightarrow> order_intent \<Rightarrow> alpaca_order_response \<Rightarrow> 'h alpaca_order_error + order_ack" where
  "alpaca_order_ack I i r =
     (if ap_client_order_id r \<noteq> Some (ai_ulid_text I (oi_id i))
      then Inl (AoApi ''Alpaca response client_order_id did not match the submitted intent'')
      else Inr \<lparr>ak_venue_ref = ap_id r, ak_status = (case ap_status r of None \<Rightarrow> ''unknown'' | Some s \<Rightarrow> s)\<rparr>)"

definition of_alpaca :: "('h alpaca_client_error + 'a) \<times> 's \<Rightarrow> ('h alpaca_order_error + 'a) \<times> 's" where
  "of_alpaca r = (map_err AoClient (fst r), snd r)"

definition alpaca_submit_order ::
  "alpaca_io \<Rightarrow> (nat \<Rightarrow> 'h http_turn) \<Rightarrow> order_intent \<Rightarrow> alpaca_client \<Rightarrow> ('h alpaca_order_error + order_ack) \<times> alpaca_client" where
  "alpaca_submit_order I net i c =
     (case and_then (alpaca_check_demo I c) (\<lambda>_. alpaca_order_request_of I i) of
        Inl e \<Rightarrow> (Inl e, c)
      | Inr req \<Rightarrow> then_do (\<lambda>c. of_alpaca (client_submit_order I net req c)) (\<lambda>r c. (alpaca_order_ack I i r, c)) c)"

definition alpaca_cancel_order ::
  "alpaca_io \<Rightarrow> (nat \<Rightarrow> 'h http_turn) \<Rightarrow> string \<Rightarrow> alpaca_client \<Rightarrow> ('h alpaca_order_error + unit) \<times> alpaca_client" where
  "alpaca_cancel_order I net venue_ref c =
     (case and_then (alpaca_check_demo I c) (\<lambda>_. if trim_str venue_ref = [] then Inl (AoApi ''venue_ref is required'') else Inr ()) of
        Inl e \<Rightarrow> (Inl e, c)
      | Inr _ \<Rightarrow> of_alpaca (client_cancel_order I net venue_ref c))"

definition alpaca_get_balances ::
  "alpaca_io \<Rightarrow> (nat \<Rightarrow> 'h http_turn) \<Rightarrow> alpaca_client \<Rightarrow> ('h alpaca_order_error + balance_entry list) \<times> alpaca_client" where
  "alpaca_get_balances I net c =
     (case alpaca_check_demo I c of
        Inl e \<Rightarrow> (Inl e, c)
      | Inr _ \<Rightarrow>
          then_do (\<lambda>c. of_alpaca (get_account I net c))
            (\<lambda>a c. (Inr [\<lparr>be_asset = ''USD'', be_free = ac_cash a, be_locked = ''0.00''\<rparr>], c)) c)"

subsection \<open>What the client sends\<close>

lemma alpaca_request_sends:
  assumes "alpaca_request I net verb target headers body c = (r, c')"
  shows "al_base_url c' = al_base_url c \<and> al_auth c' = al_auth c
    \<and> (\<exists>qs. hc_sent (al_http c') = hc_sent (al_http c) @ qs \<and> length qs \<le> 4
         \<and> (\<forall>k. Suc k < length qs \<longrightarrow> (\<exists>reply. ht_reply (net k) = HttpReply 429 reply))
         \<and> list_all (\<lambda>q. hq_method q = verb \<and> hq_url q = target \<and> hq_body q = body) qs)"
proof (cases "auth_headers I (al_auth c)")
  case None
  with assms show ?thesis by (auto simp: alpaca_request_def)
next
  case (Some hs)
  let ?q = "\<lparr>hq_method = verb, hq_url = target, hq_headers = hs @ headers, hq_body = body\<rparr>"
  obtain v h where call: "guarded_call (ai_jitter I) net ?q (al_http c) = (v, h)" by force
  from guarded_call_retries [OF call] obtain n where "n \<le> 4" "hc_sent h = hc_sent (al_http c) @ replicate n ?q"
    "\<forall>k. Suc k < n \<longrightarrow> (\<exists>reply. ht_reply (net k) = HttpReply 429 reply)" by blast
  moreover have "c' = c\<lparr>al_http := h\<rparr>" using assms Some call by (auto simp: alpaca_request_def split: sum.splits)
  ultimately show ?thesis by (auto intro!: exI [of _ "replicate n ?q"] simp: list_all_iff)
qed

lemma alpaca_textE:
  assumes "alpaca_text p = (r, c')"
  obtains r0 where "p = (r0, c')" "r = and_then r0 (map_err AcHttp)"
  using assms by (cases p) (auto simp: alpaca_text_def)

text \<open>A client whose breaker is probing is closed: nothing leaves and every call fails.\<close>

definition closed_client :: "alpaca_client \<Rightarrow> bool" where
  "closed_client c \<longleftrightarrow> probing (hc_breaker (al_http c))"

lemma closed_request:
  "closed_client c \<Longrightarrow> alpaca_request I net verb target headers body c = (r, c') \<Longrightarrow> isl r \<and> c' = c"
  by (auto simp: alpaca_request_def closed_client_def guarded_call_probing split: option.splits)

lemma closed_text:
  "closed_client c \<Longrightarrow> alpaca_text (alpaca_request I net verb target headers body c) = (r, c') \<Longrightarrow> isl r \<and> c' = c"
proof (erule alpaca_textE)
  fix r0 assume "closed_client c" "alpaca_request I net verb target headers body c = (r0, c')" "r = and_then r0 (map_err AcHttp)"
  with closed_request [of c I net verb target headers body r0 c'] show "isl r \<and> c' = c" by (cases r0) auto
qed

lemma closed_then_do:
  assumes "closed_client c" "\<And>r c'. m c = (r, c') \<Longrightarrow> isl r \<and> c' = c" "then_do m f c = (r, c')"
  shows "isl r \<and> c' = c"
  using assms(3) assms(2) by (auto elim!: then_doE)

subsection \<open>Calls of the trading desk\<close>

datatype 'h alpaca_call =
    AlpacaSubmit "nat \<Rightarrow> 'h http_turn" order_intent
  | AlpacaCancel "nat \<Rightarrow> 'h http_turn" string
  | AlpacaBalances "nat \<Rightarrow> 'h http_turn"
  | AlpacaAssets "nat \<Rightarrow> 'h http_turn" "string option" "string option"
  | AlpacaAsset "nat \<Rightarrow> 'h http_turn" string
  | AlpacaSnapshot "nat \<Rightarrow> 'h http_turn" string

text \<open>Whether a call succeeds, and the client after it.\<close>

primrec perform_call :: "alpaca_io \<Rightarrow> 'h alpaca_call \<Rightarrow> alpaca_client \<Rightarrow> bool \<times> alpaca_client" where
  "perform_call I (AlpacaSubmit net i) c = apfst (\<lambda>r. \<not> isl r) (alpaca_submit_order I net i c)"
| "perform_call I (AlpacaCancel net ref) c = apfst (\<lambda>r. \<not> isl r) (alpaca_cancel_order I net ref c)"
| "perform_call I (AlpacaBalances net) c = apfst (\<lambda>r. \<not> isl r) (alpaca_get_balances I net c)"
| "perform_call I (AlpacaAssets net s k) c = apfst (\<lambda>r. \<not> isl r) (list_assets I net s k c)"
| "perform_call I (AlpacaAsset net s) c = apfst (\<lambda>r. \<not> isl r) (get_asset I net s c)"
| "perform_call I (AlpacaSnapshot net s) c = apfst (\<lambda>r. \<not> isl r) (get_snapshot I net s c)"

fun alpaca_calls :: "alpaca_io \<Rightarrow> 'h alpaca_call list \<Rightarrow> alpaca_client \<Rightarrow> bool list \<times> alpaca_client" where
  "alpaca_calls I [] c = ([], c)"
| "alpaca_calls I (k # ks) c =
     (case perform_call I k c of (ok, c1) \<Rightarrow> (case alpaca_calls I ks c1 of (oks, c2) \<Rightarrow> (ok # oks, c2)))"

lemma then_of_alpaca:
  assumes "then_do (\<lambda>c. of_alpaca (m c)) f c = (r, c')"
  obtains (stop) e where "m c = (Inl e, c')" "r = Inl (AoClient e)" | (go) a c1 where "m c = (Inr a, c1)" "f a c1 = (r, c')"
proof -
  obtain r0 c0 where m: "m c = (r0, c0)" by force
  show thesis
  proof (cases r0)
    case (Inl e)
    with m assms show thesis by (intro stop [of e]) (auto simp: then_do_def of_alpaca_def)
  next
    case (Inr a)
    with m assms show thesis by (intro go [of a c0]) (auto simp: then_do_def of_alpaca_def)
  qed
qed

lemma of_alpaca_fails:
  assumes "\<And>r c'. p = (r, c') \<Longrightarrow> isl r \<and> c' = c"
  shows "\<exists>e. of_alpaca p = (Inl e, c)"
proof -
  obtain r c' where p: "p = (r, c')" by force
  with assms [OF p] show ?thesis by (auto simp: of_alpaca_def isl_def)
qed

lemma closed_call:
  assumes "closed_client c"
  shows "perform_call I k c = (False, c)"
proof -
  have get: "isl r \<and> c' = c" if "alpaca_get_text I net path c = (r, c')" for net :: "nat \<Rightarrow> 'a http_turn" and path r c'
    using closed_text [OF assms that [unfolded alpaca_get_text_def]] .
  have data: "isl r \<and> c' = c" if "data_get_text I net path c = (r, c')" for net :: "nat \<Rightarrow> 'a http_turn" and path r c'
    using closed_text [OF assms that [unfolded data_get_text_def]] .
  have post: "isl r \<and> c' = c" if "alpaca_post_text I net path body c = (r, c')" for net :: "nat \<Rightarrow> 'a http_turn" and path body r c'
    using closed_text [OF assms that [unfolded alpaca_post_text_def]] .
  have del: "isl r \<and> c' = c" if "alpaca_delete_text I net path c = (r, c')" for net :: "nat \<Rightarrow> 'a http_turn" and path r c'
  proof -
    obtain r0 c0 where req: "alpaca_request I net ''DELETE'' (al_base_url c @ path)
        [(''Accept'', ''application/json''), (''User-Agent'', ''aether-venue-alpaca/0.1.0'')] None c = (r0, c0)" by force
    with that have "r = map_ok (\<lambda>_. ()) r0" "c' = c0" by (auto simp: alpaca_delete_text_def Let_def)
    with closed_request [OF assms req] show ?thesis by (cases r0) auto
  qed
  show ?thesis
  proof (cases k)
    case (AlpacaSubmit net i)
    have "isl r \<and> c' = c" if "client_submit_order I net req c = (r, c')" for req r c'
      using closed_then_do [OF assms post that [unfolded client_submit_order_def]] .
    then have fails: "\<exists>e. (of_alpaca (client_submit_order I net req c) :: ('a alpaca_order_error + alpaca_order_response) \<times> alpaca_client) = (Inl e, c)" for req
      by (rule of_alpaca_fails)
    show ?thesis
    proof (cases "and_then (alpaca_check_demo I c) (\<lambda>_. alpaca_order_request_of I i :: 'a alpaca_order_error + alpaca_order_request)")
      case (Inl e)
      then show ?thesis by (simp add: AlpacaSubmit alpaca_submit_order_def)
    next
      case (Inr req)
      with fails [of req] show ?thesis by (auto simp: AlpacaSubmit alpaca_submit_order_def then_do_def)
    qed
  next
    case (AlpacaCancel net ref)
    have "isl r \<and> c' = c" if "client_cancel_order I net ref c = (r, c')" for r c'
      using del [OF that [unfolded client_cancel_order_def]] .
    then have "\<exists>e. (of_alpaca (client_cancel_order I net ref c) :: ('a alpaca_order_error + unit) \<times> alpaca_client) = (Inl e, c)"
      by (rule of_alpaca_fails)
    then show ?thesis by (auto simp: AlpacaCancel alpaca_cancel_order_def alpaca_check_demo_def)
  next
    case (AlpacaBalances net)
    have "isl r \<and> c' = c" if "get_account I net c = (r, c')" for r c'
      using closed_then_do [OF assms get that [unfolded get_account_def]] .
    then have "\<exists>e. (of_alpaca (get_account I net c) :: ('a alpaca_order_error + alpaca_account) \<times> alpaca_client) = (Inl e, c)"
      by (rule of_alpaca_fails)
    then show ?thesis by (auto simp: AlpacaBalances alpaca_get_balances_def alpaca_check_demo_def then_do_def)
  next
    case (AlpacaAssets net s q)
    obtain r c' where run: "list_assets I net s q c = (r, c')" by force
    with closed_then_do [OF assms get run [unfolded list_assets_def]] show ?thesis by (simp add: AlpacaAssets)
  next
    case (AlpacaAsset net s)
    obtain r c' where run: "get_asset I net s c = (r, c')" by force
    with closed_then_do [OF assms get run [unfolded get_asset_def]] show ?thesis by (simp add: AlpacaAsset)
  next
    case (AlpacaSnapshot net s)
    obtain r c' where run: "get_snapshot I net s c = (r, c')" by force
    with closed_then_do [OF assms data run [unfolded get_snapshot_def]] show ?thesis by (simp add: AlpacaSnapshot)
  qed
qed

lemma closed_calls: "closed_client c \<Longrightarrow> alpaca_calls I ks c = (replicate (length ks) False, c)"
  by (induction ks) (simp_all add: closed_call)

text \<open>A call that failed, and either sent nothing or closed the client.\<close>

definition lost_call :: "alpaca_client \<Rightarrow> ('e + 'a) \<times> alpaca_client \<Rightarrow> bool" where
  "lost_call c p \<longleftrightarrow> isl (fst p) \<and> (snd p = c \<or> closed_client (snd p))"

lemma lost_refused [simp]: "lost_call c (Inl e, c)"
  by (simp add: lost_call_def)

lemma lost_then_do: "lost_call c (m c) \<Longrightarrow> lost_call c (then_do m f c)"
  by (auto simp: lost_call_def then_do_def isl_def split: prod.splits sum.splits)

lemma lost_of_alpaca: "lost_call c p \<Longrightarrow> lost_call c (of_alpaca p)"
  by (auto simp: lost_call_def of_alpaca_def isl_def)

lemma lost_request:
  assumes "breaker_due (ht_asked (net 0)) (hc_breaker (al_http c))" "unheard_reply (ht_reply (net 0))"
  shows "lost_call c (alpaca_request I net verb target headers body c)"
proof (cases "auth_headers I (al_auth c)")
  case None
  then show ?thesis by (simp add: lost_call_def alpaca_request_def)
next
  case (Some hs)
  let ?q = "\<lparr>hq_method = verb, hq_url = target, hq_headers = hs @ headers, hq_body = body\<rparr>"
  obtain v h where call: "guarded_call (ai_jitter I) net ?q (al_http c) = (v, h)" by force
  from guarded_call_lost_probe [OF assms call] have "isl v" "probing (hc_breaker h)" by simp_all
  with Some call show ?thesis
    by (auto simp: lost_call_def alpaca_request_def closed_client_def isl_def split: sum.splits)
qed

lemma isl_map_ok [simp]: "isl (map_ok f r) = isl r"
  by (cases r) simp_all

lemma lost_text: "lost_call c p \<Longrightarrow> lost_call c (alpaca_text p)"
  by (auto simp: lost_call_def alpaca_text_def isl_def)

primrec call_net :: "'h alpaca_call \<Rightarrow> nat \<Rightarrow> 'h http_turn" where
  "call_net (AlpacaSubmit net i) = net"
| "call_net (AlpacaCancel net ref) = net"
| "call_net (AlpacaBalances net) = net"
| "call_net (AlpacaAssets net s k) = net"
| "call_net (AlpacaAsset net s) = net"
| "call_net (AlpacaSnapshot net s) = net"

lemma lost_ends: "apfst (\<lambda>r. \<not> isl r) p = (ok, c1) \<Longrightarrow> lost_call c p \<Longrightarrow> \<not> ok \<and> (c1 = c \<or> closed_client c1)"
  by (cases p) (auto simp: lost_call_def)

lemma lost_perform:
  assumes "breaker_due (ht_asked (call_net k 0)) (hc_breaker (al_http c))" "unheard_reply (ht_reply (call_net k 0))"
    and "perform_call I k c = (ok, c1)"
  shows "\<not> ok \<and> (c1 = c \<or> closed_client c1)"
proof -
  have get: "lost_call c (alpaca_get_text I (call_net k) path c)" "lost_call c (data_get_text I (call_net k) path c)"
    "lost_call c (alpaca_post_text I (call_net k) path body c)" for path body
    unfolding alpaca_get_text_def data_get_text_def alpaca_post_text_def
    by (rule lost_text, rule lost_request, rule assms(1), rule assms(2))+
  have del: "lost_call c (alpaca_delete_text I (call_net k) path c)" for path
  proof -
    have "lost_call c (alpaca_request I (call_net k) ''DELETE'' target headers body c)" for target headers body
      by (rule lost_request) (rule assms)+
    then show ?thesis by (simp add: lost_call_def alpaca_delete_text_def Let_def)
  qed
  show ?thesis
  proof (cases k)
    case (AlpacaSubmit net i)
    have "lost_call c (of_alpaca (client_submit_order I (call_net k) req c))" for req
      unfolding client_submit_order_def by (intro lost_of_alpaca lost_then_do get)
    then have L: "lost_call c (alpaca_submit_order I (call_net k) i c)"
      by (auto simp: alpaca_submit_order_def intro: lost_then_do split: sum.split)
    show ?thesis using assms(3) by (intro lost_ends [OF _ L]) (simp add: AlpacaSubmit)
  next
    case (AlpacaCancel net ref)
    have "lost_call c (of_alpaca (client_cancel_order I (call_net k) ref c))"
      unfolding client_cancel_order_def by (intro lost_of_alpaca del)
    then have L: "lost_call c (alpaca_cancel_order I (call_net k) ref c)"
      by (auto simp: alpaca_cancel_order_def split: sum.split)
    show ?thesis using assms(3) by (intro lost_ends [OF _ L]) (simp add: AlpacaCancel)
  next
    case (AlpacaBalances net)
    have "lost_call c (of_alpaca (get_account I (call_net k) c))"
      unfolding get_account_def by (intro lost_of_alpaca lost_then_do get)
    then have L: "lost_call c (alpaca_get_balances I (call_net k) c)"
      by (auto simp: alpaca_get_balances_def intro: lost_then_do split: sum.split)
    show ?thesis using assms(3) by (intro lost_ends [OF _ L]) (simp add: AlpacaBalances)
  next
    case (AlpacaAssets net s q)
    have L: "lost_call c (list_assets I (call_net k) s q c)" unfolding list_assets_def by (intro lost_then_do get)
    show ?thesis using assms(3) by (intro lost_ends [OF _ L]) (simp add: AlpacaAssets)
  next
    case (AlpacaAsset net s)
    have L: "lost_call c (get_asset I (call_net k) s c)" unfolding get_asset_def by (intro lost_then_do get)
    show ?thesis using assms(3) by (intro lost_ends [OF _ L]) (simp add: AlpacaAsset)
  next
    case (AlpacaSnapshot net s)
    have L: "lost_call c (get_snapshot I (call_net k) s c)" unfolding get_snapshot_def by (intro lost_then_do get)
    show ?thesis using assms(3) by (intro lost_ends [OF _ L]) (simp add: AlpacaSnapshot)
  qed
qed

text \<open>
  Property C37. When the breaker has opened and its reset time has passed, one request is let through. If
  that request, of whichever call, is answered with a status that is neither a success nor 429 or fails on
  the way, the breaker is never told: the call fails, and from then on every call of the client, orders,
  cancellations, balances and market data, is refused without a request, at any later time.
\<close>

theorem lost_probe_closes_alpaca:
  assumes "breaker_due (ht_asked (call_net k 0)) (hc_breaker (al_http c))"
    and "case ht_reply (call_net k 0) of HttpFailed e \<Rightarrow> True | HttpReply status body \<Rightarrow> status \<noteq> 429 \<and> \<not> (200 \<le> status \<and> status < 300)"
    and "perform_call I k c = (ok, c1)" "hc_sent (al_http c1) \<noteq> hc_sent (al_http c)"
  shows "\<not> ok \<and> alpaca_calls I calls c1 = (replicate (length calls) False, c1)"
proof -
  have "unheard_reply (ht_reply (call_net k 0))"
    using assms(2) by (simp add: unheard_reply_def is_success_def split: http_reply.splits)
  from lost_perform [OF assms(1) this assms(3)] assms(4) have "\<not> ok" "closed_client c1" by auto
  with closed_calls show ?thesis by blast
qed

subsection \<open>Orders are paper orders\<close>

text \<open>
  Property C34. A submission sends at most four requests, repeated only after status 429, and any only for
  an intent marked as paper that buys or sells, from a client whose host is the venue's paper host or
  this machine; all have the same body: the intent's symbol in capitals, its side, size, type and time in
  force under its id, and its limit price if it has one, which a limit order must have.
\<close>

theorem alpaca_orders_are_paper:
  fixes net :: "nat \<Rightarrow> 'h http_turn"
  assumes "alpaca_submit_order I net i c = (r, c')"
  shows "\<exists>qs. hc_sent (al_http c') = hc_sent (al_http c) @ qs \<and> length qs \<le> 4
    \<and> (\<forall>k. Suc k < length qs \<longrightarrow> (\<exists>reply. ht_reply (net k) = HttpReply 429 reply))
    \<and> list_all (\<lambda>q. oi_paper i
        \<and> ai_host I (al_base_url c) \<in> {Some ''paper-api.alpaca.markets'', Some ''localhost'', Some ''127.0.0.1''}
        \<and> hq_url q = al_base_url c @ ''/v2/orders''
        \<and> 0 < oi_size i \<and> (oi_order_type i = Limit \<longrightarrow> oi_limit_price i \<noteq> None)
        \<and> (\<exists>symbol bs. native_ticker ''mkt:alpaca:'' (oi_market i) = Some symbol
             \<and> (oi_side i = Buy \<and> bs = ''buy'' \<or> oi_side i = Sell \<and> bs = ''sell'')
             \<and> hq_body q = Some (ai_json_text I (alpaca_order_json
                 \<lparr>ar_symbol = to_upper symbol, ar_side = bs, ar_qty = ai_decimal_text I (oi_size i),
                   ar_order_type = (if oi_order_type i = Limit then ''limit'' else ''market''),
                   ar_time_in_force = (if oi_tif i = Day then ''day'' else if oi_tif i = Gtc then ''gtc'' else ''ioc''),
                   ar_limit_price = map_option (ai_decimal_text I) (oi_limit_price i), ar_stop_price = None, ar_extended_hours = None,
                   ar_client_order_id = Some (ai_ulid_text I (oi_id i))\<rparr>)))) qs"
    (is "\<exists>qs. _ \<and> _ \<and> _ \<and> list_all ?good qs")
proof (cases "and_then (alpaca_check_demo I c) (\<lambda>_. alpaca_order_request_of I i :: 'h alpaca_order_error + alpaca_order_request)")
  case (Inl e)
  with assms show ?thesis by (simp add: alpaca_submit_order_def)
next
  case (Inr req)
  from assms Inr obtain r0 where "client_submit_order I net req c = (r0, c')"
    by (auto simp: alpaca_submit_order_def elim!: then_of_alpaca)
  then obtain r1 where "alpaca_post_text I net ''/v2/orders'' (ai_json_text I (alpaca_order_json req)) c = (r1, c')"
    by (auto simp: client_submit_order_def elim!: then_doE)
  then obtain r2 where "alpaca_request I net ''POST'' (al_base_url c @ ''/v2/orders'') (json_headers ''aether-venue-alpaca/0.1.0'')
      (Some (ai_json_text I (alpaca_order_json req))) c = (r2, c')"
    by (auto simp: alpaca_post_text_def elim!: alpaca_textE)
  from alpaca_request_sends [OF this] obtain qs where qs: "hc_sent (al_http c') = hc_sent (al_http c) @ qs" "length qs \<le> 4"
    "\<forall>k. Suc k < length qs \<longrightarrow> (\<exists>reply. ht_reply (net k) = HttpReply 429 reply)"
    "list_all (\<lambda>q. hq_url q = al_base_url c @ ''/v2/orders'' \<and> hq_body q = Some (ai_json_text I (alpaca_order_json req))) qs"
    by (auto simp: list_all_iff)
  have demo: "ai_host I (al_base_url c) \<in> {Some ''paper-api.alpaca.markets'', Some ''localhost'', Some ''127.0.0.1''}" "(alpaca_order_request_of I i :: 'h alpaca_order_error + alpaca_order_request) = Inr req"
    using Inr by (auto simp: and_then_Inr_iff alpaca_check_demo_def is_paper_endpoint_def split: if_splits option.splits)
  then have "hq_url q = al_base_url c @ ''/v2/orders'' \<and> hq_body q = Some (ai_json_text I (alpaca_order_json req)) \<Longrightarrow> ?good q" for q
    by (cases "oi_limit_price i"; cases "oi_order_type i"; cases "oi_tif i")
      (auto simp: alpaca_order_request_of_def and_then_Inr_iff ok_or_Inr_iff alpaca_side_def alpaca_limit_price_def split: if_splits side.splits)
  with qs show ?thesis by (auto simp: list_all_iff)
qed

subsection \<open>Witnesses\<close>

definition alpaca_sample_io :: alpaca_io where
  "alpaca_sample_io =
     \<lparr>ai_jitter = id, ai_header_value = (\<lambda>_. True), ai_encode_url = id,
       ai_host = (\<lambda>u. if u = ''http://localhost'' then Some ''localhost'' else None), ai_json_text = (\<lambda>_. ''{}''),
       ai_assets = (\<lambda>_. Inl []), ai_asset = (\<lambda>_. Inl []), ai_snapshot = (\<lambda>_. Inl []), ai_account = (\<lambda>_. Inl []),
       ai_order_response = (\<lambda>_. Inl ''no response''), ai_decimal_text = (\<lambda>_. ''1''), ai_ulid_text = (\<lambda>_. ''id'')\<rparr>"

definition alpaca_sample_client :: alpaca_client where
  "alpaca_sample_client =
     (alpaca_client_new ''http://localhost/'' ''http://localhost'' \<lparr>aa_key_id = ''key'', aa_secret_key = ''secret''\<rparr>)
       \<lparr>al_http := http_client_new\<lparr>hc_breaker := breaker_new\<lparr>cb_state := BreakerOpened, cb_opened_at := Some (- spec_default_reset)\<rparr>\<rparr>\<rparr>"

lemma alpaca_sample_sel:
  "is_paper_endpoint alpaca_sample_io alpaca_sample_client" "auth_headers alpaca_sample_io (al_auth alpaca_sample_client) \<noteq> None"
  "breaker_due 0 (hc_breaker (al_http alpaca_sample_client))" "hc_sent (al_http alpaca_sample_client) = []"
  by (simp_all add: is_paper_endpoint_def alpaca_sample_client_def alpaca_client_new_def trim_slashes_def alpaca_sample_io_def
      auth_headers_def breaker_due_def http_client_new_def)

lemma alpaca_probe_sent:
  "\<exists>e c1. alpaca_request alpaca_sample_io (\<lambda>_. refused_turn) verb target headers body alpaca_sample_client = (Inl e, c1)
     \<and> hc_sent (al_http c1) \<noteq> hc_sent (al_http alpaca_sample_client)"
proof -
  obtain hs where hs: "auth_headers alpaca_sample_io (al_auth alpaca_sample_client) = Some hs" using alpaca_sample_sel(2) by auto
  let ?q = "\<lparr>hq_method = verb, hq_url = target, hq_headers = hs @ headers, hq_body = body\<rparr>"
  obtain v h where call: "guarded_call (ai_jitter alpaca_sample_io) (\<lambda>_. refused_turn) ?q (al_http alpaca_sample_client) = (v, h)" by force
  have "breaker_due (ht_asked refused_turn) (hc_breaker (al_http alpaca_sample_client))" "unheard_reply (ht_reply refused_turn)"
    using alpaca_sample_sel(3) by (simp_all add: refused_turn_def unheard_reply_def is_success_def)
  from guarded_call_lost_probe [OF this call] have "isl v" "hc_sent h = hc_sent (al_http alpaca_sample_client) @ [?q]" by simp_all
  with hs call show ?thesis by (auto simp: alpaca_request_def isl_def)
qed

theorem lost_probe_closes_alpaca_witness:
  "\<exists>c1. perform_call alpaca_sample_io (AlpacaBalances (\<lambda>_. refused_turn)) alpaca_sample_client = (False, c1)
    \<and> alpaca_calls alpaca_sample_io [AlpacaCancel (\<lambda>_. refused_turn) ''a1'', AlpacaBalances (\<lambda>_. refused_turn)] c1 = ([False, False], c1)"
proof -
  obtain ok c1 where run: "perform_call alpaca_sample_io (AlpacaBalances (\<lambda>_. refused_turn)) alpaca_sample_client = (ok, c1)" by force
  obtain e c2 where req: "alpaca_request alpaca_sample_io (\<lambda>_. refused_turn) ''GET'' (al_base_url alpaca_sample_client @ ''/v2/account'')
      (json_headers ''aether-venue-alpaca/0.1.0'') None alpaca_sample_client = (Inl e, c2)"
    and sent: "hc_sent (al_http c2) \<noteq> hc_sent (al_http alpaca_sample_client)" using alpaca_probe_sent by blast
  have "c1 = c2"
    using run req alpaca_sample_sel(1)
    by (simp add: alpaca_get_balances_def alpaca_check_demo_def get_account_def alpaca_get_text_def alpaca_text_def of_alpaca_def then_do_def)
  with sent have sent': "hc_sent (al_http c1) \<noteq> hc_sent (al_http alpaca_sample_client)" by simp
  have "breaker_due (ht_asked (call_net (AlpacaBalances (\<lambda>_. refused_turn)) 0)) (hc_breaker (al_http alpaca_sample_client))"
    using alpaca_sample_sel(3) by (simp add: refused_turn_def)
  from lost_probe_closes_alpaca [OF this _ run sent', of "[AlpacaCancel (\<lambda>_. refused_turn) ''a1'', AlpacaBalances (\<lambda>_. refused_turn)]"] run
  show ?thesis by (auto simp: refused_turn_def numeral_2_eq_2)
qed

theorem alpaca_orders_are_paper_witness:
  "\<exists>r c' qs. alpaca_submit_order alpaca_sample_io (\<lambda>_. refused_turn) (order_sample_intent ''mkt:alpaca:aapl'') alpaca_sample_client = (r, c')
    \<and> hc_sent (al_http c') = qs \<and> length qs \<le> 4 \<and> list_all (\<lambda>q. \<exists>path. hq_url q = al_base_url alpaca_sample_client @ path) qs"
proof -
  obtain r c' where run: "alpaca_submit_order alpaca_sample_io (\<lambda>_. refused_turn) (order_sample_intent ''mkt:alpaca:aapl'')
      alpaca_sample_client = (r, c')" by force
  from alpaca_orders_are_paper [OF run] run alpaca_sample_sel(4) show ?thesis by (auto simp: list_all_iff)
qed

end
