(* ===== verification/Alpaca_Stream.thy ===== *)
theory Alpaca_Stream
  imports Alpaca_Client
begin

text \<open>
  The normalizer of the Alpaca venue pack (\<^verbatim>\<open>connectors/venues/alpaca/src/normalize.rs\<close>) and its WebSocket
  client (\<^verbatim>\<open>ws.rs\<close>): the handshake, the frames, and the endless loop that publishes quotes. The lemmas show
  what a quote is, that one bad event silences its frame, and that the handshake takes the venue's
  greeting for a refusal.
\<close>

subsection \<open>Normalization (normalize.rs)\<close>

datatype alpaca_error =
    AnMissingSymbol
  | AnUnknownStatus string
  | AnMarketKey market_key_error
  | AnJsonObject json_object_error
  | AnTimestampParse string string
  | AnDecimalParse string string
  | AnNoData string
  | AnPanic

primrec alpaca_error_text :: "alpaca_error \<Rightarrow> string" where
  "alpaca_error_text AnMissingSymbol = ''asset has no symbol''"
| "alpaca_error_text (AnUnknownStatus s) = ''unknown Alpaca status '' @ apostrophe s"
| "alpaca_error_text (AnMarketKey e) = ''invalid MarketKey: '' @ market_key_error_text e"
| "alpaca_error_text (AnJsonObject e) = ''venue_ref construction failed: '' @ json_object_error_text e"
| "alpaca_error_text (AnTimestampParse raw d) = ''timestamp parse error for '' @ apostrophe raw @ '': '' @ d"
| "alpaca_error_text (AnDecimalParse raw d) = ''invalid decimal '' @ apostrophe raw @ '': '' @ d"
| "alpaca_error_text (AnNoData symbol) = ''snapshot has no trade or quote data for '' @ symbol"
| "alpaca_error_text AnPanic = []"

definition alpaca_venue :: "alpaca_error + venue_id" where
  "alpaca_venue = map_err (\<lambda>e. case e of VenueIdError raw \<Rightarrow> AnMarketKey (MarketKeyError raw)) (venue_id_new ''alpaca'')"

definition alpaca_status :: "string \<Rightarrow> alpaca_error + market_status" where
  "alpaca_status s =
     (if s = ''active'' then Inr Open else if s = ''inactive'' then Inr Closed else Inl (AnUnknownStatus s))"

definition alpaca_asset_json :: "alpaca_asset \<Rightarrow> json" where
  "alpaca_asset_json a = JObject
     [(''id'', JString (aa_id a)), (''class'', JString (aa_asset_class a)), (''exchange'', JString (aa_exchange a)),
      (''symbol'', JString (aa_symbol a)), (''name'', JString (aa_name a)), (''status'', JString (aa_status a)),
      (''tradable'', JBool (aa_tradable a)), (''marginable'', JBool (aa_marginable a)), (''shortable'', JBool (aa_shortable a)),
      (''easy_to_borrow'', JBool (aa_easy_to_borrow a)), (''fractionable'', JBool (aa_fractionable a)),
      (''maintenance_margin_requirement'', json_opt json_int (aa_maintenance_margin a))]"

definition alpaca_asset_meta :: "alpaca_asset \<Rightarrow> json" where
  "alpaca_asset_meta a = JObject
     [(''exchange'', JString (aa_exchange a)), (''asset_class'', JString (aa_asset_class a)), (''tradable'', JBool (aa_tradable a)),
      (''marginable'', JBool (aa_marginable a)), (''shortable'', JBool (aa_shortable a)), (''easy_to_borrow'', JBool (aa_easy_to_borrow a)),
      (''fractionable'', JBool (aa_fractionable a)), (''maintenance_margin_requirement'', json_opt json_int (aa_maintenance_margin a))]"

definition normalize_asset :: "alpaca_asset \<Rightarrow> alpaca_error + market" where
  "normalize_asset a =
     (let symbol = trim_str (aa_symbol a)
      in if symbol = [] then Inl AnMissingSymbol
         else
           and_then alpaca_venue (\<lambda>venue.
           and_then (map_err AnMarketKey (market_key_new venue (to_lower symbol))) (\<lambda>key.
           and_then (alpaca_status (aa_status a)) (\<lambda>status.
           and_then (map_err AnJsonObject (json_object_new (alpaca_asset_json a))) (\<lambda>ref.
           and_then (map_err AnJsonObject (json_object_new (alpaca_asset_meta a))) (\<lambda>meta.
             Inr \<lparr>m_key = key, m_venue = venue, m_kind = Equity, m_title = aa_name a, m_description_ref = aa_exchange a,
               m_status = status, m_close_ts = None, m_resolve_ts = None, m_outcome = None, m_jurisdiction_flags = [''US''],
               m_venue_ref = ref, m_meta = meta\<rparr>))))))"

definition parse_optional_decimal :: "venue_parsers \<Rightarrow> string \<Rightarrow> bool \<Rightarrow> string option \<Rightarrow> alpaca_error + decimal option" where
  "parse_optional_decimal P field require_positive raw =
     transpose_map (\<lambda>s.
       and_then (map_err (AnDecimalParse s) (vp_decimal P s)) (\<lambda>v.
         if (if require_positive then 0 < v else 0 \<le> v) then Inr v
         else Inl (AnDecimalParse s (field @ '' must be '' @ (if require_positive then ''positive'' else ''non-negative''))))) raw"

definition alpaca_iso8601 :: "venue_parsers \<Rightarrow> string \<Rightarrow> alpaca_error + utc_time" where
  "alpaca_iso8601 P ts = map_err (AnTimestampParse ts) (vp_time_json P (quoted ts))"

text \<open>Bid, ask, their sizes and the time of a quote; the last price and the time of a trade.\<close>

definition quote_part ::
  "venue_parsers \<Rightarrow> alpaca_quote option
     \<Rightarrow> alpaca_error + (decimal option \<times> decimal option \<times> decimal option \<times> decimal option \<times> utc_time option)" where
  "quote_part P v =
     (case v of
        None \<Rightarrow> Inr (None, None, None, None, None)
      | Some q \<Rightarrow>
          and_then (parse_optional_decimal P ''bid price'' True (aq_bp q)) (\<lambda>bid.
          and_then (parse_optional_decimal P ''ask price'' True (aq_ap q)) (\<lambda>ask.
          and_then (parse_optional_decimal P ''bid size'' False (aq_bs q)) (\<lambda>bid_size.
          and_then (parse_optional_decimal P ''ask size'' False (aq_ask_size q)) (\<lambda>ask_size.
            map_ok (\<lambda>ts. (bid, ask, bid_size, ask_size, ts)) (transpose_map (alpaca_iso8601 P) (aq_t q)))))))"

definition trade_part ::
  "venue_parsers \<Rightarrow> alpaca_trade option \<Rightarrow> utc_time option \<Rightarrow> alpaca_error + (decimal option \<times> utc_time option)" where
  "trade_part P v ts =
     (case v of
        None \<Rightarrow> Inr (None, ts)
      | Some t \<Rightarrow>
          and_then (parse_optional_decimal P ''last price'' True (at_p t)) (\<lambda>last_price.
            if ts = None then map_ok (Pair last_price) (transpose_map (alpaca_iso8601 P) (at_t t)) else Inr (last_price, ts)))"

definition alpaca_mid :: "dec_ops \<Rightarrow> decimal option \<Rightarrow> decimal option \<Rightarrow> alpaca_error + decimal option" where
  "alpaca_mid D bid ask =
     (case (bid, ask) of
        (Some b, Some a) \<Rightarrow> map_ok Some (ok_or AnPanic (Option.bind (dec_add D b a) (\<lambda>s. dec_div D s 2)))
      | _ \<Rightarrow> Inr None)"

definition normalize_snapshot_with_source ::
  "dec_ops \<Rightarrow> venue_parsers \<Rightarrow> quote_source \<Rightarrow> alpaca_snapshot \<Rightarrow> alpaca_error + quote" where
  "normalize_snapshot_with_source D P source raw =
     (let symbol = trim_str (case as_symbol raw of None \<Rightarrow> [] | Some s \<Rightarrow> s)
      in if symbol = [] then Inl AnMissingSymbol
         else
           and_then alpaca_venue (\<lambda>venue.
           and_then (map_err AnMarketKey (market_key_new venue (to_lower symbol))) (\<lambda>market.
           and_then (quote_part P (as_latest_quote raw)) (\<lambda>(bid, ask, bid_size, ask_size, ts0).
           and_then (trade_part P (as_latest_trade raw) ts0) (\<lambda>(last_price, ts).
             if bid = None \<and> ask = None \<and> last_price = None then Inl (AnNoData symbol)
             else
               and_then (alpaca_mid D bid ask) (\<lambda>mid.
                 Inr \<lparr>q_market = market, q_bid = bid, q_ask = ask, q_mid = mid, q_last = last_price, q_bid_size = bid_size,
                   q_ask_size = ask_size, q_ts = (case ts of None \<Rightarrow> vp_now P | Some t \<Rightarrow> t), q_source = source, q_seq = None\<rparr>))))))"

definition normalize_snapshot :: "dec_ops \<Rightarrow> venue_parsers \<Rightarrow> alpaca_snapshot \<Rightarrow> alpaca_error + quote" where
  "normalize_snapshot D P = normalize_snapshot_with_source D P Poll"

definition normalize_stream_snapshot :: "dec_ops \<Rightarrow> venue_parsers \<Rightarrow> alpaca_snapshot \<Rightarrow> alpaca_error + quote" where
  "normalize_stream_snapshot D P = normalize_snapshot_with_source D P Stream"

subsection \<open>Frames (ws.rs)\<close>

datatype 'k alpaca_stream_error =
    AsAuth string
  | AsConnection string
  | AsProtocol string
  | AsSerialization string
  | AsNormalize alpaca_error
  | AsProducer "'k producer_error"
  | AsQuarantine "'k quarantine_error"
  | AsBreakerOpen nat
  | AsAuthFailed string

definition string_field :: "json \<Rightarrow> string \<Rightarrow> string option" where
  "string_field v field = Option.bind (json_get field v) json_str"

definition message_type :: "json \<Rightarrow> string" where
  "message_type v = (case string_field v ''T'' of None \<Rightarrow> [] | Some t \<Rightarrow> t)"

definition required_symbol :: "json \<Rightarrow> string + string" where
  "required_symbol v =
     (case string_field v ''S'' of
        None \<Rightarrow> Inl ''trade/quote message has no symbol field''
      | Some s \<Rightarrow> if trim_str s = [] then Inl ''trade/quote message has no symbol field'' else Inr s)"

definition decimal_field :: "(json \<Rightarrow> string) \<Rightarrow> json \<Rightarrow> string \<Rightarrow> string + string option" where
  "decimal_field json_text v field =
     (case json_get field v of
        None \<Rightarrow> Inr None
      | Some JNull \<Rightarrow> Inr None
      | Some (JNumber n) \<Rightarrow> Inr (Some n)
      | Some (JString s) \<Rightarrow> Inr (Some s)
      | Some other \<Rightarrow> Inl (''field '' @ apostrophe field @ '' must be a decimal number or string, got '' @ json_text other))"

definition trade_snapshot :: "(json \<Rightarrow> string) \<Rightarrow> json \<Rightarrow> string + alpaca_snapshot" where
  "trade_snapshot json_text v =
     and_then (required_symbol v) (\<lambda>symbol.
     and_then (decimal_field json_text v ''p'') (\<lambda>p.
     and_then (decimal_field json_text v ''s'') (\<lambda>s.
       Inr \<lparr>as_symbol = Some symbol,
         as_latest_trade = Some \<lparr>at_t = string_field v ''t'', at_x = string_field v ''x'', at_p = p, at_s = s, at_c = None, at_i = None,
           at_z = None\<rparr>,
         as_latest_quote = None\<rparr>)))"

definition quote_snapshot :: "(json \<Rightarrow> string) \<Rightarrow> json \<Rightarrow> string + alpaca_snapshot" where
  "quote_snapshot json_text v =
     and_then (required_symbol v) (\<lambda>symbol.
     and_then (decimal_field json_text v ''ap'') (\<lambda>ap.
     and_then (decimal_field json_text v ''bp'') (\<lambda>bp.
     and_then (decimal_field json_text v ''as'') (\<lambda>ask_size.
     and_then (decimal_field json_text v ''bs'') (\<lambda>bs.
       Inr \<lparr>as_symbol = Some symbol, as_latest_trade = None,
         as_latest_quote = Some \<lparr>aq_t = string_field v ''t'', aq_ax = None, aq_ap = ap, aq_ask_size = ask_size, aq_bx = None, aq_bp = bp,
           aq_bs = bs, aq_c = None\<rparr>\<rparr>)))))"

fun frame_snapshots :: "(json \<Rightarrow> string) \<Rightarrow> json list \<Rightarrow> string + alpaca_snapshot list" where
  "frame_snapshots json_text [] = Inr []"
| "frame_snapshots json_text (v # vs) =
     (if message_type v = ''t'' then and_then (trade_snapshot json_text v) (\<lambda>s. map_ok (Cons s) (frame_snapshots json_text vs))
      else if message_type v = ''q'' then and_then (quote_snapshot json_text v) (\<lambda>s. map_ok (Cons s) (frame_snapshots json_text vs))
      else frame_snapshots json_text vs)"

definition alpaca_ws_message ::
  "(string \<Rightarrow> string + json list) \<Rightarrow> (json \<Rightarrow> string) \<Rightarrow> ws_input \<Rightarrow> 'k alpaca_stream_error + alpaca_snapshot list" where
  "alpaca_ws_message decode json_text i =
     (case i of
        WsText raw \<Rightarrow> and_then (map_err AsSerialization (decode raw)) (\<lambda>vs. map_err AsSerialization (frame_snapshots json_text vs))
      | _ \<Rightarrow> Inr [])"

subsection \<open>The handshake\<close>

fun auth_content :: "json list \<Rightarrow> string option" where
  "auth_content [] = None"
| "auth_content (v # vs) =
     (if message_type v = ''success'' then
        (case string_field v ''msg'' of
           Some m \<Rightarrow> if m = ''authenticated'' \<or> m = ''connected'' then Some m else auth_content vs
         | None \<Rightarrow> auth_content vs)
      else if message_type v = ''error'' then
        (case string_field v ''msg'' of Some m \<Rightarrow> Some (''error: '' @ m) | None \<Rightarrow> auth_content vs)
      else auth_content vs)"

definition check_auth_response :: "(string \<Rightarrow> string + json list) \<Rightarrow> string \<Rightarrow> string option" where
  "check_auth_response decode raw = (case decode raw of Inl _ \<Rightarrow> None | Inr vs \<Rightarrow> auth_content vs)"

text \<open>What arrives while the client waits, each with the time when the loop looks at its deadline; a
  \<open>WsTimer\<close> is a second without a message. \<open>None\<close>: it still waits.\<close>

fun await_auth :: "(string \<Rightarrow> string + json list) \<Rightarrow> int \<Rightarrow> (int \<times> ws_input) list \<Rightarrow> ('k alpaca_stream_error + unit) option" where
  "await_auth decode deadline [] = None"
| "await_auth decode deadline ((now, i) # rest) =
     (if deadline \<le> now then Some (Inl (AsAuthFailed ''auth timeout after 10s''))
      else case i of
        WsText raw \<Rightarrow>
          (case check_auth_response decode raw of
             None \<Rightarrow> await_auth decode deadline rest
           | Some response \<Rightarrow> Some (if response = ''authenticated'' then Inr () else Inl (AsAuthFailed response)))
      | WsError e \<Rightarrow> Some (Inl (AsConnection e))
      | WsEnd \<Rightarrow> Some (Inl (AsConnection ''WebSocket closed during auth''))
      | _ \<Rightarrow> await_auth decode deadline rest)"

text \<open>An attempt to connect: refused, or with the time when the wait starts, whether the credentials could
  be sent, what arrives before and what after the handshake.\<close>

record alpaca_connection =
  an_start :: int
  an_sent :: "string + unit"
  an_auth :: "(int \<times> ws_input) list"
  an_around :: surroundings
  an_inputs :: "(surroundings \<times> ws_input) list"

record alpaca_attempt =
  ae_asked :: int
  ae_heard :: int
  ae_checked :: int
  ae_connection :: "string + alpaca_connection"

definition auth_timeout :: int where
  "auth_timeout = 10 * 1000000000"

definition auth_message :: "alpaca_auth \<Rightarrow> json" where
  "auth_message A = JObject [(''action'', JString ''auth''), (''key'', JString (aa_key_id A)), (''secret'', JString (aa_secret_key A))]"

definition subscribe_message :: "string list \<Rightarrow> string list \<Rightarrow> json" where
  "subscribe_message trades quotes = JObject
     ([(''action'', JString ''subscribe'')] @ (if trades = [] then [] else [(''trades'', JArray (map JString trades))])
      @ (if quotes = [] then [] else [(''quotes'', JArray (map JString quotes))]))"

subsection \<open>The loop\<close>

record ('p, 'q, 'o) alpaca_feed =
  af_attempt :: nat
  af_breaker :: circuit_breaker
  af_commands :: "json list"
  af_sleeps :: "nat list"
  af_producer :: 'p
  af_quarantine :: "('q, 'o) quarantine_state"

record ('k, 'p, 'q, 'o) alpaca_env =
  ae_ops :: dec_ops
  ae_parsers :: venue_parsers
  ae_jitter :: "nat \<Rightarrow> nat"
  ae_auth :: alpaca_auth
  ae_symbols :: "string list"
  ae_decode :: "string \<Rightarrow> string + json list"
  ae_json_text :: "json \<Rightarrow> string"
  ae_send_quote :: "('k, quote envelope, 'p) producer"
  ae_send_quarantine :: "('k, quarantine_message envelope, 'q) producer"
  ae_store :: "('k, 'o) object_store"

definition alpaca_feed_new :: "'p \<Rightarrow> ('q, 'o) quarantine_state \<Rightarrow> ('p, 'q, 'o) alpaca_feed" where
  "alpaca_feed_new p q =
     \<lparr>af_attempt = 0, af_breaker = breaker_new, af_commands = [], af_sleeps = [], af_producer = p, af_quarantine = q\<rparr>"

definition alpaca_backoff :: "(nat \<Rightarrow> nat) \<Rightarrow> nat \<Rightarrow> nat" where
  "alpaca_backoff jitter attempt =
     delay_for_attempt jitter
       \<lparr>br_max_attempts = 5, br_base_delay = duration_millis 200, br_max_delay = duration_millis 30000\<rparr> attempt"

definition alpaca_quarantine ::
  "('k, 'p, 'q, 'o) alpaca_env \<Rightarrow> surroundings \<Rightarrow> string \<Rightarrow> u8 list \<Rightarrow> ('p, 'q, 'o) alpaca_feed
     \<Rightarrow> 'k alpaca_stream_error flow \<times> ('p, 'q, 'o) alpaca_feed" where
  "alpaca_quarantine E S reason raw f =
     (case quarantine_publish (ae_send_quarantine E) (ae_store E) (su_quarantine S) ''alpaca'' reason raw (af_quarantine f) of
        (Inl e, q) \<Rightarrow> (Stop (AsQuarantine e), f\<lparr>af_quarantine := q\<rparr>)
      | (Inr _, q) \<Rightarrow> (Go, f\<lparr>af_quarantine := q\<rparr>))"

definition alpaca_publish ::
  "('k, 'p, 'q, 'o) alpaca_env \<Rightarrow> surroundings \<Rightarrow> u8 list \<Rightarrow> alpaca_snapshot \<Rightarrow> ('p, 'q, 'o) alpaca_feed
     \<Rightarrow> 'k alpaca_stream_error flow \<times> ('p, 'q, 'o) alpaca_feed" where
  "alpaca_publish E S raw s f =
     (case normalize_stream_snapshot (ae_ops E) ((ae_parsers E)\<lparr>vp_now := su_now S\<rparr>) s of
        Inr q \<Rightarrow>
          (case ae_send_quote E ''md.ticks.alpaca'' (envelope_new (su_trace S) (su_now_text S) ''quote'' q)
                 (Some (key_str (q_market q))) (af_producer f) of
             (Inl e, p) \<Rightarrow> (Stop (AsProducer e), f\<lparr>af_producer := p\<rparr>)
           | (Inr _, p) \<Rightarrow> (Go, f\<lparr>af_producer := p\<rparr>))
      | Inl AnPanic \<Rightarrow> (Panicked, f)
      | Inl e \<Rightarrow> alpaca_quarantine E S (alpaca_error_text e) raw f)"

definition alpaca_step ::
  "('k, 'p, 'q, 'o) alpaca_env \<Rightarrow> surroundings \<Rightarrow> ws_input \<Rightarrow> ('p, 'q, 'o) alpaca_feed
     \<Rightarrow> 'k alpaca_stream_error flow \<times> ('p, 'q, 'o) alpaca_feed" where
  "alpaca_step E S i f =
     (case i of
        WsError e \<Rightarrow> (Drop, f)
      | WsEnd \<Rightarrow> (Drop, f)
      | _ \<Rightarrow>
          (case alpaca_ws_message (ae_decode E) (ae_json_text E) i :: 'k alpaca_stream_error + alpaca_snapshot list of
             Inr snapshots \<Rightarrow> each_go (alpaca_publish E S (message_bytes i)) snapshots f
           | Inl (AsSerialization e) \<Rightarrow> alpaca_quarantine E S (''serialization error: '' @ e) (message_bytes i) f
           | Inl e \<Rightarrow> (Go, f)))"

text \<open>Connecting: the result, \<open>None\<close> while it waits, and the commands that were sent.\<close>

definition alpaca_connect ::
  "('k, 'p, 'q, 'o) alpaca_env \<Rightarrow> string + alpaca_connection \<Rightarrow> ('p, 'q, 'o) alpaca_feed
     \<Rightarrow> ('k alpaca_stream_error + alpaca_connection) option \<times> ('p, 'q, 'o) alpaca_feed" where
  "alpaca_connect E a f =
     (case a of
        Inl e \<Rightarrow> (Some (Inl (AsConnection e)), f)
      | Inr n \<Rightarrow>
          (case an_sent n of
             Inl e \<Rightarrow> (Some (Inl (AsConnection e)), f)
           | Inr _ \<Rightarrow>
               (map_option (map_ok (\<lambda>_. n)) (await_auth (ae_decode E) (an_start n + auth_timeout) (an_auth n)),
                f\<lparr>af_commands := af_commands f @ [auth_message (ae_auth E)]\<rparr>)))"

definition subscribe_all ::
  "string list \<Rightarrow> surroundings \<Rightarrow> ('p, 'q, 'o) alpaca_feed \<Rightarrow> ('k alpaca_stream_error + unit) \<times> ('p, 'q, 'o) alpaca_feed" where
  "subscribe_all symbols S f =
     (case su_sent S of
        Inl e \<Rightarrow> (Inl (AsProtocol e), f)
      | Inr _ \<Rightarrow> (Inr (), f\<lparr>af_commands := af_commands f @ [subscribe_message symbols symbols]\<rparr>))"

definition alpaca_round ::
  "('k, 'p, 'q, 'o) alpaca_env \<Rightarrow> alpaca_attempt \<Rightarrow> ('p, 'q, 'o) alpaca_feed \<Rightarrow> 'k alpaca_stream_error flow \<times> ('p, 'q, 'o) alpaca_feed" where
  "alpaca_round E a f =
     (case allow_request (ae_asked a) (af_breaker f) of
        (False, b) \<Rightarrow> (Stop (AsBreakerOpen 5), f\<lparr>af_breaker := b\<rparr>)
      | (True, b) \<Rightarrow>
          let f0 = f\<lparr>af_breaker := b\<rparr>;
              f1 = (if 0 < af_attempt f0 then f0\<lparr>af_sleeps := af_sleeps f0 @ [alpaca_backoff (ae_jitter E) (af_attempt f0)]\<rparr> else f0)
          in (case alpaca_connect E (ae_connection a) f1 of
                (None, f2) \<Rightarrow> (Waiting, f2)
              | (Some (Inl e), f2) \<Rightarrow>
                  (case failure_opens (ae_heard a) (ae_checked a) (af_breaker f2) of
                     (True, b2) \<Rightarrow> (Stop (AsBreakerOpen 5), f2\<lparr>af_attempt := af_attempt f2 + 1, af_breaker := b2\<rparr>)
                   | (False, b2) \<Rightarrow> (Go, f2\<lparr>af_attempt := af_attempt f2 + 2, af_breaker := b2\<rparr>))
              | (Some (Inr n), f2) \<Rightarrow>
                  let f3 = f2\<lparr>af_attempt := 0, af_breaker := breaker_success (ae_heard a) (af_breaker f2)\<rparr>
                  in (case (subscribe_all (ae_symbols E) (an_around n) f3 :: ('k alpaca_stream_error + unit) \<times> _) of
                        (Inl e, f4) \<Rightarrow>
                          (Go, f4\<lparr>af_breaker := snd (failure_opens (qv_instant (su_quarantine (an_around n))) (ae_checked a) (af_breaker f4))\<rparr>)
                      | (Inr _, f4) \<Rightarrow>
                          (case read_inputs (alpaca_step E) (an_inputs n) f4 of
                             (Drop, f5) \<Rightarrow> (Go, f5\<lparr>af_attempt := af_attempt f5 + 1\<rparr>)
                           | (r, f5) \<Rightarrow> (r, f5)))))"

definition alpaca_stream_ticks ::
  "('k, 'p, 'q, 'o) alpaca_env \<Rightarrow> alpaca_attempt list \<Rightarrow> ('p, 'q, 'o) alpaca_feed \<Rightarrow> 'k alpaca_stream_error flow \<times> ('p, 'q, 'o) alpaca_feed" where
  "alpaca_stream_ticks E = each_go (alpaca_round E)"

subsection \<open>The greeting\<close>

text \<open>A venue that greets each connection before it answers: the first text that says anything of the
  handshake says \<^verbatim>\<open>connected\<close>.\<close>

definition greets :: "('k, 'p, 'q, 'o) alpaca_env \<Rightarrow> alpaca_attempt \<Rightarrow> bool" where
  "greets E a \<longleftrightarrow>
     (case ae_connection a of
        Inl e \<Rightarrow> True
      | Inr n \<Rightarrow> (case List.map_filter (\<lambda>(t, i). case i of WsText raw \<Rightarrow> check_auth_response (ae_decode E) raw | _ \<Rightarrow> None) (an_auth n) of
            [] \<Rightarrow> True | m # _ \<Rightarrow> m = ''connected''))"

lemma greeted_fails:
  assumes "case List.map_filter (\<lambda>(t, i). case i of WsText raw \<Rightarrow> check_auth_response decode raw | _ \<Rightarrow> None) inputs of
      [] \<Rightarrow> True | m # _ \<Rightarrow> m = ''connected''"
  shows "await_auth decode deadline inputs \<noteq> Some (Inr ())"
  using assms
proof (induction inputs)
  case (Cons a rest)
  obtain t i where a: "a = (t, i)" by (cases a)
  show ?case
  proof (cases i)
    case (WsText raw)
    with Cons show ?thesis by (cases "check_auth_response decode raw") (auto simp: a List.map_filter_simps)
  qed (use Cons in \<open>auto simp: a List.map_filter_simps\<close>)
qed simp

lemma greeted_round:
  assumes "greets E a" "alpaca_round E a f = (r, f')"
  shows "af_producer f' = af_producer f \<and> af_quarantine f' = af_quarantine f
    \<and> (\<exists>n. af_commands f' = af_commands f @ replicate n (auth_message (ae_auth E)))
    \<and> (r = Go \<or> r = Stop (AsBreakerOpen 5) \<or> r = Waiting)"
proof -
  obtain ok b where b: "allow_request (ae_asked a) (af_breaker f) = (ok, b)" by force
  let ?f1 = "let f0 = f\<lparr>af_breaker := b\<rparr> in
    if 0 < af_attempt f0 then f0\<lparr>af_sleeps := af_sleeps f0 @ [alpaca_backoff (ae_jitter E) (af_attempt f0)]\<rparr> else f0"
  obtain v f2 where f2: "alpaca_connect E (ae_connection a) ?f1 = (v, f2)" by force
  have kept: "af_producer f2 = af_producer f \<and> af_quarantine f2 = af_quarantine f
    \<and> (\<exists>n. af_commands f2 = af_commands f @ replicate n (auth_message (ae_auth E)))"
    using f2 unfolding alpaca_connect_def Let_def
    by (auto split: sum.splits if_splits intro: exI [of _ 0] exI [of _ "Suc 0"])
  have "v = None \<or> (\<exists>e. v = Some (Inl e))"
  proof (cases "ae_connection a")
    case (Inl e)
    with f2 show ?thesis by (auto simp: alpaca_connect_def)
  next
    case (Inr n)
    show ?thesis
    proof (cases "an_sent n")
      case (Inl e)
      with Inr f2 show ?thesis by (auto simp: alpaca_connect_def)
    next
      case (Inr u)
      with \<open>ae_connection a = Inr n\<close> assms(1) greeted_fails [of "ae_decode E" "an_auth n" "an_start n + auth_timeout"] f2
      show ?thesis
        by (cases "await_auth (ae_decode E) (an_start n + auth_timeout) (an_auth n) :: ('a alpaca_stream_error + unit) option")
          (auto simp: alpaca_connect_def greets_def map_ok_def split: sum.splits)
    qed
  qed
  with assms(2) b f2 kept show ?thesis
    unfolding alpaca_round_def Let_def by (cases ok) (auto split: prod.splits bool.splits intro: exI [of _ 0])
qed

lemma greeted_rounds:
  assumes "list_all (greets E) as" "alpaca_stream_ticks E as f = (r, f')"
  shows "af_producer f' = af_producer f \<and> af_quarantine f' = af_quarantine f
    \<and> (\<exists>n. af_commands f' = af_commands f @ replicate n (auth_message (ae_auth E)))
    \<and> (r = Go \<or> r = Stop (AsBreakerOpen 5) \<or> r = Waiting)"
  using assms
proof (induction as arbitrary: f)
  case Nil
  then show ?case by (auto simp: alpaca_stream_ticks_def intro: exI [of _ 0])
next
  case (Cons a as)
  obtain r1 f1 where f1: "alpaca_round E a f = (r1, f1)" by force
  from greeted_round [OF _ f1] Cons.prems(1) obtain n where n: "af_commands f1 = af_commands f @ replicate n (auth_message (ae_auth E))"
    "af_producer f1 = af_producer f" "af_quarantine f1 = af_quarantine f" "r1 = Go \<or> r1 = Stop (AsBreakerOpen 5) \<or> r1 = Waiting" by auto
  show ?case
  proof (cases "r1 = Go")
    case True
    with Cons.prems(2) f1 have "alpaca_stream_ticks E as f1 = (r, f')" by (simp add: alpaca_stream_ticks_def)
    with Cons.IH [of f1] Cons.prems(1) n show ?thesis by (auto simp: replicate_add [symmetric])
  next
    case False
    with Cons.prems(2) f1 n(4) have "r = r1" "f' = f1" by (auto simp: alpaca_stream_ticks_def)
    with n show ?thesis by auto
  qed
qed

text \<open>
  Property C36. The venue greets a connection with \<^verbatim>\<open>connected\<close> before it answers the credentials. The
  handshake takes that for an answer and fails: with a venue that does so, the loop publishes no quote
  and subscribes to nothing, however often it connects, and ends only with its breaker open.
\<close>

theorem greeting_fails_handshake:
  assumes "list_all (greets E) as" "alpaca_stream_ticks E as (alpaca_feed_new p q) = (r, f)"
  shows "af_producer f = p \<and> set (af_commands f) \<subseteq> {auth_message (ae_auth E)} \<and> (r = Go \<or> r = Stop (AsBreakerOpen 5) \<or> r = Waiting)"
  using greeted_rounds [OF assms] by (auto simp: alpaca_feed_new_def)

subsection \<open>One bad event silences its frame\<close>

lemma frame_with_bad_event:
  assumes "v \<in> set vs" "message_type v = ''t'' \<or> message_type v = ''q''" "isl (required_symbol v)"
  shows "isl (frame_snapshots json_text vs)"
  using assms(1)
proof (induction vs)
  case (Cons w ws)
  show ?case
  proof (cases "w = v")
    case True
    with assms(2,3) show ?thesis by (auto simp: isl_def trade_snapshot_def quote_snapshot_def)
  next
    case False
    with Cons have "isl (frame_snapshots json_text ws)" by simp
    then show ?thesis by (cases "trade_snapshot json_text w"; cases "quote_snapshot json_text w") (auto simp: isl_def)
  qed
qed simp

text \<open>
  An event without a symbol spoils the whole frame it comes in: none of the quotes and trades
  beside it is published, the frame as a whole goes to quarantine.
\<close>

theorem bad_event_silences_frame:
  assumes "ae_decode E raw = Inr vs" "v \<in> set vs" "message_type v = ''t'' \<or> message_type v = ''q''" "isl (required_symbol v)"
  shows "af_producer (snd (alpaca_step E S (WsText raw) f)) = af_producer f
    \<and> (\<exists>e. alpaca_step E S (WsText raw) f = alpaca_quarantine E S (''serialization error: '' @ e) (as_bytes raw) f)"
proof -
  from frame_with_bad_event [OF assms(2-4)] obtain e where "frame_snapshots (ae_json_text E) vs = Inl e" by (auto simp: isl_def)
  with assms(1) have "alpaca_step E S (WsText raw) f = alpaca_quarantine E S (''serialization error: '' @ e) (as_bytes raw) f"
    by (simp add: alpaca_step_def alpaca_ws_message_def message_bytes_def)
  moreover have "af_producer (snd (alpaca_quarantine E S reason raw' f)) = af_producer f" for reason raw'
    by (auto simp: alpaca_quarantine_def split: prod.splits sum.splits)
  ultimately show ?thesis by auto
qed

subsection \<open>Witnesses\<close>

definition alpaca_event :: "(string \<times> string) list \<Rightarrow> json" where
  "alpaca_event fs = JObject (map (apsnd JString) fs)"

definition alpaca_sample_env :: "(unit, quote list, unit, unit) alpaca_env" where
  "alpaca_sample_env =
     \<lparr>ae_ops = dec_ref, ae_parsers = \<lparr>vp_decimal = (\<lambda>_. Inr 1), vp_time_json = (\<lambda>_. Inr 0), vp_unix_millis = Inr, vp_now = 0\<rparr>,
       ae_jitter = id, ae_auth = \<lparr>aa_key_id = ''key'', aa_secret_key = ''secret''\<rparr>, ae_symbols = [''AAPL''],
       ae_decode = (\<lambda>s. Inr (if s = ''greeting'' then [alpaca_event [(''T'', ''success''), (''msg'', ''connected'')]]
         else if s = ''welcome'' then [alpaca_event [(''T'', ''success''), (''msg'', ''authenticated'')]]
         else [alpaca_event [(''T'', ''q''), (''S'', ''AAPL''), (''bp'', ''1''), (''ap'', ''1'')], alpaca_event [(''T'', ''t''), (''p'', ''1'')]])),
       ae_json_text = (\<lambda>_. []), ae_send_quote = (\<lambda>_ m _ p. (Inr (), p @ [ev_payload m])),
       ae_send_quarantine = (\<lambda>_ _ _ q. (Inr (), q)), ae_store = (\<lambda>key _ _ obj. (Inr key, obj))\<rparr>"

definition alpaca_sample_surroundings :: surroundings where
  "alpaca_sample_surroundings =
     \<lparr>su_quarantine = \<lparr>qv_sha = id, qv_chrono = [], qv_now = [], qv_trace = [], qv_instant = 0\<rparr>, su_trace = [], su_now_text = [],
       su_now = 7, su_sent = Inr ()\<rparr>"

definition alpaca_sample_attempt :: alpaca_attempt where
  "alpaca_sample_attempt =
     \<lparr>ae_asked = 0, ae_heard = 1, ae_checked = 2,
       ae_connection = Inr \<lparr>an_start = 0, an_sent = Inr (), an_auth = [(1, WsText ''greeting''), (2, WsText ''welcome'')],
         an_around = alpaca_sample_surroundings, an_inputs = [(alpaca_sample_surroundings, WsText ''events'')]\<rparr>\<rparr>"

lemma alpaca_sample_greets: "greets alpaca_sample_env alpaca_sample_attempt"
  by (simp add: greets_def alpaca_sample_attempt_def alpaca_sample_env_def List.map_filter_simps check_auth_response_def alpaca_event_def
      message_type_def string_field_def)

theorem greeting_fails_handshake_witness:
  "\<exists>r f. alpaca_stream_ticks alpaca_sample_env (replicate 5 alpaca_sample_attempt)
      (alpaca_feed_new [] \<lparr>qs_counters = \<lparr>qc_count = 0, qc_storms = 0, qc_last_check = None\<rparr>, qs_objects = (), qs_producer = ()\<rparr>) = (r, f)
    \<and> af_producer f = [] \<and> (r = Go \<or> r = Stop (AsBreakerOpen 5) \<or> r = Waiting)"
proof -
  obtain r f where run: "alpaca_stream_ticks alpaca_sample_env (replicate 5 alpaca_sample_attempt)
      (alpaca_feed_new [] \<lparr>qs_counters = \<lparr>qc_count = 0, qc_storms = 0, qc_last_check = None\<rparr>, qs_objects = (), qs_producer = ()\<rparr>) = (r, f)"
    by force
  have "list_all (greets alpaca_sample_env) (replicate 5 alpaca_sample_attempt)"
    unfolding list_all_iff using alpaca_sample_greets by simp
  from greeting_fails_handshake [OF this run] run show ?thesis by blast
qed

theorem bad_event_silences_frame_witness:
  "af_producer (snd (alpaca_step alpaca_sample_env alpaca_sample_surroundings (WsText ''events'')
      (alpaca_feed_new [] \<lparr>qs_counters = \<lparr>qc_count = 0, qc_storms = 0, qc_last_check = None\<rparr>, qs_objects = (), qs_producer = ()\<rparr>))) = []"
proof -
  have "ae_decode alpaca_sample_env ''events'' =
      Inr [alpaca_event [(''T'', ''q''), (''S'', ''AAPL''), (''bp'', ''1''), (''ap'', ''1'')], alpaca_event [(''T'', ''t''), (''p'', ''1'')]]"
    by (simp add: alpaca_sample_env_def)
  from bad_event_silences_frame [OF this, of "alpaca_event [(''T'', ''t''), (''p'', ''1'')]" alpaca_sample_surroundings]
  show ?thesis by (simp add: alpaca_event_def message_type_def string_field_def required_symbol_def alpaca_feed_new_def)
qed

end
