(* ===== verification/Hyperliquid_Normalize.thy ===== *)
theory Hyperliquid_Normalize
  imports Venue_Http
begin

text \<open>
  The Hyperliquid venue pack: the REST client (\<^verbatim>\<open>connectors/venues/hyperliquid/src/client.rs\<close>) and the
  normalizer (\<^verbatim>\<open>normalize.rs\<close>) of perpetuals, spot pairs, mid prices and order books. The lemma shows
  exactly which books are accepted.
\<close>

subsection \<open>Wire types (client.rs)\<close>

record hl_asset =
  ha_name :: string
  ha_sz_decimals :: "int option"
  ha_max_leverage :: "int option"
  ha_margin_table_id :: "int option"
  ha_only_isolated :: "bool option"
  ha_is_delisted :: "bool option"

record hl_asset_ctx =
  hx_funding :: "string option"
  hx_open_interest :: "string option"
  hx_prev_day_px :: "string option"
  hx_day_ntl_vlm :: "string option"
  hx_premium :: "string option"
  hx_oracle_px :: "string option"
  hx_mark_px :: "string option"
  hx_mid_px :: "string option"
  hx_impact_pxs :: "string list option"

record hl_meta_response =
  hm_universe :: "hl_asset list"
  hm_margin_tables :: "json option"
  hm_collateral_token :: "int option"

record hl_meta_and_ctxs =
  mc_universe :: "hl_asset list"
  mc_margin_tables :: "json option"
  mc_asset_ctxs :: "hl_asset_ctx list"

record hl_spot_token =
  tk_name :: string
  tk_index :: nat
  tk_sz_decimals :: nat
  tk_wei_decimals :: nat
  tk_token_id :: "string option"
  tk_is_canonical :: "bool option"

record hl_spot_pair =
  hp_name :: string
  hp_tokens :: "nat list"
  hp_index :: nat
  hp_is_canonical :: "bool option"

record hl_spot_meta_and_ctxs =
  hs_universe :: "hl_spot_pair list"
  hs_tokens :: "hl_spot_token list"
  hs_asset_ctxs :: "hl_asset_ctx list"

record hl_book_level =
  hv_px :: string
  hv_sz :: string
  hv_n :: nat

record hl_book_snapshot =
  hb_coin :: string
  hb_time :: int
  hb_levels :: "hl_book_level list list"

record hl_funding_entry =
  hf_coin :: string
  hf_funding_rate :: "string option"
  hf_premium :: "string option"
  hf_time :: "int option"

subsection \<open>The client (client.rs)\<close>

record hl_io =
  hi_jitter :: "nat \<Rightarrow> nat"
  hi_meta :: "string \<Rightarrow> string + hl_meta_response"
  hi_mids :: "string \<Rightarrow> string + (string \<times> json) list"
  hi_book :: "string \<Rightarrow> string + hl_book_snapshot"
  hi_funding :: "string \<Rightarrow> string + hl_funding_entry list"
  hi_meta_ctxs :: "string \<Rightarrow> string + hl_meta_response \<times> hl_asset_ctx list"
  hi_spot_ctxs :: "string \<Rightarrow> string + (hl_spot_pair list \<times> hl_spot_token list) \<times> hl_asset_ctx list"

definition hl_client_from_env :: "(string \<Rightarrow> string option) \<Rightarrow> rest_client" where
  "hl_client_from_env env =
     rest_client_new (case env ''AETHER_VENUE__HYPERLIQUID_INFO_URL'' of Some u \<Rightarrow> u | None \<Rightarrow> ''https://api.hyperliquid.xyz/info'')"

definition hl_post ::
  "hl_io \<Rightarrow> (nat \<Rightarrow> 'h http_turn) \<Rightarrow> string \<Rightarrow> rest_client \<Rightarrow> ('h rest_error + string) \<times> rest_client" where
  "hl_post I net body c =
     rest_text (hi_jitter I) net
       \<lparr>hq_method = ''POST'', hq_url = rs_base_url c, hq_headers = json_headers ''aether-venue-hyperliquid/0.1.0'', hq_body = Some body\<rparr> c"

text \<open>The bodies, written as the code writes them.\<close>

definition entry_text :: "string \<Rightarrow> string \<Rightarrow> string" where
  "entry_text name v = quoted name @ '':'' @ v"

definition info_body :: "string \<Rightarrow> string list \<Rightarrow> string" where
  "info_body kind entries = ''{'' @ entry_text ''type'' (quoted kind) @ concat (map (\<lambda>e. '','' @ e) entries) @ ''}''"

definition get_meta :: "hl_io \<Rightarrow> (nat \<Rightarrow> 'h http_turn) \<Rightarrow> rest_client \<Rightarrow> ('h rest_error + hl_meta_response) \<times> rest_client" where
  "get_meta I net = then_do (hl_post I net (info_body ''meta'' [])) (\<lambda>body c. (rest_parse (hi_meta I) body, c))"

definition get_all_mids ::
  "hl_io \<Rightarrow> (nat \<Rightarrow> 'h http_turn) \<Rightarrow> rest_client \<Rightarrow> ('h rest_error + (string \<times> json) list) \<times> rest_client" where
  "get_all_mids I net = then_do (hl_post I net (info_body ''allMids'' [])) (\<lambda>body c. (rest_parse (hi_mids I) body, c))"

definition get_l2_book ::
  "hl_io \<Rightarrow> (nat \<Rightarrow> 'h http_turn) \<Rightarrow> string \<Rightarrow> rest_client \<Rightarrow> ('h rest_error + hl_book_snapshot) \<times> rest_client" where
  "get_l2_book I net coin =
     then_do (hl_post I net (info_body ''l2Book'' [entry_text ''coin'' (quoted (if coin = ''@0'' then ''PURR/USDC'' else coin))]))
       (\<lambda>body c. (map_ok (\<lambda>s. if coin = ''@0'' then s\<lparr>hb_coin := coin\<rparr> else s) (rest_parse (hi_book I) body), c))"

definition get_funding_history ::
  "hl_io \<Rightarrow> (nat \<Rightarrow> 'h http_turn) \<Rightarrow> string \<Rightarrow> nat \<Rightarrow> rest_client \<Rightarrow> ('h rest_error + hl_funding_entry list) \<times> rest_client" where
  "get_funding_history I net coin start_time =
     then_do (hl_post I net (info_body ''fundingHistory'' [entry_text ''coin'' (quoted coin), entry_text ''startTime'' (show_nat start_time)]))
       (\<lambda>body c. (rest_parse (hi_funding I) body, c))"

definition get_meta_and_asset_ctxs ::
  "hl_io \<Rightarrow> (nat \<Rightarrow> 'h http_turn) \<Rightarrow> rest_client \<Rightarrow> ('h rest_error + hl_meta_and_ctxs) \<times> rest_client" where
  "get_meta_and_asset_ctxs I net =
     then_do (hl_post I net (info_body ''metaAndAssetCtxs'' []))
       (\<lambda>body c. (map_ok (\<lambda>(m, ctxs). \<lparr>mc_universe = hm_universe m, mc_margin_tables = hm_margin_tables m, mc_asset_ctxs = ctxs\<rparr>)
          (rest_parse (hi_meta_ctxs I) body), c))"

definition get_spot_meta_and_asset_ctxs ::
  "hl_io \<Rightarrow> (nat \<Rightarrow> 'h http_turn) \<Rightarrow> rest_client \<Rightarrow> ('h rest_error + hl_spot_meta_and_ctxs) \<times> rest_client" where
  "get_spot_meta_and_asset_ctxs I net =
     then_do (hl_post I net (info_body ''spotMetaAndAssetCtxs'' []))
       (\<lambda>body c. (map_ok (\<lambda>((universe, tokens), ctxs). \<lparr>hs_universe = universe, hs_tokens = tokens, hs_asset_ctxs = ctxs\<rparr>)
          (rest_parse (hi_spot_ctxs I) body), c))"

subsection \<open>Normalization (normalize.rs)\<close>

datatype hl_error =
    HnMissingName
  | HnMarketKey market_key_error
  | HnJsonObject json_object_error
  | HnOrderBook order_book_error
  | HnDecimalParse string string
  | HnTimestampParse string string
  | HnMissingLevels string
  | HnWrongLevelCount string nat

primrec hl_error_text :: "hl_error \<Rightarrow> string" where
  "hl_error_text HnMissingName = ''market has no name''"
| "hl_error_text (HnMarketKey e) = ''invalid MarketKey: '' @ market_key_error_text e"
| "hl_error_text (HnJsonObject e) = ''venue_ref construction failed: '' @ json_object_error_text e"
| "hl_error_text (HnOrderBook e) = ''order book error: '' @ order_book_error_text e"
| "hl_error_text (HnDecimalParse raw d) = ''invalid decimal '' @ apostrophe raw @ '': '' @ d"
| "hl_error_text (HnTimestampParse raw d) = ''timestamp parse error for '' @ apostrophe raw @ '': '' @ d"
| "hl_error_text (HnMissingLevels coin) = ''no levels in book snapshot for '' @ coin"
| "hl_error_text (HnWrongLevelCount coin count) =
     ''expected 2 level arrays (bids+asks), got '' @ show_nat count @ '' for '' @ coin"

definition hl_venue :: "hl_error + venue_id" where
  "hl_venue = map_err (\<lambda>e. case e of VenueIdError raw \<Rightarrow> HnMarketKey (MarketKeyError raw)) (venue_id_new ''hyperliquid'')"

definition hl_key :: "string \<Rightarrow> hl_error + market_key" where
  "hl_key native = and_then hl_venue (\<lambda>v. map_err HnMarketKey (market_key_new v native))"

definition hl_decimal :: "venue_parsers \<Rightarrow> string \<Rightarrow> hl_error + decimal" where
  "hl_decimal P s = map_err (HnDecimalParse s) (vp_decimal P s)"

definition hl_millis :: "venue_parsers \<Rightarrow> int \<Rightarrow> hl_error + utc_time" where
  "hl_millis P ms = map_err (HnTimestampParse (show_int ms)) (vp_unix_millis P ms)"

definition hl_asset_json :: "hl_asset \<Rightarrow> json" where
  "hl_asset_json a = JObject
     [(''name'', JString (ha_name a)), (''szDecimals'', json_opt json_int (ha_sz_decimals a)),
      (''maxLeverage'', json_opt json_int (ha_max_leverage a)), (''marginTableId'', json_opt json_int (ha_margin_table_id a)),
      (''onlyIsolated'', json_opt JBool (ha_only_isolated a)), (''isDelisted'', json_opt JBool (ha_is_delisted a))]"

definition ctx_field :: "(hl_asset_ctx \<Rightarrow> string option) \<Rightarrow> hl_asset_ctx option \<Rightarrow> json" where
  "ctx_field field ctx = json_opt JString (Option.bind ctx field)"

definition hl_asset_meta :: "hl_asset \<Rightarrow> hl_asset_ctx option \<Rightarrow> json" where
  "hl_asset_meta a ctx = JObject
     [(''sz_decimals'', json_opt json_int (ha_sz_decimals a)), (''max_leverage'', json_opt json_int (ha_max_leverage a)),
      (''margin_table_id'', json_opt json_int (ha_margin_table_id a)), (''only_isolated'', json_opt JBool (ha_only_isolated a)),
      (''is_delisted'', json_opt JBool (ha_is_delisted a)), (''funding'', ctx_field hx_funding ctx),
      (''open_interest'', ctx_field hx_open_interest ctx), (''prev_day_px'', ctx_field hx_prev_day_px ctx),
      (''day_ntl_vlm'', ctx_field hx_day_ntl_vlm ctx), (''oracle_px'', ctx_field hx_oracle_px ctx),
      (''mark_px'', ctx_field hx_mark_px ctx), (''mid_px'', ctx_field hx_mid_px ctx)]"

definition hl_normalize_market :: "hl_asset \<Rightarrow> hl_asset_ctx option \<Rightarrow> hl_error + market" where
  "hl_normalize_market a ctx =
     (let name = trim_str (ha_name a)
      in if name = [] then Inl HnMissingName
         else
           and_then hl_venue (\<lambda>venue.
           and_then (map_err HnMarketKey (market_key_new venue (to_lower name))) (\<lambda>key.
           and_then (map_err HnJsonObject (json_object_new (hl_asset_json a))) (\<lambda>ref.
           and_then (map_err HnJsonObject (json_object_new (hl_asset_meta a ctx))) (\<lambda>meta.
             Inr \<lparr>m_key = key, m_venue = venue, m_kind = Perp, m_title = name, m_description_ref = [],
               m_status = (if ha_is_delisted a = Some True then Closed else Open), m_close_ts = None, m_resolve_ts = None,
               m_outcome = None, m_jurisdiction_flags = [''US''], m_venue_ref = ref, m_meta = meta\<rparr>)))))"

definition hl_spot_json :: "hl_spot_pair \<Rightarrow> json" where
  "hl_spot_json p = JObject
     [(''name'', JString (hp_name p)), (''tokens'', JArray (map (\<lambda>n. JNumber (show_nat n)) (hp_tokens p))),
      (''index'', JNumber (show_nat (hp_index p))), (''isCanonical'', json_opt JBool (hp_is_canonical p))]"

definition token_name :: "hl_spot_token list \<Rightarrow> nat \<Rightarrow> json" where
  "token_name tokens i = json_opt (\<lambda>t. JString (tk_name t)) (find (\<lambda>t. tk_index t = i) tokens)"

definition hl_normalize_spot :: "hl_spot_pair \<Rightarrow> hl_spot_token list \<Rightarrow> hl_asset_ctx option \<Rightarrow> hl_error + market" where
  "hl_normalize_spot p tokens ctx =
     (if trim_str (hp_name p) = [] \<or> length (hp_tokens p) \<noteq> 2 then Inl HnMissingName
      else
        let api_coin = ''@'' @ show_nat (hp_index p)
        in and_then hl_venue (\<lambda>venue.
           and_then (map_err HnMarketKey (market_key_new venue api_coin)) (\<lambda>key.
           and_then (map_err HnJsonObject (json_object_new (hl_spot_json p))) (\<lambda>ref.
           and_then (map_err HnJsonObject (json_object_new (JObject
               [(''api_coin'', JString api_coin), (''base_token'', token_name tokens (hp_tokens p ! 0)),
                (''quote_token'', token_name tokens (hp_tokens p ! 1)), (''mark_px'', ctx_field hx_mark_px ctx),
                (''mid_px'', ctx_field hx_mid_px ctx), (''day_ntl_vlm'', ctx_field hx_day_ntl_vlm ctx)]))) (\<lambda>meta.
             Inr \<lparr>m_key = key, m_venue = venue, m_kind = Spot, m_title = hp_name p, m_description_ref = [], m_status = Open,
               m_close_ts = None, m_resolve_ts = None, m_outcome = None, m_jurisdiction_flags = [''US''], m_venue_ref = ref,
               m_meta = meta\<rparr>)))))"

definition normalize_mid_to_quote :: "venue_parsers \<Rightarrow> string \<Rightarrow> string \<Rightarrow> int \<Rightarrow> hl_error + quote" where
  "normalize_mid_to_quote P coin mid_str ts_ms =
     (if coin = [] then Inl HnMissingName
      else
        and_then (hl_key (to_lower coin)) (\<lambda>market.
        and_then (hl_decimal P mid_str) (\<lambda>mid.
          if mid \<le> 0 then Inl (HnDecimalParse mid_str ''mid price must be positive'')
          else
            and_then (hl_millis P ts_ms) (\<lambda>ts.
              Inr \<lparr>q_market = market, q_bid = None, q_ask = None, q_mid = Some mid, q_last = None, q_bid_size = None,
                q_ask_size = None, q_ts = ts, q_source = Poll, q_seq = None\<rparr>))))"

definition ensure_positive_level :: "string \<Rightarrow> decimal \<Rightarrow> string \<Rightarrow> hl_error + unit" where
  "ensure_positive_level raw v field =
     (if 0 < v then Inr () else Inl (HnDecimalParse raw (''book '' @ field @ '' must be positive'')))"

definition hl_level :: "venue_parsers \<Rightarrow> hl_book_level \<Rightarrow> hl_error + book_level" where
  "hl_level P l =
     and_then (hl_decimal P (hv_px l)) (\<lambda>price.
     and_then (hl_decimal P (hv_sz l)) (\<lambda>qty.
     and_then (ensure_positive_level (hv_px l) price ''price'') (\<lambda>_.
     and_then (ensure_positive_level (hv_sz l) qty ''size'') (\<lambda>_.
       Inr \<lparr>lv_price = price, lv_size = qty\<rparr>))))"

fun hl_levels :: "venue_parsers \<Rightarrow> hl_book_level list \<Rightarrow> hl_error + book_level list" where
  "hl_levels P [] = Inr []"
| "hl_levels P (l # ls) = and_then (hl_level P l) (\<lambda>b. map_ok (Cons b) (hl_levels P ls))"

definition hl_normalize_book :: "venue_parsers \<Rightarrow> hl_book_snapshot \<Rightarrow> hl_error + order_book" where
  "hl_normalize_book P r =
     (let coin = trim_str (hb_coin r)
      in if coin = [] then Inl HnMissingName
         else if length (hb_levels r) \<noteq> 2 then Inl (HnWrongLevelCount coin (length (hb_levels r)))
         else
           and_then (hl_key (to_lower coin)) (\<lambda>market.
           and_then (hl_levels P (hb_levels r ! 0)) (\<lambda>bids.
           and_then (hl_levels P (hb_levels r ! 1)) (\<lambda>asks.
           and_then (hl_millis P (hb_time r)) (\<lambda>ts.
             map_err HnOrderBook (order_book_new market bids asks (max (length bids) (length asks)) ts None))))))"

subsection \<open>Which books are accepted\<close>

lemma hl_levels_positive: "hl_levels P ls = Inr bs \<Longrightarrow> list_all (\<lambda>b. 0 < lv_price b \<and> 0 < lv_size b) bs \<and> length bs = length ls"
  by (induction ls arbitrary: bs)
    (auto simp: and_then_Inr_iff map_ok_Inr_iff hl_level_def ensure_positive_level_def split: if_splits)

text \<open>
  A book is accepted as it was sent, only with positive prices and sizes and with bids that descend and
  asks that ascend.
\<close>

theorem hl_book_sound:
  assumes "hl_normalize_book P r = Inr b"
  shows "sorted_wrt (>) (map lv_price (ob_bids b)) \<and> sorted_wrt (<) (map lv_price (ob_asks b))
    \<and> list_all (\<lambda>l. 0 < lv_price l \<and> 0 < lv_size l) (ob_bids b @ ob_asks b)
    \<and> map length (hb_levels r) = [length (ob_bids b), length (ob_asks b)]"
proof -
  from assms obtain market bids asks ts where b: "hl_levels P (hb_levels r ! 0) = Inr bids" "hl_levels P (hb_levels r ! 1) = Inr asks"
    "order_book_new market bids asks (max (length bids) (length asks)) ts None = Inr b" "length (hb_levels r) = 2"
    by (auto simp: hl_normalize_book_def Let_def and_then_Inr_iff map_err_Inr_iff split: if_splits)
  then have sorted: "sorted_wrt (>) (map lv_price bids) \<and> sorted_wrt (<) (map lv_price asks) \<and> ob_bids b = bids \<and> ob_asks b = asks"
    by (auto simp: order_book_new_sorted_iff)
  obtain l0 l1 where "hb_levels r = [l0, l1]" using b(4) by (auto simp: numeral_2_eq_2 length_Suc_conv)
  with b(1,2) have "hl_levels P l0 = Inr bids" "hl_levels P l1 = Inr asks" "hb_levels r = [l0, l1]" by simp_all
  with hl_levels_positive [OF this(1)] hl_levels_positive [OF this(2)] sorted show ?thesis by simp
qed

end
