(* ===== verification/Hyperliquid_Stream.thy ===== *)
theory Hyperliquid_Stream
  imports Hyperliquid_Normalize
begin

text \<open>
  The polling streams of the Hyperliquid venue pack (\<^verbatim>\<open>connectors/venues/hyperliquid/src/stream.rs\<close>): mid
  prices and order books are fetched at intervals and published. A run of a loop is a list of polls. The
  lemmas show that a coin with a small letter in its name is never quoted and what a lost probe of the
  client's breaker does to both loops.
\<close>

subsection \<open>The state of a loop\<close>

datatype ('k, 'h) hl_stream_error =
    HsClient "'h rest_error"
  | HsNormalize hl_error
  | HsProducer "'k producer_error"
  | HsQuarantine "'k quarantine_error"
  | HsBreakerOpen nat

record ('p, 'q, 'o) hl_feed =
  hf_attempt :: nat
  hf_breaker :: circuit_breaker
  hf_client :: rest_client
  hf_sleeps :: "nat list"
  hf_producer :: 'p
  hf_quarantine :: "('q, 'o) quarantine_state"

record ('k, 'p, 'q, 'o) hl_env =
  he_io :: hl_io
  he_parsers :: venue_parsers
  he_tickers :: "string list"
  he_book_text :: "hl_book_snapshot \<Rightarrow> u8 list"
  he_send_quote :: "('k, quote envelope, 'p) producer"
  he_send_book :: "('k, order_book envelope, 'p) producer"
  he_send_quarantine :: "('k, quarantine_message envelope, 'q) producer"
  he_store :: "('k, 'o) object_store"

text \<open>One poll: when the breaker is asked, told and asked again, the wall clock in milliseconds, and for
  each ticker by its index the network and what else the code reads.\<close>

record 'h hl_poll =
  hq_asked :: int
  hq_heard :: int
  hq_checked :: int
  hq_now_ms :: int
  hq_net :: "nat \<Rightarrow> nat \<Rightarrow> 'h http_turn"
  hq_around :: "nat \<Rightarrow> surroundings"

definition hl_feed_new :: "rest_client \<Rightarrow> 'p \<Rightarrow> ('q, 'o) quarantine_state \<Rightarrow> ('p, 'q, 'o) hl_feed" where
  "hl_feed_new c p q =
     \<lparr>hf_attempt = 0, hf_breaker = breaker_new, hf_client = c, hf_sleeps = [], hf_producer = p, hf_quarantine = q\<rparr>"

definition hl_backoff :: "(nat \<Rightarrow> nat) \<Rightarrow> nat \<Rightarrow> nat" where
  "hl_backoff jitter attempt =
     delay_for_attempt jitter
       \<lparr>br_max_attempts = 5, br_base_delay = duration_millis 200, br_max_delay = duration_millis 30000\<rparr> attempt"

definition mids_poll_ms :: nat where
  "mids_poll_ms = 2000"

definition book_poll_ms :: nat where
  "book_poll_ms = 2000"

definition hl_quarantine ::
  "('k, 'p, 'q, 'o) hl_env \<Rightarrow> surroundings \<Rightarrow> string \<Rightarrow> u8 list \<Rightarrow> ('p, 'q, 'o) hl_feed
     \<Rightarrow> ('k, 'h) hl_stream_error flow \<times> ('p, 'q, 'o) hl_feed" where
  "hl_quarantine E S reason raw f =
     (case quarantine_publish (he_send_quarantine E) (he_store E) (su_quarantine S) ''hyperliquid'' reason raw (hf_quarantine f) of
        (Inl e, q) \<Rightarrow> (Stop (HsQuarantine e), f\<lparr>hf_quarantine := q\<rparr>)
      | (Inr _, q) \<Rightarrow> (Go, f\<lparr>hf_quarantine := q\<rparr>))"

text \<open>The head of a turn of either loop: the breaker and the backoff.\<close>

definition hl_turn ::
  "('k, 'p, 'q, 'o) hl_env \<Rightarrow> int \<Rightarrow> (('p, 'q, 'o) hl_feed \<Rightarrow> ('k, 'h) hl_stream_error flow \<times> ('p, 'q, 'o) hl_feed)
     \<Rightarrow> ('p, 'q, 'o) hl_feed \<Rightarrow> ('k, 'h) hl_stream_error flow \<times> ('p, 'q, 'o) hl_feed" where
  "hl_turn E asked body f =
     (case allow_request asked (hf_breaker f) of
        (False, b) \<Rightarrow> (Stop (HsBreakerOpen 5), f\<lparr>hf_breaker := b\<rparr>)
      | (True, b) \<Rightarrow>
          let f0 = f\<lparr>hf_breaker := b\<rparr>
          in body (if 0 < hf_attempt f0 then f0\<lparr>hf_sleeps := hf_sleeps f0 @ [hl_backoff (hi_jitter (he_io E)) (hf_attempt f0)]\<rparr> else f0))"

definition hl_failed :: "'h hl_poll \<Rightarrow> ('p, 'q, 'o) hl_feed \<Rightarrow> ('k, 'h) hl_stream_error flow \<times> ('p, 'q, 'o) hl_feed" where
  "hl_failed a f =
     (case failure_opens (hq_heard a) (hq_checked a) (hf_breaker f) of
        (True, b) \<Rightarrow> (Stop (HsBreakerOpen 5), f\<lparr>hf_attempt := hf_attempt f + 1, hf_breaker := b\<rparr>)
      | (False, b) \<Rightarrow> (Go, f\<lparr>hf_attempt := hf_attempt f + 1, hf_breaker := b\<rparr>))"

definition hl_succeeded :: "'h hl_poll \<Rightarrow> ('p, 'q, 'o) hl_feed \<Rightarrow> ('p, 'q, 'o) hl_feed" where
  "hl_succeeded a f = f\<lparr>hf_attempt := 0, hf_breaker := breaker_success (hq_heard a) (hf_breaker f)\<rparr>"

definition hl_pause ::
  "nat \<Rightarrow> ('k, 'h) hl_stream_error flow \<times> ('p, 'q, 'o) hl_feed \<Rightarrow> ('k, 'h) hl_stream_error flow \<times> ('p, 'q, 'o) hl_feed" where
  "hl_pause ms r = (case r of (Go, f) \<Rightarrow> (Go, f\<lparr>hf_sleeps := hf_sleeps f @ [duration_millis ms]\<rparr>) | _ \<Rightarrow> r)"

subsection \<open>Mid prices\<close>

definition mid_text :: "(string \<times> json) list \<Rightarrow> string \<Rightarrow> string option" where
  "mid_text mids ticker =
     (let upper = to_upper ticker
      in case hm_get mids (if upper = ''@0'' then ''PURR/USDC'' else upper) of
           None \<Rightarrow> None
         | Some (JString s) \<Rightarrow> if s = [] then None else Some s
         | Some _ \<Rightarrow> None)"

definition hl_mid ::
  "('k, 'p, 'q, 'o) hl_env \<Rightarrow> 'h hl_poll \<Rightarrow> (string \<times> json) list \<Rightarrow> nat \<times> string \<Rightarrow> ('p, 'q, 'o) hl_feed
     \<Rightarrow> ('k, 'h) hl_stream_error flow \<times> ('p, 'q, 'o) hl_feed" where
  "hl_mid E a mids t f =
     (case t of (n, ticker) \<Rightarrow>
       (case mid_text mids ticker of
          None \<Rightarrow> (Go, f)
        | Some mid \<Rightarrow>
            (case normalize_mid_to_quote (he_parsers E) ticker mid (hq_now_ms a) of
               Inr q \<Rightarrow>
                 (case he_send_quote E ''md.ticks.hyperliquid'' (envelope_new (su_trace (hq_around a n)) (su_now_text (hq_around a n)) ''quote'' q)
                        (Some (key_str (q_market q))) (hf_producer f) of
                    (Inl e, p) \<Rightarrow> (Stop (HsProducer e), f\<lparr>hf_producer := p\<rparr>)
                  | (Inr _, p) \<Rightarrow> (Go, f\<lparr>hf_producer := p\<rparr>))
             | Inl e \<Rightarrow> hl_quarantine E (hq_around a n) (hl_error_text e) (as_bytes mid) f)))"

definition hl_mids_round ::
  "('k, 'p, 'q, 'o) hl_env \<Rightarrow> 'h hl_poll \<Rightarrow> ('p, 'q, 'o) hl_feed \<Rightarrow> ('k, 'h) hl_stream_error flow \<times> ('p, 'q, 'o) hl_feed" where
  "hl_mids_round E a =
     hl_turn E (hq_asked a) (\<lambda>f.
       case get_all_mids (he_io E) (hq_net a 0) (hf_client f) of
         (Inr mids, c) \<Rightarrow>
           hl_pause mids_poll_ms (each_go (hl_mid E a mids) (enumerate 0 (he_tickers E)) (hl_succeeded a (f\<lparr>hf_client := c\<rparr>)))
       | (Inl e, c) \<Rightarrow> hl_failed a (f\<lparr>hf_client := c\<rparr>))"

definition stream_mids_to_bus ::
  "('k, 'p, 'q, 'o) hl_env \<Rightarrow> 'h hl_poll list \<Rightarrow> ('p, 'q, 'o) hl_feed \<Rightarrow> ('k, 'h) hl_stream_error flow \<times> ('p, 'q, 'o) hl_feed" where
  "stream_mids_to_bus E = each_go (hl_mids_round E)"

subsection \<open>Order books\<close>

text \<open>One ticker; the flag says whether any book has arrived in this turn.\<close>

definition hl_book ::
  "('k, 'p, 'q, 'o) hl_env \<Rightarrow> 'h hl_poll \<Rightarrow> nat \<times> string \<Rightarrow> bool \<times> ('p, 'q, 'o) hl_feed
     \<Rightarrow> ('k, 'h) hl_stream_error flow \<times> bool \<times> ('p, 'q, 'o) hl_feed" where
  "hl_book E a t s =
     (case (t, s) of ((n, ticker), (any_ok, f)) \<Rightarrow>
       (case get_l2_book (he_io E) (hq_net a n) ticker (hf_client f) of
          (Inl e, c) \<Rightarrow> (Go, any_ok, f\<lparr>hf_client := c\<rparr>)
        | (Inr snapshot, c) \<Rightarrow>
            let f1 = f\<lparr>hf_client := c\<rparr>
            in (case hl_normalize_book (he_parsers E) snapshot of
                  Inr b \<Rightarrow>
                    (case he_send_book E ''md.books.hyperliquid'' (envelope_new (su_trace (hq_around a n)) (su_now_text (hq_around a n)) ''order_book'' b)
                           (Some (key_str (ob_market b))) (hf_producer f1) of
                       (Inl e, p) \<Rightarrow> (Stop (HsProducer e), True, f1\<lparr>hf_producer := p\<rparr>)
                     | (Inr _, p) \<Rightarrow> (Go, True, f1\<lparr>hf_producer := p\<rparr>))
                | Inl e \<Rightarrow> apsnd (Pair True) (hl_quarantine E (hq_around a n) (hl_error_text e) (he_book_text E snapshot) f1))))"

definition hl_books_round ::
  "('k, 'p, 'q, 'o) hl_env \<Rightarrow> 'h hl_poll \<Rightarrow> ('p, 'q, 'o) hl_feed \<Rightarrow> ('k, 'h) hl_stream_error flow \<times> ('p, 'q, 'o) hl_feed" where
  "hl_books_round E a =
     hl_turn E (hq_asked a) (\<lambda>f.
       case each_go (hl_book E a) (enumerate 0 (he_tickers E)) (False, f) of
         (Go, True, f1) \<Rightarrow> hl_pause book_poll_ms (Go, hl_succeeded a f1)
       | (Go, False, f1) \<Rightarrow> hl_failed a f1
       | (r, _, f1) \<Rightarrow> (r, f1))"

definition hl_stream_books ::
  "('k, 'p, 'q, 'o) hl_env \<Rightarrow> 'h hl_poll list \<Rightarrow> ('p, 'q, 'o) hl_feed \<Rightarrow> ('k, 'h) hl_stream_error flow \<times> ('p, 'q, 'o) hl_feed" where
  "hl_stream_books E = each_go (hl_books_round E)"

subsection \<open>Names with small letters\<close>

text \<open>What a loop keeps, when the body of each turn keeps it for the fields that the head of the turn leaves alone.\<close>

lemma hl_turn_keeps:
  assumes "hl_turn E asked body f = (r, f')"
    and "\<And>g. hf_producer g = hf_producer f \<Longrightarrow> hf_client g = hf_client f \<Longrightarrow> body g = (r, f') \<Longrightarrow> Q f'"
    and "\<And>g. hf_producer g = hf_producer f \<Longrightarrow> hf_client g = hf_client f \<Longrightarrow> Q g"
  shows "Q f'"
proof -
  obtain ok b where b: "allow_request asked (hf_breaker f) = (ok, b)" by force
  show ?thesis
  proof (cases ok)
    case True
    define g where "g = (let f0 = f\<lparr>hf_breaker := b\<rparr> in
      if 0 < hf_attempt f0 then f0\<lparr>hf_sleeps := hf_sleeps f0 @ [hl_backoff (hi_jitter (he_io E)) (hf_attempt f0)]\<rparr> else f0)"
    then have "hf_producer g = hf_producer f" "hf_client g = hf_client f" by (simp_all add: Let_def)
    moreover have "body g = (r, f')" using assms(1) b True by (simp add: hl_turn_def g_def Let_def)
    ultimately show ?thesis by (rule assms(2))
  next
    case False
    with assms(1) b have "f' = f\<lparr>hf_breaker := b\<rparr>" by (auto simp: hl_turn_def)
    then show ?thesis using assms(3) [of f'] by simp
  qed
qed

lemma hl_failed_keeps: "hl_failed a f = (r, f') \<Longrightarrow> hf_producer f' = hf_producer f \<and> hf_client f' = hf_client f"
  by (auto simp: hl_failed_def split: prod.splits bool.splits)

lemma hl_pause_keeps: "hl_pause ms (r0, f) = (r, f') \<Longrightarrow> hf_producer f' = hf_producer f \<and> hf_client f' = hf_client f"
  by (cases r0) (auto simp: hl_pause_def)

definition never_listed :: "hl_io \<Rightarrow> string \<Rightarrow> bool" where
  "never_listed I ticker \<longleftrightarrow> (\<forall>body mids. hi_mids I body = Inr mids \<longrightarrow> mid_text mids ticker = None)"

lemma unlisted_mids_round:
  assumes "list_all (never_listed (he_io E)) (he_tickers E)" "hl_mids_round E a f = (r, f')"
  shows "hf_producer f' = hf_producer f"
proof (rule hl_turn_keeps [OF assms(2) [unfolded hl_mids_round_def], of "\<lambda>f'. hf_producer f' = hf_producer f"])
  fix g assume g: "hf_producer g = hf_producer f"
    and run: "(case get_all_mids (he_io E) (hq_net a 0) (hf_client g) of
         (Inr mids, c) \<Rightarrow>
           hl_pause mids_poll_ms (each_go (hl_mid E a mids) (enumerate 0 (he_tickers E)) (hl_succeeded a (g\<lparr>hf_client := c\<rparr>)))
       | (Inl e, c) \<Rightarrow> hl_failed a (g\<lparr>hf_client := c\<rparr>)) = (r, f')"
  obtain v c where v: "get_all_mids (he_io E) (hq_net a 0) (hf_client g) = (v, c)" by force
  show "hf_producer f' = hf_producer f"
  proof (cases v)
    case (Inl e)
    with run v hl_failed_keeps [of a "g\<lparr>hf_client := c\<rparr>" r f'] g show ?thesis by simp
  next
    case (Inr mids)
    then obtain body where "hi_mids (he_io E) body = Inr mids"
      using v by (auto simp: get_all_mids_def rest_parse_def map_err_Inr_iff elim!: then_doE)
    with assms(1) have none: "mid_text mids t = None" if "t \<in> set (he_tickers E)" for t
      using that by (auto simp: never_listed_def list_all_iff)
    have "each_go (hl_mid E a mids) ts h = (Go, h)" if "snd ` set ts \<subseteq> set (he_tickers E)" for ts and h :: "('b, 'c, 'd) hl_feed"
      using that by (induction ts) (auto simp: hl_mid_def none)
    moreover have "snd ` set (enumerate 0 (he_tickers E)) \<subseteq> set (he_tickers E)"
      by (metis list.set_map map_snd_enumerate order_refl)
    ultimately have "hl_pause mids_poll_ms (Go, hl_succeeded a (g\<lparr>hf_client := c\<rparr>)) = (r, f')" using run v Inr by auto
    from hl_pause_keeps [OF this] g show ?thesis by (simp add: hl_succeeded_def)
  qed
qed simp

text \<open>
  The price of a ticker is looked up under its name in capitals. A coin that the venue lists under a name
  with a small letter is never found: whatever the polls bring, no quote of it is published.
\<close>

theorem mixed_case_coin_never_quoted:
  assumes "list_all (\<lambda>t. to_upper t \<noteq> ''@0'' \<and> (\<forall>body mids. hi_mids (he_io E) body = Inr mids \<longrightarrow> hm_get mids (to_upper t) = None)) (he_tickers E)"
    and "stream_mids_to_bus E polls f = (r, f')"
  shows "hf_producer f' = hf_producer f"
proof -
  have listed: "list_all (never_listed (he_io E)) (he_tickers E)"
    using assms(1) by (auto simp: list_all_iff never_listed_def mid_text_def Let_def)
  show ?thesis
    by (rule each_go_keeps [where Q = "\<lambda>g. hf_producer g = hf_producer f", OF _ assms(2) [unfolded stream_mids_to_bus_def]])
      (auto dest: unlisted_mids_round [OF listed])
qed

subsection \<open>A closed client\<close>

definition closed_rest :: "rest_client \<Rightarrow> bool" where
  "closed_rest c \<longleftrightarrow> probing (hc_breaker (rs_http c))"

lemma closed_post: "closed_rest c \<Longrightarrow> hl_post I net body c = (Inl RsRateLimitBreaker, c)"
  by (simp add: hl_post_def rest_text_def closed_rest_def guarded_call_probing)

lemma closed_mids: "closed_rest c \<Longrightarrow> get_all_mids I net c = (Inl RsRateLimitBreaker, c)"
  by (simp add: get_all_mids_def then_do_def closed_post)

lemma closed_book: "closed_rest c \<Longrightarrow> get_l2_book I net coin c = (Inl RsRateLimitBreaker, c)"
  by (simp add: get_l2_book_def then_do_def closed_post)

definition shut :: "rest_client \<Rightarrow> 'p \<Rightarrow> ('p, 'q, 'o) hl_feed \<Rightarrow> bool" where
  "shut c p f \<longleftrightarrow> hf_client f = c \<and> hf_producer f = p"

lemma closed_mids_round:
  assumes "closed_rest c" "shut c p f" "hl_mids_round E a f = (r, f')"
  shows "shut c p f'"
  by (rule hl_turn_keeps [OF assms(3) [unfolded hl_mids_round_def], of "shut c p"])
    (use assms(1,2) in \<open>auto simp: shut_def closed_mids dest!: hl_failed_keeps\<close>)

lemma closed_books_round:
  assumes "closed_rest c" "shut c p f" "hl_books_round E a f = (r, f')"
  shows "shut c p f'"
proof (rule hl_turn_keeps [OF assms(3) [unfolded hl_books_round_def], of "shut c p"])
  fix g assume g: "hf_producer g = hf_producer f" "hf_client g = hf_client f"
    and run: "(case each_go (hl_book E a) (enumerate 0 (he_tickers E)) (False, g) of
         (Go, True, f1) \<Rightarrow> hl_pause book_poll_ms (Go, hl_succeeded a f1)
       | (Go, False, f1) \<Rightarrow> hl_failed a f1
       | (r, _, f1) \<Rightarrow> (r, f1)) = (r, f')"
  have c: "closed_rest (hf_client g)" "shut c p g" using assms(1,2) g by (simp_all add: shut_def)
  have "each_go (hl_book E a) ts (False, g) = (Go, False, g)" for ts
    using c(1) by (induction ts) (simp_all add: hl_book_def closed_book)
  with run c(2) show "shut c p f'" by (auto simp: shut_def dest!: hl_failed_keeps)
qed (use assms(2) in \<open>simp add: shut_def\<close>)

text \<open>
  If the probe of the client's breaker is lost, here by a request for mid prices that is answered with an
  error other than 429 or fails on the way, both loops of that client publish nothing and send nothing
  ever after, however long they are polled or started anew.
\<close>

theorem lost_probe_ends_polling:
  assumes "breaker_due (ht_asked (net 0)) (hc_breaker (rs_http c))" "unheard_reply (ht_reply (net 0))"
    and "get_all_mids (he_io E) net c = (v, c1)"
    and "stream_mids_to_bus E polls (hl_feed_new c1 p q) = (r, f)"
    and "hl_stream_books E polls' (hl_feed_new c1 p q) = (r', f')"
  shows "isl v \<and> hf_producer f = p \<and> hf_client f = c1 \<and> hf_producer f' = p \<and> hf_client f' = c1"
proof -
  let ?q = "\<lparr>hq_method = ''POST'', hq_url = rs_base_url c, hq_headers = json_headers ''aether-venue-hyperliquid/0.1.0'',
    hq_body = Some (info_body ''allMids'' [])\<rparr>"
  obtain w h where call: "guarded_call (hi_jitter (he_io E)) net ?q (rs_http c) = (w, h)" by force
  from guarded_call_lost_probe [OF assms(1,2) call] have "isl w" "probing (hc_breaker h)" by simp_all
  with call assms(3) have closed: "isl v" "closed_rest c1"
    by (auto simp: get_all_mids_def hl_post_def rest_text_def then_do_def closed_rest_def isl_def)
  have start: "shut c1 p (hl_feed_new c1 p q)" by (simp add: shut_def hl_feed_new_def)
  have "shut c1 p f"
    by (rule each_go_keeps [where Q = "shut c1 p", OF _ assms(4) [unfolded stream_mids_to_bus_def] start])
      (rule closed_mids_round [OF closed(2)])
  moreover have "shut c1 p f'"
    by (rule each_go_keeps [where Q = "shut c1 p", OF _ assms(5) [unfolded hl_stream_books_def] start])
      (rule closed_books_round [OF closed(2)])
  ultimately show ?thesis using closed(1) by (simp add: shut_def)
qed

end
