(* ===== verification/Observe.thy ===== *)
theory Observe
  imports Rust_Text "HOL-Library.List_Lexorder" "HOL-Library.Char_ord"
begin

text \<open>
  What every service uses to report on itself (\<^verbatim>\<open>crates/aether-observe\<close>): redaction of log fields
  (\<^verbatim>\<open>redact.rs\<close>), readiness (\<^verbatim>\<open>health.rs\<close>), metrics and their Prometheus text (\<^verbatim>\<open>metrics.rs\<close>), trace
  identifiers (\<^verbatim>\<open>trace.rs\<close>). Regular expressions and floating-point numbers are arguments. The lemmas show
  that the values of the listed fields never pass, that a ready answer rests on recent checks of every
  dependency, that a histogram counts its observations exactly, and that trace identifiers do not repeat.
\<close>

subsection \<open>Redaction (redact.rs)\<close>

record 'r regex_ops =
  rx_new :: "string \<Rightarrow> string + 'r"
  rx_replace_all :: "'r \<Rightarrow> string \<Rightarrow> string \<Rightarrow> string"

datatype redaction_error = RedactionConfigError string | InvalidPattern string string

record redaction_config =
  rd_patterns :: "string list"
  rd_field_replacements :: "(string, string) hash_map"

definition redaction_default :: redaction_config where
  "redaction_default = \<lparr>
     rd_patterns =
       [CHR 0x5C # ''b[A-Za-z0-9._%+-]+@[A-Za-z0-9.-]+'' @ [CHR 0x5C] @ ''.[A-Za-z]{2,}'' @ [CHR 0x5C] @ ''b'',
        CHR 0x5C # ''b0x[a-fA-F0-9]{64}'' @ [CHR 0x5C] @ ''b'',
        CHR 0x5C # ''b[a-zA-Z0-9]{32,}'' @ [CHR 0x5C] @ ''b'',
        CHR 0x5C # ''b'' @ [CHR 0x5C] @ ''d{3}-'' @ [CHR 0x5C] @ ''d{2}-'' @ [CHR 0x5C] @ ''d{4}'' @ [CHR 0x5C] @ ''b''],
     rd_field_replacements =
       [(''password'', ''***''), (''secret'', ''***''), (''api_key'', ''***''), (''private_key'', ''***''),
        (''token'', ''***'')]\<rparr>"

fun compile_patterns :: "'r regex_ops \<Rightarrow> string list \<Rightarrow> redaction_error + 'r list" where
  "compile_patterns R [] = Inr []"
| "compile_patterns R (p # ps) =
     and_then (map_err (InvalidPattern p) (rx_new R p)) (\<lambda>re.
     map_ok (\<lambda>res. re # res) (compile_patterns R ps))"

text \<open>The patterns of the process: a \<^verbatim>\<open>OnceLock\<close>, which can be set once.\<close>

definition init_redaction ::
  "'r regex_ops \<Rightarrow> redaction_config \<Rightarrow> 'r list option \<Rightarrow> (redaction_error + unit) \<times> 'r list option" where
  "init_redaction R config patterns =
     (case compile_patterns R (rd_patterns config) of
        Inl e \<Rightarrow> (Inl e, patterns)
      | Inr res \<Rightarrow> (case patterns of
            None \<Rightarrow> (Inr (), Some res)
          | Some old \<Rightarrow> (Inl (RedactionConfigError ''already initialized''), Some old)))"

definition redact_string :: "'r regex_ops \<Rightarrow> 'r list option \<Rightarrow> string \<Rightarrow> string" where
  "redact_string R patterns s =
     (case patterns of
        Some res \<Rightarrow> fold (\<lambda>re result. rx_replace_all R re result ''[REDACTED]'') res s
      | None \<Rightarrow> s)"

definition redact_fields ::
  "'r regex_ops \<Rightarrow> 'r list option \<Rightarrow> (string, string) hash_map \<Rightarrow> (string, string) hash_map" where
  "redact_fields R patterns fs =
     fold (\<lambda>(key, val) cleaned.
         case hm_get (rd_field_replacements redaction_default) (to_lower key) of
           Some r \<Rightarrow> hm_put key r cleaned
         | None \<Rightarrow> hm_put key (redact_string R patterns val) cleaned)
       fs []"

definition redaction_layer_init_default ::
  "'r regex_ops \<Rightarrow> 'r list option \<Rightarrow> (redaction_error + unit) \<times> 'r list option" where
  "redaction_layer_init_default R = init_redaction R redaction_default"

lemma redact_fields_get:
  assumes "hm_wf fs"
  shows "hm_get (redact_fields R patterns fs) k = map_option
     (\<lambda>v. case hm_get (rd_field_replacements redaction_default) (to_lower k) of
        Some r \<Rightarrow> r | None \<Rightarrow> redact_string R patterns v) (hm_get fs k)"
proof -
  define g where "g = (\<lambda>k v. case hm_get (rd_field_replacements redaction_default) (to_lower k) of
        Some r \<Rightarrow> r | None \<Rightarrow> redact_string R patterns v)"
  have f: "redact_fields R patterns fs = fold (\<lambda>(k, v). hm_put k (g k v)) fs []"
    unfolding redact_fields_def g_def by (rule arg_cong [where f = "\<lambda>h. fold h fs []"]) (auto simp: fun_eq_iff split: option.split)
  have "hm_get (fold (\<lambda>(k, v). hm_put k (g k v)) fs m) k =
      (case hm_get fs k of Some v \<Rightarrow> Some (g k v) | None \<Rightarrow> hm_get m k)" for m
    using assms
  proof (induction fs arbitrary: m)
    case (Cons x fs)
    obtain a v where x: "x = (a, v)" by force
    show ?case
    proof (cases "k = a")
      case True
      then have "hm_get fs k = None" using Cons.prems x by (simp add: map_of_eq_None_iff)
      then show ?thesis using Cons.IH Cons.prems True x by (simp add: hm_get_put)
    next
      case False
      then show ?thesis using Cons.IH Cons.prems x by (simp add: hm_get_put split: option.split)
    qed
  qed simp
  then show ?thesis unfolding f by (simp add: g_def split: option.split)
qed

lemma sensitive_field_never_passes:
  assumes "hm_wf fs" "to_lower k \<in> {''password'', ''secret'', ''api_key'', ''private_key'', ''token''}"
    and "hm_get (redact_fields R patterns fs) k = Some v"
  shows "v = ''***''"
  using assms by (auto simp: redact_fields_get redaction_default_def split: if_splits)

text \<open>Until the patterns are set, any other value passes as it is, and the fields that a configuration adds
  are never looked at: the value of \<^verbatim>\<open>authorization\<close> is scanned with the patterns only.\<close>

lemma uninitialized_redaction_passes:
  assumes "hm_wf fs" "to_lower k \<notin> {''password'', ''secret'', ''api_key'', ''private_key'', ''token''}"
  shows "hm_get (redact_fields R None fs) k = hm_get fs k"
  using assms by (cases "hm_get fs k") (simp_all add: redact_fields_get redaction_default_def redact_string_def)

lemma authorization_field_not_replaced:
  assumes "hm_wf fs" "init_redaction R config None = (Inr (), Some res)"
  shows "hm_get (redact_fields R (Some res) fs) ''authorization'' =
     map_option (\<lambda>v. fold (\<lambda>re s. rx_replace_all R re s ''[REDACTED]'') res v) (hm_get fs ''authorization'')"
proof -
  have "to_lower ''authorization'' = ''authorization''" by code_simp
  then show ?thesis using assms(1)
    by (cases "hm_get fs ''authorization''") (simp_all add: redact_fields_get redaction_default_def redact_string_def)
qed

lemma bad_pattern_stops_startup:
  assumes "p \<in> set (rd_patterns config)" "rx_new R p = Inl e"
  shows "\<exists>err. init_redaction R config patterns = (Inl err, patterns)"
proof -
  have "p \<in> set ps \<Longrightarrow> \<exists>err. compile_patterns R ps = Inl err" for ps
  proof (induction ps)
    case (Cons q ps)
    then show ?case
      using assms(2) by (cases "rx_new R q") (auto simp: and_then_def map_err_def map_ok_def)
  qed simp
  from this [OF assms(1)] show ?thesis by (auto simp: init_redaction_def)
qed

subsection \<open>Readiness (health.rs)\<close>

datatype health_status = HealthOk | HealthDegraded | HealthDown

text \<open>The answer of a dependency's URL: a status, or no answer.\<close>

definition http_health_check :: "'h + nat \<Rightarrow> health_status" where
  "http_health_check resp =
     (case resp of
        Inr status \<Rightarrow> (if 200 \<le> status \<and> status < 300 then HealthOk else HealthDegraded)
      | Inl e \<Rightarrow> HealthDown)"

text \<open>A checker has a name and, for each time, what a check then finds. Times are those of a monotonic
  clock, in milliseconds.\<close>

record health_checker =
  hk_name :: string
  hk_check :: "int \<Rightarrow> health_status"

record ready_checker =
  ry_checkers :: "health_checker list"
  ry_last_check :: int
  ry_last_results :: "(string, health_status) hash_map"
  ry_check_interval :: int

definition ready_checker_new :: "int \<Rightarrow> int \<Rightarrow> ready_checker" where
  "ready_checker_new now interval =
     \<lparr>ry_checkers = [], ry_last_check = now - interval, ry_last_results = [], ry_check_interval = interval\<rparr>"

definition add_checker :: "health_checker \<Rightarrow> ready_checker \<Rightarrow> ready_checker" where
  "add_checker c r = r\<lparr>ry_checkers := ry_checkers r @ [c]\<rparr>"

definition all_ok :: "(string, health_status) hash_map \<Rightarrow> bool" where
  "all_ok results = list_all (\<lambda>(n, s). s = HealthOk) results"

text \<open>The clock is read when the call begins and again before the checks, which are taken to happen at
  that second time.\<close>

definition is_ready :: "int \<Rightarrow> int \<Rightarrow> ready_checker \<Rightarrow> bool \<times> ready_checker" where
  "is_ready asked now r =
     (if max 0 (asked - ry_last_check r) < ry_check_interval r then (all_ok (ry_last_results r), r)
      else
        let results = fold (\<lambda>c. hm_put (hk_name c) (hk_check c now)) (ry_checkers r) []
        in (all_ok results, r\<lparr>ry_last_check := now, ry_last_results := results\<rparr>))"

definition health_metric :: "int \<Rightarrow> int \<Rightarrow> ready_checker \<Rightarrow> nat \<times> ready_checker" where
  "health_metric asked now r = (case is_ready asked now r of (b, r') \<Rightarrow> ((if b then 1 else 0), r'))"

lemma checks_of_distinct:
  "distinct (map hk_name cs) \<Longrightarrow>
     set (fold (\<lambda>c. hm_put (hk_name c) (hk_check c t)) cs []) = (\<lambda>c. (hk_name c, hk_check c t)) ` set cs"
proof (induction cs rule: rev_induct)
  case (snoc c cs)
  have absent: "k \<notin> fst ` set m \<Longrightarrow> set (hm_put k v m) = insert (k, v) (set m)" for k m and v :: health_status
    by (induction m) (auto split: if_splits)
  have "hk_name c \<notin> fst ` set (fold (\<lambda>c. hm_put (hk_name c) (hk_check c t)) cs [])"
    using snoc by force
  with snoc show ?case by (simp add: absent)
qed simp

text \<open>The stored results are those of the last check, or there has been none and the next call checks.\<close>

definition results_current :: "ready_checker \<Rightarrow> bool" where
  "results_current r \<longleftrightarrow>
     ry_last_results r = fold (\<lambda>c. hm_put (hk_name c) (hk_check c (ry_last_check r))) (ry_checkers r) []"

lemma is_ready_keeps_checkers: "ry_checkers (snd (is_ready asked now r)) = ry_checkers r"
  "ry_check_interval (snd (is_ready asked now r)) = ry_check_interval r"
  by (simp_all add: is_ready_def Let_def)

lemma is_ready_first:
  assumes "ry_last_check r + ry_check_interval r \<le> asked"
  shows "results_current (snd (is_ready asked now r))" "ry_last_check (snd (is_ready asked now r)) = now"
  using assms by (simp_all add: is_ready_def results_current_def Let_def)

lemma is_ready_current: "results_current r \<Longrightarrow> results_current (snd (is_ready asked now r))"
  by (simp add: is_ready_def results_current_def Let_def)

lemma runs_stay_current: "results_current r \<Longrightarrow> results_current (fold (\<lambda>(a, t) r. snd (is_ready a t r)) ts r)"
  by (induction ts arbitrary: r) (simp_all add: is_ready_current split: prod.split)

lemma all_ok_iff:
  assumes "distinct (map hk_name cs)"
  shows "all_ok (fold (\<lambda>c. hm_put (hk_name c) (hk_check c t)) cs []) \<longleftrightarrow> (\<forall>c \<in> set cs. hk_check c t = HealthOk)"
  by (auto simp: all_ok_def list_all_iff checks_of_distinct [OF assms])

text \<open>A service that was set up at \<open>start\<close> and asked at the times \<open>ts\<close>, and then again, answers ready
  exactly when at some time less than the interval ago, or during the call, every dependency was well.\<close>

lemma run_interval: "ry_check_interval (fold (\<lambda>(a, t) r. snd (is_ready a t r)) ts r) = ry_check_interval r"
  by (induction ts arbitrary: r) (simp_all add: is_ready_keeps_checkers split: prod.split)

lemma run_checkers: "ry_checkers (fold (\<lambda>(a, t) r. snd (is_ready a t r)) ts r) = ry_checkers r"
  by (induction ts arbitrary: r) (simp_all add: is_ready_keeps_checkers split: prod.split)

lemma ready_rests_on_recent_checks:
  assumes names: "distinct (map hk_name cs)"
    and first: "ts = (a, t) # rest" "start \<le> a"
    and r: "r = fold (\<lambda>(a, t) r. snd (is_ready a t r)) ts (fold add_checker cs (ready_checker_new start interval))"
  shows "\<exists>u. (u = now \<or> max 0 (asked - u) < interval)
     \<and> (fst (is_ready asked now r) \<longleftrightarrow> (\<forall>c \<in> set cs. hk_check c u = HealthOk))"
proof -
  define r0 where "r0 = fold add_checker cs (ready_checker_new start interval)"
  have add: "fold add_checker cs q = q\<lparr>ry_checkers := ry_checkers q @ cs\<rparr>" for q
    by (induction cs arbitrary: q) (simp_all add: add_checker_def)
  have r0: "ry_checkers r0 = cs" "ry_check_interval r0 = interval" "ry_last_check r0 = start - interval"
    by (simp_all add: r0_def add ready_checker_new_def)
  have "results_current (snd (is_ready a t r0))" by (rule is_ready_first) (use first r0 in simp)
  then have cur: "results_current r"
    unfolding r first r0_def [symmetric] by (simp add: runs_stay_current)
  have cs: "ry_checkers r = cs" "ry_check_interval r = interval"
    unfolding r r0_def [symmetric] by (simp_all only: run_checkers run_interval r0)
  show ?thesis
  proof (cases "max 0 (asked - ry_last_check r) < interval")
    case True
    have "fst (is_ready asked now r) = all_ok (ry_last_results r)" using True cs by (simp add: is_ready_def)
    also have "\<dots> \<longleftrightarrow> (\<forall>c \<in> set cs. hk_check c (ry_last_check r) = HealthOk)"
      using cur unfolding results_current_def by (simp only: cs all_ok_iff [OF names])
    finally show ?thesis using True by blast
  next
    case False
    then have "fst (is_ready asked now r) \<longleftrightarrow> (\<forall>c \<in> set cs. hk_check c now = HealthOk)"
      using all_ok_iff [OF names] cs by (auto simp: is_ready_def Let_def)
    then show ?thesis by blast
  qed
qed

text \<open>The results are keyed by name, so of two checkers with one name only the last counts.\<close>

lemma namesake_hides_failure:
  assumes "hk_name b = hk_name a" "hk_check a now = HealthDown" "hk_check b now = HealthOk" "start \<le> asked"
  shows "fst (is_ready asked now (add_checker b (add_checker a (ready_checker_new start interval))))"
  using assms by (simp add: is_ready_def add_checker_def ready_checker_new_def all_ok_def)

subsection \<open>Metrics (metrics.rs)\<close>

text \<open>Floating-point numbers; \<open>fo_lit\<close> reads a literal of the source. Counts are natural numbers, as
  no process comes near two to the 64 observations.\<close>

record 'f float_ops =
  fo_lit :: "string \<Rightarrow> 'f"
  fo_add :: "'f \<Rightarrow> 'f \<Rightarrow> 'f"
  fo_le :: "'f \<Rightarrow> 'f \<Rightarrow> bool"
  fo_show :: "'f \<Rightarrow> string"

type_synonym metric_labels = "(string, string) hash_map"

record 'f gauge =
  ga_name :: string
  ga_help :: string
  ga_value :: 'f
  ga_labels :: metric_labels

record counter =
  co_name :: string
  co_help :: string
  co_value :: nat
  co_labels :: metric_labels

record 'f histogram =
  hi_name :: string
  hi_help :: string
  hi_sum :: 'f
  hi_count :: nat
  hi_buckets :: "('f \<times> nat) list"
  hi_labels :: metric_labels

record 'f metric_registry =
  mr_gauges :: "(string, 'f gauge) hash_map"
  mr_counters :: "(string, counter) hash_map"
  mr_histograms :: "(string, 'f histogram) hash_map"

definition metric_registry_new :: "'f metric_registry" where
  "metric_registry_new = \<lparr>mr_gauges = [], mr_counters = [], mr_histograms = []\<rparr>"

definition set_counter :: "string \<Rightarrow> string \<Rightarrow> nat \<Rightarrow> metric_labels \<Rightarrow> 'f metric_registry \<Rightarrow> 'f metric_registry" where
  "set_counter name help v labels m = m\<lparr>mr_counters :=
     hm_put name \<lparr>co_name = name, co_help = help, co_value = v, co_labels = labels\<rparr> (mr_counters m)\<rparr>"

definition empty_histogram :: "'f float_ops \<Rightarrow> string \<Rightarrow> string \<Rightarrow> 'f list \<Rightarrow> metric_labels \<Rightarrow> 'f histogram" where
  "empty_histogram F name help bounds labels =
     \<lparr>hi_name = name, hi_help = help, hi_sum = fo_lit F ''0.0'', hi_count = 0,
      hi_buckets = map (\<lambda>b. (b, 0)) bounds, hi_labels = labels\<rparr>"

definition register_histogram ::
  "'f float_ops \<Rightarrow> string \<Rightarrow> string \<Rightarrow> 'f list \<Rightarrow> metric_labels \<Rightarrow> 'f metric_registry \<Rightarrow> 'f metric_registry" where
  "register_histogram F name help bounds labels m =
     (case hm_get (mr_histograms m) name of
        Some h \<Rightarrow> m
      | None \<Rightarrow> m\<lparr>mr_histograms := hm_put name (empty_histogram F name help bounds labels) (mr_histograms m)\<rparr>)"

definition observe_value :: "'f float_ops \<Rightarrow> 'f \<Rightarrow> 'f histogram \<Rightarrow> 'f histogram" where
  "observe_value F v h = h\<lparr>hi_sum := fo_add F (hi_sum h) v, hi_count := hi_count h + 1,
     hi_buckets := map (\<lambda>(b, n). (b, if fo_le F v b then n + 1 else n)) (hi_buckets h)\<rparr>"

definition observe_histogram ::
  "'f float_ops \<Rightarrow> string \<Rightarrow> string \<Rightarrow> 'f \<Rightarrow> 'f list \<Rightarrow> metric_labels \<Rightarrow> 'f metric_registry \<Rightarrow> 'f metric_registry" where
  "observe_histogram F name help v bounds labels m =
     (let h = (case hm_get (mr_histograms m) name of Some h \<Rightarrow> h | None \<Rightarrow> empty_histogram F name help bounds labels)
      in m\<lparr>mr_histograms := hm_put name (observe_value F v h) (mr_histograms m)\<rparr>)"

definition set_gauge :: "string \<Rightarrow> string \<Rightarrow> 'f \<Rightarrow> metric_labels \<Rightarrow> 'f metric_registry \<Rightarrow> 'f metric_registry" where
  "set_gauge name help v labels m = m\<lparr>mr_gauges :=
     hm_put name \<lparr>ga_name = name, ga_help = help, ga_value = v, ga_labels = labels\<rparr> (mr_gauges m)\<rparr>"

text \<open>The label pairs in the order of their keys, an extra pair after those with the same key.\<close>

definition format_labels :: "metric_labels \<Rightarrow> (string \<times> string) option \<Rightarrow> string" where
  "format_labels labels extra =
     (let vs = sort_key fst (labels @ (case extra of Some p \<Rightarrow> [p] | None \<Rightarrow> []))
      in if vs = [] then []
         else CHR ''{'' # join_with '','' (map (\<lambda>(k, v). k @ ''='' @ [CHR 0x22] @ v @ [CHR 0x22]) vs) @ ''}'')"

definition metric_head :: "string \<Rightarrow> string \<Rightarrow> string \<Rightarrow> string" where
  "metric_head name help kind =
     ''# HELP '' @ name @ '' '' @ help @ [CHR 0x0A] @ ''# TYPE '' @ name @ '' '' @ kind @ [CHR 0x0A]"

definition metric_line :: "string \<Rightarrow> string \<Rightarrow> string \<Rightarrow> string" where
  "metric_line name labels v = name @ labels @ '' '' @ v @ [CHR 0x0A]"

definition export_histogram :: "'f float_ops \<Rightarrow> 'f histogram \<Rightarrow> string" where
  "export_histogram F h =
     (let labels = format_labels (hi_labels h) None
      in metric_head (hi_name h) (hi_help h) ''histogram''
         @ concat (map (\<lambda>(b, n). metric_line (hi_name h @ ''_bucket'')
               (format_labels (hi_labels h) (Some (''le'', fo_show F b))) (show_nat n)) (hi_buckets h))
         @ metric_line (hi_name h @ ''_bucket'') (format_labels (hi_labels h) (Some (''le'', ''+Inf''))) (show_nat (hi_count h))
         @ metric_line (hi_name h @ ''_sum'') labels (fo_show F (hi_sum h))
         @ metric_line (hi_name h @ ''_count'') labels (show_nat (hi_count h)))"

definition export_prometheus :: "'f float_ops \<Rightarrow> 'f metric_registry \<Rightarrow> string" where
  "export_prometheus F m =
     concat (map (\<lambda>g. metric_head (ga_name g) (ga_help g) ''gauge''
         @ metric_line (ga_name g) (format_labels (ga_labels g) None) (fo_show F (ga_value g)))
       (sort_key ga_name (map snd (mr_gauges m))))
     @ concat (map (\<lambda>c. metric_head (co_name c) (co_help c) ''counter''
         @ metric_line (co_name c) (format_labels (co_labels c) None) (show_nat (co_value c)))
       (sort_key co_name (map snd (mr_counters m))))
     @ concat (map (export_histogram F) (sort_key hi_name (map snd (mr_histograms m))))"

definition register_standard_metrics :: "'f float_ops \<Rightarrow> 'f metric_registry \<Rightarrow> 'f metric_registry" where
  "register_standard_metrics F m =
     set_gauge ''aether_opportunity_lifecycle_open'' ''Open opportunity lifecycle count'' (fo_lit F ''0.0'') []
     (set_gauge ''aether_job_last_success_ts'' ''Last successful job run'' (fo_lit F ''0.0'') [(''job'', ''audit-verify'')]
     (set_gauge ''aether_audit_last_verify_ts'' ''Last audit verify timestamp'' (fo_lit F ''0.0'') []
     (set_gauge ''aether_audit_chain_verified'' ''Audit chain verified flag'' (fo_lit F ''1.0'') []
     (set_gauge ''aether_guardian_proposals'' ''Guardian proposal count'' (fo_lit F ''0.0'') [(''state'', ''pending'')]
     (set_gauge ''aether_order_latency_ms'' ''Order submission latency'' (fo_lit F ''0.0'') []
     (set_gauge ''aether_router_decisions'' ''Router decisions by reason'' (fo_lit F ''0.0'') [(''reason'', ''total'')]
     (set_counter ''aether_scan_fill_failures_total'' ''Scanner candidates rejected by missing or unfillable books'' 0 []
     (set_counter ''aether_scan_shed_total'' ''Scanner shed count'' 0 []
     (register_histogram F ''aether_scan_cycle_ms'' ''Scanner cycle duration''
        [fo_lit F ''100.0'', fo_lit F ''250.0'', fo_lit F ''500.0'', fo_lit F ''1_000.0''] []
     (set_gauge ''aether_feed_lag_ms'' ''Age of most recent normalized tick'' (fo_lit F ''0.0'') [] m))))))))))"

lemma observe_value_parts:
  "hi_count (fold (observe_value F) vs h) = hi_count h + length vs"
  "hi_buckets (fold (observe_value F) vs h) =
     map (\<lambda>(b, n). (b, n + length (filter (\<lambda>v. fo_le F v b) vs))) (hi_buckets h)"
  "hi_sum (fold (observe_value F) vs h) = foldl (fo_add F) (hi_sum h) vs"
  by (induction vs arbitrary: h) (auto simp: observe_value_def)

lemma observations_of_one:
  assumes "hm_get (mr_histograms m) name = Some h"
  shows "hm_get (mr_histograms (fold (\<lambda>v. observe_histogram F name help v bounds labels) vs m)) name =
     Some (fold (observe_value F) vs h)"
  using assms
proof (induction vs arbitrary: m h)
  case (Cons v vs)
  have "hm_get (mr_histograms (observe_histogram F name help v bounds labels m)) name = Some (observe_value F v h)"
    using Cons.prems by (simp add: observe_histogram_def hm_get_put)
  from Cons.IH [OF this] show ?case by simp
qed simp

text \<open>From its registration on, a histogram holds the number of the values observed and, for each bound, the
  number of those that are at most the bound.\<close>

lemma histogram_counts_observations:
  assumes "hm_get (mr_histograms m) name = None"
  shows "\<exists>h. hm_get (mr_histograms (fold (\<lambda>v. observe_histogram F name help v bounds' labels') vs
       (register_histogram F name help bounds labels m))) name = Some h
     \<and> hi_count h = length vs \<and> hi_sum h = foldl (fo_add F) (fo_lit F ''0.0'') vs
     \<and> hi_buckets h = map (\<lambda>b. (b, length (filter (\<lambda>v. fo_le F v b) vs))) bounds"
proof -
  have "hm_get (mr_histograms (register_histogram F name help bounds labels m)) name =
      Some (empty_histogram F name help bounds labels)"
    using assms by (simp add: register_histogram_def hm_get_put)
  from observations_of_one [OF this] show ?thesis
    by (auto simp: observe_value_parts empty_histogram_def)
qed

lemma observing_leaves_other_histograms:
  "other \<noteq> name \<Longrightarrow>
     hm_get (mr_histograms (observe_histogram F name help v bounds labels m)) other = hm_get (mr_histograms m) other"
  by (simp add: observe_histogram_def hm_get_put Let_def)

text \<open>Gauges are keyed by their name alone, so setting one with other labels drops the first series.\<close>

lemma gauge_keeps_one_series:
  "hm_get (mr_gauges (set_gauge name help v labels (set_gauge name help' w labels' m))) name =
     Some \<lparr>ga_name = name, ga_help = help, ga_value = v, ga_labels = labels\<rparr>"
  "mr_gauges (set_gauge name help v labels (set_gauge name help' w labels' m)) =
     mr_gauges (set_gauge name help v labels m)"
  by (simp_all add: set_gauge_def hm_get_put)

text \<open>A label value is printed as it is, so a quotation mark in it ends the label.\<close>

lemma label_values_not_escaped:
  "format_labels [(''venue'', ''a'' @ [CHR 0x22] @ '',x='' @ [CHR 0x22] @ ''b'')] None =
     format_labels [(''venue'', ''a''), (''x'', ''b'')] None"
  by code_simp

subsection \<open>Trace identifiers (trace.rs)\<close>

text \<open>The counter of the process and the text of a random UUID.\<close>

definition new_trace_id :: "string \<Rightarrow> u64 \<Rightarrow> string \<times> u64" where
  "new_trace_id uuid counter = (''trace-'' @ show_nat (unat counter) @ ''-'' @ take 8 uuid, counter + 1)"

record trace_context =
  tc_trace_id :: string
  tc_span_id :: string

definition new_span_id :: "string \<Rightarrow> string" where
  "new_span_id uuid = ''span-'' @ take 8 uuid"

definition trace_context_new :: "string \<Rightarrow> string \<Rightarrow> u64 \<Rightarrow> trace_context \<times> u64" where
  "trace_context_new uuid span_uuid counter =
     (case new_trace_id uuid counter of (t, c) \<Rightarrow> (\<lparr>tc_trace_id = t, tc_span_id = new_span_id span_uuid\<rparr>, c))"

definition child_context :: "string \<Rightarrow> trace_context \<Rightarrow> trace_context" where
  "child_context span_uuid t = \<lparr>tc_trace_id = tc_trace_id t, tc_span_id = new_span_id span_uuid\<rparr>"

lemma trace_ids_differ: "fst (new_trace_id a c) = fst (new_trace_id b d) \<Longrightarrow> c = d"
proof -
  assume e: "fst (new_trace_id a c) = fst (new_trace_id b d)"
  have "CHR ''-'' \<notin> set (show_nat n)" for n by (rule show_nat_no) simp
  with e have "show_nat (unat c) = show_nat (unat d)"
    by (simp add: new_trace_id_def separator_split)
  then show "c = d" by (simp add: show_nat_inject word_unat_eq_iff)
qed

lemma child_shares_trace_id: "tc_trace_id (child_context u t) = tc_trace_id t"
  by (simp add: child_context_def)

text \<open>The counter is not padded, so identifiers do not sort in the order they were made.\<close>

lemma trace_ids_not_sortable: "text_less (fst (new_trace_id a 10)) (fst (new_trace_id b 9))"
  by (simp add: new_trace_id_def show_nat.simps digit_char_def)

end
