(* ===== verification/Desktop_Client.thy ===== *)
theory Desktop_Client
  imports Core_Types Rust_Text Hex_Numbers
begin

text \<open>
  The commands of the desktop client (\<^verbatim>\<open>client/src-tauri\<close>): the session token in the keychain of the operating
  system (\<^verbatim>\<open>keychain.rs\<close>), the cache of encrypted files (\<^verbatim>\<open>cache.rs\<close>) and the address of the gateway
  (\<^verbatim>\<open>config.rs\<close>). The keychain, the cipher and the settings store are arguments; the disk is the cache
  directory with its files, and every call of the file system may fail. The lemmas show that an item stored
  is read back and leaves the others alone, and which addresses the client accepts.
\<close>

subsection \<open>Keychain (keychain.rs)\<close>

datatype keyring_error = NoEntry | KeyringError string

text \<open>The calls of the \<^verbatim>\<open>keyring\<close> crate on the entry of a service and a name: opening it, reading,
  writing and deleting its password, on a state of the crate's own.\<close>

record 'k keyring =
  kr_new :: "string \<Rightarrow> string \<Rightarrow> 'k \<Rightarrow> string option"
  kr_get_password :: "string \<Rightarrow> string \<Rightarrow> 'k \<Rightarrow> keyring_error + string"
  kr_set_password :: "string \<Rightarrow> string \<Rightarrow> string \<Rightarrow> 'k \<Rightarrow> (string + unit) \<times> 'k"
  kr_delete_credential :: "string \<Rightarrow> string \<Rightarrow> 'k \<Rightarrow> (keyring_error + unit) \<times> 'k"

definition service_name :: string where
  "service_name = ''aether-terminal''"

definition token_key :: string where
  "token_key = ''session-token''"

definition get_session_token :: "'k keyring \<Rightarrow> 'k \<Rightarrow> string + string option" where
  "get_session_token K k =
     (case kr_new K service_name token_key k of
        Some e \<Rightarrow> Inl (''Keychain unavailable: '' @ e)
      | None \<Rightarrow> (case kr_get_password K service_name token_key k of
            Inr token \<Rightarrow> Inr (Some token)
          | Inl NoEntry \<Rightarrow> Inr None
          | Inl (KeyringError e) \<Rightarrow> Inl (''Failed to read session token: '' @ e)))"

definition set_session_token :: "'k keyring \<Rightarrow> string \<Rightarrow> 'k \<Rightarrow> (string + unit) \<times> 'k" where
  "set_session_token K token k =
     (case kr_new K service_name token_key k of
        Some e \<Rightarrow> (Inl (''Keychain unavailable: '' @ e), k)
      | None \<Rightarrow> (case kr_set_password K service_name token_key token k of
            (r, k') \<Rightarrow> (map_err (\<lambda>e. ''Failed to store session token: '' @ e) r, k')))"

definition delete_session_token :: "'k keyring \<Rightarrow> 'k \<Rightarrow> (string + unit) \<times> 'k" where
  "delete_session_token K k =
     (case kr_new K service_name token_key k of
        Some e \<Rightarrow> (Inl (''Keychain unavailable: '' @ e), k)
      | None \<Rightarrow> (case kr_delete_credential K service_name token_key k of
            (Inr u, k') \<Rightarrow> (Inr (), k')
          | (Inl NoEntry, k') \<Rightarrow> (Inr (), k')
          | (Inl (KeyringError e), k') \<Rightarrow> (Inl (''Failed to delete session token: '' @ e), k')))"

subsection \<open>Cipher and key (cache.rs)\<close>

text \<open>AES-256-GCM: sealing and opening under a key and a nonce. \<open>hex_error\<close> prints why a text is not
  hexadecimal.\<close>

record cipher =
  ci_seal :: "u8 list \<Rightarrow> u8 list \<Rightarrow> u8 list \<Rightarrow> string + u8 list"
  ci_open :: "u8 list \<Rightarrow> u8 list \<Rightarrow> u8 list \<Rightarrow> string + u8 list"
  ci_hex_error :: "string \<Rightarrow> string"

definition cache_key_name :: string where
  "cache_key_name = ''cache-encryption-key''"

definition nonce_size :: nat where
  "nonce_size = 12"

text \<open>\<open>fresh\<close> is what the random generator would fill a new key with.\<close>

definition get_or_create_cache_key ::
  "'k keyring \<Rightarrow> cipher \<Rightarrow> u8 list \<Rightarrow> 'k \<Rightarrow> (string + u8 list) \<times> 'k" where
  "get_or_create_cache_key K A fresh k =
     (case kr_new K service_name cache_key_name k of
        Some e \<Rightarrow> (Inl (''Keychain unavailable: '' @ e), k)
      | None \<Rightarrow> (case kr_get_password K service_name cache_key_name k of
            Inr hex_key \<Rightarrow>
              (and_then (ok_or (''Failed to decode cache key: '' @ ci_hex_error A hex_key) (hex_decode hex_key)) (\<lambda>decoded.
                 if length decoded \<noteq> 32 then Inl ''Invalid cache key length in keychain'' else Inr decoded), k)
          | Inl NoEntry \<Rightarrow>
              (case kr_set_password K service_name cache_key_name (encode_hex fresh) k of
                 (Inl e, k') \<Rightarrow> (Inl (''Failed to persist cache key: '' @ e), k')
               | (Inr u, k') \<Rightarrow> (Inr fresh, k'))
          | Inl (KeyringError e) \<Rightarrow> (Inl (''Failed to read cache key from keychain: '' @ e), k)))"

definition encrypt_with_key :: "cipher \<Rightarrow> u8 list \<Rightarrow> u8 list \<Rightarrow> u8 list \<Rightarrow> string + u8 list" where
  "encrypt_with_key A key nonce data =
     map_ok (\<lambda>ciphertext. nonce @ ciphertext) (map_err (\<lambda>e. ''Encryption failed: '' @ e) (ci_seal A key nonce data))"

definition decrypt_with_key :: "cipher \<Rightarrow> u8 list \<Rightarrow> u8 list \<Rightarrow> string + u8 list" where
  "decrypt_with_key A key data =
     (if length data < nonce_size then Inl ''Invalid encrypted data: too short''
      else map_err (\<lambda>e. ''Decryption failed: '' @ e) (ci_open A key (take nonce_size data) (drop nonce_size data)))"

text \<open>What the random generator gives in one call: a key, should one be needed, and a nonce.\<close>

record draws =
  dr_key :: "u8 list"
  dr_nonce :: "u8 list"

definition cache_encrypt ::
  "'k keyring \<Rightarrow> cipher \<Rightarrow> draws \<Rightarrow> u8 list \<Rightarrow> 'k \<Rightarrow> (string + u8 list) \<times> 'k" where
  "cache_encrypt K A d data =
     then_do (get_or_create_cache_key K A (dr_key d)) (\<lambda>key k. (encrypt_with_key A key (dr_nonce d) data, k))"

definition cache_decrypt ::
  "'k keyring \<Rightarrow> cipher \<Rightarrow> draws \<Rightarrow> u8 list \<Rightarrow> 'k \<Rightarrow> (string + u8 list) \<times> 'k" where
  "cache_decrypt K A d data =
     then_do (get_or_create_cache_key K A (dr_key d)) (\<lambda>key k. (decrypt_with_key A key data, k))"

subsection \<open>Files (cache.rs)\<close>

text \<open>The cache directory, if it exists, with the contents of its files by name.\<close>

record 'k desktop =
  dk_ring :: 'k
  dk_dir :: "(string, u8 list) hash_map option"

text \<open>The faults of one call. A write that fails leaves the file as it was or with part of the contents,
  a removal that fails leaves some of the files.\<close>

record disk_faults =
  df_data_dir :: "string option"
  df_create :: "string option"
  df_read :: "string option"
  df_write :: "(string \<times> u8 list option) option"
  df_remove :: "(string \<times> string list) option"

definition no_faults :: disk_faults where
  "no_faults = \<lparr>df_data_dir = None, df_create = None, df_read = None, df_write = None, df_remove = None\<rparr>"

text \<open>\<^verbatim>\<open>create_dir_all\<close>.\<close>

definition create_dir :: "disk_faults \<Rightarrow> 'k desktop \<Rightarrow> (string + unit) \<times> 'k desktop" where
  "create_dir f s =
     (case df_create f of
        Some e \<Rightarrow> (Inl (''Failed to create cache directory: '' @ e), s)
      | None \<Rightarrow> (Inr (), case dk_dir s of None \<Rightarrow> s\<lparr>dk_dir := Some []\<rparr> | Some files \<Rightarrow> s))"

definition cache_dir :: "disk_faults \<Rightarrow> 'k desktop \<Rightarrow> (string + unit) \<times> 'k desktop" where
  "cache_dir f s =
     (case df_data_dir f of
        Some e \<Rightarrow> (Inl (''Failed to resolve app data dir: '' @ e), s)
      | None \<Rightarrow> create_dir f s)"

definition cache_file :: "string \<Rightarrow> string" where
  "cache_file key = encode_hex (map byte_of key) @ ''.bin''"

definition file_contents :: "string \<Rightarrow> 'k desktop \<Rightarrow> u8 list option" where
  "file_contents name s = Option.bind (dk_dir s) (\<lambda>files. hm_get files name)"

definition on_ring :: "('k \<Rightarrow> 'a \<times> 'k) \<Rightarrow> 'k desktop \<Rightarrow> 'a \<times> 'k desktop" where
  "on_ring m s = (case m (dk_ring s) of (r, k) \<Rightarrow> (r, s\<lparr>dk_ring := k\<rparr>))"

definition get_cached_item_in_dir ::
  "'k keyring \<Rightarrow> cipher \<Rightarrow> draws \<Rightarrow> disk_faults \<Rightarrow> string \<Rightarrow> 'k desktop \<Rightarrow> (string + u8 list option) \<times> 'k desktop" where
  "get_cached_item_in_dir K A d f key s =
     (case file_contents (cache_file key) s of
        None \<Rightarrow> (Inr None, s)
      | Some encrypted \<Rightarrow> (case df_read f of
            Some e \<Rightarrow> (Inl (''Failed to read cache file: '' @ e), s)
          | None \<Rightarrow> then_do (on_ring (cache_decrypt K A d encrypted)) (\<lambda>data s. (Inr (Some data), s)) s))"

definition write_file :: "disk_faults \<Rightarrow> string \<Rightarrow> u8 list \<Rightarrow> 'k desktop \<Rightarrow> (string + unit) \<times> 'k desktop" where
  "write_file f name data s =
     (case df_write f of
        None \<Rightarrow> (Inr (), s\<lparr>dk_dir := map_option (hm_put name data) (dk_dir s)\<rparr>)
      | Some (e, partial) \<Rightarrow> (Inl (''Failed to write cache file: '' @ e),
          case partial of None \<Rightarrow> s | Some p \<Rightarrow> s\<lparr>dk_dir := map_option (hm_put name p) (dk_dir s)\<rparr>))"

definition set_cached_item_in_dir ::
  "'k keyring \<Rightarrow> cipher \<Rightarrow> draws \<Rightarrow> disk_faults \<Rightarrow> string \<Rightarrow> u8 list \<Rightarrow> 'k desktop \<Rightarrow> (string + unit) \<times> 'k desktop" where
  "set_cached_item_in_dir K A d f key data =
     then_do (create_dir f) (\<lambda>_.
     then_do (on_ring (cache_encrypt K A d data)) (\<lambda>encrypted.
     write_file f (cache_file key) encrypted))"

definition get_cached_item ::
  "'k keyring \<Rightarrow> cipher \<Rightarrow> draws \<Rightarrow> disk_faults \<Rightarrow> string \<Rightarrow> 'k desktop \<Rightarrow> (string + u8 list option) \<times> 'k desktop" where
  "get_cached_item K A d f key = then_do (cache_dir f) (\<lambda>_. get_cached_item_in_dir K A d f key)"

definition set_cached_item ::
  "'k keyring \<Rightarrow> cipher \<Rightarrow> draws \<Rightarrow> disk_faults \<Rightarrow> string \<Rightarrow> u8 list \<Rightarrow> 'k desktop \<Rightarrow> (string + unit) \<times> 'k desktop" where
  "set_cached_item K A d f key data = then_do (cache_dir f) (\<lambda>_. set_cached_item_in_dir K A d f key data)"

definition clear_cache :: "disk_faults \<Rightarrow> 'k desktop \<Rightarrow> (string + unit) \<times> 'k desktop" where
  "clear_cache f =
     then_do (cache_dir f) (\<lambda>_ s.
       case df_remove f of
         None \<Rightarrow> (Inr (), s\<lparr>dk_dir := None\<rparr>)
       | Some (e, left) \<Rightarrow> (Inl (''Failed to clear cache directory: '' @ e),
           s\<lparr>dk_dir := map_option (AList.restrict (set left)) (dk_dir s)\<rparr>))"

subsection \<open>Gateway address (config.rs)\<close>

text \<open>\<^verbatim>\<open>find\<close> of a text: where it first begins.\<close>

fun find_text :: "string \<Rightarrow> string \<Rightarrow> nat option" where
  "find_text p [] = (if p = [] then Some 0 else None)"
| "find_text p (c # s) = (if starts_with p (c # s) then Some 0 else map_option Suc (find_text p s))"

definition extract_host :: "string \<Rightarrow> string option" where
  "extract_host url =
     map_option (\<lambda>i. takeWhile (\<lambda>c. c \<noteq> CHR '':'' \<and> c \<noteq> CHR ''/'') (drop (i + 3) url)) (find_text ''://'' url)"

definition is_local_host :: "string \<Rightarrow> bool" where
  "is_local_host host \<longleftrightarrow> host = ''localhost'' \<or> host = ''127.0.0.1''"

definition validate_localhost_url :: "string \<Rightarrow> string option" where
  "validate_localhost_url url =
     Option.bind (extract_host url) (\<lambda>host. if is_local_host host then Some url else None)"

definition default_gateway_url :: string where
  "default_gateway_url = ''ws://localhost:8080/ws''"

text \<open>The settings store of Tauri: opening it, reading, writing and saving it.\<close>

record 't settings =
  st_open :: "'t \<Rightarrow> string option"
  st_get :: "string \<Rightarrow> 't \<Rightarrow> json option"
  st_set :: "string \<Rightarrow> json \<Rightarrow> 't \<Rightarrow> 't"
  st_save :: "'t \<Rightarrow> (string + unit) \<times> 't"

definition get_gateway_url :: "'t settings \<Rightarrow> string option \<Rightarrow> 't \<Rightarrow> string" where
  "get_gateway_url S env t =
     (case Option.bind env validate_localhost_url of
        Some valid \<Rightarrow> valid
      | None \<Rightarrow>
          (if st_open S t \<noteq> None then default_gateway_url
           else (case st_get S ''gateway_url'' t of
                   Some (JString url) \<Rightarrow>
                     (if url = [] then default_gateway_url
                      else (case validate_localhost_url url of Some valid \<Rightarrow> valid | None \<Rightarrow> default_gateway_url))
                 | _ \<Rightarrow> default_gateway_url)))"

definition set_gateway_url :: "'t settings \<Rightarrow> string \<Rightarrow> 't \<Rightarrow> (string + unit) \<times> 't" where
  "set_gateway_url S url t =
     (case extract_host url of
        None \<Rightarrow> (Inl ''Invalid URL format'', t)
      | Some host \<Rightarrow>
          (if \<not> is_local_host host then (Inl ''Only localhost gateway URLs are supported in this phase'', t)
           else (case st_open S t of
                   Some e \<Rightarrow> (Inl (''Failed to open config store: '' @ e), t)
                 | None \<Rightarrow> (case st_save S (st_set S ''gateway_url'' (JString url) t) of
                     (r, t') \<Rightarrow> (map_err (\<lambda>e. ''Failed to persist gateway URL: '' @ e) r, t')))))"

subsection \<open>What is stored is read back\<close>

text \<open>A keychain whose entries stay: what was written is read, opening does not fail.\<close>

definition keeps_entries :: "'k keyring \<Rightarrow> bool" where
  "keeps_entries K \<longleftrightarrow>
     (\<forall>s n k. kr_new K s n k = None)
     \<and> (\<forall>s n p k k'. kr_set_password K s n p k = (Inr (), k') \<longrightarrow> kr_get_password K s n k' = Inr p)"

definition opens_sealed :: "cipher \<Rightarrow> bool" where
  "opens_sealed A \<longleftrightarrow> (\<forall>key nonce data c. ci_seal A key nonce data = Inr c \<longrightarrow> ci_open A key nonce c = Inr data)"

lemma token_round_trip:
  assumes "keeps_entries K" "set_session_token K token k = (Inr (), k')"
  shows "get_session_token K k' = Inr (Some token)"
  using assms
  by (auto simp: keeps_entries_def set_session_token_def get_session_token_def map_err_Inr_iff split: prod.splits)

lemma deleting_missing_token_succeeds:
  assumes "kr_new K service_name token_key k = None" "kr_delete_credential K service_name token_key k = (Inl NoEntry, k')"
  shows "delete_session_token K k = (Inr (), k')"
  using assms by (simp add: delete_session_token_def)

lemma cache_key_stays:
  assumes "keeps_entries K" "length (dr_key d) = 32"
    and "get_or_create_cache_key K A (dr_key d) k = (Inr key, k')"
  shows "get_or_create_cache_key K A fresh k' = (Inr key, k')" "length key = 32"
proof -
  from assms(1) have new: "kr_new K s n k = None" for s n k by (simp add: keeps_entries_def)
  obtain h where h: "kr_get_password K service_name cache_key_name k' = Inr h" "hex_decode h = Some key" "length key = 32"
  proof (cases "kr_get_password K service_name cache_key_name k")
    case (Inr h)
    with assms(3) new that [of h] show thesis
      by (simp add: get_or_create_cache_key_def and_then_Inr_iff ok_or_Inr_iff split: if_splits)
  next
    case (Inl e)
    with assms(3) new obtain u where made: "kr_set_password K service_name cache_key_name (encode_hex (dr_key d)) k = (Inr u, k')"
      and key: "key = dr_key d"
      by (auto simp: get_or_create_cache_key_def split: keyring_error.splits prod.splits sum.splits)
    from made assms(1) have "kr_get_password K service_name cache_key_name k' = Inr (encode_hex (dr_key d))"
      by (simp add: keeps_entries_def)
    with key assms(2) that show thesis by (simp add: hex_decode_encode)
  qed
  then show "get_or_create_cache_key K A fresh k' = (Inr key, k')"
    by (simp add: get_or_create_cache_key_def new and_then_def ok_or_def)
  show "length key = 32" by (rule h(3))
qed

lemma cache_file_inject: "cache_file a = cache_file b \<longleftrightarrow> a = b"
proof -
  have "inj byte_of" by (simp add: inj_def byte_of_inject)
  then show ?thesis by (simp add: cache_file_def encode_hex_inject inj_map_eq_map)
qed

lemma on_ring_iff: "on_ring m s = (r, s') \<longleftrightarrow> (\<exists>k. m (dk_ring s) = (r, k) \<and> s' = s\<lparr>dk_ring := k\<rparr>)"
  by (auto simp: on_ring_def split: prod.split)

text \<open>Storing an item that succeeds puts the sealed bytes into the file of its key and no other.\<close>

lemma set_cached_item_writes:
  assumes "set_cached_item K A d f key data s = (Inr (), s')"
  obtains ck c where "get_or_create_cache_key K A (dr_key d) (dk_ring s) = (Inr ck, dk_ring s')"
    "ci_seal A ck (dr_nonce d) data = Inr c"
    "file_contents (cache_file key) s' = Some (dr_nonce d @ c)"
    "\<And>other. other \<noteq> key \<Longrightarrow> file_contents (cache_file other) s' = file_contents (cache_file other) s"
proof -
  from assms obtain s1 s2 k enc where dir: "create_dir f s = (Inr (), s1)" "create_dir f s1 = (Inr (), s2)"
    and enc: "cache_encrypt K A d data (dk_ring s2) = (Inr enc, k)"
    and w: "write_file f (cache_file key) enc (s2\<lparr>dk_ring := k\<rparr>) = (Inr (), s')"
    by (auto simp: set_cached_item_def set_cached_item_in_dir_def cache_dir_def then_do_Inr_iff on_ring_iff
        split: option.splits)
  from dir obtain files where s2: "dk_dir s2 = Some files" "dk_ring s2 = dk_ring s"
    and same: "\<And>n. hm_get files n = file_contents n s"
    by (auto simp: create_dir_def file_contents_def split: option.splits)
  from w s2 have s': "dk_dir s' = Some (hm_put (cache_file key) enc files)" "dk_ring s' = k"
    by (auto simp: write_file_def split: option.splits)
  from enc s2 obtain ck c where ck: "get_or_create_cache_key K A (dr_key d) (dk_ring s) = (Inr ck, k)"
    and c: "ci_seal A ck (dr_nonce d) data = Inr c" and e: "enc = dr_nonce d @ c"
    by (auto simp: cache_encrypt_def then_do_Inr_iff encrypt_with_key_def map_ok_Inr_iff map_err_Inr_iff)
  show thesis
  proof (rule that [of ck c])
    show "file_contents (cache_file key) s' = Some (dr_nonce d @ c)" by (simp add: file_contents_def s' hm_get_put e)
    show "file_contents (cache_file other) s' = file_contents (cache_file other) s" if "other \<noteq> key" for other
    proof -
      have "cache_file other \<noteq> cache_file key" using that by (simp add: cache_file_inject)
      then show ?thesis using same by (simp add: file_contents_def s' hm_get_put)
    qed
  qed (use ck c s' in simp_all)
qed

lemma get_cached_item_reads:
  assumes "get_or_create_cache_key K A (dr_key d) (dk_ring s) = (Inr ck, dk_ring s)"
    and "file_contents (cache_file key) s = Some (nonce @ c)" "length nonce = nonce_size" "ci_open A ck nonce c = Inr data"
  shows "fst (get_cached_item K A d no_faults key s) = Inr (Some data)"
proof -
  from assms(2) have dir: "cache_dir no_faults s = (Inr (), s)"
    by (auto simp: cache_dir_def create_dir_def no_faults_def file_contents_def split: option.splits)
  have "cache_decrypt K A d (nonce @ c) (dk_ring s) = (Inr data, dk_ring s)"
    using assms by (simp add: cache_decrypt_def then_do_def decrypt_with_key_def map_err_def)
  with dir assms(2) show ?thesis
    by (simp add: get_cached_item_def get_cached_item_in_dir_def then_do_def on_ring_def no_faults_def)
qed

text \<open>An item that the cache has stored is read back by a call without faults, whatever random bytes that
  call draws, and the files of all other keys are as they were.\<close>

theorem cached_item_is_read_back:
  assumes "keeps_entries K" "opens_sealed A" "length (dr_key d) = 32" "length (dr_nonce d) = 12"
    and "set_cached_item K A d f key data s = (Inr (), s')"
  shows "fst (get_cached_item K A d' no_faults key s') = Inr (Some data)
     \<and> (other \<noteq> key \<longrightarrow> file_contents (cache_file other) s' = file_contents (cache_file other) s)"
proof -
  from set_cached_item_writes [OF assms(5)] obtain ck c
    where ck: "get_or_create_cache_key K A (dr_key d) (dk_ring s) = (Inr ck, dk_ring s')"
    and c: "ci_seal A ck (dr_nonce d) data = Inr c"
    and stored: "file_contents (cache_file key) s' = Some (dr_nonce d @ c)"
    and rest: "\<And>other. other \<noteq> key \<Longrightarrow> file_contents (cache_file other) s' = file_contents (cache_file other) s"
    by metis
  have "fst (get_cached_item K A d' no_faults key s') = Inr (Some data)"
    using cache_key_stays(1) [OF assms(1,3) ck] stored
  proof (rule get_cached_item_reads)
    show "length (dr_nonce d) = nonce_size" using assms(4) by (simp add: nonce_size_def)
    show "ci_open A ck (dr_nonce d) c = Inr data" using assms(2) c by (simp add: opens_sealed_def)
  qed
  then show ?thesis using rest by blast
qed

lemma cleared_cache_is_empty:
  assumes "clear_cache f s = (Inr (), s')"
  shows "fst (get_cached_item K A d no_faults key s') = Inr None"
  using assms
  by (auto simp: clear_cache_def get_cached_item_def get_cached_item_in_dir_def cache_dir_def create_dir_def
      no_faults_def file_contents_def then_do_def split: option.splits prod.splits sum.splits)

subsection \<open>Which gateways are accepted\<close>

lemma validate_localhost_url_host:
  "validate_localhost_url url = Some v \<Longrightarrow> v = url \<and> (\<exists>h. extract_host url = Some h \<and> is_local_host h)"
  by (auto simp: validate_localhost_url_def bind_Some_iff split: if_splits)

lemma default_gateway_is_local: "extract_host default_gateway_url = Some ''localhost''"
  by code_simp

lemma gateway_url_is_local:
  "\<exists>h. extract_host (get_gateway_url S env t) = Some h \<and> is_local_host h"
proof -
  have d: "\<exists>h. extract_host default_gateway_url = Some h \<and> is_local_host h"
    by (simp add: default_gateway_is_local is_local_host_def)
  show ?thesis
    unfolding get_gateway_url_def
    by (auto simp: d bind_Some_iff dest!: validate_localhost_url_host split: option.split json.split)
qed

text \<open>The host ends at the first colon, so the name of a user before the real host passes for it.\<close>

lemma user_name_passes_for_host:
  "validate_localhost_url (''ws://localhost:'' @ secret @ ''@'' @ real_host) =
     Some (''ws://localhost:'' @ secret @ ''@'' @ real_host)"
  by (simp add: validate_localhost_url_def extract_host_def starts_with_def is_local_host_def)

end
