(* ===== verification/Spec2Isabelle.thy ===== *)
theory Spec2Isabelle
  imports Authz_Stores Audit_Chain Fill_Model Risk_Engine Paper_Ledger Mismatch Router_Runs Guardian_Durable
    Simulator Scanner_Runtime Agent_Store Backtest Plugin_Registry Gateway_Services Paper_Service
    Kalshi_Stream Polymarket_Stream Polymarket_Client Polymarket_Rpc Alpaca_Stream Hyperliquid_Stream
    Observe Desktop_Client
begin

text \<open>
  A model of the core of AetherDash, a trading system that watches prediction markets and crypto venues,
  finds price differences between them, and executes orders and wallet transactions under human-set
  limits. The model is a translation of its Rust crates; the theorems say what keeps money safe in
  them, and where the code falls short of that.

  \<^bold>\<open>The program and how its parts interact.\<close> The venue packs (\<^verbatim>\<open>connectors/venues\<close>) keep a WebSocket to
  a venue, turn what it sends into quotes and order books, and publish these on a message bus
  (\<^verbatim>\<open>crates/aether-bus\<close>) as envelopes. The scanner (\<^verbatim>\<open>connectors/execution/scanner\<close>) collects them, detects pairs of
  markets that quote across each other, prices the costs with the edge decomposition
  (\<^verbatim>\<open>crates/aether-decompose\<close>), walks the books with the fill model (\<^verbatim>\<open>crates/aether-fillmodel\<close>) and
  records opportunities in a database whose outbox feeds the bus again; the simulator
  (\<^verbatim>\<open>connectors/execution/simulator\<close>) prices a pair on request. An order intent goes to the order router
  (\<^verbatim>\<open>connectors/execution/order-router\<close>), which asks authorization (\<^verbatim>\<open>crates/aether-authz\<close>), the risk
  engine (\<^verbatim>\<open>connectors/execution/risk-engine\<close>) and a per-venue breaker, and then either fills it on the
  paper ledger (\<^verbatim>\<open>connectors/execution/paper-ledger\<close>) or sends it to a venue and reconciles it. Wallet
  transactions go to the wallet guardian (\<^verbatim>\<open>connectors/execution/wallet-guardian\<close>), which applies its policy,
  waits for a human where the policy or the tier asks for one, signs and broadcasts. Automations
  (\<^verbatim>\<open>crates/aether-agents\<close>) are dispatched on a schedule within a budget, propose changes to themselves that
  a human must release, and back-test strategies; plug-ins (\<^verbatim>\<open>crates/aether-plugin\<close>) are admitted, run in
  a sandbox and recorded. People reach the system through the gateway (\<^verbatim>\<open>crates/aether-gateway\<close>): frames
  over a WebSocket, checked against a session and its grant, which become paper intents, confirmations and
  subscriptions. Decisions and events are chained in the audit log (\<^verbatim>\<open>crates/aether-audit\<close>). The types
  they exchange are those of \<^verbatim>\<open>crates/aether-core\<close>.

  \<^bold>\<open>Theories.\<close> Each definition carries the name of the function or type it translates.

  \<^item> \<open>Prelude\<close>: results and the \<^verbatim>\<open>?\<close> operator (\<open>and_then\<close>, \<open>then_do\<close>), hash maps as association lists,
    mutexes with poisoning, text helpers, and the locales shared by the components: \<open>keyed_store\<close>,
    \<open>invariant_machine\<close> and \<open>history_machine\<close> (a step function and what its runs keep), \<open>append_sink\<close>.
    \<open>Rust_Text\<close> and \<open>Hex_Numbers\<close>: text and numerals of the standard library.
  \<^item> \<open>Rust_Decimal\<close>: the package \<^verbatim>\<open>rust_decimal\<close> as a record of partial operations on rationals and
    the locale \<open>decimal_arith\<close> with the laws that the code relies on; \<open>Decimal_Instance\<close> has a rounding
    instance of the laws and the exact arithmetic.
  \<^item> \<open>Core_Types\<close>, \<open>Core_Orders\<close>: \<^verbatim>\<open>crates/aether-core\<close>.
  \<^item> \<open>Authz\<close>, \<open>Authz_Stores\<close>: tiers, actions, grants, the decision and its enforcement; caps,
    step-up challenges, sessions, lock-out and TOTP. \<open>Audit_Chain\<close>: the hash chain and its verifiers.
  \<^item> \<open>Bus_Retry\<close>, \<open>Bus_Messages\<close>: sending with breaker and retry; envelopes, quarantine, the consumer
    and its deferred offsets.
  \<^item> \<open>Fill_Model\<close>, \<open>Risk_Engine\<close>, \<open>Paper_Ledger\<close>, \<open>Mismatch\<close>, \<open>Edge_Costs\<close>: one crate each; \<open>Mismatch\<close>
    has both settlement-mismatch tables, the router's and the decomposition's.
  \<^item> \<open>Order_Adapters\<close>, \<open>Order_Router\<close>, \<open>Router_Runs\<close>: adapters, breakers, reconciler and ceremony; the
    router one call at a time; calls interleaved.
  \<^item> \<open>Guardian_Policy\<close>, \<open>Guardian_Tx\<close>, \<open>Guardian_Service\<close>: policy, nonces and transaction encoding, the
    in-memory service. \<open>Guardian_Db\<close>, \<open>Guardian_Grpc\<close>, \<open>Guardian_Worker\<close>, \<open>Guardian_Durable\<close>: the durable
    guardian on its tables, the gRPC calls, the broadcast worker, and all of them interleaved.
  \<^item> \<open>Scanner_Detect\<close>, \<open>Scanner\<close>, \<open>Scanner_Lifecycle\<close>, \<open>Scanner_Runtime\<close>: detection and scoring, one scan,
    the opportunity store, the incremental runtime and the loops of the process. \<open>Simulator\<close>: the
    simulator and its sensitivity table.
  \<^item> \<open>Paper_Store\<close>, \<open>Paper_Service\<close>: the paper ledger on its tables, transactions that race included,
    and its gRPC calls.
  \<^item> \<open>Agent_Scheduler\<close>, \<open>Agent_Store\<close>, \<open>Backtest\<close>: the scheduler of automations in memory and on
    tables with its worker, the proposals, the back-test.
  \<^item> \<open>Plugin_Gate\<close>, \<open>Plugin_Registry\<close>: manifests, signatures, dependency scan, sandbox and gate of the
    plug-in host; its registry in memory and on tables.
  \<^item> \<open>Gateway_Frames\<close>, \<open>Gateway_Session\<close>, \<open>Gateway_Services\<close>: frames and their handlers, sessions and
    the loop of a connection, token checks and the services behind the gateway.
  \<^item> \<open>Btree_Map\<close>, \<open>Venue_Common\<close>: ordered maps of the standard library, and what the venue packs share.
    \<open>Venue_Http\<close>: requests with retry behind a breaker. \<open>Kalshi_Normalize\<close>, \<open>Kalshi_Stream\<close>, \<open>Kalshi_Orders\<close>,
    \<open>Polymarket_Normalize\<close>, \<open>Polymarket_Stream\<close>, \<open>Polymarket_Client\<close>, \<open>Polymarket_Rpc\<close>, \<open>Alpaca_Client\<close> (with its orders),
    \<open>Alpaca_Stream\<close>, \<open>Hyperliquid_Normalize\<close> (with its client), \<open>Hyperliquid_Stream\<close>: the data, streams, REST
    clients and orders of the four packs, and the chain reads that settle a Polymarket market.
  \<^item> \<open>Observe\<close>: redaction, readiness, metrics and trace identifiers. \<open>Desktop_Client\<close>: the desktop
    client's session token, encrypted cache and gateway address.

  \<^bold>\<open>What the lemmas show.\<close> Per component: the decision functions are characterised by exact
  conditions (authorization, policy, risk); numbers stay within caps and fills within the book;
  encodings determine what they encode; state machines keep their invariants over every interleaving of
  their steps (one execution per intent, distinct nonces, jobs that agree with proposals, one open chain
  per market pair, events that explain the stored state); a signed transaction is the one a human with a
  live session and a valid one-time code approved; refinement of the guardian's service to an
  abstract life cycle; loops return and return the stated result. Over any run
  an automation stays within its budget and grant, a plug-in executes only as a human approved it and at
  most one execution of a version is reported (one that fails may be repeated), an order that the reconciler
  found lost is closed while the sinks work, a gateway
  connection does only what its live grant allows, the stored paper positions are those of the tracker
  given the stored fills; published books and quotes of the venues are ordered and within bounds, orders leave a
  venue pack for its test environment only, a market is settled only as the chain says, a ready answer rests
  on recent checks, and a cached item is read back. Some
  properties state a defect of the code exactly, so that a repair would make them fail.

  \<^bold>\<open>State, errors and effects.\<close> A component's state is a record that its operations return updated.
  A \<^verbatim>\<open>Result\<close> is a sum with the error on the left; a panic is \<open>None\<close> (or a branch of its own where
  another thread goes on after it). Times are integers in milliseconds. Machine integers are words where
  wrap-around can be reached, and natural numbers with the bound written out elsewhere. A database
  transaction is one step on the tables, at the moment it holds its row locks, and commits or changes
  nothing; what it read before it waited for a lock is an argument of the step and may be older; the triggers and checks of the
  schema that only refuse more transactions are left out, except for the opportunity tables, where the
  transition rules are the schema's. Concurrency is interleaving of such steps. Two reads matter: the
  guardian's \<^verbatim>\<open>get_proposal\<close> looks at the broadcast job before it waits for the proposal, so an expired
  proposal can have a prepared job; and a paper transaction reads the position of a market before it
  commits, where no row exists yet that a lock could hold, so \<open>Paper_Store\<close> has transactions that
  overlap, each with its own read and commit.

  \<^bold>\<open>Parameters.\<close> Code outside the repository is an argument: decimal arithmetic (\<open>dec_ops\<close>), random
  numbers, clocks, hashes and signatures, the venue behind an adapter, the Kafka and object-store
  clients, JSON, TOML, decimal, time and URL parsers, the WebAssembly engine, Ed25519, and the sockets, which
  are the list of what they deliver. What a theorem needs of them is a named hypothesis, and a witness
  discharges it on a concrete instance.

  \<^bold>\<open>Bounds and fuel.\<close> Every loop recurses on the list it walks or on a counter that the code itself
  bounds (retry attempts, reconciliation rounds, the pairs of a scan), so no definition needs fuel beyond
  the program's own limits; loops that run for ever (workers, consumers, cycles) are modelled by their
  body, and their runs by lists of steps.

  \<^bold>\<open>Not modelled.\<close> Drivers and clients (Postgres, Redis, Kafka, S3, HTTP, WebSocket, gRPC
  transport), process start-up, metrics endpoints and the command-line tools, which are input and output
  around the modelled functions; canonical JSON hashing and time formatting of \<^verbatim>\<open>crates/aether-core\<close>,
  which print through third-party serialisers; password hashing, a library call; generated protobuf
  types. Strings are ASCII where white space is trimmed or
  case changed, and the panic of a sequence number past the largest \<^verbatim>\<open>u64\<close> is that of a build with overflow
  checks. Of the venue packs the redirects that the HTTP library follows, the rate limiters, which count in floating-point numbers and only delay
  requests, the gRPC servers and the replay and record tools; most of the test harness.
\<close>

end
